(* ===== verification/SfTypes.thy ===== *)
theory SfTypes
  imports Prelude
begin

text \<open>
  The data of the Structured Fields package: the semantic model and the raw syntax tree
  of \<^verbatim>\<open>types.ts\<close>, the errors of \<^verbatim>\<open>errors.ts\<close>, and the resource limits and
  the per-operation budget of \<^verbatim>\<open>limits.ts\<close>. A value of one of these types is a value
  of the TypeScript type of the same name; the \<open>kind\<close> tag of the source is the
  constructor. \<open>undefined\<close> is \<open>None\<close>.
\<close>

section \<open>Semantic model\<close>

datatype bare_item =
    Integer int
  | Decimal int
  | SfString jsstring
  | Token jsstring
  | Bytes "u8 list"
  | Boolean bool
  | Date int
  | DisplayString jsstring

datatype field_type = TItem | TList | TDictionary

type_synonym parameters = "(jsstring \<times> bare_item) list"

record item =
  item_bare :: bare_item
  item_parameters :: parameters

record inner_list =
  inner_items :: "item list"
  inner_parameters :: parameters

datatype member = MItem item | MInnerList inner_list

datatype field =
    FItem item
  | FList "member list"
  | FDictionary "(jsstring \<times> member) list"

fun field_kind :: "field \<Rightarrow> field_type" where
  "field_kind (FItem _) = TItem"
| "field_kind (FList _) = TList"
| "field_kind (FDictionary _) = TDictionary"

section \<open>Raw syntax tree\<close>

text \<open>Half-open offsets into the source; the raw nodes extend the span, as in the source.\<close>

record span =
  span_start :: nat
  span_end :: nat

record raw_bare_item = span +
  rb_value :: bare_item

record raw_parameter = span +
  rp_key :: jsstring
  rp_keySpan :: span
  rp_bare :: "raw_bare_item option"

record raw_item = span +
  ri_bare :: "raw_bare_item option"
  ri_parameters :: "raw_parameter list"

record raw_inner_list = span +
  ril_items :: "raw_item list"
  ril_parameters :: "raw_parameter list"

datatype raw_member = RItem raw_item | RInnerList raw_inner_list

record raw_list = span +
  rl_members :: "raw_member list"

record raw_dictionary_entry = span +
  rde_key :: jsstring
  rde_keySpan :: span
  rde_implicit :: bool
  rde_member :: raw_member

record raw_dictionary = span +
  rd_entries :: "raw_dictionary_entry list"

datatype raw_field =
    RFItem raw_item
  | RFList raw_list
  | RFDictionary raw_dictionary

record raw_document =
  rdoc_fieldType :: field_type
  rdoc_source :: jsstring
  rdoc_root :: raw_field

text \<open>\<open>getParameter\<close> and \<open>getMember\<close>: the first entry with the key.\<close>

definition getParameter :: "parameters \<Rightarrow> jsstring \<Rightarrow> bare_item option" where
  "getParameter ps key = map_option snd (find (\<lambda>(name, _). name = key) ps)"

definition getMember :: "(jsstring \<times> member) list \<Rightarrow> jsstring \<Rightarrow> member option" where
  "getMember entries key = map_option snd (find (\<lambda>(name, _). name = key) entries)"

lemma find_key_map_of: "map_option snd (find (\<lambda>(name, _). name = k) m) = map_of m k"
  by (induction m) auto

lemma getParameter_map_of: "getParameter ps k = map_of ps k"
  by (simp add: getParameter_def find_key_map_of)

lemma getMember_map_of: "getMember es k = map_of es k"
  by (simp add: getMember_def find_key_map_of)

section \<open>Errors\<close>

datatype syntax_reason =
    NonAscii | UnexpectedCharacter | UnexpectedEnd | TrailingData | InvalidKey
  | InvalidNumber | InvalidEscape | InvalidBase64 | InvalidUtf8 | InvalidBoolean

datatype serialization_reason =
    SInvalidStructure | SInvalidKey | SDuplicateKey | SInvalidNumber | SInvalidString
  | SInvalidToken | SInvalidBytes | SInvalidBoolean | SInvalidUnicode

section \<open>Limits\<close>

datatype limit_name =
    MaxInputBytes | MaxOutputBytes | MaxMembers | MaxInnerListItems | MaxParameters
  | MaxKeyLength | MaxTokenLength | MaxDecodedBytes | MaxTotalOccurrences

record limits =
  maxInputBytes :: nat
  maxOutputBytes :: nat
  maxMembers :: nat
  maxInnerListItems :: nat
  maxParameters :: nat
  maxKeyLength :: nat
  maxTokenLength :: nat
  maxDecodedBytes :: nat
  maxTotalOccurrences :: nat

fun limit_of :: "limits \<Rightarrow> limit_name \<Rightarrow> nat" where
  "limit_of l MaxInputBytes = maxInputBytes l"
| "limit_of l MaxOutputBytes = maxOutputBytes l"
| "limit_of l MaxMembers = maxMembers l"
| "limit_of l MaxInnerListItems = maxInnerListItems l"
| "limit_of l MaxParameters = maxParameters l"
| "limit_of l MaxKeyLength = maxKeyLength l"
| "limit_of l MaxTokenLength = maxTokenLength l"
| "limit_of l MaxDecodedBytes = maxDecodedBytes l"
| "limit_of l MaxTotalOccurrences = maxTotalOccurrences l"

fun limit_key :: "limit_name \<Rightarrow> jsstring" where
  "limit_key MaxInputBytes = lit ''maxInputBytes''"
| "limit_key MaxOutputBytes = lit ''maxOutputBytes''"
| "limit_key MaxMembers = lit ''maxMembers''"
| "limit_key MaxInnerListItems = lit ''maxInnerListItems''"
| "limit_key MaxParameters = lit ''maxParameters''"
| "limit_key MaxKeyLength = lit ''maxKeyLength''"
| "limit_key MaxTokenLength = lit ''maxTokenLength''"
| "limit_key MaxDecodedBytes = lit ''maxDecodedBytes''"
| "limit_key MaxTotalOccurrences = lit ''maxTotalOccurrences''"

definition DEFAULT_LIMITS :: limits where
  "DEFAULT_LIMITS = \<lparr>
     maxInputBytes = 1048576, maxOutputBytes = 1048576, maxMembers = 1024,
     maxInnerListItems = 256, maxParameters = 256, maxKeyLength = 1024,
     maxTokenLength = 8192, maxDecodedBytes = 65536, maxTotalOccurrences = 65536\<rparr>"

datatype sf_error =
    SfSyntaxError syntax_reason nat
  | SfSerializationError serialization_reason
  | SfLimitError limit_name nat nat
  | SfConfigurationError jsstring
  | SfTypeError

text \<open>
  The numbers a caller can put into an options object: an integer, or any other
  JavaScript value (a fraction, \<open>NaN\<close>, \<open>Infinity\<close>, a string, \<open>undefined\<close> and so on),
  which every check of the source refuses alike. An options argument is absent, is not
  a plain object (\<open>null\<close>, a primitive, an array), or has own keys, which are strings or
  symbols.
\<close>

datatype js_number = JsInt int | JsNotInteger

datatype js_key = StringKey jsstring | SymbolKey jsstring

datatype 'v js_options = NoOptions | NotAnObject | OwnKeys "(js_key \<times> 'v) list"

definition limit_names :: "limit_name list" where
  "limit_names = [MaxInputBytes, MaxOutputBytes, MaxMembers, MaxInnerListItems,
     MaxParameters, MaxKeyLength, MaxTokenLength, MaxDecodedBytes, MaxTotalOccurrences]"

text \<open>\<open>Object.hasOwn(DEFAULT_LIMITS, key)\<close>\<close>

definition limit_named :: "jsstring \<Rightarrow> limit_name option" where
  "limit_named k = find (\<lambda>n. limit_key n = k) limit_names"

fun set_limit :: "limit_name \<Rightarrow> nat \<Rightarrow> limits \<Rightarrow> limits" where
  "set_limit MaxInputBytes v l = l\<lparr>maxInputBytes := v\<rparr>"
| "set_limit MaxOutputBytes v l = l\<lparr>maxOutputBytes := v\<rparr>"
| "set_limit MaxMembers v l = l\<lparr>maxMembers := v\<rparr>"
| "set_limit MaxInnerListItems v l = l\<lparr>maxInnerListItems := v\<rparr>"
| "set_limit MaxParameters v l = l\<lparr>maxParameters := v\<rparr>"
| "set_limit MaxKeyLength v l = l\<lparr>maxKeyLength := v\<rparr>"
| "set_limit MaxTokenLength v l = l\<lparr>maxTokenLength := v\<rparr>"
| "set_limit MaxDecodedBytes v l = l\<lparr>maxDecodedBytes := v\<rparr>"
| "set_limit MaxTotalOccurrences v l = l\<lparr>maxTotalOccurrences := v\<rparr>"

text \<open>
  \<open>resolveLimits\<close>: first every own key of the overrides must be the name of a limit, in
  the order of the keys; then every resolved value must be a nonnegative safe integer,
  in the order of the defaults. The own keys of an object are distinct.
\<close>

fun reject_unknown :: "(js_key \<times> js_number) list \<Rightarrow> sf_error + unit" where
  "reject_unknown [] = Inr ()"
| "reject_unknown ((SymbolKey s, _) # ks) = Inl (SfConfigurationError s)"
| "reject_unknown ((StringKey s, _) # ks) =
     (if limit_named s = None then Inl (SfConfigurationError s) else reject_unknown ks)"

definition override_of :: "(js_key \<times> js_number) list \<Rightarrow> limit_name \<Rightarrow> js_number option" where
  "override_of ks n = map_of ks (StringKey (limit_key n))"

definition resolve_limit ::
    "(js_key \<times> js_number) list \<Rightarrow> limits \<Rightarrow> limit_name \<Rightarrow> sf_error + limits" where
  "resolve_limit ks l n =
     (case override_of ks n of
        None \<Rightarrow> Inr l
      | Some JsNotInteger \<Rightarrow> Inl (SfConfigurationError (limit_key n))
      | Some (JsInt v) \<Rightarrow>
          if \<not> is_safe_integer v \<or> v < 0 then Inl (SfConfigurationError (limit_key n))
          else Inr (set_limit n (nat v) l))"

fun resolveLimits :: "js_number js_options \<Rightarrow> sf_error + limits" where
  "resolveLimits NotAnObject = Inl (SfConfigurationError (lit ''limits''))"
| "resolveLimits NoOptions = Inr DEFAULT_LIMITS"
| "resolveLimits (OwnKeys ks) =
     bindE (reject_unknown ks) (\<lambda>_. foldE (resolve_limit ks) DEFAULT_LIMITS limit_names)"

section \<open>Budget\<close>

record budget =
  blimits :: limits
  occurrences :: nat

definition new_budget :: "limits \<Rightarrow> budget" where
  "new_budget l = \<lparr>blimits = l, occurrences = 0\<rparr>"

text \<open>\<open>Budget.check\<close>; the observed value of the source is never negative.\<close>

definition check :: "budget \<Rightarrow> limit_name \<Rightarrow> nat \<Rightarrow> sf_error + unit" where
  "check b limit observed =
     (if \<not> is_safe_integer (int observed)
      then Inl (SfConfigurationError (lit ''observed:'' @ limit_key limit))
      else if limit_of (blimits b) limit < observed
      then Inl (SfLimitError limit (limit_of (blimits b) limit) observed)
      else Inr ())"

definition consumeOccurrence :: "budget \<Rightarrow> sf_error + budget" where
  "consumeOccurrence b =
     (let next_count = occurrences b + 1
      in bindE (check b MaxTotalOccurrences next_count)
           (\<lambda>_. Inr (b\<lparr>occurrences := next_count\<rparr>)))"

text \<open>What a passed check says, used by every proof about limits.\<close>

definition within :: "limits \<Rightarrow> limit_name \<Rightarrow> nat \<Rightarrow> bool" where
  "within l n k \<longleftrightarrow> k \<le> limit_of l n \<and> k \<le> max_safe"

lemma check_eq_Inr [simp]: "check b n k = Inr u \<longleftrightarrow> within (blimits b) n k"
  by (auto simp: check_def within_def)

lemma within_check: "within (blimits b) n k \<Longrightarrow> check b n k = Inr ()"
  by (auto simp: check_def within_def)

lemma bindE_check [simp]: "within (blimits b) n k \<Longrightarrow> bindE (check b n k) f = f ()"
  by (simp add: within_check)

lemma within_mono: "within l n k \<Longrightarrow> j \<le> k \<Longrightarrow> within l n j"
  by (auto simp: within_def)

lemma check_errors:
  "check b n k = Inl e \<Longrightarrow>
     (\<exists>m. e = SfLimitError n m k \<and> m < k) \<or> (\<exists>s. e = SfConfigurationError s \<and> max_safe < k)"
  by (auto simp: check_def split: if_splits)

lemma consumeOccurrence_eq_Inr:
  "consumeOccurrence b = Inr b' \<longleftrightarrow>
     within (blimits b) MaxTotalOccurrences (occurrences b + 1) \<and>
     b' = b\<lparr>occurrences := occurrences b + 1\<rparr>"
  by (auto simp: consumeOccurrence_def bindE_eq_Inr)

lemma set_limit_names [simp]: "set limit_names = UNIV"
  by (auto simp: limit_names_def) (metis limit_name.exhaust)

lemma limit_key_inj [simp]: "limit_key m = limit_key n \<longleftrightarrow> m = n"
  by (cases m; cases n) simp_all

lemma limit_named_iff: "limit_named k = Some n \<longleftrightarrow> k = limit_key n"
proof
  assume "limit_named k = Some n"
  then show "k = limit_key n"
    by (auto simp: limit_named_def find_Some_iff)
next
  assume k: "k = limit_key n"
  then have "limit_named k \<noteq> None"
    by (auto simp: limit_named_def find_None_iff)
  then obtain m where "limit_named k = Some m" by auto
  moreover from this have "limit_key m = k"
    by (auto simp: limit_named_def find_Some_iff)
  ultimately show "limit_named k = Some n" using k by simp
qed

lemma limit_of_set_limit: "limit_of (set_limit n v l) m = (if m = n then v else limit_of l m)"
  by (cases n; cases m) auto

definition safe_limits :: "limits \<Rightarrow> bool" where
  "safe_limits l \<longleftrightarrow> (\<forall>n. limit_of l n \<le> max_safe)"

lemma safe_DEFAULT_LIMITS: "safe_limits DEFAULT_LIMITS"
  unfolding safe_limits_def
proof
  fix n show "limit_of DEFAULT_LIMITS n \<le> max_safe"
    by (cases n) (simp_all add: DEFAULT_LIMITS_def max_safe_def)
qed

lemma resolve_limit_safe:
  "resolve_limit ks l n = Inr l' \<Longrightarrow> safe_limits l \<Longrightarrow> safe_limits l'"
  by (auto simp: resolve_limit_def safe_limits_def limit_of_set_limit is_safe_integer_def
      split: option.splits js_number.splits if_splits)

text \<open>Limits the library resolves are safe integers, whatever the caller passes.\<close>

lemma resolveLimits_safe: "resolveLimits opts = Inr l \<Longrightarrow> safe_limits l"
proof (cases opts)
  case (OwnKeys ks)
  assume "resolveLimits opts = Inr l"
  with OwnKeys have "foldE (resolve_limit ks) DEFAULT_LIMITS limit_names = Inr l"
    by (auto simp: bindE_eq_Inr)
  then show "safe_limits l"
    by (rule foldE_invariant) (auto intro: safe_DEFAULT_LIMITS resolve_limit_safe)
qed (auto simp: safe_DEFAULT_LIMITS)

text \<open>What an override does, stated limit by limit.\<close>

fun resolved_value :: "js_number option \<Rightarrow> nat \<Rightarrow> nat option" where
  "resolved_value None d = Some d"
| "resolved_value (Some JsNotInteger) d = None"
| "resolved_value (Some (JsInt v)) d =
     (if 0 \<le> v \<and> v \<le> int max_safe then Some (nat v) else None)"

lemma resolve_limit_value:
  "resolve_limit ks l n = Inr l' \<longleftrightarrow>
     (\<exists>v. resolved_value (override_of ks n) (limit_of l n) = Some v \<and> l' = set_limit n v l)"
proof -
  have "set_limit n (limit_of l n) l = l" by (cases n) auto
  then show ?thesis
    by (auto simp: resolve_limit_def is_safe_integer_def split: option.splits js_number.splits)
qed

lemma foldE_resolve_limit:
  assumes "foldE (resolve_limit ks) l ns = Inr l'" and "distinct ns"
  shows "\<forall>n. if n \<in> set ns
     then resolved_value (override_of ks n) (limit_of l n) = Some (limit_of l' n)
     else limit_of l' n = limit_of l n"
  using assms
proof (induction ns arbitrary: l)
  case Nil
  then show ?case by simp
next
  case (Cons n ns)
  from Cons.prems(1) obtain v where
    v: "resolved_value (override_of ks n) (limit_of l n) = Some v"
       "foldE (resolve_limit ks) (set_limit n v l) ns = Inr l'"
    by (auto simp: bindE_eq_Inr resolve_limit_value)
  show ?case using Cons.IH [OF v(2)] Cons.prems(2) v(1)
    by (auto simp: limit_of_set_limit split: if_splits)
qed

text \<open>An accepted override object gives each limit the override's value, or the
  default where there is none.\<close>

lemma resolveLimits_values:
  assumes "resolveLimits (OwnKeys ks) = Inr l"
  shows "resolved_value (override_of ks n) (limit_of DEFAULT_LIMITS n) = Some (limit_of l n)"
proof -
  from assms have "foldE (resolve_limit ks) DEFAULT_LIMITS limit_names = Inr l"
    by (auto simp: bindE_eq_Inr)
  moreover have "distinct limit_names" by (simp add: limit_names_def)
  ultimately have "\<forall>m. if m \<in> set limit_names
     then resolved_value (override_of ks m) (limit_of DEFAULT_LIMITS m) = Some (limit_of l m)
     else limit_of l m = limit_of DEFAULT_LIMITS m"
    by (rule foldE_resolve_limit)
  then show ?thesis by simp
qed

end
