(* ===== verification/Codecs.thy ===== *)
theory Codecs
  imports Prelude
begin

text \<open>
  The text encodings of the JavaScript and Node standard library the source uses: base64
  and base64url of \<open>Buffer\<close>, UTF-8 of \<open>Buffer\<close> and of a fatal \<open>TextDecoder\<close>, the decimal
  numeral \<open>String(n)\<close>, and the JSON text of an array of strings. The locale
  \<open>text_encoding\<close> is the contract their clients use: what was encoded is decoded again,
  hence encoding is injective; \<open>canonical_encoding\<close> adds that a decoded text is the
  encoding of its value.
\<close>

section \<open>The contract of an encoding\<close>

locale text_encoding =
  fixes valid :: "'a \<Rightarrow> bool"
    and enc :: "'a \<Rightarrow> 'b"
    and dec :: "'b \<Rightarrow> 'a option"
  assumes dec_enc: "valid x \<Longrightarrow> dec (enc x) = Some x"
begin

lemma enc_inject: "valid x \<Longrightarrow> valid y \<Longrightarrow> enc x = enc y \<longleftrightarrow> x = y"
  by (metis dec_enc option.inject)

lemma enc_decodable: "valid x \<Longrightarrow> dec (enc x) \<noteq> None"
  by (simp add: dec_enc)

end

locale canonical_encoding = text_encoding +
  assumes dec_valid: "dec t = Some x \<Longrightarrow> valid x"
    and enc_dec: "dec t = Some x \<Longrightarrow> enc x = t"
begin

lemma dec_eq_Some_iff: "dec t = Some x \<longleftrightarrow> valid x \<and> enc x = t"
  using dec_enc dec_valid enc_dec by blast

lemma dec_inject: "dec t = Some x \<Longrightarrow> dec u = Some x \<Longrightarrow> t = u"
  using enc_dec by blast

end

section \<open>Base64\<close>

text \<open>
  \<open>toString("base64")\<close> and \<open>toString("base64url")\<close>: six bits per character, the last group
  padded with zero bits, and, for the first, with equals signs.
\<close>

definition b64_char :: "nat \<Rightarrow> nat" where
  "b64_char v = (if v < 26 then 65 + v else if v < 52 then 71 + v
     else if v < 62 then v - 4 else if v = 62 then 43 else 47)"

definition b64url_char :: "nat \<Rightarrow> nat" where
  "b64url_char v = (if v < 26 then 65 + v else if v < 52 then 71 + v
     else if v < 62 then v - 4 else if v = 62 then 45 else 95)"

text \<open>Node decodes either alphabet.\<close>

definition b64_value :: "nat \<Rightarrow> nat option" where
  "b64_value c = (if 65 \<le> c \<and> c \<le> 90 then Some (c - 65)
     else if 97 \<le> c \<and> c \<le> 122 then Some (c - 71)
     else if 48 \<le> c \<and> c \<le> 57 then Some (c + 4)
     else if c = 43 \<or> c = 45 then Some 62
     else if c = 47 \<or> c = 95 then Some 63 else None)"

fun b64_sextets :: "nat list \<Rightarrow> nat list" where
  "b64_sextets (x # y # z # r) =
     (x div 4) # ((x mod 4) * 16 + y div 16) # ((y mod 16) * 4 + z div 64) # (z mod 64)
     # b64_sextets r"
| "b64_sextets [x, y] = [x div 4, (x mod 4) * 16 + y div 16, (y mod 16) * 4]"
| "b64_sextets [x] = [x div 4, (x mod 4) * 16]"
| "b64_sextets [] = []"

fun b64_octets :: "nat list \<Rightarrow> nat list" where
  "b64_octets (a # b # c # d # r) =
     (a * 4 + b div 16) # ((b mod 16) * 16 + c div 4) # ((c mod 4) * 64 + d) # b64_octets r"
| "b64_octets [a, b, c] = [a * 4 + b div 16, (b mod 16) * 16 + c div 4]"
| "b64_octets [a, b] = [a * 4 + b div 16]"
| "b64_octets [a] = []"
| "b64_octets [] = []"

definition b64_padding :: "nat \<Rightarrow> nat" where
  "b64_padding n = (if n mod 3 = 1 then 2 else if n mod 3 = 2 then 1 else 0)"

definition base64_encode :: "u8 list \<Rightarrow> jsstring" where
  "base64_encode bs = map b64_char (b64_sextets (map unat bs))
     @ replicate (b64_padding (length bs)) 61"

definition base64url_encode :: "u8 list \<Rightarrow> jsstring" where
  "base64url_encode bs = map b64url_char (b64_sextets (map unat bs))"

text \<open>\<open>Buffer.from(text, "base64")\<close>: decoding ends at the first equals sign, skips characters
  of neither alphabet and drops left-over bits.\<close>

definition base64_decode :: "jsstring \<Rightarrow> u8 list" where
  "base64_decode t =
     map word_of_nat (b64_octets (List.map_filter b64_value (takeWhile (\<lambda>c. c \<noteq> 61) t)))"

lemma length_b64_sextets: "length (b64_sextets xs) = (4 * length xs + 2) div 3"
  by (induction xs rule: b64_sextets.induct) auto

lemma length_b64_octets: "length (b64_octets xs) = 6 * length xs div 8"
  by (induction xs rule: b64_octets.induct) auto

lemma b64_sextets_less: "list_all (\<lambda>x. x < 256) xs \<Longrightarrow> list_all (\<lambda>v. v < 64) (b64_sextets xs)"
  by (induction xs rule: b64_sextets.induct) (auto simp: less_mult_imp_div_less)

lemma b64_octets_sextets:
  "list_all (\<lambda>x. x < 256) xs \<Longrightarrow> b64_octets (b64_sextets xs) = xs"
proof (induction xs rule: b64_sextets.induct)
  case (1 x y z r)
  have "((x mod 4) * 16 + y div 16) div 16 = x mod 4"
    "((x mod 4) * 16 + y div 16) mod 16 = y div 16"
    "((y mod 16) * 4 + z div 64) div 4 = y mod 16"
    "((y mod 16) * 4 + z div 64) mod 4 = z div 64"
    using 1 by auto
  with 1 show ?case by simp
qed auto

lemma b64_value_char: "v < 64 \<Longrightarrow> b64_value (b64_char v) = Some v"
  by (auto simp: b64_value_def b64_char_def)

lemma b64_value_url_char: "v < 64 \<Longrightarrow> b64_value (b64url_char v) = Some v"
  by (auto simp: b64_value_def b64url_char_def)

lemma b64_char_class:
  "v < 64 \<Longrightarrow> alpha (b64_char v) \<or> digit (b64_char v) \<or> b64_char v = 43 \<or> b64_char v = 47"
  by (auto simp: b64_char_def alpha_def digit_def)

lemma map_filter_b64 [simp]:
  "list_all (\<lambda>v. v < 64) vs \<Longrightarrow> List.map_filter b64_value (map b64_char vs) = vs"
  "list_all (\<lambda>v. v < 64) vs \<Longrightarrow> List.map_filter b64_value (map b64url_char vs) = vs"
  by (induction vs) (auto simp: b64_value_char b64_value_url_char List.map_filter_simps)

lemma takeWhile_b64:
  assumes "list_all (\<lambda>v. v < 64) vs"
  shows "takeWhile (\<lambda>c. c \<noteq> 61) (map b64_char vs @ replicate n 61) = map b64_char vs"
    and "takeWhile (\<lambda>c. c \<noteq> 61) (map b64url_char vs) = map b64url_char vs"
proof -
  have "\<forall>v \<in> set vs. b64_char v \<noteq> 61 \<and> b64url_char v \<noteq> 61"
    using assms by (auto simp: list_all_iff b64_char_def b64url_char_def)
  then show "takeWhile (\<lambda>c. c \<noteq> 61) (map b64_char vs @ replicate n 61) = map b64_char vs"
    and "takeWhile (\<lambda>c. c \<noteq> 61) (map b64url_char vs) = map b64url_char vs"
    by (induction vs) auto
qed

lemma list_all_unat_u8: "list_all (\<lambda>x. x < 256) (map unat (bs :: u8 list))"
proof (induction bs)
  case (Cons b bs)
  then show ?case using unsigned_less [of b, where 'a = nat] by simp
qed simp

lemma base64_decode_encode [simp]: "base64_decode (base64_encode bs) = bs"
  using b64_sextets_less [OF list_all_unat_u8, of bs]
  by (simp add: base64_decode_def base64_encode_def takeWhile_b64
      b64_octets_sextets list_all_unat_u8 comp_def)

lemma base64url_decode_encode [simp]: "base64_decode (base64url_encode bs) = bs"
  using b64_sextets_less [OF list_all_unat_u8, of bs]
  by (simp add: base64_decode_def base64url_encode_def takeWhile_b64
      b64_octets_sextets list_all_unat_u8 comp_def)

lemma length_base64_encode: "length (base64_encode bs) = 4 * ((length bs + 2) div 3)"
proof -
  have "(4 * n + 2) div 3 + b64_padding n = 4 * ((n + 2) div 3)" for n
  proof -
    define q where "q = n div 3"
    consider "n = 3 * q" | "n = 3 * q + 1" | "n = 3 * q + 2"
      unfolding q_def by arith
    then show ?thesis
    proof cases
      case 1
      have "(2 + 12 * q) div 3 = 4 * q" "(2 + 3 * q) div 3 = q" by arith+
      with 1 show ?thesis by (simp add: b64_padding_def)
    next
      case 2
      have "(6 + 12 * q) div 3 = 4 * q + 2" "(3 + 3 * q) div 3 = q + 1" "(1 + 3 * q) mod 3 = 1" by arith+
      with 2 show ?thesis by (simp add: b64_padding_def)
    next
      case 3
      have "(10 + 12 * q) div 3 = 4 * q + 3" "(4 + 3 * q) div 3 = q + 1" "(2 + 3 * q) mod 3 = 2" by arith+
      with 3 show ?thesis by (simp add: b64_padding_def)
    qed
  qed
  then show ?thesis by (simp add: base64_encode_def length_b64_sextets)
qed

interpretation base64: text_encoding "\<lambda>_. True" base64_encode "\<lambda>t. Some (base64_decode t)"
  by unfold_locales simp

interpretation base64url: text_encoding "\<lambda>_. True" base64url_encode "\<lambda>t. Some (base64_decode t)"
  by unfold_locales simp

section \<open>UTF-8\<close>

text \<open>\<open>Buffer.from(s, "utf8")\<close>: the UTF-8 bytes of a string of UTF-16 code units; a lone
  surrogate becomes the three bytes of U+FFFD.\<close>

definition high_surrogate :: "nat \<Rightarrow> bool" where
  "high_surrogate c \<longleftrightarrow> 55296 \<le> c \<and> c \<le> 56319"

definition low_surrogate :: "nat \<Rightarrow> bool" where
  "low_surrogate c \<longleftrightarrow> 56320 \<le> c \<and> c \<le> 57343"

definition join6 :: "nat \<Rightarrow> nat \<Rightarrow> nat" where
  "join6 q w = q * 64 + w"

definition utf8_2 :: "nat \<Rightarrow> nat list" where
  "utf8_2 c = [192 + c div 64, 128 + c mod 64]"

definition utf8_3 :: "nat \<Rightarrow> nat list" where
  "utf8_3 c = [224 + c div 64 div 64, 128 + c div 64 mod 64, 128 + c mod 64]"

definition utf8_4 :: "nat \<Rightarrow> nat list" where
  "utf8_4 c = [240 + c div 64 div 64 div 64, 128 + c div 64 div 64 mod 64,
     128 + c div 64 mod 64, 128 + c mod 64]"

definition code_point :: "nat \<Rightarrow> nat \<Rightarrow> nat" where
  "code_point hi lo = 65536 + (hi - 55296) * 1024 + (lo - 56320)"

fun utf8_encode :: "jsstring \<Rightarrow> nat list" where
  "utf8_encode [] = []"
| "utf8_encode (c # r) =
     (if c < 128 then c # utf8_encode r
      else if c < 2048 then utf8_2 c @ utf8_encode r
      else if high_surrogate c then
        (case r of
           d # r' \<Rightarrow> if low_surrogate d then utf8_4 (code_point c d) @ utf8_encode r'
                     else utf8_3 65533 @ utf8_encode r
         | [] \<Rightarrow> utf8_3 65533)
      else if low_surrogate c then utf8_3 65533 @ utf8_encode r
      else utf8_3 c @ utf8_encode r)"

text \<open>\<open>new TextDecoder("utf-8", {fatal: true, ignoreBOM: true}).decode(bytes)\<close>; \<open>None\<close> is the
  thrown \<open>TypeError\<close>.\<close>

definition continuation :: "nat \<Rightarrow> bool" where
  "continuation b \<longleftrightarrow> 128 \<le> b \<and> b \<le> 191"

definition second3 :: "nat \<Rightarrow> nat \<Rightarrow> bool" where
  "second3 a b \<longleftrightarrow> continuation b \<and> (a = 224 \<longrightarrow> 160 \<le> b) \<and> (a = 237 \<longrightarrow> b \<le> 159)"

definition second4 :: "nat \<Rightarrow> nat \<Rightarrow> bool" where
  "second4 a b \<longleftrightarrow> continuation b \<and> (a = 240 \<longrightarrow> 144 \<le> b) \<and> (a = 244 \<longrightarrow> b \<le> 143)"

definition utf16_pair :: "nat \<Rightarrow> jsstring" where
  "utf16_pair cp = [55296 + (cp - 65536) div 1024, 56320 + (cp - 65536) mod 1024]"

fun utf8_decode :: "nat list \<Rightarrow> jsstring option" where
  "utf8_decode [] = Some []"
| "utf8_decode (a # r) =
     (if a < 128 then map_option (\<lambda>s. a # s) (utf8_decode r)
      else if 194 \<le> a \<and> a \<le> 223 then
        (case r of
           b # r' \<Rightarrow>
             if continuation b
             then map_option (\<lambda>s. join6 (a - 192) (b - 128) # s) (utf8_decode r')
             else None
         | _ \<Rightarrow> None)
      else if 224 \<le> a \<and> a \<le> 239 then
        (case r of
           b # c # r' \<Rightarrow>
             if second3 a b \<and> continuation c
             then map_option (\<lambda>s. join6 (join6 (a - 224) (b - 128)) (c - 128) # s) (utf8_decode r')
             else None
         | _ \<Rightarrow> None)
      else if 240 \<le> a \<and> a \<le> 244 then
        (case r of
           b # c # d # r' \<Rightarrow>
             if second4 a b \<and> continuation c \<and> continuation d
             then map_option (\<lambda>s. utf16_pair (join6 (join6 (join6 (a - 240) (b - 128))
                    (c - 128)) (d - 128)) @ s) (utf8_decode r')
             else None
         | _ \<Rightarrow> None)
      else None)"

text \<open>Strings with no lone surrogate, the ones UTF-8 can carry.\<close>

fun well_formed_utf16 :: "jsstring \<Rightarrow> bool" where
  "well_formed_utf16 [] = True"
| "well_formed_utf16 (c # r) =
     (if high_surrogate c then
        (case r of d # r' \<Rightarrow> low_surrogate d \<and> well_formed_utf16 r' | [] \<Rightarrow> False)
      else \<not> low_surrogate c \<and> c < 65536 \<and> well_formed_utf16 r)"

lemmas surrogate_defs = high_surrogate_def low_surrogate_def
lemmas utf8_defs = utf8_2_def utf8_3_def utf8_4_def code_point_def utf16_pair_def
  continuation_def second3_def second4_def

text \<open>Each multi-byte form in terms of its six-bit groups.\<close>

lemma join6_div [simp]: "w < 64 \<Longrightarrow> join6 q w div 64 = q"
  by (simp add: join6_def)

lemma join6_mod [simp]: "w < 64 \<Longrightarrow> join6 q w mod 64 = w"
  by (simp add: join6_def)

lemma six_bit_groups: "\<exists>u v. c = join6 u v \<and> v < 64"
  by (rule exI [of _ "c div 64"], rule exI [of _ "c mod 64"]) (simp add: join6_def)

lemma utf8_2_groups: "w < 64 \<Longrightarrow> utf8_2 (join6 v w) = [192 + v, 128 + w]"
  by (simp add: utf8_2_def)

lemma utf8_3_groups:
  "v < 64 \<Longrightarrow> w < 64 \<Longrightarrow> utf8_3 (join6 (join6 u v) w) = [224 + u, 128 + v, 128 + w]"
  by (simp add: utf8_3_def)

lemma utf8_4_groups:
  "v < 64 \<Longrightarrow> w < 64 \<Longrightarrow> x < 64 \<Longrightarrow>
     utf8_4 (join6 (join6 (join6 u v) w) x) = [240 + u, 128 + v, 128 + w, 128 + x]"
  by (simp add: utf8_4_def)

lemma utf16_pair_code_point:
  assumes "high_surrogate c" "low_surrogate d"
  shows "utf16_pair (code_point c d) = [c, d]"
proof -
  obtain i where "c = 55296 + i" "i < 1024"
    using assms(1) le_Suc_ex [of 55296 c] by (auto simp: high_surrogate_def)
  moreover obtain j where "d = 56320 + j" "j < 1024"
    using assms(2) le_Suc_ex [of 56320 d] by (auto simp: low_surrogate_def)
  ultimately show ?thesis by (simp add: utf16_pair_def code_point_def)
qed

lemma code_point_range:
  "high_surrogate c \<Longrightarrow> low_surrogate d \<Longrightarrow> 65536 \<le> code_point c d \<and> code_point c d < 1114112"
  by (auto simp: code_point_def surrogate_defs)

lemma utf8_decode_2:
  assumes "128 \<le> c" "c < 2048"
  shows "utf8_decode (utf8_2 c @ r) = map_option (\<lambda>s. c # s) (utf8_decode r)"
proof -
  obtain v w where c: "c = join6 v w" "w < 64" using six_bit_groups by blast
  then have "2 \<le> v" "v \<le> 31" using assms by (auto simp: join6_def)
  with c show ?thesis by (simp add: utf8_2_groups continuation_def)
qed

lemma utf8_decode_3:
  assumes "2048 \<le> c" "c < 65536" "\<not> high_surrogate c" "\<not> low_surrogate c"
  shows "utf8_decode (utf8_3 c @ r) = map_option (\<lambda>s. c # s) (utf8_decode r)"
proof -
  obtain q w where c: "c = join6 q w" "w < 64" using six_bit_groups by blast
  obtain u v where q: "q = join6 u v" "v < 64" using six_bit_groups by blast
  have "u \<le> 15" "u = 0 \<Longrightarrow> 32 \<le> v" "u = 13 \<Longrightarrow> v \<le> 31"
    using assms c q by (auto simp: surrogate_defs join6_def)
  with c q show ?thesis by (auto simp: utf8_3_groups second3_def continuation_def)
qed

lemma utf8_decode_4:
  assumes "65536 \<le> c" "c < 1114112"
  shows "utf8_decode (utf8_4 c @ r) = map_option (\<lambda>s. utf16_pair c @ s) (utf8_decode r)"
proof -
  obtain q x where c: "c = join6 q x" "x < 64" using six_bit_groups by blast
  obtain p w where q: "q = join6 p w" "w < 64" using six_bit_groups by blast
  obtain u v where p: "p = join6 u v" "v < 64" using six_bit_groups by blast
  have "u \<le> 4" "u = 0 \<Longrightarrow> 16 \<le> v" "u = 4 \<Longrightarrow> v \<le> 15"
    using assms c q p by (auto simp: join6_def)
  with c q p show ?thesis by (auto simp: utf8_4_groups second4_def continuation_def)
qed

lemma utf8_decode_encode: "well_formed_utf16 s \<Longrightarrow> utf8_decode (utf8_encode s) = Some s"
proof (induction s rule: utf8_encode.induct)
  case 1
  then show ?case by simp
next
  case (2 c r)
  show ?case
  proof (cases "high_surrogate c")
    case True
    with "2.prems" obtain d r' where r: "r = d # r'" "low_surrogate d" "well_formed_utf16 r'"
      by (auto split: list.splits)
    moreover from True have "\<not> c < 128" "\<not> c < 2048" by (auto simp: high_surrogate_def)
    ultimately show ?thesis
      using True 2 code_point_range [OF True r(2)]
      by (simp add: utf8_decode_4 utf16_pair_code_point)
  next
    case False
    with "2.prems" have c: "\<not> low_surrogate c" "c < 65536" "well_formed_utf16 r" by auto
    consider "c < 128" | "128 \<le> c" "c < 2048" | "2048 \<le> c" by linarith
    then show ?thesis using 2 False c by cases (simp_all add: utf8_decode_2 utf8_decode_3)
  qed
qed

lemma utf8_encode_pair:
  assumes "65536 \<le> c" "c < 1114112"
  shows "utf8_encode (utf16_pair c @ s) = utf8_4 c @ utf8_encode s"
    and "well_formed_utf16 (utf16_pair c @ s) \<longleftrightarrow> well_formed_utf16 s"
proof -
  define e where "e = c - 65536"
  have e: "e < 1048576" "c = 65536 + e" using assms by (auto simp: e_def)
  have "e div 1024 < 1024" using e by (simp add: less_mult_imp_div_less)
  then have h: "high_surrogate (55296 + e div 1024)" "low_surrogate (56320 + e mod 1024)"
    by (auto simp: surrogate_defs less_Suc_eq_le [symmetric])
  have "code_point (55296 + e div 1024) (56320 + e mod 1024) = c"
    using e by (simp add: code_point_def)
  with h show "utf8_encode (utf16_pair c @ s) = utf8_4 c @ utf8_encode s"
    and "well_formed_utf16 (utf16_pair c @ s) \<longleftrightarrow> well_formed_utf16 s"
    by (simp_all add: utf16_pair_def e_def [symmetric])
qed

text \<open>The decoder accepts only the shortest encoding of well-formed text.\<close>

lemma utf8_encode_2: "128 \<le> c \<Longrightarrow> c < 2048 \<Longrightarrow> utf8_encode (c # r) = utf8_2 c @ utf8_encode r"
  by simp

lemma utf8_encode_3:
  "2048 \<le> c \<Longrightarrow> \<not> high_surrogate c \<Longrightarrow> \<not> low_surrogate c \<Longrightarrow>
     utf8_encode (c # r) = utf8_3 c @ utf8_encode r"
  by simp

lemma well_formed_Cons:
  "c < 65536 \<Longrightarrow> \<not> high_surrogate c \<Longrightarrow> \<not> low_surrogate c \<Longrightarrow>
     well_formed_utf16 (c # r) \<longleftrightarrow> well_formed_utf16 r"
  by simp

lemma no_surrogate_small: "c < 2048 \<Longrightarrow> \<not> high_surrogate c \<and> \<not> low_surrogate c"
  by (simp add: surrogate_defs)

declare utf8_encode.simps(2) [simp del] well_formed_utf16.simps(2) [simp del]

lemma utf8_round_2:
  assumes "194 \<le> a" "a \<le> 223" "continuation b"
  shows "128 \<le> join6 (a - 192) (b - 128)" "join6 (a - 192) (b - 128) < 2048"
    and "utf8_2 (join6 (a - 192) (b - 128)) = [a, b]"
  using assms by (auto simp: continuation_def utf8_2_groups) (simp_all add: join6_def)

lemma utf8_round_3:
  assumes "224 \<le> a" "a \<le> 239" "second3 a b" "continuation c"
  defines "x \<equiv> join6 (join6 (a - 224) (b - 128)) (c - 128)"
  shows "2048 \<le> x" "x < 65536" "\<not> high_surrogate x" "\<not> low_surrogate x" "utf8_3 x = [a, b, c]"
proof -
  obtain u where a: "a = 224 + u" "u \<le> 15" using assms(1,2) le_Suc_ex by fastforce
  obtain v where b: "b = 128 + v" "v < 64" "u = 0 \<Longrightarrow> 32 \<le> v" "u = 13 \<Longrightarrow> v \<le> 31"
    using assms(3) a le_Suc_ex [of 128 b] by (auto simp: second3_def continuation_def)
  obtain w where c: "c = 128 + w" "w < 64"
    using assms(4) le_Suc_ex [of 128 c] by (auto simp: continuation_def)
  have x: "x = join6 (join6 u v) w" by (simp add: x_def a b c)
  show "utf8_3 x = [a, b, c]" unfolding x using a b c by (simp add: utf8_3_groups)
  show "2048 \<le> x" "x < 65536" unfolding x join6_def
    using a(2) b(2,3) c(2) by (cases "u = 0"; simp)+
  have "u \<le> 12 \<or> u = 13 \<or> 14 \<le> u" by linarith
  then show "\<not> high_surrogate x" "\<not> low_surrogate x"
    unfolding x join6_def surrogate_defs using a(2) b c(2) by auto
qed

lemma utf8_round_4:
  assumes "240 \<le> a" "a \<le> 244" "second4 a b" "continuation c" "continuation d"
  defines "x \<equiv> join6 (join6 (join6 (a - 240) (b - 128)) (c - 128)) (d - 128)"
  shows "65536 \<le> x" "x < 1114112" "utf8_4 x = [a, b, c, d]"
proof -
  obtain u where a: "a = 240 + u" "u \<le> 4" using assms(1,2) le_Suc_ex by fastforce
  obtain v where b: "b = 128 + v" "v < 64" "u = 0 \<Longrightarrow> 16 \<le> v" "u = 4 \<Longrightarrow> v \<le> 15"
    using assms(3) a le_Suc_ex [of 128 b] by (auto simp: second4_def continuation_def)
  obtain w where c: "c = 128 + w" "w < 64"
    using assms(4) le_Suc_ex [of 128 c] by (auto simp: continuation_def)
  obtain y where d: "d = 128 + y" "y < 64"
    using assms(5) le_Suc_ex [of 128 d] by (auto simp: continuation_def)
  have x: "x = join6 (join6 (join6 u v) w) y" by (simp add: x_def a b c d)
  show "utf8_4 x = [a, b, c, d]" unfolding x using a b c d by (simp add: utf8_4_groups)
  show "65536 \<le> x" "x < 1114112" unfolding x join6_def
    using a(2) b(2-4) c(2) d(2) by (cases "u = 0"; cases "u = 4"; simp)+
qed

lemma utf8_encode_decode:
  "utf8_decode t = Some s \<Longrightarrow> utf8_encode s = t \<and> well_formed_utf16 s"
proof (induction t arbitrary: s rule: utf8_decode.induct)
  case 1
  then show ?case by simp
next
  case (2 a r)
  consider "a < 128" | "194 \<le> a" "a \<le> 223" | "224 \<le> a" "a \<le> 239" | "240 \<le> a" "a \<le> 244"
    using "2.prems" by (auto split: if_splits)
  then show ?case
  proof cases
    case 1
    with 2 show ?thesis
      by (auto simp: utf8_encode.simps(2) well_formed_utf16.simps(2) no_surrogate_small)
  next
    case 2
    with "2.prems" obtain b r' s' where r: "r = b # r'" "continuation b" "utf8_decode r' = Some s'"
      and s: "s = join6 (a - 192) (b - 128) # s'"
      by (auto split: list.splits if_splits)
    note x = utf8_round_2 [OF 2 r(2)]
    have "utf8_encode s' = r' \<and> well_formed_utf16 s'"
      using "2.IH"(2) 2 r by auto
    then show ?thesis using x no_surrogate_small [OF x(2)]
      by (simp add: s r utf8_encode_2 well_formed_Cons)
  next
    case 3
    with "2.prems" obtain b c r' s' where r: "r = b # c # r'" "second3 a b" "continuation c"
        "utf8_decode r' = Some s'"
      and s: "s = join6 (join6 (a - 224) (b - 128)) (c - 128) # s'"
      by (auto split: list.splits if_splits)
    note x = utf8_round_3 [OF 3 r(2,3)]
    have "utf8_encode s' = r' \<and> well_formed_utf16 s'"
      using "2.IH"(3) 3 r by auto
    then show ?thesis using x by (simp add: s r utf8_encode_3 well_formed_Cons)
  next
    case 4
    with "2.prems" obtain b c d r' s' where r: "r = b # c # d # r'" "second4 a b"
        "continuation c" "continuation d" "utf8_decode r' = Some s'"
      and s: "s = utf16_pair (join6 (join6 (join6 (a - 240) (b - 128)) (c - 128)) (d - 128)) @ s'"
      by (auto split: list.splits if_splits)
    note x = utf8_round_4 [OF 4 r(2-4)]
    have "utf8_encode s' = r' \<and> well_formed_utf16 s'"
      using "2.IH"(4) 4 r by auto
    then show ?thesis using x by (simp add: s r utf8_encode_pair)
  qed
qed

interpretation utf8: canonical_encoding well_formed_utf16 utf8_encode utf8_decode
  by unfold_locales (auto simp: utf8_decode_encode utf8_encode_decode)

lemma mod64_byte: "128 + (x :: nat) mod 64 < 256"
  using mod_less_divisor [of 64 x] by linarith

lemma utf8_2_bytes: "c < 2048 \<Longrightarrow> list_all (\<lambda>b. b < 256) (utf8_2 c)"
  by (simp add: utf8_2_def mod64_byte)

lemma utf8_3_bytes: "c < 65536 \<Longrightarrow> list_all (\<lambda>b. b < 256) (utf8_3 c)"
  by (simp add: utf8_3_def mod64_byte)

lemma utf8_4_bytes: "c < 1114112 \<Longrightarrow> list_all (\<lambda>b. b < 256) (utf8_4 c)"
  by (simp add: utf8_4_def mod64_byte)

lemma utf8_encode_bytes: "list_all (\<lambda>c. c < 65536) s \<Longrightarrow> list_all (\<lambda>b. b < 256) (utf8_encode s)"
proof (induction s rule: utf8_encode.induct)
  case (2 c r)
  have "high_surrogate c \<Longrightarrow> low_surrogate e \<Longrightarrow> list_all (\<lambda>b. b < 256) (utf8_4 (code_point c e))" for e
    using code_point_range [of c e] by (simp add: utf8_4_bytes)
  moreover have "list_all (\<lambda>b. b < 256) (utf8_3 65533)" by (simp add: utf8_3_bytes)
  ultimately show ?case
    using 2 by (cases r) (simp_all add: utf8_encode.simps(2) utf8_2_bytes utf8_3_bytes)
qed simp

section \<open>Numerals\<close>

text \<open>\<open>String(n)\<close> of a safe integer, and the value of a string of decimal digits.\<close>

fun show_nat :: "nat \<Rightarrow> jsstring" where
  "show_nat n = (if n < 10 then [48 + n] else show_nat (n div 10) @ [48 + n mod 10])"

declare show_nat.simps [simp del]

definition show_int :: "int \<Rightarrow> jsstring" where
  "show_int n = (if n < 0 then 45 # show_nat (nat (- n)) else show_nat (nat n))"

definition read_digits :: "nat \<Rightarrow> jsstring \<Rightarrow> nat" where
  "read_digits = foldl (\<lambda>a c. a * 10 + c - 48)"

lemma read_digits_simps [simp]:
  "read_digits a [] = a"
  "read_digits a (c # cs) = read_digits (a * 10 + c - 48) cs"
  by (simp_all add: read_digits_def)

lemma read_digits_append [simp]: "read_digits a (xs @ ys) = read_digits (read_digits a xs) ys"
  by (simp add: read_digits_def)

lemma show_nat_digits: "list_all digit (show_nat n)"
proof (induction n rule: show_nat.induct)
  case (1 n)
  then show ?case
    by (subst show_nat.simps) (auto simp: digit_def list_all_iff)
qed

lemma show_nat_nonempty [simp]: "show_nat n \<noteq> []"
  by (subst show_nat.simps) simp

lemma read_show_nat [simp]: "read_digits 0 (show_nat n) = n"
proof (induction n rule: show_nat.induct)
  case (1 n)
  then show ?case by (subst show_nat.simps) auto
qed

lemma length_show_nat: "0 < k \<Longrightarrow> length (show_nat n) \<le> k \<longleftrightarrow> n < 10 ^ k"
proof (induction n arbitrary: k rule: show_nat.induct)
  case (1 n)
  show ?case
  proof (cases "n < 10")
    case True
    have "n < 10 ^ k" using True 1 by (metis One_nat_def Suc_leI less_le_trans one_le_numeral
        power_increasing power_one_right)
    with True 1 show ?thesis by (subst show_nat.simps) simp
  next
    case False
    show ?thesis
    proof (cases "k = 1")
      case True
      have "0 < length (show_nat (n div 10))" by simp
      then show ?thesis using False True by (subst show_nat.simps) simp
    next
      case k: False
      then obtain j where j: "k = Suc j" "0 < j" using "1.prems" by (cases k) auto
      have "length (show_nat n) \<le> k \<longleftrightarrow> length (show_nat (n div 10)) \<le> j"
        using False j by (subst show_nat.simps) simp
      also have "\<dots> \<longleftrightarrow> n div 10 < 10 ^ j" using "1.IH" False j by simp
      also have "\<dots> \<longleftrightarrow> n < 10 ^ k" using j by (auto simp: div_less_iff_less_mult)
      finally show ?thesis .
    qed
  qed
qed

lemma digits_less_power: "list_all digit ds \<Longrightarrow> read_digits 0 ds < 10 ^ length ds"
proof (induction ds rule: rev_induct)
  case (snoc d ds)
  then have "read_digits 0 ds + 1 \<le> 10 ^ length ds" "d - 48 \<le> 9" "48 \<le> d"
    by (auto simp: digit_def)
  then show ?case by simp
qed simp

text \<open>\<open>toString(16)\<close> of a byte, padded to two characters.\<close>

definition hexdigit :: "nat \<Rightarrow> nat" where
  "hexdigit v = (if v < 10 then 48 + v else 87 + v)"

definition hex2 :: "nat \<Rightarrow> jsstring" where
  "hex2 b = [hexdigit (b div 16), hexdigit (b mod 16)]"

definition nibble :: "nat \<Rightarrow> nat" where
  "nibble v = (if v \<le> 57 then v - 48 else v - 87)"

lemma nibble_hexdigit [simp]: "v < 16 \<Longrightarrow> nibble (hexdigit v) = v"
  by (auto simp: nibble_def hexdigit_def)

lemma byte_nibbles: "b < 256 \<Longrightarrow> (b :: nat) div 16 < 16"
  by simp

section \<open>JSON text of an array of strings\<close>

text \<open>\<open>JSON.stringify\<close> of an array of strings with no surrogates.\<close>

definition json_escape :: "nat \<Rightarrow> jsstring" where
  "json_escape c = (if c = 34 then [92, 34] else if c = 92 then [92, 92]
     else if c = 8 then [92, 98] else if c = 9 then [92, 116]
     else if c = 10 then [92, 110] else if c = 12 then [92, 102]
     else if c = 13 then [92, 114]
     else if c < 32 then [92, 117, 48, 48] @ hex2 c else [c])"

definition json_quote :: "jsstring \<Rightarrow> jsstring" where
  "json_quote s = [34] @ concat (map json_escape s) @ [34]"

definition json_array :: "jsstring list \<Rightarrow> jsstring" where
  "json_array ss = [91] @ join [44] (map json_quote ss) @ [93]"

text \<open>Reading a quoted string back: its value and the text after it.\<close>

fun json_unquote :: "jsstring \<Rightarrow> (jsstring \<times> jsstring) option" where
  "json_unquote [] = None"
| "json_unquote (c # r) =
     (if c = 34 then Some ([], r)
      else if c = 92 then
        (case r of
           [] \<Rightarrow> None
         | d # r' \<Rightarrow>
             if d = 117 then
               (case r' of
                  _ # _ # x # y # r'' \<Rightarrow>
                    map_option (\<lambda>(s, t). ((nibble x * 16 + nibble y) # s, t)) (json_unquote r'')
                | _ \<Rightarrow> None)
             else map_option
               (\<lambda>(s, t). ((if d = 98 then 8 else if d = 116 then 9 else if d = 110 then 10
                  else if d = 102 then 12 else if d = 114 then 13 else d) # s, t))
               (json_unquote r'))
      else map_option (\<lambda>(s, t). (c # s, t)) (json_unquote r))"

lemma json_unquote_escape:
  "json_unquote (json_escape c @ r) = map_option (\<lambda>(s, t). (c # s, t)) (json_unquote r)"
  by (simp add: json_escape_def hex2_def)

lemma json_unquote_body:
  "json_unquote (concat (map json_escape s) @ 34 # r) = Some (s, r)"
  by (induction s) (auto simp: json_unquote_escape)

lemma json_quote_inject:
  assumes "json_quote s @ r = json_quote s' @ r'"
  shows "s = s' \<and> r = r'"
proof -
  have "json_unquote (concat (map json_escape s) @ 34 # r)
      = json_unquote (concat (map json_escape s') @ 34 # r')"
    using assms by (simp add: json_quote_def)
  then show ?thesis by (simp add: json_unquote_body)
qed

lemma json_join_inject:
  "length xs = length ys \<Longrightarrow>
     join [44] (map json_quote xs) @ [93] = join [44] (map json_quote ys) @ [93] \<Longrightarrow> xs = ys"
proof (induction xs ys rule: list_induct2)
  case (Cons x xs y ys)
  show ?case
  proof (cases "xs = []")
    case True
    with Cons show ?thesis by (auto dest: json_quote_inject [of x "[]" y "[]", simplified])
  next
    case False
    with Cons have "ys \<noteq> []" by auto
    with False Cons.prems have
      "json_quote x @ 44 # join [44] (map json_quote xs) @ [93]
        = json_quote y @ 44 # join [44] (map json_quote ys) @ [93]"
      by (simp add: join_Cons)
    then show ?thesis using Cons.IH by (auto dest: json_quote_inject)
  qed
qed simp

text \<open>The text of a tuple determines the tuple: no delimiter ambiguity.\<close>

lemma json_array_inject:
  "length xs = length ys \<Longrightarrow> json_array xs = json_array ys \<longleftrightarrow> xs = ys"
  by (auto simp: json_array_def dest: json_join_inject)

interpretation json_text: text_encoding "\<lambda>_. True"
    "\<lambda>s. concat (map json_escape s) @ [34]" "\<lambda>t. map_option fst (json_unquote t)"
  by unfold_locales (simp add: json_unquote_body)

end
