(* ===== verification/SfSerializer.thy ===== *)
theory SfSerializer
  imports SfTypes Codecs
begin

text \<open>
  The canonical serializer, \<^verbatim>\<open>serializer.ts\<close>. A \<open>writer\<close> is the object of the class: the
  budget, the chunks appended so far and their total length. The arguments are values of
  the TypeScript types, so the checks for values of another shape
  (\<open>record\<close>, \<open>array\<close>, \<open>pair\<close>, the \<open>typeof\<close> tests) always pass and have no counterpart.
\<close>

record writer =
  wbudget :: budget
  chunks :: "jsstring list"
  wlength :: nat

definition new_writer :: "limits \<Rightarrow> writer" where
  "new_writer l = \<lparr>wbudget = new_budget l, chunks = [], wlength = 0\<rparr>"

definition reserve :: "nat \<Rightarrow> writer \<Rightarrow> sf_error + unit" where
  "reserve n w = check (wbudget w) MaxOutputBytes (wlength w + n)"

definition append :: "jsstring \<Rightarrow> writer \<Rightarrow> sf_error + writer" where
  "append v w = bindE (reserve (length v) w) (\<lambda>_.
     Inr (w\<lparr>wlength := wlength w + length v, chunks := chunks w @ [v]\<rparr>))"

definition finish :: "writer \<Rightarrow> jsstring" where
  "finish w = concat (chunks w)"

definition wcheck :: "limit_name \<Rightarrow> nat \<Rightarrow> writer \<Rightarrow> sf_error + unit" where
  "wcheck n k w = check (wbudget w) n k"

definition wconsume :: "writer \<Rightarrow> sf_error + writer" where
  "wconsume w = bindE (consumeOccurrence (wbudget w)) (\<lambda>b. Inr (w\<lparr>wbudget := b\<rparr>))"

definition reject :: "serialization_reason \<Rightarrow> sf_error + 'a" where
  "reject r = Inl (SfSerializationError r)"

section \<open>Keys\<close>

definition key_first_class :: "nat \<Rightarrow> bool" where
  "key_first_class c \<longleftrightarrow> lower_alpha c \<or> c = 42"

definition key_rest_class :: "nat \<Rightarrow> bool" where
  "key_rest_class c \<longleftrightarrow> lower_alpha c \<or> digit c \<or> c = 95 \<or> c = 46 \<or> c = 42 \<or> c = 45"

fun key_pattern :: "jsstring \<Rightarrow> bool" where
  "key_pattern [] = False"
| "key_pattern (c # cs) = (key_first_class c \<and> list_all key_rest_class cs)"

definition write_key :: "jsstring \<Rightarrow> jsstring list \<Rightarrow> writer \<Rightarrow> sf_error + (jsstring list \<times> writer)" where
  "write_key k seen w =
     bindE (wcheck MaxKeyLength (length k) w) (\<lambda>_.
     if \<not> key_pattern k then reject SInvalidKey
     else if k \<in> set seen then reject SDuplicateKey
     else bindE (reserve (length k) w) (\<lambda>_.
          bindE (append k w) (\<lambda>w1. Inr (k # seen, w1))))"

section \<open>Bare items\<close>

definition max_sf_integer :: int where
  "max_sf_integer = 999999999999999"

definition sf_integer :: "int \<Rightarrow> sf_error + int" where
  "sf_integer v = (if \<not> is_safe_integer v \<or> max_sf_integer < \<bar>v\<bar>
     then reject SInvalidNumber else Inr v)"

text \<open>\<open>padStart(3, "0").replace(/0+$/, "") || "0"\<close>\<close>

definition strip_zeros :: "jsstring \<Rightarrow> jsstring" where
  "strip_zeros s = rev (dropWhile (\<lambda>c. c = 48) (rev s))"

definition pad_start :: "nat \<Rightarrow> jsstring \<Rightarrow> jsstring" where
  "pad_start n s = replicate (n - length s) 48 @ s"

definition fraction_text :: "nat \<Rightarrow> jsstring" where
  "fraction_text f = (let s = strip_zeros (pad_start 3 (show_nat f)) in if s = [] then [48] else s)"

definition decimal_text :: "int \<Rightarrow> jsstring" where
  "decimal_text v = (let magnitude = nat \<bar>v\<bar> in
     (if v < 0 then [45] else []) @ show_nat (magnitude div 1000) @ [46]
       @ fraction_text (magnitude mod 1000))"

definition token_first_class :: "nat \<Rightarrow> bool" where
  "token_first_class c \<longleftrightarrow> alpha c \<or> c = 42"

definition token_rest_class :: "nat \<Rightarrow> bool" where
  "token_rest_class c \<longleftrightarrow> alpha c \<or> digit c \<or>
     c \<in> set (lit ''!#$%&'' @ [39] @ lit ''*+.^_`|~:/-'')"

fun token_pattern :: "jsstring \<Rightarrow> bool" where
  "token_pattern [] = False"
| "token_pattern (c # cs) = (token_first_class c \<and> list_all token_rest_class cs)"

definition quoted :: "nat \<Rightarrow> bool" where
  "quoted c \<longleftrightarrow> c = 34 \<or> c = 92"

fun measure_string :: "nat \<Rightarrow> jsstring \<Rightarrow> writer \<Rightarrow> sf_error + unit" where
  "measure_string encodedSize [] w = Inr ()"
| "measure_string encodedSize (c # cs) w =
     (if c < 32 \<or> 126 < c then reject SInvalidString
      else let size = encodedSize + (if quoted c then 2 else 1) in
        bindE (reserve size w) (\<lambda>_. measure_string size cs w))"

definition escape_string :: "jsstring \<Rightarrow> jsstring" where
  "escape_string s = concat (map (\<lambda>c. if quoted c then [92, c] else [c]) s)"

definition write_string :: "jsstring \<Rightarrow> writer \<Rightarrow> sf_error + writer" where
  "write_string s w =
     bindE (wcheck MaxDecodedBytes (length s) w) (\<lambda>_.
     bindE (reserve (2 + length s) w) (\<lambda>_.
     bindE (measure_string 2 s w) (\<lambda>_.
       append ([34] @ escape_string s @ [34]) w)))"

definition display_plain :: "nat \<Rightarrow> bool" where
  "display_plain b \<longleftrightarrow> 32 \<le> b \<and> b \<le> 126 \<and> b \<noteq> 34 \<and> b \<noteq> 37"

text \<open>One round of the measuring loop: the sizes after a code point of \<open>byteCount\<close> bytes
  that starts with the unit \<open>c\<close>.\<close>

definition measured :: "nat \<Rightarrow> nat \<Rightarrow> nat \<times> nat \<Rightarrow> writer \<Rightarrow> sf_error + (nat \<times> nat)" where
  "measured c byteCount sizes w =
     (let decodedSize = fst sizes + byteCount;
          encodedSize = snd sizes + (if display_plain c then 1 else byteCount * 3) in
      bindE (wcheck MaxDecodedBytes decodedSize w) (\<lambda>_.
      bindE (reserve encodedSize w) (\<lambda>_. Inr (decodedSize, encodedSize))))"

fun measure_display :: "nat \<times> nat \<Rightarrow> jsstring \<Rightarrow> writer \<Rightarrow> sf_error + unit" where
  "measure_display sizes [] w = Inr ()"
| "measure_display sizes (c # cs) w =
     (if high_surrogate c then
        (case cs of
           [] \<Rightarrow> reject SInvalidUnicode
         | low # cs' \<Rightarrow>
             if \<not> low_surrogate low then reject SInvalidUnicode
             else bindE (measured c 4 sizes w) (\<lambda>sizes'. measure_display sizes' cs' w))
      else if low_surrogate c then reject SInvalidUnicode
      else bindE (measured c (if c < 128 then 1 else if c < 2048 then 2 else 3) sizes w)
             (\<lambda>sizes'. measure_display sizes' cs w))"

definition percent_encode :: "nat \<Rightarrow> jsstring" where
  "percent_encode b = (if display_plain b then [b] else 37 # hex2 b)"

definition display_text :: "jsstring \<Rightarrow> jsstring" where
  "display_text s = [37, 34] @ concat (map percent_encode (utf8_encode s))"

definition write_displayString :: "jsstring \<Rightarrow> writer \<Rightarrow> sf_error + writer" where
  "write_displayString s w =
     bindE (wcheck MaxDecodedBytes (length s) w) (\<lambda>_.
     bindE (reserve (3 + length s) w) (\<lambda>_.
     bindE (measure_display (0, 3) s w) (\<lambda>_.
       append (display_text s @ [34]) w)))"

fun write_bare :: "bare_item \<Rightarrow> writer \<Rightarrow> sf_error + writer" where
  "write_bare (Integer v) w = bindE (sf_integer v) (\<lambda>n. append (show_int n) w)"
| "write_bare (Date v) w = bindE (sf_integer v) (\<lambda>n. append (64 # show_int n) w)"
| "write_bare (Decimal v) w = bindE (sf_integer v) (\<lambda>n. append (decimal_text n) w)"
| "write_bare (Boolean b) w = append (if b then lit ''?1'' else lit ''?0'') w"
| "write_bare (Token t) w =
     bindE (wcheck MaxTokenLength (length t) w) (\<lambda>_.
       if \<not> token_pattern t then reject SInvalidToken else append t w)"
| "write_bare (SfString s) w = write_string s w"
| "write_bare (DisplayString s) w = write_displayString s w"
| "write_bare (Bytes bs) w =
     bindE (wcheck MaxDecodedBytes (length bs) w) (\<lambda>_.
     bindE (reserve (2 + 4 * ((length bs + 2) div 3)) w) (\<lambda>_.
       append ([58] @ base64_encode bs @ [58]) w))"

section \<open>Parameters, members, fields\<close>

fun write_parameter_loop :: "parameters \<Rightarrow> jsstring list \<Rightarrow> writer \<Rightarrow> sf_error + writer" where
  "write_parameter_loop [] seen w = Inr w"
| "write_parameter_loop ((k, v) # ps) seen w =
     bindE (wconsume w) (\<lambda>w1.
     bindE (append [59] w1) (\<lambda>w2.
     bindE (write_key k seen w2) (\<lambda>(seen', w3).
     bindE (if v = Boolean True then Inr w3
            else bindE (append [61] w3) (write_bare v))
       (\<lambda>w4. write_parameter_loop ps seen' w4))))"

definition write_parameters :: "parameters \<Rightarrow> writer \<Rightarrow> sf_error + writer" where
  "write_parameters ps w =
     bindE (wcheck MaxParameters (length ps) w) (\<lambda>_. write_parameter_loop ps [] w)"

text \<open>\<open>member\<close> on an item, and on an inner list, whose members are items.\<close>

definition write_item :: "item \<Rightarrow> writer \<Rightarrow> sf_error + writer" where
  "write_item i w =
     bindE (wconsume w) (\<lambda>w1.
     bindE (write_bare (item_bare i) w1) (write_parameters (item_parameters i)))"

fun write_items :: "nat \<Rightarrow> item list \<Rightarrow> writer \<Rightarrow> sf_error + writer" where
  "write_items index [] w = Inr w"
| "write_items index (i # is) w =
     bindE (if index \<noteq> 0 then append [32] w else Inr w) (\<lambda>w1.
     bindE (write_item i w1) (write_items (index + 1) is))"

definition write_inner_list :: "inner_list \<Rightarrow> writer \<Rightarrow> sf_error + writer" where
  "write_inner_list l w =
     bindE (wconsume w) (\<lambda>w1.
     bindE (wcheck MaxInnerListItems (length (inner_items l)) w1) (\<lambda>_.
     bindE (append [40] w1) (\<lambda>w2.
     bindE (write_items 0 (inner_items l) w2) (\<lambda>w3.
     bindE (append [41] w3) (write_parameters (inner_parameters l))))))"

fun write_member :: "member \<Rightarrow> writer \<Rightarrow> sf_error + writer" where
  "write_member (MItem i) w = write_item i w"
| "write_member (MInnerList l) w = write_inner_list l w"

fun write_members :: "nat \<Rightarrow> member list \<Rightarrow> writer \<Rightarrow> sf_error + writer" where
  "write_members index [] w = Inr w"
| "write_members index (m # ms) w =
     bindE (if index \<noteq> 0 then append (lit '', '') w else Inr w) (\<lambda>w1.
     bindE (write_member m w1) (write_members (index + 1) ms))"

text \<open>A dictionary member that is the item \<open>?1\<close> is written as its key and parameters.\<close>

definition write_value :: "member \<Rightarrow> writer \<Rightarrow> sf_error + writer" where
  "write_value m w =
     (case m of
        MItem i \<Rightarrow>
          if item_bare i = Boolean True
          then bindE (wconsume w) (write_parameters (item_parameters i))
          else bindE (append [61] w) (write_member m)
      | MInnerList _ \<Rightarrow> bindE (append [61] w) (write_member m))"

fun write_entries ::
    "nat \<Rightarrow> (jsstring \<times> member) list \<Rightarrow> jsstring list \<Rightarrow> writer \<Rightarrow> sf_error + writer" where
  "write_entries index [] seen w = Inr w"
| "write_entries index ((k, m) # es) seen w =
     bindE (if index \<noteq> 0 then append (lit '', '') w else Inr w) (\<lambda>w1.
     bindE (write_key k seen w1) (\<lambda>(seen', w2).
     bindE (write_value m w2) (write_entries (index + 1) es seen')))"

fun write_field :: "field \<Rightarrow> writer \<Rightarrow> sf_error + writer" where
  "write_field (FItem i) w = write_item i w"
| "write_field (FList ms) w =
     bindE (wcheck MaxMembers (length ms) w) (\<lambda>_. write_members 0 ms w)"
| "write_field (FDictionary es) w =
     bindE (wcheck MaxMembers (length es) w) (\<lambda>_. write_entries 0 es [] w)"

definition serialize :: "field \<Rightarrow> js_number js_options \<Rightarrow> sf_error + jsstring" where
  "serialize f options = bindE (resolveLimits options) (\<lambda>l.
     bindE (write_field f (new_writer l)) (\<lambda>w. Inr (finish w)))"

definition serializeMember :: "member \<Rightarrow> js_number js_options \<Rightarrow> sf_error + jsstring" where
  "serializeMember m options = bindE (resolveLimits options) (\<lambda>l.
     bindE (write_member m (new_writer l)) (\<lambda>w. Inr (finish w)))"

end
