(* ===== verification/SfParser.thy ===== *)
theory SfParser
  imports SfTypes Codecs
begin

text \<open>
  The wire parser, \<^verbatim>\<open>parser.ts\<close>. A \<open>parser\<close> is the object of the class: the
  source, the position and the budget. A method that reads returns the value it read and
  the parser after it, or the thrown error. Each loop of the source is a recursive
  function; it stops because every round advances the position, which the lemmas of the
  collection \<open>parser_advance\<close> say of every method.
\<close>

named_theorems parser_advance \<open>what a successful method leaves unchanged and how it moves\<close>

section \<open>Character classes and the parser object\<close>

definition keyFirst :: "nat \<Rightarrow> bool" where
  "keyFirst c \<longleftrightarrow> (97 \<le> c \<and> c \<le> 122) \<or> c = 42"

definition keyRest :: "nat \<Rightarrow> bool" where
  "keyRest c \<longleftrightarrow> keyFirst c \<or> digit c \<or> c = 95 \<or> c = 45 \<or> c = 46"

definition token_punctuation :: jsstring where
  "token_punctuation = lit ''!#$%&'' @ [39] @ lit ''*+-.^_`|~:/''"

definition tokenRest :: "nat \<Rightarrow> bool" where
  "tokenRest c \<longleftrightarrow> alpha c \<or> digit c \<or> c \<in> set token_punctuation"

definition hex :: "nat \<Rightarrow> bool" where
  "hex c \<longleftrightarrow> digit c \<or> (97 \<le> c \<and> c \<le> 102)"

record parser =
  source :: jsstring
  position :: nat
  pbudget :: budget

text \<open>\<open>this.code()\<close>: \<open>None\<close> is the \<open>NaN\<close> that \<open>charCodeAt\<close> returns past the end, which no
  comparison accepts.\<close>

definition code :: "parser \<Rightarrow> nat option" where
  "code p = (if position p < length (source p) then Some (source p ! position p) else None)"

definition sees :: "(nat \<Rightarrow> bool) \<Rightarrow> parser \<Rightarrow> bool" where
  "sees P p = (case code p of None \<Rightarrow> False | Some c \<Rightarrow> P c)"

definition adv :: "parser \<Rightarrow> parser" where
  "adv p = p\<lparr>position := position p + 1\<rparr>"

definition fail_at :: "syntax_reason \<Rightarrow> nat \<Rightarrow> sf_error + 'a" where
  "fail_at reason offset = Inl (SfSyntaxError reason offset)"

definition fail :: "syntax_reason \<Rightarrow> parser \<Rightarrow> sf_error + 'a" where
  "fail reason p = fail_at reason (position p)"

definition consume :: "parser \<Rightarrow> sf_error + parser" where
  "consume p = bindE (consumeOccurrence (pbudget p)) (\<lambda>b. Inr (p\<lparr>pbudget := b\<rparr>))"

definition remaining :: "parser \<Rightarrow> nat" where
  "remaining p = length (source p) - position p"

lemma fail_simps [simp]: "fail_at r n \<noteq> Inr x" "fail r p \<noteq> Inr x"
  by (simp_all add: fail_at_def fail_def)

lemma adv_simps [simp]:
  "source (adv p) = source p" "position (adv p) = Suc (position p)"
  "pbudget (adv p) = pbudget p"
  by (simp_all add: adv_def)

lemma code_Some: "code p = Some c \<Longrightarrow> position p < length (source p) \<and> c = source p ! position p"
  by (auto simp: code_def split: if_splits)

lemma remaining_adv: "code p = Some c \<Longrightarrow> remaining (adv p) < remaining p"
  by (auto simp: remaining_def dest: code_Some)

lemma seesE: "sees P p \<Longrightarrow> (\<And>c. code p = Some c \<Longrightarrow> P c \<Longrightarrow> thesis) \<Longrightarrow> thesis"
  by (auto simp: sees_def split: option.splits)

text \<open>A method that starts at \<open>p\<close> and ends at \<open>q\<close> keeps the source and the limits, never
  moves back, and only counts occurrences up.\<close>

definition advances :: "parser \<Rightarrow> parser \<Rightarrow> bool" where
  "advances p q \<longleftrightarrow> source q = source p \<and> position p \<le> position q \<and>
     blimits (pbudget q) = blimits (pbudget p) \<and>
     occurrences (pbudget p) \<le> occurrences (pbudget q) \<and>
     (position p \<le> length (source p) \<longrightarrow> position q \<le> length (source p)) \<and>
     (within (blimits (pbudget p)) MaxTotalOccurrences (occurrences (pbudget p)) \<longrightarrow>
      within (blimits (pbudget p)) MaxTotalOccurrences (occurrences (pbudget q)))"

lemma advances_refl [simp, intro]: "advances p p"
  by (simp add: advances_def)

lemma advances_trans [trans]: "advances p q \<Longrightarrow> advances q r \<Longrightarrow> advances p r"
  by (auto simp: advances_def)

lemma advances_adv: "code p = Some c \<Longrightarrow> advances p (adv p)"
  by (auto simp: advances_def dest: code_Some)

definition progress :: "parser \<Rightarrow> parser \<Rightarrow> bool" where
  "progress p q \<longleftrightarrow> advances p q \<and> position p < position q"

lemma progress_adv [intro]: "code p = Some c \<Longrightarrow> progress p (adv p)"
  by (simp add: progress_def advances_adv)

lemma progress_advances [trans]: "progress p q \<Longrightarrow> advances q r \<Longrightarrow> progress p r"
  by (auto simp: progress_def advances_def)

lemma advances_progress [trans]: "advances p q \<Longrightarrow> progress q r \<Longrightarrow> progress p r"
  by (auto simp: progress_def advances_def)

lemma progress_adv1: "code p = Some c \<Longrightarrow> advances (adv p) q \<Longrightarrow> progress p q"
  by (rule progress_advances [OF progress_adv])

lemma progress_adv_1: "code p = Some c \<Longrightarrow> progress (adv p) q \<Longrightarrow> progress p q"
  by (rule progress_adv1) (simp_all add: progress_def)

lemma progress_adv_2:
  "code p = Some c \<Longrightarrow> code (adv p) = Some d \<Longrightarrow> progress (adv (adv p)) q \<Longrightarrow> progress p q"
  by (rule progress_adv_1, assumption, rule progress_adv_1)

lemma progress_adv_3:
  "code p = Some c \<Longrightarrow> code (adv p) = Some d \<Longrightarrow> code (adv (adv p)) = Some e \<Longrightarrow>
     progress (adv (adv (adv p))) q \<Longrightarrow> progress p q"
  by (rule progress_adv_1, assumption, rule progress_adv_2)

lemma progress_imp_advances: "progress p q \<Longrightarrow> advances p q"
  by (simp add: progress_def)

lemma advances_remaining:
  "advances p q \<Longrightarrow> position p < position q \<Longrightarrow> position p < length (source p) \<Longrightarrow>
     remaining q < remaining p"
  by (auto simp: advances_def remaining_def)

lemma consume_advances [parser_advance]:
  "consume p = Inr q \<Longrightarrow> advances p q \<and> position q = position p \<and>
     occurrences (pbudget q) = occurrences (pbudget p) + 1"
  by (auto simp: consume_def bindE_eq_Inr consumeOccurrence_eq_Inr advances_def)

section \<open>Space, keys and tokens\<close>

function spaces :: "bool \<Rightarrow> parser \<Rightarrow> parser" where
  "spaces allowTab p =
     (if sees (\<lambda>c. c = 32 \<or> (allowTab \<and> c = 9)) p then spaces allowTab (adv p) else p)"
  by pat_completeness auto
termination
  by (relation "measure (\<lambda>(_, p). remaining p)") (auto elim!: seesE intro: remaining_adv)

declare spaces.simps [simp del]

function key_rest :: "nat \<Rightarrow> parser \<Rightarrow> sf_error + parser" where
  "key_rest start p =
     (if sees keyRest p
      then bindE (check (pbudget p) MaxKeyLength (position p - start + 1))
             (\<lambda>_. key_rest start (adv p))
      else Inr p)"
  by pat_completeness auto
termination
  by (relation "measure (\<lambda>(_, p). remaining p)") (auto elim!: seesE intro: remaining_adv)

declare key_rest.simps [simp del]

definition slice :: "jsstring \<Rightarrow> nat \<Rightarrow> nat \<Rightarrow> jsstring" where
  "slice s i j = take (j - i) (drop i s)"

definition key :: "parser \<Rightarrow> sf_error + ((jsstring \<times> span) \<times> parser)" where
  "key p =
     (let start = position p in
      if \<not> sees keyFirst p then fail InvalidKey p
      else bindE (key_rest start p) (\<lambda>q.
        Inr ((slice (source q) start (position q),
              \<lparr>span_start = start, span_end = position q\<rparr>), q)))"

function token_rest :: "nat \<Rightarrow> parser \<Rightarrow> sf_error + parser" where
  "token_rest start p =
     (if sees tokenRest p
      then bindE (check (pbudget p) MaxTokenLength (position p - start + 1))
             (\<lambda>_. token_rest start (adv p))
      else Inr p)"
  by pat_completeness auto
termination
  by (relation "measure (\<lambda>(_, p). remaining p)") (auto elim!: seesE intro: remaining_adv)

declare token_rest.simps [simp del]

definition token :: "parser \<Rightarrow> sf_error + (jsstring \<times> parser)" where
  "token p =
     (let start = position p in
      bindE (token_rest start p) (\<lambda>q. Inr (slice (source q) start (position q), q)))"

section \<open>Numbers\<close>

text \<open>The two digit loops of \<open>number\<close>: at most fifteen integer and three fraction digits. The
  accumulator is a JavaScript number; \<open>number_exact\<close> below shows it never rounds.\<close>

function digit_loop :: "nat \<Rightarrow> nat \<Rightarrow> nat \<Rightarrow> parser \<Rightarrow> sf_error + (nat \<times> parser)" where
  "digit_loop maximum start acc p =
     (case code p of
        Some c \<Rightarrow>
          if digit c then
            if maximum \<le> position p - start then fail InvalidNumber p
            else digit_loop maximum start (acc * 10 + c - 48) (adv p)
          else Inr (acc, p)
      | None \<Rightarrow> Inr (acc, p))"
  by pat_completeness auto
termination
  by (relation "measure (\<lambda>(_, _, _, p). remaining p)") (auto intro: remaining_adv)

declare digit_loop.simps [simp del]

definition signed :: "bool \<Rightarrow> nat \<Rightarrow> int" where
  "signed negative n = (if negative \<and> n \<noteq> 0 then - int n else int n)"

definition number :: "parser \<Rightarrow> sf_error + (bare_item \<times> parser)" where
  "number p =
     (let start = position p;
          negative = sees (\<lambda>c. c = 45) p;
          p1 = (if negative then adv p else p);
          integerStart = position p1 in
      if \<not> sees digit p1 then fail InvalidNumber p1
      else bindE (digit_loop 15 integerStart 0 p1) (\<lambda>(integer, p2).
        if \<not> sees (\<lambda>c. c = 46) p2 then Inr (Integer (signed negative integer), p2)
        else if 12 < position p2 - integerStart then fail_at InvalidNumber start
        else let p3 = adv p2; fractionStart = position p3 in
          bindE (digit_loop 3 fractionStart 0 p3) (\<lambda>(fraction, p4).
            let digits = position p4 - fractionStart in
            if digits = 0 then fail InvalidNumber p4
            else Inr (Decimal (signed negative (integer * 1000 + fraction * 10 ^ (3 - digits))), p4))))"

section \<open>Strings\<close>

function string_loop :: "jsstring \<Rightarrow> parser \<Rightarrow> sf_error + (jsstring \<times> parser)" where
  "string_loop out p =
     (case code p of
        None \<Rightarrow> fail UnexpectedEnd p
      | Some c \<Rightarrow>
          let p1 = adv p in
          if c = 34 then Inr (out, p1)
          else if c = 92 then
            (case code p1 of
               None \<Rightarrow> fail InvalidEscape p1
             | Some d \<Rightarrow>
                 if d \<noteq> 34 \<and> d \<noteq> 92 then fail InvalidEscape p1
                 else let p2 = adv p1 in
                   bindE (check (pbudget p2) MaxDecodedBytes (length out + 1))
                     (\<lambda>_. string_loop (out @ [d]) p2))
          else if c < 32 \<or> 126 < c then fail_at UnexpectedCharacter (position p1 - 1)
          else bindE (check (pbudget p1) MaxDecodedBytes (length out + 1))
                 (\<lambda>_. string_loop (out @ [c]) p1))"
  by pat_completeness auto
termination
  by (relation "measure (\<lambda>(_, p). remaining p)")
    (auto intro: remaining_adv less_trans [OF remaining_adv remaining_adv])

declare string_loop.simps [simp del]

definition sf_string :: "parser \<Rightarrow> sf_error + (jsstring \<times> parser)" where
  "sf_string p = string_loop [] (adv p)"

section \<open>Byte sequences\<close>

definition base64_alphabet :: "nat \<Rightarrow> bool" where
  "base64_alphabet c \<longleftrightarrow> alpha c \<or> digit c \<or> c = 43 \<or> c = 47"

function bytes_loop :: "nat \<Rightarrow> nat \<Rightarrow> parser \<Rightarrow> sf_error + ((nat \<times> nat) \<times> parser)" where
  "bytes_loop contentLength padding p =
     (case code p of
        None \<Rightarrow> Inr ((contentLength, padding), p)
      | Some c \<Rightarrow>
          if c = 58 then Inr ((contentLength, padding), p)
          else if c = 61 then
            if 2 < padding + 1 then fail InvalidBase64 p
            else bytes_loop contentLength (padding + 1) (adv p)
          else if padding \<noteq> 0 \<or> \<not> base64_alphabet c then fail InvalidBase64 p
          else bindE (check (pbudget p) MaxDecodedBytes ((contentLength + 1) * 6 div 8))
                 (\<lambda>_. bytes_loop (contentLength + 1) padding (adv p)))"
  by pat_completeness auto
termination
  by (relation "measure (\<lambda>(_, _, p). remaining p)") (auto intro: remaining_adv)

declare bytes_loop.simps [simp del]

definition sf_bytes :: "parser \<Rightarrow> sf_error + (u8 list \<times> parser)" where
  "sf_bytes p =
     (let p1 = adv p; start = position p1 in
      bindE (bytes_loop 0 0 p1) (\<lambda>((contentLength, padding), p2).
        if \<not> sees (\<lambda>c. c = 58) p2 then fail UnexpectedEnd p2
        else let remainder = contentLength mod 4; expectedPadding = (4 - remainder) mod 4 in
          if remainder = 1 \<or> expectedPadding < padding then fail_at InvalidBase64 start
          else Inr (base64_decode (slice (source p2) start (position p2)), adv p2)))"

section \<open>Display strings\<close>

function display_loop :: "nat list \<Rightarrow> parser \<Rightarrow> sf_error + (jsstring \<times> parser)" where
  "display_loop bytes p =
     (case code p of
        None \<Rightarrow> fail UnexpectedEnd p
      | Some c \<Rightarrow>
          let p1 = adv p in
          if c = 34 then
            (case utf8_decode bytes of Some s \<Rightarrow> Inr (s, p1) | None \<Rightarrow> fail InvalidUtf8 p1)
          else if c < 32 \<or> 126 < c then fail_at UnexpectedCharacter (position p1 - 1)
          else if c = 37 then
            (case (code p1, code (adv p1)) of
               (Some first, Some second) \<Rightarrow>
                 if \<not> hex first \<or> \<not> hex second then fail InvalidEscape p1
                 else let p3 = adv (adv p1) in
                   bindE (check (pbudget p3) MaxDecodedBytes (length bytes + 1))
                     (\<lambda>_. display_loop (bytes @ [nibble first * 16 + nibble second]) p3)
             | _ \<Rightarrow> fail InvalidEscape p1)
          else bindE (check (pbudget p1) MaxDecodedBytes (length bytes + 1))
                 (\<lambda>_. display_loop (bytes @ [c]) p1))"
  by pat_completeness auto
termination
  by (relation "measure (\<lambda>(_, p). remaining p)")
    (auto intro: remaining_adv
      intro!: less_trans [OF remaining_adv less_trans [OF remaining_adv remaining_adv]] dest: sym)

declare display_loop.simps [simp del]

definition displayString :: "parser \<Rightarrow> sf_error + (jsstring \<times> parser)" where
  "displayString p =
     (let p1 = adv p in
      if \<not> sees (\<lambda>c. c = 34) p1 then fail UnexpectedCharacter p1
      else display_loop [] (adv p1))"

section \<open>Bare items\<close>

definition bare_value :: "parser \<Rightarrow> sf_error + (bare_item \<times> parser)" where
  "bare_value p =
     (let start = position p in
      case code p of
        None \<Rightarrow> fail UnexpectedEnd p
      | Some c \<Rightarrow>
          if digit c \<or> c = 45 then number p
          else if c = 34 then bindE (sf_string p) (\<lambda>(s, q). Inr (SfString s, q))
          else if alpha c \<or> c = 42 then bindE (token p) (\<lambda>(s, q). Inr (Token s, q))
          else if c = 58 then bindE (sf_bytes p) (\<lambda>(bs, q). Inr (Bytes bs, q))
          else if c = 63 then
            (let p1 = adv p in
             if \<not> sees (\<lambda>d. d = 48) p1 \<and> \<not> sees (\<lambda>d. d = 49) p1 then fail InvalidBoolean p1
             else Inr (Boolean (sees (\<lambda>d. d = 49) p1), adv p1))
          else if c = 64 then
            bindE (number (adv p)) (\<lambda>(numeric, q).
              case numeric of
                Integer n \<Rightarrow> Inr (Date n, q)
              | _ \<Rightarrow> fail_at InvalidNumber start)
          else if c = 37 then bindE (displayString p) (\<lambda>(s, q). Inr (DisplayString s, q))
          else fail (if position p = length (source p) then UnexpectedEnd else UnexpectedCharacter) p)"

definition bare :: "parser \<Rightarrow> sf_error + (raw_bare_item \<times> parser)" where
  "bare p = bindE (bare_value p) (\<lambda>(value, q).
     Inr (\<lparr>span_start = position p, span_end = position q, rb_value = value\<rparr>, q))"

section \<open>How the scanning loops move\<close>

lemma spaces_advances [parser_advance]: "advances p (spaces t p)"
proof (induction t p rule: spaces.induct)
  case (1 t p)
  show ?case
  proof (cases "sees (\<lambda>c. c = 32 \<or> (t \<and> c = 9)) p")
    case True
    then have "advances p (adv p)" by (auto elim!: seesE intro: advances_adv)
    also have "advances (adv p) (spaces t (adv p))" using 1 True .
    finally show ?thesis using True by (subst spaces.simps) simp
  next
    case False
    then show ?thesis by (subst spaces.simps) simp
  qed
qed

lemma key_rest_advances [parser_advance]: "key_rest start p = Inr q \<Longrightarrow> advances p q"
proof (induction start p rule: key_rest.induct)
  case (1 start p)
  show ?case
  proof (cases "sees keyRest p")
    case True
    then have "advances p (adv p)" by (auto elim!: seesE intro: advances_adv)
    moreover have "advances (adv p) q"
      using 1 True by (auto simp: key_rest.simps [of start p] bindE_eq_Inr)
    ultimately show ?thesis by (rule advances_trans)
  next
    case False
    with 1 show ?thesis by (simp add: key_rest.simps [of start p])
  qed
qed

lemma token_rest_advances [parser_advance]: "token_rest start p = Inr q \<Longrightarrow> advances p q"
proof (induction start p rule: token_rest.induct)
  case (1 start p)
  show ?case
  proof (cases "sees tokenRest p")
    case True
    then have "advances p (adv p)" by (auto elim!: seesE intro: advances_adv)
    moreover have "advances (adv p) q"
      using 1 True by (auto simp: token_rest.simps [of start p] bindE_eq_Inr)
    ultimately show ?thesis by (rule advances_trans)
  next
    case False
    with 1 show ?thesis by (simp add: token_rest.simps [of start p])
  qed
qed

lemma digit_loop_advances [parser_advance]:
  "digit_loop m start acc p = Inr (n, q) \<Longrightarrow> advances p q"
proof (induction m start acc p rule: digit_loop.induct)
  case (1 m start acc p)
  then show ?case
    by (auto simp: digit_loop.simps [of m start acc p] split: option.splits if_splits
        intro: progress_imp_advances [OF progress_adv1])
qed

lemma string_loop_advances [parser_advance]:
  "string_loop out p = Inr (s, q) \<Longrightarrow> progress p q"
proof (induction out p rule: string_loop.induct)
  case (1 out p)
  then show ?case
    by (auto simp: string_loop.simps [of out p] Let_def bindE_eq_Inr split: option.splits if_splits
        intro: progress_adv_1 progress_adv_2)
qed

lemma bytes_loop_advances [parser_advance]:
  "bytes_loop n k p = Inr (r, q) \<Longrightarrow> advances p q"
proof (induction n k p rule: bytes_loop.induct)
  case (1 n k p)
  then show ?case
    by (auto simp: bytes_loop.simps [of n k p] bindE_eq_Inr split: option.splits if_splits
        intro: progress_imp_advances [OF progress_adv1])
qed

lemma display_loop_advances [parser_advance]:
  "display_loop bs p = Inr (s, q) \<Longrightarrow> progress p q"
proof (induction bs p rule: display_loop.induct)
  case (1 bs p)
  then show ?case
    by (auto simp: display_loop.simps [of bs p] Let_def bindE_eq_Inr split: option.splits if_splits
        intro: progress_adv_1 progress_adv_3)
qed

lemma sees_progress: "sees P p \<Longrightarrow> progress p (adv p)"
  by (auto elim: seesE)

lemma key_advances [parser_advance]: "key p = Inr (k, q) \<Longrightarrow> progress p q"
proof -
  assume "key p = Inr (k, q)"
  then have first: "sees keyFirst p" and rest: "key_rest (position p) p = Inr q"
    by (auto simp: key_def Let_def bindE_eq_Inr split: if_splits)
  from first have rest': "key_rest (position p) (adv p) = Inr q" "sees keyRest p"
    using rest by (auto simp: key_rest.simps [of _ p] bindE_eq_Inr sees_def keyRest_def
        split: option.splits if_splits)
  then show "progress p q"
    by (auto intro: progress_advances [OF sees_progress key_rest_advances])
qed

lemma digit_loop_progress: "digit_loop m start acc p = Inr (n, q) \<Longrightarrow> sees digit p \<Longrightarrow> progress p q"
  by (auto simp: digit_loop.simps [of m start acc p] sees_def split: option.splits if_splits
      intro: progress_adv1 digit_loop_advances)

lemma number_advances [parser_advance]: "number p = Inr (v, q) \<Longrightarrow> progress p q"
proof -
  assume n: "number p = Inr (v, q)"
  define p1 where "p1 = (if sees (\<lambda>c. c = 45) p then adv p else p)"
  have p1: "advances p p1" by (auto simp: p1_def elim: seesE intro: advances_adv)
  from n obtain i p2 where d: "sees digit p1" "digit_loop 15 (position p1) 0 p1 = Inr (i, p2)"
    by (auto simp: number_def Let_def p1_def [symmetric] bindE_eq_Inr split: if_splits)
  then have p2: "progress p p2" using p1 by (metis advances_progress digit_loop_progress)
  have "advances p2 q"
  proof (cases "sees (\<lambda>c. c = 46) p2")
    case True
    with n d obtain f where "digit_loop 3 (position (adv p2)) 0 (adv p2) = Inr (f, q)"
      by (auto simp: number_def Let_def p1_def [symmetric] bindE_eq_Inr split: if_splits)
    then show ?thesis using True
      by (metis digit_loop_advances progress_advances progress_imp_advances sees_progress)
  next
    case False
    with n d show ?thesis
      by (auto simp: number_def Let_def p1_def [symmetric] bindE_eq_Inr split: if_splits)
  qed
  with p2 show "progress p q" by (rule progress_advances)
qed

lemma integer_case:
  "(case n of Integer i \<Rightarrow> Inr (Date i, q) | _ \<Rightarrow> fail_at r s) = Inr (v, q') \<longleftrightarrow>
     (\<exists>i. n = Integer i \<and> v = Date i \<and> q' = q)"
  by (cases n) auto

lemma bare_value_advances [parser_advance]: "bare_value p = Inr (v, q) \<Longrightarrow> progress p q"
proof -
  assume b: "bare_value p = Inr (v, q)"
  then obtain c where c: "code p = Some c"
    by (cases "code p") (auto simp: bare_value_def Let_def)
  have tok: "token p = Inr (s, q) \<Longrightarrow> alpha c \<or> c = 42 \<Longrightarrow> progress p q" for s
  proof -
    assume "token p = Inr (s, q)" and a: "alpha c \<or> c = 42"
    then have r: "token_rest (position p) p = Inr q"
      by (auto simp: token_def Let_def bindE_eq_Inr)
    have "tokenRest c" using a by (auto simp: tokenRest_def token_punctuation_def)
    with r c show "progress p q"
      by (auto simp: token_rest.simps [of _ p] sees_def bindE_eq_Inr
          intro: progress_adv1 token_rest_advances)
  qed
  show "progress p q"
    using b c
    by (auto simp: bare_value_def Let_def bindE_eq_Inr sf_string_def sf_bytes_def displayString_def
          integer_case
        split: if_splits
        elim!: seesE
        intro: number_advances progress_adv_1 [OF _ number_advances] progress_adv_1 tok
          progress_adv_1 [OF _ string_loop_advances] progress_adv_2 [OF _ _ display_loop_advances]
          progress_adv1 [OF _ advances_trans [OF bytes_loop_advances advances_adv]])
qed

lemma bare_advances [parser_advance]: "bare p = Inr (v, q) \<Longrightarrow> progress p q"
  by (auto simp: bare_def bindE_eq_Inr intro: bare_value_advances)

section \<open>Parameters, items, inner lists\<close>

lemma progress_remaining: "sees P p \<Longrightarrow> progress p q \<Longrightarrow> remaining q < remaining p"
  by (auto simp: progress_def elim!: seesE intro: advances_remaining dest: code_Some)

lemma code_consume: "consume p = Inr p1 \<Longrightarrow> code p1 = code p"
  by (auto simp: consume_def bindE_eq_Inr code_def)

lemma sees_consume: "consume p = Inr p1 \<Longrightarrow> sees P p1 \<longleftrightarrow> sees P p"
  by (simp add: sees_def code_consume)

lemma consume_progress: "consume p = Inr p1 \<Longrightarrow> progress p1 q \<Longrightarrow> progress p q"
  using consume_advances advances_progress by blast

lemma consume_adv_progress:
  "sees P p \<Longrightarrow> consume p = Inr p1 \<Longrightarrow> advances (adv p1) q \<Longrightarrow> progress p q"
  by (metis consume_progress progress_advances sees_consume sees_progress)

definition parameter :: "parser \<Rightarrow> sf_error + (raw_parameter \<times> parser)" where
  "parameter p =
     bindE (consume p) (\<lambda>p1.
     let start = position p1 in
     bindE (key (spaces False (adv p1))) (\<lambda>((k, keySpan), p2).
     if sees (\<lambda>c. c = 61) p2 then
       bindE (bare (adv p2)) (\<lambda>(b, p3).
         Inr (\<lparr>span_start = start, span_end = position p3,
                rp_key = k, rp_keySpan = keySpan, rp_bare = Some b\<rparr>, p3))
     else
       Inr (\<lparr>span_start = start, span_end = position p2,
              rp_key = k, rp_keySpan = keySpan, rp_bare = None\<rparr>, p2)))"

lemma key_spaces_progress:
  "sees P p \<Longrightarrow> consume p = Inr p1 \<Longrightarrow> key (spaces t (adv p1)) = Inr (k, q) \<Longrightarrow> progress p q"
  by (rule consume_adv_progress)
    (auto intro: advances_trans [OF spaces_advances] progress_imp_advances key_advances)

lemma bare_adv_progress: "sees P p \<Longrightarrow> bare (adv p) = Inr (b, q) \<Longrightarrow> progress p q"
  by (metis bare_advances progress_advances progress_imp_advances sees_progress)

lemma parameter_advances [parser_advance]:
  "sees P p \<Longrightarrow> parameter p = Inr (r, q) \<Longrightarrow> progress p q"
  by (auto simp: parameter_def Let_def bindE_eq_Inr split: if_splits
      intro: key_spaces_progress progress_advances [OF key_spaces_progress
          progress_imp_advances [OF bare_adv_progress]])

function parameter_loop ::
    "raw_parameter list \<Rightarrow> parser \<Rightarrow> sf_error + (raw_parameter list \<times> parser)" where
  "parameter_loop ps p =
     (if sees (\<lambda>c. c = 59) p then
        bindE (check (pbudget p) MaxParameters (length ps + 1)) (\<lambda>_.
        bindE (parameter p) (\<lambda>(r, q). parameter_loop (ps @ [r]) q))
      else Inr (ps, p))"
  by pat_completeness auto
termination
  by (relation "measure (\<lambda>(_, p). remaining p)")
    (auto intro: progress_remaining parameter_advances)

declare parameter_loop.simps [simp del]

definition parameters :: "parser \<Rightarrow> sf_error + (raw_parameter list \<times> parser)" where
  "parameters p = parameter_loop [] p"

definition item :: "parser \<Rightarrow> sf_error + (raw_item \<times> parser)" where
  "item p = bindE (consume p) (\<lambda>p1.
     bindE (bare p1) (\<lambda>(b, p2).
     bindE (parameters p2) (\<lambda>(ps, p3).
       Inr (\<lparr>span_start = position p1, span_end = position p3,
              ri_bare = Some b, ri_parameters = ps\<rparr>, p3))))"

lemma parameter_loop_advances [parser_advance]:
  "parameter_loop ps p = Inr (qs, q) \<Longrightarrow> advances p q"
proof (induction ps p rule: parameter_loop.induct)
  case (1 ps p)
  then show ?case
    by (auto simp: parameter_loop.simps [of ps p] bindE_eq_Inr split: if_splits
        intro: advances_trans [OF progress_imp_advances [OF parameter_advances]])
qed

lemma parameters_advances [parser_advance]: "parameters p = Inr (qs, q) \<Longrightarrow> advances p q"
  by (simp add: parameters_def parameter_loop_advances)

lemma item_advances [parser_advance]: "item p = Inr (v, q) \<Longrightarrow> progress p q"
  by (auto simp: item_def bindE_eq_Inr
      intro: consume_progress progress_advances [OF bare_advances parameters_advances])

text \<open>\<open>innerList\<close>: the loop body reads spaces, then either the closing parenthesis and the
  parameters, or one more item that a space or the parenthesis must follow.\<close>

function inner_list_loop ::
    "nat \<Rightarrow> raw_item list \<Rightarrow> parser \<Rightarrow> sf_error + (raw_inner_list \<times> parser)" where
  "inner_list_loop start items p =
     (if position p < length (source p) then
        let p1 = spaces False p in
        if sees (\<lambda>c. c = 41) p1 then
          bindE (parameters (adv p1)) (\<lambda>(ps, p2).
            Inr (\<lparr>span_start = start, span_end = position p2,
                   ril_items = items, ril_parameters = ps\<rparr>, p2))
        else
          bindE (check (pbudget p1) MaxInnerListItems (length items + 1)) (\<lambda>_.
          bindE (item p1) (\<lambda>(i, p2).
            if \<not> sees (\<lambda>c. c = 32) p2 \<and> \<not> sees (\<lambda>c. c = 41) p2 then fail UnexpectedCharacter p2
            else inner_list_loop start (items @ [i]) p2))
      else fail UnexpectedEnd p)"
  by pat_completeness auto
termination
  by (relation "measure (\<lambda>(_, _, p). remaining p)")
    (auto simp: progress_def intro!: advances_remaining
      dest!: item_advances advances_progress [OF spaces_advances])

declare inner_list_loop.simps [simp del]

definition innerList :: "parser \<Rightarrow> sf_error + (raw_inner_list \<times> parser)" where
  "innerList p = bindE (consume p) (\<lambda>p1. inner_list_loop (position p1) [] (adv p1))"

definition member :: "parser \<Rightarrow> sf_error + (raw_member \<times> parser)" where
  "member p =
     (if sees (\<lambda>c. c = 40) p
      then bindE (innerList p) (\<lambda>(l, q). Inr (RInnerList l, q))
      else bindE (item p) (\<lambda>(i, q). Inr (RItem i, q)))"

lemma inner_list_loop_advances [parser_advance]:
  "inner_list_loop start items p = Inr (l, q) \<Longrightarrow> progress p q"
proof (induction start items p rule: inner_list_loop.induct)
  case (1 start items p)
  then show ?case
    by (auto simp: inner_list_loop.simps [of start items p] Let_def bindE_eq_Inr split: if_splits
        intro: advances_progress [OF spaces_advances]
          advances_progress [OF spaces_advances progress_advances [OF sees_progress parameters_advances]]
          advances_progress [OF spaces_advances progress_advances [OF item_advances progress_imp_advances]])
qed

lemma innerList_advances [parser_advance]:
  "sees P p \<Longrightarrow> innerList p = Inr (l, q) \<Longrightarrow> progress p q"
  by (auto simp: innerList_def bindE_eq_Inr
      intro: consume_adv_progress progress_imp_advances inner_list_loop_advances)

lemma member_advances [parser_advance]: "member p = Inr (m, q) \<Longrightarrow> progress p q"
  by (auto simp: member_def bindE_eq_Inr split: if_splits
      intro: innerList_advances item_advances)

section \<open>Lists, dictionaries, fields\<close>

definition separator :: "parser \<Rightarrow> sf_error + (bool \<times> parser)" where
  "separator p =
     (let p1 = spaces True p in
      if position p1 = length (source p1) then Inr (False, p1)
      else if \<not> sees (\<lambda>c. c = 44) p1 then fail UnexpectedCharacter p1
      else let p2 = spaces True (adv p1) in
        if position p2 = length (source p2) then fail UnexpectedEnd p2
        else Inr (True, p2))"

lemma separator_advances [parser_advance]: "separator p = Inr (b, q) \<Longrightarrow> advances p q"
  by (auto simp: separator_def Let_def split: if_splits
      intro: spaces_advances advances_trans [OF spaces_advances progress_imp_advances]
        progress_advances [OF sees_progress spaces_advances])

function list_loop :: "raw_member list \<Rightarrow> parser \<Rightarrow> sf_error + (raw_member list \<times> parser)" where
  "list_loop members p =
     (if position p < length (source p) then
        bindE (check (pbudget p) MaxMembers (length members + 1)) (\<lambda>_.
        bindE (member p) (\<lambda>(m, p1).
        bindE (separator p1) (\<lambda>(more, p2).
          if \<not> more then Inr (members @ [m], p2) else list_loop (members @ [m]) p2)))
      else Inr (members, p))"
  by pat_completeness auto
termination
  by (relation "measure (\<lambda>(_, p). remaining p)")
    (auto simp: progress_def intro!: advances_remaining
      dest!: member_advances separator_advances dest: progress_advances)

declare list_loop.simps [simp del]

definition sf_list :: "parser \<Rightarrow> sf_error + (raw_list \<times> parser)" where
  "sf_list p = bindE (list_loop [] p) (\<lambda>(members, q).
     Inr (\<lparr>span_start = position p, span_end = position q, rl_members = members\<rparr>, q))"

lemma list_loop_advances [parser_advance]: "list_loop ms p = Inr (ns, q) \<Longrightarrow> advances p q"
proof (induction ms p rule: list_loop.induct)
  case (1 ms p)
  show ?case
  proof (cases "position p < length (source p)")
    case True
    with 1(2) obtain u m p1 more p2 where
      step: "check (pbudget p) MaxMembers (length ms + 1) = Inr u" "member p = Inr (m, p1)"
        "separator p1 = Inr (more, p2)" and
      rest: "if more then list_loop (ms @ [m]) p2 = Inr (ns, q) else p2 = q"
      by (auto simp: list_loop.simps [of ms p] bindE_eq_Inr split: if_splits)
    have "advances p p2"
      using step by (blast intro: advances_trans progress_imp_advances member_advances separator_advances)
    moreover have "advances p2 q"
      using 1(1) [OF True step(1,2) refl step(3) refl] rest by (cases more) auto
    ultimately show ?thesis by (rule advances_trans)
  next
    case False
    with 1(2) show ?thesis by (simp add: list_loop.simps [of ms p])
  qed
qed

lemma sf_list_advances [parser_advance]: "sf_list p = Inr (l, q) \<Longrightarrow> advances p q"
  by (auto simp: sf_list_def bindE_eq_Inr intro: list_loop_advances)

text \<open>One entry of a dictionary, without the separator that follows it.\<close>

definition dictionary_entry :: "parser \<Rightarrow> sf_error + (raw_dictionary_entry \<times> parser)" where
  "dictionary_entry p =
     bindE (key p) (\<lambda>((k, keySpan), p1).
     bindE (if sees (\<lambda>c. c = 61) p1
            then bindE (member (adv p1)) (\<lambda>(m, p2). Inr (False, m, p2))
            else bindE (consume p1) (\<lambda>p2.
                 bindE (parameters p2) (\<lambda>(ps, p3).
                   Inr (True, RItem \<lparr>span_start = position p2, span_end = position p3,
                                     ri_bare = None, ri_parameters = ps\<rparr>, p3))))
       (\<lambda>(implicit, m, q).
         Inr (\<lparr>span_start = position p, span_end = position q, rde_key = k,
                rde_keySpan = keySpan, rde_implicit = implicit, rde_member = m\<rparr>, q)))"

lemma dictionary_entry_advances [parser_advance]:
  "dictionary_entry p = Inr (e, q) \<Longrightarrow> progress p q"
  by (auto simp: dictionary_entry_def bindE_eq_Inr split: if_splits
      intro: progress_advances [OF key_advances] progress_imp_advances
        progress_advances [OF sees_progress] progress_imp_advances [OF member_advances]
        progress_advances [OF progress_advances [OF key_advances]]
        progress_advances [OF key_advances advances_trans] consume_advances [THEN conjunct1]
        parameters_advances)

function dictionary_loop ::
    "raw_dictionary_entry list \<Rightarrow> parser \<Rightarrow> sf_error + (raw_dictionary_entry list \<times> parser)" where
  "dictionary_loop entries p =
     (if position p < length (source p) then
        bindE (check (pbudget p) MaxMembers (length entries + 1)) (\<lambda>_.
        bindE (dictionary_entry p) (\<lambda>(e, p1).
        bindE (separator p1) (\<lambda>(more, p2).
          if \<not> more then Inr (entries @ [e], p2) else dictionary_loop (entries @ [e]) p2)))
      else Inr (entries, p))"
  by pat_completeness auto
termination
  by (relation "measure (\<lambda>(_, p). remaining p)")
    (auto simp: progress_def intro!: advances_remaining
      dest!: dictionary_entry_advances separator_advances dest: progress_advances)

declare dictionary_loop.simps [simp del]

definition dictionary :: "parser \<Rightarrow> sf_error + (raw_dictionary \<times> parser)" where
  "dictionary p = bindE (dictionary_loop [] p) (\<lambda>(entries, q).
     Inr (\<lparr>span_start = position p, span_end = position q, rd_entries = entries\<rparr>, q))"

lemma dictionary_loop_advances [parser_advance]:
  "dictionary_loop ms p = Inr (ns, q) \<Longrightarrow> advances p q"
proof (induction ms p rule: dictionary_loop.induct)
  case (1 ms p)
  show ?case
  proof (cases "position p < length (source p)")
    case True
    with 1(2) obtain u m p1 more p2 where
      step: "check (pbudget p) MaxMembers (length ms + 1) = Inr u" "dictionary_entry p = Inr (m, p1)"
        "separator p1 = Inr (more, p2)" and
      rest: "if more then dictionary_loop (ms @ [m]) p2 = Inr (ns, q) else p2 = q"
      by (auto simp: dictionary_loop.simps [of ms p] bindE_eq_Inr split: if_splits)
    have "advances p p2"
      using step by (blast intro: advances_trans progress_imp_advances dictionary_entry_advances separator_advances)
    moreover have "advances p2 q"
      using 1(1) [OF True step(1,2) refl step(3) refl] rest by (cases more) auto
    ultimately show ?thesis by (rule advances_trans)
  next
    case False
    with 1(2) show ?thesis by (simp add: dictionary_loop.simps [of ms p])
  qed
qed

lemma dictionary_advances [parser_advance]: "dictionary p = Inr (l, q) \<Longrightarrow> advances p q"
  by (auto simp: dictionary_def bindE_eq_Inr intro: dictionary_loop_advances)

text \<open>\<open>field\<close>: the field types are the three of the TypeScript type.\<close>

definition root :: "field_type \<Rightarrow> parser \<Rightarrow> sf_error + (raw_field \<times> parser)" where
  "root type p =
     (case type of
        TDictionary \<Rightarrow> bindE (dictionary p) (\<lambda>(d, q). Inr (RFDictionary d, q))
      | TList \<Rightarrow> bindE (sf_list p) (\<lambda>(l, q). Inr (RFList l, q))
      | TItem \<Rightarrow> bindE (item p) (\<lambda>(i, q). Inr (RFItem i, q)))"

definition field :: "field_type \<Rightarrow> parser \<Rightarrow> sf_error + (raw_field \<times> parser)" where
  "field type p =
     bindE (root type (spaces False p)) (\<lambda>(r, p1).
       let p2 = spaces False p1 in
       if position p2 \<noteq> length (source p2) then fail TrailingData p2 else Inr (r, p2))"

lemma root_advances [parser_advance]: "root t p = Inr (r, q) \<Longrightarrow> advances p q"
  by (auto simp: root_def bindE_eq_Inr split: field_type.splits
      intro: dictionary_advances sf_list_advances progress_imp_advances item_advances)

lemma field_advances [parser_advance]: "field t p = Inr (r, q) \<Longrightarrow> advances p q"
  by (auto simp: field_def Let_def bindE_eq_Inr split: if_splits
      intro: advances_trans [OF spaces_advances advances_trans [OF root_advances spaces_advances]])

section \<open>The entry point\<close>

text \<open>A caller may pass a string, the bytes of a \<open>Uint8Array\<close>, or anything else.\<close>

datatype input = InText jsstring | InBytes "u8 list" | InOther

text \<open>The loop that looks for the first unit above 127.\<close>

fun non_ascii :: "nat \<Rightarrow> nat list \<Rightarrow> nat option" where
  "non_ascii index [] = None"
| "non_ascii index (c # cs) = (if 127 < c then Some index else non_ascii (index + 1) cs)"

definition new_parser :: "jsstring \<Rightarrow> limits \<Rightarrow> parser" where
  "new_parser s l = \<lparr>source = s, position = 0, pbudget = new_budget l\<rparr>"

definition parse_units :: "jsstring \<Rightarrow> field_type \<Rightarrow> limits \<Rightarrow> sf_error + raw_document" where
  "parse_units units type l =
     bindE (check (new_budget l) MaxInputBytes (length units)) (\<lambda>_.
     case non_ascii 0 units of
       Some index \<Rightarrow> Inl (SfSyntaxError NonAscii index)
     | None \<Rightarrow> bindE (field type (new_parser units l)) (\<lambda>(r, _).
         Inr \<lparr>rdoc_fieldType = type, rdoc_source = units, rdoc_root = r\<rparr>))"

definition parseRaw :: "input \<Rightarrow> field_type \<Rightarrow> js_number js_options \<Rightarrow> sf_error + raw_document" where
  "parseRaw i type options =
     bindE (resolveLimits options) (\<lambda>l.
     case i of
       InText s \<Rightarrow> parse_units s type l
     | InBytes bs \<Rightarrow> parse_units (map unat bs) type l
     | InOther \<Rightarrow> Inl SfTypeError)"

lemma non_ascii_None: "non_ascii i s = None \<longleftrightarrow> list_all ascii s"
  by (induction i s rule: non_ascii.induct) (auto simp: ascii_def)

lemma non_ascii_Some: "non_ascii i s = Some j \<Longrightarrow>
    i \<le> j \<and> j - i < length s \<and> 127 < s ! (j - i) \<and> list_all ascii (take (j - i) s)"
proof (induction i s rule: non_ascii.induct)
  case (2 i c cs)
  then show ?case
    by (auto simp: ascii_def nth_Cons' take_Cons' Suc_diff_le split: if_splits)
qed simp

end
