(* ===== verification/SfSemantic.thy ===== *)
theory SfSemantic
  imports SfParser
begin

text \<open>
  From the raw tree to the semantic model, \<^verbatim>\<open>parse.ts\<close>: parameters and dictionary
  entries go through a \<open>Map\<close>, so the last value of a repeated key is kept at the
  position of its first occurrence.
\<close>

definition bare_or_true :: "raw_bare_item option \<Rightarrow> bare_item" where
  "bare_or_true b = (case b of None \<Rightarrow> Boolean True | Some r \<Rightarrow> rb_value r)"

definition sem_parameters :: "raw_parameter list \<Rightarrow> parameters" where
  "sem_parameters raw =
     foldl (\<lambda>values p. map_set (rp_key p) (bare_or_true (rp_bare p)) values) [] raw"

definition sem_item :: "raw_item \<Rightarrow> item" where
  "sem_item raw = \<lparr>item_bare = bare_or_true (ri_bare raw),
     item_parameters = sem_parameters (ri_parameters raw)\<rparr>"

fun sem_member :: "raw_member \<Rightarrow> member" where
  "sem_member (RItem raw) = MItem (sem_item raw)"
| "sem_member (RInnerList raw) = MInnerList \<lparr>inner_items = map sem_item (ril_items raw),
     inner_parameters = sem_parameters (ril_parameters raw)\<rparr>"

definition last_entries :: "raw_dictionary_entry list \<Rightarrow> (jsstring \<times> raw_member) list" where
  "last_entries entries = foldl (\<lambda>last e. map_set (rde_key e) (rde_member e) last) [] entries"

fun semantic :: "raw_field \<Rightarrow> field" where
  "semantic (RFItem raw) = FItem (sem_item raw)"
| "semantic (RFList raw) = FList (map sem_member (rl_members raw))"
| "semantic (RFDictionary raw) =
     FDictionary (map (\<lambda>(k, v). (k, sem_member v)) (last_entries (rd_entries raw)))"

definition parse :: "input \<Rightarrow> field_type \<Rightarrow> js_number js_options \<Rightarrow> sf_error + field" where
  "parse i type options = bindE (parseRaw i type options) (\<lambda>raw. Inr (semantic (rdoc_root raw)))"

section \<open>Maps filled in a loop\<close>

text \<open>Both maps are filled by the same loop; \<open>fill\<close> states what it leaves.\<close>

definition fill :: "('k \<times> 'v) list \<Rightarrow> ('k \<times> 'v) list \<Rightarrow> ('k \<times> 'v) list" where
  "fill m es = foldl (\<lambda>m e. map_set (fst e) (snd e) m) m es"

lemma fill_simps [simp]:
  "fill m [] = m"
  "fill m (e # es) = fill (map_set (fst e) (snd e) m) es"
  by (simp_all add: fill_def)

lemma fill_append: "fill m (es @ fs) = fill (fill m es) fs"
  by (simp add: fill_def)

lemma sem_parameters_fill:
  "sem_parameters raw = fill [] (map (\<lambda>p. (rp_key p, bare_or_true (rp_bare p))) raw)"
  by (simp add: sem_parameters_def fill_def foldl_map)

lemma last_entries_fill:
  "last_entries es = fill [] (map (\<lambda>e. (rde_key e, rde_member e)) es)"
  by (simp add: last_entries_def fill_def foldl_map)

lemma fill_distinct: "distinct (map fst m) \<Longrightarrow> distinct (map fst (fill m es))"
  by (induction es arbitrary: m) (auto simp: distinct_map_set)

lemma fill_fresh:
  "distinct (map fst es) \<Longrightarrow> fst ` set es \<inter> fst ` set m = {} \<Longrightarrow> fill m es = m @ es"
proof (induction es arbitrary: m)
  case (Cons e es)
  then have "map_set (fst e) (snd e) m = m @ [e]" by (subst map_set_fresh) auto
  then show ?case using Cons by auto
qed simp

lemma fill_all_distinct: "distinct (map fst es) \<Longrightarrow> fill [] es = es"
  using fill_fresh [of es "[]"] by simp

text \<open>The last value of the key wins.\<close>

lemma map_of_fill: "map_of (fill m es) k = (case map_of (rev es) k of None \<Rightarrow> map_of m k | v \<Rightarrow> v)"
  by (induction es arbitrary: m) (auto simp: map_add_def split: option.splits)

text \<open>The keys are in the order in which they first occur.\<close>

fun first_keys :: "'k list \<Rightarrow> 'k list \<Rightarrow> 'k list" where
  "first_keys seen [] = []"
| "first_keys seen (k # ks) = (if k \<in> set seen then first_keys seen ks
     else k # first_keys (k # seen) ks)"

lemma first_keys_cong: "set s = set t \<Longrightarrow> first_keys s ks = first_keys t ks"
proof (induction ks arbitrary: s t)
  case (Cons k ks)
  have "first_keys (k # s) ks = first_keys (k # t) ks" "first_keys s ks = first_keys t ks"
    by (rule Cons.IH, simp add: Cons.prems)+
  then show ?case by (simp add: Cons.prems)
qed simp

lemma keys_fill: "map fst (fill m es) = map fst m @ first_keys (map fst m) (map fst es)"
proof (induction es arbitrary: m)
  case (Cons e es)
  have "first_keys (map fst m @ [fst e]) ks = first_keys (fst e # map fst m) ks" for ks
    by (rule first_keys_cong) simp
  then show ?case by (simp add: Cons keys_map_set)
qed simp

lemma fill_set: "set (fill m es) \<subseteq> set m \<union> set es"
proof (induction es arbitrary: m)
  case (Cons e es)
  have "set (map_set k v l) \<subseteq> insert (k, v) (set l)" for k v and l :: "('a \<times> 'b) list"
    by (induction k v l rule: map_set.induct) auto
  from this [of "fst e" "snd e" m] show ?case using Cons [of "map_set (fst e) (snd e) m"] by auto
qed simp

lemma fill_length: "length (fill m es) \<le> length m + length es"
proof (induction es arbitrary: m)
  case (Cons e es)
  have "length (map_set (fst e) (snd e) m) \<le> Suc (length m)" by (simp add: length_map_set)
  then show ?case using Cons [of "map_set (fst e) (snd e) m"] by simp
qed simp

lemma map_set_map:
  "map (\<lambda>(k, v). (k, f v)) (map_set k v m) = map_set k (f v) (map (\<lambda>(k, v). (k, f v)) m)"
  by (induction k v m rule: map_set.induct) auto

lemma fill_map:
  "map (\<lambda>(k, v). (k, f v)) (fill m es) = fill (map (\<lambda>(k, v). (k, f v)) m) (map (\<lambda>(k, v). (k, f v)) es)"
  by (induction es arbitrary: m) (auto simp: map_set_map split_beta)

lemma distinct_sem_parameters: "distinct (map fst (sem_parameters raw))"
  by (simp add: sem_parameters_fill fill_distinct)

lemma distinct_last_entries: "distinct (map fst (last_entries es))"
  by (simp add: last_entries_fill fill_distinct)

end
