(* ===== verification/CoreTypes.thy ===== *)
theory CoreTypes
  imports SfTypes SfSerializer SfSemantic
begin

text \<open>
  The data of the message-signature core: \<^verbatim>\<open>types.ts\<close>, \<^verbatim>\<open>errors.ts\<close>, the resource limits of
  \<^verbatim>\<open>limits.ts\<close>, and the translation of Structured Fields errors, \<open>withSfErrors\<close>.
\<close>

section \<open>Messages\<close>

text \<open>A header value is a string, whose units the code requires to be ASCII, or bytes.\<close>

datatype header_value = TextValue jsstring | ByteValue "u8 list"

type_synonym header_fields = "(jsstring \<times> header_value) list"

datatype http_version = Http11 | Http2 | Http3

record request_parts =
  request_method :: jsstring
  targetUri :: jsstring
  rawRequestTarget :: "jsstring option"
  request_headers :: header_fields
  request_version :: "http_version option"

datatype http_message =
    RequestMessage request_parts
  | ResponseMessage js_number header_fields "http_version option" "request_parts option"

record covered_component =
  component_name :: jsstring
  component_parameters :: parameters

record signature_input =
  sig_label :: jsstring
  sig_components :: "covered_component list"
  sig_parameters :: parameters

record parsed_signature =
  signature_of_input :: signature_input
  signature_bytes :: "u8 list"

record signature_base =
  base_text :: jsstring
  base_bytes :: "u8 list"

record signature_patch =
  patch_label :: jsstring
  patch_input :: jsstring
  patch_signature :: jsstring

section \<open>Limits\<close>

record core_limits =
  maxSignatureHeaderBytes :: nat
  maxSignatures :: nat
  maxComponentsPerSignature :: nat
  maxMetadataParameters :: nat
  maxMessageHeaderBytes :: nat
  maxTargetUriBytes :: nat
  maxSignatureBaseBytes :: nat
  structuredFields :: limits

datatype core_limit_name =
    SignatureHeaderBytes | Signatures | ComponentsPerSignature | MetadataParameters
  | MessageHeaderBytes | TargetUriBytes | SignatureBaseBytes

fun core_limit_of :: "core_limits \<Rightarrow> core_limit_name \<Rightarrow> nat" where
  "core_limit_of l SignatureHeaderBytes = maxSignatureHeaderBytes l"
| "core_limit_of l Signatures = maxSignatures l"
| "core_limit_of l ComponentsPerSignature = maxComponentsPerSignature l"
| "core_limit_of l MetadataParameters = maxMetadataParameters l"
| "core_limit_of l MessageHeaderBytes = maxMessageHeaderBytes l"
| "core_limit_of l TargetUriBytes = maxTargetUriBytes l"
| "core_limit_of l SignatureBaseBytes = maxSignatureBaseBytes l"

fun core_limit_key :: "core_limit_name \<Rightarrow> jsstring" where
  "core_limit_key SignatureHeaderBytes = lit ''maxSignatureHeaderBytes''"
| "core_limit_key Signatures = lit ''maxSignatures''"
| "core_limit_key ComponentsPerSignature = lit ''maxComponentsPerSignature''"
| "core_limit_key MetadataParameters = lit ''maxParameters''"
| "core_limit_key MessageHeaderBytes = lit ''maxMessageHeaderBytes''"
| "core_limit_key TargetUriBytes = lit ''maxTargetUriBytes''"
| "core_limit_key SignatureBaseBytes = lit ''maxSignatureBaseBytes''"

fun set_core_limit :: "core_limit_name \<Rightarrow> nat \<Rightarrow> core_limits \<Rightarrow> core_limits" where
  "set_core_limit SignatureHeaderBytes v l = l\<lparr>maxSignatureHeaderBytes := v\<rparr>"
| "set_core_limit Signatures v l = l\<lparr>maxSignatures := v\<rparr>"
| "set_core_limit ComponentsPerSignature v l = l\<lparr>maxComponentsPerSignature := v\<rparr>"
| "set_core_limit MetadataParameters v l = l\<lparr>maxMetadataParameters := v\<rparr>"
| "set_core_limit MessageHeaderBytes v l = l\<lparr>maxMessageHeaderBytes := v\<rparr>"
| "set_core_limit TargetUriBytes v l = l\<lparr>maxTargetUriBytes := v\<rparr>"
| "set_core_limit SignatureBaseBytes v l = l\<lparr>maxSignatureBaseBytes := v\<rparr>"

definition core_limit_names :: "core_limit_name list" where
  "core_limit_names = [SignatureHeaderBytes, Signatures, ComponentsPerSignature, MetadataParameters,
     MessageHeaderBytes, TargetUriBytes, SignatureBaseBytes]"

definition CORE_SF_LIMITS :: limits where
  "CORE_SF_LIMITS = \<lparr>
     maxInputBytes = 16384, maxOutputBytes = 16384, maxMembers = 1024,
     maxInnerListItems = 256, maxParameters = 256, maxKeyLength = 1024,
     maxTokenLength = 8192, maxDecodedBytes = 16384, maxTotalOccurrences = 65536\<rparr>"

definition DEFAULT_CORE_LIMITS :: core_limits where
  "DEFAULT_CORE_LIMITS = \<lparr>
     maxSignatureHeaderBytes = 16384, maxSignatures = 1024, maxComponentsPerSignature = 256,
     maxMetadataParameters = 256, maxMessageHeaderBytes = 16384, maxTargetUriBytes = 16384,
     maxSignatureBaseBytes = 16384, structuredFields = CORE_SF_LIMITS\<rparr>"

section \<open>Errors\<close>

datatype rejection_reason =
    RMalformed | RUnsupported | RMissingComponent | RInvalidKey
  | RAlgorithmMismatch | RSignatureMismatch | RResourceLimit

datatype core_error =
    SignatureError rejection_reason
  | SignatureLimitError jsstring nat nat
  | SignatureConfigurationError
  | Rethrown sf_error

text \<open>The \<open>reason\<close> of an error of the class \<open>SignatureError\<close>, which a limit error extends.\<close>

fun signature_reason :: "core_error \<Rightarrow> rejection_reason option" where
  "signature_reason (SignatureError r) = Some r"
| "signature_reason (SignatureLimitError _ _ _) = Some RResourceLimit"
| "signature_reason _ = None"

abbreviation malformed :: "core_error + 'a" where
  "malformed \<equiv> Inl (SignatureError RMalformed)"

fun core_error_of :: "sf_error \<Rightarrow> core_error" where
  "core_error_of (SfLimitError limit maximum observed) =
     SignatureLimitError (lit ''structuredFields.'' @ limit_key limit) maximum observed"
| "core_error_of (SfSyntaxError _ _) = SignatureError RMalformed"
| "core_error_of (SfSerializationError _) = SignatureError RMalformed"
| "core_error_of (SfConfigurationError _) = SignatureConfigurationError"
| "core_error_of SfTypeError = Rethrown SfTypeError"

definition withSfErrors :: "sf_error + 'a \<Rightarrow> core_error + 'a" where
  "withSfErrors r = (case r of Inl e \<Rightarrow> Inl (core_error_of e) | Inr x \<Rightarrow> Inr x)"

section \<open>Resolving limits\<close>

text \<open>A value of the overrides: of a numeric limit, or an options object of its own, where
  \<open>CoreOptions NoOptions\<close> is \<open>undefined\<close>.\<close>

datatype core_option = CoreNumber js_number | CoreOptions "js_number js_options"

definition core_key :: "js_key \<Rightarrow> bool" where
  "core_key k \<longleftrightarrow> k \<in> StringKey ` (core_limit_key ` set core_limit_names) \<union> {StringKey (lit ''structuredFields'')}"

definition resolve_core_limit ::
    "(js_key \<times> core_option) list \<Rightarrow> core_limits \<Rightarrow> core_limit_name \<Rightarrow> core_error + core_limits" where
  "resolve_core_limit ks l n =
     (case map_of ks (StringKey (core_limit_key n)) of
        None \<Rightarrow> Inr l
      | Some (CoreNumber (JsInt v)) \<Rightarrow>
          if \<not> is_safe_integer v \<or> v < 0 then Inl SignatureConfigurationError
          else Inr (set_core_limit n (nat v) l)
      | Some _ \<Rightarrow> Inl SignatureConfigurationError)"

text \<open>A resolved \<open>Limits\<close> object as an options object, and \<open>{ ...CORE_SF_LIMITS, ...overrides }\<close>.\<close>

definition sf_options :: "limits \<Rightarrow> js_number js_options" where
  "sf_options l = OwnKeys (map (\<lambda>n. (StringKey (limit_key n), JsInt (int (limit_of l n)))) limit_names)"

definition merge_options :: "limits \<Rightarrow> (js_key \<times> js_number) list \<Rightarrow> js_number js_options" where
  "merge_options l overrides = OwnKeys (foldl (\<lambda>m e. map_set (fst e) (snd e) m)
     (map (\<lambda>n. (StringKey (limit_key n), JsInt (int (limit_of l n)))) limit_names) overrides)"

definition resolve_structured_fields :: "core_option option \<Rightarrow> core_error + limits" where
  "resolve_structured_fields v =
     (case v of
        None \<Rightarrow> withSfErrors (resolveLimits (merge_options CORE_SF_LIMITS []))
      | Some (CoreOptions NoOptions) \<Rightarrow> withSfErrors (resolveLimits (merge_options CORE_SF_LIMITS []))
      | Some (CoreOptions (OwnKeys ks)) \<Rightarrow> withSfErrors (resolveLimits (merge_options CORE_SF_LIMITS ks))
      | Some _ \<Rightarrow> Inl SignatureConfigurationError)"

definition resolve_core_overrides :: "(js_key \<times> core_option) list \<Rightarrow> core_error + core_limits" where
  "resolve_core_overrides ks =
     (if \<not> list_all (core_key \<circ> fst) ks then Inl SignatureConfigurationError
      else bindE (foldE (resolve_core_limit ks) DEFAULT_CORE_LIMITS core_limit_names) (\<lambda>l.
        bindE (resolve_structured_fields (map_of ks (StringKey (lit ''structuredFields'')))) (\<lambda>sf.
        Inr (l\<lparr>structuredFields := sf\<rparr>))))"

fun resolveCoreLimits :: "core_option js_options \<Rightarrow> core_error + core_limits" where
  "resolveCoreLimits NotAnObject = Inl SignatureConfigurationError"
| "resolveCoreLimits NoOptions = resolve_core_overrides []"
| "resolveCoreLimits (OwnKeys ks) = resolve_core_overrides ks"

definition checkLimit :: "core_limits \<Rightarrow> core_limit_name \<Rightarrow> nat \<Rightarrow> core_error + unit" where
  "checkLimit l n observed =
     (if max_safe < observed then Inl SignatureConfigurationError
      else if core_limit_of l n < observed
      then Inl (SignatureLimitError (core_limit_key n) (core_limit_of l n) observed)
      else Inr ())"

section \<open>Lemmas\<close>

lemma withSfErrors_Inr [simp]: "withSfErrors r = Inr x \<longleftrightarrow> r = Inr x"
  by (simp add: withSfErrors_def split: sum.split)

lemma withSfErrors_simps [simp]: "withSfErrors (Inr x) = Inr x" "withSfErrors (Inl e) = Inl (core_error_of e)"
  by (simp_all add: withSfErrors_def)

lemma checkLimit_Inr [simp]: "checkLimit l n k = Inr u \<longleftrightarrow> k \<le> core_limit_of l n \<and> k \<le> max_safe"
  by (auto simp: checkLimit_def)

lemma foldE_resolve_own:
  assumes "distinct ns" "safe_limits L"
  shows "foldE (resolve_limit (map (\<lambda>n. (StringKey (limit_key n), JsInt (int (limit_of L n)))) limit_names)) l ns
    = Inr (foldl (\<lambda>l n. set_limit n (limit_of L n) l) l ns)"
  using assms(1)
proof (induction ns arbitrary: l)
  case (Cons n ns)
  have "inj_on (\<lambda>n. StringKey (limit_key n)) (set limit_names)" by (simp add: inj_on_def)
  then have "override_of (map (\<lambda>n. (StringKey (limit_key n), JsInt (int (limit_of L n)))) limit_names) n
      = Some (JsInt (int (limit_of L n)))"
    by (cases n) (simp_all add: override_of_def limit_names_def)
  moreover have "limit_of L n \<le> max_safe" using assms(2) by (simp add: safe_limits_def)
  ultimately show ?case using Cons by (simp add: resolve_limit_def)
qed simp

lemma reject_unknown_own: "reject_unknown (map (\<lambda>n. (StringKey (limit_key n), f n)) ns) = Inr ()"
proof (induction ns)
  case (Cons n ns)
  have "limit_named (limit_key n) = Some n" by (simp add: limit_named_iff)
  with Cons show ?case by simp
qed simp

text \<open>A resolved limits object resolves to itself.\<close>

lemma resolve_own: "safe_limits L \<Longrightarrow> resolveLimits (sf_options L) = Inr L"
  using foldE_resolve_own [of limit_names L DEFAULT_LIMITS]
  by (simp add: sf_options_def reject_unknown_own) (simp add: limit_names_def)

lemma safe_CORE_SF_LIMITS: "safe_limits CORE_SF_LIMITS"
  unfolding safe_limits_def
proof
  fix n show "limit_of CORE_SF_LIMITS n \<le> max_safe"
    by (cases n) (simp_all add: CORE_SF_LIMITS_def max_safe_def)
qed

lemma resolve_core_default: "resolveCoreLimits NoOptions = Inr DEFAULT_CORE_LIMITS"
proof -
  have "foldE (resolve_core_limit []) DEFAULT_CORE_LIMITS ns = Inr DEFAULT_CORE_LIMITS" for ns
    by (induction ns) (simp_all add: resolve_core_limit_def)
  moreover have "merge_options CORE_SF_LIMITS [] = sf_options CORE_SF_LIMITS"
    by (simp add: merge_options_def sf_options_def)
  ultimately show ?thesis
    using resolve_own [OF safe_CORE_SF_LIMITS]
    by (simp add: resolve_core_overrides_def resolve_structured_fields_def) (simp add: DEFAULT_CORE_LIMITS_def)
qed

definition safe_core :: "core_limits \<Rightarrow> bool" where
  "safe_core l \<longleftrightarrow> (\<forall>n. core_limit_of l n \<le> max_safe) \<and> safe_limits (structuredFields l)"

lemma core_limit_of_set: "core_limit_of (set_core_limit n v l) m = (if m = n then v else core_limit_of l m)"
  by (cases n; cases m) auto

lemma structuredFields_set [simp]: "structuredFields (set_core_limit n v l) = structuredFields l"
  by (cases n) auto

lemma core_limit_of_structured [simp]: "core_limit_of (l\<lparr>structuredFields := sf\<rparr>) n = core_limit_of l n"
  by (cases n) auto

lemma resolve_core_safe: "resolveCoreLimits options = Inr l \<Longrightarrow> safe_core l"
proof -
  assume r: "resolveCoreLimits options = Inr l"
  obtain ks where "resolve_core_overrides ks = Inr l"
    using r by (cases options) auto
  then obtain l0 sf where l0: "foldE (resolve_core_limit ks) DEFAULT_CORE_LIMITS core_limit_names = Inr l0"
    and sf: "resolve_structured_fields (map_of ks (StringKey (lit ''structuredFields''))) = Inr sf"
    and l: "l = l0\<lparr>structuredFields := sf\<rparr>"
    by (auto simp: resolve_core_overrides_def bindE_eq_Inr simp del: lit_Cons split: if_splits)
  have "\<forall>n. core_limit_of l0 n \<le> max_safe"
  proof (rule foldE_invariant [OF l0])
    show "\<forall>n. core_limit_of DEFAULT_CORE_LIMITS n \<le> max_safe"
    proof
      fix n show "core_limit_of DEFAULT_CORE_LIMITS n \<le> max_safe"
        by (cases n) (simp_all add: DEFAULT_CORE_LIMITS_def max_safe_def)
    qed
  qed (auto simp: resolve_core_limit_def core_limit_of_set is_safe_integer_def
      split: option.splits core_option.splits js_number.splits if_splits)
  moreover have "safe_limits sf"
    using sf by (auto simp: resolve_structured_fields_def dest: resolveLimits_safe
        split: option.splits core_option.splits js_options.splits)
  ultimately show "safe_core l" by (simp add: safe_core_def l)
qed

end
