(* ===== verification/CoreInput.thy ===== *)
theory CoreInput
  imports CoreTypes SfParser
begin

text \<open>
  Header values, \<^verbatim>\<open>headers.ts\<close>, and the signature headers, \<^verbatim>\<open>signature-input.ts\<close>: validation of
  the metadata of a signature, its canonical parameters, and \<open>parseSignatureHeaders\<close>. The static
  types of the arguments discharge the checks on their shape.
\<close>

section \<open>Headers\<close>

definition field_name_char :: "nat \<Rightarrow> bool" where
  "field_name_char c \<longleftrightarrow> digit c \<or> alpha c \<or> c \<in> set (lit ''!#$%&*+-.^_`|~'') \<or> c = 39"

definition isFieldName :: "jsstring \<Rightarrow> bool" where
  "isFieldName s \<longleftrightarrow> 0 < length s \<and> list_all field_name_char s"

fun header_length :: "header_value \<Rightarrow> nat" where
  "header_length (TextValue s) = length s"
| "header_length (ByteValue bs) = length bs"

fun ascii_value :: "header_value \<Rightarrow> bool" where
  "ascii_value (TextValue s) = list_all ascii s"
| "ascii_value (ByteValue bs) = True"

definition validate_header :: "core_limits \<Rightarrow> nat \<Rightarrow> jsstring \<times> header_value \<Rightarrow> core_error + nat" where
  "validate_header limits used entry =
     (let used' = used + length (fst entry) + header_length (snd entry) + 4 in
      bindE (checkLimit limits MessageHeaderBytes used') (\<lambda>_.
      if \<not> isFieldName (fst entry) \<or> \<not> ascii_value (snd entry) then malformed else Inr used'))"

definition validateHeaders :: "header_fields \<Rightarrow> core_limits \<Rightarrow> core_error + nat" where
  "validateHeaders headers limits = foldE (validate_header limits) 0 headers"

definition ows :: "nat \<Rightarrow> bool" where
  "ows c \<longleftrightarrow> c = 32 \<or> c = 9"

text \<open>The replacement of \<^verbatim>\<open>/\r\n[ \t]+/g\<close> by a space.\<close>

function unfold_lines :: "jsstring \<Rightarrow> jsstring" where
  "unfold_lines [] = []"
| "unfold_lines (a # s) =
     (case s of
        b # c # t \<Rightarrow>
          if a = 13 \<and> b = 10 \<and> ows c then 32 # unfold_lines (dropWhile ows t) else a # unfold_lines s
      | _ \<Rightarrow> a # unfold_lines s)"
  by pat_completeness auto
termination
  by (relation "measure length") (auto simp: le_imp_less_Suc le_SucI length_dropWhile_le)

definition trim_ows :: "jsstring \<Rightarrow> jsstring" where
  "trim_ows s = rev (dropWhile ows (rev (dropWhile ows s)))"

fun header_text :: "header_value \<Rightarrow> jsstring" where
  "header_text (TextValue s) = s"
| "header_text (ByteValue bs) = map unat bs"

definition control :: "nat \<Rightarrow> bool" where
  "control c \<longleftrightarrow> (c < 32 \<and> c \<noteq> 9) \<or> c = 127"

definition normalizeValue :: "header_value \<Rightarrow> http_version option \<Rightarrow> core_error + jsstring" where
  "normalizeValue v version =
     (let t = (if version = Some Http11 then unfold_lines (header_text v) else header_text v) in
      if list_ex control t then malformed else Inr (trim_ows t))"

definition fieldValues :: "header_fields \<Rightarrow> jsstring \<Rightarrow> http_version option \<Rightarrow> core_error + jsstring list" where
  "fieldValues headers name version =
     mapE (\<lambda>e. normalizeValue (snd e) version) (filter (\<lambda>e. lowercase (fst e) = name) headers)"

definition requireAscii :: "jsstring \<Rightarrow> core_error + jsstring" where
  "requireAscii s = (if list_all ascii s then Inr s else malformed)"

fun combined_length :: "core_limits \<Rightarrow> core_limit_name \<Rightarrow> nat \<Rightarrow> nat \<Rightarrow> jsstring list \<Rightarrow> core_error + nat" where
  "combined_length limits limit index n [] = Inr n"
| "combined_length limits limit index n (v # vs) =
     (let n' = n + length v + (if index = 0 then 0 else 2) in
      bindE (checkLimit limits limit n') (\<lambda>_. combined_length limits limit (index + 1) n' vs))"

definition combineValues :: "jsstring list \<Rightarrow> core_limits \<Rightarrow> core_limit_name \<Rightarrow> core_error + jsstring" where
  "combineValues vs limits limit =
     bindE (combined_length limits limit 0 0 vs) (\<lambda>_. Inr (join (lit '', '') vs))"

section \<open>Signature metadata\<close>

fun rfc8941_bare :: "bare_item \<Rightarrow> bool" where
  "rfc8941_bare (Date _) = False"
| "rfc8941_bare (DisplayString _) = False"
| "rfc8941_bare _ = True"

definition validateParameters :: "parameters \<Rightarrow> core_limits \<Rightarrow> core_error + unit" where
  "validateParameters ps limits =
     bindE (checkLimit limits MetadataParameters (length ps)) (\<lambda>_.
     if list_all (rfc8941_bare \<circ> snd) ps then Inr () else Inl (SignatureError RUnsupported))"

fun metadata_kind :: "jsstring \<times> bare_item \<Rightarrow> bool" where
  "metadata_kind (name, v) =
     (if name \<in> {lit ''created'', lit ''expires''} then (case v of Integer _ \<Rightarrow> True | _ \<Rightarrow> False)
      else if name \<in> set (map lit [''nonce'', ''alg'', ''keyid'', ''tag''])
      then (case v of SfString _ \<Rightarrow> True | _ \<Rightarrow> False)
      else True)"

text \<open>The pattern \<^verbatim>\<open>/^@[a-z][a-z0-9-]*$/\<close>.\<close>

fun derived_pattern :: "jsstring \<Rightarrow> bool" where
  "derived_pattern (a # c # s) \<longleftrightarrow> a = 64 \<and> lower_alpha c \<and> list_all (\<lambda>c. lower_alpha c \<or> digit c \<or> c = 45) s"
| "derived_pattern _ \<longleftrightarrow> False"

definition is_derived :: "jsstring \<Rightarrow> bool" where
  "is_derived name \<longleftrightarrow> (case name of c # _ \<Rightarrow> c = 64 | [] \<Rightarrow> False)"

definition component_item :: "covered_component \<Rightarrow> item" where
  "component_item c = \<lparr>item_bare = SfString (component_name c), item_parameters = component_parameters c\<rparr>"

definition validate_component :: "core_limits \<Rightarrow> covered_component \<Rightarrow> core_error + item" where
  "validate_component limits c =
     (let name = component_name c in
      if name \<noteq> lowercase name \<or> \<not> (if is_derived name then derived_pattern name else isFieldName name)
      then malformed
      else if name = lit ''@signature-params'' then malformed
      else bindE (validateParameters (component_parameters c) limits) (\<lambda>_. Inr (component_item c)))"

definition signatureInnerList :: "signature_input \<Rightarrow> core_limits \<Rightarrow> core_error + inner_list" where
  "signatureInnerList i limits =
     bindE (checkLimit limits ComponentsPerSignature (length (sig_components i))) (\<lambda>_.
     bindE (validateParameters (sig_parameters i) limits) (\<lambda>_.
     bindE (if list_all metadata_kind (sig_parameters i) then Inr () else malformed) (\<lambda>_.
     bindE (mapE (validate_component limits) (sig_components i)) (\<lambda>items.
     let inner = \<lparr>inner_items = items, inner_parameters = sig_parameters i\<rparr> in
     bindE (withSfErrors (serialize (FDictionary [(sig_label i, MInnerList inner)])
       (sf_options (structuredFields limits)))) (\<lambda>_. Inr inner)))))"

definition signatureParameters :: "signature_input \<Rightarrow> core_limits \<Rightarrow> core_error + jsstring" where
  "signatureParameters i limits =
     bindE (signatureInnerList i limits) (\<lambda>inner.
     withSfErrors (serializeMember (MInnerList inner) (sf_options (structuredFields limits))))"

section \<open>The signature headers\<close>

text \<open>The labels of a raw dictionary, which must not repeat.\<close>

fun raw_entries :: "raw_field \<Rightarrow> raw_dictionary_entry list" where
  "raw_entries (RFDictionary d) = rd_entries d"
| "raw_entries _ = []"

fun field_entries :: "field \<Rightarrow> (jsstring \<times> member) list" where
  "field_entries (FDictionary es) = es"
| "field_entries _ = []"

definition check_labels :: "core_limits \<Rightarrow> raw_document \<Rightarrow> core_error + unit" where
  "check_labels limits raw =
     (let es = raw_entries (rdoc_root raw) in
      bindE (checkLimit limits Signatures (length es)) (\<lambda>_.
      if distinct (map rde_key es) then Inr () else malformed))"

fun component_of_item :: "item \<Rightarrow> core_error + covered_component" where
  "component_of_item i =
     (case item_bare i of
        SfString name \<Rightarrow> Inr \<lparr>component_name = name, component_parameters = item_parameters i\<rparr>
      | _ \<Rightarrow> malformed)"

definition pair_signature ::
    "core_limits \<Rightarrow> (jsstring \<times> member) list \<Rightarrow> jsstring \<times> member \<Rightarrow> core_error + parsed_signature" where
  "pair_signature limits signatures entry =
     (case (snd entry, map_of signatures (fst entry)) of
        (MInnerList l, Some (MItem s)) \<Rightarrow>
          (case item_bare s of
             Bytes bs \<Rightarrow>
               bindE (validateParameters (item_parameters s) limits) (\<lambda>_.
               bindE (mapE component_of_item (inner_items l)) (\<lambda>cs.
               let i = \<lparr>sig_label = fst entry, sig_components = cs, sig_parameters = inner_parameters l\<rparr> in
               bindE (signatureInnerList i limits) (\<lambda>_.
               Inr \<lparr>signature_of_input = i, signature_bytes = bs\<rparr>)))
           | _ \<Rightarrow> malformed)
      | _ \<Rightarrow> malformed)"

definition pair_signatures :: "core_limits \<Rightarrow> jsstring \<Rightarrow> jsstring \<Rightarrow> core_error + parsed_signature list" where
  "pair_signatures limits inputText signatureText =
     (let options = sf_options (structuredFields limits) in
      bindE (withSfErrors (parseRaw (InText inputText) TDictionary options)) (\<lambda>rawInput.
      bindE (withSfErrors (parseRaw (InText signatureText) TDictionary options)) (\<lambda>rawSignature.
      bindE (check_labels limits rawInput) (\<lambda>_.
      bindE (check_labels limits rawSignature) (\<lambda>_.
      bindE (withSfErrors (parse (InText inputText) TDictionary options)) (\<lambda>inputDictionary.
      bindE (withSfErrors (parse (InText signatureText) TDictionary options)) (\<lambda>signatureDictionary.
      let signatures = field_entries signatureDictionary in
      if length signatures \<noteq> length (field_entries inputDictionary) then malformed
      else mapE (pair_signature limits signatures) (field_entries inputDictionary))))))))"

definition parseSignatureHeaders :: "header_fields \<Rightarrow> core_option js_options \<Rightarrow> core_error + parsed_signature list" where
  "parseSignatureHeaders headers overrides =
     bindE (resolveCoreLimits overrides) (\<lambda>limits.
     bindE (validateHeaders headers limits) (\<lambda>_.
     bindE (fieldValues headers (lit ''signature-input'') None) (\<lambda>inputs.
     bindE (fieldValues headers (lit ''signature'') None) (\<lambda>signatures.
     if inputs = [] \<and> signatures = [] then Inr []
     else if inputs = [] \<or> signatures = [] then malformed
     else
       bindE (bindE (combineValues inputs limits SignatureHeaderBytes) requireAscii) (\<lambda>inputText.
       bindE (bindE (combineValues signatures limits SignatureHeaderBytes) requireAscii) (\<lambda>signatureText.
       bindE (checkLimit limits SignatureHeaderBytes (length inputText + length signatureText)) (\<lambda>_.
       pair_signatures limits inputText signatureText)))))))"

end
