(* ===== verification/CoreBase.thy ===== *)
theory CoreBase
  imports CoreInput
begin

text \<open>
  The signature base: derived components of a request (\<^verbatim>\<open>uri.ts\<close>) and canonicalisation
  (\<^verbatim>\<open>signature-base.ts\<close>). What the code asks the platform's \<open>URL\<close> and \<open>URLSearchParams\<close> is a
  parameter: whether \<open>new URL(scheme + "://" + authority + "/")\<close> succeeds with a host name and
  without credentials, the pairs of a query, and the form encoding of one value.
\<close>

record platform =
  valid_authority :: "jsstring \<Rightarrow> jsstring \<Rightarrow> bool"
  search_params :: "jsstring \<Rightarrow> (jsstring \<times> jsstring) list"
  form_value :: "jsstring \<Rightarrow> jsstring"

section \<open>The target URI\<close>

record target_parts =
  target_original :: jsstring
  target_scheme :: jsstring
  target_authority :: jsstring
  target_path :: jsstring
  target_query :: jsstring

definition uri_char :: "nat \<Rightarrow> bool" where
  "uri_char c \<longleftrightarrow> alpha c \<or> digit c \<or> c \<in> set (lit ''-._~:/?[]@!$&()*+,;=%'') \<or> c = 39"

definition hex_digit :: "nat \<Rightarrow> bool" where
  "hex_digit c \<longleftrightarrow> digit c \<or> (97 \<le> c \<and> c \<le> 102) \<or> (65 \<le> c \<and> c \<le> 70)"

text \<open>No \<^verbatim>\<open>/%(?![0-9A-Fa-f]{2})/\<close>.\<close>

fun escapes_ok :: "jsstring \<Rightarrow> bool" where
  "escapes_ok [] = True"
| "escapes_ok (c # s) =
     (escapes_ok s \<and> (c = 37 \<longrightarrow> (case s of a # b # _ \<Rightarrow> hex_digit a \<and> hex_digit b | _ \<Rightarrow> False)))"

definition scheme_char :: "nat \<Rightarrow> bool" where
  "scheme_char c \<longleftrightarrow> alpha c \<or> digit c \<or> c = 43 \<or> c = 46 \<or> c = 45"

text \<open>The pattern \<^verbatim>\<open>/^([A-Za-z][A-Za-z0-9+.-]*):\/\/([^/?#]+)([^?#]*)(\?[^#]*)?$/\<close>: scheme,
  authority, path and optional query, with the question mark, of a text without \<open>#\<close>.\<close>

definition split_target :: "jsstring \<Rightarrow> (jsstring \<times> jsstring \<times> jsstring \<times> jsstring option) option" where
  "split_target s =
     (let scheme = takeWhile scheme_char s; r1 = dropWhile scheme_char s in
      if scheme = [] \<or> \<not> alpha (hd scheme) \<or> take 3 r1 \<noteq> lit ''://'' then None
      else let r2 = drop 3 r1;
               authority = takeWhile (\<lambda>c. c \<noteq> 47 \<and> c \<noteq> 63) r2;
               r3 = dropWhile (\<lambda>c. c \<noteq> 47 \<and> c \<noteq> 63) r2;
               path = takeWhile (\<lambda>c. c \<noteq> 63) r3; query = dropWhile (\<lambda>c. c \<noteq> 63) r3 in
        if authority = [] then None
        else Some (scheme, authority, path, if query = [] then None else Some query))"

text \<open>The host and the text of the port.\<close>

definition split_port :: "jsstring \<Rightarrow> jsstring option option" where
  "split_port s =
     (case s of [] \<Rightarrow> Some None
      | c # ds \<Rightarrow> if c = 58 \<and> list_all digit ds then Some (Some ds) else None)"

definition bracket_char :: "nat \<Rightarrow> bool" where
  "bracket_char c \<longleftrightarrow> hex_digit c \<or> c = 58 \<or> c = 46"

definition host_port :: "jsstring \<Rightarrow> (jsstring \<times> jsstring option) option" where
  "host_port authority =
     (case authority of
        [] \<Rightarrow> None
      | c # s \<Rightarrow>
          if c = 91 then
            let inner = takeWhile bracket_char s; r = dropWhile bracket_char s in
            if inner = [] \<or> r = [] \<or> hd r \<noteq> 93 then None
            else map_option (\<lambda>port. (c # inner @ [93], port)) (split_port (tl r))
          else
            let host = takeWhile (\<lambda>c. c \<noteq> 58) authority in
            if host = [] then None
            else map_option (\<lambda>port. (host, port)) (split_port (dropWhile (\<lambda>c. c \<noteq> 58) authority)))"

definition normalized_authority :: "jsstring \<Rightarrow> jsstring \<Rightarrow> jsstring option \<Rightarrow> jsstring" where
  "normalized_authority scheme host port =
     (let defaultPort = (if scheme = lit ''https'' then 443 else 80) in
      case port of
        None \<Rightarrow> lowercase host
      | Some ds \<Rightarrow>
          if ds = [] \<or> read_digits 0 ds = defaultPort then lowercase host else lowercase host @ [58] @ ds)"

definition targetParts :: "platform \<Rightarrow> jsstring \<Rightarrow> core_limits \<Rightarrow> core_error + target_parts" where
  "targetParts U target limits =
     bindE (checkLimit limits TargetUriBytes (length target)) (\<lambda>_.
     if target = [] \<or> \<not> list_all uri_char target \<or> \<not> escapes_ok target then malformed
     else case split_target target of
       None \<Rightarrow> malformed
     | Some (rawScheme, authority, path, query) \<Rightarrow>
         let scheme = lowercase rawScheme in
         if scheme \<noteq> lit ''http'' \<and> scheme \<noteq> lit ''https'' then Inl (SignatureError RUnsupported)
         else if 64 \<in> set authority then malformed
         else case host_port authority of
           None \<Rightarrow> malformed
         | Some (host, port) \<Rightarrow>
             if \<not> valid_authority U scheme authority then malformed
             else Inr \<lparr>target_original = target, target_scheme = scheme,
                    target_authority = normalized_authority scheme host port,
                    target_path = (if path = [] then [47] else path),
                    target_query = (case query of None \<Rightarrow> [63] | Some q \<Rightarrow> q)\<rparr>)"

definition encodeQueryPart :: "platform \<Rightarrow> jsstring \<Rightarrow> jsstring" where
  "encodeQueryPart U v = concat (map (\<lambda>c. if c = 43 then lit ''%20'' else [c]) (form_value U v))"

definition queryParameter :: "platform \<Rightarrow> jsstring \<Rightarrow> jsstring \<Rightarrow> core_error + jsstring" where
  "queryParameter U query encodedName =
     (case filter (\<lambda>(name, v). encodeQueryPart U name = encodedName) (search_params U (tl query)) of
        [] \<Rightarrow> Inl (SignatureError RMissingComponent)
      | [(name, v)] \<Rightarrow> Inr (encodeQueryPart U v)
      | _ \<Rightarrow> malformed)"

definition target_component ::
    "platform \<Rightarrow> target_parts \<Rightarrow> jsstring \<Rightarrow> jsstring option \<Rightarrow> core_error + jsstring" where
  "target_component U t name queryName =
     (if name = lit ''@target-uri'' then Inr (target_original t)
      else if name = lit ''@authority'' then Inr (target_authority t)
      else if name = lit ''@scheme'' then Inr (target_scheme t)
      else if name = lit ''@path'' then Inr (target_path t)
      else if name = lit ''@query'' then Inr (target_query t)
      else if name = lit ''@query-param'' then
        (case queryName of None \<Rightarrow> malformed | Some q \<Rightarrow> queryParameter U (target_query t) q)
      else Inl (SignatureError RUnsupported))"

definition requestComponent ::
    "platform \<Rightarrow> request_parts \<Rightarrow> jsstring \<Rightarrow> jsstring option \<Rightarrow> core_limits \<Rightarrow> core_error + jsstring" where
  "requestComponent U request name queryName limits =
     (if name = lit ''@method'' then
        bindE (checkLimit limits SignatureBaseBytes (length (request_method request))) (\<lambda>_.
        if isFieldName (request_method request) then Inr (request_method request) else malformed)
      else if name = lit ''@request-target'' then
        (case rawRequestTarget request of
           None \<Rightarrow> Inl (SignatureError RMissingComponent)
         | Some raw \<Rightarrow>
             bindE (checkLimit limits TargetUriBytes (length raw)) (\<lambda>_.
             if raw = [] \<or> \<not> list_all (\<lambda>c. 33 \<le> c \<and> c \<le> 126) raw then malformed else Inr raw))
      else bindE (targetParts U (targetUri request) limits) (\<lambda>t. target_component U t name queryName))"

section \<open>Component parameters\<close>

record component_flags =
  flag_req :: bool
  flag_sf :: bool
  flag_bs :: bool
  flag_key :: "jsstring option"
  flag_name :: "jsstring option"

definition apply_flag :: "component_flags \<Rightarrow> jsstring \<times> bare_item \<Rightarrow> core_error + component_flags" where
  "apply_flag f p =
     (if fst p = lit ''tr'' then Inl (SignatureError RUnsupported)
      else if fst p \<in> {lit ''req'', lit ''sf'', lit ''bs''} then
        (if snd p \<noteq> Boolean True then malformed
         else Inr (if fst p = lit ''req'' then f\<lparr>flag_req := True\<rparr>
                   else if fst p = lit ''sf'' then f\<lparr>flag_sf := True\<rparr> else f\<lparr>flag_bs := True\<rparr>))
      else if fst p \<in> {lit ''key'', lit ''name''} then
        (case snd p of
           SfString s \<Rightarrow> Inr (if fst p = lit ''key'' then f\<lparr>flag_key := Some s\<rparr> else f\<lparr>flag_name := Some s\<rparr>)
         | _ \<Rightarrow> malformed)
      else Inl (SignatureError RUnsupported))"

definition no_flags :: component_flags where
  "no_flags = \<lparr>flag_req = False, flag_sf = False, flag_bs = False, flag_key = None, flag_name = None\<rparr>"

definition componentFlags :: "covered_component \<Rightarrow> core_error + component_flags" where
  "componentFlags c =
     bindE (foldE apply_flag no_flags (component_parameters c)) (\<lambda>f.
     let derived = is_derived (component_name c) in
     if derived \<and> (flag_sf f \<or> flag_bs f \<or> flag_key f \<noteq> None) then malformed
     else if (\<not> derived \<or> component_name c \<noteq> lit ''@query-param'') \<and> flag_name f \<noteq> None then malformed
     else if component_name c = lit ''@query-param'' \<and> flag_name f = None then malformed
     else if flag_bs f \<and> (flag_sf f \<or> flag_key f \<noteq> None) then malformed
     else Inr f)"

section \<open>Header components\<close>

text \<open>The configured field types; a value that is none of the three is a configuration error.\<close>

record canonical_options =
  option_limits :: "core_option js_options"
  structuredFieldTypes :: "(jsstring \<times> field_type option) list"

definition BUILTIN_FIELD_TYPES :: "jsstring list" where
  "BUILTIN_FIELD_TYPES = map lit [''signature-input'', ''signature'', ''content-digest'']"

definition fieldType :: "jsstring \<Rightarrow> canonical_options \<Rightarrow> core_error + field_type option" where
  "fieldType name options =
     (case map_of (structuredFieldTypes options) name of
        Some None \<Rightarrow> Inl SignatureConfigurationError
      | Some (Some t) \<Rightarrow> Inr (Some t)
      | None \<Rightarrow> Inr (if name \<in> set BUILTIN_FIELD_TYPES then Some TDictionary else None))"

fun encoded_size :: "core_limits \<Rightarrow> nat \<Rightarrow> nat \<Rightarrow> jsstring list \<Rightarrow> core_error + nat" where
  "encoded_size limits index n [] = Inr n"
| "encoded_size limits index n (v # vs) =
     (let n' = n + 2 + 4 * ((length v + 2) div 3) + (if index = 0 then 0 else 2) in
      bindE (checkLimit limits SignatureBaseBytes n') (\<lambda>_. encoded_size limits (index + 1) n' vs))"

definition binary_member :: "jsstring \<Rightarrow> member" where
  "binary_member v = MItem \<lparr>item_bare = Bytes (map word_of_nat v), item_parameters = []\<rparr>"

definition structured_value ::
    "jsstring \<Rightarrow> field_type \<Rightarrow> jsstring option \<Rightarrow> core_limits \<Rightarrow> core_error + jsstring" where
  "structured_value combined type wanted limits =
     (let sf = sf_options (structuredFields limits) in
      bindE (withSfErrors (parse (InText combined) type sf)) (\<lambda>parsed.
      case wanted of
        None \<Rightarrow> withSfErrors (serialize parsed sf)
      | Some k \<Rightarrow>
          (case parsed of
             FDictionary entries \<Rightarrow>
               (case map_of entries k of
                  None \<Rightarrow> Inl (SignatureError RMissingComponent)
                | Some m \<Rightarrow> withSfErrors (serializeMember m sf))
           | _ \<Rightarrow> malformed)))"

definition headerComponent ::
    "header_fields \<Rightarrow> http_version option \<Rightarrow> covered_component \<Rightarrow> component_flags \<Rightarrow> core_limits
       \<Rightarrow> canonical_options \<Rightarrow> core_error + jsstring" where
  "headerComponent headers version c flags limits options =
     bindE (fieldValues headers (component_name c) version) (\<lambda>vs.
     if vs = [] then Inl (SignatureError RMissingComponent)
     else if flag_bs flags then
       bindE (encoded_size limits 0 0 vs) (\<lambda>_.
       withSfErrors (serialize (FList (map binary_member vs)) (sf_options (structuredFields limits))))
     else
       bindE (bindE (combineValues vs limits MessageHeaderBytes) requireAscii) (\<lambda>combined.
       if \<not> flag_sf flags \<and> flag_key flags = None then Inr combined
       else
         bindE (fieldType (component_name c) options) (\<lambda>type.
         case type of
           None \<Rightarrow> Inl (SignatureError RUnsupported)
         | Some t \<Rightarrow>
             if flag_key flags \<noteq> None \<and> t \<noteq> TDictionary then malformed
             else structured_value combined t (flag_key flags) limits)))"

section \<open>The signature base\<close>

fun message_headers :: "http_message \<Rightarrow> header_fields" where
  "message_headers (RequestMessage r) = request_headers r"
| "message_headers (ResponseMessage _ hs _ _) = hs"

fun message_version :: "http_message \<Rightarrow> http_version option" where
  "message_version (RequestMessage r) = request_version r"
| "message_version (ResponseMessage _ _ v _) = v"

fun message_request :: "http_message \<Rightarrow> request_parts option" where
  "message_request (RequestMessage r) = Some r"
| "message_request (ResponseMessage _ _ _ r) = r"

fun is_request :: "http_message \<Rightarrow> bool" where
  "is_request (RequestMessage _) = True"
| "is_request (ResponseMessage _ _ _ _) = False"

fun status_value :: "http_message \<Rightarrow> component_flags \<Rightarrow> core_error + jsstring" where
  "status_value (RequestMessage _) flags = malformed"
| "status_value (ResponseMessage status _ _ _) flags =
     (if flag_req flags then malformed
      else case status of
        JsNotInteger \<Rightarrow> malformed
      | JsInt n \<Rightarrow> if n < 100 \<or> 599 < n then malformed else Inr (show_int n))"

definition derived_value ::
    "platform \<Rightarrow> http_message \<Rightarrow> covered_component \<Rightarrow> component_flags \<Rightarrow> core_limits \<Rightarrow> core_error + jsstring" where
  "derived_value U message c flags limits =
     (if component_name c = lit ''@status'' then status_value message flags
      else if \<not> is_request message \<and> \<not> flag_req flags then Inl (SignatureError RMissingComponent)
      else case message_request message of
        None \<Rightarrow> Inl (SignatureError RMissingComponent)
      | Some request \<Rightarrow> requestComponent U request (component_name c) (flag_name flags) limits)"

definition field_value ::
    "http_message \<Rightarrow> covered_component \<Rightarrow> component_flags \<Rightarrow> core_limits \<Rightarrow> canonical_options \<Rightarrow> core_error + jsstring" where
  "field_value message c flags limits options =
     (if flag_req flags then
        (case message_request message of
           None \<Rightarrow> Inl (SignatureError RMissingComponent)
         | Some request \<Rightarrow> headerComponent (request_headers request) (request_version request) c flags limits options)
      else headerComponent (message_headers message) (message_version message) c flags limits options)"

definition component_value ::
    "platform \<Rightarrow> http_message \<Rightarrow> covered_component \<Rightarrow> core_limits \<Rightarrow> canonical_options \<Rightarrow> core_error + jsstring" where
  "component_value U message c limits options =
     bindE (componentFlags c) (\<lambda>flags.
     if flag_req flags \<and> is_request message then malformed
     else if flag_req flags \<and> message_request message = None then Inl (SignatureError RMissingComponent)
     else
       bindE (bindE (if is_derived (component_name c) then derived_value U message c flags limits
                     else field_value message c flags limits options) requireAscii) (\<lambda>v.
       if 13 \<in> set v \<or> 10 \<in> set v then malformed else Inr v))"

text \<open>The loop over the components; its state is the identifiers seen, the length and the lines.\<close>

definition add_component ::
    "platform \<Rightarrow> http_message \<Rightarrow> core_limits \<Rightarrow> canonical_options \<Rightarrow> jsstring list \<times> nat \<times> jsstring list
       \<Rightarrow> covered_component \<Rightarrow> core_error + (jsstring list \<times> nat \<times> jsstring list)" where
  "add_component U message limits options st c =
     (case st of (seen, n, lines) \<Rightarrow>
        bindE (withSfErrors (serializeMember (MItem (component_item c)) (sf_options (structuredFields limits)))) (\<lambda>identifier.
        if identifier \<in> set seen then malformed
        else bindE (component_value U message c limits options) (\<lambda>v.
          let n' = n + length identifier + 2 + length v + 1 in
          bindE (checkLimit limits SignatureBaseBytes n') (\<lambda>_.
          Inr (identifier # seen, n', lines @ [identifier @ lit '': '' @ v @ [10]])))))"

definition params_prefix :: jsstring where
  "params_prefix = [34] @ lit ''@signature-params'' @ [34] @ lit '': ''"

definition base_of_lines ::
    "core_limits \<Rightarrow> jsstring \<Rightarrow> jsstring list \<times> nat \<times> jsstring list \<Rightarrow> core_error + signature_base" where
  "base_of_lines limits params st =
     (case st of (seen, n, lines) \<Rightarrow>
        bindE (checkLimit limits SignatureBaseBytes (n + length params_prefix + length params)) (\<lambda>_.
        bindE (requireAscii (concat lines @ params_prefix @ params)) (\<lambda>t.
        Inr \<lparr>base_text = t, base_bytes = map word_of_nat (utf8_encode t)\<rparr>)))"

definition base_within ::
    "platform \<Rightarrow> http_message \<Rightarrow> signature_input \<Rightarrow> canonical_options \<Rightarrow> core_limits \<Rightarrow> core_error + signature_base" where
  "base_within U message i options limits =
     bindE (signatureParameters i limits) (\<lambda>params.
     bindE (validateHeaders (message_headers message) limits) (\<lambda>_.
     bindE (case message of
              ResponseMessage _ _ _ (Some r) \<Rightarrow> validateHeaders (request_headers r) limits
            | _ \<Rightarrow> Inr 0) (\<lambda>_.
     bindE (foldE (add_component U message limits options) ([], 0, []) (sig_components i))
       (base_of_lines limits params))))"

definition createSignatureBase ::
    "platform \<Rightarrow> http_message \<Rightarrow> signature_input \<Rightarrow> canonical_options \<Rightarrow> core_error + signature_base" where
  "createSignatureBase U message i options =
     bindE (resolveCoreLimits (option_limits options)) (base_within U message i options)"

end
