(* ===== verification/CoreCrypto.thy ===== *)
theory CoreCrypto
  imports CoreBase
begin

text \<open>
  Signing and cryptographic verification, \<^verbatim>\<open>crypto.ts\<close>. The Ed25519 operations of the platform
  are parameters: \<open>sign_bytes\<close> for \<open>sign(null, bytes, key)\<close> and \<open>verify_bytes\<close> for
  \<open>verify(null, bytes, key, signature)\<close>. A key argument is a key object of a type, an algorithm
  and key material, or a value of another class.
\<close>

datatype key_purpose = SecretKey | PublicKey | PrivateKey

datatype 'k key_argument = NotKeyObject | KeyObject key_purpose "jsstring option" 'k

fun requireKey :: "'k key_argument \<Rightarrow> key_purpose \<Rightarrow> core_error + 'k" where
  "requireKey NotKeyObject purpose = Inl (SignatureError RInvalidKey)"
| "requireKey (KeyObject t algorithm k) purpose =
     (if t \<noteq> purpose \<or> algorithm \<noteq> Some (lit ''ed25519'') then Inl (SignatureError RInvalidKey) else Inr k)"

definition requireAlgorithm :: "signature_input \<Rightarrow> core_error + unit" where
  "requireAlgorithm i =
     (case map_of (sig_parameters i) (lit ''alg'') of
        None \<Rightarrow> Inr ()
      | Some a \<Rightarrow> if a \<noteq> SfString (lit ''ed25519'') then Inl (SignatureError RAlgorithmMismatch) else Inr ())"

text \<open>The values of the two header fields.\<close>

definition signed_headers ::
    "core_limits \<Rightarrow> jsstring \<Rightarrow> inner_list \<Rightarrow> u8 list \<Rightarrow> core_error + signature_patch" where
  "signed_headers limits label inner signature =
     (let sf = sf_options (structuredFields limits) in
      bindE (withSfErrors (serialize (FDictionary [(label, MInnerList inner)]) sf)) (\<lambda>inputText.
      bindE (withSfErrors (serialize (FDictionary
        [(label, MItem \<lparr>item_bare = Bytes signature, item_parameters = []\<rparr>)]) sf)) (\<lambda>signatureText.
      bindE (checkLimit limits SignatureHeaderBytes (length inputText + length signatureText)) (\<lambda>_.
      Inr \<lparr>patch_label = label, patch_input = inputText, patch_signature = signatureText\<rparr>))))"

definition signHttpMessage ::
    "platform \<Rightarrow> ('k \<Rightarrow> u8 list \<Rightarrow> u8 list) \<Rightarrow> http_message \<Rightarrow> signature_input \<Rightarrow> 'k key_argument
       \<Rightarrow> canonical_options \<Rightarrow> core_error + signature_patch" where
  "signHttpMessage U sign_bytes message i privateKey options =
     bindE (requireKey privateKey PrivateKey) (\<lambda>k.
     bindE (resolveCoreLimits (option_limits options)) (\<lambda>limits.
     bindE (signatureInnerList i limits) (\<lambda>inner.
     bindE (requireAlgorithm i) (\<lambda>_.
     bindE (createSignatureBase U message i options) (\<lambda>base.
     signed_headers limits (sig_label i) inner (sign_bytes k (base_bytes base)))))))"

datatype crypto_verification = SignatureValid signature_input | CryptoRejected rejection_reason

text \<open>The body of the \<open>try\<close> block, and its \<open>catch\<close>: errors of the class \<open>SignatureError\<close>
  become results, others are thrown on.\<close>

definition verify_checks ::
    "platform \<Rightarrow> ('k \<Rightarrow> u8 list \<Rightarrow> u8 list \<Rightarrow> bool) \<Rightarrow> core_limits \<Rightarrow> http_message \<Rightarrow> parsed_signature
       \<Rightarrow> 'k key_argument \<Rightarrow> canonical_options \<Rightarrow> core_error + crypto_verification" where
  "verify_checks U verify_bytes limits message s publicKey options =
     bindE (requireKey publicKey PublicKey) (\<lambda>k.
     bindE (signatureInnerList (signature_of_input s) limits) (\<lambda>_.
     bindE (requireAlgorithm (signature_of_input s)) (\<lambda>_.
     if length (signature_bytes s) \<noteq> 64 then Inr (CryptoRejected RSignatureMismatch)
     else
       bindE (createSignatureBase U message (signature_of_input s) options) (\<lambda>base.
       if \<not> verify_bytes k (base_bytes base) (signature_bytes s)
       then Inr (CryptoRejected RSignatureMismatch)
       else Inr (SignatureValid (signature_of_input s))))))"

definition rejected_of :: "core_error + crypto_verification \<Rightarrow> core_error + crypto_verification" where
  "rejected_of r =
     (case r of
        Inr v \<Rightarrow> Inr v
      | Inl e \<Rightarrow> (case signature_reason e of Some reason \<Rightarrow> Inr (CryptoRejected reason) | None \<Rightarrow> Inl e))"

definition verifyHttpSignatureCryptography ::
    "platform \<Rightarrow> ('k \<Rightarrow> u8 list \<Rightarrow> u8 list \<Rightarrow> bool) \<Rightarrow> http_message \<Rightarrow> parsed_signature
       \<Rightarrow> 'k key_argument \<Rightarrow> canonical_options \<Rightarrow> core_error + crypto_verification" where
  "verifyHttpSignatureCryptography U verify_bytes message s publicKey options =
     bindE (resolveCoreLimits (option_limits options)) (\<lambda>limits.
     rejected_of (verify_checks U verify_bytes limits message s publicKey options))"

end
