(* ===== verification/SfCanonical.thy ===== *)
theory SfCanonical
  imports SfSerializer
begin

text \<open>
  The specification of the serializer: which values it accepts under given limits
  (\<open>valid_\<dots>\<close>), the text of a value (\<open>text_\<dots>\<close>) and the number of occurrences it counts
  (\<open>occ_\<dots>\<close>), and that each method of the writer meets it (collection \<open>meets\<close>).
\<close>

named_theorems meets \<open>each writer method meets its specification\<close>

section \<open>Texts, counts, validity\<close>

fun text_bare :: "bare_item \<Rightarrow> jsstring" where
  "text_bare (Integer v) = show_int v"
| "text_bare (Date v) = 64 # show_int v"
| "text_bare (Decimal v) = decimal_text v"
| "text_bare (Boolean b) = (if b then lit ''?1'' else lit ''?0'')"
| "text_bare (Token t) = t"
| "text_bare (SfString s) = [34] @ escape_string s @ [34]"
| "text_bare (DisplayString s) = display_text s @ [34]"
| "text_bare (Bytes bs) = [58] @ base64_encode bs @ [58]"

definition text_parameter :: "jsstring \<times> bare_item \<Rightarrow> jsstring" where
  "text_parameter p = [59] @ fst p @ (if snd p = Boolean True then [] else [61] @ text_bare (snd p))"

definition text_parameters :: "parameters \<Rightarrow> jsstring" where
  "text_parameters ps = concat (map text_parameter ps)"

definition text_item :: "item \<Rightarrow> jsstring" where
  "text_item i = text_bare (item_bare i) @ text_parameters (item_parameters i)"

definition text_inner_list :: "inner_list \<Rightarrow> jsstring" where
  "text_inner_list l = [40] @ join [32] (map text_item (inner_items l)) @ [41]
     @ text_parameters (inner_parameters l)"

fun text_member :: "member \<Rightarrow> jsstring" where
  "text_member (MItem i) = text_item i"
| "text_member (MInnerList l) = text_inner_list l"

fun text_value :: "member \<Rightarrow> jsstring" where
  "text_value (MItem i) = (if item_bare i = Boolean True then text_parameters (item_parameters i)
     else [61] @ text_item i)"
| "text_value (MInnerList l) = [61] @ text_inner_list l"

definition text_entry :: "jsstring \<times> member \<Rightarrow> jsstring" where
  "text_entry e = fst e @ text_value (snd e)"

fun text_field :: "field \<Rightarrow> jsstring" where
  "text_field (FItem i) = text_item i"
| "text_field (FList ms) = join (lit '', '') (map text_member ms)"
| "text_field (FDictionary es) = join (lit '', '') (map text_entry es)"

definition occ_item :: "item \<Rightarrow> nat" where
  "occ_item i = 1 + length (item_parameters i)"

fun occ_member :: "member \<Rightarrow> nat" where
  "occ_member (MItem i) = occ_item i"
| "occ_member (MInnerList l) =
     1 + sum_list (map occ_item (inner_items l)) + length (inner_parameters l)"

fun occ_field :: "field \<Rightarrow> nat" where
  "occ_field (FItem i) = occ_item i"
| "occ_field (FList ms) = sum_list (map occ_member ms)"
| "occ_field (FDictionary es) = sum_list (map (occ_member \<circ> snd) es)"

fun valid_bare :: "limits \<Rightarrow> bare_item \<Rightarrow> bool" where
  "valid_bare L (Integer v) = (\<bar>v\<bar> \<le> max_sf_integer)"
| "valid_bare L (Date v) = (\<bar>v\<bar> \<le> max_sf_integer)"
| "valid_bare L (Decimal v) = (\<bar>v\<bar> \<le> max_sf_integer)"
| "valid_bare L (Boolean b) = True"
| "valid_bare L (Token t) = (token_pattern t \<and> within L MaxTokenLength (length t))"
| "valid_bare L (SfString s) = (list_all printable s \<and> within L MaxDecodedBytes (length s))"
| "valid_bare L (DisplayString s) =
     (well_formed_utf16 s \<and> within L MaxDecodedBytes (length (utf8_encode s)))"
| "valid_bare L (Bytes bs) = within L MaxDecodedBytes (length bs)"

definition valid_key :: "limits \<Rightarrow> jsstring \<Rightarrow> bool" where
  "valid_key L k \<longleftrightarrow> key_pattern k \<and> within L MaxKeyLength (length k)"

definition valid_parameters :: "limits \<Rightarrow> parameters \<Rightarrow> bool" where
  "valid_parameters L ps \<longleftrightarrow> within L MaxParameters (length ps) \<and> distinct (map fst ps) \<and>
     list_all (\<lambda>(k, v). valid_key L k \<and> valid_bare L v) ps"

definition valid_item :: "limits \<Rightarrow> item \<Rightarrow> bool" where
  "valid_item L i \<longleftrightarrow> valid_bare L (item_bare i) \<and> valid_parameters L (item_parameters i)"

fun valid_member :: "limits \<Rightarrow> member \<Rightarrow> bool" where
  "valid_member L (MItem i) = valid_item L i"
| "valid_member L (MInnerList l) =
     (within L MaxInnerListItems (length (inner_items l)) \<and> list_all (valid_item L) (inner_items l)
      \<and> valid_parameters L (inner_parameters l))"

fun valid_field :: "limits \<Rightarrow> field \<Rightarrow> bool" where
  "valid_field L (FItem i) = valid_item L i"
| "valid_field L (FList ms) = (within L MaxMembers (length ms) \<and> list_all (valid_member L) ms)"
| "valid_field L (FDictionary es) =
     (within L MaxMembers (length es) \<and> distinct (map fst es) \<and>
      list_all (\<lambda>(k, m). valid_key L k \<and> valid_member L m) es)"

text \<open>What the type \<open>string\<close> promises of a display string, the one value whose units
  are not all compared with a bound: its units are 16 bits wide.\<close>

fun units_bare :: "bare_item \<Rightarrow> bool" where
  "units_bare (DisplayString s) = list_all (\<lambda>c. c < 65536) s"
| "units_bare _ = True"

definition units_item :: "item \<Rightarrow> bool" where
  "units_item i \<longleftrightarrow> units_bare (item_bare i) \<and> list_all (units_bare \<circ> snd) (item_parameters i)"

fun units_member :: "member \<Rightarrow> bool" where
  "units_member (MItem i) = units_item i"
| "units_member (MInnerList l) =
     (list_all units_item (inner_items l) \<and> list_all (units_bare \<circ> snd) (inner_parameters l))"

fun units_field :: "field \<Rightarrow> bool" where
  "units_field (FItem i) = units_item i"
| "units_field (FList ms) = list_all units_member ms"
| "units_field (FDictionary es) = list_all (units_member \<circ> snd) es"

section \<open>Meeting a specification\<close>

abbreviation wlimits :: "writer \<Rightarrow> limits" where
  "wlimits w \<equiv> blimits (wbudget w)"

definition room :: "writer \<Rightarrow> jsstring \<Rightarrow> nat \<Rightarrow> bool" where
  "room w t n \<longleftrightarrow> within (wlimits w) MaxOutputBytes (wlength w + length t) \<and>
     within (wlimits w) MaxTotalOccurrences (occurrences (wbudget w) + n)"

definition emits :: "writer \<Rightarrow> jsstring \<Rightarrow> nat \<Rightarrow> writer \<Rightarrow> bool" where
  "emits w t n w' \<longleftrightarrow> finish w' = finish w @ t \<and> wlength w' = wlength w + length t \<and>
     wbudget w' = (wbudget w)\<lparr>occurrences := occurrences (wbudget w) + n\<rparr>"

text \<open>\<open>meets r w t n V\<close>: the result \<open>r\<close> of a method called on \<open>w\<close> is a success exactly
  when \<open>V\<close> holds and there is room, and then it appended \<open>t\<close> and counted \<open>n\<close>.\<close>

definition meets :: "sf_error + writer \<Rightarrow> writer \<Rightarrow> jsstring \<Rightarrow> nat \<Rightarrow> bool \<Rightarrow> bool" where
  "meets r w t n V \<longleftrightarrow>
     (case r of Inl _ \<Rightarrow> \<not> (V \<and> room w t n) | Inr w' \<Rightarrow> V \<and> room w t n \<and> emits w t n w')"

definition wok :: "writer \<Rightarrow> bool" where
  "wok w \<longleftrightarrow> room w [] 0"

lemma emits_limits: "emits w t n w' \<Longrightarrow> wlimits w' = wlimits w"
  by (simp add: emits_def)

lemma meets_ok: "meets r w t n V \<Longrightarrow> is_ok r \<longleftrightarrow> V \<and> room w t n"
  by (auto simp: meets_def split: sum.splits)

lemma meets_emits: "meets (Inr w') w t n V \<Longrightarrow> emits w t n w'"
  by (simp add: meets_def)

lemma room_step:
  assumes "emits w t n w'"
  shows "room w (t @ u) (n + k) \<longleftrightarrow> room w' u k"
  using assms by (auto simp: room_def emits_def add_ac)

lemma room_mono: "room w (t @ u) (n + k) \<Longrightarrow> room w t n"
  by (auto simp: room_def elim: within_mono)

lemma wok_step: "emits w t n w' \<Longrightarrow> room w t n \<Longrightarrow> wok w'"
  by (auto simp: wok_def room_def emits_def)

lemma emits_trans: "emits w t n w' \<Longrightarrow> emits w' u k w'' \<Longrightarrow> emits w (t @ u) (n + k) w''"
  by (auto simp: emits_def)

lemma meets_bind:
  assumes m: "meets r w t n V"
    and f: "\<And>w'. wok w' \<Longrightarrow> wlimits w' = wlimits w \<Longrightarrow> meets (f w') w' u k U"
    and eqs: "t' = t @ u" "n' = n + k" "V' \<longleftrightarrow> V \<and> U"
  shows "meets (bindE r f) w t' n' V'"
proof (cases r)
  case (Inl e)
  with m have "\<not> (V \<and> room w t n)" by (simp add: meets_def)
  then show ?thesis using Inl eqs by (auto simp: meets_def dest: room_mono)
next
  case (Inr w')
  with m have r: "V" "room w t n" "emits w t n w'" by (auto simp: meets_def)
  then have f': "meets (f w') w' u k U" using f wok_step emits_limits by blast
  show ?thesis
  proof (cases "f w'")
    case (Inl e)
    with f' r show ?thesis using Inr eqs by (auto simp: meets_def room_step [OF r(3)])
  next
    case (Inr w'')
    with f' r show ?thesis using \<open>r = Inr w'\<close> eqs
      by (auto simp: meets_def room_step [OF r(3)] emits_trans [OF r(3)])
  qed
qed

text \<open>A guard that returns nothing.\<close>

lemma meets_guard:
  fixes g :: "sf_error + unit"
  assumes "g = Inr () \<longleftrightarrow> G" and "G \<Longrightarrow> meets r w t n V"
    and "V' \<and> room w t n \<longleftrightarrow> G \<and> V \<and> room w t n"
  shows "meets (bindE g (\<lambda>_. r)) w t n V'"
proof (cases g)
  case (Inl e)
  with assms(1) have "\<not> G" by simp
  with Inl assms(3) show ?thesis by (auto simp: meets_def)
next
  case (Inr u)
  with assms have "G" "meets r w t n V" by simp_all
  with Inr assms(3) show ?thesis by (auto simp: meets_def split: sum.splits)
qed

lemma meets_check:
  "(within (wlimits w) l k \<Longrightarrow> meets r w t n V) \<Longrightarrow> V' \<longleftrightarrow> within (wlimits w) l k \<and> V \<Longrightarrow>
     meets (bindE (wcheck l k w) (\<lambda>_. r)) w t n V'"
  by (rule meets_guard) (auto simp: wcheck_def)

lemma reserve_eq_Inr: "reserve k w = Inr u \<longleftrightarrow> within (wlimits w) MaxOutputBytes (wlength w + k)"
  by (simp add: reserve_def)

lemma meets_reserve:
  "meets r w t n V \<Longrightarrow> k \<le> length t \<Longrightarrow> meets (bindE (reserve k w) (\<lambda>_. r)) w t n V"
  by (rule meets_guard [OF reserve_eq_Inr]) (auto simp: room_def elim: within_mono)

lemma meets_reject: "\<not> V \<Longrightarrow> meets (reject e) w t n V"
  by (simp add: meets_def reject_def)

lemma bind_reject [simp]: "bindE (reject e) f = reject e"
  by (simp add: reject_def)

lemma meets_append: "wok w \<Longrightarrow> meets (append v w) w v 0 True"
proof -
  assume "wok w"
  have "meets (bindE (reserve (length v) w)
      (\<lambda>_. Inr (w\<lparr>wlength := wlength w + length v, chunks := chunks w @ [v]\<rparr>))) w v 0 True"
    by (rule meets_guard [OF reserve_eq_Inr, where V = True])
      (use \<open>wok w\<close> in \<open>auto simp: meets_def wok_def room_def emits_def finish_def\<close>)
  then show ?thesis by (simp add: append_def)
qed

lemma meets_Inr: "wok w \<Longrightarrow> meets (Inr w) w [] 0 True"
  by (simp add: meets_def wok_def emits_def)

lemma meets_consume: "wok w \<Longrightarrow> meets (wconsume w) w [] 1 True"
  by (cases "consumeOccurrence (wbudget w)")
    (auto simp: meets_def wconsume_def wok_def room_def emits_def finish_def
      consumeOccurrence_eq_Inr consumeOccurrence_def bindE_def dest: within_check split: sum.splits)

lemmas meets_steps = meets_append meets_Inr meets_consume

section \<open>Keys and bare items\<close>

lemma meets_key:
  assumes "wok w"
  shows "case write_key k seen w of
           Inl e \<Rightarrow> \<not> (valid_key (wlimits w) k \<and> k \<notin> set seen \<and> room w k 0)
         | Inr (seen', w') \<Rightarrow> seen' = k # seen \<and> valid_key (wlimits w) k \<and> k \<notin> set seen \<and>
             room w k 0 \<and> emits w k 0 w'"
proof -
  have "meets (bindE (wcheck MaxKeyLength (length k) w) (\<lambda>_.
     if \<not> key_pattern k then reject SInvalidKey
     else if k \<in> set seen then reject SDuplicateKey
     else bindE (reserve (length k) w) (\<lambda>_. append k w))) w k 0
       (valid_key (wlimits w) k \<and> k \<notin> set seen)" (is "meets ?r _ _ _ _")
    by (rule meets_check [where V = "key_pattern k \<and> k \<notin> set seen"])
      (auto simp: valid_key_def intro!: meets_reject meets_reserve meets_append [OF assms])
  moreover have "write_key k seen w = bindE ?r (\<lambda>w1. Inr (k # seen, w1))"
    by (cases "key_pattern k"; cases "k \<in> set seen")
      (simp_all add: write_key_def bindE_assoc reject_def)
  ultimately show ?thesis by (cases ?r) (auto simp: meets_def)
qed

lemma meets_key_bind:
  assumes "wok w"
    and "\<And>w'. wok w' \<Longrightarrow> wlimits w' = wlimits w \<Longrightarrow> meets (f (k # seen, w')) w' u n U"
    and "t' = k @ u" "V' \<longleftrightarrow> valid_key (wlimits w) k \<and> k \<notin> set seen \<and> U"
  shows "meets (bindE (write_key k seen w) f) w t' n V'"
proof -
  define r where "r = bindE (write_key k seen w) (\<lambda>x. Inr (snd x))"
  have "meets r w k 0 (valid_key (wlimits w) k \<and> k \<notin> set seen)"
    using meets_key [OF assms(1), of k seen]
    by (auto simp: r_def meets_def bindE_def split: sum.splits)
  then have "meets (bindE r (\<lambda>w'. f (k # seen, w'))) w t' n V'"
    by (rule meets_bind) (use assms in auto)
  moreover have "bindE (write_key k seen w) f = bindE r (\<lambda>w'. f (k # seen, w'))"
    using meets_key [OF assms(1), of k seen]
    by (auto simp: r_def bindE_def split: sum.splits)
  ultimately show ?thesis by simp
qed

lemma escape_string_Cons: "escape_string (c # s) = (if quoted c then [92, c] else [c]) @ escape_string s"
  by (simp add: escape_string_def)

lemma length_escape_string: "length s \<le> length (escape_string s)"
  by (induction s) (auto simp: escape_string_def)

lemma measure_string_eq_Inr:
  "within (wlimits w) MaxOutputBytes (wlength w + e) \<Longrightarrow>
   measure_string e s w = Inr () \<longleftrightarrow> list_all printable s \<and>
     within (wlimits w) MaxOutputBytes (wlength w + (e + length (escape_string s)))"
proof (induction e s w rule: measure_string.induct)
  case (2 e c cs w)
  define e' where "e' = e + (if quoted c then 2 else 1)"
  have len: "e + length (escape_string (c # cs)) = e' + length (escape_string cs)"
    by (simp add: escape_string_Cons e'_def)
  show ?case
  proof (cases "printable c")
    case True
    have "within (wlimits w) MaxOutputBytes (wlength w + (e' + length (escape_string cs))) \<Longrightarrow>
        within (wlimits w) MaxOutputBytes (wlength w + e')"
      by (erule within_mono) simp
    with True show ?thesis using 2(1) [OF _ e'_def]
      unfolding len by (auto simp: printable_def e'_def [symmetric] Let_def bindE_eq_Inr reserve_eq_Inr)
  next
    case False
    then show ?thesis by (auto simp: printable_def reject_def)
  qed
qed (simp add: escape_string_def)

lemma meets_string:
  "wok w \<Longrightarrow> meets (write_string s w) w (text_bare (SfString s)) 0 (valid_bare (wlimits w) (SfString s))"
  unfolding write_string_def
proof (rule meets_check)
  assume w: "wok w"
  have base: "room w (text_bare (SfString s)) 0 \<Longrightarrow>
      within (wlimits w) MaxOutputBytes (wlength w + (2 + length s))"
    using length_escape_string [of s] by (auto simp: room_def elim: within_mono)
  show "meets (bindE (reserve (2 + length s) w) (\<lambda>_. bindE (measure_string 2 s w)
      (\<lambda>_. append ([34] @ escape_string s @ [34]) w))) w (text_bare (SfString s)) 0 (list_all printable s)"
    by (rule meets_guard [OF reserve_eq_Inr], rule meets_guard [OF measure_string_eq_Inr])
      (use w base in \<open>auto simp: room_def elim: within_mono intro: meets_append\<close>)
qed auto

text \<open>Display strings: the measured sizes are those of the UTF-8 bytes and of their text.\<close>

definition percent_text :: "nat list \<Rightarrow> jsstring" where
  "percent_text bs = concat (map percent_encode bs)"

lemma percent_text_simps [simp]:
  "percent_text [] = []" "percent_text (b # bs) = percent_encode b @ percent_text bs"
  "percent_text (bs @ cs) = percent_text bs @ percent_text cs"
  by (simp_all add: percent_text_def)

lemma length_percent_encode: "length (percent_encode b) = (if display_plain b then 1 else 3)"
  by (simp add: percent_encode_def hex2_def)

lemma length_percent_text: "length bs \<le> length (percent_text bs)"
  by (induction bs) (auto simp: length_percent_encode)

lemma multibyte_percent:
  "128 \<le> c \<Longrightarrow> c < 2048 \<Longrightarrow> length (percent_text (utf8_2 c)) = 6"
  "2048 \<le> c \<Longrightarrow> c < 65536 \<Longrightarrow> length (percent_text (utf8_3 c)) = 9"
  "length (percent_text (utf8_4 c)) = 12"
  by (simp_all add: utf8_2_def utf8_3_def utf8_4_def length_percent_encode display_plain_def)

lemma length_utf8_forms [simp]:
  "length (utf8_2 c) = 2" "length (utf8_3 c) = 3" "length (utf8_4 c) = 4"
  by (simp_all add: utf8_2_def utf8_3_def utf8_4_def)

definition byte_count :: "nat \<Rightarrow> nat" where
  "byte_count c = (if c < 128 then 1 else if c < 2048 then 2 else 3)"

lemma display_plain_small: "display_plain c \<Longrightarrow> c < 128"
  by (simp add: display_plain_def)

lemma utf8_encode_sizes:
  assumes "c < 65536" "\<not> high_surrogate c" "\<not> low_surrogate c"
  shows "length (utf8_encode (c # s)) = byte_count c + length (utf8_encode s)"
    and "length (percent_text (utf8_encode (c # s)))
      = (if display_plain c then 1 else byte_count c * 3) + length (percent_text (utf8_encode s))"
  using assms multibyte_percent [of c] display_plain_small [of c]
  by (auto simp: utf8_encode.simps(2) byte_count_def length_percent_encode)

lemma utf8_encode_pair_sizes:
  assumes "high_surrogate c" "low_surrogate d"
  shows "length (utf8_encode (c # d # s)) = 4 + length (utf8_encode s)"
    and "length (percent_text (utf8_encode (c # d # s))) = 12 + length (percent_text (utf8_encode s))"
    and "\<not> display_plain c"
  using assms multibyte_percent(3)
  by (auto simp: utf8_encode.simps(2) surrogate_defs display_plain_def)

lemma measured_eq_Inr:
  "measured c n (d, e) w = Inr ss \<longleftrightarrow>
     ss = (d + n, e + (if display_plain c then 1 else n * 3)) \<and>
     within (wlimits w) MaxDecodedBytes (fst ss) \<and>
     within (wlimits w) MaxOutputBytes (wlength w + snd ss)"
  by (auto simp: measured_def Let_def bindE_eq_Inr wcheck_def reserve_eq_Inr)

text \<open>One round: what is left to measure fits if and only if the whole did.\<close>

lemma measure_round:
  assumes "D = d' + dl" "E = e' + el"
    and "within (wlimits w) MaxDecodedBytes d' \<Longrightarrow>
      within (wlimits w) MaxOutputBytes (wlength w + e') \<Longrightarrow>
      measure_display (d', e') r w = Inr () \<longleftrightarrow> W \<and>
        within (wlimits w) MaxDecodedBytes (d' + dl) \<and>
        within (wlimits w) MaxOutputBytes (wlength w + (e' + el))"
  shows "(within (wlimits w) MaxDecodedBytes d' \<and> within (wlimits w) MaxOutputBytes (wlength w + e')
      \<and> measure_display (d', e') r w = Inr ()) \<longleftrightarrow> W \<and>
      within (wlimits w) MaxDecodedBytes D \<and> within (wlimits w) MaxOutputBytes (wlength w + E)"
proof -
  have "within (wlimits w) MaxDecodedBytes (d' + dl) \<Longrightarrow> within (wlimits w) MaxDecodedBytes d'"
    "within (wlimits w) MaxOutputBytes (wlength w + (e' + el)) \<Longrightarrow>
      within (wlimits w) MaxOutputBytes (wlength w + e')"
    by (erule within_mono, simp)+
  with assms show ?thesis by blast
qed

lemma well_formed_utf16_simps [simp]:
  "\<not> high_surrogate c \<Longrightarrow> \<not> low_surrogate c \<Longrightarrow> c < 65536 \<Longrightarrow>
     well_formed_utf16 (c # s) \<longleftrightarrow> well_formed_utf16 s"
  "high_surrogate c \<Longrightarrow> low_surrogate d \<Longrightarrow> well_formed_utf16 (c # d # s) \<longleftrightarrow> well_formed_utf16 s"
  "low_surrogate c \<Longrightarrow> \<not> well_formed_utf16 (c # s)"
  "high_surrogate c \<Longrightarrow> \<not> well_formed_utf16 [c]"
  "high_surrogate c \<Longrightarrow> \<not> low_surrogate d \<Longrightarrow> \<not> well_formed_utf16 (c # d # s)"
  by (auto simp: well_formed_utf16.simps(2) surrogate_defs)

lemma measure_display_eq_Inr:
  "list_all (\<lambda>c. c < 65536) s \<Longrightarrow> within (wlimits w) MaxDecodedBytes d \<Longrightarrow>
   within (wlimits w) MaxOutputBytes (wlength w + e) \<Longrightarrow>
   measure_display (d, e) s w = Inr () \<longleftrightarrow> well_formed_utf16 s \<and>
     within (wlimits w) MaxDecodedBytes (d + length (utf8_encode s)) \<and>
     within (wlimits w) MaxOutputBytes (wlength w + (e + length (percent_text (utf8_encode s))))"
proof (induction s arbitrary: d e rule: well_formed_utf16.induct)
  case (2 c r)
  consider (pair) low r' where "high_surrogate c" "r = low # r'" "low_surrogate low"
    | (lone) "high_surrogate c" "\<And>low r'. r = low # r' \<Longrightarrow> \<not> low_surrogate low"
    | (low) "low_surrogate c" "\<not> high_surrogate c"
    | (unit) "\<not> high_surrogate c" "\<not> low_surrogate c"
    by (cases r) auto
  then show ?case
  proof cases
    case pair
    have "measure_display (d, e) (c # r) w = Inr () \<longleftrightarrow>
        within (wlimits w) MaxDecodedBytes (d + 4) \<and>
        within (wlimits w) MaxOutputBytes (wlength w + (e + 12)) \<and>
        measure_display (d + 4, e + 12) r' w = Inr ()"
      using pair utf8_encode_pair_sizes(3) [OF pair(1,3)]
      by (auto simp: bindE_eq_Inr measured_eq_Inr)
    also have "\<dots> \<longleftrightarrow> well_formed_utf16 r' \<and>
        within (wlimits w) MaxDecodedBytes (d + length (utf8_encode (c # r))) \<and>
        within (wlimits w) MaxOutputBytes (wlength w + (e + length (percent_text (utf8_encode (c # r)))))"
      by (rule measure_round [OF _ _ 2(1) [OF pair(1,2)]])
        (use pair 2 utf8_encode_pair_sizes [OF pair(1,3)] in auto)
    finally show ?thesis using pair by simp
  next
    case lone
    then show ?thesis by (cases r) (auto simp: reject_def)
  next
    case low
    then show ?thesis by (auto simp: reject_def)
  next
    case unit
    define k where "k = (if display_plain c then 1 else byte_count c * 3)"
    have "measure_display (d, e) (c # r) w = Inr () \<longleftrightarrow>
        within (wlimits w) MaxDecodedBytes (d + byte_count c) \<and>
        within (wlimits w) MaxOutputBytes (wlength w + (e + k)) \<and>
        measure_display (d + byte_count c, e + k) r w = Inr ()"
      using unit by (auto simp: bindE_eq_Inr measured_eq_Inr byte_count_def [symmetric] k_def)
    also have "\<dots> \<longleftrightarrow> well_formed_utf16 r \<and>
        within (wlimits w) MaxDecodedBytes (d + length (utf8_encode (c # r))) \<and>
        within (wlimits w) MaxOutputBytes (wlength w + (e + length (percent_text (utf8_encode (c # r)))))"
      by (rule measure_round [OF _ _ 2(2) [OF unit(1)]])
        (use unit 2(3) utf8_encode_sizes [OF _ unit] in \<open>auto simp: k_def\<close>)
    finally show ?thesis using unit 2(3) by simp
  qed
qed auto

lemma utf8_length_ge: "well_formed_utf16 s \<Longrightarrow> length s \<le> length (utf8_encode s)"
proof (induction s rule: well_formed_utf16.induct)
  case (2 c r)
  show ?case
  proof (cases "high_surrogate c")
    case True
    with 2 show ?thesis using utf8_encode_pair_sizes(1) [OF True]
      by (cases r) (auto simp: well_formed_utf16.simps(2))
  next
    case False
    with 2 have "\<not> low_surrogate c" "c < 65536" "well_formed_utf16 r"
      by (auto simp: well_formed_utf16.simps(2))
    then show ?thesis using 2 False utf8_encode_sizes(1) [of c r] by (auto simp: byte_count_def)
  qed
qed simp

lemma display_text_percent: "display_text s @ [34] = [37, 34] @ percent_text (utf8_encode s) @ [34]"
  by (simp add: display_text_def percent_text_def)

lemma meets_display:
  assumes w: "wok w" and u: "list_all (\<lambda>c. c < 65536) s"
  shows "meets (write_displayString s w) w (text_bare (DisplayString s)) 0
    (valid_bare (wlimits w) (DisplayString s))"
proof -
  let ?L = "length (utf8_encode s)" and ?P = "length (percent_text (utf8_encode s))"
  have len: "length (text_bare (DisplayString s)) = 3 + ?P"
    by (simp add: display_text_percent)
  have mono: "well_formed_utf16 s \<Longrightarrow> within (wlimits w) MaxDecodedBytes ?L \<Longrightarrow>
      within (wlimits w) MaxDecodedBytes (length s)"
    "well_formed_utf16 s \<Longrightarrow> within (wlimits w) MaxOutputBytes (wlength w + (3 + ?P)) \<Longrightarrow>
      within (wlimits w) MaxOutputBytes (wlength w + (3 + length s))"
    using utf8_length_ge [of s] length_percent_text [of "utf8_encode s"]
    by (auto elim: within_mono)
  have "within (wlimits w) MaxDecodedBytes 0" by (simp add: within_def)
  moreover have "within (wlimits w) MaxOutputBytes (wlength w + (3 + length s)) \<Longrightarrow>
      within (wlimits w) MaxOutputBytes (wlength w + 3)" by (erule within_mono) simp
  ultimately have measure: "within (wlimits w) MaxOutputBytes (wlength w + (3 + length s)) \<Longrightarrow>
      measure_display (0, 3) s w = Inr () \<longleftrightarrow> well_formed_utf16 s \<and>
      within (wlimits w) MaxDecodedBytes ?L \<and> within (wlimits w) MaxOutputBytes (wlength w + (3 + ?P))"
    using measure_display_eq_Inr [OF u, of w 0 3] by auto
  let ?T = "text_bare (DisplayString s)" and ?V = "valid_bare (wlimits w) (DisplayString s)"
  have roomT: "room w ?T 0 \<Longrightarrow> within (wlimits w) MaxOutputBytes (wlength w + (3 + ?P))"
    unfolding room_def len by simp
  have "meets (append (display_text s @ [34]) w) w ?T 0 True"
    using w by (auto intro: meets_append)
  then have "meets (bindE (measure_display (0, 3) s w) (\<lambda>_. append (display_text s @ [34]) w)) w ?T 0 ?V"
    if "within (wlimits w) MaxOutputBytes (wlength w + (3 + length s))"
    by (rule meets_guard [OF measure [OF that]]) (use roomT in auto)
  then have "meets (bindE (reserve (3 + length s) w) (\<lambda>_. bindE (measure_display (0, 3) s w)
      (\<lambda>_. append (display_text s @ [34]) w))) w ?T 0 ?V"
    by (rule meets_guard [OF reserve_eq_Inr]) (use mono(2) roomT in auto)
  then show ?thesis
    unfolding write_displayString_def by (rule meets_check) (use mono(1) in auto)
qed

lemma sf_integer_cases: "sf_integer v = (if \<bar>v\<bar> \<le> max_sf_integer then Inr v else reject SInvalidNumber)"
  by (auto simp: sf_integer_def is_safe_integer_def max_safe_def max_sf_integer_def)

lemma meets_bare_w:
  assumes "wok w" "units_bare b"
  shows "meets (write_bare b w) w (text_bare b) 0 (valid_bare (wlimits w) b)"
proof (cases b)
  case (Token t)
  show ?thesis unfolding Token write_bare.simps
    by (rule meets_check [where V = "token_pattern t"])
      (auto intro: meets_append [OF assms(1)] meets_reject)
next
  case (Bytes bs)
  show ?thesis unfolding Bytes write_bare.simps
    by (rule meets_check [where V = True])
      (auto simp: length_base64_encode
        intro!: meets_reserve meets_append [OF assms(1), of "[58] @ base64_encode bs @ [58]", simplified])
next
  case (DisplayString s)
  with assms show ?thesis by (auto simp del: valid_bare.simps text_bare.simps intro: meets_display)
next
  case (SfString s)
  with assms show ?thesis by (auto simp del: valid_bare.simps text_bare.simps intro: meets_string)
qed (auto simp: sf_integer_cases intro: meets_append [OF assms(1)] meets_reject
    meets_append [OF assms(1), of "[c, d]" for c d, simplified])

lemma meets_bare [meets]:
  "wok w \<Longrightarrow> wlimits w = L \<Longrightarrow> units_bare b \<Longrightarrow> meets (write_bare b w) w (text_bare b) 0 (valid_bare L b)"
  using meets_bare_w by auto

section \<open>Parameters, items, members and fields\<close>

definition text_assign :: "bare_item \<Rightarrow> jsstring" where
  "text_assign v = (if v = Boolean True then [] else [61] @ text_bare v)"

lemma meets_assign:
  assumes "wok w" "wlimits w = L" "units_bare v"
  shows "meets (if v = Boolean True then Inr w else bindE (append [61] w) (write_bare v))
    w (text_assign v) 0 (valid_bare L v)"
proof (cases "v = Boolean True")
  case False
  have "meets (bindE (append [61] w) (write_bare v)) w ([61] @ text_bare v) 0 (valid_bare L v)"
    by (rule meets_bind [OF meets_append [OF assms(1)]], rule meets_bare) (use assms in auto)
  with False show ?thesis by (simp add: text_assign_def)
qed (use meets_Inr [OF assms(1)] in \<open>simp add: text_assign_def\<close>)

lemma text_parameters_simps [simp]:
  "text_parameters [] = []"
  "text_parameters ((k, v) # ps) = [59] @ k @ text_assign v @ text_parameters ps"
  by (simp_all add: text_parameters_def text_parameter_def text_assign_def)

lemma meets_key_bind_L:
  assumes "wok w" "wlimits w = L"
    and "\<And>w'. wok w' \<Longrightarrow> wlimits w' = L \<Longrightarrow> meets (f (k # seen, w')) w' u n U"
    and "t' = k @ u" "V' \<longleftrightarrow> valid_key L k \<and> k \<notin> set seen \<and> U"
  shows "meets (bindE (write_key k seen w) f) w t' n V'"
  by (rule meets_key_bind) (use assms in auto)

lemma meets_bind_L:
  assumes "meets r w t n V" "wlimits w = L"
    and "\<And>w'. wok w' \<Longrightarrow> wlimits w' = L \<Longrightarrow> meets (f w') w' u k U"
    and "t' = t @ u" "n' = n + k" "V' \<longleftrightarrow> V \<and> U"
  shows "meets (bindE r f) w t' n' V'"
  by (rule meets_bind [OF assms(1)]) (use assms in auto)

definition valid_entries :: "limits \<Rightarrow> (limits \<Rightarrow> 'a \<Rightarrow> bool) \<Rightarrow> jsstring list \<Rightarrow> (jsstring \<times> 'a) list \<Rightarrow> bool"
  where "valid_entries L V seen es \<longleftrightarrow> distinct (map fst es) \<and> set (map fst es) \<inter> set seen = {} \<and>
      list_all (\<lambda>(k, v). valid_key L k \<and> V L v) es"

lemma valid_entries_simps [simp]:
  "valid_entries L V seen []"
  "valid_entries L V seen ((k, v) # es) \<longleftrightarrow>
     valid_key L k \<and> k \<notin> set seen \<and> V L v \<and> valid_entries L V (k # seen) es"
  by (auto simp: valid_entries_def)

lemma meets_parameter_loop:
  "wok w \<Longrightarrow> wlimits w = L \<Longrightarrow> list_all (units_bare \<circ> snd) ps \<Longrightarrow>
   meets (write_parameter_loop ps seen w) w (text_parameters ps) (length ps)
     (valid_entries L valid_bare seen ps)"
proof (induction ps arbitrary: seen w)
  case Nil
  then show ?case by (auto intro: meets_Inr)
next
  case (Cons p ps)
  obtain k v where p: "p = (k, v)" by (cases p)
  have last: "meets (bindE (if v = Boolean True then Inr w3 else bindE (append [61] w3) (write_bare v))
      (write_parameter_loop ps (k # seen))) w3 (text_assign v @ text_parameters ps) (length ps)
      (valid_bare L v \<and> valid_entries L valid_bare (k # seen) ps)"
    if "wok w3" "wlimits w3 = L" for w3
    by (rule meets_bind_L [OF meets_assign that(2)]) (use that Cons.prems Cons.IH p in auto)
  have key: "meets (bindE (write_key k seen w2) (\<lambda>(seen', w3).
      bindE (if v = Boolean True then Inr w3 else bindE (append [61] w3) (write_bare v))
        (write_parameter_loop ps seen'))) w2 (k @ text_assign v @ text_parameters ps) (length ps)
      (valid_entries L valid_bare seen (p # ps))"
    if "wok w2" "wlimits w2 = L" for w2
    by (rule meets_key_bind_L [OF that]) (use last p in auto)
  have app: "meets (bindE (append [59] w1) (\<lambda>w2. bindE (write_key k seen w2) (\<lambda>(seen', w3).
      bindE (if v = Boolean True then Inr w3 else bindE (append [61] w3) (write_bare v))
        (write_parameter_loop ps seen')))) w1 (text_parameters (p # ps)) (length ps)
      (valid_entries L valid_bare seen (p # ps))"
    if "wok w1" "wlimits w1 = L" for w1
    by (rule meets_bind_L [OF meets_append [OF that(1)] that(2) key]) (use p in auto)
  show ?case
    unfolding p write_parameter_loop.simps
    by (rule meets_bind_L [OF meets_consume _ app]) (use Cons.prems p in auto)
qed

lemma meets_parameters [meets]:
  "wok w \<Longrightarrow> wlimits w = L \<Longrightarrow> list_all (units_bare \<circ> snd) ps \<Longrightarrow>
   meets (write_parameters ps w) w (text_parameters ps) (length ps) (valid_parameters L ps)"
  unfolding write_parameters_def
  by (rule meets_check, rule meets_parameter_loop) (auto simp: valid_parameters_def valid_entries_def)

lemma meets_item [meets]:
  assumes "wok w" "wlimits w = L" "units_item i"
  shows "meets (write_item i w) w (text_item i) (occ_item i) (valid_item L i)"
proof -
  have step: "meets (bindE (write_bare (item_bare i) w1) (write_parameters (item_parameters i))) w1
      (text_item i) (length (item_parameters i)) (valid_item L i)"
    if "wok w1" "wlimits w1 = L" for w1
    by (rule meets_bind_L [OF meets_bare that(2) meets_parameters])
      (use that assms in \<open>auto simp: units_item_def text_item_def valid_item_def\<close>)
  show ?thesis
    unfolding write_item_def
    by (rule meets_bind_L [OF meets_consume _ step]) (use assms in \<open>auto simp: occ_item_def\<close>)
qed

text \<open>The three loops that write a separator before every element but the first.\<close>

definition joined :: "nat \<Rightarrow> jsstring \<Rightarrow> jsstring list \<Rightarrow> jsstring" where
  "joined index sep ts = (if index \<noteq> 0 \<and> ts \<noteq> [] then sep else []) @ join sep ts"

lemma joined_simps [simp]:
  "joined index sep [] = []"
  "joined index sep (t # ts) = (if index \<noteq> 0 then sep else []) @ t @ joined (index + 1) sep ts"
  "joined 0 sep ts = join sep ts"
  by (cases ts; simp add: joined_def join_Cons)+

lemma meets_separator:
  "wok w \<Longrightarrow> meets (if index \<noteq> 0 then append sep w else Inr w) w (if index \<noteq> 0 then sep else []) 0 True"
  by (auto intro: meets_steps)

lemma meets_items [meets]:
  "wok w \<Longrightarrow> wlimits w = L \<Longrightarrow> list_all units_item is \<Longrightarrow>
   meets (write_items index is w) w (joined index [32] (map text_item is))
     (sum_list (map occ_item is)) (list_all (valid_item L) is)"
proof (induction "is" arbitrary: index w)
  case Nil
  then show ?case by (auto intro: meets_Inr)
next
  case (Cons i "is")
  have step: "meets (bindE (write_item i w1) (write_items (index + 1) is)) w1
      (text_item i @ joined (index + 1) [32] (map text_item is))
      (sum_list (map occ_item (i # is))) (list_all (valid_item L) (i # is))"
    if "wok w1" "wlimits w1 = L" for w1
    by (rule meets_bind_L [OF meets_item that(2) Cons.IH]) (use that Cons.prems in auto)
  show ?case
    unfolding write_items.simps
    by (rule meets_bind_L [OF meets_separator _ step]) (use Cons.prems in auto)
qed

lemma meets_inner_list [meets]:
  assumes "wok w" "wlimits w = L" "units_member (MInnerList l)"
  shows "meets (write_inner_list l w) w (text_inner_list l) (occ_member (MInnerList l))
    (valid_member L (MInnerList l))"
proof -
  let ?ps = "inner_parameters l" and ?is = "inner_items l"
  have close: "meets (bindE (append [41] w3) (write_parameters ?ps)) w3 ([41] @ text_parameters ?ps)
      (length ?ps) (valid_parameters L ?ps)" if "wok w3" "wlimits w3 = L" for w3
    by (rule meets_bind_L [OF meets_append that(2) meets_parameters]) (use that assms in auto)
  have items: "meets (bindE (write_items 0 ?is w2) (\<lambda>w3. bindE (append [41] w3) (write_parameters ?ps)))
      w2 (join [32] (map text_item ?is) @ [41] @ text_parameters ?ps)
      (sum_list (map occ_item ?is) + length ?ps) (list_all (valid_item L) ?is \<and> valid_parameters L ?ps)"
    if "wok w2" "wlimits w2 = L" for w2
    by (rule meets_bind_L [OF meets_items that(2) close]) (use that assms in auto)
  have open_: "meets (bindE (append [40] w1) (\<lambda>w2. bindE (write_items 0 ?is w2)
      (\<lambda>w3. bindE (append [41] w3) (write_parameters ?ps)))) w1 (text_inner_list l)
      (sum_list (map occ_item ?is) + length ?ps) (list_all (valid_item L) ?is \<and> valid_parameters L ?ps)"
    if "wok w1" "wlimits w1 = L" for w1
    by (rule meets_bind_L [OF meets_append that(2) items]) (use that in \<open>auto simp: text_inner_list_def\<close>)
  have body: "meets (bindE (wcheck MaxInnerListItems (length ?is) w1) (\<lambda>_.
      bindE (append [40] w1) (\<lambda>w2. bindE (write_items 0 ?is w2)
      (\<lambda>w3. bindE (append [41] w3) (write_parameters ?ps))))) w1 (text_inner_list l)
      (sum_list (map occ_item ?is) + length ?ps) (valid_member L (MInnerList l))"
    if "wok w1" "wlimits w1 = L" for w1
    by (rule meets_check [OF open_]) (use that in auto)
  show ?thesis
    unfolding write_inner_list_def
    by (rule meets_bind_L [OF meets_consume _ body]) (use assms in auto)
qed

lemma meets_member [meets]:
  "wok w \<Longrightarrow> wlimits w = L \<Longrightarrow> units_member m \<Longrightarrow>
     meets (write_member m w) w (text_member m) (occ_member m) (valid_member L m)"
  by (cases m) (auto intro: meets_item simp del: valid_member.simps(2) occ_member.simps(2)
      intro!: meets_inner_list)

lemma meets_members:
  "wok w \<Longrightarrow> wlimits w = L \<Longrightarrow> list_all units_member ms \<Longrightarrow>
   meets (write_members index ms w) w (joined index (lit '', '') (map text_member ms))
     (sum_list (map occ_member ms)) (list_all (valid_member L) ms)"
proof (induction ms arbitrary: index w)
  case Nil
  then show ?case by (auto intro: meets_Inr)
next
  case (Cons m ms)
  have step: "meets (bindE (write_member m w1) (write_members (index + 1) ms)) w1
      (text_member m @ joined (index + 1) (lit '', '') (map text_member ms))
      (sum_list (map occ_member (m # ms))) (list_all (valid_member L) (m # ms))"
    if "wok w1" "wlimits w1 = L" for w1
    by (rule meets_bind_L [OF meets_member that(2) Cons.IH]) (use that Cons.prems in auto)
  show ?case
    unfolding write_members.simps
    by (rule meets_bind_L [OF meets_separator _ step]) (use Cons.prems in auto)
qed

lemma meets_value:
  assumes "wok w" "wlimits w = L" "units_member m"
  shows "meets (write_value m w) w (text_value m) (occ_member m) (valid_member L m)"
proof -
  have explicit: "meets (bindE (append [61] w) (write_member m)) w ([61] @ text_member m)
      (occ_member m) (valid_member L m)"
    by (rule meets_bind_L [OF meets_append assms(2) meets_member]) (use assms in auto)
  show ?thesis
  proof (cases m)
    case (MItem i)
    have implicit: "meets (bindE (wconsume w) (write_parameters (item_parameters i))) w
        (text_parameters (item_parameters i)) (occ_item i) (valid_parameters L (item_parameters i))"
      by (rule meets_bind_L [OF meets_consume assms(2) meets_parameters])
        (use assms MItem in \<open>auto simp: units_item_def occ_item_def\<close>)
    show ?thesis
      using MItem explicit implicit by (auto simp: write_value_def valid_item_def)
  next
    case (MInnerList l)
    with explicit show ?thesis by (simp add: write_value_def)
  qed
qed

lemma meets_entries:
  "wok w \<Longrightarrow> wlimits w = L \<Longrightarrow> list_all (units_member \<circ> snd) es \<Longrightarrow>
   meets (write_entries index es seen w) w (joined index (lit '', '') (map text_entry es))
     (sum_list (map (occ_member \<circ> snd) es)) (valid_entries L valid_member seen es)"
proof (induction es arbitrary: index seen w)
  case Nil
  then show ?case by (auto intro: meets_Inr)
next
  case (Cons e es)
  obtain k m where e: "e = (k, m)" by (cases e)
  let ?rest = "joined (index + 1) (lit '', '') (map text_entry es)"
    and ?n = "occ_member m + sum_list (map (occ_member \<circ> snd) es)"
  have val: "meets (bindE (write_value m w2) (write_entries (index + 1) es (k # seen))) w2
      (text_value m @ ?rest) ?n (valid_member L m \<and> valid_entries L valid_member (k # seen) es)"
    if "wok w2" "wlimits w2 = L" for w2
    by (rule meets_bind_L [OF meets_value that(2) Cons.IH]) (use that Cons.prems e in \<open>auto simp: comp_def\<close>)
  have key: "meets (bindE (write_key k seen w1) (\<lambda>(seen', w2).
      bindE (write_value m w2) (write_entries (index + 1) es seen'))) w1
      (text_entry e @ ?rest) ?n (valid_entries L valid_member seen (e # es))"
    if "wok w1" "wlimits w1 = L" for w1
    by (rule meets_key_bind_L [OF that, where u = "text_value m @ ?rest"])
      (use val e in \<open>auto simp: text_entry_def\<close>)
  show ?case
    unfolding e write_entries.simps
    by (rule meets_bind_L [OF meets_separator _ key]) (use Cons.prems e in \<open>auto simp: comp_def\<close>)
qed

lemma meets_field [meets]:
  assumes "wok w" "wlimits w = L" "units_field f"
  shows "meets (write_field f w) w (text_field f) (occ_field f) (valid_field L f)"
proof (cases f)
  case (FItem i)
  with assms show ?thesis by (auto intro: meets_item)
next
  case (FList ms)
  have "meets (write_members 0 ms w) w (text_field f) (occ_field f) (list_all (valid_member L) ms)"
    using meets_members [of w L ms 0] assms FList by auto
  then show ?thesis unfolding FList write_field.simps
    by (rule meets_check) (use assms FList in auto)
next
  case (FDictionary es)
  have "meets (write_entries 0 es [] w) w (text_field f) (occ_field f) (valid_entries L valid_member [] es)"
    using meets_entries [of w L es 0 "[]"] assms FDictionary by auto
  then show ?thesis unfolding FDictionary write_field.simps
    by (rule meets_check) (use assms FDictionary in \<open>auto simp: valid_entries_def\<close>)
qed

section \<open>The serializer\<close>

lemma wok_new_writer: "wok (new_writer l)"
  by (simp add: wok_def room_def new_writer_def new_budget_def within_def)

definition fits_output :: "limits \<Rightarrow> jsstring \<Rightarrow> nat \<Rightarrow> bool" where
  "fits_output L t n \<longleftrightarrow> within L MaxOutputBytes (length t) \<and> within L MaxTotalOccurrences n"

lemma meets_finish:
  assumes "meets r (new_writer L) t n V"
  shows "bindE r (\<lambda>w. Inr (finish w)) = Inr s \<longleftrightarrow> V \<and> fits_output L t n \<and> s = t"
  using assms by (auto simp: meets_def bindE_def room_def emits_def new_writer_def new_budget_def
      finish_def fits_output_def split: sum.splits)

lemma serialize_iff:
  assumes "units_field f"
  shows "serialize f options = Inr s \<longleftrightarrow> (\<exists>L. resolveLimits options = Inr L \<and>
    valid_field L f \<and> fits_output L (text_field f) (occ_field f) \<and> s = text_field f)"
proof -
  have "bindE (write_field f (new_writer L)) (\<lambda>w. Inr (finish w)) = Inr s \<longleftrightarrow>
      valid_field L f \<and> fits_output L (text_field f) (occ_field f) \<and> s = text_field f" for L
    by (rule meets_finish, rule meets_field)
      (simp_all add: wok_new_writer assms, simp add: new_writer_def new_budget_def)
  then show ?thesis by (auto simp: serialize_def bindE_eq_Inr)
qed

lemma serializeMember_iff:
  assumes "units_member m"
  shows "serializeMember m options = Inr s \<longleftrightarrow> (\<exists>L. resolveLimits options = Inr L \<and>
    valid_member L m \<and> fits_output L (text_member m) (occ_member m) \<and> s = text_member m)"
proof -
  have "bindE (write_member m (new_writer L)) (\<lambda>w. Inr (finish w)) = Inr s \<longleftrightarrow>
      valid_member L m \<and> fits_output L (text_member m) (occ_member m) \<and> s = text_member m" for L
    by (rule meets_finish, rule meets_member)
      (simp_all add: wok_new_writer assms, simp add: new_writer_def new_budget_def)
  then show ?thesis by (auto simp: serializeMember_def bindE_eq_Inr)
qed

end
