(* ===== verification/SfReading.thy ===== *)
theory SfReading
  imports SfSemantic SfCanonical
begin

text \<open>
  The parser on canonical text: on a source whose unread part is the text of a valid value
  followed by something that cannot continue it, the method returns a raw tree of that
  value, moves past the text, and counts the value's occurrences (collection \<open>reads\<close>).
\<close>

named_theorems reads \<open>each parser method reads the canonical text of a value\<close>

section \<open>The unread part of the source\<close>

definition rest :: "parser \<Rightarrow> jsstring" where
  "rest p = drop (position p) (source p)"

text \<open>The parser after it has read \<open>t\<close> and counted \<open>n\<close> occurrences.\<close>

definition past :: "jsstring \<Rightarrow> nat \<Rightarrow> parser \<Rightarrow> parser" where
  "past t n p = p\<lparr>position := position p + length t,
     pbudget := (pbudget p)\<lparr>occurrences := occurrences (pbudget p) + n\<rparr>\<rparr>"

abbreviation plimits :: "parser \<Rightarrow> limits" where
  "plimits p \<equiv> blimits (pbudget p)"

definition stops :: "(nat \<Rightarrow> bool) \<Rightarrow> jsstring \<Rightarrow> bool" where
  "stops P r \<longleftrightarrow> (case r of [] \<Rightarrow> True | c # _ \<Rightarrow> \<not> P c)"

lemma stops_simps [simp]: "stops P []" "stops P (c # r) \<longleftrightarrow> \<not> P c"
  by (simp_all add: stops_def)

lemma code_rest: "code p = (case rest p of [] \<Rightarrow> None | c # _ \<Rightarrow> Some c)"
  by (auto simp: code_def rest_def hd_drop_conv_nth [symmetric] split: list.split)

lemma code_rest_simps [simp]:
  "rest p = [] \<Longrightarrow> code p = None"
  "rest p = c # r \<Longrightarrow> code p = Some c"
  by (simp_all add: code_rest)

lemma sees_rest [simp]:
  "rest p = [] \<Longrightarrow> \<not> sees P p"
  "rest p = c # r \<Longrightarrow> sees P p \<longleftrightarrow> P c"
  by (simp_all add: sees_def)

lemma sees_stops: "stops P (rest p) \<Longrightarrow> \<not> sees P p"
  by (auto simp: sees_def code_rest stops_def split: list.splits)

lemma rest_past [simp]: "rest p = t @ r \<Longrightarrow> rest (past t n p) = r"
  by (simp add: rest_def past_def add.commute [of "position p"] drop_drop [symmetric] del: drop_drop)

lemma adv_past: "adv p = past [c] 0 p"
  by (simp add: adv_def past_def)

lemma rest_adv [simp]: "rest p = c # r \<Longrightarrow> rest (adv p) = r"
  using rest_past [of p "[c]" r 0] by (simp add: adv_past [of p c])

lemma past_past [simp]: "past u m (past t n p) = past (t @ u) (n + m) p"
  by (simp add: past_def add_ac)

lemma past_adv: "past t n (adv p) = past (c # t) n p"
  by (simp add: adv_def past_def)

lemma past_Nil [simp]: "past [] 0 p = p"
  by (simp add: past_def)

lemma past_fields [simp]:
  "source (past t n p) = source p" "position (past t n p) = position p + length t"
  "plimits (past t n p) = plimits p"
  "occurrences (pbudget (past t n p)) = occurrences (pbudget p) + n"
  by (simp_all add: past_def)

lemma plimits_adv [simp]: "plimits (adv p) = plimits p"
  by simp

lemma at_end: "position p \<le> length (source p) \<Longrightarrow> position p = length (source p) \<longleftrightarrow> rest p = []"
  by (auto simp: rest_def)

lemma not_at_end: "position p < length (source p) \<longleftrightarrow> rest p \<noteq> []"
  by (auto simp: rest_def)

lemma slice_past: "rest p = t @ r \<Longrightarrow> slice (source p) (position p) (position p + length t) = t"
  by (simp add: slice_def rest_def)

lemma consume_past:
  "within (plimits p) MaxTotalOccurrences (occurrences (pbudget p) + 1) \<Longrightarrow> consume p = Inr (past [] 1 p)"
  by (simp add: consume_def consumeOccurrence_def past_def)

section \<open>Keys and tokens\<close>

lemma key_classes: "key_first_class c \<longleftrightarrow> keyFirst c" "key_rest_class c \<longleftrightarrow> keyRest c"
  by (auto simp: key_first_class_def key_rest_class_def keyFirst_def keyRest_def lower_alpha_def)

lemma token_classes: "token_first_class c \<longleftrightarrow> alpha c \<or> c = 42" "token_rest_class c \<longleftrightarrow> tokenRest c"
  by (auto simp: token_first_class_def token_rest_class_def tokenRest_def token_punctuation_def)

lemma spaces_stop: "stops (\<lambda>c. c = 32 \<or> (t \<and> c = 9)) (rest p) \<Longrightarrow> spaces t p = p"
  by (simp add: spaces.simps [of t p] sees_stops)

lemma key_rest_reads:
  "rest p = t @ r \<Longrightarrow> list_all keyRest t \<Longrightarrow> stops keyRest r \<Longrightarrow> start \<le> position p \<Longrightarrow>
   within (plimits p) MaxKeyLength (position p + length t - start) \<Longrightarrow>
   key_rest start p = Inr (past t 0 p)"
proof (induction t arbitrary: p)
  case Nil
  then show ?case by (simp add: key_rest.simps [of start p] sees_stops)
next
  case (Cons c t)
  then have "within (plimits p) MaxKeyLength (Suc (position p - start))"
    by (auto elim!: within_mono)
  with Cons show ?case
    by (simp add: key_rest.simps [of start p] past_adv [of _ _ _ c])
qed

lemma key_reads [reads]:
  assumes "rest p = k @ r" "valid_key (plimits p) k" "stops keyRest r"
  shows "key p = Inr ((k, \<lparr>span_start = position p, span_end = position p + length k\<rparr>), past k 0 p)"
proof -
  obtain c cs where k: "k = c # cs" "keyFirst c" "list_all keyRest k"
    using assms(2) by (cases k) (auto simp: valid_key_def key_classes keyRest_def list_all_iff)
  have "key_rest (position p) p = Inr (past k 0 p)"
    by (rule key_rest_reads [OF assms(1) k(3) assms(3)]) (use assms(2) in \<open>auto simp: valid_key_def\<close>)
  moreover have "sees keyFirst p" using assms(1) k by simp
  ultimately show ?thesis using slice_past [OF assms(1)] by (simp add: key_def Let_def)
qed

lemma token_rest_reads:
  "rest p = t @ r \<Longrightarrow> list_all tokenRest t \<Longrightarrow> stops tokenRest r \<Longrightarrow> start \<le> position p \<Longrightarrow>
   within (plimits p) MaxTokenLength (position p + length t - start) \<Longrightarrow>
   token_rest start p = Inr (past t 0 p)"
proof (induction t arbitrary: p)
  case Nil
  then show ?case by (simp add: token_rest.simps [of start p] sees_stops)
next
  case (Cons c t)
  then have "within (plimits p) MaxTokenLength (Suc (position p - start))"
    by (auto elim!: within_mono)
  with Cons show ?case
    by (simp add: token_rest.simps [of start p] past_adv [of _ _ _ c])
qed

lemma token_reads:
  assumes "rest p = t @ r" "valid_bare (plimits p) (Token t)" "stops tokenRest r"
  shows "token p = Inr (t, past t 0 p)"
proof -
  have "list_all tokenRest t"
    using assms(2) by (cases t) (auto simp: token_classes list_all_iff tokenRest_def token_punctuation_def)
  then have "token_rest (position p) p = Inr (past t 0 p)"
    by (rule token_rest_reads [OF assms(1) _ assms(3)]) (use assms(2) in auto)
  then show ?thesis using slice_past [OF assms(1)] by (simp add: token_def Let_def)
qed

section \<open>Numbers\<close>

lemma digit_loop_reads:
  "rest p = ds @ r \<Longrightarrow> list_all digit ds \<Longrightarrow> stops digit r \<Longrightarrow> start \<le> position p \<Longrightarrow>
   position p + length ds - start \<le> m \<Longrightarrow>
   digit_loop m start acc p = Inr (read_digits acc ds, past ds 0 p)"
proof (induction ds arbitrary: p acc)
  case Nil
  then show ?case
    by (cases r) (simp_all add: digit_loop.simps [of m start acc p])
next
  case (Cons d ds)
  then show ?case
    by (simp add: digit_loop.simps [of m start acc p] past_adv [of _ _ _ d])
qed

lemma show_nat_15: "n \<le> 999999999999999 \<Longrightarrow> length (show_nat n) \<le> 15"
  by (simp add: length_show_nat)

lemma show_nat_12: "n \<le> 999999999999 \<Longrightarrow> length (show_nat n) \<le> 12"
  by (simp add: length_show_nat)

lemma show_nat_first: "\<exists>d ds. show_nat n = d # ds \<and> digit d"
  using show_nat_digits [of n] show_nat_nonempty [of n] by (cases "show_nat n") auto

definition number_stop :: "nat \<Rightarrow> bool" where
  "number_stop c \<longleftrightarrow> digit c \<or> c = 46"

lemma stops_number: "stops number_stop r \<Longrightarrow> stops digit r" "stops number_stop r \<Longrightarrow> stops (\<lambda>c. c = 46) r"
  by (cases r; simp add: number_stop_def)+

text \<open>The sign: the parser after it, for a negative number or not.\<close>

definition sign_text :: "bool \<Rightarrow> jsstring" where
  "sign_text b = (if b then [45] else [])"

lemma sign_reads:
  assumes "rest p = sign_text b @ d # ds" "digit d"
  shows "sees (\<lambda>c. c = 45) p \<longleftrightarrow> b"
    and "(if sees (\<lambda>c. c = 45) p then adv p else p) = past (sign_text b) 0 p"
  using assms by (cases b; auto simp: sign_text_def digit_def adv_past [of p 45])+

lemma number_integer_reads:
  assumes "rest p = sign_text b @ show_nat n @ r" "stops number_stop r" "n \<le> 999999999999999"
  shows "number p = Inr (Integer (signed b n), past (sign_text b @ show_nat n) 0 p)"
proof -
  let ?p1 = "past (sign_text b) 0 p"
  obtain d ds where d: "show_nat n = d # ds" "digit d" using show_nat_first by blast
  have rest: "rest p = sign_text b @ d # (ds @ r)" using assms(1) d by simp
  have rest1: "rest ?p1 = show_nat n @ r" using assms(1) by simp
  have "digit_loop 15 (position ?p1) 0 ?p1 = Inr (read_digits 0 (show_nat n), past (show_nat n) 0 ?p1)"
    by (rule digit_loop_reads [OF rest1 show_nat_digits stops_number(1) [OF assms(2)]])
      (use show_nat_15 [OF assms(3)] in auto)
  moreover have "sees digit ?p1" using rest1 d by simp
  moreover have "\<not> sees (\<lambda>c. c = 46) (past (show_nat n) 0 ?p1)"
  proof (rule sees_stops)
    have "rest (past (show_nat n) 0 ?p1) = r" using rest1 by (rule rest_past)
    then show "stops (\<lambda>c. c = 46) (rest (past (show_nat n) 0 ?p1))"
      using stops_number(2) [OF assms(2)] by simp
  qed
  ultimately show ?thesis
    using sign_reads [OF rest d(2)] by (simp add: number_def Let_def)
qed

lemma show_int_sign: "show_int v = sign_text (v < 0) @ show_nat (nat \<bar>v\<bar>)"
  by (simp add: show_int_def sign_text_def)

lemma signed_abs: "signed (v < 0) (nat \<bar>v\<bar>) = v"
  by (simp add: signed_def)

lemma number_reads_integer:
  assumes "rest p = show_int v @ r" "stops number_stop r" "\<bar>v\<bar> \<le> max_sf_integer"
  shows "number p = Inr (Integer v, past (show_int v) 0 p)"
proof -
  have "nat \<bar>v\<bar> \<le> 999999999999999" using assms(3) by (simp add: max_sf_integer_def)
  with number_integer_reads [of p "v < 0" "nat \<bar>v\<bar>" r] assms show ?thesis
    by (simp add: show_int_sign signed_abs)
qed

text \<open>The fraction of a canonical decimal has one to three digits and its value.\<close>

lemma three_digits:
  assumes "f < 1000"
  shows "pad_start 3 (show_nat f) = [48 + f div 100, 48 + f div 10 mod 10, 48 + f mod 10]"
proof -
  consider "f < 10" | "10 \<le> f" "f < 100" | "100 \<le> f" by linarith
  then show ?thesis
  proof cases
    case 1
    then show ?thesis by (simp add: pad_start_def show_nat.simps [of f] numeral_3_eq_3)
  next
    case 2
    then have "f div 10 < 10" by simp
    with 2 show ?thesis
      by (simp add: pad_start_def show_nat.simps [of f] show_nat.simps [of "f div 10"])
  next
    case 3
    then have "f div 10 \<ge> 10" "f div 10 div 10 < 10" using assms by simp_all
    with 3 show ?thesis
      by (simp add: pad_start_def show_nat.simps [of f] show_nat.simps [of "f div 10"]
          show_nat.simps [of "f div 10 div 10"] div_mult2_eq)
  qed
qed

lemma fraction_text_properties:
  assumes "f < 1000"
  shows "list_all digit (fraction_text f)" "fraction_text f \<noteq> []" "length (fraction_text f) \<le> 3"
    and "read_digits 0 (fraction_text f) * 10 ^ (3 - length (fraction_text f)) = f"
proof -
  define a b c where abc: "a = f div 100" "b = f div 10 mod 10" "c = f mod 10"
  have "f div 10 div 10 = a" by (simp add: abc div_mult2_eq [symmetric])
  then have "f div 10 = a * 10 + b" using div_mult_mod_eq [of "f div 10" 10] abc by simp
  then have f: "f = a * 100 + b * 10 + c" using div_mult_mod_eq [of f 10] abc(3) by linarith
  have lt: "a < 10" "b < 10" "c < 10" using assms abc by auto
  have ft: "fraction_text f =
      (if c \<noteq> 0 then [48 + a, 48 + b, 48 + c] else if b \<noteq> 0 then [48 + a, 48 + b]
       else [48 + a])"
    using three_digits [OF assms] by (simp add: fraction_text_def strip_zeros_def abc [symmetric])
  show "list_all digit (fraction_text f)" "fraction_text f \<noteq> []" "length (fraction_text f) \<le> 3"
    using lt by (auto simp: ft digit_def)
  show "read_digits 0 (fraction_text f) * 10 ^ (3 - length (fraction_text f)) = f"
    unfolding ft by (simp add: numeral_2_eq_2 f [symmetric]) (use f in auto)
qed

lemma decimal_text_sign:
  "decimal_text v = sign_text (v < 0) @ show_nat (nat \<bar>v\<bar> div 1000) @ [46] @ fraction_text (nat \<bar>v\<bar> mod 1000)"
  by (simp add: decimal_text_def sign_text_def Let_def)

lemma number_reads_decimal:
  assumes "rest p = decimal_text v @ r" "stops number_stop r" "\<bar>v\<bar> \<le> max_sf_integer"
  shows "number p = Inr (Decimal v, past (decimal_text v) 0 p)"
proof -
  define m w f where mwf: "m = nat \<bar>v\<bar>" "w = m div 1000" "f = m mod 1000"
  have "w \<le> 999999999999" "f < 1000" and m: "w * 1000 + f = m"
    using assms(3) by (auto simp: mwf max_sf_integer_def)
  let ?s = "sign_text (v < 0)"
  let ?p1 = "past ?s 0 p" and ?p2 = "past (?s @ show_nat w) 0 p"
  let ?p3 = "past (?s @ show_nat w @ [46]) 0 p" and ?ft = "fraction_text f"
  obtain d ds where d: "show_nat w = d # ds" "digit d" using show_nat_first by blast
  have rest0: "rest p = ?s @ show_nat w @ [46] @ ?ft @ r"
    using assms(1) by (simp add: decimal_text_sign mwf)
  then have rest: "rest p = ?s @ d # (ds @ [46] @ ?ft @ r)" using d by simp
  have r1: "rest ?p1 = show_nat w @ (46 # ?ft @ r)" using rest0 by simp
  have r2: "rest ?p2 = 46 # ?ft @ r" using rest0 by (intro rest_past) simp
  have r3: "rest ?p3 = ?ft @ r" using rest0 by (intro rest_past) simp
  have adv2: "adv ?p2 = ?p3" by (simp add: adv_past [of _ 46])
  have len: "length (show_nat w) \<le> 12" using \<open>w \<le> _\<close> by (rule show_nat_12)
  have loop1: "digit_loop 15 (position ?p1) 0 ?p1 = Inr (w, ?p2)"
    using digit_loop_reads [OF r1 show_nat_digits, of "position ?p1" 15 0] len
    by (simp add: digit_def)
  have loop2: "digit_loop 3 (position ?p3) 0 ?p3 = Inr (read_digits 0 ?ft, past ?ft 0 ?p3)"
    by (rule digit_loop_reads [OF r3 fraction_text_properties(1) stops_number(1)])
      (use fraction_text_properties [OF \<open>f < 1000\<close>] \<open>f < 1000\<close> assms(2) in auto)
  have "signed (v < 0) (w * 1000 + read_digits 0 ?ft * 10 ^ (3 - length ?ft)) = v"
    using fraction_text_properties(4) [OF \<open>f < 1000\<close>] m by (simp add: signed_abs mwf)
  moreover have "sees digit ?p1" using r1 d by simp
  moreover have "sees (\<lambda>c. c = 46) ?p2" using r2 by simp
  moreover have "length ?ft \<noteq> 0" using fraction_text_properties(2) [OF \<open>f < 1000\<close>] by simp
  ultimately show ?thesis
    using sign_reads [OF rest d(2)] loop1 loop2 len
    by (simp add: number_def Let_def decimal_text_sign mwf [symmetric] adv2 del: past_past)
qed

section \<open>Strings and byte sequences\<close>

lemma within_snoc: "within L n (k + length (c # s)) \<Longrightarrow> within L n (Suc k)"
  by (erule within_mono) simp

lemma string_loop_reads:
  "rest p = escape_string s @ 34 # r \<Longrightarrow> list_all printable s \<Longrightarrow>
   within (plimits p) MaxDecodedBytes (length out + length s) \<Longrightarrow>
   string_loop out p = Inr (out @ s, past (escape_string s @ [34]) 0 p)"
proof (induction s arbitrary: p out)
  case Nil
  then show ?case by (simp add: escape_string_def string_loop.simps [of out p] adv_past [of p 34])
next
  case (Cons c s)
  note within_snoc [OF Cons.prems(3)]
  with Cons show ?case
    by (cases "quoted c")
      (auto simp: string_loop.simps [of out p] escape_string_Cons quoted_def printable_def
        past_adv [of _ _ _ c] past_adv [of _ _ _ 92])
qed

lemma string_reads:
  assumes "rest p = text_bare (SfString s) @ r" "valid_bare (plimits p) (SfString s)"
  shows "sf_string p = Inr (s, past (text_bare (SfString s)) 0 p)"
proof -
  have "rest (adv p) = escape_string s @ 34 # r" using assms(1) by simp
  from string_loop_reads [OF this, of "[]"] assms(2) show ?thesis
    by (simp add: sf_string_def past_adv [of _ _ _ 34])
qed

lemma bytes_loop_reads:
  "rest p = cs @ replicate k 61 @ 58 # r \<Longrightarrow> list_all base64_alphabet cs \<Longrightarrow> k \<le> 2 \<Longrightarrow>
   within (plimits p) MaxDecodedBytes ((n + length cs) * 6 div 8) \<Longrightarrow>
   bytes_loop n 0 p = Inr ((n + length cs, k), past (cs @ replicate k 61) 0 p)"
proof (induction cs arbitrary: p n)
  case Nil
  then consider "k = 0" | "k = 1" | "k = 2" by linarith
  then show ?case
    using Nil by cases (auto simp: bytes_loop.simps numeral_2_eq_2 past_adv [of _ _ _ 61] adv_past [of _ 61])
next
  case (Cons c cs)
  have c: "base64_alphabet c" "c \<noteq> 58" "c \<noteq> 61"
    using Cons.prems(2) by (auto simp: base64_alphabet_def alpha_def digit_def)
  have "within (plimits p) MaxDecodedBytes ((n + 1) * 6 div 8)"
    using Cons.prems(4) by (rule within_mono) (simp add: div_le_mono)
  moreover have "bytes_loop (n + 1) 0 (adv p)
      = Inr ((n + 1 + length cs, k), past (cs @ replicate k 61) 0 (adv p))"
    by (rule Cons.IH) (use Cons.prems in \<open>auto simp: add_ac\<close>)
  ultimately show ?case using Cons.prems c
    by (simp add: bytes_loop.simps [of n 0 p] past_adv [of _ _ _ c])
qed

lemma sextets_count:
  obtains q where "n = 3 * q" "(4 * n + 2) div 3 = 4 * q" "b64_padding n = 0"
  | q where "n = 3 * q + 1" "(4 * n + 2) div 3 = 4 * q + 2" "b64_padding n = 2"
  | q where "n = 3 * q + 2" "(4 * n + 2) div 3 = 4 * q + 3" "b64_padding n = 1"
proof -
  define q where "q = n div 3"
  consider "n = 3 * q" | "n = 3 * q + 1" | "n = 3 * q + 2" unfolding q_def by arith
  then show thesis
  proof cases
    case 1
    then show thesis using that(1) [of q] by (simp add: b64_padding_def)
  next
    case 2
    then have "b64_padding n = 2" by (simp only: b64_padding_def mod_mult_self4) simp
    with 2 show thesis using that(2) [of q] by simp
  next
    case 3
    then have "b64_padding n = 1" by (simp only: b64_padding_def mod_mult_self4) simp
    with 3 show thesis using that(3) [of q] by simp
  qed
qed

lemma sextets_size: "((4 * n + 2) div 3) * 6 div 8 = (n :: nat)"
  by (cases n rule: sextets_count) simp_all

lemma sextets_padding:
  "(4 * n + 2) div 3 mod 4 \<noteq> 1 \<and> b64_padding n \<le> (4 - (4 * n + 2) div 3 mod 4) mod 4 \<and>
   b64_padding n \<le> 2"
proof -
  have "(4 * q + 2) mod 4 = 2" "(4 * q + 3) mod 4 = 3" for q :: nat by presburger+
  then show ?thesis by (cases n rule: sextets_count) (simp_all only:, simp_all)
qed

lemma bytes_reads:
  assumes "rest p = text_bare (Bytes bs) @ r" "valid_bare (plimits p) (Bytes bs)"
  shows "sf_bytes p = Inr (bs, past (text_bare (Bytes bs)) 0 p)"
proof -
  define cs where "cs = map b64_char (b64_sextets (map unat bs))"
  define k where "k = b64_padding (length bs)"
  have enc: "base64_encode bs = cs @ replicate k 61" by (simp add: base64_encode_def cs_def k_def)
  have len: "length cs = (4 * length bs + 2) div 3" by (simp add: cs_def length_b64_sextets)
  have alphabet: "list_all base64_alphabet cs"
    using b64_sextets_less [OF list_all_unat_u8, of bs]
    by (auto simp: cs_def list_all_iff base64_alphabet_def dest!: b64_char_class)
  have r1: "rest (adv p) = cs @ replicate k 61 @ 58 # r" using assms(1) by (simp add: enc)
  have "bytes_loop 0 0 (adv p) = Inr ((length cs, k), past (cs @ replicate k 61) 0 (adv p))"
    using bytes_loop_reads [OF r1 alphabet, of 0] assms(2) sextets_padding [of "length bs"]
    unfolding len add_0 sextets_size k_def by simp
  moreover have "rest (past (cs @ replicate k 61) 0 (adv p)) = 58 # r"
    by (rule rest_past) (simp add: r1)
  moreover have "slice (source p) (Suc (position p)) (Suc (position p + (length cs + k))) = base64_encode bs"
    using slice_past [of "adv p" "base64_encode bs" "58 # r"] r1 by (simp add: enc)
  ultimately show ?thesis
    using sextets_padding [of "length bs", folded len k_def] base64_decode_encode [of bs, unfolded enc]
    by (simp add: sf_bytes_def Let_def not_less past_adv [of _ _ _ 58]
        adv_past [of _ 58] enc del: One_nat_def)
qed

lemma hex_hexdigit: "v < 16 \<Longrightarrow> hex (hexdigit v)"
  by (auto simp: hex_def hexdigit_def digit_def)

lemma display_loop_reads:
  "rest p = percent_text bs @ 34 # r \<Longrightarrow> list_all (\<lambda>b. b < 256) bs \<Longrightarrow>
   within (plimits p) MaxDecodedBytes (length out + length bs) \<Longrightarrow> utf8_decode (out @ bs) = Some s \<Longrightarrow>
   display_loop out p = Inr (s, past (percent_text bs @ [34]) 0 p)"
proof (induction bs arbitrary: p out)
  case Nil
  then show ?case by (simp add: display_loop.simps [of out p] adv_past [of p 34])
next
  case (Cons b bs)
  have w: "within (plimits p) MaxDecodedBytes (Suc (length out))"
    using Cons.prems(3) by (rule within_snoc)
  show ?case
  proof (cases "display_plain b")
    case True
    have "display_loop (out @ [b]) (adv p) = Inr (s, past (percent_text bs @ [34]) 0 (adv p))"
      by (rule Cons.IH) (use Cons.prems True in \<open>auto simp: percent_encode_def\<close>)
    with True Cons.prems w show ?thesis
      by (simp add: display_loop.simps [of out p] percent_encode_def display_plain_def past_adv [of _ _ _ b])
  next
    case False
    define h l where hl: "h = hexdigit (b div 16)" "l = hexdigit (b mod 16)"
    have digits: "hex h" "hex l" "nibble h * 16 + nibble l = b"
      using Cons.prems(2) by (auto simp: hl hex_hexdigit)
    have r: "rest p = 37 # h # l # percent_text bs @ 34 # r"
      using Cons.prems(1) False by (simp add: percent_encode_def hex2_def hl)
    have "display_loop (out @ [b]) (adv (adv (adv p)))
        = Inr (s, past (percent_text bs @ [34]) 0 (adv (adv (adv p))))"
      by (rule Cons.IH) (use Cons.prems r in auto)
    with r digits w False show ?thesis
      by (simp add: display_loop.simps [of out p] percent_encode_def hex2_def hl [symmetric] Let_def
          past_adv [of _ _ _ l] past_adv [of _ _ _ h] past_adv [of _ _ _ 37])
  qed
qed

lemma display_reads:
  assumes "rest p = text_bare (DisplayString s) @ r" "valid_bare (plimits p) (DisplayString s)"
  shows "displayString p = Inr (s, past (text_bare (DisplayString s)) 0 p)"
proof -
  have wf: "well_formed_utf16 s" and w: "within (plimits p) MaxDecodedBytes (length (utf8_encode s))"
    using assms(2) by auto
  have units: "list_all (\<lambda>c. c < 65536) s"
    using wf by (induction s rule: well_formed_utf16.induct)
      (auto simp: well_formed_utf16.simps(2) surrogate_defs split: if_splits list.splits)
  have r: "rest (adv (adv p)) = percent_text (utf8_encode s) @ 34 # r"
    using assms(1) by (simp add: display_text_percent)
  have "display_loop [] (adv (adv p)) = Inr (s, past (percent_text (utf8_encode s) @ [34]) 0 (adv (adv p)))"
    by (rule display_loop_reads [OF r utf8_encode_bytes [OF units]])
      (use w wf in \<open>auto simp: utf8_decode_encode\<close>)
  moreover have "sees (\<lambda>c. c = 34) (adv p)"
    using assms(1) by (simp add: display_text_percent)
  ultimately show ?thesis
    by (simp add: displayString_def Let_def display_text_percent past_adv [of _ _ _ 34] past_adv [of _ _ _ 37])
qed

section \<open>Bare items\<close>

text \<open>No canonical bare item can be extended by a character that ends one.\<close>

definition delimiter :: "nat \<Rightarrow> bool" where
  "delimiter c \<longleftrightarrow> c = 59 \<or> c = 44 \<or> c = 32 \<or> c = 41"

definition ends :: "jsstring \<Rightarrow> bool" where
  "ends r \<longleftrightarrow> stops (\<lambda>c. \<not> delimiter c) r"

lemma ends_simps [simp]: "ends []" "ends (c # r) \<longleftrightarrow> delimiter c"
  by (simp_all add: ends_def)

lemma delimiters [simp]: "delimiter 59" "delimiter 44" "delimiter 32" "delimiter 41"
  by (simp_all add: delimiter_def)

lemma ends_stops:
  assumes "ends r"
  shows "stops number_stop r" "stops tokenRest r" "stops keyRest r"
  using assms by (cases r; auto simp: delimiter_def number_stop_def digit_def tokenRest_def alpha_def
      token_punctuation_def keyRest_def keyFirst_def)+

lemma show_int_first: "\<exists>c cs. show_int v = c # cs \<and> (digit c \<or> c = 45)"
  using show_nat_first [of "nat v"] show_nat_first [of "nat (- v)"] by (auto simp: show_int_def)

lemma decimal_text_first: "\<exists>c cs. decimal_text v = c # cs \<and> (digit c \<or> c = 45)"
  using show_nat_first [of "nat \<bar>v\<bar> div 1000"] by (auto simp: decimal_text_def Let_def)

lemma bare_value_reads:
  assumes r: "rest p = text_bare b @ r" and v: "valid_bare (plimits p) b" and e: "ends r"
  shows "bare_value p = Inr (b, past (text_bare b) 0 p)"
proof (cases b)
  case (Integer n)
  moreover obtain c cs where "show_int n = c # cs" "digit c \<or> c = 45" using show_int_first by blast
  ultimately show ?thesis
    using number_reads_integer [of p n r] assms ends_stops(1) [OF e] by (simp add: bare_value_def)
next
  case (Decimal n)
  moreover obtain c cs where "decimal_text n = c # cs" "digit c \<or> c = 45" using decimal_text_first by blast
  ultimately show ?thesis
    using number_reads_decimal [of p n r] assms ends_stops(1) [OF e] by (simp add: bare_value_def)
next
  case (SfString s)
  then show ?thesis
    using string_reads [of p s r] assms by (simp add: bare_value_def digit_def)
next
  case (Token t)
  then obtain c cs where "t = c # cs" "token_first_class c" using v by (cases t) auto
  with Token show ?thesis
    using token_reads [of p t r] assms ends_stops(2) [OF e]
    by (auto simp: bare_value_def token_classes alpha_def digit_def)
next
  case (Bytes bs)
  then show ?thesis
    using bytes_reads [of p bs r] assms by (simp add: bare_value_def digit_def alpha_def)
next
  case (Boolean x)
  then have r: "rest p = [63, if x then 49 else 48] @ r" using r by (cases x) auto
  then show ?thesis using Boolean
    by (auto simp: bare_value_def digit_def alpha_def Let_def adv_past [of _ 63] adv_past [of _ 49]
        adv_past [of _ 48] sees_rest(2) [OF rest_past [of p "[63]"]])
next
  case (Date n)
  have r1: "rest (adv p) = show_int n @ r" using r Date by simp
  show ?thesis
    using number_reads_integer [OF r1 ends_stops(1) [OF e]] r v Date
    by (simp add: bare_value_def digit_def alpha_def past_adv [of _ _ _ 64])
next
  case (DisplayString s)
  then have "rest p = 37 # 34 # percent_text (utf8_encode s) @ 34 # r"
    using r by (simp add: display_text_percent)
  then show ?thesis
    using display_reads [of p s r] assms DisplayString by (simp add: bare_value_def digit_def alpha_def)
qed

lemma bare_reads [reads]:
  assumes "rest p = text_bare b @ r" "valid_bare (plimits p) b" "ends r"
  shows "bare p = Inr (\<lparr>span_start = position p, span_end = position p + length (text_bare b),
    rb_value = b\<rparr>, past (text_bare b) 0 p)"
  using bare_value_reads [OF assms] by (simp add: bare_def)

section \<open>Parameters and items\<close>

declare One_nat_def [simp del]

definition closes :: "jsstring \<Rightarrow> bool" where
  "closes r \<longleftrightarrow> stops (\<lambda>c. c \<noteq> 44 \<and> c \<noteq> 32 \<and> c \<noteq> 41) r"

lemma closes_simps [simp]: "closes []" "closes (c # r) \<longleftrightarrow> c = 44 \<or> c = 32 \<or> c = 41"
  by (auto simp: closes_def)

lemma closes_ends: "closes r \<Longrightarrow> ends r \<and> stops (\<lambda>c. c = 59) r"
  by (cases r) (auto simp: delimiter_def)

abbreviation counted :: "parser \<Rightarrow> nat \<Rightarrow> bool" where
  "counted p n \<equiv> within (plimits p) MaxTotalOccurrences (occurrences (pbudget p) + n)"

lemma counted_mono: "counted p n \<Longrightarrow> m \<le> n \<Longrightarrow> counted p m"
  by (erule within_mono) simp

definition pairs :: "raw_parameter list \<Rightarrow> parameters" where
  "pairs = map (\<lambda>r. (rp_key r, bare_or_true (rp_bare r)))"

lemma pairs_simps [simp]:
  "pairs [] = []" "pairs (r # rs) = (rp_key r, bare_or_true (rp_bare r)) # pairs rs"
  "pairs (rs @ ss) = pairs rs @ pairs ss" "length (pairs rs) = length rs"
  by (simp_all add: pairs_def)

lemma sem_parameters_pairs: "sem_parameters rs = fill [] (pairs rs)"
  by (simp add: sem_parameters_fill pairs_def)

lemma parameter_reads:
  assumes r: "rest p = text_parameters [(k, v)] @ r" and k: "valid_key (plimits p) k"
    and v: "valid_bare (plimits p) v" and e: "ends r" and c: "counted p 1"
  shows "\<exists>raw. parameter p = Inr (raw, past (text_parameters [(k, v)]) 1 p) \<and>
    rp_key raw = k \<and> bare_or_true (rp_bare raw) = v"
proof -
  let ?p1 = "past [59] 1 p" and ?p2 = "past (59 # k) 1 p"
  have cons: "consume p = Inr (past [] 1 p)" using c by (rule consume_past)
  have r1: "rest ?p1 = k @ text_assign v @ r" using r by (intro rest_past) simp
  have r2: "rest ?p2 = text_assign v @ r" using r by (intro rest_past) simp
  have adv1: "adv (past [] 1 p) = ?p1" by (simp add: adv_past [of _ 59])
  have sp: "spaces False ?p1 = ?p1"
  proof (rule spaces_stop)
    obtain x xs where "k = x # xs" "keyFirst x"
      using k by (cases k) (auto simp: valid_key_def key_classes)
    then show "stops (\<lambda>c. c = 32 \<or> False \<and> c = 9) (rest ?p1)" using r1 by (auto simp: keyFirst_def)
  qed
  have "stops keyRest (text_assign v @ r)"
    using ends_stops(3) [OF e] by (auto simp: text_assign_def keyRest_def keyFirst_def digit_def)
  then have key: "key ?p1 = Inr ((k, \<lparr>span_start = position ?p1, span_end = position ?p1 + length k\<rparr>), ?p2)"
    using key_reads [OF r1] k by simp
  show ?thesis
  proof (cases "v = Boolean True")
    case True
    then have "\<not> sees (\<lambda>c. c = 61) ?p2"
      using r2 e by (intro sees_stops) (cases r, auto simp: text_assign_def delimiter_def)
    with True show ?thesis
      by (simp add: parameter_def cons adv1 sp key text_assign_def bare_or_true_def)
  next
    case False
    then have r3: "rest ?p2 = 61 # text_bare v @ r" using r2 by (simp add: text_assign_def)
    have adv2: "adv ?p2 = past (59 # k @ [61]) 1 p" by (simp add: adv_past [of _ 61])
    have r4: "rest (past (59 # k @ [61]) 1 p) = text_bare v @ r"
      using r False by (intro rest_past) (simp add: text_assign_def)
    from bare_reads [OF r4 _ e] v obtain b where
      "bare (past (59 # k @ [61]) 1 p) = Inr (b, past (59 # k @ [61] @ text_bare v) 1 p)" "rb_value b = v"
      by simp
    with False r3 show ?thesis
      by (simp add: parameter_def cons adv1 sp key text_assign_def bare_or_true_def adv2)
  qed
qed

lemma parameter_loop_reads:
  "rest p = text_parameters ps @ r \<Longrightarrow> closes r \<Longrightarrow>
   list_all (\<lambda>(k, v). valid_key (plimits p) k \<and> valid_bare (plimits p) v) ps \<Longrightarrow>
   within (plimits p) MaxParameters (length acc + length ps) \<Longrightarrow> counted p (length ps) \<Longrightarrow>
   \<exists>raws. parameter_loop acc p = Inr (acc @ raws, past (text_parameters ps) (length ps) p) \<and> pairs raws = ps"
proof (induction ps arbitrary: p acc)
  case Nil
  then have "\<not> sees (\<lambda>c. c = 59) p" by (intro sees_stops) (auto dest: closes_ends)
  then show ?case by (auto simp: parameter_loop.simps [of acc p])
next
  case (Cons kv ps)
  obtain k v where kv: "kv = (k, v)" by (cases kv)
  let ?q = "past (text_parameters [(k, v)]) 1 p"
  have r: "rest p = text_parameters [(k, v)] @ (text_parameters ps @ r)" using Cons.prems(1) kv by simp
  have "ends (text_parameters ps @ r)"
    using Cons.prems(2) closes_ends by (cases ps) auto
  moreover have "counted p 1" using Cons.prems(5) by (rule counted_mono) simp
  ultimately obtain raw where
    raw: "parameter p = Inr (raw, ?q)" "rp_key raw = k" "bare_or_true (rp_bare raw) = v"
    using parameter_reads [OF r] Cons.prems(3) kv by auto
  have "rest ?q = text_parameters ps @ r" using r by (rule rest_past)
  moreover have "counted ?q (length ps)" using Cons.prems(5) by (simp add: Suc_eq_plus1 add_ac)
  ultimately obtain raws where
    "parameter_loop (acc @ [raw]) ?q = Inr ((acc @ [raw]) @ raws, past (text_parameters ps) (length ps) ?q)"
    "pairs raws = ps"
    using Cons.IH [of ?q "acc @ [raw]"] Cons.prems kv by auto
  moreover have "within (plimits p) MaxParameters (Suc (length acc))"
    using Cons.prems(4) by (rule within_mono) simp
  moreover have "sees (\<lambda>c. c = 59) p" using r by simp
  ultimately show ?case
    using raw kv by (intro exI [of _ "raw # raws"]) (simp add: parameter_loop.simps [of acc p] Suc_eq_plus1 add_ac)
qed

text \<open>The value a raw tree spells, before repeated names are resolved; on a value whose names are
  distinct it is the semantic one.\<close>

definition read_item :: "raw_item \<Rightarrow> item" where
  "read_item raw = \<lparr>item_bare = bare_or_true (ri_bare raw), item_parameters = pairs (ri_parameters raw)\<rparr>"

fun read_member :: "raw_member \<Rightarrow> member" where
  "read_member (RItem raw) = MItem (read_item raw)"
| "read_member (RInnerList raw) = MInnerList \<lparr>inner_items = map read_item (ril_items raw),
     inner_parameters = pairs (ril_parameters raw)\<rparr>"

lemma sem_parameters_read: "valid_parameters L (pairs raws) \<Longrightarrow> sem_parameters raws = pairs raws"
  by (simp add: sem_parameters_pairs valid_parameters_def fill_all_distinct)

lemma sem_item_read: "valid_item L (read_item raw) \<Longrightarrow> sem_item raw = read_item raw"
  by (auto simp: valid_item_def read_item_def sem_item_def dest: sem_parameters_read)

lemma sem_member_read: "valid_member L (read_member raw) \<Longrightarrow> sem_member raw = read_member raw"
  by (cases raw) (auto simp: list_all_iff dest: sem_item_read sem_parameters_read)

lemma parameters_reads [reads]:
  assumes "rest p = text_parameters ps @ r" "closes r" "valid_parameters (plimits p) ps"
    "counted p (length ps)"
  shows "\<exists>raws. parameters p = Inr (raws, past (text_parameters ps) (length ps) p) \<and> pairs raws = ps"
  using parameter_loop_reads [of p ps r "[]"] assms by (auto simp: parameters_def valid_parameters_def)

lemma item_reads [reads]:
  assumes r: "rest p = text_item i @ r" and e: "closes r" and v: "valid_item (plimits p) i"
    and c: "counted p (occ_item i)"
  shows "\<exists>raw. item p = Inr (raw, past (text_item i) (occ_item i) p) \<and> read_item raw = i"
proof -
  let ?b = "text_bare (item_bare i)" and ?ps = "item_parameters i"
  let ?p1 = "past [] 1 p" and ?p2 = "past ?b 1 p"
  have cons: "consume p = Inr ?p1"
    using c by (intro consume_past) (auto simp: occ_item_def elim!: within_mono)
  have r1: "rest ?p1 = ?b @ text_parameters ?ps @ r"
    using r by (intro rest_past) (simp add: text_item_def)
  have r2: "rest ?p2 = text_parameters ?ps @ r"
    using r by (intro rest_past) (simp add: text_item_def)
  have "ends (text_parameters ?ps @ r)" using e closes_ends by (cases ?ps) auto
  then obtain b where b: "bare ?p1 = Inr (b, ?p2)" "rb_value b = item_bare i"
    using bare_reads [OF r1] v by (auto simp: valid_item_def)
  obtain raws where ps: "parameters ?p2 = Inr (raws, past (text_parameters ?ps) (length ?ps) ?p2)"
    "pairs raws = ?ps"
    using parameters_reads [OF r2 e] v c by (auto simp: valid_item_def occ_item_def add_ac)
  show ?thesis
    using cons b ps by (simp add: item_def text_item_def occ_item_def read_item_def bare_or_true_def)
qed

section \<open>Inner lists and members\<close>

lemma text_bare_first: "\<exists>c cs. text_bare b = c # cs \<and> c \<noteq> 32 \<and> c \<noteq> 9 \<and> c \<noteq> 40 \<and> c \<noteq> 41"
  if "valid_bare L b"
proof (cases b)
  case (Integer n)
  then show ?thesis using show_int_first [of n] by (auto simp: digit_def)
next
  case (Decimal n)
  then show ?thesis using decimal_text_first [of n] by (auto simp: digit_def)
next
  case (Token t)
  then show ?thesis using that by (cases t) (auto simp: token_first_class_def alpha_def)
next
  case (Boolean x)
  then show ?thesis by (cases x) auto
qed (auto simp: display_text_percent)

lemma text_item_first:
  "valid_item L i \<Longrightarrow> \<exists>c cs. text_item i = c # cs \<and> c \<noteq> 32 \<and> c \<noteq> 9 \<and> c \<noteq> 40 \<and> c \<noteq> 41"
  using text_bare_first [of L "item_bare i"] by (auto simp: valid_item_def text_item_def)

lemma inner_list_close_reads:
  assumes "rest p = 41 # text_parameters ps @ r" "closes r" "valid_parameters (plimits p) ps"
    "counted p (length ps)"
  shows "\<exists>raw. inner_list_loop start acc p = Inr (raw, past (41 # text_parameters ps) (length ps) p) \<and>
    ril_items raw = acc \<and> pairs (ril_parameters raw) = ps"
proof -
  have sp: "spaces False p = p" using assms(1) by (intro spaces_stop) simp
  have adv1: "adv p = past [41] 0 p" by (rule adv_past)
  have r: "rest (adv p) = text_parameters ps @ r" using assms(1) by simp
  obtain raws where "parameters (adv p) = Inr (raws, past (text_parameters ps) (length ps) (adv p))"
    "pairs raws = ps"
    using parameters_reads [OF r assms(2)] assms(3,4) by auto
  then show ?thesis using assms(1)
    by (simp add: inner_list_loop.simps [of start acc p] not_at_end sp Let_def past_adv [of _ _ _ 41])
qed

definition inner_text :: "item list \<Rightarrow> jsstring" where
  "inner_text is = concat (map (\<lambda>i. 32 # text_item i) is)"

lemma spaces_skip:
  assumes "rest p = sp @ c # t" "sp = [] \<or> sp = [32]" "c \<noteq> 32" "c \<noteq> 9"
  shows "spaces b p = past sp 0 p"
proof -
  have stop: "spaces b q = q" if "rest q = c # t" for q
    using that assms(3,4) by (intro spaces_stop) simp
  show ?thesis
  proof (cases "sp = []")
    case True
    then show ?thesis using assms(1) stop by simp
  next
    case False
    then have sp: "sp = [32]" using assms(2) by simp
    then have "rest (adv p) = c # t" using assms(1) by simp
    then show ?thesis using stop [of "adv p"] assms(1) sp
      by (simp add: spaces.simps [of b p] adv_past [of p 32])
  qed
qed

text \<open>One round of the loop: the first item has no space before it, the later ones have one.\<close>

lemma inner_list_item_reads:
  assumes r: "rest p = sp @ text_item i @ x # t" and sp: "sp = [] \<or> sp = [32]" and x: "x = 32 \<or> x = 41"
    and v: "valid_item (plimits p) i" and m: "within (plimits p) MaxInnerListItems (length acc + 1)"
    and c: "counted p (occ_item i)"
  shows "\<exists>raw. inner_list_loop start acc p
      = inner_list_loop start (acc @ [raw]) (past (sp @ text_item i) (occ_item i) p) \<and> read_item raw = i"
proof -
  let ?p1 = "past sp 0 p" and ?p2 = "past (sp @ text_item i) (occ_item i) p"
  obtain d ds where d: "text_item i = d # ds" "d \<noteq> 32" "d \<noteq> 9" "d \<noteq> 41"
    using text_item_first [OF v] by blast
  have s: "spaces False p = ?p1" by (rule spaces_skip [OF _ sp d(2,3)]) (use r d in simp)
  have r1: "rest ?p1 = text_item i @ x # t" using r by (rule rest_past)
  have r2: "rest ?p2 = x # t" using r by (intro rest_past) simp
  obtain raw where raw: "item ?p1 = Inr (raw, ?p2)" "read_item raw = i"
    using item_reads [OF r1] x v c by auto
  have "\<not> sees (\<lambda>c. c = 41) ?p1" using r1 d by simp
  moreover have "sees (\<lambda>c. c = 32) ?p2 \<or> sees (\<lambda>c. c = 41) ?p2" using r2 x by simp
  moreover have "position p < length (source p)" using r d by (simp add: not_at_end)
  ultimately show ?thesis using raw m s
    by (intro exI [of _ raw]) (auto simp: inner_list_loop.simps [of start acc p] Let_def)
qed

lemma inner_list_loop_reads:
  "rest p = inner_text is @ 41 # text_parameters ps @ r \<Longrightarrow> closes r \<Longrightarrow>
   list_all (valid_item (plimits p)) is \<Longrightarrow> valid_parameters (plimits p) ps \<Longrightarrow>
   within (plimits p) MaxInnerListItems (length acc + length is) \<Longrightarrow>
   counted p (sum_list (map occ_item is) + length ps) \<Longrightarrow>
   \<exists>raw. inner_list_loop start acc p = Inr (raw, past (inner_text is @ 41 # text_parameters ps)
       (sum_list (map occ_item is) + length ps) p) \<and>
     map read_item (ril_items raw) = map read_item acc @ is \<and> pairs (ril_parameters raw) = ps"
proof (induction "is" arbitrary: p acc)
  case Nil
  then show ?case using inner_list_close_reads [of p ps r start acc] by (auto simp: inner_text_def)
next
  case (Cons i "is")
  let ?q = "past ([32] @ text_item i) (occ_item i) p"
  obtain x t where x: "inner_text is @ 41 # text_parameters ps @ r = x # t" "x = 32 \<or> x = 41"
    by (cases "is") (auto simp: inner_text_def)
  have r: "rest p = [32] @ text_item i @ x # t"
    using Cons.prems(1) x(1) by (simp add: inner_text_def)
  have "within (plimits p) MaxInnerListItems (length acc + 1)" "counted p (occ_item i)"
    using Cons.prems(5,6) by (auto elim!: within_mono)
  then obtain raw where raw: "inner_list_loop start acc p = inner_list_loop start (acc @ [raw]) ?q" "read_item raw = i"
    using inner_list_item_reads [OF r _ x(2)] Cons.prems(3) by auto
  have "rest ?q = inner_text is @ 41 # text_parameters ps @ r"
    using r x(1) by (intro rest_past) simp
  from Cons.IH [OF this Cons.prems(2), of "acc @ [raw]"] Cons.prems raw show ?case
    by (auto simp: inner_text_def add_ac)
qed

lemma join_inner_text: "join [32] (map text_item (i # is)) = text_item i @ inner_text is"
  by (induction "is" arbitrary: i) (auto simp: inner_text_def)

lemma innerList_reads [reads]:
  assumes r: "rest p = text_inner_list l @ r" and e: "closes r"
    and v: "valid_member (plimits p) (MInnerList l)" and c: "counted p (occ_member (MInnerList l))"
  shows "\<exists>raw. innerList p = Inr (raw, past (text_inner_list l) (occ_member (MInnerList l)) p) \<and>
    read_member (RInnerList raw) = MInnerList l"
proof -
  let ?ps = "inner_parameters l" and ?p1 = "past [40] 1 p"
  have cons: "consume p = Inr (past [] 1 p)" using c by (intro consume_past) (auto elim!: within_mono)
  have adv1: "adv (past [] 1 p) = ?p1" by (simp add: adv_past [of _ 40])
  have "\<exists>raw. inner_list_loop (position p) [] ?p1
      = Inr (raw, past (text_inner_list l) (occ_member (MInnerList l)) p) \<and>
      map read_item (ril_items raw) = inner_items l \<and> pairs (ril_parameters raw) = ?ps"
  proof (cases "inner_items l")
    case Nil
    have r1: "rest ?p1 = 41 # text_parameters ?ps @ r"
      using r Nil by (intro rest_past) (simp add: text_inner_list_def)
    show ?thesis using inner_list_close_reads [OF r1 e, of "position p" "[]"] v c Nil
      by (auto simp: text_inner_list_def add_ac)
  next
    case (Cons i "is")
    let ?tl = "inner_text is @ 41 # text_parameters ?ps @ r"
    obtain x t where x: "?tl = x # t" "x = 32 \<or> x = 41" by (cases "is") (auto simp: inner_text_def)
    let ?p2 = "past (text_item i) (occ_item i) ?p1"
    have r1: "rest ?p1 = [] @ text_item i @ x # t"
      using r Cons x(1) join_inner_text [of i "is"] by (intro rest_past) (simp add: text_inner_list_def)
    have "within (plimits p) MaxInnerListItems 1" "counted p (1 + occ_item i)"
      using v c Cons by (auto elim!: within_mono)
    then obtain raw where raw: "inner_list_loop (position p) [] ?p1
        = inner_list_loop (position p) [raw] ?p2" "read_item raw = i"
      using inner_list_item_reads [OF r1 _ x(2), of "[]" "position p"] v Cons by (auto simp: add_ac)
    have r2: "rest ?p2 = ?tl" by (rule rest_past) (simp only: r1 x(1) append_Nil)
    show ?thesis
      using inner_list_loop_reads [OF r2 e, of "[raw]" "position p"] raw v c Cons
        join_inner_text [of i "is"] by (auto simp: text_inner_list_def add_ac)
  qed
  then show ?thesis by (auto simp: innerList_def cons adv1)
qed

lemma member_reads [reads]:
  assumes r: "rest p = text_member m @ r" and e: "closes r"
    and v: "valid_member (plimits p) m" and c: "counted p (occ_member m)"
  shows "\<exists>raw. member p = Inr (raw, past (text_member m) (occ_member m) p) \<and> read_member raw = m"
proof (cases m)
  case (MItem i)
  then obtain d ds where "text_item i = d # ds" "d \<noteq> 40"
    using text_item_first [of "plimits p" i] v by auto
  then have "\<not> sees (\<lambda>c. c = 40) p" using r MItem by simp
  with item_reads [of p i r] assms MItem show ?thesis by (auto simp: member_def)
next
  case (MInnerList l)
  then have "sees (\<lambda>c. c = 40) p" using r by (simp add: text_inner_list_def)
  with innerList_reads [of p l r] assms MInnerList show ?thesis by (auto simp: member_def)
qed

section \<open>Lists, dictionaries and fields\<close>

lemma separator_reads_end: "position p \<le> length (source p) \<Longrightarrow> rest p = [] \<Longrightarrow> separator p = Inr (False, p)"
proof -
  assume p: "position p \<le> length (source p)" "rest p = []"
  then have "spaces True p = p" by (intro spaces_stop) simp
  with p show ?thesis by (simp add: separator_def at_end)
qed

lemma separator_reads_more:
  assumes r: "rest p = lit '', '' @ c # t" and c: "c \<noteq> 32" "c \<noteq> 9"
  shows "separator p = Inr (True, past (lit '', '') 0 p)"
proof -
  have "spaces True p = p" using r by (intro spaces_stop) simp
  moreover have "spaces True (adv p) = past [32] 0 (adv p)"
    by (rule spaces_skip [OF _ _ c]) (use r in auto)
  moreover have "position p \<noteq> length (source p)"
    using r by (auto simp: rest_def)
  moreover have "position (past [32] 0 (adv p)) < length (source (past [32] 0 (adv p)))"
    unfolding not_at_end using rest_past [of "adv p" "[32]" "c # t" 0] r by simp
  ultimately show ?thesis using r by (simp add: separator_def Let_def past_adv [of _ _ _ 44])
qed

lemma text_member_first:
  "valid_member L m \<Longrightarrow> \<exists>c cs. text_member m = c # cs \<and> c \<noteq> 32 \<and> c \<noteq> 9"
  using text_item_first by (cases m) (force simp: text_inner_list_def)+

text \<open>What the two loops have in common: the text of an element is not empty and does not
  start with white space, and after it the separator reads on or ends.\<close>

lemma after_element:
  assumes r: "rest p = t @ join_rest @ []" and p: "position p \<le> length (source p)"
    and j: "join_rest = (if ts = [] then [] else lit '', '' @ join (lit '', '') ts)"
    and f: "ts \<noteq> [] \<Longrightarrow> \<exists>c cs. hd ts = c # cs \<and> c \<noteq> 32 \<and> c \<noteq> 9"
  shows "separator (past t n p)
      = (if ts = [] then Inr (False, past t n p) else Inr (True, past (t @ lit '', '') n p))"
    and "ts \<noteq> [] \<Longrightarrow> rest (past (t @ lit '', '') n p) = join (lit '', '') ts"
    and "closes join_rest"
proof -
  have r1: "rest (past t n p) = join_rest" using r by (intro rest_past) simp
  have len: "position (past t n p) \<le> length (source (past t n p))"
    using r p by (auto simp: rest_def dest!: arg_cong [of _ _ length])
  show "separator (past t n p)
      = (if ts = [] then Inr (False, past t n p) else Inr (True, past (t @ lit '', '') n p))"
  proof (cases ts)
    case Nil
    then show ?thesis using separator_reads_end [OF len] r1 j by simp
  next
    case (Cons u us)
    then obtain c cs where c: "u = c # cs" "c \<noteq> 32" "c \<noteq> 9" using f by auto
    then have "join (lit '', '') ts = c # (cs @ (if us = [] then [] else lit '', '' @ join (lit '', '') us))"
      using Cons by (simp add: join_Cons)
    then obtain v where "join (lit '', '') ts = c # v" by blast
    then have "rest (past t n p) = lit '', '' @ c # v" using r1 j Cons by simp
    from separator_reads_more [OF this c(2,3)] Cons show ?thesis by simp
  qed
  show "ts \<noteq> [] \<Longrightarrow> rest (past (t @ lit '', '') n p) = join (lit '', '') ts"
    using r j by (intro rest_past) simp
  show "closes join_rest" using j by simp
qed

lemma position_past:
  "rest p = t @ r \<Longrightarrow> position p \<le> length (source p) \<Longrightarrow> position (past t n p) \<le> length (source (past t n p))"
  by (auto simp: rest_def dest!: arg_cong [of _ _ length])

lemma list_loop_reads:
  "rest p = join (lit '', '') (map text_member ms) \<Longrightarrow> position p \<le> length (source p) \<Longrightarrow>
   list_all (valid_member (plimits p)) ms \<Longrightarrow>
   within (plimits p) MaxMembers (length acc + length ms) \<Longrightarrow>
   counted p (sum_list (map occ_member ms)) \<Longrightarrow>
   \<exists>raws. list_loop acc p = Inr (acc @ raws, past (join (lit '', '') (map text_member ms))
       (sum_list (map occ_member ms)) p) \<and> map read_member raws = ms"
proof (induction ms arbitrary: p acc)
  case Nil
  then show ?case by (simp add: list_loop.simps [of acc p] not_at_end)
next
  case (Cons m ms)
  let ?ts = "map text_member ms" and ?t = "text_member m"
  let ?jr = "if ?ts = [] then [] else lit '', '' @ join (lit '', '') ?ts"
  have r: "rest p = ?t @ ?jr @ []" using Cons.prems(1) by (simp add: join_Cons)
  have f: "?ts \<noteq> [] \<Longrightarrow> \<exists>c cs. hd ?ts = c # cs \<and> c \<noteq> 32 \<and> c \<noteq> 9"
    using Cons.prems(3) text_member_first by (cases ms) auto
  note after = after_element [OF r Cons.prems(2) refl f]
  have ne: "position p < length (source p)"
    using text_member_first [of "plimits p" m] Cons.prems(3) r by (auto simp: not_at_end)
  have m: "within (plimits p) MaxMembers (length acc + 1)" "counted p (occ_member m)"
    using Cons.prems(4,5) by (auto elim!: within_mono)
  obtain raw where raw: "member p = Inr (raw, past ?t (occ_member m) p)" "read_member raw = m"
    using member_reads [of p m ?jr] r after(3) Cons.prems(3) m(2) by auto
  show ?case
  proof (cases "ms = []")
    case True
    with after(1) raw ne m(1) show ?thesis
      by (intro exI [of _ "[raw]"]) (simp add: list_loop.simps [of acc p])
  next
    case False
    let ?q = "past (?t @ lit '', '') (occ_member m) p"
    have rq: "rest ?q = join (lit '', '') ?ts" by (rule after(2)) (use False in auto)
    have pq: "position ?q \<le> length (source ?q)"
      by (rule position_past [OF _ Cons.prems(2), of _ "join (lit '', '') ?ts"])
        (use r False in simp)
    obtain raws where raws: "list_loop (acc @ [raw]) ?q = Inr (acc @ raw # raws,
        past (join (lit '', '') ?ts) (sum_list (map occ_member ms)) ?q)" "map read_member raws = ms"
      using Cons.IH [OF rq pq, of "acc @ [raw]"] Cons.prems by (auto simp: add_ac)
    with after(1) raw ne m(1) False show ?thesis
      by (intro exI [of _ "raw # raws"]) (simp add: list_loop.simps [of acc p] join_Cons)
  qed
qed

lemma entry_reads:
  assumes r: "rest p = text_entry (k, m) @ r" and e: "closes r" and k: "valid_key (plimits p) k"
    and v: "valid_member (plimits p) m" and c: "counted p (occ_member m)"
  shows "\<exists>raw. dictionary_entry p = Inr (raw, past (text_entry (k, m)) (occ_member m) p) \<and>
    rde_key raw = k \<and> read_member (rde_member raw) = m"
proof -
  let ?p1 = "past k 0 p"
  have r0: "rest p = k @ text_value m @ r" using r by (simp add: text_entry_def)
  have stop: "stops keyRest (text_value m @ r)"
  proof (cases "\<exists>i. m = MItem i \<and> item_bare i = Boolean True")
    case True
    then obtain i where "m = MItem i" "item_bare i = Boolean True" by blast
    then have i: "text_value m = text_parameters (item_parameters i)" by simp
    have "ends (text_parameters (item_parameters i) @ r)"
      using e closes_ends by (cases "item_parameters i") auto
    then show ?thesis unfolding i by (rule ends_stops(3))
  next
    case False
    then have "text_value m = [61] @ text_member m" by (cases m) auto
    then show ?thesis by (simp add: keyRest_def keyFirst_def digit_def)
  qed
  have key: "key p = Inr ((k, \<lparr>span_start = position p, span_end = position p + length k\<rparr>), ?p1)"
    by (rule key_reads [OF r0 k stop])
  have r1: "rest ?p1 = text_value m @ r" using r0 by (rule rest_past)
  show ?thesis
  proof (cases "\<exists>i. m = MItem i \<and> item_bare i = Boolean True")
    case True
    then obtain i where i: "m = MItem i" "item_bare i = Boolean True" by blast
    let ?ps = "item_parameters i"
    have "ends (text_parameters ?ps @ r)" "stops (\<lambda>c. c = 61) (text_parameters ?ps @ r)"
      using e by (cases ?ps; cases r; auto simp: delimiter_def)+
    then have no_eq: "\<not> sees (\<lambda>c. c = 61) ?p1" using r1 i by (intro sees_stops) simp
    have cons: "consume ?p1 = Inr (past k 1 p)"
      using counted_mono [OF c, of 1] i consume_past [of ?p1] by (simp add: occ_item_def)
    have r2: "rest (past k 1 p) = text_parameters ?ps @ r" using r0 i by (intro rest_past) simp
    obtain raws where "parameters (past k 1 p)
        = Inr (raws, past (k @ text_parameters ?ps) (1 + length ?ps) p)" "pairs raws = ?ps"
      using parameters_reads [OF r2 e] v c i by (auto simp: valid_item_def occ_item_def add_ac)
    with key no_eq cons i show ?thesis
      by (auto simp: dictionary_entry_def text_entry_def occ_item_def read_item_def bare_or_true_def)
  next
    case False
    then have t: "text_value m = [61] @ text_member m" by (cases m) auto
    have eq: "sees (\<lambda>c. c = 61) ?p1" using r1 t by simp
    have adv1: "adv ?p1 = past (k @ [61]) 0 p" by (simp add: adv_past [of _ 61])
    have r2: "rest (past (k @ [61]) 0 p) = text_member m @ r" using r0 t by (intro rest_past) simp
    obtain raw where "member (past (k @ [61]) 0 p)
        = Inr (raw, past (k @ [61] @ text_member m) (occ_member m) p)" "read_member raw = m"
      using member_reads [OF r2 e] v c by auto
    with key eq show ?thesis by (auto simp: dictionary_entry_def text_entry_def t adv1)
  qed
qed

definition raw_pairs :: "raw_dictionary_entry list \<Rightarrow> (jsstring \<times> member) list" where
  "raw_pairs = map (\<lambda>e. (rde_key e, read_member (rde_member e)))"

lemma dictionary_loop_reads:
  "rest p = join (lit '', '') (map text_entry es) \<Longrightarrow> position p \<le> length (source p) \<Longrightarrow>
   list_all (\<lambda>(k, m). valid_key (plimits p) k \<and> valid_member (plimits p) m) es \<Longrightarrow>
   within (plimits p) MaxMembers (length acc + length es) \<Longrightarrow>
   counted p (sum_list (map (occ_member \<circ> snd) es)) \<Longrightarrow>
   \<exists>raws. dictionary_loop acc p = Inr (acc @ raws, past (join (lit '', '') (map text_entry es))
       (sum_list (map (occ_member \<circ> snd) es)) p) \<and> raw_pairs raws = es"
proof (induction es arbitrary: p acc)
  case Nil
  then show ?case by (simp add: dictionary_loop.simps [of acc p] not_at_end raw_pairs_def)
next
  case (Cons e es)
  obtain k m where e: "e = (k, m)" by (cases e)
  let ?ts = "map text_entry es" and ?t = "text_entry (k, m)"
  let ?jr = "if ?ts = [] then [] else lit '', '' @ join (lit '', '') ?ts"
  have first: "valid_key L k' \<Longrightarrow> \<exists>c cs. text_entry (k', m') = c # cs \<and> c \<noteq> 32 \<and> c \<noteq> 9" for L k' m'
    by (cases k') (auto simp: text_entry_def valid_key_def key_first_class_def lower_alpha_def)
  have r: "rest p = ?t @ ?jr @ []" using Cons.prems(1) e by (simp add: join_Cons)
  have f: "?ts \<noteq> [] \<Longrightarrow> \<exists>c cs. hd ?ts = c # cs \<and> c \<noteq> 32 \<and> c \<noteq> 9"
    using Cons.prems(3) first by (cases es) auto
  note after = after_element [OF r Cons.prems(2) refl f]
  have ne: "position p < length (source p)"
    using first [of "plimits p" k m] Cons.prems(3) r e by (auto simp: not_at_end)
  have m: "within (plimits p) MaxMembers (length acc + 1)" "counted p (occ_member m)"
    using Cons.prems(4,5) e by (auto elim!: within_mono)
  obtain raw where raw: "dictionary_entry p = Inr (raw, past ?t (occ_member m) p)" "rde_key raw = k"
    "read_member (rde_member raw) = m"
    using entry_reads [of p k m ?jr] r after(3) Cons.prems(3) e m(2) by auto
  show ?case
  proof (cases "es = []")
    case True
    with after(1) raw ne m(1) e show ?thesis
      by (intro exI [of _ "[raw]"]) (simp add: dictionary_loop.simps [of acc p] raw_pairs_def)
  next
    case False
    let ?q = "past (?t @ lit '', '') (occ_member m) p"
    have rq: "rest ?q = join (lit '', '') ?ts" by (rule after(2)) (use False in auto)
    have pq: "position ?q \<le> length (source ?q)"
      by (rule position_past [OF _ Cons.prems(2), of _ "join (lit '', '') ?ts"])
        (use r False in simp)
    obtain raws where raws: "dictionary_loop (acc @ [raw]) ?q = Inr (acc @ raw # raws,
        past (join (lit '', '') ?ts) (sum_list (map (occ_member \<circ> snd) es)) ?q)" "raw_pairs raws = es"
      using Cons.IH [OF rq pq, of "acc @ [raw]"] Cons.prems e by (auto simp: add_ac comp_def)
    with after(1) raw ne m(1) False e show ?thesis
      by (intro exI [of _ "raw # raws"])
        (simp add: dictionary_loop.simps [of acc p] join_Cons raw_pairs_def comp_def)
  qed
qed

text \<open>The semantic dictionary is the map filled with the semantic entries.\<close>

lemma semantic_dictionary: "semantic (RFDictionary d) =
    FDictionary (fill [] (map (\<lambda>e. (rde_key e, sem_member (rde_member e))) (rd_entries d)))"
  by (simp add: last_entries_fill fill_map comp_def)

text \<open>The raw tree a value was written as: nothing in it is repeated.\<close>

fun read_field :: "raw_field \<Rightarrow> field" where
  "read_field (RFItem raw) = FItem (read_item raw)"
| "read_field (RFList raw) = FList (map read_member (rl_members raw))"
| "read_field (RFDictionary raw) = FDictionary (raw_pairs (rd_entries raw))"

definition tree_of :: "raw_field \<Rightarrow> field \<Rightarrow> bool" where
  "tree_of raw f \<longleftrightarrow> semantic raw = f \<and> read_field raw = f"

lemma tree_of_read: "valid_field L (read_field raw) \<Longrightarrow> tree_of raw (read_field raw)"
proof (cases raw)
  case (RFItem i)
  moreover assume "valid_field L (read_field raw)"
  ultimately show ?thesis by (auto simp: tree_of_def dest: sem_item_read)
next
  case (RFList l)
  moreover assume "valid_field L (read_field raw)"
  ultimately show ?thesis by (auto simp: tree_of_def list_all_iff dest: sem_member_read)
next
  case (RFDictionary d)
  moreover assume v: "valid_field L (read_field raw)"
  moreover have "map (\<lambda>e. (rde_key e, sem_member (rde_member e))) (rd_entries d) = raw_pairs (rd_entries d)"
    using v RFDictionary by (auto simp: raw_pairs_def list_all_iff dest: sem_member_read)
  ultimately show ?thesis
    by (simp add: tree_of_def semantic_dictionary fill_all_distinct del: semantic.simps(3))
qed

lemma root_reads [reads]:
  assumes r: "rest p = text_field f" and p: "position p \<le> length (source p)"
    and v: "valid_field (plimits p) f" and c: "counted p (occ_field f)"
  shows "\<exists>raw. root (field_kind f) p = Inr (raw, past (text_field f) (occ_field f) p) \<and> tree_of raw f"
proof -
  have "\<exists>raw. root (field_kind f) p = Inr (raw, past (text_field f) (occ_field f) p) \<and> read_field raw = f"
  proof (cases f)
    case (FItem i)
    then show ?thesis using item_reads [of p i "[]"] r v c by (auto simp: root_def)
  next
    case (FList ms)
    then show ?thesis using list_loop_reads [of p ms "[]"] r p v c by (auto simp: root_def sf_list_def)
  next
    case (FDictionary es)
    then show ?thesis
      using dictionary_loop_reads [of p es "[]"] r p v c by (auto simp: root_def dictionary_def)
  qed
  then show ?thesis using v tree_of_read by fastforce
qed

lemma text_field_first:
  assumes "valid_field L f"
  shows "stops (\<lambda>c. c = 32 \<or> c = 9) (text_field f)"
proof (cases f)
  case (FItem i)
  then show ?thesis using text_item_first [of L i] assms by auto
next
  case (FList ms)
  show ?thesis
  proof (cases ms)
    case (Cons m ms')
    then obtain c cs where "text_member m = c # cs" "c \<noteq> 32" "c \<noteq> 9"
      using text_member_first [of L m] assms FList by auto
    then show ?thesis using FList Cons by (simp add: join_Cons)
  qed (use FList in simp)
next
  case (FDictionary es)
  show ?thesis
  proof (cases es)
    case (Cons e es')
    then obtain c cs where "fst e = c # cs" "c \<noteq> 32" "c \<noteq> 9"
      using assms FDictionary by (cases "fst e")
        (auto simp: valid_key_def key_first_class_def lower_alpha_def split_beta)
    then show ?thesis using FDictionary Cons by (simp add: join_Cons text_entry_def)
  qed (use FDictionary in simp)
qed

lemma field_reads [reads]:
  assumes r: "rest p = text_field f" and p: "position p \<le> length (source p)"
    and v: "valid_field (plimits p) f" and c: "counted p (occ_field f)"
  shows "\<exists>raw. field (field_kind f) p = Inr (raw, past (text_field f) (occ_field f) p) \<and> tree_of raw f"
proof -
  let ?q = "past (text_field f) (occ_field f) p"
  have sp: "spaces False p = p"
    using text_field_first [OF v] r by (intro spaces_stop) (cases "text_field f", auto)
  have rq: "rest ?q = []" using r by (intro rest_past) simp
  then have "spaces False ?q = ?q" by (intro spaces_stop) simp
  moreover have "position ?q = length (source ?q)"
    using r p position_past [of p "text_field f" "[]" "occ_field f"]
    by (subst at_end) (simp_all add: rq)
  ultimately show ?thesis using root_reads [OF assms] sp by (auto simp: field_def)
qed

declare One_nat_def [simp]

end
