(* ===== verification/SfResults.thy ===== *)
theory SfResults
  imports SfReading
begin

text \<open>
  What the parser guarantees of a value it returns: it is valid under the limits it was
  read with, so the serializer accepts it (collection \<open>results\<close>), and the occurrences of
  the semantic value are at most those counted while reading.
\<close>

named_theorems results \<open>what holds of the result of each parser method\<close>

abbreviation occ :: "parser \<Rightarrow> nat" where
  "occ p \<equiv> occurrences (pbudget p)"

lemma advancesD:
  assumes "advances p q"
  shows "source q = source p" "plimits q = plimits p" "occ p \<le> occ q" "position p \<le> position q"
  using assms by (auto simp: advances_def)

lemma progressD:
  assumes "progress p q"
  shows "source q = source p" "plimits q = plimits p" "occ p \<le> occ q" "position p < position q"
  using assms by (auto simp: progress_def advances_def)

section \<open>Keys, tokens and numbers\<close>

lemma slice_adv:
  assumes "code p = Some c" "start \<le> position p"
  shows "slice (source p) start (Suc (position p)) = slice (source p) start (position p) @ [c]"
proof -
  have "position p < length (source p)" "c = source p ! position p"
    using assms(1) by (auto dest: code_Some)
  moreover have "Suc (position p) - start = Suc (position p - start)" using assms(2) by simp
  ultimately show ?thesis using assms(2) by (simp add: slice_def take_Suc_conv_app_nth)
qed

lemma key_rest_result:
  "key_rest start p = Inr q \<Longrightarrow> start \<le> position p \<Longrightarrow>
   list_all keyRest (slice (source p) start (position p)) \<Longrightarrow>
   within (plimits p) MaxKeyLength (position p - start) \<Longrightarrow>
   list_all keyRest (slice (source q) start (position q)) \<and>
   within (plimits q) MaxKeyLength (position q - start)"
proof (induction start p rule: key_rest.induct)
  case (1 start p)
  show ?case
  proof (cases "sees keyRest p")
    case True
    then obtain c where c: "code p = Some c" "keyRest c" by (auto elim: seesE)
    with 1 True show ?thesis
      by (auto simp: key_rest.simps [of start p] bindE_eq_Inr slice_adv Suc_diff_le)
  next
    case False
    with 1 show ?thesis by (simp add: key_rest.simps [of start p])
  qed
qed

lemma token_rest_result:
  "token_rest start p = Inr q \<Longrightarrow> start \<le> position p \<Longrightarrow>
   list_all tokenRest (slice (source p) start (position p)) \<Longrightarrow>
   within (plimits p) MaxTokenLength (position p - start) \<Longrightarrow>
   list_all tokenRest (slice (source q) start (position q)) \<and>
   within (plimits q) MaxTokenLength (position q - start)"
proof (induction start p rule: token_rest.induct)
  case (1 start p)
  show ?case
  proof (cases "sees tokenRest p")
    case True
    then obtain c where c: "code p = Some c" "tokenRest c" by (auto elim: seesE)
    with 1 True show ?thesis
      by (auto simp: token_rest.simps [of start p] bindE_eq_Inr slice_adv Suc_diff_le)
  next
    case False
    with 1 show ?thesis by (simp add: token_rest.simps [of start p])
  qed
qed

lemma within_0 [simp]: "within l n 0"
  by (simp add: within_def)

lemma length_slice: "j \<le> length s \<Longrightarrow> length (slice s i j) = j - i"
  by (simp add: slice_def)

lemma slice_first:
  assumes "code p = Some c" "position p < j"
  shows "\<exists>cs. slice (source p) (position p) j = c # cs"
proof -
  from assms(1) have d: "drop (position p) (source p) = c # drop (Suc (position p)) (source p)"
    by (auto dest!: code_Some simp: Cons_nth_drop_Suc)
  obtain k where "j - position p = Suc k" using assms(2) by (cases "j - position p") auto
  with d show ?thesis by (simp add: slice_def)
qed

lemma key_rest_class_eq: "key_rest_class c \<longleftrightarrow> keyRest c" "key_first_class c \<longleftrightarrow> keyFirst c"
  by (auto simp: key_first_class_def key_rest_class_def keyFirst_def keyRest_def lower_alpha_def)

lemma token_rest_class_eq: "token_rest_class c \<longleftrightarrow> tokenRest c"
  by (auto simp: token_rest_class_def tokenRest_def token_punctuation_def)

lemma code_position: "code p = Some c \<Longrightarrow> position p < length (source p)"
  by (auto dest: code_Some)

lemma key_result [results]:
  assumes k: "key p = Inr ((k, s), q)"
  shows "valid_key (plimits p) k"
proof -
  from k have first: "sees keyFirst p" and r: "key_rest (position p) p = Inr q"
    and ks: "k = slice (source q) (position p) (position q)"
    by (auto simp: key_def Let_def bindE_eq_Inr split: if_splits)
  obtain c where c: "code p = Some c" "keyFirst c" using first by (auto elim: seesE)
  note pr = progressD [OF key_advances [OF k]]
  have "advances p q" using key_advances [OF k] by (simp add: progress_def)
  then have len: "position q \<le> length (source q)"
    using code_position [OF c(1)] by (auto simp: advances_def)
  have "list_all keyRest (slice (source p) (position p) (position p))" by (simp add: slice_def)
  then have R: "list_all keyRest (slice (source q) (position p) (position q))"
    "within (plimits q) MaxKeyLength (position q - position p)"
    using key_rest_result [OF r] by auto
  obtain cs where cs: "slice (source p) (position p) (position q) = c # cs"
    using slice_first [OF c(1) pr(4)] by blast
  show ?thesis
    using R cs c(2) length_slice [OF len, of "position p"] pr
    by (auto simp: valid_key_def ks key_rest_class_eq list_all_iff)
qed

lemma token_result:
  assumes t: "token p = Inr (t, q)" and c: "code p = Some c" "alpha c \<or> c = 42"
  shows "valid_bare (plimits p) (Token t)"
proof -
  from t have r: "token_rest (position p) p = Inr q" and ts: "t = slice (source q) (position p) (position q)"
    by (auto simp: token_def Let_def bindE_eq_Inr)
  have "tokenRest c" using c(2) by (auto simp: tokenRest_def token_punctuation_def)
  then have pr: "progress p q"
    using r c by (auto simp: token_rest.simps [of _ p] sees_def bindE_eq_Inr
        intro: progress_adv1 token_rest_advances)
  note prd = progressD [OF pr]
  have len: "position q \<le> length (source q)"
    using pr code_position [OF c(1)] by (auto simp: progress_def advances_def)
  have "list_all tokenRest (slice (source p) (position p) (position p))" by (simp add: slice_def)
  then have R: "list_all tokenRest (slice (source q) (position p) (position q))"
    "within (plimits q) MaxTokenLength (position q - position p)"
    using token_rest_result [OF r] by auto
  obtain cs where cs: "slice (source p) (position p) (position q) = c # cs"
    using slice_first [OF c(1) prd(4)] by blast
  show ?thesis
    using R cs c(2) length_slice [OF len, of "position p"] prd
    by (auto simp: ts token_rest_class_eq token_first_class_def list_all_iff)
qed

text \<open>The accumulator stays below the power of ten of the digits read, so no number of the
  grammar is rounded: at most fifteen digits in all.\<close>

lemma digit_loop_bound:
  "digit_loop m start acc p = Inr (n, q) \<Longrightarrow> start \<le> position p \<Longrightarrow> position p - start \<le> m \<Longrightarrow>
   acc < 10 ^ (position p - start) \<Longrightarrow>
   n < 10 ^ (position q - start) \<and> position q - start \<le> m \<and> start \<le> position q"
proof (induction m start acc p rule: digit_loop.induct)
  case (1 m start acc p)
  show ?case
  proof (cases "\<exists>c. code p = Some c \<and> digit c")
    case False
    with 1 show ?thesis by (auto simp: digit_loop.simps [of m start acc p] split: option.splits)
  next
    case True
    then obtain c where c: "code p = Some c" "digit c" by blast
    have "acc * 10 + c - 48 < 10 ^ (position (adv p) - start)"
      using 1(3,5) c(2) by (auto simp: digit_def Suc_diff_le)
    with 1 c show ?thesis
      by (auto simp: digit_loop.simps [of m start acc p] Suc_diff_le split: if_splits)
  qed
qed

lemma abs_signed: "\<bar>signed b n\<bar> = int n"
  by (simp add: signed_def)

lemma power_le: "n < 10 ^ k \<Longrightarrow> k \<le> m \<Longrightarrow> n < (10 :: nat) ^ m"
  by (meson less_le_trans one_le_numeral power_increasing)

lemma number_result [results]:
  assumes "number p = Inr (v, q)"
  shows "valid_bare L v \<and> (\<exists>n. v = Integer n \<or> v = Decimal n)"
proof -
  define p1 where "p1 = (if sees (\<lambda>c. c = 45) p then adv p else p)"
  from assms obtain i p2 where d: "digit_loop 15 (position p1) 0 p1 = Inr (i, p2)"
    by (auto simp: number_def Let_def p1_def [symmetric] bindE_eq_Inr split: if_splits)
  have i: "i < 10 ^ (position p2 - position p1)" "position p2 - position p1 \<le> 15"
    using digit_loop_bound [OF d] by auto
  show ?thesis
  proof (cases "sees (\<lambda>c. c = 46) p2")
    case False
    have "i < 10 ^ 15" using i by (rule power_le)
    with assms d False show ?thesis
      by (auto simp: number_def Let_def p1_def [symmetric] bindE_eq_Inr max_sf_integer_def abs_signed
          split: if_splits)
  next
    case True
    with assms d have twelve: "position p2 - position p1 \<le> 12"
      by (auto simp: number_def Let_def p1_def [symmetric] bindE_eq_Inr split: if_splits)
    from assms d True obtain f p4 where f: "digit_loop 3 (position (adv p2)) 0 (adv p2) = Inr (f, p4)"
      and v: "v = Decimal (signed (sees (\<lambda>c. c = 45) p)
          (i * 1000 + f * 10 ^ (3 - (position p4 - position (adv p2)))))"
      by (auto simp: number_def Let_def p1_def [symmetric] bindE_eq_Inr split: if_splits)
    define k where "k = position p4 - position (adv p2)"
    have "f < 10 ^ k" "k \<le> 3" using digit_loop_bound [OF f] by (auto simp: k_def)
    then have "f * 10 ^ (3 - k) < 10 ^ k * 10 ^ (3 - k)" by simp
    also have "\<dots> = 10 ^ 3" using \<open>k \<le> 3\<close> by (simp add: power_add [symmetric])
    finally have "f * 10 ^ (3 - k) < 1000" by simp
    moreover have "i < 1000000000000" using power_le [OF i(1) twelve] by simp
    ultimately have "i * 1000 + f * 10 ^ (3 - k) \<le> 999999999999999" by linarith
    then have "int (i * 1000 + f * 10 ^ (3 - k)) \<le> max_sf_integer"
      unfolding max_sf_integer_def by linarith
    then show ?thesis unfolding v k_def [symmetric] by (simp only: valid_bare.simps abs_signed)  simp
  qed
qed

section \<open>Strings and byte sequences\<close>

lemma string_loop_result:
  "string_loop out p = Inr (s, q) \<Longrightarrow> list_all printable out \<Longrightarrow>
   within (plimits p) MaxDecodedBytes (length out) \<Longrightarrow>
   list_all printable s \<and> within (plimits p) MaxDecodedBytes (length s)"
proof (induction out p rule: string_loop.induct)
  case (1 out p)
  then show ?case
    by (auto simp: string_loop.simps [of out p] Let_def bindE_eq_Inr printable_def
        split: option.splits if_splits)
qed

definition alphabet_text :: "jsstring \<Rightarrow> nat \<Rightarrow> nat \<Rightarrow> bool" where
  "alphabet_text t n k \<longleftrightarrow>
     (\<exists>cs. t = cs @ replicate k 61 \<and> length cs = n \<and> list_all base64_alphabet cs)"

lemma alphabet_text_char: "alphabet_text t n 0 \<Longrightarrow> base64_alphabet c \<Longrightarrow> alphabet_text (t @ [c]) (Suc n) 0"
  by (auto simp: alphabet_text_def)

lemma alphabet_text_pad: "alphabet_text t n k \<Longrightarrow> alphabet_text (t @ [61]) n (Suc k)"
  by (auto simp: alphabet_text_def replicate_append_same)

lemma bytes_loop_result:
  "bytes_loop n k p = Inr ((n', k'), q) \<Longrightarrow> start \<le> position p \<Longrightarrow>
   alphabet_text (slice (source p) start (position p)) n k \<Longrightarrow>
   within (plimits p) MaxDecodedBytes (n * 6 div 8) \<Longrightarrow>
   alphabet_text (slice (source q) start (position q)) n' k' \<and>
   within (plimits p) MaxDecodedBytes (n' * 6 div 8)"
proof (induction n k p rule: bytes_loop.induct)
  case (1 n k p)
  show ?case
  proof (cases "code p")
    case None
    with 1 show ?thesis by (auto simp: bytes_loop.simps [of n k p])
  next
    case (Some c)
    note slice = slice_adv [OF Some 1(4)]
    consider "c = 58" | "c = 61" | "c \<noteq> 58" "c \<noteq> 61" by blast
    then show ?thesis
    proof cases
      case 1
      with "1.prems" Some show ?thesis by (auto simp: bytes_loop.simps [of n k p])
    next
      case 2
      with "1.prems" Some have ok: "\<not> 2 < k + 1" "bytes_loop n (k + 1) (adv p) = Inr ((n', k'), q)"
        by (auto simp: bytes_loop.simps [of n k p] split: if_splits)
      show ?thesis
        using "1.IH"(1) [OF Some _ 2 ok(1,2)] 2 "1.prems" slice alphabet_text_pad by auto
    next
      case 3
      with "1.prems" Some have ok: "\<not> (k \<noteq> 0 \<or> \<not> base64_alphabet c)"
        "check (pbudget p) MaxDecodedBytes ((n + 1) * 6 div 8) = Inr ()"
        "bytes_loop (n + 1) k (adv p) = Inr ((n', k'), q)"
        by (auto simp: bytes_loop.simps [of n k p] bindE_eq_Inr split: if_splits)
      have "alphabet_text (slice (source (adv p)) start (position (adv p))) (n + 1) k"
        using "1.prems"(3) slice ok(1) alphabet_text_char by auto
      then show ?thesis
        using "1.IH"(2) [OF Some 3 ok(1,2,3)] "1.prems" ok(2) by auto
    qed
  qed
qed

lemma b64_value_alphabet: "base64_alphabet c \<Longrightarrow> c \<noteq> 61 \<and> b64_value c \<noteq> None"
  by (auto simp: base64_alphabet_def b64_value_def alpha_def digit_def)

lemma length_map_filter_b64:
  "list_all base64_alphabet cs \<Longrightarrow> length (List.map_filter b64_value cs) = length cs"
  by (induction cs) (auto simp: map_filter_simps dest!: b64_value_alphabet)

lemma length_decode:
  assumes "alphabet_text t n k"
  shows "length (base64_decode t) = n * 6 div 8"
proof -
  obtain cs where t: "t = cs @ replicate k 61" "length cs = n" "list_all base64_alphabet cs"
    using assms by (auto simp: alphabet_text_def)
  have "takeWhile (\<lambda>c. c \<noteq> 61) t = cs"
    using t(1,3) b64_value_alphabet
    by (cases k) (auto simp: list_all_iff takeWhile_append2 takeWhile_eq_all_conv [THEN iffD2])
  then show ?thesis
    by (simp add: base64_decode_def length_b64_octets length_map_filter_b64 [OF t(3)] t(2) mult.commute)
qed

lemma bytes_result:
  assumes "sf_bytes p = Inr (bs, q)"
  shows "valid_bare (plimits p) (Bytes bs)"
proof -
  from assms obtain n k p2 where l: "bytes_loop 0 0 (adv p) = Inr ((n, k), p2)"
    and bs: "bs = base64_decode (slice (source p2) (Suc (position p)) (position p2))"
    by (auto simp: sf_bytes_def Let_def bindE_eq_Inr split: if_splits)
  have "alphabet_text (slice (source (adv p)) (Suc (position p)) (position (adv p))) 0 0"
    by (simp add: slice_def alphabet_text_def)
  then have "alphabet_text (slice (source p2) (Suc (position p)) (position p2)) n k"
    "within (plimits (adv p)) MaxDecodedBytes (n * 6 div 8)"
    using bytes_loop_result [OF l, of "Suc (position p)"] by auto
  then show ?thesis by (simp add: bs length_decode)
qed

lemma display_loop_result:
  "display_loop bs p = Inr (s, q) \<Longrightarrow> within (plimits p) MaxDecodedBytes (length bs) \<Longrightarrow>
   valid_bare (plimits p) (DisplayString s)"
proof (induction bs p rule: display_loop.induct)
  case (1 bs p)
  then show ?case
    by (auto simp: display_loop.simps [of bs p] Let_def bindE_eq_Inr
        dest: utf8_encode_decode split: option.splits if_splits)
qed

section \<open>Bare items, parameters and items\<close>

lemma bare_value_result:
  assumes b: "bare_value p = Inr (v, q)"
  shows "valid_bare (plimits p) v"
proof -
  from b obtain c where c: "code p = Some c"
    by (cases "code p") (auto simp: bare_value_def Let_def)
  have num: "number p' = Inr (v, q') \<Longrightarrow> valid_bare L v" for p' q' v L using number_result by blast
  have date: "number p' = Inr (Integer n, q') \<Longrightarrow> valid_bare L (Date n)" for p' q' n L
    using num [of p' "Integer n"] by simp
  have str: "sf_string p = Inr (s, q) \<Longrightarrow> valid_bare (plimits p) (SfString s)" for s
    using string_loop_result [of "[]" "adv p"] by (auto simp: sf_string_def)
  have disp: "displayString p = Inr (s, q) \<Longrightarrow> valid_bare (plimits p) (DisplayString s)" for s
    using display_loop_result [of "[]" "adv (adv p)"] by (auto simp: displayString_def Let_def split: if_splits)
  show ?thesis
    using b c
    by (auto simp: bare_value_def Let_def bindE_eq_Inr integer_case simp del: valid_bare.simps
        split: if_splits intro: num date str disp bytes_result token_result valid_bare.simps(4) [THEN iffD2])
qed

lemma bare_result [results]: "bare p = Inr (v, q) \<Longrightarrow> valid_bare (plimits p) (rb_value v)"
  by (auto simp: bare_def bindE_eq_Inr dest: bare_value_result)

definition valid_raw_parameter :: "limits \<Rightarrow> raw_parameter \<Rightarrow> bool" where
  "valid_raw_parameter L r \<longleftrightarrow> valid_key L (rp_key r) \<and> valid_bare L (bare_or_true (rp_bare r))"

lemma spaces_limits [simp]: "plimits (spaces b p) = plimits p" "occ (spaces b p) = occ p"
proof -
  show "plimits (spaces b p) = plimits p" by (rule advancesD [OF spaces_advances])
  show "occ (spaces b p) = occ p"
    by (induction b p rule: spaces.induct) (subst spaces.simps, auto)
qed

lemma consumeD:
  assumes "consume p = Inr q"
  shows "plimits q = plimits p" "occ q = Suc (occ p)"
  using consume_advances [OF assms] by (auto simp: advances_def)

lemma parameter_result:
  assumes "parameter p = Inr (r, q)"
  shows "valid_raw_parameter (plimits p) r \<and> Suc (occ p) \<le> occ q \<and> plimits q = plimits p"
proof -
  from assms obtain p1 k ks p2 where c: "consume p = Inr p1"
    and k: "key (spaces False (adv p1)) = Inr ((k, ks), p2)"
    and r: "rp_key r = k"
      "rp_bare r = None \<and> q = p2 \<or> (\<exists>b. bare (adv p2) = Inr (b, q) \<and> rp_bare r = Some b)"
    by (auto simp: parameter_def Let_def bindE_eq_Inr split: if_splits)
  note pr = progressD [OF key_advances [OF k]] and cd = consumeD [OF c]
  have q: "plimits q = plimits p2 \<and> occ p2 \<le> occ q" 
    using r(2) progressD [OF bare_advances] by fastforce
  have "valid_bare (plimits p2) (bare_or_true (rp_bare r))"
    using r(2) bare_result [of "adv p2"] by (auto simp: bare_or_true_def)
  then show ?thesis
    using key_result [OF k] pr cd q r(1) by (auto simp: valid_raw_parameter_def)
qed

lemma parameter_loop_result:
  "parameter_loop ps p = Inr (qs, q) \<Longrightarrow> list_all (valid_raw_parameter (plimits p)) ps \<Longrightarrow>
   within (plimits p) MaxParameters (length ps) \<Longrightarrow>
   list_all (valid_raw_parameter (plimits p)) qs \<and> within (plimits p) MaxParameters (length qs) \<and>
   occ p + length qs \<le> occ q + length ps \<and> plimits q = plimits p"
proof (induction ps p rule: parameter_loop.induct)
  case (1 ps p)
  show ?case
  proof (cases "sees (\<lambda>c. c = 59) p")
    case True
    with 1(2) obtain u r p1 where step: "check (pbudget p) MaxParameters (length ps + 1) = Inr u"
      "parameter p = Inr (r, p1)" and l: "parameter_loop (ps @ [r]) p1 = Inr (qs, q)"
      by (auto simp: parameter_loop.simps [of ps p] bindE_eq_Inr)
    show ?thesis
      using 1(1) [OF True step refl l] parameter_result [OF step(2)] step(1) 1(3,4) by auto
  next
    case False
    with 1 show ?thesis by (simp add: parameter_loop.simps [of ps p])
  qed
qed

lemma valid_fill:
  assumes "list_all P es" "within L n (length es)"
  shows "list_all P (fill [] es)" "within L n (length (fill [] es))"
  using assms fill_set [of "[]" es] fill_length [of "[]" es]
  by (auto simp: list_all_iff elim: within_mono)

lemma parameters_result [results]:
  assumes "parameters p = Inr (rs, q)"
  shows "valid_parameters (plimits p) (sem_parameters rs) \<and>
    occ p + length (sem_parameters rs) \<le> occ q \<and> plimits q = plimits p"
proof -
  let ?es = "map (\<lambda>r. (rp_key r, bare_or_true (rp_bare r))) rs"
  have r: "list_all (valid_raw_parameter (plimits p)) rs" "within (plimits p) MaxParameters (length rs)"
    "occ p + length rs \<le> occ q" "plimits q = plimits p"
    using parameter_loop_result [of "[]" p rs q] assms by (auto simp: parameters_def)
  have "list_all (\<lambda>(k, v). valid_key (plimits p) k \<and> valid_bare (plimits p) v) ?es"
    using r(1) by (auto simp: list_all_iff valid_raw_parameter_def)
  from valid_fill [OF this] r show ?thesis
    using fill_length [of "[]" ?es]
    by (auto simp: valid_parameters_def sem_parameters_fill fill_distinct)
qed

lemma item_result [results]:
  assumes "item p = Inr (r, q)"
  shows "valid_item (plimits p) (sem_item r) \<and> occ p + occ_item (sem_item r) \<le> occ q \<and>
    plimits q = plimits p"
proof -
  from assms obtain p1 b p2 ps where c: "consume p = Inr p1" and b: "bare p1 = Inr (b, p2)"
    and ps: "parameters p2 = Inr (ps, q)" and r: "ri_bare r = Some b" "ri_parameters r = ps"
    by (auto simp: item_def bindE_eq_Inr)
  show ?thesis
    using bare_result [OF b] parameters_result [OF ps] consumeD [OF c] progressD [OF bare_advances [OF b]] r
    by (auto simp: valid_item_def sem_item_def occ_item_def bare_or_true_def)
qed

section \<open>Inner lists, members and fields\<close>

lemma inner_list_loop_result:
  "inner_list_loop start is p = Inr (r, q) \<Longrightarrow> list_all (valid_item (plimits p) \<circ> sem_item) is \<Longrightarrow>
   within (plimits p) MaxInnerListItems (length is) \<Longrightarrow>
   valid_member (plimits p) (sem_member (RInnerList r)) \<and>
   occ p + occ_member (sem_member (RInnerList r)) \<le> occ q + 1 + sum_list (map (occ_item \<circ> sem_item) is) \<and>
   plimits q = plimits p"
proof (induction start "is" p rule: inner_list_loop.induct)
  case (1 start "is" p)
  then have ne: "position p < length (source p)" by (auto simp: inner_list_loop.simps [of start "is" p] split: if_splits)
  define p1 where "p1 = spaces False p"
  show ?case
  proof (cases "sees (\<lambda>c. c = 41) p1")
    case True
    with 1(2) ne obtain ps where ps: "parameters (adv p1) = Inr (ps, q)" and r: "ril_items r = is" "ril_parameters r = ps"
      by (auto simp: inner_list_loop.simps [of start "is" p] Let_def p1_def bindE_eq_Inr)
    have "plimits p1 = plimits p" "occ p1 = occ p" by (simp_all add: p1_def)
    with parameters_result [OF ps] 1(3,4) r show ?thesis by (auto simp: list_all_iff comp_def)
  next
    case False
    with 1(2) ne obtain u i p2 where step: "check (pbudget p1) MaxInnerListItems (length is + 1) = Inr u"
      "item p1 = Inr (i, p2)" and guard: "\<not> (\<not> sees (\<lambda>c. c = 32) p2 \<and> \<not> sees (\<lambda>c. c = 41) p2)"
      and l: "inner_list_loop start (is @ [i]) p2 = Inr (r, q)"
      by (auto simp: inner_list_loop.simps [of start "is" p] Let_def p1_def bindE_eq_Inr split: if_splits)
    have "plimits p1 = plimits p" "occ p1 = occ p" by (simp_all add: p1_def)
    with 1(1) [OF ne p1_def False step refl guard l] item_result [OF step(2)] step(1) 1(3,4)
    show ?thesis by (auto simp: comp_def)
  qed
qed

lemma innerList_result [results]:
  assumes "innerList p = Inr (r, q)"
  shows "valid_member (plimits p) (sem_member (RInnerList r)) \<and>
    occ p + occ_member (sem_member (RInnerList r)) \<le> occ q \<and> plimits q = plimits p"
proof -
  from assms obtain p1 where c: "consume p = Inr p1" and l: "inner_list_loop (position p1) [] (adv p1) = Inr (r, q)"
    by (auto simp: innerList_def bindE_eq_Inr)
  from inner_list_loop_result [OF l] consumeD [OF c] show ?thesis by auto
qed

lemma member_result [results]:
  assumes "member p = Inr (r, q)"
  shows "valid_member (plimits p) (sem_member r) \<and> occ p + occ_member (sem_member r) \<le> occ q \<and>
    plimits q = plimits p"
  using assms innerList_result item_result
  by (auto simp: member_def bindE_eq_Inr simp del: sem_member.simps(2) split: if_splits)

lemma separatorD:
  assumes "separator p = Inr (b, q)"
  shows "plimits q = plimits p" "occ p \<le> occ q"
  using separator_advances [OF assms] by (auto dest: advancesD)

lemma list_loop_result:
  "list_loop ms p = Inr (ns, q) \<Longrightarrow> list_all (valid_member (plimits p) \<circ> sem_member) ms \<Longrightarrow>
   within (plimits p) MaxMembers (length ms) \<Longrightarrow>
   list_all (valid_member (plimits p) \<circ> sem_member) ns \<and> within (plimits p) MaxMembers (length ns) \<and>
   occ p + sum_list (map (occ_member \<circ> sem_member) ns) \<le> occ q + sum_list (map (occ_member \<circ> sem_member) ms)"
proof (induction ms p rule: list_loop.induct)
  case (1 ms p)
  show ?case
  proof (cases "position p < length (source p)")
    case True
    with 1(2) obtain u m p1 more p2 where
      step: "check (pbudget p) MaxMembers (length ms + 1) = Inr u" "member p = Inr (m, p1)"
        "separator p1 = Inr (more, p2)" and
      rest: "if more then list_loop (ms @ [m]) p2 = Inr (ns, q) else p2 = q \<and> ns = ms @ [m]"
      by (auto simp: list_loop.simps [of ms p] bindE_eq_Inr split: if_splits)
    note m = member_result [OF step(2)] and s = separatorD [OF step(3)]
    show ?thesis
    proof (cases more)
      case True
      with 1(1) [OF \<open>position p < _\<close> step(1,2) refl step(3) refl] rest m s step(1) 1(3,4)
      show ?thesis by auto
    next
      case False
      with rest m s step(1) 1(3,4) show ?thesis by auto
    qed
  next
    case False
    with 1 show ?thesis by (simp add: list_loop.simps [of ms p])
  qed
qed

definition valid_raw_entry :: "limits \<Rightarrow> raw_dictionary_entry \<Rightarrow> bool" where
  "valid_raw_entry L e \<longleftrightarrow> valid_key L (rde_key e) \<and> valid_member L (sem_member (rde_member e))"

lemma dictionary_entry_result:
  assumes "dictionary_entry p = Inr (e, q)"
  shows "valid_raw_entry (plimits p) e \<and> occ p + occ_member (sem_member (rde_member e)) \<le> occ q \<and>
    plimits q = plimits p"
proof -
  from assms obtain k ks p1 where k: "key p = Inr ((k, ks), p1)" and ek: "rde_key e = k"
    and alt: "(\<exists>m. member (adv p1) = Inr (m, q) \<and> rde_member e = m) \<or>
      (\<exists>p2 ps m. consume p1 = Inr p2 \<and> parameters p2 = Inr (ps, q) \<and> rde_member e = RItem m \<and>
        ri_bare m = None \<and> ri_parameters m = ps)"
    by (auto simp: dictionary_entry_def bindE_eq_Inr split: if_splits)
  note pr = progressD [OF key_advances [OF k]]
  from alt have "valid_member (plimits p1) (sem_member (rde_member e)) \<and>
      occ p1 + occ_member (sem_member (rde_member e)) \<le> occ q \<and> plimits q = plimits p1"
  proof (elim disjE exE conjE)
    fix m assume "member (adv p1) = Inr (m, q)" "rde_member e = m"
    then show ?thesis using member_result [of "adv p1"] by auto
  next
    fix p2 ps m assume c: "consume p1 = Inr p2" and ps: "parameters p2 = Inr (ps, q)"
      and m: "rde_member e = RItem m" "ri_bare m = None" "ri_parameters m = ps"
    from parameters_result [OF ps] consumeD [OF c] m show ?thesis
      by (auto simp: sem_item_def valid_item_def occ_item_def bare_or_true_def)
  qed
  with key_result [OF k] pr ek show ?thesis by (auto simp: valid_raw_entry_def)
qed

lemma dictionary_loop_result:
  "dictionary_loop ms p = Inr (ns, q) \<Longrightarrow> list_all (valid_raw_entry (plimits p)) ms \<Longrightarrow>
   within (plimits p) MaxMembers (length ms) \<Longrightarrow>
   list_all (valid_raw_entry (plimits p)) ns \<and> within (plimits p) MaxMembers (length ns) \<and>
   occ p + sum_list (map (\<lambda>e. occ_member (sem_member (rde_member e))) ns)
     \<le> occ q + sum_list (map (\<lambda>e. occ_member (sem_member (rde_member e))) ms)"
proof (induction ms p rule: dictionary_loop.induct)
  case (1 ms p)
  show ?case
  proof (cases "position p < length (source p)")
    case True
    with 1(2) obtain u m p1 more p2 where
      step: "check (pbudget p) MaxMembers (length ms + 1) = Inr u" "dictionary_entry p = Inr (m, p1)"
        "separator p1 = Inr (more, p2)" and
      rest: "if more then dictionary_loop (ms @ [m]) p2 = Inr (ns, q) else p2 = q \<and> ns = ms @ [m]"
      by (auto simp: dictionary_loop.simps [of ms p] bindE_eq_Inr split: if_splits)
    note m = dictionary_entry_result [OF step(2)] and s = separatorD [OF step(3)]
    show ?thesis
    proof (cases more)
      case True
      with 1(1) [OF \<open>position p < _\<close> step(1,2) refl step(3) refl] rest m s step(1) 1(3,4)
      show ?thesis by auto
    next
      case False
      with rest m s step(1) 1(3,4) show ?thesis by auto
    qed
  next
    case False
    with 1 show ?thesis by (simp add: dictionary_loop.simps [of ms p])
  qed
qed

lemma sum_fill:
  "sum_list (map (f \<circ> snd) (fill m es)) \<le> sum_list (map (f \<circ> snd) m) + sum_list (map (f \<circ> snd) es :: nat list)"
proof (induction es arbitrary: m)
  case (Cons e es)
  have "sum_list (map (f \<circ> snd) (map_set k v l)) \<le> sum_list (map (f \<circ> snd) l) + f v" for k v l
    by (induction k v l rule: map_set.induct) auto
  from this [of "fst e" "snd e" m] show ?case using Cons [of "map_set (fst e) (snd e) m"] by (simp add: comp_def)
qed simp

lemma root_result [results]:
  assumes "root t p = Inr (r, q)"
  shows "valid_field (plimits p) (semantic r) \<and> occ p + occ_field (semantic r) \<le> occ q \<and>
    field_kind (semantic r) = t"
proof (cases t)
  case TItem
  with assms show ?thesis using item_result by (auto simp: root_def bindE_eq_Inr)
next
  case TList
  with assms obtain ms where "list_loop [] p = Inr (ms, q)" "r = RFList \<lparr>span_start = position p,
      span_end = position q, rl_members = ms\<rparr>"
    by (auto simp: root_def sf_list_def bindE_eq_Inr)
  then show ?thesis using list_loop_result [of "[]" p ms q] TList by (auto simp: list_all_iff comp_def)
next
  case TDictionary
  with assms obtain es where l: "dictionary_loop [] p = Inr (es, q)" and r: "r = RFDictionary
      \<lparr>span_start = position p, span_end = position q, rd_entries = es\<rparr>"
    by (auto simp: root_def dictionary_def bindE_eq_Inr)
  let ?ps = "map (\<lambda>e. (rde_key e, sem_member (rde_member e))) es"
  have sem: "semantic r = FDictionary (fill [] ?ps)"
    by (simp add: r last_entries_fill fill_map comp_def)
  have R: "list_all (valid_raw_entry (plimits p)) es" "within (plimits p) MaxMembers (length es)"
    "occ p + sum_list (map (\<lambda>e. occ_member (sem_member (rde_member e))) es) \<le> occ q"
    using dictionary_loop_result [OF l] by auto
  have "list_all (\<lambda>(k, m). valid_key (plimits p) k \<and> valid_member (plimits p) m) ?ps"
    using R(1) by (auto simp: list_all_iff valid_raw_entry_def)
  from valid_fill [OF this] R sum_fill [of occ_member "[]" ?ps] show ?thesis
    using TDictionary unfolding sem by (auto simp: fill_distinct comp_def)
qed

lemma field_result [results]:
  assumes "field t p = Inr (r, q)"
  shows "valid_field (plimits p) (semantic r) \<and> occ p + occ_field (semantic r) \<le> occ q \<and>
    field_kind (semantic r) = t"
proof -
  from assms obtain p1 where r: "root t (spaces False p) = Inr (r, p1)" and q: "q = spaces False p1"
    by (auto simp: field_def Let_def bindE_eq_Inr split: if_splits)
  from root_result [OF r] q show ?thesis by auto
qed

end
