(* ===== verification/SfDecimal.thy ===== *)
theory SfDecimal
  imports SfParser SfSerializer
begin

text \<open>
  \<^verbatim>\<open>decimal.ts\<close>: a decimal from exact base-ten text. \<open>BigInt\<close> values are natural
  numbers. The specification at the end is rounding of the exact rational to thousandths,
  ties to even.
\<close>

text \<open>The first loop: where the integer digits end, and the first that is not zero.\<close>

fun scan_integer :: "nat \<Rightarrow> nat option \<Rightarrow> jsstring \<Rightarrow> nat \<times> nat option" where
  "scan_integer pos firstSignificant [] = (pos, firstSignificant)"
| "scan_integer pos firstSignificant (c # cs) =
     (if \<not> digit c then (pos, firstSignificant)
      else scan_integer (pos + 1)
             (if c \<noteq> 48 \<and> firstSignificant = None then Some pos else firstSignificant) cs)"

text \<open>Where the fraction starts, the length of the input when there is none.\<close>

definition fraction_start :: "nat \<Rightarrow> jsstring \<Rightarrow> sf_error + nat" where
  "fraction_start pos s =
     (if pos < length s then
        if s ! pos \<noteq> 46 then reject SInvalidNumber
        else if pos + 1 = length s then reject SInvalidNumber
        else if list_all digit (drop (pos + 1) s) then Inr (pos + 1)
        else reject SInvalidNumber
      else Inr (length s))"

definition three_fraction_digits :: "nat \<Rightarrow> jsstring \<Rightarrow> nat" where
  "three_fraction_digits fractionStart s =
     foldl (\<lambda>fraction d. fraction * 10 +
       (if d < length s - fractionStart then s ! (fractionStart + d) - 48 else 0)) 0 [0, 1, 2]"

definition round_even :: "nat \<Rightarrow> jsstring \<Rightarrow> nat \<Rightarrow> nat" where
  "round_even fractionStart s magnitude =
     (if 3 < length s - fractionStart then
        let fourth = s ! (fractionStart + 3) - 48;
            nonzeroTail = fourth = 5 \<and> list_ex (\<lambda>c. c \<noteq> 48) (drop (fractionStart + 4) s) in
        if 5 < fourth \<or> (fourth = 5 \<and> (nonzeroTail \<or> magnitude mod 2 \<noteq> 0))
        then magnitude + 1 else magnitude
      else magnitude)"

definition decimal_of_text :: "jsstring \<Rightarrow> sf_error + bare_item" where
  "decimal_of_text s =
     (let negative = (s \<noteq> [] \<and> hd s = 45);
          start = (if negative then 1 else 0);
          (integerEnd, firstSignificant) = scan_integer start None (drop start s) in
      if integerEnd = start then reject SInvalidNumber
      else bindE (fraction_start integerEnd s) (\<lambda>fractionStart.
        let significantDigits = (case firstSignificant of None \<Rightarrow> 0 | Some f \<Rightarrow> integerEnd - f) in
        if 12 < significantDigits then reject SInvalidNumber
        else
          let integer = (case firstSignificant of None \<Rightarrow> 0
                | Some f \<Rightarrow> read_digits 0 (slice s f integerEnd));
              fraction = three_fraction_digits fractionStart s;
              magnitude = round_even fractionStart s (integer * 1000 + fraction) in
          if 999999999999999 < magnitude then reject SInvalidNumber
          else Inr (Decimal (if negative \<and> magnitude \<noteq> 0 then - int magnitude else int magnitude))))"

text \<open>The argument is a string, or (\<open>None\<close>) a value of another type.\<close>

definition decimalFromString :: "jsstring option \<Rightarrow> js_number js_options \<Rightarrow> sf_error + bare_item" where
  "decimalFromString arg options =
     (case arg of
        None \<Rightarrow> reject SInvalidNumber
      | Some s \<Rightarrow>
          bindE (resolveLimits options) (\<lambda>L.
          bindE (check (new_budget L) MaxInputBytes (length s)) (\<lambda>_. decimal_of_text s)))"

section \<open>Rounding half to even\<close>

definition half_even :: "nat \<Rightarrow> nat \<Rightarrow> nat" where
  "half_even n d = (let q = n div d; r = n mod d in
     if d < 2 * r \<or> (2 * r = d \<and> odd q) then q + 1 else q)"

lemma half_even_exact: "0 < d \<Longrightarrow> half_even (q * d) d = q"
  by (simp add: half_even_def)

lemma half_even_split:
  "r < d \<Longrightarrow> half_even (q * d + r) d = (if d < 2 * r \<or> (2 * r = d \<and> odd q) then q + 1 else q)"
  by (simp add: half_even_def Let_def)

lemma half_even_cancel: "0 < c \<Longrightarrow> half_even (c * n) (c * d) = half_even n d"
  by (simp add: half_even_def Let_def mult_mod_right [symmetric] mult.left_commute)

section \<open>What the scan returns\<close>

definition digits_of :: "bool \<Rightarrow> jsstring \<Rightarrow> jsstring \<Rightarrow> jsstring" where
  "digits_of negative D F = (if negative then [45] else []) @ D @ (if F = [] then [] else 46 # F)"

lemma scan_integer_end: "fst (scan_integer pos fs s) = pos + length (takeWhile digit s)"
  by (induction pos fs s rule: scan_integer.induct) auto

lemma scan_integer_Some: "snd (scan_integer pos (Some f) s) = Some f"
  by (induction pos "Some f" s rule: scan_integer.induct) auto

lemma scan_integer_first:
  "snd (scan_integer pos None s) =
     (let z = length (takeWhile (\<lambda>c. c = 48) (takeWhile digit s)) in
      if z = length (takeWhile digit s) then None else Some (pos + z))"
proof (induction s arbitrary: pos)
  case (Cons c s)
  show ?case
  proof (cases "digit c \<and> c = 48")
    case True
    then show ?thesis using Cons [of "Suc pos"] by (auto simp: Let_def)
  next
    case False
    then show ?thesis by (auto simp: scan_integer_Some)
  qed
qed simp

lemma read_leading_zeros: "list_all (\<lambda>c. c = 48) zs \<Longrightarrow> read_digits 0 (zs @ ds) = read_digits 0 ds"
  by (induction zs) auto

lemma read_digits_acc: "list_all digit ds \<Longrightarrow> read_digits a ds = a * 10 ^ length ds + read_digits 0 ds"
proof (induction ds arbitrary: a)
  case (Cons d ds)
  then obtain e where e: "d = 48 + e" by (auto simp: digit_def le_iff_add)
  have "read_digits (a * 10 + e) ds = (a * 10 + e) * 10 ^ length ds + read_digits 0 ds"
    "read_digits e ds = e * 10 ^ length ds + read_digits 0 ds"
    using Cons.IH [of "a * 10 + e"] Cons.IH [of e] Cons.prems by simp_all
  moreover have "a * 10 + d - 48 = a * 10 + e" "0 * 10 + d - 48 = e" using e by simp_all
  ultimately have "read_digits a (d # ds) = (a * 10 + e) * 10 ^ length ds + read_digits 0 ds"
    "read_digits 0 (d # ds) = e * 10 ^ length ds + read_digits 0 ds"
    by (simp_all only: read_digits_simps)
  then show ?case by (simp only: list.size power_Suc add_mult_distrib) simp
qed simp

lemma read_digits_lower: "digit d \<Longrightarrow> d \<noteq> 48 \<Longrightarrow> list_all digit ds \<Longrightarrow> 10 ^ length ds \<le> read_digits 0 (d # ds)"
  using read_digits_acc [of ds "d - 48"] by (cases "d - 48") (auto simp: digit_def)

text \<open>At most twelve significant digits means a number below ten to the twelve.\<close>

lemma significant_digits:
  assumes D: "list_all digit D" and z: "z = length (takeWhile (\<lambda>c. c = 48) D)"
  shows "(if z = length D then 0 else length D - z) \<le> 12 \<longleftrightarrow> read_digits 0 D < 10 ^ 12"
    and "read_digits 0 (drop z D) = read_digits 0 D"
proof -
  have split: "takeWhile (\<lambda>c. c = 48) D @ drop z D = D"
    unfolding z by (metis append_take_drop_id takeWhile_eq_take)
  have zeros: "list_all (\<lambda>c. c = 48) (takeWhile (\<lambda>c. c = 48) D)"
    by (auto simp: list_all_iff dest: set_takeWhileD)
  show eq: "read_digits 0 (drop z D) = read_digits 0 D"
    using read_leading_zeros [OF zeros, of "drop z D"] unfolding split by simp
  show "(if z = length D then 0 else length D - z) \<le> 12 \<longleftrightarrow> read_digits 0 D < 10 ^ 12"
  proof (cases "z = length D")
    case True
    then show ?thesis using eq by simp
  next
    case False
    then have "z < length D" using z length_takeWhile_le [of "\<lambda>c. c = 48" D] by simp
    then obtain d ds where d: "drop z D = d # ds" "d = D ! z" "ds = drop (Suc z) D"
      by (metis Cons_nth_drop_Suc)
    have "d \<noteq> 48" using nth_length_takeWhile [of "\<lambda>c. c = 48" D] \<open>z < length D\<close> z d by simp
    have dig: "list_all digit (drop z D)" using D by (rule list_all_drop)
    have len: "length (drop z D) = Suc (length ds)" using d by simp
    have "read_digits 0 (drop z D) < 10 ^ Suc (length ds)" "10 ^ length ds \<le> read_digits 0 (drop z D)"
      using digits_less_power [OF dig] read_digits_lower [of d ds] dig \<open>d \<noteq> 48\<close> d len by auto
    then have bounds: "read_digits 0 D < 10 ^ Suc (length ds)" "10 ^ length ds \<le> read_digits 0 D"
      unfolding eq by simp_all
    have "length ds < 12 \<longleftrightarrow> read_digits 0 D < 10 ^ 12"
    proof
      assume "length ds < 12"
      then have "(10 :: nat) ^ Suc (length ds) \<le> 10 ^ 12" by (intro power_increasing) auto
      with bounds(1) show "read_digits 0 D < 10 ^ 12" by linarith
    next
      assume "read_digits 0 D < 10 ^ 12"
      with bounds(2) have "(10 :: nat) ^ length ds < 10 ^ 12" by linarith
      then show "length ds < 12" by (simp only: power_strict_increasing_iff one_less_numeral_iff semiring_norm)
    qed
    with len False show ?thesis by auto
  qed
qed

section \<open>The fraction\<close>

lemma nth_unread: "drop k s = F \<Longrightarrow> d < length F \<Longrightarrow> s ! (k + d) = F ! d"
  by (metis length_drop less_diff_conv add.commute nth_drop nat_less_le less_imp_le_nat
      less_nat_zero_code linorder_not_less drop_all list.size(3))

lemma digit_offset: "digit c \<longleftrightarrow> (\<exists>e < 10. c = 48 + e)"
  by (auto simp: digit_def intro!: exI [of _ "c - 48"])

lemma read_zero_tail: "list_all digit T \<Longrightarrow> read_digits 0 T = 0 \<longleftrightarrow> list_all (\<lambda>c. c = 48) T"
proof (induction T)
  case (Cons t T)
  then obtain e where e: "t = 48 + e" by (auto simp: digit_offset)
  have "read_digits e T = e * 10 ^ length T + read_digits 0 T"
    by (rule read_digits_acc) (use Cons.prems in simp)
  then show ?case using Cons e by auto
qed simp

text \<open>The fourth digit and what follows decide the rounding.\<close>

lemma fourth_digit:
  fixes x :: nat
  assumes "x < 10" "t < 10 ^ k"
  shows "10 ^ Suc k < 2 * (x * 10 ^ k + t) \<or> (2 * (x * 10 ^ k + t) = 10 ^ Suc k \<and> P)
      \<longleftrightarrow> 5 < x \<or> (x = 5 \<and> (t \<noteq> 0 \<or> P))"
proof -
  define K :: nat where "K = 10 ^ k"
  consider "x < 5" | "x = 5" | "5 < x" by linarith
  then show ?thesis
  proof cases
    case 1
    then have "x * K \<le> 4 * K" by simp
    moreover have "y \<le> 4 * K \<Longrightarrow> t < K \<Longrightarrow> 2 * (y + t) < 10 * K" for y by simp
    ultimately have "2 * (x * K + t) < 10 * K" using assms(2) by (simp only: K_def)
    with 1 show ?thesis by (simp add: K_def [symmetric])
  next
    case 2
    then show ?thesis by (auto simp: K_def [symmetric])
  next
    case 3
    then have "6 * K \<le> x * K" by (intro mult_right_mono) simp_all
    moreover have "6 * K \<le> y \<Longrightarrow> 0 < K \<Longrightarrow> 10 * K < 2 * (y + t)" for y by simp
    moreover have "0 < K" by (simp add: K_def)
    ultimately have "10 * K < 2 * (x * K + t)" by blast
    with 3 show ?thesis by (simp only: K_def power_Suc simp_thms)
  qed
qed

lemma half_even_short:
  assumes "l \<le> 3"
  shows "half_even (1000 * (n * 10 ^ l + r)) (10 ^ l) = n * 1000 + r * 10 ^ (3 - l)"
proof -
  have "(10 :: nat) ^ (3 - l) * 10 ^ l = 10 ^ 3" using assms by (simp only: power_add [symmetric]) simp
  then have k: "(10 :: nat) ^ (3 - l) * 10 ^ l = 1000" by simp
  have "(n * 1000 + r * 10 ^ (3 - l)) * 10 ^ l = n * 1000 * 10 ^ l + r * (10 ^ (3 - l) * 10 ^ l)"
    by (simp only: add_mult_distrib mult.assoc)
  also have "\<dots> = 1000 * (n * 10 ^ l + r)" unfolding k by simp
  finally show ?thesis using half_even_exact [of "10 ^ l" "n * 1000 + r * 10 ^ (3 - l)"] by simp
qed

lemma round_fraction:
  assumes F: "drop fs s = F" "fs \<le> length s" "list_all digit F"
  shows "round_even fs s (n * 1000 + three_fraction_digits fs s)
    = half_even (1000 * (n * 10 ^ length F + read_digits 0 F)) (10 ^ length F)"
proof -
  have len: "length s - fs = length F" using F(1) by auto
  note nth = nth_unread [OF F(1)]
  have short: "length F \<le> 3 \<Longrightarrow> round_even fs s m = m" for m by (simp add: round_even_def len)
  have exact: ?thesis if "length F \<le> 3" "three_fraction_digits fs s = read_digits 0 F * 10 ^ (3 - length F)"
    using that short half_even_short [OF that(1)] by simp
  consider "F = []" | a where "F = [a]" | a b where "F = [a, b]" | a b c where "F = [a, b, c]"
    | a b c x T where "F = a # b # c # x # T"
    by (metis list.exhaust)
  then show ?thesis
  proof cases
    case 1
    then show ?thesis by (intro exact) (simp_all add: three_fraction_digits_def len)
  next
    case 2
    then show ?thesis using nth [of 0]
      by (intro exact) (simp_all add: three_fraction_digits_def len)
  next
    case 3
    then obtain e f where "a = 48 + e" "b = 48 + f" using F(3) by (auto simp: digit_offset)
    with 3 show ?thesis using nth [of 0] nth [of 1]
      by (intro exact) (simp_all add: three_fraction_digits_def len algebra_simps)
  next
    case 4
    then obtain e f g where "a = 48 + e" "b = 48 + f" "c = 48 + g" using F(3) by (auto simp: digit_offset)
    with 4 show ?thesis using nth [of 0] nth [of 1] nth [of 2]
      by (intro exact) (simp_all add: three_fraction_digits_def len algebra_simps)
  next
    case 5
    then obtain e f g h where ef: "a = 48 + e" "b = 48 + f" "c = 48 + g" "x = 48 + h" "h < 10"
      and T: "list_all digit T"
      using F(3) by (auto simp: digit_offset)
    define k t q where "k = length T" and "t = read_digits 0 T" and "q = n * 1000 + (e * 100 + f * 10 + g)"
    have three: "three_fraction_digits fs s = e * 100 + f * 10 + g"
      using 5 ef nth [of 0] nth [of 1] nth [of 2] by (simp add: three_fraction_digits_def len)
    have t: "t < 10 ^ k" using digits_less_power [OF T] by (simp add: t_def k_def)
    have "list_all digit [a, b, c, x]" using F(3) 5 by simp
    have "read_digits 0 F = read_digits (((e * 10 + f) * 10 + g) * 10 + h) T"
      using 5 ef by (simp add: algebra_simps)
    also have "\<dots> = (((e * 10 + f) * 10 + g) * 10 + h) * 10 ^ k + t"
      unfolding k_def t_def by (rule read_digits_acc [OF T])
    finally have "n * 10 ^ length F + read_digits 0 F = q * 10 ^ Suc k + (h * 10 ^ k + t)"
      using 5 by (simp add: q_def k_def algebra_simps)
    then have "half_even (1000 * (n * 10 ^ length F + read_digits 0 F)) (10 ^ length F)
        = half_even (1000 * (q * 10 ^ Suc k + (h * 10 ^ k + t))) (1000 * 10 ^ Suc k)"
      using 5 by (simp add: k_def)
    also have "\<dots> = half_even (q * 10 ^ Suc k + (h * 10 ^ k + t)) (10 ^ Suc k)"
      by (rule half_even_cancel) simp
    also have "\<dots> = (if 5 < h \<or> (h = 5 \<and> (t \<noteq> 0 \<or> odd q)) then q + 1 else q)"
    proof -
      have "h * 10 ^ k \<le> 9 * 10 ^ k" using ef(5) by (intro mult_right_mono) simp_all
      moreover have "y \<le> 9 * K \<Longrightarrow> t < K \<Longrightarrow> y + t < 10 * K" for y K by linarith
      ultimately have "h * 10 ^ k + t < 10 ^ Suc k" using t by (simp only: power_Suc)
      then show ?thesis by (simp only: half_even_split fourth_digit [OF ef(5) t])
    qed
    also have "\<dots> = round_even fs s q"
    proof -
      have "drop (fs + 4) s = T" using F(1) 5 drop_drop [of 4 fs s] by (simp add: add.commute)
      moreover have "t \<noteq> 0 \<longleftrightarrow> list_ex (\<lambda>c. c \<noteq> 48) T"
        using read_zero_tail [OF T] by (auto simp: t_def list_all_iff list_ex_iff)
      ultimately show ?thesis using 5 ef nth [of 3]
        by (auto simp: round_even_def len Let_def odd_iff_mod_2_eq_one)
    qed
    finally show ?thesis by (simp add: three q_def)
  qed
qed

section \<open>The function meets the specification\<close>

definition decimal_result :: "bool \<Rightarrow> jsstring \<Rightarrow> jsstring \<Rightarrow> nat" where
  "decimal_result negative D F = half_even (1000 * read_digits 0 (D @ F)) (10 ^ length F)"

definition decimal_valid :: "jsstring \<Rightarrow> jsstring \<Rightarrow> bool" where
  "decimal_valid D F \<longleftrightarrow> D \<noteq> [] \<and> list_all digit D \<and> list_all digit F"

lemma takeWhile_digits_of:
  assumes "list_all digit D"
  shows "takeWhile digit (D @ (if F = [] then [] else 46 # F)) = D"
proof -
  have "\<not> digit 46" by (simp add: digit_def)
  then show ?thesis using assms by (simp add: takeWhile_append list_all_iff takeWhile_eq_all_conv)
qed

lemma decimal_of_text_steps:
  assumes "(s \<noteq> [] \<and> hd s = 45) \<longleftrightarrow> neg" "start = (if neg then 1 else 0)"
    and "scan_integer start None (drop start s) = (e, f)" "e \<noteq> start" "fraction_start e s = Inr fs"
    and "12 < (case f of None \<Rightarrow> 0 | Some i \<Rightarrow> e - i) \<longleftrightarrow> \<not> A"
    and "(case f of None \<Rightarrow> 0 | Some i \<Rightarrow> read_digits 0 (slice s i e)) = n"
    and "round_even fs s (n * 1000 + three_fraction_digits fs s) = m"
  shows "decimal_of_text s = (if A \<and> m \<le> 999999999999999
     then Inr (Decimal (signed neg m)) else reject SInvalidNumber)"
  unfolding decimal_of_text_def assms(1) Let_def assms(2) [symmetric] assms(3) prod.case assms(5)
    bindE_simps assms(6-8)
  using assms(4) by (simp add: signed_def not_less)

lemma decimal_of_digits:
  assumes v: "decimal_valid D F"
  shows "decimal_of_text (digits_of neg D F) =
    (if read_digits 0 D < 10 ^ 12 \<and> decimal_result neg D F \<le> 999999999999999
     then Inr (Decimal (signed neg (decimal_result neg D F))) else reject SInvalidNumber)"
proof -
  define s where "s = digits_of neg D F"
  define start :: nat where "start = (if neg then 1 else 0)"
  define z where "z = length (takeWhile (\<lambda>c. c = 48) D)"
  have D: "D \<noteq> []" "list_all digit D" and F: "list_all digit F" using v by (auto simp: decimal_valid_def)
  obtain d D' where d: "D = d # D'" "d \<noteq> 45" using D by (cases D) (auto simp: digit_def)
  have neg: "(s \<noteq> [] \<and> hd s = 45) \<longleftrightarrow> neg" using d by (auto simp: s_def digits_of_def)
  have unread: "drop start s = D @ (if F = [] then [] else 46 # F)"
    by (simp add: s_def start_def digits_of_def)
  define e where "e = start + length D"
  have scan: "scan_integer start None (drop start s) = (e, if z = length D then None else Some (start + z))"
    by (rule prod_eqI)
      (simp_all add: unread scan_integer_end scan_integer_first takeWhile_digits_of [OF D(2)] e_def z_def)
  define fs where "fs = (if F = [] then e else e + 1)"
  have len: "length s = fs + length F" by (simp add: fs_def e_def s_def start_def digits_of_def)
  have dropF: "drop fs s = F"
    using arg_cong [OF unread, of "drop (fs - start)"] by (simp add: fs_def e_def)
  have dot: "s ! e = 46" if "F \<noteq> []"
    using nth_unread [OF unread, of "length D"] that by (simp add: e_def nth_append)
  have fstart: "fraction_start e s = Inr fs"
    using len dropF dot F by (auto simp: fraction_start_def fs_def)
  have int: "(case if z = length D then None else Some (start + z) of None \<Rightarrow> 0
      | Some f \<Rightarrow> read_digits 0 (slice s f e)) = read_digits 0 D"
  proof (cases "z = length D")
    case True
    then show ?thesis using significant_digits(2) [OF D(2) z_def] by simp
  next
    case False
    then have "z \<le> length D" using length_takeWhile_le [of "\<lambda>c. c = 48" D] by (simp add: z_def)
    moreover have "drop (start + z) s = drop z (drop start s)" by (simp add: add.commute)
    ultimately have "slice s (start + z) e = drop z D" by (simp add: slice_def unread e_def)
    then show ?thesis using significant_digits(2) [OF D(2) z_def] False by simp
  qed
  have sig: "12 < (case if z = length D then None else Some (start + z) of None \<Rightarrow> 0 | Some f \<Rightarrow> e - f)
      \<longleftrightarrow> \<not> read_digits 0 D < 10 ^ 12"
    using significant_digits(1) [OF D(2) z_def] by (auto simp: e_def)
  have "read_digits 0 (D @ F) = read_digits 0 D * 10 ^ length F + read_digits 0 F"
    unfolding read_digits_append by (rule read_digits_acc [OF F])
  then have mag: "round_even fs s (read_digits 0 D * 1000 + three_fraction_digits fs s) = decimal_result neg D F"
    using round_fraction [OF dropF _ F] len by (simp add: decimal_result_def)
  have "e \<noteq> start" using D by (simp add: e_def)
  from decimal_of_text_steps [OF neg start_def scan this fstart sig int mag] show ?thesis
    by (simp only: s_def)
qed

lemma decimal_of_text_valid:
  assumes "decimal_of_text s = Inr v"
  shows "\<exists>neg D F. s = digits_of neg D F \<and> decimal_valid D F"
proof -
  define neg where "neg = (s \<noteq> [] \<and> hd s = 45)"
  define start :: nat where "start = (if neg then 1 else 0)"
  define D where "D = takeWhile digit (drop start s)"
  obtain e f where scan: "scan_integer start None (drop start s) = (e, f)" by (cases "scan_integer start None (drop start s)")
  then have e: "e = start + length D" using scan_integer_end [of start None "drop start s"] by (simp add: D_def)
  from assms scan obtain fs where ok: "e \<noteq> start" "fraction_start e s = Inr fs"
    by (auto simp: decimal_of_text_def Let_def neg_def [symmetric] start_def [symmetric] bindE_eq_Inr reject_def
        split: if_splits)
  have "D \<noteq> []" "list_all digit D" using ok(1) e by (auto simp: D_def list_all_iff dest: set_takeWhileD)
  have pre: "s = (if neg then [45] else []) @ drop start s"
    by (cases s) (auto simp: neg_def start_def)
  have split: "drop start s = D @ drop e s"
  proof -
    have "drop start s = takeWhile digit (drop start s) @ drop (length (takeWhile digit (drop start s))) (drop start s)"
      by (metis append_take_drop_id takeWhile_eq_take)
    then show ?thesis by (simp add: D_def e add.commute)
  qed
  have "\<exists>F. drop e s = (if F = [] then [] else 46 # F) \<and> list_all digit F"
  proof (cases "e < length s")
    case True
    with ok(2) have "s ! e = 46" "e + 1 \<noteq> length s" "list_all digit (drop (e + 1) s)"
      by (auto simp: fraction_start_def reject_def split: if_splits)
    moreover have "drop e s = s ! e # drop (e + 1) s" using True by (simp add: Cons_nth_drop_Suc)
    ultimately show ?thesis using True by (intro exI [of _ "drop (e + 1) s"]) auto
  next
    case False
    then show ?thesis by (intro exI [of _ "[]"]) simp
  qed
  then obtain F where F: "drop e s = (if F = [] then [] else 46 # F)" "list_all digit F" by blast
  then have "s = digits_of neg D F" using pre split by (simp add: digits_of_def)
  with F(2) \<open>D \<noteq> []\<close> \<open>list_all digit D\<close> show ?thesis by (auto simp: decimal_valid_def)
qed

end
