(* ===== verification/SfRoundtrip.thy ===== *)
theory SfRoundtrip
  imports SfResults SfDecimal
begin

text \<open>
  What \<^verbatim>\<open>parse\<close> and \<^verbatim>\<open>serialize\<close> promise together: a serialized value parses back to
  itself, a parsed value is accepted by the serializer, the output has no character that
  could break out of a header field, and duplicate keys are resolved as RFC 9651 says.
\<close>

section \<open>Canonical text is printable\<close>

lemma printable_numeral [simp]:
  "printable (numeral n) \<longleftrightarrow> 32 \<le> (numeral n :: nat) \<and> numeral n \<le> (126 :: nat)"
  by (simp add: printable_def)

lemma printable_digits: "list_all digit s \<Longrightarrow> list_all printable s"
  by (auto simp: list_all_iff digit_def printable_def)

lemma printable_show [simp]: "list_all printable (show_nat n)" "list_all printable (show_int v)"
  using show_nat_digits [of n] show_nat_digits [of "nat v"] show_nat_digits [of "nat (- v)"]
  by (auto simp: show_int_def printable_def intro: printable_digits)

lemma printable_decimal [simp]: "list_all printable (decimal_text v)"
  using fraction_text_properties(1) [of "nat \<bar>v\<bar> mod 1000"]
  by (auto simp: decimal_text_def Let_def printable_def intro: printable_digits)

lemma printable_key: "valid_key L k \<Longrightarrow> list_all printable k"
  by (cases k) (auto simp: valid_key_def list_all_iff key_first_class_def key_rest_class_def
      lower_alpha_def digit_def printable_def)

lemma printable_token: "token_pattern t \<Longrightarrow> list_all printable t"
  by (cases t) (auto simp: list_all_iff token_first_class_def token_rest_class_def alpha_def
      digit_def printable_def)

lemma printable_escape: "list_all printable s \<Longrightarrow> list_all printable (escape_string s)"
  by (induction s) (auto simp: escape_string_def printable_def)

lemma printable_hexdigit: "v < 16 \<Longrightarrow> printable (hexdigit v)"
  by (auto simp: hexdigit_def printable_def)

lemma printable_percent: "list_all (\<lambda>b. b < 256) bs \<Longrightarrow> list_all printable (percent_text bs)"
proof (induction bs)
  case (Cons b bs)
  have "display_plain b \<Longrightarrow> printable b" by (simp add: display_plain_def printable_def)
  with Cons show ?case by (auto simp: percent_encode_def hex2_def printable_hexdigit)
qed simp

lemma printable_base64: "list_all printable (base64_encode bs)"
proof -
  have "v < 64 \<Longrightarrow> printable (b64_char v)" for v
    using b64_char_class [of v] by (auto simp: alpha_def digit_def printable_def)
  then show ?thesis using b64_sextets_less [OF list_all_unat_u8, of bs]
    by (auto simp: base64_encode_def list_all_iff printable_def)
qed

lemma units_well_formed: "well_formed_utf16 s \<Longrightarrow> list_all (\<lambda>c. c < 65536) s"
  by (induction s rule: well_formed_utf16.induct)
    (auto simp: well_formed_utf16.simps(2) surrogate_defs split: if_splits list.splits)

lemma printable_bare: "valid_bare L b \<Longrightarrow> list_all printable (text_bare b)"
proof (cases b)
  case (DisplayString s)
  moreover assume "valid_bare L b"
  ultimately have "list_all printable (percent_text (utf8_encode s))"
    by (auto intro!: printable_percent utf8_encode_bytes units_well_formed)
  with DisplayString show ?thesis by (simp add: display_text_percent)
qed (auto simp: printable_token printable_escape printable_base64)

lemma printable_parameter_list:
  "list_all (\<lambda>(k, v). valid_key L k \<and> valid_bare L v) ps \<Longrightarrow> list_all printable (text_parameters ps)"
proof (induction ps)
  case (Cons p ps)
  obtain k v where p: "p = (k, v)" by (cases p)
  then have "list_all printable k" "list_all printable (text_bare v)"
    using Cons.prems printable_key [of L k] printable_bare [of L v] by simp_all
  then show ?case using Cons p by (simp add: text_assign_def)
qed simp

lemma printable_parameters: "valid_parameters L ps \<Longrightarrow> list_all printable (text_parameters ps)"
  using printable_parameter_list [of L ps] by (simp add: valid_parameters_def)

lemma printable_item: "valid_item L i \<Longrightarrow> list_all printable (text_item i)"
  using printable_bare [of L "item_bare i"] printable_parameters [of L "item_parameters i"]
  by (simp add: text_item_def valid_item_def)

lemma printable_join:
  "list_all printable sep \<Longrightarrow> list_all (list_all printable) ts \<Longrightarrow> list_all printable (join sep ts)"
  by (induction sep ts rule: join.induct) auto

lemma printable_map:
  "list_all V xs \<Longrightarrow> (\<And>x. V x \<Longrightarrow> list_all printable (t x)) \<Longrightarrow> list_all (list_all printable) (map t xs)"
  by (induction xs) auto

lemma printable_member: "valid_member L m \<Longrightarrow> list_all printable (text_member m)"
proof (cases m)
  case (MInnerList l)
  assume "valid_member L m"
  with MInnerList have "list_all printable (join [32] (map text_item (inner_items l)))"
    "list_all printable (text_parameters (inner_parameters l))"
    using printable_parameters [of L "inner_parameters l"]
    by (auto intro!: printable_join printable_map [of "valid_item L"] printable_item [of L])
  with MInnerList show ?thesis by (simp add: text_inner_list_def)
qed (auto intro: printable_item)

lemma printable_value: "valid_member L m \<Longrightarrow> list_all printable (text_value m)"
  using printable_member [of L m]
  by (cases m) (auto simp: valid_item_def intro: printable_parameters)

lemma printable_field: "valid_field L f \<Longrightarrow> list_all printable (text_field f)"
proof (cases f)
  case (FList ms)
  assume "valid_field L f"
  with FList have "list_all (list_all printable) (map text_member ms)"
    by (auto intro!: printable_map [of "valid_member L"] printable_member [of L])
  then show ?thesis using FList by (auto intro!: printable_join)
next
  case (FDictionary es)
  assume v: "valid_field L f"
  have "list_all printable (text_entry e)" if "e \<in> set es" for e
    using that v FDictionary printable_key [of L "fst e"] printable_value [of L "snd e"]
    by (auto simp: text_entry_def list_all_iff)
  then have "list_all (list_all printable) (map text_entry es)" by (simp add: list_all_iff)
  then show ?thesis using FDictionary by (auto intro!: printable_join)
qed (auto intro: printable_item)

section \<open>The two directions\<close>

lemma parse_units_text:
  assumes v: "valid_field L f" and o: "within L MaxTotalOccurrences (occ_field f)"
    and i: "within L MaxInputBytes (length (text_field f))"
  shows "\<exists>d. parse_units (text_field f) (field_kind f) L = Inr d \<and> tree_of (rdoc_root d) f"
proof -
  let ?p = "new_parser (text_field f) L"
  have p: "rest ?p = text_field f" "position ?p \<le> length (source ?p)" "plimits ?p = L"
    "counted ?p (occ_field f)"
    using o by (simp_all add: rest_def new_parser_def new_budget_def)
  obtain raw q where "field (field_kind f) ?p = Inr (raw, q)" "tree_of raw f"
    using field_reads [of ?p f] p v by auto
  moreover have "non_ascii 0 (text_field f) = None"
    using printable_field [OF v] by (auto simp: non_ascii_None list_all_iff printable_def ascii_def)
  moreover have "within (blimits (new_budget L)) MaxInputBytes (length (text_field f))"
    using i by (simp add: new_budget_def)
  ultimately show ?thesis by (simp add: parse_units_def)
qed

lemma valid_field_units: "valid_field L f \<Longrightarrow> units_field f"
proof -
  have bare: "valid_bare L b \<Longrightarrow> units_bare b" for b by (cases b) (auto intro: units_well_formed)
  then have ps: "valid_parameters L ps \<Longrightarrow> list_all (units_bare \<circ> snd) ps" for ps
    by (auto simp: valid_parameters_def list_all_iff)
  with bare have item: "valid_item L i \<Longrightarrow> units_item i" for i
    by (auto simp: valid_item_def units_item_def)
  with ps have "valid_member L m \<Longrightarrow> units_member m" for m
    by (cases m) (auto simp: list_all_iff)
  with item show "valid_field L f \<Longrightarrow> units_field f"
    by (cases f) (auto simp: list_all_iff)
qed

lemma parse_units_result:
  assumes "parse_units s t L = Inr d"
  shows "valid_field L (semantic (rdoc_root d)) \<and>
    within L MaxTotalOccurrences (occ_field (semantic (rdoc_root d))) \<and>
    field_kind (semantic (rdoc_root d)) = t \<and> rdoc_source d = s \<and> within L MaxInputBytes (length s) \<and>
    list_all ascii s"
proof -
  from assms obtain q where f: "field t (new_parser s L) = Inr (rdoc_root d, q)"
    and s: "rdoc_source d = s" "within L MaxInputBytes (length s)" "list_all ascii s"
    by (auto simp: parse_units_def bindE_eq_Inr non_ascii_None new_budget_def
        split: option.splits)
  have "within L MaxTotalOccurrences (occ q)"
    using field_advances [OF f] by (auto simp: advances_def new_parser_def new_budget_def within_def)
  with field_result [OF f] s show ?thesis
    by (auto simp: new_parser_def new_budget_def elim: within_mono)
qed

lemma parse_cases:
  "parse i t opts = Inr f \<longleftrightarrow> (\<exists>L s d. resolveLimits opts = Inr L \<and>
     (i = InText s \<or> (\<exists>bs. i = InBytes bs \<and> s = map unat bs)) \<and>
     parse_units s t L = Inr d \<and> f = semantic (rdoc_root d))"
  by (cases i) (auto simp: parse_def parseRaw_def bindE_eq_Inr)

lemma resolved_within: "resolveLimits options = Inr L \<Longrightarrow> within L n k \<longleftrightarrow> k \<le> limit_of L n"
  using resolveLimits_safe [of options L] by (auto simp: within_def safe_limits_def intro: le_trans)

lemma unat_printable: "list_all printable s \<Longrightarrow> map unat (map word_of_nat s :: u8 list) = s"
  by (induction s) (auto simp: printable_def unat_of_nat)

text \<open>A signature field of two members, the running example.\<close>

definition sample_field :: field where
  "sample_field = FDictionary
     [(lit ''sig'', MInnerList \<lparr>
         inner_items = [\<lparr>item_bare = SfString (lit ''@path''), item_parameters = []\<rparr>],
         inner_parameters = [(lit ''created'', Integer 1618884473), (lit ''b'', Boolean True)]\<rparr>),
      (lit ''d'', MItem \<lparr>item_bare = Decimal (-1500), item_parameters = []\<rparr>)]"

definition sample_text :: jsstring where
  "sample_text = lit ''sig=('' @ [34] @ lit ''@path'' @ [34] @ lit '');created=1618884473;b, d=-1.5''"

lemmas sample_defs = sample_field_def sample_text_def text_entry_def text_inner_list_def text_item_def
  text_assign_def escape_string_def quoted_def decimal_text_def fraction_text_def
  strip_zeros_def pad_start_def show_int_def show_nat.simps valid_key_def valid_item_def
  valid_parameters_def within_def max_safe_def DEFAULT_LIMITS_def key_first_class_def
  key_rest_class_def lower_alpha_def digit_def printable_def max_sf_integer_def
  fits_output_def occ_item_def units_item_def

lemma text_sample: "text_field sample_field = sample_text"
  by (simp add: sample_defs Let_def)

lemma serialize_sample: "serialize sample_field NoOptions = Inr sample_text"
proof -
  have "units_field sample_field" by (simp add: sample_defs)
  moreover have "valid_field DEFAULT_LIMITS sample_field" by (simp add: sample_defs)
  moreover have "fits_output DEFAULT_LIMITS sample_text (occ_field sample_field)" by (simp add: sample_defs)
  ultimately show ?thesis by (simp add: serialize_iff text_sample)
qed

section \<open>Properties\<close>

lemma serialized_parses:
  assumes "units_field f" "serialize f options = Inr s" "resolveLimits options = Inr L"
    and "length s \<le> maxInputBytes L"
  shows "parse (InText s) (field_kind f) options = Inr f \<and>
    parse (InBytes (map word_of_nat s)) (field_kind f) options = Inr f"
proof -
  have s: "valid_field L f" "s = text_field f" "within L MaxTotalOccurrences (occ_field f)"
    using assms(2,3) serialize_iff [OF assms(1)] by (auto simp: fits_output_def)
  have "within L MaxInputBytes (length (text_field f))"
    using assms(3,4) s(2) by (simp add: resolved_within)
  from parse_units_text [OF s(1,3) this] obtain d where
    d: "parse_units s (field_kind f) L = Inr d" "semantic (rdoc_root d) = f" using s(2) by (auto simp: tree_of_def)
  have "map unat (map word_of_nat s :: u8 list) = s"
    using printable_field [OF s(1)] s(2) by (simp only: unat_printable)
  with d assms(3) show ?thesis by (simp add: parse_def parseRaw_def)
qed

text \<open>C24. A field value the serializer accepts parses back to exactly that value, as text
  and as bytes, under the same options, whatever the resource limits, as long as the
  text is within the input limit.\<close>

theorem serialize_parse:
  assumes "units_field f" "serialize f options = Inr s" "resolveLimits options = Inr L"
    and "length s \<le> maxInputBytes L"
  shows "parse (InText s) (field_kind f) options = Inr f \<and>
    parse (InBytes (map word_of_nat s)) (field_kind f) options = Inr f"
  using assms by (rule serialized_parses)

theorem serialize_parse_witness:
  "parse (InText sample_text) TDictionary NoOptions = Inr sample_field \<and>
   parse (InBytes (map word_of_nat sample_text)) TDictionary NoOptions = Inr sample_field"
proof -
  have "units_field sample_field" "field_kind sample_field = TDictionary"
    "length sample_text \<le> maxInputBytes DEFAULT_LIMITS"
    by (simp_all add: sample_defs)
  with serialize_parse [OF _ serialize_sample, of DEFAULT_LIMITS] show ?thesis by simp
qed

lemma parsed_serializes:
  assumes "parse i t options = Inr f" "resolveLimits options = Inr L"
  shows "valid_field L f \<and> within L MaxTotalOccurrences (occ_field f) \<and> field_kind f = t"
  using assms parse_units_result by (auto simp: parse_cases)

text \<open>C25. Whatever the parser accepts, the serializer accepts under the same options, unless
  the canonical text is too long for the output limit; and re-parsing the canonical text
  gives the same value, so canonicalisation is stable.\<close>

theorem parse_serialize:
  assumes "parse i t options = Inr f" "resolveLimits options = Inr L"
    and "length (text_field f) \<le> maxOutputBytes L" "length (text_field f) \<le> maxInputBytes L"
  shows "serialize f options = Inr (text_field f) \<and> parse (InText (text_field f)) t options = Inr f"
proof -
  have v: "valid_field L f" "within L MaxTotalOccurrences (occ_field f)" "field_kind f = t"
    using parsed_serializes [OF assms(1,2)] by auto
  have u: "units_field f" using v(1) by (rule valid_field_units)
  have "serialize f options = Inr (text_field f)"
    using v assms(2,3) serialize_iff [OF u] by (auto simp: fits_output_def resolved_within)
  with serialized_parses [OF u this assms(2,4)] v(3) show ?thesis by simp
qed

theorem parse_serialize_witness:
  "serialize sample_field NoOptions = Inr sample_text \<and>
   parse (InText sample_text) TDictionary NoOptions = Inr sample_field"
proof -
  have len: "length sample_text \<le> maxInputBytes DEFAULT_LIMITS" "length sample_text \<le> maxOutputBytes DEFAULT_LIMITS"
    and f: "units_field sample_field" "field_kind sample_field = TDictionary"
    by (simp_all add: sample_defs)
  have "parse (InText sample_text) TDictionary NoOptions = Inr sample_field"
    using serialized_parses [OF f(1) serialize_sample, of DEFAULT_LIMITS] len f by simp
  from parse_serialize [OF this, of DEFAULT_LIMITS] len show ?thesis by (simp add: text_sample)
qed

text \<open>A serialized value is printable ASCII (no CR, LF or NUL can reach a header line),
  and no longer than the output limit.\<close>

theorem serialized_text_safe:
  assumes "units_field f" "serialize f options = Inr s" "resolveLimits options = Inr L"
  shows "list_all printable s \<and> length s \<le> maxOutputBytes L"
proof -
  have "valid_field L f" "s = text_field f" "within L MaxOutputBytes (length s)"
    using assms(2,3) serialize_iff [OF assms(1)] by (auto simp: fits_output_def)
  then show ?thesis using printable_field by (auto simp: within_def)
qed

theorem serialized_text_safe_witness:
  "list_all printable sample_text \<and> length sample_text \<le> 1048576"
proof -
  have "units_field sample_field" by (simp add: sample_defs)
  from serialized_text_safe [OF this serialize_sample, of DEFAULT_LIMITS] show ?thesis
    by (simp add: DEFAULT_LIMITS_def)
qed

text \<open>C26. A parsed value respects every limit: the members, inner-list items and parameters
  counted per container, key, token and decoded sizes, the range of numbers, distinct keys
  (\<open>valid_field\<close>), and the total number of occurrences; its kind is the one asked for.\<close>

theorem parse_within_limits:
  assumes "parse i t options = Inr f" "resolveLimits options = Inr L"
  shows "valid_field L f \<and> occ_field f \<le> maxTotalOccurrences L \<and> field_kind f = t"
  using parsed_serializes [OF assms] by (simp add: within_def)

theorem parse_within_limits_witness:
  "valid_field DEFAULT_LIMITS sample_field \<and> occ_field sample_field \<le> 65536 \<and>
   field_kind sample_field = TDictionary"
proof -
  have f: "units_field sample_field" "field_kind sample_field = TDictionary"
    "length sample_text \<le> maxInputBytes DEFAULT_LIMITS"
    by (simp_all add: sample_defs)
  then have "parse (InText sample_text) TDictionary NoOptions = Inr sample_field"
    using serialized_parses [OF f(1) serialize_sample, of DEFAULT_LIMITS] by simp
  from parse_within_limits [OF this, of DEFAULT_LIMITS] show ?thesis by (simp add: DEFAULT_LIMITS_def)
qed

lemma find_map_of_rev: "map_option snd (find (\<lambda>e. fst e = k) es) = map_of es k"
  by (induction es) auto

text \<open>A repeated parameter keeps the position of its first occurrence and takes the value
  of its last, and looking a parameter up finds that value.\<close>

theorem duplicate_parameters:
  "getParameter (sem_parameters raw) k
     = map_option (\<lambda>p. bare_or_true (rp_bare p)) (find (\<lambda>p. rp_key p = k) (rev raw)) \<and>
   map fst (sem_parameters raw) = first_keys [] (map rp_key raw)"
proof -
  have "map_of (map (\<lambda>p. (rp_key p, bare_or_true (rp_bare p))) ps) k
      = map_option (\<lambda>p. bare_or_true (rp_bare p)) (find (\<lambda>p. rp_key p = k) ps)" for ps
    by (induction ps) auto
  from this [of "rev raw"] show ?thesis
    by (simp add: getParameter_map_of sem_parameters_fill map_of_fill keys_fill rev_map comp_def
        split: option.split)
qed

text \<open>\<open>decimalFromString\<close> rounds the exact value of the text to thousandths, ties to
  even, with no intermediate rounding: it returns exactly for an optional minus, digits and
  an optional fraction whose integer part has at most twelve significant digits and whose
  rounded value is in range.\<close>

theorem decimalFromString_half_even:
  "decimalFromString (Some s) options = Inr v \<longleftrightarrow>
     (\<exists>L neg D F. resolveLimits options = Inr L \<and> length s \<le> maxInputBytes L \<and>
        s = digits_of neg D F \<and> decimal_valid D F \<and> read_digits 0 D < 10 ^ 12 \<and>
        decimal_result neg D F \<le> 999999999999999 \<and> v = Decimal (signed neg (decimal_result neg D F)))"
proof -
  have core: "decimal_of_text s = Inr v \<longleftrightarrow> (\<exists>neg D F. s = digits_of neg D F \<and> decimal_valid D F \<and>
      read_digits 0 D < 10 ^ 12 \<and> decimal_result neg D F \<le> 999999999999999 \<and>
      v = Decimal (signed neg (decimal_result neg D F)))"
  proof
    assume a: "decimal_of_text s = Inr v"
    then obtain neg D F where s: "s = digits_of neg D F" "decimal_valid D F"
      using decimal_of_text_valid by blast
    with a show "\<exists>neg D F. s = digits_of neg D F \<and> decimal_valid D F \<and>
      read_digits 0 D < 10 ^ 12 \<and> decimal_result neg D F \<le> 999999999999999 \<and>
      v = Decimal (signed neg (decimal_result neg D F))"
      using decimal_of_digits [OF s(2), of neg] by (auto simp: reject_def split: if_splits)
  next
    assume "\<exists>neg D F. s = digits_of neg D F \<and> decimal_valid D F \<and>
      read_digits 0 D < 10 ^ 12 \<and> decimal_result neg D F \<le> 999999999999999 \<and>
      v = Decimal (signed neg (decimal_result neg D F))"
    then show "decimal_of_text s = Inr v" using decimal_of_digits by auto
  qed
  have "decimalFromString (Some s) options = Inr v \<longleftrightarrow>
      (\<exists>L. resolveLimits options = Inr L \<and> length s \<le> maxInputBytes L \<and> decimal_of_text s = Inr v)"
    by (auto simp: decimalFromString_def bindE_eq_Inr new_budget_def resolved_within)
  then show ?thesis unfolding core by blast
qed

end
