(* ===== verification/CoreLines.thy ===== *)
theory CoreLines
  imports CoreCrypto SfRoundtrip
begin

text \<open>
  The reference reading of a signature base: the lines of the covered components, with values
  free of line breaks, and the line of the signature parameters. The text determines the
  lines, and a line determines its component and its value.
\<close>

section \<open>Validated signature input\<close>

definition inner_of :: "signature_input \<Rightarrow> inner_list" where
  "inner_of i = \<lparr>inner_items = map component_item (sig_components i), inner_parameters = sig_parameters i\<rparr>"

definition identifier_of :: "covered_component \<Rightarrow> jsstring" where
  "identifier_of c = text_item (component_item c)"

lemma validateParameters_Inr:
  "validateParameters ps limits = Inr u \<longleftrightarrow> length ps \<le> maxMetadataParameters limits \<and>
     length ps \<le> max_safe \<and> list_all (rfc8941_bare \<circ> snd) ps"
  by (auto simp: validateParameters_def bindE_eq_Inr)

lemma rfc8941_units: "list_all (rfc8941_bare \<circ> snd) ps \<Longrightarrow> list_all (units_bare \<circ> snd) ps"
proof (induction ps)
  case (Cons p ps)
  then show ?case by (cases "snd p") auto
qed simp

lemma validate_component_Inr:
  "validate_component limits c = Inr x \<Longrightarrow> x = component_item c \<and> units_item x \<and>
     component_name c \<noteq> lit ''@signature-params''"
  by (auto simp: validate_component_def Let_def bindE_eq_Inr validateParameters_Inr component_item_def
      units_item_def rfc8941_units simp del: lit_Cons split: if_splits)

lemma mapE_validate_component:
  "mapE (validate_component limits) cs = Inr xs \<Longrightarrow> xs = map component_item cs \<and> list_all units_item xs"
  by (induction cs arbitrary: xs) (auto simp: bindE_eq_Inr dest: validate_component_Inr)

lemma signatureInnerList_Inr:
  assumes i: "signatureInnerList i limits = Inr inner" and L: "safe_core limits"
  shows "inner = inner_of i \<and> units_member (MInnerList inner) \<and>
    valid_field (structuredFields limits) (FDictionary [(sig_label i, MInnerList inner)])"
proof -
  let ?f = "FDictionary [(sig_label i, MInnerList inner)]" and ?sf = "sf_options (structuredFields limits)"
  from i obtain xs s where xs: "mapE (validate_component limits) (sig_components i) = Inr xs"
    "inner = \<lparr>inner_items = xs, inner_parameters = sig_parameters i\<rparr>"
    and p: "list_all (rfc8941_bare \<circ> snd) (sig_parameters i)" and s: "serialize ?f ?sf = Inr s"
    by (auto simp: signatureInnerList_def bindE_eq_Inr validateParameters_Inr Let_def)
  have u: "units_member (MInnerList inner)"
    using xs p by (auto dest: mapE_validate_component rfc8941_units)
  then have "units_field ?f" by simp
  moreover have "resolveLimits ?sf = Inr (structuredFields limits)"
    using L by (auto simp: safe_core_def resolve_own)
  ultimately have "valid_field (structuredFields limits) ?f" using s by (auto simp: serialize_iff)
  with xs u show ?thesis by (auto simp: inner_of_def dest: mapE_validate_component)
qed

lemma serialize_own:
  assumes "safe_core limits" "units_member m"
  shows "serializeMember m (sf_options (structuredFields limits)) = Inr s \<longleftrightarrow>
    valid_member (structuredFields limits) m \<and>
    fits_output (structuredFields limits) (text_member m) (occ_member m) \<and> s = text_member m"
  using assms by (auto simp: serializeMember_iff safe_core_def resolve_own)

lemma signatureParameters_Inr:
  assumes "signatureParameters i limits = Inr t" "safe_core limits"
  shows "signatureInnerList i limits = Inr (inner_of i) \<and> t = text_inner_list (inner_of i) \<and>
    valid_member (structuredFields limits) (MInnerList (inner_of i)) \<and>
    fits_output (structuredFields limits) t (occ_member (MInnerList (inner_of i)))"
proof -
  from assms(1) obtain inner where inner: "signatureInnerList i limits = Inr inner"
    and t: "serializeMember (MInnerList inner) (sf_options (structuredFields limits)) = Inr t"
    by (auto simp: signatureParameters_def bindE_eq_Inr)
  have v: "inner = inner_of i" "units_member (MInnerList inner)"
    using signatureInnerList_Inr [OF inner assms(2)] by blast+
  from t have "valid_member (structuredFields limits) (MInnerList inner) \<and>
      fits_output (structuredFields limits) (text_member (MInnerList inner)) (occ_member (MInnerList inner)) \<and>
      t = text_member (MInnerList inner)"
    by (simp only: serialize_own [OF assms(2) v(2)])
  with inner v(1) show ?thesis by (simp del: valid_member.simps occ_member.simps)
qed

section \<open>The lines\<close>

definition line_of :: "covered_component \<times> jsstring \<Rightarrow> jsstring" where
  "line_of p = identifier_of (fst p) @ lit '': '' @ snd p"

definition base_lines :: "signature_input \<Rightarrow> jsstring list \<Rightarrow> jsstring" where
  "base_lines i vs = concat (map (\<lambda>p. line_of p @ [10]) (zip (sig_components i) vs)) @
     params_prefix @ text_inner_list (inner_of i)"

lemma component_value_text:
  "component_value U m c limits options = Inr v \<Longrightarrow>
     list_all ascii v \<and> 13 \<notin> set v \<and> 10 \<notin> set v \<and> (\<exists>f. componentFlags c = Inr f)"
  by (auto simp: component_value_def bindE_eq_Inr requireAscii_def split: if_splits)

lemma add_component_Inr:
  assumes L: "safe_core limits" and u: "units_item (component_item c)"
    and a: "add_component U m limits options (seen, n, lines) c = Inr st"
  shows "\<exists>v. component_value U m c limits options = Inr v \<and>
    valid_item (structuredFields limits) (component_item c) \<and> identifier_of c \<notin> set seen \<and>
    n + length (line_of (c, v)) + 1 \<le> maxSignatureBaseBytes limits \<and>
    st = (identifier_of c # seen, n + length (line_of (c, v)) + 1, lines @ [line_of (c, v) @ [10]])"
proof -
  have "serializeMember (MItem (component_item c)) (sf_options (structuredFields limits)) = Inr s \<longleftrightarrow>
      valid_item (structuredFields limits) (component_item c) \<and>
      fits_output (structuredFields limits) (identifier_of c) (occ_item (component_item c)) \<and> s = identifier_of c"
    for s using serialize_own [OF L, of "MItem (component_item c)"] u by (simp add: identifier_of_def)
  with a show ?thesis
    by (auto simp: add_component_def bindE_eq_Inr line_of_def Let_def add_ac split: if_splits)
qed

lemma add_components_Inr:
  assumes L: "safe_core limits"
  shows "foldE (add_component U m limits options) (seen, n, lines) cs = Inr (seen', n', lines') \<Longrightarrow>
    list_all (\<lambda>c. units_item (component_item c)) cs \<Longrightarrow>
    \<exists>vs. list_all2 (\<lambda>c v. component_value U m c limits options = Inr v) cs vs \<and>
      list_all (\<lambda>c. valid_item (structuredFields limits) (component_item c)) cs \<and>
      distinct (map identifier_of cs) \<and> set (map identifier_of cs) \<inter> set seen = {} \<and>
      n' = n + length (concat (map (\<lambda>p. line_of p @ [10]) (zip cs vs))) \<and>
      concat lines' = concat lines @ concat (map (\<lambda>p. line_of p @ [10]) (zip cs vs))"
proof (induction cs arbitrary: seen n lines)
  case (Cons c cs)
  from Cons.prems obtain st where st: "add_component U m limits options (seen, n, lines) c = Inr st"
    and r: "foldE (add_component U m limits options) st cs = Inr (seen', n', lines')"
    by (auto simp: bindE_eq_Inr)
  obtain v where v: "component_value U m c limits options = Inr v"
    "valid_item (structuredFields limits) (component_item c)" "identifier_of c \<notin> set seen"
    "st = (identifier_of c # seen, n + length (line_of (c, v)) + 1, lines @ [line_of (c, v) @ [10]])"
    using add_component_Inr [OF L _ st] Cons.prems(2) by auto
  from Cons.IH [OF r [unfolded v(4)]] Cons.prems(2) obtain vs where
    "list_all2 (\<lambda>c v. component_value U m c limits options = Inr v) cs vs"
    "list_all (\<lambda>c. valid_item (structuredFields limits) (component_item c)) cs"
    "distinct (map identifier_of cs)" "set (map identifier_of cs) \<inter> set (identifier_of c # seen) = {}"
    "n' = n + length (line_of (c, v)) + 1 + length (concat (map (\<lambda>p. line_of p @ [10]) (zip cs vs)))"
    "concat lines' = concat (lines @ [line_of (c, v) @ [10]]) @ concat (map (\<lambda>p. line_of p @ [10]) (zip cs vs))"
    by auto
  with v show ?case by (intro exI [of _ "v # vs"]) auto
qed auto

lemma createSignatureBase_lines:
  assumes "createSignatureBase U m i options = Inr b"
  obtains limits vs where "resolveCoreLimits (option_limits options) = Inr limits" "safe_core limits"
    "list_all2 (\<lambda>c v. component_value U m c limits options = Inr v) (sig_components i) vs"
    "distinct (map identifier_of (sig_components i))"
    "valid_member (structuredFields limits) (MInnerList (inner_of i))"
    "signatureInnerList i limits = Inr (inner_of i)"
    "fits_output (structuredFields limits) (text_inner_list (inner_of i)) (occ_member (MInnerList (inner_of i)))"
    "base_text b = base_lines i vs" "list_all ascii (base_text b)"
    "length (base_text b) \<le> maxSignatureBaseBytes limits"
    "base_bytes b = map word_of_nat (base_text b)"
proof -
  from assms obtain limits params seen n lines where
    l: "resolveCoreLimits (option_limits options) = Inr limits"
    and p: "signatureParameters i limits = Inr params"
    and f: "foldE (add_component U m limits options) ([], 0, []) (sig_components i) = Inr (seen, n, lines)"
    and b: "base_of_lines limits params (seen, n, lines) = Inr b"
    by (auto simp: createSignatureBase_def base_within_def bindE_eq_Inr)
  have L: "safe_core limits" using l by (rule resolve_core_safe)
  note inner = signatureParameters_Inr [OF p L]
  have "units_member (MInnerList (inner_of i))"
    using inner signatureInnerList_Inr [OF _ L] by blast
  then have u: "list_all (\<lambda>c. units_item (component_item c)) (sig_components i)"
    by (simp add: inner_of_def list.pred_map comp_def)
  from add_components_Inr [OF L f this] obtain vs where vs:
    "list_all2 (\<lambda>c v. component_value U m c limits options = Inr v) (sig_components i) vs"
    "distinct (map identifier_of (sig_components i))"
    "n = length (concat (map (\<lambda>p. line_of p @ [10]) (zip (sig_components i) vs)))"
    "concat lines = concat (map (\<lambda>p. line_of p @ [10]) (zip (sig_components i) vs))"
    by auto
  have t: "concat lines @ params_prefix @ params = base_lines i vs"
    using inner vs(4) by (simp add: base_lines_def)
  from b have b': "base_text b = base_lines i vs" "list_all ascii (base_text b)"
    "base_bytes b = map word_of_nat (utf8_encode (base_text b))"
    "n + length params_prefix + length params \<le> maxSignatureBaseBytes limits"
    unfolding base_of_lines_def prod.case t by (auto simp: bindE_eq_Inr requireAscii_def split: if_splits)
  have "utf8_encode s = s" if "list_all ascii s" for s
    using that by (induction s) (auto simp: ascii_def utf8_encode.simps(2))
  moreover have "length (base_text b) \<le> maxSignatureBaseBytes limits"
    using b'(4) vs(3) t [symmetric] vs(4) by (simp add: b'(1))
  ultimately show ?thesis
    using inner by (intro that [OF l L vs(1,2) _ _ _ b'(1,2)]) (auto simp: b'(3) b'(2) simp del: valid_member.simps)
qed

end
