(* ===== verification/CoreInjective.thy ===== *)
theory CoreInjective
  imports CoreLines
begin

text \<open>The text of a signature base determines what it was built from.\<close>

section \<open>Lines\<close>

lemma split_lines:
  "concat (map (\<lambda>l. l @ [10]) ls) @ t = concat (map (\<lambda>l. l @ [10]) ls') @ t' \<Longrightarrow>
   \<forall>l \<in> set ls. 10 \<notin> set l \<Longrightarrow> \<forall>l \<in> set ls'. 10 \<notin> set l \<Longrightarrow> 10 \<notin> set t \<Longrightarrow> 10 \<notin> set t' \<Longrightarrow>
   ls = ls' \<and> t = (t' :: jsstring)"
proof (induction ls arbitrary: ls')
  case Nil
  then show ?case by (cases ls') auto
next
  case (Cons l ls)
  then obtain k ks where ls': "ls' = k # ks" by (cases ls') auto
  have l: "takeWhile (\<lambda>c. c \<noteq> 10) (l @ 10 # u) = l" "dropWhile (\<lambda>c. c \<noteq> 10) (l @ 10 # u) = 10 # u"
    if "10 \<notin> set l" for l u :: jsstring
    using that by (induction l) auto
  from Cons.prems(1) have "l @ 10 # (concat (map (\<lambda>l. l @ [10]) ls) @ t)
      = k @ 10 # (concat (map (\<lambda>l. l @ [10]) ks) @ t')" (is "?a = ?b") by (simp add: ls')
  then have "takeWhile (\<lambda>c. c \<noteq> 10) ?a = takeWhile (\<lambda>c. c \<noteq> 10) ?b"
    "dropWhile (\<lambda>c. c \<noteq> 10) ?a = dropWhile (\<lambda>c. c \<noteq> 10) ?b" by simp_all
  then have "l = k" "concat (map (\<lambda>l. l @ [10]) ls) @ t = concat (map (\<lambda>l. l @ [10]) ks) @ t'"
    using Cons.prems(2,3) by (simp_all add: l ls')
  with Cons.IH [of ks] Cons.prems ls' show ?case by simp
qed

lemma quoted_unique:
  "escape_string s @ 34 # u = escape_string s' @ 34 # u' \<Longrightarrow> s = s' \<and> u = u'"
proof (induction s arbitrary: s')
  case Nil
  then show ?case by (cases s') (auto simp: escape_string_def quoted_def split: if_splits)
next
  case (Cons c s)
  then show ?case
    by (cases s') (auto simp: escape_string_Cons escape_string_def [of "[]"] quoted_def split: if_splits)
qed

section \<open>Identifiers\<close>

text \<open>The component parameters the code accepts.\<close>

fun flag_parameter :: "jsstring \<times> bare_item \<Rightarrow> bool" where
  "flag_parameter (k, v) \<longleftrightarrow> list_all keyRest k \<and> (v = Boolean True \<or> (\<exists>s. v = SfString s))"

lemma apply_flag_parameter: "apply_flag f p = Inr g \<Longrightarrow> flag_parameter p"
  by (cases p) (auto simp: apply_flag_def keyRest_def keyFirst_def lower_alpha_def split: if_splits bare_item.splits)

lemma componentFlags_parameters:
  "componentFlags c = Inr f \<Longrightarrow> list_all flag_parameter (component_parameters c)"
proof -
  have "foldE apply_flag g ps = Inr h \<Longrightarrow> list_all flag_parameter ps" for g h ps
    by (induction ps arbitrary: g) (auto simp: bindE_eq_Inr dest: apply_flag_parameter)
  then show "componentFlags c = Inr f \<Longrightarrow> list_all flag_parameter (component_parameters c)"
    by (auto simp: componentFlags_def bindE_eq_Inr)
qed

lemma key_unique:
  assumes "k @ x = k' @ y" "list_all keyRest k" "list_all keyRest k'" "stops keyRest x" "stops keyRest y"
  shows "k = k' \<and> x = y"
proof -
  have "takeWhile keyRest (k @ x) = k \<and> dropWhile keyRest (k @ x) = x"
    if "list_all keyRest k" "stops keyRest x" for k x
    using that by (cases x) (auto simp: list_all_iff)
  with assms show ?thesis by metis
qed

lemma text_assign_stops:
  "stops keyRest (text_assign v @ text_parameters ps @ 58 # u)"
  by (cases ps) (auto simp: text_assign_def keyRest_def keyFirst_def lower_alpha_def digit_def)

lemma flags_unique:
  "text_parameters ps @ 58 # u = text_parameters qs @ 58 # w \<Longrightarrow> list_all flag_parameter ps \<Longrightarrow>
   list_all flag_parameter qs \<Longrightarrow> ps = qs \<and> u = w"
proof (induction ps arbitrary: qs)
  case Nil
  then show ?case by (cases qs) auto
next
  case (Cons p ps)
  from Cons.prems(1) obtain q qs' where qs: "qs = q # qs'" by (cases qs; cases p) auto
  obtain k v k' v' where pq: "p = (k, v)" "q = (k', v')" by (cases p; cases q)
  have eq: "k @ (text_assign v @ text_parameters ps @ 58 # u) = k' @ (text_assign v' @ text_parameters qs' @ 58 # w)"
    using Cons.prems(1) by (simp add: qs pq)
  have keys: "list_all keyRest k" "list_all keyRest k'" using Cons.prems(2,3) qs pq by simp_all
  note kr = key_unique [OF eq keys text_assign_stops text_assign_stops]
  have k: "k = k'" and r: "text_assign v @ text_parameters ps @ 58 # u = text_assign v' @ text_parameters qs' @ 58 # w"
    using kr by blast+
  have no: "text_parameters xs @ 58 # y \<noteq> 61 # z" "61 # z \<noteq> text_parameters xs @ 58 # y"
    for xs :: parameters and y z by (cases xs; auto)+
  have "flag_parameter (k, v)" "flag_parameter (k', v')" using Cons.prems(2,3) qs pq by simp_all
  then consider (true) "v = Boolean True" "v' = Boolean True" | (string) s s' where "v = SfString s" "v' = SfString s'"
    | (mixed) s where "v = Boolean True" "v' = SfString s" | (mixed') s where "v = SfString s" "v' = Boolean True"
    by auto
  then have "v = v' \<and> text_parameters ps @ 58 # u = text_parameters qs' @ 58 # w"
  proof cases
    case string
    with r have "escape_string s @ 34 # (text_parameters ps @ 58 # u)
        = escape_string s' @ 34 # (text_parameters qs' @ 58 # w)" by (simp add: text_assign_def)
    from quoted_unique [OF this] string show ?thesis by simp
  qed (use r no in \<open>simp_all add: text_assign_def\<close>)
  with Cons.IH [of qs'] Cons.prems(2,3) k qs pq show ?case by auto
qed

lemma line_unique:
  assumes "line_of (c, v) = line_of (c', v')"
    "list_all flag_parameter (component_parameters c)" "list_all flag_parameter (component_parameters c')"
  shows "c = c' \<and> v = v'"
proof -
  have "escape_string (component_name c) @ 34 # (text_parameters (component_parameters c) @ 58 # 32 # v)
      = escape_string (component_name c') @ 34 # (text_parameters (component_parameters c') @ 58 # 32 # v')"
    using assms(1) by (simp add: line_of_def identifier_of_def component_item_def text_item_def)
  then have n: "component_name c = component_name c'"
    and p: "text_parameters (component_parameters c) @ 58 # 32 # v = text_parameters (component_parameters c') @ 58 # 32 # v'"
    by (auto dest: quoted_unique)
  from flags_unique [OF p assms(2,3)] n show ?thesis by simp
qed

section \<open>Signature parameters\<close>

text \<open>Values valid under some limits are valid when only the safe integers bound them, so
  that texts written under different limits can be compared.\<close>

definition widest :: limits where
  "widest = \<lparr>maxInputBytes = max_safe, maxOutputBytes = max_safe, maxMembers = max_safe,
     maxInnerListItems = max_safe, maxParameters = max_safe, maxKeyLength = max_safe,
     maxTokenLength = max_safe, maxDecodedBytes = max_safe, maxTotalOccurrences = max_safe\<rparr>"

lemma within_widest: "within L n k \<Longrightarrow> within widest n k"
  by (cases n) (simp_all add: within_def widest_def)

lemma valid_widest:
  shows valid_bare_widest: "valid_bare L b \<Longrightarrow> valid_bare widest b"
    and valid_parameters_widest: "valid_parameters L ps \<Longrightarrow> valid_parameters widest ps"
    and valid_item_widest: "valid_item L i \<Longrightarrow> valid_item widest i"
    and valid_member_widest: "valid_member L m \<Longrightarrow> valid_member widest m"
proof -
  show bare: "valid_bare L b \<Longrightarrow> valid_bare widest b" for b
    by (cases b) (auto dest: within_widest)
  show ps: "valid_parameters L ps \<Longrightarrow> valid_parameters widest ps" for ps
    by (auto simp: valid_parameters_def list_all_iff valid_key_def dest: within_widest intro: bare)
  show item: "valid_item L i \<Longrightarrow> valid_item widest i" for i
    by (auto simp: valid_item_def intro: bare ps)
  show "valid_member L m \<Longrightarrow> valid_member widest m"
    by (cases m) (auto simp: list_all_iff dest: within_widest intro: item ps)
qed

lemma text_member_unique:
  assumes "text_member m = text_member m'" "valid_member L m" "valid_member L' m'"
    "within L MaxTotalOccurrences (occ_member m)" "within L' MaxTotalOccurrences (occ_member m')"
  shows "m = m'"
proof -
  define p where "p = new_parser (text_member m) widest"
  have p: "rest p = text_member m @ []" "plimits p = widest" "occurrences (pbudget p) = 0"
    by (simp_all add: p_def rest_def new_parser_def new_budget_def)
  have "\<exists>raw. member p = Inr (raw, past (text_member m) (occ_member m) p) \<and> read_member raw = m"
    using member_reads [OF p(1)] valid_member_widest [OF assms(2)] within_widest [OF assms(4)] p(2,3) by simp
  moreover have "\<exists>raw. member p = Inr (raw, past (text_member m') (occ_member m') p) \<and> read_member raw = m'"
    using member_reads [OF p(1) [unfolded assms(1)]] valid_member_widest [OF assms(3)]
      within_widest [OF assms(5)] p(2,3) by simp
  ultimately show ?thesis by auto
qed

lemma inner_of_inj: "inner_of i = inner_of j \<Longrightarrow> sig_components i = sig_components j \<and> sig_parameters i = sig_parameters j"
proof -
  have "inj component_item" by (rule injI) (auto simp: component_item_def intro: covered_component.equality)
  then show "inner_of i = inner_of j \<Longrightarrow> sig_components i = sig_components j \<and> sig_parameters i = sig_parameters j"
    by (auto simp: inner_of_def dest: map_injective)
qed

end
