(* ===== verification/CoreHeaders.thy ===== *)
theory CoreHeaders
  imports CoreInjective
begin

text \<open>
  The header values written by \<open>signHttpMessage\<close> read back: a serialized field value is left
  alone by the normalisation of header values, and the pair of signature headers parses to
  the signature input and the signature bytes.
\<close>

section \<open>The last character of a canonical text\<close>

definition solid :: "jsstring \<Rightarrow> bool" where
  "solid t \<longleftrightarrow> t \<noteq> [] \<and> hd t \<noteq> 32 \<and> last t \<noteq> 32 \<and> list_all printable t"

definition closed_text :: "jsstring \<Rightarrow> bool" where
  "closed_text t \<longleftrightarrow> t \<noteq> [] \<and> last t \<noteq> 32"

lemma closed_text_append: "closed_text t \<Longrightarrow> u = [] \<or> closed_text u \<Longrightarrow> closed_text (s @ t @ u)"
  by (auto simp: closed_text_def)

lemma closed_text_all: "list_all P t \<Longrightarrow> \<not> P 32 \<Longrightarrow> t \<noteq> [] \<Longrightarrow> closed_text t"
  by (metis closed_text_def last_in_set list_all_iff)

lemma closed_digits: "closed_text (show_nat n)"
  by (rule closed_text_all [of digit]) (use show_nat_digits [of n] show_nat_first [of n] in \<open>auto simp: digit_def\<close>)

lemma closed_bare: "valid_bare L b \<Longrightarrow> closed_text (text_bare b)"
proof (cases b)
  case (Decimal v)
  have "closed_text (fraction_text (nat \<bar>v\<bar> mod 1000))"
    by (rule closed_text_all [of digit]) (use fraction_text_properties [of "nat \<bar>v\<bar> mod 1000"] in \<open>auto simp: digit_def\<close>)
  with Decimal show ?thesis
    using closed_text_append [of _ "[]" "(if v < 0 then [45] else []) @ show_nat (nat \<bar>v\<bar> div 1000) @ [46]"]
    by (simp add: decimal_text_def Let_def)
next
  case (Token t)
  moreover assume "valid_bare L b"
  ultimately have "token_pattern t" by simp
  then have "list_all (\<lambda>c. token_rest_class c \<or> token_first_class c) t" "t \<noteq> []"
    by (cases t; auto simp: list_all_iff)+
  then have "closed_text t"
    by (intro closed_text_all [of "\<lambda>c. token_rest_class c \<or> token_first_class c"]) (simp_all add: token_rest_class_def token_first_class_def alpha_def digit_def)
  with Token show ?thesis by simp
next
  case (Integer v)
  then show ?thesis using closed_digits closed_text_append [of _ "[]" "[45]"] by (auto simp: show_int_def)
next
  case (Date v)
  then show ?thesis using closed_digits closed_text_append [of _ "[]" "[64]"] closed_text_append [of _ "[]" "[64, 45]"]
    by (auto simp: show_int_def)
qed (auto simp: closed_text_def)

lemma closed_key: "valid_key L k \<Longrightarrow> closed_text k"
  by (rule closed_text_all [of "\<lambda>c. key_first_class c \<or> key_rest_class c"])
    (cases k; auto simp: valid_key_def list_all_iff key_first_class_def key_rest_class_def lower_alpha_def digit_def)+

lemma closed_parameters: "valid_parameters L ps \<Longrightarrow> text_parameters ps = [] \<or> closed_text (text_parameters ps)"
proof -
  have "list_all (\<lambda>(k, v). valid_key L k \<and> valid_bare L v) ps \<Longrightarrow> text_parameters ps = [] \<or> closed_text (text_parameters ps)"
  proof (induction ps)
    case (Cons p ps)
    obtain k v where p: "p = (k, v)" by (cases p)
    have "text_assign v = [] \<or> closed_text (text_assign v)" "closed_text k"
      using Cons.prems p closed_bare [of L v] closed_key closed_text_append [of _ "[]" "[61]"]
      by (auto simp: text_assign_def)
    then have "closed_text (k @ text_assign v)" using closed_text_append [of k "text_assign v" "[]"] closed_text_append [of _ "[]" k] by auto
    with Cons p show ?case using closed_text_append [of "k @ text_assign v" "text_parameters ps" "[59]"] by simp
  qed simp
  then show "valid_parameters L ps \<Longrightarrow> ?thesis" by (simp add: valid_parameters_def)
qed

lemma solid_entry:
  assumes "valid_field L (FDictionary [(k, m)])"
  shows "solid (text_field (FDictionary [(k, m)]))"
proof -
  have v: "valid_key L k" "valid_member L m" using assms by simp_all
  have "text_value m = [] \<or> closed_text (text_value m)"
  proof (cases m)
    case (MItem i)
    then have "valid_bare L (item_bare i)" "valid_parameters L (item_parameters i)"
      using v(2) by (simp_all add: valid_item_def)
    then show ?thesis
      using MItem closed_text_append [OF closed_bare closed_parameters, of L _ L _ "[61]"] closed_parameters
      by (auto simp: text_item_def)
  next
    case (MInnerList l)
    then show ?thesis
      using v(2) closed_text_append [of "[41]" "text_parameters (inner_parameters l)" "[61, 40] @ join [32] (map text_item (inner_items l))"]
        closed_parameters [of L "inner_parameters l"]
      by (simp add: text_inner_list_def closed_text_def)
  qed
  then have "closed_text (k @ text_value m)"
    using closed_key [OF v(1)] closed_text_append [of k "text_value m" "[]"] by auto
  moreover have "hd (k @ text_value m) \<noteq> 32"
    using v(1) by (cases k) (auto simp: valid_key_def key_first_class_def lower_alpha_def)
  ultimately show ?thesis
    using printable_field [OF assms] by (simp add: solid_def closed_text_def text_entry_def)
qed

lemma normalizeValue_solid: "solid t \<Longrightarrow> normalizeValue (TextValue t) None = Inr t"
proof -
  assume t: "solid t"
  have "\<not> list_ex control t" using t
    by (auto simp: solid_def list_all_iff list_ex_iff control_def printable_def)
  moreover have "dropWhile ows s = s" if "s \<noteq> []" "hd s \<noteq> 32" "list_all printable s" for s
    using that by (cases s) (auto simp: ows_def printable_def)
  then have "trim_ows t = t"
    using t by (simp add: trim_ows_def solid_def hd_rev)
  ultimately show ?thesis by (simp add: normalizeValue_def)
qed

lemma solid_ascii: "solid t \<Longrightarrow> list_all ascii t"
  by (auto simp: solid_def list_all_iff ascii_def printable_def)

section \<open>The pair of headers\<close>

definition patch_headers :: "signature_patch \<Rightarrow> header_fields" where
  "patch_headers p = [(lit ''Signature-Input'', TextValue (patch_input p)), (lit ''Signature'', TextValue (patch_signature p))]"

lemma fieldValues_patch:
  assumes "solid (patch_input p)" "solid (patch_signature p)"
  shows "fieldValues (patch_headers p) (lit ''signature-input'') None = Inr [patch_input p]"
    "fieldValues (patch_headers p) (lit ''signature'') None = Inr [patch_signature p]"
  using assms by (simp_all add: fieldValues_def patch_headers_def lowercase_def to_lower_def normalizeValue_solid)

lemma core_limit_safe: "safe_core limits \<Longrightarrow> core_limit_of limits n \<le> max_safe"
  by (simp add: safe_core_def)

lemma checkLimit_ok: "safe_core limits \<Longrightarrow> k \<le> core_limit_of limits n \<Longrightarrow> checkLimit limits n k = Inr ()"
  using core_limit_safe [of limits n] by simp

lemma validate_header_text:
  assumes "isFieldName name" "list_all ascii t" "safe_core limits"
    and "used + length name + length t + 4 \<le> maxMessageHeaderBytes limits"
  shows "validate_header limits used (name, TextValue t) = Inr (used + length name + length t + 4)"
  using assms checkLimit_ok [of limits "used + length name + length t + 4" MessageHeaderBytes]
  by (simp add: validate_header_def del: checkLimit_Inr)

lemma validateHeaders_patch:
  assumes "solid (patch_input p)" "solid (patch_signature p)" "safe_core limits"
    and "length (patch_input p) + length (patch_signature p) + 32 \<le> maxMessageHeaderBytes limits"
  shows "validateHeaders (patch_headers p) limits = Inr (length (patch_input p) + length (patch_signature p) + 32)"
proof -
  define names where "names = (lit ''Signature-Input'', lit ''Signature'')"
  have n: "isFieldName (fst names)" "isFieldName (snd names)" "length (fst names) = 15" "length (snd names) = 9"
    by (simp_all add: names_def isFieldName_def field_name_char_def alpha_def digit_def)
  have "patch_headers p = [(fst names, TextValue (patch_input p)), (snd names, TextValue (patch_signature p))]"
    by (simp add: patch_headers_def names_def)
  then show ?thesis
    using validate_header_text [OF n(1) solid_ascii [OF assms(1)] assms(3), of 0]
      validate_header_text [OF n(2) solid_ascii [OF assms(2)] assms(3), of "length (patch_input p) + 19"] assms(4)
    by (simp add: validateHeaders_def n(3,4) add_ac)
qed

section \<open>Parsing the pair\<close>

text \<open>A serialized one-member dictionary, read back raw and as a value.\<close>

lemma parse_entry:
  assumes s: "serialize (FDictionary [(k, m)]) (sf_options L) = Inr t" and u: "units_member m"
    and L: "safe_limits L" and len: "length t \<le> maxInputBytes L"
  shows "\<exists>d. parseRaw (InText t) TDictionary (sf_options L) = Inr d \<and>
    map rde_key (raw_entries (rdoc_root d)) = [k] \<and>
    parse (InText t) TDictionary (sf_options L) = Inr (FDictionary [(k, m)]) \<and> solid t"
proof -
  let ?f = "FDictionary [(k, m)]"
  have r: "resolveLimits (sf_options L) = Inr L" using L by (rule resolve_own)
  have uf: "units_field ?f" using u by simp
  have v: "valid_field L ?f" "within L MaxTotalOccurrences (occ_field ?f)" "t = text_field ?f"
    using s unfolding serialize_iff [OF uf] r by (auto simp: fits_output_def)
  moreover have "within L MaxInputBytes (length (text_field ?f))"
    using len v(3) by (simp add: resolved_within [OF r])
  ultimately obtain d where d: "parse_units t TDictionary L = Inr d" "tree_of (rdoc_root d) ?f"
    using parse_units_text [of L ?f] by auto
  have "map rde_key (raw_entries (rdoc_root d)) = [k]"
    using d(2) by (cases "rdoc_root d") (auto simp: tree_of_def raw_pairs_def)
  then show ?thesis
    using d solid_entry [OF v(1)] v(3) r by (auto simp: parse_def parseRaw_def tree_of_def)
qed

lemma check_labels_single:
  "map rde_key (raw_entries (rdoc_root d)) = [k] \<Longrightarrow> safe_core limits \<Longrightarrow> 1 \<le> maxSignatures limits \<Longrightarrow>
   check_labels limits d = Inr ()"
  using checkLimit_ok [of limits 1 Signatures] by (auto simp: check_labels_def simp del: checkLimit_Inr)

lemma component_of_items: "mapE component_of_item (map component_item cs) = Inr cs"
  by (induction cs) (simp_all add: component_item_def)

lemma pair_patch:
  assumes "signatureInnerList i limits = Inr (inner_of i)" "safe_core limits"
  shows "pair_signature limits [(sig_label i, MItem \<lparr>item_bare = Bytes bs, item_parameters = []\<rparr>)]
    (sig_label i, MInnerList (inner_of i)) = Inr \<lparr>signature_of_input = i, signature_bytes = bs\<rparr>"
proof -
  have "validateParameters [] limits = Inr ()"
    by (simp add: validateParameters_Inr)
  moreover have j: "\<lparr>sig_label = sig_label i, sig_components = sig_components i, sig_parameters = sig_parameters i\<rparr> = i"
    by (cases i) simp
  ultimately show ?thesis
    using assms by (simp add: pair_signature_def inner_of_def [symmetric])
      (simp add: inner_of_def component_of_items Let_def j)
qed

lemma parse_patch:
  assumes p: "signed_headers limits (sig_label i) (inner_of i) bs = Inr p"
    and i: "signatureInnerList i limits = Inr (inner_of i)"
    and l: "resolveCoreLimits overrides = Inr limits"
    and n: "1 \<le> maxSignatures limits"
      "length (patch_input p) + length (patch_signature p) + 32 \<le> maxMessageHeaderBytes limits"
      "length (patch_input p) \<le> maxInputBytes (structuredFields limits)"
      "length (patch_signature p) \<le> maxInputBytes (structuredFields limits)"
  shows "parseSignatureHeaders (patch_headers p) overrides = Inr [\<lparr>signature_of_input = i, signature_bytes = bs\<rparr>]"
proof -
  let ?S = "MItem \<lparr>item_bare = Bytes bs, item_parameters = []\<rparr>" and ?sf = "sf_options (structuredFields limits)"
  have L: "safe_core limits" using l by (rule resolve_core_safe)
  then have sf: "safe_limits (structuredFields limits)" by (simp add: safe_core_def)
  from p have s: "serialize (FDictionary [(sig_label i, MInnerList (inner_of i))]) ?sf = Inr (patch_input p)"
    "serialize (FDictionary [(sig_label i, ?S)]) ?sf = Inr (patch_signature p)"
    and len: "length (patch_input p) + length (patch_signature p) \<le> maxSignatureHeaderBytes limits"
    by (auto simp: signed_headers_def bindE_eq_Inr Let_def)
  have u: "units_member (MInnerList (inner_of i))" using signatureInnerList_Inr [OF i L] by blast
  have uS: "units_member ?S" by (simp add: units_item_def)
  obtain d where d: "parseRaw (InText (patch_input p)) TDictionary ?sf = Inr d"
    "map rde_key (raw_entries (rdoc_root d)) = [sig_label i]"
    "parse (InText (patch_input p)) TDictionary ?sf = Inr (FDictionary [(sig_label i, MInnerList (inner_of i))])"
    "solid (patch_input p)"
    using parse_entry [OF s(1) u sf n(3)] by (elim exE conjE)
  obtain e where e: "parseRaw (InText (patch_signature p)) TDictionary ?sf = Inr e"
    "map rde_key (raw_entries (rdoc_root e)) = [sig_label i]"
    "parse (InText (patch_signature p)) TDictionary ?sf = Inr (FDictionary [(sig_label i, ?S)])"
    "solid (patch_signature p)"
    using parse_entry [OF s(2) uS sf n(4)] by (elim exE conjE)
  have "pair_signatures limits (patch_input p) (patch_signature p) = Inr [\<lparr>signature_of_input = i, signature_bytes = bs\<rparr>]"
    using d e check_labels_single [OF d(2) L n(1)] check_labels_single [OF e(2) L n(1)] pair_patch [OF i L]
    by (simp add: pair_signatures_def Let_def)
  moreover have "bindE (combineValues [t] limits SignatureHeaderBytes) requireAscii = Inr t"
    if "solid t" "length t \<le> maxSignatureHeaderBytes limits" for t
    using that checkLimit_ok [OF L, of "length t" SignatureHeaderBytes]
    by (simp add: combineValues_def requireAscii_def solid_ascii del: checkLimit_Inr)
  moreover have "checkLimit limits SignatureHeaderBytes (length (patch_input p) + length (patch_signature p)) = Inr ()"
    using len by (intro checkLimit_ok [OF L]) simp
  ultimately show ?thesis
    using len d(4) e(4) l fieldValues_patch [OF d(4) e(4)] validateHeaders_patch [OF d(4) e(4) L n(2)]
    by (simp add: parseSignatureHeaders_def del: lit_Cons checkLimit_Inr)
qed

end
