(* ===== verification/CoreSample.thy ===== *)
theory CoreSample
  imports CoreHeaders
begin

text \<open>
  A request signed with the default limits, the running example of the core: the lemmas
  evaluate its signature input, its components, its base and its headers.
\<close>

definition sample_platform :: platform where
  "sample_platform = \<lparr>valid_authority = \<lambda>_ _. True, search_params = \<lambda>_. [], form_value = \<lambda>s. s\<rparr>"

definition sample_message :: "jsstring \<Rightarrow> http_message" where
  "sample_message date = RequestMessage \<lparr>request_method = lit ''GET'', targetUri = lit ''https://a.b/c?d'',
     rawRequestTarget = None, request_headers = [(lit ''Date'', TextValue date)], request_version = None\<rparr>"

definition path_component :: covered_component where
  "path_component = \<lparr>component_name = lit ''@path'', component_parameters = []\<rparr>"

definition date_component :: covered_component where
  "date_component = \<lparr>component_name = lit ''date'', component_parameters = []\<rparr>"

definition sample_components :: "covered_component list" where
  "sample_components = [path_component, date_component]"

definition sample_input :: signature_input where
  "sample_input = \<lparr>sig_label = lit ''sig'', sig_components = sample_components,
     sig_parameters = [(lit ''created'', Integer 7), (lit ''alg'', SfString (lit ''ed25519''))]\<rparr>"

definition default_options :: canonical_options where
  "default_options = \<lparr>option_limits = NoOptions, structuredFieldTypes = []\<rparr>"

definition params_text :: jsstring where
  "params_text = lit ''('' @ [34] @ lit ''@path'' @ [34, 32, 34] @ lit ''date'' @ [34]
     @ lit '');created=7;alg='' @ [34] @ lit ''ed25519'' @ [34]"

abbreviation sample_limits :: core_limits where
  "sample_limits \<equiv> DEFAULT_CORE_LIMITS"

lemma safe_sample: "safe_core sample_limits"
  using resolve_core_default by (rule resolve_core_safe)

lemma own_sample: "resolveLimits (sf_options (structuredFields sample_limits)) = Inr (structuredFields sample_limits)"
  using safe_sample by (simp add: safe_core_def resolve_own)

lemma checkLimit_sample:
  "k \<le> (case n of Signatures \<Rightarrow> 1024 | ComponentsPerSignature \<Rightarrow> 256 | MetadataParameters \<Rightarrow> 256 | _ \<Rightarrow> 16384) \<Longrightarrow>
   checkLimit sample_limits n k = Inr ()"
  by (rule checkLimit_ok [OF safe_sample]) (cases n; simp add: DEFAULT_CORE_LIMITS_def)

lemmas core_sample = DEFAULT_CORE_LIMITS_def CORE_SF_LIMITS_def max_safe_def max_sf_integer_def within_def
  fits_output_def valid_item_def valid_parameters_def valid_key_def key_first_class_def key_rest_class_def
  lower_alpha_def digit_def printable_def occ_item_def text_item_def text_inner_list_def text_assign_def
  text_entry_def escape_string_def quoted_def show_int_def show_nat.simps inner_of_def component_item_def
  sample_input_def sample_components_def path_component_def date_component_def

lemma validateParameters_sample:
  "length ps \<le> 256 \<Longrightarrow> list_all (rfc8941_bare \<circ> snd) ps \<Longrightarrow> validateParameters ps sample_limits = Inr ()"
  by (simp add: validateParameters_Inr DEFAULT_CORE_LIMITS_def max_safe_def)

lemma components_sample:
  "mapE (validate_component sample_limits) sample_components = Inr (map component_item sample_components)"
  by (simp add: sample_components_def path_component_def date_component_def validate_component_def validateParameters_sample Let_def lowercase_def
      to_lower_def is_derived_def isFieldName_def field_name_char_def alpha_def digit_def lower_alpha_def)

lemma units_sample: "units_member (MInnerList (inner_of sample_input))"
  by (simp add: core_sample units_item_def)

lemma valid_sample: "valid_member (structuredFields sample_limits) (MInnerList (inner_of sample_input))"
  by (simp add: core_sample)

lemma text_inner_sample: "text_inner_list (inner_of sample_input) = params_text"
  by (simp add: core_sample params_text_def)

lemma serialize_inner_sample:
  "serialize (FDictionary [(sig_label sample_input, MInnerList (inner_of sample_input))])
     (sf_options (structuredFields sample_limits)) = Inr (lit ''sig='' @ params_text)"
proof -
  have "valid_key (structuredFields sample_limits) (sig_label sample_input)" by (simp add: core_sample)
  moreover have "fits_output (structuredFields sample_limits) (lit ''sig='' @ params_text) (occ_member (MInnerList (inner_of sample_input)))"
    by (simp add: core_sample params_text_def)
  moreover have "within (structuredFields sample_limits) MaxMembers 1" by (simp add: core_sample)
  moreover have "text_entry (sig_label sample_input, MInnerList (inner_of sample_input)) = lit ''sig='' @ params_text"
    by (simp add: text_entry_def text_inner_sample) (simp add: sample_input_def)
  ultimately show ?thesis
    using units_sample valid_sample
    by (simp add: serialize_iff own_sample del: lit_Cons valid_member.simps occ_member.simps units_member.simps)
qed

lemma inner_sample: "signatureInnerList sample_input sample_limits = Inr (inner_of sample_input)"
proof -
  have "checkLimit sample_limits ComponentsPerSignature (length (sig_components sample_input)) = Inr ()"
    "validateParameters (sig_parameters sample_input) sample_limits = Inr ()"
    "list_all metadata_kind (sig_parameters sample_input)"
    by (simp_all add: checkLimit_sample validateParameters_sample sample_input_def sample_components_def del: checkLimit_Inr)
  then show ?thesis
    using components_sample serialize_inner_sample
    by (simp add: signatureInnerList_def inner_of_def Let_def del: lit_Cons checkLimit_Inr)
      (simp add: sample_input_def)
qed

lemma parameters_sample: "signatureParameters sample_input sample_limits = Inr params_text"
proof -
  have "fits_output (structuredFields sample_limits) params_text (occ_member (MInnerList (inner_of sample_input)))"
    by (simp add: core_sample params_text_def)
  then have "serializeMember (MInnerList (inner_of sample_input)) (sf_options (structuredFields sample_limits)) = Inr params_text"
    using valid_sample by (simp add: serialize_own [OF safe_sample units_sample] text_inner_sample
        del: valid_member.simps occ_member.simps)
  then show ?thesis by (simp add: signatureParameters_def inner_sample)
qed

lemma path_sample:
  "component_value sample_platform (sample_message date) path_component sample_limits default_options = Inr (lit ''/c'')"
proof -
  have "targetParts sample_platform (lit ''https://a.b/c?d'') sample_limits = Inr \<lparr>
      target_original = lit ''https://a.b/c?d'', target_scheme = lit ''https'', target_authority = lit ''a.b'',
      target_path = lit ''/c'', target_query = lit ''?d''\<rparr>"
    by (simp add: targetParts_def checkLimit_sample split_target_def scheme_char_def uri_char_def alpha_def digit_def
        host_port_def split_port_def normalized_authority_def lowercase_def to_lower_def sample_platform_def Let_def
        del: checkLimit_Inr)
  then show ?thesis
    by (simp add: path_component_def component_value_def componentFlags_def no_flags_def is_derived_def
        sample_message_def derived_value_def requestComponent_def target_component_def requireAscii_def ascii_def)
qed

lemma date_sample:
  assumes "solid date" "length date \<le> 16384"
  shows "component_value sample_platform (sample_message date) date_component sample_limits default_options = Inr date"
proof -
  have "fieldValues [(lit ''Date'', TextValue date)] (lit ''date'') None = Inr [date]"
    using assms by (simp add: fieldValues_def lowercase_def to_lower_def normalizeValue_solid)
  moreover have "combineValues [date] sample_limits MessageHeaderBytes = Inr date" "requireAscii date = Inr date"
    using assms by (simp_all add: combineValues_def Let_def checkLimit_sample requireAscii_def solid_ascii del: checkLimit_Inr)
  moreover have "13 \<notin> set date" "10 \<notin> set date"
    using assms(1) by (auto simp: solid_def list_all_iff printable_def)
  ultimately show ?thesis
    by (simp add: date_component_def component_value_def componentFlags_def no_flags_def is_derived_def
        sample_message_def field_value_def headerComponent_def)
qed

text \<open>The whole base, for any value of the date header.\<close>

definition date_lines :: "jsstring \<Rightarrow> jsstring" where
  "date_lines date = [34] @ lit ''@path'' @ [34] @ lit '': /c'' @ [10, 34] @ lit ''date'' @ [34, 58, 32] @ date @ [10]"

lemma lines_sample:
  assumes "solid date" "length date \<le> 10000"
  shows "foldE (add_component sample_platform (sample_message date) sample_limits default_options) ([], 0, [])
    sample_components = Inr ([identifier_of date_component, identifier_of path_component],
      length (date_lines date), [line_of (path_component, lit ''/c'') @ [10], line_of (date_component, date) @ [10]]) \<and>
    line_of (path_component, lit ''/c'') @ [10] @ line_of (date_component, date) @ [10] = date_lines date"
proof -
  have ids: "identifier_of path_component = [34] @ lit ''@path'' @ [34]"
    "identifier_of date_component = [34] @ lit ''date'' @ [34]"
    by (simp_all add: identifier_of_def core_sample)
  have "serializeMember (MItem (component_item c)) (sf_options (structuredFields sample_limits)) = Inr (identifier_of c)"
    if "c \<in> set sample_components" for c
  proof -
    have "units_member (MItem (component_item c))" "valid_member (structuredFields sample_limits) (MItem (component_item c))"
      "fits_output (structuredFields sample_limits) (text_item (component_item c)) (occ_item (component_item c))"
      using that by (auto simp: core_sample units_item_def)
    then show ?thesis by (simp add: serialize_own [OF safe_sample] identifier_of_def)
  qed
  then have m: "serializeMember (MItem (component_item path_component)) (sf_options (structuredFields sample_limits)) = Inr (identifier_of path_component)"
    "serializeMember (MItem (component_item date_component)) (sf_options (structuredFields sample_limits)) = Inr (identifier_of date_component)"
    by (simp_all add: sample_components_def)
  have "component_value sample_platform (sample_message date) date_component sample_limits default_options = Inr date"
    using assms by (intro date_sample) auto
  with assms(2) m path_sample show ?thesis
    by (simp add: sample_components_def add_component_def ids checkLimit_sample line_of_def date_lines_def Let_def
        del: checkLimit_Inr)
qed

lemma base_sample:
  assumes "solid date" "length date \<le> 10000"
  shows "createSignatureBase sample_platform (sample_message date) sample_input default_options =
    Inr \<lparr>base_text = date_lines date @ params_prefix @ params_text,
      base_bytes = map word_of_nat (date_lines date @ params_prefix @ params_text)\<rparr>"
proof -
  define t where "t = date_lines date @ params_prefix @ params_text"
  have a: "list_all ascii t" using solid_ascii [OF assms(1)]
    by (simp add: t_def date_lines_def params_prefix_def params_text_def ascii_def)
  have "utf8_encode s = s" if "list_all ascii s" for s
    using that by (induction s) (auto simp: ascii_def utf8_encode.simps(2))
  then have u: "utf8_encode t = t" using a by blast
  have len: "length (date_lines date) = length date + 21" "length params_prefix = 21" "length params_text = 40"
    by (simp_all add: date_lines_def params_prefix_def params_text_def)
  have "4 + length date + 4 \<le> maxMessageHeaderBytes sample_limits" "isFieldName (lit ''Date'')"
    using assms(2) by (simp_all add: DEFAULT_CORE_LIMITS_def isFieldName_def field_name_char_def alpha_def)
  then have "validate_header sample_limits 0 (lit ''Date'', TextValue date) = Inr (length date + 8)"
    using validate_header_text [of "lit ''Date''" date sample_limits 0] solid_ascii [OF assms(1)] safe_sample by simp
  then have "validateHeaders [(lit ''Date'', TextValue date)] sample_limits = Inr (length date + 8)"
    by (simp add: validateHeaders_def)
  moreover have "checkLimit sample_limits SignatureBaseBytes (length (date_lines date) + length params_prefix + length params_text) = Inr ()"
    using assms(2) len by (intro checkLimit_sample) simp
  moreover have "concat [line_of (path_component, lit ''/c'') @ [10], line_of (date_component, date) @ [10]]
      @ params_prefix @ params_text = t" using lines_sample [OF assms] by (simp add: t_def)
  moreover have "sig_components sample_input = sample_components" by (simp add: sample_input_def)
  ultimately show ?thesis
    using lines_sample [OF assms] parameters_sample a u resolve_core_default
    by (simp add: createSignatureBase_def base_within_def base_of_lines_def requireAscii_def default_options_def
        sample_message_def t_def [symmetric] del: checkLimit_Inr lit_Cons concat.simps append.simps append_assoc list_all_append)
qed

end
