(* ===== verification/CoreSafety.thy ===== *)
theory CoreSafety
  imports CoreSample
begin

text \<open>
  What the core promises: the structure of a signature base, that its bytes determine the
  covered components and their values, that a signed message verifies from its headers, and
  what an accepted signature says about the message.
\<close>

section \<open>The base\<close>

text \<open>C39. A signature base consists of one line for each covered component, in order, with the
  component's identifier and its value, which has no line break, then the line of the
  signature parameters; no component is covered twice, the text is ASCII and within the
  limit, and the bytes are those of the text.\<close>

theorem signature_base_structure:
  assumes "createSignatureBase U message i options = Inr base"
  shows "\<exists>limits vs. resolveCoreLimits (option_limits options) = Inr limits \<and>
    list_all2 (\<lambda>c v. component_value U message c limits options = Inr v) (sig_components i) vs \<and>
    base_text base = base_lines i vs \<and> (\<forall>v \<in> set vs. 10 \<notin> set v \<and> 13 \<notin> set v) \<and>
    distinct (sig_components i) \<and> list_all ascii (base_text base) \<and>
    length (base_text base) \<le> maxSignatureBaseBytes limits \<and> base_bytes base = map word_of_nat (base_text base)"
proof -
  obtain limits vs where
    b: "resolveCoreLimits (option_limits options) = Inr limits" "safe_core limits"
    "list_all2 (\<lambda>c v. component_value U message c limits options = Inr v) (sig_components i) vs"
    "distinct (map identifier_of (sig_components i))"
    "valid_member (structuredFields limits) (MInnerList (inner_of i))"
    "signatureInnerList i limits = Inr (inner_of i)"
    "fits_output (structuredFields limits) (text_inner_list (inner_of i)) (occ_member (MInnerList (inner_of i)))"
    "base_text base = base_lines i vs" "list_all ascii (base_text base)"
    "length (base_text base) \<le> maxSignatureBaseBytes limits" "base_bytes base = map word_of_nat (base_text base)"
    by (rule createSignatureBase_lines [OF assms])
  have "\<forall>v \<in> set vs. 10 \<notin> set v \<and> 13 \<notin> set v"
    using b(3) component_value_text by (fastforce simp: list_all2_conv_all_nth in_set_conv_nth)
  moreover have "distinct (sig_components i)" using b(4) by (simp add: distinct_map)
  ultimately show ?thesis using b(1,3,8-11) by blast
qed

lemma solid_now: "solid (lit ''now'')" "length (lit ''now'') \<le> 10000"
  by (simp_all add: solid_def printable_def)

theorem signature_base_structure_witness:
  "\<exists>limits vs. resolveCoreLimits NoOptions = Inr limits \<and>
    list_all2 (\<lambda>c v. component_value sample_platform (sample_message (lit ''now'')) c limits default_options = Inr v)
      sample_components vs \<and>
    date_lines (lit ''now'') @ params_prefix @ params_text = base_lines sample_input vs"
  using signature_base_structure [OF base_sample [OF solid_now]]
  by (auto simp: default_options_def sample_input_def simp del: lit_Cons)

lemma base_values:
  assumes "createSignatureBase U m i options = Inr b"
  obtains limits vs where "resolveCoreLimits (option_limits options) = Inr limits"
    "list_all2 (\<lambda>c v. component_value U m c limits options = Inr v) (sig_components i) vs"
    "base_text b = base_lines i vs" "base_bytes b = map word_of_nat (base_text b)" "list_all ascii (base_text b)"
    "\<forall>p \<in> set (zip (sig_components i) vs). list_all flag_parameter (component_parameters (fst p)) \<and> 10 \<notin> set (line_of p)"
    "10 \<notin> set (params_prefix @ text_inner_list (inner_of i))"
    "valid_member (structuredFields limits) (MInnerList (inner_of i))"
    "within (structuredFields limits) MaxTotalOccurrences (occ_member (MInnerList (inner_of i)))"
proof -
  obtain limits vs where
    b: "resolveCoreLimits (option_limits options) = Inr limits" "safe_core limits"
    "list_all2 (\<lambda>c v. component_value U m c limits options = Inr v) (sig_components i) vs"
    "distinct (map identifier_of (sig_components i))"
    "valid_member (structuredFields limits) (MInnerList (inner_of i))"
    "signatureInnerList i limits = Inr (inner_of i)"
    "fits_output (structuredFields limits) (text_inner_list (inner_of i)) (occ_member (MInnerList (inner_of i)))"
    "base_text b = base_lines i vs" "list_all ascii (base_text b)"
    "length (base_text b) \<le> maxSignatureBaseBytes limits" "base_bytes b = map word_of_nat (base_text b)"
    by (rule createSignatureBase_lines [OF assms])
  have nl: "list_all printable t \<Longrightarrow> 10 \<notin> set t" for t by (auto simp: list_all_iff printable_def)
  have valid: "list_all (valid_item (structuredFields limits)) (map component_item (sig_components i))"
    using b(5) by (simp add: inner_of_def)
  have "list_all flag_parameter (component_parameters c) \<and> 10 \<notin> set (line_of (c, v))"
    if "(c, v) \<in> set (zip (sig_components i) vs)" for c v
  proof -
    have v: "component_value U m c limits options = Inr v"
      using that b(3) by (auto simp: list_all2_iff)
    have "c \<in> set (sig_components i)" using that by (rule set_zip_leftD)
    then have "valid_item (structuredFields limits) (component_item c)"
      using valid by (simp add: list_all_iff)
    then have "10 \<notin> set (identifier_of c)"
      unfolding identifier_of_def by (intro nl printable_item)
    then show ?thesis
      using component_value_text [OF v] componentFlags_parameters by (auto simp: line_of_def)
  qed
  then have "\<forall>p \<in> set (zip (sig_components i) vs). list_all flag_parameter (component_parameters (fst p)) \<and> 10 \<notin> set (line_of p)"
    by auto
  moreover have "10 \<notin> set (params_prefix @ text_inner_list (inner_of i))"
    using nl [OF printable_member [OF b(5)]] by (simp add: params_prefix_def)
  ultimately show ?thesis
    using b(7) that [OF b(1,3,8,11,9) _ _ b(5)] by (simp add: fits_output_def)
qed

lemma same_text:
  assumes "createSignatureBase U m i options = Inr b" "createSignatureBase U' m' i' options' = Inr b'"
    and "base_text b = base_text b'"
  shows "sig_components i = sig_components i' \<and> sig_parameters i = sig_parameters i' \<and>
    (\<exists>limits limits'. resolveCoreLimits (option_limits options) = Inr limits \<and>
       resolveCoreLimits (option_limits options') = Inr limits' \<and>
       (\<forall>c \<in> set (sig_components i). \<exists>v. component_value U m c limits options = Inr v \<and>
          component_value U' m' c limits' options' = Inr v))"
proof -
  obtain limits vs where l: "resolveCoreLimits (option_limits options) = Inr limits"
    "list_all2 (\<lambda>c v. component_value U m c limits options = Inr v) (sig_components i) vs"
    "base_text b = base_lines i vs"
    "\<forall>p \<in> set (zip (sig_components i) vs). list_all flag_parameter (component_parameters (fst p)) \<and> 10 \<notin> set (line_of p)"
    "10 \<notin> set (params_prefix @ text_inner_list (inner_of i))"
    "valid_member (structuredFields limits) (MInnerList (inner_of i))"
    "within (structuredFields limits) MaxTotalOccurrences (occ_member (MInnerList (inner_of i)))"
    by (rule base_values [OF assms(1)])
  obtain limits' vs' where r: "resolveCoreLimits (option_limits options') = Inr limits'"
    "list_all2 (\<lambda>c v. component_value U' m' c limits' options' = Inr v) (sig_components i') vs'"
    "base_text b' = base_lines i' vs'"
    "\<forall>p \<in> set (zip (sig_components i') vs'). list_all flag_parameter (component_parameters (fst p)) \<and> 10 \<notin> set (line_of p)"
    "10 \<notin> set (params_prefix @ text_inner_list (inner_of i'))"
    "valid_member (structuredFields limits') (MInnerList (inner_of i'))"
    "within (structuredFields limits') MaxTotalOccurrences (occ_member (MInnerList (inner_of i')))"
    by (rule base_values [OF assms(2)])
  let ?ps = "zip (sig_components i) vs" and ?ps' = "zip (sig_components i') vs'"
  have "concat (map (\<lambda>l. l @ [10]) (map line_of ?ps)) @ params_prefix @ text_inner_list (inner_of i)
      = concat (map (\<lambda>l. l @ [10]) (map line_of ?ps')) @ params_prefix @ text_inner_list (inner_of i')"
    using assms(3) l(3) r(3) by (simp add: base_lines_def comp_def)
  then have sp: "map line_of ?ps = map line_of ?ps' \<and>
      params_prefix @ text_inner_list (inner_of i) = params_prefix @ text_inner_list (inner_of i')"
    by (rule split_lines) (use l(4,5) r(4,5) in auto)
  then have lines: "map line_of ?ps = map line_of ?ps'"
    and inner: "text_inner_list (inner_of i) = text_inner_list (inner_of i')" by simp_all
  have "MInnerList (inner_of i) = MInnerList (inner_of i')"
    by (rule text_member_unique [OF _ l(6) r(6) l(7) r(7)]) (simp add: inner)
  then have same: "sig_components i = sig_components i'" "sig_parameters i = sig_parameters i'"
    using inner_of_inj [of i i'] by simp_all
  have "?ps = ?ps'"
  proof (rule map_inj_on [OF lines], rule inj_onI)
    fix p q assume "p \<in> set ?ps \<union> set ?ps'" "q \<in> set ?ps \<union> set ?ps'" "line_of p = line_of q"
    moreover from this l(4) r(4) have "list_all flag_parameter (component_parameters (fst p))"
      "list_all flag_parameter (component_parameters (fst q))" by blast+
    ultimately show "p = q" using line_unique [of "fst p" "snd p" "fst q" "snd q"] by (auto intro: prod_eqI)
  qed
  then have "vs = vs'"
    using l(2) r(2) same(1) by (metis list_all2_lengthD map_snd_zip)
  have "\<exists>v. component_value U m c limits options = Inr v \<and> component_value U' m' c limits' options' = Inr v"
    if c: "c \<in> set (sig_components i)" for c
  proof -
    obtain n where n: "n < length (sig_components i)" "c = sig_components i ! n"
      using c by (auto simp: in_set_conv_nth)
    then show ?thesis
      using list_all2_nthD [OF l(2) n(1)] list_all2_nthD [OF r(2), of n] \<open>vs = vs'\<close> same(1) by auto
  qed
  with l(1) r(1) same show ?thesis by blast
qed

lemma same_bytes:
  assumes "createSignatureBase U m i options = Inr b" "createSignatureBase U' m' i' options' = Inr b'"
    and "base_bytes b = base_bytes b'"
  shows "base_text b = base_text b'"
proof -
  have t: "base_bytes c = map word_of_nat (base_text c) \<and> list_all ascii (base_text c)"
    if "createSignatureBase W x y z = Inr c" for W x y z c
    by (rule base_values [OF that]) blast
  have "map unat (map word_of_nat s :: u8 list) = s" if "list_all ascii s" for s
    using that by (induction s) (auto simp: ascii_def unat_of_nat)
  with t [OF assms(1)] t [OF assms(2)] assms(3) show ?thesis by metis
qed

text \<open>C10. Two signature bases with the same bytes were built, under any limits and from any
  messages, for the same covered components and the same signature parameters, and every
  covered component had the same value in both messages: a signature over one base cannot
  be read as covering anything else.\<close>

theorem signature_base_injective:
  assumes "createSignatureBase U m i options = Inr b" "createSignatureBase U' m' i' options' = Inr b'"
    and "base_bytes b = base_bytes b'"
  shows "sig_components i = sig_components i' \<and> sig_parameters i = sig_parameters i' \<and>
    (\<exists>limits limits'. resolveCoreLimits (option_limits options) = Inr limits \<and>
       resolveCoreLimits (option_limits options') = Inr limits' \<and>
       (\<forall>c \<in> set (sig_components i). \<exists>v. component_value U m c limits options = Inr v \<and>
          component_value U' m' c limits' options' = Inr v))"
  using assms(1,2) same_bytes [OF assms] by (rule same_text)

theorem signature_base_injective_witness:
  "\<exists>limits limits'. resolveCoreLimits (option_limits default_options) = Inr limits \<and>
     resolveCoreLimits (option_limits default_options) = Inr limits' \<and>
     (\<forall>c \<in> set (sig_components sample_input). \<exists>v.
        component_value sample_platform (sample_message (lit ''now'')) c limits default_options = Inr v \<and>
        component_value sample_platform (sample_message (lit ''now'')) c limits' default_options = Inr v)"
  using signature_base_injective [OF base_sample [OF solid_now] base_sample [OF solid_now] refl] by blast

section \<open>Verification\<close>

text \<open>An accepted signature: the key, the algorithm, the length and the bytes verified.\<close>

lemma verify_valid:
  "verifyHttpSignatureCryptography U verify_bytes m s pk options = Inr (SignatureValid j) \<longleftrightarrow>
     (\<exists>k base. requireKey pk PublicKey = Inr k \<and> requireAlgorithm (signature_of_input s) = Inr () \<and>
        length (signature_bytes s) = 64 \<and> createSignatureBase U m (signature_of_input s) options = Inr base \<and>
        verify_bytes k (base_bytes base) (signature_bytes s) \<and> j = signature_of_input s)"
proof -
  have inner: "\<exists>limits. resolveCoreLimits (option_limits options) = Inr limits \<and>
      signatureInnerList (signature_of_input s) limits = Inr (inner_of (signature_of_input s))"
    if "createSignatureBase U m (signature_of_input s) options = Inr base" for base
    by (rule createSignatureBase_lines [OF that]) blast
  have r: "rejected_of v = Inr (SignatureValid j) \<longleftrightarrow> v = Inr (SignatureValid j)" for v
    by (auto simp: rejected_of_def split: sum.splits option.splits)
  show ?thesis (is "?L \<longleftrightarrow> ?R")
  proof
    assume ?L
    then show ?R by (auto simp: verifyHttpSignatureCryptography_def verify_checks_def bindE_eq_Inr r split: if_splits)
  next
    assume ?R
    then obtain k base where b: "requireKey pk PublicKey = Inr k" "requireAlgorithm (signature_of_input s) = Inr ()"
      "length (signature_bytes s) = 64" "createSignatureBase U m (signature_of_input s) options = Inr base"
      "verify_bytes k (base_bytes base) (signature_bytes s)" "j = signature_of_input s" by blast
    from inner [OF b(4)] obtain limits where "resolveCoreLimits (option_limits options) = Inr limits"
      "signatureInnerList (signature_of_input s) limits = Inr (inner_of (signature_of_input s))" by blast
    with b show ?L by (simp add: verifyHttpSignatureCryptography_def verify_checks_def rejected_of_def)
  qed
qed

text \<open>A platform whose signatures are the first 64 bytes of the message.\<close>

definition sample_sign :: "unit \<Rightarrow> u8 list \<Rightarrow> u8 list" where
  "sample_sign k bytes = take 64 (bytes @ replicate 64 0)"

lemma length_sample_sign: "length (sample_sign k bytes) = 64"
  by (simp add: sample_sign_def)

lemma algorithm_sample: "requireAlgorithm sample_input = Inr ()"
  by (simp add: requireAlgorithm_def sample_input_def)

lemma signed_verifies:
  assumes sign: "signHttpMessage U sign_bytes m i (KeyObject PrivateKey (Some (lit ''ed25519'')) k) options = Inr p"
    and l: "resolveCoreLimits (option_limits options) = Inr limits"
    and n: "1 \<le> maxSignatures limits"
      "length (patch_input p) + length (patch_signature p) + 32 \<le> maxMessageHeaderBytes limits"
      "length (patch_input p) \<le> maxInputBytes (structuredFields limits)"
      "length (patch_signature p) \<le> maxInputBytes (structuredFields limits)"
    and v: "\<forall>bytes. verify_bytes pk bytes (sign_bytes k bytes) \<and> length (sign_bytes k bytes) = 64"
  shows "\<exists>s. parseSignatureHeaders (patch_headers p) (option_limits options) = Inr [s] \<and>
    verifyHttpSignatureCryptography U verify_bytes m s (KeyObject PublicKey (Some (lit ''ed25519'')) pk) options
      = Inr (SignatureValid i)"
proof -
  from sign l obtain inner base where b: "signatureInnerList i limits = Inr inner" "requireAlgorithm i = Inr ()"
    "createSignatureBase U m i options = Inr base"
    "signed_headers limits (sig_label i) inner (sign_bytes k (base_bytes base)) = Inr p"
    by (auto simp: signHttpMessage_def bindE_eq_Inr)
  have inner: "inner = inner_of i"
    using signatureInnerList_Inr [OF b(1) resolve_core_safe [OF l]] by blast
  define s where "s = \<lparr>signature_of_input = i, signature_bytes = sign_bytes k (base_bytes base)\<rparr>"
  have s: "signature_of_input s = i" "signature_bytes s = sign_bytes k (base_bytes base)" by (simp_all add: s_def)
  have "parseSignatureHeaders (patch_headers p) (option_limits options) = Inr [s]"
    unfolding s_def by (rule parse_patch [OF b(4) [unfolded inner] b(1) [unfolded inner] l n])
  moreover have "verifyHttpSignatureCryptography U verify_bytes m s (KeyObject PublicKey (Some (lit ''ed25519'')) pk) options
      = Inr (SignatureValid i)"
    unfolding verify_valid s using b(2,3) v by auto
  ultimately show ?thesis by blast
qed

text \<open>C11. The two header values produced by signing a message, put on a message, are parsed back to
  the signature that was made and the signature input that was signed, and verification of
  the message with the matching public key accepts them. This supposes a platform whose signatures
  have 64 bytes and verify, and limits under which the two values can be read, which signing does not
  check: at least one signature is allowed, each value is within \<open>maxInputBytes\<close>, and both with the 32
  characters of their names and separators are within \<open>maxMessageHeaderBytes\<close>. With the default
  limits signing writes up to 16384 characters of values where reading admits 16352.\<close>

theorem signed_message_verifies:
  assumes "signHttpMessage U sign_bytes m i (KeyObject PrivateKey (Some (lit ''ed25519'')) k) options = Inr p"
    and "resolveCoreLimits (option_limits options) = Inr limits" and "1 \<le> maxSignatures limits"
    and "length (patch_input p) + length (patch_signature p) + 32 \<le> maxMessageHeaderBytes limits"
    and "length (patch_input p) \<le> maxInputBytes (structuredFields limits)"
    and "length (patch_signature p) \<le> maxInputBytes (structuredFields limits)"
    and "\<forall>bytes. verify_bytes pk bytes (sign_bytes k bytes) \<and> length (sign_bytes k bytes) = 64"
  shows "\<exists>s. parseSignatureHeaders (patch_headers p) (option_limits options) = Inr [s] \<and>
    verifyHttpSignatureCryptography U verify_bytes m s (KeyObject PublicKey (Some (lit ''ed25519'')) pk) options
      = Inr (SignatureValid i)"
  using assms by (rule signed_verifies)

lemma sign_sample:
  "\<exists>p. signHttpMessage sample_platform sample_sign (sample_message (lit ''now'')) sample_input
      (KeyObject PrivateKey (Some (lit ''ed25519'')) ()) default_options = Inr p \<and>
    length (patch_input p) = 44 \<and> length (patch_signature p) = 94"
proof -
  define base where "base = \<lparr>base_text = date_lines (lit ''now'') @ params_prefix @ params_text,
    base_bytes = map word_of_nat (date_lines (lit ''now'') @ params_prefix @ params_text)\<rparr>"
  define bs where "bs = sample_sign () (base_bytes base)"
  define S where "S = MItem \<lparr>item_bare = Bytes bs, item_parameters = []\<rparr>"
  have bs: "length bs = 64" by (simp add: bs_def length_sample_sign)
  have t: "text_field (FDictionary [(lit ''sig'', S)]) = lit ''sig=:'' @ base64_encode bs @ [58]"
    by (simp add: text_entry_def S_def text_item_def)
  have len: "length (base64_encode bs) = 88" using bs by (simp add: length_base64_encode)
  have "serialize (FDictionary [(lit ''sig'', S)]) (sf_options (structuredFields sample_limits))
      = Inr (lit ''sig=:'' @ base64_encode bs @ [58])"
  proof -
    have "units_field (FDictionary [(lit ''sig'', S)])" by (simp add: S_def units_item_def)
    moreover have "valid_field (structuredFields sample_limits) (FDictionary [(lit ''sig'', S)])"
      by (simp add: S_def core_sample bs)
    moreover have "fits_output (structuredFields sample_limits) (lit ''sig=:'' @ base64_encode bs @ [58])
        (occ_field (FDictionary [(lit ''sig'', S)]))"
      by (simp add: S_def core_sample len)
    ultimately show ?thesis by (simp add: serialize_iff own_sample t del: valid_field.simps occ_field.simps units_field.simps text_field.simps lit_Cons)
  qed
  moreover have "sig_label sample_input = lit ''sig''" by (simp add: sample_input_def)
  moreover have "checkLimit sample_limits SignatureHeaderBytes (length (lit ''sig='' @ params_text) + length (lit ''sig=:'' @ base64_encode bs @ [58])) = Inr ()"
    by (rule checkLimit_sample) (simp add: params_text_def len)
  ultimately have "signed_headers sample_limits (sig_label sample_input) (inner_of sample_input) bs
      = Inr \<lparr>patch_label = lit ''sig'', patch_input = lit ''sig='' @ params_text, patch_signature = lit ''sig=:'' @ base64_encode bs @ [58]\<rparr>"
    using serialize_inner_sample by (simp add: signed_headers_def S_def Let_def del: lit_Cons checkLimit_Inr)
  moreover have "createSignatureBase sample_platform (sample_message (lit ''now'')) sample_input default_options = Inr base"
    unfolding base_def by (rule base_sample [OF solid_now])
  ultimately have "signHttpMessage sample_platform sample_sign (sample_message (lit ''now'')) sample_input
      (KeyObject PrivateKey (Some (lit ''ed25519'')) ()) default_options
      = Inr \<lparr>patch_label = lit ''sig'', patch_input = lit ''sig='' @ params_text, patch_signature = lit ''sig=:'' @ base64_encode bs @ [58]\<rparr>"
    using algorithm_sample inner_sample resolve_core_default
    by (simp add: signHttpMessage_def default_options_def bs_def del: lit_Cons)
  then show ?thesis by (simp add: params_text_def len)
qed

theorem signed_message_verifies_witness:
  "\<exists>p s. signHttpMessage sample_platform sample_sign (sample_message (lit ''now'')) sample_input
      (KeyObject PrivateKey (Some (lit ''ed25519'')) ()) default_options = Inr p \<and>
    parseSignatureHeaders (patch_headers p) NoOptions = Inr [s] \<and>
    verifyHttpSignatureCryptography sample_platform (\<lambda>k bytes signature. signature = sample_sign k bytes)
      (sample_message (lit ''now'')) s (KeyObject PublicKey (Some (lit ''ed25519'')) ()) default_options
      = Inr (SignatureValid sample_input)"
proof -
  obtain p where p: "signHttpMessage sample_platform sample_sign (sample_message (lit ''now'')) sample_input
      (KeyObject PrivateKey (Some (lit ''ed25519'')) ()) default_options = Inr p"
    "length (patch_input p) = 44" "length (patch_signature p) = 94" using sign_sample by blast
  have o: "option_limits default_options = NoOptions" by (simp add: default_options_def)
  have n: "1 \<le> maxSignatures sample_limits"
    "length (patch_input p) + length (patch_signature p) + 32 \<le> maxMessageHeaderBytes sample_limits"
    "length (patch_input p) \<le> maxInputBytes (structuredFields sample_limits)"
    "length (patch_signature p) \<le> maxInputBytes (structuredFields sample_limits)"
    by (simp_all add: p(2,3) DEFAULT_CORE_LIMITS_def CORE_SF_LIMITS_def)
  show ?thesis
    using signed_message_verifies [OF p(1) _ n, where verify_bytes = "\<lambda>k bytes signature. signature = sample_sign k bytes"
        and pk = "()"] p(1) length_sample_sign resolve_core_default
    by (auto simp: o simp del: lit_Cons)
qed

end
