(* ===== verification/ProfileDefaults.thy ===== *)
theory ProfileDefaults
  imports SfTypes Codecs
begin

text \<open>
  The result catalogue \<^verbatim>\<open>profiles/codes.ts\<close> and the configuration defaults
  \<^verbatim>\<open>profiles/defaults.ts\<close> with their one resolver, and the nonce predicate \<^verbatim>\<open>nonce.ts\<close>.
\<close>

section \<open>Codes\<close>

datatype unsigned_code = NoSignature | NoWebBotAuthCandidate

datatype verified_code = NonceConsumed | NonceAbsentOptional

datatype invalid_code =
    MalformedSignature | MalformedAgent | AmbiguousSignatures | AmbiguousProfile
  | AgentLabelMismatch | AgentBindingMismatch | MissingRequiredParameter | InvalidParameter
  | InvalidTimeRange | CreatedInFuture | SignatureExpired | SignatureTooOld
  | LifetimeExceeded | InsufficientCoverage | KeyIdMismatch | AlgorithmMismatch
  | SignatureMismatch | NonceRequired | NonceInvalid | ReplayDetected

datatype unverified_code =
    UnsupportedProfile | UnsupportedAlgorithm | UnsupportedDiscoveryType | ProfileDisallowed
  | UnknownKey | AgentBindingMissing | ResourceLimit | ReplayStoreUnavailable
  | UnverifiedQuotaExceeded | ClockUnavailable | TestKeyDisallowed

datatype configuration_code =
    InvalidJwks | InvalidKeyConfiguration | InvalidAgentBinding | InvalidTimePolicy
  | InvalidReplayPolicy | InvalidResourceLimits | InvalidClockConfiguration
  | InvalidCandidatePolicy

datatype store_outcome = Accepted | Replayed | Unavailable | PerKeyQuotaExceeded

text \<open>\<open>ProfileRejection\<close>: the pairs of status and reason, carried by \<open>CandidateRejection\<close>.\<close>

datatype profile_rejection = Invalid invalid_code | Unverified unverified_code

section \<open>Options objects\<close>

text \<open>
  The value of an own property of an options object: a data property holding a JavaScript
  value, or an accessor. \<open>resolveNumericOptions\<close> works on objects as lists of properties in
  their order, as \<open>Reflect.ownKeys\<close> lists them; the result is the copy of the defaults with the
  overrides assigned.
\<close>

datatype js_property = DataProperty js_number | Accessor

fun override_value :: "jsstring list \<Rightarrow> jsstring \<Rightarrow> js_property \<Rightarrow> nat option" where
  "override_value zeroAllowed k (DataProperty (JsInt v)) =
     (if \<not> is_safe_integer v \<or> v < 0 \<or> (v = 0 \<and> k \<notin> set zeroAllowed) then None else Some (nat v))"
| "override_value zeroAllowed k _ = None"

definition apply_override ::
    "(jsstring \<times> nat) list \<Rightarrow> jsstring list \<Rightarrow> 'e \<Rightarrow> (jsstring \<times> nat) list \<Rightarrow> js_key \<times> js_property
       \<Rightarrow> 'e + (jsstring \<times> nat) list" where
  "apply_override defaults zeroAllowed failure result entry =
     (case entry of
        (SymbolKey _, _) \<Rightarrow> Inl failure
      | (StringKey k, p) \<Rightarrow>
          if k \<notin> fst ` set defaults then Inl failure
          else case override_value zeroAllowed k p of
            None \<Rightarrow> Inl failure
          | Some v \<Rightarrow> Inr (map_set k v result))"

fun resolveNumericOptions ::
    "(jsstring \<times> nat) list \<Rightarrow> js_property js_options \<Rightarrow> 'e \<Rightarrow> jsstring list \<Rightarrow> 'e + (jsstring \<times> nat) list" where
  "resolveNumericOptions defaults NoOptions failure zeroAllowed = Inr defaults"
| "resolveNumericOptions defaults NotAnObject failure zeroAllowed = Inl failure"
| "resolveNumericOptions defaults (OwnKeys overrides) failure zeroAllowed =
     foldE (apply_override defaults zeroAllowed failure) defaults overrides"

definition number_at :: "(jsstring \<times> nat) list \<Rightarrow> string \<Rightarrow> nat" where
  "number_at r name = the (map_of r (lit name))"

section \<open>Limits and policies\<close>

record profile_limits =
  maxJwksBytes :: nat
  maxKeys :: nat
  maxCandidates :: nat
  maxNonceBytes :: nat
  generatedNonceBytes :: nat
  maxScopeBytes :: nat
  maxAgentBindings :: nat
  maxAgentUrlBytes :: nat

definition DEFAULT_PROFILE_LIMITS :: "(jsstring \<times> nat) list" where
  "DEFAULT_PROFILE_LIMITS = [(lit ''maxJwksBytes'', 262144), (lit ''maxKeys'', 64),
     (lit ''maxCandidates'', 16), (lit ''maxNonceBytes'', 256), (lit ''generatedNonceBytes'', 32),
     (lit ''maxScopeBytes'', 256), (lit ''maxAgentBindings'', 64), (lit ''maxAgentUrlBytes'', 2048)]"

record time_policy =
  signingLifetimeSeconds :: nat
  maxLifetimeSeconds :: nat
  maxAgeSeconds :: nat
  clockSkewSeconds :: nat

definition DEFAULT_TIME_POLICY :: "(jsstring \<times> nat) list" where
  "DEFAULT_TIME_POLICY = [(lit ''signingLifetimeSeconds'', 60), (lit ''maxLifetimeSeconds'', 300),
     (lit ''maxAgeSeconds'', 300), (lit ''clockSkewSeconds'', 30)]"

record replay_policy =
  capacity :: nat
  maxPerKey :: nat

definition DEFAULT_REPLAY_POLICY :: "(jsstring \<times> nat) list" where
  "DEFAULT_REPLAY_POLICY = [(lit ''capacity'', 10000), (lit ''maxPerKey'', 1000)]"

record clock_policy =
  maxClockDriftSeconds :: nat

definition DEFAULT_CLOCK_POLICY :: "(jsstring \<times> nat) list" where
  "DEFAULT_CLOCK_POLICY = [(lit ''maxClockDriftSeconds'', 30)]"

definition resolveProfileLimits :: "js_property js_options \<Rightarrow> configuration_code + profile_limits" where
  "resolveProfileLimits overrides =
     bindE (resolveNumericOptions DEFAULT_PROFILE_LIMITS overrides InvalidResourceLimits
       (map lit [''maxJwksBytes'', ''maxKeys'', ''maxCandidates'', ''maxNonceBytes'',
          ''maxScopeBytes'', ''maxAgentBindings'', ''maxAgentUrlBytes''])) (\<lambda>r.
     let limits = \<lparr>maxJwksBytes = number_at r ''maxJwksBytes'', maxKeys = number_at r ''maxKeys'',
           maxCandidates = number_at r ''maxCandidates'', maxNonceBytes = number_at r ''maxNonceBytes'',
           generatedNonceBytes = number_at r ''generatedNonceBytes'',
           maxScopeBytes = number_at r ''maxScopeBytes'',
           maxAgentBindings = number_at r ''maxAgentBindings'',
           maxAgentUrlBytes = number_at r ''maxAgentUrlBytes''\<rparr>;
         encodedLength = (generatedNonceBytes limits * 4 + 2) div 3 in
     if max_safe < encodedLength \<or> maxNonceBytes limits < encodedLength
     then Inl InvalidResourceLimits else Inr limits)"

definition resolveTimePolicy :: "js_property js_options \<Rightarrow> configuration_code + time_policy" where
  "resolveTimePolicy overrides =
     bindE (resolveNumericOptions DEFAULT_TIME_POLICY overrides InvalidTimePolicy
       [lit ''clockSkewSeconds'']) (\<lambda>r.
     let policy = \<lparr>signingLifetimeSeconds = number_at r ''signingLifetimeSeconds'',
           maxLifetimeSeconds = number_at r ''maxLifetimeSeconds'',
           maxAgeSeconds = number_at r ''maxAgeSeconds'',
           clockSkewSeconds = number_at r ''clockSkewSeconds''\<rparr> in
     if maxLifetimeSeconds policy < signingLifetimeSeconds policy \<or>
        maxAgeSeconds policy < signingLifetimeSeconds policy \<or>
        max_safe < maxAgeSeconds policy + clockSkewSeconds policy \<or>
        max_safe < maxLifetimeSeconds policy + clockSkewSeconds policy
     then Inl InvalidTimePolicy else Inr policy)"

definition resolveReplayPolicy :: "js_property js_options \<Rightarrow> configuration_code + replay_policy" where
  "resolveReplayPolicy overrides =
     bindE (resolveNumericOptions DEFAULT_REPLAY_POLICY overrides InvalidReplayPolicy
       [lit ''capacity'', lit ''maxPerKey'']) (\<lambda>r.
     Inr \<lparr>capacity = number_at r ''capacity'', maxPerKey = number_at r ''maxPerKey''\<rparr>)"

definition resolveClockPolicy :: "js_property js_options \<Rightarrow> configuration_code + clock_policy" where
  "resolveClockPolicy overrides =
     bindE (resolveNumericOptions DEFAULT_CLOCK_POLICY overrides InvalidClockConfiguration
       [lit ''maxClockDriftSeconds'']) (\<lambda>r.
     if max_safe < number_at r ''maxClockDriftSeconds'' * 1000 then Inl InvalidClockConfiguration
     else Inr \<lparr>maxClockDriftSeconds = number_at r ''maxClockDriftSeconds''\<rparr>)"

section \<open>Nonces\<close>

text \<open>A JavaScript value as the run-time checks of the profiles see it.\<close>

datatype js_value = JsString jsstring | JsNumber js_number | JsOther

definition isValidNonce :: "js_value \<Rightarrow> nat \<Rightarrow> bool" where
  "isValidNonce v maximumBytes \<longleftrightarrow>
     1 \<le> maximumBytes \<and> maximumBytes \<le> max_safe \<and>
     (case v of
        JsString s \<Rightarrow> s \<noteq> [] \<and> length s \<le> maximumBytes \<and> list_all printable s
      | _ \<Rightarrow> False)"

section \<open>What a resolved policy satisfies\<close>

text \<open>Every number of a resolved object is safe, and positive unless zero is allowed.\<close>

definition resolved_numbers :: "(jsstring \<times> nat) list \<Rightarrow> jsstring list \<Rightarrow> (jsstring \<times> nat) list \<Rightarrow> bool" where
  "resolved_numbers defaults zeroAllowed r \<longleftrightarrow>
     map fst r = map fst defaults \<and> list_all (\<lambda>(k, v). v \<le> max_safe \<and> (v = 0 \<longrightarrow> k \<in> set zeroAllowed)) r"

lemma map_set_present: "k \<in> fst ` set m \<Longrightarrow> map fst (map_set k v m) = map fst m"
  by (simp add: keys_map_set)

lemma list_all_map_set: "list_all P m \<Longrightarrow> P (k, v) \<Longrightarrow> list_all P (map_set k v m)"
  by (induction k v m rule: map_set.induct) auto

lemma override_value_Some:
  "override_value z k p = Some v \<Longrightarrow> v \<le> max_safe \<and> (v = 0 \<longrightarrow> k \<in> set z)"
  by (induction z k p rule: override_value.induct) (auto simp: is_safe_integer_def split: if_splits)

lemma apply_override_resolved:
  assumes "apply_override d z e r entry = Inr r'" "resolved_numbers d z r"
  shows "resolved_numbers d z r'"
proof -
  from assms(1) obtain k p v where k: "k \<in> fst ` set d" "override_value z k p = Some v" "r' = map_set k v r"
    by (auto simp: apply_override_def split: prod.splits js_key.splits if_splits option.splits)
  have "fst ` set r = fst ` set d" using assms(2) by (metis list.set_map resolved_numbers_def)
  with k have "map fst r' = map fst d"
    using assms(2) by (simp add: map_set_present resolved_numbers_def)
  moreover have "list_all (\<lambda>(k, v). v \<le> max_safe \<and> (v = 0 \<longrightarrow> k \<in> set z)) r'"
    using assms(2) override_value_Some [OF k(2)] by (simp add: k(3) resolved_numbers_def list_all_map_set)
  ultimately show ?thesis by (simp add: resolved_numbers_def)
qed

lemma resolveNumericOptions_resolved:
  assumes "resolveNumericOptions d opts e z = Inr r" "resolved_numbers d z d"
  shows "resolved_numbers d z r"
proof (cases opts)
  case (OwnKeys ks)
  with assms show ?thesis by (auto intro: foldE_invariant apply_override_resolved)
qed (use assms in auto)

lemma number_at_resolved:
  assumes "resolved_numbers d z r" "lit name \<in> fst ` set d"
  shows "number_at r name \<le> max_safe \<and> (lit name \<notin> set z \<longrightarrow> 0 < number_at r name)"
proof -
  have "fst ` set r = fst ` set d" using assms(1) by (metis list.set_map resolved_numbers_def)
  then obtain v where v: "map_of r (lit name) = Some v"
    using assms(2) by (metis map_of_eq_None_iff not_None_eq)
  then have "(lit name, v) \<in> set r" by (rule map_of_SomeD)
  with assms(1) v show ?thesis by (auto simp: resolved_numbers_def list_all_iff number_at_def)
qed

lemma resolveTimePolicy_bounds:
  assumes "resolveTimePolicy opts = Inr p"
  shows "0 < maxAgeSeconds p \<and> 0 < maxLifetimeSeconds p \<and> 0 < signingLifetimeSeconds p \<and>
    signingLifetimeSeconds p \<le> maxLifetimeSeconds p \<and> signingLifetimeSeconds p \<le> maxAgeSeconds p \<and>
    maxAgeSeconds p + clockSkewSeconds p \<le> max_safe \<and> maxLifetimeSeconds p + clockSkewSeconds p \<le> max_safe"
proof -
  from assms obtain r where r: "resolveNumericOptions DEFAULT_TIME_POLICY opts InvalidTimePolicy
      [lit ''clockSkewSeconds''] = Inr r"
    and p: "signingLifetimeSeconds p = number_at r ''signingLifetimeSeconds''"
      "maxLifetimeSeconds p = number_at r ''maxLifetimeSeconds''"
      "maxAgeSeconds p = number_at r ''maxAgeSeconds''"
    and g: "signingLifetimeSeconds p \<le> maxLifetimeSeconds p" "signingLifetimeSeconds p \<le> maxAgeSeconds p"
      "maxAgeSeconds p + clockSkewSeconds p \<le> max_safe" "maxLifetimeSeconds p + clockSkewSeconds p \<le> max_safe"
    by (auto simp: resolveTimePolicy_def Let_def bindE_eq_Inr split: if_splits)
  have "resolved_numbers DEFAULT_TIME_POLICY [lit ''clockSkewSeconds''] DEFAULT_TIME_POLICY"
    by (simp add: resolved_numbers_def DEFAULT_TIME_POLICY_def max_safe_def)
  from resolveNumericOptions_resolved [OF r this] have
    "0 < number_at r ''signingLifetimeSeconds''" "0 < number_at r ''maxLifetimeSeconds''"
    "0 < number_at r ''maxAgeSeconds''"
    using number_at_resolved by (force simp: DEFAULT_TIME_POLICY_def)+
  with p g show ?thesis by simp
qed

lemma resolveTimePolicy_default: "resolveTimePolicy NoOptions =
    Inr \<lparr>signingLifetimeSeconds = 60, maxLifetimeSeconds = 300, maxAgeSeconds = 300, clockSkewSeconds = 30\<rparr>"
  by (simp add: resolveTimePolicy_def DEFAULT_TIME_POLICY_def number_at_def max_safe_def Let_def)

lemma resolveReplayPolicy_default: "resolveReplayPolicy NoOptions = Inr \<lparr>capacity = 10000, maxPerKey = 1000\<rparr>"
  by (simp add: resolveReplayPolicy_def DEFAULT_REPLAY_POLICY_def number_at_def)

lemma resolveClockPolicy_default: "resolveClockPolicy NoOptions = Inr \<lparr>maxClockDriftSeconds = 30\<rparr>"
  by (simp add: resolveClockPolicy_def DEFAULT_CLOCK_POLICY_def number_at_def max_safe_def)

lemma resolveProfileLimits_default:
  "resolveProfileLimits NoOptions = Inr \<lparr>maxJwksBytes = 262144, maxKeys = 64, maxCandidates = 16,
     maxNonceBytes = 256, generatedNonceBytes = 32, maxScopeBytes = 256, maxAgentBindings = 64,
     maxAgentUrlBytes = 2048\<rparr>"
  by (simp add: resolveProfileLimits_def DEFAULT_PROFILE_LIMITS_def number_at_def max_safe_def Let_def)

end
