(* ===== verification/ProfileTime.thy ===== *)
theory ProfileTime
  imports ProfileDefaults
begin

text \<open>
  The time window of a signature, \<^verbatim>\<open>time-policy.ts\<close>, and the recovery horizon,
  \<^verbatim>\<open>recovery-horizon.ts\<close>. The source computes with \<open>BigInt\<close>, so the integers are exact.
\<close>

definition MAX_SF_INTEGER :: int where
  "MAX_SF_INTEGER = 999999999999999"

fun safe_second :: "js_number \<Rightarrow> bool" where
  "safe_second JsNotInteger = False"
| "safe_second (JsInt n) = (is_safe_integer n \<and> 0 \<le> n)"

fun timestamp :: "js_number \<Rightarrow> bool" where
  "timestamp JsNotInteger = False"
| "timestamp (JsInt n) = (is_safe_integer n \<and> 0 \<le> n \<and> n \<le> MAX_SF_INTEGER)"

text \<open>Only used on numbers that passed one of the two tests.\<close>

fun the_int :: "js_number \<Rightarrow> int" where
  "the_int (JsInt n) = n"
| "the_int JsNotInteger = 0"

definition check_window :: "time_policy \<Rightarrow> int \<Rightarrow> int \<Rightarrow> int \<Rightarrow> profile_rejection + unit" where
  "check_window policy start end now =
     (let skew = int (clockSkewSeconds policy) in
      if end - start > int (maxLifetimeSeconds policy) then Inl (Invalid LifetimeExceeded)
      else if start > now + skew then Inl (Invalid CreatedInFuture)
      else if now \<ge> end + skew then Inl (Invalid SignatureExpired)
      else if now \<ge> start + int (maxAgeSeconds policy) + skew then Inl (Invalid SignatureTooOld)
      else Inr ())"

definition check_time :: "time_policy \<Rightarrow> js_number \<Rightarrow> js_number \<Rightarrow> js_number \<Rightarrow> profile_rejection + unit" where
  "check_time policy created expires nowEpochSeconds =
     (if \<not> safe_second nowEpochSeconds then Inl (Unverified ClockUnavailable)
      else if \<not> timestamp created \<or> \<not> timestamp expires \<or> the_int expires \<le> the_int created
      then Inl (Invalid InvalidTimeRange)
      else check_window policy (the_int created) (the_int expires) (the_int nowEpochSeconds))"

definition retainUntil :: "time_policy \<Rightarrow> js_number \<Rightarrow> js_number \<Rightarrow> profile_rejection + int" where
  "retainUntil policy created consumeNow =
     (if \<not> safe_second consumeNow then Inl (Unverified ClockUnavailable)
      else if \<not> timestamp created then Inl (Invalid InvalidTimeRange)
      else let deadline = max (the_int created) (the_int consumeNow)
             + int (maxAgeSeconds policy) + int (clockSkewSeconds policy) in
        if deadline > int max_safe then Inl (Unverified ResourceLimit) else Inr deadline)"

definition horizon_of :: "time_policy \<Rightarrow> configuration_code + nat" where
  "horizon_of policy =
     (let horizon = min (maxAgeSeconds policy) (maxLifetimeSeconds policy) + 2 * clockSkewSeconds policy in
      if max_safe < horizon then Inl InvalidTimePolicy else Inr horizon)"

definition recoveryHorizonSeconds :: "js_property js_options \<Rightarrow> configuration_code + nat" where
  "recoveryHorizonSeconds overrides = bindE (resolveTimePolicy overrides) horizon_of"

section \<open>The window\<close>

definition in_window :: "time_policy \<Rightarrow> int \<Rightarrow> int \<Rightarrow> int \<Rightarrow> bool" where
  "in_window policy c e n \<longleftrightarrow>
     0 \<le> c \<and> c < e \<and> e \<le> MAX_SF_INTEGER \<and> 0 \<le> n \<and> n \<le> int max_safe \<and>
     e - c \<le> int (maxLifetimeSeconds policy) \<and>
     c \<le> n + int (clockSkewSeconds policy) \<and>
     n < e + int (clockSkewSeconds policy) \<and>
     n < c + int (maxAgeSeconds policy) + int (clockSkewSeconds policy)"

lemma check_time_eq_Inr:
  "check_time policy created expires now = Inr () \<longleftrightarrow>
     (\<exists>c e n. created = JsInt c \<and> expires = JsInt e \<and> now = JsInt n \<and> in_window policy c e n)"
proof -
  have "MAX_SF_INTEGER \<le> int max_safe" by (simp add: MAX_SF_INTEGER_def max_safe_def)
  then show ?thesis
    by (cases created; cases expires; cases now)
      (auto simp: check_time_def check_window_def in_window_def is_safe_integer_def Let_def)
qed

lemma retainUntil_eq_Inr:
  "retainUntil policy created now = Inr d \<longleftrightarrow>
     (\<exists>c n. created = JsInt c \<and> now = JsInt n \<and> 0 \<le> c \<and> c \<le> MAX_SF_INTEGER \<and> 0 \<le> n \<and> n \<le> int max_safe \<and>
        d = max c n + int (maxAgeSeconds policy) + int (clockSkewSeconds policy) \<and> d \<le> int max_safe)"
proof -
  have "MAX_SF_INTEGER \<le> int max_safe" by (simp add: MAX_SF_INTEGER_def max_safe_def)
  then show ?thesis
    by (cases created; cases now) (auto simp: retainUntil_def is_safe_integer_def Let_def)
qed

text \<open>C19. A replay record outlives the signature it guards: if the nonce of a signature is retained at
  the second of its consumption, then at every second at which the same signature still passes
  the time check the record has not expired.\<close>

theorem replay_record_outlives_window:
  assumes "retainUntil policy created consumed = Inr deadline"
    and "check_time policy created expires later = Inr ()"
  shows "the_int later < deadline"
  using assms by (auto simp: retainUntil_eq_Inr check_time_eq_Inr in_window_def)

theorem replay_record_outlives_window_witness:
  "(1700000300 :: int) < 1700000335"
proof -
  let ?p = "\<lparr>signingLifetimeSeconds = 60, maxLifetimeSeconds = 300, maxAgeSeconds = 300, clockSkewSeconds = 30\<rparr>"
  have "retainUntil ?p (JsInt 1700000000) (JsInt 1700000005) = Inr 1700000335"
    by (simp add: retainUntil_def is_safe_integer_def max_safe_def MAX_SF_INTEGER_def)
  moreover have "check_time ?p (JsInt 1700000000) (JsInt 1700000300) (JsInt 1700000300) = Inr ()"
    by (simp add: check_time_def check_window_def is_safe_integer_def max_safe_def MAX_SF_INTEGER_def)
  ultimately have "the_int (JsInt 1700000300) < (1700000335 :: int)" by (rule replay_record_outlives_window)
  then show ?thesis by simp
qed

text \<open>C20. The recovery horizon bounds how long after one acceptance the same signature can be accepted
  again.\<close>

theorem recovery_horizon_bound:
  assumes "recoveryHorizonSeconds overrides = Inr horizon" "resolveTimePolicy overrides = Inr policy"
    and "check_time policy created expires (JsInt first) = Inr ()"
    and "check_time policy created expires (JsInt again) = Inr ()"
  shows "again < first + int horizon"
  using assms
  by (auto simp: recoveryHorizonSeconds_def horizon_of_def Let_def check_time_eq_Inr in_window_def
      split: if_splits)

theorem recovery_horizon_bound_witness:
  "(1700000329 :: int) < 1699999970 + int 360"
proof -
  let ?p = "\<lparr>signingLifetimeSeconds = 60, maxLifetimeSeconds = 300, maxAgeSeconds = 300, clockSkewSeconds = 30\<rparr>"
  have h: "recoveryHorizonSeconds NoOptions = Inr 360"
    by (simp add: recoveryHorizonSeconds_def resolveTimePolicy_default horizon_of_def max_safe_def Let_def)
  have "check_time ?p (JsInt 1700000000) (JsInt 1700000300) (JsInt n) = Inr ()"
    if "n = 1699999970 \<or> n = 1700000329" for n
    using that
    by (auto simp: check_time_def check_window_def is_safe_integer_def max_safe_def MAX_SF_INTEGER_def)
  with recovery_horizon_bound [OF h resolveTimePolicy_default] show ?thesis by blast
qed

end
