(* ===== verification/DirAddress.thy ===== *)
theory DirAddress
  imports ProfileDefaults
begin

text \<open>
  The destination gate of discovery, \<^verbatim>\<open>discovery/address-policy.ts\<close>: parsing of textual
  addresses, the excluded prefixes, the catalogue of exceptions and the policy object. \<open>isIP\<close> of
  \<^verbatim>\<open>node:net\<close> is modelled: decimal octets without leading zeros, and groups of one to four
  hexadecimal digits with at most one \<open>::\<close> and an optional dotted suffix. The value of an address is a \<open>bigint\<close>.
\<close>

unbundle bit_operations_syntax

section \<open>Textual addresses\<close>

datatype ip_family = IPv4 | IPv6

record ip_address =
  ip_family :: ip_family
  ip_value :: int

text \<open>\<open>String.prototype.split\<close> with a separator of one unit, and with \<open>"::"\<close>.\<close>

fun split_on :: "nat \<Rightarrow> jsstring \<Rightarrow> jsstring list" where
  "split_on d [] = [[]]"
| "split_on d (c # s) =
     (if c = d then [] # split_on d s
      else case split_on d s of h # hs \<Rightarrow> (c # h) # hs | [] \<Rightarrow> [[c]])"

fun split_double :: "jsstring \<Rightarrow> jsstring list" where
  "split_double [] = [[]]"
| "split_double [c] = [[c]]"
| "split_double (c # d # s) =
     (if c = 58 \<and> d = 58 then [] # split_double s
      else case split_double (d # s) of h # hs \<Rightarrow> (c # h) # hs | [] \<Rightarrow> [[c]])"

definition hex_char :: "nat \<Rightarrow> bool" where
  "hex_char c \<longleftrightarrow> digit c \<or> (97 \<le> c \<and> c \<le> 102) \<or> (65 \<le> c \<and> c \<le> 70)"

definition hex_unit :: "nat \<Rightarrow> nat" where
  "hex_unit c = (if c \<le> 57 then c - 48 else if c \<le> 70 then c - 55 else c - 87)"

definition read_hex :: "jsstring \<Rightarrow> nat" where
  "read_hex = foldl (\<lambda>a c. a * 16 + hex_unit c) 0"

text \<open>\<open>toString(16)\<close>\<close>

fun hex_text :: "nat \<Rightarrow> jsstring" where
  "hex_text n = (if n < 16 then [hexdigit n] else hex_text (n div 16) @ [hexdigit (n mod 16)])"

declare hex_text.simps [simp del]

definition octet_text :: "jsstring \<Rightarrow> bool" where
  "octet_text s \<longleftrightarrow> s \<noteq> [] \<and> list_all digit s \<and> length s \<le> 3 \<and> (length s = 1 \<or> hd s \<noteq> 48) \<and> read_digits 0 s \<le> 255"

definition is_ipv4 :: "jsstring \<Rightarrow> bool" where
  "is_ipv4 s \<longleftrightarrow> (let os = split_on 46 s in length os = 4 \<and> list_all octet_text os)"

definition group_text :: "jsstring \<Rightarrow> bool" where
  "group_text s \<longleftrightarrow> s \<noteq> [] \<and> length s \<le> 4 \<and> list_all hex_char s"

definition half_groups :: "jsstring \<Rightarrow> jsstring list" where
  "half_groups s = (if s = [] then [] else split_on 58 s)"

text \<open>The text after the last colon, and the text up to and including it.\<close>

definition after_colon :: "jsstring \<Rightarrow> jsstring" where
  "after_colon s = rev (takeWhile (\<lambda>c. c \<noteq> 58) (rev s))"

definition upto_colon :: "jsstring \<Rightarrow> jsstring" where
  "upto_colon s = rev (dropWhile (\<lambda>c. c \<noteq> 58) (rev s))"

definition ipv6_groups :: "jsstring \<Rightarrow> bool" where
  "ipv6_groups s =
     (case split_double s of
        [l] \<Rightarrow> length (half_groups l) = 8 \<and> list_all group_text (half_groups l)
      | [l, r] \<Rightarrow> length (half_groups l) + length (half_groups r) \<le> 7 \<and>
          list_all group_text (half_groups l) \<and> list_all group_text (half_groups r)
      | _ \<Rightarrow> False)"

definition is_ipv6 :: "jsstring \<Rightarrow> bool" where
  "is_ipv6 s =
     (if 46 \<in> set s then is_ipv4 (after_colon s) \<and> ipv6_groups (upto_colon s @ lit ''0:0'')
      else ipv6_groups s)"

definition isIP :: "jsstring \<Rightarrow> ip_family option" where
  "isIP s = (if is_ipv4 s then Some IPv4 else if is_ipv6 s then Some IPv6 else None)"

definition js_space :: "nat \<Rightarrow> bool" where
  "js_space c \<longleftrightarrow> (9 \<le> c \<and> c \<le> 13) \<or> c = 32 \<or> c = 160 \<or> c = 0x1680 \<or> (0x2000 \<le> c \<and> c \<le> 0x200A) \<or>
     c \<in> {0x2028, 0x2029, 0x202F, 0x205F, 0x3000, 0xFEFF}"

definition dotted_value :: "jsstring \<Rightarrow> int" where
  "dotted_value s = foldl (\<lambda>v octet. push_bit 8 v OR int (read_digits 0 octet)) 0 (split_on 46 s)"

text \<open>The dotted suffix rewritten as two groups.\<close>

definition hex_suffix :: "jsstring \<Rightarrow> jsstring" where
  "hex_suffix s =
     (if 46 \<in> set s
      then let octets = map (read_digits 0) (split_on 46 (after_colon s));
               high = hex_text (octets ! 0 * 256 + octets ! 1); low = hex_text (octets ! 2 * 256 + octets ! 3)
        in upto_colon s @ high @ [58] @ low
      else s)"

definition ipv6_value :: "jsstring \<Rightarrow> int" where
  "ipv6_value s =
     (let halves = split_double (hex_suffix s); left = half_groups (hd halves);
          right = (if length halves = 2 then half_groups (halves ! 1) else []);
          groups = (if length halves = 2
            then left @ replicate (8 - length left - length right) (lit ''0'') @ right else left)
      in foldl (\<lambda>v g. push_bit 16 v OR int (read_hex g)) 0 groups)"

text \<open>\<open>None\<close> as an argument is a value that is not a string.\<close>

definition parseAddress :: "jsstring option \<Rightarrow> ip_address option" where
  "parseAddress input =
     (case input of
        None \<Rightarrow> None
      | Some s \<Rightarrow>
          if s = [] \<or> 45 < length s \<or> list_ex (\<lambda>c. js_space c \<or> c \<in> {37, 47, 91, 93}) s then None
          else case isIP s of
            None \<Rightarrow> None
          | Some IPv4 \<Rightarrow> Some \<lparr>ip_family = IPv4, ip_value = dotted_value s\<rparr>
          | Some IPv6 \<Rightarrow> Some \<lparr>ip_family = IPv6, ip_value = ipv6_value s\<rparr>)"

section \<open>Prefixes\<close>

text \<open>A prefix of the source, by its text and bits; the texts of the program all parse.\<close>

definition width :: "ip_family \<Rightarrow> nat" where
  "width f = (case f of IPv4 \<Rightarrow> 32 | IPv6 \<Rightarrow> 128)"

definition ip_prefix :: "string \<Rightarrow> nat \<Rightarrow> ip_address \<Rightarrow> bool" where
  "ip_prefix t bits address =
     (case parseAddress (Some (lit t)) of
        None \<Rightarrow> False
      | Some network \<Rightarrow>
          let shift = width (ip_family network) - bits in
          ip_family address = ip_family network \<and>
          drop_bit shift (ip_value address) = drop_bit shift (ip_value network))"

definition excluded_prefixes :: "(string \<times> nat) list" where
  "excluded_prefixes = [
     (''0.0.0.0'', 8), (''10.0.0.0'', 8),
     (''100.64.0.0'', 10), (''127.0.0.0'', 8),
     (''169.254.0.0'', 16), (''172.16.0.0'', 12),
     (''192.0.0.0'', 24), (''192.0.2.0'', 24),
     (''192.31.196.0'', 24), (''192.52.193.0'', 24),
     (''192.88.99.0'', 24), (''192.168.0.0'', 16),
     (''192.175.48.0'', 24), (''198.18.0.0'', 15),
     (''198.51.100.0'', 24), (''203.0.113.0'', 24),
     (''224.0.0.0'', 4), (''240.0.0.0'', 4),
     (''2001::'', 23), (''2001:db8::'', 32),
     (''2002::'', 16), (''2620:4f:8000::'', 48),
     (''3fff::'', 20)]"

definition admitted :: "ip_address \<Rightarrow> bool" where
  "admitted a \<longleftrightarrow> (ip_family a = IPv4 \<or> ip_prefix ''2000::'' 3 a) \<and>
     \<not> list_ex (\<lambda>(t, bits). ip_prefix t bits a) excluded_prefixes"

definition isDirectoryDestinationAllowed :: "jsstring option \<Rightarrow> bool" where
  "isDirectoryDestinationAllowed input =
     (case parseAddress input of None \<Rightarrow> False | Some a \<Rightarrow> admitted a)"

section \<open>Policies\<close>

datatype address_exception =
    PcpAnycastV4 | TurnAnycastV4 | As112V4 | AmtV4 | As112DirectV4
  | PcpAnycastV6 | TurnAnycastV6 | DnssdAnycastV6 | AmtV6 | As112V6 | OrchidV2 | DetV6 | As112DirectV6

definition exceptions_catalogue :: "(jsstring \<times> address_exception) list" where
  "exceptions_catalogue = [
     (lit ''pcp-anycast-v4'', PcpAnycastV4), (lit ''turn-anycast-v4'', TurnAnycastV4), (lit ''as112-v4'', As112V4),
     (lit ''amt-v4'', AmtV4), (lit ''as112-direct-v4'', As112DirectV4), (lit ''pcp-anycast-v6'', PcpAnycastV6),
     (lit ''turn-anycast-v6'', TurnAnycastV6), (lit ''dnssd-anycast-v6'', DnssdAnycastV6), (lit ''amt-v6'', AmtV6),
     (lit ''as112-v6'', As112V6), (lit ''orchid-v2'', OrchidV2), (lit ''det-v6'', DetV6), (lit ''as112-direct-v6'', As112DirectV6)]"

fun exception_prefix :: "address_exception \<Rightarrow> string \<times> nat" where
  "exception_prefix PcpAnycastV4 = (''192.0.0.9'', 32)"
| "exception_prefix TurnAnycastV4 = (''192.0.0.10'', 32)"
| "exception_prefix As112V4 = (''192.31.196.0'', 24)"
| "exception_prefix AmtV4 = (''192.52.193.0'', 24)"
| "exception_prefix As112DirectV4 = (''192.175.48.0'', 24)"
| "exception_prefix PcpAnycastV6 = (''2001:1::1'', 128)"
| "exception_prefix TurnAnycastV6 = (''2001:1::2'', 128)"
| "exception_prefix DnssdAnycastV6 = (''2001:1::3'', 128)"
| "exception_prefix AmtV6 = (''2001:3::'', 32)"
| "exception_prefix As112V6 = (''2001:4:112::'', 48)"
| "exception_prefix OrchidV2 = (''2001:20::'', 28)"
| "exception_prefix DetV6 = (''2001:30::'', 28)"
| "exception_prefix As112DirectV6 = (''2620:4f:8000::'', 48)"

text \<open>The argument of the factory: not an array, or an array whose elements are data properties
  with a string, or anything else. A policy value is one the factory made, which it remembers
  by identity, or any other value.\<close>

datatype exceptions_argument = NotAnArray | ArrayOf "jsstring option list"

datatype address_policy = OwnedPolicy "address_exception list" | ForeignValue

definition select_exception ::
    "address_exception list \<Rightarrow> jsstring option \<Rightarrow> configuration_code + address_exception list" where
  "select_exception selected e =
     (case e of
        None \<Rightarrow> Inl InvalidAgentBinding
      | Some name \<Rightarrow>
          (case map_of exceptions_catalogue name of
             None \<Rightarrow> Inl InvalidAgentBinding
           | Some x \<Rightarrow> if x \<in> set selected then Inl InvalidAgentBinding else Inr (selected @ [x])))"

fun createDirectoryAddressPolicy :: "exceptions_argument \<Rightarrow> configuration_code + address_policy" where
  "createDirectoryAddressPolicy NotAnArray = Inl InvalidAgentBinding"
| "createDirectoryAddressPolicy (ArrayOf es) =
     (if length exceptions_catalogue < length es then Inl InvalidAgentBinding
      else bindE (foldE select_exception [] es) (\<lambda>selected. Inr (OwnedPolicy selected)))"

fun assertDirectoryAddressPolicy :: "address_policy \<Rightarrow> configuration_code + unit" where
  "assertDirectoryAddressPolicy (OwnedPolicy _) = Inr ()"
| "assertDirectoryAddressPolicy ForeignValue = Inl InvalidAgentBinding"

definition allowed :: "address_exception list \<Rightarrow> ip_address \<Rightarrow> bool" where
  "allowed selected a \<longleftrightarrow> admitted a \<or> list_ex (\<lambda>x. case exception_prefix x of (t, bits) \<Rightarrow> ip_prefix t bits a) selected"

definition policy_allows :: "address_exception list \<Rightarrow> jsstring option \<Rightarrow> bool" where
  "policy_allows selected input = (case parseAddress input of None \<Rightarrow> False | Some a \<Rightarrow> allowed selected a)"

definition matchesPeer :: "address_exception list \<Rightarrow> jsstring option \<Rightarrow> jsstring option \<Rightarrow> bool" where
  "matchesPeer selected pinned peer =
     (case (parseAddress pinned, parseAddress peer) of
        (Some expected, Some actual) \<Rightarrow>
          if \<not> allowed selected expected then False
          else if ip_family expected = ip_family actual then ip_value expected = ip_value actual
          else ip_family expected = IPv4 \<and> ip_family actual = IPv6 \<and>
            drop_bit 32 (ip_value actual) = 0xFFFF \<and> (ip_value actual AND 0xFFFFFFFF) = ip_value expected
      | _ \<Rightarrow> False)"

definition matchesPinnedDirectoryAddress :: "jsstring option \<Rightarrow> jsstring option \<Rightarrow> bool" where
  "matchesPinnedDirectoryAddress = matchesPeer []"

end
