(* ===== verification/DirAddressSafety.thy ===== *)
theory DirAddressSafety
  imports DirAddress
begin

text \<open>
  The ranges of the prefixes, and what the destination gate promises: the textual form of an
  IPv4 address is unique, no policy admits a private or link-local destination, and a connected
  peer matches only the pinned address.
\<close>

section \<open>Evaluating prefixes\<close>

lemmas address_eval = parseAddress_def isIP_def is_ipv4_def is_ipv6_def ipv6_groups_def half_groups_def
  group_text_def octet_text_def js_space_def hex_char_def digit_def dotted_value_def ipv6_value_def
  hex_suffix_def read_hex_def hex_unit_def Let_def

lemma replicate_numeral: "replicate (numeral k) x = x # replicate (pred_numeral k) x"
  by (simp add: numeral_eq_Suc)

lemma div_range: "0 < (d :: int) \<Longrightarrow> v div d = m \<longleftrightarrow> m * d \<le> v \<and> v < (m + 1) * d"
proof -
  assume "0 < d"
  have e: "v div d * d + v mod d = v" "(v div d + 1) * d = v div d * d + d" by (simp_all add: distrib_right)
  have "v div d * d \<le> v" "v < (v div d + 1) * d"
    using e pos_mod_bound [OF \<open>0 < d\<close>, of v] pos_mod_sign [OF \<open>0 < d\<close>, of v] by linarith+
  moreover have "m * d \<le> v \<Longrightarrow> v < (m + 1) * d \<Longrightarrow> v div d = m"
    by (rule int_div_pos_eq [of v d m "v - m * d"]) (simp_all add: algebra_simps)
  ultimately show ?thesis by auto
qed

lemma prefix_ranges [simp]:
  "ip_prefix ''0.0.0.0'' 8 a \<longleftrightarrow> ip_family a = IPv4 \<and> 0x00000000 \<le> ip_value a \<and> ip_value a < 0x01000000"
  "ip_prefix ''10.0.0.0'' 8 a \<longleftrightarrow> ip_family a = IPv4 \<and> 0x0A000000 \<le> ip_value a \<and> ip_value a < 0x0B000000"
  "ip_prefix ''100.64.0.0'' 10 a \<longleftrightarrow> ip_family a = IPv4 \<and> 0x64400000 \<le> ip_value a \<and> ip_value a < 0x64800000"
  "ip_prefix ''127.0.0.0'' 8 a \<longleftrightarrow> ip_family a = IPv4 \<and> 0x7F000000 \<le> ip_value a \<and> ip_value a < 0x80000000"
  "ip_prefix ''169.254.0.0'' 16 a \<longleftrightarrow> ip_family a = IPv4 \<and> 0xA9FE0000 \<le> ip_value a \<and> ip_value a < 0xA9FF0000"
  "ip_prefix ''172.16.0.0'' 12 a \<longleftrightarrow> ip_family a = IPv4 \<and> 0xAC100000 \<le> ip_value a \<and> ip_value a < 0xAC200000"
  "ip_prefix ''192.0.0.0'' 24 a \<longleftrightarrow> ip_family a = IPv4 \<and> 0xC0000000 \<le> ip_value a \<and> ip_value a < 0xC0000100"
  "ip_prefix ''192.0.2.0'' 24 a \<longleftrightarrow> ip_family a = IPv4 \<and> 0xC0000200 \<le> ip_value a \<and> ip_value a < 0xC0000300"
  "ip_prefix ''192.31.196.0'' 24 a \<longleftrightarrow> ip_family a = IPv4 \<and> 0xC01FC400 \<le> ip_value a \<and> ip_value a < 0xC01FC500"
  "ip_prefix ''192.52.193.0'' 24 a \<longleftrightarrow> ip_family a = IPv4 \<and> 0xC034C100 \<le> ip_value a \<and> ip_value a < 0xC034C200"
  "ip_prefix ''192.88.99.0'' 24 a \<longleftrightarrow> ip_family a = IPv4 \<and> 0xC0586300 \<le> ip_value a \<and> ip_value a < 0xC0586400"
  "ip_prefix ''192.168.0.0'' 16 a \<longleftrightarrow> ip_family a = IPv4 \<and> 0xC0A80000 \<le> ip_value a \<and> ip_value a < 0xC0A90000"
  "ip_prefix ''192.175.48.0'' 24 a \<longleftrightarrow> ip_family a = IPv4 \<and> 0xC0AF3000 \<le> ip_value a \<and> ip_value a < 0xC0AF3100"
  "ip_prefix ''198.18.0.0'' 15 a \<longleftrightarrow> ip_family a = IPv4 \<and> 0xC6120000 \<le> ip_value a \<and> ip_value a < 0xC6140000"
  "ip_prefix ''198.51.100.0'' 24 a \<longleftrightarrow> ip_family a = IPv4 \<and> 0xC6336400 \<le> ip_value a \<and> ip_value a < 0xC6336500"
  "ip_prefix ''203.0.113.0'' 24 a \<longleftrightarrow> ip_family a = IPv4 \<and> 0xCB007100 \<le> ip_value a \<and> ip_value a < 0xCB007200"
  "ip_prefix ''224.0.0.0'' 4 a \<longleftrightarrow> ip_family a = IPv4 \<and> 0xE0000000 \<le> ip_value a \<and> ip_value a < 0xF0000000"
  "ip_prefix ''240.0.0.0'' 4 a \<longleftrightarrow> ip_family a = IPv4 \<and> 0xF0000000 \<le> ip_value a \<and> ip_value a < 0x100000000"
  "ip_prefix ''2001::'' 23 a \<longleftrightarrow> ip_family a = IPv6 \<and> 0x20010000000000000000000000000000 \<le> ip_value a \<and> ip_value a < 0x20010200000000000000000000000000"
  "ip_prefix ''2001:db8::'' 32 a \<longleftrightarrow> ip_family a = IPv6 \<and> 0x20010DB8000000000000000000000000 \<le> ip_value a \<and> ip_value a < 0x20010DB9000000000000000000000000"
  "ip_prefix ''2002::'' 16 a \<longleftrightarrow> ip_family a = IPv6 \<and> 0x20020000000000000000000000000000 \<le> ip_value a \<and> ip_value a < 0x20030000000000000000000000000000"
  "ip_prefix ''2620:4f:8000::'' 48 a \<longleftrightarrow> ip_family a = IPv6 \<and> 0x2620004F800000000000000000000000 \<le> ip_value a \<and> ip_value a < 0x2620004F800100000000000000000000"
  "ip_prefix ''3fff::'' 20 a \<longleftrightarrow> ip_family a = IPv6 \<and> 0x3FFF0000000000000000000000000000 \<le> ip_value a \<and> ip_value a < 0x3FFF1000000000000000000000000000"
  "ip_prefix ''192.0.0.9'' 32 a \<longleftrightarrow> ip_family a = IPv4 \<and> 0xC0000009 \<le> ip_value a \<and> ip_value a < 0xC000000A"
  "ip_prefix ''192.0.0.10'' 32 a \<longleftrightarrow> ip_family a = IPv4 \<and> 0xC000000A \<le> ip_value a \<and> ip_value a < 0xC000000B"
  "ip_prefix ''2001:1::1'' 128 a \<longleftrightarrow> ip_family a = IPv6 \<and> 0x20010001000000000000000000000001 \<le> ip_value a \<and> ip_value a < 0x20010001000000000000000000000002"
  "ip_prefix ''2001:1::2'' 128 a \<longleftrightarrow> ip_family a = IPv6 \<and> 0x20010001000000000000000000000002 \<le> ip_value a \<and> ip_value a < 0x20010001000000000000000000000003"
  "ip_prefix ''2001:1::3'' 128 a \<longleftrightarrow> ip_family a = IPv6 \<and> 0x20010001000000000000000000000003 \<le> ip_value a \<and> ip_value a < 0x20010001000000000000000000000004"
  "ip_prefix ''2001:3::'' 32 a \<longleftrightarrow> ip_family a = IPv6 \<and> 0x20010003000000000000000000000000 \<le> ip_value a \<and> ip_value a < 0x20010004000000000000000000000000"
  "ip_prefix ''2001:4:112::'' 48 a \<longleftrightarrow> ip_family a = IPv6 \<and> 0x20010004011200000000000000000000 \<le> ip_value a \<and> ip_value a < 0x20010004011300000000000000000000"
  "ip_prefix ''2001:20::'' 28 a \<longleftrightarrow> ip_family a = IPv6 \<and> 0x20010020000000000000000000000000 \<le> ip_value a \<and> ip_value a < 0x20010030000000000000000000000000"
  "ip_prefix ''2001:30::'' 28 a \<longleftrightarrow> ip_family a = IPv6 \<and> 0x20010030000000000000000000000000 \<le> ip_value a \<and> ip_value a < 0x20010040000000000000000000000000"
  "ip_prefix ''2000::'' 3 a \<longleftrightarrow> ip_family a = IPv6 \<and> 0x20000000000000000000000000000000 \<le> ip_value a \<and> ip_value a < 0x40000000000000000000000000000000"
  by (simp_all add: ip_prefix_def width_def address_eval replicate_numeral drop_bit_eq_div div_range)

section \<open>The text of an IPv4 address\<close>

lemma split_on_nonempty: "split_on d s \<noteq> []"
  by (induction d s rule: split_on.induct) (auto split: list.splits)

lemma join_split_on: "join [d] (split_on d s) = s"
proof (induction d s rule: split_on.induct)
  case (2 d c s)
  then show ?case
    using split_on_nonempty [of d s] by (cases "split_on d s") (auto simp: join_Cons)
qed simp

lemma split_on_part: "d \<notin> set s \<Longrightarrow> split_on d s = [s]"
  by (induction s) auto

lemma split_on_append: "d \<notin> set p \<Longrightarrow> split_on d (p @ d # s) = p # split_on d s"
  by (induction p) auto

lemma show_nat_step: "0 < n \<Longrightarrow> d \<le> 9 \<Longrightarrow> show_nat (n * 10 + d) = show_nat n @ [48 + d]"
  by (subst show_nat.simps) auto

lemma show_nat_head: "0 < n \<Longrightarrow> hd (show_nat n) \<noteq> 48"
proof (induction n rule: show_nat.induct)
  case (1 n)
  then have "\<not> n < 10 \<Longrightarrow> hd (show_nat (n div 10)) \<noteq> 48" by (simp add: div_greater_zero_iff)
  with 1(2) show ?case by (subst show_nat.simps) simp
qed

lemma octet_text_iff: "octet_text s \<longleftrightarrow> (\<exists>n \<le> 255. s = show_nat n)"
proof
  assume o: "octet_text s"
  then consider (one) c where "s = [c]" | (two) c d where "s = [c, d]" | (three) c d e where "s = [c, d, e]"
    by (auto simp: octet_text_def le_Suc_eq numeral_3_eq_3 length_Suc_conv)
  then have "s = show_nat (read_digits 0 s)"
  proof cases
    case one
    with o show ?thesis by (auto simp: octet_text_def digit_def show_nat.simps)
  next
    case two
    with o have "48 < c" "c \<le> 57" "48 \<le> d" "d \<le> 57" by (auto simp: octet_text_def digit_def)
    then obtain i j where "c = i + 48" "d = j + 48" "0 < i" "i \<le> 9" "j \<le> 9"
      using le_Suc_ex [of 48 c] le_Suc_ex [of 48 d] by fastforce
    moreover from this have "read_digits 0 s = i * 10 + j" by (simp add: two)
    ultimately show ?thesis using show_nat_step [of i j] show_nat.simps [of i] by (simp add: two)
  next
    case three
    with o have "48 < c" "c \<le> 57" "48 \<le> d" "d \<le> 57" "48 \<le> e" "e \<le> 57" by (auto simp: octet_text_def digit_def)
    then obtain i j k where "c = i + 48" "d = j + 48" "e = k + 48" "0 < i" "i \<le> 9" "j \<le> 9" "k \<le> 9"
      using le_Suc_ex [of 48 c] le_Suc_ex [of 48 d] le_Suc_ex [of 48 e] by fastforce
    moreover from this have r: "read_digits 0 s = (i * 10 + j) * 10 + k" by (simp add: three)
    moreover have "show_nat ((i * 10 + j) * 10 + k) = show_nat (i * 10 + j) @ [48 + k]"
      "show_nat (i * 10 + j) = show_nat i @ [48 + j]" "show_nat i = [48 + i]"
      using calculation by (simp_all add: show_nat_step del: distrib_right_numeral) (simp add: show_nat.simps [of i])
    ultimately show ?thesis unfolding r by (simp add: three del: distrib_right_numeral)
  qed
  then show "\<exists>n \<le> 255. s = show_nat n" using o by (auto simp: octet_text_def)
next
  assume "\<exists>n \<le> 255. s = show_nat n"
  then obtain n where n: "n \<le> 255" "s = show_nat n" by blast
  have "length s = 1 \<or> hd s \<noteq> 48"
    using n(2) show_nat_head [of n] by (cases "n = 0") (simp_all add: show_nat.simps [of 0])
  then show "octet_text s"
    using n show_nat_digits [of n] length_show_nat [of 3 n] by (simp add: octet_text_def)
qed

lemma push_or: "0 \<le> n \<Longrightarrow> n < 2 ^ k \<Longrightarrow> push_bit k v OR n = v * 2 ^ k + (n :: int)"
proof -
  assume "0 \<le> n" "n < 2 ^ k"
  then have n: "take_bit k n = n" by (simp add: take_bit_int_eq_self)
  have "push_bit k v AND n = 0"
  proof (rule bit_eqI)
    fix i
    have "bit n i \<Longrightarrow> i < k" using n by (metis bit_take_bit_iff)
    then show "bit (push_bit k v AND n) i = bit 0 i" by (auto simp: bit_and_iff bit_push_bit_iff)
  qed
  then have "push_bit k v + n = push_bit k v OR n" by (rule disjunctive_add_eq_or)
  then show ?thesis by (simp add: push_bit_eq_mult)
qed

definition dotted :: "nat \<Rightarrow> nat \<Rightarrow> nat \<Rightarrow> nat \<Rightarrow> jsstring" where
  "dotted a b c d = join [46] [show_nat a, show_nat b, show_nat c, show_nat d]"

definition quad :: "nat \<Rightarrow> nat \<Rightarrow> nat \<Rightarrow> nat \<Rightarrow> int" where
  "quad a b c d = ((int a * 256 + int b) * 256 + int c) * 256 + int d"

lemma is_ipv4_iff: "is_ipv4 s \<longleftrightarrow> (\<exists>a \<le> 255. \<exists>b \<le> 255. \<exists>c \<le> 255. \<exists>d \<le> 255. s = dotted a b c d)"
proof
  assume "is_ipv4 s"
  then obtain w x y z where p: "split_on 46 s = [w, x, y, z]" "octet_text w" "octet_text x" "octet_text y" "octet_text z"
    by (auto simp: is_ipv4_def Let_def numeral_eq_Suc length_Suc_conv)
  then have "s = join [46] [w, x, y, z]" using join_split_on [of 46 s] by simp
  then show "\<exists>a \<le> 255. \<exists>b \<le> 255. \<exists>c \<le> 255. \<exists>d \<le> 255. s = dotted a b c d"
    using p(2-5) unfolding octet_text_iff dotted_def by blast
next
  assume "\<exists>a \<le> 255. \<exists>b \<le> 255. \<exists>c \<le> 255. \<exists>d \<le> 255. s = dotted a b c d"
  then obtain a b c d where s: "s = dotted a b c d" "a \<le> 255" "b \<le> 255" "c \<le> 255" "d \<le> 255" by blast
  have "46 \<notin> set (show_nat n)" for n
    using show_nat_digits [of n] by (auto simp: list_all_iff digit_def)
  then have "split_on 46 s = [show_nat a, show_nat b, show_nat c, show_nat d]"
    using s(1) by (simp add: dotted_def split_on_append split_on_part)
  then show "is_ipv4 s" using s octet_text_iff by (auto simp: is_ipv4_def Let_def)
qed

lemma dotted_value: "a \<le> 255 \<Longrightarrow> b \<le> 255 \<Longrightarrow> c \<le> 255 \<Longrightarrow> d \<le> 255 \<Longrightarrow> dotted_value (dotted a b c d) = quad a b c d"
proof -
  assume n: "a \<le> 255" "b \<le> 255" "c \<le> 255" "d \<le> 255"
  have "46 \<notin> set (show_nat n)" for n
    using show_nat_digits [of n] by (auto simp: list_all_iff digit_def)
  then have "split_on 46 (dotted a b c d) = [show_nat a, show_nat b, show_nat c, show_nat d]"
    by (simp add: dotted_def split_on_append split_on_part)
  then show ?thesis using n push_or [of _ 8] by (simp add: dotted_value_def quad_def)
qed

lemma dotted_accepted:
  assumes "a \<le> 255" "b \<le> 255" "c \<le> 255" "d \<le> 255"
  shows "parseAddress (Some (dotted a b c d)) = Some \<lparr>ip_family = IPv4, ip_value = quad a b c d\<rparr>"
proof -
  have l: "length (show_nat n) \<le> 3" if "n \<le> 255" for n using that by (simp add: length_show_nat)
  have "length (dotted a b c d) \<le> 45"
    using l [OF assms(1)] l [OF assms(2)] l [OF assms(3)] l [OF assms(4)] by (simp add: dotted_def)
  moreover have "list_all (\<lambda>c. digit c \<or> c = 46) (dotted a b c d)"
    using show_nat_digits by (auto simp: dotted_def list_all_iff)
  then have "\<not> list_ex (\<lambda>c. js_space c \<or> c \<in> {37, 47, 91, 93}) (dotted a b c d)"
    by (auto simp: list_all_iff list_ex_iff js_space_def digit_def)
  moreover have "dotted a b c d \<noteq> []" by (simp add: dotted_def)
  moreover have "is_ipv4 (dotted a b c d)" using assms is_ipv4_iff by blast
  ultimately show ?thesis by (simp add: parseAddress_def isIP_def dotted_value assms)
qed

text \<open>An IPv4 address has one textual form: the parser reads exactly the four decimal octets
  without leading zeros, and reads their value; octal, abbreviated, hexadecimal, zoned and
  bracketed spellings are no IPv4 addresses.\<close>

theorem ipv4_text_unique:
  "parseAddress (Some s) = Some \<lparr>ip_family = IPv4, ip_value = v\<rparr> \<longleftrightarrow>
     (\<exists>a b c d. a \<le> 255 \<and> b \<le> 255 \<and> c \<le> 255 \<and> d \<le> 255 \<and> s = dotted a b c d \<and> v = quad a b c d)"
proof
  assume p: "parseAddress (Some s) = Some \<lparr>ip_family = IPv4, ip_value = v\<rparr>"
  then have "is_ipv4 s" "v = dotted_value s"
    by (auto simp: parseAddress_def isIP_def split: if_splits)
  then show "\<exists>a b c d. a \<le> 255 \<and> b \<le> 255 \<and> c \<le> 255 \<and> d \<le> 255 \<and> s = dotted a b c d \<and> v = quad a b c d"
    unfolding is_ipv4_iff using dotted_value by blast
qed (use dotted_accepted in blast)

section \<open>Destinations\<close>

text \<open>IPv4 blocks no policy opens: this host, private, shared, loopback, link-local, documentation,
  benchmarking and relay networks, multicast and reserved space; first and last address.\<close>

definition closed_v4 :: "(int \<times> int) list" where
  "closed_v4 = [(quad 0 0 0 0, quad 0 255 255 255), (quad 10 0 0 0, quad 10 255 255 255),
     (quad 100 64 0 0, quad 100 127 255 255), (quad 127 0 0 0, quad 127 255 255 255),
     (quad 169 254 0 0, quad 169 254 255 255), (quad 172 16 0 0, quad 172 31 255 255),
     (quad 192 0 2 0, quad 192 0 2 255), (quad 192 88 99 0, quad 192 88 99 255),
     (quad 192 168 0 0, quad 192 168 255 255), (quad 198 18 0 0, quad 198 19 255 255),
     (quad 198 51 100 0, quad 198 51 100 255), (quad 203 0 113 0, quad 203 0 113 255),
     (quad 224 0 0 0, quad 239 255 255 255), (quad 240 0 0 0, quad 255 255 255 255)]"

text \<open>C18. Whatever exceptions a policy names, an allowed destination parses as an address, is in none
  of the closed IPv4 blocks, and if it is IPv6 it lies in the global unicast space \<open>2000::/3\<close>
  outside the documentation and 6to4 prefixes; mapped, compatible, translated, unique-local,
  link-local and multicast addresses are all refused.\<close>

theorem policy_never_private:
  assumes "policy_allows selected input"
  shows "\<exists>a. parseAddress input = Some a \<and>
    (case ip_family a of
       IPv4 \<Rightarrow> \<forall>(lo, hi) \<in> set closed_v4. \<not> (lo \<le> ip_value a \<and> ip_value a \<le> hi)
     | IPv6 \<Rightarrow> 2 ^ 125 \<le> ip_value a \<and> ip_value a < 2 ^ 126 \<and>
         ip_value a div 2 ^ 96 \<noteq> 0x20010DB8 \<and> ip_value a div 2 ^ 112 \<noteq> 0x2002)"
proof -
  from assms obtain a where a: "parseAddress input = Some a" "allowed selected a"
    by (auto simp: policy_allows_def split: option.splits)
  have "case ip_family a of
       IPv4 \<Rightarrow> \<forall>(lo, hi) \<in> set closed_v4. \<not> (lo \<le> ip_value a \<and> ip_value a \<le> hi)
     | IPv6 \<Rightarrow> 2 ^ 125 \<le> ip_value a \<and> ip_value a < 2 ^ 126 \<and>
         ip_value a div 2 ^ 96 \<noteq> 0x20010DB8 \<and> ip_value a div 2 ^ 112 \<noteq> 0x2002"
  proof (cases "admitted a")
    case True
    then show ?thesis
      by (cases "ip_family a")
        (simp_all add: admitted_def excluded_prefixes_def closed_v4_def quad_def div_range flip: zle_add1_eq_le)
  next
    case False
    then have "\<exists>x. ip_prefix (fst (exception_prefix x)) (snd (exception_prefix x)) a"
      using a(2) by (auto simp: allowed_def list_ex_iff split_beta)
    then obtain x where "ip_prefix (fst (exception_prefix x)) (snd (exception_prefix x)) a" ..
    then show ?thesis
      by (cases x) (auto simp: closed_v4_def quad_def div_range)
  qed
  with a(1) show ?thesis by blast
qed

theorem policy_never_private_witness:
  "\<exists>a. parseAddress (Some (lit ''192.0.0.9'')) = Some a \<and>
    (case ip_family a of
       IPv4 \<Rightarrow> \<forall>(lo, hi) \<in> set closed_v4. \<not> (lo \<le> ip_value a \<and> ip_value a \<le> hi)
     | IPv6 \<Rightarrow> 2 ^ 125 \<le> ip_value a \<and> ip_value a < 2 ^ 126 \<and>
         ip_value a div 2 ^ 96 \<noteq> 0x20010DB8 \<and> ip_value a div 2 ^ 112 \<noteq> 0x2002)"
proof (rule policy_never_private)
  have "parseAddress (Some (lit ''192.0.0.9'')) = Some \<lparr>ip_family = IPv4, ip_value = 0xC0000009\<rparr>"
    by (simp add: address_eval)
  then show "policy_allows [PcpAnycastV4] (Some (lit ''192.0.0.9''))"
    by (simp add: policy_allows_def allowed_def del: lit_Cons)
qed

lemma parsed_range: "parseAddress input = Some a \<Longrightarrow> ip_family a = IPv4 \<Longrightarrow> 0 \<le> ip_value a \<and> ip_value a < 2 ^ 32"
proof -
  assume p: "parseAddress input = Some a" "ip_family a = IPv4"
  then obtain s where "is_ipv4 s" "ip_value a = dotted_value s"
    by (auto simp: parseAddress_def isIP_def split: if_splits option.splits ip_family.splits)
  then obtain w x y z where q: "w \<le> 255" "x \<le> 255" "y \<le> 255" "z \<le> 255" "s = dotted w x y z"
    unfolding is_ipv4_iff by blast
  have "ip_value a = quad w x y z" using dotted_value [OF q(1-4)] \<open>ip_value a = _\<close> q(5) by simp
  then show ?thesis using q(1-4) by (simp add: quad_def)
qed

lemma div_mod_range: "0 \<le> w \<Longrightarrow> w < d \<Longrightarrow> v div d = m \<and> v mod d = w \<longleftrightarrow> v = m * d + (w :: int)"
  using div_mult_mod_eq [of v d] by (auto simp: div_add1_eq)

text \<open>C38. A connected peer matches a pinned destination exactly when the pin is allowed and the
  peer is the same address, or the IPv4-mapped IPv6 form of an IPv4 pin.\<close>

theorem pinned_peer_exact:
  "matchesPeer selected pinned peer \<longleftrightarrow>
     (\<exists>e a. parseAddress pinned = Some e \<and> parseAddress peer = Some a \<and> allowed selected e \<and>
       (a = e \<or> (ip_family e = IPv4 \<and> ip_family a = IPv6 \<and> ip_value a = 0xFFFF * 2 ^ 32 + ip_value e)))"
proof (cases "parseAddress pinned"; cases "parseAddress peer")
  fix e a assume p: "parseAddress pinned = Some e" "parseAddress peer = Some a"
  have "a = e \<longleftrightarrow> ip_family a = ip_family e \<and> ip_value a = ip_value e"
    by (cases a; cases e) auto
  moreover have "drop_bit 32 v = 0xFFFF \<and> (v AND 0xFFFFFFFF) = ip_value e \<longleftrightarrow> v = 0xFFFF * 2 ^ 32 + ip_value e"
    if "ip_family e = IPv4" for v
  proof -
    have "v AND 0xFFFFFFFF = v mod 2 ^ 32"
      using take_bit_eq_mask [of 32 v] by (simp add: take_bit_eq_mod mask_eq_exp_minus_1)
    with div_mod_range [of "ip_value e" "2 ^ 32" v "0xFFFF"] parsed_range [OF p(1) that] show ?thesis
      by (simp add: drop_bit_eq_div)
  qed
  ultimately show ?thesis by (auto simp: matchesPeer_def p)
qed (simp_all add: matchesPeer_def)

end
