(* ===== verification/ProfileScreen.thy ===== *)
theory ProfileScreen
  imports CoreInput ProfileDefaults
begin

text \<open>
  Screening of repeated names, \<^verbatim>\<open>profiles/duplicates.ts\<close>, and the selection of the candidates,
  \<^verbatim>\<open>profiles/candidates.ts\<close>. The exceptions of the profile layer are values of
  \<open>candidate_error\<close>; their diagnostic texts are not modelled.
\<close>

section \<open>Errors of the profile layer\<close>

text \<open>\<open>CandidateRejection\<close>, \<open>ProfileConfigurationError\<close>, an error of the core, or an internal
  \<open>Error\<close>.\<close>

datatype candidate_error =
    CandidateRejection profile_rejection
  | ProfileConfigurationError configuration_code
  | CoreFailure core_error
  | InternalFailure

definition core_result :: "core_error + 'a \<Rightarrow> candidate_error + 'a" where
  "core_result r = (case r of Inl e \<Rightarrow> Inl (CoreFailure e) | Inr x \<Rightarrow> Inr x)"

lemma core_result_Inr [simp]: "core_result r = Inr x \<longleftrightarrow> r = Inr x"
  by (simp add: core_result_def split: sum.split)

lemma core_result_simps [simp]: "core_result (Inr x) = Inr x" "core_result (Inl e) = Inl (CoreFailure e)"
  by (simp_all add: core_result_def)

text \<open>The resolved limits of the core passed as overrides.\<close>

definition core_options :: "core_limits \<Rightarrow> core_option js_options" where
  "core_options l = OwnKeys
     (map (\<lambda>n. (StringKey (core_limit_key n), CoreNumber (JsInt (int (core_limit_of l n))))) core_limit_names
      @ [(StringKey (lit ''structuredFields''), CoreOptions (sf_options (structuredFields l)))])"

section \<open>Repeated names\<close>

definition parameter_duplicates :: "invalid_code \<Rightarrow> raw_parameter list \<Rightarrow> candidate_error + unit" where
  "parameter_duplicates failure ps =
     (if distinct (map rp_key ps) then Inr () else Inl (CandidateRejection (Invalid failure)))"

definition item_duplicates :: "invalid_code \<Rightarrow> raw_item \<Rightarrow> candidate_error + unit" where
  "item_duplicates failure i = parameter_duplicates failure (ri_parameters i)"

fun member_duplicates :: "invalid_code \<Rightarrow> raw_member \<Rightarrow> candidate_error + unit" where
  "member_duplicates failure (RItem i) = item_duplicates failure i"
| "member_duplicates failure (RInnerList l) =
     bindE (parameter_duplicates failure (ril_parameters l)) (\<lambda>_.
     foldE (\<lambda>_. item_duplicates failure) () (ril_items l))"

definition entry_duplicates ::
    "invalid_code \<Rightarrow> jsstring list \<Rightarrow> raw_dictionary_entry \<Rightarrow> candidate_error + jsstring list" where
  "entry_duplicates failure seen e =
     (if rde_key e \<in> set seen then Inl (CandidateRejection (Invalid failure))
      else bindE (member_duplicates failure (rde_member e)) (\<lambda>_. Inr (rde_key e # seen)))"

definition dictionary_duplicates :: "invalid_code \<Rightarrow> raw_dictionary_entry list \<Rightarrow> candidate_error + unit" where
  "dictionary_duplicates failure es = bindE (foldE (entry_duplicates failure) [] es) (\<lambda>_. Inr ())"

text \<open>\<open>screen\<close>: an error of the class \<open>SignatureError\<close> becomes a rejection.\<close>

fun screen_error :: "invalid_code \<Rightarrow> candidate_error \<Rightarrow> candidate_error" where
  "screen_error failure (CoreFailure e) =
     (case signature_reason e of
        None \<Rightarrow> CoreFailure e
      | Some reason \<Rightarrow> CandidateRejection
          (if reason = RResourceLimit then Unverified ResourceLimit else Invalid failure))"
| "screen_error failure e = e"

definition screen :: "invalid_code \<Rightarrow> candidate_error + 'a \<Rightarrow> candidate_error + 'a" where
  "screen failure r = (case r of Inl e \<Rightarrow> Inl (screen_error failure e) | Inr x \<Rightarrow> Inr x)"

definition screen_field ::
    "header_fields \<Rightarrow> core_limits \<Rightarrow> nat \<Rightarrow> jsstring \<Rightarrow> candidate_error + nat" where
  "screen_field headers limits so_far name =
     bindE (core_result (fieldValues headers name None)) (\<lambda>vs.
     if vs = [] then Inr so_far
     else
       bindE (core_result (bindE (combineValues vs limits SignatureHeaderBytes) requireAscii)) (\<lambda>t.
       let so_far' = so_far + length t in
       bindE (core_result (checkLimit limits SignatureHeaderBytes so_far')) (\<lambda>_.
       bindE (core_result (withSfErrors (parseRaw (InText t) TDictionary (sf_options (structuredFields limits))))) (\<lambda>raw.
       let es = raw_entries (rdoc_root raw) in
       bindE (core_result (checkLimit limits Signatures (length es))) (\<lambda>_.
       bindE (dictionary_duplicates MalformedSignature es) (\<lambda>_. Inr so_far'))))))"

definition assertNoSignatureDuplicates :: "header_fields \<Rightarrow> core_limits \<Rightarrow> candidate_error + unit" where
  "assertNoSignatureDuplicates headers limits =
     screen MalformedSignature (
       bindE (core_result (validateHeaders headers limits)) (\<lambda>_.
       bindE (foldE (screen_field headers limits) 0 [lit ''signature-input'', lit ''signature'']) (\<lambda>_. Inr ())))"

fun root_item :: "raw_field \<Rightarrow> raw_item option" where
  "root_item (RFItem i) = Some i"
| "root_item _ = None"

definition assertNoAgentDuplicates :: "jsstring \<Rightarrow> core_limits \<Rightarrow> candidate_error + unit" where
  "assertNoAgentDuplicates t limits =
     screen MalformedAgent (
       bindE (core_result (checkLimit limits MessageHeaderBytes (length t))) (\<lambda>_.
       bindE (core_result (requireAscii t)) (\<lambda>_.
       let options = sf_options (structuredFields limits) in
       if take 1 (dropWhile ows t) = [34] then
         bindE (core_result (withSfErrors (parseRaw (InText t) TItem options))) (\<lambda>raw.
         case root_item (rdoc_root raw) of
           Some i \<Rightarrow> item_duplicates MalformedAgent i
         | None \<Rightarrow> Inl InternalFailure)
       else
         bindE (core_result (withSfErrors (parseRaw (InText t) TDictionary options))) (\<lambda>raw.
         dictionary_duplicates MalformedAgent (raw_entries (rdoc_root raw))))))"

section \<open>Selection\<close>

datatype candidate_selection =
    Unsigned unsigned_code
  | Selected "parsed_signature list" "parsed_signature list"

definition web_bot_auth :: "parsed_signature \<Rightarrow> bool" where
  "web_bot_auth s \<longleftrightarrow>
     getParameter (sig_parameters (signature_of_input s)) (lit ''tag'') = Some (SfString (lit ''web-bot-auth''))"

definition push_candidate ::
    "nat \<Rightarrow> parsed_signature list \<Rightarrow> parsed_signature \<Rightarrow> candidate_error + parsed_signature list" where
  "push_candidate maximum candidates s =
     (if \<not> web_bot_auth s then Inr candidates
      else if maximum \<le> length candidates then Inl (CandidateRejection (Unverified ResourceLimit))
      else Inr (candidates @ [s]))"

definition selectWebBotAuthCandidates ::
    "header_fields \<Rightarrow> core_option js_options \<Rightarrow> js_number \<Rightarrow> candidate_error + candidate_selection" where
  "selectWebBotAuthCandidates headers overrides maximum =
     (case maximum of
        JsNotInteger \<Rightarrow> Inl (ProfileConfigurationError InvalidResourceLimits)
      | JsInt n \<Rightarrow>
          if \<not> is_safe_integer n \<or> n < 0 then Inl (ProfileConfigurationError InvalidResourceLimits)
          else
            bindE (core_result (resolveCoreLimits overrides)) (\<lambda>limits.
            bindE (screen MalformedSignature (
              bindE (assertNoSignatureDuplicates headers limits) (\<lambda>_.
              core_result (parseSignatureHeaders headers (core_options limits))))) (\<lambda>signatures.
            if signatures = [] then Inr (Unsigned NoSignature)
            else
              bindE (foldE (push_candidate (nat n)) [] signatures) (\<lambda>candidates.
              if candidates = [] then Inr (Unsigned NoWebBotAuthCandidate)
              else Inr (Selected signatures candidates)))))"

end
