(* ===== verification/MemoryReplay.thy ===== *)
theory MemoryReplay
  imports ProfileDefaults
begin

text \<open>
  The process-local replay memory, \<^verbatim>\<open>memory-replay-store.ts\<close>. The state of the closure is a
  record; \<open>consume\<close> and \<open>clearForClockReset\<close> are its operations. \<open>nextExpiry\<close> is \<open>None\<close> for
  \<open>Infinity\<close>. At the end the abstract specification of a replay store, an interface other
  components rely on, as a locale, interpreted on this store.
\<close>

section \<open>The store\<close>

record replay_entry =
  keyThumbprint :: jsstring
  retainedUntil :: nat

record replay_memory =
  entries :: "(jsstring \<times> replay_entry) list"
  perKey :: "(jsstring \<times> nat) list"
  nextExpiry :: "nat option"
  lastNow :: nat

definition new_replay_memory :: replay_memory where
  "new_replay_memory = \<lparr>entries = [], perKey = [], nextExpiry = None, lastNow = 0\<rparr>"

definition min_expiry :: "nat option \<Rightarrow> nat \<Rightarrow> nat option" where
  "min_expiry next until = (case next of None \<Rightarrow> Some until | Some n \<Rightarrow> Some (min n until))"

definition before_expiry :: "nat \<Rightarrow> nat option \<Rightarrow> bool" where
  "before_expiry now next = (case next of None \<Rightarrow> True | Some n \<Rightarrow> now < n)"

definition release_key :: "jsstring \<Rightarrow> (jsstring \<times> nat) list \<Rightarrow> (jsstring \<times> nat) list" where
  "release_key thumbprint counts =
     (let count = the (map_of counts thumbprint) - 1 in
      if count = 0 then map_delete thumbprint counts else map_set thumbprint count counts)"

text \<open>One round of the loop over the entries; deleting the current entry of a \<open>Map\<close> does not
  disturb the iteration, which visits the entries there were at its start.\<close>

definition expire_entry :: "nat \<Rightarrow> replay_memory \<Rightarrow> jsstring \<times> replay_entry \<Rightarrow> replay_memory" where
  "expire_entry now s e =
     (if retainedUntil (snd e) \<le> now
      then s\<lparr>entries := map_delete (fst e) (entries s),
             perKey := release_key (keyThumbprint (snd e)) (perKey s)\<rparr>
      else s\<lparr>nextExpiry := min_expiry (nextExpiry s) (retainedUntil (snd e))\<rparr>)"

definition expire :: "nat \<Rightarrow> replay_memory \<Rightarrow> replay_memory" where
  "expire now s =
     (if before_expiry now (nextExpiry s) then s
      else foldl (expire_entry now) (s\<lparr>nextExpiry := None\<rparr>) (entries s))"

text \<open>The argument of \<open>consume\<close>: not an object, or an object seen through its own data
  properties (\<open>JsOther\<close> for a missing one).\<close>

datatype consume_argument = NotAnInput | Fields "string \<Rightarrow> js_value"

record consume_input =
  ci_scope :: jsstring
  ci_thumbprint :: jsstring
  ci_nonce :: jsstring
  ci_now :: nat
  ci_until :: nat

definition base64url_char :: "nat \<Rightarrow> bool" where
  "base64url_char c \<longleftrightarrow> alpha c \<or> digit c \<or> c = 95 \<or> c = 45"

definition canonical_thumbprint :: "jsstring \<Rightarrow> bool" where
  "canonical_thumbprint t \<longleftrightarrow> length t = 43 \<and> list_all base64url_char t \<and>
     length (base64_decode t) = 32 \<and> base64url_encode (base64_decode t) = t"

fun second :: "js_value \<Rightarrow> nat option" where
  "second (JsNumber (JsInt n)) = (if is_safe_integer n \<and> 0 \<le> n then Some (nat n) else None)"
| "second _ = None"

fun string_of :: "js_value \<Rightarrow> jsstring option" where
  "string_of (JsString s) = Some s"
| "string_of _ = None"

definition valid_consume :: "profile_limits \<Rightarrow> nat \<Rightarrow> consume_argument \<Rightarrow> consume_input option" where
  "valid_consume limits previous arg =
     (case arg of
        NotAnInput \<Rightarrow> None
      | Fields data \<Rightarrow>
          (case (string_of (data ''scope''), string_of (data ''keyThumbprint''), string_of (data ''nonce''),
                 second (data ''nowEpochSeconds''), second (data ''retainUntilEpochSeconds'')) of
             (Some scope, Some thumbprint, Some nonce, Some now, Some until) \<Rightarrow>
               if scope = [] \<or> maxScopeBytes limits < length scope \<or> \<not> list_all ascii scope \<or>
                  \<not> isValidNonce (JsString nonce) (maxNonceBytes limits) \<or>
                  until \<le> now \<or> now < previous \<or> \<not> canonical_thumbprint thumbprint
               then None
               else Some \<lparr>ci_scope = scope, ci_thumbprint = thumbprint, ci_nonce = nonce,
                          ci_now = now, ci_until = until\<rparr>
           | _ \<Rightarrow> None))"

definition identity_of :: "consume_input \<Rightarrow> jsstring" where
  "identity_of i = json_array [ci_scope i, ci_thumbprint i, ci_nonce i]"

definition admit :: "replay_policy \<Rightarrow> consume_input \<Rightarrow> replay_memory \<Rightarrow> store_outcome \<times> replay_memory" where
  "admit policy i s0 =
     (let s = expire (ci_now i) (s0\<lparr>lastNow := ci_now i\<rparr>);
          identity = identity_of i;
          count = (case map_of (perKey s) (ci_thumbprint i) of None \<Rightarrow> 0 | Some c \<Rightarrow> c) in
      if identity \<in> fst ` set (entries s) then (Replayed, s)
      else if maxPerKey policy \<le> count then (PerKeyQuotaExceeded, s)
      else if capacity policy \<le> length (entries s) then (Unavailable, s)
      else (Accepted, s\<lparr>
        entries := map_set identity \<lparr>keyThumbprint = ci_thumbprint i, retainedUntil = ci_until i\<rparr> (entries s),
        perKey := map_set (ci_thumbprint i) (count + 1) (perKey s),
        nextExpiry := min_expiry (nextExpiry s) (ci_until i)\<rparr>))"

definition consume_replay ::
    "replay_policy \<Rightarrow> profile_limits \<Rightarrow> consume_argument \<Rightarrow> replay_memory \<Rightarrow> store_outcome \<times> replay_memory" where
  "consume_replay policy limits arg s =
     (case valid_consume limits (lastNow s) arg of
        None \<Rightarrow> (Unavailable, s)
      | Some i \<Rightarrow> admit policy i s)"

record cleanup_report =
  clearedRecords :: nat
  clearedQuotaCounters :: nat

definition clearForClockReset :: "replay_memory \<Rightarrow> cleanup_report \<times> replay_memory" where
  "clearForClockReset s =
     (\<lparr>clearedRecords = length (entries s), clearedQuotaCounters = length (perKey s)\<rparr>, new_replay_memory)"

section \<open>Invariant\<close>

definition owned :: "jsstring \<Rightarrow> (jsstring \<times> replay_entry) list \<Rightarrow> nat" where
  "owned t es = length (filter (\<lambda>e. keyThumbprint (snd e) = t) es)"

definition count_at :: "(jsstring \<times> nat) list \<Rightarrow> jsstring \<Rightarrow> nat" where
  "count_at counts t = (case map_of counts t of None \<Rightarrow> 0 | Some c \<Rightarrow> c)"

definition not_later :: "nat option \<Rightarrow> nat \<Rightarrow> bool" where
  "not_later next until \<longleftrightarrow> (case next of None \<Rightarrow> False | Some n \<Rightarrow> n \<le> until)"

text \<open>Counters are exact and never zero, and \<open>nextExpiry\<close> is no later than any deadline.\<close>

definition counters_exact :: "replay_memory \<Rightarrow> bool" where
  "counters_exact s \<longleftrightarrow> distinct (map fst (entries s)) \<and> distinct (map fst (perKey s)) \<and>
     (\<forall>t. count_at (perKey s) t = owned t (entries s)) \<and> 0 \<notin> snd ` set (perKey s)"

definition replay_inv :: "replay_policy \<Rightarrow> replay_memory \<Rightarrow> bool" where
  "replay_inv policy s \<longleftrightarrow> counters_exact s \<and>
     (\<forall>e \<in> set (entries s). not_later (nextExpiry s) (retainedUntil (snd e))) \<and>
     length (entries s) \<le> capacity policy \<and> (\<forall>t. owned t (entries s) \<le> maxPerKey policy)"

lemma owned_simps [simp]:
  "owned t [] = 0"
  "owned t (e # es) = (if keyThumbprint (snd e) = t then Suc (owned t es) else owned t es)"
  by (simp_all add: owned_def)

lemma owned_append [simp]: "owned t (es @ fs) = owned t es + owned t fs"
  by (simp add: owned_def)

lemma owned_filter_le: "owned t (filter P es) \<le> owned t es"
  by (induction es) auto

lemma map_delete_simps [simp]:
  "map_delete k [] = []"
  "map_delete k (e # es) = (if fst e = k then map_delete k es else e # map_delete k es)"
  "map_delete k (es @ fs) = map_delete k es @ map_delete k fs"
  by (simp_all add: map_delete_def)

lemma map_delete_absent: "k \<notin> fst ` set es \<Longrightarrow> map_delete k es = es"
  by (induction es) auto

lemma owned_map_delete:
  "distinct (map fst es) \<Longrightarrow> (k, e) \<in> set es \<Longrightarrow>
   owned t (map_delete k es) = (if keyThumbprint e = t then owned t es - 1 else owned t es)"
proof (induction es)
  case (Cons x es)
  show ?case
  proof (cases "fst x = k")
    case True
    then have k: "k \<notin> fst ` set es" using Cons.prems(1) by auto
    then have "(k, e) \<notin> set es" by force
    then have "x = (k, e)" using Cons.prems(2) by auto
    with k show ?thesis by (simp add: map_delete_absent)
  next
    case False
    then have mem: "(k, e) \<in> set es" using Cons.prems(2) by auto
    have "0 < owned (keyThumbprint e) es" using mem by (induction es) auto
    with Cons.IH [OF _ mem] Cons.prems(1) False show ?thesis by auto
  qed
qed simp

lemma count_at_map_set [simp]: "count_at (map_set k v m) t = (if t = k then v else count_at m t)"
  by (simp add: count_at_def)

lemma count_at_map_delete [simp]: "count_at (map_delete k m) t = (if t = k then 0 else count_at m t)"
  by (simp add: count_at_def)

lemma values_map_set: "snd ` set (map_set k v m) \<subseteq> insert v (snd ` set m)"
  by (induction k v m rule: map_set.induct) auto

lemma release_key_exact:
  assumes "0 < count_at m t"
  shows "count_at (release_key t m) u = (if u = t then count_at m t - 1 else count_at m u)"
    and "0 \<notin> snd ` set m \<Longrightarrow> 0 \<notin> snd ` set (release_key t m)"
    and "distinct (map fst m) \<Longrightarrow> distinct (map fst (release_key t m))"
proof -
  obtain c where c: "map_of m t = Some c" "0 < c" "count_at m t = c"
    using assms by (auto simp: count_at_def split: option.splits)
  show "count_at (release_key t m) u = (if u = t then count_at m t - 1 else count_at m u)"
    using c by (auto simp: release_key_def Let_def)
  show "0 \<notin> snd ` set m \<Longrightarrow> 0 \<notin> snd ` set (release_key t m)"
    using values_map_set [of t "c - 1" m] c by (auto simp: release_key_def Let_def set_map_delete)
  show "distinct (map fst m) \<Longrightarrow> distinct (map fst (release_key t m))"
    by (auto simp: release_key_def Let_def)
qed

text \<open>The loop of \<open>expire\<close> removes exactly the entries whose deadline has passed, keeps the
  counters exact, and leaves \<open>nextExpiry\<close> no later than any of the deadlines it kept.\<close>

lemma expire_entry_exact:
  assumes "counters_exact s" "e \<in> set (entries s)"
  shows "counters_exact (expire_entry now s e)"
proof (cases "retainedUntil (snd e) \<le> now")
  case True
  let ?t = "keyThumbprint (snd e)"
  have e: "(fst e, snd e) \<in> set (entries s)" using assms(2) by simp
  have pos: "0 < owned ?t (entries s)" using assms(2) by (auto simp: owned_def filter_empty_conv)
  have d: "distinct (map fst (entries s))" using assms(1) by (simp add: counters_exact_def)
  show ?thesis
    using assms(1) True owned_map_delete [OF d e] release_key_exact [of "perKey s" ?t] pos
    by (auto simp: counters_exact_def expire_entry_def)
next
  case False
  with assms show ?thesis by (simp add: counters_exact_def expire_entry_def)
qed

definition live :: "nat \<Rightarrow> (jsstring \<times> replay_entry) list \<Rightarrow> (jsstring \<times> replay_entry) list" where
  "live now es = filter (\<lambda>e. now < retainedUntil (snd e)) es"

lemma not_later_min: "not_later (min_expiry n u) u" "not_later n v \<Longrightarrow> not_later (min_expiry n u) v"
  by (auto simp: not_later_def min_expiry_def split: option.splits)

lemma expire_loop:
  assumes "counters_exact s" "entries s = done @ todo"
    and "\<forall>e \<in> set done. not_later (nextExpiry s) (retainedUntil (snd e))"
  shows "let s' = foldl (expire_entry now) s todo in
    entries s' = done @ live now todo \<and> counters_exact s' \<and> lastNow s' = lastNow s \<and>
    (\<forall>e \<in> set (entries s'). not_later (nextExpiry s') (retainedUntil (snd e)))"
  using assms
proof (induction todo arbitrary: s "done")
  case Nil
  then show ?case by (simp add: live_def)
next
  case (Cons e todo)
  let ?s = "expire_entry now s e"
  have ex: "counters_exact ?s" using Cons.prems by (intro expire_entry_exact) auto
  show ?case
  proof (cases "retainedUntil (snd e) \<le> now")
    case True
    have "distinct (map fst (done @ e # todo))" using Cons.prems(1,2) by (simp add: counters_exact_def)
    then have "map_delete (fst e) (done @ e # todo) = done @ todo"
      by (auto simp: map_delete_absent)
    then have "entries ?s = done @ todo" using True Cons.prems(2) by (simp add: expire_entry_def)
    from Cons.IH [OF ex this] Cons.prems(3) True show ?thesis
      by (simp add: expire_entry_def live_def)
  next
    case False
    then have "entries ?s = (done @ [e]) @ todo" using Cons.prems(2) by (simp add: expire_entry_def)
    from Cons.IH [OF ex this] Cons.prems(3) False show ?thesis
      by (auto simp: expire_entry_def live_def Let_def not_later_min)
  qed
qed

lemma expire_facts:
  assumes "counters_exact s" "\<forall>e \<in> set (entries s). not_later (nextExpiry s) (retainedUntil (snd e))"
  shows "entries (expire now s) = live now (entries s)" "counters_exact (expire now s)"
    "lastNow (expire now s) = lastNow s"
    "\<forall>e \<in> set (entries (expire now s)). not_later (nextExpiry (expire now s)) (retainedUntil (snd e))"
proof -
  have all: "entries (expire now s) = live now (entries s) \<and> counters_exact (expire now s) \<and>
    lastNow (expire now s) = lastNow s \<and>
    (\<forall>e \<in> set (entries (expire now s)). not_later (nextExpiry (expire now s)) (retainedUntil (snd e)))"
  proof (cases "before_expiry now (nextExpiry s)")
    case True
    then have "\<forall>e \<in> set (entries s). now < retainedUntil (snd e)"
      using assms(2) by (fastforce simp: before_expiry_def not_later_def split: option.splits)
    then have "live now (entries s) = entries s" by (simp add: live_def filter_id_conv)
    with True assms show ?thesis by (simp add: expire_def)
  next
    case False
    have "counters_exact (s\<lparr>nextExpiry := None\<rparr>)" using assms(1) by (simp add: counters_exact_def)
    from expire_loop [OF this, of "[]" "entries s" now] False show ?thesis
      by (simp add: expire_def Let_def)
  qed
  then show "entries (expire now s) = live now (entries s)" "counters_exact (expire now s)"
    "lastNow (expire now s) = lastNow s"
    "\<forall>e \<in> set (entries (expire now s)). not_later (nextExpiry (expire now s)) (retainedUntil (snd e))"
    by simp_all
qed

lemma owned_live_le: "owned t (live now es) \<le> owned t es"
  by (simp add: live_def owned_filter_le)

lemma expire_inv: "replay_inv policy s \<Longrightarrow> replay_inv policy (expire now s)"
proof -
  assume inv: "replay_inv policy s"
  then have c: "counters_exact s" "\<forall>e \<in> set (entries s). not_later (nextExpiry s) (retainedUntil (snd e))"
    by (auto simp: replay_inv_def)
  have "length (live now (entries s)) \<le> length (entries s)" by (simp add: live_def)
  then show ?thesis
    using inv expire_facts [OF c, of now] le_trans [OF owned_live_le]
    by (auto simp: replay_inv_def)
qed

lemma expire_lastNow [simp]: "expire now (s\<lparr>lastNow := n\<rparr>) = (expire now s)\<lparr>lastNow := n\<rparr>"
proof -
  have step: "expire_entry now (s\<lparr>lastNow := n\<rparr>) e = (expire_entry now s e)\<lparr>lastNow := n\<rparr>" for s e
    by (simp add: expire_entry_def)
  have "foldl (expire_entry now) (s\<lparr>lastNow := n\<rparr>) es = (foldl (expire_entry now) s es)\<lparr>lastNow := n\<rparr>" for s es
    by (induction es arbitrary: s) (auto simp: step)
  from this [of "s\<lparr>nextExpiry := None\<rparr>" "entries s"]
  have "foldl (expire_entry now) (s\<lparr>lastNow := n, nextExpiry := None\<rparr>) (entries s)
      = (foldl (expire_entry now) (s\<lparr>nextExpiry := None\<rparr>) (entries s))\<lparr>lastNow := n\<rparr>"
    by (metis replay_memory.surjective replay_memory.update_convs(3,4))
  then show ?thesis by (simp add: expire_def)
qed

lemma replay_inv_lastNow [simp]: "replay_inv policy (s\<lparr>lastNow := n\<rparr>) = replay_inv policy s"
  by (simp add: replay_inv_def counters_exact_def)

lemma inv_insert:
  assumes inv: "replay_inv policy s" and fresh: "k \<notin> fst ` set (entries s)"
    and quota: "owned t (entries s) < maxPerKey policy" and cap: "length (entries s) < capacity policy"
  shows "replay_inv policy (s\<lparr>
    entries := map_set k \<lparr>keyThumbprint = t, retainedUntil = u\<rparr> (entries s),
    perKey := map_set t (count_at (perKey s) t + 1) (perKey s),
    nextExpiry := min_expiry (nextExpiry s) u\<rparr>)"
proof -
  have "map_set k \<lparr>keyThumbprint = t, retainedUntil = u\<rparr> (entries s)
      = entries s @ [(k, \<lparr>keyThumbprint = t, retainedUntil = u\<rparr>)]"
    using fresh by (rule map_set_fresh)
  moreover have "0 \<notin> snd ` set (map_set t (count_at (perKey s) t + 1) (perKey s))"
    using inv values_map_set [of t "count_at (perKey s) t + 1" "perKey s"]
    by (auto simp: replay_inv_def counters_exact_def)
  ultimately show ?thesis
    using inv fresh quota cap
    by (auto simp: replay_inv_def counters_exact_def not_later_min distinct_map_set)
qed

lemma admit_cases:
  fixes i :: consume_input
  assumes inv: "replay_inv policy s"
  defines "L \<equiv> live (ci_now i) (entries s)"
  shows "(identity_of i \<in> fst ` set L \<Longrightarrow> fst (admit policy i s) = Replayed)"
    and "(identity_of i \<notin> fst ` set L \<Longrightarrow> maxPerKey policy \<le> owned (ci_thumbprint i) L \<Longrightarrow>
           fst (admit policy i s) = PerKeyQuotaExceeded)"
    and "(identity_of i \<notin> fst ` set L \<Longrightarrow> owned (ci_thumbprint i) L < maxPerKey policy \<Longrightarrow>
           capacity policy \<le> length L \<Longrightarrow> fst (admit policy i s) = Unavailable)"
    and "(identity_of i \<notin> fst ` set L \<Longrightarrow> owned (ci_thumbprint i) L < maxPerKey policy \<Longrightarrow>
           length L < capacity policy \<Longrightarrow> fst (admit policy i s) = Accepted)"
    and "entries (snd (admit policy i s)) = (if fst (admit policy i s) = Accepted
           then L @ [(identity_of i, \<lparr>keyThumbprint = ci_thumbprint i, retainedUntil = ci_until i\<rparr>)] else L)"
    and "replay_inv policy (snd (admit policy i s))"
    and "lastNow (snd (admit policy i s)) = ci_now i"
proof -
  define e where "e = expire (ci_now i) (s\<lparr>lastNow := ci_now i\<rparr>)"
  have c: "counters_exact s" "\<forall>e \<in> set (entries s). not_later (nextExpiry s) (retainedUntil (snd e))"
    using inv by (auto simp: replay_inv_def)
  have e: "entries e = L" "replay_inv policy e" "lastNow e = ci_now i"
    using expire_facts [OF c] expire_inv [OF inv] by (auto simp: e_def L_def)
  have count: "(case map_of (perKey e) t of None \<Rightarrow> 0 | Some c \<Rightarrow> c) = owned t L" for t
    using e by (simp add: replay_inv_def counters_exact_def count_at_def [symmetric])
  have a: "admit policy i s =
     (if identity_of i \<in> fst ` set L then (Replayed, e)
      else if maxPerKey policy \<le> owned (ci_thumbprint i) L then (PerKeyQuotaExceeded, e)
      else if capacity policy \<le> length L then (Unavailable, e)
      else (Accepted, e\<lparr>
        entries := map_set (identity_of i) \<lparr>keyThumbprint = ci_thumbprint i, retainedUntil = ci_until i\<rparr> (entries e),
        perKey := map_set (ci_thumbprint i) (count_at (perKey e) (ci_thumbprint i) + 1) (perKey e),
        nextExpiry := min_expiry (nextExpiry e) (ci_until i)\<rparr>))"
    unfolding admit_def e_def [symmetric] Let_def count
    by (simp add: e(1) count count_at_def)
  show "identity_of i \<in> fst ` set L \<Longrightarrow> fst (admit policy i s) = Replayed"
    "identity_of i \<notin> fst ` set L \<Longrightarrow> maxPerKey policy \<le> owned (ci_thumbprint i) L \<Longrightarrow>
       fst (admit policy i s) = PerKeyQuotaExceeded"
    "identity_of i \<notin> fst ` set L \<Longrightarrow> owned (ci_thumbprint i) L < maxPerKey policy \<Longrightarrow>
       capacity policy \<le> length L \<Longrightarrow> fst (admit policy i s) = Unavailable"
    "identity_of i \<notin> fst ` set L \<Longrightarrow> owned (ci_thumbprint i) L < maxPerKey policy \<Longrightarrow>
       length L < capacity policy \<Longrightarrow> fst (admit policy i s) = Accepted"
    by (simp_all add: a)
  show "entries (snd (admit policy i s)) = (if fst (admit policy i s) = Accepted
      then L @ [(identity_of i, \<lparr>keyThumbprint = ci_thumbprint i, retainedUntil = ci_until i\<rparr>)] else L)"
    "lastNow (snd (admit policy i s)) = ci_now i"
    by (simp_all add: a e map_set_fresh)
  show "replay_inv policy (snd (admit policy i s))"
    using e inv_insert [OF e(2), of "identity_of i" "ci_thumbprint i" "ci_until i"] by (simp add: a not_le)
qed

section \<open>The interface of a replay store\<close>

text \<open>
  What the verifier relies on: an atomic step per signature, a clock that the store compares
  with, and a view of the deadlines it remembers. \<open>accepted\<close>: an accepted identity is
  remembered until its deadline; \<open>keeps\<close>: nothing forgets a live record; \<open>refuses\<close>: a live
  record is answered with \<open>Replayed\<close>; \<open>stale\<close>: a step before the clock changes nothing.
\<close>

locale replay_store =
  fixes good :: "'s \<Rightarrow> bool"
    and step :: "'i \<Rightarrow> 's \<Rightarrow> store_outcome \<times> 's"
    and ident :: "'i \<Rightarrow> 'k"
    and now :: "'i \<Rightarrow> nat"
    and until :: "'i \<Rightarrow> nat"
    and clock :: "'s \<Rightarrow> nat"
    and view :: "'s \<Rightarrow> 'k \<Rightarrow> nat option"
  assumes good_step: "good s \<Longrightarrow> good (snd (step i s))"
    and stale: "good s \<Longrightarrow> now i < clock s \<Longrightarrow> fst (step i s) = Unavailable \<and> snd (step i s) = s"
    and clock_step: "good s \<Longrightarrow> clock s \<le> now i \<Longrightarrow> clock (snd (step i s)) = now i"
    and accepted: "good s \<Longrightarrow> fst (step i s) = Accepted \<Longrightarrow>
      view (snd (step i s)) (ident i) = Some (until i)"
    and keeps: "good s \<Longrightarrow> clock s \<le> now i \<Longrightarrow> view s k = Some u \<Longrightarrow> now i < u \<Longrightarrow>
      view (snd (step i s)) k = Some u"
    and refuses: "good s \<Longrightarrow> clock s \<le> now i \<Longrightarrow> view s (ident i) = Some u \<Longrightarrow> now i < u \<Longrightarrow>
      fst (step i s) = Replayed"
begin

definition after :: "'i list \<Rightarrow> 's \<Rightarrow> 's" where
  "after is s = foldl (\<lambda>s i. snd (step i s)) s is"

lemma after_simps [simp]: "after [] s = s" "after (i # is) s = after is (snd (step i s))"
  by (simp_all add: after_def)

lemma clock_mono: "good s \<Longrightarrow> clock s \<le> clock (snd (step i s))"
  using stale [of s i] clock_step [of s i] by (cases "now i < clock s") auto

lemma good_after: "good s \<Longrightarrow> good (after is s)"
  by (induction "is" arbitrary: s) (auto intro: good_step)

lemma clock_after: "good s \<Longrightarrow> clock s \<le> clock (after is s)"
proof (induction "is" arbitrary: s)
  case (Cons i "is")
  show ?case using clock_mono [OF Cons.prems, of i] Cons.IH [OF good_step [OF Cons.prems, of i]] by simp
qed simp

lemma step_remembers:
  assumes "good s" "view s k = Some u"
  shows "view (snd (step i s)) k = Some u \<or> u \<le> clock (snd (step i s))"
proof (cases "now i < clock s")
  case True
  with assms stale [of s i] show ?thesis by simp
next
  case False
  then show ?thesis
    using assms keeps [of s i k u] clock_step [of s i] by (cases "now i < u") auto
qed

lemma remembered:
  "good s \<Longrightarrow> view s k = Some u \<Longrightarrow> view (after is s) k = Some u \<or> u \<le> clock (after is s)"
proof (induction "is" arbitrary: s)
  case (Cons i "is")
  from step_remembers [OF Cons.prems, of i] show ?case
  proof
    assume "view (snd (step i s)) k = Some u"
    then show ?thesis using Cons.IH [OF good_step [OF Cons.prems(1)]] by simp
  next
    assume "u \<le> clock (snd (step i s))"
    then show ?thesis using clock_after [OF good_step [OF Cons.prems(1), of i], of "is"] by simp
  qed
qed simp

lemma second_refused:
  fixes "is" :: "'i list"
  assumes "good s" "fst (step i s) = Accepted" "ident j = ident i" "now j < until i"
    and "clock (after is (snd (step i s))) \<le> now j"
  shows "fst (step j (after is (snd (step i s)))) = Replayed"
proof -
  let ?s' = "after is (snd (step i s))"
  have g: "good (snd (step i s))" using assms(1) by (rule good_step)
  then have g': "good ?s'" by (rule good_after)
  have "view ?s' (ident i) = Some (until i) \<or> until i \<le> clock ?s'"
    using g accepted [OF assms(1,2)] by (rule remembered)
  then have "view ?s' (ident j) = Some (until i)" using assms(3-5) by auto
  with assms(4,5) refuses [OF g', of j "until i"] show ?thesis by simp
qed

lemma no_second_acceptance:
  fixes "is" :: "'i list"
  assumes "good s" "fst (step i s) = Accepted" "ident j = ident i" "now j < until i"
  shows "fst (step j (after is (snd (step i s)))) \<in> {Replayed, Unavailable}"
  using second_refused [OF assms, of "is"]
    stale [OF good_after [OF good_step [OF assms(1), of i]], of j "is"]
  by (cases "now j < clock (after is (snd (step i s)))") auto

end

text \<open>The memory store as an implementation: the step on a well-formed input.\<close>

definition consume_checked :: "replay_policy \<Rightarrow> consume_input \<Rightarrow> replay_memory \<Rightarrow> store_outcome \<times> replay_memory" where
  "consume_checked policy i s =
     (if ci_now i < lastNow s then (Unavailable, s) else admit policy i s)"

definition deadlines :: "replay_memory \<Rightarrow> jsstring \<Rightarrow> nat option" where
  "deadlines s k = map_option retainedUntil (map_of (entries s) k)"

lemma map_of_live: "distinct (map fst es) \<Longrightarrow> map_of (live now es) k =
    (case map_of es k of None \<Rightarrow> None | Some e \<Rightarrow> if now < retainedUntil e then Some e else None)"
proof (induction es)
  case (Cons x es)
  then have "fst x \<notin> fst ` set (live now es)" by (auto simp: live_def)
  then have "map_of (live now es) (fst x) = None" by (simp add: map_of_eq_None_iff)
  with Cons show ?case by (auto simp: live_def)
qed (simp add: live_def)

lemma deadlines_admit:
  assumes inv: "replay_inv policy s"
  shows "deadlines (snd (admit policy i s)) k =
    (if fst (admit policy i s) = Accepted \<and> k = identity_of i then Some (ci_until i)
     else case deadlines s k of None \<Rightarrow> None | Some u \<Rightarrow> if ci_now i < u then Some u else None)"
proof -
  have d: "distinct (map fst (entries s))" using inv by (simp add: replay_inv_def counters_exact_def)
  note cases = admit_cases(1,5) [OF inv, of i]
  show ?thesis
  proof (cases "fst (admit policy i s) = Accepted")
    case True
    let ?L = "live (ci_now i) (entries s)"
    have "identity_of i \<notin> fst ` set ?L" using True cases(1) by auto
    then have none: "map_of ?L (identity_of i) = None" by (simp only: map_of_eq_None_iff) simp
    have upd: "map_of (?L @ [(identity_of i, e)]) k = (if k = identity_of i then Some e else map_of ?L k)" for e
      using none by (simp add: map_add_def split: option.split)
    have "map_of (entries (snd (admit policy i s))) k = (if k = identity_of i
        then Some \<lparr>keyThumbprint = ci_thumbprint i, retainedUntil = ci_until i\<rparr> else map_of ?L k)"
      unfolding cases(2) if_P [OF True] by (rule upd)
    then show ?thesis
      using True map_of_live [OF d, of "ci_now i" k]
      by (simp add: deadlines_def split: option.split)
  next
    case False
    then show ?thesis
      using cases(2) map_of_live [OF d, of "ci_now i" k]
      by (auto simp: deadlines_def split: option.split)
  qed
qed

lemma live_identity:
  "deadlines s k = Some u \<Longrightarrow> now < u \<Longrightarrow> k \<in> fst ` set (live now (entries s))"
  by (auto simp: deadlines_def live_def image_iff dest!: map_of_SomeD intro!: bexI)

interpretation memory_store: replay_store "replay_inv policy" "consume_checked policy" identity_of ci_now ci_until
    lastNow deadlines for policy
proof unfold_locales
  fix s :: replay_memory and i :: consume_input
  assume inv: "replay_inv policy s"
  show "replay_inv policy (snd (consume_checked policy i s))"
    using inv admit_cases(6) by (simp add: consume_checked_def)
  show "ci_now i < lastNow s \<Longrightarrow>
      fst (consume_checked policy i s) = Unavailable \<and> snd (consume_checked policy i s) = s"
    by (simp add: consume_checked_def)
  show "lastNow s \<le> ci_now i \<Longrightarrow> lastNow (snd (consume_checked policy i s)) = ci_now i"
    using admit_cases(7) [OF inv] by (simp add: consume_checked_def)
  show "fst (consume_checked policy i s) = Accepted \<Longrightarrow>
      deadlines (snd (consume_checked policy i s)) (identity_of i) = Some (ci_until i)"
    using deadlines_admit [OF inv] by (simp add: consume_checked_def split: if_splits)
next
  fix s :: replay_memory and i :: consume_input and k u
  assume a: "replay_inv policy s" "lastNow s \<le> ci_now i" "deadlines s k = Some u" "ci_now i < u"
  have "k = identity_of i \<Longrightarrow> fst (admit policy i s) = Replayed"
    using admit_cases(1) [OF a(1)] live_identity [OF a(3,4)] by simp
  then show "deadlines (snd (consume_checked policy i s)) k = Some u"
    using deadlines_admit [OF a(1), of i k] a by (auto simp: consume_checked_def)
next
  fix s :: replay_memory and i :: consume_input and u
  assume a: "replay_inv policy s" "lastNow s \<le> ci_now i" "deadlines s (identity_of i) = Some u" "ci_now i < u"
  show "fst (consume_checked policy i s) = Replayed"
    using admit_cases(1) [OF a(1)] live_identity [OF a(3,4)] a(2) by (simp add: consume_checked_def)
qed

section \<open>Sequences of calls\<close>

datatype store_call = Consume consume_argument | ClockReset

fun call_store :: "replay_policy \<Rightarrow> profile_limits \<Rightarrow> store_call \<Rightarrow> replay_memory \<Rightarrow> replay_memory" where
  "call_store policy limits (Consume arg) s = snd (consume_replay policy limits arg s)"
| "call_store policy limits ClockReset s = snd (clearForClockReset s)"

definition call_all :: "replay_policy \<Rightarrow> profile_limits \<Rightarrow> store_call list \<Rightarrow> replay_memory \<Rightarrow> replay_memory" where
  "call_all policy limits calls s = foldl (\<lambda>s c. call_store policy limits c s) s calls"

lemma valid_consume_previous:
  "valid_consume limits p arg = (case valid_consume limits 0 arg of None \<Rightarrow> None
     | Some i \<Rightarrow> if ci_now i < p then None else Some i)"
  by (auto simp: valid_consume_def Let_def split: consume_argument.split option.split if_splits)

lemma consume_replay_checked:
  "consume_replay policy limits arg s = (case valid_consume limits 0 arg of None \<Rightarrow> (Unavailable, s)
     | Some i \<Rightarrow> consume_checked policy i s)"
  by (simp add: consume_replay_def consume_checked_def valid_consume_previous [of limits "lastNow s"]
      split: option.split)

lemma new_inv: "replay_inv policy new_replay_memory"
  by (simp add: replay_inv_def counters_exact_def new_replay_memory_def count_at_def)

lemma consume_inv: "replay_inv policy s \<Longrightarrow> replay_inv policy (snd (consume_replay policy limits arg s))"
  using memory_store.good_step by (auto simp: consume_replay_checked split: option.split)

lemma call_inv: "replay_inv policy s \<Longrightarrow> replay_inv policy (call_all policy limits calls s)"
proof (induction calls arbitrary: s)
  case (Cons c calls)
  have "replay_inv policy (call_store policy limits c s)"
    using Cons.prems by (cases c) (auto simp: consume_inv clearForClockReset_def new_inv)
  then show ?case using Cons.IH by (simp add: call_all_def)
qed (simp add: call_all_def)

lemma consumes_after:
  "call_all policy limits (map Consume args) s
     = memory_store.after policy (List.map_filter (valid_consume limits 0) args) s"
  by (induction args arbitrary: s)
    (auto simp: call_all_def consume_replay_checked map_filter_simps split: option.split)

lemma identity_of_inject:
  "identity_of i = identity_of j \<longleftrightarrow>
     ci_scope i = ci_scope j \<and> ci_thumbprint i = ci_thumbprint j \<and> ci_nonce i = ci_nonce j"
  unfolding identity_of_def by (subst json_array_inject) auto

text \<open>C6. No replay: once the store has accepted a scope, key and nonce, then whatever other consume
  calls follow (malformed ones included), a later well-formed call with the same three values
  before the retained deadline is answered with \<open>replayed\<close>.\<close>

theorem no_double_acceptance:
  fixes before :: "store_call list" and between :: "consume_argument list"
  assumes "s0 = call_all policy limits before new_replay_memory"
    and "consume_replay policy limits first s0 = (Accepted, s1)"
    and "valid_consume limits (lastNow s0) first = Some i"
    and "s2 = call_all policy limits (map Consume between) s1"
    and "valid_consume limits (lastNow s2) again = Some j"
    and "ci_scope j = ci_scope i" "ci_thumbprint j = ci_thumbprint i" "ci_nonce j = ci_nonce i"
    and "ci_now j < ci_until i"
  shows "fst (consume_replay policy limits again s2) = Replayed"
proof -
  have g: "replay_inv policy s0" unfolding assms(1) by (rule call_inv [OF new_inv])
  have i: "valid_consume limits 0 first = Some i"
    using assms(3) valid_consume_previous [of limits "lastNow s0" first] by (auto split: option.splits if_splits)
  have j: "valid_consume limits 0 again = Some j" "lastNow s2 \<le> ci_now j"
    using assms(5) valid_consume_previous [of limits "lastNow s2" again] by (auto split: option.splits if_splits)
  have step: "fst (consume_checked policy i s0) = Accepted" "snd (consume_checked policy i s0) = s1"
    using assms(2) i by (simp_all add: consume_replay_checked)
  have id: "identity_of j = identity_of i" using assms(6-8) by (simp add: identity_of_inject)
  have "s2 = memory_store.after policy (List.map_filter (valid_consume limits 0) between) s1"
    by (simp add: assms(4) consumes_after)
  with memory_store.second_refused [OF g step(1) id assms(9)] j(2)
  have "fst (consume_checked policy j s2) = Replayed" by (simp only: step(2))
  then show ?thesis using j(1) by (simp add: consume_replay_checked)
qed

definition sample_consume :: "nat \<Rightarrow> consume_argument" where
  "sample_consume time = Fields (\<lambda>name.
     if name = ''scope'' then JsString (lit ''s'')
     else if name = ''keyThumbprint'' then JsString (replicate 43 65)
     else if name = ''nonce'' then JsString (lit ''n'')
     else if name = ''nowEpochSeconds'' then JsNumber (JsInt (int time))
     else if name = ''retainUntilEpochSeconds'' then JsNumber (JsInt 1000)
     else JsOther)"

definition sample_limits :: profile_limits where
  "sample_limits = \<lparr>maxJwksBytes = 262144, maxKeys = 64, maxCandidates = 16, maxNonceBytes = 256,
     generatedNonceBytes = 32, maxScopeBytes = 256, maxAgentBindings = 64, maxAgentUrlBytes = 2048\<rparr>"

lemma sample_thumbprint: "canonical_thumbprint (replicate 43 65)"
proof -
  have "replicate 32 (0 :: u8) = [0, 0, 0, 0, 0, 0, 0, 0, 0, 0, 0, 0, 0, 0, 0, 0, 0, 0, 0, 0, 0, 0, 0, 0, 0, 0, 0, 0, 0, 0, 0, 0]"
    by (simp add: numeral_eq_Suc)
  moreover have "replicate 43 x = [x, x, x, x, x, x, x, x, x, x, x, x, x, x, x, x, x, x, x, x, x, x, x, x, x, x, x, x, x, x, x, x, x, x, x, x, x, x, x, x, x, x, x]" for x :: nat
    by (simp add: numeral_eq_Suc)
  ultimately have bs: "base64url_encode (replicate 32 0) = replicate 43 65"
    by (simp add: base64url_encode_def b64url_char_def)
  then have "base64_decode (replicate 43 65) = replicate 32 0"
    using base64url_decode_encode [of "replicate 32 0"] by simp
  with bs show ?thesis
    by (simp add: canonical_thumbprint_def list_all_iff base64url_char_def alpha_def)
qed

lemma sample_valid: "time < 1000 \<Longrightarrow> p \<le> time \<Longrightarrow> valid_consume sample_limits p (sample_consume time)
    = Some \<lparr>ci_scope = lit ''s'', ci_thumbprint = replicate 43 65, ci_nonce = lit ''n'',
            ci_now = time, ci_until = 1000\<rparr>"
  by (simp add: valid_consume_def sample_consume_def sample_limits_def is_safe_integer_def max_safe_def
      isValidNonce_def printable_def ascii_def sample_thumbprint)

theorem no_double_acceptance_witness:
  "\<exists>s. fst (consume_replay \<lparr>capacity = 10, maxPerKey = 5\<rparr> sample_limits (sample_consume 10) s) = Replayed"
proof -
  let ?p = "\<lparr>capacity = 10, maxPerKey = 5\<rparr>"
  let ?s0 = "call_all ?p sample_limits [] new_replay_memory"
  let ?s1 = "snd (consume_replay ?p sample_limits (sample_consume 10) ?s0)"
  let ?s2 = "call_all ?p sample_limits (map Consume [NotAnInput]) ?s1"
  have s0: "lastNow ?s0 = 0" by (simp add: call_all_def new_replay_memory_def)
  have acc: "consume_replay ?p sample_limits (sample_consume 10) ?s0 = (Accepted, ?s1)"
    by (simp add: consume_replay_def s0 sample_valid admit_def Let_def)
      (simp add: call_all_def new_replay_memory_def expire_def before_expiry_def)
  have "lastNow ?s1 = 10"
    by (simp add: consume_replay_def s0 sample_valid admit_def Let_def
        call_all_def new_replay_memory_def expire_def before_expiry_def)
  then have s2: "lastNow ?s2 = 10"
    by (simp add: call_all_def consume_replay_def valid_consume_def)
  show ?thesis
    by (rule exI, rule no_double_acceptance [OF refl acc _ refl, where between = "[NotAnInput]"])
      (simp_all only: s0 s2 sample_valid, simp_all add: sample_valid)
qed

text \<open>C27. The decision: on a well-formed input the store answers in the documented order over the
  records whose deadline is later than the input's second (replay, per-key quota, capacity,
  accept), and keeps exactly these records, with the new one when it accepts. The early exit on
  \<open>nextExpiry\<close> is thus the same as scanning on every call.\<close>

theorem replay_decision:
  assumes "valid_consume limits (lastNow s) arg = Some i" "s = call_all policy limits calls new_replay_memory"
  defines "kept \<equiv> filter (\<lambda>e. ci_now i < retainedUntil (snd e)) (entries s)"
  shows "let (outcome, s') = consume_replay policy limits arg s in
    outcome = (if identity_of i \<in> fst ` set kept then Replayed
      else if maxPerKey policy \<le> owned (ci_thumbprint i) kept then PerKeyQuotaExceeded
      else if capacity policy \<le> length kept then Unavailable else Accepted) \<and>
    entries s' = (if outcome = Accepted
      then kept @ [(identity_of i, \<lparr>keyThumbprint = ci_thumbprint i, retainedUntil = ci_until i\<rparr>)]
      else kept)"
proof -
  have inv: "replay_inv policy s" unfolding assms(2) by (rule call_inv [OF new_inv])
  have k: "kept = live (ci_now i) (entries s)" by (simp add: kept_def live_def)
  show ?thesis
    using admit_cases(1-5) [OF inv, of i] assms(1)
    by (auto simp: consume_replay_def k case_prod_beta not_le)
qed

theorem replay_decision_witness:
  "fst (consume_replay \<lparr>capacity = 10, maxPerKey = 5\<rparr> sample_limits (sample_consume 10) new_replay_memory) = Accepted"
  using replay_decision [of sample_limits new_replay_memory "sample_consume 10" _ "\<lparr>capacity = 10, maxPerKey = 5\<rparr>" "[]",
      OF sample_valid]
  by (simp add: call_all_def new_replay_memory_def case_prod_beta)

text \<open>C32. After any calls, the store holds at most \<open>capacity\<close> records and at most \<open>maxPerKey\<close> per
  key; every counter equals the number of records of its key and none is zero; no identity is
  stored twice.\<close>

theorem store_bounds:
  assumes "s = call_all policy limits calls new_replay_memory"
  shows "length (entries s) \<le> capacity policy \<and> owned t (entries s) \<le> maxPerKey policy \<and>
    map_of (perKey s) t = (if owned t (entries s) = 0 then None else Some (owned t (entries s))) \<and>
    distinct (map fst (entries s))"
proof -
  have inv: "replay_inv policy s" unfolding assms by (rule call_inv [OF new_inv])
  then have "count_at (perKey s) t = owned t (entries s)" "0 \<notin> snd ` set (perKey s)"
    by (simp_all add: replay_inv_def counters_exact_def)
  then have "map_of (perKey s) t = (if owned t (entries s) = 0 then None else Some (owned t (entries s)))"
    by (force simp: count_at_def dest: map_of_SomeD split: option.splits)
  with inv show ?thesis by (simp add: replay_inv_def counters_exact_def)
qed

theorem store_bounds_witness:
  "length (entries (call_all \<lparr>capacity = 10, maxPerKey = 5\<rparr> sample_limits [Consume NotAnInput] new_replay_memory)) \<le> 10"
  using store_bounds [OF refl, of "\<lparr>capacity = 10, maxPerKey = 5\<rparr>" sample_limits "[Consume NotAnInput]" "[]"] by simp

end
