(* ===== verification/ProfileAgent.thy ===== *)
theory ProfileAgent
  imports ProfileScreen MemoryReplay DirAddress
begin

text \<open>
  The identity an agent claims: origins, \<^verbatim>\<open>profiles/agent-origin.ts\<close>, the Signature-Agent header,
  \<^verbatim>\<open>profiles/agent-header.ts\<close>, and the local bindings of keys to origins,
  \<^verbatim>\<open>profiles/agent-bindings.ts\<close>. The platform's \<open>new URL(value)\<close> is a parameter.
\<close>

section \<open>Origins\<close>

record url_parts =
  url_protocol :: jsstring
  url_hostname :: jsstring
  url_username :: jsstring
  url_password :: jsstring
  url_port :: jsstring
  url_search :: jsstring
  url_hash :: jsstring
  url_pathname :: jsstring

type_synonym url_parser = "jsstring \<Rightarrow> url_parts option"

abbreviation malformed_agent :: "candidate_error + 'a" where
  "malformed_agent \<equiv> Inl (CandidateRejection (Invalid MalformedAgent))"

text \<open>The pattern \<^verbatim>\<open>/^https:\/\/([^/?#]+)(\/?)$/i\<close>, giving the authority.\<close>

definition https_authority :: "jsstring \<Rightarrow> jsstring option" where
  "https_authority v =
     (let r = drop 8 v; authority = takeWhile (\<lambda>c. c \<notin> {47, 63, 35}) r; rest' = dropWhile (\<lambda>c. c \<notin> {47, 63, 35}) r in
      if lowercase (take 8 v) = lit ''https://'' \<and> authority \<noteq> [] \<and> rest' \<in> {[], [47]} then Some authority else None)"

text \<open>The pattern \<^verbatim>\<open>/^([^:]+)(?::([0-9]+))?$/\<close>, giving host and port.\<close>

definition origin_host :: "jsstring \<Rightarrow> (jsstring \<times> jsstring option) option" where
  "origin_host authority =
     (let host = takeWhile (\<lambda>c. c \<noteq> 58) authority; r = dropWhile (\<lambda>c. c \<noteq> 58) authority in
      if host = [] then None
      else if r = [] then Some (host, None)
      else if tl r \<noteq> [] \<and> list_all digit (tl r) then Some (host, Some (tl r)) else None)"

definition plain_https :: "url_parts \<Rightarrow> jsstring \<Rightarrow> bool" where
  "plain_https u host \<longleftrightarrow>
     url_protocol u = lit ''https:'' \<and> url_hostname u \<noteq> [] \<and> url_username u = [] \<and> url_password u = [] \<and>
     url_port u = [] \<and> url_search u = [] \<and> url_hash u = [] \<and> url_pathname u = lit ''/'' \<and>
     isIP host = None \<and> isIP (url_hostname u) = None \<and> url_hostname u = host"

definition origin_of_authority :: "url_parser \<Rightarrow> jsstring \<Rightarrow> jsstring \<Rightarrow> candidate_error + jsstring" where
  "origin_of_authority parse_url v authority =
     (if list_ex (\<lambda>c. c \<in> {92, 64, 37, 91, 93}) authority then malformed_agent
      else case origin_host authority of
        None \<Rightarrow> malformed_agent
      | Some (host, port) \<Rightarrow>
          if port \<noteq> None \<and> port \<noteq> Some (lit ''443'') then malformed_agent
          else case parse_url v of
            None \<Rightarrow> malformed_agent
          | Some u \<Rightarrow>
              if plain_https u (lowercase host) then Inr (lit ''https://'' @ lowercase host) else malformed_agent)"

definition canonicalAgentOrigin :: "url_parser \<Rightarrow> jsstring option \<Rightarrow> js_number \<Rightarrow> candidate_error + jsstring" where
  "canonicalAgentOrigin parse_url v maximumBytes =
     (case maximumBytes of
        JsNotInteger \<Rightarrow> Inl (ProfileConfigurationError InvalidResourceLimits)
      | JsInt n \<Rightarrow>
          if \<not> is_safe_integer n \<or> n < 0 then Inl (ProfileConfigurationError InvalidResourceLimits)
          else case v of
            None \<Rightarrow> malformed_agent
          | Some s \<Rightarrow>
              if n < int (length s) then Inl (CandidateRejection (Unverified ResourceLimit))
              else if s = [] \<or> \<not> list_all (\<lambda>c. 33 \<le> c \<and> c \<le> 126) s then malformed_agent
              else case https_authority s of
                None \<Rightarrow> malformed_agent
              | Some authority \<Rightarrow> origin_of_authority parse_url s authority)"

definition configured :: "candidate_error + 'a \<Rightarrow> candidate_error + 'a" where
  "configured r = (case r of
     Inl (CandidateRejection _) \<Rightarrow> Inl (ProfileConfigurationError InvalidAgentBinding) | _ \<Rightarrow> r)"

definition configuredAgentOrigin :: "url_parser \<Rightarrow> jsstring option \<Rightarrow> js_number \<Rightarrow> candidate_error + jsstring" where
  "configuredAgentOrigin parse_url v maximumBytes = configured (canonicalAgentOrigin parse_url v maximumBytes)"

section \<open>The agent header\<close>

datatype wba_profile = WgProtocol00 | CloudflareDocs

definition WEB_BOT_AUTH_PROFILES :: "(jsstring \<times> wba_profile) list" where
  "WEB_BOT_AUTH_PROFILES = [(lit ''ietf-wg-protocol-00'', WgProtocol00), (lit ''cloudflare-docs-2026-07-01'', CloudflareDocs)]"

datatype agent_header = WgHeader "(jsstring \<times> member) list" | CloudflareHeader item

fun header_profile :: "agent_header \<Rightarrow> wba_profile" where
  "header_profile (WgHeader _) = WgProtocol00"
| "header_profile (CloudflareHeader _) = CloudflareDocs"

record agent_claim =
  claim_profile :: wba_profile
  claim_label :: jsstring
  claimedUrl :: jsstring
  canonicalOrigin :: jsstring

fun is_string :: "bare_item \<Rightarrow> bool" where
  "is_string (SfString _) = True"
| "is_string _ = False"

definition agent_of_text :: "jsstring \<Rightarrow> core_limits \<Rightarrow> candidate_error + agent_header" where
  "agent_of_text t limits =
     (let options = sf_options (structuredFields limits) in
      if take 1 t = [34] then
        bindE (core_result (withSfErrors (parse (InText t) TItem options))) (\<lambda>f.
        case f of
          FItem i \<Rightarrow> if is_string (item_bare i) then Inr (CloudflareHeader i) else malformed_agent
        | _ \<Rightarrow> Inl InternalFailure)
      else
        bindE (core_result (withSfErrors (parse (InText t) TDictionary options))) (\<lambda>f.
        if field_entries f = [] then malformed_agent else Inr (WgHeader (field_entries f))))"

definition parseAgentHeader :: "request_parts \<Rightarrow> core_limits \<Rightarrow> candidate_error + agent_header" where
  "parseAgentHeader request limits =
     screen MalformedAgent (
       bindE (core_result (validateHeaders (request_headers request) limits)) (\<lambda>_.
       bindE (core_result (fieldValues (request_headers request) (lit ''signature-agent'') (request_version request))) (\<lambda>vs.
       if vs = [] then malformed_agent
       else
         bindE (core_result (bindE (combineValues vs limits MessageHeaderBytes) requireAscii)) (\<lambda>t.
         if t = [] then malformed_agent
         else bindE (assertNoAgentDuplicates t limits) (\<lambda>_. agent_of_text t limits)))))"

definition claim_of_item ::
    "url_parser \<Rightarrow> wba_profile \<Rightarrow> jsstring \<Rightarrow> js_number \<Rightarrow> item \<Rightarrow> candidate_error + agent_claim" where
  "claim_of_item parse_url profile label maximumUrlBytes selected =
     (case item_bare selected of
        SfString url \<Rightarrow>
          bindE (canonicalAgentOrigin parse_url (Some url) maximumUrlBytes) (\<lambda>origin.
          Inr \<lparr>claim_profile = profile, claim_label = label, claimedUrl = url, canonicalOrigin = origin\<rparr>)
      | _ \<Rightarrow> malformed_agent)"

definition discovery_check :: "item \<Rightarrow> candidate_error + unit" where
  "discovery_check selected =
     (case getParameter (item_parameters selected) (lit ''type'') of
        None \<Rightarrow> Inr ()
      | Some (Token t) \<Rightarrow>
          if t \<noteq> lit ''directory'' then Inl (CandidateRejection (Unverified UnsupportedDiscoveryType)) else Inr ()
      | Some _ \<Rightarrow> malformed_agent)"

definition resolveAgentClaim ::
    "url_parser \<Rightarrow> agent_header \<Rightarrow> jsstring \<Rightarrow> js_number \<Rightarrow> candidate_error + agent_claim" where
  "resolveAgentClaim parse_url header label maximumUrlBytes =
     (case header of
        WgHeader es \<Rightarrow>
          (case getMember es label of
             None \<Rightarrow> Inl (CandidateRejection (Invalid AgentLabelMismatch))
           | Some (MInnerList _) \<Rightarrow> malformed_agent
           | Some (MItem selected) \<Rightarrow>
               if \<not> is_string (item_bare selected) then malformed_agent
               else bindE (discovery_check selected) (\<lambda>_.
                 claim_of_item parse_url WgProtocol00 label maximumUrlBytes selected))
      | CloudflareHeader selected \<Rightarrow> claim_of_item parse_url CloudflareDocs label maximumUrlBytes selected)"

section \<open>Bindings\<close>

record agent_binding =
  binding_thumbprint :: jsstring
  binding_origin :: jsstring

datatype identity_proposal =
    KeyThumbprint jsstring
  | DirectoryUrl jsstring jsstring jsstring

fun identity_thumbprint :: "identity_proposal \<Rightarrow> jsstring" where
  "identity_thumbprint (KeyThumbprint t) = t"
| "identity_thumbprint (DirectoryUrl t _ _) = t"

record agent_bindings =
  binding_entries :: "agent_binding list"
  binding_limits :: profile_limits

text \<open>An element of the array argument: an object with exactly the two own data properties, whose
  values are strings or something else, or any other value. The argument itself may be absent,
  an array, or another value.\<close>

datatype binding_argument = BindingObject "jsstring option" "jsstring option" | OtherObject

datatype bindings_argument = NoBindings | BindingArray "binding_argument list" | NotBindings

abbreviation invalid_binding :: "candidate_error + 'a" where
  "invalid_binding \<equiv> Inl (ProfileConfigurationError InvalidAgentBinding)"

fun valid_thumbprint :: "jsstring option \<Rightarrow> bool" where
  "valid_thumbprint (Some t) = canonical_thumbprint t"
| "valid_thumbprint None = False"

definition add_binding ::
    "url_parser \<Rightarrow> profile_limits \<Rightarrow> agent_binding list \<Rightarrow> binding_argument \<Rightarrow> candidate_error + agent_binding list" where
  "add_binding parse_url limits es arg =
     (case arg of
        OtherObject \<Rightarrow> invalid_binding
      | BindingObject t origin \<Rightarrow>
          if \<not> valid_thumbprint t then invalid_binding
          else bindE (configuredAgentOrigin parse_url origin (JsInt (int (maxAgentUrlBytes limits)))) (\<lambda>origin'.
            let b = \<lparr>binding_thumbprint = the t, binding_origin = origin'\<rparr> in
            Inr (if b \<in> set es then es else es @ [b])))"

definition createAgentBindings ::
    "url_parser \<Rightarrow> bindings_argument \<Rightarrow> js_property js_options \<Rightarrow> candidate_error + agent_bindings" where
  "createAgentBindings parse_url input overrides =
     (case resolveProfileLimits overrides of
        Inl c \<Rightarrow> Inl (ProfileConfigurationError c)
      | Inr limits \<Rightarrow>
          (case input of
             NotBindings \<Rightarrow> invalid_binding
           | NoBindings \<Rightarrow> Inr \<lparr>binding_entries = [], binding_limits = limits\<rparr>
           | BindingArray args \<Rightarrow>
               if maxAgentBindings limits < length args then invalid_binding
               else bindE (foldE (add_binding parse_url limits) [] args) (\<lambda>es.
                 Inr \<lparr>binding_entries = es, binding_limits = limits\<rparr>)))"

definition directory_path :: jsstring where
  "directory_path = lit ''/.well-known/http-message-signatures-directory''"

definition bound_identity :: "agent_binding list \<Rightarrow> jsstring \<Rightarrow> jsstring \<Rightarrow> candidate_error + identity_proposal" where
  "bound_identity es t origin =
     (let associated = filter (\<lambda>e. binding_thumbprint e = t) es in
      if associated = [] then Inl (CandidateRejection (Unverified AgentBindingMissing))
      else if \<not> list_ex (\<lambda>e. binding_origin e = origin) associated
      then Inl (CandidateRejection (Invalid AgentBindingMismatch))
      else Inr (DirectoryUrl t origin (origin @ directory_path)))"

definition proposeIdentity ::
    "url_parser \<Rightarrow> agent_bindings \<Rightarrow> jsstring \<Rightarrow> jsstring \<Rightarrow> bool \<Rightarrow> candidate_error + identity_proposal" where
  "proposeIdentity parse_url bindings t claim requireBinding =
     (if \<not> canonical_thumbprint t then invalid_binding
      else bindE (canonicalAgentOrigin parse_url (Some claim)
          (JsInt (int (maxAgentUrlBytes (binding_limits bindings))))) (\<lambda>origin.
        if \<not> requireBinding then Inr (KeyThumbprint t)
        else bound_identity (binding_entries bindings) t origin))"

end
