(* ===== verification/ProfileCanonical.thy ===== *)
theory ProfileCanonical
  imports CoreHeaders ProfileAgent
begin

text \<open>
  Canonical header values pass the profile layer: the resolved limits given back as overrides
  resolve to themselves, and the screening of repeated names lets the serialized form of a value
  through, since nothing is repeated in it.
\<close>

section \<open>Resolved limits as overrides\<close>

lemma limit_key_eq [simp]: "limit_key a = limit_key b \<longleftrightarrow> a = b"
  by (metis limit_named_iff option.inject)

lemma merge_own: "merge_options l (map (\<lambda>n. (StringKey (limit_key n), JsInt (int (limit_of k n)))) limit_names) = sf_options k"
  by (simp add: merge_options_def sf_options_def limit_names_def)

lemma core_key_inj: "core_limit_key a = core_limit_key b \<longleftrightarrow> a = b"
  by (cases a; cases b) simp_all

lemma core_key_structured: "core_limit_key a \<noteq> lit ''structuredFields''"
  by (cases a) simp_all

lemma core_options_lookup:
  "map_of (map (\<lambda>n. (StringKey (core_limit_key n), CoreNumber (JsInt (int (core_limit_of l n))))) core_limit_names
     @ [(StringKey (lit ''structuredFields''), CoreOptions (sf_options (structuredFields l)))])
     (StringKey (core_limit_key n)) = Some (CoreNumber (JsInt (int (core_limit_of l n))))"
  by (cases n) (simp_all add: core_limit_names_def core_key_inj del: core_limit_key.simps lit_Cons core_limit_of.simps)

lemma core_options_structured:
  "map_of (map (\<lambda>n. (StringKey (core_limit_key n), CoreNumber (JsInt (int (core_limit_of l n))))) core_limit_names
     @ [(StringKey (lit ''structuredFields''), CoreOptions (sf_options (structuredFields l)))])
     (StringKey (lit ''structuredFields'')) = Some (CoreOptions (sf_options (structuredFields l)))"
  by (simp add: core_limit_names_def)

lemma resolve_core_own: "safe_core l \<Longrightarrow> resolveCoreLimits (core_options l) = Inr l"
proof -
  assume l: "safe_core l"
  define ks where "ks = map (\<lambda>n. (StringKey (core_limit_key n), CoreNumber (JsInt (int (core_limit_of l n))))) core_limit_names
     @ [(StringKey (lit ''structuredFields''), CoreOptions (sf_options (structuredFields l)))]"
  have keys: "list_all (core_key \<circ> fst) ks"
    by (auto simp: ks_def core_key_def list_all_iff simp del: core_limit_key.simps lit_Cons)
  have found: "map_of ks (StringKey (core_limit_key n)) = Some (CoreNumber (JsInt (int (core_limit_of l n))))" for n
    unfolding ks_def by (rule core_options_lookup)
  have step: "resolve_core_limit ks m n = Inr (set_core_limit n (core_limit_of l n) m)" for m n
    using l by (simp add: resolve_core_limit_def found safe_core_def del: core_limit_key.simps)
  have "foldE (resolve_core_limit ks) DEFAULT_CORE_LIMITS core_limit_names
      = Inr (DEFAULT_CORE_LIMITS\<lparr>maxSignatureHeaderBytes := maxSignatureHeaderBytes l, maxSignatures := maxSignatures l,
          maxComponentsPerSignature := maxComponentsPerSignature l, maxMetadataParameters := maxMetadataParameters l,
          maxMessageHeaderBytes := maxMessageHeaderBytes l, maxTargetUriBytes := maxTargetUriBytes l,
          maxSignatureBaseBytes := maxSignatureBaseBytes l\<rparr>)"
    by (simp add: core_limit_names_def step DEFAULT_CORE_LIMITS_def)
  moreover have "resolve_structured_fields (map_of ks (StringKey (lit ''structuredFields''))) = Inr (structuredFields l)"
  proof -
    have "withSfErrors (resolveLimits (merge_options CORE_SF_LIMITS
        (map (\<lambda>n. (StringKey (limit_key n), JsInt (int (limit_of (structuredFields l) n)))) limit_names))) = Inr (structuredFields l)"
      using l by (simp add: merge_own resolve_own safe_core_def)
    moreover have "map_of ks (StringKey (lit ''structuredFields'')) = Some (CoreOptions (sf_options (structuredFields l)))"
      unfolding ks_def by (rule core_options_structured)
    ultimately show ?thesis by (simp add: resolve_structured_fields_def sf_options_def del: lit_Cons)
  qed
  ultimately show ?thesis
    using keys by (simp add: core_options_def ks_def [symmetric] resolve_core_overrides_def del: lit_Cons)
qed

section \<open>Screening\<close>

lemma parameter_duplicates_Inr: "parameter_duplicates failure ps = Inr () \<longleftrightarrow> distinct (map rp_key ps)"
  by (simp add: parameter_duplicates_def)

lemma distinct_pairs: "valid_parameters L (pairs ps) \<Longrightarrow> distinct (map rp_key ps)"
  by (simp add: valid_parameters_def pairs_def comp_def)

lemma foldE_unit: "(\<And>x. x \<in> set xs \<Longrightarrow> f x = Inr ()) \<Longrightarrow> foldE (\<lambda>_. f) () xs = Inr ()"
  by (induction xs) auto

lemma item_duplicates_read: "valid_item L (read_item i) \<Longrightarrow> item_duplicates failure i = Inr ()"
  by (auto simp: item_duplicates_def valid_item_def read_item_def parameter_duplicates_def dest: distinct_pairs)

lemma member_duplicates_read: "valid_member L (read_member m) \<Longrightarrow> member_duplicates failure m = Inr ()"
proof (cases m)
  case (RInnerList l)
  moreover assume "valid_member L (read_member m)"
  ultimately have "foldE (\<lambda>_. item_duplicates failure) () (ril_items l) = Inr ()" "distinct (map rp_key (ril_parameters l))"
    by (auto simp: list_all_iff intro!: foldE_unit dest: item_duplicates_read distinct_pairs)
  with RInnerList show ?thesis by (simp add: parameter_duplicates_def)
qed (auto dest: item_duplicates_read)

lemma entries_duplicates_read:
  "list_all (\<lambda>(k, m). valid_member L m) (raw_pairs es) \<Longrightarrow> distinct (map rde_key es) \<Longrightarrow>
     set seen \<inter> set (map rde_key es) = {} \<Longrightarrow> \<exists>seen'. foldE (entry_duplicates failure) seen es = Inr seen'"
proof (induction es arbitrary: seen)
  case (Cons e es)
  then have "member_duplicates failure (rde_member e) = Inr ()"
    by (intro member_duplicates_read [of L]) (simp add: raw_pairs_def)
  then have "entry_duplicates failure seen e = Inr (rde_key e # seen)"
    using Cons.prems by (simp add: entry_duplicates_def)
  moreover have "\<exists>seen'. foldE (entry_duplicates failure) (rde_key e # seen) es = Inr seen'"
    using Cons by (intro Cons.IH) (auto simp: raw_pairs_def)
  ultimately show ?case by simp
qed simp

lemma dictionary_duplicates_read:
  assumes "valid_field L (FDictionary (raw_pairs es))"
  shows "dictionary_duplicates failure es = Inr ()"
proof -
  have "map fst (raw_pairs es) = map rde_key es" by (simp add: raw_pairs_def)
  then have "distinct (map rde_key es)" "list_all (\<lambda>(k, m). valid_member L m) (raw_pairs es)"
    using assms by (auto simp: list_all_iff)
  from entries_duplicates_read [OF this(2,1), of "[]" failure] show ?thesis
    by (auto simp: dictionary_duplicates_def)
qed

section \<open>Canonical text\<close>

text \<open>The text of a value, read back raw and as a value.\<close>

lemma canonical_parses:
  assumes s: "serialize f (sf_options L) = Inr t" and u: "units_field f"
    and L: "safe_limits L" and len: "length t \<le> maxInputBytes L"
  shows "\<exists>d. parseRaw (InText t) (field_kind f) (sf_options L) = Inr d \<and> read_field (rdoc_root d) = f \<and>
    parse (InText t) (field_kind f) (sf_options L) = Inr f \<and> valid_field L f \<and> t = text_field f"
proof -
  have r: "resolveLimits (sf_options L) = Inr L" using L by (rule resolve_own)
  have v: "valid_field L f" "within L MaxTotalOccurrences (occ_field f)" "t = text_field f"
    using s unfolding serialize_iff [OF u] r by (auto simp: fits_output_def)
  moreover have "within L MaxInputBytes (length (text_field f))"
    using len v(3) by (simp add: resolved_within [OF r])
  ultimately obtain d where "parse_units t (field_kind f) L = Inr d" "tree_of (rdoc_root d) f"
    using parse_units_text [of L f] by auto
  then show ?thesis using v r by (auto simp: parse_def parseRaw_def tree_of_def)
qed

lemma canonical_dictionary:
  assumes "serialize (FDictionary es) (sf_options L) = Inr t" "units_field (FDictionary es)"
    and "safe_limits L" "length t \<le> maxInputBytes L"
  shows "\<exists>d. parseRaw (InText t) TDictionary (sf_options L) = Inr d \<and>
    length (raw_entries (rdoc_root d)) = length es \<and>
    dictionary_duplicates failure (raw_entries (rdoc_root d)) = Inr () \<and>
    parse (InText t) TDictionary (sf_options L) = Inr (FDictionary es)"
proof -
  obtain d where d: "parseRaw (InText t) TDictionary (sf_options L) = Inr d" "read_field (rdoc_root d) = FDictionary es"
      "parse (InText t) TDictionary (sf_options L) = Inr (FDictionary es)" "valid_field L (FDictionary es)"
    using canonical_parses [OF assms] by auto
  then obtain r where r: "rdoc_root d = RFDictionary r" "raw_pairs (rd_entries r) = es"
    by (cases "rdoc_root d") auto
  have "length (rd_entries r) = length es" using r(2) by (auto simp: raw_pairs_def)
  moreover have "dictionary_duplicates failure (rd_entries r) = Inr ()"
    by (rule dictionary_duplicates_read [of L]) (use d(4) r(2) in simp)
  ultimately show ?thesis using d r by simp
qed

text \<open>A signature header whose one value is canonical.\<close>

lemma screen_field_canonical:
  assumes "fieldValues headers name None = Inr [t]" "solid t" "safe_core limits"
    and "serialize (FDictionary es) (sf_options (structuredFields limits)) = Inr t" "units_field (FDictionary es)"
    and "length t \<le> maxInputBytes (structuredFields limits)" "so_far + length t \<le> maxSignatureHeaderBytes limits"
    and "length es \<le> maxSignatures limits"
  shows "screen_field headers limits so_far name = Inr (so_far + length t)"
proof -
  have L: "safe_limits (structuredFields limits)" using assms(3) by (simp add: safe_core_def)
  obtain d where d: "parseRaw (InText t) TDictionary (sf_options (structuredFields limits)) = Inr d"
      "length (raw_entries (rdoc_root d)) = length es"
      "dictionary_duplicates MalformedSignature (raw_entries (rdoc_root d)) = Inr ()"
    using canonical_dictionary [OF assms(4,5) L assms(6)] by blast
  have "checkLimit limits SignatureHeaderBytes (length t) = Inr ()"
      "checkLimit limits SignatureHeaderBytes (so_far + length t) = Inr ()"
      "checkLimit limits Signatures (length es) = Inr ()"
    using assms(3,7,8) by (auto intro!: checkLimit_ok simp del: checkLimit_Inr)
  then show ?thesis
    using assms(1,2) d
    by (simp add: screen_field_def combineValues_def requireAscii_def solid_ascii Let_def del: checkLimit_Inr)
qed

text \<open>An agent header of the string form.\<close>

lemma agent_canonical:
  assumes "serialize (FItem \<lparr>item_bare = SfString u, item_parameters = []\<rparr>) (sf_options (structuredFields limits)) = Inr t"
    and "units_item \<lparr>item_bare = SfString u, item_parameters = []\<rparr>" "safe_core limits"
    and "length t \<le> maxInputBytes (structuredFields limits)" "length t \<le> maxMessageHeaderBytes limits" "list_all ascii t"
  shows "assertNoAgentDuplicates t limits = Inr () \<and>
    agent_of_text t limits = Inr (CloudflareHeader \<lparr>item_bare = SfString u, item_parameters = []\<rparr>)"
proof -
  let ?f = "FItem \<lparr>item_bare = SfString u, item_parameters = []\<rparr>"
  have L: "safe_limits (structuredFields limits)" using assms(3) by (simp add: safe_core_def)
  obtain d where d: "parseRaw (InText t) TItem (sf_options (structuredFields limits)) = Inr d"
      "read_field (rdoc_root d) = ?f"
      "parse (InText t) TItem (sf_options (structuredFields limits)) = Inr ?f"
      "valid_field (structuredFields limits) ?f" "t = text_field ?f"
    using canonical_parses [OF assms(1) _ L assms(4)] assms(2) by auto
  obtain i where i: "rdoc_root d = RFItem i" "read_item i = \<lparr>item_bare = SfString u, item_parameters = []\<rparr>"
    using d(2) by (cases "rdoc_root d") auto
  have first: "\<exists>r. t = 34 # r" using d(5) by (simp add: text_item_def quoted_def)
  have "item_duplicates MalformedAgent i = Inr ()"
    by (rule item_duplicates_read [of "structuredFields limits"]) (use d(4) i(2) in simp)
  moreover have "checkLimit limits MessageHeaderBytes (length t) = Inr ()"
    using assms(3,5) by (intro checkLimit_ok) simp_all
  ultimately show ?thesis
    using d i assms(6) first
    by (auto simp: assertNoAgentDuplicates_def agent_of_text_def requireAscii_def Let_def screen_def ows_def
        simp del: checkLimit_Inr)
qed

end
