(* ===== verification/OriginSample.thy ===== *)
theory OriginSample
  imports ProfileAgent
begin

text \<open>
  One concrete origin, \<^verbatim>\<open>https://a.b\<close>, with the parts the platform's URL parser gives for it: the
  input at which the witnesses of the fetch scheduler, the directory cache and the verifier apply
  their theorems.
\<close>

definition sample_origin :: jsstring where
  "sample_origin = lit ''https://a.b''"

definition sample_url :: url_parser where
  "sample_url v = Some \<lparr>url_protocol = lit ''https:'', url_hostname = lit ''a.b'', url_username = [],
     url_password = [], url_port = [], url_search = [], url_hash = [], url_pathname = lit ''/''\<rparr>"

lemma sample_host: "isIP (lit ''a.b'') = None"
  by (simp add: isIP_def is_ipv4_def is_ipv6_def after_colon_def)

lemma sample_canonical:
  assumes "11 \<le> n" "n \<le> max_safe"
  shows "canonicalAgentOrigin sample_url (Some sample_origin) (JsInt (int n)) = Inr sample_origin"
  using assms sample_host
  by (simp add: canonicalAgentOrigin_def sample_origin_def https_authority_def origin_of_authority_def
      origin_host_def sample_url_def plain_https_def lowercase_def to_lower_def Let_def)

lemma sample_configured:
  "11 \<le> n \<Longrightarrow> n \<le> max_safe \<Longrightarrow> configuredAgentOrigin sample_url (Some sample_origin) (JsInt (int n)) = Inr sample_origin"
  by (simp add: configuredAgentOrigin_def sample_canonical configured_def)

end
