(* ===== verification/KeyInput.thy ===== *)
theory KeyInput
  imports ProfileScreen
begin

text \<open>
  The bounded snapshot of a JWKS given as configuration, \<^verbatim>\<open>profiles/jwks-input.ts\<close>. A JavaScript
  value is unfolded into a tree; \<open>ConfigOther\<close> is whatever cannot be copied: \<open>undefined\<close>, a
  function, a symbol, a bigint, a number that is not finite, an accessor or a hole in the place
  of a value, an object of another prototype, an object that is its own ancestor. Objects list
  the names \<open>for in\<close> enumerates. A number is the text of \<open>String(value)\<close>, its first character
  apart, so never empty. \<open>JSON.parse\<close> is a parameter.
\<close>

datatype config_value =
    ConfigNull
  | ConfigString jsstring
  | ConfigBoolean bool
  | ConfigNumber nat jsstring
  | ConfigArray "config_value list"
  | ConfigObject "(jsstring \<times> config_value) list"
  | ConfigOther

datatype jwks_input = JwksText jsstring | JwksBytes "u8 list" | JwksValue config_value

abbreviation invalid_jwks :: "candidate_error + 'a" where
  "invalid_jwks \<equiv> Inl (ProfileConfigurationError InvalidJwks)"

section \<open>The budget\<close>

definition charge :: "nat \<Rightarrow> nat \<Rightarrow> candidate_error + nat" where
  "charge bytes budget = (if budget < bytes then invalid_jwks else Inr (budget - bytes))"

fun charge_units :: "jsstring \<Rightarrow> nat \<Rightarrow> candidate_error + nat" where
  "charge_units [] budget = Inr budget"
| "charge_units (c # s) budget =
     (if c = 34 \<or> c = 92 \<or> c = 8 \<or> c = 9 \<or> c = 10 \<or> c = 12 \<or> c = 13
      then bindE (charge 2 budget) (charge_units s)
      else if c < 32 then bindE (charge 6 budget) (charge_units s)
      else if high_surrogate c then
        (case s of
           d # s' \<Rightarrow>
             if low_surrogate d then bindE (charge 4 budget) (charge_units s')
             else bindE (charge 6 budget) (charge_units s)
         | [] \<Rightarrow> charge 6 budget)
      else if low_surrogate c then bindE (charge 6 budget) (charge_units s)
      else bindE (charge (if c < 128 then 1 else if c < 2048 then 2 else 3) budget) (charge_units s))"

definition chargeString :: "jsstring \<Rightarrow> nat \<Rightarrow> candidate_error + nat" where
  "chargeString s budget =
     (if budget < length s then invalid_jwks else bindE (charge 2 budget) (charge_units s))"

fun charge_keys :: "bool \<Rightarrow> jsstring list \<Rightarrow> nat \<Rightarrow> candidate_error + nat" where
  "charge_keys first [] budget = Inr budget"
| "charge_keys first (k # ks) budget =
     bindE (chargeString k budget) (\<lambda>r.
     bindE (charge (if first then 1 else 2) r) (charge_keys False ks))"

section \<open>The copy\<close>

text \<open>The stack of frames is the recursion: a frame is run to its end before the next position of
  the frame below it.\<close>

fun copy_value :: "config_value \<Rightarrow> nat \<Rightarrow> candidate_error + (config_value \<times> nat)"
and copy_elements :: "bool \<Rightarrow> config_value list \<Rightarrow> nat \<Rightarrow> candidate_error + (config_value list \<times> nat)"
and copy_members ::
  "(jsstring \<times> config_value) list \<Rightarrow> nat \<Rightarrow> candidate_error + ((jsstring \<times> config_value) list \<times> nat)" where
  "copy_value ConfigNull r = bindE (charge 4 r) (\<lambda>r. Inr (ConfigNull, r))"
| "copy_value (ConfigString s) r = bindE (chargeString s r) (\<lambda>r. Inr (ConfigString s, r))"
| "copy_value (ConfigBoolean b) r = bindE (charge (if b then 4 else 5) r) (\<lambda>r. Inr (ConfigBoolean b, r))"
| "copy_value (ConfigNumber c cs) r = bindE (charge (length (c # cs)) r) (\<lambda>r. Inr (ConfigNumber c cs, r))"
| "copy_value (ConfigArray vs) r =
     bindE (charge 2 r) (\<lambda>r.
     if 0 < length vs \<and> r < length vs + length vs - 1 then invalid_jwks
     else bindE (copy_elements True vs r) (\<lambda>(vs', r). Inr (ConfigArray vs', r)))"
| "copy_value (ConfigObject ms) r =
     bindE (charge 2 r) (\<lambda>r.
     bindE (charge_keys True (map fst ms) r) (\<lambda>r.
     bindE (copy_members ms r) (\<lambda>(ms', r). Inr (ConfigObject ms', r))))"
| "copy_value ConfigOther r = invalid_jwks"
| "copy_elements first [] r = Inr ([], r)"
| "copy_elements first (v # vs) r =
     bindE (if first then Inr r else charge 1 r) (\<lambda>r.
     bindE (copy_value v r) (\<lambda>(v', r).
     bindE (copy_elements False vs r) (\<lambda>(vs', r). Inr (v' # vs', r))))"
| "copy_members [] r = Inr ([], r)"
| "copy_members ((k, v) # ms) r =
     bindE (copy_value v r) (\<lambda>(v', r).
     bindE (copy_members ms r) (\<lambda>(ms', r). Inr ((k, v') # ms', r)))"

type_synonym json_parser = "jsstring \<Rightarrow> config_value option"

definition parsed_jwks :: "json_parser \<Rightarrow> jsstring \<Rightarrow> candidate_error + config_value" where
  "parsed_jwks json_parse t = (case json_parse t of None \<Rightarrow> invalid_jwks | Some v \<Rightarrow> Inr v)"

definition snapshotJwksInput :: "json_parser \<Rightarrow> jwks_input \<Rightarrow> nat \<Rightarrow> candidate_error + config_value" where
  "snapshotJwksInput json_parse input maximumBytes =
     (case input of
        JwksText t \<Rightarrow>
          if maximumBytes < length t then invalid_jwks
          else if maximumBytes < length (utf8_encode t) then invalid_jwks
          else parsed_jwks json_parse t
      | JwksBytes bs \<Rightarrow>
          if maximumBytes < length bs then invalid_jwks
          else (case utf8_decode (map unat bs) of
                  None \<Rightarrow> invalid_jwks
                | Some t \<Rightarrow> parsed_jwks json_parse t)
      | JwksValue v \<Rightarrow> bindE (copy_value v maximumBytes) (\<lambda>(v', _). Inr v'))"

section \<open>The JSON text of a value\<close>

text \<open>The bytes of \<open>JSON.stringify(value)\<close> in UTF-8: the reference the budget is compared to.\<close>

definition hex4 :: "nat \<Rightarrow> nat list" where
  "hex4 c = [92, 117] @ hex2 (c div 256) @ hex2 (c mod 256)"

fun string_bytes :: "jsstring \<Rightarrow> nat list" where
  "string_bytes [] = []"
| "string_bytes (c # s) =
     (if c < 128 then json_escape c @ string_bytes s
      else if c < 2048 then utf8_2 c @ string_bytes s
      else if high_surrogate c then
        (case s of
           d # s' \<Rightarrow> if low_surrogate d then utf8_4 (code_point c d) @ string_bytes s'
                     else hex4 c @ string_bytes s
         | [] \<Rightarrow> hex4 c)
      else if low_surrogate c then hex4 c @ string_bytes s
      else utf8_3 c @ string_bytes s)"

definition quoted_bytes :: "jsstring \<Rightarrow> nat list" where
  "quoted_bytes s = [34] @ string_bytes s @ [34]"

fun json_bytes :: "config_value \<Rightarrow> nat list" where
  "json_bytes ConfigNull = lit ''null''"
| "json_bytes (ConfigString s) = quoted_bytes s"
| "json_bytes (ConfigBoolean b) = (if b then lit ''true'' else lit ''false'')"
| "json_bytes (ConfigNumber c cs) = c # cs"
| "json_bytes (ConfigArray vs) = [91] @ join [44] (map json_bytes vs) @ [93]"
| "json_bytes (ConfigObject ms) = [123] @ join [44] (map (\<lambda>(k, v). quoted_bytes k @ [58] @ json_bytes v) ms) @ [125]"
| "json_bytes ConfigOther = []"

fun copyable :: "config_value \<Rightarrow> bool" where
  "copyable (ConfigArray vs) = list_all copyable vs"
| "copyable (ConfigObject ms) = list_all (copyable \<circ> snd) ms"
| "copyable ConfigOther = False"
| "copyable _ = True"

section \<open>The budget is the length of the text\<close>

text \<open>Charges compose, all failing alike.\<close>

lemma charge_eq_Inr [simp]: "charge n r = Inr r' \<longleftrightarrow> r = r' + n"
  by (auto simp: charge_def)

lemma charge_0 [simp]: "charge 0 r = Inr r"
  by (simp add: charge_def)

lemma charge_bind [simp]: "bindE (charge a r) (charge b) = charge (a + b) r"
  by (auto simp: charge_def)

lemma surrogate_range: "high_surrogate c \<Longrightarrow> 2048 \<le> c" "low_surrogate c \<Longrightarrow> 2048 \<le> c"
  by (simp_all add: surrogate_defs)

lemma length_hex4 [simp]: "length (hex4 c) = 6"
  by (simp add: hex4_def hex2_def)

lemma length_json_escape: "length (json_escape c) =
    (if c = 34 \<or> c = 92 \<or> c = 8 \<or> c = 9 \<or> c = 10 \<or> c = 12 \<or> c = 13 then 2 else if c < 32 then 6 else 1)"
  by (simp add: json_escape_def hex2_def)

lemma length_utf8 [simp]: "length (utf8_2 c) = 2" "length (utf8_3 c) = 3" "length (utf8_4 c) = 4"
  by (simp_all add: utf8_2_def utf8_3_def utf8_4_def)

lemma charge_units_eq: "charge_units s = charge (length (string_bytes s))"
proof (induction s rule: string_bytes.induct)
  case (2 c s)
  consider "c < 128" | "128 \<le> c" "c < 2048" | "2048 \<le> c" by linarith
  then show ?case
  proof cases
    case 1
    then have "\<not> high_surrogate c" "\<not> low_surrogate c" by (auto dest: surrogate_range)
    with 1 2(1) show ?thesis by (intro ext) (simp add: length_json_escape)
  next
    case b: 2
    then have "\<not> high_surrogate c" "\<not> low_surrogate c" by (auto dest: surrogate_range)
    with b 2(2) show ?thesis by (intro ext) simp
  next
    case 3
    with 2(3-) show ?thesis
      by (intro ext, subst charge_units.simps, subst string_bytes.simps)
        (simp del: charge_units.simps(2) string_bytes.simps(2) split: list.split)
  qed
qed (simp add: fun_eq_iff)

lemma length_string_bytes: "length s \<le> length (string_bytes s)"
proof (induction s rule: string_bytes.induct)
  case (2 c s)
  have "1 \<le> length (json_escape c)" by (simp add: length_json_escape)
  moreover have "\<not> high_surrogate c \<or> \<not> low_surrogate c" by (auto simp: surrogate_defs)
  ultimately show ?case using 2
    by (subst string_bytes.simps) (auto simp del: string_bytes.simps(2) split: list.split)
qed simp

lemma chargeString_eq: "chargeString s r = charge (length (quoted_bytes s)) r"
  using length_string_bytes [of s]
  by (auto simp: chargeString_def charge_units_eq quoted_bytes_def charge_def)

definition keys_cost :: "bool \<Rightarrow> jsstring list \<Rightarrow> nat" where
  "keys_cost first ks = sum_list (map (length \<circ> quoted_bytes) ks) + (2 * length ks - (if first \<and> ks \<noteq> [] then 1 else 0))"

lemma charge_keys_eq: "charge_keys first ks = charge (keys_cost first ks)"
proof (induction ks arbitrary: first)
  case (Cons k ks)
  have "charge_keys first (k # ks) = charge (length (quoted_bytes k) + ((if first then 1 else 2) + keys_cost False ks))"
    by (intro ext) (simp add: chargeString_eq Cons.IH)
  also have "length (quoted_bytes k) + ((if first then 1 else 2) + keys_cost False ks) = keys_cost first (k # ks)"
    by (simp add: keys_cost_def)
  finally show ?case .
qed (simp add: fun_eq_iff keys_cost_def)

lemma length_join: "length (join [c] xss) = sum_list (map length xss) + (length xss - 1)"
proof (induction xss)
  case (Cons x xss)
  then show ?case by (cases xss) (auto simp: join_Cons)
qed simp

lemma json_bytes_pos: "copyable v \<Longrightarrow> 0 < length (json_bytes v)"
  by (cases v) (auto simp: quoted_bytes_def)

definition elements_size :: "config_value list \<Rightarrow> nat" where
  "elements_size vs = sum_list (map (length \<circ> json_bytes) vs)"

lemma elements_size_simps [simp]: "elements_size [] = 0"
  "elements_size (v # vs) = length (json_bytes v) + elements_size vs"
  by (simp_all add: elements_size_def)

lemma elements_size_ge: "list_all copyable vs \<Longrightarrow> length vs \<le> elements_size vs"
proof (induction vs)
  case (Cons v vs)
  moreover from Cons.prems have "0 < length (json_bytes v)" using json_bytes_pos [of v] by simp
  ultimately have "length vs \<le> elements_size vs" "1 \<le> length (json_bytes v)"
    by (simp_all add: Suc_le_eq)
  then show ?case by simp
qed simp

definition members_size :: "(jsstring \<times> config_value) list \<Rightarrow> nat" where
  "members_size ms = sum_list (map (length \<circ> json_bytes \<circ> snd) ms)"

lemma members_size_simps [simp]: "members_size [] = 0"
  "members_size ((k, v) # ms) = length (json_bytes v) + members_size ms"
  by (simp_all add: members_size_def)

lemma object_size:
  "length (json_bytes (ConfigObject ms)) = 2 + keys_cost True (map fst ms) + members_size ms"
proof -
  have "sum_list (map (length \<circ> (\<lambda>(k, v). quoted_bytes k @ [58] @ json_bytes v)) ms)
      = sum_list (map (length \<circ> quoted_bytes) (map fst ms)) + length ms + members_size ms"
    by (induction ms) auto
  then show ?thesis by (cases ms) (simp_all add: length_join keys_cost_def comp_def)
qed

lemma array_size:
  "length (json_bytes (ConfigArray vs)) = 2 + elements_size vs + (length vs - 1)"
  by (simp add: length_join elements_size_def comp_def)

lemma copy_value_eq:
  "copy_value v r = Inr (v', r') \<longleftrightarrow> copyable v \<and> v' = v \<and> r = r' + length (json_bytes v)"
  "copy_elements first vs r = Inr (vs', r') \<longleftrightarrow> list_all copyable vs \<and> vs' = vs \<and>
     r = r' + elements_size vs + (length vs - (if first then 1 else 0))"
  "copy_members ms r = Inr (ms', r') \<longleftrightarrow> list_all (copyable \<circ> snd) ms \<and> ms' = ms \<and> r = r' + members_size ms"
proof (induction v r and first vs r and ms r arbitrary: v' r' and vs' r' and ms' r'
    rule: copy_value_copy_elements_copy_members.induct)
  case (5 vs r)
  have big: "vs \<noteq> [] \<Longrightarrow> list_all copyable vs \<Longrightarrow> length vs + length vs - 1 \<le> elements_size vs + (length vs - 1)"
    using elements_size_ge [of vs] by simp
  show ?case
    unfolding array_size using 5 big by (auto simp: bindE_eq_Inr charge_def)
next
  case (6 ms r)
  then show ?case unfolding object_size
    by (auto simp: bindE_eq_Inr charge_keys_eq comp_def)
next
  case (9 first v vs r)
  show ?case
  proof (cases first)
    case True
    with 9 show ?thesis by (auto simp: bindE_eq_Inr)
  next
    case False
    with 9 show ?thesis by (auto simp: bindE_eq_Inr)
  qed
next
  case (11 k v ms r)
  have "copy_value v r = Inr (v, n) \<Longrightarrow> (copy_members ms n = Inr (ms'', r')) =
      (list_all (copyable \<circ> snd) ms \<and> ms'' = ms \<and> n = r' + members_size ms)" for n ms''
    by (rule 11(2) [OF _ refl])
  then show ?case using 11(1) by (auto simp: bindE_eq_Inr comp_def)
qed (auto simp: bindE_eq_Inr chargeString_eq)

lemma snapshot_value_eq:
  "snapshotJwksInput json_parse (JwksValue v) maximum = Inr v' \<longleftrightarrow>
     v' = v \<and> copyable v \<and> length (json_bytes v) \<le> maximum"
  by (auto simp: snapshotJwksInput_def bindE_eq_Inr copy_value_eq split: prod.split)
    (metis add.commute le_Suc_ex)

lemma string_bytes_plain: "list_all (\<lambda>c. 35 \<le> c \<and> c < 92) s \<Longrightarrow> string_bytes s = s"
  by (induction s) (auto simp: json_escape_def)

text \<open>C37. The snapshot of an object given as configuration is the object itself, and it is taken exactly
  when every part can be copied and the JSON text of the whole has at most the maximum number of
  bytes in UTF-8; the incremental accounting is thus the length of a text that is never built.\<close>

theorem snapshot_budget:
  "snapshotJwksInput json_parse (JwksValue v) maximum = Inr v' \<longleftrightarrow>
     v' = v \<and> copyable v \<and> length (json_bytes v) \<le> maximum"
  by (rule snapshot_value_eq)

end
