(* ===== verification/ProfileMetadata.thy ===== *)
theory ProfileMetadata
  imports ProfileAgent ProfileTime CoreCrypto
begin

text \<open>
  The gates on one candidate before cryptography: metadata, \<^verbatim>\<open>profiles/metadata.ts\<close>, required
  coverage, \<^verbatim>\<open>profiles/coverage.ts\<close>, supported components, \<^verbatim>\<open>profiles/component-support.ts\<close>, and key
  identity, \<^verbatim>\<open>profiles/key-material.ts\<close>. SHA-256 and the export of a key object are parameters.
\<close>

section \<open>Key identity\<close>

text \<open>A public JWK as \<open>publicMaterial\<close> sees it: the own data properties it reads, absent or not
  strings being \<open>None\<close>, and whether there is a property \<open>d\<close>.\<close>

record jwk_object =
  jwk_d :: bool
  jwk_kty :: "jsstring option"
  jwk_crv :: "jsstring option"
  jwk_x :: "jsstring option"

definition KNOWN_TEST_KEY_THUMBPRINTS :: "jsstring list" where
  "KNOWN_TEST_KEY_THUMBPRINTS =
     [lit ''poqkLGiymh_W0uP6PZFw-dvez3QJT5SolqXBCW38r0U'', lit ''DR68nui99ukl-GUgfzQGaU3VwqRtArw-_DCN4LFtY84'']"

definition isKnownTestKey :: "jsstring \<Rightarrow> bool" where
  "isKnownTestKey t \<longleftrightarrow> t \<in> set KNOWN_TEST_KEY_THUMBPRINTS"

abbreviation invalid_key :: "candidate_error + 'a" where
  "invalid_key \<equiv> Inl (ProfileConfigurationError InvalidKeyConfiguration)"

text \<open>The \<open>x\<close> of the material: 43 canonical base64url characters of 32 bytes.\<close>

definition publicMaterial :: "jwk_object option \<Rightarrow> candidate_error + jsstring" where
  "publicMaterial input =
     (case input of
        None \<Rightarrow> invalid_key
      | Some j \<Rightarrow>
          if jwk_d j then invalid_key
          else case jwk_x j of
            None \<Rightarrow> invalid_key
          | Some x \<Rightarrow>
              if jwk_kty j \<noteq> Some (lit ''OKP'') \<or> jwk_crv j \<noteq> Some (lit ''Ed25519'') then invalid_key
              else if length x \<noteq> 43 \<or> \<not> list_all base64url_char x then invalid_key
              else if length (base64_decode x) \<noteq> 32 \<or> base64url_encode (base64_decode x) \<noteq> x then invalid_key
              else Inr x)"

definition canonical_jwk :: "jsstring \<Rightarrow> jsstring" where
  "canonical_jwk x = [123] @ json_quote (lit ''crv'') @ [58] @ json_quote (lit ''Ed25519'') @ [44]
     @ json_quote (lit ''kty'') @ [58] @ json_quote (lit ''OKP'') @ [44]
     @ json_quote (lit ''x'') @ [58] @ json_quote x @ [125]"

definition material_thumbprint :: "(u8 list \<Rightarrow> u8 list) \<Rightarrow> jsstring \<Rightarrow> jsstring" where
  "material_thumbprint sha256 x = base64url_encode (sha256 (map word_of_nat (utf8_encode (canonical_jwk x))))"

definition ed25519Thumbprint :: "(u8 list \<Rightarrow> u8 list) \<Rightarrow> jwk_object option \<Rightarrow> candidate_error + jsstring" where
  "ed25519Thumbprint sha256 input = bindE (publicMaterial input) (\<lambda>x. Inr (material_thumbprint sha256 x))"

section \<open>Metadata\<close>

datatype nonce_policy = NonceRequiredPolicy | NonceOptionalPolicy

record candidate_metadata =
  meta_created :: int
  meta_expires :: int
  meta_keyid :: jsstring
  meta_algorithm :: "jsstring option"
  meta_nonce :: "jsstring option"

abbreviation reject_metadata :: "invalid_code \<Rightarrow> candidate_error + 'a" where
  "reject_metadata reason \<equiv> Inl (CandidateRejection (Invalid reason))"

definition validateProfileKeyId :: "jsstring option \<Rightarrow> candidate_error + jsstring" where
  "validateProfileKeyId v =
     (case v of
        None \<Rightarrow> reject_metadata MalformedSignature
      | Some k \<Rightarrow>
          if \<not> list_all base64url_char k then reject_metadata InvalidParameter
          else if length k \<noteq> 43 then reject_metadata InvalidParameter
          else if length (base64_decode k) \<noteq> 32 then reject_metadata InvalidParameter
          else if base64url_encode (base64_decode k) \<noteq> k then reject_metadata InvalidParameter
          else Inr k)"

text \<open>A parameter that must be a string when present.\<close>

definition optional_string :: "parameters \<Rightarrow> string \<Rightarrow> candidate_error + jsstring option" where
  "optional_string ps name =
     (case getParameter ps (lit name) of
        None \<Rightarrow> Inr None
      | Some (SfString s) \<Rightarrow> Inr (Some s)
      | Some _ \<Rightarrow> reject_metadata MalformedSignature)"

definition nonce_check :: "nonce_policy \<Rightarrow> nat \<Rightarrow> jsstring option \<Rightarrow> candidate_error + unit" where
  "nonce_check policy maximum nonce =
     (case nonce of
        None \<Rightarrow> if policy = NonceRequiredPolicy then reject_metadata NonceRequired else Inr ()
      | Some n \<Rightarrow> if isValidNonce (JsString n) maximum then Inr () else reject_metadata NonceInvalid)"

definition readCandidateMetadata ::
    "parameters \<Rightarrow> nonce_policy \<Rightarrow> js_number \<Rightarrow> candidate_error + candidate_metadata" where
  "readCandidateMetadata ps policy maximum =
     (case maximum of
        JsNotInteger \<Rightarrow> Inl (ProfileConfigurationError InvalidResourceLimits)
      | JsInt m \<Rightarrow>
          if \<not> is_safe_integer m \<or> m < 0 then Inl (ProfileConfigurationError InvalidResourceLimits)
          else
            case (getParameter ps (lit ''created''), getParameter ps (lit ''expires''), getParameter ps (lit ''keyid'')) of
              (Some created, Some expires, Some keyid) \<Rightarrow>
                (case (created, expires, keyid) of
                   (Integer c, Integer e, SfString k) \<Rightarrow>
                     bindE (validateProfileKeyId (Some k)) (\<lambda>identity.
                     bindE (optional_string ps ''alg'') (\<lambda>alg.
                     bindE (optional_string ps ''nonce'') (\<lambda>nonce.
                     bindE (nonce_check policy (nat m) nonce) (\<lambda>_.
                     Inr \<lparr>meta_created = c, meta_expires = e, meta_keyid = identity,
                          meta_algorithm = alg, meta_nonce = nonce\<rparr>))))
                 | _ \<Rightarrow> reject_metadata MalformedSignature)
            | _ \<Rightarrow> reject_metadata MissingRequiredParameter)"

text \<open>The key object of a selected key; \<open>export_jwk\<close> is its export in the format \<open>jwk\<close>, which may
  throw.\<close>

definition assertSelectedKeyIdentity ::
    "(u8 list \<Rightarrow> u8 list) \<Rightarrow> ('k \<Rightarrow> jwk_object option) \<Rightarrow> jsstring \<Rightarrow> 'k key_argument \<Rightarrow> candidate_error + jsstring" where
  "assertSelectedKeyIdentity sha256 export_jwk keyid publicKey =
     bindE (validateProfileKeyId (Some keyid)) (\<lambda>identity.
     case publicKey of
       NotKeyObject \<Rightarrow> invalid_key
     | KeyObject purpose algorithm k \<Rightarrow>
         if purpose \<noteq> PublicKey \<or> algorithm \<noteq> Some (lit ''ed25519'') then invalid_key
         else
           bindE (ed25519Thumbprint sha256 (export_jwk k)) (\<lambda>recomputed.
           if identity \<noteq> recomputed then reject_metadata KeyIdMismatch else Inr recomputed))"

section \<open>Coverage\<close>

definition bareComponent :: "covered_component \<Rightarrow> string \<Rightarrow> bool" where
  "bareComponent c name \<longleftrightarrow> component_name c = lit name \<and> component_parameters c = []"

text \<open>The loop over the parameters; its state is the names seen and whether the key matched.\<close>

fun agent_parameters :: "jsstring \<Rightarrow> jsstring list \<Rightarrow> bool \<Rightarrow> parameters \<Rightarrow> bool" where
  "agent_parameters label seen matching [] = matching"
| "agent_parameters label seen matching ((name, v) # ps) =
     (if name \<in> set seen then False
      else if name = lit ''key'' then
        (if v \<noteq> SfString label then False else agent_parameters label (name # seen) True ps)
      else if name = lit ''sf'' then
        (if v \<noteq> Boolean True then False else agent_parameters label (name # seen) matching ps)
      else False)"

definition matchingAgentMember :: "covered_component \<Rightarrow> jsstring \<Rightarrow> bool" where
  "matchingAgentMember c label \<longleftrightarrow>
     component_name c = lit ''signature-agent'' \<and> agent_parameters label [] False (component_parameters c)"

definition assertRequiredCoverage :: "signature_input \<Rightarrow> wba_profile \<Rightarrow> candidate_error + unit" where
  "assertRequiredCoverage i profile =
     (let cs = sig_components i;
          method = list_ex (\<lambda>c. bareComponent c ''@method'') cs;
          target = list_ex (\<lambda>c. bareComponent c ''@target-uri'') cs;
          agent = list_ex (\<lambda>c. if profile = WgProtocol00 then matchingAgentMember c (sig_label i)
            else bareComponent c ''signature-agent'') cs
      in if \<not> method \<or> \<not> target \<or> \<not> agent then Inl (CandidateRejection (Invalid InsufficientCoverage)) else Inr ())"

section \<open>Supported components\<close>

definition assertSupportedProfile :: "jsstring \<Rightarrow> candidate_error + wba_profile" where
  "assertSupportedProfile profile =
     (case map_of WEB_BOT_AUTH_PROFILES profile of
        None \<Rightarrow> Inl (CandidateRejection (Unverified UnsupportedProfile))
      | Some p \<Rightarrow> Inr p)"

definition limited_parameter :: "covered_component \<Rightarrow> jsstring \<Rightarrow> bool" where
  "limited_parameter c name \<longleftrightarrow>
     name = lit ''req'' \<or> (name = lit ''name'' \<and> component_name c = lit ''@query-param'') \<or>
     (\<not> is_derived (component_name c) \<and> name \<in> set (map lit [''sf'', ''bs'', ''key'']))"

definition cloudflare_excluded :: "covered_component \<Rightarrow> bool" where
  "cloudflare_excluded c \<longleftrightarrow>
     component_name c \<in> set (map lit [''@status'', ''@query-params'', ''@query-param'']) \<or>
     list_ex (limited_parameter c \<circ> fst) (component_parameters c)"

definition countersigned :: "covered_component \<Rightarrow> bool" where
  "countersigned c \<longleftrightarrow> component_name c = lit ''signature'' \<or> component_name c = lit ''signature-input''"

definition assertSupportedComponents :: "signature_input \<Rightarrow> wba_profile \<Rightarrow> candidate_error + unit" where
  "assertSupportedComponents i profile =
     (if list_ex countersigned (sig_components i) then Inl (CandidateRejection (Unverified UnsupportedProfile))
      else if profile \<noteq> CloudflareDocs then Inr ()
      else if list_ex cloudflare_excluded (sig_components i)
      then Inl (CandidateRejection (Unverified UnsupportedProfile))
      else Inr ())"

end
