(* ===== verification/KeySet.thy ===== *)
theory KeySet
  imports KeyInput ProfileMetadata
begin

text \<open>
  The trusted key set: the inspection of one public key, \<^verbatim>\<open>profiles/public-jwk.ts\<close>, its usage and
  algorithm policies, \<^verbatim>\<open>jwks-usage.ts\<close> and \<^verbatim>\<open>jwks-algorithm.ts\<close>, and the loader with its lookup,
  \<^verbatim>\<open>jwks.ts\<close>. The diagnostics of \<open>InvalidJwksError\<close> are not modelled, only its code. What the
  platform's key objects do is the record \<open>key_backend\<close>.
\<close>

section \<open>One public key\<close>

text \<open>\<open>createPublicKey\<close> on the mandatory members, \<open>None\<close> when it throws; a member of the export of
  the key object in the format \<open>jwk\<close>; and SHA-256.\<close>

record 'k key_backend =
  import_public :: "(jsstring \<times> jsstring) list \<Rightarrow> 'k key_argument option"
  export_member :: "'k \<Rightarrow> jsstring \<Rightarrow> jsstring option"
  sha256 :: "u8 list \<Rightarrow> u8 list"

record 'k public_jwk =
  pj_kty :: jsstring
  pj_curve :: "jsstring option"
  pj_thumbprint :: jsstring
  pj_key :: "'k key_argument"
  pj_selectable :: bool
  pj_mandatory :: "(jsstring \<times> jsstring) list"

type_synonym jwk_entry = "(jsstring \<times> config_value) list"

definition own_value :: "jwk_entry \<Rightarrow> string \<Rightarrow> config_value option" where
  "own_value entry name = map_of entry (lit name)"

definition required :: "jwk_entry \<Rightarrow> string \<Rightarrow> candidate_error + jsstring" where
  "required entry name = (case own_value entry name of Some (ConfigString s) \<Rightarrow> Inr s | _ \<Rightarrow> invalid_jwks)"

text \<open>\<open>Math.ceil(size * 4 / 3)\<close>.\<close>

definition encoded_length :: "nat \<Rightarrow> nat" where
  "encoded_length n = (4 * n + 2) div 3"

definition decode_component :: "jsstring \<Rightarrow> nat option \<Rightarrow> candidate_error + u8 list" where
  "decode_component v bytes =
     (if v = [] \<or> \<not> list_all base64url_char v \<or> (\<exists>n \<in> set_option bytes. length v \<noteq> encoded_length n)
      then invalid_jwks
      else let bs = base64_decode v in
        if bs = [] \<or> (\<exists>n \<in> set_option bytes. length bs \<noteq> n) \<or> base64url_encode bs \<noteq> v then invalid_jwks
        else Inr bs)"

definition PRIVATE_MEMBERS :: "string list" where
  "PRIVATE_MEMBERS = [''d'', ''p'', ''q'', ''dp'', ''dq'', ''qi'', ''oth'', ''k'']"

definition OKP_SHAPES :: "(jsstring \<times> (nat \<times> jsstring)) list" where
  "OKP_SHAPES = [(lit ''Ed25519'', 32, lit ''ed25519''), (lit ''Ed448'', 57, lit ''ed448''),
     (lit ''X25519'', 32, lit ''x25519''), (lit ''X448'', 56, lit ''x448'')]"

definition EC_WIDTHS :: "(jsstring \<times> nat) list" where
  "EC_WIDTHS = [(lit ''P-256'', 32), (lit ''P-384'', 48), (lit ''P-521'', 66)]"

text \<open>The three branches of the \<open>switch\<close>: the curve, the type expected of the backend, and the
  mandatory members in lexicographic order.\<close>

type_synonym key_shape = "jsstring option \<times> jsstring \<times> (jsstring \<times> jsstring) list"

definition inspect_okp :: "jwk_entry \<Rightarrow> candidate_error + key_shape" where
  "inspect_okp entry =
     bindE (required entry ''crv'') (\<lambda>curve.
     case map_of OKP_SHAPES curve of
       None \<Rightarrow> invalid_jwks
     | Some (bytes, backend) \<Rightarrow>
         bindE (required entry ''x'') (\<lambda>x.
         bindE (decode_component x (Some bytes)) (\<lambda>_.
         Inr (Some curve, backend, [(lit ''crv'', curve), (lit ''kty'', lit ''OKP''), (lit ''x'', x)]))))"

definition inspect_ec :: "jwk_entry \<Rightarrow> candidate_error + key_shape" where
  "inspect_ec entry =
     bindE (required entry ''crv'') (\<lambda>curve.
     case map_of EC_WIDTHS curve of
       None \<Rightarrow> invalid_jwks
     | Some n \<Rightarrow>
         bindE (required entry ''x'') (\<lambda>x.
         bindE (required entry ''y'') (\<lambda>y.
         bindE (decode_component x (Some n)) (\<lambda>_.
         bindE (decode_component y (Some n)) (\<lambda>_.
         Inr (Some curve, lit ''ec'',
           [(lit ''crv'', curve), (lit ''kty'', lit ''EC''), (lit ''x'', x), (lit ''y'', y)]))))))"

definition inspect_rsa :: "jwk_entry \<Rightarrow> candidate_error + key_shape" where
  "inspect_rsa entry =
     bindE (required entry ''n'') (\<lambda>n.
     bindE (required entry ''e'') (\<lambda>e.
     bindE (decode_component n None) (\<lambda>modulus.
     bindE (decode_component e None) (\<lambda>exponent.
     if hd modulus = 0 \<or> hd exponent = 0 \<or> even (unat (List.last modulus)) \<or> even (unat (List.last exponent)) \<or>
        (length exponent = 1 \<and> hd exponent < 3)
     then invalid_jwks
     else Inr (None, lit ''rsa'', [(lit ''e'', e), (lit ''kty'', lit ''RSA''), (lit ''n'', n)])))))"

definition inspect_shape :: "jwk_entry \<Rightarrow> jsstring \<Rightarrow> candidate_error + key_shape" where
  "inspect_shape entry kty =
     (if kty = lit ''OKP'' then inspect_okp entry
      else if kty = lit ''EC'' then inspect_ec entry
      else if kty = lit ''RSA'' then inspect_rsa entry
      else invalid_jwks)"

text \<open>\<open>JSON.stringify\<close> of an object of strings, in the order of its members.\<close>

definition json_object :: "(jsstring \<times> jsstring) list \<Rightarrow> jsstring" where
  "json_object ms = [123] @ join [44] (map (\<lambda>(k, v). json_quote k @ [58] @ json_quote v) ms) @ [125]"

definition members_thumbprint :: "'k key_backend \<Rightarrow> (jsstring \<times> jsstring) list \<Rightarrow> jsstring" where
  "members_thumbprint B ms = base64url_encode (sha256 B (map word_of_nat (utf8_encode (json_object ms))))"

definition imported_key ::
    "'k key_backend \<Rightarrow> jsstring \<Rightarrow> (jsstring \<times> jsstring) list \<Rightarrow> candidate_error + 'k key_argument" where
  "imported_key B backend ms =
     (case import_public B ms of
        None \<Rightarrow> invalid_jwks
      | Some NotKeyObject \<Rightarrow> invalid_jwks
      | Some (KeyObject purpose algorithm k) \<Rightarrow>
          if purpose \<noteq> PublicKey \<or> algorithm \<noteq> Some backend then invalid_jwks
          else if list_ex (\<lambda>(name, v). export_member B k name \<noteq> Some v) ms then invalid_jwks
          else Inr (KeyObject purpose algorithm k))"

definition inspectPublicJwk :: "'k key_backend \<Rightarrow> jwk_entry \<Rightarrow> candidate_error + 'k public_jwk" where
  "inspectPublicJwk B entry =
     (if list_ex (\<lambda>name. own_value entry name \<noteq> None) PRIVATE_MEMBERS then invalid_jwks
      else
        bindE (required entry ''kty'') (\<lambda>kty.
        bindE (inspect_shape entry kty) (\<lambda>(curve, backend, ms).
        bindE (imported_key B backend ms) (\<lambda>k.
        Inr \<lparr>pj_kty = kty, pj_curve = curve, pj_thumbprint = members_thumbprint B ms, pj_key = k,
             pj_selectable = (kty = lit ''OKP'' \<and> curve = Some (lit ''Ed25519'')), pj_mandatory = ms\<rparr>))))"

section \<open>Usage and algorithm\<close>

definition signatureOperations :: "jsstring list" where
  "signatureOperations = map lit [''sign'', ''verify'']"

definition encryptionOperations :: "jsstring list" where
  "encryptionOperations = map lit [''encrypt'', ''decrypt'', ''wrapKey'', ''unwrapKey'', ''deriveKey'', ''deriveBits'']"

definition string_value :: "config_value \<Rightarrow> jsstring option" where
  "string_value v = (case v of ConfigString s \<Rightarrow> Some s | _ \<Rightarrow> None)"

text \<open>The array of strings of \<open>key_ops\<close>, unique.\<close>

definition operation_names :: "config_value \<Rightarrow> candidate_error + jsstring list" where
  "operation_names v =
     (case v of
        ConfigArray vs \<Rightarrow>
          if None \<in> set (map string_value vs) then invalid_jwks
          else let ops = List.map_filter string_value vs in
            if distinct ops then Inr ops else invalid_jwks
      | _ \<Rightarrow> invalid_jwks)"

definition declared_use :: "jwk_entry \<Rightarrow> candidate_error + jsstring option" where
  "declared_use entry =
     (case own_value entry ''use'' of
        None \<Rightarrow> Inr None
      | Some (ConfigString u) \<Rightarrow> Inr (Some u)
      | Some _ \<Rightarrow> invalid_jwks)"

definition declared_operations :: "jwk_entry \<Rightarrow> candidate_error + jsstring list option" where
  "declared_operations entry =
     (case own_value entry ''key_ops'' of
        None \<Rightarrow> Inr None
      | Some v \<Rightarrow> bindE (operation_names v) (\<lambda>ops. Inr (Some ops)))"

definition inconsistent_use :: "jsstring option \<Rightarrow> jsstring list \<Rightarrow> bool" where
  "inconsistent_use use ops \<longleftrightarrow>
     (use = Some (lit ''sig'') \<and> list_ex (\<lambda>op. op \<in> set encryptionOperations) ops) \<or>
     (use = Some (lit ''enc'') \<and> list_ex (\<lambda>op. op \<in> set signatureOperations) ops)"

definition ed25519_curve :: "jwk_entry \<Rightarrow> bool" where
  "ed25519_curve entry \<longleftrightarrow> own_value entry ''crv'' = Some (ConfigString (lit ''Ed25519''))"

definition validateJwkUsage :: "jwk_entry \<Rightarrow> candidate_error + unit" where
  "validateJwkUsage entry =
     bindE (declared_use entry) (\<lambda>use.
     bindE (declared_operations entry) (\<lambda>operations.
     if (\<exists>ops \<in> set_option operations. inconsistent_use use ops) then invalid_jwks
     else if \<not> ed25519_curve entry then Inr ()
     else if use \<noteq> None \<and> use \<noteq> Some (lit ''sig'') then invalid_jwks
     else if (\<exists>ops \<in> set_option operations. lit ''verify'' \<notin> set ops \<or>
       list_ex (\<lambda>op. op \<notin> set signatureOperations) ops) then invalid_jwks
     else Inr ()))"

datatype jwks_format = GenericJwks | WgDirectory00

datatype skipped_reason = SkippedUnsupportedAlgorithm | UnknownAlgorithmName

definition JOSE_ALGORITHM_NAMES :: "jsstring list" where
  "JOSE_ALGORITHM_NAMES = map lit
     [''HS256'', ''HS384'', ''HS512'', ''RS256'', ''RS384'', ''RS512'',
      ''ES256'', ''ES384'', ''ES512'', ''PS256'', ''PS384'', ''PS512'', ''none'',
      ''RSA1_5'', ''RSA-OAEP'', ''RSA-OAEP-256'', ''A128KW'', ''A192KW'', ''A256KW'',
      ''dir'', ''ECDH-ES'', ''ECDH-ES+A128KW'', ''ECDH-ES+A192KW'', ''ECDH-ES+A256KW'',
      ''A128GCMKW'', ''A192GCMKW'', ''A256GCMKW'',
      ''PBES2-HS256+A128KW'', ''PBES2-HS384+A192KW'', ''PBES2-HS512+A256KW'', ''EdDSA'']"

definition HTTP_SIGNATURE_ALGORITHM_NAMES :: "jsstring list" where
  "HTTP_SIGNATURE_ALGORITHM_NAMES = map lit
     [''rsa-pss-sha512'', ''rsa-v1_5-sha256'', ''hmac-sha256'',
      ''ecdsa-p256-sha256'', ''ecdsa-p384-sha384'', ''ed25519'']"

definition supported_name :: "jwks_format \<Rightarrow> jsstring" where
  "supported_name format = (case format of GenericJwks \<Rightarrow> lit ''EdDSA'' | WgDirectory00 \<Rightarrow> lit ''ed25519'')"

definition declared_algorithm :: "jwk_entry \<Rightarrow> candidate_error + jsstring option" where
  "declared_algorithm entry =
     (case own_value entry ''alg'' of
        None \<Rightarrow> Inr None
      | Some (ConfigString a) \<Rightarrow> if list_all ascii a then Inr (Some a) else invalid_jwks
      | Some _ \<Rightarrow> invalid_jwks)"

definition validateJwkAlgorithm :: "jwk_entry \<Rightarrow> jwks_format \<Rightarrow> candidate_error + skipped_reason option" where
  "validateJwkAlgorithm entry format =
     bindE (declared_algorithm entry) (\<lambda>alg.
     if ed25519_curve entry then
       (if alg \<noteq> None \<and> alg \<noteq> Some (supported_name format) then invalid_jwks else Inr None)
     else case alg of
       None \<Rightarrow> Inr (Some SkippedUnsupportedAlgorithm)
     | Some a \<Rightarrow>
         let own = (if format = GenericJwks then JOSE_ALGORITHM_NAMES else HTTP_SIGNATURE_ALGORITHM_NAMES);
             other = (if format = GenericJwks then HTTP_SIGNATURE_ALGORITHM_NAMES else JOSE_ALGORITHM_NAMES) in
         if a \<in> set other then invalid_jwks
         else if a = supported_name format then invalid_jwks
         else Inr (Some (if a \<in> set own then SkippedUnsupportedAlgorithm else UnknownAlgorithmName)))"

section \<open>The loader\<close>

record 'k loaded_key =
  lk_index :: nat
  lk_kid :: "jsstring option"
  lk_thumbprint :: jsstring
  lk_public :: "'k key_argument"
  lk_known_test :: bool

record skipped_key =
  sk_index :: nat
  sk_kid :: "jsstring option"
  sk_thumbprint :: jsstring
  sk_kty :: jsstring
  sk_curve :: "jsstring option"
  sk_alg :: "jsstring option"
  sk_reason :: skipped_reason

record 'k loaded_jwks =
  jwks_format_of :: jwks_format
  jwks_keys :: "'k loaded_key list"
  jwks_skipped :: "skipped_key list"

text \<open>An option of the loader: a string, a value that can be the overrides of the limits, another
  value, or an accessor.\<close>

datatype loader_option = OptionText jsstring | OptionLimits "js_property js_options" | OptionOther | OptionAccessor

definition format_of :: "loader_option \<Rightarrow> candidate_error + jwks_format" where
  "format_of v =
     (case v of
        OptionText t \<Rightarrow>
          if t = lit ''jwks'' then Inr GenericJwks
          else if t = lit ''wg-directory-00'' then Inr WgDirectory00 else invalid_jwks
      | _ \<Rightarrow> invalid_jwks)"

definition limits_value :: "loader_option \<Rightarrow> js_property js_options" where
  "limits_value v = (case v of OptionLimits l \<Rightarrow> l | _ \<Rightarrow> NotAnObject)"

definition loader_step ::
    "jwks_format \<times> js_property js_options \<Rightarrow> js_key \<times> loader_option
       \<Rightarrow> candidate_error + jwks_format \<times> js_property js_options" where
  "loader_step s entry =
     (case entry of
        (SymbolKey _, _) \<Rightarrow> invalid_jwks
      | (StringKey name, v) \<Rightarrow>
          if name \<noteq> lit ''format'' \<and> name \<noteq> lit ''limits'' then invalid_jwks
          else if v = OptionAccessor then invalid_jwks
          else if name = lit ''format'' then bindE (format_of v) (\<lambda>f. Inr (f, snd s))
          else Inr (fst s, limits_value v))"

definition resolved_limits :: "js_property js_options \<Rightarrow> candidate_error + profile_limits" where
  "resolved_limits overrides =
     (case resolveProfileLimits overrides of
        Inl c \<Rightarrow> Inl (ProfileConfigurationError c) | Inr limits \<Rightarrow> Inr limits)"

definition optionsSnapshot :: "loader_option js_options \<Rightarrow> candidate_error + jwks_format \<times> profile_limits" where
  "optionsSnapshot options =
     (case options of
        NotAnObject \<Rightarrow> invalid_jwks
      | NoOptions \<Rightarrow> bindE (resolved_limits NoOptions) (\<lambda>l. Inr (GenericJwks, l))
      | OwnKeys es \<Rightarrow>
          bindE (foldE loader_step (GenericJwks, NoOptions) es) (\<lambda>(format, overrides).
          bindE (resolved_limits overrides) (\<lambda>l. Inr (format, l))))"

definition kid_of :: "jwk_entry \<Rightarrow> candidate_error + jsstring option" where
  "kid_of entry =
     (case own_value entry ''kid'' of
        None \<Rightarrow> Inr None | Some (ConfigString k) \<Rightarrow> Inr (Some k) | Some _ \<Rightarrow> invalid_jwks)"

definition add_entry ::
    "'k key_backend \<Rightarrow> jwks_format \<Rightarrow> 'k loaded_key list \<times> skipped_key list \<Rightarrow> nat \<times> config_value
       \<Rightarrow> candidate_error + 'k loaded_key list \<times> skipped_key list" where
  "add_entry B format s indexed =
     (case snd indexed of
        ConfigObject entry \<Rightarrow>
          if own_value entry ''kty'' = Some (ConfigString (lit ''oct'')) then invalid_jwks
          else
            bindE (kid_of entry) (\<lambda>kid.
            bindE (inspectPublicJwk B entry) (\<lambda>material.
            if format = WgDirectory00 \<and> kid \<noteq> None \<and> kid \<noteq> Some (pj_thumbprint material) then invalid_jwks
            else
              bindE (validateJwkUsage entry) (\<lambda>_.
              bindE (validateJwkAlgorithm entry format) (\<lambda>reason.
              Inr (if pj_selectable material then
                 (fst s @ [\<lparr>lk_index = fst indexed, lk_kid = kid, lk_thumbprint = pj_thumbprint material,
                    lk_public = pj_key material, lk_known_test = isKnownTestKey (pj_thumbprint material)\<rparr>], snd s)
               else
                 (fst s, snd s @ [\<lparr>sk_index = fst indexed, sk_kid = kid, sk_thumbprint = pj_thumbprint material,
                    sk_kty = pj_kty material, sk_curve = pj_curve material,
                    sk_alg = Option.bind (own_value entry ''alg'') string_value, sk_reason = the reason\<rparr>]))))))
      | _ \<Rightarrow> invalid_jwks)"

text \<open>The array of entries of a snapshot, counted before any of them is looked at.\<close>

definition snapshot_entries :: "profile_limits \<Rightarrow> config_value \<Rightarrow> candidate_error + config_value list" where
  "snapshot_entries limits snapshot =
     (case snapshot of
        ConfigObject ms \<Rightarrow>
          (case own_value ms ''keys'' of
             Some (ConfigArray es) \<Rightarrow> if maxKeys limits < length es then invalid_jwks else Inr es
           | _ \<Rightarrow> invalid_jwks)
      | _ \<Rightarrow> invalid_jwks)"

definition loadJwks ::
    "'k key_backend \<Rightarrow> json_parser \<Rightarrow> jwks_input \<Rightarrow> loader_option js_options \<Rightarrow> candidate_error + 'k loaded_jwks" where
  "loadJwks B json_parse input options =
     bindE (optionsSnapshot options) (\<lambda>(format, limits).
     bindE (snapshotJwksInput json_parse input (maxJwksBytes limits)) (\<lambda>snapshot.
     bindE (snapshot_entries limits snapshot) (\<lambda>es.
     bindE (foldE (add_entry B format) ([], []) (enumerate 0 es)) (\<lambda>(ks, skipped).
     Inr \<lparr>jwks_format_of = format, jwks_keys = ks, jwks_skipped = skipped\<rparr>))))"

definition lookup_key :: "'k loaded_jwks \<Rightarrow> jsstring \<Rightarrow> unverified_code + 'k loaded_key" where
  "lookup_key jwks thumbprint =
     (case find (\<lambda>k. lk_thumbprint k = thumbprint) (jwks_keys jwks) of
        Some k \<Rightarrow> Inr k
      | None \<Rightarrow> Inl (if list_ex (\<lambda>k. sk_thumbprint k = thumbprint) (jwks_skipped jwks)
          then UnsupportedAlgorithm else UnknownKey))"

text \<open>The export of a key object as \<open>publicMaterial\<close> sees it.\<close>

definition exported_jwk :: "'k key_backend \<Rightarrow> 'k \<Rightarrow> jwk_object option" where
  "exported_jwk B k = Some
     \<lparr>jwk_d = (export_member B k (lit ''d'') \<noteq> None), jwk_kty = export_member B k (lit ''kty''),
      jwk_crv = export_member B k (lit ''crv''), jwk_x = export_member B k (lit ''x'')\<rparr>"

section \<open>Loaded keys\<close>

text \<open>What the loader has checked of a key it may select: a key object of Ed25519 whose export is the
  material it was imported from, and the thumbprint of that material.\<close>

definition sound_key :: "'k key_backend \<Rightarrow> 'k loaded_key \<Rightarrow> bool" where
  "sound_key B k \<longleftrightarrow> (\<exists>x h. lk_public k = KeyObject PublicKey (Some (lit ''ed25519'')) h \<and>
     import_public B [(lit ''crv'', lit ''Ed25519''), (lit ''kty'', lit ''OKP''), (lit ''x'', x)] = Some (lk_public k) \<and>
     export_member B h (lit ''kty'') = Some (lit ''OKP'') \<and> export_member B h (lit ''crv'') = Some (lit ''Ed25519'') \<and>
     export_member B h (lit ''x'') = Some x \<and>
     length x = 43 \<and> list_all base64url_char x \<and> length (base64_decode x) = 32 \<and>
     base64url_encode (base64_decode x) = x \<and>
     lk_thumbprint k = material_thumbprint (sha256 B) x \<and> lk_known_test k = isKnownTestKey (lk_thumbprint k))"

lemma decode_component_Inr:
  assumes "decode_component v (Some 32) = Inr bs"
  shows "length v = 43 \<and> list_all base64url_char v \<and> length (base64_decode v) = 32 \<and>
    base64url_encode (base64_decode v) = v"
  using assms by (auto simp: decode_component_def encoded_length_def Let_def split: if_splits)

lemma imported_key_Inr:
  assumes "imported_key B backend ms = Inr k"
  shows "\<exists>h. k = KeyObject PublicKey (Some backend) h \<and> import_public B ms = Some k \<and>
    (\<forall>(name, v) \<in> set ms. export_member B h name = Some v)"
  using assms
  by (auto simp: imported_key_def list_ex_iff split: option.splits key_argument.splits if_splits)

lemma material_members:
  "members_thumbprint B [(lit ''crv'', lit ''Ed25519''), (lit ''kty'', lit ''OKP''), (lit ''x'', x)]
     = material_thumbprint (sha256 B) x"
  by (simp add: members_thumbprint_def material_thumbprint_def canonical_jwk_def json_object_def join_Cons del: lit_Cons)

lemma inspect_shape_ed25519:
  assumes "inspect_shape entry (lit ''OKP'') = Inr (Some (lit ''Ed25519''), backend, ms)"
  shows "\<exists>x. backend = lit ''ed25519'' \<and> decode_component x (Some 32) \<noteq> invalid_jwks \<and>
    (\<exists>bs. decode_component x (Some 32) = Inr bs) \<and>
    ms = [(lit ''crv'', lit ''Ed25519''), (lit ''kty'', lit ''OKP''), (lit ''x'', x)]"
  using assms
  by (auto simp: inspect_shape_def inspect_okp_def OKP_SHAPES_def bindE_eq_Inr split: if_splits)

lemma inspect_sound:
  assumes "inspectPublicJwk B entry = Inr material" "pj_selectable material"
  shows "sound_key B \<lparr>lk_index = i, lk_kid = kid, lk_thumbprint = pj_thumbprint material,
    lk_public = pj_key material, lk_known_test = isKnownTestKey (pj_thumbprint material)\<rparr>"
proof -
  obtain kty curve backend ms k where
    shape: "inspect_shape entry kty = Inr (curve, backend, ms)"
    and k: "imported_key B backend ms = Inr k"
    and m: "material = \<lparr>pj_kty = kty, pj_curve = curve, pj_thumbprint = members_thumbprint B ms, pj_key = k,
      pj_selectable = (kty = lit ''OKP'' \<and> curve = Some (lit ''Ed25519'')), pj_mandatory = ms\<rparr>"
    using assms(1) by (auto simp: inspectPublicJwk_def bindE_eq_Inr simp del: lit_Cons split: if_splits)
  then have "kty = lit ''OKP''" "curve = Some (lit ''Ed25519'')" using assms(2) by simp_all
  with shape inspect_shape_ed25519 obtain x bs where
    x: "backend = lit ''ed25519''" "decode_component x (Some 32) = Inr bs"
      "ms = [(lit ''crv'', lit ''Ed25519''), (lit ''kty'', lit ''OKP''), (lit ''x'', x)]"
    by blast
  from imported_key_Inr [OF k] obtain h where h: "k = KeyObject PublicKey (Some backend) h"
      "import_public B ms = Some k" "\<forall>(name, v) \<in> set ms. export_member B h name = Some v"
    by blast
  show ?thesis
    unfolding sound_key_def
    using h x decode_component_Inr [OF x(2)] m material_members [of B x]
    by (intro exI [of _ x] exI [of _ h]) (simp del: lit_Cons)
qed

lemma loaded_sound:
  assumes "foldE (add_entry B format) s es = Inr t" "\<forall>k \<in> set (fst s). sound_key B k"
  shows "\<forall>k \<in> set (fst t). sound_key B k"
proof (rule foldE_invariant [where P = "\<lambda>s. \<forall>k \<in> set (fst s). sound_key B k", OF assms])
  fix s :: "'a loaded_key list \<times> skipped_key list" and e s'
  assume "\<forall>k \<in> set (fst s). sound_key B k" "add_entry B format s e = Inr s'"
  then show "\<forall>k \<in> set (fst s'). sound_key B k"
    by (auto simp: add_entry_def bindE_eq_Inr dest: inspect_sound simp del: lit_Cons split: config_value.splits if_splits)
qed

lemma base64url_chars: "list_all base64url_char (base64url_encode bs)"
proof -
  have "v < 64 \<Longrightarrow> base64url_char (b64url_char v)" for v
    by (auto simp: base64url_char_def b64url_char_def alpha_def digit_def)
  then show ?thesis
    using b64_sextets_less [OF list_all_unat_u8, of bs] by (auto simp: base64url_encode_def list_all_iff)
qed

lemma thumbprint_valid:
  assumes "length bs = 32"
  shows "validateProfileKeyId (Some (base64url_encode bs)) = Inr (base64url_encode bs)"
proof -
  have "length (base64url_encode bs) = 43" using assms by (simp add: base64url_encode_def length_b64_sextets)
  then show ?thesis using assms by (simp add: validateProfileKeyId_def base64url_chars)
qed

lemma loadJwks_sound:
  assumes "loadJwks B json_parse input options = Inr jwks" "k \<in> set (jwks_keys jwks)"
  shows "sound_key B k"
proof -
  obtain format es ks skipped where
    "foldE (add_entry B format) ([], []) (enumerate 0 es) = Inr (ks, skipped)" "jwks_keys jwks = ks"
    using assms(1) by (auto simp: loadJwks_def bindE_eq_Inr)
  with loaded_sound [of B format "([], [])"] assms(2) show ?thesis by fastforce
qed

lemma sound_key_identity:
  assumes "sound_key B k" "\<forall>bs. length (sha256 B bs) = 32"
    and "\<forall>ms a h. import_public B ms = Some (KeyObject PublicKey a h) \<longrightarrow> export_member B h (lit ''d'') = None"
  shows "assertSelectedKeyIdentity (sha256 B) (exported_jwk B) (lk_thumbprint k) (lk_public k) = Inr (lk_thumbprint k)"
proof -
  obtain x h where k: "lk_public k = KeyObject PublicKey (Some (lit ''ed25519'')) h"
      "import_public B [(lit ''crv'', lit ''Ed25519''), (lit ''kty'', lit ''OKP''), (lit ''x'', x)] = Some (lk_public k)"
      "export_member B h (lit ''kty'') = Some (lit ''OKP'')" "export_member B h (lit ''crv'') = Some (lit ''Ed25519'')"
      "export_member B h (lit ''x'') = Some x" "length x = 43" "list_all base64url_char x"
      "length (base64_decode x) = 32" "base64url_encode (base64_decode x) = x"
      "lk_thumbprint k = material_thumbprint (sha256 B) x"
    using assms(1) unfolding sound_key_def by (elim exE conjE) (rule that)
  have d: "export_member B h (lit ''d'') = None" using assms(3) k(1,2) by (simp del: lit_Cons)
  have "ed25519Thumbprint (sha256 B) (exported_jwk B h) = Inr (lk_thumbprint k)"
    by (simp add: ed25519Thumbprint_def publicMaterial_def exported_jwk_def k d del: lit_Cons)
  moreover have "validateProfileKeyId (Some (lk_thumbprint k)) = Inr (lk_thumbprint k)"
    using thumbprint_valid assms(2) k(10) by (simp add: material_thumbprint_def)
  ultimately show ?thesis by (simp add: assertSelectedKeyIdentity_def k(1) del: lit_Cons)
qed

text \<open>C36. A key found in a loaded set is the key its identifier names: its thumbprint is the one looked up,
  recomputing it from the exported key object agrees, so the identity check of a candidate that
  selected it cannot fail, and the flag of a public test key follows the thumbprint and not a
  label.\<close>

theorem selected_key_identified:
  assumes "loadJwks B json_parse input options = Inr jwks" "lookup_key jwks t = Inr k"
    and "\<forall>bs. length (sha256 B bs) = 32"
    and "\<forall>ms a h. import_public B ms = Some (KeyObject PublicKey a h) \<longrightarrow> export_member B h (lit ''d'') = None"
  shows "lk_thumbprint k = t \<and> lk_known_test k = isKnownTestKey t \<and>
    assertSelectedKeyIdentity (sha256 B) (exported_jwk B) t (lk_public k) = Inr t"
proof -
  have k: "lk_thumbprint k = t" "k \<in> set (jwks_keys jwks)"
    using assms(2) by (auto simp: lookup_key_def find_Some_iff split: option.splits)
  have s: "sound_key B k" by (rule loadJwks_sound [OF assms(1) k(2)])
  with sound_key_identity [OF s assms(3,4)] k(1) show ?thesis by (auto simp: sound_key_def)
qed

definition sample_backend :: "(jsstring \<times> jsstring) list key_backend" where
  "sample_backend = \<lparr>import_public = (\<lambda>ms. Some (KeyObject PublicKey (Some (lit ''ed25519''))
      (filter (\<lambda>m. fst m \<noteq> lit ''d'') ms))),
     export_member = map_of, sha256 = (\<lambda>_. base64_decode (replicate 43 65))\<rparr>"

definition sample_jwks :: config_value where
  "sample_jwks = ConfigObject [(lit ''keys'', ConfigArray [ConfigObject
     [(lit ''kty'', ConfigString (lit ''OKP'')), (lit ''crv'', ConfigString (lit ''Ed25519'')),
      (lit ''x'', ConfigString (replicate 43 65))]])]"

definition sample_loaded :: "(jsstring \<times> jsstring) list loaded_jwks" where
  "sample_loaded = \<lparr>jwks_format_of = GenericJwks, jwks_keys =
     [\<lparr>lk_index = 0, lk_kid = None, lk_thumbprint = replicate 43 65,
       lk_public = KeyObject PublicKey (Some (lit ''ed25519''))
         [(lit ''crv'', lit ''Ed25519''), (lit ''kty'', lit ''OKP''), (lit ''x'', replicate 43 65)],
       lk_known_test = False\<rparr>], jwks_skipped = []\<rparr>"

lemma sample_component:
  "list_all base64url_char (replicate 43 65)" "length (base64_decode (replicate 43 65)) = 32"
  "base64url_encode (base64_decode (replicate 43 65)) = replicate 43 65"
  using sample_thumbprint by (simp_all add: canonical_thumbprint_def)

lemma sample_decode: "decode_component (replicate 43 65) (Some 32) = Inr (base64_decode (replicate 43 65))"
  using sample_component by (auto simp: decode_component_def encoded_length_def Let_def)

definition sample_entry :: jwk_entry where
  "sample_entry = [(lit ''kty'', ConfigString (lit ''OKP'')), (lit ''crv'', ConfigString (lit ''Ed25519'')),
     (lit ''x'', ConfigString (replicate 43 65))]"

definition sample_members :: "(jsstring \<times> jsstring) list" where
  "sample_members = [(lit ''crv'', lit ''Ed25519''), (lit ''kty'', lit ''OKP''), (lit ''x'', replicate 43 65)]"

lemma sample_own:
  "own_value sample_entry ''kty'' = Some (ConfigString (lit ''OKP''))"
  "own_value sample_entry ''crv'' = Some (ConfigString (lit ''Ed25519''))"
  "own_value sample_entry ''x'' = Some (ConfigString (replicate 43 65))"
  "own_value sample_entry ''kid'' = None" "own_value sample_entry ''use'' = None"
  "own_value sample_entry ''key_ops'' = None" "own_value sample_entry ''alg'' = None"
  "list_ex (\<lambda>name. \<exists>y. own_value sample_entry name = Some y) PRIVATE_MEMBERS = False"
  by (simp_all add: own_value_def sample_entry_def PRIVATE_MEMBERS_def)

lemma sample_inspect: "inspectPublicJwk sample_backend sample_entry = Inr
    \<lparr>pj_kty = lit ''OKP'', pj_curve = Some (lit ''Ed25519''), pj_thumbprint = replicate 43 65,
     pj_key = KeyObject PublicKey (Some (lit ''ed25519'')) sample_members, pj_selectable = True,
     pj_mandatory = sample_members\<rparr>"
proof -
  have shape: "inspect_shape sample_entry (lit ''OKP'') = Inr (Some (lit ''Ed25519''), lit ''ed25519'', sample_members)"
    by (simp add: inspect_shape_def inspect_okp_def required_def sample_own OKP_SHAPES_def sample_decode
        sample_members_def)
  have k: "imported_key sample_backend (lit ''ed25519'') sample_members
      = Inr (KeyObject PublicKey (Some (lit ''ed25519'')) sample_members)"
    by (simp add: imported_key_def sample_backend_def sample_members_def)
  have "members_thumbprint sample_backend sample_members = replicate 43 65"
    by (simp add: members_thumbprint_def sample_backend_def sample_component)
  with shape k show ?thesis
    by (simp add: inspectPublicJwk_def required_def sample_own del: lit_Cons)
qed

lemma sample_usage: "validateJwkUsage sample_entry = Inr ()" "validateJwkAlgorithm sample_entry GenericJwks = Inr None"
  by (simp_all add: validateJwkUsage_def declared_use_def declared_operations_def validateJwkAlgorithm_def
      declared_algorithm_def sample_own ed25519_curve_def)

lemma sample_entries: "maxKeys l = 64 \<Longrightarrow> snapshot_entries l sample_jwks = Inr [ConfigObject sample_entry]"
  by (simp add: snapshot_entries_def sample_jwks_def own_value_def sample_entry_def)

lemma sample_added:
  "add_entry sample_backend GenericJwks ([], []) (0, ConfigObject sample_entry) = Inr (jwks_keys sample_loaded, [])"
proof -
  have test: "\<not> isKnownTestKey (replicate 43 65)"
    by (simp add: isKnownTestKey_def KNOWN_TEST_KEY_THUMBPRINTS_def numeral_eq_Suc)
  have "own_value sample_entry ''kty'' \<noteq> Some (ConfigString (lit ''oct''))" by (simp add: sample_own)
  then show ?thesis
    by (simp add: add_entry_def kid_of_def sample_own sample_inspect sample_usage test sample_loaded_def
        sample_members_def del: lit_Cons)
qed

lemma sample_load: "loadJwks sample_backend json_parse (JwksValue sample_jwks) NoOptions = Inr sample_loaded"
proof -
  have x: "string_bytes (replicate 43 65) = replicate 43 65" by (rule string_bytes_plain) (simp add: list_all_iff)
  have copied: "snapshotJwksInput json_parse (JwksValue sample_jwks) 262144 = Inr sample_jwks"
    unfolding snapshot_value_eq
    by (simp add: sample_jwks_def quoted_bytes_def x length_json_escape utf8_2_def)
  show ?thesis
    by (simp add: loadJwks_def optionsSnapshot_def resolved_limits_def resolveProfileLimits_default copied
        sample_entries sample_added) (simp add: sample_loaded_def)
qed

theorem selected_key_identified_witness:
  "assertSelectedKeyIdentity (sha256 sample_backend) (exported_jwk sample_backend) (replicate 43 65)
     (KeyObject PublicKey (Some (lit ''ed25519'')) sample_members) = Inr (replicate 43 65)"
proof -
  have k: "lookup_key sample_loaded (replicate 43 65) = Inr (hd (jwks_keys sample_loaded))"
    by (simp add: lookup_key_def sample_loaded_def)
  have d: "\<forall>ms a h. import_public sample_backend ms = Some (KeyObject PublicKey a h) \<longrightarrow>
      export_member sample_backend h (lit ''d'') = None"
    by (auto simp: sample_backend_def map_of_eq_None_iff simp del: lit_Cons)
  have "\<forall>bs. length (sha256 sample_backend bs) = 32" by (simp add: sample_backend_def sample_component)
  from selected_key_identified [OF sample_load k this d] show ?thesis
    by (simp add: sample_loaded_def sample_members_def del: lit_Cons)
qed

end
