(* ===== verification/ClockTracker.thy ===== *)
theory ClockTracker
  imports Complex_Main ProfileDefaults
begin

text \<open>
  The clock tracker, \<^verbatim>\<open>clock-tracker.ts\<close>. Samples are JavaScript numbers, so the arithmetic is
  the double arithmetic of the language: \<open>double\<close> rounds an exact rational result to the nearest
  double, ties to even. Every result here is below \<open>2 ^ 55\<close>, the bound from which the search for
  the exponent starts, so there is no overflow.
\<close>

section \<open>Double arithmetic\<close>

definition round_half_even :: "rat \<Rightarrow> int" where
  "round_half_even x =
     (let n = \<lfloor>x\<rfloor>; r = x - of_int n in
      if r < 1/2 then n else if 1/2 < r then n + 1 else if even n then n else n + 1)"

text \<open>The exponent of the last bit of a double next to \<open>x\<close>.\<close>

function double_grid :: "int \<Rightarrow> rat \<Rightarrow> int" where
  "double_grid k x = (if k \<le> -1074 \<or> 2 powi (k + 52) \<le> \<bar>x\<bar> then k else double_grid (k - 1) x)"
  by auto
termination by (relation "measure (\<lambda>(k, x). nat (k + 1074))") auto

declare double_grid.simps [simp del]

definition double :: "rat \<Rightarrow> rat" where
  "double x = (let g = 2 powi double_grid 2 x in of_int (round_half_even (x / g)) * g)"

lemma round_half_even_int [simp]: "round_half_even (of_int n) = n"
  by (simp add: round_half_even_def)

lemma round_half_even_bounds: "\<lfloor>x\<rfloor> \<le> round_half_even x" "round_half_even x \<le> \<lfloor>x\<rfloor> + 1"
  by (simp_all add: round_half_even_def Let_def)

lemma round_half_even_mono: "x \<le> y \<Longrightarrow> round_half_even x \<le> round_half_even y"
proof (cases "\<lfloor>x\<rfloor> = \<lfloor>y\<rfloor>")
  case True
  then show "x \<le> y \<Longrightarrow> ?thesis" by (auto simp: round_half_even_def Let_def)
next
  case False
  assume "x \<le> y"
  then have "\<lfloor>x\<rfloor> + 1 \<le> \<lfloor>y\<rfloor>" using False floor_mono [of x y] by linarith
  with round_half_even_bounds show ?thesis by (meson order_trans)
qed

lemma round_half_even_minus: "round_half_even (- x) = - round_half_even x"
proof (cases "x = of_int \<lfloor>x\<rfloor>")
  case True
  then show ?thesis by (metis of_int_minus round_half_even_int)
next
  case False
  have "\<lceil>x\<rceil> = \<lfloor>x\<rfloor> + 1" using False by (simp add: ceiling_altdef)
  then have "\<lfloor>- x\<rfloor> = - \<lfloor>x\<rfloor> - 1" by (simp add: floor_minus)
  then show ?thesis by (auto simp: round_half_even_def Let_def)
qed

lemma double_grid_range: "-1074 \<le> k \<Longrightarrow> -1074 \<le> double_grid k x \<and> double_grid k x \<le> k"
  by (induction k x rule: double_grid.induct) (subst (1 2) double_grid.simps, auto)

lemma double_grid_lower: "-1074 \<le> k \<Longrightarrow> double_grid k x = -1074 \<or> 2 powi (double_grid k x + 52) \<le> \<bar>x\<bar>"
  by (induction k x rule: double_grid.induct) (subst (1 2) double_grid.simps, auto)

lemma double_grid_upper: "double_grid k x \<noteq> k \<Longrightarrow> \<bar>x\<bar> < 2 powi (double_grid k x + 53)"
proof (induction k x rule: double_grid.induct)
  case (1 k x)
  show ?case
  proof (cases "k \<le> -1074 \<or> 2 powi (k + 52) \<le> \<bar>x\<bar>")
    case True
    then show ?thesis using 1(2) by (simp add: double_grid.simps [of k])
  next
    case False
    then have eq: "double_grid k x = double_grid (k - 1) x" by (simp add: double_grid.simps [of k])
    show ?thesis
    proof (cases "double_grid (k - 1) x = k - 1")
      case True
      then show ?thesis using False eq by (simp add: add.commute)
    next
      case False2: False
      with 1(1) [OF False] eq show ?thesis by simp
    qed
  qed
qed

lemma double_grid_minus [simp]: "double_grid k (- x) = double_grid k x"
  by (induction k x rule: double_grid.induct) (subst (1 2) double_grid.simps, auto)

lemma double_minus [simp]: "double (- x) = - double x"
  by (simp add: double_def Let_def round_half_even_minus)

lemma powi2_pos [simp]: "(0 :: rat) < 2 powi k"
  by (simp add: zero_less_power_int)

lemma powi2_of_int: "0 \<le> k \<Longrightarrow> \<exists>n. (2 :: rat) powi k = of_int n"
  by (rule exI [of _ "2 ^ nat k"]) (simp add: power_int_def)

lemma double_zero_le: "0 \<le> x \<Longrightarrow> 0 \<le> double x"
  using round_half_even_mono [of 0 "x / 2 powi double_grid 2 x"] round_half_even_int [of 0]
  by (simp add: double_def Let_def)

text \<open>A double between neighbours: rounding does not cross a number on the grid.\<close>

lemma double_le_grid:
  assumes "x \<le> 2 powi (double_grid 2 x + 53)"
  shows "double x \<le> 2 powi (double_grid 2 x + 53)"
proof -
  let ?k = "double_grid 2 x"
  have "x / 2 powi ?k \<le> of_int (2 ^ 53)"
    using assms by (simp add: divide_le_eq power_int_add)
  then have "round_half_even (x / 2 powi ?k) \<le> 2 ^ 53"
    using round_half_even_mono round_half_even_int by metis
  then have "of_int (round_half_even (x / 2 powi ?k)) \<le> (2 ^ 53 :: rat)"
    by (metis of_int_le_iff of_int_numeral of_int_power)
  then show ?thesis by (simp add: double_def Let_def power_int_add mult.commute)
qed

lemma double_ge_grid:
  assumes "2 powi (double_grid 2 x + 52) \<le> x"
  shows "2 powi (double_grid 2 x + 52) \<le> double x"
proof -
  let ?k = "double_grid 2 x"
  have "of_int (2 ^ 52) \<le> x / 2 powi ?k"
    using assms by (simp add: le_divide_eq power_int_add)
  then have "2 ^ 52 \<le> round_half_even (x / 2 powi ?k)"
    using round_half_even_mono round_half_even_int by metis
  then have "(2 ^ 52 :: rat) \<le> of_int (round_half_even (x / 2 powi ?k))"
    by (metis of_int_le_iff of_int_numeral of_int_power)
  then show ?thesis by (simp add: double_def Let_def power_int_add mult.commute)
qed

lemma double_mono_nonneg:
  assumes "0 \<le> x" "x \<le> y"
  shows "double x \<le> double y"
proof -
  let ?k = "double_grid 2 x" let ?l = "double_grid 2 y"
  have r: "-1074 \<le> ?k" "?k \<le> 2" "-1074 \<le> ?l" "?l \<le> 2" using double_grid_range [of 2] by auto
  consider "?k = ?l" | "?k < ?l" | "?l < ?k" by linarith
  then show ?thesis
  proof cases
    case 1
    have "round_half_even (x / 2 powi ?k) \<le> round_half_even (y / 2 powi ?k)"
      using assms(2) by (intro round_half_even_mono divide_right_mono) auto
    with 1 show ?thesis by (simp add: double_def Let_def)
  next
    case 2
    then have up: "x \<le> 2 powi (?k + 53)"
      using double_grid_upper [of 2 x] r assms(1) by (auto simp: abs_of_nonneg)
    have low: "2 powi (?l + 52) \<le> y"
      using double_grid_lower [of 2 y] r 2 assms by auto
    have "double x \<le> 2 powi (?k + 53)" by (rule double_le_grid [OF up])
    also have "\<dots> \<le> 2 powi (?l + 52)" using 2 by (intro power_int_increasing) auto
    also have "\<dots> \<le> double y" by (rule double_ge_grid [OF low])
    finally show ?thesis .
  next
    case 3
    then have "y < 2 powi (?l + 53)"
      using double_grid_upper [of 2 y] r assms by (auto simp: abs_of_nonneg)
    also have "(2 :: rat) powi (?l + 53) \<le> 2 powi (?k + 52)" using 3 by (intro power_int_increasing) auto
    also have "\<dots> \<le> x" using double_grid_lower [of 2 x] r 3 assms(1) by auto
    finally show ?thesis using assms(2) by simp
  qed
qed

lemma double_mono: "x \<le> y \<Longrightarrow> double x \<le> double y"
proof -
  assume le: "x \<le> y"
  consider "0 \<le> x" | "x \<le> 0" "0 \<le> y" | "y \<le> 0" by linarith
  then show "double x \<le> double y"
  proof cases
    case 2
    then show ?thesis using double_zero_le [of "- x"] double_zero_le [of y] by simp
  next
    case 3
    then show ?thesis using double_mono_nonneg [of "- y" "- x"] le by simp
  qed (use le double_mono_nonneg in auto)
qed

text \<open>Whole numbers in the safe range are doubles.\<close>

lemma double_of_int: "\<bar>n\<bar> < 2 ^ 53 \<Longrightarrow> double (of_int n) = of_int n"
proof -
  assume "\<bar>n\<bar> < 2 ^ 53"
  then have b: "\<bar>of_int n\<bar> < (2 :: rat) powi 53" by (simp flip: of_int_abs)
  let ?k = "double_grid 2 (of_int n)"
  have k: "?k \<le> 0"
  proof (rule ccontr)
    assume "\<not> ?k \<le> 0"
    then have "2 powi (?k + 52) \<le> \<bar>of_int n :: rat\<bar>" using double_grid_lower [of 2 "of_int n"] by auto
    moreover have "(2 :: rat) powi 53 \<le> 2 powi (?k + 52)"
      using \<open>\<not> ?k \<le> 0\<close> by (intro power_int_increasing) auto
    ultimately show False using b by linarith
  qed
  then obtain m where m: "(2 :: rat) powi (- ?k) = of_int m" using powi2_of_int [of "- ?k"] by auto
  have "of_int n / 2 powi ?k = (of_int (n * m) :: rat)"
    using m by (simp add: power_int_minus divide_inverse)
  then have "double (of_int n) = of_int (n * m) * 2 powi ?k"
    by (simp only: double_def Let_def round_half_even_int)
  also have "\<dots> = of_int n * (2 powi (- ?k) * 2 powi ?k)" by (simp add: m)
  also have "\<dots> = of_int n" by (simp add: power_int_minus)
  finally show ?thesis .
qed

lemma double_beyond_safe: "2 ^ 53 \<le> x \<Longrightarrow> 2 ^ 53 \<le> double x"
proof -
  have g: "double_grid 2 9007199254740992 = 1"
    by (simp add: double_grid.simps [of 2] double_grid.simps [of 1] power_int_def)
  have "double 9007199254740992 = 9007199254740992"
    using round_half_even_int [of "2 ^ 52"] by (simp add: double_def g)
  then show "2 ^ 53 \<le> x \<Longrightarrow> 2 ^ 53 \<le> double x" using double_mono [of "2 ^ 53" x] by simp
qed

section \<open>The tracker\<close>

text \<open>\<open>ClockHealthReason\<close>. A sample is \<open>None\<close> when it is not a finite number.\<close>

datatype clock_health_reason = InvalidSample | MonotonicRegression | UnsafeArithmetic | WallDrift

type_synonym sample = "rat option"

datatype clock_health = Healthy rat int | Unhealthy clock_health_reason

record clock_observation =
  health :: clock_health
  transition :: "bool option"

record clock_tracker =
  referenceWallMs :: rat
  referenceMonotonicMs :: rat
  tracker_policy :: clock_policy
  previousMonotonicMs :: rat
  regressed :: bool
  wasHealthy :: bool

fun boundedNumber :: "sample \<Rightarrow> bool" where
  "boundedNumber None = False"
| "boundedNumber (Some x) = (\<bar>x\<bar> \<le> of_nat max_safe)"

definition wallSample :: "sample \<Rightarrow> bool" where
  "wallSample v \<longleftrightarrow> boundedNumber v \<and> 0 \<le> the v"

definition createClockTracker :: "sample \<Rightarrow> sample \<Rightarrow> clock_policy \<Rightarrow> configuration_code + clock_tracker" where
  "createClockTracker wall monotonic policy =
     (if \<not> wallSample wall \<or> \<not> boundedNumber monotonic then Inl InvalidClockConfiguration
      else Inr \<lparr>referenceWallMs = the wall, referenceMonotonicMs = the monotonic, tracker_policy = policy,
                previousMonotonicMs = the monotonic, regressed = False, wasHealthy = True\<rparr>)"

fun is_healthy :: "clock_health \<Rightarrow> bool" where
  "is_healthy (Healthy _ _) = True"
| "is_healthy (Unhealthy _) = False"

definition observation :: "clock_health \<Rightarrow> clock_tracker \<Rightarrow> clock_observation \<times> clock_tracker" where
  "observation result t =
     (\<lparr>health = result,
       transition = (if wasHealthy t \<noteq> is_healthy result then Some (is_healthy result) else None)\<rparr>,
      t\<lparr>wasHealthy := is_healthy result\<rparr>)"

definition track_monotonic :: "sample \<Rightarrow> clock_tracker \<Rightarrow> clock_tracker" where
  "track_monotonic monotonic t =
     (if \<not> boundedNumber monotonic then t
      else if the monotonic < previousMonotonicMs t then t\<lparr>regressed := True\<rparr>
      else t\<lparr>previousMonotonicMs := the monotonic\<rparr>)"

definition assess_clock :: "clock_tracker \<Rightarrow> sample \<Rightarrow> sample \<Rightarrow> clock_health" where
  "assess_clock t wall monotonic =
     (if regressed t then Unhealthy MonotonicRegression
      else if \<not> wallSample wall \<or> \<not> boundedNumber monotonic then Unhealthy InvalidSample
      else let elapsed = double (the monotonic - referenceMonotonicMs t);
               effective = double (referenceWallMs t + elapsed) in
        if \<not> boundedNumber (Some elapsed) \<or> elapsed < 0 \<or> \<not> wallSample (Some effective)
        then Unhealthy UnsafeArithmetic
        else let drift = double (the wall - effective) in
          if double (of_nat (maxClockDriftSeconds (tracker_policy t)) * 1000) < \<bar>drift\<bar>
          then Unhealthy WallDrift
          else Healthy effective \<lfloor>double (effective / 1000)\<rfloor>)"

definition observe :: "sample \<Rightarrow> sample \<Rightarrow> clock_tracker \<Rightarrow> clock_observation \<times> clock_tracker" where
  "observe wall monotonic t0 =
     (let t = track_monotonic monotonic t0 in observation (assess_clock t wall monotonic) t)"

fun observe_all :: "(sample \<times> sample) list \<Rightarrow> clock_tracker \<Rightarrow> clock_observation list" where
  "observe_all [] t = []"
| "observe_all (s # ss) t = (let (r, t') = observe (fst s) (snd s) t in r # observe_all ss t')"

section \<open>What the tracker guarantees\<close>

definition epoch_second :: "clock_observation \<Rightarrow> int option" where
  "epoch_second r = (case health r of Healthy _ n \<Rightarrow> Some n | Unhealthy _ \<Rightarrow> None)"

text \<open>The least second a healthy observation of a tracker can give from now on.\<close>

definition earliest_second :: "clock_tracker \<Rightarrow> int" where
  "earliest_second t =
     \<lfloor>double (double (referenceWallMs t + double (previousMonotonicMs t - referenceMonotonicMs t)) / 1000)\<rfloor>"

lemma observe_fields:
  "observe w m t = (r, t') \<Longrightarrow> referenceWallMs t' = referenceWallMs t \<and>
     referenceMonotonicMs t' = referenceMonotonicMs t \<and> tracker_policy t' = tracker_policy t \<and>
     (regressed t \<longrightarrow> regressed t') \<and> previousMonotonicMs t \<le> previousMonotonicMs t' \<and>
     wasHealthy t' = is_healthy (health r)"
  by (auto simp: observe_def observation_def track_monotonic_def Let_def split: if_splits)

lemma observe_healthy:
  assumes "observe w m t = (r, t')" "epoch_second r = Some n"
  shows "\<not> regressed t \<and> earliest_second t' = n"
  using assms
  by (auto simp: observe_def observation_def assess_clock_def track_monotonic_def Let_def earliest_second_def
      epoch_second_def split: if_splits)

lemma earliest_mono:
  assumes "observe w m t = (r, t')"
  shows "earliest_second t \<le> earliest_second t'"
  using observe_fields [OF assms]
  by (simp add: earliest_second_def floor_mono double_mono divide_right_mono)

lemma observe_all_epochs:
  "n \<in> set (List.map_filter epoch_second (observe_all ss t)) \<Longrightarrow> earliest_second t \<le> n \<and> \<not> regressed t"
proof (induction ss arbitrary: t)
  case (Cons s ss)
  obtain r t' where o: "observe (fst s) (snd s) t = (r, t')" by fastforce
  note f = observe_fields [OF o] earliest_mono [OF o]
  from Cons.prems o consider "epoch_second r = Some n" | "n \<in> set (List.map_filter epoch_second (observe_all ss t'))"
    by (auto simp: map_filter_simps split: option.splits)
  then show ?case
  proof cases
    case 1
    from observe_healthy [OF o 1] f show ?thesis by simp
  next
    case 2
    from Cons.IH [OF 2] f show ?thesis by auto
  qed
qed (simp add: map_filter_simps)

lemma observe_all_sorted: "sorted (List.map_filter epoch_second (observe_all ss t))"
proof (induction ss arbitrary: t)
  case (Cons s ss)
  obtain r t' where o: "observe (fst s) (snd s) t = (r, t')" by fastforce
  then show ?case
    using Cons.IH [of t'] observe_healthy [OF o] observe_all_epochs [of _ ss t']
    by (auto simp: map_filter_simps split: option.splits)
qed (simp add: map_filter_simps)

lemma regressed_latched:
  "regressed t \<Longrightarrow> r \<in> set (observe_all ss t) \<Longrightarrow> health r = Unhealthy MonotonicRegression"
proof (induction ss arbitrary: t)
  case (Cons s ss)
  obtain q t' where o: "observe (fst s) (snd s) t = (q, t')" by fastforce
  have "regressed (track_monotonic (snd s) t)" using Cons.prems(1) by (simp add: track_monotonic_def)
  then have "health q = Unhealthy MonotonicRegression"
    using o by (auto simp: observe_def observation_def assess_clock_def Let_def)
  moreover have "regressed t'" using observe_fields [OF o] Cons.prems(1) by simp
  ultimately show ?case using Cons o by auto
qed simp

lemma regressed_now:
  assumes "regressed (track_monotonic m t)"
  shows "list_all (\<lambda>r. health r = Unhealthy MonotonicRegression) (observe_all ((w, m) # ss) t)"
proof -
  obtain q t' where o: "observe w m t = (q, t')" by fastforce
  then have "health q = Unhealthy MonotonicRegression" "regressed t'"
    using assms by (auto simp: observe_def observation_def assess_clock_def Let_def)
  with o regressed_latched [of t'] show ?thesis by (auto simp: list_all_iff)
qed

text \<open>The tracker after some samples.\<close>

fun tracker_after :: "(sample \<times> sample) list \<Rightarrow> clock_tracker \<Rightarrow> clock_tracker" where
  "tracker_after [] t = t"
| "tracker_after (s # ss) t = tracker_after ss (snd (observe (fst s) (snd s) t))"

lemma observe_all_append: "observe_all (ss @ rs) t = observe_all ss t @ observe_all rs (tracker_after ss t)"
  by (induction ss arbitrary: t) (auto simp: case_prod_beta)

lemma length_observe_all [simp]: "length (observe_all ss t) = length ss"
  by (induction ss arbitrary: t) (auto simp: case_prod_beta)

lemma tracker_after_previous:
  "previousMonotonicMs t \<le> previousMonotonicMs (tracker_after ss t) \<and> (regressed t \<longrightarrow> regressed (tracker_after ss t))"
proof (induction ss arbitrary: t)
  case (Cons s ss)
  obtain q t' where "observe (fst s) (snd s) t = (q, t')" by fastforce
  with observe_fields [OF this] Cons.IH [of t'] show ?case by (auto intro: order_trans)
qed simp

text \<open>C34. The seconds a tracker reports never go back: over any sequence of samples, the epoch
  seconds of its healthy observations are in order, with the double arithmetic of the language.\<close>

theorem clock_seconds_sorted:
  "sorted (List.map_filter epoch_second (observe_all ss t))"
  by (rule observe_all_sorted)

text \<open>C33. A regression of the monotonic clock is permanent: from the first sample below an earlier
  one on, whatever the wall samples are, every observation is unhealthy for that reason.\<close>

theorem clock_regression_latched:
  assumes "\<bar>earlier\<bar> \<le> of_nat max_safe" "\<bar>later\<bar> \<le> of_nat max_safe" "later < earlier"
  shows "list_all (\<lambda>r. health r = Unhealthy MonotonicRegression)
    (drop (Suc (length before + length between))
      (observe_all (before @ (wall, Some earlier) # between @ (wall', Some later) # after) t))"
proof -
  let ?t1 = "tracker_after before t"
  let ?t2 = "tracker_after between (snd (observe wall (Some earlier) ?t1))"
  have "earlier \<le> previousMonotonicMs (snd (observe wall (Some earlier) ?t1)) \<or>
      regressed (snd (observe wall (Some earlier) ?t1))"
    using assms(1) by (auto simp: observe_def observation_def track_monotonic_def Let_def)
  then have "earlier \<le> previousMonotonicMs ?t2 \<or> regressed ?t2"
    using tracker_after_previous [of "snd (observe wall (Some earlier) ?t1)" between] by (meson order_trans)
  then have reg: "regressed (track_monotonic (Some later) ?t2)"
    using assms(2,3) by (auto simp: track_monotonic_def)
  have "drop (Suc (length before + length between))
      (observe_all (before @ (wall, Some earlier) # between @ (wall', Some later) # after) t)
    = observe_all ((wall', Some later) # after) ?t2"
    by (simp add: observe_all_append case_prod_beta)
  moreover have "list_all (\<lambda>r. health r = Unhealthy MonotonicRegression) (observe_all ((wall', Some later) # after) ?t2)"
    by (rule regressed_now [OF reg])
  ultimately show ?thesis by (simp only:)
qed

theorem clock_regression_latched_witness:
  "health (observe_all [(Some 1000, Some 5), (Some 1000, Some 4)]
     \<lparr>referenceWallMs = 1000, referenceMonotonicMs = 5, tracker_policy = \<lparr>maxClockDriftSeconds = 30\<rparr>,
      previousMonotonicMs = 5, regressed = False, wasHealthy = True\<rparr> ! 1) = Unhealthy MonotonicRegression"
proof -
  let ?t = "\<lparr>referenceWallMs = 1000, referenceMonotonicMs = 5, tracker_policy = \<lparr>maxClockDriftSeconds = 30\<rparr>,
      previousMonotonicMs = 5, regressed = False, wasHealthy = True\<rparr>"
  have b: "\<bar>5 :: rat\<bar> \<le> of_nat max_safe" "\<bar>4 :: rat\<bar> \<le> of_nat max_safe" "(4 :: rat) < 5"
    by (simp_all add: max_safe_def)
  from clock_regression_latched [OF b, of "[]" "[]" "Some 1000" "Some 1000" "[]" ?t]
  show ?thesis by (simp add: case_prod_beta)
qed

text \<open>On whole milliseconds the verdict is exact: with references and samples that are integers,
  an observation is healthy if and only if the monotonic clock has never gone back, both samples
  are safe, the time since the reference is not negative, and the wall clock is within the policy
  of the reference advanced by that time, which is then the effective time.\<close>

theorem clock_health_exact:
  fixes r0 m0 w m :: int
  assumes "referenceWallMs t = of_int r0" "referenceMonotonicMs t = of_int m0"
    and "0 \<le> r0" "r0 \<le> int max_safe" "\<bar>m0\<bar> \<le> int max_safe"
    and "maxClockDriftSeconds (tracker_policy t) * 1000 \<le> max_safe"
  shows "is_healthy (health (fst (observe (Some (of_int w)) (Some (of_int m)) t))) \<longleftrightarrow>
    \<not> regressed (track_monotonic (Some (of_int m)) t) \<and> 0 \<le> w \<and> w \<le> int max_safe \<and> \<bar>m\<bar> \<le> int max_safe \<and>
    m0 \<le> m \<and> m - m0 \<le> int max_safe \<and> r0 + (m - m0) \<le> int max_safe \<and>
    \<bar>w - (r0 + (m - m0))\<bar> \<le> int (maxClockDriftSeconds (tracker_policy t)) * 1000"
proof -
  let ?t = "track_monotonic (Some (of_int m)) t"
  let ?drift = "int (maxClockDriftSeconds (tracker_policy t)) * 1000"
  have f: "referenceWallMs ?t = of_int r0" "referenceMonotonicMs ?t = of_int m0" "tracker_policy ?t = tracker_policy t"
    using assms(1,2) by (simp_all add: track_monotonic_def)
  have ms: "(of_nat max_safe :: rat) = of_int (int max_safe)" by simp
  have abs_ms: "\<bar>of_int n :: rat\<bar> \<le> of_nat max_safe \<longleftrightarrow> \<bar>n\<bar> \<le> int max_safe" for n
    unfolding ms by (simp only: of_int_abs [symmetric] of_int_le_iff)
  have whole: "double (of_int n) = of_int n" if "\<bar>n\<bar> \<le> int max_safe" for n
    using that by (intro double_of_int) (simp add: max_safe_def)
  have beyond: "of_nat max_safe < double (of_int n)" if "int max_safe < n" for n
  proof -
    have "(2 ^ 53 :: rat) \<le> of_int n" using that by (simp add: max_safe_def)
    from double_beyond_safe [OF this] show ?thesis by (simp add: max_safe_def)
  qed
  have safe: "\<bar>double (of_int n)\<bar> \<le> of_nat max_safe \<longleftrightarrow> n \<le> int max_safe" if "0 \<le> n" for n
  proof (cases "n \<le> int max_safe")
    case True
    then have "double (of_int n) = of_int n" using whole that by simp
    then show ?thesis using True that abs_ms [of n] by simp
  qed (use beyond [of n] in auto)
  have limit: "double (of_nat (maxClockDriftSeconds (tracker_policy t)) * 1000) = of_int ?drift"
    using whole [of ?drift] assms(6) by simp
  define E where "E = r0 + (m - m0)"
  have verdict: "is_healthy (health (fst (observe (Some (of_int w)) (Some (of_int m)) t)))
      = is_healthy (assess_clock ?t (Some (of_int w)) (Some (of_int m)))"
    by (simp add: observe_def observation_def Let_def)
  have bounds: "wallSample (Some (of_int w)) \<longleftrightarrow> 0 \<le> w \<and> w \<le> int max_safe"
      "boundedNumber (Some (of_int m)) \<longleftrightarrow> \<bar>m\<bar> \<le> int max_safe"
    by (auto simp: wallSample_def abs_ms)
  show ?thesis
  proof (cases "\<not> regressed ?t \<and> 0 \<le> w \<and> w \<le> int max_safe \<and> \<bar>m\<bar> \<le> int max_safe \<and> m0 \<le> m \<and> m - m0 \<le> int max_safe")
    case True
    then have e: "double (of_int m - of_int m0) = of_int (m - m0)" using whole [of "m - m0"] by simp
    have E: "0 \<le> E" "(of_int r0 :: rat) + of_int (m - m0) = of_int E" using assms(3) True by (simp_all add: E_def)
    have el: "boundedNumber (Some (of_int (m - m0)))" "(0 :: rat) \<le> of_int (m - m0)"
      using True abs_ms [of "m - m0"] by simp_all
    have ef: "wallSample (Some (double (of_int E))) \<longleftrightarrow> E \<le> int max_safe"
      using safe [OF E(1)] double_zero_le [of "of_int E"] E(1) by (simp add: wallSample_def)
    have dr: "double (of_int w - double (of_int E)) = of_int (w - E)" if "E \<le> int max_safe"
    proof -
      have "\<bar>w - E\<bar> \<le> int max_safe" using that E(1) True by linarith
      with whole [of E] whole [of "w - E"] that E(1) show ?thesis by simp
    qed
    have lt: "(of_int ?drift :: rat) < \<bar>of_int (w - E)\<bar> \<longleftrightarrow> ?drift < \<bar>w - E\<bar>"
      by (simp only: of_int_abs [symmetric] of_int_less_iff)
    show ?thesis
    proof (cases "E \<le> int max_safe")
      case bound: True
      have "is_healthy (assess_clock ?t (Some (of_int w)) (Some (of_int m))) \<longleftrightarrow> \<not> ?drift < \<bar>w - E\<bar>"
        using True el ef bound lt
        by (simp only: assess_clock_def Let_def f bounds option.sel e E(2) limit dr [OF bound])
          (simp add: not_less)
      with True bound show ?thesis unfolding verdict E_def [symmetric] by (simp add: not_less)
    next
      case False
      have "\<not> is_healthy (assess_clock ?t (Some (of_int w)) (Some (of_int m)))"
        using True el ef False
        by (simp only: assess_clock_def Let_def f bounds option.sel e E(2)) simp
      with False show ?thesis unfolding verdict E_def [symmetric] by simp
    qed
  next
    case False
    then consider "regressed ?t" | "\<not> (0 \<le> w \<and> w \<le> int max_safe \<and> \<bar>m\<bar> \<le> int max_safe)" | "m < m0" | "int max_safe < m - m0"
      by linarith
    then have "\<not> is_healthy (assess_clock ?t (Some (of_int w)) (Some (of_int m)))"
    proof cases
      case 3
      then have "double (of_int (m - m0)) \<le> double (of_int (- 1))" by (intro double_mono) simp
      then have "double (of_int m - of_int m0) < 0" using whole [of "- 1"] by (simp add: max_safe_def)
      then show ?thesis by (simp add: assess_clock_def Let_def f)
    next
      case 4
      then have "of_nat max_safe < double (of_int m - of_int m0)" using beyond [of "m - m0"] by simp
      then show ?thesis by (simp add: assess_clock_def Let_def f)
    qed (use bounds in \<open>auto simp: assess_clock_def\<close>)
    with False show ?thesis unfolding verdict by blast
  qed
qed

theorem clock_health_exact_witness:
  "is_healthy (health (fst (observe (Some 2500) (Some 1505)
     \<lparr>referenceWallMs = 1000, referenceMonotonicMs = 5, tracker_policy = \<lparr>maxClockDriftSeconds = 30\<rparr>,
      previousMonotonicMs = 5, regressed = False, wasHealthy = True\<rparr>)))"
proof -
  let ?t = "\<lparr>referenceWallMs = 1000, referenceMonotonicMs = 5, tracker_policy = \<lparr>maxClockDriftSeconds = 30\<rparr>,
      previousMonotonicMs = 5, regressed = False, wasHealthy = True\<rparr>"
  have "referenceWallMs ?t = of_int 1000" "referenceMonotonicMs ?t = of_int 5" "(0 :: int) \<le> 1000"
    "1000 \<le> int max_safe" "\<bar>5\<bar> \<le> int max_safe" "maxClockDriftSeconds (tracker_policy ?t) * 1000 \<le> max_safe"
    by (simp_all add: max_safe_def)
  from clock_health_exact [OF this, of 2500 1505] show ?thesis
    by (simp add: track_monotonic_def max_safe_def)
qed

end
