(* ===== verification/OperationEpochs.thy ===== *)
theory OperationEpochs
  imports ProfileDefaults
begin

text \<open>
  Operation leases and epochs, \<^verbatim>\<open>operation-epochs.ts\<close>. A lease handle is an object whose identity
  is the key of a \<open>WeakMap\<close>; here it is the position at which its entry was added. A handle of
  another context, or a value that is no handle, is a position the list does not have.
\<close>

section \<open>State and operations\<close>

record lease =
  owned_epoch :: nat
  finished :: bool

record operation_epochs =
  lastEpoch :: nat
  activeEpoch :: "nat option"
  inFlight :: nat
  leases :: "lease list"

definition createOperationEpochs :: operation_epochs where
  "createOperationEpochs = \<lparr>lastEpoch = 1, activeEpoch = Some 1, inFlight = 0, leases = []\<rparr>"

definition clock_unavailable :: profile_rejection where
  "clock_unavailable = Unverified ClockUnavailable"

definition canActivateNext :: "operation_epochs \<Rightarrow> bool" where
  "canActivateNext s \<longleftrightarrow> lastEpoch s < max_safe"

definition lease_state :: "operation_epochs \<Rightarrow> nat \<Rightarrow> lease option" where
  "lease_state s h = (if h < length (leases s) then Some (leases s ! h) else None)"

definition begin_lease :: "operation_epochs \<Rightarrow> (profile_rejection + nat) \<times> operation_epochs" where
  "begin_lease s =
     (case activeEpoch s of
        None \<Rightarrow> (Inl clock_unavailable, s)
      | Some e \<Rightarrow>
          if max_safe \<le> inFlight s then (Inl clock_unavailable, s)
          else (Inr (length (leases s)),
                s\<lparr>leases := leases s @ [\<lparr>owned_epoch = e, finished = False\<rparr>], inFlight := inFlight s + 1\<rparr>))"

definition is_current :: "operation_epochs \<Rightarrow> nat \<Rightarrow> bool" where
  "is_current s h = (case lease_state s h of
     None \<Rightarrow> False
   | Some l \<Rightarrow> \<not> finished l \<and> activeEpoch s = Some (owned_epoch l))"

definition assertCurrent :: "operation_epochs \<Rightarrow> nat \<Rightarrow> profile_rejection + unit" where
  "assertCurrent s h = (if is_current s h then Inr () else Inl clock_unavailable)"

definition finish_lease :: "nat \<Rightarrow> operation_epochs \<Rightarrow> operation_epochs" where
  "finish_lease h s =
     (case lease_state s h of
        None \<Rightarrow> s
      | Some l \<Rightarrow>
          if finished l then s
          else s\<lparr>leases := (leases s)[h := l\<lparr>finished := True\<rparr>],
                 inFlight := (if activeEpoch s = Some (owned_epoch l) then inFlight s - 1 else inFlight s)\<rparr>)"

definition invalidate :: "operation_epochs \<Rightarrow> nat \<times> operation_epochs" where
  "invalidate s = (inFlight s, s\<lparr>activeEpoch := None, inFlight := 0\<rparr>)"

datatype activation_error = EpochOpen | EpochExhausted

definition activateNext :: "operation_epochs \<Rightarrow> activation_error + operation_epochs" where
  "activateNext s =
     (if activeEpoch s \<noteq> None then Inl EpochOpen
      else if max_safe \<le> lastEpoch s then Inl EpochExhausted
      else Inr (s\<lparr>lastEpoch := lastEpoch s + 1, activeEpoch := Some (lastEpoch s + 1)\<rparr>))"

section \<open>Invariant\<close>

definition open_leases :: "operation_epochs \<Rightarrow> nat \<Rightarrow> nat" where
  "open_leases s e = length (filter (\<lambda>l. owned_epoch l = e \<and> \<not> finished l) (leases s))"

text \<open>The count is exact in the active epoch, and no lease belongs to an epoch of the future.\<close>

definition epochs_inv :: "operation_epochs \<Rightarrow> bool" where
  "epochs_inv s \<longleftrightarrow>
     (case activeEpoch s of None \<Rightarrow> inFlight s = 0 | Some e \<Rightarrow> e = lastEpoch s \<and> inFlight s = open_leases s e) \<and>
     list_all (\<lambda>l. owned_epoch l \<le> lastEpoch s) (leases s) \<and> 1 \<le> lastEpoch s \<and> lastEpoch s \<le> max_safe"

text \<open>What a later state keeps of an earlier one: leases keep their epoch and stay finished, and an
  epoch is never activated again.\<close>

definition later_epochs :: "operation_epochs \<Rightarrow> operation_epochs \<Rightarrow> bool" where
  "later_epochs s s' \<longleftrightarrow>
     length (leases s) \<le> length (leases s') \<and>
     (\<forall>h < length (leases s). owned_epoch (leases s' ! h) = owned_epoch (leases s ! h) \<and>
        (finished (leases s ! h) \<longrightarrow> finished (leases s' ! h))) \<and>
     lastEpoch s \<le> lastEpoch s' \<and>
     (activeEpoch s = None \<longrightarrow> lastEpoch s' = lastEpoch s \<longrightarrow> activeEpoch s' = None)"

lemma createOperationEpochs_inv: "epochs_inv createOperationEpochs"
  by (simp add: epochs_inv_def createOperationEpochs_def open_leases_def max_safe_def)

lemma later_epochs_refl [simp, intro]: "later_epochs s s"
  by (simp add: later_epochs_def)

lemma later_epochs_trans: "later_epochs s t \<Longrightarrow> later_epochs t u \<Longrightarrow> later_epochs s u"
  by (auto simp: later_epochs_def)

lemma begin_lease_ok:
  assumes "begin_lease s = (r, s')" "epochs_inv s"
  shows "epochs_inv s' \<and> later_epochs s s'"
  using assms
  by (auto simp: begin_lease_def epochs_inv_def later_epochs_def open_leases_def nth_append
      split: option.splits if_splits)

lemma begin_lease_current:
  "begin_lease s = (Inr h, s') \<Longrightarrow> is_current s' h \<and> \<not> is_current s h"
  by (auto simp: begin_lease_def is_current_def lease_state_def split: option.splits if_splits)

lemma filter_update:
  "h < length xs \<Longrightarrow> P (xs ! h) \<Longrightarrow> \<not> P x \<Longrightarrow>
   length (filter P (xs[h := x])) = length (filter P xs) - 1"
proof (induction xs arbitrary: h)
  case (Cons y ys)
  show ?case
  proof (cases h)
    case (Suc k)
    have "0 < length (filter P ys)"
      using Cons.prems Suc by (auto simp: filter_empty_conv intro!: bexI [of _ "ys ! k"])
    with Cons Suc show ?thesis by auto
  qed (use Cons.prems in simp)
qed simp

lemma filter_update_other:
  "h < length xs \<Longrightarrow> \<not> P (xs ! h) \<Longrightarrow> \<not> P x \<Longrightarrow> filter P (xs[h := x]) = filter P xs"
proof (induction xs arbitrary: h)
  case (Cons y ys)
  then show ?case by (cases h) auto
qed simp

lemma finish_lease_open:
  assumes "h < length (leases s)" "\<not> finished (leases s ! h)"
  shows "open_leases (finish_lease h s) e =
    (if owned_epoch (leases s ! h) = e then open_leases s e - 1 else open_leases s e)"
  using assms
  by (simp add: finish_lease_def lease_state_def open_leases_def filter_update filter_update_other)

lemma finish_lease_ok:
  assumes "epochs_inv s"
  shows "epochs_inv (finish_lease h s) \<and> later_epochs s (finish_lease h s)"
proof (cases "h < length (leases s) \<and> \<not> finished (leases s ! h)")
  case True
  have "list_all (\<lambda>l. owned_epoch l \<le> lastEpoch s) (leases (finish_lease h s))"
    using assms True
    by (simp add: epochs_inv_def finish_lease_def lease_state_def list_all_length nth_list_update)
  moreover have "later_epochs s (finish_lease h s)"
    using True by (auto simp: later_epochs_def finish_lease_def lease_state_def nth_list_update)
  moreover have "activeEpoch (finish_lease h s) = activeEpoch s" "lastEpoch (finish_lease h s) = lastEpoch s"
      "inFlight (finish_lease h s) = (if activeEpoch s = Some (owned_epoch (leases s ! h)) then inFlight s - 1 else inFlight s)"
    using True by (simp_all add: finish_lease_def lease_state_def)
  ultimately show ?thesis
    using assms True finish_lease_open [of h s] by (auto simp: epochs_inv_def split: option.splits)
next
  case False
  then have "finish_lease h s = s" by (auto simp: finish_lease_def lease_state_def)
  with assms show ?thesis by simp
qed

lemma finish_lease_not_current: "\<not> is_current (finish_lease h s) h"
  by (auto simp: is_current_def finish_lease_def lease_state_def split: option.splits)

lemma invalidate_ok:
  "epochs_inv s \<Longrightarrow> epochs_inv (snd (invalidate s)) \<and> later_epochs s (snd (invalidate s))"
  by (simp add: invalidate_def epochs_inv_def later_epochs_def)

lemma activateNext_ok:
  assumes "activateNext s = Inr s'" "epochs_inv s"
  shows "epochs_inv s' \<and> later_epochs s s' \<and> lastEpoch s' = lastEpoch s + 1 \<and> activeEpoch s' = Some (lastEpoch s')"
proof -
  have "\<forall>l \<in> set (leases s). owned_epoch l \<noteq> lastEpoch s + 1"
    using assms(2) by (auto simp: epochs_inv_def list_all_iff)
  have "\<forall>l \<in> set (leases s). owned_epoch l \<le> Suc (lastEpoch s)"
    using assms(2) by (auto simp: epochs_inv_def list_all_iff)
  moreover have "filter (\<lambda>l. owned_epoch l = lastEpoch s + 1 \<and> \<not> finished l) (leases s) = []"
    using \<open>\<forall>l \<in> set (leases s). owned_epoch l \<noteq> lastEpoch s + 1\<close> by (auto simp: filter_empty_conv)
  ultimately show ?thesis using assms
    by (auto simp: activateNext_def epochs_inv_def later_epochs_def open_leases_def list_all_iff
        split: if_splits option.splits)
qed

text \<open>A lease current now and current later was current in the same epoch.\<close>

lemma current_same_epoch:
  assumes "is_current s h" "later_epochs s s'" "is_current s' h" "epochs_inv s" "epochs_inv s'"
  shows "activeEpoch s' = activeEpoch s \<and> lastEpoch s' = lastEpoch s"
  using assms
  by (auto simp: is_current_def lease_state_def later_epochs_def epochs_inv_def
      split: option.splits if_splits)

lemma stale_forever:
  assumes "\<not> is_current s h" "h < length (leases s)" "later_epochs s s'" "epochs_inv s" "epochs_inv s'"
  shows "\<not> is_current s' h"
proof
  assume c: "is_current s' h"
  let ?l = "leases s ! h"
  have l: "owned_epoch (leases s' ! h) = owned_epoch ?l" "\<not> finished ?l" "h < length (leases s')"
      "activeEpoch s' = Some (owned_epoch ?l)"
    using c assms(2,3) by (auto simp: is_current_def lease_state_def later_epochs_def split: option.splits if_splits)
  have "owned_epoch ?l \<le> lastEpoch s" using assms(2,4) by (simp add: epochs_inv_def list_all_length)
  moreover have "owned_epoch ?l = lastEpoch s'" using l(4) assms(5) by (simp add: epochs_inv_def)
  ultimately have eq: "owned_epoch ?l = lastEpoch s" "lastEpoch s' = lastEpoch s"
    using assms(3) by (auto simp: later_epochs_def)
  have "activeEpoch s \<noteq> None" using assms(3) eq(2) l(4) by (auto simp: later_epochs_def)
  then have "activeEpoch s = Some (owned_epoch ?l)" using assms(4) eq(1) by (auto simp: epochs_inv_def)
  with assms(1,2) l(2) show False by (simp add: is_current_def lease_state_def)
qed

end
