(* ===== verification/SecurityContext.thy ===== *)
theory SecurityContext
  imports ClockTracker OperationEpochs MemoryReplay
begin

text \<open>
  The security context: \<^verbatim>\<open>context-observer.ts\<close>, \<^verbatim>\<open>context-events.ts\<close>, \<^verbatim>\<open>operator-errors.ts\<close> and
  \<^verbatim>\<open>security-context-controller.ts\<close>. The state of the controller's closure is a record. An
  asynchronous method is one operation per synchronous stretch: \<open>consume\<close> is split at its
  \<open>await\<close> into \<open>dispatch\<close> and \<open>settle\<close>, \<open>resetClockReference\<close> at its two into \<open>reset_start\<close>,
  \<open>reset_prepare\<close> and \<open>reset_finish\<close>, so that any other operations can come between. What the clock providers, the
  observer and the store do is an argument; \<open>reentry_rejected\<close> shows that what they call back
  changes nothing.
\<close>

section \<open>Events and errors\<close>

datatype retention_clock = ProcessClock | Independent

datatype reset_reason = Operator | Health

datatype operator_error = ResetUnsupportedStore | ResetInProgress | ResetClockUnavailable | ResetFailed

datatype health_reason = ClockReason clock_health_reason | ResetFailure

text \<open>A count of the report of a cleanup; \<open>None\<close> is \<open>null\<close>, progress unknown.\<close>

record reset_event =
  event_reason :: reset_reason
  oldEpoch :: nat
  newEpoch :: "nat option"
  event_records :: "nat option"
  event_counters :: "nat option"
  invalidatedOperations :: nat
  storeDeclaration :: "retention_clock option"
  event_outcome :: "operator_error option"

datatype context_event =
    ResetEvent reset_event
  | HealthyEvent "nat option"
  | UnhealthyEvent "nat option" health_reason

section \<open>State\<close>

text \<open>The parts fixed at creation. The observer says of each event whether it throws.\<close>

record context_config =
  store_declaration :: "retention_clock option"
  memory_reset :: bool
  context_policy :: clock_policy
  context_observer :: "(context_event \<Rightarrow> bool) option"

text \<open>The local variables of a reset waiting at one of its two \<open>await\<close>s.\<close>

datatype reset_progress =
    NoReset
  | Started reset_reason nat
  | Clearing reset_reason nat clock_tracker nat

record context_state =
  tracker :: clock_tracker
  epochs :: operation_epochs
  busy :: bool
  providerDepth :: nat
  delivering :: bool
  observerErrorCount :: nat
  healthy :: bool
  progress :: reset_progress
  delivered :: "context_event list"

text \<open>\<open>valid_context\<close> is the configuration check of the factory: the reset port comes only with a
  process-clock store.\<close>

definition valid_context :: "context_config \<Rightarrow> bool" where
  "valid_context cfg \<longleftrightarrow> (memory_reset cfg \<longrightarrow> store_declaration cfg = Some ProcessClock)"

definition createSecurityContextController ::
    "context_config \<Rightarrow> sample \<Rightarrow> sample \<Rightarrow> configuration_code + context_state" where
  "createSecurityContextController cfg wall monotonic =
     (if \<not> valid_context cfg then Inl InvalidReplayPolicy
      else bindE (createClockTracker wall monotonic (context_policy cfg)) (\<lambda>t.
        Inr \<lparr>tracker = t, epochs = createOperationEpochs, busy = False, providerDepth = 0, delivering = False,
             observerErrorCount = 0, healthy = True, progress = NoReset, delivered = []\<rparr>))"

section \<open>Delivery to the observer\<close>

definition emit :: "context_config \<Rightarrow> context_event \<Rightarrow> context_state \<Rightarrow> context_state" where
  "emit cfg event s =
     (case context_observer cfg of
        None \<Rightarrow> s
      | Some throws \<Rightarrow>
          if delivering s then s
          else s\<lparr>delivered := delivered s @ [event],
                 observerErrorCount := (if throws event \<and> observerErrorCount s < max_safe
                   then observerErrorCount s + 1 else observerErrorCount s)\<rparr>)"

definition emit_all :: "context_config \<Rightarrow> context_event list \<Rightarrow> context_state \<Rightarrow> context_state" where
  "emit_all cfg events s = foldl (\<lambda>s e. emit cfg e s) s events"

section \<open>Time\<close>

definition healthChange :: "clock_observation \<Rightarrow> context_state \<Rightarrow> context_event option \<times> context_state" where
  "healthChange r s =
     (if healthy s = is_healthy (health r) then (None, s)
      else (Some (case health r of
                    Healthy _ _ \<Rightarrow> HealthyEvent (activeEpoch (epochs s))
                  | Unhealthy reason \<Rightarrow> UnhealthyEvent (activeEpoch (epochs s)) (ClockReason reason)),
            s\<lparr>healthy := is_healthy (health r)\<rparr>))"

definition is_open :: "context_state \<Rightarrow> bool" where
  "is_open s \<longleftrightarrow> \<not> busy s \<and> \<not> delivering s \<and> providerDepth s = 0 \<and> activeEpoch (epochs s) \<noteq> None"

definition may_use :: "nat option \<Rightarrow> context_state \<Rightarrow> bool" where
  "may_use h s \<longleftrightarrow> is_open s \<and> (case h of None \<Rightarrow> True | Some h \<Rightarrow> is_current (epochs s) h)"

definition emit_change :: "context_config \<Rightarrow> context_event option \<Rightarrow> context_state \<Rightarrow> context_state" where
  "emit_change cfg e s = (case e of None \<Rightarrow> s | Some e \<Rightarrow> emit cfg e s)"

definition currentTime :: "context_config \<Rightarrow> nat option \<Rightarrow> sample \<times> sample \<Rightarrow> context_state
    \<Rightarrow> (profile_rejection + int) \<times> context_state" where
  "currentTime cfg h clocks s =
     (if \<not> may_use h s then (Inl clock_unavailable, s)
      else let (r, t) = observe (fst clocks) (snd clocks) (tracker s);
               (event, s1) = healthChange r (s\<lparr>tracker := t\<rparr>);
               s2 = emit_change cfg event s1 in
        if \<not> may_use h s2 then (Inl clock_unavailable, s2)
        else case health r of
          Unhealthy _ \<Rightarrow> (Inl clock_unavailable, s2)
        | Healthy _ seconds \<Rightarrow> (Inr seconds, s2))"

section \<open>Operations\<close>

definition beginOperation :: "context_config \<Rightarrow> sample \<times> sample \<Rightarrow> context_state
    \<Rightarrow> (profile_rejection + nat) \<times> context_state" where
  "beginOperation cfg clocks s =
     (case currentTime cfg None clocks s of
        (Inl e, s1) \<Rightarrow> (Inl e, s1)
      | (Inr _, s1) \<Rightarrow> let (r, es) = begin_lease (epochs s1) in (r, s1\<lparr>epochs := es\<rparr>))"

definition now_of :: "context_config \<Rightarrow> nat \<Rightarrow> sample \<times> sample \<Rightarrow> context_state
    \<Rightarrow> (profile_rejection + int) \<times> context_state" where
  "now_of cfg h clocks s = currentTime cfg (Some h) clocks s"

definition finishOperation :: "nat \<Rightarrow> context_state \<Rightarrow> (profile_rejection + unit) \<times> context_state" where
  "finishOperation h s =
     (if delivering s \<or> 0 < providerDepth s then (Inl clock_unavailable, s)
      else (Inr (), s\<lparr>epochs := finish_lease h (epochs s)\<rparr>))"

definition completeOperation :: "context_config \<Rightarrow> nat \<Rightarrow> sample \<times> sample \<Rightarrow> context_state
    \<Rightarrow> (profile_rejection + int) \<times> context_state" where
  "completeOperation cfg h clocks s =
     (case currentTime cfg (Some h) clocks s of
        (Inl e, s1) \<Rightarrow> (Inl e, s1)
      | (Inr now, s1) \<Rightarrow> (Inr now, s1\<lparr>epochs := finish_lease h (epochs s1)\<rparr>))"

text \<open>What a replay store is given: a request with the second of its dispatch.\<close>

record replay_request =
  rq_scope :: jsstring
  rq_thumbprint :: jsstring
  rq_nonce :: jsstring
  rq_until :: int

datatype consume_preparation = Request replay_request | Prepare "int \<Rightarrow> profile_rejection + replay_request"

text \<open>The part of \<open>consume\<close> up to the store call, with the payload it is called with.\<close>

definition dispatch :: "context_config \<Rightarrow> nat \<Rightarrow> consume_preparation \<Rightarrow> sample \<times> sample \<Rightarrow> context_state
    \<Rightarrow> (profile_rejection + (replay_request \<times> int)) \<times> context_state" where
  "dispatch cfg h input clocks s =
     (case currentTime cfg (Some h) clocks s of
        (Inl e, s1) \<Rightarrow> (Inl e, s1)
      | (Inr now, s1) \<Rightarrow>
          (case input of
             Request r \<Rightarrow> (Inr (r, now), s1)
           | Prepare f \<Rightarrow>
               (case f now of
                  Inl e \<Rightarrow> (Inl e, s1)
                | Inr r \<Rightarrow> if \<not> may_use (Some h) s1 then (Inl clock_unavailable, s1) else (Inr (r, now), s1))))"

text \<open>The part after it: \<open>None\<close> stands for a thrown or rejected store call, or a value that is
  not an outcome.\<close>

definition settle :: "context_config \<Rightarrow> nat \<Rightarrow> store_outcome option \<Rightarrow> sample \<times> sample \<Rightarrow> context_state
    \<Rightarrow> (profile_rejection + store_outcome) \<times> context_state" where
  "settle cfg h result clocks s =
     (case currentTime cfg (Some h) clocks s of
        (Inl e, s1) \<Rightarrow> (Inl e, s1)
      | (Inr _, s1) \<Rightarrow> (Inr (case result of None \<Rightarrow> Unavailable | Some r \<Rightarrow> r), s1))"

section \<open>Reset\<close>

definition resetEvent :: "context_config \<Rightarrow> reset_reason \<Rightarrow> nat \<Rightarrow> operator_error option \<Rightarrow> nat option \<times> nat option
    \<Rightarrow> nat \<Rightarrow> context_state \<Rightarrow> context_event" where
  "resetEvent cfg reason old outcome counts invalidated s =
     ResetEvent \<lparr>event_reason = reason, oldEpoch = old,
       newEpoch = (if outcome = None then activeEpoch (epochs s) else None),
       event_records = fst counts, event_counters = snd counts, invalidatedOperations = invalidated,
       storeDeclaration = store_declaration cfg, event_outcome = outcome\<rparr>"

definition no_counts :: "nat option \<times> nat option" where
  "no_counts = (Some 0, Some 0)"

definition rejectReset :: "context_config \<Rightarrow> reset_reason \<Rightarrow> operator_error \<Rightarrow> context_state
    \<Rightarrow> (operator_error + unit) \<times> context_state" where
  "rejectReset cfg reason code s =
     (Inl code, emit cfg (resetEvent cfg reason (lastEpoch (epochs s)) (Some code) no_counts 0 s) s)"

definition reset_start :: "context_config \<Rightarrow> reset_reason \<Rightarrow> context_state \<Rightarrow> (operator_error + unit) \<times> context_state" where
  "reset_start cfg reason s =
     (if delivering s \<or> 0 < providerDepth s then (Inl ResetInProgress, s)
      else if busy s then rejectReset cfg reason ResetInProgress s
      else if store_declaration cfg = None \<or> (store_declaration cfg = Some ProcessClock \<and> \<not> memory_reset cfg)
      then rejectReset cfg reason ResetUnsupportedStore s
      else (Inr (), s\<lparr>busy := True, progress := Started reason (lastEpoch (epochs s))\<rparr>))"

text \<open>The end of a reset: not busy any more, then the events in order.\<close>

definition reset_end :: "context_config \<Rightarrow> reset_reason \<Rightarrow> nat \<Rightarrow> operator_error option \<Rightarrow> nat option \<times> nat option
    \<Rightarrow> nat \<Rightarrow> context_event list \<Rightarrow> context_state \<Rightarrow> (operator_error + unit) \<times> context_state" where
  "reset_end cfg reason old outcome counts invalidated healthEvents s =
     (let s1 = s\<lparr>busy := False, progress := NoReset\<rparr>;
          event = resetEvent cfg reason old outcome counts invalidated s1 in
      (case outcome of None \<Rightarrow> Inr () | Some e \<Rightarrow> Inl e, emit_all cfg (healthEvents @ [event]) s1))"

definition reset_fail :: "context_config \<Rightarrow> reset_reason \<Rightarrow> nat \<Rightarrow> nat option \<times> nat option \<Rightarrow> nat \<Rightarrow> context_state
    \<Rightarrow> (operator_error + unit) \<times> context_state" where
  "reset_fail cfg reason old counts invalidated s =
     (let (n, es) = invalidate (epochs s) in
      reset_end cfg reason old (Some ResetFailed) counts (invalidated + n)
        (if healthy s then [UnhealthyEvent None ResetFailure] else [])
        (s\<lparr>epochs := es, healthy := False\<rparr>))"

definition reset_commit :: "context_config \<Rightarrow> reset_reason \<Rightarrow> nat \<Rightarrow> clock_tracker \<Rightarrow> nat option \<times> nat option \<Rightarrow> nat
    \<Rightarrow> sample \<times> sample \<Rightarrow> context_state \<Rightarrow> (operator_error + unit) \<times> context_state" where
  "reset_commit cfg reason old replacement counts invalidated clocks s =
     (let (r, t) = observe (fst clocks) (snd clocks) replacement in
      if \<not> is_healthy (health r) then reset_fail cfg reason old counts invalidated s
      else case activateNext (epochs s) of
        Inl _ \<Rightarrow> reset_fail cfg reason old counts invalidated s
      | Inr es \<Rightarrow>
          reset_end cfg reason old None counts invalidated
            (if healthy s then [] else [HealthyEvent (activeEpoch es)])
            (s\<lparr>epochs := es, tracker := t, healthy := True\<rparr>))"

text \<open>Up to the call of the cleanup; with an independent store there is none, and the commit
  follows at once with its own samples. The second result says whether the memory is cleared.\<close>

definition reset_prepare :: "context_config \<Rightarrow> sample \<times> sample \<Rightarrow> sample \<times> sample \<Rightarrow> context_state
    \<Rightarrow> (operator_error + unit) \<times> bool \<times> context_state" where
  "reset_prepare cfg clocks final s =
     (case progress s of
        Started reason old \<Rightarrow>
          (case createClockTracker (fst clocks) (snd clocks) (context_policy cfg) of
             Inl _ \<Rightarrow>
               let (r, t) = observe (fst clocks) (snd clocks) (tracker s);
                   (event, s1) = healthChange r (s\<lparr>tracker := t\<rparr>);
                   (res, s2) = reset_end cfg reason old (Some ResetClockUnavailable) no_counts 0
                     (case event of None \<Rightarrow> [] | Some e \<Rightarrow> [e]) s1 in
               (res, False, s2)
           | Inr replacement \<Rightarrow>
               let (n, es) = invalidate (epochs s); s1 = s\<lparr>epochs := es\<rparr> in
               if \<not> canActivateNext es then
                 let (res, s2) = reset_fail cfg reason old no_counts n s1 in (res, False, s2)
               else if store_declaration cfg = Some ProcessClock
               then (Inr (), True, s1\<lparr>progress := Clearing reason old replacement n\<rparr>)
               else let (res, s2) = reset_commit cfg reason old replacement no_counts n final s1 in
                 (res, False, s2))
      | _ \<Rightarrow> (Inr (), False, s))"

text \<open>What the cleanup came to: a report whose counts are \<open>null\<close>, numbers or anything else, no
  report, or a failure, which only the branded error gives counts.\<close>

datatype js_count = NullCount | NumberCount js_number | BadCount

datatype clear_result = Reported js_count js_count | NoReport | ClearFailed "(js_count \<times> js_count) option"

fun validCount :: "js_count \<Rightarrow> bool" where
  "validCount NullCount = True"
| "validCount (NumberCount (JsInt n)) = (is_safe_integer n \<and> 0 \<le> n)"
| "validCount _ = False"

fun count_of :: "js_count \<Rightarrow> nat option" where
  "count_of (NumberCount (JsInt n)) = Some (nat n)"
| "count_of _ = None"

text \<open>The branded error of \<^verbatim>\<open>memory-cleanup-failure.ts\<close> keeps only counts that are valid.\<close>

definition cleanup_failure :: "js_count \<times> js_count \<Rightarrow> nat option \<times> nat option" where
  "cleanup_failure report = (let count = (\<lambda>c. if validCount c then count_of c else None) in
     (count (fst report), count (snd report)))"

definition reset_finish :: "context_config \<Rightarrow> clear_result \<Rightarrow> sample \<times> sample \<Rightarrow> context_state
    \<Rightarrow> (operator_error + unit) \<times> context_state" where
  "reset_finish cfg report clocks s =
     (case progress s of
        Clearing reason old replacement n \<Rightarrow>
          (case report of
             ClearFailed None \<Rightarrow> reset_fail cfg reason old (None, None) n s
           | ClearFailed (Some report) \<Rightarrow> reset_fail cfg reason old (cleanup_failure report) n s
           | NoReport \<Rightarrow> reset_fail cfg reason old (None, None) n s
           | Reported records counters \<Rightarrow>
               if \<not> validCount records \<or> \<not> validCount counters
               then reset_fail cfg reason old (None, None) n s
               else reset_commit cfg reason old replacement (count_of records, count_of counters) n clocks s)
      | _ \<Rightarrow> (Inr (), s))"

section \<open>Steps\<close>

text \<open>One operation of the context by any of its clients, or the continuation of a reset, with
  the samples the clocks give.\<close>

datatype context_call =
    Begin "sample \<times> sample"
  | Now nat "sample \<times> sample"
  | Finish nat
  | Complete nat "sample \<times> sample"
  | Dispatch nat consume_preparation "sample \<times> sample"
  | Settle nat "store_outcome option" "sample \<times> sample"
  | ResetStart reset_reason
  | ResetPrepare "sample \<times> sample" "sample \<times> sample"
  | ResetFinish clear_result "sample \<times> sample"

fun context_step :: "context_config \<Rightarrow> context_call \<Rightarrow> context_state \<Rightarrow> context_state" where
  "context_step cfg (Begin clocks) s = snd (beginOperation cfg clocks s)"
| "context_step cfg (Now h clocks) s = snd (now_of cfg h clocks s)"
| "context_step cfg (Finish h) s = snd (finishOperation h s)"
| "context_step cfg (Complete h clocks) s = snd (completeOperation cfg h clocks s)"
| "context_step cfg (Dispatch h input clocks) s = snd (dispatch cfg h input clocks s)"
| "context_step cfg (Settle h result clocks) s = snd (settle cfg h result clocks s)"
| "context_step cfg (ResetStart reason) s = snd (reset_start cfg reason s)"
| "context_step cfg (ResetPrepare clocks final) s = snd (snd (reset_prepare cfg clocks final s))"
| "context_step cfg (ResetFinish report clocks) s = snd (reset_finish cfg report clocks s)"

definition context_run :: "context_config \<Rightarrow> context_call list \<Rightarrow> context_state \<Rightarrow> context_state" where
  "context_run cfg calls s = foldl (\<lambda>s c. context_step cfg c s) s calls"

section \<open>Frames\<close>

text \<open>What delivery and clock readings leave alone.\<close>

definition same_frame :: "context_state \<Rightarrow> context_state \<Rightarrow> bool" where
  "same_frame s s' \<longleftrightarrow> epochs s' = epochs s \<and> busy s' = busy s \<and> providerDepth s' = providerDepth s \<and>
     delivering s' = delivering s \<and> progress s' = progress s"

lemma same_frame_refl [simp, intro]: "same_frame s s"
  by (simp add: same_frame_def)

lemma same_frame_trans: "same_frame s t \<Longrightarrow> same_frame t u \<Longrightarrow> same_frame s u"
  by (simp add: same_frame_def)

lemma emit_frame [simp]:
  "same_frame s (emit cfg e s)" "healthy (emit cfg e s) = healthy s" "tracker (emit cfg e s) = tracker s"
  by (simp_all add: emit_def same_frame_def split: option.split)

lemma emit_all_frame [simp]:
  "same_frame s (emit_all cfg es s)" "healthy (emit_all cfg es s) = healthy s" "tracker (emit_all cfg es s) = tracker s"
proof -
  have "same_frame s (emit_all cfg es s) \<and> healthy (emit_all cfg es s) = healthy s \<and> tracker (emit_all cfg es s) = tracker s"
  proof (induction es arbitrary: s)
    case (Cons e es)
    from Cons.IH [of "emit cfg e s"] show ?case
      by (auto simp: emit_all_def intro: same_frame_trans emit_frame)
  qed (simp add: emit_all_def)
  then show "same_frame s (emit_all cfg es s)" "healthy (emit_all cfg es s) = healthy s"
    "tracker (emit_all cfg es s) = tracker s" by simp_all
qed

lemmas frame_simps = emit_all_frame(1) [unfolded same_frame_def, THEN conjunct1]
  emit_all_frame(1) [unfolded same_frame_def, THEN conjunct2, THEN conjunct1]
  emit_all_frame(1) [unfolded same_frame_def, THEN conjunct2, THEN conjunct2, THEN conjunct1]
  emit_all_frame(1) [unfolded same_frame_def, THEN conjunct2, THEN conjunct2, THEN conjunct2, THEN conjunct1]
  emit_all_frame(1) [unfolded same_frame_def, THEN conjunct2, THEN conjunct2, THEN conjunct2, THEN conjunct2]

lemma emit_change_frame [simp]:
  "same_frame s (emit_change cfg e s)" "healthy (emit_change cfg e s) = healthy s"
  "tracker (emit_change cfg e s) = tracker s"
  by (simp_all add: emit_change_def split: option.split)

lemma healthChange_frame:
  "healthChange r s = (e, s') \<Longrightarrow> same_frame s s' \<and> healthy s' = is_healthy (health r) \<and> tracker s' = tracker s"
  by (auto simp: healthChange_def same_frame_def split: if_splits)

lemma may_use_frame: "same_frame s s' \<Longrightarrow> may_use h s' = may_use h s"
  by (cases h) (simp_all add: may_use_def is_open_def same_frame_def)

text \<open>A reading either finds the context closed and changes nothing, or is one observation of the
  tracker.\<close>

lemma currentTime_cases:
  assumes "currentTime cfg h clocks s = (q, s')"
  shows "(\<not> may_use h s \<and> q = Inl clock_unavailable \<and> s' = s) \<or>
    (\<exists>r. may_use h s \<and> observe (fst clocks) (snd clocks) (tracker s) = (r, tracker s') \<and> same_frame s s' \<and>
      healthy s' = is_healthy (health r) \<and>
      q = (case health r of Unhealthy _ \<Rightarrow> Inl clock_unavailable | Healthy _ n \<Rightarrow> Inr n))"
proof (cases "may_use h s")
  case True
  obtain r t where o: "observe (fst clocks) (snd clocks) (tracker s) = (r, t)" by fastforce
  obtain e s1 where h: "healthChange r (s\<lparr>tracker := t\<rparr>) = (e, s1)" by fastforce
  let ?s2 = "emit_change cfg e s1"
  note f = healthChange_frame [OF h]
  have "same_frame s (s\<lparr>tracker := t\<rparr>)" by (simp add: same_frame_def)
  with f have fr: "same_frame s ?s2"
    by (meson emit_change_frame(1) same_frame_trans)
  then have "may_use h ?s2" using True by (simp add: may_use_frame)
  then have "q = (case health r of Unhealthy _ \<Rightarrow> Inl clock_unavailable | Healthy _ n \<Rightarrow> Inr n) \<and> s' = ?s2"
    using assms True o h by (auto simp: currentTime_def split: clock_health.splits)
  with True o f fr show ?thesis by simp
qed (use assms in \<open>simp add: currentTime_def\<close>)

lemma currentTime_frame: "currentTime cfg h clocks s = (q, s') \<Longrightarrow> same_frame s s'"
  using currentTime_cases by blast

lemma currentTime_closed: "\<not> may_use h s \<Longrightarrow> currentTime cfg h clocks s = (Inl clock_unavailable, s)"
  by (simp add: currentTime_def)

text \<open>A successful reading is the second of one healthy observation of the tracker.\<close>

lemma currentTime_Inr:
  assumes "currentTime cfg h clocks s = (Inr n, s')"
  shows "may_use h s \<and> healthy s' \<and>
    (\<exists>r. observe (fst clocks) (snd clocks) (tracker s) = (r, tracker s') \<and> epoch_second r = Some n)"
proof -
  obtain r where r: "may_use h s" "observe (fst clocks) (snd clocks) (tracker s) = (r, tracker s')"
      "healthy s' = is_healthy (health r)"
      "Inr n = (case health r of Unhealthy _ \<Rightarrow> Inl clock_unavailable | Healthy _ n \<Rightarrow> Inr n)"
    using currentTime_cases [OF assms] by auto
  then show ?thesis by (cases "health r") (auto simp: epoch_second_def)
qed

section \<open>Invariant\<close>

definition context_inv :: "context_state \<Rightarrow> bool" where
  "context_inv s \<longleftrightarrow> epochs_inv (epochs s) \<and> \<not> delivering s \<and> providerDepth s = 0 \<and>
     (busy s \<longleftrightarrow> progress s \<noteq> NoReset) \<and>
     (case progress s of
        NoReset \<Rightarrow> activeEpoch (epochs s) = None \<longrightarrow> \<not> healthy s
      | Started reason old \<Rightarrow> old = lastEpoch (epochs s) \<and> (activeEpoch (epochs s) = None \<longrightarrow> \<not> healthy s)
      | Clearing reason old replacement n \<Rightarrow> old = lastEpoch (epochs s) \<and> activeEpoch (epochs s) = None \<and>
          lastEpoch (epochs s) < max_safe)"

text \<open>What a client may rely on over time: the invariant, and that epochs only go forward.\<close>

definition context_ok :: "context_state \<Rightarrow> context_state \<Rightarrow> bool" where
  "context_ok s s' \<longleftrightarrow> context_inv s' \<and> later_epochs (epochs s) (epochs s')"

lemma currentTime_inv:
  assumes "context_inv s" "currentTime cfg h clocks s = (r, s')"
  shows "context_ok s s'"
proof (cases "may_use h s")
  case True
  then have "activeEpoch (epochs s) \<noteq> None" by (simp add: may_use_def is_open_def)
  with assms currentTime_frame [OF assms(2)] True show ?thesis
    by (auto simp: context_ok_def context_inv_def same_frame_def may_use_def is_open_def split: reset_progress.splits)
next
  case False
  with assms show ?thesis by (simp add: currentTime_closed context_ok_def)
qed

lemma epochs_update_inv:
  assumes "context_inv s" "epochs_inv es" "later_epochs (epochs s) es"
    and "activeEpoch es = activeEpoch (epochs s)" "lastEpoch es = lastEpoch (epochs s)"
  shows "context_ok s (s\<lparr>epochs := es\<rparr>)"
  using assms by (auto simp: context_ok_def context_inv_def split: reset_progress.splits)

lemma begin_lease_same: "begin_lease s = (r, s') \<Longrightarrow> activeEpoch s' = activeEpoch s \<and> lastEpoch s' = lastEpoch s"
  by (auto simp: begin_lease_def split: option.splits if_splits)

lemma finish_lease_same [simp]:
  "activeEpoch (finish_lease h s) = activeEpoch s" "lastEpoch (finish_lease h s) = lastEpoch s"
  by (simp_all add: finish_lease_def split: option.split)

lemma context_ok_trans: "context_ok s t \<Longrightarrow> context_ok t u \<Longrightarrow> context_ok s u"
  by (auto simp: context_ok_def intro: later_epochs_trans)

lemma finish_ok: "context_inv s \<Longrightarrow> context_ok s (s\<lparr>epochs := finish_lease h (epochs s)\<rparr>)"
  by (rule epochs_update_inv) (simp_all add: context_inv_def finish_lease_ok)

lemma beginOperation_ok: "context_inv s \<Longrightarrow> context_ok s (snd (beginOperation cfg clocks s))"
proof -
  assume inv: "context_inv s"
  obtain r s1 where ct: "currentTime cfg None clocks s = (r, s1)" by fastforce
  note ok = currentTime_inv [OF inv ct]
  show ?thesis
  proof (cases r)
    case (Inr n)
    obtain q es where b: "begin_lease (epochs s1) = (q, es)" by fastforce
    have "context_ok s1 (s1\<lparr>epochs := es\<rparr>)"
      using ok begin_lease_ok [OF b] begin_lease_same [OF b]
      by (intro epochs_update_inv) (auto simp: context_ok_def context_inv_def)
    with ok ct Inr b show ?thesis by (auto simp: beginOperation_def intro: context_ok_trans)
  qed (use ok ct in \<open>simp add: beginOperation_def\<close>)
qed

lemma completeOperation_ok: "context_inv s \<Longrightarrow> context_ok s (snd (completeOperation cfg h clocks s))"
proof -
  assume inv: "context_inv s"
  obtain r s1 where ct: "currentTime cfg (Some h) clocks s = (r, s1)" by fastforce
  note ok = currentTime_inv [OF inv ct]
  then show ?thesis
    using ct finish_ok [of s1 h] by (cases r) (auto simp: completeOperation_def context_ok_def intro: later_epochs_trans)
qed

lemma dispatch_state: "snd (dispatch cfg h input clocks s) = snd (currentTime cfg (Some h) clocks s)"
  by (simp add: dispatch_def split: prod.split sum.split consume_preparation.split)

lemma settle_state: "snd (settle cfg h result clocks s) = snd (currentTime cfg (Some h) clocks s)"
  by (simp add: settle_def split: prod.split sum.split)

lemma emit_inv: "context_inv s \<Longrightarrow> context_ok s (emit cfg e s)"
  using emit_frame(1) [of s cfg e] emit_frame(2) [of cfg e s]
  by (auto simp: context_ok_def context_inv_def same_frame_def split: reset_progress.splits)

lemma reset_start_ok:
  assumes "context_inv s"
  shows "context_ok s (snd (reset_start cfg reason s))"
proof -
  have "context_ok s (s\<lparr>busy := True, progress := Started reason (lastEpoch (epochs s))\<rparr>)" if "\<not> busy s"
    using assms that by (auto simp: context_ok_def context_inv_def)
  moreover have "context_ok s s" using assms by (simp add: context_ok_def)
  ultimately show ?thesis
    using emit_inv [OF assms] by (simp add: reset_start_def rejectReset_def)
qed

lemma reset_end_ok:
  assumes "epochs_inv (epochs s)" "\<not> delivering s" "providerDepth s = 0"
    and "activeEpoch (epochs s) = None \<Longrightarrow> \<not> healthy s"
  shows "context_inv (snd (reset_end cfg reason old outcome counts n events s))"
    and "epochs (snd (reset_end cfg reason old outcome counts n events s)) = epochs s"
  using assms by (simp_all add: reset_end_def Let_def context_inv_def frame_simps)

lemma reset_fail_ok:
  assumes "epochs_inv (epochs s)" "\<not> delivering s" "providerDepth s = 0"
  shows "context_ok s (snd (reset_fail cfg reason old counts n s))"
proof -
  have "epochs_inv (snd (invalidate (epochs s)))" "later_epochs (epochs s) (snd (invalidate (epochs s)))"
    using invalidate_ok [OF assms(1)] by simp_all
  with assms(2,3) show ?thesis
    by (auto simp: reset_fail_def context_ok_def case_prod_beta Let_def reset_end_ok)
qed

lemma reset_commit_ok:
  assumes "epochs_inv (epochs s)" "\<not> delivering s" "providerDepth s = 0"
  shows "context_ok s (snd (reset_commit cfg reason old replacement counts n clocks s))"
proof (cases "activateNext (epochs s)")
  case (Inl e)
  then show ?thesis
    using reset_fail_ok [OF assms] by (simp add: reset_commit_def case_prod_beta)
next
  case (Inr es)
  note es = activateNext_ok [OF Inr assms(1)]
  have "context_ok s (snd (reset_end cfg reason old None counts n events
      (s\<lparr>epochs := es, tracker := t, healthy := True\<rparr>)))" for events t
    unfolding context_ok_def
    by (intro conjI, rule reset_end_ok(1), use es assms in auto, subst reset_end_ok(2), use es assms in auto)
  with Inr reset_fail_ok [OF assms] show ?thesis by (simp add: reset_commit_def case_prod_beta)
qed

lemma context_ok_epochs:
  "context_ok (s\<lparr>epochs := es\<rparr>) s' \<Longrightarrow> later_epochs (epochs s) es \<Longrightarrow> context_ok s s'"
  by (auto simp: context_ok_def intro: later_epochs_trans)

lemma reset_prepare_ok:
  assumes "context_inv s"
  shows "context_ok s (snd (snd (reset_prepare cfg clocks final s)))"
proof (cases "progress s")
  case NoReset
  with assms show ?thesis by (simp add: reset_prepare_def context_ok_def)
next
  case (Clearing reason old t n)
  with assms show ?thesis by (simp add: reset_prepare_def context_ok_def)
next
  case (Started reason old)
  have e: "epochs_inv (epochs s)" "\<not> delivering s" "providerDepth s = 0" "old = lastEpoch (epochs s)"
    using assms Started by (simp_all add: context_inv_def)
  show ?thesis
  proof (cases "createClockTracker (fst clocks) (snd clocks) (context_policy cfg)")
    case (Inl c)
    obtain r t where o: "observe (fst clocks) (snd clocks) (tracker s) = (r, t)" by fastforce
    obtain ev s1 where h: "healthChange r (s\<lparr>tracker := t\<rparr>) = (ev, s1)" by fastforce
    have "\<not> is_healthy (health r)"
      using Inl o
      by (auto simp: createClockTracker_def observe_def observation_def assess_clock_def Let_def
          split: if_splits)
    then have s1: "epochs s1 = epochs s" "\<not> delivering s1" "providerDepth s1 = 0" "\<not> healthy s1"
      using h e by (auto simp: healthChange_def split: if_splits)
    then show ?thesis
      using Started Inl o h e
      by (simp add: reset_prepare_def case_prod_beta Let_def context_ok_def reset_end_ok)
  next
    case (Inr replacement)
    obtain n es where i: "invalidate (epochs s) = (n, es)" by fastforce
    have es: "epochs_inv es" "later_epochs (epochs s) es" "activeEpoch es = None" "lastEpoch es = lastEpoch (epochs s)"
      using invalidate_ok [OF e(1)] i by (auto simp: invalidate_def)
    have "context_ok (s\<lparr>epochs := es\<rparr>) (snd (reset_fail cfg reason old no_counts n (s\<lparr>epochs := es\<rparr>)))"
      using e es by (intro reset_fail_ok) simp_all
    moreover have "context_ok (s\<lparr>epochs := es\<rparr>) (snd (reset_commit cfg reason old replacement no_counts n final (s\<lparr>epochs := es\<rparr>)))"
      using e es by (intro reset_commit_ok) simp_all
    moreover have "context_ok (s\<lparr>epochs := es\<rparr>) (s\<lparr>epochs := es, progress := Clearing reason old replacement n\<rparr>)"
      if "canActivateNext es"
      using e es that assms Started by (simp add: context_ok_def context_inv_def canActivateNext_def)
    ultimately have "context_ok (s\<lparr>epochs := es\<rparr>) (snd (snd (reset_prepare cfg clocks final s)))"
      using Started Inr i by (auto simp: reset_prepare_def Let_def case_prod_beta)
    then show ?thesis using es(2) by (rule context_ok_epochs)
  qed
qed

lemma reset_finish_ok:
  assumes "context_inv s"
  shows "context_ok s (snd (reset_finish cfg report clocks s))"
proof (cases "progress s")
  case (Clearing reason old t n)
  have e: "epochs_inv (epochs s)" "\<not> delivering s" "providerDepth s = 0"
    using assms by (simp_all add: context_inv_def)
  show ?thesis
    using Clearing reset_fail_ok [OF e] reset_commit_ok [OF e]
    by (simp add: reset_finish_def split: clear_result.split option.split)
qed (use assms in \<open>simp_all add: reset_finish_def context_ok_def\<close>)

text \<open>Every operation keeps the invariant and moves epochs forward.\<close>

lemma context_step_ok: "context_inv s \<Longrightarrow> context_ok s (context_step cfg c s)"
proof (cases c)
  case (Finish h)
  assume "context_inv s"
  then show ?thesis using Finish finish_ok [of s h] by (simp add: finishOperation_def context_inv_def)
next
  case (Now h clocks)
  assume "context_inv s"
  then show ?thesis using Now currentTime_inv [of s cfg "Some h" clocks] by (cases "currentTime cfg (Some h) clocks s") (auto simp: now_of_def)
next
  case (Dispatch h input clocks)
  assume "context_inv s"
  then show ?thesis using Dispatch currentTime_inv [of s cfg "Some h" clocks]
    by (cases "currentTime cfg (Some h) clocks s") (auto simp: dispatch_state)
next
  case (Settle h result clocks)
  assume "context_inv s"
  then show ?thesis using Settle currentTime_inv [of s cfg "Some h" clocks]
    by (cases "currentTime cfg (Some h) clocks s") (auto simp: settle_state)
qed (simp_all add: beginOperation_ok completeOperation_ok reset_start_ok reset_prepare_ok reset_finish_ok)

lemma context_run_ok: "context_inv s \<Longrightarrow> context_ok s (context_run cfg calls s)"
proof (induction calls arbitrary: s)
  case (Cons c calls)
  have step: "context_ok s (context_step cfg c s)" using Cons.prems by (rule context_step_ok)
  then have "context_ok (context_step cfg c s) (context_run cfg calls (context_step cfg c s))"
    by (intro Cons.IH) (simp add: context_ok_def)
  with step show ?case by (auto simp: context_run_def intro: context_ok_trans)
qed (simp add: context_run_def context_ok_def)

lemma create_inv: "createSecurityContextController cfg w m = Inr s \<Longrightarrow> context_inv s"
  by (auto simp: createSecurityContextController_def bindE_eq_Inr context_inv_def createOperationEpochs_inv
      createOperationEpochs_def [THEN arg_cong, of activeEpoch] split: if_splits)

end
