(* ===== verification/ContextSafety.thy ===== *)
theory ContextSafety
  imports SecurityContext
begin

text \<open>
  What the security context guarantees, and the context that owns its replay memory
  (\<^verbatim>\<open>security-context.ts\<close>): the controller of \<open>SecurityContext\<close> and the store of \<open>MemoryReplay\<close>
  as one state, with the store called at each dispatch and cleared by a reset.
\<close>

section \<open>The controller\<close>

text \<open>Reentry is rejected: while a provider or the observer is being called, every operation
  they could call answers with a rejection and changes nothing.\<close>

theorem reentry_rejected:
  assumes "delivering s \<or> 0 < providerDepth s"
  shows "beginOperation cfg clocks s = (Inl clock_unavailable, s) \<and>
    now_of cfg h clocks s = (Inl clock_unavailable, s) \<and>
    finishOperation h s = (Inl clock_unavailable, s) \<and>
    completeOperation cfg h clocks s = (Inl clock_unavailable, s) \<and>
    dispatch cfg h input clocks s = (Inl clock_unavailable, s) \<and>
    settle cfg h result clocks s = (Inl clock_unavailable, s) \<and>
    reset_start cfg reason s = (Inl ResetInProgress, s)"
proof -
  have "\<not> may_use h' s" for h' using assms by (auto simp: may_use_def is_open_def)
  with assms show ?thesis
    by (simp add: beginOperation_def now_of_def finishOperation_def completeOperation_def dispatch_def
        settle_def reset_start_def currentTime_closed)
qed

definition sample_config :: context_config where
  "sample_config = \<lparr>store_declaration = Some ProcessClock, memory_reset = True,
     context_policy = \<lparr>maxClockDriftSeconds = 30\<rparr>, context_observer = Some (\<lambda>_. True)\<rparr>"

definition sample_context :: context_state where
  "sample_context = \<lparr>tracker = \<lparr>referenceWallMs = 1000, referenceMonotonicMs = 5,
       tracker_policy = \<lparr>maxClockDriftSeconds = 30\<rparr>, previousMonotonicMs = 5, regressed = False, wasHealthy = True\<rparr>,
     epochs = createOperationEpochs, busy = False, providerDepth = 0, delivering = False,
     observerErrorCount = 0, healthy = True, progress = NoReset, delivered = []\<rparr>"

lemma sample_created: "createSecurityContextController sample_config (Some 1000) (Some 5) = Inr sample_context"
  by (simp add: createSecurityContextController_def sample_config_def sample_context_def valid_context_def
      createClockTracker_def wallSample_def max_safe_def)

theorem reentry_rejected_witness:
  "finishOperation 0 (sample_context\<lparr>delivering := True\<rparr>) = (Inl clock_unavailable, sample_context\<lparr>delivering := True\<rparr>)"
  using reentry_rejected [of "sample_context\<lparr>delivering := True\<rparr>"] by simp

text \<open>C31. After any calls in any order, an open context counts exactly the unfinished leases of its
  active epoch, which is the last one allocated; a closed one counts none; no lease belongs to a
  later epoch; a reset is in progress exactly while the context is busy; and a context that is
  closed without a reset in progress is unhealthy.\<close>

theorem context_invariant:
  assumes "createSecurityContextController cfg wall monotonic = Inr s0" "s = context_run cfg calls s0"
  shows "(case activeEpoch (epochs s) of
      None \<Rightarrow> inFlight (epochs s) = 0 \<and> (\<not> busy s \<longrightarrow> \<not> healthy s)
    | Some e \<Rightarrow> e = lastEpoch (epochs s) \<and>
        inFlight (epochs s) = length (filter (\<lambda>l. owned_epoch l = e \<and> \<not> finished l) (leases (epochs s)))) \<and>
    list_all (\<lambda>l. owned_epoch l \<le> lastEpoch (epochs s)) (leases (epochs s)) \<and>
    (busy s \<longleftrightarrow> progress s \<noteq> NoReset)"
proof -
  have "context_inv s"
    using context_run_ok [OF create_inv [OF assms(1)]] assms(2) by (simp add: context_ok_def)
  then show ?thesis
    by (auto simp: context_inv_def epochs_inv_def open_leases_def split: option.splits)
qed

theorem context_invariant_witness:
  "list_all (\<lambda>l. owned_epoch l \<le> lastEpoch (epochs (context_run sample_config [Begin (Some 1000, Some 5)] sample_context)))
     (leases (epochs (context_run sample_config [Begin (Some 1000, Some 5)] sample_context)))"
  using context_invariant [OF sample_created refl] by blast

text \<open>C16. No acceptance across a reset: if the store was called under a lease and the answer is
  delivered under the same lease, then whatever happened in between, the epoch at the delivery
  is the epoch at the call, and it is open.\<close>

theorem epoch_isolation:
  assumes "createSecurityContextController cfg wall monotonic = Inr s0"
    and "s1 = context_run cfg before s0"
    and "dispatch cfg h input clocks s1 = (Inr payload, s2)"
    and "s3 = context_run cfg between s2"
    and "settle cfg h result clocks' s3 = (Inr out, s4)"
  shows "activeEpoch (epochs s3) = activeEpoch (epochs s1) \<and> lastEpoch (epochs s3) = lastEpoch (epochs s1) \<and>
    activeEpoch (epochs s1) \<noteq> None \<and> \<not> busy s3"
proof -
  have i1: "context_inv s1"
    using context_run_ok [OF create_inv [OF assms(1)]] assms(2) by (simp add: context_ok_def)
  obtain n where d: "currentTime cfg (Some h) clocks s1 = (Inr n, s2)"
    using assms(3) by (auto simp: dispatch_def split: prod.splits sum.splits consume_preparation.splits if_splits)
  have m1: "may_use (Some h) s1" using currentTime_Inr [OF d] by simp
  have ok2: "context_ok s1 s2" by (rule currentTime_inv [OF i1 d])
  then have i2: "context_inv s2" by (simp add: context_ok_def)
  from context_run_ok [OF i2] assms(4) have "context_ok s2 s3" by simp
  with ok2 have ok3: "context_ok s1 s3" by (rule context_ok_trans)
  obtain n' s' where "currentTime cfg (Some h) clocks' s3 = (Inr n', s')"
    using assms(5) by (auto simp: settle_def split: prod.splits sum.splits)
  from currentTime_Inr [OF this] have m3: "may_use (Some h) s3" by simp
  show ?thesis
    using current_same_epoch [of "epochs s1" h "epochs s3"] m1 m3 ok3 i1
    by (auto simp: may_use_def is_open_def context_ok_def context_inv_def)
qed

definition sample_request :: replay_request where
  "sample_request = \<lparr>rq_scope = [115], rq_thumbprint = replicate 43 65, rq_nonce = [110], rq_until = 400\<rparr>"

lemma sample_time:
  assumes "tracker s = tracker sample_context" "healthy s" "may_use h s"
  shows "\<exists>t. currentTime sample_config h (Some 1000, Some 5) s = (Inr 1, s\<lparr>tracker := t\<rparr>) \<and> t = tracker sample_context"
proof -
  have d: "double 0 = 0" "double 1000 = 1000" "double 1 = 1" "double 30000 = 30000"
    using double_of_int [of 0] double_of_int [of 1000] double_of_int [of 1] double_of_int [of 30000] by simp_all
  have o: "observe (Some 1000) (Some 5) (tracker s) = (\<lparr>health = Healthy 1000 1, transition = None\<rparr>, tracker s)"
    unfolding assms(1)
    by (simp add: sample_context_def observe_def observation_def assess_clock_def track_monotonic_def
        wallSample_def max_safe_def Let_def d)
  have "may_use h (s\<lparr>tracker := t\<rparr>)" for t
    using assms(3) by (simp add: may_use_def is_open_def split: option.splits)
  then show ?thesis
    using assms o by (simp add: currentTime_def healthChange_def emit_change_def)
qed

lemma sample_begin:
  "context_run sample_config [Begin (Some 1000, Some 5)] sample_context = sample_context\<lparr>epochs :=
     \<lparr>lastEpoch = 1, activeEpoch = Some 1, inFlight = 1, leases = [\<lparr>owned_epoch = 1, finished = False\<rparr>]\<rparr>\<rparr>"
proof -
  have "may_use None sample_context" by (simp add: may_use_def is_open_def sample_context_def createOperationEpochs_def)
  from sample_time [OF _ _ this] show ?thesis
    by (auto simp: context_run_def beginOperation_def sample_context_def begin_lease_def createOperationEpochs_def max_safe_def)
qed

lemma sample_leased:
  defines "s \<equiv> context_run sample_config [Begin (Some 1000, Some 5)] sample_context"
  shows "currentTime sample_config (Some 0) (Some 1000, Some 5) s = (Inr 1, s)"
proof -
  have "may_use (Some 0) s" "tracker s = tracker sample_context" "healthy s"
    by (simp_all add: s_def sample_begin may_use_def is_open_def is_current_def lease_state_def)
      (simp_all add: sample_context_def)
  from sample_time [OF this(2,3,1)] this(2) show ?thesis by auto
qed

theorem epoch_isolation_witness:
  "\<not> busy (context_run sample_config [] (context_run sample_config [Begin (Some 1000, Some 5)] sample_context))"
proof -
  let ?s = "context_run sample_config [Begin (Some 1000, Some 5)] sample_context"
  have d: "dispatch sample_config 0 (Request sample_request) (Some 1000, Some 5) ?s = (Inr (sample_request, 1), ?s)"
    by (simp add: dispatch_def sample_leased)
  have r: "?s = context_run sample_config [] ?s" by (simp add: context_run_def)
  have "settle sample_config 0 (Some Accepted) (Some 1000, Some 5) (context_run sample_config [] ?s) = (Inr Accepted, ?s)"
    by (simp add: settle_def sample_leased flip: r)
  from epoch_isolation [OF sample_created refl d refl this] show ?thesis by simp
qed

text \<open>C28. A reset that waited for its cleanup ends in one of two ways. Either it succeeds: a new
  epoch is open, the context is healthy, and no lease given out before is current. Or it fails:
  the context stays closed and unhealthy in the old epoch. Either way it is no longer busy.\<close>

theorem reset_outcome:
  assumes "createSecurityContextController cfg wall monotonic = Inr s0" "s = context_run cfg calls s0"
    and "progress s = Clearing reason old replacement n" "reset_finish cfg report clocks s = (res, s')"
  shows "\<not> busy s' \<and> inFlight (epochs s') = 0 \<and> list_all (\<lambda>h. \<not> is_current (epochs s') h) [0..<length (leases (epochs s))] \<and>
    (res = Inr () \<and> activeEpoch (epochs s') = Some (old + 1) \<and> lastEpoch (epochs s') = old + 1 \<and> healthy s' \<or>
     res = Inl ResetFailed \<and> activeEpoch (epochs s') = None \<and> lastEpoch (epochs s') = old \<and> \<not> healthy s')"
proof -
  have inv: "context_inv s"
    using context_run_ok [OF create_inv [OF assms(1)]] assms(2) by (simp add: context_ok_def)
  then have e: "activeEpoch (epochs s) = None" "old = lastEpoch (epochs s)" "lastEpoch (epochs s) < max_safe" "inFlight (epochs s) = 0"
    using assms(3) by (auto simp: context_inv_def epochs_inv_def)
  have ok: "context_ok s s'" using reset_finish_ok [OF inv, of cfg report clocks] assms(4) by simp
  have stale: "\<not> is_current (epochs s) h" for h
    using e(1) by (simp add: is_current_def split: option.split)
  have "\<not> is_current (epochs s') h" if "h < length (leases (epochs s))" for h
    using stale_forever [OF stale that] ok inv by (simp add: context_ok_def context_inv_def)
  moreover obtain es where es: "activateNext (epochs s) = Inr es" "activeEpoch es = Some (old + 1)"
      "lastEpoch es = old + 1" "inFlight es = 0"
    using e by (auto simp: activateNext_def)
  moreover define ends where "ends q \<longleftrightarrow> \<not> busy (snd q) \<and>
    (fst q = Inr () \<and> epochs (snd q) = es \<and> healthy (snd q) \<or>
     fst q = Inl ResetFailed \<and> epochs (snd q) = epochs s \<and> \<not> healthy (snd q))"
    for q :: "(operator_error + unit) \<times> context_state"
  have "snd (invalidate (epochs s)) = epochs s"
    using e by (simp add: invalidate_def)
  then have fail: "ends (reset_fail cfg reason old counts n s)" for counts
    by (simp add: ends_def reset_fail_def reset_end_def Let_def case_prod_beta frame_simps)
  have commit: "ends (reset_commit cfg reason old replacement counts n clocks s)" for counts
    using fail es(1)
    by (simp add: reset_commit_def Let_def case_prod_beta) (simp add: ends_def reset_end_def Let_def frame_simps)
  have "ends (reset_finish cfg report clocks s)"
    using assms(3) fail commit by (simp add: reset_finish_def split: clear_result.split option.split)
  then have "ends (res, s')" using assms(4) by simp
  ultimately show ?thesis using e by (auto simp: ends_def list_all_iff)
qed

text \<open>C29. A reset can always be retried: whatever failed before, if no reset is in progress, epochs
  are not exhausted, the clocks give valid samples that agree with each other until the end, and
  the cleanup reports its counts, then starting, preparing and finishing a reset opens a new epoch.\<close>

theorem reset_retry_succeeds:
  assumes "createSecurityContextController cfg wall monotonic = Inr s0" "s = context_run cfg calls s0" "\<not> busy s"
    and "store_declaration cfg = Some ProcessClock" "memory_reset cfg" "lastEpoch (epochs s) < max_safe"
    and "createClockTracker w m (context_policy cfg) = Inr replacement"
    and "is_healthy (health (fst (observe w' m' replacement)))"
    and "validCount records" "validCount counters"
    and "s1 = snd (reset_start cfg reason s)" "s2 = snd (snd (reset_prepare cfg (w, m) final s1))"
    and "s3 = snd (reset_finish cfg (Reported records counters) (w', m') s2)"
  shows "fst (reset_start cfg reason s) = Inr () \<and> fst (snd (reset_prepare cfg (w, m) final s1)) \<and>
    fst (reset_finish cfg (Reported records counters) (w', m') s2) = Inr () \<and>
    activeEpoch (epochs s3) = Some (lastEpoch (epochs s) + 1) \<and> healthy s3 \<and> \<not> busy s3"
proof -
  have inv: "context_inv s"
    using context_run_ok [OF create_inv [OF assms(1)]] assms(2) by (simp add: context_ok_def)
  have start: "reset_start cfg reason s = (Inr (), s\<lparr>busy := True, progress := Started reason (lastEpoch (epochs s))\<rparr>)"
    using inv assms(3-5) by (simp add: reset_start_def context_inv_def)
  obtain k es where i: "invalidate (epochs s) = (k, es)" by fastforce
  then have es: "canActivateNext es" "activeEpoch es = None" "lastEpoch es = lastEpoch (epochs s)"
    using assms(6) by (auto simp: invalidate_def canActivateNext_def)
  have prep: "reset_prepare cfg (w, m) final s1 = (Inr (), True,
      s\<lparr>busy := True, epochs := es, progress := Clearing reason (lastEpoch (epochs s)) replacement k\<rparr>)"
    using assms(4,7) i es by (simp add: assms(11) start reset_prepare_def Let_def)
  have act: "activateNext es = Inr (es\<lparr>lastEpoch := lastEpoch es + 1, activeEpoch := Some (lastEpoch es + 1)\<rparr>)"
    using es assms(6) by (simp add: activateNext_def)
  show ?thesis
    using assms(8-10) act es
    by (simp add: assms(12,13) start prep reset_finish_def reset_commit_def reset_end_def case_prod_beta Let_def frame_simps)
qed

lemma sample_cleared:
  defines "calls \<equiv> [ResetStart Operator, ResetPrepare (Some 1000, Some 5) (None, None)]"
  shows "progress (context_run sample_config calls sample_context) =
      Clearing Operator 1 (tracker sample_context) 0"
    "\<exists>t. observe (Some 1000) (Some 5) (tracker sample_context) = (\<lparr>health = Healthy 1000 1, transition = None\<rparr>, t)"
proof -
  have "\<not> busy sample_context" "\<not> delivering sample_context" "providerDepth sample_context = 0"
    by (simp_all add: sample_context_def)
  moreover have "createClockTracker (Some 1000) (Some 5) (context_policy sample_config) = Inr (tracker sample_context)"
    by (simp add: createClockTracker_def wallSample_def max_safe_def sample_config_def sample_context_def)
  ultimately show "progress (context_run sample_config calls sample_context) = Clearing Operator 1 (tracker sample_context) 0"
    by (simp add: calls_def context_run_def reset_start_def reset_prepare_def sample_config_def Let_def invalidate_def
        canActivateNext_def max_safe_def) (simp add: sample_context_def createOperationEpochs_def)
  have "double 0 = 0" "double 1000 = 1000" "double 1 = 1" "double 30000 = 30000"
    using double_of_int [of 0] double_of_int [of 1000] double_of_int [of 1] double_of_int [of 30000] by simp_all
  then show "\<exists>t. observe (Some 1000) (Some 5) (tracker sample_context) = (\<lparr>health = Healthy 1000 1, transition = None\<rparr>, t)"
    by (simp add: sample_context_def observe_def observation_def assess_clock_def track_monotonic_def
        wallSample_def max_safe_def Let_def)
qed

theorem reset_outcome_witness:
  "inFlight (epochs (snd (reset_finish sample_config NoReport (None, None) (context_run sample_config
     [ResetStart Operator, ResetPrepare (Some 1000, Some 5) (None, None)] sample_context)))) = 0"
  using reset_outcome [OF sample_created refl sample_cleared(1), of NoReport "(None, None)"] by (metis prod.collapse)

theorem reset_retry_succeeds_witness:
  "fst (reset_start sample_config Operator (context_run sample_config [] sample_context)) = Inr ()"
proof -
  have "\<not> busy (context_run sample_config [] sample_context)"
    "lastEpoch (epochs (context_run sample_config [] sample_context)) < max_safe"
    by (simp_all add: context_run_def sample_context_def createOperationEpochs_def max_safe_def)
  moreover have "store_declaration sample_config = Some ProcessClock" "memory_reset sample_config"
    by (simp_all add: sample_config_def)
  moreover have "createClockTracker (Some 1000) (Some 5) (context_policy sample_config) = Inr (tracker sample_context)"
    by (simp add: createClockTracker_def wallSample_def max_safe_def sample_config_def sample_context_def)
  moreover have "is_healthy (health (fst (observe (Some 1000) (Some 5) (tracker sample_context))))"
    using sample_cleared(2) by auto
  moreover have "validCount NullCount" by simp
  ultimately show ?thesis
    using reset_retry_succeeds [OF sample_created refl _ _ _ _ _ _ _ _ refl refl refl] by blast
qed

section \<open>The context that owns its memory\<close>

text \<open>
  \<open>createSecurityContext\<close> without a store of the caller: the controller and a memory store with its
  reset port. The store runs synchronously when it is called; its answer is a settled promise.
\<close>

record owned_context =
  controller :: context_state
  memory :: replay_memory

definition owned_config :: "clock_policy \<Rightarrow> (context_event \<Rightarrow> bool) option \<Rightarrow> context_config" where
  "owned_config policy observer = \<lparr>store_declaration = Some ProcessClock, memory_reset = True,
     context_policy = policy, context_observer = observer\<rparr>"

definition createSecurityContext ::
    "clock_policy \<Rightarrow> (context_event \<Rightarrow> bool) option \<Rightarrow> sample \<Rightarrow> sample \<Rightarrow> configuration_code + owned_context" where
  "createSecurityContext policy observer wall monotonic =
     bindE (createSecurityContextController (owned_config policy observer) wall monotonic)
       (\<lambda>c. Inr \<lparr>controller = c, memory = new_replay_memory\<rparr>)"

definition payload_argument :: "replay_request \<times> int \<Rightarrow> consume_argument" where
  "payload_argument p = Fields (\<lambda>name.
     if name = ''scope'' then JsString (rq_scope (fst p))
     else if name = ''keyThumbprint'' then JsString (rq_thumbprint (fst p))
     else if name = ''nonce'' then JsString (rq_nonce (fst p))
     else if name = ''nowEpochSeconds'' then JsNumber (JsInt (snd p))
     else if name = ''retainUntilEpochSeconds'' then JsNumber (JsInt (rq_until (fst p)))
     else JsOther)"

definition owned_dispatch :: "context_config \<Rightarrow> replay_policy \<Rightarrow> profile_limits \<Rightarrow> nat \<Rightarrow> consume_preparation \<Rightarrow>
    sample \<times> sample \<Rightarrow> owned_context \<Rightarrow> (profile_rejection + store_outcome) \<times> owned_context" where
  "owned_dispatch cfg policy limits h input clocks s =
     (case dispatch cfg h input clocks (controller s) of
        (Inl e, c) \<Rightarrow> (Inl e, s\<lparr>controller := c\<rparr>)
      | (Inr p, c) \<Rightarrow> let (out, m) = consume_replay policy limits (payload_argument p) (memory s) in
          (Inr out, \<lparr>controller = c, memory = m\<rparr>))"

fun owned_step :: "context_config \<Rightarrow> replay_policy \<Rightarrow> profile_limits \<Rightarrow> context_call \<Rightarrow> owned_context \<Rightarrow> owned_context" where
  "owned_step cfg policy limits (Dispatch h input clocks) s = snd (owned_dispatch cfg policy limits h input clocks s)"
| "owned_step cfg policy limits (ResetPrepare clocks final) s =
     (let (res, clears, c) = reset_prepare cfg clocks final (controller s) in
      \<lparr>controller = c, memory = (if clears then snd (clearForClockReset (memory s)) else memory s)\<rparr>)"
| "owned_step cfg policy limits call s = s\<lparr>controller := context_step cfg call (controller s)\<rparr>"

definition owned_run :: "context_config \<Rightarrow> replay_policy \<Rightarrow> profile_limits \<Rightarrow> context_call list \<Rightarrow> owned_context \<Rightarrow> owned_context" where
  "owned_run cfg policy limits calls s = foldl (\<lambda>s c. owned_step cfg policy limits c s) s calls"

lemma owned_controller: "controller (owned_step cfg policy limits c s) = context_step cfg c (controller s)"
  by (cases c) (auto simp: owned_dispatch_def Let_def split: prod.splits sum.splits)

text \<open>Besides its parts' invariants: the high-water mark of the memory never passes the seconds
  the tracker can still give, and the memory is empty while a reset waits for the cleanup.\<close>

definition tracker_inv :: "clock_tracker \<Rightarrow> bool" where
  "tracker_inv t \<longleftrightarrow> 0 \<le> referenceWallMs t \<and> referenceMonotonicMs t \<le> previousMonotonicMs t"

definition owned_inv :: "replay_policy \<Rightarrow> owned_context \<Rightarrow> bool" where
  "owned_inv policy s \<longleftrightarrow> context_inv (controller s) \<and> replay_inv policy (memory s) \<and>
     tracker_inv (tracker (controller s)) \<and> int (lastNow (memory s)) \<le> earliest_second (tracker (controller s)) \<and>
     (case progress (controller s) of
        Clearing reason old replacement n \<Rightarrow> lastNow (memory s) = 0 \<and> tracker_inv replacement
      | _ \<Rightarrow> True)"

lemma earliest_nonneg: "tracker_inv t \<Longrightarrow> 0 \<le> earliest_second t"
proof -
  assume t: "tracker_inv t"
  then have "0 \<le> referenceWallMs t + double (previousMonotonicMs t - referenceMonotonicMs t)"
    using double_zero_le [of "previousMonotonicMs t - referenceMonotonicMs t"] by (simp add: tracker_inv_def)
  then have "0 \<le> double (double (referenceWallMs t + double (previousMonotonicMs t - referenceMonotonicMs t)) / 1000)"
    by (intro double_zero_le) (simp add: double_zero_le)
  then show ?thesis by (simp add: earliest_second_def)
qed

lemma observe_tracker_inv:
  "observe w m t = (r, t') \<Longrightarrow> tracker_inv t \<Longrightarrow> tracker_inv t' \<and> earliest_second t \<le> earliest_second t'"
  using observe_fields earliest_mono by (fastforce simp: tracker_inv_def)

lemma created_tracker_inv: "createClockTracker w m policy = Inr t \<Longrightarrow> tracker_inv t"
  by (auto simp: createClockTracker_def tracker_inv_def wallSample_def split: if_splits)

text \<open>What a well-formed payload is for the store.\<close>

definition request_ok :: "profile_limits \<Rightarrow> replay_request \<Rightarrow> bool" where
  "request_ok limits r \<longleftrightarrow> rq_scope r \<noteq> [] \<and> length (rq_scope r) \<le> maxScopeBytes limits \<and> list_all ascii (rq_scope r) \<and>
     isValidNonce (JsString (rq_nonce r)) (maxNonceBytes limits) \<and> canonical_thumbprint (rq_thumbprint r)"

lemma valid_payload:
  "valid_consume limits p (payload_argument (r, n)) = Some i \<longleftrightarrow>
     request_ok limits r \<and> 0 \<le> n \<and> n < rq_until r \<and> rq_until r \<le> int max_safe \<and> int p \<le> n \<and>
     i = \<lparr>ci_scope = rq_scope r, ci_thumbprint = rq_thumbprint r, ci_nonce = rq_nonce r,
          ci_now = nat n, ci_until = nat (rq_until r)\<rparr>"
  by (auto simp: valid_consume_def payload_argument_def request_ok_def is_safe_integer_def split: option.splits)

lemma consume_replay_clock:
  assumes "replay_inv policy s" "consume_replay policy limits (payload_argument (r, n)) s = (out, s')"
    and "int (lastNow s) \<le> n"
  shows "replay_inv policy s' \<and> int (lastNow s') \<le> n"
proof (cases "valid_consume limits 0 (payload_argument (r, n))")
  case None
  with assms show ?thesis by (simp add: consume_replay_checked)
next
  case (Some i)
  then have "ci_now i = nat n" using valid_payload [of limits 0 r n i] by simp
  moreover have "consume_checked policy i s = (out, s')" using assms(2) Some by (simp add: consume_replay_checked)
  ultimately show ?thesis
    using memory_store.clock_step [OF assms(1), of i] memory_store.good_step [OF assms(1), of i] assms(3) by auto
qed

lemma dispatch_time:
  assumes "dispatch cfg h input clocks s = (Inr (r, n), s')"
  shows "n = earliest_second (tracker s') \<and> earliest_second (tracker s) \<le> n \<and> may_use (Some h) s \<and>
    same_frame s s' \<and> (\<exists>q. observe (fst clocks) (snd clocks) (tracker s) = (q, tracker s'))"
proof -
  have c: "currentTime cfg (Some h) clocks s = (Inr n, s')"
    using assms by (auto simp: dispatch_def split: prod.splits sum.splits consume_preparation.splits if_splits)
  obtain q where o: "observe (fst clocks) (snd clocks) (tracker s) = (q, tracker s')" "epoch_second q = Some n"
    using currentTime_Inr [OF c] by auto
  then show ?thesis
    using currentTime_Inr [OF c] observe_healthy [OF o] earliest_mono [OF o(1)] currentTime_frame [OF c] by auto
qed

definition tracker_moves :: "clock_tracker \<Rightarrow> clock_tracker \<Rightarrow> bool" where
  "tracker_moves t t' \<longleftrightarrow> t' = t \<or> (\<exists>w m. t' = snd (observe w m t))"

lemma tracker_moves_inv:
  "tracker_moves t t' \<Longrightarrow> tracker_inv t \<Longrightarrow> tracker_inv t' \<and> earliest_second t \<le> earliest_second t'"
  unfolding tracker_moves_def using observe_tracker_inv by (metis order_refl prod.collapse)

lemma moves_observe: "observe w m t = (r, t') \<Longrightarrow> tracker_moves t t'"
  unfolding tracker_moves_def by (metis snd_conv)

lemma moves_refl [simp]: "tracker_moves t t"
  by (simp add: tracker_moves_def)

lemma currentTime_moves: "currentTime cfg h clocks s = (q, s') \<Longrightarrow> tracker_moves (tracker s) (tracker s')"
  using currentTime_cases [of cfg h clocks s q s'] moves_observe by fastforce

lemma rejectReset_frame [simp]:
  "tracker (snd (rejectReset cfg reason code s)) = tracker s" "progress (snd (rejectReset cfg reason code s)) = progress s"
  using emit_frame(1) by (auto simp: rejectReset_def same_frame_def)

lemma reset_end_frame [simp]:
  "tracker (snd (reset_end cfg reason old out counts n evs s)) = tracker s"
  "progress (snd (reset_end cfg reason old out counts n evs s)) = NoReset"
  by (simp_all add: reset_end_def Let_def frame_simps)

lemma reset_fail_frame [simp]:
  "tracker (snd (reset_fail cfg reason old counts n s)) = tracker s"
  "progress (snd (reset_fail cfg reason old counts n s)) = NoReset"
  by (simp_all add: reset_fail_def case_prod_beta)

lemma simple_step_moves:
  assumes "context_inv s" "case c of ResetPrepare _ _ \<Rightarrow> False | ResetFinish _ _ \<Rightarrow> False | _ \<Rightarrow> True"
  shows "tracker_moves (tracker s) (tracker (context_step cfg c s)) \<and>
    (\<forall>reason old t n. progress (context_step cfg c s) = Clearing reason old t n \<longrightarrow> progress s = Clearing reason old t n)"
proof -
  have ct: "tracker_moves (tracker s) (tracker (snd (currentTime cfg h clocks s))) \<and>
      progress (snd (currentTime cfg h clocks s)) = progress s" for h clocks
    using currentTime_moves currentTime_frame by (metis prod.collapse same_frame_def)
  show ?thesis
  proof (cases c)
    case (Begin clocks)
    then show ?thesis using ct [of None clocks]
      by (simp add: beginOperation_def Let_def case_prod_beta split: sum.split)
  next
    case (Complete h clocks)
    then show ?thesis using ct [of "Some h" clocks]
      by (simp add: completeOperation_def case_prod_beta split: sum.split)
  qed (use assms ct in \<open>auto simp: finishOperation_def reset_start_def now_of_def dispatch_state settle_state\<close>)
qed

lemma reset_prepare_moves:
  assumes "reset_prepare cfg clocks final s = (res, clears, s')" "store_declaration cfg = Some ProcessClock"
  shows "tracker_moves (tracker s) (tracker s') \<and>
    (case progress s' of Clearing reason old t n \<Rightarrow> clears \<and> tracker_inv t \<or> \<not> clears \<and> progress s' = progress s | _ \<Rightarrow> True)"
proof (cases "progress s")
  case (Started reason old)
  show ?thesis
  proof (cases "createClockTracker (fst clocks) (snd clocks) (context_policy cfg)")
    case (Inl e)
    obtain r t where o: "observe (fst clocks) (snd clocks) (tracker s) = (r, t)" by fastforce
    obtain ev s1 where h: "healthChange r (s\<lparr>tracker := t\<rparr>) = (ev, s1)" by fastforce
    have "tracker s1 = t" using healthChange_frame [OF h] by simp
    then show ?thesis using assms Started Inl o h
      moves_observe [OF o] by (auto simp: reset_prepare_def case_prod_beta Let_def)
  next
    case (Inr t)
    with assms Started created_tracker_inv [OF Inr] show ?thesis
      by (auto simp: reset_prepare_def case_prod_beta Let_def split: if_splits)
  qed
qed (use assms in \<open>auto simp: reset_prepare_def split: reset_progress.split\<close>)

lemma reset_finish_moves:
  assumes "reset_finish cfg report clocks s = (res, s')"
  shows "(progress s' = NoReset \<or> s' = s) \<and> (tracker s' = tracker s \<or>
    (\<exists>reason old t n. progress s = Clearing reason old t n \<and> tracker_moves t (tracker s')))"
proof (cases "progress s")
  case (Clearing reason old t n)
  obtain r t' where o: "observe (fst clocks) (snd clocks) t = (r, t')" by fastforce
  have "progress (snd (reset_commit cfg reason old t counts n clocks s)) = NoReset \<and>
      (tracker (snd (reset_commit cfg reason old t counts n clocks s)) = tracker s \<or>
       tracker_moves t (tracker (snd (reset_commit cfg reason old t counts n clocks s))))" for counts
    using o moves_observe [OF o] by (simp add: reset_commit_def split: sum.split)
  then have "progress (snd (reset_finish cfg report clocks s)) = NoReset \<and>
      (tracker (snd (reset_finish cfg report clocks s)) = tracker s \<or>
       tracker_moves t (tracker (snd (reset_finish cfg report clocks s))))"
    using Clearing by (simp add: reset_finish_def split: clear_result.split option.split)
  with assms Clearing show ?thesis by auto
qed (use assms in \<open>auto simp: reset_finish_def\<close>)

lemma owned_step_inv:
  assumes "owned_inv policy s" "store_declaration cfg = Some ProcessClock"
  shows "owned_inv policy (owned_step cfg policy limits c s)"
proof -
  let ?s = "owned_step cfg policy limits c s"
  have parts: "context_inv (controller s)" "replay_inv policy (memory s)" "tracker_inv (tracker (controller s))"
      "int (lastNow (memory s)) \<le> earliest_second (tracker (controller s))"
    using assms(1) by (simp_all add: owned_inv_def)
  have cinv: "context_inv (controller ?s)"
    using context_step_ok [OF parts(1)] by (simp add: owned_controller context_ok_def)
  consider (dispatch) h input clocks where "c = Dispatch h input clocks"
    | (prepare) clocks final where "c = ResetPrepare clocks final"
    | (finish) report clocks where "c = ResetFinish report clocks"
    | (other) "case c of Dispatch _ _ _ \<Rightarrow> False | ResetPrepare _ _ \<Rightarrow> False | ResetFinish _ _ \<Rightarrow> False | _ \<Rightarrow> True"
    by (cases c) auto
  then show ?thesis
  proof cases
    case dispatch
    note moves = simple_step_moves [OF parts(1), of c cfg]
    show ?thesis
    proof (cases "dispatch cfg h input clocks (controller s)")
      case (Pair q c')
      then show ?thesis
      proof (cases q)
        case (Inl e)
        with Pair dispatch moves parts tracker_moves_inv cinv assms(1) show ?thesis
          by (fastforce simp: owned_dispatch_def owned_inv_def split: reset_progress.splits)
      next
        case (Inr p)
        obtain r n where p: "p = (r, n)" by fastforce
        note t = dispatch_time [OF Pair [unfolded Inr p]]
        obtain out m where m: "consume_replay policy limits (payload_argument (r, n)) (memory s) = (out, m)" by fastforce
        have "replay_inv policy m \<and> int (lastNow m) \<le> n"
          using consume_replay_clock [OF parts(2) m] t parts(4) by linarith
        moreover have "progress c' = NoReset"
          using t parts(1) by (auto simp: context_inv_def may_use_def is_open_def same_frame_def)
        moreover have "tracker_inv (tracker c')"
          using t observe_tracker_inv parts(3) by blast
        ultimately show ?thesis
          using t Pair Inr p m dispatch cinv by (simp add: owned_dispatch_def owned_inv_def)
      qed
    qed
  next
    case prepare
    obtain res clears c' where r: "reset_prepare cfg clocks final (controller s) = (res, clears, c')"
      by (metis prod_cases3)
    note mv = reset_prepare_moves [OF r assms(2)]
    then have t: "tracker_inv (tracker c')" "earliest_second (tracker (controller s)) \<le> earliest_second (tracker c')"
      using tracker_moves_inv parts(3) by blast+
    have "replay_inv policy new_replay_memory" by (rule new_inv)
    then show ?thesis
      using prepare r mv t parts cinv assms(1) earliest_nonneg [OF t(1)]
      by (auto simp: owned_inv_def clearForClockReset_def new_replay_memory_def split: reset_progress.splits)
  next
    case finish
    obtain res c' where r: "reset_finish cfg report clocks (controller s) = (res, c')" by fastforce
    note mv = reset_finish_moves [OF r]
    have "tracker_inv (tracker c') \<and> int (lastNow (memory s)) \<le> earliest_second (tracker c')"
      using mv parts assms(1) tracker_moves_inv earliest_nonneg by (fastforce simp: owned_inv_def)
    then show ?thesis
      using finish r mv parts cinv assms(1) by (auto simp: owned_inv_def split: reset_progress.splits)
  next
    case other
    then have "owned_step cfg policy limits c s = s\<lparr>controller := context_step cfg c (controller s)\<rparr>"
        "case c of ResetPrepare _ _ \<Rightarrow> False | ResetFinish _ _ \<Rightarrow> False | _ \<Rightarrow> True"
      by (cases c; simp)+
    with simple_step_moves [OF parts(1), of c cfg] parts tracker_moves_inv cinv assms(1) show ?thesis
      by (fastforce simp: owned_inv_def split: reset_progress.splits)
  qed
qed

lemma owned_run_inv:
  assumes "owned_inv policy s" "store_declaration cfg = Some ProcessClock"
  shows "owned_inv policy (owned_run cfg policy limits calls s)"
  using assms(1)
proof (induction calls arbitrary: s)
  case (Cons c calls)
  from Cons.IH [OF owned_step_inv [OF Cons.prems assms(2)]] show ?case by (simp add: owned_run_def)
qed (simp add: owned_run_def)

lemma owned_run_later:
  "context_inv (controller s) \<Longrightarrow> context_ok (controller s) (controller (owned_run cfg policy limits calls s))"
proof (induction calls arbitrary: s)
  case (Cons c calls)
  have ok: "context_ok (controller s) (controller (owned_step cfg policy limits c s))"
    using context_step_ok [OF Cons.prems] by (simp add: owned_controller)
  then have "context_ok (controller (owned_step cfg policy limits c s)) (controller (owned_run cfg policy limits (c # calls) s))"
    using Cons.IH [of "owned_step cfg policy limits c s"] by (simp add: owned_run_def context_ok_def)
  with ok show ?case by (rule context_ok_trans)
qed (simp add: owned_run_def context_ok_def)

lemma created_owned:
  assumes "createSecurityContext clocks observer w m = Inr s"
  shows "owned_inv policy s"
proof -
  obtain c where c: "createSecurityContextController (owned_config clocks observer) w m = Inr c"
      "s = \<lparr>controller = c, memory = new_replay_memory\<rparr>"
    using assms by (auto simp: createSecurityContext_def bindE_eq_Inr)
  have t: "tracker_inv (tracker c)" "progress c = NoReset"
    using c(1) by (auto simp: createSecurityContextController_def bindE_eq_Inr created_tracker_inv split: if_splits)
  show ?thesis
    using create_inv [OF c(1)] t earliest_nonneg [OF t(1)] new_inv
    by (simp add: owned_inv_def c(2)) (simp add: new_replay_memory_def)
qed

lemma reset_prepare_clears:
  "reset_prepare cfg clocks final s = (res, True, s') \<Longrightarrow> activeEpoch (epochs s') = None"
  by (auto simp: reset_prepare_def case_prod_beta Let_def invalidate_def split: reset_progress.splits sum.splits if_splits)

text \<open>While an epoch stays open the memory only forgets what has expired.\<close>

definition epoch_remembers :: "nat \<Rightarrow> jsstring \<Rightarrow> nat \<Rightarrow> owned_context \<Rightarrow> bool" where
  "epoch_remembers e k u s \<longleftrightarrow> e \<le> lastEpoch (epochs (controller s)) \<and>
     (lastEpoch (epochs (controller s)) = e \<and> activeEpoch (epochs (controller s)) \<noteq> None \<longrightarrow>
        deadlines (memory s) k = Some u \<or> u \<le> lastNow (memory s))"

lemma consume_remembers:
  assumes "replay_inv policy m" "deadlines m k = Some u \<or> u \<le> lastNow m"
  shows "deadlines (snd (consume_replay policy limits arg m)) k = Some u \<or>
    u \<le> lastNow (snd (consume_replay policy limits arg m))"
proof (cases "valid_consume limits 0 arg")
  case (Some i)
  then show ?thesis
    using assms memory_store.step_remembers [OF assms(1), of k u i] memory_store.clock_mono [OF assms(1), of i]
    by (auto simp: consume_replay_checked)
qed (use assms in \<open>simp add: consume_replay_checked\<close>)

lemma owned_step_remembers:
  assumes "owned_inv policy s" "store_declaration cfg = Some ProcessClock" "epoch_remembers e k u s"
  shows "epoch_remembers e k u (owned_step cfg policy limits c s)"
proof -
  let ?s = "owned_step cfg policy limits c s"
  have ci: "context_inv (controller s)" "replay_inv policy (memory s)" using assms(1) by (simp_all add: owned_inv_def)
  have later: "later_epochs (epochs (controller s)) (epochs (controller ?s))"
    using context_step_ok [OF ci(1)] by (simp add: owned_controller context_ok_def)
  have "deadlines (memory ?s) k = Some u \<or> u \<le> lastNow (memory ?s)"
    if here: "lastEpoch (epochs (controller ?s)) = e" "activeEpoch (epochs (controller ?s)) \<noteq> None"
  proof -
    have old: "deadlines (memory s) k = Some u \<or> u \<le> lastNow (memory s)"
      using assms(3) later here by (auto simp: epoch_remembers_def later_epochs_def)
    show ?thesis
    proof (cases c)
      case (Dispatch h input clocks)
      with old consume_remembers [OF ci(2) old] show ?thesis
        by (auto simp: owned_dispatch_def Let_def case_prod_beta split: prod.splits sum.splits)
    next
      case (ResetPrepare clocks final)
      obtain res clears c' where r: "reset_prepare cfg clocks final (controller s) = (res, clears, c')"
        by (metis prod_cases3)
      with here ResetPrepare have "\<not> clears" using reset_prepare_clears by fastforce
      with old r ResetPrepare show ?thesis by simp
    qed (use old in simp_all)
  qed
  with assms(3) later show ?thesis by (auto simp: epoch_remembers_def later_epochs_def)
qed

lemma owned_run_remembers:
  assumes "owned_inv policy s" "store_declaration cfg = Some ProcessClock" "epoch_remembers e k u s"
  shows "epoch_remembers e k u (owned_run cfg policy limits calls s)"
  using assms(1,3)
proof (induction calls arbitrary: s)
  case (Cons c calls)
  from Cons.IH [OF owned_step_inv [OF Cons.prems(1) assms(2)] owned_step_remembers [OF Cons.prems(1) assms(2) Cons.prems(2)]]
  show ?case by (simp add: owned_run_def)
qed (simp add: owned_run_def)

lemma owned_dispatch_outcome:
  assumes "dispatch cfg h input clocks (controller s) = (Inr p, c)"
  shows "owned_dispatch cfg policy limits h input clocks s =
    (Inr (fst (consume_replay policy limits (payload_argument p) (memory s))),
     \<lparr>controller = c, memory = snd (consume_replay policy limits (payload_argument p) (memory s))\<rparr>)"
  using assms by (simp add: owned_dispatch_def case_prod_beta)

text \<open>What an acceptance leaves behind, for as long as its epoch stays open.\<close>

lemma retained_in_epoch:
  assumes "owned_inv policy s1" and decl: "store_declaration cfg = Some ProcessClock"
    and "dispatch cfg h input clocks (controller s1) = (Inr (r, n), c1)"
    and "owned_dispatch cfg policy limits h input clocks s1 = (Inr Accepted, s2)"
    and "s3 = owned_run cfg policy limits between s2"
    and "dispatch cfg h' input' clocks' (controller s3) = (Inr (r', n'), c3)"
    and "lastEpoch (epochs (controller s3)) = lastEpoch (epochs (controller s1))"
    and "n' < rq_until r"
  shows "deadlines (memory s3) (json_array [rq_scope r, rq_thumbprint r, rq_nonce r]) = Some (nat (rq_until r)) \<and>
    owned_inv policy s3 \<and> int (lastNow (memory s3)) \<le> n' \<and> request_ok limits r"
proof -
  let ?k = "json_array [rq_scope r, rq_thumbprint r, rq_nonce r]"
  note o1 = owned_dispatch_outcome [OF assms(3), of policy limits]
  have acc: "fst (consume_replay policy limits (payload_argument (r, n)) (memory s1)) = Accepted"
    and s2: "s2 = \<lparr>controller = c1, memory = snd (consume_replay policy limits (payload_argument (r, n)) (memory s1))\<rparr>"
    using assms(4) o1 by auto
  then obtain i where v: "valid_consume limits 0 (payload_argument (r, n)) = Some i"
      "fst (consume_checked policy i (memory s1)) = Accepted"
    by (auto simp: consume_replay_checked split: option.splits)
  then have i: "request_ok limits r" "identity_of i = ?k" "ci_until i = nat (rq_until r)" "int (ci_until i) = rq_until r"
    by (auto simp: valid_payload identity_of_def)
  have s2_step: "s2 = owned_step cfg policy limits (Dispatch h input clocks) s1"
    using assms(4) by simp
  have i2: "owned_inv policy s2" unfolding s2_step by (rule owned_step_inv [OF assms(1) decl])
  have "deadlines (memory s2) ?k = Some (ci_until i)"
    using memory_store.accepted [OF _ v(2)] assms(1) v(1) i(2) by (simp add: s2 consume_replay_checked owned_inv_def)
  moreover have "epochs c1 = epochs (controller s1)"
    using dispatch_time [OF assms(3)] by (simp add: same_frame_def)
  ultimately have "epoch_remembers (lastEpoch (epochs (controller s1))) ?k (ci_until i) s2"
    by (simp add: epoch_remembers_def s2)
  then have rem: "epoch_remembers (lastEpoch (epochs (controller s1))) ?k (ci_until i) s3"
    unfolding assms(5) by (rule owned_run_remembers [OF i2 decl])
  have i3: "owned_inv policy s3" unfolding assms(5) by (rule owned_run_inv [OF i2 decl])
  have t3: "int (lastNow (memory s3)) \<le> n'" "activeEpoch (epochs (controller s3)) \<noteq> None"
    using dispatch_time [OF assms(6)] i3 by (auto simp: owned_inv_def may_use_def is_open_def)
  then have "deadlines (memory s3) ?k = Some (ci_until i)"
    using rem assms(7,8) i(4) by (auto simp: epoch_remembers_def)
  then show ?thesis using i3 t3(1) i(1,3) by simp
qed

lemma retained_refused:
  assumes "owned_inv policy s1" "store_declaration cfg = Some ProcessClock"
    and "dispatch cfg h input clocks (controller s1) = (Inr (r, n), c1)"
    and "owned_dispatch cfg policy limits h input clocks s1 = (Inr Accepted, s2)"
    and "s3 = owned_run cfg policy limits between s2"
    and d3: "dispatch cfg h' input' clocks' (controller s3) = (Inr (r', n'), c3)"
    and "lastEpoch (epochs (controller s3)) = lastEpoch (epochs (controller s1))"
    and "json_array [rq_scope r', rq_thumbprint r', rq_nonce r'] = json_array [rq_scope r, rq_thumbprint r, rq_nonce r]"
    and "n' < rq_until r"
  shows "fst (owned_dispatch cfg policy limits h' input' clocks' s3) =
    Inr (if valid_consume limits 0 (payload_argument (r', n')) = None then Unavailable else Replayed)"
proof -
  note kept = retained_in_epoch [OF assms(1-7,9)]
  show ?thesis
  proof (cases "valid_consume limits 0 (payload_argument (r', n'))")
    case None
    then show ?thesis using owned_dispatch_outcome [OF d3] by (simp add: consume_replay_checked)
  next
    case (Some j)
    then have j: "ci_now j = nat n'" "identity_of j = json_array [rq_scope r', rq_thumbprint r', rq_nonce r']" "0 \<le> n'"
      by (auto simp: valid_payload identity_of_def)
    have "deadlines (memory s3) (identity_of j) = Some (nat (rq_until r))"
      unfolding j(2) assms(8) using kept by blast
    moreover have "lastNow (memory s3) \<le> ci_now j" "ci_now j < nat (rq_until r)" "replay_inv policy (memory s3)"
      using kept j assms(9) by (auto simp: owned_inv_def)
    ultimately have "fst (consume_checked policy j (memory s3)) = Replayed"
      by (intro memory_store.refuses)
    then show ?thesis
      using owned_dispatch_outcome [OF d3] Some by (simp add: consume_replay_checked)
  qed
qed

text \<open>C30. The coordinated clock never trips the store: in a context that owns its memory, whatever
  calls and resets came before, a dispatch reaches the store with a second no earlier than the
  store has seen, so the store's defensive clock check refuses nothing.\<close>

theorem dispatch_never_behind:
  assumes "createSecurityContext clock_pol observer w m = Inr s0"
    and "s = owned_run (owned_config clock_pol observer) policy limits calls s0"
    and "dispatch (owned_config clock_pol observer) h input clocks (controller s) = (Inr (r, n), c)"
  shows "int (lastNow (memory s)) \<le> n \<and>
    valid_consume limits (lastNow (memory s)) (payload_argument (r, n)) = valid_consume limits 0 (payload_argument (r, n))"
proof -
  have "owned_inv policy s"
    unfolding assms(2) by (rule owned_run_inv [OF created_owned [OF assms(1)]]) (simp add: owned_config_def)
  then have le: "int (lastNow (memory s)) \<le> n" using dispatch_time [OF assms(3)] by (simp add: owned_inv_def)
  have "valid_consume limits (lastNow (memory s)) (payload_argument (r, n)) = Some i \<longleftrightarrow>
      valid_consume limits 0 (payload_argument (r, n)) = Some i" for i
    using le by (auto simp: valid_payload)
  with le show ?thesis by (metis not_Some_eq)
qed

text \<open>C5. No replay through the context: once a request has been accepted in an epoch, then in the
  same epoch, after any other calls under any leases, a well-formed request with the same scope,
  key and nonce before the retained deadline is answered with \<open>replayed\<close>.\<close>

theorem context_no_replay:
  assumes "createSecurityContext clock_pol observer w m = Inr s0" "cfg = owned_config clock_pol observer"
    and "s1 = owned_run cfg policy limits before s0"
    and "dispatch cfg h input clocks (controller s1) = (Inr (r, n), c1)"
    and "owned_dispatch cfg policy limits h input clocks s1 = (Inr Accepted, s2)"
    and "s3 = owned_run cfg policy limits between s2"
    and "dispatch cfg h' input' clocks' (controller s3) = (Inr (r', n'), c3)"
    and "lastEpoch (epochs (controller s3)) = lastEpoch (epochs (controller s1))"
    and "rq_scope r' = rq_scope r" "rq_thumbprint r' = rq_thumbprint r" "rq_nonce r' = rq_nonce r"
    and "n' < rq_until r" "n' < rq_until r'" "rq_until r' \<le> int max_safe"
  shows "fst (owned_dispatch cfg policy limits h' input' clocks' s3) = Inr Replayed"
proof -
  have decl: "store_declaration cfg = Some ProcessClock" using assms(2) by (simp add: owned_config_def)
  have i1: "owned_inv policy s1"
    unfolding assms(3) by (rule owned_run_inv [OF created_owned [OF assms(1)] decl])
  note kept = retained_in_epoch [OF i1 decl assms(4-8,12)]
  have "int (lastNow (memory s3)) \<le> n'" "request_ok limits r'"
    using kept assms(9-11) by (simp_all add: request_ok_def)
  then have "valid_consume limits 0 (payload_argument (r', n')) \<noteq> None"
    using assms(13,14) valid_payload [of limits 0 r' n'] by auto
  then show ?thesis
    using retained_refused [OF i1 decl assms(4-8)] assms(9-12) by simp
qed

section \<open>A sample context\<close>

definition sample_owned :: owned_context where
  "sample_owned = \<lparr>controller = sample_context, memory = new_replay_memory\<rparr>"

lemma sample_owned_created:
  "createSecurityContext \<lparr>maxClockDriftSeconds = 30\<rparr> (Some (\<lambda>_. True)) (Some 1000) (Some 5) = Inr sample_owned"
  using sample_created by (simp add: createSecurityContext_def owned_config_def sample_config_def sample_owned_def)

lemma sample_owned_config: "owned_config \<lparr>maxClockDriftSeconds = 30\<rparr> (Some (\<lambda>_. True)) = sample_config"
  by (simp add: owned_config_def sample_config_def)

definition sample_opened :: owned_context where
  "sample_opened = owned_run sample_config \<lparr>capacity = 10, maxPerKey = 5\<rparr> sample_limits [Begin (Some 1000, Some 5)] sample_owned"

lemma sample_opened_fields:
  "controller sample_opened = context_run sample_config [Begin (Some 1000, Some 5)] sample_context"
  "memory sample_opened = new_replay_memory"
  by (simp_all add: sample_opened_def sample_owned_def owned_run_def context_run_def)

lemma sample_dispatch:
  "dispatch sample_config 0 (Request sample_request) (Some 1000, Some 5) (controller sample_opened)
     = (Inr (sample_request, 1), controller sample_opened)"
  by (simp add: sample_opened_fields(1) dispatch_def sample_leased)

theorem dispatch_never_behind_witness:
  "int (lastNow (memory sample_opened)) \<le> 1"
  using dispatch_never_behind [OF sample_owned_created refl,
      unfolded sample_owned_config, of 0 "Request sample_request" "(Some 1000, Some 5)"
        "\<lparr>capacity = 10, maxPerKey = 5\<rparr>" sample_limits "[Begin (Some 1000, Some 5)]",
      folded sample_opened_def, OF sample_dispatch] by blast

lemma sample_consumed:
  defines "m \<equiv> snd (consume_replay \<lparr>capacity = 10, maxPerKey = 5\<rparr> sample_limits
    (payload_argument (sample_request, 1)) new_replay_memory)"
  shows "owned_dispatch sample_config \<lparr>capacity = 10, maxPerKey = 5\<rparr> sample_limits 0 (Request sample_request)
    (Some 1000, Some 5) sample_opened = (Inr Accepted, \<lparr>controller = controller sample_opened, memory = m\<rparr>)"
proof -
  have "request_ok sample_limits sample_request"
    by (simp add: request_ok_def sample_request_def sample_limits_def isValidNonce_def printable_def ascii_def
        max_safe_def sample_thumbprint)
  then obtain i where i: "valid_consume sample_limits (lastNow new_replay_memory) (payload_argument (sample_request, 1)) = Some i"
    by (simp add: valid_payload) (simp add: sample_request_def max_safe_def new_replay_memory_def)
  have "fst (consume_replay \<lparr>capacity = 10, maxPerKey = 5\<rparr> sample_limits (payload_argument (sample_request, 1)) new_replay_memory) = Accepted"
    by (simp add: consume_replay_def i admit_def Let_def) (simp add: new_replay_memory_def expire_def before_expiry_def)
  then show ?thesis
    using owned_dispatch_outcome [OF sample_dispatch] by (simp add: m_def sample_opened_fields(2))
qed

theorem context_no_replay_witness:
  "\<exists>s. fst (owned_dispatch sample_config \<lparr>capacity = 10, maxPerKey = 5\<rparr> sample_limits 0 (Request sample_request)
    (Some 1000, Some 5) s) = Inr Replayed"
proof -
  let ?m = "snd (consume_replay \<lparr>capacity = 10, maxPerKey = 5\<rparr> sample_limits
    (payload_argument (sample_request, 1)) new_replay_memory)"
  let ?s = "\<lparr>controller = controller sample_opened, memory = ?m\<rparr>"
  have d: "dispatch sample_config 0 (Request sample_request) (Some 1000, Some 5) (controller ?s)
      = (Inr (sample_request, 1), controller sample_opened)"
    using sample_dispatch by simp
  have u: "(1 :: int) < rq_until sample_request" "rq_until sample_request \<le> int max_safe"
    by (simp_all add: sample_request_def max_safe_def)
  have r: "?s = owned_run sample_config \<lparr>capacity = 10, maxPerKey = 5\<rparr> sample_limits [] ?s"
    by (simp add: owned_run_def)
  show ?thesis
    by (rule exI, rule context_no_replay [OF sample_owned_created sample_owned_config [symmetric] sample_opened_def
          sample_dispatch sample_consumed r d _ refl refl refl u(1) u(1) u(2)]) simp
qed

end
