(* ===== verification/CandidateEvaluation.thy ===== *)
theory CandidateEvaluation
  imports KeySet ContextSafety
begin

text \<open>
  The evaluation of one candidate, \<^verbatim>\<open>profiles/candidate-evaluation.ts\<close>, over a controller that is
  an interface: a record of the operations of \<^verbatim>\<open>security-context-controller.ts\<close> on a state of its
  own. Everything between two \<open>await\<close>s is one synchronous stretch; at an \<open>await\<close> the environment
  may change the state in any way its other clients can.
\<close>

section \<open>The controller and the environment\<close>

text \<open>\<open>port_dispatch\<close> is \<open>consume\<close> up to the store call, with the answer the store is going to give.\<close>

record 's controller_port =
  port_begin :: "sample \<times> sample \<Rightarrow> 's \<Rightarrow> (profile_rejection + nat) \<times> 's"
  port_now :: "nat \<Rightarrow> sample \<times> sample \<Rightarrow> 's \<Rightarrow> (profile_rejection + int) \<times> 's"
  port_finish :: "nat \<Rightarrow> 's \<Rightarrow> (profile_rejection + unit) \<times> 's"
  port_complete :: "nat \<Rightarrow> sample \<times> sample \<Rightarrow> 's \<Rightarrow> (profile_rejection + int) \<times> 's"
  port_dispatch :: "nat \<Rightarrow> consume_preparation \<Rightarrow> sample \<times> sample \<Rightarrow> 's \<Rightarrow> (profile_rejection + store_outcome option) \<times> 's"
  port_settle :: "nat \<Rightarrow> store_outcome option \<Rightarrow> sample \<times> sample \<Rightarrow> 's \<Rightarrow> (profile_rejection + store_outcome) \<times> 's"

text \<open>What the clocks give, and what the other clients do, at the \<open>n\<close>-th point of a run.\<close>

record 's environment =
  env_port :: "'s controller_port"
  env_clocks :: "nat \<Rightarrow> sample \<times> sample"
  env_others :: "nat \<Rightarrow> 's \<Rightarrow> 's"

record 's world =
  w_state :: 's
  w_tick :: nat

type_synonym ('s, 'a) action = "'s world \<Rightarrow> (candidate_error + 'a) \<times> 's world"

definition bindA :: "('s, 'a) action \<Rightarrow> ('a \<Rightarrow> ('s, 'b) action) \<Rightarrow> ('s, 'b) action" where
  "bindA m f w = (case m w of (Inl e, w') \<Rightarrow> (Inl e, w') | (Inr x, w') \<Rightarrow> f x w')"

definition rejecting :: "profile_rejection + 'a \<Rightarrow> candidate_error + 'a" where
  "rejecting r = (case r of Inl p \<Rightarrow> Inl (CandidateRejection p) | Inr x \<Rightarrow> Inr x)"

definition clocked ::
    "'s environment \<Rightarrow> (sample \<times> sample \<Rightarrow> 's \<Rightarrow> (profile_rejection + 'a) \<times> 's) \<Rightarrow> ('s, 'a) action" where
  "clocked E f w =
     (case f (env_clocks E (w_tick w)) (w_state w) of
        (r, s) \<Rightarrow> (rejecting r, \<lparr>w_state = s, w_tick = w_tick w + 1\<rparr>))"

definition suspend :: "'s environment \<Rightarrow> 's world \<Rightarrow> 's world" where
  "suspend E w = \<lparr>w_state = env_others E (w_tick w) (w_state w), w_tick = w_tick w + 1\<rparr>"

definition awaiting :: "'s environment \<Rightarrow> ('s, 'a) action \<Rightarrow> ('s, 'a) action" where
  "awaiting E m w = (case m w of (r, w') \<Rightarrow> (r, suspend E w'))"

section \<open>Configuration and platform\<close>

record resolved_profile =
  profile_time :: time_policy
  profile_nonce :: nonce_policy

datatype candidate_mode = ExactlyOne | Multiple

datatype aggregate_rule = AllCandidates | AnyCandidate

record 'k verification_configuration =
  vc_limits :: profile_limits
  vc_core :: core_limits
  vc_jwks :: "'k loaded_jwks"
  vc_scope :: jsstring
  vc_mode :: candidate_mode
  vc_aggregate :: aggregate_rule
  vc_allowed :: "wba_profile list"
  vc_profiles :: "wba_profile \<Rightarrow> resolved_profile"
  vc_bindings :: agent_bindings
  vc_requireBinding :: bool
  vc_allowTestKeys :: bool
  vc_fieldTypes :: "(jsstring \<times> field_type option) list"

record 'k verifier_platform =
  vp_core :: platform
  vp_url :: url_parser
  vp_keys :: "'k key_backend"
  vp_verify :: "'k \<Rightarrow> u8 list \<Rightarrow> u8 list \<Rightarrow> bool"

section \<open>Results of an evaluation\<close>

record 'i eligible_candidate =
  el_label :: jsstring
  el_profile :: wba_profile
  el_signature :: parsed_signature
  el_metadata :: candidate_metadata
  el_identity :: 'i
  el_claimed :: jsstring
  el_time :: time_policy

record rejected_candidate =
  rc_rejection :: profile_rejection
  rc_label :: jsstring
  rc_profile :: "wba_profile option"

datatype 'i evaluation = RejectedEvaluation rejected_candidate | EligibleEvaluation "'i eligible_candidate"

definition rejectedCandidate :: "jsstring \<Rightarrow> profile_rejection \<Rightarrow> wba_profile option \<Rightarrow> rejected_candidate" where
  "rejectedCandidate label rejection profile = \<lparr>rc_rejection = rejection, rc_label = label, rc_profile = profile\<rparr>"

section \<open>The evaluation\<close>

fun coreRejection :: "rejection_reason \<Rightarrow> configuration_code + profile_rejection" where
  "coreRejection RResourceLimit = Inr (Unverified ResourceLimit)"
| "coreRejection RUnsupported = Inr (Unverified UnsupportedProfile)"
| "coreRejection RMissingComponent = Inr (Invalid InsufficientCoverage)"
| "coreRejection RAlgorithmMismatch = Inr (Invalid AlgorithmMismatch)"
| "coreRejection RSignatureMismatch = Inr (Invalid SignatureMismatch)"
| "coreRejection RMalformed = Inr (Invalid MalformedSignature)"
| "coreRejection RInvalidKey = Inl InvalidKeyConfiguration"

definition core_failure :: "rejection_reason \<Rightarrow> candidate_error" where
  "core_failure reason =
     (case coreRejection reason of
        Inl c \<Rightarrow> ProfileConfigurationError c | Inr p \<Rightarrow> CandidateRejection p)"

text \<open>The first step of both \<open>catch\<close> blocks.\<close>

fun caught :: "candidate_error \<Rightarrow> candidate_error" where
  "caught (CoreFailure e) = (case signature_reason e of None \<Rightarrow> CoreFailure e | Some r \<Rightarrow> core_failure r)"
| "caught e = e"

definition check_algorithm ::
    "jsstring option \<Rightarrow> unverified_code + 'k loaded_key \<Rightarrow> candidate_error + unit" where
  "check_algorithm algorithm selected =
     (case algorithm of
        None \<Rightarrow> Inr ()
      | Some a \<Rightarrow>
          if a = lit ''ed25519'' then Inr ()
          else Inl (CandidateRejection
            (if (case selected of Inr _ \<Rightarrow> True | Inl _ \<Rightarrow> False) \<and> a \<in> set HTTP_SIGNATURE_ALGORITHM_NAMES
             then Invalid AlgorithmMismatch else Unverified UnsupportedAlgorithm)))"

definition select_key ::
    "'k verification_configuration \<Rightarrow> candidate_metadata \<Rightarrow> candidate_error + 'k loaded_key" where
  "select_key cfg metadata =
     (let selected = lookup_key (vc_jwks cfg) (meta_keyid metadata) in
      bindE (check_algorithm (meta_algorithm metadata) selected) (\<lambda>_.
      case selected of Inl reason \<Rightarrow> Inl (CandidateRejection (Unverified reason)) | Inr k \<Rightarrow> Inr k))"

text \<open>The gates before the first reading of the clock, in their order.\<close>

definition candidate_gates ::
    "'k verifier_platform \<Rightarrow> 'k verification_configuration \<Rightarrow> parsed_signature \<Rightarrow> agent_header
       \<Rightarrow> candidate_error + (agent_claim \<times> candidate_metadata \<times> 'k loaded_key \<times> identity_proposal)" where
  "candidate_gates P cfg s agent =
     (let i = signature_of_input s; profile = header_profile agent in
      if profile \<notin> set (vc_allowed cfg) then Inl (CandidateRejection (Unverified ProfileDisallowed))
      else
        bindE (assertSupportedComponents i profile) (\<lambda>_.
        bindE (resolveAgentClaim (vp_url P) agent (sig_label i) (JsInt (int (maxAgentUrlBytes (vc_limits cfg))))) (\<lambda>claim.
        bindE (assertRequiredCoverage i profile) (\<lambda>_.
        bindE (readCandidateMetadata (sig_parameters i) (profile_nonce (vc_profiles cfg profile))
            (JsInt (int (maxNonceBytes (vc_limits cfg))))) (\<lambda>metadata.
        bindE (select_key cfg metadata) (\<lambda>selected.
        bindE (assertSelectedKeyIdentity (sha256 (vp_keys P)) (exported_jwk (vp_keys P)) (meta_keyid metadata)
            (lk_public selected)) (\<lambda>thumbprint.
        if lk_known_test selected \<and> \<not> vc_allowTestKeys cfg
        then Inl (CandidateRejection (Unverified TestKeyDisallowed))
        else
          bindE (proposeIdentity (vp_url P) (vc_bindings cfg) thumbprint (claimedUrl claim) (vc_requireBinding cfg)) (\<lambda>identity.
          Inr (claim, metadata, selected, identity)))))))))"

definition time_check :: "time_policy \<Rightarrow> candidate_metadata \<Rightarrow> int \<Rightarrow> profile_rejection + unit" where
  "time_check policy metadata now = check_time policy (JsInt (meta_created metadata)) (JsInt (meta_expires metadata)) (JsInt now)"

definition crypto_options :: "'k verification_configuration \<Rightarrow> wba_profile \<Rightarrow> canonical_options" where
  "crypto_options cfg profile =
     \<lparr>option_limits = core_options (vc_core cfg),
      structuredFieldTypes = map_set (lit ''signature-agent'')
        (Some (if profile = WgProtocol00 then TDictionary else TItem)) (vc_fieldTypes cfg)\<rparr>"

definition candidate_crypto ::
    "'k verifier_platform \<Rightarrow> 'k verification_configuration \<Rightarrow> request_parts \<Rightarrow> parsed_signature \<Rightarrow> wba_profile
       \<Rightarrow> 'k loaded_key \<Rightarrow> candidate_error + crypto_verification" where
  "candidate_crypto P cfg request s profile selected =
     core_result (verifyHttpSignatureCryptography (vp_core P) (vp_verify P) (RequestMessage request) s
       (lk_public selected) (crypto_options cfg profile))"

definition crypto_accepted :: "crypto_verification \<Rightarrow> candidate_error + unit" where
  "crypto_accepted v = (case v of CryptoRejected reason \<Rightarrow> Inl (core_failure reason) | SignatureValid _ \<Rightarrow> Inr ())"

text \<open>The body of the \<open>try\<close> block.\<close>

definition evaluation_body ::
    "'k verifier_platform \<Rightarrow> 'k verification_configuration \<Rightarrow> 's environment \<Rightarrow> request_parts \<Rightarrow> parsed_signature
       \<Rightarrow> agent_header \<Rightarrow> nat \<Rightarrow> ('s, identity_proposal eligible_candidate) action" where
  "evaluation_body P cfg E request s agent h =
     (let profile = header_profile agent; time = profile_time (vc_profiles cfg profile) in
      bindA (Pair (candidate_gates P cfg s agent)) (\<lambda>(claim, metadata, selected, identity).
      bindA (clocked E (port_now (env_port E) h)) (\<lambda>now.
      bindA (Pair (rejecting (time_check time metadata now))) (\<lambda>_.
      bindA (awaiting E (Pair (candidate_crypto P cfg request s profile selected))) (\<lambda>crypto.
      bindA (clocked E (port_now (env_port E) h)) (\<lambda>now.
      bindA (Pair (crypto_accepted crypto)) (\<lambda>_.
      bindA (Pair (rejecting (time_check time metadata now))) (\<lambda>_.
      Pair (Inr \<lparr>el_label = sig_label (signature_of_input s), el_profile = profile, el_signature = s,
        el_metadata = metadata, el_identity = identity, el_claimed = claimedUrl claim, el_time = time\<rparr>)))))))))"

definition evaluateCandidate ::
    "'k verifier_platform \<Rightarrow> 'k verification_configuration \<Rightarrow> 's environment \<Rightarrow> request_parts \<Rightarrow> parsed_signature
       \<Rightarrow> agent_header \<Rightarrow> nat \<Rightarrow> ('s, identity_proposal evaluation) action" where
  "evaluateCandidate P cfg E request s agent h w =
     (case evaluation_body P cfg E request s agent h w of
        (Inr c, w') \<Rightarrow> (Inr (EligibleEvaluation c), w')
      | (Inl e, w') \<Rightarrow>
          (case caught e of
             CandidateRejection p \<Rightarrow> (Inr (RejectedEvaluation
               (rejectedCandidate (sig_label (signature_of_input s)) p (Some (header_profile agent)))), w')
           | e' \<Rightarrow> (Inl e', w')))"

end
