(* ===== verification/VerificationEngine.thy ===== *)
theory VerificationEngine
  imports CandidateEvaluation
begin

text \<open>
  The lifecycle of one verification: the snapshot of the request, \<^verbatim>\<open>profiles/verification-request.ts\<close>,
  the replay groups, \<^verbatim>\<open>candidate-replay.ts\<close>, the engine, \<^verbatim>\<open>verification-engine.ts\<close>, and the offline
  verifier, \<^verbatim>\<open>verifier.ts\<close>. The strategy of the engine is a record of its two functions; the
  identities it proposes are of any type with a thumbprint. A candidate is named by its position
  among the selected ones.
\<close>

section \<open>The snapshot of the request\<close>

definition snapshot_header :: "core_limits \<Rightarrow> nat \<Rightarrow> jsstring \<times> header_value \<Rightarrow> core_error + nat" where
  "snapshot_header limits used entry =
     (let used' = used + length (fst entry) + header_length (snd entry) + 4 in
      bindE (checkLimit limits MessageHeaderBytes used') (\<lambda>_. Inr used'))"

definition snapshotVerificationRequest :: "request_parts \<Rightarrow> core_limits \<Rightarrow> core_error + request_parts" where
  "snapshotVerificationRequest input limits =
     (if maxMessageHeaderBytes limits div 4 < length (request_headers input) then Inl (SignatureError RResourceLimit)
      else
        bindE (foldE (snapshot_header limits) 0 (request_headers input)) (\<lambda>_.
        bindE (validateHeaders (request_headers input) limits) (\<lambda>_.
        bindE (checkLimit limits TargetUriBytes (length (targetUri input))) (\<lambda>_.
        bindE (checkLimit limits SignatureBaseBytes (length (request_method input))) (\<lambda>_.
        bindE (case rawRequestTarget input of None \<Rightarrow> Inr () | Some t \<Rightarrow> checkLimit limits TargetUriBytes (length t)) (\<lambda>_.
        Inr input))))))"

section \<open>Replay groups\<close>

datatype replay_outcome = ReplayAccepted | ReplayOptional | ReplayRejected profile_rejection

fun storeRejection :: "store_outcome \<Rightarrow> replay_outcome" where
  "storeRejection Accepted = ReplayAccepted"
| "storeRejection Replayed = ReplayRejected (Invalid ReplayDetected)"
| "storeRejection Unavailable = ReplayRejected (Unverified ReplayStoreUnavailable)"
| "storeRejection PerKeyQuotaExceeded = ReplayRejected (Unverified UnverifiedQuotaExceeded)"

type_synonym 'i indexed = "nat \<times> 'i eligible_candidate"
type_synonym 'i replay_groups = "(jsstring \<times> 'i indexed list) list"
type_synonym replay_outcomes = "nat \<rightharpoonup> replay_outcome"

fun push_group :: "jsstring \<Rightarrow> 'i indexed \<Rightarrow> 'i replay_groups \<Rightarrow> 'i replay_groups" where
  "push_group k c [] = [(k, [c])]"
| "push_group k c ((k', g) # gs) = (if k' = k then (k', g @ [c]) # gs else (k', g) # push_group k c gs)"

definition group_step ::
    "jsstring \<Rightarrow> ('i \<Rightarrow> jsstring) \<Rightarrow> replay_outcomes \<times> 'i replay_groups \<Rightarrow> 'i indexed \<Rightarrow> replay_outcomes \<times> 'i replay_groups" where
  "group_step scope thumbprint s c =
     (case meta_nonce (el_metadata (snd c)) of
        None \<Rightarrow> ((fst s)(fst c \<mapsto> ReplayOptional), snd s)
      | Some nonce \<Rightarrow> (fst s, push_group (json_array [scope, thumbprint (el_identity (snd c)), nonce]) c (snd s)))"

definition candidate_groups ::
    "jsstring \<Rightarrow> ('i \<Rightarrow> jsstring) \<Rightarrow> 'i indexed list \<Rightarrow> replay_outcomes \<times> 'i replay_groups" where
  "candidate_groups scope thumbprint cs = foldl (group_step scope thumbprint) (Map.empty, []) cs"

text \<open>The callback given to \<open>consume\<close>: the checks of one member, its deadline on success.\<close>

definition member_deadline :: "int \<Rightarrow> 'i eligible_candidate \<Rightarrow> profile_rejection + int" where
  "member_deadline now c =
     bindE (time_check (el_time c) (el_metadata c) now) (\<lambda>_.
     retainUntil (el_time c) (JsInt (meta_created (el_metadata c))) (JsInt now))"

definition ready_members :: "int \<Rightarrow> 'i indexed list \<Rightarrow> 'i indexed list" where
  "ready_members now members = filter (\<lambda>c. is_ok (member_deadline now (snd c))) members"

definition group_deadline :: "int \<Rightarrow> 'i indexed list \<Rightarrow> int" where
  "group_deadline now members =
     foldl (\<lambda>u c. case member_deadline now (snd c) of Inl _ \<Rightarrow> u | Inr d \<Rightarrow> max u d) 0 members"

definition group_failures :: "int \<Rightarrow> 'i indexed list \<Rightarrow> (nat \<times> profile_rejection) list" where
  "group_failures now members =
     List.map_filter (\<lambda>c. case member_deadline now (snd c) of Inl e \<Rightarrow> Some (fst c, e) | Inr _ \<Rightarrow> None) members"

text \<open>A group has a member, so a group with none ready has a last failure.\<close>

definition group_request ::
    "jsstring \<Rightarrow> ('i \<Rightarrow> jsstring) \<Rightarrow> 'i indexed list \<Rightarrow> int \<Rightarrow> profile_rejection + replay_request" where
  "group_request scope thumbprint members now =
     (case ready_members now members of
        [] \<Rightarrow> Inl (snd (List.last (group_failures now members)))
      | (_, c) # _ \<Rightarrow> Inr \<lparr>rq_scope = scope, rq_thumbprint = thumbprint (el_identity c),
          rq_nonce = the (meta_nonce (el_metadata c)), rq_until = group_deadline now members\<rparr>)"

definition set_failures :: "(nat \<times> profile_rejection) list \<Rightarrow> replay_outcomes \<Rightarrow> replay_outcomes" where
  "set_failures fs outcomes = foldl (\<lambda>m (i, e). m(i \<mapsto> ReplayRejected e)) outcomes fs"

text \<open>The \<open>catch\<close> block: the members with no outcome yet.\<close>

definition fill_group :: "'i indexed list \<Rightarrow> profile_rejection \<Rightarrow> replay_outcomes \<Rightarrow> replay_outcomes" where
  "fill_group members e outcomes =
     foldl (\<lambda>m c. if m (fst c) = None then m(fst c \<mapsto> ReplayRejected e) else m) outcomes members"

definition set_ready :: "'i indexed list \<Rightarrow> store_outcome \<Rightarrow> int \<Rightarrow> replay_outcomes \<Rightarrow> replay_outcomes" where
  "set_ready ready out now outcomes =
     foldl (\<lambda>m c. m(fst c \<mapsto> (case time_check (el_time (snd c)) (el_metadata (snd c)) now of
       Inl e \<Rightarrow> ReplayRejected e | Inr _ \<Rightarrow> storeRejection out))) outcomes ready"

text \<open>\<open>consume\<close>, and what it is awaited with. An error here is always a rejection.\<close>

definition consume_port ::
    "'s environment \<Rightarrow> nat \<Rightarrow> (int \<Rightarrow> profile_rejection + replay_request) \<Rightarrow> ('s, store_outcome) action" where
  "consume_port E h prepare =
     awaiting E
       (bindA (awaiting E (clocked E (port_dispatch (env_port E) h (Prepare prepare)))) (\<lambda>answer.
        clocked E (port_settle (env_port E) h answer)))"

text \<open>The second the callback is called with, if it is called: the reading \<open>consume\<close> starts with.\<close>

definition callback_second :: "'s environment \<Rightarrow> nat \<Rightarrow> 's world \<Rightarrow> int option" where
  "callback_second E h w =
     (case fst (port_now (env_port E) h (env_clocks E (w_tick w)) (w_state w)) of Inl _ \<Rightarrow> None | Inr now \<Rightarrow> Some now)"

fun rejection_of :: "candidate_error \<Rightarrow> profile_rejection option" where
  "rejection_of (CandidateRejection p) = Some p"
| "rejection_of _ = None"

definition consume_group ::
    "'s environment \<Rightarrow> jsstring \<Rightarrow> ('i \<Rightarrow> jsstring) \<Rightarrow> nat \<Rightarrow> 'i indexed list \<Rightarrow> replay_outcomes
       \<Rightarrow> ('s, replay_outcomes) action" where
  "consume_group E scope thumbprint h members outcomes w =
     (let called = callback_second E h w;
          outcomes1 = (case called of None \<Rightarrow> outcomes | Some now \<Rightarrow> set_failures (group_failures now members) outcomes);
          ready = (case called of None \<Rightarrow> [] | Some now \<Rightarrow> ready_members now members) in
      case bindA (consume_port E h (group_request scope thumbprint members)) (\<lambda>out.
             bindA (clocked E (port_now (env_port E) h)) (\<lambda>now.
             Pair (Inr (set_ready ready out now outcomes1)))) w of
        (Inr outcomes2, w') \<Rightarrow> (Inr outcomes2, w')
      | (Inl e, w') \<Rightarrow>
          (case rejection_of e of
             None \<Rightarrow> (Inl e, w')
           | Some p \<Rightarrow> (Inr (fill_group members p outcomes1), w')))"

fun consume_groups ::
    "'s environment \<Rightarrow> jsstring \<Rightarrow> ('i \<Rightarrow> jsstring) \<Rightarrow> nat \<Rightarrow> 'i replay_groups \<Rightarrow> replay_outcomes
       \<Rightarrow> ('s, replay_outcomes) action" where
  "consume_groups E scope thumbprint h [] outcomes = Pair (Inr outcomes)"
| "consume_groups E scope thumbprint h ((k, members) # gs) outcomes =
     bindA (consume_group E scope thumbprint h members outcomes) (consume_groups E scope thumbprint h gs)"

definition consumeCandidateGroups ::
    "'s environment \<Rightarrow> jsstring \<Rightarrow> ('i \<Rightarrow> jsstring) \<Rightarrow> nat \<Rightarrow> 'i indexed list \<Rightarrow> ('s, replay_outcomes) action" where
  "consumeCandidateGroups E scope thumbprint h cs =
     (case candidate_groups scope thumbprint cs of
        (outcomes, groups) \<Rightarrow> awaiting E (consume_groups E scope thumbprint h groups outcomes))"

section \<open>Results\<close>

record 'i verified_candidate =
  vr_label :: jsstring
  vr_profile :: wba_profile
  vr_identity :: 'i
  vr_claimed :: jsstring
  vr_components :: "covered_component list"
  vr_at :: int
  vr_reason :: verified_code
  vr_protected :: bool

datatype 'i candidate_result = VerifiedResult "'i verified_candidate" | FailedResult rejected_candidate

datatype 'i verification_result =
    UnsignedRequest unsigned_code
  | VerifiedRequest verified_code "'i candidate_result list" "'i verified_candidate list"
  | FailedRequest profile_rejection "'i candidate_result list"

section \<open>The engine\<close>

record ('s, 'i) strategy =
  st_evaluate :: "request_parts \<Rightarrow> parsed_signature \<Rightarrow> agent_header \<Rightarrow> nat \<Rightarrow> ('s, 'i evaluation) action"
  st_evidence :: "'i eligible_candidate \<Rightarrow> ('s, unit) action"
  st_thumbprint :: "'i \<Rightarrow> jsstring"

record engine_configuration =
  ec_limits :: profile_limits
  ec_core :: core_limits
  ec_scope :: jsstring
  ec_mode :: candidate_mode
  ec_aggregate :: aggregate_rule

definition rejected_eligible :: "'i eligible_candidate \<Rightarrow> profile_rejection \<Rightarrow> rejected_candidate" where
  "rejected_eligible c p = rejectedCandidate (el_label c) p (Some (el_profile c))"

definition evidenceRejection :: "('s, 'i) strategy \<Rightarrow> 'i eligible_candidate \<Rightarrow> ('s, rejected_candidate option) action" where
  "evidenceRejection S c w =
     (case st_evidence S c w of
        (Inr _, w') \<Rightarrow> (Inr None, w')
      | (Inl e, w') \<Rightarrow>
          (case rejection_of e of None \<Rightarrow> (Inl e, w') | Some p \<Rightarrow> (Inr (Some (rejected_eligible c p)), w')))"

definition final_outcome :: "'i eligible_candidate \<Rightarrow> replay_outcome option \<Rightarrow> candidate_error + bool" where
  "final_outcome c replay =
     (case replay of
        None \<Rightarrow> Inl InternalFailure
      | Some (ReplayRejected p) \<Rightarrow> Inl (CandidateRejection p)
      | Some ReplayOptional \<Rightarrow> if meta_nonce (el_metadata c) = None then Inr False else Inl InternalFailure
      | Some ReplayAccepted \<Rightarrow> if meta_nonce (el_metadata c) = None then Inl InternalFailure else Inr True)"

definition finalize :: "'i eligible_candidate \<Rightarrow> replay_outcome option \<Rightarrow> int \<Rightarrow> candidate_error + 'i candidate_result" where
  "finalize c replay now =
     (case bindE (rejecting (time_check (el_time c) (el_metadata c) now)) (\<lambda>_. final_outcome c replay) of
        Inr accepted \<Rightarrow> Inr (VerifiedResult
          \<lparr>vr_label = el_label c, vr_profile = el_profile c, vr_identity = el_identity c, vr_claimed = el_claimed c,
           vr_components = sig_components (signature_of_input (el_signature c)), vr_at = now,
           vr_reason = (if accepted then NonceConsumed else NonceAbsentOptional), vr_protected = accepted\<rparr>)
      | Inl e \<Rightarrow> (case rejection_of e of None \<Rightarrow> Inl e | Some p \<Rightarrow> Inr (FailedResult (rejected_eligible c p))))"

fun verified_part :: "'i candidate_result \<Rightarrow> 'i verified_candidate option" where
  "verified_part (VerifiedResult v) = Some v"
| "verified_part (FailedResult _) = None"

fun failed_part :: "'i candidate_result \<Rightarrow> rejected_candidate option" where
  "failed_part (FailedResult r) = Some r"
| "failed_part (VerifiedResult _) = None"

definition aggregate :: "'i candidate_result list \<Rightarrow> aggregate_rule \<Rightarrow> candidate_error + 'i verification_result" where
  "aggregate rs rule =
     (let verified = List.map_filter verified_part rs; failed = List.map_filter failed_part rs in
      if verified \<noteq> [] \<and> (rule = AnyCandidate \<or> failed = [])
      then Inr (VerifiedRequest (if list_all vr_protected verified then NonceConsumed else NonceAbsentOptional) rs verified)
      else (case failed of [] \<Rightarrow> Inl InternalFailure | r # _ \<Rightarrow> Inr (FailedRequest (rc_rejection r) rs)))"

text \<open>The loop of evaluations; it returns those it reached, with the error that ended it.\<close>

fun evaluate_all ::
    "'s environment \<Rightarrow> ('s, 'i) strategy \<Rightarrow> request_parts \<Rightarrow> agent_header \<Rightarrow> nat \<Rightarrow> parsed_signature list
       \<Rightarrow> 'i evaluation list \<Rightarrow> 's world \<Rightarrow> (candidate_error option \<times> 'i evaluation list) \<times> 's world" where
  "evaluate_all E S request agent h [] evaluated w = ((None, evaluated), w)"
| "evaluate_all E S request agent h (s # rest) evaluated w =
     (case awaiting E (st_evaluate S request s agent h) w of
        (Inl e, w') \<Rightarrow> ((Some e, evaluated), w')
      | (Inr v, w') \<Rightarrow> evaluate_all E S request agent h rest (evaluated @ [v]) w')"

fun ambiguous_candidate :: "int \<Rightarrow> 'i evaluation \<Rightarrow> 'i candidate_result" where
  "ambiguous_candidate now (RejectedEvaluation r) = FailedResult r"
| "ambiguous_candidate now (EligibleEvaluation c) =
     FailedResult (rejected_eligible c
       (case time_check (el_time c) (el_metadata c) now of Inl p \<Rightarrow> p | Inr _ \<Rightarrow> Invalid AmbiguousSignatures))"

definition check_evaluation :: "('s, 'i) strategy \<Rightarrow> 'i evaluation \<Rightarrow> ('s, 'i evaluation) action" where
  "check_evaluation S v =
     (case v of
        RejectedEvaluation r \<Rightarrow> Pair (Inr v)
      | EligibleEvaluation c \<Rightarrow>
          bindA (evidenceRejection S c) (\<lambda>q.
          Pair (Inr (case q of None \<Rightarrow> v | Some r \<Rightarrow> RejectedEvaluation r))))"

text \<open>The second round of checks ends at the first throw; the first round, \<open>check_evaluations\<close>,
  leaves the rejections of the earlier candidates in place then.\<close>

fun final_evidence :: "('s, 'i) strategy \<Rightarrow> 'i evaluation list \<Rightarrow> ('s, 'i evaluation list) action" where
  "final_evidence S [] = Pair (Inr [])"
| "final_evidence S (v # vs) =
     bindA (check_evaluation S v) (\<lambda>u. bindA (final_evidence S vs) (\<lambda>us. Pair (Inr (u # us))))"

fun check_evaluations ::
    "('s, 'i) strategy \<Rightarrow> 'i evaluation list \<Rightarrow> 's world \<Rightarrow> (candidate_error option \<times> 'i evaluation list) \<times> 's world" where
  "check_evaluations S [] w = ((None, []), w)"
| "check_evaluations S (v # vs) w =
     (case check_evaluation S v w of
        (Inl e, w') \<Rightarrow> ((Some e, v # vs), w')
      | (Inr v', w') \<Rightarrow> (case check_evaluations S vs w' of ((e, vs'), w'') \<Rightarrow> ((e, v' # vs'), w'')))"

fun eligible_part :: "nat \<times> 'i evaluation \<Rightarrow> 'i indexed option" where
  "eligible_part (i, EligibleEvaluation c) = Some (i, c)"
| "eligible_part (i, RejectedEvaluation _) = None"

definition eligible_of :: "'i evaluation list \<Rightarrow> 'i indexed list" where
  "eligible_of vs = List.map_filter eligible_part (enumerate 0 vs)"

fun final_candidate ::
    "replay_outcomes \<Rightarrow> int \<Rightarrow> (nat \<times> 'i evaluation) \<times> 'i evaluation \<Rightarrow> candidate_error + 'i candidate_result" where
  "final_candidate replay now ((i, RejectedEvaluation r), _) = Inr (FailedResult r)"
| "final_candidate replay now ((i, EligibleEvaluation c), RejectedEvaluation r) = Inr (FailedResult r)"
| "final_candidate replay now ((i, EligibleEvaluation c), EligibleEvaluation _) = finalize c (replay i) now"

text \<open>After the evaluations: the error, if any, leaves \<open>evaluations\<close> as the \<open>catch\<close> block sees them.\<close>

definition finish_ambiguous ::
    "'s environment \<Rightarrow> nat \<Rightarrow> 'i evaluation list
       \<Rightarrow> 's world \<Rightarrow> ((candidate_error \<times> 'i evaluation list) + 'i verification_result) \<times> 's world" where
  "finish_ambiguous E h vs w =
     (case clocked E (port_complete (env_port E) h) w of
        (Inl e, w') \<Rightarrow> (Inl (e, vs), w')
      | (Inr now, w') \<Rightarrow>
          (Inr (FailedRequest (Invalid AmbiguousSignatures) (map (ambiguous_candidate now) vs)), w'))"

definition finish_candidates ::
    "engine_configuration \<Rightarrow> 's environment \<Rightarrow> ('s, 'i) strategy \<Rightarrow> nat \<Rightarrow> 'i evaluation list
       \<Rightarrow> 's world \<Rightarrow> (candidate_error + 'i verification_result) \<times> 's world" where
  "finish_candidates cfg E S h vs =
     bindA (consumeCandidateGroups E (ec_scope cfg) (st_thumbprint S) h (eligible_of vs)) (\<lambda>replay.
     bindA (final_evidence S vs) (\<lambda>checked.
     bindA (clocked E (port_complete (env_port E) h)) (\<lambda>now.
     Pair (bindE (mapE (final_candidate replay now) (zip (enumerate 0 vs) checked)) (\<lambda>rs.
       aggregate rs (ec_aggregate cfg))))))"

definition verify_evaluated ::
    "engine_configuration \<Rightarrow> 's environment \<Rightarrow> ('s, 'i) strategy \<Rightarrow> parsed_signature list \<Rightarrow> nat \<Rightarrow> 'i evaluation list
       \<Rightarrow> 's world \<Rightarrow> ((candidate_error \<times> 'i evaluation list) + 'i verification_result) \<times> 's world" where
  "verify_evaluated cfg E S selected h vs w =
     (if ec_mode cfg = ExactlyOne \<and> 1 < length selected then finish_ambiguous E h vs w
      else
        (case check_evaluations S vs w of
           ((Some e, vs'), w') \<Rightarrow> (Inl (e, vs'), w')
         | ((None, vs'), w') \<Rightarrow>
             (case finish_candidates cfg E S h vs' w' of
                (Inl e, w'') \<Rightarrow> (Inl (e, vs'), w'')
              | (Inr r, w'') \<Rightarrow> (Inr r, w''))))"

text \<open>With a lease: the error carries the profile, if known, and the evaluations.\<close>

definition verify_leased ::
    "engine_configuration \<Rightarrow> 's environment \<Rightarrow> ('s, 'i) strategy \<Rightarrow> request_parts \<Rightarrow> parsed_signature list \<Rightarrow> nat
       \<Rightarrow> 's world \<Rightarrow> ((candidate_error \<times> wba_profile option \<times> 'i evaluation list) + 'i verification_result) \<times> 's world" where
  "verify_leased cfg E S request selected h w =
     (case parseAgentHeader request (ec_core cfg) of
        Inl e \<Rightarrow> (Inl (e, None, []), w)
      | Inr agent \<Rightarrow>
          (case evaluate_all E S request agent h selected [] w of
             ((Some e, vs), w') \<Rightarrow> (Inl (e, Some (header_profile agent), vs), w')
           | ((None, vs), w') \<Rightarrow>
               (case verify_evaluated cfg E S selected h vs w' of
                  (Inl (e, vs'), w'') \<Rightarrow> (Inl (e, Some (header_profile agent), vs'), w'')
                | (Inr r, w'') \<Rightarrow> (Inr r, w''))))"

text \<open>The \<open>catch\<close> block: a position past the evaluations has none.\<close>

definition caught_candidate ::
    "profile_rejection \<Rightarrow> wba_profile option \<Rightarrow> 'i evaluation list \<Rightarrow> nat \<times> parsed_signature \<Rightarrow> 'i candidate_result" where
  "caught_candidate p profile vs entry =
     FailedResult
       (case if fst entry < length vs then Some (vs ! fst entry) else None of
          Some (RejectedEvaluation r) \<Rightarrow> r
        | _ \<Rightarrow> rejectedCandidate (sig_label (signature_of_input (snd entry))) p profile)"

definition verify_caught ::
    "engine_configuration \<Rightarrow> parsed_signature list \<Rightarrow> candidate_error \<times> wba_profile option \<times> 'i evaluation list
       \<Rightarrow> candidate_error + 'i verification_result" where
  "verify_caught cfg selected failure =
     (case failure of
        (e, profile, vs) \<Rightarrow>
          (case rejection_of (caught e) of
             None \<Rightarrow> Inl (caught e)
           | Some p \<Rightarrow> Inr (FailedRequest
               (if ec_mode cfg = ExactlyOne \<and> 1 < length selected then Invalid AmbiguousSignatures else p)
               (map (caught_candidate p profile vs) (enumerate 0 selected)))))"

text \<open>The snapshot and the selection, before there is a lease.\<close>

definition verify_selection ::
    "engine_configuration \<Rightarrow> request_parts \<Rightarrow> candidate_error + (request_parts \<times> candidate_selection)" where
  "verify_selection cfg input =
     bindE (core_result (snapshotVerificationRequest input (ec_core cfg))) (\<lambda>request.
     bindE (selectWebBotAuthCandidates (request_headers request) (core_options (ec_core cfg))
       (JsInt (int (maxCandidates (ec_limits cfg))))) (\<lambda>selection.
     Inr (request, selection)))"

text \<open>The \<open>finally\<close> block: what it throws replaces the result.\<close>

definition finally_finish :: "'s environment \<Rightarrow> nat \<Rightarrow> (candidate_error + 'a) \<times> 's world \<Rightarrow> (candidate_error + 'a) \<times> 's world" where
  "finally_finish E h rw =
     (case rw of
        (r, w) \<Rightarrow>
          (case port_finish (env_port E) h (w_state w) of
             (Inl p, s) \<Rightarrow> (Inl (CandidateRejection p), w\<lparr>w_state := s\<rparr>)
           | (Inr _, s) \<Rightarrow> (r, w\<lparr>w_state := s\<rparr>)))"

definition verify ::
    "engine_configuration \<Rightarrow> 's environment \<Rightarrow> ('s, 'i) strategy \<Rightarrow> request_parts \<Rightarrow> ('s, 'i verification_result) action" where
  "verify cfg E S input w =
     (case verify_selection cfg input of
        Inl e \<Rightarrow> (verify_caught cfg [] (e, None, []), w)
      | Inr (request, Unsigned reason) \<Rightarrow> (Inr (UnsignedRequest reason), w)
      | Inr (request, Selected signatures selected) \<Rightarrow>
          (case clocked E (port_begin (env_port E)) w of
             (Inl e, w') \<Rightarrow> (verify_caught cfg selected (e, None, []), w')
           | (Inr h, w') \<Rightarrow>
               finally_finish E h
                 (case verify_leased cfg E S request selected h w' of
                    (Inl failure, w'') \<Rightarrow> (verify_caught cfg selected failure, w'')
                  | (Inr r, w'') \<Rightarrow> (Inr r, w''))))"

section \<open>The offline verifier\<close>

definition offline_strategy ::
    "'k verifier_platform \<Rightarrow> 'k verification_configuration \<Rightarrow> 's environment \<Rightarrow> ('s, identity_proposal) strategy" where
  "offline_strategy P cfg E =
     \<lparr>st_evaluate = evaluateCandidate P cfg E, st_evidence = (\<lambda>_. Pair (Inr ())), st_thumbprint = identity_thumbprint\<rparr>"

definition engine_of :: "'k verification_configuration \<Rightarrow> engine_configuration" where
  "engine_of cfg = \<lparr>ec_limits = vc_limits cfg, ec_core = vc_core cfg, ec_scope = vc_scope cfg,
     ec_mode = vc_mode cfg, ec_aggregate = vc_aggregate cfg\<rparr>"

definition verify_offline ::
    "'k verifier_platform \<Rightarrow> 'k verification_configuration \<Rightarrow> 's environment \<Rightarrow> request_parts
       \<Rightarrow> ('s, identity_proposal verification_result) action" where
  "verify_offline P cfg E = verify (engine_of cfg) E (offline_strategy P cfg E)"

end
