(* ===== verification/EngineLemmas.thy ===== *)
theory EngineLemmas
  imports VerificationEngine
begin

text \<open>
  What holds of the engine for every strategy: the locale \<open>verification_strategy\<close> states what an
  evaluation promises about its candidate, and the lemmas say what a result is made of. The
  offline strategy is an interpretation.
\<close>

section \<open>Actions\<close>

lemma bindA_eq_Inr: "bindA m f w = (Inr y, w') \<longleftrightarrow> (\<exists>x w1. m w = (Inr x, w1) \<and> f x w1 = (Inr y, w'))"
  by (auto simp: bindA_def split: prod.split sum.split)

lemma bindA_eq_Inl: "bindA m f w = (Inl e, w') \<longleftrightarrow>
    m w = (Inl e, w') \<or> (\<exists>x w1. m w = (Inr x, w1) \<and> f x w1 = (Inl e, w'))"
  by (auto simp: bindA_def split: prod.split sum.split)

lemma bindA_Pair [simp]: "bindA (Pair (Inr x)) f w = f x w" "bindA (Pair (Inl e)) f w = (Inl e, w)"
  by (simp_all add: bindA_def)

lemma rejecting_eq_Inr [simp]: "rejecting r = Inr x \<longleftrightarrow> r = Inr x"
  by (simp add: rejecting_def split: sum.split)

lemma rejecting_simps [simp]: "rejecting (Inr x) = Inr x" "rejecting (Inl p) = Inl (CandidateRejection p)"
  by (simp_all add: rejecting_def)

lemma awaiting_eq: "awaiting E m w = (r, w') \<longleftrightarrow> (\<exists>w1. m w = (r, w1) \<and> w' = suspend E w1)"
  by (auto simp: awaiting_def split: prod.split)

lemma clocked_eq_Inr: "clocked E f w = (Inr x, w') \<longleftrightarrow>
    f (env_clocks E (w_tick w)) (w_state w) = (Inr x, w_state w') \<and> w_tick w' = w_tick w + 1"
  by (cases w') (auto simp: clocked_def split: prod.splits)

section \<open>Strategies\<close>

text \<open>The result of evaluating the signature \<open>s\<close>: a rejection that names it, or a candidate that
  passed the strategy's gates for it.\<close>

definition evaluated_as ::
    "(parsed_signature \<Rightarrow> 'i eligible_candidate \<Rightarrow> bool) \<Rightarrow> wba_profile \<Rightarrow> parsed_signature \<Rightarrow> 'i evaluation \<Rightarrow> bool" where
  "evaluated_as gate profile s v \<longleftrightarrow>
     (case v of
        RejectedEvaluation r \<Rightarrow> rc_label r = sig_label (signature_of_input s)
      | EligibleEvaluation c \<Rightarrow> el_label c = sig_label (signature_of_input s) \<and> el_profile c = profile \<and>
          el_signature c = s \<and> gate s c)"

locale verification_strategy =
  fixes S :: "('s, 'i) strategy"
    and gate :: "request_parts \<Rightarrow> agent_header \<Rightarrow> parsed_signature \<Rightarrow> 'i eligible_candidate \<Rightarrow> bool"
  assumes evaluated: "st_evaluate S request s agent h w = (Inr v, w') \<Longrightarrow>
    evaluated_as (gate request agent) (header_profile agent) s v"
begin

lemma evaluate_all_related:
  "evaluate_all E S request agent h selected vs w = ((e, vs'), w') \<Longrightarrow>
     \<exists>us. vs' = vs @ us \<and> list_all2 (evaluated_as (gate request agent) (header_profile agent)) (take (length us) selected) us \<and>
       (e = None \<longrightarrow> length us = length selected)"
proof (induction selected arbitrary: vs w)
  case (Cons s selected)
  obtain r w1 where r: "awaiting E (st_evaluate S request s agent h) w = (r, w1)" by fastforce
  show ?case
  proof (cases r)
    case (Inl e')
    then show ?thesis using Cons.prems r by auto
  next
    case (Inr v)
    then have "evaluate_all E S request agent h selected (vs @ [v]) w1 = ((e, vs'), w')"
      using Cons.prems r by simp
    from Cons.IH [OF this] obtain us where us: "vs' = vs @ v # us"
        "list_all2 (evaluated_as (gate request agent) (header_profile agent)) (take (length us) selected) us"
        "e = None \<longrightarrow> length us = length selected" by auto
    have "evaluated_as (gate request agent) (header_profile agent) s v"
      using r Inr evaluated by (auto simp: awaiting_eq)
    then show ?thesis using us by (intro exI [of _ "v # us"]) simp
  qed
qed simp

end

lemma evidenceRejection_label:
  "evidenceRejection S c w = (Inr (Some r), w') \<Longrightarrow> rc_label r = el_label c"
  by (auto simp: evidenceRejection_def rejected_eligible_def rejectedCandidate_def split: prod.splits sum.splits option.splits)

lemma check_evaluation_related:
  assumes "check_evaluation S v w = (Inr v', w')" "evaluated_as gate profile s v"
  shows "evaluated_as gate profile s v' \<and> (\<forall>c. v' = EligibleEvaluation c \<longrightarrow> v = v' \<and> (\<exists>x. st_evidence S c w = (Inr x, w')))"
proof (cases v)
  case (RejectedEvaluation r)
  then show ?thesis using assms by (auto simp: check_evaluation_def)
next
  case (EligibleEvaluation c)
  then obtain q where q: "evidenceRejection S c w = (Inr q, w')"
      "v' = (case q of None \<Rightarrow> v | Some r \<Rightarrow> RejectedEvaluation r)"
    using assms(1) by (auto simp: check_evaluation_def bindA_eq_Inr)
  show ?thesis
  proof (cases q)
    case None
    with q(1) have "\<exists>x. st_evidence S c w = (Inr x, w')"
      by (auto simp: evidenceRejection_def split: prod.splits sum.splits option.splits)
    with q None EligibleEvaluation assms(2) show ?thesis by simp
  next
    case (Some r)
    with q(1) have "rc_label r = el_label c" by (simp add: evidenceRejection_label)
    with q Some EligibleEvaluation assms(2) show ?thesis by (simp add: evaluated_as_def)
  qed
qed

lemma check_evaluations_related:
  "check_evaluations S vs w = ((e, vs'), w') \<Longrightarrow> list_all2 (evaluated_as gate profile) ss vs \<Longrightarrow>
     list_all2 (evaluated_as gate profile) ss vs'"
proof (induction vs arbitrary: ss e vs' w)
  case (Cons v vs)
  then obtain s ss' where ss: "ss = s # ss'" "evaluated_as gate profile s v" "list_all2 (evaluated_as gate profile) ss' vs"
    by (auto simp: list_all2_Cons2)
  obtain r w1 where r: "check_evaluation S v w = (r, w1)" by fastforce
  show ?case
  proof (cases r)
    case (Inl e')
    with Cons.prems ss r show ?thesis by auto
  next
    case (Inr v')
    obtain e1 us w2 where "check_evaluations S vs w1 = ((e1, us), w2)" by (metis prod.collapse)
    with Cons Inr r ss check_evaluation_related [OF r [unfolded Inr] ss(2)] show ?thesis by auto
  qed
qed simp

lemma final_evidence_length:
  "final_evidence S vs w = (Inr us, w') \<Longrightarrow> length us = length vs"
  by (induction vs arbitrary: us w) (auto simp: bindA_eq_Inr)

section \<open>Final candidates\<close>

lemma finalize_verified:
  assumes "finalize c replay now = Inr (VerifiedResult v)"
  shows "time_check (el_time c) (el_metadata c) now = Inr () \<and>
    replay = Some (if vr_protected v then ReplayAccepted else ReplayOptional) \<and>
    (vr_protected v \<longleftrightarrow> meta_nonce (el_metadata c) \<noteq> None) \<and>
    vr_label v = el_label c \<and> vr_profile v = el_profile c \<and> vr_identity v = el_identity c \<and>
    vr_claimed v = el_claimed c \<and> vr_components v = sig_components (signature_of_input (el_signature c)) \<and> vr_at v = now \<and>
    vr_reason v = (if vr_protected v then NonceConsumed else NonceAbsentOptional)"
  using assms
  by (auto simp: finalize_def bindE_eq_Inr final_outcome_def split: sum.splits option.splits replay_outcome.splits if_splits)

fun result_label :: "'i candidate_result \<Rightarrow> jsstring" where
  "result_label (VerifiedResult v) = vr_label v"
| "result_label (FailedResult r) = rc_label r"

lemma finalize_label: "finalize c replay now = Inr r \<Longrightarrow> result_label r = el_label c"
  by (cases r)
    (auto dest: finalize_verified simp: finalize_def rejected_eligible_def rejectedCandidate_def
      split: sum.splits option.splits)

lemma final_candidates_label:
  assumes "mapE (final_candidate replay now) (zip (enumerate n vs) us) = Inr rs"
    and "list_all2 (evaluated_as gate profile) ss vs" "list_all2 (evaluated_as gate profile) ss us"
  shows "map result_label rs = map (sig_label \<circ> signature_of_input) ss"
  using assms
proof (induction ss arbitrary: n vs us rs)
  case (Cons s ss)
  then obtain v vs' u us' where l: "vs = v # vs'" "us = u # us'" "evaluated_as gate profile s v" "evaluated_as gate profile s u"
      "list_all2 (evaluated_as gate profile) ss vs'" "list_all2 (evaluated_as gate profile) ss us'"
    by (auto simp: list_all2_Cons1)
  with Cons.prems(1) obtain r rs' where r: "final_candidate replay now ((n, v), u) = Inr r" "rs = r # rs'"
      "mapE (final_candidate replay now) (zip (enumerate (Suc n) vs') us') = Inr rs'"
    by (auto simp: bindE_eq_Inr)
  have "result_label r = sig_label (signature_of_input s)"
    using r(1) l(3,4) by (cases v; cases u) (auto simp: evaluated_as_def dest: finalize_label)
  with Cons.IH [OF r(3) l(5,6)] r(2) show ?case by simp
qed simp

lemma final_candidates_verified:
  assumes "mapE (final_candidate replay now) (zip (enumerate n vs) us) = Inr rs" "VerifiedResult v \<in> set rs"
    and "length us = length vs"
  shows "\<exists>i c u. i < length vs \<and> vs ! i = EligibleEvaluation c \<and> us ! i = EligibleEvaluation u \<and>
    finalize c (replay (n + i)) now = Inr (VerifiedResult v)"
proof -
  from mapE_set [OF assms(1,2)] obtain x where x: "x \<in> set (zip (enumerate n vs) us)"
      "final_candidate replay now x = Inr (VerifiedResult v)" by blast
  then obtain i where i: "i < length vs" "x = ((n + i, vs ! i), us ! i)"
    using assms(3) by (auto simp: in_set_zip nth_enumerate_eq)
  with x(2) show ?thesis by (cases "vs ! i"; cases "us ! i") auto
qed

section \<open>Aggregation\<close>

lemma aggregate_verified:
  assumes "aggregate rs rule = Inr (VerifiedRequest reason rs' vs)"
  shows "rs' = rs \<and> vs = List.map_filter verified_part rs \<and> vs \<noteq> [] \<and>
    (rule = AllCandidates \<longrightarrow> (\<forall>r \<in> set rs. \<exists>v. r = VerifiedResult v)) \<and>
    reason = (if list_all vr_protected vs then NonceConsumed else NonceAbsentOptional)"
proof -
  have "List.map_filter failed_part rs = [] \<longleftrightarrow> (\<forall>r \<in> set rs. \<exists>v. r = VerifiedResult v)"
    by (induction rs) (auto simp: List.map_filter_simps split: option.splits elim: failed_part.elims)
  with assms show ?thesis
    by (cases rule) (auto simp: aggregate_def Let_def split: if_splits list.splits)
qed

lemma verified_part_member: "v \<in> set (List.map_filter verified_part rs) \<longleftrightarrow> VerifiedResult v \<in> set rs"
  by (induction rs) (auto simp: List.map_filter_simps elim: verified_part.elims split: option.splits)

end
