(* ===== verification/EngineMoves.thy ===== *)
theory EngineMoves
  imports EngineLemmas
begin

text \<open>
  How the engine moves the state: the locale \<open>moving_client\<close> is an environment every operation of
  which, the other clients' included, respects a preorder of the states; in it every verification
  does. The locale \<open>moving_strategy\<close> adds a strategy, and says of a candidate that a result calls
  verified where it was evaluated and where its evidence was checked last.
\<close>

section \<open>A verified run\<close>

lemma verify_evaluated_verified:
  assumes "verify_evaluated cfg E S selected h vs w = (Inr (VerifiedRequest reason rs verified), w')"
  obtains vs' w0 replay w1 checked w2 now where
    "\<not> (ec_mode cfg = ExactlyOne \<and> 1 < length selected)"
    "check_evaluations S vs w = ((None, vs'), w0)"
    "consumeCandidateGroups E (ec_scope cfg) (st_thumbprint S) h (eligible_of vs') w0 = (Inr replay, w1)"
    "final_evidence S vs' w1 = (Inr checked, w2)"
    "clocked E (port_complete (env_port E) h) w2 = (Inr now, w')"
    "mapE (final_candidate replay now) (zip (enumerate 0 vs') checked) = Inr rs"
    "aggregate rs (ec_aggregate cfg) = Inr (VerifiedRequest reason rs verified)"
proof -
  have single: "\<not> (ec_mode cfg = ExactlyOne \<and> 1 < length selected)"
    using assms by (auto simp: verify_evaluated_def finish_ambiguous_def split: prod.splits sum.splits)
  then obtain vs' w0 where vs': "check_evaluations S vs w = ((None, vs'), w0)"
      "finish_candidates cfg E S h vs' w0 = (Inr (VerifiedRequest reason rs verified), w')"
    using assms by (auto simp: verify_evaluated_def split: prod.splits option.splits sum.splits)
  then obtain replay w1 checked w2 now rs' where f:
      "consumeCandidateGroups E (ec_scope cfg) (st_thumbprint S) h (eligible_of vs') w0 = (Inr replay, w1)"
      "final_evidence S vs' w1 = (Inr checked, w2)"
      "clocked E (port_complete (env_port E) h) w2 = (Inr now, w')"
      "mapE (final_candidate replay now) (zip (enumerate 0 vs') checked) = Inr rs'"
      "aggregate rs' (ec_aggregate cfg) = Inr (VerifiedRequest reason rs verified)"
    by (auto simp: finish_candidates_def bindA_eq_Inr bindE_eq_Inr)
  have "rs = rs'" using aggregate_verified [OF f(5)] by simp
  with single vs' f that show ?thesis by blast
qed

lemma verify_verified:
  assumes "verify cfg E S input w = (Inr (VerifiedRequest reason rs verified), w')"
  obtains signatures selected h w1 agent vs w2 w3 where
    "selectWebBotAuthCandidates (request_headers input) (core_options (ec_core cfg))
       (JsInt (int (maxCandidates (ec_limits cfg)))) = Inr (Selected signatures selected)"
    "clocked E (port_begin (env_port E)) w = (Inr h, w1)"
    "parseAgentHeader input (ec_core cfg) = Inr agent"
    "evaluate_all E S input agent h selected [] w1 = ((None, vs), w2)"
    "verify_evaluated cfg E S selected h vs w2 = (Inr (VerifiedRequest reason rs verified), w3)"
    "port_finish (env_port E) h (w_state w3) = (Inr (), w_state w')" "w_tick w' = w_tick w3"
proof -
  obtain request selection where sel: "verify_selection cfg input = Inr (request, selection)"
    using assms by (auto simp: verify_def verify_caught_def split: sum.splits option.splits)
  then have s: "request = input" "selectWebBotAuthCandidates (request_headers input) (core_options (ec_core cfg))
      (JsInt (int (maxCandidates (ec_limits cfg)))) = Inr selection"
    by (auto simp: verify_selection_def snapshotVerificationRequest_def bindE_eq_Inr split: if_splits)
  obtain signatures selected where selection: "selection = Selected signatures selected"
    using assms sel by (cases selection) (auto simp: verify_def)
  have caught: "verify_caught cfg selected failure \<noteq> Inr (VerifiedRequest reason rs verified)" for failure
    by (auto simp: verify_caught_def split: prod.splits option.splits)
  obtain h w1 where h: "clocked E (port_begin (env_port E)) w = (Inr h, w1)"
      "finally_finish E h (case verify_leased cfg E S input selected h w1 of
         (Inl failure, w'') \<Rightarrow> (verify_caught cfg selected failure, w'') | (Inr r, w'') \<Rightarrow> (Inr r, w''))
       = (Inr (VerifiedRequest reason rs verified), w')"
    using assms sel s selection caught by (auto simp: verify_def split: prod.splits sum.splits)
  obtain w3 where l: "verify_leased cfg E S input selected h w1 = (Inr (VerifiedRequest reason rs verified), w3)"
      "port_finish (env_port E) h (w_state w3) = (Inr (), w_state w')" "w_tick w' = w_tick w3"
    using h(2) caught by (auto simp: finally_finish_def split: prod.splits sum.splits)
  then obtain agent vs w2 where "parseAgentHeader input (ec_core cfg) = Inr agent"
      "evaluate_all E S input agent h selected [] w1 = ((None, vs), w2)"
      "verify_evaluated cfg E S selected h vs w2 = (Inr (VerifiedRequest reason rs verified), w3)"
    by (auto simp: verify_leased_def split: sum.splits prod.splits option.splits)
  with s selection h(1) l(2,3) that show ?thesis by blast
qed

section \<open>The gates\<close>

lemma selection_filter:
  "foldE (push_candidate n) cs ss = Inr cs' \<Longrightarrow> length cs \<le> n \<Longrightarrow> cs' = cs @ filter web_bot_auth ss \<and> length cs' \<le> n"
proof (induction ss arbitrary: cs)
  case (Cons s ss)
  then obtain cs1 where cs1: "push_candidate n cs s = Inr cs1" "foldE (push_candidate n) cs1 ss = Inr cs'"
    by (auto simp: bindE_eq_Inr)
  show ?case
  proof (cases "web_bot_auth s")
    case True
    with cs1(1) have "length cs < n" "cs1 = cs @ [s]" by (auto simp: push_candidate_def split: if_splits)
    with Cons.IH [OF cs1(2)] True show ?thesis by auto
  next
    case False
    with cs1(1) Cons.IH [OF cs1(2)] Cons.prems(2) show ?thesis by (auto simp: push_candidate_def)
  qed
qed simp

lemma selection_candidates:
  assumes "selectWebBotAuthCandidates headers options (JsInt (int n)) = Inr (Selected signatures selected)"
  shows "selected = filter web_bot_auth signatures \<and> selected \<noteq> [] \<and> length selected \<le> n"
proof -
  have "foldE (push_candidate n) [] signatures = Inr selected" "selected \<noteq> []"
    using assms by (auto simp: selectWebBotAuthCandidates_def bindE_eq_Inr split: if_splits)
  with selection_filter [OF this(1)] show ?thesis by auto
qed

section \<open>Moving clients\<close>

locale moving_client =
  fixes E :: "'s environment" and moves :: "'s \<Rightarrow> 's \<Rightarrow> bool"
  assumes refl: "moves s s"
    and trans: "moves s s' \<Longrightarrow> moves s' s'' \<Longrightarrow> moves s s''"
    and others: "moves s (env_others E n s)"
    and begin_moves: "moves s (snd (port_begin (env_port E) clocks s))"
    and now_moves: "moves s (snd (port_now (env_port E) h clocks s))"
    and finish_moves: "moves s (snd (port_finish (env_port E) h s))"
    and complete_moves: "moves s (snd (port_complete (env_port E) h clocks s))"
    and dispatch_moves: "moves s (snd (port_dispatch (env_port E) h input clocks s))"
    and settle_moves: "moves s (snd (port_settle (env_port E) h result clocks s))"
begin

definition moving :: "('s, 'a) action \<Rightarrow> bool" where
  "moving m \<longleftrightarrow> (\<forall>w. moves (w_state w) (w_state (snd (m w))))"

lemma movingD: "moving m \<Longrightarrow> m w = (r, w') \<Longrightarrow> moves (w_state w) (w_state w')"
  by (metis moving_def snd_conv)

lemma moving_Pair [intro]: "moving (Pair r)"
  by (simp add: moving_def refl)

lemma moving_bindA [intro]: "moving m \<Longrightarrow> (\<And>x. moving (f x)) \<Longrightarrow> moving (bindA m f)"
  unfolding moving_def bindA_def
  by (auto split: prod.split sum.split) (metis snd_conv trans)+

lemma moving_awaiting [intro]: "moving m \<Longrightarrow> moving (awaiting E m)"
  unfolding moving_def awaiting_def suspend_def
  by (auto split: prod.split) (metis others snd_conv trans)

lemma moving_clocked: "(\<And>clocks s. moves s (snd (f clocks s))) \<Longrightarrow> moving (clocked E f)"
  by (simp add: moving_def clocked_def case_prod_beta)

lemma moving_ports [intro]:
  "moving (clocked E (port_begin (env_port E)))" "moving (clocked E (port_now (env_port E) h))"
  "moving (clocked E (port_complete (env_port E) h))" "moving (clocked E (port_dispatch (env_port E) h input))"
  "moving (clocked E (port_settle (env_port E) h result))"
  by (rule moving_clocked, rule begin_moves now_moves complete_moves dispatch_moves settle_moves)+

lemma moving_consume_port [intro]: "moving (consume_port E h prepare)"
  unfolding consume_port_def by blast

lemma moving_consume_group [intro]: "moving (consume_group E scope thumbprint h members outcomes)"
proof -
  have "moving (bindA (consume_port E h (group_request scope thumbprint members)) (\<lambda>out.
      bindA (clocked E (port_now (env_port E) h)) (\<lambda>now. Pair (Inr (g out now)))))" for g :: "store_outcome \<Rightarrow> int \<Rightarrow> replay_outcomes"
    by blast
  then have "moves (w_state w) (w_state (snd (bindA (consume_port E h (group_request scope thumbprint members)) (\<lambda>out.
      bindA (clocked E (port_now (env_port E) h)) (\<lambda>now. Pair (Inr (g out now)))) w)))" for g :: "store_outcome \<Rightarrow> int \<Rightarrow> replay_outcomes" and w
    by (simp add: moving_def)
  then show ?thesis
    unfolding moving_def consume_group_def Let_def
    by (auto split: prod.split sum.split option.split) (metis snd_conv)+
qed

lemma moving_consume_groups: "moving (consume_groups E scope thumbprint h gs outcomes)"
proof (induction gs arbitrary: outcomes)
  case (Cons g gs)
  obtain k members where "g = (k, members)" by (cases g)
  with Cons show ?case by auto
qed auto

lemma moving_evaluate_all:
  assumes "\<And>s. moving (st_evaluate S request s agent h)" "evaluate_all E S request agent h selected vs w = (r, w')"
  shows "moves (w_state w) (w_state w')"
  using assms(2)
proof (induction selected arbitrary: vs w)
  case (Cons s selected)
  obtain q w1 where q: "awaiting E (st_evaluate S request s agent h) w = (q, w1)" by fastforce
  then have "moves (w_state w) (w_state w1)" using movingD moving_awaiting assms(1) by blast
  moreover have "moves (w_state w1) (w_state w')"
  proof (cases q)
    case (Inl e)
    with Cons.prems q show ?thesis by (auto simp: refl)
  next
    case (Inr v)
    with Cons.prems q show ?thesis by (intro Cons.IH [of "vs @ [v]"]) simp
  qed
  ultimately show ?case by (rule trans)
qed (auto simp: refl)

lemma moving_check_evaluation:
  assumes "\<And>c. moving (st_evidence S c)"
  shows "moving (check_evaluation S v)"
proof -
  have "moving (evidenceRejection S c)" for c
    unfolding moving_def evidenceRejection_def using assms
    by (auto simp: moving_def split: prod.split sum.split option.split) (metis snd_conv)+
  then show ?thesis by (cases v) (auto simp: check_evaluation_def)
qed

lemma moving_check_evaluations:
  assumes "\<And>c. moving (st_evidence S c)" "check_evaluations S vs w = (r, w')"
  shows "moves (w_state w) (w_state w')"
  using assms(2)
proof (induction vs arbitrary: w r w')
  case (Cons v vs)
  obtain q w1 where q: "check_evaluation S v w = (q, w1)" by fastforce
  then have "moves (w_state w) (w_state w1)" using movingD moving_check_evaluation assms(1) by blast
  moreover have "moves (w_state w1) (w_state w')"
  proof (cases q)
    case (Inl e)
    with Cons.prems q show ?thesis by (auto simp: refl)
  next
    case (Inr u)
    with Cons.prems q show ?thesis by (auto split: prod.splits intro: Cons.IH)
  qed
  ultimately show ?case by (rule trans)
qed (auto simp: refl)

lemma moving_final_evidence: "(\<And>c. moving (st_evidence S c)) \<Longrightarrow> moving (final_evidence S vs)"
  by (induction vs) (auto intro!: moving_check_evaluation)

end

section \<open>Verified candidates of a strategy\<close>

text \<open>A strategy whose evidence checks leave something of the state as it is, and take at most one reading.\<close>

locale evidence_strategy = verification_strategy S gate
  for S :: "('s, 'i) strategy" and gate :: "request_parts \<Rightarrow> agent_header \<Rightarrow> parsed_signature \<Rightarrow> 'i eligible_candidate \<Rightarrow> bool" +
  fixes same :: "'s \<Rightarrow> 's \<Rightarrow> bool"
  assumes same_refl: "same s s"
    and same_trans: "same s s' \<Longrightarrow> same s' s'' \<Longrightarrow> same s s''"
    and evidence_same: "st_evidence S c w = (r, w') \<Longrightarrow> same (w_state w) (w_state w')"
    and evidence_tick: "st_evidence S c w = (r, w') \<Longrightarrow> w_tick w \<le> w_tick w' \<and> w_tick w' \<le> Suc (w_tick w)"
begin

lemma check_evaluation_tick: "check_evaluation S v w = (r, w') \<Longrightarrow> w_tick w \<le> w_tick w' \<and> w_tick w' \<le> Suc (w_tick w)"
  by (cases v)
    (auto simp: check_evaluation_def evidenceRejection_def bindA_def dest!: evidence_tick
      split: prod.splits sum.splits option.splits)

lemma final_evidence_tick:
  "final_evidence S vs w = (Inr us, w') \<Longrightarrow> w_tick w \<le> w_tick w' \<and> w_tick w' \<le> w_tick w + length vs"
proof (induction vs arbitrary: us w)
  case (Cons v vs)
  then obtain u w1 us' where "check_evaluation S v w = (Inr u, w1)" "final_evidence S vs w1 = (Inr us', w')"
    by (auto simp: bindA_eq_Inr)
  with Cons.IH check_evaluation_tick show ?case by fastforce
qed simp

lemma check_evaluation_same: "check_evaluation S v w = (r, w') \<Longrightarrow> same (w_state w) (w_state w')"
  by (cases v)
    (auto simp: check_evaluation_def evidenceRejection_def bindA_def same_refl dest!: evidence_same
      split: prod.splits sum.splits option.splits)

lemma final_evidence_same: "final_evidence S vs w = (Inr us, w') \<Longrightarrow> same (w_state w) (w_state w')"
proof (induction vs arbitrary: us w)
  case (Cons v vs)
  then obtain u w1 us' where "check_evaluation S v w = (Inr u, w1)" "final_evidence S vs w1 = (Inr us', w')"
    by (auto simp: bindA_eq_Inr)
  with Cons.IH check_evaluation_same same_trans show ?case by blast
qed (simp add: same_refl)

end

text \<open>A strategy in an environment: every evaluation and every check of evidence moves the state.\<close>

locale moving_strategy = moving_client E moves + evidence_strategy S gate same
  for E :: "'s environment" and moves :: "'s \<Rightarrow> 's \<Rightarrow> bool" and S :: "('s, 'i) strategy"
    and gate :: "request_parts \<Rightarrow> agent_header \<Rightarrow> parsed_signature \<Rightarrow> 'i eligible_candidate \<Rightarrow> bool"
    and same :: "'s \<Rightarrow> 's \<Rightarrow> bool" +
  assumes evaluate_moves: "moving (st_evaluate S request s agent h)"
    and evidence_moves: "moving (st_evidence S c)"
begin

lemma evaluate_all_nth:
  "evaluate_all E S request agent h selected vs w = ((None, vs @ us), w') \<Longrightarrow> i < length us \<Longrightarrow> us ! i = EligibleEvaluation c \<Longrightarrow>
     \<exists>u u'. st_evaluate S request (selected ! i) agent h u = (Inr (EligibleEvaluation c), u') \<and>
       moves (w_state w) (w_state u) \<and> moves (w_state u') (w_state w')"
proof (induction selected arbitrary: vs us w i)
  case (Cons s selected)
  obtain q w1 where q: "awaiting E (st_evaluate S request s agent h) w = (q, w1)" by fastforce
  with Cons.prems(1) obtain v where v: "q = Inr v" "evaluate_all E S request agent h selected (vs @ [v]) w1 = ((None, vs @ us), w')"
    by (cases q) auto
  then obtain us' where us: "us = v # us'"
    using evaluate_all_related [OF v(2)] by auto
  show ?case
  proof (cases i)
    case 0
    obtain w0 where w0: "st_evaluate S request s agent h w = (Inr v, w0)" "w1 = suspend E w0"
      using q v(1) by (auto simp: awaiting_eq)
    have "moves (w_state w0) (w_state w1)" using others by (simp add: w0(2) suspend_def)
    then have "moves (w_state w0) (w_state w')"
      using moving_evaluate_all [OF evaluate_moves v(2)] by (rule trans)
    with w0(1) 0 us Cons.prems(3) refl show ?thesis by auto
  next
    case (Suc j)
    have "moves (w_state w) (w_state w1)" using movingD [OF moving_awaiting [OF evaluate_moves] q] .
    moreover have "evaluate_all E S request agent h selected (vs @ [v]) w1 = ((None, (vs @ [v]) @ us'), w')"
      using v(2) us by simp
    from Cons.IH [OF this, of j] Cons.prems(2,3) us Suc obtain u u' where
      "st_evaluate S request (selected ! j) agent h u = (Inr (EligibleEvaluation c), u')"
      "moves (w_state w1) (w_state u)" "moves (w_state u') (w_state w')" by auto
    ultimately have "moves (w_state w) (w_state u)" using trans by blast
    with \<open>st_evaluate S request (selected ! j) agent h u = _\<close> \<open>moves (w_state u') (w_state w')\<close> Suc show ?thesis by auto
  qed
qed simp

lemma check_evaluation_eligible:
  "check_evaluation S v w = (Inr (EligibleEvaluation c), w') \<Longrightarrow> v = EligibleEvaluation c"
  by (cases v) (auto simp: check_evaluation_def bindA_eq_Inr split: option.splits)

lemma check_evaluations_nth:
  "check_evaluations S vs w = ((None, vs'), w') \<Longrightarrow> i < length vs' \<Longrightarrow> vs' ! i = EligibleEvaluation c \<Longrightarrow>
     i < length vs \<and> vs ! i = EligibleEvaluation c"
proof (induction vs arbitrary: vs' w i)
  case (Cons v vs)
  then obtain u w1 us where "check_evaluation S v w = (Inr u, w1)" "check_evaluations S vs w1 = ((None, us), w')" "vs' = u # us"
    by (auto split: prod.splits sum.splits)
  with Cons show ?case by (cases i) (auto dest: check_evaluation_eligible)
qed simp

lemma check_evaluations_length:
  "check_evaluations S vs w = ((None, vs'), w') \<Longrightarrow> length vs' = length vs"
  by (induction vs arbitrary: vs' w) (auto split: prod.splits sum.splits)

lemma final_evidence_nth:
  "final_evidence S vs w = (Inr us, w') \<Longrightarrow> i < length vs \<Longrightarrow> vs ! i = EligibleEvaluation c \<Longrightarrow>
     us ! i = EligibleEvaluation d \<Longrightarrow>
     \<exists>u x u'. moves (w_state w) (w_state u) \<and> st_evidence S c u = (Inr x, u') \<and> same (w_state u') (w_state w') \<and>
       w_tick u \<le> w_tick w' \<and> w_tick w' \<le> w_tick u + length vs"
proof (induction vs arbitrary: us w i)
  case (Cons v vs)
  then obtain u w1 us' where step: "check_evaluation S v w = (Inr u, w1)" "final_evidence S vs w1 = (Inr us', w')" "us = u # us'"
    by (auto simp: bindA_eq_Inr)
  show ?case
  proof (cases i)
    case 0
    with Cons.prems step have "\<exists>x. st_evidence S c w = (Inr x, w1)"
      by (auto simp: check_evaluation_def evidenceRejection_def bindA_eq_Inr split: prod.splits sum.splits option.splits)
    moreover have "w_tick w \<le> w_tick w' \<and> w_tick w' \<le> w_tick w + length (v # vs)"
      by (rule final_evidence_tick [OF Cons.prems(1)])
    ultimately show ?thesis using final_evidence_same [OF step(2)] refl by blast
  next
    case (Suc j)
    have "moves (w_state w) (w_state w1)" using movingD [OF moving_check_evaluation [OF evidence_moves] step(1)] .
    moreover obtain u x u' where "moves (w_state w1) (w_state u)" "st_evidence S c u = (Inr x, u')" "same (w_state u') (w_state w')"
        "w_tick u \<le> w_tick w'" "w_tick w' \<le> w_tick u + length (v # vs)"
      using Cons.IH [OF step(2), of j] Cons.prems step(3) Suc by auto
    ultimately show ?thesis using trans by blast
  qed
qed simp

lemma moving_consume_candidates: "moving (consumeCandidateGroups E scope thumbprint h cs)"
  by (cases "candidate_groups scope thumbprint cs")
    (simp add: consumeCandidateGroups_def moving_awaiting moving_consume_groups)

text \<open>A candidate that a result calls verified: the signature it belongs to, its evaluation, and its
  last evidence check, after which only the checks of the other candidates and the controller are called.\<close>

lemma verified_candidate:
  assumes "verify cfg E S input w = (Inr (VerifiedRequest reason rs verified), w')" "v \<in> set verified"
  obtains signatures selected agent s c h a a' u x u' replay now w1 w2 where
    "selectWebBotAuthCandidates (request_headers input) (core_options (ec_core cfg))
      (JsInt (int (maxCandidates (ec_limits cfg)))) = Inr (Selected signatures selected)"
    "s \<in> set signatures" "web_bot_auth s" "parseAgentHeader input (ec_core cfg) = Inr agent"
    "gate input agent s c" "el_signature c = s" "el_profile c = header_profile agent"
    "el_label c = sig_label (signature_of_input s)" "finalize c replay now = Inr (VerifiedResult v)"
    "moves (w_state w) (w_state a)" "st_evaluate S input s agent h a = (Inr (EligibleEvaluation c), a')"
    "moves (w_state a') (w_state u)" "st_evidence S c u = (Inr x, u')" "same (w_state u') (w_state w1)"
    "clocked E (port_complete (env_port E) h) w1 = (Inr now, w2)"
    "port_finish (env_port E) h (w_state w2) = (Inr (), w_state w')"
    "w_tick u < w_tick w'" "w_tick w' \<le> w_tick u + length selected + 1"
proof -
  obtain signatures selected h w1 agent vs w2 w3 where
    sel: "selectWebBotAuthCandidates (request_headers input) (core_options (ec_core cfg))
       (JsInt (int (maxCandidates (ec_limits cfg)))) = Inr (Selected signatures selected)"
    and b: "clocked E (port_begin (env_port E)) w = (Inr h, w1)"
    and agent: "parseAgentHeader input (ec_core cfg) = Inr agent"
    and ev: "evaluate_all E S input agent h selected [] w1 = ((None, vs), w2)"
    and fin: "verify_evaluated cfg E S selected h vs w2 = (Inr (VerifiedRequest reason rs verified), w3)"
    and retired: "port_finish (env_port E) h (w_state w3) = (Inr (), w_state w')" "w_tick w' = w_tick w3"
    by (rule verify_verified [OF assms(1)])
  obtain vs' w0 replay w4 checked w5 now where
    "\<not> (ec_mode cfg = ExactlyOne \<and> 1 < length selected)"
    and ch: "check_evaluations S vs w2 = ((None, vs'), w0)"
    and groups: "consumeCandidateGroups E (ec_scope cfg) (st_thumbprint S) h (eligible_of vs') w0 = (Inr replay, w4)"
    and ch': "final_evidence S vs' w4 = (Inr checked, w5)"
    and cp: "clocked E (port_complete (env_port E) h) w5 = (Inr now, w3)"
    and fc: "mapE (final_candidate replay now) (zip (enumerate 0 vs') checked) = Inr rs"
    and ag: "aggregate rs (ec_aggregate cfg) = Inr (VerifiedRequest reason rs verified)"
    by (rule verify_evaluated_verified [OF fin])
  have "VerifiedResult v \<in> set rs"
    using assms(2) aggregate_verified [OF ag] verified_part_member by blast
  from final_candidates_verified [OF fc this final_evidence_length [OF ch']] obtain i c d where
    c: "i < length vs'" "vs' ! i = EligibleEvaluation c" "checked ! i = EligibleEvaluation d"
      "finalize c (replay i) now = Inr (VerifiedResult v)"
    by auto
  note c0 = check_evaluations_nth [OF ch c(1,2)]
  from evaluate_all_related [OF ev]
  have "list_all2 (evaluated_as (gate input agent) (header_profile agent)) selected vs" by auto
  with c0 have i: "i < length selected" and "evaluated_as (gate input agent) (header_profile agent) (selected ! i) (vs ! i)"
    by (auto simp: list_all2_conv_all_nth)
  then have g: "gate input agent (selected ! i) c" "el_signature c = selected ! i"
      "el_profile c = header_profile agent" "el_label c = sig_label (signature_of_input (selected ! i))"
    using c0 by (simp_all add: evaluated_as_def)
  have s: "selected ! i \<in> set signatures" "web_bot_auth (selected ! i)"
    using selection_candidates [OF sel] nth_mem [OF i] by auto
  obtain a a' where a: "st_evaluate S input (selected ! i) agent h a = (Inr (EligibleEvaluation c), a')"
      "moves (w_state w1) (w_state a)" "moves (w_state a') (w_state w2)"
    using evaluate_all_nth [of input agent h selected "[]" w1 vs w2 i c] ev c0 by auto
  obtain u x u' where e: "moves (w_state w4) (w_state u)" "st_evidence S c u = (Inr x, u')" "same (w_state u') (w_state w5)"
      "w_tick u \<le> w_tick w5" "w_tick w5 \<le> w_tick u + length vs'"
    using final_evidence_nth [OF ch' c(1,2,3)] by blast
  have "w_tick w3 = Suc (w_tick w5)" using cp by (auto simp: clocked_def Let_def split: prod.splits)
  moreover have "length vs' = length selected"
    using check_evaluations_length [OF ch] evaluate_all_related [OF ev] by (auto simp: list_all2_lengthD)
  ultimately have tick: "w_tick u < w_tick w'" "w_tick w' \<le> w_tick u + length selected + 1"
    using e(4,5) retired(2) by simp_all
  have "moves (w_state w) (w_state w1)" using movingD [OF moving_ports(1) b] .
  then have m1: "moves (w_state w) (w_state a)" using a(2) by (rule trans)
  have "moves (w_state w2) (w_state w0)" by (rule moving_check_evaluations [OF evidence_moves ch])
  moreover have "moves (w_state w0) (w_state w4)" using movingD [OF moving_consume_candidates groups] .
  ultimately have m2: "moves (w_state a') (w_state u)" using a(3) e(1) trans by blast
  show ?thesis by (rule that [OF sel s agent g c(4) m1 a(1) m2 e(2,3) cp retired(1) tick])
qed

end

end
