(* ===== verification/VerificationSafety.thy ===== *)
theory VerificationSafety
  imports EngineMoves CoreSafety
begin

text \<open>
  What a verified request means: which signature of it was verified against which trusted key, at
  which second, and under which policy.
\<close>

definition agent_covered :: "signature_input \<Rightarrow> wba_profile \<Rightarrow> bool" where
  "agent_covered i profile \<longleftrightarrow>
     (\<exists>c \<in> set (sig_components i). if profile = WgProtocol00 then matchingAgentMember c (sig_label i)
       else bareComponent c ''signature-agent'')"

text \<open>What the gates, the cryptography and the final checks establish of a verified candidate.\<close>

definition authentic ::
    "'k verifier_platform \<Rightarrow> 'k verification_configuration \<Rightarrow> request_parts \<Rightarrow> parsed_signature
       \<Rightarrow> identity_proposal verified_candidate \<Rightarrow> bool" where
  "authentic P cfg request s v \<longleftrightarrow>
     (let i = signature_of_input s; profile = vr_profile v; policy = vc_profiles cfg profile;
          keyid = identity_thumbprint (vr_identity v) in
      vr_label v = sig_label i \<and> vr_components v = sig_components i \<and> profile \<in> set (vc_allowed cfg) \<and>
      (\<exists>c \<in> set (sig_components i). bareComponent c ''@method'') \<and>
      (\<exists>c \<in> set (sig_components i). bareComponent c ''@target-uri'') \<and>
      agent_covered i profile \<and>
      getParameter (sig_parameters i) (lit ''keyid'') = Some (SfString keyid) \<and>
      (\<exists>k material base. lookup_key (vc_jwks cfg) keyid = Inr k \<and> requireKey (lk_public k) PublicKey = Inr material \<and>
         (lk_known_test k \<longrightarrow> vc_allowTestKeys cfg) \<and>
         createSignatureBase (vp_core P) (RequestMessage request) i (crypto_options cfg profile) = Inr base \<and>
         vp_verify P material (base_bytes base) (signature_bytes s)) \<and>
      (\<exists>c e. getParameter (sig_parameters i) (lit ''created'') = Some (Integer c) \<and>
         getParameter (sig_parameters i) (lit ''expires'') = Some (Integer e) \<and>
         in_window (profile_time policy) c e (vr_at v)) \<and>
      (vr_protected v \<longleftrightarrow> getParameter (sig_parameters i) (lit ''nonce'') \<noteq> None) \<and>
      (profile_nonce policy = NonceRequiredPolicy \<longrightarrow> vr_protected v) \<and>
      (vc_requireBinding cfg \<longrightarrow> (\<exists>b \<in> set (binding_entries (vc_bindings cfg)). binding_thumbprint b = keyid \<and>
         vr_identity v = DirectoryUrl keyid (binding_origin b) (binding_origin b @ directory_path))))"

lemma coverage_Inr:
  "assertRequiredCoverage i profile = Inr () \<Longrightarrow>
     (\<exists>c \<in> set (sig_components i). bareComponent c ''@method'') \<and>
     (\<exists>c \<in> set (sig_components i). bareComponent c ''@target-uri'') \<and> agent_covered i profile"
  by (auto simp: assertRequiredCoverage_def Let_def agent_covered_def list_ex_iff split: if_splits)

lemma metadata_Inr:
  assumes "readCandidateMetadata ps policy (JsInt (int n)) = Inr m"
  shows "getParameter ps (lit ''created'') = Some (Integer (meta_created m)) \<and>
    getParameter ps (lit ''expires'') = Some (Integer (meta_expires m)) \<and>
    getParameter ps (lit ''keyid'') = Some (SfString (meta_keyid m)) \<and>
    (meta_nonce m = None \<longleftrightarrow> getParameter ps (lit ''nonce'') = None) \<and>
    (policy = NonceRequiredPolicy \<longrightarrow> meta_nonce m \<noteq> None)"
proof -
  obtain created expires keyid where ps: "getParameter ps (lit ''created'') = Some created"
      "getParameter ps (lit ''expires'') = Some expires" "getParameter ps (lit ''keyid'') = Some keyid"
    using assms by (auto simp: readCandidateMetadata_def simp del: lit_Cons split: if_splits option.splits)
  obtain c e k where v: "created = Integer c" "expires = Integer e" "keyid = SfString k"
    using assms ps
    by (cases created; cases expires; cases keyid) (auto simp: readCandidateMetadata_def simp del: lit_Cons split: if_splits)
  have opt: "optional_string ps name = Inr x \<Longrightarrow> x = None \<longleftrightarrow> getParameter ps (lit name) = None" for name x
    by (auto simp: optional_string_def simp del: lit_Cons split: option.splits bare_item.splits)
  have key: "validateProfileKeyId (Some k) = Inr i \<Longrightarrow> i = k" for i
    by (auto simp: validateProfileKeyId_def split: if_splits)
  obtain i alg nonce where b: "validateProfileKeyId (Some k) = Inr i" "optional_string ps ''nonce'' = Inr nonce"
      "nonce_check policy n nonce = Inr ()"
      "m = \<lparr>meta_created = c, meta_expires = e, meta_keyid = i, meta_algorithm = alg, meta_nonce = nonce\<rparr>"
    using assms ps v by (auto simp: readCandidateMetadata_def bindE_eq_Inr simp del: lit_Cons split: if_splits)
  then show ?thesis
    using ps v key opt by (auto simp: nonce_check_def simp del: lit_Cons split: option.splits if_splits)
qed

lemma proposal_Inr:
  assumes "proposeIdentity parse_url bs t claim require = Inr identity"
  shows "identity_thumbprint identity = t \<and> (require \<longrightarrow> (\<exists>b \<in> set (binding_entries bs). binding_thumbprint b = t \<and>
    identity = DirectoryUrl t (binding_origin b) (binding_origin b @ directory_path)))"
proof -
  have bound: "\<exists>b \<in> set (binding_entries bs). binding_thumbprint b = t \<and>
      identity = DirectoryUrl t (binding_origin b) (binding_origin b @ directory_path)"
    if "bound_identity (binding_entries bs) t x = Inr identity" for x
    using that by (auto simp: bound_identity_def Let_def list_ex_iff split: if_splits)
  show ?thesis
  proof (cases "require")
    case True
    with assms obtain x where "bound_identity (binding_entries bs) t x = Inr identity"
      by (auto simp: proposeIdentity_def bindE_eq_Inr split: if_splits)
    with bound True show ?thesis by fastforce
  next
    case False
    with assms show ?thesis by (auto simp: proposeIdentity_def bindE_eq_Inr split: if_splits)
  qed
qed

lemma identity_Inr:
  assumes "assertSelectedKeyIdentity H export_jwk keyid k = Inr t"
  shows "t = keyid"
proof -
  have "validateProfileKeyId (Some keyid) = Inr i \<Longrightarrow> i = keyid" for i
    by (auto simp: validateProfileKeyId_def split: if_splits)
  then show ?thesis
    using assms by (cases k) (auto simp: assertSelectedKeyIdentity_def bindE_eq_Inr simp del: lit_Cons split: if_splits)
qed

definition offline_gate ::
    "'k verifier_platform \<Rightarrow> 'k verification_configuration \<Rightarrow> request_parts \<Rightarrow> agent_header \<Rightarrow> parsed_signature
       \<Rightarrow> identity_proposal eligible_candidate \<Rightarrow> bool" where
  "offline_gate P cfg request agent s c \<longleftrightarrow>
     el_time c = profile_time (vc_profiles cfg (header_profile agent)) \<and>
     (\<exists>claim k j. candidate_gates P cfg s agent = Inr (claim, el_metadata c, k, el_identity c) \<and>
        candidate_crypto P cfg request s (header_profile agent) k = Inr (SignatureValid j))"

lemma crypto_accepted_Inr [simp]: "crypto_accepted v = Inr () \<longleftrightarrow> (\<exists>j. v = SignatureValid j)"
  by (cases v) (simp_all add: crypto_accepted_def)

lemma evaluation_body_Inr:
  assumes "evaluation_body P cfg E request s agent h w = (Inr c, w')"
  shows "offline_gate P cfg request agent s c \<and> el_label c = sig_label (signature_of_input s) \<and>
    el_profile c = header_profile agent \<and> el_signature c = s"
  using assms
  by (auto simp: evaluation_body_def Let_def bindA_eq_Inr awaiting_eq offline_gate_def)

text \<open>Nothing of the state is followed here.\<close>

interpretation offline: moving_strategy E "\<lambda>_ _. True" "offline_strategy P cfg E" "offline_gate P cfg" "\<lambda>_ _. True" for P cfg E
proof unfold_locales
  fix request s agent h w v w'
  assume "st_evaluate (offline_strategy P cfg E) request s agent h w = (Inr v, w')"
  then have "evaluateCandidate P cfg E request s agent h w = (Inr v, w')" by (simp add: offline_strategy_def)
  then show "evaluated_as (offline_gate P cfg request agent) (header_profile agent) s v"
    using evaluation_body_Inr [of P cfg E request s agent h w]
    by (auto simp: evaluateCandidate_def evaluated_as_def rejectedCandidate_def
        split: prod.splits sum.splits candidate_error.splits)
qed (auto simp: moving_client.moving_def moving_client_def offline_strategy_def)

lemma gates_Inr:
  assumes "candidate_gates P cfg s agent = Inr (claim, m, k, identity)"
  shows "header_profile agent \<in> set (vc_allowed cfg) \<and>
    assertRequiredCoverage (signature_of_input s) (header_profile agent) = Inr () \<and>
    readCandidateMetadata (sig_parameters (signature_of_input s)) (profile_nonce (vc_profiles cfg (header_profile agent)))
      (JsInt (int (maxNonceBytes (vc_limits cfg)))) = Inr m \<and>
    lookup_key (vc_jwks cfg) (meta_keyid m) = Inr k \<and> (lk_known_test k \<longrightarrow> vc_allowTestKeys cfg) \<and>
    proposeIdentity (vp_url P) (vc_bindings cfg) (meta_keyid m) (claimedUrl claim) (vc_requireBinding cfg) = Inr identity"
proof -
  have "select_key cfg m' = Inr k' \<Longrightarrow> lookup_key (vc_jwks cfg) (meta_keyid m') = Inr k'" for m' k'
    by (auto simp: select_key_def bindE_eq_Inr Let_def split: sum.splits)
  then show ?thesis
    using assms by (auto simp: candidate_gates_def Let_def bindE_eq_Inr dest!: identity_Inr split: if_splits)
qed

lemma gate_authentic:
  assumes "offline_gate P cfg request agent s c" "el_signature c = s" "el_profile c = header_profile agent"
    and "el_label c = sig_label (signature_of_input s)" "finalize c replay now = Inr (VerifiedResult v)"
  shows "authentic P cfg request s v"
proof -
  obtain claim k j where g: "candidate_gates P cfg s agent = Inr (claim, el_metadata c, k, el_identity c)"
      "candidate_crypto P cfg request s (header_profile agent) k = Inr (SignatureValid j)"
      "el_time c = profile_time (vc_profiles cfg (header_profile agent))"
    using assms(1) unfolding offline_gate_def by blast
  note gate = gates_Inr [OF g(1)]
  note f = finalize_verified [OF assms(5)]
  from gate have m: "readCandidateMetadata (sig_parameters (signature_of_input s))
      (profile_nonce (vc_profiles cfg (header_profile agent))) (JsInt (int (maxNonceBytes (vc_limits cfg)))) = Inr (el_metadata c)"
    by blast
  from gate have id: "proposeIdentity (vp_url P) (vc_bindings cfg) (meta_keyid (el_metadata c)) (claimedUrl claim)
      (vc_requireBinding cfg) = Inr (el_identity c)" by blast
  have t: "in_window (el_time c) (meta_created (el_metadata c)) (meta_expires (el_metadata c)) now"
    using f by (auto simp: time_check_def check_time_eq_Inr)
  obtain material base where v: "requireKey (lk_public k) PublicKey = Inr material"
      "createSignatureBase (vp_core P) (RequestMessage request) (signature_of_input s)
         (crypto_options cfg (header_profile agent)) = Inr base"
      "vp_verify P material (base_bytes base) (signature_bytes s)"
    using g(2) by (auto simp: candidate_crypto_def verify_valid)
  from gate have cov: "assertRequiredCoverage (signature_of_input s) (header_profile agent) = Inr ()"
    and k: "lookup_key (vc_jwks cfg) (meta_keyid (el_metadata c)) = Inr k" "lk_known_test k \<longrightarrow> vc_allowTestKeys cfg"
    and allowed: "header_profile agent \<in> set (vc_allowed cfg)" by blast+
  have fields: "vr_label v = sig_label (signature_of_input s)" "vr_profile v = header_profile agent"
      "vr_identity v = el_identity c" "vr_components v = sig_components (signature_of_input s)" "vr_at v = now"
      "vr_protected v \<longleftrightarrow> meta_nonce (el_metadata c) \<noteq> None"
    using f assms(2-4) by auto
  have keyid: "identity_thumbprint (vr_identity v) = meta_keyid (el_metadata c)"
    using proposal_Inr [OF id] fields(3) by simp
  have key: "\<exists>k material base. lookup_key (vc_jwks cfg) (meta_keyid (el_metadata c)) = Inr k \<and>
      requireKey (lk_public k) PublicKey = Inr material \<and> (lk_known_test k \<longrightarrow> vc_allowTestKeys cfg) \<and>
      createSignatureBase (vp_core P) (RequestMessage request) (signature_of_input s)
        (crypto_options cfg (header_profile agent)) = Inr base \<and>
      vp_verify P material (base_bytes base) (signature_bytes s)"
    using k v by blast
  have params: "getParameter (sig_parameters (signature_of_input s)) (lit ''created'') = Some (Integer (meta_created (el_metadata c)))"
      "getParameter (sig_parameters (signature_of_input s)) (lit ''expires'') = Some (Integer (meta_expires (el_metadata c)))"
      "getParameter (sig_parameters (signature_of_input s)) (lit ''keyid'') = Some (SfString (meta_keyid (el_metadata c)))"
    using metadata_Inr [OF m] by blast+
  have nonce: "vr_protected v \<longleftrightarrow> getParameter (sig_parameters (signature_of_input s)) (lit ''nonce'') \<noteq> None"
      "profile_nonce (vc_profiles cfg (header_profile agent)) = NonceRequiredPolicy \<longrightarrow> vr_protected v"
    using metadata_Inr [OF m] fields(6) by metis+
  show ?thesis
    unfolding authentic_def Let_def keyid
    using coverage_Inr [OF cov] params nonce proposal_Inr [OF id] t key allowed fields(1,2,4,5) g(3)
    by (auto simp: fields(3) simp del: lit_Cons)
qed

text \<open>C1. A verified request is authentic: every candidate the result calls verified belongs to a
  signature of the request tagged for this use, whose label and components it reports; it covers
  the method, the target and the agent; its key is the trusted key its identifier names, with
  which the signature base of this very request was verified; its profile is allowed; it was
  inside its time window at the reported second; it is protected against replay exactly when it
  has a nonce, which only an optional policy lets it omit; and its identity is, where bindings are
  required, a configured one.\<close>

theorem verified_request_authentic:
  assumes "verify_offline P cfg E input w = (Inr (VerifiedRequest reason rs verified), w')" "v \<in> set verified"
  shows "\<exists>signatures selected s agent.
    selectWebBotAuthCandidates (request_headers input) (core_options (vc_core cfg))
      (JsInt (int (maxCandidates (vc_limits cfg)))) = Inr (Selected signatures selected) \<and>
    s \<in> set signatures \<and> web_bot_auth s \<and>
    parseAgentHeader input (vc_core cfg) = Inr agent \<and> vr_profile v = header_profile agent \<and>
    authentic P cfg input s v"
proof -
  from assms(1) have run: "verify (engine_of cfg) E (offline_strategy P cfg E) input w = (Inr (VerifiedRequest reason rs verified), w')"
    by (simp add: verify_offline_def)
  obtain signatures selected agent s c replay now where
    sel: "selectWebBotAuthCandidates (request_headers input) (core_options (ec_core (engine_of cfg)))
      (JsInt (int (maxCandidates (ec_limits (engine_of cfg))))) = Inr (Selected signatures selected)"
    and s: "s \<in> set signatures" "web_bot_auth s" and agent: "parseAgentHeader input (ec_core (engine_of cfg)) = Inr agent"
    and g: "offline_gate P cfg input agent s c" "el_signature c = s" "el_profile c = header_profile agent"
      "el_label c = sig_label (signature_of_input s)" and f: "finalize c replay now = Inr (VerifiedResult v)"
    by (rule offline.verified_candidate [OF run assms(2)])
  have "vr_profile v = header_profile agent" using finalize_verified [OF f] g(3) by simp
  moreover have "authentic P cfg input s v" by (rule gate_authentic [OF g f])
  ultimately show ?thesis using sel s agent by (auto simp: engine_of_def)
qed

end
