(* ===== verification/VerifierSample.thy ===== *)
theory VerifierSample
  imports ProfileCanonical OriginSample VerificationSafety
begin

text \<open>
  One concrete verification. A request carries one signature, tagged for this use, over its method,
  its target and its agent header, by a key of the trusted set; the headers are the canonical texts
  of their values. The lemmas evaluate each gate of the verifier on it.
\<close>

section \<open>The request\<close>

definition agent_item :: item where
  "agent_item = \<lparr>item_bare = SfString sample_origin, item_parameters = []\<rparr>"

definition bare_component :: "string \<Rightarrow> covered_component" where
  "bare_component name = \<lparr>component_name = lit name, component_parameters = []\<rparr>"

definition signed_components :: "covered_component list" where
  "signed_components = [bare_component ''@method'', bare_component ''@target-uri'', bare_component ''signature-agent'']"

definition signed_parameters :: parameters where
  "signed_parameters = [(lit ''created'', Integer 1), (lit ''expires'', Integer 100), (lit ''keyid'', SfString (replicate 43 65)),
     (lit ''nonce'', SfString (lit ''n'')), (lit ''tag'', SfString (lit ''web-bot-auth''))]"

definition signed_input :: signature_input where
  "signed_input = \<lparr>sig_label = lit ''s'', sig_components = signed_components, sig_parameters = signed_parameters\<rparr>"

definition signed_bytes :: "u8 list" where
  "signed_bytes = replicate 64 0"

definition signed_signature :: parsed_signature where
  "signed_signature = \<lparr>signature_of_input = signed_input, signature_bytes = signed_bytes\<rparr>"

definition input_field :: field where
  "input_field = FDictionary [(sig_label signed_input, MInnerList (inner_of signed_input))]"

definition bytes_field :: field where
  "bytes_field = FDictionary [(sig_label signed_input, MItem \<lparr>item_bare = Bytes signed_bytes, item_parameters = []\<rparr>)]"

definition signed_patch :: signature_patch where
  "signed_patch = \<lparr>patch_label = lit ''s'', patch_input = text_field input_field, patch_signature = text_field bytes_field\<rparr>"

definition agent_text :: jsstring where
  "agent_text = text_field (FItem agent_item)"

definition signed_request :: request_parts where
  "signed_request = \<lparr>request_method = lit ''GET'', targetUri = lit ''https://a.b/c?d'', rawRequestTarget = None,
     request_headers = patch_headers signed_patch @ [(lit ''Signature-Agent'', TextValue agent_text)],
     request_version = None\<rparr>"

section \<open>The texts of the headers\<close>

abbreviation default_core :: core_limits where
  "default_core \<equiv> DEFAULT_CORE_LIMITS"

abbreviation default_sf :: limits where
  "default_sf \<equiv> structuredFields DEFAULT_CORE_LIMITS"

lemma safe_default: "safe_core default_core" "safe_limits default_sf"
  using resolve_core_safe [OF resolve_core_default] by (simp_all add: safe_core_def)

lemma own_default: "resolveLimits (sf_options default_sf) = Inr default_sf"
  using safe_default(2) by (rule resolve_own)

lemmas signed_sample = DEFAULT_CORE_LIMITS_def CORE_SF_LIMITS_def max_safe_def max_sf_integer_def within_def
  fits_output_def valid_item_def valid_parameters_def valid_key_def key_first_class_def key_rest_class_def
  lower_alpha_def digit_def printable_def occ_item_def text_item_def text_inner_list_def text_assign_def
  text_entry_def escape_string_def quoted_def show_int_def show_nat.simps inner_of_def component_item_def
  signed_input_def signed_components_def signed_parameters_def bare_component_def

lemma units_signed: "units_field input_field" "units_field bytes_field" "units_item agent_item"
  by (simp_all add: input_field_def bytes_field_def agent_item_def signed_sample units_item_def sample_origin_def)

lemma escape_plain: "list_all (\<lambda>c. c \<noteq> 34 \<and> c \<noteq> 92) t \<Longrightarrow> escape_string t = t"
  by (induction t) (simp_all add: escape_string_def quoted_def)

lemma escape_replicate: "escape_string (replicate n 65) = replicate n 65"
  by (rule escape_plain) (simp add: list_all_iff)

lemma text_lengths:
  "length (text_field input_field) \<le> 200" "length (text_field bytes_field) \<le> 200" "length agent_text \<le> 200"
  by (simp_all add: input_field_def bytes_field_def agent_text_def agent_item_def sample_origin_def signed_bytes_def
      escape_replicate escape_plain length_base64_encode signed_sample del: escape_string_def)

lemma printable_replicate: "list_all printable (replicate 43 65)"
  by (simp add: list_all_iff printable_def)

lemma valid_fields:
  "valid_field default_sf input_field" "valid_field default_sf bytes_field" "valid_field default_sf (FItem agent_item)"
  by (simp_all add: input_field_def bytes_field_def agent_item_def sample_origin_def signed_bytes_def
      printable_replicate signed_sample)

lemma occ_fields: "occ_field input_field = 9" "occ_field bytes_field = 1" "occ_field (FItem agent_item) = 1"
  by (simp_all add: input_field_def bytes_field_def agent_item_def signed_sample)

lemma within_default: "n \<le> 1024 \<Longrightarrow> SfTypes.within default_sf MaxTotalOccurrences n" "n \<le> 16384 \<Longrightarrow> SfTypes.within default_sf MaxOutputBytes n"
    "n \<le> 16384 \<Longrightarrow> n \<le> maxInputBytes default_sf"
  by (simp_all add: signed_sample)

text \<open>Each header value is the serialized form of its value.\<close>

lemma serialized_fields:
  "serialize input_field (sf_options default_sf) = Inr (text_field input_field)"
  "serialize bytes_field (sf_options default_sf) = Inr (text_field bytes_field)"
  "serialize (FItem agent_item) (sf_options default_sf) = Inr agent_text"
  using units_signed valid_fields text_lengths occ_fields within_default
  by (simp_all add: serialize_iff own_default fits_output_def agent_text_def)

lemma check_default: "k \<le> (case n of Signatures \<Rightarrow> 1024 | ComponentsPerSignature \<Rightarrow> 256 | MetadataParameters \<Rightarrow> 256 | _ \<Rightarrow> 16384) \<Longrightarrow>
   checkLimit default_core n k = Inr ()"
  by (rule checkLimit_ok [OF safe_default(1)]) (cases n; simp add: DEFAULT_CORE_LIMITS_def)

lemma inner_signed: "signatureInnerList signed_input default_core = Inr (inner_of signed_input)"
proof -
  have "validateParameters [] default_core = Inr ()"
    by (simp add: validateParameters_Inr DEFAULT_CORE_LIMITS_def max_safe_def)
  then have "mapE (validate_component default_core) signed_components = Inr (map component_item signed_components)"
    by (simp add: signed_components_def bare_component_def validate_component_def Let_def lowercase_def
        to_lower_def is_derived_def isFieldName_def field_name_char_def alpha_def digit_def lower_alpha_def)
  moreover have "checkLimit default_core ComponentsPerSignature (length (sig_components signed_input)) = Inr ()"
    by (rule check_default) (simp add: signed_input_def signed_components_def)
  moreover have "validateParameters (sig_parameters signed_input) default_core = Inr ()"
    by (simp add: validateParameters_Inr signed_input_def signed_parameters_def DEFAULT_CORE_LIMITS_def max_safe_def)
  moreover have "list_all metadata_kind (sig_parameters signed_input)"
    by (simp add: signed_input_def signed_parameters_def)
  moreover have "sig_components signed_input = signed_components" by (simp add: signed_input_def)
  ultimately show ?thesis
    using serialized_fields(1)
    by (simp add: signatureInnerList_def inner_of_def Let_def input_field_def del: lit_Cons checkLimit_Inr)
qed

lemma headers_signed: "signed_headers default_core (sig_label signed_input) (inner_of signed_input) signed_bytes = Inr signed_patch"
proof -
  have "checkLimit default_core SignatureHeaderBytes (length (text_field input_field) + length (text_field bytes_field)) = Inr ()"
    by (rule check_default) (use text_lengths in simp)
  moreover have "sig_label signed_input = lit ''s''" by (simp add: signed_input_def)
  ultimately show ?thesis
    using serialized_fields(1,2)
    by (simp add: signed_headers_def signed_patch_def input_field_def bytes_field_def Let_def del: checkLimit_Inr lit_Cons)
qed

lemma solid_texts: "solid (patch_input signed_patch)" "solid (patch_signature signed_patch)" "solid agent_text"
proof -
  show "solid (patch_input signed_patch)" "solid (patch_signature signed_patch)"
    using solid_entry [OF valid_fields(1) [unfolded input_field_def]] solid_entry [OF valid_fields(2) [unfolded bytes_field_def]]
    by (simp_all add: signed_patch_def input_field_def bytes_field_def)
  have "agent_text = [34] @ sample_origin @ [34]"
    by (simp add: agent_text_def agent_item_def signed_sample escape_plain sample_origin_def)
  show "solid agent_text"
    unfolding \<open>agent_text = _\<close> by (simp add: solid_def sample_origin_def printable_def)
qed

lemma patch_lengths: "length (patch_input signed_patch) \<le> 200" "length (patch_signature signed_patch) \<le> 200"
  using text_lengths by (simp_all add: signed_patch_def)

lemma parsed_patch: "parseSignatureHeaders (patch_headers signed_patch) (core_options default_core) = Inr [signed_signature]"
  unfolding signed_signature_def
  by (rule parse_patch [OF headers_signed inner_signed resolve_core_own [OF safe_default(1)]])
    (use patch_lengths in \<open>simp_all add: DEFAULT_CORE_LIMITS_def CORE_SF_LIMITS_def\<close>)

abbreviation signed_fields :: header_fields where
  "signed_fields \<equiv> request_headers signed_request"

lemma fields_signed:
  "fieldValues signed_fields (lit ''signature-input'') None = Inr [patch_input signed_patch]"
  "fieldValues signed_fields (lit ''signature'') None = Inr [patch_signature signed_patch]"
  "fieldValues signed_fields (lit ''signature-agent'') None = Inr [agent_text]"
  using solid_texts
  by (simp_all add: signed_request_def fieldValues_def patch_headers_def lowercase_def to_lower_def normalizeValue_solid)

lemma validated_patch: "validateHeaders (patch_headers signed_patch) default_core
    = Inr (length (patch_input signed_patch) + length (patch_signature signed_patch) + 32)"
  by (rule validateHeaders_patch [OF solid_texts(1,2) safe_default(1)])
    (use patch_lengths in \<open>simp add: DEFAULT_CORE_LIMITS_def\<close>)

lemma foldE_append: "foldE f s (xs @ ys) = bindE (foldE f s xs) (\<lambda>s. foldE f s ys)"
  by (induction xs arbitrary: s) (simp_all add: bindE_assoc)

lemma validated_fields: "\<exists>n. validateHeaders signed_fields default_core = Inr n"
proof -
  have n: "isFieldName (lit ''Signature-Agent'')"
    by (simp add: isFieldName_def field_name_char_def alpha_def digit_def)
  have "\<exists>m. validate_header default_core k (lit ''Signature-Agent'', TextValue agent_text) = Inr m"
    if "k \<le> 500" for k
    using validate_header_text [OF n solid_ascii [OF solid_texts(3)] safe_default(1), of k] that text_lengths(3)
    by (simp add: DEFAULT_CORE_LIMITS_def)
  from this [of "length (patch_input signed_patch) + length (patch_signature signed_patch) + 32"]
  show ?thesis
    using patch_lengths validated_patch
    by (auto simp: signed_request_def validateHeaders_def foldE_append simp del: lit_Cons)
qed

lemma parsed_fields: "parseSignatureHeaders signed_fields (core_options default_core) = Inr [signed_signature]"
proof -
  have "parseSignatureHeaders signed_fields (core_options default_core)
      = parseSignatureHeaders (patch_headers signed_patch) (core_options default_core)"
    using validated_fields validated_patch fieldValues_patch [OF solid_texts(1,2)] fields_signed
    by (auto simp: parseSignatureHeaders_def resolve_core_own [OF safe_default(1)] simp del: lit_Cons checkLimit_Inr)
  then show ?thesis using parsed_patch by simp
qed

section \<open>Selection\<close>

lemma snapshot_signed: "snapshotVerificationRequest signed_request default_core = Inr signed_request"
proof -
  have "\<exists>n. foldE (snapshot_header default_core) 0 signed_fields = Inr n"
    using patch_lengths text_lengths(3)
    by (simp add: signed_request_def patch_headers_def snapshot_header_def check_default Let_def del: checkLimit_Inr)
  moreover obtain n where "validateHeaders signed_fields default_core = Inr n" using validated_fields by blast
  moreover have "checkLimit default_core TargetUriBytes (length (targetUri signed_request)) = Inr ()"
    "checkLimit default_core SignatureBaseBytes (length (request_method signed_request)) = Inr ()"
    by (simp_all add: check_default signed_request_def del: checkLimit_Inr)
  moreover have "length signed_fields = 3" "rawRequestTarget signed_request = None"
    by (simp_all add: signed_request_def patch_headers_def)
  moreover have "\<not> maxMessageHeaderBytes default_core div 4 < 3" by (simp add: DEFAULT_CORE_LIMITS_def)
  ultimately show ?thesis by (auto simp: snapshotVerificationRequest_def simp del: checkLimit_Inr)
qed

lemma screened_fields: "assertNoSignatureDuplicates signed_fields default_core = Inr ()"
proof -
  have serialized:
    "serialize (FDictionary [(sig_label signed_input, MInnerList (inner_of signed_input))]) (sf_options default_sf)
      = Inr (patch_input signed_patch)"
    "serialize (FDictionary [(sig_label signed_input, MItem \<lparr>item_bare = Bytes signed_bytes, item_parameters = []\<rparr>)])
      (sf_options default_sf) = Inr (patch_signature signed_patch)"
    using serialized_fields(1,2) by (simp_all add: signed_patch_def input_field_def bytes_field_def)
  have "screen_field signed_fields default_core 0 (lit ''signature-input'') = Inr (0 + length (patch_input signed_patch))"
    by (rule screen_field_canonical [OF fields_signed(1) solid_texts(1) safe_default(1) serialized(1)])
      (use units_signed patch_lengths in \<open>simp_all add: input_field_def DEFAULT_CORE_LIMITS_def CORE_SF_LIMITS_def\<close>)
  moreover have "screen_field signed_fields default_core (length (patch_input signed_patch)) (lit ''signature'')
      = Inr (length (patch_input signed_patch) + length (patch_signature signed_patch))"
    by (rule screen_field_canonical [OF fields_signed(2) solid_texts(2) safe_default(1) serialized(2)])
      (use units_signed patch_lengths in \<open>simp_all add: bytes_field_def DEFAULT_CORE_LIMITS_def CORE_SF_LIMITS_def\<close>)
  moreover obtain n where "validateHeaders signed_fields default_core = Inr n" using validated_fields by blast
  ultimately show ?thesis by (simp add: assertNoSignatureDuplicates_def screen_def del: lit_Cons)
qed

lemma tagged_signed: "web_bot_auth signed_signature"
  by (simp add: web_bot_auth_def signed_signature_def signed_input_def signed_parameters_def getParameter_map_of)

lemma selected_signed: "1 \<le> n \<Longrightarrow> n \<le> max_safe \<Longrightarrow>
    selectWebBotAuthCandidates signed_fields (core_options default_core) (JsInt (int n)) =
    Inr (Selected [signed_signature] [signed_signature])"
  using screened_fields parsed_fields resolve_core_own [OF safe_default(1)] tagged_signed
  by (simp add: selectWebBotAuthCandidates_def screen_def push_candidate_def)

lemma agent_signed: "parseAgentHeader signed_request default_core = Inr (CloudflareHeader agent_item)"
proof -
  obtain n where n: "validateHeaders signed_fields default_core = Inr n" using validated_fields by blast
  have a: "assertNoAgentDuplicates agent_text default_core = Inr () \<and>
      agent_of_text agent_text default_core = Inr (CloudflareHeader agent_item)"
    using agent_canonical [of sample_origin default_core agent_text] serialized_fields(3) units_signed(3)
      safe_default(1) text_lengths(3) solid_ascii [OF solid_texts(3)]
    by (simp add: agent_item_def DEFAULT_CORE_LIMITS_def CORE_SF_LIMITS_def)
  have "bindE (combineValues [agent_text] default_core MessageHeaderBytes) requireAscii = Inr agent_text"
    using text_lengths(3) solid_ascii [OF solid_texts(3)]
    by (simp add: combineValues_def requireAscii_def check_default del: checkLimit_Inr)
  moreover have "agent_text \<noteq> []" using solid_texts(3) by (simp add: solid_def)
  moreover have "request_version signed_request = None" by (simp add: signed_request_def)
  ultimately show ?thesis
    using n a fields_signed(3) by (simp add: parseAgentHeader_def screen_def del: lit_Cons)
qed

section \<open>The signature base\<close>

definition signed_options :: canonical_options where
  "signed_options = \<lparr>option_limits = core_options default_core,
     structuredFieldTypes = [(lit ''signature-agent'', Some TItem)]\<rparr>"

abbreviation component_text :: "string \<Rightarrow> core_error + jsstring" where
  "component_text name \<equiv>
     component_value sample_platform (RequestMessage signed_request) (bare_component name) default_core signed_options"

lemma method_text: "component_text ''@method'' = Inr (lit ''GET'')"
  by (simp add: bare_component_def component_value_def componentFlags_def no_flags_def is_derived_def
      signed_request_def derived_value_def requestComponent_def requireAscii_def ascii_def isFieldName_def
      field_name_char_def alpha_def check_default del: checkLimit_Inr)

lemma target_text: "component_text ''@target-uri'' = Inr (lit ''https://a.b/c?d'')"
proof -
  have "targetParts sample_platform (lit ''https://a.b/c?d'') default_core = Inr \<lparr>
      target_original = lit ''https://a.b/c?d'', target_scheme = lit ''https'', target_authority = lit ''a.b'',
      target_path = lit ''/c'', target_query = lit ''?d''\<rparr>"
    by (simp add: targetParts_def check_default split_target_def scheme_char_def uri_char_def alpha_def digit_def
        host_port_def split_port_def normalized_authority_def lowercase_def to_lower_def sample_platform_def Let_def
        del: checkLimit_Inr)
  then show ?thesis
    by (simp add: bare_component_def component_value_def componentFlags_def no_flags_def is_derived_def
        signed_request_def derived_value_def requestComponent_def target_component_def requireAscii_def ascii_def)
qed

lemma agent_value: "component_text ''signature-agent'' = Inr agent_text"
proof -
  have "combineValues [agent_text] default_core MessageHeaderBytes = Inr agent_text" "requireAscii agent_text = Inr agent_text"
    using solid_ascii [OF solid_texts(3)] text_lengths(3)
    by (simp_all add: combineValues_def Let_def check_default requireAscii_def del: checkLimit_Inr)
  moreover have "13 \<notin> set agent_text" "10 \<notin> set agent_text"
    using solid_texts(3) by (auto simp: solid_def list_all_iff printable_def)
  moreover have "request_version signed_request = None" by (simp add: signed_request_def)
  ultimately show ?thesis
    using fields_signed(3)
    by (simp add: bare_component_def component_value_def componentFlags_def no_flags_def is_derived_def
        field_value_def headerComponent_def)
qed

lemma identifiers:
  "serializeMember (MItem (component_item (bare_component ''@method''))) (sf_options default_sf) = Inr ([34] @ lit ''@method'' @ [34])"
  "serializeMember (MItem (component_item (bare_component ''@target-uri''))) (sf_options default_sf) = Inr ([34] @ lit ''@target-uri'' @ [34])"
  "serializeMember (MItem (component_item (bare_component ''signature-agent''))) (sf_options default_sf) = Inr ([34] @ lit ''signature-agent'' @ [34])"
proof -
  have "serializeMember (MItem (component_item (bare_component n))) (sf_options default_sf) = Inr ([34] @ lit n @ [34])"
    if n: "n \<in> {''@method'', ''@target-uri'', ''signature-agent''}" for n
  proof -
    have "units_member (MItem (component_item (bare_component n)))"
      "valid_member default_sf (MItem (component_item (bare_component n)))"
      "fits_output default_sf (text_item (component_item (bare_component n))) (occ_item (component_item (bare_component n)))"
      "text_item (component_item (bare_component n)) = [34] @ lit n @ [34]"
      using n by (auto simp: signed_sample units_item_def escape_plain)
    then show ?thesis by (simp add: serialize_own [OF safe_default(1)])
  qed
  from this [of "''@method''"] this [of "''@target-uri''"] this [of "''signature-agent''"] show
    "serializeMember (MItem (component_item (bare_component ''@method''))) (sf_options default_sf) = Inr ([34] @ lit ''@method'' @ [34])"
    "serializeMember (MItem (component_item (bare_component ''@target-uri''))) (sf_options default_sf) = Inr ([34] @ lit ''@target-uri'' @ [34])"
    "serializeMember (MItem (component_item (bare_component ''signature-agent''))) (sf_options default_sf) = Inr ([34] @ lit ''signature-agent'' @ [34])"
    by simp_all
qed

lemma signed_lines: "\<exists>seen n lines. n \<le> 300 \<and>
    foldE (add_component sample_platform (RequestMessage signed_request) default_core signed_options) ([], 0, []) signed_components
      = Inr (seen, n, lines) \<and> list_all ascii (concat lines) \<and> length (concat lines) = n"
  using method_text target_text agent_value identifiers text_lengths(3) solid_ascii [OF solid_texts(3)]
  by (simp add: signed_components_def add_component_def check_default Let_def ascii_def del: checkLimit_Inr)

lemma signed_base: "\<exists>base. createSignatureBase sample_platform (RequestMessage signed_request) signed_input signed_options = Inr base"
proof -
  obtain n where n: "validateHeaders signed_fields default_core = Inr n" using validated_fields by blast
  let ?m = "MInnerList (inner_of signed_input)"
  have chars: "list_all ascii (text_inner_list (inner_of signed_input))" "length (text_inner_list (inner_of signed_input)) \<le> 200"
    by (auto simp: signed_sample escape_plain escape_replicate ascii_def list_all_iff)
  have valid: "valid_member default_sf ?m" "units_member ?m" "occ_member ?m \<le> 1024"
    using valid_fields(1) units_signed(1) occ_fields(1)
    by (simp_all add: input_field_def del: valid_member.simps units_member.simps occ_member.simps)
  then have "serializeMember ?m (sf_options default_sf) = Inr (text_inner_list (inner_of signed_input))"
    using chars(2) within_default
    by (simp add: serialize_own [OF safe_default(1)] fits_output_def del: valid_member.simps units_member.simps)
  then have "signatureParameters signed_input default_core = Inr (text_inner_list (inner_of signed_input))"
    by (simp add: signatureParameters_def inner_signed)
  moreover obtain seen k lines where "k \<le> 300" "list_all ascii (concat lines)"
      "foldE (add_component sample_platform (RequestMessage signed_request) default_core signed_options) ([], 0, []) signed_components
        = Inr (seen, k, lines)"
    using signed_lines by blast
  moreover have "list_all ascii params_prefix" "length params_prefix = 21"
    by (simp_all add: params_prefix_def ascii_def)
  moreover have "sig_components signed_input = signed_components" by (simp add: signed_input_def)
  ultimately show ?thesis
    using n chars resolve_core_own [OF safe_default(1)]
    by (simp add: createSignatureBase_def base_within_def base_of_lines_def requireAscii_def signed_options_def check_default
        del: checkLimit_Inr)
qed

section \<open>The gates\<close>

definition signed_limits :: profile_limits where
  "signed_limits = \<lparr>maxJwksBytes = 262144, maxKeys = 64, maxCandidates = 16, maxNonceBytes = 256,
     generatedNonceBytes = 32, maxScopeBytes = 256, maxAgentBindings = 64, maxAgentUrlBytes = 2048\<rparr>"

definition signed_policy :: time_policy where
  "signed_policy = \<lparr>signingLifetimeSeconds = 60, maxLifetimeSeconds = 300, maxAgeSeconds = 300, clockSkewSeconds = 30\<rparr>"

definition signed_configuration :: "(jsstring \<times> jsstring) list verification_configuration" where
  "signed_configuration = \<lparr>vc_limits = signed_limits, vc_core = default_core, vc_jwks = sample_loaded, vc_scope = lit ''shop'',
     vc_mode = ExactlyOne, vc_aggregate = AllCandidates, vc_allowed = [CloudflareDocs],
     vc_profiles = (\<lambda>_. \<lparr>profile_time = signed_policy, profile_nonce = NonceRequiredPolicy\<rparr>),
     vc_bindings = \<lparr>binding_entries = [], binding_limits = signed_limits\<rparr>, vc_requireBinding = False,
     vc_allowTestKeys = False, vc_fieldTypes = []\<rparr>"

definition signed_platform :: "(jsstring \<times> jsstring) list verifier_platform" where
  "signed_platform = \<lparr>vp_core = sample_platform, vp_url = sample_url, vp_keys = sample_backend, vp_verify = (\<lambda>_ _ _. True)\<rparr>"

definition signed_metadata :: candidate_metadata where
  "signed_metadata = \<lparr>meta_created = 1, meta_expires = 100, meta_keyid = replicate 43 65, meta_algorithm = None,
     meta_nonce = Some (lit ''n'')\<rparr>"

definition signed_claim :: agent_claim where
  "signed_claim = \<lparr>claim_profile = CloudflareDocs, claim_label = lit ''s'', claimedUrl = sample_origin,
     canonicalOrigin = sample_origin\<rparr>"

lemma metadata_signed: "readCandidateMetadata signed_parameters NonceRequiredPolicy (JsInt 256) = Inr signed_metadata"
proof -
  have "validateProfileKeyId (Some (replicate 43 65)) = Inr (replicate 43 65)"
    using thumbprint_valid [OF sample_component(2)] sample_component(3) by simp
  then show ?thesis
    by (simp add: readCandidateMetadata_def signed_parameters_def getParameter_map_of optional_string_def nonce_check_def
        isValidNonce_def signed_metadata_def max_safe_def is_safe_integer_def printable_def)
qed

lemma key_signed: "lookup_key sample_loaded (replicate 43 65) = Inr (hd (jwks_keys sample_loaded))"
  by (simp add: lookup_key_def sample_loaded_def)

lemma identity_signed:
  "assertSelectedKeyIdentity (sha256 sample_backend) (exported_jwk sample_backend) (replicate 43 65)
     (lk_public (hd (jwks_keys sample_loaded))) = Inr (replicate 43 65)"
proof -
  have "hd (jwks_keys sample_loaded) \<in> set (jwks_keys sample_loaded)" by (simp add: sample_loaded_def)
  note sound = loadJwks_sound [OF sample_load this]
  have "\<forall>bs. length (sha256 sample_backend bs) = 32" by (simp add: sample_backend_def sample_component)
  moreover have "\<forall>ms a h. import_public sample_backend ms = Some (KeyObject PublicKey a h) \<longrightarrow>
      export_member sample_backend h (lit ''d'') = None"
    by (auto simp: sample_backend_def map_of_eq_None_iff simp del: lit_Cons)
  moreover have "lk_thumbprint (hd (jwks_keys sample_loaded)) = replicate 43 65" by (simp add: sample_loaded_def)
  ultimately show ?thesis using sound_key_identity [OF sound] by metis
qed

lemma gates_signed: "candidate_gates signed_platform signed_configuration signed_signature (CloudflareHeader agent_item)
    = Inr (signed_claim, signed_metadata, hd (jwks_keys sample_loaded), KeyThumbprint (replicate 43 65))"
proof -
  have origin: "canonicalAgentOrigin sample_url (Some sample_origin) (JsInt 2048) = Inr sample_origin"
    using sample_canonical [of 2048] by (simp add: max_safe_def)
  have claim: "resolveAgentClaim sample_url (CloudflareHeader agent_item) (lit ''s'') (JsInt 2048) = Inr signed_claim"
    by (simp add: resolveAgentClaim_def claim_of_item_def agent_item_def origin signed_claim_def)
  have identity: "proposeIdentity sample_url \<lparr>binding_entries = [], binding_limits = signed_limits\<rparr> (replicate 43 65)
      sample_origin False = Inr (KeyThumbprint (replicate 43 65))"
    using sample_thumbprint by (simp add: proposeIdentity_def signed_limits_def origin)
  have supported: "assertSupportedComponents signed_input CloudflareDocs = Inr ()"
    by (simp add: assertSupportedComponents_def signed_input_def signed_components_def bare_component_def
        countersigned_def cloudflare_excluded_def)
  have covered: "assertRequiredCoverage signed_input CloudflareDocs = Inr ()"
    by (simp add: assertRequiredCoverage_def signed_input_def signed_components_def bare_component_def bareComponent_def)
  have key: "select_key signed_configuration signed_metadata = Inr (hd (jwks_keys sample_loaded))"
    by (simp add: select_key_def signed_configuration_def signed_metadata_def key_signed check_algorithm_def)
  have test: "\<not> lk_known_test (hd (jwks_keys sample_loaded))" by (simp add: sample_loaded_def)
  have fields: "signature_of_input signed_signature = signed_input" "sig_label signed_input = lit ''s''"
      "sig_parameters signed_input = signed_parameters" "claimedUrl signed_claim = sample_origin"
      "meta_keyid signed_metadata = replicate 43 65"
    by (simp_all add: signed_signature_def signed_input_def signed_claim_def signed_metadata_def)
  have configured: "vc_allowed signed_configuration = [CloudflareDocs]"
      "maxAgentUrlBytes (vc_limits signed_configuration) = 2048" "maxNonceBytes (vc_limits signed_configuration) = 256"
      "profile_nonce (vc_profiles signed_configuration CloudflareDocs) = NonceRequiredPolicy"
      "vc_bindings signed_configuration = \<lparr>binding_entries = [], binding_limits = signed_limits\<rparr>"
      "\<not> vc_requireBinding signed_configuration" "vp_url signed_platform = sample_url" "vp_keys signed_platform = sample_backend"
    by (simp_all add: signed_configuration_def signed_platform_def signed_limits_def)
  show ?thesis
    using claim identity supported covered key test metadata_signed identity_signed
    by (simp add: candidate_gates_def Let_def fields configured del: lit_Cons)
qed

lemma crypto_signed: "candidate_crypto signed_platform signed_configuration signed_request signed_signature CloudflareDocs
    (hd (jwks_keys sample_loaded)) = Inr (SignatureValid signed_input)"
proof -
  have options: "crypto_options signed_configuration CloudflareDocs = signed_options"
    by (simp add: crypto_options_def signed_configuration_def signed_options_def)
  obtain base where "createSignatureBase sample_platform (RequestMessage signed_request) signed_input signed_options = Inr base"
    using signed_base by blast
  moreover have "requireAlgorithm signed_input = Inr ()"
    by (simp add: requireAlgorithm_def signed_input_def signed_parameters_def)
  moreover obtain k where "requireKey (lk_public (hd (jwks_keys sample_loaded))) PublicKey = Inr k"
    by (simp add: sample_loaded_def)
  moreover have "vp_core signed_platform = sample_platform" "vp_verify signed_platform = (\<lambda>_ _ _. True)"
    by (simp_all add: signed_platform_def)
  moreover have "signature_of_input signed_signature = signed_input" "length (signature_bytes signed_signature) = 64"
    by (simp_all add: signed_signature_def signed_bytes_def)
  ultimately have "verifyHttpSignatureCryptography (vp_core signed_platform) (vp_verify signed_platform)
      (RequestMessage signed_request) signed_signature (lk_public (hd (jwks_keys sample_loaded))) signed_options
      = Inr (SignatureValid signed_input)"
    by (simp add: verify_valid)
  then show ?thesis by (simp add: candidate_crypto_def options)
qed

lemma time_signed: "time_check signed_policy signed_metadata 50 = Inr ()"
  by (simp add: time_check_def check_time_def signed_policy_def signed_metadata_def is_safe_integer_def max_safe_def
      MAX_SF_INTEGER_def check_window_def)

end
