(* ===== verification/VerifierContext.thy ===== *)
theory VerifierContext
  imports VerificationSafety
begin

text \<open>
  The verifier over a security context that owns its replay memory: the controller of
  \<^verbatim>\<open>createMessageVerifier\<close> is the one of \<^verbatim>\<open>createSecurityContext\<close>. A locale states what the engine
  relies on in a controller, its lemmas follow the state of the controller through a verification,
  and the interpretation on the owned context gives the end-to-end replay protection.
\<close>

section \<open>The owned context as a controller\<close>

definition with_controller :: "(context_state \<Rightarrow> 'a \<times> context_state) \<Rightarrow> owned_context \<Rightarrow> 'a \<times> owned_context" where
  "with_controller f s = (case f (controller s) of (r, c) \<Rightarrow> (r, s\<lparr>controller := c\<rparr>))"

definition answered :: "(profile_rejection + store_outcome) \<times> 's \<Rightarrow> (profile_rejection + store_outcome option) \<times> 's" where
  "answered q = (case q of (Inl e, s) \<Rightarrow> (Inl e, s) | (Inr out, s) \<Rightarrow> (Inr (Some out), s))"

definition owned_port :: "context_config \<Rightarrow> replay_policy \<Rightarrow> profile_limits \<Rightarrow> owned_context controller_port" where
  "owned_port cfg policy limits =
     \<lparr>port_begin = (\<lambda>clocks. with_controller (beginOperation cfg clocks)),
      port_now = (\<lambda>h clocks. with_controller (now_of cfg h clocks)),
      port_finish = (\<lambda>h. with_controller (finishOperation h)),
      port_complete = (\<lambda>h clocks. with_controller (completeOperation cfg h clocks)),
      port_dispatch = (\<lambda>h input clocks s. answered (owned_dispatch cfg policy limits h input clocks s)),
      port_settle = (\<lambda>h result clocks. with_controller (settle cfg h result clocks))\<rparr>"

text \<open>At an \<open>await\<close> the other clients of the context may make any calls.\<close>

definition owned_environment ::
    "context_config \<Rightarrow> replay_policy \<Rightarrow> profile_limits \<Rightarrow> (nat \<Rightarrow> sample \<times> sample)
       \<Rightarrow> (nat \<Rightarrow> owned_context \<Rightarrow> context_call list) \<Rightarrow> owned_context environment" where
  "owned_environment cfg policy limits clocks others =
     \<lparr>env_port = owned_port cfg policy limits, env_clocks = clocks,
      env_others = (\<lambda>n s. owned_run cfg policy limits (others n s) s)\<rparr>"

definition owned_moves :: "context_config \<Rightarrow> replay_policy \<Rightarrow> profile_limits \<Rightarrow> owned_context \<Rightarrow> owned_context \<Rightarrow> bool" where
  "owned_moves cfg policy limits s s' \<longleftrightarrow> (\<exists>calls. s' = owned_run cfg policy limits calls s)"

section \<open>Accepted outcomes\<close>

lemma foldl_value:
  assumes "\<And>m x. f m x i = Some a \<Longrightarrow> m i = Some a" "foldl f m xs i = Some a"
  shows "m i = Some a"
  using assms(2)
proof (induction xs arbitrary: m)
  case (Cons x xs)
  then have "f m x i = Some a" by simp
  then show ?case by (rule assms(1))
qed simp

lemma set_failures_accepted:
  assumes "set_failures fs m i = Some ReplayAccepted"
  shows "m i = Some ReplayAccepted"
  by (rule foldl_value [OF _ assms [unfolded set_failures_def]]) (simp add: case_prod_beta split: if_splits)

lemma fill_group_accepted:
  assumes "fill_group members e m i = Some ReplayAccepted"
  shows "m i = Some ReplayAccepted"
  by (rule foldl_value [OF _ assms [unfolded fill_group_def]]) (simp split: if_splits)

lemma storeRejection_accepted [simp]: "storeRejection out = ReplayAccepted \<longleftrightarrow> out = Accepted"
  by (cases out) auto

lemma set_ready_accepted:
  "set_ready ready out now m i = Some ReplayAccepted \<Longrightarrow> m i \<noteq> Some ReplayAccepted \<Longrightarrow>
     out = Accepted \<and> (\<exists>c. (i, c) \<in> set ready)"
  unfolding set_ready_def
proof (induction ready arbitrary: m)
  case (Cons c ready)
  let ?m = "m(fst c \<mapsto> (case time_check (el_time (snd c)) (el_metadata (snd c)) now of
       Inl e \<Rightarrow> ReplayRejected e | Inr _ \<Rightarrow> storeRejection out))"
  show ?case
  proof (cases "?m i = Some ReplayAccepted")
    case True
    with Cons.prems(2) have "i = fst c" "out = Accepted" by (auto split: if_splits sum.splits)
    then show ?thesis by (metis list.set_intros(1) prod.collapse)
  next
    case False
    from Cons.IH [of ?m] Cons.prems(1) False show ?thesis by auto
  qed
qed simp

text \<open>A candidate is accepted between two states: a dispatch for its group was accepted when the
  candidate was ready.\<close>

definition accepted_between ::
    "('s \<Rightarrow> 's \<Rightarrow> bool) \<Rightarrow> 's environment \<Rightarrow> nat \<Rightarrow> (int \<Rightarrow> profile_rejection + replay_request) \<Rightarrow> 'i indexed list
       \<Rightarrow> nat \<Rightarrow> 's \<Rightarrow> 's \<Rightarrow> bool" where
  "accepted_between moves E h prepare members i start end \<longleftrightarrow>
     (\<exists>clocks s s' now c. moves start s \<and>
        port_dispatch (env_port E) h (Prepare prepare) clocks s = (Inr (Some Accepted), s') \<and> moves s' end \<and>
        fst (port_now (env_port E) h clocks s) = Inr now \<and> (i, c) \<in> set (ready_members now members))"

section \<open>What the engine relies on\<close>

locale tracked_client = moving_client E moves for E :: "'s environment" and moves :: "'s \<Rightarrow> 's \<Rightarrow> bool" +
  assumes dispatch_reads: "port_dispatch (env_port E) h (Prepare f) clocks s = (Inr out, s') \<Longrightarrow>
      \<exists>now r. fst (port_now (env_port E) h clocks s) = Inr now \<and> f now = Inr r"
    and settle_answer: "port_settle (env_port E) h result clocks s = (Inr Accepted, s') \<Longrightarrow> result = Some Accepted"
begin

lemma consume_port_accepted:
  assumes "consume_port E h prepare w = (Inr Accepted, w')"
  obtains s' where "port_dispatch (env_port E) h (Prepare prepare) (env_clocks E (w_tick w)) (w_state w) = (Inr (Some Accepted), s')"
    "moves s' (w_state w')"
proof -
  obtain answer w1 w2 w3 where
    d: "clocked E (port_dispatch (env_port E) h (Prepare prepare)) w = (Inr answer, w1)" and w2: "w2 = suspend E w1"
    and st: "clocked E (port_settle (env_port E) h answer) w2 = (Inr Accepted, w3)" and w': "w' = suspend E w3"
    using assms by (auto simp: consume_port_def awaiting_eq bindA_eq_Inr)
  from st have "answer = Some Accepted" by (auto simp: clocked_eq_Inr intro: settle_answer)
  moreover have "moves (w_state w1) (w_state w2)" "moves (w_state w3) (w_state w')"
    using others by (simp_all add: w2 w' suspend_def)
  moreover have "moves (w_state w2) (w_state w3)" using movingD [OF moving_ports(5) st] .
  ultimately have "moves (w_state w1) (w_state w')" "answer = Some Accepted" by (metis trans)+
  with d that show ?thesis by (auto simp: clocked_eq_Inr)
qed

lemma consume_group_accepted:
  assumes "consume_group E scope thumbprint h members m w = (Inr m', w')"
    and "m' i = Some ReplayAccepted" "m i \<noteq> Some ReplayAccepted"
  shows "accepted_between moves E h (group_request scope thumbprint members) members i (w_state w) (w_state w')"
proof -
  let ?called = "callback_second E h w"
  let ?ready = "case ?called of None \<Rightarrow> [] | Some now \<Rightarrow> ready_members now members"
  let ?m1 = "case ?called of None \<Rightarrow> m | Some now \<Rightarrow> set_failures (group_failures now members) m"
  let ?run = "bindA (consume_port E h (group_request scope thumbprint members)) (\<lambda>out.
      bindA (clocked E (port_now (env_port E) h)) (\<lambda>now. Pair (Inr (set_ready ?ready out now ?m1))))"
  have m1: "?m1 i \<noteq> Some ReplayAccepted"
    using assms(3) set_failures_accepted by (auto split: option.split)
  have "?run w = (Inr m', w')"
  proof (cases "fst (?run w)")
    case (Inl e)
    then obtain w2 where "?run w = (Inl e, w2)" by (metis prod.collapse)
    with assms(1,2) m1 fill_group_accepted show ?thesis
      by (auto simp: consume_group_def Let_def split: option.splits)
  next
    case (Inr m2)
    then obtain w2 where "?run w = (Inr m2, w2)" by (metis prod.collapse)
    with assms(1) show ?thesis by (simp add: consume_group_def Let_def)
  qed
  then obtain out now w1 where run: "consume_port E h (group_request scope thumbprint members) w = (Inr out, w1)"
      "clocked E (port_now (env_port E) h) w1 = (Inr now, w')" "m' = set_ready ?ready out now ?m1"
    by (auto simp: bindA_eq_Inr)
  from set_ready_accepted [OF assms(2) [unfolded run(3)] m1] obtain c where c: "out = Accepted" "(i, c) \<in> set ?ready" by blast
  obtain s' where s': "port_dispatch (env_port E) h (Prepare (group_request scope thumbprint members))
      (env_clocks E (w_tick w)) (w_state w) = (Inr (Some Accepted), s')" "moves s' (w_state w1)"
    using run(1) c(1) by (auto elim: consume_port_accepted)
  have "moves s' (w_state w')" using s'(2) movingD [OF moving_ports(2) run(2)] by (rule trans)
  moreover obtain t where "fst (port_now (env_port E) h (env_clocks E (w_tick w)) (w_state w)) = Inr t"
      "(i, c) \<in> set (ready_members t members)"
    using c(2) by (auto simp: callback_second_def split: option.splits sum.splits)
  ultimately show ?thesis using s'(1) refl unfolding accepted_between_def by blast
qed

lemma consume_groups_accepted:
  assumes "consume_groups E scope thumbprint h gs m w = (Inr m', w')"
    and "m' i = Some ReplayAccepted" "m i \<noteq> Some ReplayAccepted"
  shows "\<exists>k members. (k, members) \<in> set gs \<and>
    accepted_between moves E h (group_request scope thumbprint members) members i (w_state w) (w_state w')"
  using assms
proof (induction gs arbitrary: m w)
  case (Cons g gs)
  obtain k members where g: "g = (k, members)" by (cases g)
  with Cons.prems(1) obtain m1 w1 where
    step: "consume_group E scope thumbprint h members m w = (Inr m1, w1)"
    and rest: "consume_groups E scope thumbprint h gs m1 w1 = (Inr m', w')"
    by (auto simp: bindA_eq_Inr)
  show ?case
  proof (cases "m1 i = Some ReplayAccepted")
    case True
    from consume_group_accepted [OF step True Cons.prems(3)] movingD [OF moving_consume_groups rest]
    have "accepted_between moves E h (group_request scope thumbprint members) members i (w_state w) (w_state w')"
      unfolding accepted_between_def using trans by blast
    with g show ?thesis by auto
  next
    case False
    from Cons.IH [OF rest Cons.prems(2) False] movingD [OF moving_consume_group step]
    have "\<exists>k members. (k, members) \<in> set gs \<and>
        accepted_between moves E h (group_request scope thumbprint members) members i (w_state w) (w_state w')"
      unfolding accepted_between_def using trans by blast
    then show ?thesis by auto
  qed
qed simp

end

section \<open>Groups\<close>

lemma push_group_member:
  "(k', members) \<in> set (push_group k x gs) \<Longrightarrow> y \<in> set members \<Longrightarrow>
     y = x \<and> k' = k \<or> (\<exists>old. (k', old) \<in> set gs \<and> y \<in> set old)"
  by (induction k x gs rule: push_group.induct) (auto split: if_splits)

definition grouped :: "jsstring \<Rightarrow> ('i \<Rightarrow> jsstring) \<Rightarrow> 'i indexed list \<Rightarrow> jsstring \<Rightarrow> 'i indexed \<Rightarrow> bool" where
  "grouped scope thumbprint cs k x \<longleftrightarrow> x \<in> set cs \<and>
     (\<exists>nonce. meta_nonce (el_metadata (snd x)) = Some nonce \<and> k = json_array [scope, thumbprint (el_identity (snd x)), nonce])"

lemma group_step_inv:
  assumes "fst q i \<noteq> Some ReplayAccepted" "\<forall>(k, members) \<in> set (snd q). \<forall>x \<in> set members. grouped scope thumbprint cs k x"
    and "c \<in> set cs"
  shows "fst (group_step scope thumbprint q c) i \<noteq> Some ReplayAccepted \<and>
    (\<forall>(k, members) \<in> set (snd (group_step scope thumbprint q c)). \<forall>x \<in> set members. grouped scope thumbprint cs k x)"
proof (cases "meta_nonce (el_metadata (snd c))")
  case None
  with assms show ?thesis by (simp add: group_step_def)
next
  case (Some nonce)
  let ?k = "json_array [scope, thumbprint (el_identity (snd c)), nonce]"
  have "grouped scope thumbprint cs ?k c" using assms(3) Some by (simp add: grouped_def)
  then have "grouped scope thumbprint cs k x"
    if "(k, members) \<in> set (push_group ?k c (snd q))" "x \<in> set members" for k members x
    using push_group_member [OF that] assms(2) by auto
  with assms(1) Some show ?thesis by (auto simp: group_step_def)
qed

lemma candidate_groups_inv:
  assumes "candidate_groups scope thumbprint cs = (outcomes, gs)"
  shows "outcomes i \<noteq> Some ReplayAccepted \<and> (\<forall>(k, members) \<in> set gs. \<forall>x \<in> set members. grouped scope thumbprint cs k x)"
proof -
  let ?I = "\<lambda>q. fst q i \<noteq> Some ReplayAccepted \<and> (\<forall>(k, members) \<in> set (snd q). \<forall>x \<in> set members. grouped scope thumbprint cs k x)"
  have "?I (foldl (group_step scope thumbprint) q ds)" if "?I q" "set ds \<subseteq> set cs" for q ds
    using that
  proof (induction ds arbitrary: q)
    case (Cons d ds)
    then have "?I (group_step scope thumbprint q d)" using group_step_inv [of q i scope thumbprint cs d] by simp
    with Cons show ?case by simp
  qed simp
  from this [of "(Map.empty, [])" cs] assms show ?thesis by (simp add: candidate_groups_def)
qed

lemma group_deadline_ge:
  assumes "x \<in> set members" "member_deadline now (snd x) = Inr d"
  shows "d \<le> group_deadline now members"
proof -
  let ?f = "\<lambda>u c. case member_deadline now (snd c) of Inl _ \<Rightarrow> u | Inr d \<Rightarrow> max u d"
  have grow: "u \<le> foldl ?f u xs" for u and xs :: "(nat \<times> 'a eligible_candidate) list"
  proof (induction xs arbitrary: u)
    case (Cons x xs)
    have "u \<le> ?f u x" by (simp split: sum.split)
    also note Cons.IH
    finally show ?case by simp
  qed simp
  have "d \<le> foldl ?f u xs" if "x \<in> set xs" for u xs
    using that
  proof (induction xs arbitrary: u)
    case (Cons y xs)
    show ?case
    proof (cases "x = y")
      case True
      then have "d \<le> ?f u y" using assms(2) by simp
      also note grow
      finally show ?thesis by simp
    qed (use Cons in simp)
  qed simp
  with assms(1) show ?thesis by (simp add: group_deadline_def)
qed

lemma group_request_facts:
  assumes "group_request scope thumbprint members now = Inr r" "\<forall>x \<in> set members. grouped scope thumbprint cs k x"
    and "(i, c) \<in> set (ready_members now members)"
  obtains d where "json_array [rq_scope r, rq_thumbprint r, rq_nonce r] = k" "member_deadline now c = Inr d" "d \<le> rq_until r"
proof -
  obtain j c0 more where ready: "ready_members now members = (j, c0) # more"
    using assms(3) by (cases "ready_members now members") auto
  then have "(j, c0) \<in> set members" by (metis filter_is_subset list.set_intros(1) ready_members_def subsetD)
  with assms(2) have "grouped scope thumbprint cs k (j, c0)" by blast
  then have "json_array [rq_scope r, rq_thumbprint r, rq_nonce r] = k"
    using assms(1) ready by (auto simp: group_request_def grouped_def)
  moreover obtain d where d: "member_deadline now c = Inr d" "(i, c) \<in> set members"
    using assms(3) by (auto simp: ready_members_def is_ok_def split: sum.splits)
  moreover have "d \<le> rq_until r"
    using group_deadline_ge [OF d(2)] d(1) assms(1) ready by (auto simp: group_request_def)
  ultimately show ?thesis using that by blast
qed

section \<open>A verification\<close>

lemma final_candidate_verified_at:
  assumes "mapE (final_candidate replay now) (zip (enumerate 0 vs) us) = Inr rs" "length us = length vs"
    and "i < length rs" "rs ! i = VerifiedResult v"
  shows "i < length vs \<and> (\<exists>c. vs ! i = EligibleEvaluation c \<and> finalize c (replay i) now = Inr (VerifiedResult v))"
proof -
  have "length rs = length vs" using mapE_length [OF assms(1)] assms(2) by simp
  then have i: "i < length (zip (enumerate 0 vs) us)" "i < length vs" using assms(2,3) by simp_all
  have "final_candidate replay now ((i, vs ! i), us ! i) = Inr (VerifiedResult v)"
    using mapE_Inr_nth [OF assms(1) i(1)] i(2) assms(2,4) by (simp add: nth_enumerate_eq)
  with i(2) show ?thesis by (cases "vs ! i"; cases "us ! i") auto
qed

lemma eligible_of_member: "(i, c) \<in> set (eligible_of vs) \<longleftrightarrow> i < length vs \<and> vs ! i = EligibleEvaluation c"
proof -
  have "(i, c) \<in> set (List.map_filter eligible_part xs) \<longleftrightarrow> (i, EligibleEvaluation c) \<in> set xs" for xs
  proof (induction xs)
    case (Cons x xs)
    obtain j u where "x = (j, u)" by (cases x)
    with Cons show ?case by (cases u) (auto simp: List.map_filter_simps)
  qed (simp add: List.map_filter_simps)
  then show ?thesis by (auto simp: eligible_of_def in_set_enumerate_eq)
qed

context tracked_client
begin

lemma verify_accepted:
  assumes strategy: "verification_strategy S gate" "\<And>request s agent h. moving (st_evaluate S request s agent h)"
      "\<And>c. moving (st_evidence S c)"
    and run: "verify cfg E S input w = (Inr (VerifiedRequest reason rs verified), w')"
    and candidate: "i < length rs" "rs ! i = VerifiedResult v" "vr_protected v"
  obtains signatures selected agent h k members c cs where
    "selectWebBotAuthCandidates (request_headers input) (core_options (ec_core cfg))
       (JsInt (int (maxCandidates (ec_limits cfg)))) = Inr (Selected signatures selected)"
    "evaluated_as (gate input agent) (header_profile agent) (selected ! i) (EligibleEvaluation c)"
    "vr_profile v = header_profile agent" "meta_nonce (el_metadata c) \<noteq> None" "vr_identity v = el_identity c"
    "\<forall>x \<in> set members. grouped (ec_scope cfg) (st_thumbprint S) cs k x" "\<forall>c'. (i, c') \<in> set members \<longrightarrow> c' = c"
    "accepted_between moves E h (group_request (ec_scope cfg) (st_thumbprint S) members) members i (w_state w) (w_state w')"
proof -
  obtain signatures selected h w1 agent vs w2 w3 where
    sel: "selectWebBotAuthCandidates (request_headers input) (core_options (ec_core cfg))
       (JsInt (int (maxCandidates (ec_limits cfg)))) = Inr (Selected signatures selected)"
    and b: "clocked E (port_begin (env_port E)) w = (Inr h, w1)"
    and ev: "evaluate_all E S input agent h selected [] w1 = ((None, vs), w2)"
    and fin: "verify_evaluated cfg E S selected h vs w2 = (Inr (VerifiedRequest reason rs verified), w3)"
    and f: "port_finish (env_port E) h (w_state w3) = (Inr (), w_state w')"
    by (rule verify_verified [OF run])
  obtain vs' w0 replay w4 checked w6 now where
    ch: "check_evaluations S vs w2 = ((None, vs'), w0)"
    and groups: "consumeCandidateGroups E (ec_scope cfg) (st_thumbprint S) h (eligible_of vs') w0 = (Inr replay, w4)"
    and ch': "final_evidence S vs' w4 = (Inr checked, w6)"
    and cp: "clocked E (port_complete (env_port E) h) w6 = (Inr now, w3)"
    and fc: "mapE (final_candidate replay now) (zip (enumerate 0 vs') checked) = Inr rs"
    by (rule verify_evaluated_verified [OF fin])
  obtain c where c: "i < length vs'" "vs' ! i = EligibleEvaluation c" "finalize c (replay i) now = Inr (VerifiedResult v)"
    using final_candidate_verified_at [OF fc _ candidate(1,2)] final_evidence_length [OF ch'] by auto
  note v = finalize_verified [OF c(3)]
  from verification_strategy.evaluate_all_related [OF strategy(1) ev]
  have "list_all2 (evaluated_as (gate input agent) (header_profile agent)) selected vs" by auto
  from check_evaluations_related [OF ch this]
  have g: "evaluated_as (gate input agent) (header_profile agent) (selected ! i) (EligibleEvaluation c)"
    using c(1,2) by (auto simp: list_all2_conv_all_nth)
  obtain m gs w5 where cg: "candidate_groups (ec_scope cfg) (st_thumbprint S) (eligible_of vs') = (m, gs)"
      "consume_groups E (ec_scope cfg) (st_thumbprint S) h gs m w0 = (Inr replay, w5)" "w4 = suspend E w5"
    using groups by (auto simp: consumeCandidateGroups_def awaiting_eq split: prod.splits)
  note inv = candidate_groups_inv [OF cg(1)]
  from v candidate(3) have "replay i = Some ReplayAccepted" by simp
  from consume_groups_accepted [OF cg(2) this] inv obtain k members where km: "(k, members) \<in> set gs"
      "accepted_between moves E h (group_request (ec_scope cfg) (st_thumbprint S) members) members i (w_state w0) (w_state w5)"
    by auto
  have "moves (w_state w) (w_state w1)" using movingD [OF moving_ports(1) b] .
  then have "moves (w_state w) (w_state w2)"
    using moving_evaluate_all [OF strategy(2) ev] by (rule trans)
  then have m1: "moves (w_state w) (w_state w0)"
    using moving_check_evaluations [OF strategy(3) ch] by (rule trans)
  have "moves (w_state w3) (w_state w')" using finish_moves [of "w_state w3" h] f by simp
  moreover have "moves (w_state w5) (w_state w4)" using others by (simp add: cg(3) suspend_def)
  moreover have "moves (w_state w4) (w_state w6)" using movingD [OF moving_final_evidence ch'] strategy(3) .
  moreover have "moves (w_state w6) (w_state w3)" using movingD [OF moving_ports(3) cp] .
  ultimately have m2: "moves (w_state w5) (w_state w')" by (metis trans)
  have acc: "accepted_between moves E h (group_request (ec_scope cfg) (st_thumbprint S) members) members i (w_state w) (w_state w')"
    using km(2) m1 m2 trans unfolding accepted_between_def by blast
  have gr: "\<forall>x \<in> set members. grouped (ec_scope cfg) (st_thumbprint S) (eligible_of vs') k x"
    using inv [of i] km(1) by (auto dest: bspec)
  then have "\<forall>c'. (i, c') \<in> set members \<longrightarrow> c' = c"
    using c(2) by (auto simp: grouped_def eligible_of_member)
  moreover have "vr_profile v = header_profile agent" using v g by (simp add: evaluated_as_def)
  ultimately show ?thesis using that sel g v candidate(3) gr acc by blast
qed

end

section \<open>Over the owned context\<close>

lemma owned_run_append: "owned_run cfg policy limits (cs @ ds) s = owned_run cfg policy limits ds (owned_run cfg policy limits cs s)"
  by (simp add: owned_run_def)

lemma owned_moves_step: "owned_moves cfg policy limits s (owned_step cfg policy limits c s)"
  unfolding owned_moves_def by (rule exI [of _ "[c]"]) (simp add: owned_run_def)

lemma owned_moves_trans:
  "owned_moves cfg policy limits s s' \<Longrightarrow> owned_moves cfg policy limits s' s'' \<Longrightarrow> owned_moves cfg policy limits s s''"
  unfolding owned_moves_def by (metis owned_run_append)

lemma with_controller_state: "snd (with_controller f s) = s\<lparr>controller := snd (f (controller s))\<rparr>"
  by (simp add: with_controller_def case_prod_beta)

lemma with_controller_answer: "fst (with_controller f s) = fst (f (controller s))"
  by (simp add: with_controller_def case_prod_beta)

lemma answered_state: "snd (answered q) = snd q"
  by (simp add: answered_def split: prod.split sum.split)

lemma answered_Some: "answered q = (Inr (Some out), s) \<longleftrightarrow> q = (Inr out, s)"
  by (auto simp: answered_def split: prod.split sum.split)

lemma answered_Inr: "answered q = (Inr answer, s) \<Longrightarrow> \<exists>out. answer = Some out \<and> q = (Inr out, s)"
  by (auto simp: answered_def split: prod.splits sum.splits)

lemma dispatch_prepare:
  assumes "dispatch cfg h (Prepare f) clocks c = (Inr (r, n), c')"
  shows "fst (now_of cfg h clocks c) = Inr n \<and> f n = Inr r"
  using assms by (auto simp: dispatch_def now_of_def split: prod.splits sum.splits if_splits)

lemma owned_dispatch_accepts:
  assumes "owned_dispatch cfg policy limits h input clocks s = (Inr out, s')"
  obtains r n c where "dispatch cfg h input clocks (controller s) = (Inr (r, n), c)"
proof -
  obtain q c where "dispatch cfg h input clocks (controller s) = (q, c)" by fastforce
  with assms that show ?thesis by (cases q) (auto simp: owned_dispatch_def)
qed

lemma owned_settle_answer:
  assumes "port_settle (owned_port cfg policy limits) h result clocks s = (Inr Accepted, s')"
  shows "result = Some Accepted"
proof -
  have "fst (settle cfg h result clocks (controller s)) = Inr Accepted"
    using assms with_controller_answer by (metis controller_port.select_convs(6) fst_conv owned_port_def)
  then show ?thesis by (auto simp: settle_def split: prod.splits sum.splits option.splits)
qed

interpretation owned: tracked_client "owned_environment cfg policy limits clocks others" "owned_moves cfg policy limits"
  for cfg policy limits clocks others
proof unfold_locales
  fix s :: owned_context
  show "owned_moves cfg policy limits s s"
    unfolding owned_moves_def by (rule exI [of _ "[]"]) (simp add: owned_run_def)
next
  fix s s' s'' :: owned_context
  assume "owned_moves cfg policy limits s s'" "owned_moves cfg policy limits s' s''"
  then show "owned_moves cfg policy limits s s''" by (rule owned_moves_trans)
next
  fix s :: owned_context and n
  show "owned_moves cfg policy limits s (env_others (owned_environment cfg policy limits clocks others) n s)"
    by (auto simp: owned_moves_def owned_environment_def)
next
  fix s :: owned_context and c h input result
  note step = owned_moves_step [of cfg policy limits s]
  note unfold = owned_environment_def owned_port_def with_controller_state answered_state
  show "owned_moves cfg policy limits s (snd (port_begin (env_port (owned_environment cfg policy limits clocks others)) c s))"
    using step [of "Begin c"] by (simp add: unfold)
  show "owned_moves cfg policy limits s (snd (port_now (env_port (owned_environment cfg policy limits clocks others)) h c s))"
    using step [of "Now h c"] by (simp add: unfold)
  show "owned_moves cfg policy limits s (snd (port_finish (env_port (owned_environment cfg policy limits clocks others)) h s))"
    using step [of "Finish h"] by (simp add: unfold)
  show "owned_moves cfg policy limits s (snd (port_complete (env_port (owned_environment cfg policy limits clocks others)) h c s))"
    using step [of "Complete h c"] by (simp add: unfold)
  show "owned_moves cfg policy limits s (snd (port_dispatch (env_port (owned_environment cfg policy limits clocks others)) h input c s))"
    using step [of "Dispatch h input c"] by (simp add: unfold)
  show "owned_moves cfg policy limits s (snd (port_settle (env_port (owned_environment cfg policy limits clocks others)) h result c s))"
    using step [of "Settle h result c"] by (simp add: unfold)
next
  fix s s' :: owned_context and c h f out
  assume "port_dispatch (env_port (owned_environment cfg policy limits clocks others)) h (Prepare f) c s = (Inr out, s')"
  then obtain a where "owned_dispatch cfg policy limits h (Prepare f) c s = (Inr a, s')"
    using answered_Inr by (fastforce simp: owned_environment_def owned_port_def)
  then obtain r n t where "dispatch cfg h (Prepare f) c (controller s) = (Inr (r, n), t)" by (rule owned_dispatch_accepts)
  from dispatch_prepare [OF this]
  show "\<exists>now r. fst (port_now (env_port (owned_environment cfg policy limits clocks others)) h c s) = Inr now \<and> f now = Inr r"
    by (simp add: owned_environment_def owned_port_def with_controller_answer)
next
  fix s s' :: owned_context and c h result
  assume "port_settle (env_port (owned_environment cfg policy limits clocks others)) h result c s = (Inr Accepted, s')"
  then show "result = Some Accepted"
    by (intro owned_settle_answer [of cfg policy limits h result c s s']) (simp add: owned_environment_def)
qed

section \<open>The offline verifier over the owned context\<close>

context tracked_client
begin

lemma moving_evaluateCandidate: "moving (evaluateCandidate P vcfg E request s agent h)"
proof -
  have "moving (evaluation_body P vcfg E request s agent h)"
    unfolding evaluation_body_def Let_def by (auto intro!: moving_bindA split: prod.split)
  then show ?thesis
    unfolding moving_def evaluateCandidate_def
    by (auto split: prod.split sum.split candidate_error.split) (metis snd_conv)+
qed

lemma offline_moving:
  "moving (st_evaluate (offline_strategy P vcfg E) request s agent h)" "moving (st_evidence (offline_strategy P vcfg E) c)"
  by (auto simp: offline_strategy_def moving_evaluateCandidate)

end

text \<open>The name under which the store keeps a candidate.\<close>

definition candidate_identity :: "'k verification_configuration \<Rightarrow> candidate_metadata \<Rightarrow> jsstring" where
  "candidate_identity vcfg m = json_array [vc_scope vcfg, meta_keyid m, the (meta_nonce m)]"

definition metadata_of ::
    "'k verification_configuration \<Rightarrow> wba_profile \<Rightarrow> parsed_signature \<Rightarrow> candidate_error + candidate_metadata" where
  "metadata_of vcfg profile s = readCandidateMetadata (sig_parameters (signature_of_input s))
     (profile_nonce (vc_profiles vcfg profile)) (JsInt (int (maxNonceBytes (vc_limits vcfg))))"

lemma owned_accepted:
  assumes run: "verify_offline P vcfg (owned_environment cfg policy limits clocks others) input w
      = (Inr (VerifiedRequest reason rs verified), w')"
    and candidate: "i < length rs" "rs ! i = VerifiedResult v" "vr_protected v"
    and sel: "selectWebBotAuthCandidates (request_headers input) (core_options (vc_core vcfg))
      (JsInt (int (maxCandidates (vc_limits vcfg)))) = Inr (Selected signatures selected)"
  obtains m h f clocks' s s' r n d c where
    "metadata_of vcfg (vr_profile v) (selected ! i) = Inr m"
    "owned_moves cfg policy limits (w_state w) s" "owned_moves cfg policy limits s' (w_state w')"
    "dispatch cfg h (Prepare f) clocks' (controller s) = (Inr (r, n), c)"
    "owned_dispatch cfg policy limits h (Prepare f) clocks' s = (Inr Accepted, s')"
    "json_array [rq_scope r, rq_thumbprint r, rq_nonce r] = candidate_identity vcfg m"
    "check_time (profile_time (vc_profiles vcfg (vr_profile v))) (JsInt (meta_created m)) (JsInt (meta_expires m)) (JsInt n) = Inr ()"
    "retainUntil (profile_time (vc_profiles vcfg (vr_profile v))) (JsInt (meta_created m)) (JsInt n) = Inr d" "d \<le> rq_until r"
proof -
  let ?E = "owned_environment cfg policy limits clocks others"
  let ?S = "offline_strategy P vcfg ?E"
  have run': "verify (engine_of vcfg) ?E ?S input w = (Inr (VerifiedRequest reason rs verified), w')"
    using run by (simp add: verify_offline_def)
  obtain signatures' selected' agent h k members c cs where
    sel': "selectWebBotAuthCandidates (request_headers input) (core_options (ec_core (engine_of vcfg)))
       (JsInt (int (maxCandidates (ec_limits (engine_of vcfg))))) = Inr (Selected signatures' selected')"
    and ev: "evaluated_as (offline_gate P vcfg input agent) (header_profile agent) (selected' ! i) (EligibleEvaluation c)"
    and prof: "vr_profile v = header_profile agent" and nonce: "meta_nonce (el_metadata c) \<noteq> None"
    and gr: "\<forall>x \<in> set members. grouped (ec_scope (engine_of vcfg)) (st_thumbprint ?S) cs k x"
    and one: "\<forall>c'. (i, c') \<in> set members \<longrightarrow> c' = c"
    and acc: "accepted_between (owned_moves cfg policy limits) ?E h
      (group_request (ec_scope (engine_of vcfg)) (st_thumbprint ?S) members) members i (w_state w) (w_state w')"
    by (rule owned.verify_accepted [OF offline.verification_strategy_axioms owned.offline_moving(1) owned.offline_moving(2) run' candidate]) blast
  have "selected' = selected" using sel sel' by (simp add: engine_of_def)
  obtain clocks' s s' now c' where a: "owned_moves cfg policy limits (w_state w) s"
      "port_dispatch (env_port ?E) h (Prepare (group_request (ec_scope (engine_of vcfg)) (st_thumbprint ?S) members)) clocks' s
         = (Inr (Some Accepted), s')" "owned_moves cfg policy limits s' (w_state w')"
      "fst (port_now (env_port ?E) h clocks' s) = Inr now" "(i, c') \<in> set (ready_members now members)"
    using acc unfolding accepted_between_def by blast
  let ?f = "group_request (ec_scope (engine_of vcfg)) (st_thumbprint ?S) members"
  have od: "owned_dispatch cfg policy limits h (Prepare ?f) clocks' s = (Inr Accepted, s')"
    using a(2) by (simp add: owned_environment_def owned_port_def answered_Some)
  then obtain r n c1 where d: "dispatch cfg h (Prepare ?f) clocks' (controller s) = (Inr (r, n), c1)"
    by (rule owned_dispatch_accepts)
  note p = dispatch_prepare [OF d]
  have "now = n" using p a(4) by (simp add: owned_environment_def owned_port_def with_controller_answer)
  have member: "(i, c) \<in> set (ready_members n members)" "(i, c) \<in> set members"
    using a(5) one by (auto simp: ready_members_def \<open>now = n\<close>)
  obtain d' where req: "json_array [rq_scope r, rq_thumbprint r, rq_nonce r] = k" "member_deadline n c = Inr d'" "d' \<le> rq_until r"
    using group_request_facts [OF _ gr member(1)] p by blast
  obtain claim k' j where g: "candidate_gates P vcfg (selected' ! i) agent = Inr (claim, el_metadata c, k', el_identity c)"
      "el_time c = profile_time (vc_profiles vcfg (header_profile agent))"
    using ev by (auto simp: evaluated_as_def offline_gate_def)
  note gate = gates_Inr [OF g(1)]
  have "identity_thumbprint (el_identity c) = meta_keyid (el_metadata c)"
    using gate proposal_Inr by blast
  then have "k = candidate_identity vcfg (el_metadata c)"
    using gr member(2) by (auto simp: grouped_def candidate_identity_def engine_of_def offline_strategy_def)
  moreover have "metadata_of vcfg (vr_profile v) (selected ! i) = Inr (el_metadata c)"
    using gate prof \<open>selected' = selected\<close> by (simp add: metadata_of_def)
  moreover have "check_time (el_time c) (JsInt (meta_created (el_metadata c))) (JsInt (meta_expires (el_metadata c))) (JsInt n) = Inr ()"
    "retainUntil (el_time c) (JsInt (meta_created (el_metadata c))) (JsInt n) = Inr d'"
    using req(2) by (auto simp: member_deadline_def time_check_def bindE_eq_Inr)
  ultimately show ?thesis using that a(1,3) od d req(1,3) g(2) prof by metis
qed

text \<open>C3. A signature is accepted once per epoch. Over a security context that owns its replay
  memory, take two verifications, with any calls of other clients before, during and between
  them: if a candidate of the first and a candidate of the second carry the same signature
  parameters under the same profile, and both are verified as protected against replay, then the
  context was reset in between. So a request with a nonce is never verified twice in one epoch.\<close>

theorem verified_once:
  assumes "createSecurityContext clock_pol observer wall monotonic = Inr s0" "cfg = owned_config clock_pol observer"
    and "w_state w = owned_run cfg policy limits before s0"
    and "verify_offline P vcfg (owned_environment cfg policy limits clocks others) input w
      = (Inr (VerifiedRequest reason rs verified), w1)"
    and "w_state w2 = owned_run cfg policy limits between (w_state w1)"
    and "verify_offline P vcfg (owned_environment cfg policy limits clocks' others') input' w2
      = (Inr (VerifiedRequest reason' rs' verified'), w3)"
    and "selectWebBotAuthCandidates (request_headers input) (core_options (vc_core vcfg))
      (JsInt (int (maxCandidates (vc_limits vcfg)))) = Inr (Selected signatures selected)"
    and "selectWebBotAuthCandidates (request_headers input') (core_options (vc_core vcfg))
      (JsInt (int (maxCandidates (vc_limits vcfg)))) = Inr (Selected signatures' selected')"
    and "i < length rs" "rs ! i = VerifiedResult v" "vr_protected v"
    and "j < length rs'" "rs' ! j = VerifiedResult v'" "vr_protected v'" "vr_profile v' = vr_profile v"
    and "sig_parameters (signature_of_input (selected' ! j)) = sig_parameters (signature_of_input (selected ! i))"
  shows "lastEpoch (epochs (controller (w_state w))) < lastEpoch (epochs (controller (w_state w3)))"
proof -
  have decl: "store_declaration cfg = Some ProcessClock" using assms(2) by (simp add: owned_config_def)
  have iw: "owned_inv policy (w_state w)"
    unfolding assms(3) by (rule owned_run_inv [OF created_owned [OF assms(1)] decl])
  have later: "lastEpoch (epochs (controller s)) \<le> lastEpoch (epochs (controller t)) \<and> owned_inv policy t"
    if moved: "owned_moves cfg policy limits s t" and good: "owned_inv policy s" for s t
  proof -
    obtain calls where "t = owned_run cfg policy limits calls s" using moved by (auto simp: owned_moves_def)
    with owned_run_later [of s cfg policy limits calls] owned_run_inv [OF good decl, of limits calls] good
    show ?thesis by (simp add: owned_inv_def context_ok_def later_epochs_def)
  qed
  obtain m h f c1 s s' r n d t where a: "metadata_of vcfg (vr_profile v) (selected ! i) = Inr m"
      "owned_moves cfg policy limits (w_state w) s" "owned_moves cfg policy limits s' (w_state w1)"
      "dispatch cfg h (Prepare f) c1 (controller s) = (Inr (r, n), t)"
      "owned_dispatch cfg policy limits h (Prepare f) c1 s = (Inr Accepted, s')"
      "json_array [rq_scope r, rq_thumbprint r, rq_nonce r] = candidate_identity vcfg m"
      "retainUntil (profile_time (vc_profiles vcfg (vr_profile v))) (JsInt (meta_created m)) (JsInt n) = Inr d" "d \<le> rq_until r"
    by (rule owned_accepted [OF assms(4,9-11,7)]) blast
  obtain m' h' f' c1' u u' r' n' t' where b: "metadata_of vcfg (vr_profile v') (selected' ! j) = Inr m'"
      "owned_moves cfg policy limits (w_state w2) u" "owned_moves cfg policy limits u' (w_state w3)"
      "dispatch cfg h' (Prepare f') c1' (controller u) = (Inr (r', n'), t')"
      "owned_dispatch cfg policy limits h' (Prepare f') c1' u = (Inr Accepted, u')"
      "json_array [rq_scope r', rq_thumbprint r', rq_nonce r'] = candidate_identity vcfg m'"
      "check_time (profile_time (vc_profiles vcfg (vr_profile v'))) (JsInt (meta_created m')) (JsInt (meta_expires m')) (JsInt n') = Inr ()"
    by (rule owned_accepted [OF assms(6,12-14,8)]) blast
  have "m' = m" using a(1) b(1) assms(15,16) by (simp add: metadata_of_def)
  then have "n' < d" using a(7) b(7) assms(15) by (auto simp: retainUntil_eq_Inr check_time_eq_Inr in_window_def)
  with a(8) have "n' < rq_until r" by simp
  have start: "owned_inv policy s" "lastEpoch (epochs (controller (w_state w))) \<le> lastEpoch (epochs (controller s))"
    using later [OF a(2) iw] by simp_all
  have "owned_moves cfg policy limits (w_state w1) (w_state w2)" using assms(5) by (auto simp: owned_moves_def)
  then have su: "owned_moves cfg policy limits s' u" using a(3) b(2) owned_moves_trans by blast
  then obtain calls where u: "u = owned_run cfg policy limits calls s'" by (auto simp: owned_moves_def)
  have s': "s' = owned_step cfg policy limits (Dispatch h (Prepare f) c1) s" using a(5) by simp
  have ls: "lastEpoch (epochs (controller s)) \<le> lastEpoch (epochs (controller s'))" "owned_inv policy s'"
    unfolding s' using later [OF owned_moves_step start(1)] by blast+
  have lu: "lastEpoch (epochs (controller s')) \<le> lastEpoch (epochs (controller u))" "owned_inv policy u"
    using later [OF su ls(2)] by simp_all
  have u': "u' = owned_step cfg policy limits (Dispatch h' (Prepare f') c1') u" using b(5) by simp
  have "lastEpoch (epochs (controller u)) \<le> lastEpoch (epochs (controller u'))" "owned_inv policy u'"
    unfolding u' using later [OF owned_moves_step lu(2)] by blast+
  with later [OF b(3)] have lw: "lastEpoch (epochs (controller u)) \<le> lastEpoch (epochs (controller (w_state w3)))" by simp
  have "lastEpoch (epochs (controller u)) \<noteq> lastEpoch (epochs (controller s))"
  proof
    assume "lastEpoch (epochs (controller u)) = lastEpoch (epochs (controller s))"
    then have "fst (owned_dispatch cfg policy limits h' (Prepare f') c1' u) \<noteq> Inr Accepted"
      using retained_refused [OF start(1) decl a(4,5) u b(4)] a(6) b(6) \<open>m' = m\<close> \<open>n' < rq_until r\<close>
      by (simp split: if_splits)
    with b(5) show False by simp
  qed
  with start(2) ls(1) lu(1) lw show ?thesis by simp
qed

end
