(* ===== verification/VerifierRun.thy ===== *)
theory VerifierRun
  imports VerifierSample VerifierContext
begin

text \<open>
  The request of \<open>VerifierSample\<close> verified over a context that owns its memory: once, and again
  after a reset of the clock.
\<close>

section \<open>Readings of the clock\<close>

definition sample_replay :: replay_policy where
  "sample_replay = \<lparr>capacity = 10, maxPerKey = 5\<rparr>"

definition signed_environment :: "owned_context environment" where
  "signed_environment = owned_environment sample_config sample_replay signed_limits (\<lambda>_. (Some 1000, Some 5)) (\<lambda>_ _. [])"

text \<open>A context at second 1 in which a lease is current.\<close>

definition ready_for :: "nat option \<Rightarrow> owned_context \<Rightarrow> bool" where
  "ready_for h s \<longleftrightarrow> tracker (controller s) = tracker sample_context \<and> healthy (controller s) \<and> may_use h (controller s)"

lemma ready_reading: "ready_for h s \<Longrightarrow> currentTime sample_config h (Some 1000, Some 5) (controller s) = (Inr 1, controller s)"
  unfolding ready_for_def using sample_time [of "controller s" h] by auto

lemma ready_none: "ready_for (Some h) s \<Longrightarrow> ready_for None s"
  by (auto simp: ready_for_def may_use_def)

definition ticked :: "'s world \<Rightarrow> 's world" where
  "ticked w = w\<lparr>w_tick := w_tick w + 1\<rparr>"

lemma ticked_state [simp]: "w_state (ticked w) = w_state w"
  by (simp add: ticked_def)

lemma suspend_signed: "suspend signed_environment w = ticked w"
  by (simp add: suspend_def signed_environment_def owned_environment_def owned_run_def ticked_def)

lemma port_signed: "env_port signed_environment = owned_port sample_config sample_replay signed_limits"
  by (simp add: signed_environment_def owned_environment_def)

lemma clocked_signed: "clocked signed_environment f w = (case f (Some 1000, Some 5) (w_state w) of
    (r, s) \<Rightarrow> (rejecting r, ticked (w\<lparr>w_state := s\<rparr>)))"
  by (simp add: clocked_def signed_environment_def owned_environment_def ticked_def split: prod.split)

lemma now_signed:
  "ready_for (Some h) (w_state w) \<Longrightarrow> clocked signed_environment (port_now (env_port signed_environment) h) w = (Inr 1, ticked w)"
  using ready_reading [of "Some h" "w_state w"]
  by (simp add: clocked_signed port_signed owned_port_def with_controller_def now_of_def)

section \<open>One candidate\<close>

definition signed_candidate :: "identity_proposal eligible_candidate" where
  "signed_candidate = \<lparr>el_label = lit ''s'', el_profile = CloudflareDocs, el_signature = signed_signature,
     el_metadata = signed_metadata, el_identity = KeyThumbprint (replicate 43 65), el_claimed = sample_origin,
     el_time = signed_policy\<rparr>"

lemma candidate_fields:
  "el_label signed_candidate = lit ''s''" "el_profile signed_candidate = CloudflareDocs" "el_signature signed_candidate = signed_signature"
  "el_metadata signed_candidate = signed_metadata" "el_identity signed_candidate = KeyThumbprint (replicate 43 65)"
  "el_time signed_candidate = signed_policy" "el_claimed signed_candidate = sample_origin" "meta_nonce signed_metadata = Some (lit ''n'')"
  by (simp_all add: signed_candidate_def signed_metadata_def)

lemma time_at_one: "time_check signed_policy signed_metadata 1 = Inr ()"
  by (simp add: time_check_def check_time_def signed_policy_def signed_metadata_def is_safe_integer_def max_safe_def
      MAX_SF_INTEGER_def check_window_def)

lemma header_cloudflare: "header_profile (CloudflareHeader agent_item) = CloudflareDocs"
  by simp

lemma evaluated_signed:
  assumes "ready_for (Some h) (w_state w)"
  shows "evaluateCandidate signed_platform signed_configuration signed_environment signed_request signed_signature
    (CloudflareHeader agent_item) h w = (Inr (EligibleEvaluation signed_candidate), ticked (ticked (ticked w)))"
proof -
  have p: "profile_time (vc_profiles signed_configuration CloudflareDocs) = signed_policy"
    by (simp add: signed_configuration_def)
  have c: "claimedUrl signed_claim = sample_origin" "sig_label (signature_of_input signed_signature) = lit ''s''"
    by (simp_all add: signed_claim_def signed_signature_def signed_input_def)
  have "evaluation_body signed_platform signed_configuration signed_environment signed_request signed_signature
      (CloudflareHeader agent_item) h w = (Inr signed_candidate, ticked (ticked (ticked w)))"
    using assms
    by (simp add: evaluation_body_def Let_def gates_signed header_cloudflare p c now_signed bindA_def awaiting_def
        suspend_signed crypto_signed crypto_accepted_def time_at_one signed_candidate_def del: lit_Cons)
  then show ?thesis by (simp add: evaluateCandidate_def)
qed

section \<open>The replay store\<close>

definition signed_replay_request :: replay_request where
  "signed_replay_request = \<lparr>rq_scope = lit ''shop'', rq_thumbprint = replicate 43 65, rq_nonce = lit ''n'', rq_until = 331\<rparr>"

abbreviation signed_members :: "identity_proposal indexed list" where
  "signed_members \<equiv> [(0, signed_candidate)]"

lemma deadline_signed: "member_deadline 1 signed_candidate = Inr 331"
proof -
  have "retainUntil signed_policy (JsInt (meta_created signed_metadata)) (JsInt 1) = Inr 331"
    by (simp add: retainUntil_def signed_policy_def signed_metadata_def is_safe_integer_def max_safe_def MAX_SF_INTEGER_def)
  then show ?thesis by (simp add: member_deadline_def candidate_fields time_at_one)
qed

lemma group_signed: "ready_members 1 signed_members = signed_members" "group_failures 1 signed_members = []"
  "group_request (lit ''shop'') identity_thumbprint signed_members 1 = Inr signed_replay_request"
  by (simp_all add: ready_members_def group_failures_def group_request_def group_deadline_def deadline_signed is_ok_def
      List.map_filter_simps signed_replay_request_def candidate_fields del: lit_Cons)

definition signed_memory :: replay_memory where
  "signed_memory = snd (consume_replay sample_replay signed_limits (payload_argument (signed_replay_request, 1)) new_replay_memory)"

lemma consumed_signed:
  "consume_replay sample_replay signed_limits (payload_argument (signed_replay_request, 1)) new_replay_memory
     = (Accepted, signed_memory)"
proof -
  have "request_ok signed_limits signed_replay_request"
    by (simp add: request_ok_def signed_replay_request_def signed_limits_def isValidNonce_def printable_def ascii_def
        sample_thumbprint max_safe_def)
  then obtain i where "valid_consume signed_limits (lastNow new_replay_memory) (payload_argument (signed_replay_request, 1)) = Some i"
    by (simp add: valid_payload) (simp add: signed_replay_request_def max_safe_def new_replay_memory_def)
  then have "fst (consume_replay sample_replay signed_limits (payload_argument (signed_replay_request, 1)) new_replay_memory) = Accepted"
    by (simp add: consume_replay_def admit_def Let_def new_replay_memory_def MemoryReplay.expire_def before_expiry_def sample_replay_def)
  then show ?thesis by (simp add: signed_memory_def prod_eq_iff)
qed

lemma ready_memory: "ready_for h (s\<lparr>memory := m\<rparr>) \<longleftrightarrow> ready_for h s"
  by (simp add: ready_for_def)

lemma memory_update: "\<lparr>controller = controller s, memory = m\<rparr> = s\<lparr>memory := m\<rparr>"
  by (cases s) simp

lemma dispatched_signed:
  assumes "ready_for (Some h) (w_state w)" "memory (w_state w) = new_replay_memory"
    and "prepare = group_request (lit ''shop'') identity_thumbprint signed_members"
  shows "clocked signed_environment (port_dispatch (env_port signed_environment) h (Prepare prepare)) w
    = (Inr (Some Accepted), ticked (w\<lparr>w_state := (w_state w)\<lparr>memory := signed_memory\<rparr>\<rparr>))"
proof -
  have "may_use (Some h) (controller (w_state w))" using assms(1) by (simp add: ready_for_def)
  then have "dispatch sample_config h (Prepare prepare) (Some 1000, Some 5) (controller (w_state w))
      = (Inr (signed_replay_request, 1), controller (w_state w))"
    using ready_reading [OF assms(1)] by (simp add: dispatch_def assms(3) group_signed(3) del: lit_Cons)
  from owned_dispatch_outcome [OF this, of sample_replay signed_limits]
  show ?thesis
    by (simp add: clocked_signed port_signed owned_port_def answered_def assms(2) consumed_signed memory_update)
qed

lemma settled_signed:
  assumes "ready_for (Some h) (w_state w)"
  shows "clocked signed_environment (port_settle (env_port signed_environment) h (Some out)) w = (Inr out, ticked w)"
  using ready_reading [OF assms] by (simp add: clocked_signed port_signed owned_port_def with_controller_def settle_def)

lemma consume_group_signed:
  assumes "ready_for (Some h) (w_state w)" "memory (w_state w) = new_replay_memory"
  shows "\<exists>w'. consume_groups signed_environment (lit ''shop'') identity_thumbprint h [(k, signed_members)] Map.empty w
      = (Inr [0 \<mapsto> ReplayAccepted], w') \<and> w_state w' = (w_state w)\<lparr>memory := signed_memory\<rparr>"
proof -
  let ?w = "w\<lparr>w_state := (w_state w)\<lparr>memory := signed_memory\<rparr>\<rparr>"
  have ready: "ready_for (Some h) (w_state (ticked (ticked ?w)))" "ready_for (Some h) (w_state (ticked (ticked (ticked (ticked ?w)))))"
    using assms(1) by (simp_all add: ready_memory)
  have called: "callback_second signed_environment h w = Some 1"
    using now_signed [OF assms(1)] ready_reading [OF assms(1)]
    by (simp add: callback_second_def port_signed owned_port_def with_controller_answer now_of_def
        signed_environment_def owned_environment_def)
  have "consume_port signed_environment h (group_request (lit ''shop'') identity_thumbprint signed_members) w
      = (Inr Accepted, ticked (ticked (ticked (ticked ?w))))"
    using dispatched_signed [OF assms refl] settled_signed [OF ready(1), of Accepted]
    by (simp add: consume_port_def awaiting_def bindA_def suspend_signed)
  then show ?thesis
    using now_signed [OF ready(2)] called
    by (simp add: consume_group_def Let_def bindA_def group_signed set_failures_def set_ready_def candidate_fields time_at_one
        del: lit_Cons)
qed

section \<open>The verification\<close>

definition signed_verified :: "identity_proposal verified_candidate" where
  "signed_verified = \<lparr>vr_label = lit ''s'', vr_profile = CloudflareDocs, vr_identity = KeyThumbprint (replicate 43 65),
     vr_claimed = sample_origin, vr_components = signed_components, vr_at = 1, vr_reason = NonceConsumed,
     vr_protected = True\<rparr>"

lemma engine_signed: "engine_of signed_configuration = \<lparr>ec_limits = signed_limits, ec_core = default_core,
    ec_scope = lit ''shop'', ec_mode = ExactlyOne, ec_aggregate = AllCandidates\<rparr>"
  by (simp add: engine_of_def signed_configuration_def)

lemma finalized_signed: "finalize signed_candidate (Some ReplayAccepted) 1 = Inr (VerifiedResult signed_verified)"
proof -
  have "sig_components (signature_of_input signed_signature) = signed_components"
    by (simp add: signed_signature_def signed_input_def)
  then show ?thesis
    by (simp add: finalize_def candidate_fields time_at_one final_outcome_def signed_verified_def
        del: lit_Cons)
qed

lemma completed_signed:
  assumes "ready_for (Some h) (w_state w)"
  shows "clocked signed_environment (port_complete (env_port signed_environment) h) w = (Inr 1, ticked (w\<lparr>w_state :=
    (w_state w)\<lparr>controller := (controller (w_state w))\<lparr>epochs := finish_lease h (epochs (controller (w_state w)))\<rparr>\<rparr>\<rparr>))"
  using ready_reading [OF assms]
  by (simp add: clocked_signed port_signed owned_port_def with_controller_def completeOperation_def)

definition signed_finished :: "nat \<Rightarrow> owned_context \<Rightarrow> owned_context" where
  "signed_finished h s = \<lparr>controller = (controller s)\<lparr>epochs := finish_lease h (finish_lease h (epochs (controller s)))\<rparr>,
     memory = signed_memory\<rparr>"

lemma port_finish_signed:
  assumes "delivering (controller s) = False" "providerDepth (controller s) = 0"
  shows "port_finish (env_port signed_environment) h s
    = (Inr (), s\<lparr>controller := (controller s)\<lparr>epochs := finish_lease h (epochs (controller s))\<rparr>\<rparr>)"
  using assms by (simp add: port_signed owned_port_def with_controller_def finishOperation_def)

lemma verify_selection_signed:
  "verify_selection (engine_of signed_configuration) signed_request
     = Inr (signed_request, Selected [signed_signature] [signed_signature])"
proof -
  have "selectWebBotAuthCandidates (request_headers signed_request) (core_options default_core) (JsInt (int 16))
      = Inr (Selected [signed_signature] [signed_signature])"
    by (rule selected_signed) (simp_all add: max_safe_def)
  moreover have "maxCandidates signed_limits = 16" by (simp add: signed_limits_def)
  ultimately show ?thesis
    by (simp add: verify_selection_def engine_signed snapshot_signed)
qed

lemma signed_run:
  assumes b: "with_controller (beginOperation sample_config (Some 1000, Some 5)) (w_state w) = (Inr h, s)"
    and "ready_for (Some h) s" "memory s = new_replay_memory"
  shows "\<exists>w'. verify_offline signed_platform signed_configuration signed_environment signed_request w
      = (Inr (VerifiedRequest NonceConsumed [VerifiedResult signed_verified] [signed_verified]), w') \<and>
    w_state w' = signed_finished h s"
proof -
  let ?E = signed_environment
  let ?S = "offline_strategy signed_platform signed_configuration ?E"
  let ?vs = "[EligibleEvaluation signed_candidate]"
  let ?cfg = "engine_of signed_configuration"
  obtain w1 where w1: "clocked ?E (port_begin (env_port ?E)) w = (Inr h, w1)" "w_state w1 = s"
    using b by (simp add: clocked_signed port_signed owned_port_def)
  have agent: "parseAgentHeader signed_request (ec_core ?cfg) = Inr (CloudflareHeader agent_item)"
    by (simp add: engine_signed agent_signed)
  obtain w2 where ev: "evaluate_all ?E ?S signed_request (CloudflareHeader agent_item) h [signed_signature] [] w1
      = ((None, ?vs), w2)" "w_state w2 = s"
    using evaluated_signed [of h w1] w1(2) assms(2)
    by (simp add: awaiting_def offline_strategy_def suspend_signed)
  have ch: "check_evaluations ?S ?vs u = ((None, ?vs), u)" "final_evidence ?S ?vs u = (Inr ?vs, u)" for u
    by (simp_all add: check_evaluation_def evidenceRejection_def offline_strategy_def bindA_def)
  have el: "eligible_of ?vs = signed_members" by (simp add: eligible_of_def List.map_filter_simps)
  have groups: "candidate_groups (lit ''shop'') identity_thumbprint signed_members
      = (Map.empty, [(json_array [lit ''shop'', replicate 43 65, lit ''n''], signed_members)])"
    by (simp add: candidate_groups_def group_step_def candidate_fields del: lit_Cons)
  obtain w3 where w3: "consume_groups ?E (lit ''shop'') identity_thumbprint h
      [(json_array [lit ''shop'', replicate 43 65, lit ''n''], signed_members)] Map.empty w2 = (Inr [0 \<mapsto> ReplayAccepted], w3)"
      "w_state w3 = s\<lparr>memory := signed_memory\<rparr>"
    using consume_group_signed [of h w2] ev(2) assms(2,3) by auto
  have "consumeCandidateGroups ?E (ec_scope ?cfg) (st_thumbprint ?S) h signed_members w2 = (Inr [0 \<mapsto> ReplayAccepted], ticked w3)"
    using w3(1) groups by (simp add: consumeCandidateGroups_def engine_signed offline_strategy_def awaiting_def suspend_signed)
  moreover have r3: "ready_for (Some h) (w_state (ticked w3))" using assms(2) by (simp add: w3(2) ready_memory)
  ultimately obtain w4 where w4: "finish_candidates ?cfg ?E ?S h ?vs w2
      = (Inr (VerifiedRequest NonceConsumed [VerifiedResult signed_verified] [signed_verified]), w4)"
      "w_state w4 = (w_state w3)\<lparr>controller := (controller s)\<lparr>epochs := finish_lease h (epochs (controller s))\<rparr>\<rparr>"
    using completed_signed [OF r3] ch(2) w3(2)
    by (simp add: finish_candidates_def el bindA_def finalized_signed aggregate_def engine_signed List.map_filter_simps
        signed_verified_def)
  then have l: "verify_leased ?cfg ?E ?S signed_request [signed_signature] h w1
      = (Inr (VerifiedRequest NonceConsumed [VerifiedResult signed_verified] [signed_verified]), w4)"
    using agent ev(1) ch(1) by (simp add: verify_leased_def verify_evaluated_def)
  have "port_finish (env_port ?E) h (w_state w4) = (Inr (), signed_finished h s)"
    using assms(2) w4(2) w3(2) by (simp add: port_finish_signed ready_for_def may_use_def is_open_def signed_finished_def)
  then show ?thesis
    using verify_selection_signed w1(1) l by (simp add: verify_offline_def verify_def finally_finish_def)
qed

section \<open>A reset between two verifications\<close>

definition reset_calls :: "context_call list" where
  "reset_calls = [ResetStart Operator, ResetPrepare (Some 1000, Some 5) (None, None),
     ResetFinish (Reported NullCount NullCount) (Some 1000, Some 5)]"

lemma sample_reset:
  assumes "ready_for None s" "lastEpoch (epochs (controller s)) < max_safe"
  shows "ready_for None (owned_run sample_config sample_replay signed_limits reset_calls s) \<and>
    memory (owned_run sample_config sample_replay signed_limits reset_calls s) = new_replay_memory \<and>
    epochs (controller (owned_run sample_config sample_replay signed_limits reset_calls s))
      = (epochs (controller s))\<lparr>lastEpoch := lastEpoch (epochs (controller s)) + 1,
          activeEpoch := Some (lastEpoch (epochs (controller s)) + 1), inFlight := 0\<rparr>"
proof -
  let ?c = "controller s"
  let ?n = "lastEpoch (epochs ?c)"
  let ?es = "(epochs ?c)\<lparr>activeEpoch := None, inFlight := 0\<rparr>"
  let ?clear = "?c\<lparr>busy := True, epochs := ?es,
      progress := Clearing Operator ?n (tracker sample_context) (inFlight (epochs ?c))\<rparr>"
  have c: "\<not> delivering ?c" "providerDepth ?c = 0" "\<not> busy ?c" "activeEpoch (epochs ?c) \<noteq> None"
      "tracker ?c = tracker sample_context" "healthy ?c"
    using assms(1) by (auto simp: ready_for_def may_use_def is_open_def)
  have cfg: "store_declaration sample_config = Some ProcessClock" "memory_reset sample_config"
    by (simp_all add: sample_config_def)
  have created: "createClockTracker (Some 1000) (Some 5) (context_policy sample_config) = Inr (tracker sample_context)"
    by (simp add: createClockTracker_def wallSample_def max_safe_def sample_config_def sample_context_def)
  have inv: "invalidate (epochs ?c) = (inFlight (epochs ?c), ?es)" by (simp add: invalidate_def)
  have next': "canActivateNext ?es" using assms(2) by (simp add: canActivateNext_def)
  have start: "reset_start sample_config Operator ?c = (Inr (), ?c\<lparr>busy := True, progress := Started Operator ?n\<rparr>)"
    using c cfg by (simp add: reset_start_def)
  have prep: "reset_prepare sample_config (Some 1000, Some 5) (None, None) (?c\<lparr>busy := True, progress := Started Operator ?n\<rparr>)
      = (Inr (), True, ?clear)"
    using cfg created inv next' by (simp add: reset_prepare_def Let_def)
  obtain t where o: "observe (Some 1000) (Some 5) (tracker sample_context) = (\<lparr>health = Healthy 1000 1, transition = None\<rparr>, t)"
    using sample_cleared(2) by blast
  have t: "t = tracker sample_context"
  proof -
    have "currentTime sample_config None (Some 1000, Some 5) ?c = (Inr 1, ?c)" using ready_reading [OF assms(1)] .
    then show ?thesis
      using currentTime_Inr o c(5) by fastforce
  qed
  let ?es' = "?es\<lparr>lastEpoch := ?n + 1, activeEpoch := Some (?n + 1)\<rparr>"
  have act: "activateNext ?es = Inr ?es'" using assms(2) by (simp add: activateNext_def)
  define c' where "c' = snd (reset_finish sample_config (Reported NullCount NullCount) (Some 1000, Some 5) ?clear)"
  have c': "epochs c' = ?es'" "tracker c' = tracker sample_context" "healthy c'" "\<not> busy c'" "\<not> delivering c'" "providerDepth c' = 0"
    using o act c t
    by (simp_all add: c'_def reset_finish_def reset_commit_def reset_end_def Let_def frame_simps)
  have run: "owned_run sample_config sample_replay signed_limits reset_calls s = \<lparr>controller = c', memory = new_replay_memory\<rparr>"
    by (simp add: owned_run_def reset_calls_def start prep clearForClockReset_def c'_def)
  show ?thesis
    unfolding run using c' by (simp add: ready_for_def may_use_def is_open_def)
qed

text \<open>A new lease of a ready context.\<close>

lemma begun_signed:
  assumes "ready_for None s" "inFlight (epochs (controller s)) < max_safe"
  shows "\<exists>h s'. with_controller (beginOperation sample_config (Some 1000, Some 5)) s = (Inr h, s') \<and> ready_for (Some h) s' \<and>
    memory s' = memory s \<and> h = length (leases (epochs (controller s))) \<and>
    lastEpoch (epochs (controller s')) = lastEpoch (epochs (controller s)) \<and>
    inFlight (epochs (controller s')) = inFlight (epochs (controller s)) + 1"
proof -
  obtain e where e: "activeEpoch (epochs (controller s)) = Some e"
    using assms(1) by (auto simp: ready_for_def may_use_def is_open_def)
  show ?thesis
    using ready_reading [OF assms(1)] assms e
    by (simp add: with_controller_def beginOperation_def begin_lease_def ready_for_def may_use_def is_open_def
        is_current_def lease_state_def)
qed

lemma finish_lease_fields [simp]:
  "lastEpoch (finish_lease h es) = lastEpoch es" "activeEpoch (finish_lease h es) = activeEpoch es"
  by (simp_all add: finish_lease_def split: option.split)

lemma finish_lease_inFlight: "inFlight (finish_lease h es) \<le> inFlight es"
  by (simp add: finish_lease_def split: option.split)

lemma signed_finished_ready:
  assumes "ready_for (Some h) s"
  shows "ready_for None (signed_finished h s)"
  using assms by (auto simp: ready_for_def may_use_def is_open_def signed_finished_def)

text \<open>A whole verification over a ready context with an empty store.\<close>

lemma verified_signed:
  assumes "ready_for None (w_state w)" "memory (w_state w) = new_replay_memory"
    and "inFlight (epochs (controller (w_state w))) < max_safe"
  obtains w' where "verify_offline signed_platform signed_configuration signed_environment signed_request w
      = (Inr (VerifiedRequest NonceConsumed [VerifiedResult signed_verified] [signed_verified]), w')"
    "ready_for None (w_state w')" "lastEpoch (epochs (controller (w_state w'))) = lastEpoch (epochs (controller (w_state w)))"
    "inFlight (epochs (controller (w_state w'))) \<le> inFlight (epochs (controller (w_state w))) + 1"
proof -
  obtain h s where h: "with_controller (beginOperation sample_config (Some 1000, Some 5)) (w_state w) = (Inr h, s)"
      "ready_for (Some h) s" "memory s = new_replay_memory"
      "lastEpoch (epochs (controller s)) = lastEpoch (epochs (controller (w_state w)))"
      "inFlight (epochs (controller s)) = inFlight (epochs (controller (w_state w))) + 1"
    using begun_signed [OF assms(1,3)] assms(2) by auto
  obtain w' where w': "verify_offline signed_platform signed_configuration signed_environment signed_request w
      = (Inr (VerifiedRequest NonceConsumed [VerifiedResult signed_verified] [signed_verified]), w')"
      "w_state w' = signed_finished h s"
    using signed_run [OF h(1-3)] by blast
  have "ready_for None (w_state w')" "lastEpoch (epochs (controller (w_state w'))) = lastEpoch (epochs (controller s))"
      "inFlight (epochs (controller (w_state w'))) \<le> inFlight (epochs (controller s))"
    using signed_finished_ready [OF h(2)] order_trans [OF finish_lease_inFlight finish_lease_inFlight]
    by (simp_all add: w'(2) signed_finished_def)
  with that w'(1) h(4,5) show ?thesis by simp
qed

definition signed_world :: "owned_context world" where
  "signed_world = \<lparr>w_state = sample_owned, w_tick = 0\<rparr>"

lemma signed_world_ready: "ready_for None (w_state signed_world)" "memory (w_state signed_world) = new_replay_memory"
    "inFlight (epochs (controller (w_state signed_world))) = 0" "lastEpoch (epochs (controller (w_state signed_world))) = 1"
  by (simp_all add: signed_world_def sample_owned_def ready_for_def may_use_def is_open_def sample_context_def
      createOperationEpochs_def new_replay_memory_def)

theorem verified_request_authentic_witness:
  "\<exists>s. web_bot_auth s \<and> authentic signed_platform signed_configuration signed_request s signed_verified"
proof -
  have "inFlight (epochs (controller (w_state signed_world))) < max_safe"
    using signed_world_ready(3) by (simp add: max_safe_def)
  from verified_signed [OF signed_world_ready(1,2) this] obtain w' where
    "verify_offline signed_platform signed_configuration signed_environment signed_request signed_world
      = (Inr (VerifiedRequest NonceConsumed [VerifiedResult signed_verified] [signed_verified]), w')" by metis
  from verified_request_authentic [OF this, of signed_verified] show ?thesis by auto
qed

theorem verified_once_witness:
  "\<exists>w rs verified w'. verify_offline signed_platform signed_configuration signed_environment signed_request w
      = (Inr (VerifiedRequest NonceConsumed rs verified), w') \<and> 1 < lastEpoch (epochs (controller (w_state w')))"
proof -
  have "inFlight (epochs (controller (w_state signed_world))) < max_safe"
    using signed_world_ready(3) by (simp add: max_safe_def)
  from verified_signed [OF signed_world_ready(1,2) this] obtain w1 where
    v1: "verify_offline signed_platform signed_configuration signed_environment signed_request signed_world
      = (Inr (VerifiedRequest NonceConsumed [VerifiedResult signed_verified] [signed_verified]), w1)"
    and r1: "ready_for None (w_state w1)" "lastEpoch (epochs (controller (w_state w1))) = 1"
    using signed_world_ready(4) by metis
  define w2 where "w2 = w1\<lparr>w_state := owned_run sample_config sample_replay signed_limits reset_calls (w_state w1)\<rparr>"
  have r2: "ready_for None (w_state w2)" "memory (w_state w2) = new_replay_memory"
      "inFlight (epochs (controller (w_state w2))) < max_safe"
    using sample_reset [OF r1(1)] r1(2) by (simp_all add: w2_def max_safe_def)
  from verified_signed [OF r2] obtain w3 where
    v3: "verify_offline signed_platform signed_configuration signed_environment signed_request w2
      = (Inr (VerifiedRequest NonceConsumed [VerifiedResult signed_verified] [signed_verified]), w3)" by metis
  have sel: "selectWebBotAuthCandidates (request_headers signed_request) (core_options (vc_core signed_configuration))
      (JsInt (int (maxCandidates (vc_limits signed_configuration)))) = Inr (Selected [signed_signature] [signed_signature])"
    using selected_signed [of 16] by (simp add: signed_configuration_def signed_limits_def max_safe_def)
  have s0: "w_state signed_world = owned_run sample_config sample_replay signed_limits [] sample_owned"
    by (simp add: signed_world_def owned_run_def)
  have s2: "w_state w2 = owned_run sample_config sample_replay signed_limits reset_calls (w_state w1)"
    by (simp add: w2_def)
  have "lastEpoch (epochs (controller (w_state signed_world))) < lastEpoch (epochs (controller (w_state w3)))"
    by (rule verified_once [OF sample_owned_created sample_owned_config [symmetric] s0 v1 [unfolded signed_environment_def]
          s2 v3 [unfolded signed_environment_def] sel sel, of 0 signed_verified 0 signed_verified])
      (simp_all add: signed_verified_def)
  then have "1 < lastEpoch (epochs (controller (w_state w3)))" by (simp only: signed_world_ready(4))
  with v3 show ?thesis by blast
qed

end
