(* ===== verification/DirFreshness.thy ===== *)
theory DirFreshness
  imports ClockTracker ProfileAgent
begin

text \<open>
  How long the evidence of a directory response may be reused, \<^verbatim>\<open>discovery/freshness.ts\<close>: the
  policy, the directives of Cache-Control and Pragma, HTTP dates, and the calculation. A clock
  sample is \<open>None\<close> when it is not finite; sums and differences of samples are rounded to doubles.
  Names of headers are compared with ASCII names that have neither a k nor an i with a dot above,
  so \<open>toLowerCase\<close> agrees with the lower case of ASCII in these comparisons.
\<close>

section \<open>The policy\<close>

record freshness_policy =
  fallbackSeconds :: nat
  maximumLifetimeSeconds :: nat

definition default_freshness :: freshness_policy where
  "default_freshness = \<lparr>fallbackSeconds = 60, maximumLifetimeSeconds = 300\<rparr>"

definition freshness_field :: "freshness_policy \<Rightarrow> js_key \<times> js_property \<Rightarrow> configuration_code + freshness_policy" where
  "freshness_field p entry =
     (case entry of
        (StringKey name, DataProperty (JsInt v)) \<Rightarrow>
          if name \<noteq> lit ''fallbackSeconds'' \<and> name \<noteq> lit ''maximumLifetimeSeconds'' \<or>
             \<not> is_safe_integer v \<or> v < 0 \<or> 300 < v
          then Inl InvalidResourceLimits
          else if name = lit ''fallbackSeconds'' then Inr (p\<lparr>fallbackSeconds := nat v\<rparr>)
          else Inr (p\<lparr>maximumLifetimeSeconds := nat v\<rparr>)
      | _ \<Rightarrow> Inl InvalidResourceLimits)"

fun resolveDirectoryFreshnessPolicy :: "js_property js_options \<Rightarrow> configuration_code + freshness_policy" where
  "resolveDirectoryFreshnessPolicy NoOptions = Inr default_freshness"
| "resolveDirectoryFreshnessPolicy NotAnObject = Inl InvalidResourceLimits"
| "resolveDirectoryFreshnessPolicy (OwnKeys ks) = foldE freshness_field default_freshness ks"

section \<open>Directives\<close>

text \<open>The characters of a token.\<close>

definition token_char :: "nat \<Rightarrow> bool" where
  "token_char c \<longleftrightarrow> alpha c \<or> digit c \<or> c \<in> set (lit ''!#$%&*+.^_`|~-'') \<or> c = 39"

definition blank :: "nat \<Rightarrow> bool" where
  "blank c \<longleftrightarrow> c = 32 \<or> c = 9"

definition trim_blanks :: "jsstring \<Rightarrow> jsstring" where
  "trim_blanks s = rev (dropWhile blank (rev (dropWhile blank s)))"

text \<open>The first loop: the members between the commas outside quotes; \<open>current\<close> is the slice so far.\<close>

fun split_members :: "jsstring \<Rightarrow> bool \<Rightarrow> bool \<Rightarrow> jsstring \<Rightarrow> jsstring list option" where
  "split_members current inside escaped [] = (if inside \<or> escaped then None else Some [current])"
| "split_members current inside escaped (c # cs) =
     (if escaped then split_members (current @ [c]) inside False cs
      else if inside \<and> c = 92 then split_members (current @ [c]) inside True cs
      else let inside' = (if c = 34 then \<not> inside else inside) in
        if c = 44 \<and> \<not> inside' then map_option (\<lambda>rest. current # rest) (split_members [] inside' False cs)
        else split_members (current @ [c]) inside' False cs)"

text \<open>After the opening quote of a quoted argument: the text it stands for, if the closing quote ends it.\<close>

fun quoted_argument :: "jsstring \<Rightarrow> jsstring option" where
  "quoted_argument [] = None"
| "quoted_argument (c # cs) =
     (if c = 34 then (if cs = [] then Some [] else None)
      else if c = 92 then
        (case cs of
           [] \<Rightarrow> None
         | d # ds \<Rightarrow> if 32 \<le> d \<and> d \<le> 126 then map_option (\<lambda>r. d # r) (quoted_argument ds) else None)
      else if 32 \<le> c \<and> c \<le> 126 then map_option (\<lambda>r. c # r) (quoted_argument cs) else None)"

record directive =
  directive_name :: jsstring
  directive_value :: "jsstring option"

definition directive_argument :: "jsstring \<Rightarrow> jsstring option" where
  "directive_argument t =
     (if take 1 t = [34] then quoted_argument (tl t)
      else if t \<noteq> [] \<and> list_all token_char t then Some t else None)"

definition parse_directive :: "jsstring \<Rightarrow> directive option" where
  "parse_directive t =
     (let name = takeWhile token_char t; rest = dropWhile token_char t; equals = dropWhile blank rest in
      if name = [] then None
      else if rest = [] then Some \<lparr>directive_name = lowercase name, directive_value = None\<rparr>
      else if take 1 equals \<noteq> [61] then None
      else map_option (\<lambda>v. \<lparr>directive_name = lowercase name, directive_value = Some v\<rparr>)
        (directive_argument (dropWhile blank (tl equals))))"

fun parse_members :: "jsstring list \<Rightarrow> directive list option" where
  "parse_members [] = Some []"
| "parse_members (p # ps) =
     (let t = trim_blanks p in
      if t = [] then parse_members ps
      else (case parse_directive t of
              None \<Rightarrow> None
            | Some d \<Rightarrow> map_option (\<lambda>ds. d # ds) (parse_members ps)))"

definition directives :: "jsstring \<Rightarrow> directive list option" where
  "directives v = (case split_members [] False False v of None \<Rightarrow> None | Some parts \<Rightarrow> parse_members parts)"

section \<open>Numbers and dates\<close>

text \<open>The value of digits; a number past the safe range is rejected, also when it is rounded first.\<close>

definition digits_value :: "jsstring \<Rightarrow> nat" where
  "digits_value ds = foldl (\<lambda>n d. 10 * n + (d - 48)) 0 ds"

definition deltaSeconds :: "jsstring option \<Rightarrow> nat option" where
  "deltaSeconds v =
     (case v of
        None \<Rightarrow> None
      | Some s \<Rightarrow>
          if s \<noteq> [] \<and> list_all digit s \<and> digits_value s \<le> max_safe div 1000 then Some (digits_value s) else None)"

text \<open>The calendar of ECMAScript: days of a year and a month, and the week day of a day.\<close>

definition leap_year :: "nat \<Rightarrow> bool" where
  "leap_year y \<longleftrightarrow> y mod 4 = 0 \<and> (y mod 100 \<noteq> 0 \<or> y mod 400 = 0)"

definition month_days :: "nat \<Rightarrow> nat list" where
  "month_days y = [31, if leap_year y then 29 else 28, 31, 30, 31, 30, 31, 31, 30, 31, 30, 31]"

definition day_from_year :: "nat \<Rightarrow> int" where
  "day_from_year y = 365 * (int y - 1970) + (int y - 1969) div 4 - (int y - 1901) div 100 + (int y - 1601) div 400"

definition day_of :: "nat \<Rightarrow> nat \<Rightarrow> nat \<Rightarrow> int" where
  "day_of y month d = day_from_year y + int (sum_list (take month (month_days y))) + int d - 1"

definition week_day :: "int \<Rightarrow> nat" where
  "week_day day = nat ((day + 4) mod 7)"

definition day_names :: "jsstring list" where
  "day_names = map lit [''Sun'', ''Mon'', ''Tue'', ''Wed'', ''Thu'', ''Fri'', ''Sat'']"

definition month_names :: "jsstring list" where
  "month_names = map lit [''Jan'', ''Feb'', ''Mar'', ''Apr'', ''May'', ''Jun'', ''Jul'', ''Aug'', ''Sep'', ''Oct'', ''Nov'', ''Dec'']"

fun position_in :: "jsstring list \<Rightarrow> jsstring \<Rightarrow> nat option" where
  "position_in [] t = None"
| "position_in (x # xs) t = (if x = t then Some 0 else map_option Suc (position_in xs t))"

definition date_part :: "nat \<Rightarrow> nat \<Rightarrow> jsstring \<Rightarrow> jsstring" where
  "date_part i j s = take (j - i) (drop i s)"

text \<open>The pattern of a date: its digits and its separators.\<close>

definition date_shape :: "jsstring \<Rightarrow> bool" where
  "date_shape s \<longleftrightarrow> length s = 29 \<and> date_part 3 5 s = lit '', '' \<and> date_part 7 8 s = lit '' '' \<and> date_part 11 12 s = lit '' '' \<and>
     date_part 16 17 s = lit '' '' \<and> date_part 19 20 s = lit '':'' \<and> date_part 22 23 s = lit '':'' \<and> date_part 25 29 s = lit '' GMT'' \<and>
     list_all digit (date_part 5 7 s @ date_part 12 16 s @ date_part 17 19 s @ date_part 20 22 s @ date_part 23 25 s)"

text \<open>\<open>Date.parse\<close> of a date that \<open>toUTCString\<close> prints, which is the only case kept: the
  milliseconds of its day and time. A date the calendar does not have, or with another week day,
  is not what \<open>toUTCString\<close> prints.\<close>

definition httpDate :: "jsstring \<Rightarrow> int option" where
  "httpDate s =
     (if \<not> date_shape s then None
      else
        let y = digits_value (date_part 12 16 s); d = digits_value (date_part 5 7 s);
            h = digits_value (date_part 17 19 s); m = digits_value (date_part 20 22 s); sec = digits_value (date_part 23 25 s) in
        (case (position_in day_names (date_part 0 3 s), position_in month_names (date_part 8 11 s)) of
           (Some wd, Some month) \<Rightarrow>
             if 1 \<le> d \<and> d \<le> month_days y ! month \<and> h < 24 \<and> m < 60 \<and> sec < 60 \<and> week_day (day_of y month d) = wd
             then Some (1000 * (86400 * day_of y month d + int (3600 * h + 60 * m + sec))) else None
         | _ \<Rightarrow> None))"

section \<open>The calculation\<close>

record freshness =
  persist :: bool
  remainingAtReceiptMs :: rat
  receivedMonotonicMs :: sample

record directory_response =
  response_body :: "u8 list"
  response_headers :: "(jsstring \<times> jsstring) list"
  requestStartedMonotonicMs :: sample
  responseReceivedMonotonicMs :: sample
  responseReceivedWallMs :: sample

text \<open>The variables of the loop over the headers.\<close>

record header_scan =
  scan_persist :: bool
  scan_invalid :: bool
  scan_revalidate :: bool
  scan_bytes :: nat
  scan_single :: "(jsstring \<times> jsstring) list"
  scan_lifetimes :: "nat list"
  scan_seen :: "jsstring list"

definition new_scan :: header_scan where
  "new_scan = \<lparr>scan_persist = True, scan_invalid = False, scan_revalidate = False, scan_bytes = 0,
     scan_single = [], scan_lifetimes = [], scan_seen = []\<rparr>"

definition scan_lifetime :: "directive \<Rightarrow> header_scan \<Rightarrow> header_scan" where
  "scan_lifetime d s =
     (let s1 = s\<lparr>scan_invalid := (scan_invalid s \<or> directive_name d \<in> set (scan_seen s)),
                scan_seen := List.insert (directive_name d) (scan_seen s)\<rparr> in
      case deltaSeconds (directive_value d) of
        None \<Rightarrow> s1\<lparr>scan_invalid := True\<rparr>
      | Some n \<Rightarrow> s1\<lparr>scan_lifetimes := scan_lifetimes s1 @ [n]\<rparr>)"

definition scan_directive :: "bool \<Rightarrow> header_scan \<Rightarrow> directive \<Rightarrow> header_scan" where
  "scan_directive pragma s d =
     (let n = directive_name d; s1 = (if n = lit ''no-cache'' then s\<lparr>scan_revalidate := True\<rparr> else s) in
      if pragma then s1
      else let s2 = (if n = lit ''no-store'' \<or> n = lit ''private'' then s1\<lparr>scan_persist := False\<rparr> else s1) in
        if n \<noteq> lit ''max-age'' \<and> n \<noteq> lit ''s-maxage'' then s2 else scan_lifetime d s2)"

definition scan_control :: "bool \<Rightarrow> jsstring \<Rightarrow> header_scan \<Rightarrow> header_scan" where
  "scan_control pragma v s =
     (case directives v of
        None \<Rightarrow> s\<lparr>scan_invalid := True, scan_persist := (scan_persist s \<and> pragma)\<rparr>
      | Some ds \<Rightarrow> foldl (scan_directive pragma) s ds)"

text \<open>One header; \<open>Inl\<close> is the early return of a response that is too large.\<close>

definition scan_header :: "header_scan \<Rightarrow> jsstring \<times> jsstring \<Rightarrow> unit + header_scan" where
  "scan_header s header =
     (let rawName = fst header; v = snd header;
          used = scan_bytes s + length (utf8_encode rawName) + length (utf8_encode v) + 4;
          s1 = s\<lparr>scan_bytes := used\<rparr>; name = lowercase rawName in
      if 16384 < length rawName + length v \<or> 16384 < used then Inl ()
      else if name = lit ''cache-control'' then Inr (scan_control False v s1)
      else if name = lit ''pragma'' then Inr (scan_control True v s1)
      else if name = lit ''date'' \<or> name = lit ''age'' \<or> name = lit ''expires''
      then Inr (s1\<lparr>scan_invalid := (scan_invalid s1 \<or> name \<in> fst ` set (scan_single s1)),
                  scan_single := map_set name v (scan_single s1)\<rparr>)
      else Inr s1)"

definition single_of :: "string \<Rightarrow> header_scan \<Rightarrow> jsstring option" where
  "single_of name s = map_of (scan_single s) (lit name)"

text \<open>The three samples, when they are finite, in range and in order.\<close>

definition response_times :: "directory_response \<Rightarrow> (rat \<times> rat \<times> rat) option" where
  "response_times r =
     (case (requestStartedMonotonicMs r, responseReceivedMonotonicMs r, responseReceivedWallMs r) of
        (Some started, Some received, Some wall) \<Rightarrow>
          if \<bar>started\<bar> \<le> of_nat max_safe \<and> \<bar>received\<bar> \<le> of_nat max_safe \<and> \<bar>wall\<bar> \<le> of_nat max_safe \<and>
             0 \<le> started \<and> started \<le> received
          then Some (started, received, wall) else None
      | _ \<Rightarrow> None)"

definition response_lifetime :: "freshness_policy \<Rightarrow> header_scan \<Rightarrow> int option \<Rightarrow> int option \<Rightarrow> int option" where
  "response_lifetime policy s date expires =
     (if scan_lifetimes s \<noteq> [] then Some (int (Min (set (scan_lifetimes s))))
      else if single_of ''expires'' s \<noteq> None then
        (case (date, expires) of (Some d, Some e) \<Rightarrow> Some (max 0 ((e - d) div 1000)) | _ \<Rightarrow> None)
      else Some (int (fallbackSeconds policy)))"

definition remaining_lifetime ::
    "freshness_policy \<Rightarrow> int \<Rightarrow> int option \<Rightarrow> nat \<Rightarrow> rat \<times> rat \<times> rat \<Rightarrow> rat" where
  "remaining_lifetime policy lifetimeSeconds date age samples =
     (case samples of
        (started, received, wall) \<Rightarrow>
          let lifetimeMs = of_int (min lifetimeSeconds (int (maximumLifetimeSeconds policy)) * 1000);
              apparentAgeMs = (case date of None \<Rightarrow> 0 | Some d \<Rightarrow> max 0 (double (wall - of_int d)));
              correctedAgeMs = double (of_nat (age * 1000) + double (received - started)) in
          max 0 (double (lifetimeMs - max apparentAgeMs correctedAgeMs)))"

definition scanned_freshness :: "freshness_policy \<Rightarrow> directory_response \<Rightarrow> header_scan \<Rightarrow> freshness" where
  "scanned_freshness policy r s =
     (let finish = (\<lambda>remaining. \<lparr>persist = scan_persist s, remainingAtReceiptMs = remaining,
            receivedMonotonicMs = responseReceivedMonotonicMs r\<rparr>);
          date = Option.bind (single_of ''date'' s) httpDate;
          expires = Option.bind (single_of ''expires'' s) httpDate;
          age = (case single_of ''age'' s of None \<Rightarrow> Some 0 | v \<Rightarrow> deltaSeconds v) in
      if scan_invalid s \<or> (single_of ''date'' s \<noteq> None \<and> date = None) \<or>
         (single_of ''expires'' s \<noteq> None \<and> expires = None) \<or> age = None \<or> response_times r = None \<or>
         scan_revalidate s \<or> \<not> scan_persist s
      then finish 0
      else case response_lifetime policy s date expires of
        None \<Rightarrow> finish 0
      | Some lifetimeSeconds \<Rightarrow>
          finish (remaining_lifetime policy lifetimeSeconds date (the age) (the (response_times r))))"

definition calculateDirectoryFreshness ::
    "directory_response \<Rightarrow> js_property js_options \<Rightarrow> configuration_code + freshness" where
  "calculateDirectoryFreshness r overrides =
     bindE (resolveDirectoryFreshnessPolicy overrides) (\<lambda>policy.
     let refused = \<lparr>persist = False, remainingAtReceiptMs = 0, receivedMonotonicMs = responseReceivedMonotonicMs r\<rparr> in
     if 16384 < length (response_headers r) then Inr refused
     else case foldE scan_header new_scan (response_headers r) of
       Inl _ \<Rightarrow> Inr refused
     | Inr s \<Rightarrow> Inr (scanned_freshness policy r s))"

definition isDirectoryFresh :: "freshness \<Rightarrow> sample \<Rightarrow> bool" where
  "isDirectoryFresh f nowMonotonicMs =
     (case (nowMonotonicMs, receivedMonotonicMs f) of
        (Some t, Some received) \<Rightarrow>
          persist f \<and> 0 \<le> double (t - received) \<and> 0 < remainingAtReceiptMs f \<and> remainingAtReceiptMs f \<le> 300000 \<and>
          double (t - received) < remainingAtReceiptMs f
      | _ \<Rightarrow> False)"

section \<open>What is fresh\<close>

text \<open>The flags of the scan only get worse, and no lifetime is lost.\<close>

definition scan_worse :: "header_scan \<Rightarrow> header_scan \<Rightarrow> bool" where
  "scan_worse s s' \<longleftrightarrow> (scan_invalid s \<longrightarrow> scan_invalid s') \<and> (scan_persist s' \<longrightarrow> scan_persist s) \<and>
     (scan_revalidate s \<longrightarrow> scan_revalidate s') \<and> set (scan_lifetimes s) \<subseteq> set (scan_lifetimes s')"

lemma scan_worse_refl [simp]: "scan_worse s s"
  by (simp add: scan_worse_def)

lemma scan_worse_trans: "scan_worse s s' \<Longrightarrow> scan_worse s' s'' \<Longrightarrow> scan_worse s s''"
  by (auto simp: scan_worse_def)

text \<open>What a directive leaves in the flags.\<close>

definition directive_noted :: "bool \<Rightarrow> directive \<Rightarrow> header_scan \<Rightarrow> bool" where
  "directive_noted pragma d s \<longleftrightarrow>
     (directive_name d = lit ''no-cache'' \<longrightarrow> scan_revalidate s) \<and>
     (\<not> pragma \<longrightarrow>
        (directive_name d = lit ''no-store'' \<or> directive_name d = lit ''private'' \<longrightarrow> \<not> scan_persist s) \<and>
        (directive_name d = lit ''max-age'' \<or> directive_name d = lit ''s-maxage'' \<longrightarrow>
           scan_invalid s \<or> (\<exists>m. deltaSeconds (directive_value d) = Some m \<and> m \<in> set (scan_lifetimes s))))"

lemma directive_noted_worse: "directive_noted pragma d s \<Longrightarrow> scan_worse s s' \<Longrightarrow> directive_noted pragma d s'"
  by (auto simp: directive_noted_def scan_worse_def)

lemma names_distinct:
  "lit ''no-cache'' \<noteq> lit ''no-store''" "lit ''no-cache'' \<noteq> lit ''private''" "lit ''no-cache'' \<noteq> lit ''max-age''"
  "lit ''no-cache'' \<noteq> lit ''s-maxage''" "lit ''no-store'' \<noteq> lit ''max-age''" "lit ''no-store'' \<noteq> lit ''s-maxage''"
  "lit ''private'' \<noteq> lit ''max-age''" "lit ''private'' \<noteq> lit ''s-maxage''"
  by simp_all

lemma scan_directive_noted: "scan_worse s (scan_directive pragma s d) \<and> directive_noted pragma d (scan_directive pragma s d)"
  using names_distinct
  by (auto simp: scan_directive_def scan_lifetime_def Let_def scan_worse_def directive_noted_def
      simp del: lit_Cons split: option.split)

lemma scan_directives_noted:
  "scan_worse s (foldl (scan_directive pragma) s ds) \<and>
     (\<forall>d \<in> set ds. directive_noted pragma d (foldl (scan_directive pragma) s ds))"
proof (induction ds arbitrary: s)
  case (Cons d ds)
  let ?s = "scan_directive pragma s d"
  have "scan_worse ?s (foldl (scan_directive pragma) ?s ds)" using Cons.IH [of ?s] by blast
  with scan_directive_noted [of s pragma d] Cons.IH [of ?s] show ?case
    by (auto intro: scan_worse_trans directive_noted_worse)
qed simp

lemma scan_control_noted:
  "scan_worse s (scan_control pragma v s) \<and>
     (case directives v of None \<Rightarrow> scan_invalid (scan_control pragma v s)
      | Some ds \<Rightarrow> \<forall>d \<in> set ds. directive_noted pragma d (scan_control pragma v s))"
  using scan_directives_noted [of s pragma]
  by (auto simp: scan_control_def scan_worse_def split: option.split)

definition header_noted :: "jsstring \<times> jsstring \<Rightarrow> header_scan \<Rightarrow> bool" where
  "header_noted h s \<longleftrightarrow>
     (\<forall>pragma. lowercase (fst h) = lit (if pragma then ''pragma'' else ''cache-control'') \<longrightarrow>
        scan_invalid s \<or> (\<exists>ds. directives (snd h) = Some ds \<and> (\<forall>d \<in> set ds. directive_noted pragma d s)))"

lemma header_noted_worse: "header_noted h s \<Longrightarrow> scan_worse s s' \<Longrightarrow> header_noted h s'"
  using directive_noted_worse unfolding header_noted_def scan_worse_def by blast

lemma scan_header_noted:
  assumes "scan_header s h = Inr s'"
  shows "scan_worse s s' \<and> header_noted h s'"
proof -
  let ?s = "s\<lparr>scan_bytes := scan_bytes s + length (utf8_encode (fst h)) + length (utf8_encode (snd h)) + 4\<rparr>"
  have b: "scan_worse s t" if "scan_worse ?s t" for t using that by (simp add: scan_worse_def)
  have n: "lit ''pragma'' \<noteq> lit ''cache-control''" by simp
  consider "lowercase (fst h) = lit ''cache-control''" "s' = scan_control False (snd h) ?s"
    | "lowercase (fst h) = lit ''pragma''" "s' = scan_control True (snd h) ?s"
    | "lowercase (fst h) \<noteq> lit ''cache-control''" "lowercase (fst h) \<noteq> lit ''pragma''" "scan_worse ?s s'"
    using assms by (auto simp: scan_header_def Let_def scan_worse_def simp del: lit_Cons split: if_splits)
  then show ?thesis
  proof cases
    case 1
    with scan_control_noted [of ?s False "snd h"] b n show ?thesis
      by (auto simp: header_noted_def simp del: lit_Cons split: option.splits)
  next
    case 2
    with scan_control_noted [of ?s True "snd h"] b n show ?thesis
      by (auto simp: header_noted_def simp del: lit_Cons split: option.splits)
  next
    case 3
    with b show ?thesis by (simp add: header_noted_def del: lit_Cons)
  qed
qed

lemma scan_headers_noted:
  "foldE scan_header s hs = Inr s' \<Longrightarrow> scan_worse s s' \<and> (\<forall>h \<in> set hs. header_noted h s')"
proof (induction hs arbitrary: s)
  case (Cons h hs)
  then obtain s1 where s1: "scan_header s h = Inr s1" "foldE scan_header s1 hs = Inr s'" by (auto simp: bindE_eq_Inr)
  from scan_header_noted [OF s1(1)] Cons.IH [OF s1(2)] show ?case
    by (auto intro: scan_worse_trans header_noted_worse)
qed simp

lemma freshness_field_bound:
  assumes "freshness_field p k = Inr p'" "fallbackSeconds p \<le> 300 \<and> maximumLifetimeSeconds p \<le> 300"
  shows "fallbackSeconds p' \<le> 300 \<and> maximumLifetimeSeconds p' \<le> 300"
  using assms
  by (auto simp: freshness_field_def split: prod.splits js_key.splits js_property.splits js_number.splits if_splits)

lemma freshness_policy_bound:
  assumes "resolveDirectoryFreshnessPolicy overrides = Inr policy"
  shows "fallbackSeconds policy \<le> 300 \<and> maximumLifetimeSeconds policy \<le> 300"
proof (cases overrides)
  case (OwnKeys ks)
  then have "foldE freshness_field default_freshness ks = Inr policy" using assms by simp
  then show ?thesis
    by (rule foldE_invariant) (auto simp: default_freshness_def dest: freshness_field_bound)
qed (use assms in \<open>auto simp: default_freshness_def\<close>)

lemma remaining_lifetime_le:
  assumes "0 \<le> lifetime" "maximumLifetimeSeconds policy \<le> 300"
  shows "remaining_lifetime policy lifetime date age samples
    \<le> of_int (1000 * min lifetime (int (maximumLifetimeSeconds policy)))"
proof -
  obtain started received wall where t: "samples = (started, received, wall)" by (cases samples)
  let ?n = "min lifetime (int (maximumLifetimeSeconds policy)) * 1000"
  let ?a = "case date of None \<Rightarrow> 0 | Some d \<Rightarrow> max 0 (double (wall - of_int d))"
  let ?c = "double (of_nat (age * 1000) + double (received - started))"
  have "0 \<le> ?a" by (simp split: option.split)
  then have "of_int ?n - max ?a ?c \<le> (of_int ?n :: rat)" by simp
  then have "double (of_int ?n - max ?a ?c) \<le> double (of_int ?n)" by (rule double_mono)
  also have "\<dots> = of_int ?n" using assms by (intro double_of_int) (simp add: min_def)
  finally show ?thesis
    using assms(1) by (simp add: remaining_lifetime_def t Let_def mult.commute)
qed

lemma scanned_fresh:
  assumes "isDirectoryFresh (scanned_freshness policy r s) (Some now)" "maximumLifetimeSeconds policy \<le> 300"
  obtains received lifetime where "responseReceivedMonotonicMs r = Some received" "0 \<le> double (now - received)"
    "scan_persist s" "\<not> scan_invalid s" "\<not> scan_revalidate s"
    "response_lifetime policy s (Option.bind (single_of ''date'' s) httpDate) (Option.bind (single_of ''expires'' s) httpDate)
       = Some lifetime" "0 \<le> lifetime"
    "double (now - received) < of_int (1000 * min lifetime (int (maximumLifetimeSeconds policy)))"
proof -
  let ?date = "Option.bind (single_of ''date'' s) httpDate"
  let ?expires = "Option.bind (single_of ''expires'' s) httpDate"
  let ?f = "scanned_freshness policy r s"
  obtain received where f: "receivedMonotonicMs ?f = Some received" "0 \<le> double (now - received)"
      "0 < remainingAtReceiptMs ?f" "double (now - received) < remainingAtReceiptMs ?f"
    using assms(1) by (auto simp: isDirectoryFresh_def split: option.splits)
  obtain lifetime age where l: "scan_persist s" "\<not> scan_invalid s" "\<not> scan_revalidate s"
      "response_lifetime policy s ?date ?expires = Some lifetime"
      "remainingAtReceiptMs ?f = remaining_lifetime policy lifetime ?date age (the (response_times r))"
    using f(3) by (fastforce simp: scanned_freshness_def Let_def split: if_splits option.splits)
  have "0 \<le> lifetime"
    using l(4) by (auto simp: response_lifetime_def split: if_splits option.splits)
  with remaining_lifetime_le [OF this assms(2)] f(4) l(5)
  have "double (now - received) < of_int (1000 * min lifetime (int (maximumLifetimeSeconds policy)))"
    by (metis less_le_trans)
  moreover have "responseReceivedMonotonicMs r = Some received"
    using f(1) by (auto simp: scanned_freshness_def Let_def split: if_splits option.splits)
  ultimately show ?thesis using that f(2) l(1-4) \<open>0 \<le> lifetime\<close> by blast
qed

lemma control_allows:
  assumes "header_noted h s" "scan_persist s" "\<not> scan_invalid s" "\<not> scan_revalidate s"
    and "lowercase (fst h) = lit ''cache-control''"
  shows "\<exists>ds. directives (snd h) = Some ds \<and> (\<forall>d \<in> set ds.
    directive_name d \<notin> {lit ''no-store'', lit ''private'', lit ''no-cache''} \<and>
    (directive_name d \<in> {lit ''max-age'', lit ''s-maxage''} \<longrightarrow>
       (\<exists>m. deltaSeconds (directive_value d) = Some m \<and> m \<in> set (scan_lifetimes s))))"
proof -
  have "lowercase (fst h) = lit (if False then ''pragma'' else ''cache-control'')" using assms(5) by simp
  then obtain ds where "directives (snd h) = Some ds" "\<forall>d \<in> set ds. directive_noted False d s"
    using assms(1,3) unfolding header_noted_def by blast
  with assms(2-4) show ?thesis by (auto simp: directive_noted_def simp del: lit_Cons)
qed

lemma pragma_allows:
  assumes "header_noted h s" "\<not> scan_invalid s" "\<not> scan_revalidate s" "lowercase (fst h) = lit ''pragma''"
  shows "\<exists>ds. directives (snd h) = Some ds \<and> (\<forall>d \<in> set ds. directive_name d \<noteq> lit ''no-cache'')"
proof -
  have "lowercase (fst h) = lit (if True then ''pragma'' else ''cache-control'')" using assms(4) by simp
  then obtain ds where "directives (snd h) = Some ds" "\<forall>d \<in> set ds. directive_noted True d s"
    using assms(1,2) unfolding header_noted_def by blast
  with assms(3) show ?thesis by (auto simp: directive_noted_def simp del: lit_Cons)
qed

text \<open>C17. Evidence is only fresh while every header of its response allows its reuse: no directive
  forbids storing or reusing it, it is younger than each lifetime the response states and than the
  configured maximum, which is at most five minutes; a Cache-Control or Pragma value that does not
  parse makes it stale.\<close>

theorem fresh_evidence:
  assumes "calculateDirectoryFreshness r overrides = Inr f" "resolveDirectoryFreshnessPolicy overrides = Inr policy"
    and "isDirectoryFresh f (Some now)"
  shows "\<exists>received. responseReceivedMonotonicMs r = Some received \<and> 0 \<le> double (now - received) \<and>
    double (now - received) < of_nat (1000 * maximumLifetimeSeconds policy) \<and> maximumLifetimeSeconds policy \<le> 300 \<and>
    (\<forall>h \<in> set (response_headers r).
       (lowercase (fst h) = lit ''cache-control'' \<longrightarrow> (\<exists>ds. directives (snd h) = Some ds \<and> (\<forall>d \<in> set ds.
          directive_name d \<notin> {lit ''no-store'', lit ''private'', lit ''no-cache''} \<and>
          (directive_name d \<in> {lit ''max-age'', lit ''s-maxage''} \<longrightarrow>
             (\<exists>m. deltaSeconds (directive_value d) = Some m \<and> double (now - received) < of_nat (1000 * m)))))) \<and>
       (lowercase (fst h) = lit ''pragma'' \<longrightarrow>
          (\<exists>ds. directives (snd h) = Some ds \<and> (\<forall>d \<in> set ds. directive_name d \<noteq> lit ''no-cache''))))"
proof -
  note bound = conjunct2 [OF freshness_policy_bound [OF assms(2)]]
  have "persist f" using assms(3) by (auto simp: isDirectoryFresh_def split: option.splits)
  with assms(1,2) obtain s where s: "foldE scan_header new_scan (response_headers r) = Inr s" "f = scanned_freshness policy r s"
    by (auto simp: calculateDirectoryFreshness_def Let_def split: if_splits sum.splits)
  obtain received lifetime where l: "responseReceivedMonotonicMs r = Some received" "0 \<le> double (now - received)"
    "scan_persist s" "\<not> scan_invalid s" "\<not> scan_revalidate s"
    "response_lifetime policy s (Option.bind (single_of ''date'' s) httpDate) (Option.bind (single_of ''expires'' s) httpDate)
       = Some lifetime" "0 \<le> lifetime"
    "double (now - received) < of_int (1000 * min lifetime (int (maximumLifetimeSeconds policy)))"
    using scanned_fresh [OF assms(3) [unfolded s(2)] bound] by metis
  have le: "double (now - received) < of_int k" if "1000 * min lifetime (int (maximumLifetimeSeconds policy)) \<le> k" for k
    using l(8) that by (meson less_le_trans of_int_le_iff)
  have young: "double (now - received) < of_nat (1000 * m)" if "m \<in> set (scan_lifetimes s)" for m
  proof -
    have "scan_lifetimes s \<noteq> []" using that by auto
    then have "lifetime = int (Min (set (scan_lifetimes s)))" using l(6) by (simp add: response_lifetime_def)
    then have "lifetime \<le> int m" using that by simp
    then show ?thesis using le [of "1000 * int m"] by simp
  qed
  have capped: "double (now - received) < of_nat (1000 * maximumLifetimeSeconds policy)"
    using le [of "1000 * int (maximumLifetimeSeconds policy)"] by simp
  have noted: "\<forall>h \<in> set (response_headers r). header_noted h s" using scan_headers_noted [OF s(1)] by blast
  have "(lowercase (fst h) = lit ''cache-control'' \<longrightarrow> (\<exists>ds. directives (snd h) = Some ds \<and> (\<forall>d \<in> set ds.
          directive_name d \<notin> {lit ''no-store'', lit ''private'', lit ''no-cache''} \<and>
          (directive_name d \<in> {lit ''max-age'', lit ''s-maxage''} \<longrightarrow>
             (\<exists>m. deltaSeconds (directive_value d) = Some m \<and> double (now - received) < of_nat (1000 * m)))))) \<and>
       (lowercase (fst h) = lit ''pragma'' \<longrightarrow>
          (\<exists>ds. directives (snd h) = Some ds \<and> (\<forall>d \<in> set ds. directive_name d \<noteq> lit ''no-cache'')))"
    if "h \<in> set (response_headers r)" for h
    using control_allows [OF bspec [OF noted that] l(3-5)] pragma_allows [OF bspec [OF noted that] l(4,5)] young by meson
  with l(1,2) capped bound show ?thesis by blast
qed

section \<open>A sample response\<close>

lemma httpDate_sample: "httpDate (lit ''Sun, 06 Nov 1994 08:49:37 GMT'') = Some 784111777000"
  by (simp add: httpDate_def date_shape_def date_part_def digit_def digits_value_def day_names_def month_names_def
      month_days_def leap_year_def week_day_def day_of_def day_from_year_def Let_def)

definition sample_response :: directory_response where
  "sample_response = \<lparr>response_body = [], response_headers = [(lit ''Cache-Control'', lit ''max-age=60, public'')],
     requestStartedMonotonicMs = Some 1000, responseReceivedMonotonicMs = Some 1000, responseReceivedWallMs = Some 5000\<rparr>"

lemma sample_directives: "directives (lit ''max-age=60, public'') =
    Some [\<lparr>directive_name = lit ''max-age'', directive_value = Some (lit ''60'')\<rparr>,
      \<lparr>directive_name = lit ''public'', directive_value = None\<rparr>]"
  by (simp add: directives_def trim_blanks_def blank_def parse_directive_def token_char_def alpha_def digit_def
      directive_argument_def lowercase_def to_lower_def Let_def)

lemma sample_scan: "foldE scan_header new_scan (response_headers sample_response) =
    Inr (new_scan\<lparr>scan_bytes := 35, scan_lifetimes := [60], scan_seen := [lit ''max-age'']\<rparr>)"
proof -
  have "lowercase (lit ''Cache-Control'') = lit ''cache-control''" by (simp add: lowercase_def to_lower_def)
  moreover have "length (utf8_encode (lit ''Cache-Control'')) = 13" "length (utf8_encode (lit ''max-age=60, public'')) = 18"
    by (simp_all add: utf8_encode.simps)
  moreover have "deltaSeconds (Some (lit ''60'')) = Some 60"
    by (simp add: deltaSeconds_def digit_def digits_value_def max_safe_def)
  moreover have "scan_control False (lit ''max-age=60, public'') (new_scan\<lparr>scan_bytes := 35\<rparr>)
      = new_scan\<lparr>scan_bytes := 35, scan_lifetimes := [60], scan_seen := [lit ''max-age'']\<rparr>"
    using calculation(4) unfolding scan_control_def sample_directives
    by (simp add: scan_directive_def scan_lifetime_def new_scan_def Let_def)
  ultimately show ?thesis
    by (simp add: sample_response_def scan_header_def Let_def new_scan_def del: lit_Cons)
qed

lemma sample_freshness:
  "calculateDirectoryFreshness sample_response NoOptions = Inr \<lparr>persist = True, remainingAtReceiptMs = 60000,
     receivedMonotonicMs = Some 1000\<rparr>"
proof -
  have "double 0 = 0" "double 60000 = 60000" using double_of_int [of 0] double_of_int [of 60000] by simp_all
  moreover have "response_times sample_response = Some (1000, 1000, 5000)"
    by (simp add: response_times_def sample_response_def max_safe_def)
  ultimately show ?thesis
    unfolding calculateDirectoryFreshness_def sample_scan
    by (simp add: scanned_freshness_def single_of_def new_scan_def response_lifetime_def remaining_lifetime_def
        default_freshness_def Let_def) (simp add: sample_response_def)
qed

theorem fresh_evidence_witness:
  "double (11000 - 1000) < of_nat (1000 * 300)"
proof -
  have d: "double 10000 = 10000" using double_of_int [of 10000] by simp
  have "isDirectoryFresh \<lparr>persist = True, remainingAtReceiptMs = 60000, receivedMonotonicMs = Some 1000\<rparr> (Some 11000)"
    by (simp add: isDirectoryFresh_def d)
  moreover have "resolveDirectoryFreshnessPolicy NoOptions = Inr default_freshness" by simp
  ultimately obtain received where "responseReceivedMonotonicMs sample_response = Some received"
      "double (11000 - received) < of_nat (1000 * maximumLifetimeSeconds default_freshness)"
    using fresh_evidence [OF sample_freshness] by metis
  then show ?thesis by (simp add: sample_response_def default_freshness_def)
qed

end
