(* ===== verification/DirConfig.thy ===== *)
theory DirConfig
  imports ProfileAgent
begin

text \<open>
  The trusted network configuration of discovery, \<^verbatim>\<open>discovery/fetch-configuration.ts\<close>, with the part
  of \<^verbatim>\<open>proxy-tls.ts\<close> that reads the proxy, and the hostnames that \<^verbatim>\<open>dns-resolution.ts\<close> and
  \<^verbatim>\<open>pinned-tls.ts\<close> accept. An options object is its own properties in their order.
\<close>

section \<open>Values\<close>

text \<open>What a property can hold; \<open>AccessorValue\<close> is a getter, an abort signal is its identity, and the
  elements of an array are their descriptors: absent or a getter, or a value that may be a string.\<close>

datatype origin_element = NoDataElement | DataElement "jsstring option"

datatype network_value =
    UndefinedValue
  | TextValue jsstring
  | NumberValue js_number
  | OriginsValue "origin_element list"
  | PolicyValue address_policy
  | ObjectValue "(js_key \<times> network_value) list"
  | SignalValue nat
  | OtherValue
  | AccessorValue

definition own_data :: "string list \<Rightarrow> js_key \<times> network_value \<Rightarrow> bool" where
  "own_data names entry \<longleftrightarrow>
     (case entry of (StringKey name, v) \<Rightarrow> name \<in> set (map lit names) \<and> v \<noteq> AccessorValue | (SymbolKey _, _) \<Rightarrow> False)"

definition network_field :: "(js_key \<times> network_value) list \<Rightarrow> string \<Rightarrow> network_value" where
  "network_field own name =
     (case map_of own (StringKey (lit name)) of None \<Rightarrow> UndefinedValue | Some v \<Rightarrow> v)"

definition misconfigured :: "configuration_code \<Rightarrow> candidate_error + 'a" where
  "misconfigured c = Inl (ProfileConfigurationError c)"

section \<open>Hostnames\<close>

definition host_label_char :: "nat \<Rightarrow> bool" where
  "host_label_char c \<longleftrightarrow> 48 \<le> c \<and> c \<le> 57 \<or> 97 \<le> c \<and> c \<le> 122"

definition host_label :: "jsstring \<Rightarrow> bool" where
  "host_label l \<longleftrightarrow> l \<noteq> [] \<and> length l \<le> 63 \<and> host_label_char (hd l) \<and> host_label_char (List.last l) \<and>
     list_all (\<lambda>c. host_label_char c \<or> c = 45) l"

definition hostnameValid :: "jsstring \<Rightarrow> bool" where
  "hostnameValid v \<longleftrightarrow> length v \<le> 253 \<and> 2 \<le> length (split_on 46 v) \<and> isIP v = None \<and> list_all host_label (split_on 46 v)"

section \<open>The proxy\<close>

record https_proxy =
  proxy_hostname :: jsstring
  proxy_address :: jsstring
  proxy_port :: nat
  proxy_ca :: "jsstring option"

definition proxy_address_char :: "nat \<Rightarrow> bool" where
  "proxy_address_char c \<longleftrightarrow> \<not> js_space c \<and> c \<noteq> 37 \<and> c \<noteq> 47 \<and> c \<noteq> 91 \<and> c \<noteq> 93"

text \<open>A certificate authority, where it is given, is a text that is not empty.\<close>

fun ca_of :: "network_value \<Rightarrow> jsstring option option" where
  "ca_of UndefinedValue = Some None"
| "ca_of (TextValue t) = (if t = [] then None else Some (Some t))"
| "ca_of _ = None"

definition snapshotDirectoryProxy :: "network_value \<Rightarrow> candidate_error + https_proxy" where
  "snapshotDirectoryProxy input =
     (case input of
        ObjectValue own \<Rightarrow>
          if \<not> list_all (own_data [''protocol'', ''hostname'', ''address'', ''port'', ''ca'']) own
          then misconfigured InvalidAgentBinding
          else
            (case (network_field own ''protocol'', network_field own ''hostname'', network_field own ''address'',
                network_field own ''port'', ca_of (network_field own ''ca'')) of
               (TextValue protocol, TextValue hostname, TextValue address, NumberValue (JsInt port), Some ca) \<Rightarrow>
                 if protocol \<noteq> lit ''https:'' \<or> \<not> hostnameValid hostname \<or> 45 < length address \<or>
                   \<not> list_all proxy_address_char address \<or> isIP address = None \<or> port < 1 \<or> 65535 < port
                 then misconfigured InvalidAgentBinding
                 else Inr \<lparr>proxy_hostname = hostname, proxy_address = address, proxy_port = nat port, proxy_ca = ca\<rparr>
             | _ \<Rightarrow> misconfigured InvalidAgentBinding)
      | _ \<Rightarrow> misconfigured InvalidAgentBinding)"

section \<open>The fetch options\<close>

datatype fetch_mode = Allowlist | OpenMode

record fetch_options =
  fetch_mode :: fetch_mode
  allowedOrigins :: "jsstring list"
  fetch_policy :: "address_exception list"
  totalMilliseconds :: nat
  fetch_ca :: "jsstring option"
  fetch_signal :: "nat option"
  fetch_proxy :: "https_proxy option"

fun mode_of :: "network_value \<Rightarrow> candidate_error + fetch_mode" where
  "mode_of UndefinedValue = Inr Allowlist"
| "mode_of (TextValue t) =
     (if t = lit ''allowlist'' then Inr Allowlist
      else if t = lit ''open'' then Inr OpenMode else misconfigured InvalidAgentBinding)"
| "mode_of _ = misconfigured InvalidAgentBinding"

fun total_of :: "network_value \<Rightarrow> candidate_error + nat" where
  "total_of UndefinedValue = Inr 3000"
| "total_of (NumberValue (JsInt n)) =
     (if 0 < n \<and> n \<le> 3000 then Inr (nat n) else misconfigured InvalidResourceLimits)"
| "total_of _ = misconfigured InvalidResourceLimits"

text \<open>The default policy is an owned one, without exceptions.\<close>

fun policy_of :: "network_value \<Rightarrow> candidate_error + address_exception list" where
  "policy_of UndefinedValue = Inr []"
| "policy_of (PolicyValue (OwnedPolicy exceptions)) = Inr exceptions"
| "policy_of _ = misconfigured InvalidAgentBinding"

definition origin_limit :: js_number where
  "origin_limit = JsInt (int (number_at DEFAULT_PROFILE_LIMITS ''maxAgentUrlBytes''))"

definition add_origin :: "url_parser \<Rightarrow> jsstring list \<Rightarrow> origin_element \<Rightarrow> candidate_error + jsstring list" where
  "add_origin parse_url origins e =
     (case e of
        NoDataElement \<Rightarrow> misconfigured InvalidAgentBinding
      | DataElement v \<Rightarrow> bindE (configuredAgentOrigin parse_url v origin_limit) (\<lambda>origin. Inr (origins @ [origin])))"

fun origins_of :: "url_parser \<Rightarrow> network_value \<Rightarrow> candidate_error + jsstring list" where
  "origins_of parse_url UndefinedValue = Inr []"
| "origins_of parse_url (OriginsValue es) =
     (if 1000 < length es then misconfigured InvalidAgentBinding else foldE (add_origin parse_url) [] es)"
| "origins_of parse_url _ = misconfigured InvalidAgentBinding"

fun signal_of :: "network_value \<Rightarrow> candidate_error + nat option" where
  "signal_of UndefinedValue = Inr None"
| "signal_of (SignalValue i) = Inr (Some i)"
| "signal_of _ = misconfigured InvalidAgentBinding"

definition proxy_of :: "network_value \<Rightarrow> candidate_error + https_proxy option" where
  "proxy_of v = (if v = UndefinedValue then Inr None else bindE (snapshotDirectoryProxy v) (\<lambda>p. Inr (Some p)))"

definition snapshotDirectoryFetchOptions :: "url_parser \<Rightarrow> network_value \<Rightarrow> candidate_error + fetch_options" where
  "snapshotDirectoryFetchOptions parse_url input =
     (case (case input of UndefinedValue \<Rightarrow> Some [] | ObjectValue own \<Rightarrow> Some own | _ \<Rightarrow> None) of
        None \<Rightarrow> misconfigured InvalidAgentBinding
      | Some own \<Rightarrow>
          if \<not> list_all (own_data [''mode'', ''allowedOrigins'', ''policy'', ''proxy'', ''ca'', ''totalMilliseconds'', ''signal'']) own
          then misconfigured InvalidAgentBinding
          else
            bindE (mode_of (network_field own ''mode'')) (\<lambda>mode.
            bindE (total_of (network_field own ''totalMilliseconds'')) (\<lambda>total.
            bindE (policy_of (network_field own ''policy'')) (\<lambda>policy.
            bindE (origins_of parse_url (network_field own ''allowedOrigins'')) (\<lambda>origins.
            bindE (case ca_of (network_field own ''ca'') of None \<Rightarrow> misconfigured InvalidKeyConfiguration | Some ca \<Rightarrow> Inr ca) (\<lambda>ca.
            bindE (signal_of (network_field own ''signal'')) (\<lambda>signal.
            bindE (proxy_of (network_field own ''proxy'')) (\<lambda>proxy.
            Inr \<lparr>fetch_mode = mode, allowedOrigins = origins, fetch_policy = policy, totalMilliseconds = total,
                 fetch_ca = ca, fetch_signal = signal, fetch_proxy = proxy\<rparr>))))))))"

text \<open>Admission: in the allowlist mode only the configured origins.\<close>

definition origin_admitted :: "fetch_options \<Rightarrow> jsstring \<Rightarrow> bool" where
  "origin_admitted network origin \<longleftrightarrow> fetch_mode network = OpenMode \<or> origin \<in> set (allowedOrigins network)"

lemma snapshot_bounds:
  assumes "snapshotDirectoryFetchOptions parse_url input = Inr network"
  shows "0 < totalMilliseconds network \<and> totalMilliseconds network \<le> 3000 \<and> length (allowedOrigins network) \<le> 1000"
proof -
  have total: "total_of v = Inr n \<Longrightarrow> 0 < n \<and> n \<le> 3000" for v n
    by (cases v rule: total_of.cases) (auto simp: misconfigured_def split: if_splits)
  have grow: "foldE (add_origin parse_url) os es = Inr os' \<Longrightarrow> length os' = length os + length es" for os es os'
    by (induction es arbitrary: os)
      (auto simp: bindE_eq_Inr add_origin_def misconfigured_def split: origin_element.splits)
  have origins: "origins_of parse_url v = Inr os \<Longrightarrow> length os \<le> 1000" for v os
    by (cases "(parse_url, v)" rule: origins_of.cases) (auto simp: misconfigured_def dest: grow split: if_splits)
  obtain v w n os where "total_of v = Inr n" "origins_of parse_url w = Inr os"
      "totalMilliseconds network = n" "allowedOrigins network = os"
    using assms
    by (auto simp: snapshotDirectoryFetchOptions_def misconfigured_def bindE_eq_Inr split: option.splits if_splits network_value.splits)
  then show ?thesis using total origins by blast
qed

end
