(* ===== verification/FetchScheduler.thy ===== *)
theory FetchScheduler
  imports "HOL-Library.AList" ClockTracker ProfileAgent
begin

text \<open>
  The directory fetch scheduler, \<^verbatim>\<open>fetch-scheduler.ts\<close>. A \<open>Job\<close> object is shared by the map, the
  queue and the coroutine that executes it, so jobs live in a store and the identity of a job is
  its position there. The monotonic clock and the worker are the environment: the clock is a
  function from the number of the reading to a finite number or \<open>None\<close> (it threw, or the reading is
  not finite), the worker says whether its call for a job returned a promise or threw. Each call
  from outside is one event: \<open>run\<close>, a deadline timer, a wake timer, the settling of a worker's
  promise; timers may fire at any time, so the theorems do not rest on the timer service.
\<close>

section \<open>State\<close>

datatype admission_reason = CapacityReason | OriginRate | DeadlineReason | ClockReason | FetchFailed

datatype 'v settlement = Resolved 'v | Rejected admission_reason

record 'v job =
  job_origin :: jsstring
  job_started :: rat
  job_aborted :: bool
  job_promise :: "'v settlement option"
  job_timer :: "rat option"
  job_active :: bool
  job_settled :: bool

text \<open>
  \<open>wakes\<close> are the wake timers that are armed, each with its delay; \<open>waiting\<close> the jobs whose
  coroutine waits for the worker. \<open>clock_reads\<close> counts the readings of the clock, \<open>worker_calls\<close>
  lists the calls of the worker with their remaining milliseconds, and \<open>dispatched\<close> is a history
  of the starts, each with its origin and time.
\<close>

record 'v scheduler =
  store :: "'v job list"
  jobs :: "(jsstring \<times> nat) list"
  queue :: "nat list"
  originStarts :: "(jsstring \<times> rat) list"
  starts :: "rat list"
  active :: nat
  lastTime :: rat
  healthy :: bool
  wake :: "nat option"
  wakes :: "(nat \<times> rat) list"
  waiting :: "nat list"
  clock_reads :: nat
  wake_count :: nat
  worker_calls :: "(nat \<times> int) list"
  dispatched :: "(jsstring \<times> rat) list"

record scheduler_env =
  clock_reading :: "nat \<Rightarrow> rat option"
  worker_returns :: "nat \<Rightarrow> bool"

definition new_scheduler :: "'v scheduler" where
  "new_scheduler = \<lparr>store = [], jobs = [], queue = [], originStarts = [], starts = [], active = 0,
     lastTime = 0, healthy = True, wake = None, wakes = [], waiting = [], clock_reads = 0,
     wake_count = 0, worker_calls = [], dispatched = []\<rparr>"

section \<open>Operations\<close>

definition with_job :: "nat \<Rightarrow> ('v job \<Rightarrow> 'v job) \<Rightarrow> 'v scheduler \<Rightarrow> 'v scheduler" where
  "with_job i f s = s\<lparr>store := (store s)[i := f (store s ! i)]\<rparr>"

definition forget_job :: "nat \<Rightarrow> 'v scheduler \<Rightarrow> 'v scheduler" where
  "forget_job i s = s\<lparr>jobs := AList.delete (job_origin (store s ! i)) (jobs s)\<rparr>"

definition settle_job :: "'v settlement \<Rightarrow> 'v job \<Rightarrow> 'v job" where
  "settle_job r j = j\<lparr>job_settled := True, job_timer := None, job_promise := Some r\<rparr>"

definition fail_job :: "admission_reason \<Rightarrow> nat \<Rightarrow> 'v scheduler \<Rightarrow> 'v scheduler" where
  "fail_job reason i s =
     (if job_settled (store s ! i) then s
      else let s1 = with_job i (\<lambda>j. (settle_job (Rejected reason) j)\<lparr>job_aborted := True\<rparr>) s in
        if job_active (store s ! i) then s1
        else forget_job i (s1\<lparr>queue := remove1 i (queue s1)\<rparr>))"

definition clear_wake :: "'v scheduler \<Rightarrow> 'v scheduler" where
  "clear_wake s = s\<lparr>wakes := filter (\<lambda>(w, _). wake s \<noteq> Some w) (wakes s), wake := None\<rparr>"

definition set_wake :: "rat \<Rightarrow> 'v scheduler \<Rightarrow> 'v scheduler" where
  "set_wake delay s = s\<lparr>wake := Some (wake_count s), wakes := wakes s @ [(wake_count s, delay)],
     wake_count := wake_count s + 1\<rparr>"

definition clock_failed :: "'v scheduler \<Rightarrow> 'v scheduler" where
  "clock_failed s = (let s1 = clear_wake (s\<lparr>healthy := False\<rparr>) in
     fold (\<lambda>(_, i). fail_job ClockReason i) (jobs s1) s1)"

definition sched_now :: "scheduler_env \<Rightarrow> 'v scheduler \<Rightarrow> rat option \<times> 'v scheduler" where
  "sched_now env s =
     (if \<not> healthy s then (None, s)
      else let s1 = s\<lparr>clock_reads := clock_reads s + 1\<rparr> in
        case clock_reading env (clock_reads s) of
          None \<Rightarrow> (None, clock_failed s1)
        | Some t \<Rightarrow>
            if t < lastTime s \<or> of_nat (max_safe - 30000) < t then (None, clock_failed s1)
            else (Some t, s1\<lparr>lastTime := t\<rparr>))"

definition prune :: "rat \<Rightarrow> 'v scheduler \<Rightarrow> 'v scheduler" where
  "prune t s = s\<lparr>starts := dropWhile (\<lambda>u. 1000 \<le> double (t - u)) (starts s),
     originStarts := filter (\<lambda>(_, u). double (t - u) < 30000) (originStarts s)\<rparr>"

definition expire :: "rat \<Rightarrow> 'v scheduler \<Rightarrow> 'v scheduler" where
  "expire t s = fold (\<lambda>i s. if 3000 \<le> double (t - job_started (store s ! i))
     then fail_job DeadlineReason i s else s) (queue s) s"

definition dispatch :: "rat \<Rightarrow> nat \<Rightarrow> 'v scheduler \<Rightarrow> 'v scheduler" where
  "dispatch t i s = with_job i (\<lambda>j. j\<lparr>job_active := True\<rparr>) (s\<lparr>queue := tl (queue s),
     active := active s + 1, starts := starts s @ [t],
     originStarts := AList.update (job_origin (store s ! i)) t (originStarts s),
     dispatched := dispatched s @ [(job_origin (store s ! i), t)]\<rparr>)"

text \<open>\<open>#execute\<close> up to its \<open>await\<close>: whether it has returned already, so that its \<open>finally\<close> runs now.\<close>

definition execute_begin :: "scheduler_env \<Rightarrow> nat \<Rightarrow> 'v scheduler \<Rightarrow> bool \<times> 'v scheduler" where
  "execute_begin env i s =
     (case sched_now env s of
        (None, s1) \<Rightarrow> (True, s1)
      | (Some t, s1) \<Rightarrow>
          if job_settled (store s1 ! i) then (True, s1)
          else let remaining = \<lfloor>double (3000 - double (t - job_started (store s1 ! i)))\<rfloor> in
            if remaining \<le> 0 then (True, fail_job DeadlineReason i s1)
            else let s2 = s1\<lparr>worker_calls := worker_calls s1 @ [(i, remaining)]\<rparr> in
              if worker_returns env i then (False, s2\<lparr>waiting := waiting s2 @ [i]\<rparr>)
              else (True, fail_job FetchFailed i s2))"

definition release :: "nat \<Rightarrow> 'v scheduler \<Rightarrow> 'v scheduler" where
  "release i s = forget_job i (s\<lparr>active := active s - 1\<rparr>)"

text \<open>
  The loop of \<open>#pump\<close>. A job whose execution returns before its \<open>await\<close> releases its slot and
  pumps from inside the loop; \<open>None\<close> is a loop that does not end.
\<close>

partial_function (option) pump_loop :: "scheduler_env \<Rightarrow> 'v scheduler \<Rightarrow> 'v scheduler option" where
  "pump_loop env s =
     (case sched_now env s of
        (None, s1) \<Rightarrow> Some s1
      | (Some t, s1) \<Rightarrow>
          let s2 = expire t (prune t s1) in
          if queue s2 = [] \<or> 16 \<le> active s2 then Some s2
          else if 32 \<le> length (starts s2)
          then Some (set_wake (max 1 (of_int \<lceil>double (double (hd (starts s2) + 1000) - t)\<rceil>)) s2)
          else if 1000 \<le> length (originStarts s2)
          then pump_loop env (fail_job CapacityReason (hd (queue s2)) s2)
          else let (returned, s3) = execute_begin env (hd (queue s2)) (dispatch t (hd (queue s2)) s2) in
            if returned
            then Option.bind (pump_loop env (clear_wake (release (hd (queue s2)) s3))) (\<lambda>s4. pump_loop env s4)
            else pump_loop env s3)"

definition pump :: "scheduler_env \<Rightarrow> 'v scheduler \<Rightarrow> 'v scheduler option" where
  "pump env s = pump_loop env (clear_wake s)"

section \<open>Calls from outside\<close>

datatype run_result = RunThrows candidate_error | RunRejects admission_reason | RunJob nat

definition add_job :: "jsstring \<Rightarrow> rat \<Rightarrow> rat \<Rightarrow> 'v scheduler \<Rightarrow> 'v scheduler" where
  "add_job origin started t s =
     (let i = length (store s);
          j = \<lparr>job_origin = origin, job_started = started, job_aborted = False, job_promise = None,
               job_timer = Some (max 1 (of_int \<lceil>double (3000 - double (t - started))\<rceil>)),
               job_active = False, job_settled = False\<rparr> in
      s\<lparr>store := store s @ [j], jobs := AList.update origin i (jobs s), queue := queue s @ [i]\<rparr>)"

definition run_admitted ::
    "scheduler_env \<Rightarrow> jsstring \<Rightarrow> rat \<Rightarrow> rat \<Rightarrow> 'v scheduler \<Rightarrow> (run_result \<times> 'v scheduler) option" where
  "run_admitted env origin started t s =
     (case map_of (jobs s) origin of
        Some i \<Rightarrow>
          Some (RunJob i,
            if \<not> job_settled (store s ! i) \<and> 3000 \<le> double (t - job_started (store s ! i))
            then fail_job DeadlineReason i s else s)
      | None \<Rightarrow>
          let s1 = prune t s in
          if map_of (originStarts s1) origin \<noteq> None then Some (RunRejects OriginRate, s1)
          else if 1000 \<le> length (originStarts s1) \<or>
            64 \<le> length (queue s1) \<and> (16 \<le> active s1 \<or> 32 \<le> length (starts s1))
          then Some (RunRejects CapacityReason, s1)
          else map_option (Pair (RunJob (length (store s1)))) (pump env (add_job origin started t s1)))"

definition run_scheduler :: "scheduler_env \<Rightarrow> url_parser \<Rightarrow> jsstring \<Rightarrow> sample option \<Rightarrow> 'v scheduler
    \<Rightarrow> (run_result \<times> 'v scheduler) option" where
  "run_scheduler env parse_url originInput startedAt s =
     (case configuredAgentOrigin parse_url (Some originInput) (JsInt (int (number_at DEFAULT_PROFILE_LIMITS ''maxAgentUrlBytes''))) of
        Inl e \<Rightarrow> Some (RunThrows e, s)
      | Inr origin \<Rightarrow>
          case sched_now env s of
            (None, s1) \<Rightarrow> Some (RunRejects ClockReason, s1)
          | (Some t, s1) \<Rightarrow>
              case (case startedAt of None \<Rightarrow> Some t | Some v \<Rightarrow> v) of
                None \<Rightarrow> Some (RunRejects ClockReason, s1)
              | Some started \<Rightarrow>
                  if started < 0 \<or> t < started then Some (RunRejects ClockReason, s1)
                  else if 3000 \<le> double (t - started) then Some (RunRejects DeadlineReason, s1)
                  else run_admitted env origin started t s1)"

definition deadline_fires :: "scheduler_env \<Rightarrow> nat \<Rightarrow> 'v scheduler \<Rightarrow> 'v scheduler option" where
  "deadline_fires env i s = pump env (fail_job DeadlineReason i (with_job i (\<lambda>j. j\<lparr>job_timer := None\<rparr>) s))"

definition wake_fires :: "scheduler_env \<Rightarrow> nat \<Rightarrow> 'v scheduler \<Rightarrow> 'v scheduler option" where
  "wake_fires env w s = pump env (s\<lparr>wakes := filter (\<lambda>(v, _). v \<noteq> w) (wakes s)\<rparr>)"

text \<open>The rest of \<open>#execute\<close>, when the worker's promise has settled: its value, or \<open>None\<close> when it is
  rejected.\<close>

definition execute_resume :: "scheduler_env \<Rightarrow> nat \<Rightarrow> 'v option \<Rightarrow> 'v scheduler \<Rightarrow> 'v scheduler" where
  "execute_resume env i result s =
     (case result of
        None \<Rightarrow> fail_job FetchFailed i s
      | Some v \<Rightarrow>
          case sched_now env s of (completed, s1) \<Rightarrow>
            if job_settled (store s1 ! i) then s1
            else case completed of
                None \<Rightarrow> fail_job ClockReason i s1
              | Some t \<Rightarrow>
                  if 3000 \<le> double (t - job_started (store s1 ! i)) then fail_job DeadlineReason i s1
                  else with_job i (settle_job (Resolved v)) s1)"

definition worker_settles ::
    "scheduler_env \<Rightarrow> nat \<Rightarrow> 'v option \<Rightarrow> 'v scheduler \<Rightarrow> 'v scheduler option" where
  "worker_settles env i result s =
     pump env (release i (execute_resume env i result (s\<lparr>waiting := remove1 i (waiting s)\<rparr>)))"

record scheduler_statistics =
  stat_active :: nat
  stat_queued :: nat
  stat_origins :: nat
  stat_starts :: nat

definition scheduler_stats :: "'v scheduler \<Rightarrow> scheduler_statistics" where
  "scheduler_stats s = \<lparr>stat_active = active s, stat_queued = length (queue s),
     stat_origins = length (originStarts s), stat_starts = length (starts s)\<rparr>"

section \<open>Events\<close>

datatype 'v scheduler_event =
    RunEvent jsstring "sample option" | DeadlineEvent nat | WakeEvent nat | WorkerEvent nat "'v option"

fun event_enabled :: "'v scheduler_event \<Rightarrow> 'v scheduler \<Rightarrow> bool" where
  "event_enabled (RunEvent _ _) s = True"
| "event_enabled (DeadlineEvent i) s = (i < length (store s) \<and> job_timer (store s ! i) \<noteq> None)"
| "event_enabled (WakeEvent w) s = (w \<in> fst ` set (wakes s))"
| "event_enabled (WorkerEvent i _) s = (i \<in> set (waiting s))"

fun handle_event ::
    "scheduler_env \<Rightarrow> url_parser \<Rightarrow> 'v scheduler_event \<Rightarrow> 'v scheduler \<Rightarrow> 'v scheduler option" where
  "handle_event env p (RunEvent v t) s = map_option snd (run_scheduler env p v t s)"
| "handle_event env p (DeadlineEvent i) s = deadline_fires env i s"
| "handle_event env p (WakeEvent w) s = wake_fires env w s"
| "handle_event env p (WorkerEvent i r) s = worker_settles env i r s"

inductive scheduler_reachable :: "scheduler_env \<Rightarrow> url_parser \<Rightarrow> 'v scheduler \<Rightarrow> bool" for env p where
  fresh: "scheduler_reachable env p new_scheduler"
| event: "scheduler_reachable env p s \<Longrightarrow> event_enabled e s \<Longrightarrow> handle_event env p e s = Some s' \<Longrightarrow>
    scheduler_reachable env p s'"

end
