(* ===== verification/DirTransport.thy ===== *)
theory DirTransport
  imports DirFreshness DirConfig FetchScheduler
begin

text \<open>
  The transport that the profiles share, \<^verbatim>\<open>discovery/directory-transport.ts\<close>: one scheduler whose
  worker classifies the outcome of a fetch, and for every job one delivery, the callback chained to
  the promise of the job. The \<open>WeakMap\<close> of deliveries is keyed by the promise, here by the job. What
  a delivery does with a response, the participants, comes with the services.
\<close>

section \<open>Results\<close>

datatype fetch_failure = AddressDenied | TransportFailed

datatype transport_result = TransportResponse directory_response | TransportFailure fetch_failure

text \<open>The outcome of the injected fetch: a response, a DNS or connection error that denies the
  address, or anything else that is thrown.\<close>

datatype fetch_outcome = FetchedResponse directory_response | AddressError | OtherError

fun fetch_result :: "fetch_outcome \<Rightarrow> transport_result" where
  "fetch_result (FetchedResponse response) = TransportResponse response"
| "fetch_result AddressError = TransportFailure AddressDenied"
| "fetch_result OtherError = TransportFailure TransportFailed"

text \<open>How the promise of a delivery settles: with the result, with an admission error, or with
  anything else a participant throws.\<close>

datatype delivery = Delivered transport_result | DeliveryRejected admission_reason | DeliveryBroken

text \<open>The promise \<open>run\<close> returns: rejected already, or the delivery of a job.\<close>

datatype delivery_handle = HandleRejected admission_reason | HandleJob nat

section \<open>State\<close>

record transport =
  tr_scheduler :: "transport_result scheduler"
  tr_deliveries :: "(nat \<times> jsstring \<times> rat) list"
  tr_settled :: "(nat \<times> delivery) list"
  tr_participants :: nat
  tr_started :: bool
  tr_time :: rat
  tr_healthy :: bool

definition new_transport :: transport where
  "new_transport = \<lparr>tr_scheduler = new_scheduler, tr_deliveries = [], tr_settled = [], tr_participants = 0,
     tr_started = False, tr_time = 0, tr_healthy = True\<rparr>"

section \<open>Operations\<close>

text \<open>\<open>register\<close>; \<open>None\<close> is its error.\<close>

definition register_participant :: "transport \<Rightarrow> transport option" where
  "register_participant tr =
     (if tr_started tr \<or> 2 \<le> tr_participants tr then None
      else Some (tr\<lparr>tr_participants := tr_participants tr + 1\<rparr>))"

definition checkDeadline :: "sample \<Rightarrow> rat \<Rightarrow> transport \<Rightarrow> (admission_reason + unit) \<times> transport" where
  "checkDeadline reading startedAt tr =
     (case reading of
        None \<Rightarrow> (Inl ClockReason, tr\<lparr>tr_healthy := False\<rparr>)
      | Some t \<Rightarrow>
          if \<not> tr_healthy tr \<or> t < tr_time tr \<or> of_nat (max_safe - 3000) < t
          then (Inl ClockReason, tr\<lparr>tr_healthy := False\<rparr>)
          else (if t < startedAt \<or> 3000 \<le> double (t - startedAt) then Inl DeadlineReason else Inr (), tr\<lparr>tr_time := t\<rparr>))"

text \<open>\<open>run\<close>: a throw of the scheduler, or a promise; \<open>None\<close> is a scheduler that does not return.\<close>

definition run_transport ::
    "scheduler_env \<Rightarrow> url_parser \<Rightarrow> jsstring \<Rightarrow> rat \<Rightarrow> transport \<Rightarrow> ((candidate_error + delivery_handle) \<times> transport) option" where
  "run_transport env parse_url origin startedAt tr =
     (case run_scheduler env parse_url origin (Some (Some startedAt)) (tr_scheduler tr) of
        None \<Rightarrow> None
      | Some (result, s) \<Rightarrow>
          let tr1 = tr\<lparr>tr_started := True, tr_scheduler := s\<rparr> in
          Some (case result of
            RunThrows e \<Rightarrow> (Inl e, tr1)
          | RunRejects reason \<Rightarrow> (Inr (HandleRejected reason), tr1)
          | RunJob i \<Rightarrow> (Inr (HandleJob i),
              if map_of (tr_deliveries tr1) i \<noteq> None then tr1
              else tr1\<lparr>tr_deliveries := tr_deliveries tr1 @ [(i, origin, startedAt)]\<rparr>)))"

definition handle_settled :: "delivery_handle \<Rightarrow> transport \<Rightarrow> delivery option" where
  "handle_settled handle tr =
     (case handle of HandleRejected reason \<Rightarrow> Some (DeliveryRejected reason) | HandleJob i \<Rightarrow> map_of (tr_settled tr) i)"

text \<open>The delivery of a job runs once its promise has settled, and only once: the origin and the
  start it was chained with, and what the promise settled with.\<close>

definition ready_delivery :: "nat \<Rightarrow> transport \<Rightarrow> (jsstring \<times> rat \<times> transport_result settlement) option" where
  "ready_delivery i tr =
     (if map_of (tr_settled tr) i \<noteq> None \<or> \<not> i < length (store (tr_scheduler tr)) then None
      else case (map_of (tr_deliveries tr) i, job_promise (store (tr_scheduler tr) ! i)) of
             (Some (origin, startedAt), Some settlement) \<Rightarrow> Some (origin, startedAt, settlement)
           | _ \<Rightarrow> None)"

definition settle_delivery :: "nat \<Rightarrow> delivery \<Rightarrow> transport \<Rightarrow> transport" where
  "settle_delivery i outcome tr = tr\<lparr>tr_settled := tr_settled tr @ [(i, outcome)]\<rparr>"

text \<open>What the timers and the fetches do: the worker never rejects.\<close>

definition transport_event :: "scheduler_env \<Rightarrow> url_parser \<Rightarrow> transport_result scheduler_event \<Rightarrow> transport \<Rightarrow> transport option" where
  "transport_event env parse_url e tr =
     (if (case e of RunEvent _ _ \<Rightarrow> False | WorkerEvent _ result \<Rightarrow> result \<noteq> None | _ \<Rightarrow> True) \<and> event_enabled e (tr_scheduler tr)
      then map_option (\<lambda>s. tr\<lparr>tr_scheduler := s\<rparr>) (handle_event env parse_url e (tr_scheduler tr))
      else None)"

end
