(* ===== verification/DirCache.thy ===== *)
theory DirCache
  imports DirFreshness KeySet
begin

text \<open>
  Directory documents, \<^verbatim>\<open>discovery/directory-document.ts\<close>, and the cache of one format,
  \<^verbatim>\<open>discovery/directory-cache.ts\<close>. The \<open>Map\<close>s are lists in their order; preparation tickets and
  key selections are objects known to the cache by identity, here their numbers. Every operation
  takes the reading of the clock it makes, \<open>None\<close> for a throw or a reading that is not finite.
\<close>

section \<open>Documents\<close>

record 'k directory_document =
  document_format :: jwks_format
  document_jwks :: "'k loaded_jwks"
  bodyBytes :: nat
  documentBytes :: nat

datatype cache_error =
    DocumentRejected
  | OriginRejected candidate_error
  | FreshnessRejected configuration_code
  | InvalidPreparation

definition format_name :: "jwks_format \<Rightarrow> jsstring" where
  "format_name f = (case f of GenericJwks \<Rightarrow> lit ''jwks'' | WgDirectory00 \<Rightarrow> lit ''wg-directory-00'')"

definition directory_loader_options :: "jwks_format \<Rightarrow> loader_option js_options" where
  "directory_loader_options f = OwnKeys
     [(StringKey (lit ''format''), OptionText (format_name f)),
      (StringKey (lit ''limits''), OptionLimits (OwnKeys
        [(StringKey (lit ''maxJwksBytes''), DataProperty (JsInt 262144)),
         (StringKey (lit ''maxKeys''), DataProperty (JsInt 64))]))]"

text \<open>Every failure of the loader becomes the one error of a remote document.\<close>

definition parseDirectoryDocument ::
    "'k key_backend \<Rightarrow> json_parser \<Rightarrow> u8 list \<Rightarrow> jwks_format \<Rightarrow> cache_error + 'k directory_document" where
  "parseDirectoryDocument B json_parse body f =
     (if 262144 < length body then Inl DocumentRejected
      else case loadJwks B json_parse (JwksBytes body) (directory_loader_options f) of
        Inl _ \<Rightarrow> Inl DocumentRejected
      | Inr jwks \<Rightarrow> Inr \<lparr>document_format = f, document_jwks = jwks, bodyBytes = length body,
          documentBytes = length body + 1024 + (length (jwks_keys jwks) + length (jwks_skipped jwks)) * 1024\<rparr>)"

section \<open>Configuration\<close>

record cache_options =
  negativeSeconds :: nat
  maxPositiveEntries :: nat
  maxPositiveAccountedBytes :: nat
  maxNegativeEntries :: nat
  cache_freshness :: freshness_policy

definition cache_ceilings :: "(jsstring \<times> nat) list" where
  "cache_ceilings = [(lit ''negativeSeconds'', 300), (lit ''maxPositiveEntries'', 1000),
     (lit ''maxPositiveAccountedBytes'', 16777216), (lit ''maxNegativeEntries'', 1000)]"

definition cache_defaults :: "(jsstring \<times> nat) list" where
  "cache_defaults = [(lit ''negativeSeconds'', 60), (lit ''maxPositiveEntries'', 1000),
     (lit ''maxPositiveAccountedBytes'', 16777216), (lit ''maxNegativeEntries'', 1000)]"

text \<open>One own property: the numbers of the cache, and the overrides kept for the freshness policy.\<close>

definition cache_field ::
    "(jsstring \<times> nat) list \<times> (js_key \<times> js_property) list \<Rightarrow> js_key \<times> js_property
       \<Rightarrow> configuration_code + (jsstring \<times> nat) list \<times> (js_key \<times> js_property) list" where
  "cache_field s entry =
     (case entry of
        (StringKey name, DataProperty (JsInt v)) \<Rightarrow>
          if \<not> is_safe_integer v \<or> v < 0 then Inl InvalidResourceLimits
          else if name = lit ''fallbackSeconds'' \<or> name = lit ''maximumLifetimeSeconds''
          then Inr (fst s, map_set (StringKey name) (DataProperty (JsInt v)) (snd s))
          else (case map_of cache_ceilings name of
                  None \<Rightarrow> Inl InvalidResourceLimits
                | Some c \<Rightarrow> if int c < v then Inl InvalidResourceLimits else Inr (map_set name (nat v) (fst s), snd s))
      | _ \<Rightarrow> Inl InvalidResourceLimits)"

definition cache_configuration :: "js_property js_options \<Rightarrow> configuration_code + cache_options" where
  "cache_configuration input =
     bindE (case input of
        NoOptions \<Rightarrow> Inr (cache_defaults, [])
      | NotAnObject \<Rightarrow> Inl InvalidResourceLimits
      | OwnKeys ks \<Rightarrow> foldE cache_field (cache_defaults, []) ks) (\<lambda>(numbers, overrides).
     bindE (resolveDirectoryFreshnessPolicy (OwnKeys overrides)) (\<lambda>policy.
     Inr \<lparr>negativeSeconds = number_at numbers ''negativeSeconds'',
          maxPositiveEntries = number_at numbers ''maxPositiveEntries'',
          maxPositiveAccountedBytes = number_at numbers ''maxPositiveAccountedBytes'',
          maxNegativeEntries = number_at numbers ''maxNegativeEntries'', cache_freshness = policy\<rparr>))"

section \<open>State\<close>

record 'k cache_entry =
  entry_document :: "'k directory_document"
  entry_freshness :: freshness
  accountedBytes :: nat

record 'k directory_cache =
  positive :: "(jsstring \<times> 'k cache_entry) list"
  negative :: "(jsstring \<times> rat) list"
  prepared :: "('k directory_document \<times> freshness) option list"
  selections :: "(jsstring \<times> jsstring) list"
  cacheBytes :: int
  cacheTime :: rat
  cacheHealthy :: bool
  overflowUntil :: rat

definition new_cache :: "'k directory_cache" where
  "new_cache = \<lparr>positive = [], negative = [], prepared = [], selections = [], cacheBytes = 0, cacheTime = 0,
     cacheHealthy = True, overflowUntil = 0\<rparr>"

record 'k cache_platform =
  cp_keys :: "'k key_backend"
  cp_json :: json_parser
  cp_url :: url_parser
  cp_format :: jwks_format
  cp_options :: cache_options

definition cache_origin :: "'k cache_platform \<Rightarrow> jsstring \<Rightarrow> cache_error + jsstring" where
  "cache_origin C originInput =
     (case configuredAgentOrigin (cp_url C) (Some originInput)
         (JsInt (int (number_at DEFAULT_PROFILE_LIMITS ''maxAgentUrlBytes''))) of
        Inl e \<Rightarrow> Inl (OriginRejected e) | Inr origin \<Rightarrow> Inr origin)"

section \<open>Operations\<close>

definition cache_now :: "sample \<Rightarrow> 'k directory_cache \<Rightarrow> rat option \<times> 'k directory_cache" where
  "cache_now reading s =
     (if \<not> cacheHealthy s then (None, s)
      else case reading of
        None \<Rightarrow> (None, s\<lparr>cacheHealthy := False\<rparr>)
      | Some t \<Rightarrow>
          if t < cacheTime s \<or> of_nat max_safe < t then (None, s\<lparr>cacheHealthy := False\<rparr>)
          else (Some t, s\<lparr>cacheTime := t\<rparr>))"

definition remove_entry :: "jsstring \<Rightarrow> 'k directory_cache \<Rightarrow> 'k directory_cache" where
  "remove_entry origin s =
     (case map_of (positive s) origin of
        None \<Rightarrow> s
      | Some e \<Rightarrow> s\<lparr>cacheBytes := cacheBytes s - int (accountedBytes e), positive := map_delete origin (positive s)\<rparr>)"

definition freshness_overrides :: "freshness_policy \<Rightarrow> js_property js_options" where
  "freshness_overrides p = OwnKeys
     [(StringKey (lit ''fallbackSeconds''), DataProperty (JsInt (int (fallbackSeconds p)))),
      (StringKey (lit ''maximumLifetimeSeconds''), DataProperty (JsInt (int (maximumLifetimeSeconds p))))]"

definition cache_prepare :: "'k cache_platform \<Rightarrow> directory_response \<Rightarrow> 'k directory_cache \<Rightarrow> (cache_error + nat) \<times> 'k directory_cache" where
  "cache_prepare C response s =
     (case bindE (parseDirectoryDocument (cp_keys C) (cp_json C) (response_body response) (cp_format C)) (\<lambda>doc.
          case calculateDirectoryFreshness response (freshness_overrides (cache_freshness (cp_options C))) of
            Inl c \<Rightarrow> Inl (FreshnessRejected c) | Inr f \<Rightarrow> Inr (doc, f)) of
        Inl e \<Rightarrow> (Inl e, s)
      | Inr p \<Rightarrow> (Inr (length (prepared s)), s\<lparr>prepared := prepared s @ [Some p]\<rparr>))"

text \<open>The eviction loop, oldest entry first; \<open>False\<close> when it runs out of entries.\<close>

function evict :: "cache_options \<Rightarrow> nat \<Rightarrow> 'k directory_cache \<Rightarrow> bool \<times> 'k directory_cache" where
  "evict options needed s =
     (if maxPositiveEntries options \<le> length (positive s) \<or> int (maxPositiveAccountedBytes options) < cacheBytes s + int needed
      then (case positive s of
              [] \<Rightarrow> (False, s)
            | (oldest, e) # older \<Rightarrow> evict options needed (remove_entry oldest s))
      else (True, s))"
  by auto

lemma remove_entry_shorter: "positive s = (k, e) # es \<Longrightarrow> length (positive (remove_entry k s)) < Suc (length es)"
  by (simp add: remove_entry_def map_delete_def less_Suc_eq_le)

termination evict
  by (relation "measure (\<lambda>(options, needed, s). length (positive s))") (auto simp: remove_entry_shorter)

declare evict.simps [simp del]

text \<open>The time of receipt is a number of the monotonic clock, which gives no infinities: \<open>None\<close> stands
  for \<open>NaN\<close>, which is not later than any time.\<close>

definition commit_entry ::
    "cache_options \<Rightarrow> jsstring \<Rightarrow> 'k directory_document \<times> freshness \<Rightarrow> rat \<Rightarrow> 'k directory_cache \<Rightarrow> bool \<times> 'k directory_cache" where
  "commit_entry options origin p now s =
     (let s1 = (remove_entry origin s)\<lparr>negative := map_delete origin (negative s)\<rparr>;
          needed = documentBytes (fst p) + length origin * 2 + 256 in
      if \<not> persist (snd p) \<or> maxPositiveEntries options = 0 \<or> maxPositiveAccountedBytes options < needed \<or>
         (case receivedMonotonicMs (snd p) of None \<Rightarrow> False | Some received \<Rightarrow> now < received)
      then (False, s1)
      else
        (case evict options needed s1 of
           (False, s2) \<Rightarrow> (False, s2)
         | (True, s2) \<Rightarrow> (True, s2\<lparr>
             positive := map_set origin \<lparr>entry_document = fst p, entry_freshness = snd p, accountedBytes = needed\<rparr> (positive s2),
             cacheBytes := cacheBytes s2 + int needed\<rparr>)))"

definition cache_commit ::
    "'k cache_platform \<Rightarrow> jsstring \<Rightarrow> nat \<Rightarrow> sample \<Rightarrow> 'k directory_cache \<Rightarrow> (cache_error + bool) \<times> 'k directory_cache" where
  "cache_commit C originInput ticket reading s =
     (case cache_origin C originInput of
        Inl e \<Rightarrow> (Inl e, s)
      | Inr origin \<Rightarrow>
          (case if ticket < length (prepared s) then prepared s ! ticket else None of
             None \<Rightarrow> (Inl InvalidPreparation, s)
           | Some p \<Rightarrow>
               (case cache_now reading (s\<lparr>prepared := (prepared s)[ticket := None]\<rparr>) of
                  (None, s1) \<Rightarrow> (Inr False, s1)
                | (Some now, s1) \<Rightarrow> (case commit_entry (cp_options C) origin p now s1 of (kept, s2) \<Rightarrow> (Inr kept, s2)))))"

definition cache_replace ::
    "'k cache_platform \<Rightarrow> jsstring \<Rightarrow> directory_response \<Rightarrow> sample \<Rightarrow> 'k directory_cache \<Rightarrow> (cache_error + bool) \<times> 'k directory_cache" where
  "cache_replace C originInput response reading s =
     (case cache_origin C originInput of
        Inl e \<Rightarrow> (Inl e, s)
      | Inr origin \<Rightarrow>
          (case cache_prepare C response s of
             (Inl e, s1) \<Rightarrow> (Inl e, s1)
           | (Inr ticket, s1) \<Rightarrow> cache_commit C origin ticket reading s1))"

record 'k key_selection =
  selection_id :: nat
  selection_origin :: jsstring
  selection_key :: "'k loaded_key"

datatype 'k cache_lookup_result = KeyFound "'k key_selection" | KeyMissing unverified_code

definition fresh_entry :: "jsstring \<Rightarrow> rat option \<Rightarrow> 'k directory_cache \<Rightarrow> 'k cache_entry option" where
  "fresh_entry origin now s =
     (case (now, map_of (positive s) origin) of
        (Some t, Some e) \<Rightarrow> if isDirectoryFresh (entry_freshness e) (Some t) then Some e else None
      | _ \<Rightarrow> None)"

definition cache_lookup ::
    "'k cache_platform \<Rightarrow> jsstring \<Rightarrow> jsstring \<Rightarrow> sample \<Rightarrow> 'k directory_cache
       \<Rightarrow> (cache_error + 'k cache_lookup_result) \<times> 'k directory_cache" where
  "cache_lookup C originInput thumbprint reading s =
     (case cache_origin C originInput of
        Inl e \<Rightarrow> (Inl e, s)
      | Inr origin \<Rightarrow>
          (case cache_now reading s of
             (now, s1) \<Rightarrow>
               (case fresh_entry origin now s1 of
                  None \<Rightarrow> (Inr (KeyMissing UnknownKey), s1)
                | Some e \<Rightarrow>
                    (case lookup_key (document_jwks (entry_document e)) thumbprint of
                       Inl reason \<Rightarrow> (Inr (KeyMissing reason), s1)
                     | Inr k \<Rightarrow> (Inr (KeyFound \<lparr>selection_id = length (selections s1), selection_origin = origin, selection_key = k\<rparr>),
                         s1\<lparr>selections := selections s1 @ [(origin, lk_thumbprint k)]\<rparr>)))))"

definition cache_recheck :: "nat \<Rightarrow> sample \<Rightarrow> 'k directory_cache \<Rightarrow> bool \<times> 'k directory_cache" where
  "cache_recheck selection reading s =
     (case cache_now reading s of
        (now, s1) \<Rightarrow>
          if \<not> selection < length (selections s) then (False, s1)
          else case fresh_entry (fst (selections s ! selection)) now s1 of
            None \<Rightarrow> (False, s1)
          | Some e \<Rightarrow>
              (case lookup_key (document_jwks (entry_document e)) (snd (selections s ! selection)) of
                 Inl _ \<Rightarrow> (False, s1)
               | Inr k \<Rightarrow> (lk_thumbprint k = snd (selections s ! selection), s1)))"

definition pruneNegative :: "rat \<Rightarrow> 'k directory_cache \<Rightarrow> 'k directory_cache" where
  "pruneNegative now s = s\<lparr>negative := filter (\<lambda>(_, deadline). now < deadline) (negative s)\<rparr>"

definition negative_until :: "jsstring \<Rightarrow> 'k directory_cache \<Rightarrow> rat" where
  "negative_until origin s = (case map_of (negative s) origin of None \<Rightarrow> 0 | Some d \<Rightarrow> d)"

definition note_failure :: "cache_options \<Rightarrow> jsstring \<Rightarrow> rat \<Rightarrow> 'k directory_cache \<Rightarrow> 'k directory_cache" where
  "note_failure options origin now s0 =
     (let s = pruneNegative now s0; duration = of_nat (negativeSeconds options * 1000); deadline = double (now + duration) in
      if duration = 0 then s
      else if of_nat max_safe < deadline then s\<lparr>cacheHealthy := False\<rparr>
      else if origin \<in> fst ` set (negative s) \<or> length (negative s) < maxNegativeEntries options
      then s\<lparr>negative := map_set origin (max deadline (negative_until origin s)) (negative s)\<rparr>
      else s\<lparr>overflowUntil := max (overflowUntil s) deadline\<rparr>)"

definition recordFailure :: "'k cache_platform \<Rightarrow> jsstring \<Rightarrow> sample \<Rightarrow> 'k directory_cache \<Rightarrow> (cache_error + unit) \<times> 'k directory_cache" where
  "recordFailure C originInput reading s =
     (case cache_origin C originInput of
        Inl e \<Rightarrow> (Inl e, s)
      | Inr origin \<Rightarrow>
          (case cache_now reading s of
             (None, s1) \<Rightarrow> (Inr (), s1)
           | (Some now, s1) \<Rightarrow> (Inr (), note_failure (cp_options C) origin now s1)))"

definition fetchBlocked :: "'k cache_platform \<Rightarrow> jsstring \<Rightarrow> sample \<Rightarrow> 'k directory_cache \<Rightarrow> (cache_error + bool) \<times> 'k directory_cache" where
  "fetchBlocked C originInput reading s =
     (case cache_origin C originInput of
        Inl e \<Rightarrow> (Inl e, s)
      | Inr origin \<Rightarrow>
          (case cache_now reading s of
             (None, s1) \<Rightarrow> (Inr True, s1)
           | (Some now, s1) \<Rightarrow>
               let s2 = pruneNegative now s1 in (Inr (now < overflowUntil s2 \<or> now < negative_until origin s2), s2)))"

definition cache_stats :: "'k directory_cache \<Rightarrow> nat \<times> int \<times> nat" where
  "cache_stats s = (length (positive s), cacheBytes s, length (negative s))"

end
