(* ===== verification/DirCacheSafety.thy ===== *)
theory DirCacheSafety
  imports DirCache
begin

text \<open>
  What the directory cache guarantees after any calls: its accounting and its limits, and that a key
  it gives out or rechecks belongs to the latest set committed for its origin, while that is fresh.
\<close>

section \<open>Calls\<close>

datatype cache_call =
    CachePrepare directory_response
  | CacheCommit jsstring nat sample
  | CacheReplace jsstring directory_response sample
  | CacheLookup jsstring jsstring sample
  | CacheRecheck nat sample
  | CacheFailure jsstring sample
  | CacheBlocked jsstring sample

fun cache_step :: "'k cache_platform \<Rightarrow> cache_call \<Rightarrow> 'k directory_cache \<Rightarrow> 'k directory_cache" where
  "cache_step C (CachePrepare response) s = snd (cache_prepare C response s)"
| "cache_step C (CacheCommit origin ticket reading) s = snd (cache_commit C origin ticket reading s)"
| "cache_step C (CacheReplace origin response reading) s = snd (cache_replace C origin response reading s)"
| "cache_step C (CacheLookup origin thumbprint reading) s = snd (cache_lookup C origin thumbprint reading s)"
| "cache_step C (CacheRecheck selection reading) s = snd (cache_recheck selection reading s)"
| "cache_step C (CacheFailure origin reading) s = snd (recordFailure C origin reading s)"
| "cache_step C (CacheBlocked origin reading) s = snd (fetchBlocked C origin reading s)"

text \<open>The specification: the latest set committed for each origin, while the clock was healthy.\<close>

type_synonym 'k evidence = "jsstring \<rightharpoonup> 'k directory_document \<times> freshness"

definition commit_evidence ::
    "'k cache_platform \<Rightarrow> jsstring \<Rightarrow> nat \<Rightarrow> sample \<Rightarrow> 'k directory_cache \<Rightarrow> 'k evidence \<Rightarrow> 'k evidence" where
  "commit_evidence C originInput ticket reading s ev =
     (case (cache_origin C originInput, if ticket < length (prepared s) then prepared s ! ticket else None,
        fst (cache_now reading s)) of
        (Inr origin, Some p, Some _) \<Rightarrow> ev(origin \<mapsto> p)
      | _ \<Rightarrow> ev)"

definition step_evidence :: "'k cache_platform \<Rightarrow> cache_call \<Rightarrow> 'k directory_cache \<Rightarrow> 'k evidence \<Rightarrow> 'k evidence" where
  "step_evidence C call s ev =
     (case call of
        CacheCommit originInput ticket reading \<Rightarrow> commit_evidence C originInput ticket reading s ev
      | CacheReplace originInput response reading \<Rightarrow>
          (case (cache_origin C originInput, cache_prepare C response s) of
             (Inr origin, (Inr ticket, s1)) \<Rightarrow> commit_evidence C origin ticket reading s1 ev
           | _ \<Rightarrow> ev)
      | _ \<Rightarrow> ev)"

definition cache_trace :: "'k cache_platform \<Rightarrow> cache_call list \<Rightarrow> 'k directory_cache \<times> 'k evidence" where
  "cache_trace C calls = foldl (\<lambda>(s, ev) c. (cache_step C c s, step_evidence C c s ev)) (new_cache, Map.empty) calls"

section \<open>Invariant\<close>

definition accounted :: "(jsstring \<times> 'k cache_entry) list \<Rightarrow> int" where
  "accounted es = (\<Sum>e \<leftarrow> es. int (accountedBytes (snd e)))"

definition cache_ok :: "cache_options \<Rightarrow> 'k evidence \<Rightarrow> 'k directory_cache \<Rightarrow> bool" where
  "cache_ok options ev s \<longleftrightarrow>
     cacheBytes s = accounted (positive s) \<and> distinct (map fst (positive s)) \<and> distinct (map fst (negative s)) \<and>
     length (positive s) \<le> maxPositiveEntries options \<and> cacheBytes s \<le> int (maxPositiveAccountedBytes options) \<and>
     length (negative s) \<le> maxNegativeEntries options \<and>
     (\<forall>origin e. map_of (positive s) origin = Some e \<longrightarrow> ev origin = Some (entry_document e, entry_freshness e))"

lemma accounted_Cons: "accounted (e # es) = int (accountedBytes (snd e)) + accounted es"
  by (simp add: accounted_def)

lemma accounted_append: "accounted (es @ fs) = accounted es + accounted fs"
  by (simp add: accounted_def)

lemma accounted_nonneg: "0 \<le> accounted es"
  by (induction es) (simp_all add: accounted_def)

lemma accounted_delete:
  "distinct (map fst es) \<Longrightarrow> map_of es k = Some e \<Longrightarrow> accounted (map_delete k es) = accounted es - int (accountedBytes e)"
proof (induction es)
  case (Cons x es)
  show ?case
  proof (cases "fst x = k")
    case True
    then have "map_delete k (x # es) = es" "e = snd x"
      using Cons.prems by (cases x; simp add: map_delete_absent)+
    then show ?thesis by (simp add: accounted_Cons)
  next
    case False
    then show ?thesis using Cons by (cases x) (simp add: accounted_Cons map_delete_def)
  qed
qed simp

lemma length_map_delete: "length (map_delete k es) \<le> length es"
  by (simp add: map_delete_def)

lemma remove_entry_fields [simp]:
  "negative (remove_entry k s) = negative s" "prepared (remove_entry k s) = prepared s"
  "selections (remove_entry k s) = selections s" "cacheTime (remove_entry k s) = cacheTime s"
  by (simp_all add: remove_entry_def split: option.split)

lemma remove_entry_ok:
  assumes "cache_ok options ev s"
  shows "cache_ok options ev (remove_entry k s) \<and> map_of (positive (remove_entry k s)) = (map_of (positive s))(k := None)"
proof (cases "map_of (positive s) k")
  case None
  then show ?thesis using assms by (auto simp: remove_entry_def fun_eq_iff)
next
  case (Some e)
  have le: "length (map_delete k (positive s)) \<le> length (positive s)" by (rule length_map_delete)
  have "accounted (map_delete k (positive s)) \<le> cacheBytes s"
    using accounted_delete [OF _ Some] assms by (simp add: cache_ok_def)
  with Some assms accounted_delete [OF _ Some] le show ?thesis
    by (auto simp: remove_entry_def cache_ok_def distinct_map_delete split: if_splits)
qed

lemma evict_ok:
  assumes "evict options needed s = (b, s')" "cache_ok options ev s"
  shows "cache_ok options ev s' \<and> (\<forall>k. map_of (positive s') k \<noteq> None \<longrightarrow> map_of (positive s) k \<noteq> None) \<and>
    (b \<longrightarrow> length (positive s') < maxPositiveEntries options \<and>
       cacheBytes s' + int needed \<le> int (maxPositiveAccountedBytes options))"
  using assms
proof (induction options needed s rule: evict.induct)
  case (1 options needed s)
  let ?full = "maxPositiveEntries options \<le> length (positive s) \<or> int (maxPositiveAccountedBytes options) < cacheBytes s + int needed"
  show ?case
  proof (cases "?full")
    case False
    with 1(2,3) show ?thesis by (simp add: evict.simps [of options needed s])
  next
    case True
    show ?thesis
    proof (cases "positive s")
      case Nil
      with True 1(2,3) show ?thesis by (auto simp: evict.simps [of options needed s])
    next
      case (Cons x older)
      obtain oldest e where x: "x = (oldest, e)" by (cases x)
      note rem = remove_entry_ok [OF 1(3), of oldest]
      have "evict options needed (remove_entry oldest s) = (b, s')"
        using 1(2) True Cons x by (simp add: evict.simps [of options needed s])
      note ih = 1(1) [OF True Cons x [symmetric] this conjunct1 [OF rem]]
      have "map_of (positive s) k \<noteq> None" if "map_of (positive s') k \<noteq> None" for k
      proof -
        have "map_of (positive (remove_entry oldest s)) k \<noteq> None" using ih that by blast
        then show ?thesis unfolding conjunct2 [OF rem] by (simp split: if_splits)
      qed
      with ih show ?thesis by blast
    qed
  qed
qed

text \<open>A reading of the clock changes nothing the invariant speaks of.\<close>

lemma cache_now_frame:
  assumes "cache_now reading s = (r, s')"
  shows "positive s' = positive s \<and> negative s' = negative s \<and> prepared s' = prepared s \<and> selections s' = selections s \<and>
    cacheBytes s' = cacheBytes s \<and> (r \<noteq> None \<longrightarrow> reading = r)"
  using assms by (auto simp: cache_now_def split: if_splits option.splits)

lemma cache_now_ok: "cache_now reading s = (r, s') \<Longrightarrow> cache_ok options ev s \<Longrightarrow> cache_ok options ev s'"
  using cache_now_frame [of reading s r s'] by (simp add: cache_ok_def)

lemma commit_entry_ok:
  assumes "cache_ok options ev s"
  shows "cache_ok options (ev(origin \<mapsto> p)) (snd (commit_entry options origin p now s))"
proof -
  let ?s1 = "(remove_entry origin s)\<lparr>negative := map_delete origin (negative s)\<rparr>"
  let ?n = "documentBytes (fst p) + length origin * 2 + 256"
  let ?ev = "ev(origin \<mapsto> p)"
  note rem = remove_entry_ok [OF assms, of origin]
  have "length (map_delete origin (negative s)) \<le> maxNegativeEntries options"
    using assms length_map_delete [of origin "negative s"] by (simp add: cache_ok_def)
  then have ok1: "cache_ok options ?ev ?s1"
    using rem assms by (auto simp: cache_ok_def distinct_map_delete split: if_splits)
  obtain b s2 where ev: "evict options ?n ?s1 = (b, s2)" by fastforce
  note ok2 = evict_ok [OF ev ok1]
  have fresh: "map_of (positive s2) origin = None" using ok2 rem by auto
  then have "origin \<notin> fst ` set (positive s2)" by (simp add: map_of_eq_None_iff)
  then have set2: "map_set origin e (positive s2) = positive s2 @ [(origin, e)]" for e by (rule map_set_fresh)
  have new: "map_of (positive s2 @ [(origin, e)]) = (map_of (positive s2))(origin \<mapsto> e)" for e
    using fresh by (auto simp: map_add_def fun_eq_iff split: option.split)
  let ?e = "\<lparr>entry_document = fst p, entry_freshness = snd p, accountedBytes = ?n\<rparr>"
  have "cache_ok options ?ev (s2\<lparr>positive := map_set origin ?e (positive s2), cacheBytes := cacheBytes s2 + int ?n\<rparr>)" if b
    using ok2 that \<open>origin \<notin> _\<close>
    by (auto simp: cache_ok_def set2 new accounted_append accounted_def split: if_splits)
  then show ?thesis
    using ev ok1 ok2 by (auto simp: commit_entry_def Let_def split: bool.split)
qed

lemma cache_commit_ok:
  assumes "cache_ok (cp_options C) ev s"
  shows "cache_ok (cp_options C) (commit_evidence C originInput ticket reading s ev) (snd (cache_commit C originInput ticket reading s))"
proof -
  let ?p = "if ticket < length (prepared s) then prepared s ! ticket else None"
  let ?s0 = "s\<lparr>prepared := (prepared s)[ticket := None]\<rparr>"
  have same: "fst (cache_now reading ?s0) = fst (cache_now reading s)"
    by (auto simp: cache_now_def split: option.split)
  have ok0: "cache_ok (cp_options C) ev ?s0" using assms by (simp add: cache_ok_def)
  obtain r s1 where now: "cache_now reading ?s0 = (r, s1)" by fastforce
  have ok1: "cache_ok (cp_options C) ev s1" by (rule cache_now_ok [OF now ok0])
  show ?thesis
  proof (cases "cache_origin C originInput")
    case (Inl e)
    then show ?thesis using assms by (simp add: cache_commit_def commit_evidence_def)
  next
    case (Inr origin)
    show ?thesis
    proof (cases ?p)
      case None
      then show ?thesis using Inr assms by (simp add: cache_commit_def commit_evidence_def)
    next
      case (Some p)
      show ?thesis
      proof (cases r)
        case None
        then show ?thesis using Inr Some now same ok1 by (simp add: cache_commit_def commit_evidence_def)
      next
        case (Some t)
        obtain kept s2 where c: "commit_entry (cp_options C) origin p t s1 = (kept, s2)" by fastforce
        then have "cache_ok (cp_options C) (ev(origin \<mapsto> p)) s2"
          using commit_entry_ok [OF ok1, of origin p t] by simp
        moreover have "cache_now reading ?s0 = (Some t, s1)" "fst (cache_now reading s) = Some t" using now same Some by auto
        ultimately show ?thesis
          using Inr \<open>?p = Some p\<close> c by (simp add: cache_commit_def commit_evidence_def)
      qed
    qed
  qed
qed

lemma cache_prepare_ok:
  assumes "cache_ok options ev s"
  shows "cache_ok options ev (snd (cache_prepare C response s))"
  using assms by (simp add: cache_prepare_def cache_ok_def split: sum.split)

lemma cache_replace_ok:
  assumes "cache_ok (cp_options C) ev s"
  shows "cache_ok (cp_options C) (step_evidence C (CacheReplace originInput response reading) s ev)
    (snd (cache_replace C originInput response reading s))"
proof (cases "cache_origin C originInput")
  case (Inr origin)
  obtain r s1 where p: "cache_prepare C response s = (r, s1)" by fastforce
  have "cache_ok (cp_options C) ev s1" using cache_prepare_ok [OF assms, of C response] p by simp
  then show ?thesis
    using Inr p cache_commit_ok by (cases r) (simp_all add: cache_replace_def step_evidence_def)
qed (use assms in \<open>simp add: cache_replace_def step_evidence_def\<close>)

lemma pruneNegative_ok: "cache_ok options ev s \<Longrightarrow> cache_ok options ev (pruneNegative now s)"
proof -
  assume ok: "cache_ok options ev s"
  have "length (filter P (negative s)) \<le> maxNegativeEntries options" for P
    using ok length_filter_le [of P "negative s"] unfolding cache_ok_def by linarith
  moreover have "distinct (map fst (filter P (negative s)))" for P
    using ok by (simp add: cache_ok_def distinct_map_filter)
  ultimately show ?thesis using ok by (simp add: cache_ok_def pruneNegative_def)
qed

lemma note_failure_ok:
  assumes "cache_ok options ev s"
  shows "cache_ok options ev (note_failure options origin now s)"
proof -
  let ?s = "pruneNegative now s"
  have ok: "cache_ok options ev ?s" by (rule pruneNegative_ok [OF assms])
  then have "length (map_set origin d (negative ?s)) \<le> maxNegativeEntries options"
    if "origin \<in> fst ` set (negative ?s) \<or> length (negative ?s) < maxNegativeEntries options" for d
    using that by (auto simp: length_map_set cache_ok_def)
  with ok show ?thesis
    by (auto simp: note_failure_def Let_def cache_ok_def distinct_map_set)
qed

lemma cache_step_ok:
  assumes "cache_ok (cp_options C) ev s"
  shows "cache_ok (cp_options C) (step_evidence C call s ev) (cache_step C call s)"
proof (cases call)
  case (CachePrepare response)
  then show ?thesis using cache_prepare_ok [OF assms] by (simp add: step_evidence_def)
next
  case (CacheCommit originInput ticket reading)
  then show ?thesis using cache_commit_ok [OF assms] by (simp add: step_evidence_def)
next
  case (CacheReplace originInput response reading)
  then show ?thesis using cache_replace_ok [OF assms] by simp
next
  case (CacheLookup originInput thumbprint reading)
  obtain r s1 where now: "cache_now reading s = (r, s1)" by fastforce
  have "cache_ok (cp_options C) ev s1" by (rule cache_now_ok [OF now assms])
  then show ?thesis
    using CacheLookup now assms
    by (auto simp: cache_lookup_def step_evidence_def cache_ok_def split: sum.split option.split)
next
  case (CacheRecheck selection reading)
  obtain r s1 where now: "cache_now reading s = (r, s1)" by fastforce
  have "cache_ok (cp_options C) ev s1" by (rule cache_now_ok [OF now assms])
  then show ?thesis
    using CacheRecheck now assms by (auto simp: cache_recheck_def step_evidence_def split: sum.split option.split)
next
  case (CacheFailure originInput reading)
  obtain r s1 where now: "cache_now reading s = (r, s1)" by fastforce
  have "cache_ok (cp_options C) ev s1" by (rule cache_now_ok [OF now assms])
  then show ?thesis
    using CacheFailure now assms note_failure_ok
    by (auto simp: recordFailure_def step_evidence_def split: sum.split option.split)
next
  case (CacheBlocked originInput reading)
  obtain r s1 where now: "cache_now reading s = (r, s1)" by fastforce
  have "cache_ok (cp_options C) ev s1" by (rule cache_now_ok [OF now assms])
  then show ?thesis
    using CacheBlocked now assms pruneNegative_ok
    by (auto simp: fetchBlocked_def step_evidence_def Let_def split: sum.split option.split)
qed

lemma cache_trace_snoc: "cache_trace C (calls @ [call]) =
    (cache_step C call (fst (cache_trace C calls)), step_evidence C call (fst (cache_trace C calls)) (snd (cache_trace C calls)))"
  by (simp add: cache_trace_def case_prod_beta)

lemma cache_trace_ok: "cache_ok (cp_options C) (snd (cache_trace C calls)) (fst (cache_trace C calls))"
proof (induction calls rule: rev_induct)
  case Nil
  show ?case by (simp add: cache_trace_def cache_ok_def new_cache_def accounted_def)
next
  case (snoc call calls)
  then show ?case using cache_step_ok by (simp add: cache_trace_snoc)
qed

section \<open>Properties\<close>

text \<open>C40. The cache stays within its limits: after any calls, the bytes it accounts for are exactly
  those of its entries, there are at most as many entries, bytes and remembered failures as
  configured, and no origin has two entries.\<close>

theorem cache_bounds:
  assumes "s = fst (cache_trace C calls)"
  shows "cacheBytes s = (\<Sum>e \<leftarrow> positive s. int (accountedBytes (snd e))) \<and>
    cacheBytes s \<le> int (maxPositiveAccountedBytes (cp_options C)) \<and>
    length (positive s) \<le> maxPositiveEntries (cp_options C) \<and> length (negative s) \<le> maxNegativeEntries (cp_options C) \<and>
    distinct (map fst (positive s)) \<and> distinct (map fst (negative s))"
  using cache_trace_ok [of C calls] unfolding assms cache_ok_def accounted_def by blast

lemma fresh_entry_evidence:
  assumes "cache_ok options ev s" "fresh_entry origin now s = Some e"
  shows "ev origin = Some (entry_document e, entry_freshness e) \<and> (\<exists>t. now = Some t \<and> isDirectoryFresh (entry_freshness e) (Some t))"
  using assms by (auto simp: fresh_entry_def cache_ok_def split: option.splits if_splits)

lemma cache_lookup_evidence:
  assumes "cache_ok options ev s" "cache_lookup C originInput thumbprint reading s = (Inr (KeyFound selection), s')"
  shows "\<exists>doc f t. cache_origin C originInput = Inr (selection_origin selection) \<and> reading = Some t \<and>
    ev (selection_origin selection) = Some (doc, f) \<and> isDirectoryFresh f (Some t) \<and>
    lookup_key (document_jwks doc) thumbprint = Inr (selection_key selection)"
proof -
  obtain now s1 where now: "cache_now reading s = (now, s1)" by fastforce
  obtain origin e k where "cache_origin C originInput = Inr origin" "fresh_entry origin now s1 = Some e"
      "lookup_key (document_jwks (entry_document e)) thumbprint = Inr k"
      "selection_origin selection = origin" "selection_key selection = k"
    using assms(2) now by (auto simp: cache_lookup_def split: sum.splits option.splits)
  with fresh_entry_evidence [OF cache_now_ok [OF now assms(1)]] cache_now_frame [OF now]
  show ?thesis by (metis option.distinct(1))
qed

lemma cache_recheck_evidence:
  assumes "cache_ok options ev s" "cache_recheck i reading s = (True, s')"
  shows "\<exists>doc f t k. i < length (selections s) \<and> reading = Some t \<and>
    ev (fst (selections s ! i)) = Some (doc, f) \<and> isDirectoryFresh f (Some t) \<and>
    lookup_key (document_jwks doc) (snd (selections s ! i)) = Inr k"
proof -
  obtain now s1 where now: "cache_now reading s = (now, s1)" by fastforce
  obtain e k where "i < length (selections s)" "fresh_entry (fst (selections s ! i)) now s1 = Some e"
      "lookup_key (document_jwks (entry_document e)) (snd (selections s ! i)) = Inr k"
    using assms(2) now by (auto simp: cache_recheck_def split: sum.splits option.splits if_splits)
  with fresh_entry_evidence [OF cache_now_ok [OF now assms(1)]] cache_now_frame [OF now]
  show ?thesis by (metis option.distinct(1))
qed

text \<open>C13. Only the latest evidence counts: after any calls, a key that a lookup finds, and a selection
  that passes the final recheck, is in the set committed last for its origin, and that set is
  fresh at the reading of the clock just made; a newer set that does not have the key removes it,
  also when the newer set is not kept.\<close>

theorem latest_evidence:
  assumes "cache_trace C calls = (s, evidence)"
  shows "(cache_lookup C originInput thumbprint reading s = (Inr (KeyFound selection), s') \<longrightarrow>
      (\<exists>doc f t. cache_origin C originInput = Inr (selection_origin selection) \<and> reading = Some t \<and>
         evidence (selection_origin selection) = Some (doc, f) \<and> isDirectoryFresh f (Some t) \<and>
         lookup_key (document_jwks doc) thumbprint = Inr (selection_key selection))) \<and>
    (cache_recheck i reading s = (True, s') \<longrightarrow>
      (\<exists>doc f t k. i < length (selections s) \<and> reading = Some t \<and>
         evidence (fst (selections s ! i)) = Some (doc, f) \<and> isDirectoryFresh f (Some t) \<and>
         lookup_key (document_jwks doc) (snd (selections s ! i)) = Inr k))"
proof -
  have ok: "cache_ok (cp_options C) evidence s" using cache_trace_ok [of C calls] assms by simp
  show ?thesis
    using cache_lookup_evidence [OF ok, of C originInput thumbprint reading selection s'] cache_recheck_evidence [OF ok, of i reading s']
    by blast
qed

end
