(* ===== verification/DirService.thy ===== *)
theory DirService
  imports DirTransport DirCacheSafety
begin

text \<open>
  The discovery service of one profile, \<^verbatim>\<open>discovery/directory-service.ts\<close>, and the two services that
  share a transport. A refresh is a task of its origin: queued, waiting for a delivery, or done; every
  synchronous stretch is one operation, which takes the readings of the clock it makes as a
  function of their number. While an observer runs, which is synchronous, only calls from it can
  happen; \<open>sv_delivering\<close> is its guard. \<open>sv_evidence\<close> is a history: the set committed last for each
  origin, as in \<open>DirCacheSafety\<close>.
\<close>

section \<open>Results\<close>

datatype refresh_failure =
    RefreshInvalidJwks | RefreshAddressDenied | RefreshTransportFailed | RefreshDeadline | RefreshClock
  | RefreshOriginDenied | RefreshBackoff | RefreshCapacity | RefreshOriginRate

datatype refresh_result = RefreshCompleted bool | RefreshFailed refresh_failure

text \<open>The promise of a refresh: resolved already, or the one of the pending task of the origin.\<close>

datatype refresh_answer = RefreshAnswered refresh_result | RefreshPending

datatype 'k resolution = ResolutionFound "'k key_selection" | ResolutionMissing unverified_code

datatype 'k resolve_step = ResolvedNow "'k resolution" | ResolveAwaits refresh_answer

text \<open>The result of a task is \<open>None\<close> when its promise is rejected.\<close>

datatype refresh_task =
    TaskQueued rat
  | TaskWaiting rat delivery_handle
  | TaskDone "refresh_result option"

section \<open>State\<close>

record 'k service =
  sv_cache :: "'k directory_cache"
  sv_pending :: "(jsstring \<times> refresh_task) list"
  sv_applied :: "(nat \<times> refresh_result) list"
  sv_time :: rat
  sv_healthy :: bool
  sv_delivering :: bool
  sv_errors :: nat
  sv_events :: "(jsstring \<times> refresh_result) list"
  sv_evidence :: "'k evidence"

record 'k discovery_config =
  dc_platform :: "wba_profile \<Rightarrow> 'k cache_platform"
  dc_url :: url_parser
  dc_network :: fetch_options
  dc_scheduler :: scheduler_env
  dc_observed :: bool

record 'k discovery =
  di_services :: "wba_profile \<Rightarrow> 'k service"
  di_transport :: transport

definition new_service :: "'k service" where
  "new_service = \<lparr>sv_cache = new_cache, sv_pending = [], sv_applied = [], sv_time = 0, sv_healthy = True,
     sv_delivering = False, sv_errors = 0, sv_events = [], sv_evidence = Map.empty\<rparr>"

text \<open>Both services are registered at the transport when they are created.\<close>

definition new_discovery :: "'k discovery" where
  "new_discovery = \<lparr>di_services = (\<lambda>_. new_service), di_transport = new_transport\<lparr>tr_participants := 2\<rparr>\<rparr>"

definition with_service :: "wba_profile \<Rightarrow> 'k service \<Rightarrow> 'k discovery \<Rightarrow> 'k discovery" where
  "with_service p s d = d\<lparr>di_services := (di_services d)(p := s)\<rparr>"

definition set_task :: "jsstring \<Rightarrow> refresh_task \<Rightarrow> 'k service \<Rightarrow> 'k service" where
  "set_task origin task s = s\<lparr>sv_pending := map_set origin task (sv_pending s)\<rparr>"

section \<open>Clock and admission\<close>

definition service_now :: "sample \<Rightarrow> 'k service \<Rightarrow> rat option \<times> 'k service" where
  "service_now reading s =
     (if \<not> sv_healthy s then (None, s)
      else case reading of
        None \<Rightarrow> (None, s\<lparr>sv_healthy := False\<rparr>)
      | Some t \<Rightarrow>
          if t < sv_time s \<or> of_nat (max_safe - 3000) < t then (None, s\<lparr>sv_healthy := False\<rparr>)
          else (Some t, s\<lparr>sv_time := t\<rparr>))"

definition service_origin :: "'k discovery_config \<Rightarrow> jsstring \<Rightarrow> candidate_error + jsstring" where
  "service_origin cfg originInput = canonicalAgentOrigin (dc_url cfg) (Some originInput) origin_limit"

text \<open>What the calls of the cache throw.\<close>

definition cache_failure :: "cache_error \<Rightarrow> candidate_error" where
  "cache_failure e = (case e of OriginRejected x \<Rightarrow> x | FreshnessRejected c \<Rightarrow> ProfileConfigurationError c | _ \<Rightarrow> InternalFailure)"

section \<open>Refresh\<close>

definition service_refresh ::
    "'k discovery_config \<Rightarrow> wba_profile \<Rightarrow> jsstring \<Rightarrow> (nat \<Rightarrow> sample) \<Rightarrow> 'k service \<Rightarrow> (candidate_error + refresh_answer) \<times> 'k service" where
  "service_refresh cfg p originInput readings s =
     (case service_origin cfg originInput of
        Inl e \<Rightarrow> (Inl e, s)
      | Inr origin \<Rightarrow>
          if sv_delivering s then (Inr (RefreshAnswered (RefreshFailed RefreshCapacity)), s)
          else if \<not> origin_admitted (dc_network cfg) origin then (Inr (RefreshAnswered (RefreshFailed RefreshOriginDenied)), s)
          else
            (case service_now (readings 0) s of
               (None, s1) \<Rightarrow> (Inr (RefreshAnswered (RefreshFailed RefreshClock)), s1)
             | (Some started, s1) \<Rightarrow>
                 if origin \<in> fst ` set (sv_pending s1) then (Inr RefreshPending, s1)
                 else
                   (case fetchBlocked (dc_platform cfg p) origin (readings 1) (sv_cache s1) of
                      (Inl e, c) \<Rightarrow> (Inl (cache_failure e), s1\<lparr>sv_cache := c\<rparr>)
                    | (Inr blocked, c) \<Rightarrow>
                        let s2 = s1\<lparr>sv_cache := c\<rparr> in
                        if blocked then (Inr (RefreshAnswered (RefreshFailed RefreshBackoff)), s2)
                        else if 80 \<le> length (sv_pending s2) then (Inr (RefreshAnswered (RefreshFailed RefreshCapacity)), s2)
                        else (Inr RefreshPending, s2\<lparr>sv_pending := sv_pending s2 @ [(origin, TaskQueued started)]\<rparr>))))"

text \<open>The end of \<open>#refresh\<close>: the backoff, then the event, then the value. The observer starts here.\<close>

definition emit_refresh :: "'k discovery_config \<Rightarrow> jsstring \<Rightarrow> refresh_result \<Rightarrow> 'k service \<Rightarrow> 'k service" where
  "emit_refresh cfg origin result s =
     (if \<not> dc_observed cfg \<or> sv_delivering s then s
      else s\<lparr>sv_delivering := True, sv_events := sv_events s @ [(origin, result)]\<rparr>)"

definition finish_refresh ::
    "'k discovery_config \<Rightarrow> wba_profile \<Rightarrow> jsstring \<Rightarrow> refresh_result \<Rightarrow> bool \<Rightarrow> sample \<Rightarrow> 'k service \<Rightarrow> 'k service" where
  "finish_refresh cfg p origin result record_failure reading s =
     (case (if record_failure then recordFailure (dc_platform cfg p) origin reading (sv_cache s) else (Inr (), sv_cache s)) of
        (Inl e, c) \<Rightarrow> set_task origin (TaskDone None) (s\<lparr>sv_cache := c\<rparr>)
      | (Inr _, c) \<Rightarrow> set_task origin (TaskDone (Some result)) (emit_refresh cfg origin result (s\<lparr>sv_cache := c\<rparr>)))"

text \<open>\<open>#refresh\<close> up to its \<open>await\<close>; a return before it skips the backoff and the event.\<close>

definition task_starts ::
    "'k discovery_config \<Rightarrow> wba_profile \<Rightarrow> jsstring \<Rightarrow> (nat \<Rightarrow> sample) \<Rightarrow> 'k discovery \<Rightarrow> 'k discovery option" where
  "task_starts cfg p origin readings d =
     (case map_of (sv_pending (di_services d p)) origin of
        Some (TaskQueued started) \<Rightarrow>
          (case service_now (readings 0) (di_services d p) of
             (None, s) \<Rightarrow> Some (with_service p (set_task origin (TaskDone (Some (RefreshFailed RefreshClock))) s) d)
           | (Some before, s) \<Rightarrow>
               if 3000 \<le> double (before - started)
               then Some (with_service p (set_task origin (TaskDone (Some (RefreshFailed RefreshDeadline))) s) d)
               else
                 (case run_transport (dc_scheduler cfg) (dc_url cfg) origin started (di_transport d) of
                    None \<Rightarrow> None
                  | Some (Inl e, tr) \<Rightarrow>
                      Some (with_service p (finish_refresh cfg p origin (RefreshFailed RefreshTransportFailed) True (readings 1) s)
                        (d\<lparr>di_transport := tr\<rparr>))
                  | Some (Inr handle, tr) \<Rightarrow>
                      Some (with_service p (set_task origin (TaskWaiting started handle) s) (d\<lparr>di_transport := tr\<rparr>))))
      | _ \<Rightarrow> None)"

fun admission_failure :: "admission_reason \<Rightarrow> refresh_failure" where
  "admission_failure CapacityReason = RefreshCapacity"
| "admission_failure OriginRate = RefreshOriginRate"
| "admission_failure DeadlineReason = RefreshDeadline"
| "admission_failure ClockReason = RefreshClock"
| "admission_failure FetchFailed = RefreshTransportFailed"

fun fetch_refresh_failure :: "fetch_failure \<Rightarrow> refresh_failure" where
  "fetch_refresh_failure AddressDenied = RefreshAddressDenied"
| "fetch_refresh_failure TransportFailed = RefreshTransportFailed"

text \<open>The rest of \<open>#refresh\<close>: a throw inside the block is caught, so it is a failure of the transport.\<close>

definition refresh_outcome ::
    "rat \<Rightarrow> delivery_handle \<Rightarrow> delivery \<Rightarrow> sample \<Rightarrow> 'k service \<Rightarrow> (refresh_result \<times> bool) \<times> 'k service" where
  "refresh_outcome started handle outcome reading s =
     (case outcome of
        DeliveryRejected reason \<Rightarrow>
          ((RefreshFailed (admission_failure reason), reason = DeadlineReason \<or> reason = FetchFailed), s)
      | DeliveryBroken \<Rightarrow> ((RefreshFailed RefreshTransportFailed, True), s)
      | Delivered fetched \<Rightarrow>
          (case service_now reading s of
             (None, s1) \<Rightarrow> ((RefreshFailed RefreshClock, True), s1)
           | (Some received, s1) \<Rightarrow>
               if 3000 \<le> double (received - started) then ((RefreshFailed RefreshDeadline, True), s1)
               else
                 (case (fetched, handle) of
                    (TransportFailure reason, _) \<Rightarrow> ((RefreshFailed (fetch_refresh_failure reason), True), s1)
                  | (TransportResponse _, HandleJob i) \<Rightarrow>
                      (case map_of (sv_applied s1) i of
                         None \<Rightarrow> ((RefreshFailed RefreshTransportFailed, True), s1)
                       | Some applied \<Rightarrow> ((applied, False), s1))
                  | _ \<Rightarrow> ((RefreshFailed RefreshTransportFailed, True), s1))))"

definition task_resumes ::
    "'k discovery_config \<Rightarrow> wba_profile \<Rightarrow> jsstring \<Rightarrow> (nat \<Rightarrow> sample) \<Rightarrow> 'k discovery \<Rightarrow> 'k discovery option" where
  "task_resumes cfg p origin readings d =
     (case map_of (sv_pending (di_services d p)) origin of
        Some (TaskWaiting started handle) \<Rightarrow>
          (case handle_settled handle (di_transport d) of
             None \<Rightarrow> None
           | Some outcome \<Rightarrow>
               (case refresh_outcome started handle outcome (readings 0) (di_services d p) of
                  ((result, record_failure), s) \<Rightarrow>
                    Some (with_service p (finish_refresh cfg p origin result record_failure (readings 1) s) d)))
      | _ \<Rightarrow> None)"

text \<open>The \<open>finally\<close> of the task.\<close>

definition task_ends :: "wba_profile \<Rightarrow> jsstring \<Rightarrow> 'k discovery \<Rightarrow> 'k discovery option" where
  "task_ends p origin d =
     (let s = di_services d p in
      case map_of (sv_pending s) origin of
        Some (TaskDone _) \<Rightarrow> Some (with_service p (s\<lparr>sv_pending := map_delete origin (sv_pending s)\<rparr>) d)
      | _ \<Rightarrow> None)"

definition observer_returns :: "wba_profile \<Rightarrow> bool \<Rightarrow> 'k discovery \<Rightarrow> 'k discovery option" where
  "observer_returns p threw d =
     (let s = di_services d p in
      if \<not> sv_delivering s then None
      else Some (with_service p (s\<lparr>sv_delivering := False,
        sv_errors := (if threw \<and> sv_errors s < max_safe then sv_errors s + 1 else sv_errors s)\<rparr>) d))"

section \<open>The delivery of a response\<close>

text \<open>What a participant prepares: the ticket to commit, or a failure of the origin.\<close>

datatype view = ViewTicket nat | ViewInvalid

definition prepare_view :: "'k cache_platform \<Rightarrow> directory_response \<Rightarrow> 'k service \<Rightarrow> view option \<times> 'k service" where
  "prepare_view C response s =
     (case cache_prepare C response (sv_cache s) of
        (Inr ticket, c) \<Rightarrow> (Some (ViewTicket ticket), s\<lparr>sv_cache := c\<rparr>)
      | (Inl DocumentRejected, c) \<Rightarrow> (Some ViewInvalid, s\<lparr>sv_cache := c\<rparr>)
      | (Inl _, c) \<Rightarrow> (None, s\<lparr>sv_cache := c\<rparr>))"

definition commit_view ::
    "'k cache_platform \<Rightarrow> jsstring \<Rightarrow> nat \<Rightarrow> view \<Rightarrow> sample \<Rightarrow> 'k service \<Rightarrow> bool \<times> 'k service" where
  "commit_view C origin i v reading s =
     (case v of
        ViewTicket ticket \<Rightarrow>
          (case cache_commit C origin ticket reading (sv_cache s) of
             (Inl _, c) \<Rightarrow> (False, s\<lparr>sv_cache := c, sv_evidence := commit_evidence C origin ticket reading (sv_cache s) (sv_evidence s)\<rparr>)
           | (Inr persisted, c) \<Rightarrow> (True, s\<lparr>sv_cache := c,
               sv_evidence := commit_evidence C origin ticket reading (sv_cache s) (sv_evidence s),
               sv_applied := map_set i (RefreshCompleted persisted) (sv_applied s)\<rparr>))
      | ViewInvalid \<Rightarrow>
          (case recordFailure C origin reading (sv_cache s) of
             (Inl _, c) \<Rightarrow> (False, s\<lparr>sv_cache := c\<rparr>)
           | (Inr _, c) \<Rightarrow> (True, s\<lparr>sv_cache := c,
               sv_applied := map_set i (RefreshFailed RefreshInvalidJwks) (sv_applied s)\<rparr>)))"

text \<open>The participants in the order of their registration; a throw ends the loop.\<close>

definition prepare_views ::
    "'k discovery_config \<Rightarrow> directory_response \<Rightarrow> 'k discovery \<Rightarrow> (view \<times> view) option \<times> 'k discovery" where
  "prepare_views cfg response d =
     (case prepare_view (dc_platform cfg WgProtocol00) response (di_services d WgProtocol00) of
        (None, s) \<Rightarrow> (None, with_service WgProtocol00 s d)
      | (Some v, s) \<Rightarrow>
          let d1 = with_service WgProtocol00 s d in
          (case prepare_view (dc_platform cfg CloudflareDocs) response (di_services d1 CloudflareDocs) of
             (None, s') \<Rightarrow> (None, with_service CloudflareDocs s' d1)
           | (Some v', s') \<Rightarrow> (Some (v, v'), with_service CloudflareDocs s' d1)))"

definition commit_views ::
    "'k discovery_config \<Rightarrow> jsstring \<Rightarrow> nat \<Rightarrow> view \<times> view \<Rightarrow> (nat \<Rightarrow> sample) \<Rightarrow> 'k discovery \<Rightarrow> bool \<times> 'k discovery" where
  "commit_views cfg origin i views readings d =
     (case commit_view (dc_platform cfg WgProtocol00) origin i (fst views) (readings 0) (di_services d WgProtocol00) of
        (False, s) \<Rightarrow> (False, with_service WgProtocol00 s d)
      | (True, s) \<Rightarrow>
          let d1 = with_service WgProtocol00 s d in
          (case commit_view (dc_platform cfg CloudflareDocs) origin i (snd views) (readings 1) (di_services d1 CloudflareDocs) of
             (ok, s') \<Rightarrow> (ok, with_service CloudflareDocs s' d1)))"

definition delivery_runs ::
    "'k discovery_config \<Rightarrow> nat \<Rightarrow> (nat \<Rightarrow> sample) \<Rightarrow> 'k discovery \<Rightarrow> 'k discovery option" where
  "delivery_runs cfg i readings d =
     (let settle = (\<lambda>outcome d. d\<lparr>di_transport := settle_delivery i outcome (di_transport d)\<rparr>) in
      case ready_delivery i (di_transport d) of
        None \<Rightarrow> None
      | Some (origin, startedAt, Rejected reason) \<Rightarrow> Some (settle (DeliveryRejected reason) d)
      | Some (origin, startedAt, Resolved result) \<Rightarrow>
          Some (case checkDeadline (readings 0) startedAt (di_transport d) of
            (Inl reason, tr) \<Rightarrow> settle (DeliveryRejected reason) (d\<lparr>di_transport := tr\<rparr>)
          | (Inr _, tr) \<Rightarrow>
              (case result of
                 TransportFailure _ \<Rightarrow> settle (Delivered result) (d\<lparr>di_transport := tr\<rparr>)
               | TransportResponse response \<Rightarrow>
                   (case prepare_views cfg response (d\<lparr>di_transport := tr\<rparr>) of
                      (None, d1) \<Rightarrow> settle DeliveryBroken d1
                    | (Some views, d1) \<Rightarrow>
                        (case checkDeadline (readings 1) startedAt (di_transport d1) of
                           (Inl reason, tr1) \<Rightarrow> settle (DeliveryRejected reason) (d1\<lparr>di_transport := tr1\<rparr>)
                         | (Inr _, tr1) \<Rightarrow>
                             (case commit_views cfg origin i views (\<lambda>n. readings (n + 2)) (d1\<lparr>di_transport := tr1\<rparr>) of
                                (ok, d2) \<Rightarrow> settle (if ok then Delivered result else DeliveryBroken) d2))))))"

section \<open>Resolution\<close>

text \<open>\<open>resolve\<close> up to its \<open>await\<close>, with the budget after it: it is spent before a refresh is asked for.\<close>

definition resolve_open ::
    "'k discovery_config \<Rightarrow> wba_profile \<Rightarrow> jsstring \<Rightarrow> jsstring \<Rightarrow> bool \<Rightarrow> (nat \<Rightarrow> sample) \<Rightarrow> 'k service
       \<Rightarrow> ((candidate_error + 'k resolve_step) \<times> bool) \<times> 'k service" where
  "resolve_open cfg p originInput thumbprint spent readings s =
     (case bindE (service_origin cfg originInput) (\<lambda>origin.
           bindE (validateProfileKeyId (Some thumbprint)) (\<lambda>_. Inr origin)) of
        Inl e \<Rightarrow> ((Inl e, spent), s)
      | Inr origin \<Rightarrow>
          let missing = (\<lambda>reason s. ((Inr (ResolvedNow (ResolutionMissing reason)), spent), s)) in
          if sv_delivering s then missing ResourceLimit s
          else if \<not> origin_admitted (dc_network cfg) origin then missing UnknownKey s
          else
            (case service_now (readings 0) s of
               (None, s1) \<Rightarrow> missing UnknownKey s1
             | (Some _, s1) \<Rightarrow>
                 (case cache_lookup (dc_platform cfg p) origin thumbprint (readings 1) (sv_cache s1) of
                    (Inl e, c) \<Rightarrow> ((Inl (cache_failure e), spent), s1\<lparr>sv_cache := c\<rparr>)
                  | (Inr (KeyFound selection), c) \<Rightarrow> ((Inr (ResolvedNow (ResolutionFound selection)), spent), s1\<lparr>sv_cache := c\<rparr>)
                  | (Inr (KeyMissing reason), c) \<Rightarrow>
                      let s2 = s1\<lparr>sv_cache := c\<rparr> in
                      if reason = UnsupportedAlgorithm then missing reason s2
                      else
                        (case fetchBlocked (dc_platform cfg p) origin (readings 2) (sv_cache s2) of
                           (Inl e, c) \<Rightarrow> ((Inl (cache_failure e), spent), s2\<lparr>sv_cache := c\<rparr>)
                         | (Inr blocked, c) \<Rightarrow>
                             let s3 = s2\<lparr>sv_cache := c\<rparr> in
                             if blocked then missing UnknownKey s3
                             else if spent then missing ResourceLimit s3
                             else
                               (case service_refresh cfg p origin (\<lambda>n. readings (n + 3)) s3 of
                                  (Inl e, s4) \<Rightarrow> ((Inl e, True), s4)
                                | (Inr answer, s4) \<Rightarrow> ((Inr (ResolveAwaits answer), True), s4))))))"

text \<open>The rest of \<open>resolve\<close>, with what the awaited refresh has given.\<close>

definition resolve_close ::
    "'k discovery_config \<Rightarrow> wba_profile \<Rightarrow> jsstring \<Rightarrow> jsstring \<Rightarrow> refresh_result option \<Rightarrow> (nat \<Rightarrow> sample) \<Rightarrow> 'k service
       \<Rightarrow> (candidate_error + 'k resolution) \<times> 'k service" where
  "resolve_close cfg p originInput thumbprint refreshed readings s =
     (case (service_origin cfg originInput, refreshed) of
        (Inr origin, Some result) \<Rightarrow>
          (case cache_lookup (dc_platform cfg p) origin thumbprint (readings 0) (sv_cache s) of
             (Inl e, c) \<Rightarrow> (Inl (cache_failure e), s\<lparr>sv_cache := c\<rparr>)
           | (Inr (KeyFound selection), c) \<Rightarrow> (Inr (ResolutionFound selection), s\<lparr>sv_cache := c\<rparr>)
           | (Inr (KeyMissing reason), c) \<Rightarrow> (Inr (ResolutionMissing
               (if reason = UnsupportedAlgorithm then reason
                else if result = RefreshFailed RefreshCapacity then ResourceLimit else UnknownKey)), s\<lparr>sv_cache := c\<rparr>))
      | (Inl e, _) \<Rightarrow> (Inl e, s)
      | (_, None) \<Rightarrow> (Inl InternalFailure, s))"

definition service_recheck ::
    "'k discovery_config \<Rightarrow> 'k key_selection \<Rightarrow> (nat \<Rightarrow> sample) \<Rightarrow> 'k service \<Rightarrow> bool \<times> 'k service" where
  "service_recheck cfg selection readings s =
     (if sv_delivering s then (False, s)
      else
        (case service_now (readings 0) s of
           (None, s1) \<Rightarrow> (False, s1)
         | (Some _, s1) \<Rightarrow>
             if \<not> origin_admitted (dc_network cfg) (selection_origin selection) then (False, s1)
             else
               (case cache_recheck (selection_id selection) (readings 1) (sv_cache s1) of
                  (ok, c) \<Rightarrow> (ok, s1\<lparr>sv_cache := c\<rparr>))))"

section \<open>Events\<close>

datatype 'k discovery_event =
    RefreshCall wba_profile jsstring
  | ResolveCall wba_profile jsstring jsstring bool
  | ResolveReturns wba_profile jsstring jsstring "refresh_result option"
  | RecheckCall wba_profile "'k key_selection"
  | TaskStarts wba_profile jsstring
  | TaskResumes wba_profile jsstring
  | TaskEnds wba_profile jsstring
  | ObserverReturns wba_profile bool
  | DeliveryRuns nat
  | TransportEvent "transport_result scheduler_event"

definition quiet :: "'k discovery \<Rightarrow> bool" where
  "quiet d \<longleftrightarrow> \<not> sv_delivering (di_services d WgProtocol00) \<and> \<not> sv_delivering (di_services d CloudflareDocs)"

text \<open>\<open>None\<close> is an event that cannot happen in the state. A call may come from a running observer,
  what a promise or a timer starts may not.\<close>

fun discovery_step ::
    "'k discovery_config \<Rightarrow> (nat \<Rightarrow> sample) \<Rightarrow> 'k discovery_event \<Rightarrow> 'k discovery \<Rightarrow> 'k discovery option" where
  "discovery_step cfg r (RefreshCall p origin) d = Some (with_service p (snd (service_refresh cfg p origin r (di_services d p))) d)"
| "discovery_step cfg r (ResolveCall p origin thumbprint spent) d =
     Some (with_service p (snd (resolve_open cfg p origin thumbprint spent r (di_services d p))) d)"
| "discovery_step cfg r (RecheckCall p selection) d =
     Some (with_service p (snd (service_recheck cfg selection r (di_services d p))) d)"
| "discovery_step cfg r (ObserverReturns p threw) d = observer_returns p threw d"
| "discovery_step cfg r (ResolveReturns p origin thumbprint refreshed) d =
     (if quiet d then Some (with_service p (snd (resolve_close cfg p origin thumbprint refreshed r (di_services d p))) d) else None)"
| "discovery_step cfg r (TaskStarts p origin) d = (if quiet d then task_starts cfg p origin r d else None)"
| "discovery_step cfg r (TaskResumes p origin) d = (if quiet d then task_resumes cfg p origin r d else None)"
| "discovery_step cfg r (TaskEnds p origin) d = (if quiet d then task_ends p origin d else None)"
| "discovery_step cfg r (DeliveryRuns i) d = (if quiet d then delivery_runs cfg i r d else None)"
| "discovery_step cfg r (TransportEvent e) d =
     (if quiet d then map_option (\<lambda>tr. d\<lparr>di_transport := tr\<rparr>) (transport_event (dc_scheduler cfg) (dc_url cfg) e (di_transport d))
      else None)"

inductive discovery_reachable :: "'k discovery_config \<Rightarrow> 'k discovery \<Rightarrow> bool" for cfg where
  fresh: "discovery_reachable cfg new_discovery"
| event: "discovery_reachable cfg d \<Longrightarrow> discovery_step cfg r e d = Some d' \<Longrightarrow> discovery_reachable cfg d'"

end
