(* ===== verification/SchedulerSafety.thy ===== *)
theory SchedulerSafety
  imports FetchScheduler OriginSample
begin

text \<open>
  What the fetch scheduler guarantees in every reachable state: the slots and the queue agree with
  the map of jobs, the pump loop ends, the starts respect the rates, and no promise is left
  without a timer that settles it.
\<close>

section \<open>The invariant of the slots\<close>

text \<open>\<open>r\<close> are the jobs whose coroutine runs now: none between two events.\<close>

definition held :: "nat list \<Rightarrow> 'v scheduler \<Rightarrow> nat list" where
  "held r s = queue s @ r @ waiting s"

definition jobs_inv :: "nat list \<Rightarrow> 'v scheduler \<Rightarrow> bool" where
  "jobs_inv r s \<longleftrightarrow> distinct (held r s) \<and> distinct (map fst (jobs s)) \<and>
     set (jobs s) = (\<lambda>i. (job_origin (store s ! i), i)) ` set (held r s) \<and>
     (\<forall>i \<in> set (held r s). i < length (store s)) \<and> active s = length r + length (waiting s)"

definition flags_inv :: "nat list \<Rightarrow> 'v scheduler \<Rightarrow> bool" where
  "flags_inv r s \<longleftrightarrow>
     (\<forall>i \<in> set (queue s). \<not> job_active (store s ! i) \<and> \<not> job_settled (store s ! i)) \<and>
     (\<forall>i \<in> set (r @ waiting s). job_active (store s ! i)) \<and>
     (\<forall>i < length (store s).
        if job_settled (store s ! i)
        then job_promise (store s ! i) \<noteq> None \<and> job_timer (store s ! i) = None
        else job_promise (store s ! i) = None \<and> job_timer (store s ! i) \<noteq> None \<and> i \<in> set (held r s))"

definition slots_inv :: "nat list \<Rightarrow> 'v scheduler \<Rightarrow> bool" where
  "slots_inv r s \<longleftrightarrow> jobs_inv r s \<and> flags_inv r s"

lemmas slots_defs = slots_inv_def jobs_inv_def flags_inv_def held_def

lemma with_job_fields [simp]:
  "jobs (with_job i f s) = jobs s" "queue (with_job i f s) = queue s" "originStarts (with_job i f s) = originStarts s"
  "starts (with_job i f s) = starts s" "active (with_job i f s) = active s" "lastTime (with_job i f s) = lastTime s"
  "healthy (with_job i f s) = healthy s" "waiting (with_job i f s) = waiting s"
  "dispatched (with_job i f s) = dispatched s" "length (store (with_job i f s)) = length (store s)"
  "wake (with_job i f s) = wake s" "wakes (with_job i f s) = wakes s"
  by (simp_all add: with_job_def)

lemma with_job_store: "k < length (store s) \<Longrightarrow>
    store (with_job i f s) ! k = (if k = i then f (store s ! i) else store s ! k)"
  by (auto simp: with_job_def nth_list_update)

lemma forget_job_fields [simp]:
  "store (forget_job i s) = store s" "queue (forget_job i s) = queue s" "originStarts (forget_job i s) = originStarts s"
  "starts (forget_job i s) = starts s" "active (forget_job i s) = active s" "lastTime (forget_job i s) = lastTime s"
  "healthy (forget_job i s) = healthy s" "waiting (forget_job i s) = waiting s"
  "dispatched (forget_job i s) = dispatched s"
  by (simp_all add: forget_job_def)

lemma settle_job_fields [simp]:
  "job_origin (settle_job r j) = job_origin j" "job_started (settle_job r j) = job_started j"
  "job_active (settle_job r j) = job_active j" "job_settled (settle_job r j)"
  "job_timer (settle_job r j) = None" "job_promise (settle_job r j) = Some r"
  by (simp_all add: settle_job_def)

text \<open>Taking one job out of the map of jobs takes it out of the held ones.\<close>

lemma jobs_without:
  assumes "distinct (map fst js)" "set js = (\<lambda>i. (f i, i)) ` (insert i H)" "i \<notin> H"
  shows "set (AList.delete (f i) js) = (\<lambda>i. (f i, i)) ` H" "distinct (map fst (AList.delete (f i) js))"
proof -
  have inj: "f k \<noteq> f i" if "k \<in> H" for k
  proof
    assume "f k = f i"
    moreover have "(f k, k) \<in> set js" "(f i, i) \<in> set js" using assms(2) that by auto
    ultimately have "k = i" using assms(1) by (metis eq_key_imp_eq_value)
    with that assms(3) show False by simp
  qed
  show "set (AList.delete (f i) js) = (\<lambda>i. (f i, i)) ` H"
    using inj by (auto simp: AList.delete_eq assms(2) dest: not_sym)
  show "distinct (map fst (AList.delete (f i) js))" using assms(1) by (rule AList.distinct_delete)
qed

section \<open>What failing a job keeps\<close>

lemma fail_job_fields [simp]:
  "originStarts (fail_job e i s) = originStarts s" "starts (fail_job e i s) = starts s"
  "active (fail_job e i s) = active s" "lastTime (fail_job e i s) = lastTime s"
  "healthy (fail_job e i s) = healthy s" "waiting (fail_job e i s) = waiting s"
  "dispatched (fail_job e i s) = dispatched s" "length (store (fail_job e i s)) = length (store s)"
  by (simp_all add: fail_job_def Let_def)

lemma fail_job_store: "k < length (store s) \<Longrightarrow> store (fail_job e i s) ! k =
    (if k = i \<and> \<not> job_settled (store s ! i)
     then (settle_job (Rejected e) (store s ! i))\<lparr>job_aborted := True\<rparr> else store s ! k)"
  by (auto simp: fail_job_def Let_def with_job_store)

lemma fail_job_queue: "queue (fail_job e i s) =
    (if job_settled (store s ! i) \<or> job_active (store s ! i) then queue s else remove1 i (queue s))"
  by (auto simp: fail_job_def Let_def)

lemma with_job_keeps:
  assumes "\<And>j. h (f j) = h j"
  shows "h (store (with_job i f s) ! k) = h (store s ! k)"
  using assms by (cases "i < length (store s)"; cases "k = i") (auto simp: with_job_def not_less list_update_beyond)

lemma fail_job_keeps [simp]:
  "job_origin (store (fail_job e i s) ! k) = job_origin (store s ! k)"
  "job_started (store (fail_job e i s) ! k) = job_started (store s ! k)"
  "job_active (store (fail_job e i s) ! k) = job_active (store s ! k)"
  by (simp_all add: fail_job_def Let_def with_job_keeps [where h = job_origin]
      with_job_keeps [where h = job_started] with_job_keeps [where h = job_active])

lemma fail_job_settled: "k < length (store s) \<Longrightarrow>
    job_settled (store (fail_job e i s) ! k) \<longleftrightarrow> k = i \<or> job_settled (store s ! k)"
  by (auto simp: fail_job_store)

lemma fail_job_jobs: "jobs (fail_job e i s) =
    (if job_settled (store s ! i) \<or> job_active (store s ! i) then jobs s
     else AList.delete (job_origin (store s ! i)) (jobs s))"
  by (simp add: fail_job_def Let_def forget_job_def with_job_keeps [where h = job_origin])

lemma unsettled_inactive_queued:
  "slots_inv r s \<Longrightarrow> i < length (store s) \<Longrightarrow> \<not> job_settled (store s ! i) \<Longrightarrow> \<not> job_active (store s ! i)
   \<Longrightarrow> i \<in> set (queue s)"
  by (auto simp: slots_defs split: if_splits)

lemma fail_job_flags:
  assumes f: "flags_inv r s" and i: "i < length (store s)" "\<not> job_settled (store s ! i)"
    and q: "set (queue (fail_job e i s)) = set (queue s) - {i}"
    and w: "set (held r s) - {i} \<subseteq> set (held r (fail_job e i s))"
    and b: "\<forall>k \<in> set (queue s). k < length (store s)"
  shows "flags_inv r (fail_job e i s)"
proof -
  let ?t = "fail_job e i s"
  have "if job_settled (store ?t ! k) then job_promise (store ?t ! k) \<noteq> None \<and> job_timer (store ?t ! k) = None
      else job_promise (store ?t ! k) = None \<and> job_timer (store ?t ! k) \<noteq> None \<and> k \<in> set (held r ?t)"
    if k: "k < length (store s)" for k
  proof (cases "k = i")
    case True
    then show ?thesis using i by (simp add: fail_job_store)
  next
    case False
    then have "store ?t ! k = store s ! k" using k by (simp add: fail_job_store)
    then show ?thesis using f k w False by (auto simp: flags_inv_def split: if_splits)
  qed
  moreover have "\<forall>k \<in> set (queue ?t). \<not> job_active (store ?t ! k) \<and> \<not> job_settled (store ?t ! k)"
    using f q b by (simp add: flags_inv_def fail_job_settled)
  ultimately show ?thesis using f by (simp add: flags_inv_def)
qed

lemma fail_job_inv:
  assumes inv: "slots_inv r s" and i: "i < length (store s)"
  shows "slots_inv r (fail_job e i s)"
proof -
  let ?t = "fail_job e i s"
  have j: "jobs_inv r s" and f: "flags_inv r s" using inv by (simp_all add: slots_inv_def)
  have b: "\<forall>k \<in> set (queue s). k < length (store s)" using j by (simp add: jobs_inv_def held_def)
  consider (same) "job_settled (store s ! i)" | (running) "\<not> job_settled (store s ! i)" "job_active (store s ! i)"
    | (queued) "\<not> job_settled (store s ! i)" "\<not> job_active (store s ! i)" by blast
  then show ?thesis
  proof cases
    case same
    then show ?thesis using inv by (simp add: fail_job_def)
  next
    case running
    then have q: "queue ?t = queue s" "jobs ?t = jobs s" by (simp_all add: fail_job_queue fail_job_jobs)
    have "i \<notin> set (queue s)" using f running by (auto simp: flags_inv_def)
    then have "flags_inv r ?t" by (intro fail_job_flags [OF f i running(1)]) (auto simp: held_def q b)
    moreover have "jobs_inv r ?t" using j q by (simp add: jobs_inv_def held_def)
    ultimately show ?thesis by (simp add: slots_inv_def)
  next
    case queued
    then have q: "queue ?t = remove1 i (queue s)" "jobs ?t = AList.delete (job_origin (store s ! i)) (jobs s)"
      by (simp_all add: fail_job_queue fail_job_jobs)
    have iq: "i \<in> set (queue s)" by (rule unsettled_inactive_queued [OF inv i queued])
    have d: "distinct (queue s @ r @ waiting s)" using j by (simp add: jobs_inv_def held_def)
    then have held: "distinct (held r ?t)" "set (held r ?t) = set (held r s) - {i}" "set (queue ?t) = set (queue s) - {i}"
      using iq by (auto simp: held_def q distinct_remove1)
    have "set (held r s) = insert i (set (held r ?t))" using held iq by (auto simp: held_def)
    then have js: "distinct (map fst (jobs s))"
        "set (jobs s) = (\<lambda>i. (job_origin (store s ! i), i)) ` insert i (set (held r ?t))"
      using j by (simp_all add: jobs_inv_def)
    have "i \<notin> set (held r ?t)" using held by simp
    note jobs_without [OF js this]
    then have "jobs_inv r ?t" using j held q by (simp add: jobs_inv_def)
    moreover have "flags_inv r ?t" by (rule fail_job_flags [OF f i queued(1) held(3) _ b]) (simp add: held(2))
    ultimately show ?thesis by (simp add: slots_inv_def)
  qed
qed

text \<open>The clock has failed: nothing is queued and every job is settled.\<close>

definition idle_inv :: "'v scheduler \<Rightarrow> bool" where
  "idle_inv s \<longleftrightarrow> healthy s \<or> queue s = [] \<and> (\<forall>i < length (store s). job_settled (store s ! i))"

section \<open>Steps that only fail jobs\<close>

text \<open>A settled job never changes again.\<close>

definition keeps_settled :: "'v scheduler \<Rightarrow> 'v scheduler \<Rightarrow> bool" where
  "keeps_settled s t \<longleftrightarrow> length (store s) \<le> length (store t) \<and>
     (\<forall>k < length (store s). job_settled (store s ! k) \<longrightarrow> store t ! k = store s ! k)"

lemma keeps_settled_refl [simp]: "store t = store s \<Longrightarrow> keeps_settled s t"
  by (simp add: keeps_settled_def)

lemma keeps_settled_trans: "keeps_settled s t \<Longrightarrow> keeps_settled t u \<Longrightarrow> keeps_settled s u"
  by (auto simp: keeps_settled_def)

lemma keeps_settledD: "keeps_settled s t \<Longrightarrow> k < length (store s) \<Longrightarrow> job_settled (store s ! k) \<Longrightarrow>
    store t ! k = store s ! k"
  by (simp add: keeps_settled_def)

definition only_fails :: "'v scheduler \<Rightarrow> 'v scheduler \<Rightarrow> bool" where
  "only_fails s t \<longleftrightarrow> originStarts t = originStarts s \<and> starts t = starts s \<and> active t = active s \<and>
     lastTime t = lastTime s \<and> healthy t = healthy s \<and> waiting t = waiting s \<and> dispatched t = dispatched s \<and>
     length (store t) = length (store s) \<and> set (queue t) \<subseteq> set (queue s) \<and> length (queue t) \<le> length (queue s) \<and>
     (\<forall>k. job_origin (store t ! k) = job_origin (store s ! k)) \<and>
     keeps_settled s t"

lemma only_fails_refl [simp]: "only_fails s s"
  by (simp add: only_fails_def)

lemma only_fails_trans: "only_fails s t \<Longrightarrow> only_fails t u \<Longrightarrow> only_fails s u"
  by (auto simp: only_fails_def intro: keeps_settled_trans)

lemma only_fails_fail [simp]: "only_fails s (fail_job e i s)"
  by (auto simp: only_fails_def keeps_settled_def fail_job_store fail_job_queue length_remove1
      dest: set_remove1_subset [THEN subsetD])

lemma fold_fails:
  assumes "\<And>x s. x \<in> set xs \<Longrightarrow> g x s = s \<or> g x s = fail_job (e x) (h x) s"
  shows "only_fails s (fold g xs s)"
    and "slots_inv r s \<Longrightarrow> \<forall>x \<in> set xs. h x < length (store s) \<Longrightarrow> slots_inv r (fold g xs s)"
proof -
  show "only_fails s (fold g xs s)" using assms
  proof (induction xs arbitrary: s)
    case (Cons x xs)
    have "only_fails s (g x s)" using Cons.prems [of x s] by auto
    moreover have "only_fails (g x s) (fold g xs (g x s))" by (intro Cons.IH Cons.prems) simp
    ultimately show ?case by (auto intro: only_fails_trans)
  qed simp
  show "slots_inv r (fold g xs s)" if "slots_inv r s" "\<forall>x \<in> set xs. h x < length (store s)"
    using that assms
  proof (induction xs arbitrary: s)
    case (Cons x xs)
    have "slots_inv r (g x s)" "length (store (g x s)) = length (store s)"
      using Cons.prems(3) [of x s] Cons.prems(1,2) by (auto intro: fail_job_inv)
    then show ?case using Cons.prems(2) Cons.prems(3) by (auto intro!: Cons.IH)
  qed simp
qed

lemma fold_fails_settles:
  "i \<in> set xs \<Longrightarrow> i < length (store s) \<Longrightarrow> job_settled (store (fold (fail_job e) xs s) ! i)"
proof (induction xs arbitrary: s)
  case (Cons x xs)
  have f: "only_fails (fail_job e x s) (fold (fail_job e) xs (fail_job e x s))"
    by (rule fold_fails(1) [where h = "\<lambda>x. x" and e = "\<lambda>_. e"]) simp
  show ?case
  proof (cases "i = x")
    case True
    then have "job_settled (store (fail_job e x s) ! i)" using Cons.prems by (simp add: fail_job_settled)
    then show ?thesis using f Cons.prems by (simp add: only_fails_def keeps_settled_def)
  qed (use Cons in simp)
qed simp

section \<open>Reading the clock\<close>

lemma slots_cong:
  assumes "store t = store s" "jobs t = jobs s" "queue t = queue s" "waiting t = waiting s" "active t = active s"
  shows "slots_inv r t \<longleftrightarrow> slots_inv r s"
  using assms by (simp add: slots_inv_def jobs_inv_def flags_inv_def held_def)

lemma clear_wake_fields [simp]:
  "store (clear_wake s) = store s" "jobs (clear_wake s) = jobs s" "queue (clear_wake s) = queue s"
  "originStarts (clear_wake s) = originStarts s" "starts (clear_wake s) = starts s"
  "active (clear_wake s) = active s" "lastTime (clear_wake s) = lastTime s"
  "healthy (clear_wake s) = healthy s" "waiting (clear_wake s) = waiting s"
  "dispatched (clear_wake s) = dispatched s"
  by (simp_all add: clear_wake_def)

lemma clock_failed_eq: "clock_failed s =
    fold (fail_job ClockReason) (map snd (jobs s)) (clear_wake (s\<lparr>healthy := False\<rparr>))"
  by (simp add: clock_failed_def Let_def fold_map comp_def case_prod_unfold)

lemma clock_failed_inv:
  assumes "slots_inv r s"
  shows "slots_inv r (clock_failed s) \<and> idle_inv (clock_failed s) \<and> queue (clock_failed s) = [] \<and>
    only_fails (s\<lparr>healthy := False\<rparr>) (clock_failed s)"
proof -
  let ?s = "clear_wake (s\<lparr>healthy := False\<rparr>)" let ?is = "map snd (jobs s)"
  have inv: "slots_inv r ?s" using assms slots_cong [of ?s s r] by simp
  have b: "\<forall>i \<in> set ?is. i < length (store ?s)" using assms by (auto simp: slots_inv_def jobs_inv_def)
  have o: "only_fails ?s (clock_failed s)"
    unfolding clock_failed_eq by (rule fold_fails(1) [where h = "\<lambda>x. x" and e = "\<lambda>_. ClockReason"]) simp
  have i: "slots_inv r (clock_failed s)"
    unfolding clock_failed_eq
    by (rule fold_fails(2) [where h = "\<lambda>x. x" and e = "\<lambda>_. ClockReason", OF _ inv b]) simp
  have "job_settled (store (clock_failed s) ! k)" if k: "k < length (store s)" for k
  proof (cases "job_settled (store s ! k)")
    case True
    then show ?thesis using o k by (simp add: only_fails_def keeps_settled_def)
  next
    case False
    then have "k \<in> set (held r s)" using assms k by (auto simp: slots_inv_def flags_inv_def)
    moreover have "set (jobs s) = (\<lambda>i. (job_origin (store s ! i), i)) ` set (held r s)"
      using assms by (simp add: slots_inv_def jobs_inv_def)
    ultimately have "k \<in> set ?is" by (simp add: image_image)
    then show ?thesis unfolding clock_failed_eq by (rule fold_fails_settles) (use k in simp)
  qed
  moreover have "length (store (clock_failed s)) = length (store s)" using o by (simp add: only_fails_def)
  ultimately have all: "\<forall>k < length (store (clock_failed s)). job_settled (store (clock_failed s) ! k)" by simp
  have none: "k \<notin> set (queue (clock_failed s))" for k
  proof
    assume "k \<in> set (queue (clock_failed s))"
    then have "k < length (store (clock_failed s))" "\<not> job_settled (store (clock_failed s) ! k)"
      using i by (auto simp: slots_inv_def jobs_inv_def flags_inv_def held_def)
    with all show False by simp
  qed
  have "queue (clock_failed s) = []" using none list.set_sel(1) by blast
  then show ?thesis using i o all by (simp add: idle_inv_def only_fails_def keeps_settled_def)
qed

section \<open>The invariant of the rates\<close>

text \<open>Starts in one window, and starts of one origin, keep their distance.\<close>

definition spaced :: "(jsstring \<times> rat) list \<Rightarrow> bool" where
  "spaced l \<longleftrightarrow>
     (\<forall>i j. i < j \<and> j < length l \<and> fst (l ! i) = fst (l ! j) \<longrightarrow> 30000 \<le> double (snd (l ! j) - snd (l ! i))) \<and>
     (\<forall>i. i + 32 < length l \<longrightarrow> 1000 \<le> double (snd (l ! (i + 32)) - snd (l ! i)))"

definition rate_inv :: "'v scheduler \<Rightarrow> bool" where
  "rate_inv s \<longleftrightarrow> length (starts s) \<le> 32 \<and> active s \<le> 16 \<and> length (originStarts s) \<le> 1000 \<and>
     distinct (map fst (originStarts s)) \<and>
     (\<exists>gone. map snd (dispatched s) = gone @ starts s \<and> (\<forall>u \<in> set gone. 1000 \<le> double (lastTime s - u))) \<and>
     (\<forall>(o', u) \<in> set (dispatched s). (o', u) \<in> set (originStarts s) \<or> 30000 \<le> double (lastTime s - u)) \<and>
     spaced (dispatched s) \<and>
     (\<forall>i \<in> set (queue s). job_origin (store s ! i) \<notin> fst ` set (originStarts s))"

lemma rate_only_fails: "rate_inv s \<Longrightarrow> only_fails s t \<Longrightarrow> rate_inv t"
  unfolding rate_inv_def only_fails_def by (auto dest!: subsetD)

lemma rate_cong:
  assumes "originStarts t = originStarts s" "starts t = starts s" "active t = active s" "dispatched t = dispatched s"
    and "lastTime s \<le> lastTime t" "queue t = queue s" "\<And>k. job_origin (store t ! k) = job_origin (store s ! k)"
    and "rate_inv s"
  shows "rate_inv t"
proof -
  have later: "c \<le> double (lastTime s - u) \<Longrightarrow> c \<le> double (lastTime t - u)" for c u
    using double_mono [of "lastTime s - u" "lastTime t - u"] assms(5) by simp
  obtain gone where g: "map snd (dispatched s) = gone @ starts s" "\<forall>u \<in> set gone. 1000 \<le> double (lastTime s - u)"
    using assms(8) by (auto simp: rate_inv_def)
  have "\<forall>u \<in> set gone. 1000 \<le> double (lastTime t - u)" using g(2) later by blast
  moreover have "\<forall>(o', u) \<in> set (dispatched s). (o', u) \<in> set (originStarts s) \<or> 30000 \<le> double (lastTime t - u)"
    using assms(8) later by (fastforce simp: rate_inv_def)
  ultimately show ?thesis using assms g(1) unfolding rate_inv_def by auto
qed

definition sched_inv :: "nat list \<Rightarrow> 'v scheduler \<Rightarrow> bool" where
  "sched_inv r s \<longleftrightarrow> slots_inv r s \<and> idle_inv s \<and> rate_inv s"

lemma sched_now_None:
  assumes "sched_now env s = (None, t)" "sched_inv r s"
  shows "sched_inv r t \<and> queue t = [] \<and> (\<forall>i < length (store t). job_settled (store t ! i))"
proof (cases "healthy s")
  case False
  then show ?thesis using assms by (auto simp: sched_now_def sched_inv_def idle_inv_def)
next
  case True
  let ?s = "s\<lparr>clock_reads := clock_reads s + 1\<rparr>"
  have t: "t = clock_failed ?s"
    using assms(1) True by (auto simp: sched_now_def Let_def split: option.splits if_splits)
  have s: "slots_inv r ?s" using assms(2) slots_cong [of ?s s r] by (simp add: sched_inv_def)
  have "rate_inv (?s\<lparr>healthy := False\<rparr>)" using assms(2) by (auto simp: sched_inv_def intro: rate_cong [of _ s])
  moreover have "\<not> healthy (clock_failed ?s)" using clock_failed_inv [OF s] by (simp add: only_fails_def)
  ultimately show ?thesis using clock_failed_inv [OF s]
    by (auto simp: t sched_inv_def idle_inv_def intro: rate_only_fails)
qed

lemma sched_now_Some:
  assumes "sched_now env s = (Some u, t)"
  shows "t = s\<lparr>clock_reads := clock_reads s + 1, lastTime := u\<rparr> \<and> healthy s \<and> lastTime s \<le> u"
  using assms by (auto simp: sched_now_def Let_def split: option.splits if_splits)

lemma sched_now_inv:
  assumes "sched_now env s = (v, t)" "sched_inv r s"
  shows "sched_inv r t"
proof (cases v)
  case None
  then show ?thesis using sched_now_None assms by blast
next
  case (Some u)
  from sched_now_Some [OF assms(1) [unfolded Some]] assms(2) show ?thesis
    by (auto simp: sched_inv_def idle_inv_def slots_cong [of "s\<lparr>clock_reads := _, lastTime := _\<rparr>" s] intro: rate_cong [of _ s])
qed

lemma sched_now_fields:
  assumes "sched_now env s = (v, t)" "sched_inv r s"
  shows "length (store t) = length (store s) \<and> length (queue t) \<le> length (queue s) \<and>
    waiting t = waiting s \<and> active t = active s \<and> keeps_settled s t"
proof (cases v)
  case None
  then have "t = s \<or> t = clock_failed (s\<lparr>clock_reads := clock_reads s + 1\<rparr>)"
    using assms(1) by (auto simp: sched_now_def Let_def split: option.splits if_splits)
  moreover have "slots_inv r (s\<lparr>clock_reads := clock_reads s + 1\<rparr>)"
    using assms(2) slots_cong [of "s\<lparr>clock_reads := clock_reads s + 1\<rparr>" s r] by (simp add: sched_inv_def)
  note clock_failed_inv [OF this]
  ultimately show ?thesis by (auto simp: only_fails_def keeps_settled_def)
qed (use assms(1) in \<open>auto dest: sched_now_Some\<close>)

section \<open>The steps of the pump\<close>

lemma prune_fields [simp]:
  "store (prune t s) = store s" "jobs (prune t s) = jobs s" "queue (prune t s) = queue s"
  "active (prune t s) = active s" "lastTime (prune t s) = lastTime s" "healthy (prune t s) = healthy s"
  "waiting (prune t s) = waiting s" "dispatched (prune t s) = dispatched s"
  by (simp_all add: prune_def)

lemma prune_inv:
  assumes "sched_inv r s" "t = lastTime s"
  shows "sched_inv r (prune t s)"
proof -
  have "rate_inv s" using assms(1) by (simp add: sched_inv_def)
  then obtain gone where g: "map snd (dispatched s) = gone @ starts s" "\<forall>u \<in> set gone. 1000 \<le> double (t - u)"
    by (auto simp: rate_inv_def assms(2))
  have "map snd (dispatched s) = (gone @ takeWhile (\<lambda>u. 1000 \<le> double (t - u)) (starts s)) @ starts (prune t s)"
    using g(1) by (simp add: prune_def)
  moreover have "\<forall>u \<in> set (gone @ takeWhile (\<lambda>u. 1000 \<le> double (t - u)) (starts s)). 1000 \<le> double (t - u)"
    using g(2) by (auto dest: set_takeWhileD)
  ultimately have "\<exists>gone. map snd (dispatched s) = gone @ starts (prune t s) \<and> (\<forall>u \<in> set gone. 1000 \<le> double (t - u))"
    by blast
  moreover have "length (starts (prune t s)) \<le> 32" "length (originStarts (prune t s)) \<le> 1000"
    using \<open>rate_inv s\<close>
    by (auto simp: prune_def rate_inv_def intro: le_trans [OF length_dropWhile_le] le_trans [OF length_filter_le])
  moreover have "distinct (map fst (originStarts (prune t s)))"
    using \<open>rate_inv s\<close> by (simp add: prune_def rate_inv_def distinct_map_filter)
  moreover have "\<forall>(o', u) \<in> set (dispatched s). (o', u) \<in> set (originStarts (prune t s)) \<or> 30000 \<le> double (t - u)"
    using \<open>rate_inv s\<close> by (auto simp: prune_def rate_inv_def assms(2) not_le)
  moreover have "\<forall>i \<in> set (queue s). job_origin (store s ! i) \<notin> fst ` set (originStarts (prune t s))"
    using \<open>rate_inv s\<close> by (auto simp: prune_def rate_inv_def)
  ultimately have "rate_inv (prune t s)"
    using \<open>rate_inv s\<close> assms(2) by (simp add: rate_inv_def)
  then show ?thesis
    using assms(1) slots_cong [of "prune t s" s r] by (simp add: sched_inv_def idle_inv_def)
qed

lemma inv_only_fails: "sched_inv r s \<Longrightarrow> only_fails s t \<Longrightarrow> slots_inv r t \<Longrightarrow> sched_inv r t"
  by (auto simp: sched_inv_def intro: rate_only_fails) (auto simp: idle_inv_def only_fails_def keeps_settled_def)

lemma fail_inv: "sched_inv r s \<Longrightarrow> i < length (store s) \<Longrightarrow> sched_inv r (fail_job e i s)"
  by (rule inv_only_fails) (auto intro: fail_job_inv simp: sched_inv_def)

lemma expire_only_fails: "only_fails s (expire t s)"
  unfolding expire_def by (rule fold_fails(1) [where h = "\<lambda>x. x" and e = "\<lambda>_. DeadlineReason"]) simp

lemma queue_bound: "sched_inv r s \<Longrightarrow> i \<in> set (queue s) \<Longrightarrow> i < length (store s)"
  by (auto simp: sched_inv_def slots_inv_def jobs_inv_def held_def)

lemma expire_sched_inv:
  assumes "sched_inv r s"
  shows "sched_inv r (expire t s)"
proof (rule inv_only_fails [OF assms expire_only_fails])
  have "\<forall>i \<in> set (queue s). i < length (store s)" using queue_bound [OF assms] by blast
  moreover have "slots_inv r s" using assms by (simp add: sched_inv_def)
  ultimately show "slots_inv r (expire t s)"
    unfolding expire_def by (intro fold_fails(2) [where h = "\<lambda>x. x" and e = "\<lambda>_. DeadlineReason"]) auto
qed

lemma update_absent: "k \<notin> fst ` set al \<Longrightarrow> AList.update k v al = al @ [(k, v)]"
  by (induction al) auto

lemma spaced_snoc:
  assumes "spaced l" "length gone + length ws = length l" "length ws < 32"
    and "map snd l = gone @ ws" "\<forall>u \<in> set gone. 1000 \<le> double (t - u)"
    and "\<forall>(o', u) \<in> set l. o' = org \<longrightarrow> 30000 \<le> double (t - u)"
  shows "spaced (l @ [(org, t)])"
proof -
  have old: "1000 \<le> double (t - snd (l ! i))" if "i + 32 = length l" for i
  proof -
    have i: "i < length gone" "i < length l" using that assms(2,3) by auto
    then have "snd (l ! i) = gone ! i" by (metis assms(4) nth_append nth_map)
    then show ?thesis using assms(5) i(1) by auto
  qed
  have same: "30000 \<le> double (t - snd (l ! i))" if "i < length l" "fst (l ! i) = org" for i
    using assms(6) nth_mem [OF that(1)] that(2) by (auto simp: case_prod_unfold)
  show ?thesis
    using assms(1) by (auto simp: spaced_def nth_append old same less_Suc_eq)
qed

lemma dispatch_fields [simp]:
  "jobs (dispatch t i s) = jobs s" "queue (dispatch t i s) = tl (queue s)" "waiting (dispatch t i s) = waiting s"
  "active (dispatch t i s) = active s + 1" "starts (dispatch t i s) = starts s @ [t]"
  "originStarts (dispatch t i s) = AList.update (job_origin (store s ! i)) t (originStarts s)"
  "dispatched (dispatch t i s) = dispatched s @ [(job_origin (store s ! i), t)]"
  "lastTime (dispatch t i s) = lastTime s" "healthy (dispatch t i s) = healthy s"
  "length (store (dispatch t i s)) = length (store s)"
  by (simp_all add: dispatch_def)

lemma dispatch_store:
  "k < length (store s) \<Longrightarrow> store (dispatch t i s) ! k =
     (if k = i then (store s ! i)\<lparr>job_active := True\<rparr> else store s ! k)"
  by (auto simp: dispatch_def with_job_def nth_list_update)

lemma dispatch_origin [simp]: "job_origin (store (dispatch t i s) ! k) = job_origin (store s ! k)"
  by (cases "i < length (store s)"; cases "k = i")
    (auto simp: dispatch_def with_job_def not_less list_update_beyond)

lemma queue_head:
  assumes "sched_inv r s" "queue s = i # q"
  shows "i < length (store s)" "\<not> job_settled (store s ! i)" "\<not> job_active (store s ! i)"
    "job_origin (store s ! i) \<notin> fst ` set (originStarts s)"
    "k \<in> set q \<Longrightarrow> job_origin (store s ! k) \<noteq> job_origin (store s ! i)"
proof -
  have j: "jobs_inv r s" and f: "flags_inv r s" and ra: "rate_inv s"
    using assms(1) by (simp_all add: sched_inv_def slots_inv_def)
  show "i < length (store s)" "\<not> job_settled (store s ! i)" "\<not> job_active (store s ! i)"
    "job_origin (store s ! i) \<notin> fst ` set (originStarts s)"
    using j f ra assms(2) by (simp_all add: jobs_inv_def flags_inv_def rate_inv_def held_def)
  assume "k \<in> set q"
  then have "(job_origin (store s ! k), k) \<in> set (jobs s)" "(job_origin (store s ! i), i) \<in> set (jobs s)" "k \<noteq> i"
    using j assms(2) by (auto simp: jobs_inv_def held_def)
  moreover have "distinct (map fst (jobs s))" using j by (simp add: jobs_inv_def)
  ultimately show "job_origin (store s ! k) \<noteq> job_origin (store s ! i)" by (metis eq_key_imp_eq_value)
qed

lemma dispatch_rates:
  assumes "rate_inv s" "active s < 16" "length (starts s) < 32" "length (originStarts s) < 1000"
    and "job_origin (store s ! i) \<notin> fst ` set (originStarts s)"
    and "\<forall>k \<in> set (tl (queue s)). job_origin (store s ! k) \<noteq> job_origin (store s ! i)"
  shows "rate_inv (dispatch (lastTime s) i s)"
proof -
  let ?o = "job_origin (store s ! i)" and ?t = "lastTime s"
  obtain gone where g: "map snd (dispatched s) = gone @ starts s" "\<forall>u \<in> set gone. 1000 \<le> double (?t - u)"
    using assms(1) by (auto simp: rate_inv_def)
  have len: "length gone + length (starts s) = length (dispatched s)" using arg_cong [OF g(1), of length] by simp
  have old: "\<forall>(o', u) \<in> set (dispatched s). o' = ?o \<longrightarrow> 30000 \<le> double (?t - u)"
    using assms(1,5) by (force simp: rate_inv_def)
  have up: "AList.update ?o ?t (originStarts s) = originStarts s @ [(?o, ?t)]"
    using assms(5) by (rule update_absent)
  have "spaced (dispatched s @ [(?o, ?t)])"
    using assms(1,3) g len old by (intro spaced_snoc) (auto simp: rate_inv_def)
  moreover have "\<exists>gone. map snd (dispatched s) @ [?t] = gone @ starts s @ [?t] \<and> (\<forall>u \<in> set gone. 1000 \<le> double (?t - u))"
    using g by auto
  moreover have "\<forall>k \<in> set (tl (queue s)). job_origin (store s ! k) \<notin> fst ` set (originStarts s)"
    using assms(1) by (cases "queue s") (auto simp: rate_inv_def)
  ultimately show ?thesis using assms by (auto simp: rate_inv_def up)
qed

lemma dispatch_inv:
  assumes inv: "sched_inv [] s" and q: "queue s = i # q" and "healthy s" "active s < 16"
    and "length (starts s) < 32" "length (originStarts s) < 1000"
  shows "sched_inv [i] (dispatch (lastTime s) i s)"
proof -
  note h = queue_head [OF inv q]
  have j: "jobs_inv [] s" and f: "flags_inv [] s" using inv by (simp_all add: sched_inv_def slots_inv_def)
  have "jobs_inv [i] (dispatch (lastTime s) i s)"
    using j q by (auto simp: jobs_inv_def held_def)
  moreover have "flags_inv [i] (dispatch (lastTime s) i s)"
  proof -
    have "i \<notin> set q" "\<forall>k \<in> set q. k < length (store s)" "\<forall>k \<in> set (waiting s). k < length (store s)"
      using j q by (auto simp: jobs_inv_def held_def)
    then show ?thesis using f q h(1-3)
      by (auto simp: flags_inv_def held_def dispatch_store split: if_splits)
  qed
  moreover have "rate_inv (dispatch (lastTime s) i s)"
    using inv assms(4-6) h(4,5) q by (intro dispatch_rates) (auto simp: sched_inv_def)
  ultimately show ?thesis using assms(3) by (simp add: sched_inv_def slots_inv_def idle_inv_def)
qed

lemma execute_begin_inv:
  assumes inv: "sched_inv [i] s" and e: "execute_begin env i s = (returned, t)"
  shows "sched_inv (if returned then [i] else []) t \<and> length (queue t) \<le> length (queue s) \<and> keeps_settled s t \<and>
    (returned \<longrightarrow> i < length (store t) \<and> job_settled (store t ! i))"
proof -
  have i: "i < length (store s)" using inv by (simp add: sched_inv_def slots_inv_def jobs_inv_def held_def)
  obtain v s1 where n: "sched_now env s = (v, s1)" by fastforce
  note inv1 = sched_now_inv [OF n inv] and f = sched_now_fields [OF n inv]
  show ?thesis
  proof (cases v)
    case None
    then show ?thesis using e n inv1 f i sched_now_None [OF n [unfolded None] inv] by (auto simp: execute_begin_def)
  next
    case (Some u)
    have ok: "sched_inv [i] (fail_job r i u')" "length (queue (fail_job r i u')) \<le> length (queue s)"
        "job_settled (store (fail_job r i u') ! i)" "keeps_settled s (fail_job r i u')"
      if "sched_inv [i] u'" "i < length (store u')" "length (queue u') \<le> length (queue s)" "keeps_settled s u'" for r u'
      using that fail_inv only_fails_fail [of u' r i]
      by (auto simp: only_fails_def fail_job_settled intro: keeps_settled_trans)
    show ?thesis
    proof (cases "job_settled (store s1 ! i)")
      case True
      then show ?thesis using e n Some inv1 f i by (simp add: execute_begin_def)
    next
      case False
      let ?remaining = "\<lfloor>double (3000 - double (u - job_started (store s1 ! i)))\<rfloor>"
      let ?s2 = "s1\<lparr>worker_calls := worker_calls s1 @ [(i, ?remaining)]\<rparr>"
      have s2: "sched_inv [i] ?s2" "i < length (store ?s2)" "length (queue ?s2) \<le> length (queue s)"
          "keeps_settled s ?s2" "keeps_settled s (?s2\<lparr>waiting := waiting s1 @ [i]\<rparr>)"
        using inv1 f i by (auto simp: sched_inv_def slots_cong [of ?s2 s1] idle_inv_def keeps_settled_def intro: rate_cong [of _ s1])
      have "sched_inv [] (?s2\<lparr>waiting := waiting s1 @ [i]\<rparr>)"
        using inv1 by (auto simp: sched_inv_def slots_inv_def jobs_inv_def flags_inv_def held_def idle_inv_def rate_inv_def)
      then show ?thesis
        using e n Some False f i ok [OF inv1] ok [OF s2(1-4)] s2(5)
        by (auto simp: execute_begin_def Let_def split: if_splits)
    qed
  qed
qed

lemma release_inv:
  assumes inv: "sched_inv [i] s" and "job_settled (store s ! i)"
  shows "sched_inv [] (release i s)"
proof -
  have j: "jobs_inv [i] s" and f: "flags_inv [i] s" using inv by (simp_all add: sched_inv_def slots_inv_def)
  have h: "set (held [i] s) = insert i (set (held [] s))" "i \<notin> set (held [] s)" "held [] (release i s) = held [] s"
    using j by (auto simp: jobs_inv_def held_def release_def)
  have "jobs (release i s) = AList.delete (job_origin (store s ! i)) (jobs s)"
    by (simp add: release_def forget_job_def)
  moreover have js: "distinct (map fst (jobs s))" "set (jobs s) = (\<lambda>i. (job_origin (store s ! i), i)) ` insert i (set (held [] s))"
    using j h(1) by (simp_all add: jobs_inv_def)
  moreover note jobs_without [OF js h(2)]
  moreover have "distinct (held [] s)" using j by (simp add: jobs_inv_def held_def)
  ultimately have "jobs_inv [] (release i s)"
    using j h(1,3) by (simp add: jobs_inv_def) (simp add: release_def)
  moreover have "flags_inv [] (release i s)"
    using f assms(2) h(3) by (auto simp: flags_inv_def h(1)) (auto simp: release_def held_def)
  moreover have "rate_inv (release i s)" "idle_inv (release i s)"
    using inv by (auto simp: sched_inv_def rate_inv_def idle_inv_def release_def)
  ultimately show ?thesis by (simp add: sched_inv_def slots_inv_def)
qed

section \<open>The loop ends\<close>

lemma wake_inv [simp]: "sched_inv r (clear_wake s) = sched_inv r s" "sched_inv r (set_wake d s) = sched_inv r s"
  by (simp_all add: sched_inv_def slots_inv_def jobs_inv_def flags_inv_def held_def idle_inv_def rate_inv_def
      clear_wake_def set_wake_def)

text \<open>What one iteration prepares: the queue after \<open>#prune\<close> and the deadline check.\<close>

lemma pump_step_inv:
  assumes "sched_now env s = (Some t, s1)" "sched_inv [] s"
  shows "sched_inv [] (expire t (prune t s1)) \<and> lastTime (expire t (prune t s1)) = t \<and>
    healthy (expire t (prune t s1)) \<and> length (queue (expire t (prune t s1))) \<le> length (queue s) \<and>
    active (expire t (prune t s1)) = active s \<and> length (starts (expire t (prune t s1))) \<le> length (starts s) \<and>
    keeps_settled s (expire t (prune t s1))"
proof -
  have s1: "sched_inv [] s1" "lastTime s1 = t" "healthy s1" "length (queue s1) = length (queue s)"
      "active s1 = active s" "starts s1 = starts s" "store s1 = store s"
    using sched_now_inv [OF assms] sched_now_Some [OF assms(1)] by auto
  then have "sched_inv [] (expire t (prune t s1))" by (intro expire_sched_inv prune_inv) simp_all
  moreover have "only_fails (prune t s1) (expire t (prune t s1))" by (rule expire_only_fails)
  moreover have "length (starts (prune t s1)) \<le> length (starts s)" using s1 by (simp add: prune_def length_dropWhile_le)
  ultimately show ?thesis using s1 by (simp add: only_fails_def keeps_settled_def)
qed

text \<open>A state in which the loop stops: no job can start now.\<close>

definition pumped :: "'v scheduler \<Rightarrow> bool" where
  "pumped s \<longleftrightarrow> queue s = [] \<or> 16 \<le> active s \<or> 32 \<le> length (starts s)"

lemma pumped_wake [simp]: "pumped (set_wake d s) = pumped s"
  by (simp add: pumped_def set_wake_def)

lemma dispatch_keeps: "\<not> job_settled (store s ! i) \<Longrightarrow> keeps_settled s (dispatch t i s)"
  by (auto simp: keeps_settled_def dispatch_store)

lemma pump_loop_ends:
  "sched_inv [] s \<Longrightarrow> \<exists>t. pump_loop env s = Some t \<and> sched_inv [] t \<and> pumped t \<and>
     length (queue t) \<le> length (queue s) \<and> keeps_settled s t \<and>
     (queue s \<noteq> [] \<and> active s < 16 \<and> length (starts s) < 32 \<longrightarrow> length (queue t) < length (queue s))"
proof (induction "length (queue s)" arbitrary: s rule: less_induct)
  case less
  obtain v s1 where n: "sched_now env s = (v, s1)" by fastforce
  show ?case
  proof (cases v)
    case None
    with n sched_now_None [OF _ less.prems, of env s1] sched_now_fields [OF n less.prems] show ?thesis
      by (auto simp: pump_loop.simps [of env s] pumped_def)
  next
    case (Some t)
    define s2 where "s2 = expire t (prune t s1)"
    have s2: "sched_inv [] s2" "lastTime s2 = t" "healthy s2" "length (queue s2) \<le> length (queue s)"
      "active s2 = active s" "length (starts s2) \<le> length (starts s)" "keeps_settled s s2"
      using pump_step_inv [OF n [unfolded Some] less.prems] by (simp_all add: s2_def)
    note loop = pump_loop.simps [of env s, unfolded n Some option.case prod.case, folded s2_def, unfolded Let_def]
    consider (empty) "queue s2 = []" | (full) "16 \<le> active s2"
      | (window) "queue s2 \<noteq> []" "active s2 < 16" "32 \<le> length (starts s2)"
      | (origins) "queue s2 \<noteq> []" "active s2 < 16" "length (starts s2) < 32" "1000 \<le> length (originStarts s2)"
      | (start) "queue s2 \<noteq> []" "active s2 < 16" "length (starts s2) < 32" "length (originStarts s2) < 1000"
      by linarith
    then show ?thesis
    proof cases
      case empty
      then show ?thesis using s2 by (simp add: loop pumped_def)
    next
      case full
      then show ?thesis using s2 by (simp add: loop pumped_def)
    next
      case window
      then show ?thesis using s2
        by (simp add: loop pumped_def) (simp add: set_wake_def keeps_settled_def)
    next
      case origins
      then obtain i q where q: "queue s2 = i # q" by (cases "queue s2") auto
      note h = queue_head [OF s2(1) q]
      let ?s3 = "fail_job CapacityReason i s2"
      have "sched_inv [] ?s3" "keeps_settled s2 ?s3" "queue ?s3 = q"
        using fail_inv [OF s2(1) h(1)] only_fails_fail [of s2 CapacityReason i] h q
        by (simp_all add: only_fails_def fail_job_queue)
      moreover from this obtain u where "pump_loop env ?s3 = Some u" "sched_inv [] u" "pumped u"
          "length (queue u) \<le> length q" "keeps_settled ?s3 u"
        using less.hyps [of ?s3] s2(4) q by auto
      ultimately show ?thesis
        using origins s2(4,7) q by (auto simp: loop intro: keeps_settled_trans)
    next
      case start
      then obtain i q where q: "queue s2 = i # q" by (cases "queue s2") auto
      have d: "sched_inv [i] (dispatch t i s2)" using dispatch_inv [OF s2(1) q s2(3)] start s2(2) by simp
      obtain returned s3 where e: "execute_begin env i (dispatch t i s2) = (returned, s3)" by fastforce
      note s3 = execute_begin_inv [OF d e]
      have l3: "length (queue s3) < length (queue s)" using s3 q s2(4) by simp
      have k3: "keeps_settled s s3"
        using s2(7) dispatch_keeps [OF queue_head(2) [OF s2(1) q]] s3 by (blast intro: keeps_settled_trans)
      show ?thesis
      proof (cases returned)
        case False
        then show ?thesis using less.hyps [OF l3] s3 start q e l3 k3 by (auto simp: loop intro: keeps_settled_trans)
      next
        case True
        let ?s4 = "clear_wake (release i s3)"
        have s4: "sched_inv [] ?s4" "queue ?s4 = queue s3" "keeps_settled s3 ?s4"
          using s3 True release_inv by (auto simp: release_def)
        then obtain s5 where s5: "pump_loop env ?s4 = Some s5" "sched_inv [] s5"
            "length (queue s5) \<le> length (queue s3)" "keeps_settled ?s4 s5"
          using less.hyps [of ?s4] l3 by auto
        then obtain s6 where s6: "pump_loop env s5 = Some s6" "sched_inv [] s6" "pumped s6"
            "length (queue s6) \<le> length (queue s5)" "keeps_settled s5 s6"
          using less.hyps [of s5] l3 by auto
        have "keeps_settled s s6" using k3 s4(3) s5(4) s6(5) by (blast intro: keeps_settled_trans)
        then show ?thesis using s5 s6 True start q e l3 by (simp add: loop)
      qed
    qed
  qed
qed

section \<open>Events\<close>

lemma pump_ends:
  assumes "sched_inv [] s"
  obtains t where "pump env s = Some t" "sched_inv [] t" "length (queue t) \<le> length (queue s)" "keeps_settled s t"
    "queue s \<noteq> [] \<and> active s < 16 \<and> length (starts s) < 32 \<Longrightarrow> length (queue t) < length (queue s)"
proof -
  have "sched_inv [] (clear_wake s)" using assms by simp
  from pump_loop_ends [OF this, of env] obtain t where "pump env s = Some t" "sched_inv [] t"
      "length (queue t) \<le> length (queue s)" "keeps_settled (clear_wake s) t"
      "queue s \<noteq> [] \<and> active s < 16 \<and> length (starts s) < 32 \<longrightarrow> length (queue t) < length (queue s)"
    by (auto simp: pump_def)
  then show ?thesis by (intro that) (simp_all add: keeps_settled_def)
qed

definition scheduler_inv :: "'v scheduler \<Rightarrow> bool" where
  "scheduler_inv s \<longleftrightarrow> sched_inv [] s \<and> length (queue s) \<le> 64"

lemma new_scheduler_inv: "scheduler_inv new_scheduler"
  by (simp add: scheduler_inv_def sched_inv_def slots_inv_def jobs_inv_def flags_inv_def held_def idle_inv_def
      rate_inv_def new_scheduler_def spaced_def)

lemma add_job_inv:
  assumes inv: "sched_inv [] s" and h: "healthy s" and new: "map_of (jobs s) org = None"
    and cold: "map_of (originStarts s) org = None"
  shows "sched_inv [] (add_job org started t s)"
proof -
  let ?t = "add_job org started t s" let ?n = "length (store s)"
  have j: "jobs_inv [] s" and f: "flags_inv [] s" using inv by (simp_all add: sched_inv_def slots_inv_def)
  have fields: "queue ?t = queue s @ [?n]" "waiting ?t = waiting s" "jobs ?t = jobs s @ [(org, ?n)]"
      "active ?t = active s" "length (store ?t) = ?n + 1" "healthy ?t" "originStarts ?t = originStarts s"
      "starts ?t = starts s" "dispatched ?t = dispatched s" "lastTime ?t = lastTime s"
    using new h by (simp_all add: add_job_def Let_def update_absent map_of_eq_None_iff)
  have old: "k < ?n \<Longrightarrow> store ?t ! k = store s ! k" for k by (simp add: add_job_def Let_def nth_append)
  have last: "job_origin (store ?t ! ?n) = org" "\<not> job_active (store ?t ! ?n)" "\<not> job_settled (store ?t ! ?n)"
      "job_promise (store ?t ! ?n) = None" "job_timer (store ?t ! ?n) \<noteq> None"
    by (simp_all add: add_job_def Let_def)
  have bound: "\<forall>k \<in> set (held [] s). k < ?n" "\<forall>k \<in> set (queue s). k < ?n" "\<forall>k \<in> set (waiting s). k < ?n"
    using j by (auto simp: jobs_inv_def held_def)
  have held: "set (held [] ?t) = insert ?n (set (held [] s))" "distinct (held [] ?t)"
    using j bound by (auto simp: jobs_inv_def held_def fields)
  have "jobs_inv [] ?t"
  proof -
    have "(\<lambda>i. (job_origin (store ?t ! i), i)) ` set (held [] s) = (\<lambda>i. (job_origin (store s ! i), i)) ` set (held [] s)"
      using bound(1) old by (intro image_cong) auto
    then have "set (jobs ?t) = (\<lambda>i. (job_origin (store ?t ! i), i)) ` set (held [] ?t)"
      using j by (simp add: jobs_inv_def fields held(1) last(1))
    moreover have "distinct (map fst (jobs ?t))" using j new by (simp add: jobs_inv_def fields map_of_eq_None_iff)
    ultimately show ?thesis using j held bound by (auto simp: jobs_inv_def fields)
  qed
  moreover have "flags_inv [] ?t"
  proof -
    have "if job_settled (store ?t ! k) then job_promise (store ?t ! k) \<noteq> None \<and> job_timer (store ?t ! k) = None
        else job_promise (store ?t ! k) = None \<and> job_timer (store ?t ! k) \<noteq> None \<and> k \<in> set (held [] ?t)"
      if "k < ?n + 1" for k
    proof (cases "k = ?n")
      case True
      then show ?thesis using last held(1) by simp
    next
      case False
      then have "k < ?n" using that by simp
      then show ?thesis using f held(1) old [of k] by (auto simp: flags_inv_def)
    qed
    moreover have "\<forall>k \<in> set (queue ?t). \<not> job_active (store ?t ! k) \<and> \<not> job_settled (store ?t ! k)"
      using f bound(2) old last by (auto simp: flags_inv_def fields)
    moreover have "\<forall>k \<in> set (waiting s). job_active (store ?t ! k)"
      using f bound(3) old by (simp add: flags_inv_def)
    ultimately show ?thesis by (simp add: flags_inv_def fields)
  qed
  moreover have "rate_inv ?t"
    using inv cold last(1) old bound(2)
    by (auto simp: sched_inv_def rate_inv_def fields map_of_eq_None_iff)
  ultimately show ?thesis using fields by (simp add: sched_inv_def slots_inv_def idle_inv_def)
qed

lemma run_admitted_ends:
  assumes inv: "scheduler_inv s" and h: "healthy s" "lastTime s = t"
  shows "\<exists>r u. run_admitted env org started t s = Some (r, u) \<and> scheduler_inv u \<and> keeps_settled s u"
proof (cases "map_of (jobs s) org")
  case (Some i)
  then have "(org, i) \<in> set (jobs s)" by (rule map_of_SomeD)
  then have "i < length (store s)" using inv by (auto simp: scheduler_inv_def sched_inv_def slots_inv_def jobs_inv_def)
  then have "sched_inv [] (fail_job DeadlineReason i s)" using inv fail_inv by (auto simp: scheduler_inv_def)
  moreover have "only_fails s (fail_job DeadlineReason i s)" by simp
  ultimately have "scheduler_inv (fail_job DeadlineReason i s)" "keeps_settled s (fail_job DeadlineReason i s)"
    using inv by (auto simp: scheduler_inv_def only_fails_def)
  then show ?thesis using Some inv by (simp add: run_admitted_def)
next
  case None
  let ?s1 = "prune t s" let ?s2 = "add_job org started t ?s1"
  have s1: "sched_inv [] ?s1" using inv h(2) by (intro prune_inv) (simp_all add: scheduler_inv_def)
  show ?thesis
  proof (cases "map_of (originStarts ?s1) org = None \<and> length (originStarts ?s1) < 1000 \<and>
      (length (queue s) < 64 \<or> active s < 16 \<and> length (starts ?s1) < 32)")
    case False
    then have "\<exists>r. run_admitted env org started t s = Some (r, ?s1)" using None
      by (auto simp: run_admitted_def not_le Let_def)
    then show ?thesis using s1 inv by (auto simp: scheduler_inv_def)
  next
    case True
    have "sched_inv [] ?s2" by (rule add_job_inv [OF s1]) (use h(1) None True in auto)
    moreover have "queue ?s2 = queue s @ [length (store s)]" "active ?s2 = active s" "starts ?s2 = starts ?s1"
        "keeps_settled s ?s2"
      by (auto simp: add_job_def Let_def keeps_settled_def nth_append)
    moreover obtain u where "pump env ?s2 = Some u" "sched_inv [] u" "length (queue u) \<le> length (queue ?s2)"
        "keeps_settled ?s2 u"
        "queue ?s2 \<noteq> [] \<and> active ?s2 < 16 \<and> length (starts ?s2) < 32 \<Longrightarrow> length (queue u) < length (queue ?s2)"
      using pump_ends [OF \<open>sched_inv [] ?s2\<close>] by blast
    ultimately have "pump env ?s2 = Some u" "scheduler_inv u" "keeps_settled s u"
      using True inv by (auto simp: scheduler_inv_def intro: keeps_settled_trans)
    then show ?thesis using None True by (auto simp: run_admitted_def not_le)
  qed
qed

lemma scheduler_now_inv:
  assumes "sched_now env s = (v, t)" "scheduler_inv s"
  shows "scheduler_inv t \<and> keeps_settled s t"
proof -
  have "sched_inv [] s" using assms(2) by (simp add: scheduler_inv_def)
  from sched_now_inv [OF assms(1) this] sched_now_fields [OF assms(1) this] assms(2) show ?thesis
    by (simp add: scheduler_inv_def)
qed

lemma run_scheduler_ends:
  assumes inv: "scheduler_inv s"
  shows "\<exists>r u. run_scheduler env p v startedAt s = Some (r, u) \<and> scheduler_inv u \<and> keeps_settled s u"
proof (cases "configuredAgentOrigin p (Some v) (JsInt (int (number_at DEFAULT_PROFILE_LIMITS ''maxAgentUrlBytes'')))")
  case (Inl e)
  then show ?thesis using inv by (simp add: run_scheduler_def)
next
  case (Inr org)
  obtain now s1 where n: "sched_now env s = (now, s1)" by fastforce
  note s1 = scheduler_now_inv [OF n inv]
  show ?thesis
  proof (cases now)
    case None
    then show ?thesis using Inr n s1 by (simp add: run_scheduler_def)
  next
    case (Some t)
    then have h: "healthy s1" "lastTime s1 = t" using sched_now_Some [of env s t s1] n by auto
    have go: "\<exists>r u. run_admitted env org started t s1 = Some (r, u) \<and> scheduler_inv u \<and> keeps_settled s u" for started
      using run_admitted_ends [OF s1 [THEN conjunct1] h, of env org started] s1 by (blast intro: keeps_settled_trans)
    then show ?thesis using Inr n Some s1 by (auto simp: run_scheduler_def split: option.splits)
  qed
qed

lemma deadline_eq: "sched_inv [] s \<Longrightarrow> i < length (store s) \<Longrightarrow>
    fail_job e i (with_job i (\<lambda>j. j\<lparr>job_timer := None\<rparr>) s) = fail_job e i s"
proof -
  assume inv: "sched_inv [] s" and i: "i < length (store s)"
  show ?thesis
  proof (cases "job_settled (store s ! i)")
    case True
    then have "job_timer (store s ! i) = None" using inv i by (auto simp: sched_inv_def slots_inv_def flags_inv_def)
    then have "(store s ! i)\<lparr>job_timer := None\<rparr> = store s ! i" by simp
    then have "with_job i (\<lambda>j. j\<lparr>job_timer := None\<rparr>) s = s" by (simp add: with_job_def)
    then show ?thesis by simp
  next
    case False
    then show ?thesis using i by (simp add: fail_job_def with_job_def settle_job_def Let_def)
  qed
qed

lemma deadline_fires_ends:
  assumes inv: "scheduler_inv s" and i: "i < length (store s)"
  shows "\<exists>u. deadline_fires env i s = Some u \<and> scheduler_inv u \<and> keeps_settled s u \<and> job_settled (store u ! i)"
proof -
  have si: "sched_inv [] s" using inv by (simp add: scheduler_inv_def)
  let ?f = "fail_job DeadlineReason i s"
  have f: "sched_inv [] ?f" "keeps_settled s ?f" "length (queue ?f) \<le> 64" "i < length (store ?f)" "job_settled (store ?f ! i)"
    using fail_inv [OF si i] only_fails_fail [of s DeadlineReason i] inv i
    by (auto simp: only_fails_def scheduler_inv_def fail_job_settled)
  obtain u where "pump env ?f = Some u" "sched_inv [] u" "length (queue u) \<le> length (queue ?f)" "keeps_settled ?f u"
    using pump_ends [OF f(1)] by blast
  then show ?thesis using f deadline_eq [OF si i] keeps_settledD [of ?f u i]
    by (auto simp: deadline_fires_def scheduler_inv_def intro: keeps_settled_trans)
qed

lemma wake_fires_ends:
  assumes "scheduler_inv s"
  shows "\<exists>u. wake_fires env w s = Some u \<and> scheduler_inv u \<and> keeps_settled s u"
proof -
  let ?s = "s\<lparr>wakes := filter (\<lambda>(v, _). v \<noteq> w) (wakes s)\<rparr>"
  have "held [] ?s = held [] s" by (simp add: held_def)
  then have "sched_inv [] ?s" using assms
    by (simp add: scheduler_inv_def sched_inv_def slots_inv_def jobs_inv_def flags_inv_def idle_inv_def rate_inv_def)
  then obtain u where "pump env ?s = Some u" "sched_inv [] u" "length (queue u) \<le> length (queue ?s)" "keeps_settled ?s u"
    using pump_ends by blast
  then show ?thesis using assms by (auto simp: wake_fires_def scheduler_inv_def keeps_settled_def)
qed

lemma settle_running_inv:
  assumes inv: "sched_inv [i] s" and i: "\<not> job_settled (store s ! i)"
  shows "sched_inv [i] (with_job i (settle_job r) s)"
proof -
  let ?t = "with_job i (settle_job r) s"
  have j: "jobs_inv [i] s" and f: "flags_inv [i] s" using inv by (simp_all add: sched_inv_def slots_inv_def)
  have b: "i < length (store s)" "i \<notin> set (queue s)" using j by (auto simp: jobs_inv_def held_def)
  have o: "job_origin (store ?t ! k) = job_origin (store s ! k)" "job_active (store ?t ! k) = job_active (store s ! k)" for k
    by (rule with_job_keeps, simp)+
  have "jobs_inv [i] ?t" using j by (simp add: jobs_inv_def held_def o)
  moreover have "flags_inv [i] ?t"
  proof -
    have "if job_settled (store ?t ! k) then job_promise (store ?t ! k) \<noteq> None \<and> job_timer (store ?t ! k) = None
        else job_promise (store ?t ! k) = None \<and> job_timer (store ?t ! k) \<noteq> None \<and> k \<in> set (held [i] ?t)"
      if "k < length (store s)" for k
      using f that by (auto simp: flags_inv_def with_job_store held_def)
    moreover have "\<forall>k \<in> set (queue s). \<not> job_settled (store ?t ! k)"
      using f b j by (auto simp: flags_inv_def with_job_store jobs_inv_def held_def)
    ultimately show ?thesis using f by (simp add: flags_inv_def o)
  qed
  moreover have "rate_inv ?t" using inv by (auto simp: sched_inv_def o intro: rate_cong [of _ s])
  moreover have "idle_inv ?t" using inv i b by (auto simp: sched_inv_def idle_inv_def with_job_store)
  ultimately show ?thesis by (simp add: sched_inv_def slots_inv_def)
qed

lemma execute_resume_inv:
  assumes inv: "sched_inv [i] s"
  shows "sched_inv [i] (execute_resume env i result s) \<and> job_settled (store (execute_resume env i result s) ! i) \<and>
    keeps_settled s (execute_resume env i result s) \<and>
    length (queue (execute_resume env i result s)) \<le> length (queue s)"
proof -
  have i: "i < length (store s)" using inv by (simp add: sched_inv_def slots_inv_def jobs_inv_def held_def)
  have failing: "sched_inv [i] (fail_job e i u)" "job_settled (store (fail_job e i u) ! i)" "keeps_settled s (fail_job e i u)"
      "length (queue (fail_job e i u)) \<le> length (queue s)"
    if "sched_inv [i] u" "i < length (store u)" "keeps_settled s u" "length (queue u) \<le> length (queue s)" for e u
    using that fail_inv only_fails_fail [of u e i] by (auto simp: only_fails_def fail_job_settled intro: keeps_settled_trans)
  show ?thesis
  proof (cases result)
    case None
    then show ?thesis using failing [OF inv i] by (simp add: execute_resume_def)
  next
    case (Some v)
    obtain now s1 where n: "sched_now env s = (now, s1)" by fastforce
    note inv1 = sched_now_inv [OF n inv] and f = sched_now_fields [OF n inv]
    have f1: "i < length (store s1)" "keeps_settled s s1" "length (queue s1) \<le> length (queue s)" using f i by auto
    have "sched_inv [i] (with_job i (settle_job (Resolved v)) s1)" "keeps_settled s (with_job i (settle_job (Resolved v)) s1)"
      if u: "\<not> job_settled (store s1 ! i)"
    proof -
      show "sched_inv [i] (with_job i (settle_job (Resolved v)) s1)" by (rule settle_running_inv [OF inv1 u])
      have "keeps_settled s1 (with_job i (settle_job (Resolved v)) s1)"
        using u f1 by (auto simp: keeps_settled_def with_job_store)
      then show "keeps_settled s (with_job i (settle_job (Resolved v)) s1)" using f1(2) by (rule keeps_settled_trans [rotated])
    qed
    then show ?thesis
      using Some n inv1 f1 failing [OF inv1 f1]
      by (simp add: execute_resume_def with_job_store split: option.split)
  qed
qed

lemma worker_settles_ends:
  assumes inv: "scheduler_inv s" and i: "i \<in> set (waiting s)"
  shows "\<exists>u. worker_settles env i result s = Some u \<and> scheduler_inv u \<and> keeps_settled s u \<and> job_settled (store u ! i)"
proof -
  let ?s1 = "s\<lparr>waiting := remove1 i (waiting s)\<rparr>" let ?s2 = "execute_resume env i result ?s1"
  have si: "sched_inv [] s" using inv by (simp add: scheduler_inv_def)
  have d: "distinct (waiting s)" "i \<notin> set (queue s)" using si i by (auto simp: sched_inv_def slots_inv_def jobs_inv_def held_def)
  have held: "set (held [i] ?s1) = set (held [] s)" "set (waiting ?s1) = set (waiting s) - {i}"
    using d i by (auto simp: held_def)
  have "jobs_inv [i] ?s1"
    using si d i by (auto simp: sched_inv_def slots_inv_def jobs_inv_def held_def length_remove1 distinct_remove1
        dest: set_remove1_subset [THEN subsetD] length_pos_if_in_set)
  moreover have "flags_inv [i] ?s1"
    using si i by (simp add: sched_inv_def slots_inv_def flags_inv_def held(1) d)
  ultimately have s1: "sched_inv [i] ?s1"
    using si by (simp add: sched_inv_def slots_inv_def idle_inv_def rate_inv_def)
  note s2 = execute_resume_inv [OF s1, of env result]
  have "sched_inv [] (release i ?s2)" using s2 release_inv by blast
  then obtain u where u: "pump env (release i ?s2) = Some u" "sched_inv [] u"
      "length (queue u) \<le> length (queue (release i ?s2))" "keeps_settled (release i ?s2) u"
    using pump_ends by blast
  have b: "i < length (store ?s2)" using s2 by (simp add: sched_inv_def slots_inv_def jobs_inv_def held_def)
  have r: "store (release i ?s2) = store ?s2" "queue (release i ?s2) = queue ?s2" by (simp_all add: release_def)
  have "keeps_settled ?s2 u" "keeps_settled ?s1 ?s2" using u(4) r s2 by (simp_all add: keeps_settled_def)
  then have "keeps_settled ?s1 u" by (blast intro: keeps_settled_trans)
  moreover have "job_settled (store u ! i)" using \<open>keeps_settled ?s2 u\<close> b s2 by (simp add: keeps_settledD)
  ultimately show ?thesis using u s2 r inv by (simp add: worker_settles_def scheduler_inv_def keeps_settled_def)
qed

lemma handle_event_ends:
  assumes "scheduler_inv s" "event_enabled e s"
  shows "\<exists>u. handle_event env p e s = Some u \<and> scheduler_inv u \<and> keeps_settled s u"
proof (cases e)
  case (RunEvent v t)
  with run_scheduler_ends [OF assms(1), of env p v t] show ?thesis by auto
next
  case (DeadlineEvent i)
  with assms deadline_fires_ends [OF assms(1), of i env] show ?thesis by auto
next
  case (WakeEvent w)
  with wake_fires_ends [OF assms(1), of env w] show ?thesis by auto
next
  case (WorkerEvent i r)
  with assms worker_settles_ends [OF assms(1), of i env r] show ?thesis by auto
qed

lemma reachable_inv: "scheduler_reachable env p s \<Longrightarrow> scheduler_inv s"
proof (induction rule: scheduler_reachable.induct)
  case fresh
  show ?case by (rule new_scheduler_inv)
next
  case (event s e s')
  then show ?case using handle_event_ends [of s e env p] by auto
qed

section \<open>One concrete run\<close>

definition sample_env :: scheduler_env where
  "sample_env = \<lparr>clock_reading = (\<lambda>_. Some 5), worker_returns = (\<lambda>_. True)\<rparr>"

definition sample_event :: "nat scheduler_event" where
  "sample_event = RunEvent sample_origin None"

definition sample_busy :: "nat scheduler" where
  "sample_busy = the (handle_event sample_env sample_url sample_event new_scheduler)"

lemma double_numeral: "numeral n < (2 ^ 53 :: int) \<Longrightarrow> double (numeral n) = numeral n"
  using double_of_int [of "numeral n"] by simp

lemma double_0: "double 0 = 0"
  using double_of_int [of 0] by simp

lemma sample_now: "healthy s \<Longrightarrow> lastTime s \<le> 5 \<Longrightarrow>
    sched_now sample_env s = (Some 5, s\<lparr>clock_reads := clock_reads s + 1, lastTime := 5\<rparr>)"
  by (simp add: sched_now_def sample_env_def max_safe_def Let_def)

lemma sample_steps:
  "handle_event sample_env sample_url sample_event new_scheduler = Some sample_busy"
  "length (store sample_busy) = 1" "job_promise (store sample_busy ! 0) = None" "waiting sample_busy = [0]"
proof -
  have origin: "configuredAgentOrigin sample_url (Some sample_origin)
      (JsInt (int (number_at DEFAULT_PROFILE_LIMITS ''maxAgentUrlBytes''))) = Inr sample_origin"
    by (rule sample_configured) (simp_all add: number_at_def DEFAULT_PROFILE_LIMITS_def max_safe_def)
  note ops = pump_def prune_def expire_def dispatch_def execute_begin_def clear_wake_def with_job_def Let_def
    double_0 double_numeral sample_now
  have run: "\<exists>u. handle_event sample_env sample_url sample_event new_scheduler = Some (u :: nat scheduler) \<and>
      length (store u) = 1 \<and> job_promise (store u ! 0) = None \<and> waiting u = [0]"
    using sample_now
    by (simp add: sample_event_def run_scheduler_def origin new_scheduler_def run_admitted_def add_job_def ops)
      (simp add: pump_loop.simps [of sample_env] ops, simp add: sample_env_def)
  then show "handle_event sample_env sample_url sample_event new_scheduler = Some sample_busy"
    "length (store sample_busy) = 1" "job_promise (store sample_busy ! 0) = None" "waiting sample_busy = [0]"
    by (auto simp: sample_busy_def)
qed

lemma sample_reachable: "scheduler_reachable sample_env sample_url sample_busy"
  by (rule event [OF fresh _ sample_steps(1)]) (simp add: sample_event_def)

section \<open>Properties\<close>

text \<open>C21. Every call of the scheduler returns. In every state it can reach, \<open>run\<close>, a deadline timer, a
  wake timer and the settling of a worker's promise each end: the pump loop, which has no bound of its
  own and pumps again from inside itself when a job ends before its \<open>await\<close>, always terminates.\<close>

theorem scheduler_returns:
  assumes "scheduler_reachable env p s" "event_enabled e s"
  shows "\<exists>s'. handle_event env p e s = Some s'"
  using handle_event_ends [OF reachable_inv [OF assms(1)] assms(2)] by blast

lemma scheduler_returns_witness:
  "\<exists>s'. handle_event sample_env sample_url (WorkerEvent 0 (Some 7)) sample_busy = Some s'"
  by (rule scheduler_returns [OF sample_reachable]) (simp add: sample_steps)

text \<open>C23. The rates hold over the whole history of a scheduler, whatever the clock and the workers do: two
  starts for one origin are thirty seconds apart, of any thirty-three consecutive starts the last is a
  second after the first, at most sixteen workers run, one for each held slot, at most sixty-four jobs
  wait, and at most a thousand origins are tracked.\<close>

theorem scheduler_rates:
  assumes "scheduler_reachable env p s"
  shows "spaced (dispatched s) \<and> active s = length (waiting s) \<and> active s \<le> 16 \<and>
    length (queue s) \<le> 64 \<and> length (originStarts s) \<le> 1000"
  using reachable_inv [OF assms]
  by (simp add: scheduler_inv_def sched_inv_def slots_inv_def jobs_inv_def rate_inv_def)

lemma scheduler_rates_witness: "spaced (dispatched sample_busy) \<and> active sample_busy = 1"
  using scheduler_rates [OF sample_reachable] sample_steps(4) by simp

text \<open>C22. No promise hangs and none changes. A job whose promise is pending has an armed deadline timer,
  and when it fires the promise settles; a promise that has settled keeps its value through every
  later call.\<close>

theorem no_promise_hangs:
  assumes "scheduler_reachable env p s" "i < length (store s)"
  shows "(job_promise (store s ! i) = None \<longrightarrow> event_enabled (DeadlineEvent i) s \<and>
      (\<exists>s'. handle_event env p (DeadlineEvent i) s = Some s' \<and> job_promise (store s' ! i) \<noteq> None)) \<and>
    (\<forall>r e s'. job_promise (store s ! i) = Some r \<and> event_enabled e s \<and> handle_event env p e s = Some s' \<longrightarrow>
      job_promise (store s' ! i) = Some r)"
proof -
  note inv = reachable_inv [OF assms(1)]
  have flags: "flags_inv [] s" using inv by (simp add: scheduler_inv_def sched_inv_def slots_inv_def)
  have "event_enabled (DeadlineEvent i) s \<and>
      (\<exists>s'. handle_event env p (DeadlineEvent i) s = Some s' \<and> job_promise (store s' ! i) \<noteq> None)"
    if pending: "job_promise (store s ! i) = None"
  proof -
    have "job_timer (store s ! i) \<noteq> None" using flags assms(2) pending by (auto simp: flags_inv_def split: if_splits)
    moreover obtain u where u: "deadline_fires env i s = Some u" "scheduler_inv u" "keeps_settled s u"
        "job_settled (store u ! i)"
      using deadline_fires_ends [OF inv assms(2), of env] by blast
    moreover have "job_promise (store u ! i) \<noteq> None"
      using u assms(2)
      by (auto simp: scheduler_inv_def sched_inv_def slots_inv_def flags_inv_def keeps_settled_def)
    ultimately show ?thesis using assms(2) by simp
  qed
  moreover have "job_promise (store s' ! i) = Some r"
    if settled: "job_promise (store s ! i) = Some r" and e: "event_enabled e s" "handle_event env p e s = Some s'"
    for r e s'
  proof -
    have "job_settled (store s ! i)" using flags assms(2) settled by (cases "job_settled (store s ! i)") (auto simp: flags_inv_def)
    moreover have "keeps_settled s s'" using handle_event_ends [OF inv e(1), of env p] e(2) by auto
    ultimately show ?thesis using settled assms(2) by (simp add: keeps_settledD)
  qed
  ultimately show ?thesis by blast
qed

lemma no_promise_hangs_witness:
  "\<exists>s'. handle_event sample_env sample_url (DeadlineEvent 0) sample_busy = Some s' \<and> job_promise (store s' ! 0) \<noteq> None"
  using no_promise_hangs [OF sample_reachable, of 0] sample_steps by simp

end
