(* ===== verification/DirServiceSafety.thy ===== *)
theory DirServiceSafety
  imports DirService SchedulerSafety
begin

text \<open>
  What holds in every reachable state of the discovery services: their caches keep the invariant of
  \<open>DirCacheSafety\<close> for the sets committed last, a delivered response has been applied by both
  profiles, the pending refreshes are bounded, and the scheduler is in one of its reachable states.
\<close>

section \<open>The invariant of a service\<close>

definition service_ok :: "'k discovery_config \<Rightarrow> wba_profile \<Rightarrow> 'k service \<Rightarrow> bool" where
  "service_ok cfg p s \<longleftrightarrow>
     cache_ok (cp_options (dc_platform cfg p)) (sv_evidence s) (sv_cache s) \<and>
     length (sv_pending s) \<le> 80 \<and> distinct (map fst (sv_pending s))"

text \<open>What a step may do to a service: the invariant stays, and no application and no selection is lost.\<close>

definition extends :: "'k directory_cache \<Rightarrow> 'k directory_cache \<Rightarrow> bool" where
  "extends c c' \<longleftrightarrow> (\<exists>more. selections c' = selections c @ more)"

lemma extends_same [simp]: "selections c' = selections c \<Longrightarrow> extends c c'"
  by (simp add: extends_def)

lemma extends_trans: "extends c c' \<Longrightarrow> extends c' c'' \<Longrightarrow> extends c c''"
  by (auto simp: extends_def)

definition advances :: "'k discovery_config \<Rightarrow> wba_profile \<Rightarrow> 'k service \<Rightarrow> 'k service \<Rightarrow> bool" where
  "advances cfg p s s' \<longleftrightarrow> (service_ok cfg p s \<longrightarrow> service_ok cfg p s') \<and>
     fst ` set (sv_applied s) \<subseteq> fst ` set (sv_applied s') \<and> extends (sv_cache s) (sv_cache s')"

lemma service_advances_refl [simp]: "advances cfg p s s"
  by (simp add: advances_def)

lemma service_advances_trans: "advances cfg p s s' \<Longrightarrow> advances cfg p s' s'' \<Longrightarrow> advances cfg p s s''"
  using extends_trans [of "sv_cache s" "sv_cache s'" "sv_cache s''"] by (auto simp: advances_def)

lemma cache_calls_extend:
  "fetchBlocked C origin reading c = (b, c1) \<Longrightarrow> extends c c1"
  "cache_lookup C origin thumbprint reading c = (l, c1) \<Longrightarrow> extends c c1"
  "cache_recheck i reading c = (ok, c1) \<Longrightarrow> extends c c1"
  "recordFailure C origin reading c = (u, c1) \<Longrightarrow> extends c c1"
  "cache_prepare C response c = (t, c1) \<Longrightarrow> extends c c1"
proof -
  have noted: "selections (note_failure options origin now q) = selections q" for options origin now q
    by (simp add: note_failure_def pruneNegative_def Let_def)
  show "fetchBlocked C origin reading c = (b, c1) \<Longrightarrow> extends c c1"
    by (auto simp: fetchBlocked_def pruneNegative_def Let_def dest!: cache_now_frame split: sum.splits prod.splits option.splits)
  show "cache_lookup C origin thumbprint reading c = (l, c1) \<Longrightarrow> extends c c1"
    by (auto simp: cache_lookup_def extends_def dest!: cache_now_frame split: sum.splits prod.splits option.splits)
  show "cache_recheck i reading c = (ok, c1) \<Longrightarrow> extends c c1"
    by (auto simp: cache_recheck_def dest!: cache_now_frame split: sum.splits prod.splits option.splits if_splits)
  show "recordFailure C origin reading c = (u, c1) \<Longrightarrow> extends c c1"
    by (auto simp: recordFailure_def noted dest!: cache_now_frame split: sum.splits prod.splits option.splits)
  show "cache_prepare C response c = (t, c1) \<Longrightarrow> extends c c1"
    by (auto simp: cache_prepare_def split: sum.splits)
qed

lemma evict_selections: "evict options n q = (b, q') \<Longrightarrow> selections q' = selections q"
proof (induction options n q rule: evict.induct)
  case (1 options n q)
  show ?case
  proof (cases "maxPositiveEntries options \<le> length (positive q) \<or> int (maxPositiveAccountedBytes options) < cacheBytes q + int n")
    case True
    show ?thesis
    proof (cases "positive q")
      case Nil
      with True 1(2) show ?thesis by (simp add: evict.simps [of options n q])
    next
      case (Cons x es)
      obtain k e where "x = (k, e)" by (cases x)
      with True 1 Cons show ?thesis by (simp add: evict.simps [of options n q])
    qed
  next
    case False
    with 1(2) show ?thesis by (simp add: evict.simps [of options n q])
  qed
qed

lemma commit_entry_selections: "commit_entry options origin p now c = (b, c') \<Longrightarrow> selections c' = selections c"
  by (auto simp: commit_entry_def Let_def split: prod.splits bool.splits if_splits dest: evict_selections)

lemma commit_extends:
  assumes "cache_commit C originInput ticket reading c = (u, c1)"
  shows "extends c c1"
proof -
  have read: "cache_now reading (c\<lparr>prepared := q\<rparr>) = (r, c2) \<Longrightarrow> selections c2 = selections c" for q r c2
    by (drule cache_now_frame) simp
  show ?thesis
    using assms
    by (auto simp: cache_commit_def dest!: read commit_entry_selections split: sum.splits option.splits prod.splits)
qed

lemma cache_calls_ok:
  assumes "cache_ok (cp_options C) ev c"
  shows "fetchBlocked C origin reading c = (b, c1) \<Longrightarrow> cache_ok (cp_options C) ev c1"
    "cache_lookup C origin thumbprint reading c = (l, c1) \<Longrightarrow> cache_ok (cp_options C) ev c1"
    "cache_recheck i reading c = (ok, c1) \<Longrightarrow> cache_ok (cp_options C) ev c1"
    "recordFailure C origin reading c = (u, c1) \<Longrightarrow> cache_ok (cp_options C) ev c1"
    "cache_prepare C response c = (t, c1) \<Longrightarrow> cache_ok (cp_options C) ev c1"
  using cache_step_ok [OF assms, of "CacheBlocked origin reading"] cache_step_ok [OF assms, of "CacheLookup origin thumbprint reading"]
    cache_step_ok [OF assms, of "CacheRecheck i reading"] cache_step_ok [OF assms, of "CacheFailure origin reading"]
    cache_step_ok [OF assms, of "CachePrepare response"]
  by (simp_all add: step_evidence_def)

text \<open>A step that calls the cache and changes neither the evidence nor the tasks.\<close>

lemma advances_cache:
  assumes "\<And>ev. cache_ok (cp_options (dc_platform cfg p)) ev (sv_cache s) \<Longrightarrow> cache_ok (cp_options (dc_platform cfg p)) ev c"
    and "extends (sv_cache s) c"
  shows "advances cfg p s (s\<lparr>sv_cache := c\<rparr>)"
  using assms by (simp add: advances_def service_ok_def)

lemma cache_advances:
  "fetchBlocked (dc_platform cfg p) origin reading (sv_cache s) = (b, c1) \<Longrightarrow> advances cfg p s (s\<lparr>sv_cache := c1\<rparr>)"
  "cache_lookup (dc_platform cfg p) origin thumbprint reading (sv_cache s) = (l, c1) \<Longrightarrow> advances cfg p s (s\<lparr>sv_cache := c1\<rparr>)"
  "cache_recheck i reading (sv_cache s) = (ok, c1) \<Longrightarrow> advances cfg p s (s\<lparr>sv_cache := c1\<rparr>)"
  "recordFailure (dc_platform cfg p) origin reading (sv_cache s) = (u, c1) \<Longrightarrow> advances cfg p s (s\<lparr>sv_cache := c1\<rparr>)"
  "cache_prepare (dc_platform cfg p) response (sv_cache s) = (t, c1) \<Longrightarrow> advances cfg p s (s\<lparr>sv_cache := c1\<rparr>)"
  by (blast intro: advances_cache cache_calls_ok(1) cache_calls_extend(1),
      blast intro: advances_cache cache_calls_ok(2) cache_calls_extend(2),
      blast intro: advances_cache cache_calls_ok(3) cache_calls_extend(3),
      blast intro: advances_cache cache_calls_ok(4) cache_calls_extend(4),
      blast intro: advances_cache cache_calls_ok(5) cache_calls_extend(5))

lemma service_now_frame:
  assumes "service_now reading s = (r, s')"
  shows "sv_cache s' = sv_cache s" "sv_pending s' = sv_pending s" "sv_applied s' = sv_applied s"
    "sv_evidence s' = sv_evidence s" "sv_delivering s' = sv_delivering s" "sv_events s' = sv_events s"
  using assms by (auto simp: service_now_def split: if_splits option.splits)

lemma service_now_advances: "service_now reading s = (r, s') \<Longrightarrow> advances cfg p s s'"
  by (simp add: advances_def service_ok_def service_now_frame)

lemma set_task_advances: "origin \<in> fst ` set (sv_pending s) \<Longrightarrow> advances cfg p s (set_task origin task s)"
  by (simp add: advances_def service_ok_def set_task_def length_map_set distinct_map_set)

lemma add_task_advances:
  "length (sv_pending s) < 80 \<Longrightarrow> origin \<notin> fst ` set (sv_pending s) \<Longrightarrow>
     advances cfg p s (s\<lparr>sv_pending := sv_pending s @ [(origin, task)]\<rparr>)"
  by (simp add: advances_def service_ok_def)

lemma service_refresh_advances:
  assumes "service_refresh cfg p originInput readings s = (answer, s')"
  shows "advances cfg p s s'"
proof (cases "service_origin cfg originInput")
  case (Inr origin)
  obtain r s1 where now: "service_now (readings 0) s = (r, s1)" by fastforce
  note a1 = service_now_advances [OF now, of cfg p]
  obtain b c where b: "fetchBlocked (dc_platform cfg p) origin (readings 1) (sv_cache s1) = (b, c)" by fastforce
  note a2 = cache_advances(1) [OF b]
  let ?s2 = "s1\<lparr>sv_cache := c\<rparr>"
  have a3: "advances cfg p s ?s2" by (rule service_advances_trans [OF a1 a2])
  have a4: "advances cfg p s (?s2\<lparr>sv_pending := sv_pending ?s2 @ [(origin, task)]\<rparr>)"
    if "\<not> 80 \<le> length (sv_pending s1)" "origin \<notin> fst ` set (sv_pending s1)" for task
    using add_task_advances [of ?s2 origin cfg p task] that by (intro service_advances_trans [OF a3]) simp
  have "s' \<in> {s, s1, ?s2} \<or> \<not> 80 \<le> length (sv_pending s1) \<and> origin \<notin> fst ` set (sv_pending s1) \<and>
      (\<exists>task. s' = ?s2\<lparr>sv_pending := sv_pending ?s2 @ [(origin, task)]\<rparr>)"
    using assms now b unfolding service_refresh_def Inr Let_def
    by (cases r; cases b) (auto split: if_splits)
  then show ?thesis using a1 a3 a4 by auto
qed (use assms in \<open>simp add: service_refresh_def\<close>)

lemma emit_advances: "advances cfg p s (emit_refresh cfg origin result s)"
  by (simp add: advances_def service_ok_def emit_refresh_def)

lemma emit_fields [simp]: "sv_pending (emit_refresh cfg origin result s) = sv_pending s"
  by (simp add: emit_refresh_def)

lemma finish_refresh_advances:
  assumes "origin \<in> fst ` set (sv_pending s)"
  shows "advances cfg p s (finish_refresh cfg p origin result record_failure reading s)"
proof -
  obtain u c where u: "(if record_failure then recordFailure (dc_platform cfg p) origin reading (sv_cache s) else (Inr (), sv_cache s)) = (u, c)"
    by fastforce
  have a: "advances cfg p s (s\<lparr>sv_cache := c\<rparr>)"
    using u by (cases record_failure) (auto intro: cache_advances(4))
  have b: "advances cfg p s (set_task origin task (s\<lparr>sv_cache := c\<rparr>))" for task
    using set_task_advances [of origin "s\<lparr>sv_cache := c\<rparr>"] assms by (intro service_advances_trans [OF a]) simp
  have "advances cfg p s (set_task origin task (emit_refresh cfg origin result (s\<lparr>sv_cache := c\<rparr>)))" for task
    using set_task_advances [of origin "emit_refresh cfg origin result (s\<lparr>sv_cache := c\<rparr>)"] assms
    by (intro service_advances_trans [OF service_advances_trans [OF a emit_advances]]) simp
  with u b show ?thesis unfolding finish_refresh_def by (auto split: sum.split)
qed

lemma refresh_outcome_advances:
  assumes "refresh_outcome started handle outcome reading s = (r, s')"
  shows "advances cfg p s s' \<and> sv_pending s' = sv_pending s"
proof (cases outcome)
  case (Delivered fetched)
  obtain q s1 where now: "service_now reading s = (q, s1)" by fastforce
  have "s' = s1"
    using assms now unfolding refresh_outcome_def Delivered
    by (cases q; cases fetched; cases handle) (auto split: if_splits option.splits)
  then show ?thesis using service_now_advances [OF now] service_now_frame [OF now] by simp
qed (use assms in \<open>auto simp: refresh_outcome_def\<close>)

lemma prepare_view_advances: "prepare_view C response s = (v, s') \<Longrightarrow> C = dc_platform cfg p \<Longrightarrow> advances cfg p s s'"
  by (auto simp: prepare_view_def split: prod.splits sum.splits cache_error.splits intro: cache_advances(5))

lemma commit_view_advances:
  assumes "commit_view C origin i v reading s = (ok, s')" "C = dc_platform cfg p"
  shows "advances cfg p s s' \<and> (ok \<longrightarrow> i \<in> fst ` set (sv_applied s'))"
proof (cases v)
  case (ViewTicket ticket)
  obtain u c where u: "cache_commit C origin ticket reading (sv_cache s) = (u, c)" by fastforce
  then have "cache_ok (cp_options C) (sv_evidence s) (sv_cache s) \<Longrightarrow>
      cache_ok (cp_options C) (commit_evidence C origin ticket reading (sv_cache s) (sv_evidence s)) c"
    using cache_commit_ok by (metis snd_conv)
  moreover have "extends (sv_cache s) c" by (rule commit_extends [OF u])
  ultimately show ?thesis using assms u ViewTicket
    by (cases u) (auto simp: commit_view_def advances_def service_ok_def keys_map_set simp flip: set_map)
next
  case ViewInvalid
  obtain u c where u: "recordFailure C origin reading (sv_cache s) = (u, c)" by fastforce
  with assms ViewInvalid show ?thesis
    using cache_calls_ok(4) [OF _ u] cache_calls_extend(4) [OF u]
    by (cases u) (auto simp: commit_view_def advances_def service_ok_def keys_map_set simp flip: set_map)
qed

lemma resolve_open_advances:
  assumes "resolve_open cfg p originInput thumbprint spent readings s = (r, s')"
  shows "advances cfg p s s'"
proof (cases "bindE (service_origin cfg originInput) (\<lambda>origin. bindE (validateProfileKeyId (Some thumbprint)) (\<lambda>_. Inr origin))")
  case (Inr origin)
  obtain q s1 where now: "service_now (readings 0) s = (q, s1)" by fastforce
  note a1 = service_now_advances [OF now, of cfg p]
  obtain l c where l: "cache_lookup (dc_platform cfg p) origin thumbprint (readings 1) (sv_cache s1) = (l, c)" by fastforce
  let ?s2 = "s1\<lparr>sv_cache := c\<rparr>"
  have a2: "advances cfg p s ?s2" by (rule service_advances_trans [OF a1 cache_advances(2) [OF l]])
  obtain b c' where b: "fetchBlocked (dc_platform cfg p) origin (readings 2) (sv_cache ?s2) = (b, c')" by fastforce
  let ?s3 = "?s2\<lparr>sv_cache := c'\<rparr>"
  have a3: "advances cfg p s ?s3" by (rule service_advances_trans [OF a2 cache_advances(1) [OF b]])
  obtain x s4 where x: "service_refresh cfg p origin (\<lambda>n. readings (n + 3)) ?s3 = (x, s4)" by fastforce
  have a4: "advances cfg p s s4" by (rule service_advances_trans [OF a3 service_refresh_advances [OF x]])
  have "s' \<in> {s, s1, ?s2, ?s3, s4}"
    using assms now l b x unfolding resolve_open_def Inr Let_def
    by (cases q; cases l; cases b; cases x) (auto split: if_splits cache_lookup_result.splits)
  then show ?thesis using a1 a2 a3 a4 by auto
qed (use assms in \<open>simp add: resolve_open_def\<close>)

lemma resolve_close_advances:
  assumes "resolve_close cfg p originInput thumbprint refreshed readings s = (r, s')"
  shows "advances cfg p s s'"
  using assms
  by (auto simp: resolve_close_def split: prod.splits sum.splits option.splits cache_lookup_result.splits intro: cache_advances(2))

lemma service_recheck_advances:
  assumes "service_recheck cfg selection readings s = (ok, s')"
  shows "advances cfg p s s'"
proof -
  obtain r s1 where now: "service_now (readings 0) s = (r, s1)" by fastforce
  obtain b c where b: "cache_recheck (selection_id selection) (readings 1) (sv_cache s1) = (b, c)" by fastforce
  have "advances cfg p s (s1\<lparr>sv_cache := c\<rparr>)"
    by (rule service_advances_trans [OF service_now_advances [OF now] cache_advances(3) [OF b]])
  with assms now b service_now_advances [OF now, of cfg p] show ?thesis
    by (auto simp: service_recheck_def split: if_splits option.splits)
qed

section \<open>The invariant of the discovery\<close>

text \<open>The caches extend those of an earlier state: \<open>base\<close> follows the selections across any steps.\<close>

definition discovery_ok :: "'k discovery_config \<Rightarrow> (wba_profile \<Rightarrow> 'k directory_cache) \<Rightarrow> 'k discovery \<Rightarrow> bool" where
  "discovery_ok cfg base d \<longleftrightarrow>
     (\<forall>p. service_ok cfg p (di_services d p) \<and> extends (base p) (sv_cache (di_services d p))) \<and>
     (\<forall>i response p. (i, Delivered (TransportResponse response)) \<in> set (tr_settled (di_transport d)) \<longrightarrow>
        i \<in> fst ` set (sv_applied (di_services d p))) \<and>
     scheduler_reachable (dc_scheduler cfg) (dc_url cfg) (tr_scheduler (di_transport d))"

lemma with_service_simps [simp]:
  "di_services (with_service p s d) q = (if q = p then s else di_services d q)"
  "di_transport (with_service p s d) = di_transport d"
  by (simp_all add: with_service_def)

lemma ok_with_service:
  assumes "discovery_ok cfg base d" "advances cfg p (di_services d p) s"
  shows "discovery_ok cfg base (with_service p s d)"
proof -
  have "service_ok cfg p s" "extends (base p) (sv_cache s)" "fst ` set (sv_applied (di_services d p)) \<subseteq> fst ` set (sv_applied s)"
    using assms extends_trans [of "base p" "sv_cache (di_services d p)" "sv_cache s"]
    by (auto simp: discovery_ok_def advances_def)
  with assms(1) show ?thesis unfolding discovery_ok_def by (simp, blast)
qed

lemma ok_transport:
  assumes "discovery_ok cfg base d" "tr_settled tr = tr_settled (di_transport d)"
    and "scheduler_reachable (dc_scheduler cfg) (dc_url cfg) (tr_scheduler tr)"
  shows "discovery_ok cfg base (d\<lparr>di_transport := tr\<rparr>)"
  using assms by (simp add: discovery_ok_def)

lemma ok_settle:
  assumes "discovery_ok cfg base d"
    and "\<forall>response. outcome = Delivered (TransportResponse response) \<longrightarrow> (\<forall>p. i \<in> fst ` set (sv_applied (di_services d p)))"
  shows "discovery_ok cfg base (d\<lparr>di_transport := settle_delivery i outcome (di_transport d)\<rparr>)"
  using assms by (auto simp: discovery_ok_def settle_delivery_def)

lemma checkDeadline_frame:
  "checkDeadline reading startedAt tr = (r, tr') \<Longrightarrow>
     tr_settled tr' = tr_settled tr \<and> tr_scheduler tr' = tr_scheduler tr \<and> tr_deliveries tr' = tr_deliveries tr"
  by (auto simp: checkDeadline_def split: option.splits if_splits)

lemma ok_checkDeadline:
  assumes "discovery_ok cfg base d" "checkDeadline reading startedAt (di_transport d) = (r, tr)"
  shows "discovery_ok cfg base (d\<lparr>di_transport := tr\<rparr>)"
  using assms checkDeadline_frame [OF assms(2)] by (intro ok_transport) (simp_all add: discovery_ok_def)

lemma run_transport_frame:
  assumes "run_transport env parse_url origin startedAt tr = Some (r, tr')"
    and "scheduler_reachable env parse_url (tr_scheduler tr)"
  shows "tr_settled tr' = tr_settled tr \<and> scheduler_reachable env parse_url (tr_scheduler tr')"
proof -
  obtain result s where run: "run_scheduler env parse_url origin (Some (Some startedAt)) (tr_scheduler tr) = Some (result, s)"
    using assms(1) by (auto simp: run_transport_def split: option.splits)
  have "scheduler_reachable env parse_url s"
    using run by (intro scheduler_reachable.event [OF assms(2), of "RunEvent origin (Some (Some startedAt))"]) simp_all
  with assms(1) run show ?thesis by (auto simp: run_transport_def Let_def split: run_result.splits if_splits)
qed

lemma task_pending: "map_of (sv_pending s) origin = Some task \<Longrightarrow> origin \<in> fst ` set (sv_pending s)"
  by (metis domI dom_map_of_conv_image_fst)

lemma task_starts_ok:
  assumes "task_starts cfg p origin readings d = Some d'" "discovery_ok cfg base d"
  shows "discovery_ok cfg base d'"
proof -
  obtain started where task: "map_of (sv_pending (di_services d p)) origin = Some (TaskQueued started)"
    using assms(1) by (auto simp: task_starts_def split: option.splits refresh_task.splits)
  obtain q s where now: "service_now (readings 0) (di_services d p) = (q, s)" by fastforce
  note a = service_now_advances [OF now, of cfg p]
  have pending: "origin \<in> fst ` set (sv_pending s)"
    using task_pending [OF task] by (simp add: service_now_frame [OF now])
  have set: "advances cfg p (di_services d p) (set_task origin t s)" for t
    by (rule service_advances_trans [OF a set_task_advances [OF pending]])
  have finish: "advances cfg p (di_services d p) (finish_refresh cfg p origin result b reading s)" for result b reading
    by (rule service_advances_trans [OF a finish_refresh_advances [OF pending]])
  have early: "discovery_ok cfg base (with_service p (set_task origin t s) d)" for t
    by (rule ok_with_service [OF assms(2) set])
  have late: "discovery_ok cfg base (with_service p s1 (d\<lparr>di_transport := tr\<rparr>))"
    if run: "run_transport (dc_scheduler cfg) (dc_url cfg) origin started (di_transport d) = Some (h, tr)"
      and s1: "advances cfg p (di_services d p) s1" for h tr s1
  proof -
    have "discovery_ok cfg base (d\<lparr>di_transport := tr\<rparr>)"
      using run_transport_frame [OF run] assms(2) by (intro ok_transport [OF assms(2)]) (simp_all add: discovery_ok_def)
    with s1 show ?thesis by (intro ok_with_service) simp_all
  qed
  show ?thesis
    using assms(1) early late set finish unfolding task_starts_def
    by (cases q) (auto simp: task now split: if_splits option.splits prod.splits sum.splits)
qed

lemma task_resumes_ok:
  assumes "task_resumes cfg p origin readings d = Some d'" "discovery_ok cfg base d"
  shows "discovery_ok cfg base d'"
proof -
  obtain started handle outcome where task: "map_of (sv_pending (di_services d p)) origin = Some (TaskWaiting started handle)"
      "handle_settled handle (di_transport d) = Some outcome"
    using assms(1) by (auto simp: task_resumes_def split: option.splits refresh_task.splits)
  obtain result b s where o: "refresh_outcome started handle outcome (readings 0) (di_services d p) = ((result, b), s)"
    by (metis prod.collapse)
  from refresh_outcome_advances [OF o, of cfg p] have a: "advances cfg p (di_services d p) s"
    "origin \<in> fst ` set (sv_pending s)"
    using task_pending [OF task(1)] by simp_all
  have "d' = with_service p (finish_refresh cfg p origin result b (readings 1) s) d"
    using assms(1) task o by (simp add: task_resumes_def)
  then show ?thesis
    using ok_with_service [OF assms(2) service_advances_trans [OF a(1) finish_refresh_advances [OF a(2)]]] by simp
qed

lemma task_ends_ok:
  assumes "task_ends p origin d = Some d'" "discovery_ok cfg base d"
  shows "discovery_ok cfg base d'"
proof -
  let ?s = "di_services d p"
  have "d' = with_service p (?s\<lparr>sv_pending := map_delete origin (sv_pending ?s)\<rparr>) d"
    using assms(1) by (auto simp: task_ends_def Let_def split: option.splits refresh_task.splits)
  moreover have "length (map_delete origin (sv_pending ?s)) \<le> 80" if "service_ok cfg p ?s"
    using that length_map_delete [of origin "sv_pending ?s"] unfolding service_ok_def by linarith
  then have "advances cfg p ?s (?s\<lparr>sv_pending := map_delete origin (sv_pending ?s)\<rparr>)"
    by (simp add: advances_def service_ok_def map_delete_def distinct_map_filter)
  ultimately show ?thesis using ok_with_service [OF assms(2)] by simp
qed

lemma observer_returns_ok:
  assumes "observer_returns p threw d = Some d'" "discovery_ok cfg base d"
  shows "discovery_ok cfg base d'"
proof -
  let ?s = "di_services d p"
  obtain s where "d' = with_service p s d" "advances cfg p ?s s"
    using assms(1) by (auto simp: observer_returns_def Let_def advances_def service_ok_def split: if_splits)
  then show ?thesis using ok_with_service [OF assms(2)] by simp
qed

lemma prepare_views_ok:
  assumes "prepare_views cfg response d = (views, d')" "discovery_ok cfg base d"
  shows "discovery_ok cfg base d' \<and> di_transport d' = di_transport d"
proof -
  obtain v s where v: "prepare_view (dc_platform cfg WgProtocol00) response (di_services d WgProtocol00) = (v, s)" by fastforce
  let ?d1 = "with_service WgProtocol00 s d"
  have ok1: "discovery_ok cfg base ?d1" by (rule ok_with_service [OF assms(2) prepare_view_advances [OF v refl]])
  obtain v' s' where v': "prepare_view (dc_platform cfg CloudflareDocs) response (di_services ?d1 CloudflareDocs) = (v', s')" by fastforce
  have "discovery_ok cfg base (with_service CloudflareDocs s' ?d1)"
    by (rule ok_with_service [OF ok1 prepare_view_advances [OF v' refl]])
  moreover have "d' \<in> {?d1, with_service CloudflareDocs s' ?d1}"
    using assms(1) v v' unfolding prepare_views_def Let_def by (cases v; cases v') auto
  ultimately show ?thesis using ok1 by auto
qed

lemma commit_views_ok:
  assumes "commit_views cfg origin i views readings d = (ok, d')" "discovery_ok cfg base d"
  shows "discovery_ok cfg base d' \<and> di_transport d' = di_transport d \<and>
    (ok \<longrightarrow> (\<forall>p. i \<in> fst ` set (sv_applied (di_services d' p))))"
proof -
  obtain b s where b: "commit_view (dc_platform cfg WgProtocol00) origin i (fst views) (readings 0) (di_services d WgProtocol00) = (b, s)"
    by fastforce
  note a = commit_view_advances [OF b refl]
  let ?d1 = "with_service WgProtocol00 s d"
  have ok1: "discovery_ok cfg base ?d1" using a by (intro ok_with_service [OF assms(2)]) simp
  show ?thesis
  proof (cases b)
    case False
    then have "d' = ?d1 \<and> \<not> ok" using assms(1) b by (auto simp: commit_views_def)
    then show ?thesis using ok1 by simp
  next
    case True
    obtain b' s' where b': "commit_view (dc_platform cfg CloudflareDocs) origin i (snd views) (readings 1) (di_services ?d1 CloudflareDocs) = (b', s')"
      by fastforce
    note a' = commit_view_advances [OF b' refl]
    have "d' = with_service CloudflareDocs s' ?d1" "ok = b'" using assms(1) b b' True by (simp_all add: commit_views_def Let_def)
    moreover have "discovery_ok cfg base (with_service CloudflareDocs s' ?d1)" using a' by (intro ok_with_service [OF ok1]) simp
    moreover have "i \<in> fst ` set (sv_applied (di_services (with_service CloudflareDocs s' ?d1) p))" if b' for p
      using a a' True that by (cases p) simp_all
    ultimately show ?thesis by simp
  qed
qed

lemma delivery_runs_ok:
  assumes "delivery_runs cfg i readings d = Some d'" "discovery_ok cfg base d"
  shows "discovery_ok cfg base d'"
proof -
  let ?settle = "\<lambda>outcome d. d\<lparr>di_transport := settle_delivery i outcome (di_transport d)\<rparr>"
  have fail: "discovery_ok cfg base (?settle outcome e)"
    if "discovery_ok cfg base e" "\<And>response. outcome \<noteq> Delivered (TransportResponse response)" for outcome and e :: "'a discovery"
    using that by (intro ok_settle) auto
  obtain origin startedAt settlement where ready: "ready_delivery i (di_transport d) = Some (origin, startedAt, settlement)"
    using assms(1) by (auto simp: delivery_runs_def split: option.splits)
  show ?thesis
  proof (cases settlement)
    case (Rejected reason)
    then have "d' = ?settle (DeliveryRejected reason) d" using assms(1) ready by (simp add: delivery_runs_def)
    then show ?thesis using fail [OF assms(2)] by simp
  next
    case (Resolved result)
    obtain c tr where c: "checkDeadline (readings 0) startedAt (di_transport d) = (c, tr)" by fastforce
    let ?d0 = "d\<lparr>di_transport := tr\<rparr>"
    have ok0: "discovery_ok cfg base ?d0" by (rule ok_checkDeadline [OF assms(2) c])
    show ?thesis
    proof (cases "\<exists>response. c = Inr () \<and> result = TransportResponse response")
      case False
      then have "\<exists>outcome. d' = ?settle outcome ?d0 \<and> (\<forall>response. outcome \<noteq> Delivered (TransportResponse response))"
        using assms(1) ready Resolved c by (cases c; cases result) (auto simp: delivery_runs_def)
      then show ?thesis using fail [OF ok0] by auto
    next
      case True
      then obtain response where r: "c = Inr ()" "result = TransportResponse response" by blast
      obtain views d1 where v: "prepare_views cfg response ?d0 = (views, d1)" by fastforce
      note ok1 = prepare_views_ok [OF v ok0]
      show ?thesis
      proof (cases views)
        case None
        then have "d' = ?settle DeliveryBroken d1" using assms(1) ready Resolved c r v by (simp add: delivery_runs_def)
        then show ?thesis using fail [of d1 DeliveryBroken] ok1 by simp
      next
        case (Some vs)
        obtain c1 tr1 where c1: "checkDeadline (readings 1) startedAt (di_transport d1) = (c1, tr1)" by fastforce
        let ?d2 = "d1\<lparr>di_transport := tr1\<rparr>"
        have ok2: "discovery_ok cfg base ?d2" using ok1 by (intro ok_checkDeadline [OF _ c1]) simp
        obtain ok d3 where k: "commit_views cfg origin i vs (\<lambda>n. readings (n + 2)) ?d2 = (ok, d3)" by fastforce
        note ok3 = commit_views_ok [OF k ok2]
        have "d' = (case c1 of Inl reason \<Rightarrow> ?settle (DeliveryRejected reason) ?d2
            | Inr _ \<Rightarrow> ?settle (if ok then Delivered result else DeliveryBroken) d3)"
          using assms(1) ready Resolved c r v Some c1 k by (cases c1; cases ok) (auto simp: delivery_runs_def)
        moreover have "discovery_ok cfg base (?settle (if ok then Delivered result else DeliveryBroken) d3)"
          using ok3 by (intro ok_settle) (auto split: if_splits)
        ultimately show ?thesis using fail [OF ok2] by (cases c1; cases ok) simp_all
      qed
    qed
  qed
qed

lemma transport_event_frame:
  assumes "transport_event env parse_url e tr = Some tr'" "scheduler_reachable env parse_url (tr_scheduler tr)"
  shows "tr_settled tr' = tr_settled tr \<and> scheduler_reachable env parse_url (tr_scheduler tr')"
  using assms by (auto simp: transport_event_def split: if_splits intro: scheduler_reachable.event)

lemma discovery_step_ok:
  assumes "discovery_step cfg r e d = Some d'" "discovery_ok cfg base d"
  shows "discovery_ok cfg base d'"
proof (cases e)
  case (RefreshCall p origin)
  obtain a s where "service_refresh cfg p origin r (di_services d p) = (a, s)" by fastforce
  with assms(1) RefreshCall show ?thesis
    using ok_with_service [OF assms(2)] service_refresh_advances by fastforce
next
  case (ResolveCall p origin thumbprint spent)
  obtain a s where "resolve_open cfg p origin thumbprint spent r (di_services d p) = (a, s)" by fastforce
  with assms(1) ResolveCall show ?thesis
    using ok_with_service [OF assms(2)] resolve_open_advances by fastforce
next
  case (ResolveReturns p origin thumbprint refreshed)
  obtain a s where "resolve_close cfg p origin thumbprint refreshed r (di_services d p) = (a, s)" by fastforce
  with assms(1) ResolveReturns show ?thesis
    using ok_with_service [OF assms(2)] resolve_close_advances by (fastforce split: if_splits)
next
  case (RecheckCall p selection)
  obtain a s where "service_recheck cfg selection r (di_services d p) = (a, s)" by fastforce
  with assms(1) RecheckCall show ?thesis
    using ok_with_service [OF assms(2)] service_recheck_advances by fastforce
next
  case (TransportEvent te)
  then obtain tr where tr: "transport_event (dc_scheduler cfg) (dc_url cfg) te (di_transport d) = Some tr"
      "d' = d\<lparr>di_transport := tr\<rparr>"
    using assms(1) by (auto split: if_splits)
  have "discovery_ok cfg base (d\<lparr>di_transport := tr\<rparr>)"
    using transport_event_frame [OF tr(1)] assms(2) by (intro ok_transport [OF assms(2)]) (simp_all add: discovery_ok_def)
  with tr(2) show ?thesis by simp
qed (use assms in \<open>auto split: if_splits
      intro: task_starts_ok task_resumes_ok task_ends_ok observer_returns_ok delivery_runs_ok\<close>)

lemma new_discovery_ok: "discovery_ok cfg (\<lambda>_. new_cache) new_discovery"
  by (simp add: discovery_ok_def new_discovery_def service_ok_def new_service_def cache_ok_def new_cache_def
      accounted_def new_transport_def scheduler_reachable.fresh)

lemma reachable_ok: "discovery_reachable cfg d \<Longrightarrow> discovery_ok cfg (\<lambda>_. new_cache) d"
  by (induction rule: discovery_reachable.induct) (auto intro: new_discovery_ok discovery_step_ok)

section \<open>Selections and evidence\<close>

text \<open>A selection that a cache gave out, and still knows: the origin and the thumbprint it stands for.\<close>

definition known_selection :: "'k directory_cache \<Rightarrow> 'k key_selection \<Rightarrow> bool" where
  "known_selection c selection \<longleftrightarrow> selection_id selection < length (selections c) \<and>
     selections c ! selection_id selection = (selection_origin selection, lk_thumbprint (selection_key selection))"

lemma known_extends: "known_selection c selection \<Longrightarrow> extends c c' \<Longrightarrow> known_selection c' selection"
  by (auto simp: known_selection_def extends_def nth_append)

lemma lookup_known:
  assumes "cache_lookup C originInput thumbprint reading c = (Inr (KeyFound selection), c')"
  shows "known_selection c' selection"
  using assms by (auto simp: cache_lookup_def known_selection_def split: sum.splits prod.splits option.splits)

lemma service_recheck_evidence:
  assumes "service_recheck cfg selection readings s = (True, s')" "service_ok cfg p s" "known_selection (sv_cache s) selection"
  shows "origin_admitted (dc_network cfg) (selection_origin selection) \<and>
    (\<exists>doc f t k. sv_evidence s (selection_origin selection) = Some (doc, f) \<and> readings 1 = Some t \<and> isDirectoryFresh f (Some t) \<and>
       lookup_key (document_jwks doc) (lk_thumbprint (selection_key selection)) = Inr k)"
proof -
  obtain q s1 where now: "service_now (readings 0) s = (q, s1)" by fastforce
  obtain ok c where c: "cache_recheck (selection_id selection) (readings 1) (sv_cache s1) = (ok, c)" by fastforce
  have ok: "ok" "origin_admitted (dc_network cfg) (selection_origin selection)"
    using assms(1) now c by (auto simp: service_recheck_def split: if_splits option.splits)
  have "cache_ok (cp_options (dc_platform cfg p)) (sv_evidence s) (sv_cache s1)"
    using assms(2) by (simp add: service_ok_def service_now_frame [OF now])
  with cache_recheck_evidence [OF this] c ok assms(3) show ?thesis
    by (fastforce simp: service_now_frame [OF now] known_selection_def)
qed

section \<open>The shared delivery\<close>

text \<open>C14. A response is delivered to both profiles or to none: in every reachable state of the two
  services and their transport, a delivery that has resolved with a response has been applied by
  both services, so that no task that waits for it can find it missing; and each service has at
  most eighty pending refreshes, one for an origin.\<close>

theorem shared_delivery:
  assumes "discovery_reachable cfg d"
  shows "(\<forall>i response. (i, Delivered (TransportResponse response)) \<in> set (tr_settled (di_transport d)) \<longrightarrow>
      (\<forall>p. map_of (sv_applied (di_services d p)) i \<noteq> None)) \<and>
    (\<forall>p. length (sv_pending (di_services d p)) \<le> 80 \<and> distinct (map fst (sv_pending (di_services d p))))"
  using reachable_ok [OF assms] unfolding discovery_ok_def service_ok_def
  by (metis map_of_eq_None_iff)

end
