(* ===== verification/NetworkVerifier.thy ===== *)
theory NetworkVerifier
  imports EngineMoves DirServiceSafety
begin

text \<open>
  The verifier that finds keys in directories: the strategy of \<^verbatim>\<open>discovery/network-candidate.ts\<close>
  and the engine of \<^verbatim>\<open>discovery/network-verifier.ts\<close> over it. The state of a run is the security
  context, the discovery services and the fetch budget of the invocation; at an \<open>await\<close> the other
  clients may change the first two as their operations allow. The \<open>WeakMap\<close> from a candidate to its
  selection is a second component of the candidate's identity.
\<close>

section \<open>State and environment\<close>

record ('c, 'k) network_state =
  ns_context :: 'c
  ns_discovery :: "'k discovery"
  ns_spent :: bool

text \<open>At every point of a run: the readings of the monotonic clock, the events of the services, and
  what an awaited refresh has given.\<close>

record ('c, 'k) network =
  ne_context :: "'c environment"
  ne_config :: "'k discovery_config"
  ne_readings :: "nat \<Rightarrow> nat \<Rightarrow> sample"
  ne_events :: "nat \<Rightarrow> ('c, 'k) network_state \<Rightarrow> ((nat \<Rightarrow> sample) \<times> 'k discovery_event) list"
  ne_refreshed :: "nat \<Rightarrow> refresh_result option"

definition discovery_run ::
    "'k discovery_config \<Rightarrow> ((nat \<Rightarrow> sample) \<times> 'k discovery_event) list \<Rightarrow> 'k discovery \<Rightarrow> 'k discovery" where
  "discovery_run cfg es d =
     foldl (\<lambda>d (r, e). case discovery_step cfg r e d of None \<Rightarrow> d | Some d' \<Rightarrow> d') d es"

definition on_context :: "('c \<Rightarrow> 'a \<times> 'c) \<Rightarrow> ('c, 'k) network_state \<Rightarrow> 'a \<times> ('c, 'k) network_state" where
  "on_context f s = (case f (ns_context s) of (r, c) \<Rightarrow> (r, s\<lparr>ns_context := c\<rparr>))"

definition network_environment :: "('c, 'k) network \<Rightarrow> ('c, 'k) network_state environment" where
  "network_environment N =
     (let P = env_port (ne_context N) in
      \<lparr>env_port = \<lparr>port_begin = (\<lambda>clocks. on_context (port_begin P clocks)),
         port_now = (\<lambda>h clocks. on_context (port_now P h clocks)),
         port_finish = (\<lambda>h. on_context (port_finish P h)),
         port_complete = (\<lambda>h clocks. on_context (port_complete P h clocks)),
         port_dispatch = (\<lambda>h input clocks. on_context (port_dispatch P h input clocks)),
         port_settle = (\<lambda>h result clocks. on_context (port_settle P h result clocks))\<rparr>,
       env_clocks = env_clocks (ne_context N),
       env_others = (\<lambda>n s. s\<lparr>ns_context := env_others (ne_context N) n (ns_context s),
         ns_discovery := discovery_run (ne_config N) (ne_events N n s) (ns_discovery s)\<rparr>)\<rparr>)"

definition on_service ::
    "('c, 'k) network \<Rightarrow> wba_profile \<Rightarrow> ((nat \<Rightarrow> sample) \<Rightarrow> 'k service \<Rightarrow> 'a \<times> 'k service)
       \<Rightarrow> ('c, 'k) network_state world \<Rightarrow> 'a \<times> ('c, 'k) network_state world" where
  "on_service N p f w =
     (let d = ns_discovery (w_state w) in
      case f (ne_readings N (w_tick w)) (di_services d p) of
        (r, s) \<Rightarrow> (r, \<lparr>w_state = (w_state w)\<lparr>ns_discovery := with_service p s d\<rparr>, w_tick = w_tick w + 1\<rparr>))"

section \<open>The strategy\<close>

record discovered_identity =
  discovered_thumbprint :: jsstring
  discovered_origin :: jsstring
  discovered_directory :: jsstring

type_synonym 'k discovered = "discovered_identity \<times> 'k key_selection"

definition spend_budget :: "bool \<Rightarrow> ('c, 'k) network_state world \<Rightarrow> ('c, 'k) network_state world" where
  "spend_budget spent w = w\<lparr>w_state := (w_state w)\<lparr>ns_spent := spent\<rparr>\<rparr>"

text \<open>\<open>service.resolve\<close>, with the \<open>await\<close> inside it.\<close>

definition resolve_key ::
    "('c, 'k) network \<Rightarrow> wba_profile \<Rightarrow> jsstring \<Rightarrow> jsstring \<Rightarrow> (('c, 'k) network_state, 'k resolution) action" where
  "resolve_key N p origin keyid w =
     (case on_service N p (resolve_open (ne_config N) p origin keyid (ns_spent (w_state w))) w of
        ((step, spent), w1) \<Rightarrow>
          (case step of
             Inl e \<Rightarrow> (Inl e, spend_budget spent w1)
           | Inr (ResolvedNow r) \<Rightarrow> (Inr r, spend_budget spent w1)
           | Inr (ResolveAwaits answer) \<Rightarrow>
               let w2 = suspend (network_environment N) (spend_budget spent w1);
                   refreshed = (case answer of RefreshAnswered r \<Rightarrow> Some r | RefreshPending \<Rightarrow> ne_refreshed N (w_tick w2)) in
               on_service N p (resolve_close (ne_config N) p origin keyid refreshed) w2))"

definition recheck_key ::
    "('c, 'k) network \<Rightarrow> wba_profile \<Rightarrow> 'k key_selection \<Rightarrow> (('c, 'k) network_state, unit) action" where
  "recheck_key N p selection w =
     (case on_service N p (service_recheck (ne_config N) selection) w of
        (ok, w') \<Rightarrow> (if ok then Inr () else Inl (CandidateRejection (Unverified UnknownKey)), w'))"

text \<open>The gates before the first reading of the clock.\<close>

definition network_gates ::
    "'k verifier_platform \<Rightarrow> 'k verification_configuration \<Rightarrow> parsed_signature \<Rightarrow> agent_header
       \<Rightarrow> candidate_error + (agent_claim \<times> candidate_metadata)" where
  "network_gates P cfg s agent =
     (let i = signature_of_input s; profile = header_profile agent in
      if profile \<notin> set (vc_allowed cfg) then Inl (CandidateRejection (Unverified ProfileDisallowed))
      else
        bindE (assertSupportedComponents i profile) (\<lambda>_.
        bindE (resolveAgentClaim (vp_url P) agent (sig_label i) (JsInt (int (maxAgentUrlBytes (vc_limits cfg))))) (\<lambda>claim.
        bindE (assertRequiredCoverage i profile) (\<lambda>_.
        bindE (readCandidateMetadata (sig_parameters i) (profile_nonce (vc_profiles cfg profile))
            (JsInt (int (maxNonceBytes (vc_limits cfg))))) (\<lambda>metadata.
        if meta_algorithm metadata \<noteq> None \<and> meta_algorithm metadata \<noteq> Some (lit ''ed25519'')
        then Inl (CandidateRejection (Unverified UnsupportedAlgorithm))
        else Inr (claim, metadata))))))"

text \<open>After the resolution: the key, its identity, and that it is the claimed origin's.\<close>

definition resolved_selection ::
    "'k verifier_platform \<Rightarrow> 'k verification_configuration \<Rightarrow> candidate_metadata \<Rightarrow> jsstring \<Rightarrow> 'k resolution
       \<Rightarrow> candidate_error + (jsstring \<times> 'k key_selection)" where
  "resolved_selection P cfg metadata origin resolved =
     (case resolved of
        ResolutionMissing reason \<Rightarrow> Inl (CandidateRejection (Unverified reason))
      | ResolutionFound selected \<Rightarrow>
          bindE (assertSelectedKeyIdentity (sha256 (vp_keys P)) (exported_jwk (vp_keys P)) (meta_keyid metadata)
              (lk_public (selection_key selected))) (\<lambda>thumbprint.
          if lk_known_test (selection_key selected) \<and> \<not> vc_allowTestKeys cfg
          then Inl (CandidateRejection (Unverified TestKeyDisallowed))
          else if selection_origin selected \<noteq> origin then Inl (CandidateRejection (Unverified UnknownKey))
          else Inr (thumbprint, selected)))"

definition discovered_identity_of :: "jsstring \<Rightarrow> jsstring \<Rightarrow> discovered_identity" where
  "discovered_identity_of thumbprint origin =
     \<lparr>discovered_thumbprint = thumbprint, discovered_origin = origin, discovered_directory = origin @ directory_path\<rparr>"

definition network_body ::
    "('c, 'k) network \<Rightarrow> 'k verifier_platform \<Rightarrow> 'k verification_configuration \<Rightarrow> request_parts \<Rightarrow> parsed_signature
       \<Rightarrow> agent_header \<Rightarrow> nat \<Rightarrow> (('c, 'k) network_state, 'k discovered eligible_candidate) action" where
  "network_body N P cfg request s agent h =
     (let E = network_environment N; p = header_profile agent; time = profile_time (vc_profiles cfg p);
          read_clock = clocked E (port_now (env_port E) h) in
      bindA (Pair (network_gates P cfg s agent)) (\<lambda>(claim, metadata).
      bindA read_clock (\<lambda>now.
      bindA (Pair (rejecting (time_check time metadata now))) (\<lambda>_.
      bindA (awaiting E (resolve_key N p (canonicalOrigin claim) (meta_keyid metadata))) (\<lambda>resolved.
      bindA read_clock (\<lambda>now.
      bindA (Pair (rejecting (time_check time metadata now))) (\<lambda>_.
      bindA (Pair (resolved_selection P cfg metadata (canonicalOrigin claim) resolved)) (\<lambda>(thumbprint, selected).
      bindA (recheck_key N p selected) (\<lambda>_.
      bindA (awaiting E (Pair (candidate_crypto P cfg request s p (selection_key selected)))) (\<lambda>crypto.
      bindA read_clock (\<lambda>now.
      bindA (Pair (crypto_accepted crypto)) (\<lambda>_.
      bindA (Pair (rejecting (time_check time metadata now))) (\<lambda>_.
      bindA (recheck_key N p selected) (\<lambda>_.
      Pair (Inr \<lparr>el_label = sig_label (signature_of_input s), el_profile = p, el_signature = s, el_metadata = metadata,
        el_identity = (discovered_identity_of thumbprint (canonicalOrigin claim), selected),
        el_claimed = claimedUrl claim, el_time = time\<rparr>)))))))))))))))"

definition evaluateNetworkCandidate ::
    "('c, 'k) network \<Rightarrow> 'k verifier_platform \<Rightarrow> 'k verification_configuration \<Rightarrow> request_parts \<Rightarrow> parsed_signature
       \<Rightarrow> agent_header \<Rightarrow> nat \<Rightarrow> (('c, 'k) network_state, 'k discovered evaluation) action" where
  "evaluateNetworkCandidate N P cfg request s agent h w =
     (case network_body N P cfg request s agent h w of
        (Inr c, w') \<Rightarrow> (Inr (EligibleEvaluation c), w')
      | (Inl e, w') \<Rightarrow>
          (case caught e of
             CandidateRejection p \<Rightarrow> (Inr (RejectedEvaluation
               (rejectedCandidate (sig_label (signature_of_input s)) p (Some (header_profile agent)))), w')
           | e' \<Rightarrow> (Inl e', w')))"

definition network_strategy ::
    "('c, 'k) network \<Rightarrow> 'k verifier_platform \<Rightarrow> 'k verification_configuration
       \<Rightarrow> (('c, 'k) network_state, 'k discovered) strategy" where
  "network_strategy N P cfg =
     \<lparr>st_evaluate = evaluateNetworkCandidate N P cfg,
      st_evidence = (\<lambda>c. recheck_key N (el_profile c) (snd (el_identity c))),
      st_thumbprint = (\<lambda>i. discovered_thumbprint (fst i))\<rparr>"

text \<open>\<open>verify\<close>: every invocation has a budget of its own.\<close>

definition verify_network ::
    "('c, 'k) network \<Rightarrow> 'k verifier_platform \<Rightarrow> 'k verification_configuration \<Rightarrow> request_parts
       \<Rightarrow> (('c, 'k) network_state, 'k discovered verification_result) action" where
  "verify_network N P cfg input w =
     verify (engine_of cfg) (network_environment N) (network_strategy N P cfg) input (spend_budget False w)"

text \<open>\<open>refresh\<close>: the service of an allowed profile.\<close>

definition refresh_network ::
    "('c, 'k) network \<Rightarrow> 'k verification_configuration \<Rightarrow> jsstring \<Rightarrow> wba_profile \<Rightarrow> (('c, 'k) network_state, refresh_answer) action" where
  "refresh_network N cfg origin p w =
     (if p \<notin> set (vc_allowed cfg) then (Inl (ProfileConfigurationError InvalidCandidatePolicy), w)
      else on_service N p (service_refresh (ne_config N) p origin) w)"

end
