(* ===== verification/NetworkSafety.thy ===== *)
theory NetworkSafety
  imports NetworkVerifier VerificationSafety
begin

text \<open>
  What a verified request of the network verifier means: the environment is an interpretation of
  \<open>moving_client\<close>, whose preorder keeps the invariant of the discovery services, and the strategy one of
  \<open>moving_strategy\<close>, whose evidence checks leave the committed sets as they are.
\<close>

section \<open>The environment\<close>

text \<open>What changes the state during a verification: the other clients, the calls of the services, and
  what leaves the services as they are (the controller and the budget).\<close>

inductive network_step :: "('c, 'k) network \<Rightarrow> ('c, 'k) network_state \<Rightarrow> ('c, 'k) network_state \<Rightarrow> bool" for N where
  OthersRun: "network_step N s (s\<lparr>ns_context := c, ns_discovery := discovery_run (ne_config N) es (ns_discovery s)\<rparr>)"
| ResolveOpens: "resolve_open (ne_config N) p origin keyid spent readings (di_services (ns_discovery s) p) = (r, v) \<Longrightarrow>
    network_step N s (s\<lparr>ns_discovery := with_service p v (ns_discovery s)\<rparr>)"
| ResolveCloses: "resolve_close (ne_config N) p origin keyid refreshed readings (di_services (ns_discovery s) p) = (q, v) \<Longrightarrow>
    network_step N s (s\<lparr>ns_discovery := with_service p v (ns_discovery s)\<rparr>)"
| Rechecks: "service_recheck (ne_config N) selection readings (di_services (ns_discovery s) p) = (ok, v) \<Longrightarrow>
    network_step N s (s\<lparr>ns_discovery := with_service p v (ns_discovery s)\<rparr>)"
| SameDiscovery: "ns_discovery s' = ns_discovery s \<Longrightarrow> network_step N s s'"

definition network_moves :: "('c, 'k) network \<Rightarrow> ('c, 'k) network_state \<Rightarrow> ('c, 'k) network_state \<Rightarrow> bool" where
  "network_moves N = (network_step N)\<^sup>*\<^sup>*"

lemma network_moves_step: "network_step N s s' \<Longrightarrow> network_moves N s s'"
  by (simp add: network_moves_def r_into_rtranclp)

lemma network_moves_trans: "network_moves N s s' \<Longrightarrow> network_moves N s' s'' \<Longrightarrow> network_moves N s s''"
  by (simp add: network_moves_def)

lemma network_moves_same [simp]: "ns_discovery s' = ns_discovery s \<Longrightarrow> network_moves N s s'"
  by (rule network_moves_step [OF SameDiscovery])

lemma discovery_run_ok: "discovery_ok cfg base d \<Longrightarrow> discovery_ok cfg base (discovery_run cfg es d)"
proof (induction es arbitrary: d)
  case (Cons x es)
  obtain r e where x: "x = (r, e)" by (cases x)
  have "discovery_ok cfg base (case discovery_step cfg r e d of None \<Rightarrow> d | Some d' \<Rightarrow> d')"
    using Cons.prems discovery_step_ok by (auto split: option.split)
  with Cons.IH x show ?case by (simp add: discovery_run_def)
qed (simp add: discovery_run_def)

lemma network_step_ok:
  "network_step N s s' \<Longrightarrow> discovery_ok (ne_config N) base (ns_discovery s) \<Longrightarrow> discovery_ok (ne_config N) base (ns_discovery s')"
  by (induction rule: network_step.induct)
    (auto intro: discovery_run_ok ok_with_service resolve_open_advances resolve_close_advances service_recheck_advances)

lemma network_moves_ok:
  "network_moves N s s' \<Longrightarrow> discovery_ok (ne_config N) base (ns_discovery s) \<Longrightarrow> discovery_ok (ne_config N) base (ns_discovery s')"
  unfolding network_moves_def by (induction rule: rtranclp_induct) (auto intro: network_step_ok)

lemma on_context_discovery [simp]: "ns_discovery (snd (on_context f s)) = ns_discovery s"
  by (simp add: on_context_def split: prod.split)

interpretation network: moving_client "network_environment N" "network_moves N" for N
proof unfold_locales
  show "network_moves N s (env_others (network_environment N) n s)" for n s
    by (simp add: network_environment_def Let_def network_moves_step OthersRun)
qed (auto simp: network_environment_def Let_def intro: network_moves_trans)

section \<open>The strategy\<close>

lemma on_service_moves:
  assumes "on_service N p f w = (r, w')"
    and "\<And>q v s. f (ne_readings N (w_tick w)) (di_services (ns_discovery s) p) = (q, v) \<Longrightarrow>
      network_step N s (s\<lparr>ns_discovery := with_service p v (ns_discovery s)\<rparr>)"
  shows "network_moves N (w_state w) (w_state w')"
  using assms by (auto simp: on_service_def Let_def network_moves_step split: prod.splits)

lemma moving_recheck: "network.moving N (recheck_key N p selection)"
  unfolding network.moving_def recheck_key_def
  by (auto split: prod.split intro!: on_service_moves intro: Rechecks)

lemma spend_discovery [simp]: "ns_discovery (w_state (spend_budget b w)) = ns_discovery (w_state w)"
  by (simp add: spend_budget_def)

lemma moving_resolve: "network.moving N (resolve_key N p origin keyid)"
  unfolding network.moving_def
proof
  fix w
  obtain step spent w1 where o: "on_service N p (resolve_open (ne_config N) p origin keyid (ns_spent (w_state w))) w = ((step, spent), w1)"
    by (metis prod.collapse)
  have "network_moves N (w_state w) (w_state w1)"
    by (rule on_service_moves [OF o]) (rule ResolveOpens)
  then have m1: "network_moves N (w_state w) (w_state (spend_budget spent w1))"
    by (rule network_moves_trans) simp
  have m2: "network_moves N (w_state w) (w_state (suspend (network_environment N) (spend_budget spent w1)))"
    using m1 network.others by (metis network.trans select_convs(1) suspend_def world.select_convs(1))
  have m3: "network_moves N (w_state w2) (w_state (snd (on_service N p (resolve_close (ne_config N) p origin keyid refreshed) w2)))" for refreshed w2
    by (rule on_service_moves [OF prod.collapse [symmetric]]) (rule ResolveCloses)
  show "network_moves N (w_state w) (w_state (snd (resolve_key N p origin keyid w)))"
    using o m1 network.trans [OF m2 m3]
    by (auto simp: resolve_key_def Let_def split: sum.split resolve_step.split)
qed

lemma moving_network_body: "network.moving N (network_body N P cfg request s agent h)"
  unfolding network_body_def Let_def
  by (auto intro!: network.moving_bindA network.moving_ports network.moving_awaiting moving_resolve moving_recheck network.moving_Pair
      split: prod.split)

lemma moving_network_evaluate: "network.moving N (evaluateNetworkCandidate N P cfg request s agent h)"
  using moving_network_body [of N P cfg request s agent h]
  unfolding network.moving_def evaluateNetworkCandidate_def
  by (auto split: prod.split sum.split candidate_error.split) (metis snd_conv)+

section \<open>Resolved selections\<close>

lemma lookup_key_thumbprint: "lookup_key jwks thumbprint = Inr k \<Longrightarrow> lk_thumbprint k = thumbprint"
  by (auto simp: lookup_key_def find_Some_iff split: option.splits)

lemma cache_lookup_thumbprint:
  "cache_lookup C originInput thumbprint reading c = (Inr (KeyFound selection), c') \<Longrightarrow>
     lk_thumbprint (selection_key selection) = thumbprint"
  by (auto simp: cache_lookup_def dest!: lookup_key_thumbprint split: sum.splits prod.splits option.splits)

text \<open>A selection whose key is in the set that the directory of its origin published last.\<close>

definition published :: "'k service \<Rightarrow> 'k key_selection \<Rightarrow> bool" where
  "published s selection \<longleftrightarrow> (\<exists>doc f. sv_evidence s (selection_origin selection) = Some (doc, f) \<and>
     lookup_key (document_jwks doc) (lk_thumbprint (selection_key selection)) = Inr (selection_key selection))"

lemma lookup_found:
  assumes "cache_lookup C origin thumbprint reading c = (Inr (KeyFound selection), c')" "cache_ok options (sv_evidence s) c"
  shows "known_selection c' selection" "lk_thumbprint (selection_key selection) = thumbprint"
    "sv_evidence s' = sv_evidence s \<Longrightarrow> published s' selection"
proof -
  show "known_selection c' selection" by (rule lookup_known [OF assms(1)])
  show "lk_thumbprint (selection_key selection) = thumbprint" by (rule cache_lookup_thumbprint [OF assms(1)])
  then show "sv_evidence s' = sv_evidence s \<Longrightarrow> published s' selection"
    using cache_lookup_evidence [OF assms(2,1)] by (auto simp: published_def)
qed

lemma resolve_open_found:
  assumes "resolve_open cfg p originInput thumbprint spent readings s = ((Inr (ResolvedNow (ResolutionFound selection)), b), s')"
    and "service_ok cfg p s"
  shows "known_selection (sv_cache s') selection \<and> lk_thumbprint (selection_key selection) = thumbprint \<and> published s' selection"
proof (cases "bindE (service_origin cfg originInput) (\<lambda>origin. bindE (validateProfileKeyId (Some thumbprint)) (\<lambda>_. Inr origin))")
  case (Inr origin)
  obtain q s1 where now: "service_now (readings 0) s = (q, s1)" by fastforce
  obtain l c where l: "cache_lookup (dc_platform cfg p) origin thumbprint (readings 1) (sv_cache s1) = (l, c)" by fastforce
  have s': "l = Inr (KeyFound selection)" "s' = s1\<lparr>sv_cache := c\<rparr>"
    using assms(1) now l unfolding resolve_open_def Inr Let_def
    by (cases q; cases l; auto split: if_splits sum.splits prod.splits cache_lookup_result.splits)+
  have ok: "cache_ok (cp_options (dc_platform cfg p)) (sv_evidence s) (sv_cache s1)"
    using assms(2) by (simp add: service_ok_def service_now_frame [OF now])
  have "sv_evidence s' = sv_evidence s" by (simp add: s'(2) service_now_frame [OF now])
  with lookup_found [OF l [unfolded s'(1)] ok] show ?thesis by (simp add: s'(2))
qed (use assms in \<open>simp add: resolve_open_def\<close>)

lemma resolve_close_found:
  assumes "resolve_close cfg p originInput thumbprint refreshed readings s = (Inr (ResolutionFound selection), s')"
    and "service_ok cfg p s"
  shows "known_selection (sv_cache s') selection \<and> lk_thumbprint (selection_key selection) = thumbprint \<and> published s' selection"
proof -
  obtain origin c where l: "cache_lookup (dc_platform cfg p) origin thumbprint (readings 0) (sv_cache s) = (Inr (KeyFound selection), c)"
      and s': "s' = s\<lparr>sv_cache := c\<rparr>"
    using assms(1) unfolding resolve_close_def
    by (auto split: if_splits sum.splits option.splits prod.splits cache_lookup_result.splits)
  have "cache_ok (cp_options (dc_platform cfg p)) (sv_evidence s) (sv_cache s)"
    using assms(2) by (simp add: service_ok_def)
  from lookup_found [OF l this] show ?thesis by (simp add: s')
qed

lemma on_service_result:
  "on_service N p f w = (r, w') \<Longrightarrow>
     f (ne_readings N (w_tick w)) (di_services (ns_discovery (w_state w)) p) = (r, di_services (ns_discovery (w_state w')) p)"
  by (auto simp: on_service_def Let_def split: prod.splits)

definition service_cache :: "('c, 'k) network_state \<Rightarrow> wba_profile \<Rightarrow> 'k directory_cache" where
  "service_cache s p = sv_cache (di_services (ns_discovery s) p)"

lemma resolve_key_found:
  assumes "resolve_key N p origin keyid w = (Inr (ResolutionFound selection), w')"
    and "discovery_ok (ne_config N) base (ns_discovery (w_state w))"
  shows "known_selection (service_cache (w_state w') p) selection \<and> lk_thumbprint (selection_key selection) = keyid \<and>
    published (di_services (ns_discovery (w_state w')) p) selection"
proof -
  obtain step spent w1 where o: "on_service N p (resolve_open (ne_config N) p origin keyid (ns_spent (w_state w))) w = ((step, spent), w1)"
    by (metis prod.collapse)
  show ?thesis
  proof (cases "\<exists>answer. step = Inr (ResolveAwaits answer)")
    case True
    define w2 where "w2 = suspend (network_environment N) (spend_budget spent w1)"
    obtain refreshed where c: "on_service N p (resolve_close (ne_config N) p origin keyid refreshed) w2 = (Inr (ResolutionFound selection), w')"
      using assms(1) o True by (auto simp: resolve_key_def Let_def w2_def)
    have "network_moves N (w_state w) (w_state w1)" by (rule on_service_moves [OF o]) (rule ResolveOpens)
    moreover have "network_moves N (w_state w1) (w_state w2)"
      using network_moves_trans [OF network_moves_same network.others, of "w_state (spend_budget spent w1)" "w_state w1"]
      by (simp add: w2_def suspend_def)
    ultimately have "discovery_ok (ne_config N) base (ns_discovery (w_state w2))"
      using assms(2) network_moves_ok by blast
    then have "service_ok (ne_config N) p (di_services (ns_discovery (w_state w2)) p)" by (simp add: discovery_ok_def)
    from resolve_close_found [OF on_service_result [OF c] this] show ?thesis by (simp add: service_cache_def)
  next
    case False
    then have w': "step = Inr (ResolvedNow (ResolutionFound selection))" "w' = spend_budget spent w1"
      using assms(1) o by (auto simp: resolve_key_def Let_def split: sum.splits resolve_step.splits)
    have "service_ok (ne_config N) p (di_services (ns_discovery (w_state w)) p)"
      using assms(2) by (simp add: discovery_ok_def)
    from resolve_open_found [OF on_service_result [OF o [unfolded w'(1)]] this] show ?thesis
      by (simp add: service_cache_def w'(2))
  qed
qed

lemma known_moves:
  assumes "network_moves N s s'" "discovery_ok (ne_config N) base (ns_discovery s)" "known_selection (service_cache s p) selection"
  shows "known_selection (service_cache s' p) selection"
proof -
  have "discovery_ok (ne_config N) (service_cache s) (ns_discovery s)"
    using assms(2) by (simp add: discovery_ok_def service_cache_def)
  with assms(1) have "discovery_ok (ne_config N) (service_cache s) (ns_discovery s')" by (rule network_moves_ok)
  with assms(3) known_extends show ?thesis by (auto simp: discovery_ok_def service_cache_def)
qed

section \<open>What a candidate has passed\<close>

definition network_gate ::
    "'k verifier_platform \<Rightarrow> 'k verification_configuration \<Rightarrow> request_parts \<Rightarrow> agent_header \<Rightarrow> parsed_signature
       \<Rightarrow> 'k discovered eligible_candidate \<Rightarrow> bool" where
  "network_gate P cfg request agent s c \<longleftrightarrow>
     el_time c = profile_time (vc_profiles cfg (header_profile agent)) \<and>
     (let selection = snd (el_identity c) in
      (lk_known_test (selection_key selection) \<longrightarrow> vc_allowTestKeys cfg) \<and>
      assertSelectedKeyIdentity (sha256 (vp_keys P)) (exported_jwk (vp_keys P)) (meta_keyid (el_metadata c))
        (lk_public (selection_key selection)) = Inr (meta_keyid (el_metadata c)) \<and>
      fst (el_identity c) = discovered_identity_of (meta_keyid (el_metadata c)) (selection_origin selection) \<and>
      (\<exists>claim. network_gates P cfg s agent = Inr (claim, el_metadata c) \<and> selection_origin selection = canonicalOrigin claim) \<and>
      (\<exists>j. candidate_crypto P cfg request s (header_profile agent) (selection_key selection) = Inr (SignatureValid j)))"

lemma resolved_selection_Inr:
  "resolved_selection P cfg m origin resolved = Inr (t, selection) \<Longrightarrow>
     resolved = ResolutionFound selection \<and> t = meta_keyid m \<and> selection_origin selection = origin \<and>
     assertSelectedKeyIdentity (sha256 (vp_keys P)) (exported_jwk (vp_keys P)) (meta_keyid m) (lk_public (selection_key selection))
       = Inr (meta_keyid m) \<and>
     (lk_known_test (selection_key selection) \<longrightarrow> vc_allowTestKeys cfg)"
  by (auto simp: resolved_selection_def bindE_eq_Inr dest: identity_Inr split: resolution.splits if_splits)

lemma network_body_Inr:
  assumes "network_body N P cfg request s agent h w = (Inr c, w')"
  shows "network_gate P cfg request agent s c \<and> el_label c = sig_label (signature_of_input s) \<and>
    el_profile c = header_profile agent \<and> el_signature c = s"
  using assms
  by (auto simp: network_body_def Let_def bindA_eq_Inr awaiting_eq network_gate_def dest!: resolved_selection_Inr)

text \<open>The selection is one the cache of the profile gave out, and still knows at the end.\<close>

lemma network_body_resolved:
  assumes "network_body N P cfg request s agent h w = (Inr c, w')"
  obtains w1 w2 where
    "resolve_key N (header_profile agent) (selection_origin (snd (el_identity c))) (meta_keyid (el_metadata c)) w1
      = (Inr (ResolutionFound (snd (el_identity c))), w2)"
    "network_moves N (w_state w) (w_state w1)" "network_moves N (w_state w2) (w_state w')"
proof -
  let ?E = "network_environment N" and ?p = "header_profile agent"
  let ?time = "profile_time (vc_profiles cfg ?p)" and ?now = "clocked (network_environment N) (port_now (env_port (network_environment N)) h)"
  obtain claim :: agent_claim and m n1 w1 resolved w2 n2 w3 t sel w4 crypto w5 n3 w6 where run:
    "?now w = (Inr n1, w1)"
    "awaiting ?E (resolve_key N ?p (canonicalOrigin claim) (meta_keyid m)) w1 = (Inr resolved, w2)"
    "?now w2 = (Inr n2, w3)" "resolved_selection P cfg m (canonicalOrigin claim) resolved = Inr (t, sel)"
    "recheck_key N ?p sel w3 = (Inr (), w4)"
    "awaiting ?E (Pair (candidate_crypto P cfg request s ?p (selection_key sel))) w4 = (Inr crypto, w5)"
    "?now w5 = (Inr n3, w6)" "recheck_key N ?p sel w6 = (Inr (), w')"
    "el_metadata c = m" "snd (el_identity c) = sel"
    using assms
    by (auto simp: network_body_def Let_def bindA_eq_Inr)
  obtain u where u: "resolve_key N ?p (canonicalOrigin claim) (meta_keyid m) w1 = (Inr (ResolutionFound sel), u)"
      "w2 = suspend ?E u" "selection_origin sel = canonicalOrigin claim"
    using run(2,4) by (auto simp: awaiting_eq dest!: resolved_selection_Inr)
  have "network_moves N (w_state w) (w_state w1)" using network.movingD [OF network.moving_ports(2) run(1)] .
  moreover have "network_moves N (w_state u) (w_state w')"
  proof -
    have "network_moves N (w_state u) (w_state w2)"
      using network.others u(2) by (simp add: suspend_def)
    note m = this network.movingD [OF network.moving_ports(2) run(3)] network.movingD [OF moving_recheck run(5)]
      network.movingD [OF network.moving_awaiting [OF network.moving_Pair] run(6)]
      network.movingD [OF network.moving_ports(2) run(7)] network.movingD [OF moving_recheck run(8)]
    show ?thesis
      by (rule network.trans [OF m(1) network.trans [OF m(2) network.trans [OF m(3) network.trans [OF m(4) network.trans [OF m(5) m(6)]]]]])
  qed
  ultimately show ?thesis by (rule that [unfolded run(9,10) u(3), OF u(1)])
qed

lemma network_body_known:
  assumes "resolve_key N p origin keyid w = (Inr (ResolutionFound selection), w1)" "network_moves N (w_state w1) (w_state w')"
    and "discovery_ok (ne_config N) base (ns_discovery (w_state w))"
  shows "known_selection (service_cache (w_state w') p) selection \<and> lk_thumbprint (selection_key selection) = keyid \<and>
    published (di_services (ns_discovery (w_state w1)) p) selection \<and>
    discovery_ok (ne_config N) base (ns_discovery (w_state w'))"
proof -
  have ok: "discovery_ok (ne_config N) base (ns_discovery (w_state w1))"
    by (rule network_moves_ok [OF network.movingD [OF moving_resolve assms(1)] assms(3)])
  with resolve_key_found [OF assms(1,3)] known_moves [OF assms(2)] network_moves_ok [OF assms(2) ok] show ?thesis by blast
qed

section \<open>The strategy in its environment\<close>

text \<open>The sets committed last are the same in both states.\<close>

definition same_evidence :: "('c, 'k) network_state \<Rightarrow> ('c, 'k) network_state \<Rightarrow> bool" where
  "same_evidence s s' \<longleftrightarrow>
     (\<forall>p. sv_evidence (di_services (ns_discovery s) p) = sv_evidence (di_services (ns_discovery s') p))"

lemma service_recheck_frame:
  "service_recheck cfg selection readings s = (ok, s') \<Longrightarrow> sv_evidence s' = sv_evidence s"
  by (auto simp: service_recheck_def service_now_def split: if_splits option.splits prod.splits)

lemma recheck_key_Inr:
  assumes "recheck_key N p selection w = (r, w')"
  shows "same_evidence (w_state w) (w_state w') \<and>
    w_tick w' = Suc (w_tick w) \<and>
    (\<forall>u. r = Inr u \<longrightarrow> (\<exists>s'. service_recheck (ne_config N) selection (ne_readings N (w_tick w)) (di_services (ns_discovery (w_state w)) p) = (True, s')))"
proof -
  let ?s = "di_services (ns_discovery (w_state w)) p"
  obtain ok s' where r: "service_recheck (ne_config N) selection (ne_readings N (w_tick w)) ?s = (ok, s')" by fastforce
  from service_recheck_frame [OF this] assms r show ?thesis
    by (auto simp: recheck_key_def on_service_def Let_def same_evidence_def with_service_def split: if_splits)
qed

interpretation networked: moving_strategy "network_environment N" "network_moves N" "network_strategy N P cfg" "network_gate P cfg" same_evidence
  for N P cfg
proof unfold_locales
  fix request s agent h w v w'
  assume "st_evaluate (network_strategy N P cfg) request s agent h w = (Inr v, w')"
  then have "evaluateNetworkCandidate N P cfg request s agent h w = (Inr v, w')" by (simp add: network_strategy_def)
  then show "evaluated_as (network_gate P cfg request agent) (header_profile agent) s v"
    using network_body_Inr [of N P cfg request s agent h w]
    by (auto simp: evaluateNetworkCandidate_def evaluated_as_def rejectedCandidate_def
        split: prod.splits sum.splits candidate_error.splits)
next
  fix c w r w'
  assume "st_evidence (network_strategy N P cfg) c w = (r, w')"
  then show "same_evidence (w_state w) (w_state w')" "w_tick w \<le> w_tick w' \<and> w_tick w' \<le> Suc (w_tick w)"
    using recheck_key_Inr [of N "el_profile c" "snd (el_identity c)" w r w'] by (simp_all add: network_strategy_def)
qed (auto simp: network_strategy_def same_evidence_def moving_network_evaluate moving_recheck)

section \<open>Verified with discovered keys\<close>

text \<open>What a check of the evidence at a tick says: the origin is admitted, and the set its directory
  published last has a key of the same thumbprint and was fresh at the reading made by this check.\<close>

definition still_published :: "('c, 'k) network \<Rightarrow> nat \<Rightarrow> 'k service \<Rightarrow> 'k key_selection \<Rightarrow> bool" where
  "still_published N n s selection \<longleftrightarrow> origin_admitted (dc_network (ne_config N)) (selection_origin selection) \<and>
     (\<exists>doc f t k. sv_evidence s (selection_origin selection) = Some (doc, f) \<and>
        ne_readings N n 1 = Some t \<and> isDirectoryFresh f (Some t) \<and>
        lookup_key (document_jwks doc) (lk_thumbprint (selection_key selection)) = Inr k)"

text \<open>What the resolution of a key and the checks after it establish of the selection, for a run from
  one world to another: the service has found the key at some point of the run, in the set published
  last; and the selection has passed a check, after which no set has changed and at most the given
  number of readings have been made.\<close>

definition key_found ::
    "('c, 'k) network \<Rightarrow> ('c, 'k) network_state world \<Rightarrow> ('c, 'k) network_state world \<Rightarrow> nat \<Rightarrow> wba_profile
       \<Rightarrow> 'k key_selection \<Rightarrow> bool" where
  "key_found N w w' n p selection \<longleftrightarrow>
     (\<exists>r r' u u'. network_moves N (w_state w) (w_state r) \<and>
        resolve_key N p (selection_origin selection) (lk_thumbprint (selection_key selection)) r
          = (Inr (ResolutionFound selection), r') \<and>
        published (di_services (ns_discovery (w_state r')) p) selection \<and>
        network_moves N (w_state r') (w_state u) \<and>
        recheck_key N p selection u = (Inr (), u') \<and> same_evidence (w_state u') (w_state w') \<and>
        w_tick u < w_tick w' \<and> w_tick w' \<le> w_tick u + n \<and>
        still_published N (w_tick u) (di_services (ns_discovery (w_state w')) p) selection)"

text \<open>What the gates, the cryptography and the final checks establish of a candidate whose key was
  found in a directory: the verifying key has the thumbprint that the signature names as its
  identifier, by its entry in the set and recomputed from the key itself.\<close>

definition discovered_authentic ::
    "'k verifier_platform \<Rightarrow> 'k verification_configuration \<Rightarrow> request_parts \<Rightarrow> agent_header
       \<Rightarrow> parsed_signature \<Rightarrow> 'k discovered verified_candidate \<Rightarrow> bool" where
  "discovered_authentic P cfg request agent s v \<longleftrightarrow>
     (let i = signature_of_input s; profile = vr_profile v; policy = vc_profiles cfg profile;
          selection = snd (vr_identity v); origin = selection_origin selection;
          keyid = discovered_thumbprint (fst (vr_identity v)) in
      vr_label v = sig_label i \<and> vr_components v = sig_components i \<and>
      profile = header_profile agent \<and> profile \<in> set (vc_allowed cfg) \<and>
      (\<exists>c \<in> set (sig_components i). bareComponent c ''@method'') \<and>
      (\<exists>c \<in> set (sig_components i). bareComponent c ''@target-uri'') \<and>
      agent_covered i profile \<and>
      getParameter (sig_parameters i) (lit ''keyid'') = Some (SfString keyid) \<and>
      (\<exists>claim. resolveAgentClaim (vp_url P) agent (sig_label i) (JsInt (int (maxAgentUrlBytes (vc_limits cfg)))) = Inr claim \<and>
         origin = canonicalOrigin claim) \<and>
      fst (vr_identity v) = discovered_identity_of keyid origin \<and>
      lk_thumbprint (selection_key selection) = keyid \<and>
      assertSelectedKeyIdentity (sha256 (vp_keys P)) (exported_jwk (vp_keys P)) keyid (lk_public (selection_key selection))
        = Inr keyid \<and>
      (\<exists>material base. requireKey (lk_public (selection_key selection)) PublicKey = Inr material \<and>
         createSignatureBase (vp_core P) (RequestMessage request) i (crypto_options cfg profile) = Inr base \<and>
         vp_verify P material (base_bytes base) (signature_bytes s)) \<and>
      (lk_known_test (selection_key selection) \<longrightarrow> vc_allowTestKeys cfg) \<and>
      (\<exists>c e. getParameter (sig_parameters i) (lit ''created'') = Some (Integer c) \<and>
         getParameter (sig_parameters i) (lit ''expires'') = Some (Integer e) \<and>
         in_window (profile_time policy) c e (vr_at v)) \<and>
      (vr_protected v \<longleftrightarrow> getParameter (sig_parameters i) (lit ''nonce'') \<noteq> None) \<and>
      (profile_nonce policy = NonceRequiredPolicy \<longrightarrow> vr_protected v))"

lemma network_gates_Inr:
  assumes "network_gates P cfg s agent = Inr (claim, m)"
  shows "header_profile agent \<in> set (vc_allowed cfg) \<and>
    resolveAgentClaim (vp_url P) agent (sig_label (signature_of_input s)) (JsInt (int (maxAgentUrlBytes (vc_limits cfg)))) = Inr claim \<and>
    assertRequiredCoverage (signature_of_input s) (header_profile agent) = Inr () \<and>
    readCandidateMetadata (sig_parameters (signature_of_input s)) (profile_nonce (vc_profiles cfg (header_profile agent)))
      (JsInt (int (maxNonceBytes (vc_limits cfg)))) = Inr m"
  using assms by (auto simp: network_gates_def Let_def bindE_eq_Inr split: if_splits)

lemma gate_discovered:
  assumes "network_gate P cfg request agent s c" "el_signature c = s" "el_profile c = header_profile agent"
    and "el_label c = sig_label (signature_of_input s)" "finalize c replay now = Inr (VerifiedResult v)"
    and "lk_thumbprint (selection_key (snd (el_identity c))) = meta_keyid (el_metadata c)"
  shows "discovered_authentic P cfg request agent s v"
proof -
  let ?i = "signature_of_input s" and ?p = "header_profile agent" and ?sel = "snd (el_identity c)" and ?m = "el_metadata c"
  obtain claim j where g: "network_gates P cfg s agent = Inr (claim, ?m)" "selection_origin ?sel = canonicalOrigin claim"
      "candidate_crypto P cfg request s ?p (selection_key ?sel) = Inr (SignatureValid j)"
      "lk_known_test (selection_key ?sel) \<longrightarrow> vc_allowTestKeys cfg"
      "fst (el_identity c) = discovered_identity_of (meta_keyid ?m) (selection_origin ?sel)"
      "el_time c = profile_time (vc_profiles cfg ?p)"
      "assertSelectedKeyIdentity (sha256 (vp_keys P)) (exported_jwk (vp_keys P)) (meta_keyid ?m) (lk_public (selection_key ?sel))
        = Inr (meta_keyid ?m)"
    using assms(1) by (auto simp: network_gate_def Let_def)
  note gate = network_gates_Inr [OF g(1)]
  then have cov: "assertRequiredCoverage ?i ?p = Inr ()" and allowed: "?p \<in> set (vc_allowed cfg)"
    and claim: "resolveAgentClaim (vp_url P) agent (sig_label ?i) (JsInt (int (maxAgentUrlBytes (vc_limits cfg)))) = Inr claim"
    and m: "readCandidateMetadata (sig_parameters ?i) (profile_nonce (vc_profiles cfg ?p)) (JsInt (int (maxNonceBytes (vc_limits cfg)))) = Inr ?m"
    by blast+
  note f = finalize_verified [OF assms(5)]
  have t: "in_window (el_time c) (meta_created ?m) (meta_expires ?m) now"
    using f by (auto simp: time_check_def check_time_eq_Inr)
  have key: "\<exists>material base. requireKey (lk_public (selection_key ?sel)) PublicKey = Inr material \<and>
      createSignatureBase (vp_core P) (RequestMessage request) ?i (crypto_options cfg ?p) = Inr base \<and>
      vp_verify P material (base_bytes base) (signature_bytes s)"
    using g(3) by (auto simp: candidate_crypto_def verify_valid)
  have fields: "vr_label v = sig_label ?i" "vr_profile v = ?p" "vr_identity v = el_identity c"
      "vr_components v = sig_components ?i" "vr_at v = now" "vr_protected v \<longleftrightarrow> meta_nonce ?m \<noteq> None"
    using f assms(2-4) by auto
  have keyid: "discovered_thumbprint (fst (el_identity c)) = meta_keyid ?m"
    by (simp add: g(5) discovered_identity_of_def)
  have params: "getParameter (sig_parameters ?i) (lit ''created'') = Some (Integer (meta_created ?m))"
      "getParameter (sig_parameters ?i) (lit ''expires'') = Some (Integer (meta_expires ?m))"
      "getParameter (sig_parameters ?i) (lit ''keyid'') = Some (SfString (meta_keyid ?m))"
    using metadata_Inr [OF m] by blast+
  have nonce: "vr_protected v \<longleftrightarrow> getParameter (sig_parameters ?i) (lit ''nonce'') \<noteq> None"
      "profile_nonce (vc_profiles cfg ?p) = NonceRequiredPolicy \<longrightarrow> vr_protected v"
    using metadata_Inr [OF m] fields(6) by metis+
  have window: "in_window (profile_time (vc_profiles cfg ?p)) (meta_created ?m) (meta_expires ?m) (vr_at v)"
    using t by (simp add: g(6) fields(5))
  show ?thesis
    unfolding discovered_authentic_def Let_def fields(2,3) keyid
    using coverage_Inr [OF cov] params nonce claim key allowed window assms(6) fields(1,4) g(2,4,5,7)
    by (simp del: lit_Cons)
qed

lemma evaluated_body:
  "evaluateNetworkCandidate N P cfg request s agent h w = (Inr (EligibleEvaluation c), w') \<Longrightarrow>
     network_body N P cfg request s agent h w = (Inr c, w')"
  by (auto simp: evaluateNetworkCandidate_def split: prod.splits sum.splits candidate_error.splits)

text \<open>A check of the evidence after an evaluation, and after it only what leaves the sets as they are.\<close>

lemma checked_evidence:
  assumes "discovery_ok (ne_config N) base (ns_discovery (w_state w))" "network_moves N (w_state w) (w_state a)"
    and "evaluateNetworkCandidate N P cfg request s agent h a = (Inr (EligibleEvaluation c), a')"
    and "network_moves N (w_state a') (w_state u)"
    and "recheck_key N (el_profile c) (snd (el_identity c)) u = (Inr x, u')" "same_evidence (w_state u') (w_state w')"
    and "w_tick u < w_tick w'" "w_tick w' \<le> w_tick u + n"
  shows "key_found N w w' n (el_profile c) (snd (el_identity c)) \<and>
    lk_thumbprint (selection_key (snd (el_identity c))) = meta_keyid (el_metadata c)"
proof -
  let ?p = "el_profile c" and ?sel = "snd (el_identity c)"
  note body = evaluated_body [OF assms(3)]
  have p: "header_profile agent = ?p" using network_body_Inr [OF body] by simp
  obtain r r' where run: "resolve_key N ?p (selection_origin ?sel) (meta_keyid (el_metadata c)) r = (Inr (ResolutionFound ?sel), r')"
      "network_moves N (w_state a) (w_state r)" "network_moves N (w_state r') (w_state a')"
    by (rule network_body_resolved [OF body, unfolded p])
  have m: "network_moves N (w_state w) (w_state r)" "network_moves N (w_state r') (w_state u)"
    by (rule network_moves_trans [OF assms(2) run(2)], rule network_moves_trans [OF run(3) assms(4)])
  from network_body_known [OF run(1) m(2) network_moves_ok [OF m(1) assms(1)]]
  have known: "known_selection (service_cache (w_state u) ?p) ?sel" "lk_thumbprint (selection_key ?sel) = meta_keyid (el_metadata c)"
      "published (di_services (ns_discovery (w_state r')) ?p) ?sel"
      "service_ok (ne_config N) ?p (di_services (ns_discovery (w_state u)) ?p)"
    by (simp_all add: discovery_ok_def)
  have same: "sv_evidence (di_services (ns_discovery (w_state u)) ?p) = sv_evidence (di_services (ns_discovery (w_state w')) ?p)"
    using recheck_key_Inr [OF assms(5)] assms(6) by (simp add: same_evidence_def)
  obtain s' where "service_recheck (ne_config N) ?sel (ne_readings N (w_tick u)) (di_services (ns_discovery (w_state u)) ?p) = (True, s')"
    using recheck_key_Inr [OF assms(5)] by auto
  from service_recheck_evidence [OF this known(4) known(1) [unfolded service_cache_def]]
  have "still_published N (w_tick u) (di_services (ns_discovery (w_state w')) ?p) ?sel"
    unfolding still_published_def same .
  moreover have "recheck_key N ?p ?sel u = (Inr (), u')" using assms(5) by simp
  ultimately show ?thesis
    unfolding key_found_def using m run(1) known(2,3) assms(6-8) by auto
qed

text \<open>C2. A request verified with discovered keys is authentic: every candidate the result calls
  verified belongs to a signature of the request tagged for this use, covers the method, the target
  and the agent, was inside its window and is protected as the policy of its profile says; its
  identity is the canonical origin its agent header claims, an origin that the network
  configuration admits; the key that the signature base of this very request was verified with has
  the thumbprint that the signature gives as its key identifier, recomputed from the key itself;
  during the run the service has found this key in the set that the directory of that origin had
  published last; and in the last check of the candidate, made at most as many readings before the
  end as there are candidates and one for the controller, the set published last still has a key of
  that thumbprint and is fresh at the reading of that check. No set changes from that check to the
  end.\<close>

theorem discovered_request_authentic:
  assumes "discovery_reachable (ne_config N) (ns_discovery (w_state w))"
    and "verify_network N P cfg input w = (Inr (VerifiedRequest reason rs verified), w')" "v \<in> set verified"
  shows "\<exists>signatures selected s agent.
    selectWebBotAuthCandidates (request_headers input) (core_options (vc_core cfg))
      (JsInt (int (maxCandidates (vc_limits cfg)))) = Inr (Selected signatures selected) \<and>
    s \<in> set signatures \<and> web_bot_auth s \<and> parseAgentHeader input (vc_core cfg) = Inr agent \<and>
    discovered_authentic P cfg input agent s v \<and>
    key_found N w w' (length selected + 1) (vr_profile v) (snd (vr_identity v))"
proof -
  let ?w = "spend_budget False w"
  from assms(2) have run: "verify (engine_of cfg) (network_environment N) (network_strategy N P cfg) input ?w
      = (Inr (VerifiedRequest reason rs verified), w')"
    by (simp add: verify_network_def)
  obtain signatures selected agent s c h a a' u x u' replay now w1 w2 where
    sel: "selectWebBotAuthCandidates (request_headers input) (core_options (ec_core (engine_of cfg)))
      (JsInt (int (maxCandidates (ec_limits (engine_of cfg))))) = Inr (Selected signatures selected)"
    and s: "s \<in> set signatures" "web_bot_auth s" and agent: "parseAgentHeader input (ec_core (engine_of cfg)) = Inr agent"
    and g: "network_gate P cfg input agent s c" "el_signature c = s" "el_profile c = header_profile agent"
      "el_label c = sig_label (signature_of_input s)" and f: "finalize c replay now = Inr (VerifiedResult v)"
    and a: "network_moves N (w_state ?w) (w_state a)"
      "st_evaluate (network_strategy N P cfg) input s agent h a = (Inr (EligibleEvaluation c), a')"
    and u: "network_moves N (w_state a') (w_state u)" "st_evidence (network_strategy N P cfg) c u = (Inr x, u')"
      "same_evidence (w_state u') (w_state w1)"
    and cp: "clocked (network_environment N) (port_complete (env_port (network_environment N)) h) w1 = (Inr now, w2)"
    and retired: "port_finish (env_port (network_environment N)) h (w_state w2) = (Inr (), w_state w')"
    and tick: "w_tick u < w_tick w'" "w_tick w' \<le> w_tick u + length selected + 1"
    by (rule networked.verified_candidate [OF run assms(3)])
  have "ns_discovery (w_state w2) = ns_discovery (w_state w1)"
    using cp by (auto simp: clocked_def network_environment_def Let_def split: prod.splits) (metis on_context_discovery snd_conv)
  moreover have "ns_discovery (w_state w') = ns_discovery (w_state w2)"
    using retired by (auto simp: network_environment_def Let_def) (metis on_context_discovery snd_conv)
  ultimately have same: "same_evidence (w_state u') (w_state w')" using u(3) by (simp add: same_evidence_def)
  have moved: "network_moves N (w_state w) (w_state a)"
    using network_moves_trans [OF network_moves_same a(1)] by simp
  have "evaluateNetworkCandidate N P cfg input s agent h a = (Inr (EligibleEvaluation c), a')"
      "recheck_key N (el_profile c) (snd (el_identity c)) u = (Inr x, u')"
    using a(2) u(2) by (simp_all add: network_strategy_def)
  from checked_evidence [OF reachable_ok [OF assms(1)] moved this(1) u(1) this(2) same tick(1), of "length selected + 1"] tick(2)
  have e: "key_found N w w' (length selected + 1) (el_profile c) (snd (el_identity c))"
      "lk_thumbprint (selection_key (snd (el_identity c))) = meta_keyid (el_metadata c)"
    by simp_all
  have "vr_profile v = el_profile c" "vr_identity v = el_identity c" using finalize_verified [OF f] by auto
  with gate_discovered [OF g f e(2)] sel s agent e(1) show ?thesis by (auto simp: engine_of_def)
qed

end
