(* ===== verification/DirSample.thy ===== *)
theory DirSample
  imports DirCacheSafety OriginSample
begin

text \<open>
  One directory response committed to a cache, and the key found in it: the input at which the
  properties of the cache are applied.
\<close>

definition sample_cache_options :: cache_options where
  "sample_cache_options = \<lparr>negativeSeconds = 60, maxPositiveEntries = 1000, maxPositiveAccountedBytes = 16777216,
     maxNegativeEntries = 1000, cache_freshness = default_freshness\<rparr>"

definition sample_cache :: "(jsstring \<times> jsstring) list cache_platform" where
  "sample_cache = \<lparr>cp_keys = sample_backend, cp_json = (\<lambda>_. Some sample_jwks), cp_url = sample_url,
     cp_format = GenericJwks, cp_options = sample_cache_options\<rparr>"

lemma sample_configuration: "cache_configuration NoOptions = Inr sample_cache_options"
  by (simp add: cache_configuration_def cache_defaults_def number_at_def sample_cache_options_def)

lemma sample_cache_origin: "cache_origin sample_cache sample_origin = Inr sample_origin"
  using sample_configured [of 2048]
  by (simp add: cache_origin_def sample_cache_def DEFAULT_PROFILE_LIMITS_def number_at_def max_safe_def)

definition sample_document :: "(jsstring \<times> jsstring) list directory_document" where
  "sample_document = \<lparr>document_format = GenericJwks, document_jwks = sample_loaded, bodyBytes = 0, documentBytes = 2048\<rparr>"

lemma sample_limits_resolved: "optionsSnapshot (directory_loader_options GenericJwks) = Inr (GenericJwks,
    \<lparr>maxJwksBytes = 262144, maxKeys = 64, maxCandidates = 16, maxNonceBytes = 256, generatedNonceBytes = 32,
     maxScopeBytes = 256, maxAgentBindings = 64, maxAgentUrlBytes = 2048\<rparr>)"
  by (simp add: optionsSnapshot_def directory_loader_options_def format_name_def loader_step_def format_of_def
      limits_value_def resolved_limits_def resolveProfileLimits_def apply_override_def DEFAULT_PROFILE_LIMITS_def
      number_at_def max_safe_def is_safe_integer_def Let_def)

lemma sample_parsed: "parseDirectoryDocument sample_backend (\<lambda>_. Some sample_jwks) [] GenericJwks = Inr sample_document"
proof -
  have "loadJwks sample_backend (\<lambda>_. Some sample_jwks) (JwksBytes []) (directory_loader_options GenericJwks) = Inr sample_loaded"
    by (simp add: loadJwks_def sample_limits_resolved snapshotJwksInput_def parsed_jwks_def sample_entries sample_added)
      (simp add: sample_loaded_def)
  then show ?thesis
    by (simp add: parseDirectoryDocument_def sample_document_def) (simp add: sample_loaded_def)
qed

definition sample_fresh :: freshness where
  "sample_fresh = \<lparr>persist = True, remainingAtReceiptMs = 60000, receivedMonotonicMs = Some 1000\<rparr>"

lemma sample_calculated:
  "calculateDirectoryFreshness sample_response (freshness_overrides default_freshness) = Inr sample_fresh"
proof -
  have "resolveDirectoryFreshnessPolicy (freshness_overrides default_freshness) = resolveDirectoryFreshnessPolicy NoOptions"
    by (simp add: freshness_overrides_def freshness_field_def default_freshness_def is_safe_integer_def max_safe_def)
  then show ?thesis using sample_freshness by (simp add: calculateDirectoryFreshness_def sample_fresh_def)
qed

abbreviation empty_cache :: "(jsstring \<times> jsstring) list directory_cache" where
  "empty_cache \<equiv> new_cache"

lemma sample_prepared: "cache_prepare sample_cache sample_response empty_cache
    = (Inr 0, empty_cache\<lparr>prepared := [Some (sample_document, sample_fresh)]\<rparr>)"
proof -
  have "cp_keys sample_cache = sample_backend" "cp_json sample_cache = (\<lambda>_. Some sample_jwks)"
    "cp_format sample_cache = GenericJwks" "cache_freshness (cp_options sample_cache) = default_freshness"
    "response_body sample_response = []" "prepared empty_cache = []"
    by (simp_all add: sample_cache_def sample_cache_options_def sample_response_def new_cache_def)
  then show ?thesis by (simp add: cache_prepare_def sample_parsed sample_calculated)
qed

definition sample_calls :: "cache_call list" where
  "sample_calls = [CachePrepare sample_response, CacheCommit sample_origin 0 (Some 2000)]"

definition sample_stored :: "(jsstring \<times> jsstring) list directory_cache" where
  "sample_stored = \<lparr>positive = [(sample_origin, \<lparr>entry_document = sample_document, entry_freshness = sample_fresh,
       accountedBytes = 2326\<rparr>)], negative = [], prepared = [None], selections = [], cacheBytes = 2326,
     cacheTime = 2000, cacheHealthy = True, overflowUntil = 0\<rparr>"

lemma sample_kept: "commit_entry sample_cache_options sample_origin (sample_document, sample_fresh) 2000
    (empty_cache\<lparr>prepared := [None], cacheTime := 2000\<rparr>) = (True, sample_stored)"
  by (simp add: new_cache_def commit_entry_def remove_entry_def map_delete_def evict.simps sample_cache_options_def
      sample_fresh_def sample_document_def sample_stored_def sample_origin_def Let_def)

lemma sample_committed:
  "cache_commit sample_cache sample_origin 0 (Some 2000) (empty_cache\<lparr>prepared := [Some (sample_document, sample_fresh)]\<rparr>)
     = (Inr True, sample_stored)"
proof -
  have "cache_now (Some 2000) (empty_cache\<lparr>prepared := [None]\<rparr>) = (Some 2000, empty_cache\<lparr>prepared := [None], cacheTime := 2000\<rparr>)"
    by (simp add: cache_now_def new_cache_def max_safe_def)
  moreover have "cp_options sample_cache = sample_cache_options" by (simp add: sample_cache_def)
  ultimately show ?thesis
    using sample_kept by (simp add: cache_commit_def sample_cache_origin)
qed

lemma sample_traced: "cache_trace sample_cache sample_calls = (sample_stored, [sample_origin \<mapsto> (sample_document, sample_fresh)])"
  by (simp add: cache_trace_def sample_calls_def sample_prepared sample_committed step_evidence_def commit_evidence_def
      sample_cache_origin) (simp add: cache_now_def new_cache_def max_safe_def)

definition sample_selection :: "(jsstring \<times> jsstring) list key_selection" where
  "sample_selection = \<lparr>selection_id = 0, selection_origin = sample_origin, selection_key = hd (jwks_keys sample_loaded)\<rparr>"

lemma sample_fresh_at: "isDirectoryFresh sample_fresh (Some 3000)"
  using double_of_int [of 2000] by (simp add: isDirectoryFresh_def sample_fresh_def)

lemma sample_found: "\<exists>s'. cache_lookup sample_cache sample_origin (replicate 43 65) (Some 3000) sample_stored
    = (Inr (KeyFound sample_selection), s')"
proof -
  have now: "cache_now (Some 3000) sample_stored = (Some 3000, sample_stored\<lparr>cacheTime := 3000\<rparr>)"
    by (simp add: cache_now_def sample_stored_def max_safe_def)
  have "lookup_key sample_loaded (replicate 43 65) = Inr (hd (jwks_keys sample_loaded))"
    by (simp add: lookup_key_def sample_loaded_def)
  moreover have "document_jwks sample_document = sample_loaded" by (simp add: sample_document_def)
  moreover have "fresh_entry sample_origin (Some 3000) (sample_stored\<lparr>cacheTime := 3000\<rparr>)
      = Some \<lparr>entry_document = sample_document, entry_freshness = sample_fresh, accountedBytes = 2326\<rparr>"
    using sample_fresh_at by (simp add: fresh_entry_def sample_stored_def)
  moreover have "selections (sample_stored\<lparr>cacheTime := 3000\<rparr>) = []" by (simp add: sample_stored_def)
  ultimately show ?thesis
    by (simp add: cache_lookup_def sample_cache_origin now sample_selection_def)
qed

theorem cache_bounds_witness:
  "distinct (map fst (positive (fst (cache_trace sample_cache sample_calls))))"
  using cache_bounds [OF refl, of sample_cache sample_calls] by blast

theorem latest_evidence_witness:
  "\<exists>doc f. fst (the ([sample_origin \<mapsto> (sample_document, sample_fresh)] sample_origin)) = doc \<and> isDirectoryFresh f (Some 3000) \<and>
     lookup_key (document_jwks doc) (replicate 43 65) = Inr (selection_key sample_selection)"
proof -
  obtain s' where found: "cache_lookup sample_cache sample_origin (replicate 43 65) (Some 3000) sample_stored
      = (Inr (KeyFound sample_selection), s')" using sample_found by blast
  from latest_evidence [OF sample_traced, of sample_origin "replicate 43 65" "Some 3000" sample_selection s' 0] found
  obtain doc f where "[sample_origin \<mapsto> (sample_document, sample_fresh)] (selection_origin sample_selection) = Some (doc, f)"
      "isDirectoryFresh f (Some 3000)" "lookup_key (document_jwks doc) (replicate 43 65) = Inr (selection_key sample_selection)"
    by auto
  then show ?thesis by (simp add: sample_selection_def) blast
qed

end
