(* ===== verification/DiscoverySample.thy ===== *)
theory DiscoverySample
  imports DirSample DirServiceSafety SchedulerSafety
begin

text \<open>
  One refresh through both services: a call for one profile, its task, the fetch, and the delivery
  of the response of \<open>DirSample\<close> to both caches.
\<close>

definition sample_network :: fetch_options where
  "sample_network = \<lparr>fetch_mode = Allowlist, allowedOrigins = [sample_origin], fetch_policy = [],
     totalMilliseconds = 3000, fetch_ca = None, fetch_signal = None, fetch_proxy = None\<rparr>"

definition sample_discovery :: "(jsstring \<times> jsstring) list discovery_config" where
  "sample_discovery = \<lparr>dc_platform = (\<lambda>_. sample_cache), dc_url = sample_url, dc_network = sample_network,
     dc_scheduler = sample_env, dc_observed = False\<rparr>"

lemma discovery_fields: "dc_platform sample_discovery p = sample_cache" "dc_url sample_discovery = sample_url"
    "dc_scheduler sample_discovery = sample_env" "\<not> dc_observed sample_discovery"
    "origin_admitted (dc_network sample_discovery) sample_origin"
  by (simp_all add: sample_discovery_def sample_network_def origin_admitted_def)

abbreviation idle_service :: "(jsstring \<times> jsstring) list service" where
  "idle_service \<equiv> new_service"

abbreviation cache_at :: "rat \<Rightarrow> (jsstring \<times> jsstring) list directory_cache" where
  "cache_at t \<equiv> new_cache\<lparr>cacheTime := t\<rparr>"

lemma sample_service_origin: "service_origin sample_discovery sample_origin = Inr sample_origin"
  using sample_canonical [of 2048]
  by (simp add: service_origin_def discovery_fields origin_limit_def DEFAULT_PROFILE_LIMITS_def number_at_def max_safe_def)

lemma refreshed_sample: "service_refresh sample_discovery p sample_origin (\<lambda>_. Some 5) idle_service
    = (Inr RefreshPending, idle_service\<lparr>sv_time := 5, sv_cache := cache_at 5, sv_pending := [(sample_origin, TaskQueued 5)]\<rparr>)"
  by (simp add: service_refresh_def sample_service_origin discovery_fields service_now_def new_service_def fetchBlocked_def
      sample_cache_origin cache_now_def new_cache_def pruneNegative_def negative_until_def max_safe_def Let_def)

section \<open>The fetch\<close>

definition sample_running :: "transport_result scheduler" where
  "sample_running = snd (the (run_scheduler sample_env sample_url sample_origin (Some (Some 5)) new_scheduler))"

lemma sample_origin_configured: "configuredAgentOrigin sample_url (Some sample_origin)
    (JsInt (int (number_at DEFAULT_PROFILE_LIMITS ''maxAgentUrlBytes''))) = Inr sample_origin"
  by (rule sample_configured) (simp_all add: number_at_def DEFAULT_PROFILE_LIMITS_def max_safe_def)

lemmas sample_scheduling = pump_def prune_def expire_def dispatch_def execute_begin_def clear_wake_def with_job_def Let_def
  double_0 double_numeral sample_now

lemma sample_run: "run_scheduler sample_env sample_url sample_origin (Some (Some 5)) new_scheduler = Some (RunJob 0, sample_running)"
    "waiting sample_running = [0]" "length (store sample_running) = 1" "job_settled (store sample_running ! 0) = False"
    "healthy sample_running" "lastTime sample_running = 5" "job_started (store sample_running ! 0) = 5" "queue sample_running = []"
    "jobs sample_running = [(sample_origin, 0)]" "job_origin (store sample_running ! 0) = sample_origin" "active sample_running = 1"
proof -
  have "\<exists>u. run_scheduler sample_env sample_url sample_origin (Some (Some 5)) new_scheduler = Some (RunJob 0, u :: transport_result scheduler) \<and>
      waiting u = [0] \<and> length (store u) = 1 \<and> \<not> job_settled (store u ! 0) \<and> healthy u \<and> lastTime u = 5 \<and>
      job_started (store u ! 0) = 5 \<and> queue u = [] \<and> jobs u = [(sample_origin, 0)] \<and> job_origin (store u ! 0) = sample_origin \<and> active u = 1"
    using sample_now
    by (simp add: run_scheduler_def sample_origin_configured new_scheduler_def run_admitted_def add_job_def sample_scheduling)
      (simp add: pump_loop.simps [of sample_env] sample_scheduling, simp add: sample_env_def)
  then show "run_scheduler sample_env sample_url sample_origin (Some (Some 5)) new_scheduler = Some (RunJob 0, sample_running)"
    "waiting sample_running = [0]" "length (store sample_running) = 1" "job_settled (store sample_running ! 0) = False"
    "healthy sample_running" "lastTime sample_running = 5" "job_started (store sample_running ! 0) = 5" "queue sample_running = []"
    "jobs sample_running = [(sample_origin, 0)]" "job_origin (store sample_running ! 0) = sample_origin" "active sample_running = 1"
    by (auto simp: sample_running_def)
qed

definition sample_answer :: transport_result where
  "sample_answer = TransportResponse sample_response"

definition sample_fetched :: "transport_result scheduler" where
  "sample_fetched = the (worker_settles sample_env 0 (Some sample_answer) sample_running)"

lemma sample_settles: "worker_settles sample_env 0 (Some sample_answer) sample_running = Some sample_fetched"
    "length (store sample_fetched) = 1" "job_promise (store sample_fetched ! 0) = Some (Resolved sample_answer)"
proof -
  have "\<exists>u. worker_settles sample_env 0 (Some sample_answer) sample_running = Some u \<and> length (store u) = 1 \<and>
      job_promise (store u ! 0) = Some (Resolved sample_answer)"
    by (simp add: worker_settles_def execute_resume_def release_def forget_job_def settle_job_def sample_run sample_scheduling)
      (simp add: pump_loop.simps [of sample_env] sample_scheduling sample_run)
  then show "worker_settles sample_env 0 (Some sample_answer) sample_running = Some sample_fetched"
    "length (store sample_fetched) = 1" "job_promise (store sample_fetched ! 0) = Some (Resolved sample_answer)"
    by (auto simp: sample_fetched_def)
qed

section \<open>The delivery\<close>

lemma prepared_at: "cache_prepare sample_cache sample_response (cache_at t)
    = (Inr 0, (cache_at t)\<lparr>prepared := [Some (sample_document, sample_fresh)]\<rparr>)"
proof -
  have "cp_keys sample_cache = sample_backend" "cp_json sample_cache = (\<lambda>_. Some sample_jwks)"
    "cp_format sample_cache = GenericJwks" "cache_freshness (cp_options sample_cache) = default_freshness"
    "response_body sample_response = []" "prepared empty_cache = []"
    by (simp_all add: sample_cache_def sample_cache_options_def sample_response_def new_cache_def)
  then show ?thesis by (simp add: cache_prepare_def sample_parsed sample_calculated)
qed

definition sample_set :: "(jsstring \<times> jsstring) list evidence" where
  "sample_set = [sample_origin \<mapsto> (sample_document, sample_fresh)]"

lemma committed_at:
  assumes "0 \<le> t" "t \<le> 2000"
  shows "cache_commit sample_cache sample_origin 0 (Some 2000) ((cache_at t)\<lparr>prepared := [Some (sample_document, sample_fresh)]\<rparr>)
      = (Inr True, sample_stored)"
    "commit_evidence sample_cache sample_origin 0 (Some 2000) ((cache_at t)\<lparr>prepared := [Some (sample_document, sample_fresh)]\<rparr>)
       Map.empty = sample_set"
proof -
  have now: "cache_now (Some 2000) ((cache_at t)\<lparr>prepared := ps\<rparr>) = (Some 2000, empty_cache\<lparr>prepared := ps, cacheTime := 2000\<rparr>)" for ps
    using assms by (simp add: cache_now_def new_cache_def max_safe_def)
  have "cp_options sample_cache = sample_cache_options" by (simp add: sample_cache_def)
  then show "cache_commit sample_cache sample_origin 0 (Some 2000) ((cache_at t)\<lparr>prepared := [Some (sample_document, sample_fresh)]\<rparr>)
      = (Inr True, sample_stored)"
    using sample_kept now by (simp add: cache_commit_def sample_cache_origin)
  show "commit_evidence sample_cache sample_origin 0 (Some 2000) ((cache_at t)\<lparr>prepared := [Some (sample_document, sample_fresh)]\<rparr>)
       Map.empty = sample_set"
    using now by (simp add: commit_evidence_def sample_cache_origin sample_set_def)
qed

lemma viewed_at: "sv_cache s = cache_at t \<Longrightarrow> prepare_view sample_cache sample_response s
    = (Some (ViewTicket 0), s\<lparr>sv_cache := (cache_at t)\<lparr>prepared := [Some (sample_document, sample_fresh)]\<rparr>\<rparr>)"
  by (simp add: prepare_view_def prepared_at)

lemma applied_at:
  assumes "sv_cache s = (cache_at t)\<lparr>prepared := [Some (sample_document, sample_fresh)]\<rparr>" "0 \<le> t" "t \<le> 2000"
    and "sv_evidence s = Map.empty" "sv_applied s = []"
  shows "commit_view sample_cache sample_origin 0 (ViewTicket 0) (Some 2000) s
    = (True, s\<lparr>sv_cache := sample_stored, sv_evidence := sample_set, sv_applied := [(0, RefreshCompleted True)]\<rparr>)"
  using assms committed_at by (simp add: commit_view_def map_set.simps)

definition waiting_service :: "(jsstring \<times> jsstring) list service" where
  "waiting_service = idle_service\<lparr>sv_time := 5, sv_cache := cache_at 5,
     sv_pending := [(sample_origin, TaskWaiting 5 (HandleJob 0))]\<rparr>"

definition sample_transport :: "transport_result scheduler \<Rightarrow> transport" where
  "sample_transport s = \<lparr>tr_scheduler = s, tr_deliveries = [(0, sample_origin, 5)], tr_settled = [], tr_participants = 2,
     tr_started = True, tr_time = 0, tr_healthy = True\<rparr>"

definition sample_waiting :: "transport_result scheduler \<Rightarrow> (jsstring \<times> jsstring) list discovery" where
  "sample_waiting s = \<lparr>di_services = (\<lambda>_. idle_service)(WgProtocol00 := waiting_service), di_transport = sample_transport s\<rparr>"

lemma started_sample: "task_starts sample_discovery WgProtocol00 sample_origin (\<lambda>_. Some 5)
    (with_service WgProtocol00 (idle_service\<lparr>sv_time := 5, sv_cache := cache_at 5, sv_pending := [(sample_origin, TaskQueued 5)]\<rparr>)
      new_discovery) = Some (sample_waiting sample_running)"
proof -
  have "run_transport sample_env sample_url sample_origin 5 (new_transport\<lparr>tr_participants := 2\<rparr>)
      = Some (Inr (HandleJob 0), sample_transport sample_running)"
    by (simp add: run_transport_def new_transport_def sample_run sample_transport_def Let_def)
  moreover have "service_now (Some 5) (idle_service\<lparr>sv_time := 5, sv_cache := c, sv_pending := q\<rparr>)
      = (Some 5, idle_service\<lparr>sv_time := 5, sv_cache := c, sv_pending := q\<rparr>)" for c q
    by (simp add: service_now_def new_service_def max_safe_def)
  ultimately show ?thesis
    by (simp add: task_starts_def discovery_fields with_service_def new_discovery_def double_0 set_task_def map_set.simps
        waiting_service_def sample_waiting_def)
qed

text \<open>The service of the other profile after the delivery.\<close>

definition stored_service :: "(jsstring \<times> jsstring) list service" where
  "stored_service = idle_service\<lparr>sv_cache := sample_stored, sv_evidence := sample_set, sv_applied := [(0, RefreshCompleted True)]\<rparr>"

lemma delivered_sample:
  obtains d where "delivery_runs sample_discovery 0 (\<lambda>_. Some 2000) (sample_waiting sample_fetched) = Some d"
    "di_services d CloudflareDocs = stored_service" "tr_settled (di_transport d) = [(0, Delivered sample_answer)]"
proof -
  have deadline: "checkDeadline (Some 2000) 5 tr = (Inr (), tr\<lparr>tr_time := 2000\<rparr>)"
    if "tr_healthy tr" "tr_time tr \<le> 2000" for tr
    using that by (simp add: checkDeadline_def max_safe_def double_numeral)
  have ready: "ready_delivery 0 (sample_transport sample_fetched) = Some (sample_origin, 5, Resolved sample_answer)"
    by (simp add: ready_delivery_def sample_transport_def sample_settles)
  have zero: "new_cache\<lparr>cacheTime := 0\<rparr> = (empty_cache)" by (simp add: new_cache_def)
  have view: "prepare_view sample_cache sample_response idle_service
      = (Some (ViewTicket 0), idle_service\<lparr>sv_cache := (cache_at 0)\<lparr>prepared := [Some (sample_document, sample_fresh)]\<rparr>\<rparr>)"
    by (rule viewed_at) (simp add: new_service_def zero)
  have view': "prepare_view sample_cache sample_response waiting_service
      = (Some (ViewTicket 0), waiting_service\<lparr>sv_cache := (cache_at 5)\<lparr>prepared := [Some (sample_document, sample_fresh)]\<rparr>\<rparr>)"
    by (rule viewed_at) (simp add: waiting_service_def)
  have app: "commit_view sample_cache sample_origin 0 (ViewTicket 0) (Some 2000)
      (idle_service\<lparr>sv_cache := (cache_at 0)\<lparr>prepared := [Some (sample_document, sample_fresh)]\<rparr>\<rparr>) = (True, stored_service)"
    using applied_at [of _ 0] by (simp add: new_service_def stored_service_def)
  obtain s' where app': "commit_view sample_cache sample_origin 0 (ViewTicket 0) (Some 2000)
      (waiting_service\<lparr>sv_cache := (cache_at 5)\<lparr>prepared := [Some (sample_document, sample_fresh)]\<rparr>\<rparr>) = (True, s')"
    using applied_at [of _ 5] by (simp add: waiting_service_def new_service_def)
  obtain d where "delivery_runs sample_discovery 0 (\<lambda>_. Some 2000) (sample_waiting sample_fetched) = Some d \<and>
      di_services d CloudflareDocs = stored_service \<and> tr_settled (di_transport d) = [(0, Delivered sample_answer)]"
    using ready
    by (simp add: delivery_runs_def sample_waiting_def sample_answer_def prepare_views_def commit_views_def discovery_fields
        with_service_def view view' app app' deadline settle_delivery_def sample_transport_def Let_def)
  with that show ?thesis by blast
qed

lemma delivered_reachable:
  obtains d where "discovery_reachable sample_discovery d" "di_services d CloudflareDocs = stored_service"
    "tr_settled (di_transport d) = [(0, Delivered sample_answer)]"
proof -
  have q: "quiet (sample_waiting s)" for s
    by (simp add: quiet_def sample_waiting_def waiting_service_def new_service_def)
  have 1: "discovery_reachable sample_discovery (with_service WgProtocol00
      (idle_service\<lparr>sv_time := 5, sv_cache := cache_at 5, sv_pending := [(sample_origin, TaskQueued 5)]\<rparr>) new_discovery)"
    by (rule discovery_reachable.event [OF discovery_reachable.fresh, of _ "\<lambda>_. Some 5" "RefreshCall WgProtocol00 sample_origin"])
      (simp add: refreshed_sample new_discovery_def)
  have 2: "discovery_reachable sample_discovery (sample_waiting sample_running)"
    by (rule discovery_reachable.event [OF 1, of "\<lambda>_. Some 5" "TaskStarts WgProtocol00 sample_origin"])
      (simp add: started_sample, simp add: quiet_def with_service_def new_discovery_def new_service_def)
  have "transport_event sample_env sample_url (WorkerEvent 0 (Some sample_answer)) (sample_transport sample_running)
      = Some (sample_transport sample_fetched)"
    by (simp add: transport_event_def sample_transport_def sample_settles sample_run)
  then have 3: "discovery_reachable sample_discovery (sample_waiting sample_fetched)"
    by (intro discovery_reachable.event [OF 2, of "\<lambda>_. Some 5" "TransportEvent (WorkerEvent 0 (Some sample_answer))"])
      (simp add: q discovery_fields, simp add: sample_waiting_def)
  obtain d where d: "delivery_runs sample_discovery 0 (\<lambda>_. Some 2000) (sample_waiting sample_fetched) = Some d"
    "di_services d CloudflareDocs = stored_service" "tr_settled (di_transport d) = [(0, Delivered sample_answer)]"
    by (rule delivered_sample)
  then have "discovery_reachable sample_discovery d"
    by (intro discovery_reachable.event [OF 3, of "\<lambda>_. Some 2000" "DeliveryRuns 0"]) (simp add: q)
  with d that show ?thesis by blast
qed

theorem shared_delivery_witness:
  "\<exists>d :: (jsstring \<times> jsstring) list discovery. tr_settled (di_transport d) = [(0, Delivered sample_answer)] \<and>
     (\<forall>p. map_of (sv_applied (di_services d p)) 0 \<noteq> None \<and> length (sv_pending (di_services d p)) \<le> 80)"
proof -
  obtain d where d: "discovery_reachable sample_discovery d" "tr_settled (di_transport d) = [(0, Delivered sample_answer)]"
    by (rule delivered_reachable)
  from shared_delivery [OF d(1)] d(2) have "map_of (sv_applied (di_services d p)) 0 \<noteq> None" "length (sv_pending (di_services d p)) \<le> 80" for p
    by (auto simp: sample_answer_def)
  with d(2) show ?thesis by metis
qed

end
