(* ===== verification/NetworkRun.thy ===== *)
theory NetworkRun
  imports NetworkSafety DiscoverySample VerifierRun
begin

text \<open>
  The request of \<open>VerifierSample\<close> verified with the key that the delivery of \<open>DiscoverySample\<close> has
  put in the cache of its profile.
\<close>

section \<open>The network\<close>

definition plain_port :: "unit controller_port" where
  "plain_port = \<lparr>port_begin = (\<lambda>_ s. (Inr 0, s)), port_now = (\<lambda>_ _ s. (Inr 1, s)), port_finish = (\<lambda>_ s. (Inr (), s)),
     port_complete = (\<lambda>_ _ s. (Inr 1, s)), port_dispatch = (\<lambda>_ _ _ s. (Inr (Some Accepted), s)),
     port_settle = (\<lambda>_ out _ s. (case out of None \<Rightarrow> Inl (Unverified ReplayStoreUnavailable) | Some v \<Rightarrow> Inr v, s))\<rparr>"

definition plain_environment :: "unit environment" where
  "plain_environment = \<lparr>env_port = plain_port, env_clocks = (\<lambda>_. (Some 1000, Some 5)), env_others = (\<lambda>_ s. s)\<rparr>"

definition plain_network :: "(unit, (jsstring \<times> jsstring) list) network" where
  "plain_network = \<lparr>ne_context = plain_environment, ne_config = sample_discovery, ne_readings = (\<lambda>_ _. Some 3000),
     ne_events = (\<lambda>_ _. []), ne_refreshed = (\<lambda>_. None)\<rparr>"

abbreviation plain :: "(unit, (jsstring \<times> jsstring) list) network_state environment" where
  "plain \<equiv> network_environment plain_network"

type_synonym plain_world = "(unit, (jsstring \<times> jsstring) list) network_state world"

lemma on_context_id [simp]: "on_context (\<lambda>s. (r, s)) s = (r, s)"
  by (simp add: on_context_def)

lemma plain_clocked:
  "clocked plain (port_begin (env_port plain)) w = (Inr 0, ticked w)"
  "clocked plain (port_now (env_port plain) h) w = (Inr 1, ticked w)"
  "clocked plain (port_complete (env_port plain) h) w = (Inr 1, ticked w)"
  "clocked plain (port_dispatch (env_port plain) h i) w = (Inr (Some Accepted), ticked w)"
  "clocked plain (port_settle (env_port plain) h (Some out)) w = (Inr out, ticked w)"
  "port_finish (env_port plain) h s = (Inr (), s)"
  "callback_second plain h w = Some 1"
  by (simp_all add: clocked_def ticked_def network_environment_def plain_network_def plain_environment_def plain_port_def
      callback_second_def Let_def)

lemma plain_suspend: "suspend plain w = ticked w"
  by (simp add: suspend_def ticked_def network_environment_def plain_network_def plain_environment_def Let_def
      discovery_run_def)

section \<open>The service\<close>

definition found_service :: "(jsstring \<times> jsstring) list service" where
  "found_service = stored_service\<lparr>sv_time := 3000,
     sv_cache := sample_stored\<lparr>cacheTime := 3000, selections := [(sample_origin, replicate 43 65)]\<rparr>\<rparr>"

definition served :: "plain_world \<Rightarrow> (jsstring \<times> jsstring) list service \<Rightarrow> bool" where
  "served w s \<longleftrightarrow> di_services (ns_discovery (w_state w)) CloudflareDocs = s"

lemma served_ticked [simp]: "served (ticked w) s = served w s"
  by (simp add: served_def)

lemma key_thumbprint: "lk_thumbprint (hd (jwks_keys sample_loaded)) = replicate 43 65"
  by (simp add: sample_loaded_def)

lemma sample_document_jwks: "document_jwks sample_document = sample_loaded"
  by (simp add: sample_document_def)

lemma stored_entry: "fresh_entry sample_origin (Some 3000) (sample_stored\<lparr>cacheTime := t, selections := q\<rparr>)
    = Some \<lparr>entry_document = sample_document, entry_freshness = sample_fresh, accountedBytes = 2326\<rparr>"
  using sample_fresh_at by (simp add: fresh_entry_def sample_stored_def)

lemma looked_up: "cache_lookup sample_cache sample_origin (replicate 43 65) (Some 3000) sample_stored
    = (Inr (KeyFound sample_selection), sample_stored\<lparr>cacheTime := 3000, selections := [(sample_origin, replicate 43 65)]\<rparr>)"
proof -
  have now: "cache_now (Some 3000) sample_stored = (Some 3000, sample_stored\<lparr>cacheTime := 3000, selections := []\<rparr>)"
    by (simp add: cache_now_def sample_stored_def max_safe_def)
  show ?thesis
    by (simp add: cache_lookup_def sample_cache_origin now stored_entry sample_document_jwks key_signed key_thumbprint
        sample_selection_def)
qed

lemma key_id_valid: "validateProfileKeyId (Some (replicate 43 65)) = Inr (replicate 43 65)"
  using thumbprint_valid [OF sample_component(2)] sample_component(3) by simp

lemma opened_sample: "resolve_open sample_discovery CloudflareDocs sample_origin (replicate 43 65) spent (\<lambda>_. Some 3000) stored_service
    = ((Inr (ResolvedNow (ResolutionFound sample_selection)), spent), found_service)"
proof -
  have now: "service_now (Some 3000) stored_service = (Some 3000, stored_service\<lparr>sv_time := 3000\<rparr>)" "\<not> sv_delivering stored_service"
      "sv_cache stored_service = sample_stored"
    by (simp_all add: service_now_def stored_service_def new_service_def max_safe_def)
  show ?thesis
    by (simp add: resolve_open_def sample_service_origin key_id_valid discovery_fields now looked_up Let_def found_service_def)
qed

lemma rechecked_sample: "service_recheck sample_discovery sample_selection (\<lambda>_. Some 3000) found_service = (True, found_service)"
proof -
  let ?c = "sample_stored\<lparr>cacheTime := 3000, selections := [(sample_origin, replicate 43 65)]\<rparr>"
  have now: "service_now (Some 3000) found_service = (Some 3000, found_service)" "\<not> sv_delivering found_service" "sv_cache found_service = ?c"
    by (simp_all add: service_now_def found_service_def stored_service_def new_service_def max_safe_def)
  have cnow: "cache_now (Some 3000) ?c = (Some 3000, ?c)"
    by (simp add: cache_now_def sample_stored_def max_safe_def)
  have sel: "selection_origin sample_selection = sample_origin" "selection_id sample_selection = 0"
    by (simp_all add: sample_selection_def)
  have "cache_recheck 0 (Some 3000) ?c = (True, ?c)"
    by (simp add: cache_recheck_def cnow stored_entry sample_document_jwks key_signed key_thumbprint)
  moreover have "found_service\<lparr>sv_cache := ?c\<rparr> = found_service" by (simp add: found_service_def)
  ultimately show ?thesis by (simp add: service_recheck_def now discovery_fields sel)
qed

lemma resolved_sample:
  assumes "served w stored_service"
  obtains w' where "resolve_key plain_network CloudflareDocs sample_origin (replicate 43 65) w
    = (Inr (ResolutionFound sample_selection), w')" "served w' found_service"
  using assms
  by (auto simp: resolve_key_def on_service_def served_def plain_network_def opened_sample spend_budget_def with_service_def Let_def)

lemma evidence_sample:
  assumes "served w found_service"
  obtains w' where "recheck_key plain_network CloudflareDocs sample_selection w = (Inr (), w')" "served w' found_service"
  using assms
  by (auto simp: recheck_key_def on_service_def served_def plain_network_def rechecked_sample with_service_def Let_def)

section \<open>One candidate\<close>

definition found_identity :: "(jsstring \<times> jsstring) list discovered" where
  "found_identity = (discovered_identity_of (replicate 43 65) sample_origin, sample_selection)"

definition found_candidate :: "(jsstring \<times> jsstring) list discovered eligible_candidate" where
  "found_candidate = \<lparr>el_label = lit ''s'', el_profile = CloudflareDocs, el_signature = signed_signature,
     el_metadata = signed_metadata, el_identity = found_identity, el_claimed = sample_origin, el_time = signed_policy\<rparr>"

lemma found_fields:
  "el_label found_candidate = lit ''s''" "el_profile found_candidate = CloudflareDocs" "el_signature found_candidate = signed_signature"
  "el_metadata found_candidate = signed_metadata" "el_identity found_candidate = found_identity"
  "el_time found_candidate = signed_policy" "el_claimed found_candidate = sample_origin"
  "snd found_identity = sample_selection" "discovered_thumbprint (fst found_identity) = replicate 43 65"
  by (simp_all add: found_candidate_def found_identity_def discovered_identity_of_def)

lemma network_gates_sample: "network_gates signed_platform signed_configuration signed_signature (CloudflareHeader agent_item)
    = Inr (signed_claim, signed_metadata)"
proof -
  have "meta_algorithm signed_metadata = None" by (simp add: signed_metadata_def)
  with gates_signed show ?thesis
    by (auto simp: candidate_gates_def network_gates_def Let_def bindE_eq_Inr split: if_splits)
qed

lemma selected_sample: "resolved_selection signed_platform signed_configuration signed_metadata sample_origin
    (ResolutionFound sample_selection) = Inr (replicate 43 65, sample_selection)"
proof -
  have "selection_key sample_selection = hd (jwks_keys sample_loaded)" "selection_origin sample_selection = sample_origin"
      "meta_keyid signed_metadata = replicate 43 65" "vp_keys signed_platform = sample_backend"
      "\<not> lk_known_test (hd (jwks_keys sample_loaded))"
    by (simp_all add: sample_selection_def signed_metadata_def signed_platform_def sample_loaded_def)
  with identity_signed show ?thesis by (simp add: resolved_selection_def)
qed

lemma body_sample:
  assumes "served w stored_service"
  obtains w' where "network_body plain_network signed_platform signed_configuration signed_request signed_signature
    (CloudflareHeader agent_item) h w = (Inr found_candidate, w')" "served w' found_service"
proof -
  have p: "profile_time (vc_profiles signed_configuration CloudflareDocs) = signed_policy"
    by (simp add: signed_configuration_def)
  have c: "claimedUrl signed_claim = sample_origin" "sig_label (signature_of_input signed_signature) = lit ''s''"
      "canonicalOrigin signed_claim = sample_origin" "meta_keyid signed_metadata = replicate 43 65"
      "selection_key sample_selection = hd (jwks_keys sample_loaded)"
    by (simp_all add: signed_claim_def signed_signature_def signed_input_def signed_metadata_def sample_selection_def)
  obtain w1 where w1: "resolve_key plain_network CloudflareDocs sample_origin (replicate 43 65) (ticked w)
      = (Inr (ResolutionFound sample_selection), w1)" "served w1 found_service"
    using resolved_sample [of "ticked w"] assms by auto
  obtain w2 where w2: "recheck_key plain_network CloudflareDocs sample_selection (ticked (ticked w1)) = (Inr (), w2)" "served w2 found_service"
    using evidence_sample [of "ticked (ticked w1)"] w1(2) by auto
  obtain w3 where w3: "recheck_key plain_network CloudflareDocs sample_selection (ticked (ticked w2)) = (Inr (), w3)" "served w3 found_service"
    using evidence_sample [of "ticked (ticked w2)"] w2(2) by auto
  have "network_body plain_network signed_platform signed_configuration signed_request signed_signature
      (CloudflareHeader agent_item) h w = (Inr found_candidate, w3)"
    by (simp add: network_body_def Let_def bindA_def network_gates_sample header_cloudflare p c plain_clocked time_at_one
        awaiting_def plain_suspend w1 w2 w3 selected_sample crypto_signed crypto_accepted_def found_candidate_def found_identity_def
        del: lit_Cons)
  with w3(2) that show ?thesis by blast
qed

section \<open>The verification\<close>

abbreviation found_members :: "(jsstring \<times> jsstring) list discovered indexed list" where
  "found_members \<equiv> [(0, found_candidate)]"

lemma found_group: "ready_members 1 found_members = found_members" "group_failures 1 found_members = []"
proof -
  have "member_deadline 1 found_candidate = Inr 331"
    using deadline_signed by (simp add: member_deadline_def found_fields candidate_fields)
  then show "ready_members 1 found_members = found_members" "group_failures 1 found_members = []"
    by (simp_all add: ready_members_def group_failures_def is_ok_def List.map_filter_simps)
qed

lemma consumed_sample:
  obtains w' where "consumeCandidateGroups plain (lit ''shop'') thumbprint h found_members w
    = (Inr [0 \<mapsto> ReplayAccepted], w')" "\<And>s. served w' s = served w s"
proof -
  have groups: "candidate_groups (lit ''shop'') thumbprint found_members
      = (Map.empty, [(json_array [lit ''shop'', thumbprint found_identity, lit ''n''], found_members)])"
    using candidate_fields(8) by (simp add: candidate_groups_def group_step_def found_fields del: lit_Cons)
  have "consume_port plain h prepare u = (Inr Accepted, ticked (ticked (ticked (ticked u))))" for prepare u
    by (simp add: consume_port_def awaiting_def bindA_def plain_suspend plain_clocked)
  then have "consumeCandidateGroups plain (lit ''shop'') thumbprint h found_members w
      = (Inr [0 \<mapsto> ReplayAccepted], ticked (ticked (ticked (ticked (ticked (ticked w))))))"
    by (simp add: consumeCandidateGroups_def groups awaiting_def plain_suspend consume_group_def Let_def bindA_def plain_clocked
        found_group set_failures_def set_ready_def found_fields time_at_one del: lit_Cons)
  with that show ?thesis by simp
qed

definition found_verified :: "(jsstring \<times> jsstring) list discovered verified_candidate" where
  "found_verified = \<lparr>vr_label = lit ''s'', vr_profile = CloudflareDocs, vr_identity = found_identity,
     vr_claimed = sample_origin, vr_components = signed_components, vr_at = 1, vr_reason = NonceConsumed,
     vr_protected = True\<rparr>"

lemma finalized_found: "finalize found_candidate (Some ReplayAccepted) 1 = Inr (VerifiedResult found_verified)"
proof -
  have "sig_components (signature_of_input signed_signature) = signed_components"
    by (simp add: signed_signature_def signed_input_def)
  then show ?thesis
    using candidate_fields(8)
    by (simp add: finalize_def found_fields time_at_one final_outcome_def found_verified_def del: lit_Cons)
qed

lemma found_run:
  assumes "served w stored_service"
  shows "\<exists>w'. verify_network plain_network signed_platform signed_configuration signed_request w
      = (Inr (VerifiedRequest NonceConsumed [VerifiedResult found_verified] [found_verified]), w')"
proof -
  let ?S = "network_strategy plain_network signed_platform signed_configuration"
  let ?vs = "[EligibleEvaluation found_candidate]"
  let ?cfg = "engine_of signed_configuration"
  let ?w = "spend_budget False w"
  have w1: "served (ticked ?w) stored_service" using assms by (simp add: served_def spend_budget_def)
  have agent: "parseAgentHeader signed_request (ec_core ?cfg) = Inr (CloudflareHeader agent_item)"
    by (simp add: engine_signed agent_signed)
  obtain w2 where w2: "network_body plain_network signed_platform signed_configuration signed_request signed_signature
      (CloudflareHeader agent_item) 0 (ticked ?w) = (Inr found_candidate, w2)" "served w2 found_service"
    by (rule body_sample [OF w1])
  then have ev: "evaluate_all plain ?S signed_request (CloudflareHeader agent_item) 0 [signed_signature] [] (ticked ?w)
      = ((None, ?vs), ticked w2)"
    by (simp add: awaiting_def network_strategy_def evaluateNetworkCandidate_def plain_suspend)
  have check: "\<exists>u'. check_evaluation ?S (EligibleEvaluation found_candidate) u = (Inr (EligibleEvaluation found_candidate), u') \<and>
      served u' found_service" if "served u found_service" for u
  proof -
    obtain u' where "recheck_key plain_network CloudflareDocs sample_selection u = (Inr (), u')" "served u' found_service"
      by (rule evidence_sample [OF \<open>served u found_service\<close>])
    then show ?thesis
      by (simp add: check_evaluation_def evidenceRejection_def network_strategy_def bindA_def found_fields)
  qed
  obtain w3 where w3: "check_evaluations ?S ?vs (ticked w2) = ((None, ?vs), w3)" "served w3 found_service"
    using check [of "ticked w2"] w2(2) by auto
  obtain w4 where w4: "consumeCandidateGroups plain (ec_scope ?cfg) (st_thumbprint ?S) 0 found_members w3
      = (Inr [0 \<mapsto> ReplayAccepted], w4)" "served w4 found_service"
    using consumed_sample [of "st_thumbprint ?S" 0 w3] w3(2) by (auto simp: engine_signed)
  obtain w5 where w5: "final_evidence ?S ?vs w4 = (Inr ?vs, w5)"
    using check [OF w4(2)] by (auto simp: bindA_def)
  have el: "eligible_of ?vs = found_members" by (simp add: eligible_of_def List.map_filter_simps)
  have "finish_candidates ?cfg plain ?S 0 ?vs w3
      = (Inr (VerifiedRequest NonceConsumed [VerifiedResult found_verified] [found_verified]), ticked w5)"
    using w4(1) w5
    by (simp add: finish_candidates_def el bindA_def finalized_found aggregate_def engine_signed List.map_filter_simps
        found_verified_def plain_clocked)
  then have "verify_leased ?cfg plain ?S signed_request [signed_signature] 0 (ticked ?w)
      = (Inr (VerifiedRequest NonceConsumed [VerifiedResult found_verified] [found_verified]), ticked w5)"
    using agent ev w3(1) by (simp add: verify_leased_def verify_evaluated_def)
  then show ?thesis
    using verify_selection_signed by (simp add: verify_network_def verify_def finally_finish_def plain_clocked)
qed

theorem discovered_request_authentic_witness:
  "\<exists>s agent w w'. verify_network plain_network signed_platform signed_configuration signed_request w
      = (Inr (VerifiedRequest NonceConsumed [VerifiedResult found_verified] [found_verified]), w') \<and>
    discovered_authentic signed_platform signed_configuration signed_request agent s found_verified \<and>
    (\<exists>n. key_found plain_network w w' n CloudflareDocs sample_selection)"
proof -
  obtain d where d: "discovery_reachable sample_discovery d" "di_services d CloudflareDocs = stored_service"
    by (rule delivered_reachable)
  let ?w = "\<lparr>w_state = \<lparr>ns_context = (), ns_discovery = d, ns_spent = False\<rparr>, w_tick = 0\<rparr>"
  have "served ?w stored_service" using d(2) by (simp add: served_def)
  then obtain w' where run: "verify_network plain_network signed_platform signed_configuration signed_request ?w
      = (Inr (VerifiedRequest NonceConsumed [VerifiedResult found_verified] [found_verified]), w')"
    using found_run by blast
  have "discovery_reachable (ne_config plain_network) (ns_discovery (w_state ?w))"
    using d(1) by (simp add: plain_network_def)
  from discovered_request_authentic [OF this run] obtain s agent n where
    "discovered_authentic signed_platform signed_configuration signed_request agent s found_verified"
    "key_found plain_network ?w w' n (vr_profile found_verified) (snd (vr_identity found_verified))"
    by auto
  moreover have "vr_profile found_verified = CloudflareDocs" "snd (vr_identity found_verified) = sample_selection"
    by (simp_all add: found_verified_def found_fields)
  ultimately show ?thesis using run by metis
qed

end
