(* ===== verification/DirDns.thy ===== *)
theory DirDns
  imports DirConfig
begin

text \<open>
  The resolution of the host of a directory, \<^verbatim>\<open>discovery/dns-resolution.ts\<close>: the hostname, the
  validation of every address of both families, and the race of the two queries with the deadline.
  The resolver of the platform answers with events.
\<close>

section \<open>Addresses\<close>

datatype dns_failure = DnsFailure | DnsTimeout | DnsAddressDenied | DnsLimit

datatype dns_error = DirectoryDnsError dns_failure | DnsMisconfigured configuration_code

record directory_address =
  da_address :: jsstring
  da_family :: ip_family

text \<open>The pattern \<^verbatim>\<open>/^[a-z0-9](?:[a-z0-9-]{0,61}[a-z0-9])?$/i\<close> is that of a label in lower case.\<close>

definition validateHostname :: "jsstring \<Rightarrow> dns_error + unit" where
  "validateHostname hostname =
     (if 253 < length hostname \<or> isIP hostname \<noteq> None \<or> (hostname \<noteq> [] \<and> List.last hostname = 46)
      then Inl (DirectoryDnsError DnsAddressDenied)
      else if length (split_on 46 hostname) < 2 \<or> \<not> list_all (host_label \<circ> lowercase) (split_on 46 hostname)
      then Inl (DirectoryDnsError DnsAddressDenied)
      else Inr ())"

text \<open>An answer as the resolver gives it: an array of values, or something else.\<close>

type_synonym dns_answers = "jsstring option list option"

definition add_address ::
    "address_exception list \<Rightarrow> ip_family \<Rightarrow> directory_address list \<Rightarrow> jsstring option \<Rightarrow> dns_error + directory_address list" where
  "add_address policy' family result v =
     (case v of
        None \<Rightarrow> Inl (DirectoryDnsError DnsAddressDenied)
      | Some address \<Rightarrow>
          if 45 < length address \<or> isIP address \<noteq> Some family \<or> \<not> policy_allows policy' (Some address)
          then Inl (DirectoryDnsError DnsAddressDenied)
          else
            let entry = \<lparr>da_address = address, da_family = family\<rparr> in
            Inr (if entry \<in> set result then result else result @ [entry]))"

definition positive_limit :: "js_number \<Rightarrow> bool" where
  "positive_limit v \<longleftrightarrow> (case v of JsNotInteger \<Rightarrow> False | JsInt n \<Rightarrow> is_safe_integer n \<and> 0 < n)"

fun number_value :: "js_number \<Rightarrow> nat" where
  "number_value (JsInt n) = nat n"
| "number_value JsNotInteger = 0"

definition validateDirectoryAddresses ::
    "dns_answers \<Rightarrow> dns_answers \<Rightarrow> js_number \<Rightarrow> address_exception list \<Rightarrow> dns_error + directory_address list" where
  "validateDirectoryAddresses ipv4 ipv6 maximumAddresses policy' =
     (if \<not> positive_limit maximumAddresses then Inl (DnsMisconfigured InvalidResourceLimits)
      else
        case (ipv4, ipv6) of
          (Some v4, Some v6) \<Rightarrow>
            if number_value maximumAddresses < length v4 + length v6 then Inl (DirectoryDnsError DnsLimit)
            else
              bindE (foldE (add_address policy' IPv4) [] v4) (\<lambda>r4.
              bindE (foldE (add_address policy' IPv6) r4 v6) (\<lambda>result.
              if result = [] then Inl (DirectoryDnsError DnsFailure) else Inr result))
        | _ \<Rightarrow> Inl (DirectoryDnsError DnsFailure))"

section \<open>The queries\<close>

text \<open>The promise of one query: an answer, an error with the code \<open>ENODATA\<close>, or any other error.\<close>

datatype dns_reply = DnsList dns_answers | DnsNoData | DnsRejected

datatype dns_event = DnsAnswered ip_family dns_reply | DnsTimer

record dns_query =
  dq_maximum :: js_number
  dq_policy :: "address_exception list"

text \<open>The answers of the families that have settled, and the outcome of the operation: once it is there the
  timer is cleared, the resolver cancelled, and late answers have no effect.\<close>

record dns_state =
  dn_ipv4 :: "dns_answers option"
  dn_ipv6 :: "dns_answers option"
  dn_timedOut :: bool
  dn_result :: "(dns_error + directory_address list) option"

definition new_dns :: dns_state where
  "new_dns = \<lparr>dn_ipv4 = None, dn_ipv6 = None, dn_timedOut = False, dn_result = None\<rparr>"

fun query_result :: "bool \<Rightarrow> dns_reply \<Rightarrow> dns_error + dns_answers" where
  "query_result timedOut (DnsList v) = Inr v"
| "query_result timedOut DnsNoData = Inr (Some [])"
| "query_result timedOut DnsRejected = Inl (DirectoryDnsError (if timedOut then DnsTimeout else DnsFailure))"

fun record_answer :: "ip_family \<Rightarrow> dns_answers \<Rightarrow> dns_state \<Rightarrow> dns_state" where
  "record_answer IPv4 v s = (if dn_ipv4 s = None then s\<lparr>dn_ipv4 := Some v\<rparr> else s)"
| "record_answer IPv6 v s = (if dn_ipv6 s = None then s\<lparr>dn_ipv6 := Some v\<rparr> else s)"

definition both_answered :: "dns_query \<Rightarrow> dns_state \<Rightarrow> dns_state" where
  "both_answered q s =
     (case (dn_ipv4 s, dn_ipv6 s) of
        (Some v4, Some v6) \<Rightarrow> s\<lparr>dn_result := Some (validateDirectoryAddresses v4 v6 (dq_maximum q) (dq_policy q))\<rparr>
      | _ \<Rightarrow> s)"

fun dns_event_step :: "dns_query \<Rightarrow> dns_event \<Rightarrow> dns_state \<Rightarrow> dns_state" where
  "dns_event_step q (DnsAnswered family reply) s =
     (if dn_result s \<noteq> None then s
      else case query_result (dn_timedOut s) reply of
        Inl e \<Rightarrow> s\<lparr>dn_result := Some (Inl e)\<rparr>
      | Inr v \<Rightarrow> both_answered q (record_answer family v s))"
| "dns_event_step q DnsTimer s =
     (if dn_result s \<noteq> None then s
      else s\<lparr>dn_timedOut := True, dn_result := Some (Inl (DirectoryDnsError DnsTimeout))\<rparr>)"

text \<open>The checks before the resolver is created; the policy of the fetch is an owned one.\<close>

definition resolveDirectoryAddresses :: "jsstring \<Rightarrow> js_number \<Rightarrow> js_number \<Rightarrow> dns_error + dns_state" where
  "resolveDirectoryAddresses hostname timeoutMilliseconds maximumAddresses =
     (if \<not> positive_limit timeoutMilliseconds \<or> 2147483647 < number_value timeoutMilliseconds \<or> \<not> positive_limit maximumAddresses
      then Inl (DnsMisconfigured InvalidResourceLimits)
      else bindE (validateHostname hostname) (\<lambda>_. Inr new_dns))"

section \<open>What an answer set guarantees\<close>

definition dialable :: "address_exception list \<Rightarrow> directory_address \<Rightarrow> bool" where
  "dialable policy' a \<longleftrightarrow> isIP (da_address a) = Some (da_family a) \<and> policy_allows policy' (Some (da_address a)) \<and>
     length (da_address a) \<le> 45"

lemma add_address_dialable:
  "add_address policy' family rs v = Inr rs' \<Longrightarrow> list_all (dialable policy') rs \<Longrightarrow> list_all (dialable policy') rs'"
  by (cases v) (auto simp: add_address_def dialable_def Let_def split: if_splits)

lemma added_dialable:
  "foldE (add_address policy' family) rs vs = Inr rs' \<Longrightarrow> list_all (dialable policy') rs \<Longrightarrow> list_all (dialable policy') rs'"
proof (induction vs arbitrary: rs)
  case (Cons v vs)
  then obtain r where "add_address policy' family rs v = Inr r" "foldE (add_address policy' family) r vs = Inr rs'"
    by (auto simp: bindE_eq_Inr)
  with Cons show ?case using add_address_dialable by blast
qed simp

lemma validated_dialable:
  assumes "validateDirectoryAddresses v4 v6 maximum policy' = Inr rs"
  shows "list_all (dialable policy') rs" "rs \<noteq> []"
proof -
  obtain a b r4 where r: "foldE (add_address policy' IPv4) [] a = Inr r4" "foldE (add_address policy' IPv6) r4 b = Inr rs" "rs \<noteq> []"
    using assms by (auto simp: validateDirectoryAddresses_def bindE_eq_Inr split: if_splits option.splits)
  have "list_all (dialable policy') r4" using added_dialable [OF r(1)] by simp
  then show "list_all (dialable policy') rs" using added_dialable [OF r(2)] by blast
  show "rs \<noteq> []" by fact
qed

lemma dns_step_dialable:
  assumes "\<forall>rs. dn_result s = Some (Inr rs) \<longrightarrow> list_all (dialable (dq_policy q)) rs \<and> rs \<noteq> []"
  shows "\<forall>rs. dn_result (dns_event_step q e s) = Some (Inr rs) \<longrightarrow> list_all (dialable (dq_policy q)) rs \<and> rs \<noteq> []"
proof -
  have "dn_result (record_answer f v s) = dn_result s" for f v by (cases f) simp_all
  with assms show ?thesis using validated_dialable
    by (cases "(q, e, s)" rule: dns_event_step.cases) (auto simp: both_answered_def split: sum.splits option.splits)
qed

end
