(* ===== verification/DirConnect.thy ===== *)
theory DirConnect
  imports DirDns
begin

text \<open>
  The two connectors of the fetch: directly to a pinned address, \<^verbatim>\<open>discovery/pinned-tls.ts\<close>, and through
  a configured proxy, \<^verbatim>\<open>discovery/proxy-tls.ts\<close>. Each is a state machine over the events of its timer,
  its signal and its sockets; every call that opens or starts something is kept in a log.
\<close>

section \<open>Options\<close>

datatype connection_failure =
    ConnectionDenied | PeerMismatch | ConnectionFailed | TlsFailed | ConnectTimeout | ConnectionAborted

datatype connection_error = ConnectionMisconfigured configuration_code | DirectoryConnectionError connection_failure

record connection_options =
  co_hostname :: jsstring
  co_address :: jsstring
  co_family :: ip_family
  co_policy :: "address_exception list"
  co_ca :: "jsstring option"
  co_timeout :: nat

definition timeout_valid :: "nat \<Rightarrow> bool" where
  "timeout_valid n \<longleftrightarrow> 0 < n \<and> n \<le> 2147483647"

text \<open>The checks before a direct connection.\<close>

definition pinned_hostname :: "url_parser \<Rightarrow> jsstring \<Rightarrow> bool" where
  "pinned_hostname parse_url hostname \<longleftrightarrow>
     length hostname \<le> 253 \<and> \<not> (hostname \<noteq> [] \<and> List.last hostname = 46) \<and>
     2 \<le> length (split_on 46 hostname) \<and> list_all host_label (split_on 46 hostname) \<and>
     configuredAgentOrigin parse_url (Some (lit ''https://'' @ hostname)) origin_limit = Inr (lit ''https://'' @ hostname)"

definition direct_checks :: "url_parser \<Rightarrow> connection_options \<Rightarrow> bool \<Rightarrow> connection_error + unit" where
  "direct_checks parse_url opts aborted =
     (if \<not> pinned_hostname parse_url (co_hostname opts) then Inl (ConnectionMisconfigured InvalidAgentBinding)
      else if \<not> timeout_valid (co_timeout opts) then Inl (ConnectionMisconfigured InvalidResourceLimits)
      else if co_ca opts = Some [] then Inl (ConnectionMisconfigured InvalidKeyConfiguration)
      else if \<not> policy_allows (co_policy opts) (Some (co_address opts)) \<or>
        (if co_family opts = IPv4 then 58 \<in> set (co_address opts) else 58 \<notin> set (co_address opts))
      then Inl (DirectoryConnectionError ConnectionDenied)
      else if aborted then Inl (DirectoryConnectionError ConnectionAborted)
      else Inr ())"

definition proxy_checks :: "connection_options \<Rightarrow> bool \<Rightarrow> connection_error + unit" where
  "proxy_checks opts aborted =
     (if \<not> hostnameValid (co_hostname opts) then Inl (ConnectionMisconfigured InvalidAgentBinding)
      else if \<not> timeout_valid (co_timeout opts) then Inl (ConnectionMisconfigured InvalidResourceLimits)
      else if co_ca opts = Some [] then Inl (ConnectionMisconfigured InvalidKeyConfiguration)
      else if isIP (co_address opts) \<noteq> Some (co_family opts) \<or> \<not> policy_allows (co_policy opts) (Some (co_address opts))
      then Inl (DirectoryConnectionError ConnectionDenied)
      else if aborted then Inl (DirectoryConnectionError ConnectionAborted)
      else Inr ())"

text \<open>The numeric authority of the \<^verbatim>\<open>CONNECT\<close> request.\<close>

definition connect_authority :: "connection_options \<Rightarrow> jsstring" where
  "connect_authority opts =
     (if co_family opts = IPv6 then lit ''['' @ co_address opts @ lit '']:443'' else co_address opts @ lit '':443'')"

section \<open>State\<close>

datatype network_call =
    DialTcp jsstring nat ip_family
  | DialProxy jsstring nat jsstring jsstring
  | StartTls jsstring "jsstring option"

text \<open>The outer socket is the TCP socket of a direct connection, or the request and the tunnel of a proxy; the
  inner one is the TLS socket for the directory.\<close>

record connection =
  cn_outer :: bool
  cn_inner :: bool
  cn_timer :: bool
  cn_result :: "(connection_failure + unit) option"
  cn_calls :: "network_call list"

definition idle_connection :: connection where
  "idle_connection = \<lparr>cn_outer = False, cn_inner = False, cn_timer = False, cn_result = None, cn_calls = []\<rparr>"

definition fail_connection :: "connection_failure \<Rightarrow> connection \<Rightarrow> connection" where
  "fail_connection reason c =
     (if cn_result c \<noteq> None then c
      else c\<lparr>cn_timer := False, cn_inner := False, cn_outer := False, cn_result := Some (Inl reason)\<rparr>)"

text \<open>What the handshake with the directory shows when it completes; \<open>si_throws\<close> when reading it throws.\<close>

record secure_info =
  si_authorized :: bool
  si_identity :: bool
  si_protocol :: "jsstring option"
  si_remote :: "jsstring option"
  si_throws :: bool
  si_aborted :: bool

record proxy_answer =
  pa_status :: nat
  pa_head :: nat
  pa_authorized :: bool
  pa_identity :: bool
  pa_throws :: bool

datatype connection_event =
    ConnectionTimer
  | ConnectionAbort
  | OuterError
  | OuterClosed
  | TcpConnected "jsstring option" bool
  | ProxyRefused
  | ProxyConnected proxy_answer bool
  | InnerError
  | InnerClosed
  | InnerSecure secure_info

definition secure_accepted :: "secure_info \<Rightarrow> bool" where
  "secure_accepted i \<longleftrightarrow> si_authorized i \<and> \<not> si_throws i \<and> si_identity i \<and>
     (case si_protocol i of None \<Rightarrow> True | Some p \<Rightarrow> p = [] \<or> p = lit ''http/1.1'')"

definition start_tls :: "connection_options \<Rightarrow> bool \<Rightarrow> connection \<Rightarrow> connection" where
  "start_tls opts throws c =
     (let c' = c\<lparr>cn_calls := cn_calls c @ [StartTls (co_hostname opts) (co_ca opts)]\<rparr> in
      if throws then fail_connection TlsFailed c' else c'\<lparr>cn_inner := True\<rparr>)"

definition secured :: "bool \<Rightarrow> secure_info \<Rightarrow> connection \<Rightarrow> connection" where
  "secured peerMatches i c =
     (if \<not> secure_accepted i then fail_connection TlsFailed c
      else if \<not> peerMatches then fail_connection PeerMismatch c
      else if si_aborted i then fail_connection ConnectionAborted c
      else c\<lparr>cn_timer := False, cn_result := Some (Inr ())\<rparr>)"

section \<open>A direct connection\<close>

definition start_direct :: "connection_options \<Rightarrow> bool \<Rightarrow> connection" where
  "start_direct opts throws =
     (let c = idle_connection\<lparr>cn_timer := True, cn_calls := [DialTcp (co_address opts) 443 (co_family opts)]\<rparr> in
      if throws then fail_connection ConnectionFailed c else c\<lparr>cn_outer := True\<rparr>)"

text \<open>The events of the inner socket come only from one that was started.\<close>

fun direct_event :: "connection_options \<Rightarrow> connection_event \<Rightarrow> connection \<Rightarrow> connection" where
  "direct_event opts ConnectionTimer c = fail_connection ConnectTimeout c"
| "direct_event opts ConnectionAbort c = fail_connection ConnectionAborted c"
| "direct_event opts OuterError c = fail_connection ConnectionFailed c"
| "direct_event opts OuterClosed c = fail_connection ConnectionFailed c"
| "direct_event opts (TcpConnected remote throws) c =
     (if cn_result c \<noteq> None \<or> cn_inner c then c
      else if \<not> matchesPeer (co_policy opts) (Some (co_address opts)) remote then fail_connection PeerMismatch c
      else start_tls opts throws c)"
| "direct_event opts InnerError c = (if cn_inner c then fail_connection TlsFailed c else c)"
| "direct_event opts InnerClosed c = (if cn_inner c then fail_connection TlsFailed c else c)"
| "direct_event opts (InnerSecure i) c =
     (if cn_result c \<noteq> None \<or> \<not> cn_inner c then c
      else secured (matchesPeer (co_policy opts) (Some (co_address opts)) (si_remote i)) i c)"
| "direct_event opts _ c = c"

section \<open>A connection through the proxy\<close>

definition start_proxy :: "connection_options \<Rightarrow> https_proxy \<Rightarrow> bool \<Rightarrow> connection" where
  "start_proxy opts proxy throws =
     (let c = idle_connection\<lparr>cn_timer := True,
            cn_calls := [DialProxy (proxy_address proxy) (proxy_port proxy) (proxy_hostname proxy) (connect_authority opts)]\<rparr> in
      if throws then fail_connection ConnectionFailed c else c\<lparr>cn_outer := True\<rparr>)"

fun proxy_event :: "connection_options \<Rightarrow> connection_event \<Rightarrow> connection \<Rightarrow> connection" where
  "proxy_event opts ConnectionTimer c = fail_connection ConnectTimeout c"
| "proxy_event opts ConnectionAbort c = fail_connection ConnectionAborted c"
| "proxy_event opts OuterError c = fail_connection ConnectionFailed c"
| "proxy_event opts OuterClosed c = fail_connection ConnectionFailed c"
| "proxy_event opts ProxyRefused c = fail_connection ConnectionFailed c"
| "proxy_event opts (ProxyConnected a throws) c =
     (if cn_result c \<noteq> None \<or> cn_inner c then c
      else if pa_status a \<noteq> 200 \<or> pa_head a \<noteq> 0 then fail_connection ConnectionFailed c
      else if \<not> pa_authorized a \<or> pa_throws a \<or> \<not> pa_identity a then fail_connection TlsFailed c
      else start_tls opts throws c)"
| "proxy_event opts InnerError c = (if cn_inner c then fail_connection TlsFailed c else c)"
| "proxy_event opts InnerClosed c = (if cn_inner c then fail_connection TlsFailed c else c)"
| "proxy_event opts (InnerSecure i) c =
     (if cn_result c \<noteq> None \<or> \<not> cn_inner c then c else secured True i c)"
| "proxy_event opts _ c = c"

section \<open>Either connector\<close>

definition connect_directory ::
    "url_parser \<Rightarrow> https_proxy option \<Rightarrow> connection_options \<Rightarrow> bool \<Rightarrow> bool \<Rightarrow> connection_error + connection" where
  "connect_directory parse_url proxy opts aborted throws =
     (case proxy of
        None \<Rightarrow> bindE (direct_checks parse_url opts aborted) (\<lambda>_. Inr (start_direct opts throws))
      | Some p \<Rightarrow> bindE (proxy_checks opts aborted) (\<lambda>_. Inr (start_proxy opts p throws)))"

definition connection_step :: "https_proxy option \<Rightarrow> connection_options \<Rightarrow> connection_event \<Rightarrow> connection \<Rightarrow> connection" where
  "connection_step proxy opts e c = (if proxy = None then direct_event opts e c else proxy_event opts e c)"

section \<open>Calls and settlement\<close>

text \<open>The calls a connector makes go to the pinned address, or to the proxy with its numeric authority, and the
  TLS handshake is for the host of the directory; sockets are open only before a result, or with a socket as
  the result.\<close>

definition outer_call :: "https_proxy option \<Rightarrow> connection_options \<Rightarrow> network_call" where
  "outer_call proxy opts =
     (case proxy of
        None \<Rightarrow> DialTcp (co_address opts) 443 (co_family opts)
      | Some p \<Rightarrow> DialProxy (proxy_address p) (proxy_port p) (proxy_hostname p) (connect_authority opts))"

definition connection_sound :: "https_proxy option \<Rightarrow> connection_options \<Rightarrow> connection \<Rightarrow> bool" where
  "connection_sound proxy opts c \<longleftrightarrow>
     set (cn_calls c) \<subseteq> {outer_call proxy opts, StartTls (co_hostname opts) (co_ca opts)} \<and>
     (\<forall>r. cn_result c = Some (Inl r) \<longrightarrow> \<not> cn_outer c \<and> \<not> cn_inner c) \<and>
     (cn_result c \<noteq> None \<longrightarrow> \<not> cn_timer c) \<and>
     (cn_result c = Some (Inr ()) \<longrightarrow> StartTls (co_hostname opts) (co_ca opts) \<in> set (cn_calls c)) \<and>
     (cn_inner c \<longrightarrow> StartTls (co_hostname opts) (co_ca opts) \<in> set (cn_calls c))"

lemma fail_sound [simp]: "connection_sound proxy opts c \<Longrightarrow> connection_sound proxy opts (fail_connection r c)"
  by (auto simp: connection_sound_def fail_connection_def)

lemma start_tls_sound:
  "connection_sound proxy opts c \<Longrightarrow> cn_result c = None \<Longrightarrow> connection_sound proxy opts (start_tls opts throws c)"
  by (auto simp: start_tls_def Let_def connection_sound_def fail_connection_def)

lemma secured_sound:
  "connection_sound proxy opts c \<Longrightarrow> cn_result c = None \<Longrightarrow> cn_inner c \<Longrightarrow> connection_sound proxy opts (secured m i c)"
  by (auto simp: secured_def connection_sound_def fail_connection_def)

lemma connection_step_sound:
  "connection_sound proxy opts c \<Longrightarrow> connection_sound proxy opts (connection_step proxy opts e c)"
  unfolding connection_step_def
  by (cases proxy; cases e) (simp_all add: start_tls_sound secured_sound)

lemma connect_sound:
  "connect_directory parse_url proxy opts aborted throws = Inr c \<Longrightarrow> connection_sound proxy opts c"
  by (auto simp: connect_directory_def bindE_eq_Inr start_direct_def start_proxy_def connection_sound_def outer_call_def
      idle_connection_def fail_connection_def Let_def split: option.splits if_splits)

text \<open>A connector starts only for an allowed address.\<close>

lemma connect_allowed:
  "connect_directory parse_url proxy opts aborted throws = Inr c \<Longrightarrow> policy_allows (co_policy opts) (Some (co_address opts))"
  by (auto simp: connect_directory_def bindE_eq_Inr direct_checks_def proxy_checks_def split: option.splits if_splits)

text \<open>A connection becomes usable in one step only, with an authenticated peer.\<close>

lemma connection_secured:
  assumes "cn_result c \<noteq> Some (Inr ())" "cn_result (connection_step proxy opts e c) = Some (Inr ())"
  obtains i where "e = InnerSecure i" "secure_accepted i"
    "proxy = None \<Longrightarrow> matchesPeer (co_policy opts) (Some (co_address opts)) (si_remote i)"
proof -
  have fails: "cn_result (fail_connection r c') = Some (Inr ()) \<longleftrightarrow> cn_result c' = Some (Inr ())" for r c'
    by (auto simp: fail_connection_def)
  have tls: "cn_result (start_tls opts throws c) = Some (Inr ()) \<longleftrightarrow> cn_result c = Some (Inr ())" for throws
    by (simp add: start_tls_def Let_def fails)
  show thesis
  proof (cases e)
    case (InnerSecure i)
    then have "secure_accepted i \<and> (proxy = None \<longrightarrow> matchesPeer (co_policy opts) (Some (co_address opts)) (si_remote i))"
      using assms by (auto simp: connection_step_def secured_def fails split: if_splits)
    with InnerSecure that show thesis by blast
  qed (use assms in \<open>auto simp: connection_step_def fails tls split: if_splits\<close>)
qed

end
