(* ===== verification/DirReader.thy ===== *)
theory DirReader
  imports DirConnect DirFreshness
begin

text \<open>
  The reader of one response over an authenticated stream, \<^verbatim>\<open>discovery/directory-response.ts\<close>: a state
  machine over the events of its timers, its signal, the request and the response. The HTTP parser
  of the platform gives the status, the raw headers and the chunks of the body.
\<close>

section \<open>Headers\<close>

datatype reader_failure =
    ResponseFailed | StatusRejected | EncodingRejected | MediaTypeRejected | ResponseLimit | ResponseTimeout | ResponseAborted

datatype reader_error = ReaderMisconfigured candidate_error | DirectoryResponseError reader_failure

definition js_trim :: "jsstring \<Rightarrow> jsstring" where
  "js_trim t = rev (dropWhile js_space (rev (dropWhile js_space t)))"

definition values_of :: "string \<Rightarrow> (jsstring \<times> jsstring) list \<Rightarrow> jsstring list" where
  "values_of name fields' = map snd (filter (\<lambda>e. fst e = lit name) fields')"

definition encoding_accepted :: "(jsstring \<times> jsstring) list \<Rightarrow> bool" where
  "encoding_accepted fields' \<longleftrightarrow>
     (case values_of ''content-encoding'' fields' of
        [] \<Rightarrow> True | [v] \<Rightarrow> lowercase (js_trim v) = lit ''identity'' | _ \<Rightarrow> False)"

text \<open>The pattern of the media type, with an optional charset and white space around the separators, in any case of
  the letters.\<close>

definition charset_text :: "jsstring \<Rightarrow> bool" where
  "charset_text t \<longleftrightarrow> (\<exists>c \<in> {lit ''charset=\"utf-8\"'', lit ''charset=utf-8''}.
     take (length c) t = c \<and> list_all js_space (drop (length c) t))"

definition media_type :: "jsstring \<Rightarrow> bool" where
  "media_type v \<longleftrightarrow>
     (let t = lowercase v; name = lit ''application/http-message-signatures-directory+json''; r = drop (length name) t in
      take (length name) t = name \<and>
      (list_all js_space r \<or>
       (case dropWhile js_space r of [] \<Rightarrow> False | c # q \<Rightarrow> c = 59 \<and> charset_text (dropWhile js_space q))))"

definition media_type_accepted :: "(jsstring \<times> jsstring) list \<Rightarrow> bool" where
  "media_type_accepted fields' \<longleftrightarrow>
     (case values_of ''content-type'' fields' of [v] \<Rightarrow> media_type v | _ \<Rightarrow> False)"

text \<open>Of several content lengths the platform keeps the first.\<close>

definition length_accepted :: "nat \<Rightarrow> (jsstring \<times> jsstring) list \<Rightarrow> bool" where
  "length_accepted bodyLimit fields' \<longleftrightarrow>
     (case values_of ''content-length'' fields' of
        [] \<Rightarrow> True
      | v # _ \<Rightarrow> v \<noteq> [] \<and> list_all digit v \<and> digits_value v \<le> max_safe \<and> digits_value v \<le> bodyLimit)"

section \<open>Options and state\<close>

record reader_options =
  ro_remaining :: nat
  ro_headers :: nat
  ro_idle :: nat
  ro_headerLimit :: nat
  ro_bodyLimit :: nat

text \<open>What was kept of an accepted head: the fields in order, and the two times of its receipt.\<close>

record response_head =
  rh_fields :: "(jsstring \<times> jsstring) list"
  rh_monotonic :: rat
  rh_wall :: rat

record reader =
  rd_started :: rat
  rd_socket :: bool
  rd_requested :: bool
  rd_deadline :: bool
  rd_headerTimer :: bool
  rd_idleTimer :: bool
  rd_answered :: bool
  rd_head :: "response_head option"
  rd_body :: "u8 list"
  rd_result :: "(reader_failure + directory_response) option"

datatype reader_event =
    ReadDeadline
  | ReadHeaderTimer
  | ReadIdleTimer
  | ReadAbort
  | RequestError bool
  | ResponseHead nat "(jsstring \<times> jsstring) list" rat rat
  | ResponseError
  | ResponseData "u8 list"
  | ResponseEnd bool rat
  | ResponseClosed

definition fail_reader :: "reader_failure \<Rightarrow> reader \<Rightarrow> reader" where
  "fail_reader reason r =
     (if rd_result r \<noteq> None then r
      else r\<lparr>rd_deadline := False, rd_headerTimer := False, rd_idleTimer := False, rd_socket := False,
             rd_result := Some (Inl reason)\<rparr>)"

text \<open>The callback of the response: the headers in lower case, then status, encoding, media type and length.\<close>

definition accept_head :: "reader_options \<Rightarrow> nat \<Rightarrow> (jsstring \<times> jsstring) list \<Rightarrow> reader_failure + (jsstring \<times> jsstring) list" where
  "accept_head opts status raw =
     (let fields' = map (\<lambda>(n, v). (lowercase n, v)) raw in
      if status \<noteq> 200 then Inl StatusRejected
      else if \<not> encoding_accepted fields' then Inl EncodingRejected
      else if \<not> media_type_accepted fields' then Inl MediaTypeRejected
      else if \<not> length_accepted (ro_bodyLimit opts) fields' then Inl ResponseLimit
      else Inr fields')"

fun reader_event_step :: "reader_options \<Rightarrow> reader_event \<Rightarrow> reader \<Rightarrow> reader" where
  "reader_event_step opts ReadDeadline r = fail_reader ResponseTimeout r"
| "reader_event_step opts ReadHeaderTimer r = (if rd_headerTimer r then fail_reader ResponseTimeout r else r)"
| "reader_event_step opts ReadIdleTimer r = (if rd_idleTimer r then fail_reader ResponseTimeout r else r)"
| "reader_event_step opts ReadAbort r = fail_reader ResponseAborted r"
| "reader_event_step opts (RequestError overflow) r = fail_reader (if overflow then ResponseLimit else ResponseFailed) r"
| "reader_event_step opts (ResponseHead status raw received wall) r =
     (if rd_result r \<noteq> None \<or> rd_answered r then r
      else
        let r' = r\<lparr>rd_answered := True, rd_headerTimer := False\<rparr> in
        case accept_head opts status raw of
          Inl reason \<Rightarrow> fail_reader reason r'
        | Inr fields' \<Rightarrow>
            r'\<lparr>rd_head := Some \<lparr>rh_fields = fields', rh_monotonic = received, rh_wall = wall\<rparr>, rd_idleTimer := True\<rparr>)"
| "reader_event_step opts ResponseError r = (if rd_answered r then fail_reader ResponseFailed r else r)"
| "reader_event_step opts (ResponseData chunk) r =
     (if rd_result r \<noteq> None \<or> rd_head r = None then r
      else if ro_bodyLimit opts < length (rd_body r) + length chunk then fail_reader ResponseLimit r
      else r\<lparr>rd_body := rd_body r @ chunk, rd_idleTimer := True\<rparr>)"
| "reader_event_step opts (ResponseEnd whole now) r =
     (case rd_head r of
        None \<Rightarrow> r
      | Some h \<Rightarrow>
          if rd_result r \<noteq> None then r
          else if \<not> whole then fail_reader ResponseFailed r
          else if of_nat (ro_remaining opts) \<le> now - rd_started r then fail_reader ResponseTimeout r
          else r\<lparr>rd_deadline := False, rd_headerTimer := False, rd_idleTimer := False, rd_socket := False,
              rd_result := Some (Inr \<lparr>response_body = rd_body r, response_headers = rh_fields h,
                requestStartedMonotonicMs = Some (rd_started r), responseReceivedMonotonicMs = Some (rh_monotonic h),
                responseReceivedWallMs = Some (rh_wall h)\<rparr>)\<rparr>)"
| "reader_event_step opts ResponseClosed r = (if rd_head r \<noteq> None then fail_reader ResponseFailed r else r)"

definition new_reader :: "rat \<Rightarrow> reader" where
  "new_reader now = \<lparr>rd_started = now, rd_socket = True, rd_requested = False, rd_deadline = True, rd_headerTimer = True,
     rd_idleTimer = False, rd_answered = False, rd_head = None, rd_body = [], rd_result = None\<rparr>"

text \<open>The checks, then the request; \<open>usable\<close> tells that the socket is not destroyed and authorized.\<close>

definition readDirectoryResponse ::
    "url_parser \<Rightarrow> jsstring \<Rightarrow> reader_options \<Rightarrow> bool \<Rightarrow> bool \<Rightarrow> bool \<Rightarrow> rat \<Rightarrow> reader_error + reader" where
  "readDirectoryResponse parse_url hostname opts usable aborted throws now =
     (if \<not> list_all timeout_valid [ro_remaining opts, ro_headers opts, ro_idle opts, ro_headerLimit opts, ro_bodyLimit opts]
      then Inl (ReaderMisconfigured (ProfileConfigurationError InvalidResourceLimits))
      else case configuredAgentOrigin parse_url (Some (lit ''https://'' @ hostname)) origin_limit of
        Inl e \<Rightarrow> Inl (ReaderMisconfigured e)
      | Inr origin \<Rightarrow>
          if origin \<noteq> lit ''https://'' @ hostname then Inl (ReaderMisconfigured (ProfileConfigurationError InvalidAgentBinding))
          else if \<not> usable then Inl (DirectoryResponseError ResponseFailed)
          else if aborted then Inl (DirectoryResponseError ResponseAborted)
          else if throws then Inr (fail_reader ResponseFailed (new_reader now))
          else Inr ((new_reader now)\<lparr>rd_requested := True\<rparr>))"

section \<open>What a response guarantees\<close>

text \<open>The pieces of the body that arrived, in order, after an accepted head.\<close>

definition response_accepted :: "reader_options \<Rightarrow> directory_response \<Rightarrow> bool" where
  "response_accepted opts response \<longleftrightarrow>
     length (response_body response) \<le> ro_bodyLimit opts \<and>
     encoding_accepted (response_headers response) \<and> media_type_accepted (response_headers response) \<and>
     length_accepted (ro_bodyLimit opts) (response_headers response)"

definition reader_sound :: "reader_options \<Rightarrow> reader \<Rightarrow> bool" where
  "reader_sound opts r \<longleftrightarrow>
     length (rd_body r) \<le> ro_bodyLimit opts \<and>
     (\<forall>h. rd_head r = Some h \<longrightarrow> encoding_accepted (rh_fields h) \<and> media_type_accepted (rh_fields h) \<and>
       length_accepted (ro_bodyLimit opts) (rh_fields h)) \<and>
     (rd_result r \<noteq> None \<longrightarrow> \<not> rd_socket r \<and> \<not> rd_deadline r \<and> \<not> rd_headerTimer r \<and> \<not> rd_idleTimer r) \<and>
     (\<forall>response. rd_result r = Some (Inr response) \<longrightarrow> response_accepted opts response)"

lemma fail_reader_sound [simp]: "reader_sound opts r \<Longrightarrow> reader_sound opts (fail_reader reason r)"
  by (auto simp: reader_sound_def fail_reader_def)

lemma reader_step_sound: "reader_sound opts r \<Longrightarrow> reader_sound opts (reader_event_step opts e r)"
proof (cases e)
  case (ResponseHead status raw received wall)
  assume r: "reader_sound opts r"
  then have "reader_sound opts (r\<lparr>rd_answered := True, rd_headerTimer := False\<rparr>)" by (auto simp: reader_sound_def)
  with r ResponseHead show ?thesis
    by (auto simp: Let_def reader_sound_def accept_head_def fail_reader_def split: sum.splits if_splits)
next
  case (ResponseData chunk)
  assume r: "reader_sound opts r"
  with ResponseData show ?thesis by (auto simp: reader_sound_def fail_reader_def)
next
  case (ResponseEnd whole now)
  assume r: "reader_sound opts r"
  then have "reader_sound opts (fail_reader reason r)" for reason by simp
  with r ResponseEnd show ?thesis by (auto simp: reader_sound_def response_accepted_def split: option.splits)
qed simp_all

lemma new_reader_sound:
  "readDirectoryResponse parse_url hostname opts usable aborted throws now = Inr r \<Longrightarrow> reader_sound opts r"
  by (auto simp: readDirectoryResponse_def reader_sound_def new_reader_def fail_reader_def split: sum.splits if_splits)

end
