(* ===== verification/DirFetch.thy ===== *)
theory DirFetch
  imports DirReader DirTransport
begin

text \<open>
  One bounded fetch of a directory, \<^verbatim>\<open>discovery/fetch-directory.ts\<close>: resolution, connection and reading under
  one deadline and one signal. The state holds the three machines; an event is one of theirs, the timer, the
  application's abort, or the continuation after an awaited promise has settled. A stop that comes before the
  promise of the phase settles wins the race; later it shows in \<open>remaining\<close>.
\<close>

section \<open>State\<close>

datatype stop_reason = StopAborted | StopTimeout

datatype fetch_error =
    FetchMisconfigured candidate_error | OriginDenied | FetchTimedOut | FetchAborted
  | FetchDns dns_error | FetchConnection connection_error | FetchReader reader_error | FetchBroken

datatype fetch_phase = Resolving | Connecting | Reading | FetchFinished

record fetch =
  ft_hostname :: jsstring
  ft_started :: rat
  ft_phase :: fetch_phase
  ft_aborted :: bool
  ft_timedOut :: bool
  ft_controller :: bool
  ft_timer :: bool
  ft_raced :: "stop_reason option"
  ft_dns :: dns_state
  ft_target :: "connection_options option"
  ft_connection :: connection
  ft_reader :: "(reader_options \<times> reader) option"
  ft_result :: "(fetch_error + directory_response) option"

datatype fetch_event =
    FetchDnsEvent dns_event
  | FetchConnectionEvent connection_event
  | FetchReaderEvent reader_event
  | FetchTimer
  | FetchAbort
  | FetchContinue "nat \<Rightarrow> rat" bool bool

definition fetch_query :: "fetch_options \<Rightarrow> dns_query" where
  "fetch_query opts = \<lparr>dq_maximum = JsInt 16, dq_policy = fetch_policy opts\<rparr>"

definition remaining_time :: "fetch_options \<Rightarrow> rat \<Rightarrow> fetch \<Rightarrow> fetch_error + nat" where
  "remaining_time opts now f =
     (if ft_aborted f then Inl FetchAborted
      else
        let v = \<lfloor>of_nat (totalMilliseconds opts) - (now - ft_started f)\<rfloor> in
        if ft_timedOut f \<or> v \<le> 0 then Inl FetchTimedOut else Inr (nat v))"

fun stop_error :: "stop_reason \<Rightarrow> fetch_error" where
  "stop_error StopAborted = FetchAborted"
| "stop_error StopTimeout = FetchTimedOut"

definition phase_settled :: "fetch \<Rightarrow> bool" where
  "phase_settled f \<longleftrightarrow>
     (case ft_phase f of
        Resolving \<Rightarrow> dn_result (ft_dns f) \<noteq> None
      | Connecting \<Rightarrow> cn_result (ft_connection f) \<noteq> None
      | Reading \<Rightarrow> (case ft_reader f of None \<Rightarrow> False | Some (_, r) \<Rightarrow> rd_result r \<noteq> None)
      | FetchFinished \<Rightarrow> True)"

text \<open>\<open>controller.abort()\<close>: the listeners of the connector and the reader run at once.\<close>

definition abort_connection :: "fetch_options \<Rightarrow> connection_options option \<Rightarrow> connection \<Rightarrow> connection" where
  "abort_connection opts target c =
     (case target of None \<Rightarrow> c | Some t \<Rightarrow> connection_step (fetch_proxy opts) t ConnectionAbort c)"

definition abort_reader :: "(reader_options \<times> reader) option \<Rightarrow> (reader_options \<times> reader) option" where
  "abort_reader reading = map_option (\<lambda>(o', r). (o', reader_event_step o' ReadAbort r)) reading"

definition controller_abort :: "fetch_options \<Rightarrow> fetch \<Rightarrow> fetch" where
  "controller_abort opts f =
     f\<lparr>ft_controller := True, ft_connection := abort_connection opts (ft_target f) (ft_connection f),
       ft_reader := abort_reader (ft_reader f)\<rparr>"

definition fetch_stop :: "fetch_options \<Rightarrow> stop_reason \<Rightarrow> fetch \<Rightarrow> fetch" where
  "fetch_stop opts reason f =
     (if ft_controller f then f
      else controller_abort opts
        (f\<lparr>ft_timedOut := (ft_timedOut f \<or> reason = StopTimeout),
           ft_raced := (if phase_settled f then ft_raced f else Some reason)\<rparr>))"

text \<open>The \<^verbatim>\<open>finally\<close> block: the timer, the listener, the controller, and the socket.\<close>

definition fetch_finish :: "fetch_options \<Rightarrow> fetch_error + directory_response \<Rightarrow> fetch \<Rightarrow> fetch" where
  "fetch_finish opts outcome f =
     (let f' = controller_abort opts f in
      f'\<lparr>ft_phase := FetchFinished, ft_timer := False, ft_result := Some outcome,
         ft_connection := (ft_connection f')\<lparr>cn_outer := False, cn_inner := False\<rparr>\<rparr>)"

section \<open>Phases\<close>

definition fetch_target :: "fetch_options \<Rightarrow> jsstring \<Rightarrow> directory_address \<Rightarrow> nat \<Rightarrow> connection_options" where
  "fetch_target opts hostname a timeout =
     \<lparr>co_hostname = hostname, co_address = da_address a, co_family = da_family a, co_policy = fetch_policy opts,
      co_ca = fetch_ca opts, co_timeout = timeout\<rparr>"

definition fetch_reader_options :: "nat \<Rightarrow> reader_options" where
  "fetch_reader_options budget =
     \<lparr>ro_remaining = budget, ro_headers = 1000, ro_idle = 500, ro_headerLimit = 16384, ro_bodyLimit = 262144\<rparr>"

text \<open>The readings of the clock are numbered in every synchronous stretch.\<close>

definition begin_connection ::
    "url_parser \<Rightarrow> fetch_options \<Rightarrow> (nat \<Rightarrow> rat) \<Rightarrow> bool \<Rightarrow> directory_address list \<Rightarrow> fetch \<Rightarrow> fetch" where
  "begin_connection parse_url opts readings throws addresses f =
     (case (remaining_time opts (readings 0) f, addresses) of
        (Inl e, _) \<Rightarrow> fetch_finish opts (Inl e) f
      | (Inr _, []) \<Rightarrow> fetch_finish opts (Inl FetchBroken) f
      | (Inr _, a # _) \<Rightarrow>
          (case remaining_time opts (readings 1) f of
             Inl e \<Rightarrow> fetch_finish opts (Inl e) f
           | Inr n \<Rightarrow>
               let target = fetch_target opts (ft_hostname f) a (min 1000 n) in
               (case connect_directory parse_url (fetch_proxy opts) target (ft_controller f) throws of
                  Inl e \<Rightarrow> fetch_finish opts (Inl (FetchConnection e)) f
                | Inr c \<Rightarrow> f\<lparr>ft_phase := Connecting, ft_target := Some target, ft_connection := c\<rparr>)))"

definition begin_reading :: "url_parser \<Rightarrow> fetch_options \<Rightarrow> (nat \<Rightarrow> rat) \<Rightarrow> bool \<Rightarrow> bool \<Rightarrow> fetch \<Rightarrow> fetch" where
  "begin_reading parse_url opts readings throws usable f =
     (case remaining_time opts (readings 0) f of
        Inl e \<Rightarrow> fetch_finish opts (Inl e) f
      | Inr n \<Rightarrow>
          (case readDirectoryResponse parse_url (ft_hostname f) (fetch_reader_options n) usable (ft_controller f) throws (readings 1) of
             Inl e \<Rightarrow> fetch_finish opts (Inl (FetchReader e)) f
           | Inr r \<Rightarrow> f\<lparr>ft_phase := Reading, ft_reader := Some (fetch_reader_options n, r)\<rparr>))"

definition end_reading :: "fetch_options \<Rightarrow> (nat \<Rightarrow> rat) \<Rightarrow> directory_response \<Rightarrow> fetch \<Rightarrow> fetch" where
  "end_reading opts readings response f =
     (case remaining_time opts (readings 0) f of
        Inl e \<Rightarrow> fetch_finish opts (Inl e) f
      | Inr _ \<Rightarrow> fetch_finish opts (Inr response) f)"

text \<open>The code after an \<^verbatim>\<open>await\<close>: \<open>throws\<close> and \<open>usable\<close> tell how the platform takes the call that follows.\<close>

definition fetch_continue :: "url_parser \<Rightarrow> fetch_options \<Rightarrow> (nat \<Rightarrow> rat) \<Rightarrow> bool \<Rightarrow> bool \<Rightarrow> fetch \<Rightarrow> fetch" where
  "fetch_continue parse_url opts readings throws usable f =
     (case ft_raced f of
        Some reason \<Rightarrow> fetch_finish opts (Inl (stop_error reason)) f
      | None \<Rightarrow>
          (case ft_phase f of
             Resolving \<Rightarrow>
               (case dn_result (ft_dns f) of
                  None \<Rightarrow> f
                | Some (Inl e) \<Rightarrow> fetch_finish opts (Inl (FetchDns e)) f
                | Some (Inr addresses) \<Rightarrow> begin_connection parse_url opts readings throws addresses f)
           | Connecting \<Rightarrow>
               (case cn_result (ft_connection f) of
                  None \<Rightarrow> f
                | Some (Inl e) \<Rightarrow> fetch_finish opts (Inl (FetchConnection (DirectoryConnectionError e))) f
                | Some (Inr _) \<Rightarrow> begin_reading parse_url opts readings throws usable f)
           | Reading \<Rightarrow>
               (case ft_reader f of
                  None \<Rightarrow> f
                | Some (_, r) \<Rightarrow>
                    (case rd_result r of
                       None \<Rightarrow> f
                     | Some (Inl e) \<Rightarrow> fetch_finish opts (Inl (FetchReader (DirectoryResponseError e))) f
                     | Some (Inr response) \<Rightarrow> end_reading opts readings response f))
           | FetchFinished \<Rightarrow> f))"

fun fetch_step :: "url_parser \<Rightarrow> fetch_options \<Rightarrow> fetch_event \<Rightarrow> fetch \<Rightarrow> fetch" where
  "fetch_step parse_url opts e f =
     (if ft_phase f = FetchFinished then f
      else case e of
        FetchDnsEvent d \<Rightarrow>
          if ft_phase f = Resolving then f\<lparr>ft_dns := dns_event_step (fetch_query opts) d (ft_dns f)\<rparr> else f
      | FetchConnectionEvent c \<Rightarrow>
          (case ft_target f of
             None \<Rightarrow> f
           | Some t \<Rightarrow> f\<lparr>ft_connection := connection_step (fetch_proxy opts) t c (ft_connection f)\<rparr>)
      | FetchReaderEvent r \<Rightarrow> f\<lparr>ft_reader := map_option (\<lambda>(o', s). (o', reader_event_step o' r s)) (ft_reader f)\<rparr>
      | FetchTimer \<Rightarrow> fetch_stop opts StopTimeout f
      | FetchAbort \<Rightarrow> if fetch_signal opts = None then f else fetch_stop opts StopAborted (f\<lparr>ft_aborted := True\<rparr>)
      | FetchContinue readings throws usable \<Rightarrow> fetch_continue parse_url opts readings throws usable f)"

declare fetch_step.simps [simp del]

section \<open>The start\<close>

definition fetchDirectoryOnce ::
    "url_parser \<Rightarrow> fetch_options \<Rightarrow> jsstring \<Rightarrow> bool \<Rightarrow> rat \<Rightarrow> rat \<Rightarrow> fetch_error + fetch" where
  "fetchDirectoryOnce parse_url opts originInput aborted started now =
     (case canonicalAgentOrigin parse_url (Some originInput) origin_limit of
        Inl e \<Rightarrow> Inl (FetchMisconfigured e)
      | Inr origin \<Rightarrow>
          if \<not> origin_admitted opts origin then Inl OriginDenied
          else case parse_url origin of
            None \<Rightarrow> Inl FetchBroken
          | Some u \<Rightarrow>
              if aborted \<and> fetch_signal opts \<noteq> None then Inl FetchAborted
              else
                let f = \<lparr>ft_hostname = url_hostname u, ft_started = started, ft_phase = Resolving, ft_aborted = False,
                      ft_timedOut = False, ft_controller = False, ft_timer = True, ft_raced = None, ft_dns = new_dns,
                      ft_target = None, ft_connection = idle_connection, ft_reader = None, ft_result = None\<rparr> in
                (case remaining_time opts now f of
                   Inl e \<Rightarrow> Inl e
                 | Inr n \<Rightarrow>
                     (case resolveDirectoryAddresses (url_hostname u) (JsInt (int (min 1000 n))) (JsInt 16) of
                        Inl e \<Rightarrow> Inl (FetchDns e)
                      | Inr d \<Rightarrow> Inr (f\<lparr>ft_dns := d\<rparr>))))"

definition run_fetch :: "url_parser \<Rightarrow> fetch_options \<Rightarrow> fetch_event list \<Rightarrow> fetch \<Rightarrow> fetch" where
  "run_fetch parse_url opts events f = fold (fetch_step parse_url opts) events f"

text \<open>What the worker of the transport sees of the outcome: it looks for the two errors that deny an address.\<close>

fun fetch_outcome_of :: "fetch_error + directory_response \<Rightarrow> fetch_outcome" where
  "fetch_outcome_of (Inr response) = FetchedResponse response"
| "fetch_outcome_of (Inl (FetchDns (DirectoryDnsError DnsAddressDenied))) = AddressError"
| "fetch_outcome_of (Inl (FetchConnection (DirectoryConnectionError ConnectionDenied))) = AddressError"
| "fetch_outcome_of (Inl _) = OtherError"

end
