(* ===== verification/DirFetchSafety.thy ===== *)
theory DirFetchSafety
  imports DirFetch
begin

text \<open>
  What a fetch promises whatever its resolver, its peers and its timers do: it contacts only allowed addresses,
  gives back only what an authenticated peer sent within the limits, and leaves nothing open when it ends.
\<close>

section \<open>The invariant\<close>

text \<open>\<open>target_sound\<close>: the connection belongs to an admitted address; \<open>reading_sound\<close>: the reader works within its limits on a
  usable connection; \<open>ended\<close>: nothing is left.\<close>

definition target_sound :: "fetch_options \<Rightarrow> fetch \<Rightarrow> bool" where
  "target_sound opts f \<longleftrightarrow>
     (case ft_target f of
        None \<Rightarrow> ft_connection f = idle_connection
      | Some t \<Rightarrow> co_hostname t = ft_hostname f \<and> co_policy t = fetch_policy opts \<and> co_ca t = fetch_ca opts \<and>
          dialable (fetch_policy opts) \<lparr>da_address = co_address t, da_family = co_family t\<rparr> \<and>
          connection_sound (fetch_proxy opts) t (ft_connection f))"

definition dns_sound :: "fetch_options \<Rightarrow> dns_state \<Rightarrow> bool" where
  "dns_sound opts d \<longleftrightarrow>
     (\<forall>rs. dn_result d = Some (Inr rs) \<longrightarrow> list_all (dialable (dq_policy (fetch_query opts))) rs \<and> rs \<noteq> [])"

definition reading_sound :: "fetch \<Rightarrow> bool" where
  "reading_sound f \<longleftrightarrow>
     (\<forall>o' r. ft_reader f = Some (o', r) \<longrightarrow> reader_sound o' r \<and> ro_bodyLimit o' = 262144 \<and> cn_result (ft_connection f) = Some (Inr ())) \<and>
     (ft_phase f = Reading \<longrightarrow> ft_reader f \<noteq> None) \<and> (ft_phase f \<in> {Resolving, Connecting} \<longrightarrow> ft_reader f = None) \<and>
     (ft_phase f = Resolving \<longrightarrow> ft_target f = None) \<and> (ft_phase f \<in> {Connecting, Reading} \<longrightarrow> ft_target f \<noteq> None)"

definition response_sound :: "fetch \<Rightarrow> bool" where
  "response_sound f \<longleftrightarrow>
     (\<forall>response. ft_result f = Some (Inr response) \<longrightarrow> cn_result (ft_connection f) = Some (Inr ()) \<and>
        (\<exists>o'. ro_bodyLimit o' = 262144 \<and> response_accepted o' response))"

definition ended :: "fetch \<Rightarrow> bool" where
  "ended f \<longleftrightarrow>
     ft_result f \<noteq> None \<and> \<not> ft_timer f \<and> \<not> cn_outer (ft_connection f) \<and> \<not> cn_inner (ft_connection f) \<and> \<not> cn_timer (ft_connection f) \<and>
     (\<forall>o' r. ft_reader f = Some (o', r) \<longrightarrow> \<not> rd_socket r \<and> \<not> rd_deadline r \<and> \<not> rd_headerTimer r \<and> \<not> rd_idleTimer r)"

definition stop_noted :: "fetch \<Rightarrow> bool" where
  "stop_noted f \<longleftrightarrow>
     (ft_controller f \<longrightarrow> ft_phase f = FetchFinished \<or> (ft_aborted f \<or> ft_timedOut f) \<and> (ft_raced f \<noteq> None \<or> phase_settled f))"

definition fetch_inv :: "fetch_options \<Rightarrow> fetch \<Rightarrow> bool" where
  "fetch_inv opts f \<longleftrightarrow> target_sound opts f \<and> dns_sound opts (ft_dns f) \<and> reading_sound f \<and> response_sound f \<and>
     (ft_phase f = FetchFinished \<longrightarrow> ended f) \<and> (ft_phase f \<noteq> FetchFinished \<longrightarrow> ft_result f = None) \<and> stop_noted f"

lemma target_sound_cong:
  "ft_target g = ft_target f \<Longrightarrow> ft_hostname g = ft_hostname f \<Longrightarrow> ft_connection g = ft_connection f \<Longrightarrow>
     target_sound opts g = target_sound opts f"
  by (simp add: target_sound_def split: option.splits)

lemmas fetch_invs = target_sound_def dns_sound_def reading_sound_def response_sound_def stop_noted_def

section \<open>Results stay\<close>

lemma fail_connection_keeps: "cn_result c \<noteq> None \<Longrightarrow> fail_connection r c = c"
  by (simp add: fail_connection_def)

lemma connection_result_stays: "cn_result c \<noteq> None \<Longrightarrow> cn_result (connection_step proxy t e c) = cn_result c"
  by (cases e) (auto simp: connection_step_def fail_connection_keeps)

lemma fail_reader_keeps: "rd_result r \<noteq> None \<Longrightarrow> fail_reader reason r = r"
  by (simp add: fail_reader_def)

lemma reader_result_stays: "rd_result r \<noteq> None \<Longrightarrow> reader_event_step o' e r = r"
  by (cases e) (auto simp: fail_reader_keeps split: option.splits)

lemma dns_result_stays: "dn_result d \<noteq> None \<Longrightarrow> dns_event_step q e d = d"
  by (cases e) auto

text \<open>An abort settles a connection and a reader.\<close>

lemma aborted_connection [simp]:
  "cn_result (connection_step proxy t ConnectionAbort c) =
     (case cn_result c of None \<Rightarrow> Some (Inl ConnectionAborted) | Some r \<Rightarrow> Some r)"
  by (auto simp: connection_step_def fail_connection_def split: option.splits)

lemma aborted_reader [simp]:
  "rd_result (reader_event_step o' ReadAbort r) =
     (case rd_result r of None \<Rightarrow> Some (Inl ResponseAborted) | Some r \<Rightarrow> Some r)"
  by (auto simp: fail_reader_def split: option.splits)

section \<open>Steps keep the invariant\<close>

lemma abort_fields [simp]:
  "ft_hostname (controller_abort opts f) = ft_hostname f" "ft_phase (controller_abort opts f) = ft_phase f"
  "ft_dns (controller_abort opts f) = ft_dns f" "ft_target (controller_abort opts f) = ft_target f"
  "ft_result (controller_abort opts f) = ft_result f" "ft_raced (controller_abort opts f) = ft_raced f"
  "ft_aborted (controller_abort opts f) = ft_aborted f" "ft_timedOut (controller_abort opts f) = ft_timedOut f"
  "ft_connection (controller_abort opts f) = abort_connection opts (ft_target f) (ft_connection f)"
  "ft_reader (controller_abort opts f) = abort_reader (ft_reader f)" "ft_controller (controller_abort opts f)"
  by (simp_all add: controller_abort_def)

lemma abort_connection_keeps:
  "cn_result c = Some r \<Longrightarrow> cn_result (abort_connection opts target c) = Some r"
  by (simp add: abort_connection_def split: option.splits)

lemma abort_target_sound:
  "target_sound opts f \<Longrightarrow> target_sound opts (controller_abort opts f)"
  by (auto simp: target_sound_def abort_connection_def connection_step_sound split: option.splits)

lemma abort_reading_sound:
  "reading_sound f \<Longrightarrow> reading_sound (controller_abort opts f)"
  by (auto simp: reading_sound_def abort_reader_def abort_connection_keeps reader_step_sound simp del: reader_event_step.simps)

lemma abort_response_sound: "response_sound f \<Longrightarrow> response_sound (controller_abort opts f)"
  by (auto simp: response_sound_def abort_connection_keeps)

lemma closed_sound:
  "connection_sound proxy t c \<Longrightarrow> connection_sound proxy t (c\<lparr>cn_outer := False, cn_inner := False\<rparr>)"
  by (auto simp: connection_sound_def)

lemma finish_inv:
  assumes "fetch_inv opts f" "ft_phase f \<noteq> FetchFinished"
    and "\<And>response. outcome = Inr response \<Longrightarrow> cn_result (ft_connection f) = Some (Inr ()) \<and>
      (\<exists>o'. ro_bodyLimit o' = 262144 \<and> response_accepted o' response)"
  shows "fetch_inv opts (fetch_finish opts outcome f)"
proof -
  have a: "target_sound opts (controller_abort opts f)" "reading_sound (controller_abort opts f)"
    using assms(1) abort_target_sound abort_reading_sound by (auto simp: fetch_inv_def)
  have t: "target_sound opts (fetch_finish opts outcome f)"
    using a(1) closed_sound by (auto simp: target_sound_def fetch_finish_def Let_def idle_connection_def split: option.splits)
  have r: "reading_sound (fetch_finish opts outcome f)"
    using a(2) by (auto simp: reading_sound_def fetch_finish_def Let_def)
  have timer: "\<not> cn_timer (abort_connection opts (ft_target f) (ft_connection f))"
  proof (cases "ft_target f")
    case None
    with assms(1) show ?thesis by (simp add: fetch_inv_def target_sound_def abort_connection_def idle_connection_def)
  next
    case (Some target)
    let ?c = "connection_step (fetch_proxy opts) target ConnectionAbort (ft_connection f)"
    have "connection_sound (fetch_proxy opts) target ?c"
      using assms(1) Some by (intro connection_step_sound) (simp add: fetch_inv_def target_sound_def)
    moreover have "cn_result ?c \<noteq> None" by (simp split: option.splits)
    ultimately show ?thesis using Some by (simp add: connection_sound_def abort_connection_def)
  qed
  have reader: "\<not> rd_socket r' \<and> \<not> rd_deadline r' \<and> \<not> rd_headerTimer r' \<and> \<not> rd_idleTimer r'"
    if "abort_reader (ft_reader f) = Some (o', r')" for o' r'
  proof -
    from that obtain r0 where r0: "ft_reader f = Some (o', r0)" "r' = reader_event_step o' ReadAbort r0"
      by (auto simp: abort_reader_def)
    then have "reader_sound o' r'" using assms(1) reader_step_sound by (auto simp: fetch_inv_def reading_sound_def)
    moreover have "rd_result r' \<noteq> None" using aborted_reader [of o' r0] r0(2) by (simp split: option.splits)
    ultimately show ?thesis by (simp add: reader_sound_def)
  qed
  have "ended (fetch_finish opts outcome f)"
    using timer reader by (simp add: ended_def fetch_finish_def Let_def)
  moreover have "response_sound (fetch_finish opts outcome f)"
    using assms(3) by (auto simp: response_sound_def fetch_finish_def Let_def abort_connection_keeps)
  ultimately show ?thesis
    using t r assms(1) by (simp add: fetch_inv_def stop_noted_def fetch_finish_def Let_def)
qed

lemma finish_error_inv:
  "fetch_inv opts f \<Longrightarrow> ft_phase f \<noteq> FetchFinished \<Longrightarrow> fetch_inv opts (fetch_finish opts (Inl e) f)"
  by (rule finish_inv) simp_all

lemma stop_inv:
  assumes "fetch_inv opts f" "ft_phase f \<noteq> FetchFinished" "reason = StopTimeout \<or> ft_aborted f"
  shows "fetch_inv opts (fetch_stop opts reason f)"
proof (cases "ft_controller f")
  case False
  let ?g = "f\<lparr>ft_timedOut := (ft_timedOut f \<or> reason = StopTimeout),
           ft_raced := (if phase_settled f then ft_raced f else Some reason)\<rparr>"
  have "target_sound opts ?g = target_sound opts f" by (rule target_sound_cong) simp_all
  then have g: "fetch_inv opts ?g"
    using assms False by (auto simp: fetch_inv_def reading_sound_def response_sound_def stop_noted_def)
  have settled: "phase_settled f \<Longrightarrow> phase_settled (controller_abort opts ?g)"
    by (auto simp: phase_settled_def abort_reader_def abort_connection_keeps fail_reader_keeps split: fetch_phase.splits option.splits)
  have "target_sound opts (controller_abort opts ?g)" "reading_sound (controller_abort opts ?g)" "response_sound (controller_abort opts ?g)"
    using g abort_target_sound abort_reading_sound abort_response_sound by (auto simp: fetch_inv_def)
  with False settled g assms(2,3) show ?thesis by (auto simp: fetch_inv_def fetch_stop_def stop_noted_def)
qed (use assms in \<open>simp add: fetch_stop_def\<close>)

lemma connection_event_inv:
  assumes "fetch_inv opts f" "ft_phase f \<noteq> FetchFinished" "ft_target f = Some t"
  shows "fetch_inv opts (f\<lparr>ft_connection := connection_step (fetch_proxy opts) t e (ft_connection f)\<rparr>)"
proof -
  let ?c = "connection_step (fetch_proxy opts) t e (ft_connection f)"
  have stays: "cn_result (ft_connection f) = Some r \<Longrightarrow> cn_result ?c = Some r" for r
    using connection_result_stays [of "ft_connection f"] by simp
  have "target_sound opts (f\<lparr>ft_connection := ?c\<rparr>)"
    using assms connection_step_sound by (simp add: fetch_inv_def target_sound_def)
  moreover have "phase_settled f \<Longrightarrow> phase_settled (f\<lparr>ft_connection := ?c\<rparr>)"
    using stays by (auto simp: phase_settled_def split: fetch_phase.splits)
  ultimately show ?thesis using assms stays by (auto simp: fetch_inv_def reading_sound_def response_sound_def stop_noted_def)
qed

lemma reader_event_inv:
  assumes "fetch_inv opts f" "ft_phase f \<noteq> FetchFinished"
  shows "fetch_inv opts (f\<lparr>ft_reader := map_option (\<lambda>(o', s). (o', reader_event_step o' e s)) (ft_reader f)\<rparr>)"
proof -
  let ?g = "f\<lparr>ft_reader := map_option (\<lambda>(o', s). (o', reader_event_step o' e s)) (ft_reader f)\<rparr>"
  have "reading_sound ?g"
    using assms reader_step_sound by (auto simp: fetch_inv_def reading_sound_def simp del: reader_event_step.simps)
  moreover have "phase_settled f \<Longrightarrow> phase_settled ?g"
    using reader_result_stays by (auto simp: phase_settled_def simp del: reader_event_step.simps split: fetch_phase.splits option.splits)
  moreover have "target_sound opts ?g" using assms by (simp add: fetch_inv_def target_sound_def split: option.splits)
  ultimately show ?thesis using assms by (auto simp: fetch_inv_def response_sound_def stop_noted_def)
qed

lemma dns_event_inv:
  assumes "fetch_inv opts f" "ft_phase f = Resolving"
  shows "fetch_inv opts (f\<lparr>ft_dns := dns_event_step (fetch_query opts) e (ft_dns f)\<rparr>)"
proof -
  let ?g = "f\<lparr>ft_dns := dns_event_step (fetch_query opts) e (ft_dns f)\<rparr>"
  have "dns_sound opts (dns_event_step (fetch_query opts) e (ft_dns f))"
    using assms(1) unfolding fetch_inv_def dns_sound_def by (intro dns_step_dialable) blast
  moreover have "phase_settled f \<Longrightarrow> phase_settled ?g"
    using assms(2) dns_result_stays [of "ft_dns f"] by (auto simp: phase_settled_def)
  moreover have "target_sound opts ?g" using assms by (simp add: fetch_inv_def target_sound_def split: option.splits)
  ultimately show ?thesis using assms by (auto simp: fetch_inv_def response_sound_def reading_sound_def stop_noted_def)
qed

lemma begin_connection_inv:
  assumes "fetch_inv opts f" "ft_phase f = Resolving" "dn_result (ft_dns f) = Some (Inr addresses)"
  shows "fetch_inv opts (begin_connection parse_url opts readings throws addresses f)"
proof (cases "remaining_time opts (readings 1) f")
  case (Inr n)
  have running: "\<not> ft_controller f"
    using Inr assms(1,2) by (auto simp: fetch_inv_def stop_noted_def remaining_time_def Let_def split: if_splits)
  from assms(1,3) obtain a as where a: "addresses = a # as" "dialable (fetch_policy opts) a"
    by (cases addresses) (auto simp: fetch_inv_def dns_sound_def fetch_query_def)
  let ?t = "fetch_target opts (ft_hostname f) a (min 1000 n)"
  show ?thesis
  proof (cases "connect_directory parse_url (fetch_proxy opts) ?t (ft_controller f) throws")
    case (Inl e)
    with assms Inr a(1) show ?thesis by (simp add: begin_connection_def finish_error_inv split: sum.split)
  next
    case c: (Inr c)
    let ?g = "f\<lparr>ft_phase := Connecting, ft_target := Some ?t, ft_connection := c\<rparr>"
    have "target_sound opts ?g"
      using connect_sound [OF c] a(2) by (cases a) (simp add: target_sound_def fetch_target_def)
    moreover have "response_sound ?g" using assms(1,2) by (simp add: fetch_inv_def response_sound_def)
    ultimately have "fetch_inv opts ?g" using assms running
      by (simp add: fetch_inv_def reading_sound_def stop_noted_def)
    then show ?thesis using assms(1,2) Inr a(1) c
      by (simp add: begin_connection_def finish_error_inv split: sum.split)
  qed
qed (use assms in \<open>simp add: begin_connection_def finish_error_inv split: sum.split list.split\<close>)

lemma begin_reading_inv:
  assumes "fetch_inv opts f" "ft_phase f = Connecting" "cn_result (ft_connection f) = Some (Inr ())"
  shows "fetch_inv opts (begin_reading parse_url opts readings throws usable f)"
proof (cases "remaining_time opts (readings 0) f")
  case (Inr n)
  have running: "\<not> ft_controller f"
    using Inr assms(1,2) by (auto simp: fetch_inv_def stop_noted_def remaining_time_def Let_def split: if_splits)
  show ?thesis
  proof (cases "readDirectoryResponse parse_url (ft_hostname f) (fetch_reader_options n) usable (ft_controller f) throws (readings 1)")
    case (Inl e)
    with assms Inr show ?thesis by (simp add: begin_reading_def finish_error_inv)
  next
    case r: (Inr r)
    let ?g = "f\<lparr>ft_phase := Reading, ft_reader := Some (fetch_reader_options n, r)\<rparr>"
    have "reading_sound ?g"
      using new_reader_sound [OF r] assms by (simp add: reading_sound_def fetch_reader_options_def fetch_inv_def)
    moreover have "target_sound opts ?g" using assms(1) by (simp add: fetch_inv_def target_sound_def split: option.splits)
    ultimately show ?thesis using assms Inr r running
      by (simp add: begin_reading_def fetch_inv_def response_sound_def stop_noted_def)
  qed
qed (use assms in \<open>simp add: begin_reading_def finish_error_inv\<close>)

lemma continue_inv:
  assumes "fetch_inv opts f" "ft_phase f \<noteq> FetchFinished"
  shows "fetch_inv opts (fetch_continue parse_url opts readings throws usable f)"
proof -
  note fin = finish_inv [OF assms]
  note err = finish_error_inv [OF assms]
  have reading: "fetch_inv opts (end_reading opts readings response f)"
    if "ft_reader f = Some (o', r)" "rd_result r = Some (Inr response)" for o' r response
  proof -
    have "reader_sound o' r" "ro_bodyLimit o' = 262144" "cn_result (ft_connection f) = Some (Inr ())"
      using assms(1) that(1) by (auto simp: fetch_inv_def reading_sound_def)
    with that(2) show ?thesis by (auto simp: end_reading_def reader_sound_def intro!: fin split: sum.splits)
  qed
  show ?thesis
  proof (cases "ft_raced f")
    case None
    show ?thesis
    proof (cases "ft_phase f")
      case Resolving
      with None assms(1) show ?thesis
        by (auto simp: fetch_continue_def err begin_connection_inv split: option.splits sum.splits)
    next
      case Connecting
      with None assms(1) show ?thesis
        by (auto simp: fetch_continue_def err begin_reading_inv split: option.splits sum.splits)
    next
      case Reading
      with None assms(1) reading show ?thesis
        by (auto simp: fetch_continue_def err split: option.splits sum.splits)
    qed (use assms in simp)
  qed (simp add: fetch_continue_def err)
qed

lemma fetch_step_inv:
  assumes "fetch_inv opts f"
  shows "fetch_inv opts (fetch_step parse_url opts e f)"
proof (cases "ft_phase f = FetchFinished")
  case False
  have "target_sound opts (f\<lparr>ft_aborted := True\<rparr>) = target_sound opts f"
      "phase_settled (f\<lparr>ft_aborted := True\<rparr>) = phase_settled f"
    by (simp_all add: target_sound_def phase_settled_def split: option.splits fetch_phase.splits)
  then have aborted: "fetch_inv opts (f\<lparr>ft_aborted := True\<rparr>)"
    using assms False by (auto simp: fetch_inv_def reading_sound_def response_sound_def stop_noted_def)
  show ?thesis
  proof (cases e)
    case FetchAbort
    with aborted False show ?thesis using stop_inv [OF aborted] assms by (simp add: fetch_step.simps)
  qed (use assms False dns_event_inv connection_event_inv reader_event_inv stop_inv continue_inv in
        \<open>auto simp: fetch_step.simps split: option.splits\<close>)
qed (use assms in \<open>simp add: fetch_step.simps\<close>)

lemma fetch_start:
  assumes "fetchDirectoryOnce parse_url opts input aborted started now = Inr f"
  obtains origin u where "canonicalAgentOrigin parse_url (Some input) origin_limit = Inr origin"
    "origin_admitted opts origin" "parse_url origin = Some u" "ft_hostname f = url_hostname u"
    "ft_phase f = Resolving" "ft_started f = started" "fetch_inv opts f" "ft_target f = None" "ft_connection f = idle_connection"
proof -
  from assms obtain origin u d where s: "canonicalAgentOrigin parse_url (Some input) origin_limit = Inr origin"
      "origin_admitted opts origin" "parse_url origin = Some u"
      "f = \<lparr>ft_hostname = url_hostname u, ft_started = started, ft_phase = Resolving, ft_aborted = False,
            ft_timedOut = False, ft_controller = False, ft_timer = True, ft_raced = None, ft_dns = d,
            ft_target = None, ft_connection = idle_connection, ft_reader = None, ft_result = None\<rparr>" "d = new_dns"
    by (auto simp: fetchDirectoryOnce_def Let_def resolveDirectoryAddresses_def bindE_eq_Inr split: sum.splits if_splits option.splits)
  then have "fetch_inv opts f" by (simp add: fetch_inv_def fetch_invs new_dns_def)
  with s that show thesis by simp
qed

lemma run_fetch_inv: "fetch_inv opts f \<Longrightarrow> fetch_inv opts (run_fetch parse_url opts events f)"
  by (induction events arbitrary: f) (simp_all add: run_fetch_def fetch_step_inv)

section \<open>The history of the connection\<close>

lemma finish_fields [simp]:
  "ft_phase (fetch_finish opts outcome f) = FetchFinished" "ft_target (fetch_finish opts outcome f) = ft_target f"
  "ft_hostname (fetch_finish opts outcome f) = ft_hostname f"
  "cn_calls (ft_connection (fetch_finish opts outcome f)) = cn_calls (abort_connection opts (ft_target f) (ft_connection f))"
  "cn_result (ft_connection (fetch_finish opts outcome f)) = cn_result (abort_connection opts (ft_target f) (ft_connection f))"
  by (simp_all add: fetch_finish_def Let_def)

lemma stop_fields [simp]:
  "ft_target (fetch_stop opts reason f) = ft_target f" "ft_hostname (fetch_stop opts reason f) = ft_hostname f"
  "ft_phase (fetch_stop opts reason f) = ft_phase f"
  by (simp_all add: fetch_stop_def)

lemma step_hostname [simp]: "ft_hostname (fetch_step parse_url opts e f) = ft_hostname f"
  by (cases e) (auto simp: fetch_step.simps fetch_continue_def begin_connection_def begin_reading_def end_reading_def Let_def
      split: option.splits sum.splits fetch_phase.splits list.splits)

lemma run_hostname [simp]: "ft_hostname (run_fetch parse_url opts events f) = ft_hostname f"
  by (induction events arbitrary: f) (simp_all add: run_fetch_def)










section \<open>The response\<close>

text \<open>The bytes of the data events, in their order.\<close>

fun chunk_of :: "fetch_event \<Rightarrow> u8 list" where
  "chunk_of (FetchReaderEvent (ResponseData chunk)) = chunk"
| "chunk_of _ = []"

definition data_of :: "fetch_event list \<Rightarrow> u8 list" where
  "data_of events = concat (map chunk_of events)"

lemma data_of_simps [simp]: "data_of [] = []" "data_of (events @ [e]) = data_of events @ chunk_of e"
  by (simp_all add: data_of_def)









lemma fail_reader_fields [simp]:
  "rd_head (fail_reader reason r) = rd_head r" "rd_body (fail_reader reason r) = rd_body r" "rd_answered (fail_reader reason r) = rd_answered r"
  "rd_result (fail_reader reason r) \<noteq> None" "rd_result (fail_reader reason r) = Some (Inr response) \<longleftrightarrow> rd_result r = Some (Inr response)"
  by (auto simp: fail_reader_def)













section \<open>The end\<close>

lemma finish_ended: "fetch_inv opts f \<Longrightarrow> ft_phase f = FetchFinished \<Longrightarrow> ended f"
  by (simp add: fetch_inv_def)

lemma stopped_continue:
  assumes "fetch_inv opts f" "ft_controller f" "ft_phase f \<noteq> FetchFinished"
  shows "ft_phase (fetch_continue parse_url opts readings throws usable f) = FetchFinished"
proof -
  have late: "\<exists>e. remaining_time opts (readings 0) f = Inl e"
    using assms by (auto simp: fetch_inv_def stop_noted_def remaining_time_def Let_def)
  show ?thesis
  proof (cases "ft_raced f")
    case None
    with assms have "phase_settled f" by (auto simp: fetch_inv_def stop_noted_def)
    with None late assms(3) show ?thesis
      by (auto simp: fetch_continue_def phase_settled_def begin_connection_def begin_reading_def end_reading_def
          split: fetch_phase.splits option.splits sum.splits)
  qed (simp add: fetch_continue_def)
qed

lemma stop_controller: "ft_controller (fetch_stop opts reason f)"
  by (simp add: fetch_stop_def)

section \<open>Properties\<close>



text \<open>A fetch ends: once its timer has run and the awaited code has continued, there is an outcome, and no timer,
  connection or reader of the fetch is left open, wherever it was.\<close>

theorem fetch_ends:
  assumes "fetchDirectoryOnce parse_url opts input aborted started now = Inr f"
  shows "ended (run_fetch parse_url opts (events @ [FetchTimer, FetchContinue later throws usable]) f)"
proof -
  let ?g = "run_fetch parse_url opts events f"
  have inv: "fetch_inv opts ?g" using assms by (rule fetch_start) (rule run_fetch_inv)
  let ?h = "fetch_step parse_url opts FetchTimer ?g"
  have "fetch_inv opts ?h" by (rule fetch_step_inv [OF inv])
  moreover have "ft_phase (fetch_step parse_url opts (FetchContinue later throws usable) ?h) = FetchFinished"
  proof (cases "ft_phase ?g = FetchFinished")
    case False
    then have "?h = fetch_stop opts StopTimeout ?g" by (simp add: fetch_step.simps)
    with False \<open>fetch_inv opts ?h\<close> show ?thesis
      using stopped_continue [OF \<open>fetch_inv opts ?h\<close>] stop_controller by (simp add: fetch_step.simps)
  qed (simp add: fetch_step.simps)
  ultimately have "ended (fetch_step parse_url opts (FetchContinue later throws usable) ?h)"
    using fetch_step_inv finish_ended by blast
  then show ?thesis by (simp add: run_fetch_def)
qed

end
