(* ===== verification/DirFetchSample.thy ===== *)
theory DirFetchSample
  imports DirFetchSafety DirAddressSafety DiscoverySample
begin

text \<open>
  One complete fetch of the directory of \<^verbatim>\<open>https://a.b\<close>: the resolver gives one address, the peer is that
  address and is authorized for the host, and the response is an empty body of the right media type.
\<close>

section \<open>The inputs\<close>









section \<open>The run\<close>

definition sample_state ::
    "fetch_phase \<Rightarrow> dns_state \<Rightarrow> connection_options option \<Rightarrow> connection \<Rightarrow> (reader_options \<times> reader) option \<Rightarrow> fetch" where
  "sample_state phase d target c r = \<lparr>ft_hostname = lit ''a.b'', ft_started = 0, ft_phase = phase, ft_aborted = False,
     ft_timedOut = False, ft_controller = False, ft_timer = True, ft_raced = None, ft_dns = d, ft_target = target,
     ft_connection = c, ft_reader = r, ft_result = None\<rparr>"

lemma sample_state_fields [simp]:
  "ft_hostname (sample_state phase d target c r) = lit ''a.b''" "ft_phase (sample_state phase d target c r) = phase"
  "ft_dns (sample_state phase d target c r) = d" "ft_target (sample_state phase d target c r) = target"
  "ft_connection (sample_state phase d target c r) = c" "ft_reader (sample_state phase d target c r) = r"
  "ft_raced (sample_state phase d target c r) = None" "\<not> ft_controller (sample_state phase d target c r)"
  "sample_state phase d target c r\<lparr>ft_dns := d'\<rparr> = sample_state phase d' target c r"
  "sample_state phase d target c r\<lparr>ft_connection := c'\<rparr> = sample_state phase d target c' r"
  "sample_state phase d target c r\<lparr>ft_reader := r'\<rparr> = sample_state phase d target c r'"
  "sample_state phase d target c r\<lparr>ft_phase := phase', ft_target := target', ft_connection := c'\<rparr> = sample_state phase' d target' c' r"
  "sample_state phase d target c r\<lparr>ft_phase := phase', ft_reader := r'\<rparr> = sample_state phase' d target c r'"
  by (simp_all add: sample_state_def)

lemma sample_network_fields [simp]: "fetch_policy sample_network = []" "fetch_proxy sample_network = None" "fetch_ca sample_network = None"
  "fetch_query sample_network = \<lparr>dq_maximum = JsInt 16, dq_policy = []\<rparr>" "origin_admitted sample_network sample_origin"
  by (simp_all add: sample_network_def fetch_query_def origin_admitted_def)




















end
