(* ===== verification/HttpAuthority.thy ===== *)
theory HttpAuthority
  imports DirAddress ProfileAgent CoreInput
begin

text \<open>
  The codes of a rejected mapping, \<^verbatim>\<open>http/errors.ts\<close>, and authorities, \<^verbatim>\<open>http/authority.ts\<close>. The
  \<open>URL\<close> parser of the platform is a parameter. Zone identifiers, which \<open>isIP\<close> of the platform
  accepts, contain a percent sign; every caller here rejects it before or right after the call.
\<close>

section \<open>Errors\<close>

datatype http_code =
    CaptureMissing | CaptureIncomplete | Http2Unsupported | RequestUnsupported | RequestMalformed | HeadersMalformed
  | HostMissing | HostAmbiguous | IngressPeerUntrusted | IngressHttpsRequired | ForwardingMissing | ForwardingMalformed
  | ForwardingChainRejected | ForwardingFamiliesMixed | ForwardingPortInconsistent | OriginDisallowed | MappingResourceLimit

text \<open>What the functions of this part throw: a mapping error, the \<open>TypeError\<close> of a configuration,
  the fixed error of the integration, or an exception of the platform.\<close>

datatype http_error = MappingError http_code | InvalidHttpConfiguration | IntegrationError | PlatformError

definition rejectMapping :: "http_code \<Rightarrow> http_error + 'a" where
  "rejectMapping c = Inl (MappingError c)"

lemma rejectMapping_simps [simp]: "rejectMapping c \<noteq> Inr x" "rejectMapping c = Inl e \<longleftrightarrow> e = MappingError c"
  by (auto simp: rejectMapping_def)

section \<open>Authorities\<close>

record http_authority =
  au_original :: jsstring
  au_host :: jsstring
  au_port :: "nat option"

datatype http_scheme = Http | Https

fun scheme_text :: "http_scheme \<Rightarrow> jsstring" where
  "scheme_text Http = lit ''http''"
| "scheme_text Https = lit ''https''"

text \<open>The end of both patterns, \<^verbatim>\<open>(?::([0-9]+))?$\<close>: \<open>None\<close> is no match.\<close>

definition port_suffix :: "jsstring \<Rightarrow> jsstring option option" where
  "port_suffix s =
     (if s = [] then Some None
      else if hd s = 58 \<and> tl s \<noteq> [] \<and> list_all digit (tl s) then Some (Some (tl s)) else None)"

definition port_value :: "jsstring option \<Rightarrow> http_error + nat option" where
  "port_value t =
     (case t of
        None \<Rightarrow> Inr None
      | Some ds \<Rightarrow>
          if 5 < length ds then rejectMapping RequestMalformed
          else if read_digits 0 ds < 1 \<or> 65535 < read_digits 0 ds then rejectMapping RequestMalformed
          else Inr (Some (read_digits 0 ds)))"

definition address_char :: "nat \<Rightarrow> bool" where
  "address_char c \<longleftrightarrow> hex_char c \<or> c = 58 \<or> c = 46"

definition https_url :: "jsstring \<Rightarrow> jsstring" where
  "https_url host = lit ''https://'' @ host @ [47]"

text \<open>A bracketed IPv6 address: its canonical host, and the text of the port.\<close>

definition bracket_authority :: "url_parser \<Rightarrow> jsstring \<Rightarrow> http_error + (jsstring \<times> jsstring option)" where
  "bracket_authority parse_url value =
     (let inner = takeWhile address_char (tl value); rest = dropWhile address_char (tl value) in
      if inner = [] \<or> rest = [] \<or> hd rest \<noteq> 93 \<or> port_suffix (tl rest) = None \<or> isIP inner \<noteq> Some IPv6
      then rejectMapping RequestMalformed
      else case parse_url (https_url ([91] @ inner @ [93])) of
        None \<Rightarrow> rejectMapping RequestMalformed
      | Some u \<Rightarrow> Inr (url_hostname u, the (port_suffix (tl rest))))"

definition host_char :: "nat \<Rightarrow> bool" where
  "host_char c \<longleftrightarrow> alpha c \<or> digit c \<or> c = 46 \<or> c = 95 \<or> c = 45"

definition named_authority :: "url_parser \<Rightarrow> jsstring \<Rightarrow> http_error + (jsstring \<times> jsstring option)" where
  "named_authority parse_url value =
     (let host = takeWhile (\<lambda>c. c \<notin> {58, 91, 93}) value; rest = dropWhile (\<lambda>c. c \<notin> {58, 91, 93}) value in
      if host = [] \<or> port_suffix rest = None \<or> \<not> list_all host_char host then rejectMapping RequestMalformed
      else case parse_url (https_url host) of
        None \<Rightarrow> rejectMapping RequestMalformed
      | Some u \<Rightarrow>
          if url_hostname u \<noteq> lowercase host \<or> url_username u \<noteq> [] \<or> url_password u \<noteq> [] \<or>
            url_pathname u \<noteq> [47] \<or> url_search u \<noteq> [] \<or> url_hash u \<noteq> [] \<or>
            isIP (url_hostname u) = Some IPv4 \<and> isIP host \<noteq> Some IPv4
          then rejectMapping RequestMalformed
          else Inr (lowercase host, the (port_suffix rest)))"

definition parseHttpAuthority :: "url_parser \<Rightarrow> jsstring \<Rightarrow> http_error + http_authority" where
  "parseHttpAuthority parse_url value =
     (if value = [] \<or> \<not> list_all (\<lambda>c. 33 \<le> c \<and> c \<le> 126) value \<or> list_ex (\<lambda>c. c \<in> {92, 64, 37, 47, 63, 35}) value
      then rejectMapping RequestMalformed
      else
        bindE (if hd value = 91 then bracket_authority parse_url value else named_authority parse_url value) (\<lambda>(host, t).
        bindE (port_value t) (\<lambda>port.
        Inr \<lparr>au_original = value, au_host = host, au_port = port\<rparr>)))"

definition effective_port :: "http_scheme \<Rightarrow> http_authority \<Rightarrow> nat" where
  "effective_port scheme a = (case au_port a of Some n \<Rightarrow> n | None \<Rightarrow> (case scheme of Https \<Rightarrow> 443 | Http \<Rightarrow> 80))"

definition httpOriginKey :: "http_scheme \<Rightarrow> http_authority \<Rightarrow> jsstring" where
  "httpOriginKey scheme a =
     scheme_text scheme @ lit ''://'' @ au_host a @ [58] @ show_nat (effective_port scheme a)"

text \<open>The pattern of a configured origin, whose scheme has any case: the scheme and the authority.\<close>

definition configured_scheme :: "jsstring \<Rightarrow> (http_scheme \<times> jsstring) option" where
  "configured_scheme value =
     (if lowercase (take 8 value) = lit ''https://'' then Some (Https, drop 8 value)
      else if lowercase (take 7 value) = lit ''http://'' then Some (Http, drop 7 value) else None)"

definition configuredHttpOriginKey :: "url_parser \<Rightarrow> jsstring \<Rightarrow> http_error + jsstring" where
  "configuredHttpOriginKey parse_url value =
     (case configured_scheme value of
        None \<Rightarrow> rejectMapping RequestMalformed
      | Some (scheme, rest) \<Rightarrow>
          let authority = takeWhile (\<lambda>c. c \<notin> {47, 63, 35}) rest in
          if authority = [] \<or> dropWhile (\<lambda>c. c \<notin> {47, 63, 35}) rest \<notin> {[], [47]} then rejectMapping RequestMalformed
          else bindE (parseHttpAuthority parse_url authority) (\<lambda>a. Inr (httpOriginKey scheme a)))"

section \<open>The comparison key\<close>

lemma last_separator:
  assumes "h @ [58] @ p = h' @ [58] @ p'" "list_all digit p" "list_all digit p'"
  shows "h = h' \<and> p = p'"
proof -
  have split: "takeWhile (\<lambda>c. c \<noteq> 58) (rev (g @ [58] @ q)) = rev q" if "list_all digit q" for g q :: jsstring
  proof -
    have "c \<in> set (rev q) \<Longrightarrow> c \<noteq> 58" for c using that by (auto simp: list_all_iff digit_def)
    then have "takeWhile (\<lambda>c. c \<noteq> 58) (rev q @ 58 # rev g) = rev q" by (subst takeWhile_append2) auto
    then show ?thesis by simp
  qed
  have "rev p = rev p'"
    using split [OF assms(2), of h] split [OF assms(3), of h'] assms(1) by metis
  then show ?thesis using assms(1) by simp
qed

text \<open>The key by which origins are compared determines the origin: two keys are equal only for the
  same scheme, the same canonical host and the same effective port, whatever the hosts are.\<close>

theorem origin_key_injective:
  "httpOriginKey scheme a = httpOriginKey scheme' a' \<longleftrightarrow>
     scheme = scheme' \<and> au_host a = au_host a' \<and> effective_port scheme a = effective_port scheme' a'"
proof
  assume k: "httpOriginKey scheme a = httpOriginKey scheme' a'"
  then have s: "scheme = scheme'"
    by (cases scheme; cases scheme') (simp_all add: httpOriginKey_def)
  with k have "au_host a @ [58] @ show_nat (effective_port scheme a) = au_host a' @ [58] @ show_nat (effective_port scheme a')"
    by (cases scheme') (simp_all add: httpOriginKey_def)
  from last_separator [OF this] have "au_host a = au_host a'" "show_nat (effective_port scheme a) = show_nat (effective_port scheme a')"
    by (simp_all add: show_nat_digits)
  with s show "scheme = scheme' \<and> au_host a = au_host a' \<and> effective_port scheme a = effective_port scheme' a'"
    by (metis read_show_nat)
qed (auto simp: httpOriginKey_def)

end
