(* ===== verification/HttpForwarding.thy ===== *)
theory HttpForwarding
  imports HttpAuthority
begin

text \<open>
  The forwarding fields of a trusted ingress, \<^verbatim>\<open>http/forwarding.ts\<close>: the conservative subset of
  \<^verbatim>\<open>Forwarded\<close>, its nodes, and the single address of \<^verbatim>\<open>X-Forwarded-For\<close>. A position in the value
  is the rest of it.
\<close>

section \<open>Forwarded\<close>

definition forward_blank :: "nat \<Rightarrow> bool" where
  "forward_blank c \<longleftrightarrow> c = 32 \<or> c = 9"

definition quotable :: "nat \<Rightarrow> bool" where
  "quotable c \<longleftrightarrow> c = 9 \<or> 32 \<le> c \<and> c \<le> 126"

text \<open>The value after an opening quote, decoded, and the rest after the closing one.\<close>

fun quoted_value :: "jsstring \<Rightarrow> (jsstring \<times> jsstring) option" where
  "quoted_value [] = None"
| "quoted_value (c # s) =
     (if c = 34 then Some ([], s)
      else if c = 92
      then (case s of
          [] \<Rightarrow> None
        | d # s' \<Rightarrow> if quotable d then map_option (\<lambda>(v, r). (d # v, r)) (quoted_value s') else None)
      else if quotable c then map_option (\<lambda>(v, r). (c # v, r)) (quoted_value s) else None)"

definition forwarded_names :: "jsstring list" where
  "forwarded_names = map lit [''host'', ''proto'', ''for'', ''by'']"

definition forwarded_value :: "jsstring \<Rightarrow> (jsstring \<times> jsstring) option" where
  "forwarded_value s =
     (if s \<noteq> [] \<and> hd s = 34 then quoted_value (tl s)
      else if takeWhile field_name_char s = [] then None
      else Some (takeWhile field_name_char s, dropWhile field_name_char s))"

text \<open>One pair: its name in lower case, its value, and the rest.\<close>

definition forwarded_pair :: "(jsstring \<times> jsstring) list \<Rightarrow> jsstring \<Rightarrow> (jsstring \<times> jsstring \<times> jsstring) option" where
  "forwarded_pair pairs s =
     (let name = lowercase (takeWhile field_name_char s); rest = dropWhile field_name_char s in
      if name = [] \<or> name \<notin> set forwarded_names \<or> name \<in> fst ` set pairs then None
      else if rest = [] \<or> hd rest \<noteq> 61 then None
      else map_option (\<lambda>(v, r). (name, v, r)) (forwarded_value (tl rest)))"

lemma quoted_value_shorter: "quoted_value s = Some (v, r) \<Longrightarrow> length r < length s"
  by (induction s arbitrary: v r rule: quoted_value.induct) (fastforce split: if_splits list.splits)+

lemma forwarded_value_shorter: "forwarded_value s = Some (v, r) \<Longrightarrow> length r < length s"
  by (cases s) (auto simp: forwarded_value_def dest: quoted_value_shorter split: if_splits
      intro: le_less_trans [OF length_dropWhile_le])

lemma forwarded_pair_shorter: "forwarded_pair pairs s = Some (name, v, r) \<Longrightarrow> length r < length s"
proof -
  assume "forwarded_pair pairs s = Some (name, v, r)"
  then have "forwarded_value (tl (dropWhile field_name_char s)) = Some (v, r)"
    by (auto simp: forwarded_pair_def Let_def split: if_splits)
  from forwarded_value_shorter [OF this] length_dropWhile_le [of field_name_char s] show ?thesis by simp
qed

lemma next_pair_shorter:
  assumes "forwarded_pair pairs s = Some (name, v, r)" "dropWhile forward_blank r \<noteq> []"
  shows "length (dropWhile forward_blank (tl (dropWhile forward_blank r))) < length s"
proof -
  have "length (tl (dropWhile forward_blank r)) < length (dropWhile forward_blank r)"
    using assms(2) by (cases "dropWhile forward_blank r") auto
  with forwarded_pair_shorter [OF assms(1)] show ?thesis
    using length_dropWhile_le [of forward_blank "tl (dropWhile forward_blank r)"] length_dropWhile_le [of forward_blank r]
    by linarith
qed

function forwarded_pairs :: "(jsstring \<times> jsstring) list \<Rightarrow> jsstring \<Rightarrow> http_error + (jsstring \<times> jsstring) list" where
  "forwarded_pairs pairs s =
     (if s = [] then (if pairs = [] then rejectMapping ForwardingMalformed else Inr pairs)
      else if hd s = 44 then rejectMapping ForwardingChainRejected
      else case forwarded_pair pairs s of
        None \<Rightarrow> rejectMapping ForwardingMalformed
      | Some (name, v, r) \<Rightarrow>
          let rest = dropWhile forward_blank r in
          if rest = [] then Inr (pairs @ [(name, v)])
          else if hd rest = 44 then rejectMapping ForwardingChainRejected
          else if hd rest \<noteq> 59 then rejectMapping ForwardingMalformed
          else let next = dropWhile forward_blank (tl rest) in
            if next = [] then rejectMapping ForwardingMalformed
            else forwarded_pairs (pairs @ [(name, v)]) next)"
  by pat_completeness auto

termination
  by (relation "measure (\<lambda>(pairs, s). length s)") (auto intro: next_pair_shorter)

declare forwarded_pairs.simps [simp del]

definition parseForwarded :: "jsstring \<Rightarrow> http_error + (jsstring \<times> jsstring) list" where
  "parseForwarded s = forwarded_pairs [] (dropWhile forward_blank s)"

section \<open>Clients\<close>

datatype client_kind = IpClient | UnknownClient | ObfuscatedClient

record observed_client =
  client_kind :: client_kind
  client_address :: jsstring
  client_port :: "jsstring option"

text \<open>The end of the pattern of a node, \<^verbatim>\<open>(?::([^:]+))?$\<close>, and its two alternatives in order.\<close>

definition node_port :: "jsstring \<Rightarrow> jsstring option option" where
  "node_port s =
     (if s = [] then Some None
      else if hd s = 58 \<and> tl s \<noteq> [] \<and> 58 \<notin> set (tl s) then Some (Some (tl s)) else None)"

definition bracket_node :: "jsstring \<Rightarrow> (jsstring \<times> jsstring option) option" where
  "bracket_node s =
     (let inner = takeWhile address_char (tl s); rest = dropWhile address_char (tl s) in
      if s = [] \<or> hd s \<noteq> 91 \<or> inner = [] \<or> rest = [] \<or> hd rest \<noteq> 93 then None
      else map_option (Pair ([91] @ inner @ [93])) (node_port (tl rest)))"

definition plain_node :: "jsstring \<Rightarrow> (jsstring \<times> jsstring option) option" where
  "plain_node s =
     (let node = takeWhile (\<lambda>c. c \<noteq> 58) s in
      if node = [] then None else map_option (Pair node) (node_port (dropWhile (\<lambda>c. c \<noteq> 58) s)))"

definition forwarded_node_match :: "jsstring \<Rightarrow> (jsstring \<times> jsstring option) option" where
  "forwarded_node_match s = (case bracket_node s of Some r \<Rightarrow> Some r | None \<Rightarrow> plain_node s)"

definition obfuscated :: "jsstring \<Rightarrow> bool" where
  "obfuscated s \<longleftrightarrow> 2 \<le> length s \<and> hd s = 95 \<and> list_all host_char (tl s)"

definition node_port_valid :: "jsstring \<Rightarrow> bool" where
  "node_port_valid s \<longleftrightarrow> s \<noteq> [] \<and> length s \<le> 5 \<and> list_all digit s \<or> obfuscated s"

definition forwardedNode :: "jsstring \<Rightarrow> http_error + observed_client" where
  "forwardedNode s =
     (case forwarded_node_match s of
        None \<Rightarrow> rejectMapping ForwardingMalformed
      | Some (node, port) \<Rightarrow>
          let client = (\<lambda>kind address. Inr \<lparr>client_kind = kind, client_address = address, client_port = port\<rparr>) in
          if \<not> (case port of None \<Rightarrow> True | Some t \<Rightarrow> node_port_valid t) then rejectMapping ForwardingMalformed
          else if hd node = 91
          then (let address = butlast (tl node) in
                if isIP address \<noteq> Some IPv6 then rejectMapping ForwardingMalformed else client IpClient address)
          else if isIP node = Some IPv4 then client IpClient node
          else if lowercase node = lit ''unknown'' then client UnknownClient node
          else if obfuscated node then client ObfuscatedClient node
          else rejectMapping ForwardingMalformed)"

text \<open>A \<open>URL\<close> that does not parse throws, which is not a rejection.\<close>

definition xForwardedClient :: "url_parser \<Rightarrow> jsstring \<Rightarrow> http_error + observed_client" where
  "xForwardedClient parse_url s =
     (let client = Inr \<lparr>client_kind = IpClient, client_address = s, client_port = None\<rparr> in
      case isIP s of
        None \<Rightarrow> rejectMapping ForwardingMalformed
      | Some family \<Rightarrow>
          if 37 \<in> set s \<or> 45 < length s then rejectMapping ForwardingMalformed
          else if family = IPv4 then client
          else case parse_url (https_url ([91] @ s @ [93])) of
            None \<Rightarrow> Inl PlatformError
          | Some u \<Rightarrow> if url_hostname u \<noteq> [91] @ s @ [93] then rejectMapping ForwardingMalformed else client)"

section \<open>The pairs\<close>

lemma forwarded_pairs_distinct:
  "forwarded_pairs pairs s = Inr ps \<Longrightarrow> distinct (map fst pairs) \<Longrightarrow> fst ` set pairs \<subseteq> set forwarded_names \<Longrightarrow>
     ps \<noteq> [] \<and> distinct (map fst ps) \<and> fst ` set ps \<subseteq> set forwarded_names"
proof (induction pairs s rule: forwarded_pairs.induct)
  case (1 pairs s)
  show ?case
  proof (cases "forwarded_pair pairs s")
    case None
    with 1 show ?thesis by (auto simp: forwarded_pairs.simps [of pairs s] split: if_splits)
  next
    case (Some p)
    obtain name v r where p: "p = (name, v, r)" by (cases p)
    with Some have n: "name \<in> set forwarded_names" "name \<notin> fst ` set pairs"
      by (auto simp: forwarded_pair_def Let_def split: if_splits)
    with 1 Some p show ?thesis
      by (auto simp: forwarded_pairs.simps [of pairs s] Let_def image_subset_iff split: if_splits)
  qed
qed

lemma parseForwarded_distinct:
  "parseForwarded s = Inr ps \<Longrightarrow> ps \<noteq> [] \<and> distinct (map fst ps) \<and> fst ` set ps \<subseteq> set forwarded_names"
  using forwarded_pairs_distinct [of "[]"] by (simp add: parseForwarded_def)

end
