(* ===== verification/HttpConfig.thy ===== *)
theory HttpConfig
  imports HttpForwarding
begin

text \<open>
  The configuration of the mapper, \<^verbatim>\<open>http/configuration.ts\<close>. The options are dynamic values; a
  \<open>BlockList\<close> of the platform is the list of its ranges, with a family for each. The two functions
  of the resolved configuration are its sets of origins and of ranges.
\<close>

section \<open>Values\<close>

text \<open>\<open>HttpAccessor\<close> is a property with a getter, or an element with none or a getter.\<close>

datatype http_value =
    HttpUndefined
  | HttpNull
  | HttpText jsstring
  | HttpNumber js_number
  | HttpBool bool
  | HttpList "http_value list"
  | HttpObject "(js_key \<times> http_value) list"
  | HttpAccessor
  | HttpOther

type_synonym http_fields = "(js_key \<times> http_value) list"

definition allowed_key :: "string list \<Rightarrow> js_key \<Rightarrow> bool" where
  "allowed_key names k = (case k of StringKey name \<Rightarrow> name \<in> set (map lit names) | SymbolKey _ \<Rightarrow> False)"

definition configurationRecord :: "http_value \<Rightarrow> string list \<Rightarrow> http_error + http_fields" where
  "configurationRecord input names =
     (case input of
        HttpObject own \<Rightarrow>
          if list_all (\<lambda>(k, v). allowed_key names k \<and> v \<noteq> HttpAccessor) own then Inr own else Inl InvalidHttpConfiguration
      | _ \<Rightarrow> Inl InvalidHttpConfiguration)"

definition http_field :: "http_fields \<Rightarrow> string \<Rightarrow> http_value" where
  "http_field own name = (case map_of own (StringKey (lit name)) of None \<Rightarrow> HttpUndefined | Some v \<Rightarrow> v)"

definition has_field :: "http_fields \<Rightarrow> string \<Rightarrow> bool" where
  "has_field own name \<longleftrightarrow> map_of own (StringKey (lit name)) \<noteq> None"

definition list_text :: "http_value \<Rightarrow> http_error + jsstring" where
  "list_text v =
     (case v of
        HttpText s \<Rightarrow> if s = [] \<or> 2048 < length s then Inl InvalidHttpConfiguration else Inr s
      | _ \<Rightarrow> Inl InvalidHttpConfiguration)"

definition stringList :: "http_value \<Rightarrow> http_error + jsstring list" where
  "stringList input =
     (case input of
        HttpList vs \<Rightarrow> if vs = [] \<or> 1024 < length vs then Inl InvalidHttpConfiguration else mapE list_text vs
      | _ \<Rightarrow> Inl InvalidHttpConfiguration)"

section \<open>Limits\<close>

record http_limits =
  maxHeaderBytes :: nat
  maxUriBytes :: nat

definition limit_value :: "http_fields \<Rightarrow> string \<Rightarrow> http_error + nat" where
  "limit_value own name =
     (if \<not> has_field own name then Inr 16384
      else case http_field own name of
        HttpNumber (JsInt v) \<Rightarrow>
          if \<not> is_safe_integer v \<or> v < 1 \<or> 1048576 < v then Inl InvalidHttpConfiguration else Inr (nat v)
      | _ \<Rightarrow> Inl InvalidHttpConfiguration)"

definition httpLimits :: "http_value \<Rightarrow> http_error + http_limits" where
  "httpLimits input =
     bindE (if input = HttpUndefined then Inr [] else configurationRecord input [''maxHeaderBytes'', ''maxTargetUriBytes'']) (\<lambda>own.
     bindE (limit_value own ''maxHeaderBytes'') (\<lambda>h.
     bindE (limit_value own ''maxTargetUriBytes'') (\<lambda>u.
     Inr \<lparr>maxHeaderBytes = h, maxUriBytes = u\<rparr>)))"

section \<open>Trusted peers\<close>

record peer_range =
  range_family :: ip_family
  range_value :: int
  range_bits :: nat

definition range_contains :: "peer_range \<Rightarrow> ip_address \<Rightarrow> bool" where
  "range_contains r a \<longleftrightarrow> ip_family a = range_family r \<and>
     drop_bit (width (ip_family a) - range_bits r) (ip_value a) = drop_bit (width (ip_family a) - range_bits r) (range_value r)"

definition prefix_text :: "jsstring \<Rightarrow> bool" where
  "prefix_text s \<longleftrightarrow> s = [48] \<or> s \<noteq> [] \<and> length s \<le> 3 \<and> list_all digit s \<and> hd s \<noteq> 48"

definition peer_range_of :: "jsstring \<Rightarrow> http_error + peer_range" where
  "peer_range_of s =
     (let parts = split_on 47 s in
      if 2 < length parts then Inl InvalidHttpConfiguration
      else
        (case parseAddress (Some (hd parts)) of
           None \<Rightarrow> Inl InvalidHttpConfiguration
         | Some a \<Rightarrow>
             let range = (\<lambda>bits. Inr \<lparr>range_family = ip_family a, range_value = ip_value a, range_bits = bits\<rparr>) in
             if length parts = 1 then range (width (ip_family a))
             else if \<not> prefix_text (parts ! 1) \<or> width (ip_family a) < read_digits 0 (parts ! 1) then Inl InvalidHttpConfiguration
             else range (read_digits 0 (parts ! 1))))"

text \<open>\<open>trustedPeerCheck\<close>: the ranges, and the check.\<close>

definition trusts_peer :: "peer_range list \<Rightarrow> jsstring option \<Rightarrow> bool" where
  "trusts_peer ranges peer =
     (case parseAddress peer of None \<Rightarrow> False | Some a \<Rightarrow> list_ex (\<lambda>r. range_contains r a) ranges)"

section \<open>Resolution\<close>

datatype ingress_mode = Direct | TrustedIngress

datatype forwarding_family = ForwardedFamily | XForwardedFamily

record http_configuration =
  hc_mode :: ingress_mode
  hc_family :: forwarding_family
  hc_limits :: http_limits
  hc_origins :: "jsstring list"
  hc_peers :: "peer_range list"

definition ingress_mode_of :: "http_value \<Rightarrow> http_error + ingress_mode" where
  "ingress_mode_of v =
     (if v \<in> {HttpUndefined, HttpNull, HttpText (lit ''direct'')} then Inr Direct
      else if v = HttpText (lit ''trusted-ingress'') then Inr TrustedIngress else Inl InvalidHttpConfiguration)"

definition family_of :: "http_value \<Rightarrow> http_error + forwarding_family" where
  "family_of v =
     (if v = HttpText (lit ''forwarded'') then Inr ForwardedFamily
      else if v = HttpText (lit ''x-forwarded'') then Inr XForwardedFamily else Inl InvalidHttpConfiguration)"

definition origin_key_of :: "url_parser \<Rightarrow> ingress_mode \<Rightarrow> jsstring \<Rightarrow> http_error + jsstring" where
  "origin_key_of parse_url mode s =
     (case configuredHttpOriginKey parse_url s of
        Inl _ \<Rightarrow> Inl InvalidHttpConfiguration
      | Inr k \<Rightarrow>
          if mode = TrustedIngress \<and> take 8 k \<noteq> lit ''https://'' then Inl InvalidHttpConfiguration else Inr k)"

definition resolveHttpConfiguration :: "url_parser \<Rightarrow> http_value \<Rightarrow> http_error + http_configuration" where
  "resolveHttpConfiguration parse_url options =
     bindE (configurationRecord options [''ingress'', ''limits'']) (\<lambda>outer.
     bindE (configurationRecord (http_field outer ''ingress'')
       [''mode'', ''allowedOrigins'', ''family'', ''trustedPeers'', ''sanitizingIngress'']) (\<lambda>ingress.
     bindE (ingress_mode_of (http_field ingress ''mode'')) (\<lambda>mode.
     bindE (stringList (http_field ingress ''allowedOrigins'')) (\<lambda>texts.
     bindE (mapE (origin_key_of parse_url mode) texts) (\<lambda>origins.
     bindE (case mode of
         Direct \<Rightarrow>
           if has_field ingress ''family'' \<or> has_field ingress ''trustedPeers'' \<or> has_field ingress ''sanitizingIngress''
           then Inl InvalidHttpConfiguration else Inr (ForwardedFamily, [])
       | TrustedIngress \<Rightarrow>
           if http_field ingress ''sanitizingIngress'' \<noteq> HttpBool True then Inl InvalidHttpConfiguration
           else
             bindE (family_of (http_field ingress ''family'')) (\<lambda>family.
             bindE (stringList (http_field ingress ''trustedPeers'')) (\<lambda>peers.
             bindE (mapE peer_range_of peers) (\<lambda>ranges. Inr (family, ranges))))) (\<lambda>(family, ranges).
     bindE (httpLimits (http_field outer ''limits'')) (\<lambda>limits.
     Inr \<lparr>hc_mode = mode, hc_family = family, hc_limits = limits, hc_origins = remdups origins, hc_peers = ranges\<rparr>)))))))"

text \<open>What a resolved configuration promises the mapper.\<close>

lemma limit_value_bounds: "limit_value own name = Inr n \<Longrightarrow> 1 \<le> n \<and> n \<le> 1048576"
  by (auto simp: limit_value_def split: if_splits http_value.splits js_number.splits)

lemma origin_key_Inr: "origin_key_of parse_url mode s = Inr k \<longleftrightarrow>
    configuredHttpOriginKey parse_url s = Inr k \<and> (mode = TrustedIngress \<longrightarrow> take 8 k = lit ''https://'')"
  by (cases "configuredHttpOriginKey parse_url s") (auto simp: origin_key_of_def)

lemma resolved_configuration:
  assumes "resolveHttpConfiguration parse_url options = Inr c"
  shows "1 \<le> maxHeaderBytes (hc_limits c) \<and> maxHeaderBytes (hc_limits c) \<le> 1048576 \<and>
    1 \<le> maxUriBytes (hc_limits c) \<and> maxUriBytes (hc_limits c) \<le> 1048576 \<and>
    hc_origins c \<noteq> [] \<and>
    (\<forall>k \<in> set (hc_origins c). \<exists>s. configuredHttpOriginKey parse_url s = Inr k \<and>
       (hc_mode c = TrustedIngress \<longrightarrow> take 8 k = lit ''https://'')) \<and>
    (hc_mode c = TrustedIngress \<longrightarrow> hc_peers c \<noteq> []) \<and> (hc_mode c = Direct \<longrightarrow> hc_peers c = [])"
proof -
  obtain outer ingress mode texts origins family ranges limits where
    "stringList (http_field ingress ''allowedOrigins'') = Inr texts" and
    origins: "mapE (origin_key_of parse_url mode) texts = Inr origins" and
    r: "(case mode of
         Direct \<Rightarrow>
           if has_field ingress ''family'' \<or> has_field ingress ''trustedPeers'' \<or> has_field ingress ''sanitizingIngress''
           then Inl InvalidHttpConfiguration else Inr (ForwardedFamily, [])
       | TrustedIngress \<Rightarrow>
           if http_field ingress ''sanitizingIngress'' \<noteq> HttpBool True then Inl InvalidHttpConfiguration
           else
             bindE (family_of (http_field ingress ''family'')) (\<lambda>family.
             bindE (stringList (http_field ingress ''trustedPeers'')) (\<lambda>peers.
             bindE (mapE peer_range_of peers) (\<lambda>ranges. Inr (family, ranges))))) = Inr (family, ranges)" and
    l: "httpLimits (http_field outer ''limits'') = Inr limits" and
    c: "c = \<lparr>hc_mode = mode, hc_family = family, hc_limits = limits, hc_origins = remdups origins, hc_peers = ranges\<rparr>"
    using assms unfolding resolveHttpConfiguration_def bindE_eq_Inr by (auto simp: bindE_eq_Inr)
  have list: "stringList v = Inr ss \<Longrightarrow> ss \<noteq> []" for v ss
    by (auto simp: stringList_def dest: mapE_length split: http_value.splits if_splits)
  have keys: "\<exists>s. configuredHttpOriginKey parse_url s = Inr k \<and> (mode = TrustedIngress \<longrightarrow> take 8 k = lit ''https://'')"
    if "k \<in> set origins" for k
    using mapE_set [OF origins that] by (auto simp: origin_key_Inr simp del: lit_Cons)
  have "origins \<noteq> []" using origins list \<open>stringList _ = Inr texts\<close> by (auto dest: mapE_length)
  moreover have "mode = TrustedIngress \<Longrightarrow> ranges \<noteq> []" "mode = Direct \<Longrightarrow> ranges = []"
    using r list by (auto simp: bindE_eq_Inr dest: mapE_length split: if_splits)
  moreover have "1 \<le> maxHeaderBytes limits \<and> maxHeaderBytes limits \<le> 1048576 \<and> 1 \<le> maxUriBytes limits \<and> maxUriBytes limits \<le> 1048576"
    using l limit_value_bounds by (fastforce simp: httpLimits_def bindE_eq_Inr)
  ultimately show ?thesis using keys c by simp
qed

end
