(* ===== verification/HttpMapping.thy ===== *)
theory HttpMapping
  imports HttpConfig
begin

text \<open>
  The mapping of a captured request, \<^verbatim>\<open>http/snapshot.ts\<close> and \<^verbatim>\<open>http/mapping.ts\<close>: the snapshot with
  its bounds, the authority and the scheme of the target, directly or from a trusted ingress, the
  admission of the origin and the framing. The descriptor has the types its only caller gives it.
\<close>

section \<open>The snapshot\<close>

record http_input =
  in_method :: "jsstring option"
  in_url :: "jsstring option"
  in_version :: jsstring
  in_raw :: "jsstring list"
  in_peer :: "jsstring option"
  in_encrypted :: bool

record http_snapshot =
  sn_method :: jsstring
  sn_url :: jsstring
  sn_headers :: "(jsstring \<times> jsstring) list"
  sn_peer :: "jsstring option"
  sn_encrypted :: bool

definition target_char :: "nat \<Rightarrow> bool" where
  "target_char c \<longleftrightarrow> alpha c \<or> digit c \<or> c \<in> set (lit ''-._~:/?[]@!$&()*+,;=%'') \<or> c = 39"

text \<open>Every percent sign is followed by two hexadecimal digits.\<close>

fun percent_encoded :: "jsstring \<Rightarrow> bool" where
  "percent_encoded [] = True"
| "percent_encoded (c # s) =
     ((c = 37 \<longrightarrow> 2 \<le> length s \<and> list_all hex_char (take 2 s)) \<and> percent_encoded s)"

definition header_char :: "nat \<Rightarrow> bool" where
  "header_char c \<longleftrightarrow> c = 9 \<or> 32 \<le> c \<and> c \<le> 126 \<or> 128 \<le> c \<and> c \<le> 255"

fun header_pairs :: "jsstring list \<Rightarrow> (jsstring \<times> jsstring) list option" where
  "header_pairs [] = Some []"
| "header_pairs [_] = None"
| "header_pairs (name # v # raw) = map_option (Cons (name, v)) (header_pairs raw)"

definition snapshot_field :: "http_limits \<Rightarrow> nat \<Rightarrow> jsstring \<times> jsstring \<Rightarrow> http_error + nat" where
  "snapshot_field limits used entry =
     (let used' = used + length (fst entry) + length (snd entry) + 4 in
      if maxHeaderBytes limits < used' then rejectMapping MappingResourceLimit
      else if \<not> isFieldName (fst entry) \<or> \<not> list_all header_char (snd entry) then rejectMapping HeadersMalformed
      else Inr used')"

definition snapshotHttpRequest :: "http_limits \<Rightarrow> http_input \<Rightarrow> http_error + http_snapshot" where
  "snapshotHttpRequest limits input =
     (if in_version input = lit ''2'' \<or> in_version input = lit ''2.0'' then rejectMapping Http2Unsupported
      else if in_version input \<noteq> lit ''1.1'' then rejectMapping RequestUnsupported
      else case (in_method input, in_url input) of
        (Some method, Some url) \<Rightarrow>
          if maxHeaderBytes limits < length method \<or> maxUriBytes limits < length url then rejectMapping MappingResourceLimit
          else if \<not> isFieldName method \<or> url = [] then rejectMapping RequestMalformed
          else if method = lit ''CONNECT'' \<or> hd url \<noteq> 47 then rejectMapping RequestUnsupported
          else if \<not> list_all target_char url \<or> \<not> percent_encoded url then rejectMapping RequestMalformed
          else
            (case header_pairs (in_raw input) of
               None \<Rightarrow> rejectMapping HeadersMalformed
             | Some headers \<Rightarrow>
                 if maxHeaderBytes limits div 4 < length headers then rejectMapping MappingResourceLimit
                 else
                   bindE (foldE (snapshot_field limits) 0 headers) (\<lambda>_.
                   if (case in_peer input of None \<Rightarrow> False | Some p \<Rightarrow> 128 < length p) then rejectMapping RequestMalformed
                   else Inr \<lparr>sn_method = method, sn_url = url, sn_headers = headers, sn_peer = in_peer input,
                     sn_encrypted = in_encrypted input\<rparr>))
      | _ \<Rightarrow> rejectMapping RequestMalformed)"

section \<open>The mapping\<close>

record mapped_request =
  mp_request :: request_parts
  mp_source :: ingress_mode
  mp_internal :: jsstring
  mp_body :: bool
  mp_client :: "observed_client option"

datatype http_mapping = MappedHttp mapped_request | RejectedHttp http_code

text \<open>The values of a field, by its name in lower case; \<open>[]\<close> is a field that is absent.\<close>

definition field_list :: "(jsstring \<times> jsstring) list \<Rightarrow> jsstring \<Rightarrow> jsstring list" where
  "field_list headers name = map snd (filter (\<lambda>e. lowercase (fst e) = name) headers)"

definition owned_header :: "jsstring \<times> jsstring \<Rightarrow> jsstring \<times> header_value" where
  "owned_header e = (fst e, if list_all ascii (snd e) then TextValue (snd e) else ByteValue (map of_nat (snd e)))"

definition x_fields :: "jsstring list" where
  "x_fields = map lit [''x-forwarded-host'', ''x-forwarded-proto'', ''x-forwarded-port'', ''x-forwarded-for'']"

definition single_field :: "(jsstring \<times> jsstring) list \<Rightarrow> string \<Rightarrow> bool \<Rightarrow> http_error + jsstring option" where
  "single_field headers name required =
     (case field_list headers (lit name) of
        [] \<Rightarrow> if required then rejectMapping ForwardingMissing else Inr None
      | [v] \<Rightarrow>
          if 44 \<in> set v then rejectMapping ForwardingChainRejected
          else if v = [] then rejectMapping ForwardingMalformed else Inr (Some v)
      | _ \<Rightarrow> rejectMapping ForwardingChainRejected)"

text \<open>What the selected family says: the host, the protocol and the client.\<close>

definition forwarded_target :: "(jsstring \<times> jsstring) list \<Rightarrow> http_error + (jsstring \<times> jsstring \<times> observed_client option)" where
  "forwarded_target headers =
     (case field_list headers (lit ''forwarded'') of
        [] \<Rightarrow> rejectMapping ForwardingMissing
      | [v] \<Rightarrow>
          bindE (parseForwarded v) (\<lambda>pairs.
          case (map_of pairs (lit ''host''), map_of pairs (lit ''proto'')) of
            (Some host, Some proto) \<Rightarrow>
              bindE (case map_of pairs (lit ''for'') of None \<Rightarrow> Inr None | Some n \<Rightarrow> bindE (forwardedNode n) (\<lambda>c. Inr (Some c))) (\<lambda>client.
              bindE (case map_of pairs (lit ''by'') of None \<Rightarrow> Inr () | Some n \<Rightarrow> bindE (forwardedNode n) (\<lambda>_. Inr ())) (\<lambda>_.
              Inr (host, proto, client)))
          | _ \<Rightarrow> rejectMapping ForwardingMissing)
      | _ \<Rightarrow> rejectMapping ForwardingChainRejected)"

definition x_port_check :: "http_authority \<Rightarrow> jsstring option \<Rightarrow> http_error + unit" where
  "x_port_check authority port =
     (case port of
        None \<Rightarrow> Inr ()
      | Some t \<Rightarrow>
          if t = [] \<or> 5 < length t \<or> \<not> list_all digit t \<or> read_digits 0 t < 1 \<or> 65535 < read_digits 0 t
          then rejectMapping ForwardingMalformed
          else if read_digits 0 t \<noteq> (case au_port authority of None \<Rightarrow> 443 | Some n \<Rightarrow> n)
          then rejectMapping ForwardingPortInconsistent else Inr ())"

definition x_forwarded_target ::
    "url_parser \<Rightarrow> (jsstring \<times> jsstring) list \<Rightarrow> http_error + (jsstring \<times> jsstring \<times> observed_client option)" where
  "x_forwarded_target parse_url headers =
     bindE (single_field headers ''x-forwarded-host'' True) (\<lambda>host.
     bindE (single_field headers ''x-forwarded-proto'' True) (\<lambda>proto.
     bindE (single_field headers ''x-forwarded-port'' False) (\<lambda>port.
     bindE (single_field headers ''x-forwarded-for'' False) (\<lambda>for.
     bindE (case for of None \<Rightarrow> Inr None | Some v \<Rightarrow> bindE (xForwardedClient parse_url v) (\<lambda>c. Inr (Some c))) (\<lambda>client.
     bindE (parseHttpAuthority parse_url (the host)) (\<lambda>authority.
     bindE (x_port_check authority port) (\<lambda>_.
     Inr (the host, the proto, client))))))))"

text \<open>The branch of a trusted ingress.\<close>

definition ingress_target ::
    "url_parser \<Rightarrow> http_configuration \<Rightarrow> http_snapshot \<Rightarrow> http_error + (http_authority \<times> observed_client option)" where
  "ingress_target parse_url cfg s =
     (let forwarded = field_list (sn_headers s) (lit ''forwarded'') \<noteq> [];
          has_x = list_ex (\<lambda>name. field_list (sn_headers s) name \<noteq> []) x_fields in
      if \<not> trusts_peer (hc_peers cfg) (sn_peer s) then rejectMapping IngressPeerUntrusted
      else if hc_family cfg = ForwardedFamily \<and> has_x \<or> hc_family cfg = XForwardedFamily \<and> forwarded
      then rejectMapping ForwardingFamiliesMixed
      else
        bindE (case hc_family cfg of
            ForwardedFamily \<Rightarrow> forwarded_target (sn_headers s)
          | XForwardedFamily \<Rightarrow> x_forwarded_target parse_url (sn_headers s)) (\<lambda>(host, proto, client).
        if proto \<noteq> lit ''https'' then rejectMapping IngressHttpsRequired
        else bindE (parseHttpAuthority parse_url host) (\<lambda>authority. Inr (authority, client))))"

definition framing_check :: "(jsstring \<times> jsstring) list \<Rightarrow> http_error + bool" where
  "framing_check headers =
     (let content = field_list headers (lit ''content-length''); transfer = field_list headers (lit ''transfer-encoding'') in
      if content \<noteq> [] \<and> (length content \<noteq> 1 \<or> hd content = [] \<or> \<not> list_all digit (hd content))
      then rejectMapping HeadersMalformed
      else if transfer \<noteq> [] \<and> (content \<noteq> [] \<or> length transfer \<noteq> 1 \<or> lowercase (hd transfer) \<noteq> lit ''chunked'')
      then rejectMapping HeadersMalformed
      else Inr (transfer \<noteq> [] \<or> content \<noteq> [] \<and> list_ex (\<lambda>c. 49 \<le> c \<and> c \<le> 57) (hd content)))"

definition map_request :: "url_parser \<Rightarrow> http_configuration \<Rightarrow> http_input \<Rightarrow> http_error + mapped_request" where
  "map_request parse_url cfg input =
     bindE (snapshotHttpRequest (hc_limits cfg) input) (\<lambda>s.
     bindE (case field_list (sn_headers s) (lit ''host'') of
         [] \<Rightarrow> rejectMapping HostMissing | [v] \<Rightarrow> parseHttpAuthority parse_url v | _ \<Rightarrow> rejectMapping HostAmbiguous) (\<lambda>internal.
     bindE (case hc_mode cfg of
         Direct \<Rightarrow> Inr (if sn_encrypted s then Https else Http, internal, None)
       | TrustedIngress \<Rightarrow> bindE (ingress_target parse_url cfg s) (\<lambda>(a, client). Inr (Https, a, client))) (\<lambda>(scheme, authority, client).
     if httpOriginKey scheme authority \<notin> set (hc_origins cfg) then rejectMapping OriginDisallowed
     else if maxUriBytes (hc_limits cfg) < length (scheme_text scheme) + 3 + length (au_original authority) + length (sn_url s)
     then rejectMapping MappingResourceLimit
     else
       bindE (framing_check (sn_headers s)) (\<lambda>body.
       Inr \<lparr>mp_request = \<lparr>request_method = sn_method s,
           targetUri = scheme_text scheme @ lit ''://'' @ au_original authority @ sn_url s,
           rawRequestTarget = Some (sn_url s), request_headers = map owned_header (sn_headers s), request_version = Some Http11\<rparr>,
         mp_source = hc_mode cfg, mp_internal = au_original internal, mp_body = body, mp_client = client\<rparr>))))"

definition mapHttpSnapshot :: "url_parser \<Rightarrow> http_configuration \<Rightarrow> http_input \<Rightarrow> http_error + http_mapping" where
  "mapHttpSnapshot parse_url cfg input =
     (case map_request parse_url cfg input of
        Inr m \<Rightarrow> Inr (MappedHttp m)
      | Inl (MappingError c) \<Rightarrow> Inr (RejectedHttp c)
      | Inl e \<Rightarrow> Inl e)"

end
