(* ===== verification/HttpAssessment.thy ===== *)
theory HttpAssessment
  imports HttpMapping VerificationEngine
begin

text \<open>
  What the framework adapters share: the mapper that owns a server, \<^verbatim>\<open>http/node-mapper.ts\<close>, and the
  assessment of a request with its policy, \<^verbatim>\<open>http/assessment.ts\<close>. Requests, sockets and decision
  handles are named by their identity, a number. A run of the application's policy is the list of
  its calls of the tools and its end; the results of the verifier have their static type. The
  copies that detach a view are the value itself; \<open>Inl IntegrationError\<close> is a copy over its budget.
\<close>

section \<open>The mapper of a server\<close>

text \<open>A request as the server emits it; \<open>nr_major\<close> and \<open>nr_version\<close> are data properties.\<close>

record node_request =
  nr_id :: nat
  nr_socket :: nat
  nr_major :: nat
  nr_version :: jsstring
  nr_input :: http_input

text \<open>The parser settings of the server at the time; the mapper has fixed them.\<close>

record node_server =
  sv_count :: int
  sv_size :: int
  sv_insecure :: bool

text \<open>\<open>nm_listened\<close> is a history: the requests the listener was called with.\<close>

record node_mapper =
  nm_results :: "(nat \<times> http_mapping) list"
  nm_sockets :: "nat list"
  nm_listened :: "nat list"

definition new_mapper :: node_mapper where
  "new_mapper = \<lparr>nm_results = [], nm_sockets = [], nm_listened = []\<rparr>"

definition own_socket :: "nat \<Rightarrow> node_mapper \<Rightarrow> node_mapper" where
  "own_socket socket s = s\<lparr>nm_sockets := nm_sockets s @ [socket]\<rparr>"

definition captured ::
    "url_parser \<Rightarrow> http_configuration \<Rightarrow> node_server \<Rightarrow> node_request \<Rightarrow> node_mapper \<Rightarrow> http_error + http_mapping" where
  "captured parse_url cfg server r s =
     (if nr_major r = 2 then Inr (RejectedHttp Http2Unsupported)
      else if nr_socket r \<notin> set (nm_sockets s) \<or> sv_count server \<noteq> int (maxHeaderBytes (hc_limits cfg)) \<or>
        sv_size server \<noteq> int (maxHeaderBytes (hc_limits cfg)) \<or> sv_insecure server
      then Inr (RejectedHttp CaptureIncomplete)
      else mapHttpSnapshot parse_url cfg (nr_input r))"

definition node_dispatch ::
    "url_parser \<Rightarrow> http_configuration \<Rightarrow> node_server \<Rightarrow> node_request \<Rightarrow> node_mapper \<Rightarrow> (http_error + unit) \<times> node_mapper" where
  "node_dispatch parse_url cfg server r s =
     (if map_of (nm_results s) (nr_id r) \<noteq> None then (Inr (), s)
      else
        (case captured parse_url cfg server r s of
           Inl e \<Rightarrow> (Inl e, s)
         | Inr result \<Rightarrow>
             (Inr (), s\<lparr>nm_results := nm_results s @ [(nr_id r, result)], nm_listened := nm_listened s @ [nr_id r]\<rparr>)))"

definition node_map :: "node_request \<Rightarrow> node_mapper \<Rightarrow> http_mapping" where
  "node_map r s =
     (case map_of (nm_results s) (nr_id r) of
        Some result \<Rightarrow> result
      | None \<Rightarrow>
          if nr_major r = 2 \<or> nr_version r = lit ''2'' \<or> nr_version r = lit ''2.0'' then RejectedHttp Http2Unsupported
          else RejectedHttp CaptureMissing)"

section \<open>Integrations\<close>

datatype adapter_name = ExpressAdapter | FastifyAdapter | HonoAdapter

datatype integration_mode = ObserveMode | EnforceMode

text \<open>\<open>hi_owned\<close> are the identities of the mapper, the verifier and its function, the policy and the
  observer, by which two integrations are compatible.\<close>

record http_integration =
  hi_owned :: "nat list"
  hi_ingress :: ingress_mode
  hi_mode :: integration_mode
  hi_reject_body :: bool
  hi_timeout :: nat
  hi_mapping_status :: nat
  hi_deny_status :: nat
  hi_rate_status :: nat

datatype 'i http_assessment = RejectedAssessment http_code | MappedAssessment mapped_request "'i verification_result"

datatype allow_basis = VerifiedIdentity | Anonymous

datatype http_authorization = NotEvaluated | AllowedRequest allow_basis | DeniedRequest | RateLimitedRequest "int option"

text \<open>\<open>oc_response\<close> is the status to respond with, or \<open>None\<close> to continue.\<close>

record 'i http_outcome =
  oc_assessment :: "'i http_assessment"
  oc_authorization :: http_authorization
  oc_response :: "nat option"
  oc_retry :: "int option"

datatype denial_reason = PolicyThrew | PolicyTimedOut | InvalidDecision | BodyUnverified

datatype adapter_event = MappingRejectedEvent http_code | VerificationErrorEvent | PolicyDeniedEvent denial_reason

section \<open>The policy\<close>

text \<open>A call of a tool; \<open>AllowVerifiedCall\<close> says whether its argument is the view of this request.\<close>

datatype tool_call = AllowVerifiedCall bool | AllowAnonymousCall | DenyCall | RateLimitCall "js_number option"

datatype decision = AllowVerifiedDecision | AllowAnonymousDecision | DenyDecision | RateLimitDecision "int option"

fun eligible_verified :: "'i http_assessment \<Rightarrow> bool" where
  "eligible_verified (MappedAssessment m (VerifiedRequest reason rs verified)) = True"
| "eligible_verified _ = False"

fun body_rejected :: "http_integration \<Rightarrow> 'i http_assessment \<Rightarrow> bool" where
  "body_rejected cfg (MappedAssessment m v) = (mp_body m \<and> hi_reject_body cfg)"
| "body_rejected cfg (RejectedAssessment c) = False"

text \<open>The decision a call makes a handle for; \<open>None\<close> is a call that throws.\<close>

fun tool_decision :: "http_integration \<Rightarrow> 'i http_assessment \<Rightarrow> tool_call \<Rightarrow> decision option" where
  "tool_decision cfg a (AllowVerifiedCall own) =
     (if \<not> own \<or> \<not> eligible_verified a \<or> body_rejected cfg a then None else Some AllowVerifiedDecision)"
| "tool_decision cfg a AllowAnonymousCall = Some AllowAnonymousDecision"
| "tool_decision cfg a DenyCall = Some DenyDecision"
| "tool_decision cfg a (RateLimitCall None) = Some (RateLimitDecision None)"
| "tool_decision cfg a (RateLimitCall (Some (JsInt n))) =
     (if \<not> is_safe_integer n \<or> n < 0 \<or> 2147483647 < n then None else Some (RateLimitDecision (Some n)))"
| "tool_decision cfg a (RateLimitCall (Some _)) = None"

definition decisions :: "http_integration \<Rightarrow> 'i http_assessment \<Rightarrow> tool_call list \<Rightarrow> decision list" where
  "decisions cfg a calls = List.map_filter (tool_decision cfg a) calls"

text \<open>How the policy ends before its timer: with a handle of this request, by its number, with any
  other value, or with a throw. Handles of calls after the end are refused.\<close>

datatype policy_end = ReturnsHandle nat | ReturnsOther | PolicyThrows

record policy_run =
  pr_calls :: "tool_call list"
  pr_end :: "policy_end option"
  pr_started :: rat
  pr_ended :: rat

section \<open>Evaluation\<close>

definition finish_outcome :: "'i http_assessment \<Rightarrow> http_authorization \<Rightarrow> nat option \<Rightarrow> int option \<Rightarrow> 'i http_outcome" where
  "finish_outcome a authorization response retry =
     \<lparr>oc_assessment = a, oc_authorization = authorization, oc_response = response, oc_retry = retry\<rparr>"

definition denied_status :: "http_integration \<Rightarrow> 'i http_assessment \<Rightarrow> nat" where
  "denied_status cfg a = (case a of RejectedAssessment _ \<Rightarrow> hi_mapping_status cfg | MappedAssessment _ _ \<Rightarrow> hi_deny_status cfg)"

definition denied_outcome :: "http_integration \<Rightarrow> 'i http_assessment \<Rightarrow> 'i http_outcome" where
  "denied_outcome cfg a = finish_outcome a DeniedRequest (Some (denied_status cfg a)) None"

definition selected_decision :: "http_integration \<Rightarrow> 'i http_assessment \<Rightarrow> policy_run \<Rightarrow> decision option" where
  "selected_decision cfg a run =
     (case pr_end run of
        Some (ReturnsHandle i) \<Rightarrow> (let ds = decisions cfg a (pr_calls run) in if i < length ds then Some (ds ! i) else None)
      | _ \<Rightarrow> None)"

text \<open>After the race of the policy and its timer.\<close>

definition policy_outcome ::
    "http_integration \<Rightarrow> 'i http_assessment \<Rightarrow> policy_run \<Rightarrow> (http_error + 'i http_outcome) \<times> adapter_event list" where
  "policy_outcome cfg a run =
     (let timed_out = of_nat (hi_timeout cfg) \<le> double (pr_ended run - pr_started run);
          denied = (\<lambda>reason. (Inr (denied_outcome cfg a), [PolicyDeniedEvent reason])) in
      if timed_out then denied PolicyTimedOut
      else case pr_end run of
        None \<Rightarrow> denied PolicyTimedOut
      | Some PolicyThrows \<Rightarrow> denied PolicyThrew
      | Some _ \<Rightarrow>
          (case selected_decision cfg a run of
             None \<Rightarrow> denied InvalidDecision
           | Some (RateLimitDecision retry) \<Rightarrow>
               (Inr (finish_outcome a (RateLimitedRequest retry) (Some (hi_rate_status cfg)) retry), [])
           | Some d \<Rightarrow>
               if body_rejected cfg a then denied BodyUnverified
               else if (case a of RejectedAssessment _ \<Rightarrow> True | _ \<Rightarrow> d = DenyDecision) then (Inr (denied_outcome cfg a), [])
               else if d = AllowVerifiedDecision \<and> \<not> eligible_verified a then (Inl IntegrationError, [])
               else (Inr (finish_outcome a
                 (AllowedRequest (if d = AllowVerifiedDecision then VerifiedIdentity else Anonymous)) None None), [])))"

text \<open>\<open>evaluate\<close>, with what the mapper gives, what the verifier gives (\<open>None\<close> is a throw, or a result
  over the budget of its copy), whether the copy of the assessment is within its budget, and the
  run of the policy.\<close>

definition evaluate_http ::
    "http_integration \<Rightarrow> http_mapping \<Rightarrow> 'i verification_result option \<Rightarrow> bool \<Rightarrow> policy_run
       \<Rightarrow> (http_error + 'i http_outcome) \<times> adapter_event list" where
  "evaluate_http cfg mapping verdict fits run =
     (let decide = (\<lambda>a. if hi_mode cfg = ObserveMode then (Inr (finish_outcome a NotEvaluated None None), [])
        else policy_outcome cfg a run) in
      case mapping of
        RejectedHttp c \<Rightarrow> (case decide (RejectedAssessment c) of (r, events) \<Rightarrow> (r, MappingRejectedEvent c # events))
      | MappedHttp m \<Rightarrow>
          (case verdict of
             None \<Rightarrow> (Inl IntegrationError, [VerificationErrorEvent])
           | Some (VerifiedRequest reason rs []) \<Rightarrow> (Inl IntegrationError, [VerificationErrorEvent])
           | Some v \<Rightarrow> if \<not> fits then (Inl IntegrationError, []) else decide (MappedAssessment m v)))"

section \<open>The registry\<close>

text \<open>The state of a request: the integration and the adapter that own it, and its outcome once its
  promise has settled. \<open>rg_evaluated\<close> is a history: the evaluations that were started.\<close>

record 'i request_state =
  rs_config :: http_integration
  rs_adapter :: adapter_name
  rs_settled :: "(http_error + 'i http_outcome) option"

record 'i registry =
  rg_states :: "(nat \<times> 'i request_state) list"
  rg_evaluated :: "nat list"

definition new_registry :: "'i registry" where
  "new_registry = \<lparr>rg_states = [], rg_evaluated = []\<rparr>"

definition existing_state ::
    "nat \<Rightarrow> http_integration \<Rightarrow> adapter_name option \<Rightarrow> 'i registry \<Rightarrow> http_error + 'i request_state option" where
  "existing_state request cfg adapter g =
     (case map_of (rg_states g) request of
        None \<Rightarrow> Inr None
      | Some s \<Rightarrow>
          if rs_config s \<noteq> cfg \<or> adapter \<noteq> None \<and> adapter \<noteq> Some (rs_adapter s) then Inl IntegrationError
          else Inr (Some s))"

text \<open>\<open>assess\<close>: the promise it returns is the one of the request.\<close>

definition assess_http :: "nat \<Rightarrow> http_integration \<Rightarrow> adapter_name \<Rightarrow> 'i registry \<Rightarrow> (http_error + nat) \<times> 'i registry" where
  "assess_http request cfg adapter g =
     (case existing_state request cfg (Some adapter) g of
        Inl e \<Rightarrow> (Inl e, g)
      | Inr (Some _) \<Rightarrow> (Inr request, g)
      | Inr None \<Rightarrow> (Inr request,
          g\<lparr>rg_states := rg_states g @ [(request, \<lparr>rs_config = cfg, rs_adapter = adapter, rs_settled = None\<rparr>)],
            rg_evaluated := rg_evaluated g @ [request]\<rparr>))"

text \<open>The evaluation of a request ends, once.\<close>

definition settle_http ::
    "nat \<Rightarrow> http_mapping \<Rightarrow> 'i verification_result option \<Rightarrow> bool \<Rightarrow> policy_run \<Rightarrow> 'i registry \<Rightarrow> 'i registry option" where
  "settle_http request mapping verdict fits run g =
     (case map_of (rg_states g) request of
        Some s \<Rightarrow>
          if rs_settled s \<noteq> None then None
          else Some (g\<lparr>rg_states := map_set request
            (s\<lparr>rs_settled := Some (fst (evaluate_http (rs_config s) mapping verdict fits run))\<rparr>) (rg_states g)\<rparr>)
      | None \<Rightarrow> None)"

definition get_http :: "nat \<Rightarrow> http_integration \<Rightarrow> 'i registry \<Rightarrow> http_error + ('i http_assessment \<times> http_authorization)" where
  "get_http request cfg g =
     bindE (existing_state request cfg None g) (\<lambda>s.
     case s of
       Some st \<Rightarrow>
         (case rs_settled st of
            Some (Inr oc) \<Rightarrow> Inr (oc_assessment oc, oc_authorization oc)
          | _ \<Rightarrow> Inl IntegrationError)
     | None \<Rightarrow> Inl IntegrationError)"

datatype 'i registry_event =
    AssessCall nat http_integration adapter_name
  | EvaluationEnds nat http_mapping "'i verification_result option" bool policy_run

fun registry_step :: "'i registry_event \<Rightarrow> 'i registry \<Rightarrow> 'i registry option" where
  "registry_step (AssessCall request cfg adapter) g = Some (snd (assess_http request cfg adapter g))"
| "registry_step (EvaluationEnds request mapping verdict fits run) g = settle_http request mapping verdict fits run g"

inductive registry_reachable :: "'i registry \<Rightarrow> bool" where
  fresh: "registry_reachable new_registry"
| event: "registry_reachable g \<Longrightarrow> registry_step e g = Some g' \<Longrightarrow> registry_reachable g'"

end
