(* ===== verification/HttpSafety.thy ===== *)
theory HttpSafety
  imports HttpMapping
begin

text \<open>What a mapped request is: its target, its headers, and what was trusted to make it.\<close>

section \<open>The parts of a mapping\<close>

lemma parsed_authority: "parseHttpAuthority parse_url v = Inr a \<Longrightarrow> au_original a = v"
  by (auto simp: parseHttpAuthority_def bindE_eq_Inr split: if_splits)

lemma snapshot_Inr:
  assumes "snapshotHttpRequest limits input = Inr s"
  shows "in_method input = Some (sn_method s) \<and> in_url input = Some (sn_url s) \<and> header_pairs (in_raw input) = Some (sn_headers s) \<and>
    sn_peer s = in_peer input \<and> sn_encrypted s = in_encrypted input \<and>
    (\<forall>h \<in> set (sn_headers s). isFieldName (fst h) \<and> list_all header_char (snd h))"
proof -
  obtain mt target where m: "in_method input = Some mt" "in_url input = Some target"
    using assms by (auto simp: snapshotHttpRequest_def split: if_splits option.splits)
  then obtain headers n where h: "header_pairs (in_raw input) = Some headers" "foldE (snapshot_field limits) 0 headers = Inr n"
      "s = \<lparr>sn_method = mt, sn_url = target, sn_headers = headers, sn_peer = in_peer input, sn_encrypted = in_encrypted input\<rparr>"
    using assms by (auto simp: snapshotHttpRequest_def bindE_eq_Inr split: if_splits option.splits)
  have "\<forall>h \<in> set hs. isFieldName (fst h) \<and> list_all header_char (snd h)" if "foldE (snapshot_field limits) k hs = Inr n" for hs k
    using that
  proof (induction hs arbitrary: k)
    case (Cons e hs)
    then obtain k' where "snapshot_field limits k e = Inr k'" "foldE (snapshot_field limits) k' hs = Inr n"
      by (auto simp: bindE_eq_Inr)
    moreover from this(1) have "isFieldName (fst e) \<and> list_all header_char (snd e)"
      by (auto simp: snapshot_field_def Let_def split: if_splits)
    ultimately show ?case using Cons.IH [of k'] by simp
  qed simp
  with m h show ?thesis by simp
qed

lemma ingress_Inr:
  assumes "ingress_target parse_url cfg s = Inr (a, client)"
  shows "trusts_peer (hc_peers cfg) (sn_peer s) \<and> parseHttpAuthority parse_url (au_original a) = Inr a \<and>
    (hc_family cfg = ForwardedFamily \<longrightarrow> length (field_list (sn_headers s) (lit ''forwarded'')) = 1 \<and>
       (\<forall>name \<in> set x_fields. field_list (sn_headers s) name = [])) \<and>
    (hc_family cfg = XForwardedFamily \<longrightarrow> field_list (sn_headers s) (lit ''forwarded'') = [] \<and>
       field_list (sn_headers s) (lit ''x-forwarded-host'') = [au_original a] \<and>
       field_list (sn_headers s) (lit ''x-forwarded-proto'') = [lit ''https''])"
proof -
  let ?target = "case hc_family cfg of ForwardedFamily \<Rightarrow> forwarded_target (sn_headers s)
      | XForwardedFamily \<Rightarrow> x_forwarded_target parse_url (sn_headers s)"
  have gates: "trusts_peer (hc_peers cfg) (sn_peer s)"
      "\<not> (hc_family cfg = ForwardedFamily \<and> list_ex (\<lambda>name. field_list (sn_headers s) name \<noteq> []) x_fields)"
      "\<not> (hc_family cfg = XForwardedFamily \<and> field_list (sn_headers s) (lit ''forwarded'') \<noteq> [])"
    using assms by (auto simp: ingress_target_def Let_def split: if_splits)
  have "bindE ?target (\<lambda>(host, proto, client).
      if proto \<noteq> lit ''https'' then rejectMapping IngressHttpsRequired
      else bindE (parseHttpAuthority parse_url host) (\<lambda>authority. Inr (authority, client))) = Inr (a, client)"
    using assms gates by (simp add: ingress_target_def Let_def del: lit_Cons)
  then obtain host proto where t: "?target = Inr (host, proto, client)" "proto = lit ''https''"
      "parseHttpAuthority parse_url host = Inr a"
    by (auto simp: bindE_eq_Inr simp del: lit_Cons split: if_splits)
  have single: "field_list hs (lit name) = [v]" if "single_field hs name required = Inr (Some v)" for hs name required v
    using that by (auto simp: single_field_def simp del: lit_Cons split: list.splits if_splits)
  have some: "\<exists>v. r = Some v" if "single_field hs name True = Inr r" for hs name r
    using that by (auto simp: single_field_def simp del: lit_Cons split: list.splits if_splits)
  have x: "field_list (sn_headers s) (lit ''x-forwarded-host'') = [host] \<and> field_list (sn_headers s) (lit ''x-forwarded-proto'') = [proto]"
    if "hc_family cfg = XForwardedFamily"
  proof -
    have "x_forwarded_target parse_url (sn_headers s) = Inr (host, proto, client)" using t(1) that by simp
    then obtain h p where "single_field (sn_headers s) ''x-forwarded-host'' True = Inr h" "single_field (sn_headers s) ''x-forwarded-proto'' True = Inr p"
        "host = the h" "proto = the p"
      by (auto simp: x_forwarded_target_def bindE_eq_Inr)
    with single some show ?thesis by fastforce
  qed
  have f: "length (field_list (sn_headers s) (lit ''forwarded'')) = 1" if "hc_family cfg = ForwardedFamily"
    using t(1) that by (auto simp: forwarded_target_def simp del: lit_Cons split: list.splits)
  have "au_original a = host" using parsed_authority t(3) by blast
  with gates t x f show ?thesis by (auto simp: list_ex_iff simp del: lit_Cons)
qed

section \<open>Mapped requests\<close>

text \<open>C8. A mapped request is one its configuration trusts. Its target is its scheme and authority
  followed by the request target unchanged, within the limit, and their origin is a configured one;
  its method and its headers are those of the captured request, in order and with no byte that
  could end a line, with exactly one \<open>Host\<close>. Directly, the scheme is that of the connection and the
  authority is that field. From a trusted ingress the peer is a configured one, the scheme is
  \<open>https\<close>, and only the selected family of forwarding fields is present, each once.\<close>

theorem mapped_request_trusted:
  assumes "mapHttpSnapshot parse_url cfg input = Inr (MappedHttp m)"
  shows "\<exists>scheme a headers url.
    in_method input = Some (request_method (mp_request m)) \<and> in_url input = Some url \<and>
    targetUri (mp_request m) = scheme_text scheme @ lit ''://'' @ au_original a @ url \<and>
    rawRequestTarget (mp_request m) = Some url \<and> length (targetUri (mp_request m)) \<le> maxUriBytes (hc_limits cfg) \<and>
    parseHttpAuthority parse_url (au_original a) = Inr a \<and> httpOriginKey scheme a \<in> set (hc_origins cfg) \<and>
    header_pairs (in_raw input) = Some headers \<and> request_headers (mp_request m) = map owned_header headers \<and>
    (\<forall>h \<in> set headers. isFieldName (fst h) \<and> list_all header_char (snd h)) \<and>
    field_list headers (lit ''host'') = [mp_internal m] \<and>
    (case hc_mode cfg of
       Direct \<Rightarrow> scheme = (if in_encrypted input then Https else Http) \<and> au_original a = mp_internal m \<and> mp_client m = None
     | TrustedIngress \<Rightarrow> scheme = Https \<and> trusts_peer (hc_peers cfg) (in_peer input) \<and>
         (case hc_family cfg of
            ForwardedFamily \<Rightarrow> length (field_list headers (lit ''forwarded'')) = 1 \<and>
              (\<forall>name \<in> set x_fields. field_list headers name = [])
          | XForwardedFamily \<Rightarrow> field_list headers (lit ''forwarded'') = [] \<and>
              field_list headers (lit ''x-forwarded-host'') = [au_original a] \<and>
              field_list headers (lit ''x-forwarded-proto'') = [lit ''https'']))"
proof -
  have "map_request parse_url cfg input = Inr m"
    using assms by (auto simp: mapHttpSnapshot_def split: sum.splits http_error.splits)
  then obtain s internal t where
    s: "snapshotHttpRequest (hc_limits cfg) input = Inr s" and
    host: "(case field_list (sn_headers s) (lit ''host'') of
         [] \<Rightarrow> rejectMapping HostMissing | [v] \<Rightarrow> parseHttpAuthority parse_url v | _ \<Rightarrow> rejectMapping HostAmbiguous) = Inr internal" and
    "(case hc_mode cfg of
         Direct \<Rightarrow> Inr (if sn_encrypted s then Https else Http, internal, None)
       | TrustedIngress \<Rightarrow> bindE (ingress_target parse_url cfg s) (\<lambda>(a, client). Inr (Https, a, client))) = Inr t" and
    rest: "(case t of (scheme, authority, client) \<Rightarrow>
       if httpOriginKey scheme authority \<notin> set (hc_origins cfg) then rejectMapping OriginDisallowed
       else if maxUriBytes (hc_limits cfg) < length (scheme_text scheme) + 3 + length (au_original authority) + length (sn_url s)
       then rejectMapping MappingResourceLimit
       else bindE (framing_check (sn_headers s)) (\<lambda>body.
       Inr \<lparr>mp_request = \<lparr>request_method = sn_method s,
           targetUri = scheme_text scheme @ lit ''://'' @ au_original authority @ sn_url s,
           rawRequestTarget = Some (sn_url s), request_headers = map owned_header (sn_headers s), request_version = Some Http11\<rparr>,
         mp_source = hc_mode cfg, mp_internal = au_original internal, mp_body = body, mp_client = client\<rparr>)) = Inr m"
    unfolding map_request_def bindE_eq_Inr by blast
  moreover obtain scheme a client where "t = (scheme, a, client)" by (cases t)
  ultimately have t: "(case hc_mode cfg of
         Direct \<Rightarrow> Inr (if sn_encrypted s then Https else Http, internal, None)
       | TrustedIngress \<Rightarrow> bindE (ingress_target parse_url cfg s) (\<lambda>(a, client). Inr (Https, a, client))) = Inr (scheme, a, client)"
    by simp
  from rest \<open>t = _\<close> obtain body where
    o: "httpOriginKey scheme a \<in> set (hc_origins cfg)" and
    l: "length (scheme_text scheme) + 3 + length (au_original a) + length (sn_url s) \<le> maxUriBytes (hc_limits cfg)" and
    m: "m = \<lparr>mp_request = \<lparr>request_method = sn_method s,
           targetUri = scheme_text scheme @ lit ''://'' @ au_original a @ sn_url s,
           rawRequestTarget = Some (sn_url s), request_headers = map owned_header (sn_headers s), request_version = Some Http11\<rparr>,
         mp_source = hc_mode cfg, mp_internal = au_original internal, mp_body = body, mp_client = client\<rparr>"
    by (auto simp: bindE_eq_Inr not_less simp del: lit_Cons split: if_splits)
  have internal: "field_list (sn_headers s) (lit ''host'') = [au_original internal]"
      "parseHttpAuthority parse_url (au_original internal) = Inr internal"
    using host parsed_authority by (auto simp del: lit_Cons split: list.splits)
  note snapshot = snapshot_Inr [OF s]
  show ?thesis
  proof (cases "hc_mode cfg")
    case Direct
    with t have "scheme = (if sn_encrypted s then Https else Http)" "a = internal" "client = None" by simp_all
    with Direct snapshot internal o l m show ?thesis
      by (intro exI [of _ scheme] exI [of _ a] exI [of _ "sn_headers s"] exI [of _ "sn_url s"]) simp
  next
    case TrustedIngress
    with t have i: "ingress_target parse_url cfg s = Inr (a, client)" "scheme = Https" by (auto simp: bindE_eq_Inr)
    with TrustedIngress snapshot internal o l m ingress_Inr [OF i(1)] show ?thesis
      by (intro exI [of _ scheme] exI [of _ a] exI [of _ "sn_headers s"] exI [of _ "sn_url s"])
        (cases "hc_family cfg"; simp del: lit_Cons)
  qed
qed

section \<open>One request\<close>

definition http_sample_config :: http_configuration where
  "http_sample_config = \<lparr>hc_mode = TrustedIngress, hc_family = XForwardedFamily,
     hc_limits = \<lparr>maxHeaderBytes = 16384, maxUriBytes = 16384\<rparr>, hc_origins = [lit ''https://a.b:443''],
     hc_peers = [\<lparr>range_family = IPv4, range_value = 0x0A000000, range_bits = 8\<rparr>]\<rparr>"

definition http_sample_url :: url_parser where
  "http_sample_url v = Some \<lparr>url_protocol = lit ''https:'', url_hostname = butlast (drop 8 v), url_username = [],
     url_password = [], url_port = [], url_search = [], url_hash = [], url_pathname = [47]\<rparr>"

definition http_sample :: http_input where
  "http_sample = \<lparr>in_method = Some (lit ''GET''), in_url = Some (lit ''/c?d''), in_version = lit ''1.1'',
     in_raw = [lit ''Host'', lit ''i'', lit ''X-Forwarded-Host'', lit ''a.b'', lit ''X-Forwarded-Proto'', lit ''https''],
     in_peer = Some (lit ''10.1.2.3''), in_encrypted = False\<rparr>"

lemma sample_not_ip: "isIP (lit ''a.b'') = None" "isIP (lit ''i'') = None"
  by (simp_all add: isIP_def is_ipv4_def is_ipv6_def after_colon_def ipv6_groups_def half_groups_def group_text_def hex_char_def
      digit_def Let_def)

lemma sample_authorities:
  "parseHttpAuthority http_sample_url (lit ''a.b'') = Inr \<lparr>au_original = lit ''a.b'', au_host = lit ''a.b'', au_port = None\<rparr>"
  "parseHttpAuthority http_sample_url (lit ''i'') = Inr \<lparr>au_original = lit ''i'', au_host = lit ''i'', au_port = None\<rparr>"
  using sample_not_ip
  by (simp_all add: parseHttpAuthority_def named_authority_def http_sample_url_def https_url_def port_suffix_def port_value_def
      host_char_def alpha_def digit_def lowercase_def to_lower_def Let_def)

definition http_sample_snapshot :: http_snapshot where
  "http_sample_snapshot = \<lparr>sn_method = lit ''GET'', sn_url = lit ''/c?d'',
     sn_headers = [(lit ''Host'', lit ''i''), (lit ''X-Forwarded-Host'', lit ''a.b''), (lit ''X-Forwarded-Proto'', lit ''https'')],
     sn_peer = Some (lit ''10.1.2.3''), sn_encrypted = False\<rparr>"

lemma sample_snapshot: "snapshotHttpRequest (hc_limits http_sample_config) http_sample = Inr http_sample_snapshot"
  by (simp add: snapshotHttpRequest_def http_sample_def http_sample_config_def http_sample_snapshot_def isFieldName_def
      field_name_char_def alpha_def digit_def target_char_def header_char_def snapshot_field_def Let_def)

lemma sample_fields:
  "field_list (sn_headers http_sample_snapshot) (lit ''host'') = [lit ''i'']"
  "field_list (sn_headers http_sample_snapshot) (lit ''forwarded'') = []"
  "field_list (sn_headers http_sample_snapshot) (lit ''x-forwarded-host'') = [lit ''a.b'']"
  "field_list (sn_headers http_sample_snapshot) (lit ''x-forwarded-proto'') = [lit ''https'']"
  "field_list (sn_headers http_sample_snapshot) (lit ''x-forwarded-port'') = []"
  "field_list (sn_headers http_sample_snapshot) (lit ''x-forwarded-for'') = []"
  "field_list (sn_headers http_sample_snapshot) (lit ''content-length'') = []"
  "field_list (sn_headers http_sample_snapshot) (lit ''transfer-encoding'') = []"
  by (simp_all add: http_sample_snapshot_def field_list_def lowercase_def to_lower_def)

lemma sample_trusted: "trusts_peer (hc_peers http_sample_config) (Some (lit ''10.1.2.3''))"
proof -
  have "parseAddress (Some (lit ''10.1.2.3'')) = Some \<lparr>ip_family = IPv4, ip_value = 0x0A010203\<rparr>"
    by (simp add: parseAddress_def isIP_def is_ipv4_def octet_text_def digit_def js_space_def dotted_value_def Let_def push_bit_eq_mult)
  then show ?thesis
    by (simp add: trusts_peer_def http_sample_config_def range_contains_def width_def drop_bit_eq_div)
qed

definition http_sample_authority :: http_authority where
  "http_sample_authority = \<lparr>au_original = lit ''a.b'', au_host = lit ''a.b'', au_port = None\<rparr>"

lemma sample_ingress: "ingress_target http_sample_url http_sample_config http_sample_snapshot = Inr (http_sample_authority, None)"
proof -
  have family: "hc_family http_sample_config = XForwardedFamily" by (simp add: http_sample_config_def)
  have single: "single_field (sn_headers http_sample_snapshot) ''x-forwarded-host'' True = Inr (Some (lit ''a.b''))"
      "single_field (sn_headers http_sample_snapshot) ''x-forwarded-proto'' True = Inr (Some (lit ''https''))"
      "single_field (sn_headers http_sample_snapshot) ''x-forwarded-port'' False = Inr None"
      "single_field (sn_headers http_sample_snapshot) ''x-forwarded-for'' False = Inr None"
    by (simp_all add: single_field_def sample_fields del: lit_Cons) (simp_all)
  have "x_forwarded_target http_sample_url (sn_headers http_sample_snapshot) = Inr (lit ''a.b'', lit ''https'', None)"
    by (simp add: x_forwarded_target_def single sample_authorities x_port_check_def del: lit_Cons)
  moreover have "sn_peer http_sample_snapshot = Some (lit ''10.1.2.3'')" by (simp add: http_sample_snapshot_def)
  ultimately show ?thesis
    using sample_trusted
    by (simp add: ingress_target_def Let_def family sample_fields(2) sample_authorities http_sample_authority_def del: lit_Cons)
qed

definition http_sample_mapped :: mapped_request where
  "http_sample_mapped = \<lparr>mp_request = \<lparr>request_method = lit ''GET'', targetUri = lit ''https://a.b/c?d'',
       rawRequestTarget = Some (lit ''/c?d''), request_headers = map owned_header (sn_headers http_sample_snapshot),
       request_version = Some Http11\<rparr>,
     mp_source = TrustedIngress, mp_internal = lit ''i'', mp_body = False, mp_client = None\<rparr>"

lemma sample_mapped: "mapHttpSnapshot http_sample_url http_sample_config http_sample = Inr (MappedHttp http_sample_mapped)"
proof -
  have mode: "hc_mode http_sample_config = TrustedIngress" "hc_limits http_sample_config = \<lparr>maxHeaderBytes = 16384, maxUriBytes = 16384\<rparr>"
    by (simp_all add: http_sample_config_def)
  have key: "httpOriginKey Https http_sample_authority \<in> set (hc_origins http_sample_config)"
    by (simp add: httpOriginKey_def http_sample_authority_def http_sample_config_def effective_port_def show_nat.simps)
  have framing: "framing_check (sn_headers http_sample_snapshot) = Inr False"
    by (simp add: framing_check_def sample_fields Let_def del: lit_Cons)
  have length: "length (au_original http_sample_authority) = 3" "length (sn_url http_sample_snapshot) = 4"
    by (simp_all add: http_sample_authority_def http_sample_snapshot_def)
  have uri: "scheme_text Https @ lit ''://'' @ au_original http_sample_authority @ sn_url http_sample_snapshot = lit ''https://a.b/c?d''"
    by (simp add: http_sample_authority_def http_sample_snapshot_def)
  have fields: "sn_method http_sample_snapshot = lit ''GET''" "sn_url http_sample_snapshot = lit ''/c?d''"
    by (simp_all add: http_sample_snapshot_def)
  have "map_request http_sample_url http_sample_config http_sample = Inr http_sample_mapped"
    using uri unfolding map_request_def sample_snapshot bindE_simps sample_fields(1)
    by (simp add: sample_authorities(2) mode sample_ingress key framing length fields http_sample_mapped_def
        del: lit_Cons scheme_text.simps) simp
  then show ?thesis by (simp add: mapHttpSnapshot_def)
qed

theorem mapped_request_trusted_witness:
  "\<exists>a. parseHttpAuthority http_sample_url (au_original a) = Inr a \<and>
     targetUri (mp_request http_sample_mapped) = lit ''https://'' @ au_original a @ lit ''/c?d'' \<and>
     httpOriginKey Https a \<in> set (hc_origins http_sample_config)"
  using mapped_request_trusted [OF sample_mapped]
  by (auto simp: http_sample_config_def http_sample_mapped_def)

end
