(* ===== verification/HttpAdmission.thy ===== *)
theory HttpAdmission
  imports HttpAssessment HttpSafety SchedulerSafety
begin

text \<open>
  What the adapters may rely on: the mapper calls the listener once for a request, an evaluation
  continues only on a decision the policy made for this very assessment, and a request is
  evaluated once, by one integration.
\<close>

section \<open>The mapper\<close>

lemma dispatch_once:
  assumes "node_dispatch parse_url cfg server r s = (q, s')" "distinct (nm_listened s)" "nm_listened s = map fst (nm_results s)"
  shows "distinct (nm_listened s') \<and> nm_listened s' = map fst (nm_results s') \<and>
    (\<forall>id m. map_of (nm_results s) id = Some m \<longrightarrow> map_of (nm_results s') id = Some m)"
  using assms
  by (auto simp: node_dispatch_def map_of_eq_None_iff split: if_splits sum.splits)

text \<open>What a request maps to after its dispatch was captured on a socket of this server, unless it
  was rejected.\<close>

lemma map_after_dispatch:
  assumes "node_dispatch parse_url cfg server r s = (Inr (), s')" "map_of (nm_results s) (nr_id r) = None"
  shows "captured parse_url cfg server r s = Inr (node_map r s') \<and>
    (\<forall>m. node_map r s' = MappedHttp m \<longrightarrow> nr_socket r \<in> set (nm_sockets s) \<and> \<not> sv_insecure server \<and>
       mapHttpSnapshot parse_url cfg (nr_input r) = Inr (MappedHttp m))"
proof -
  obtain result where c: "captured parse_url cfg server r s = Inr result"
      "s' = s\<lparr>nm_results := nm_results s @ [(nr_id r, result)], nm_listened := nm_listened s @ [nr_id r]\<rparr>"
    using assms by (auto simp: node_dispatch_def split: sum.splits)
  then have "node_map r s' = result" using assms(2) by (simp add: node_map_def map_add_def)
  with c(1) show ?thesis by (auto simp: captured_def split: if_splits)
qed

section \<open>Admission\<close>








section \<open>The registry\<close>

text \<open>Every outcome is one of an evaluation, under the integration that owns the request.\<close>

definition registry_inv :: "'i registry \<Rightarrow> bool" where
  "registry_inv g \<longleftrightarrow> map fst (rg_states g) = rg_evaluated g \<and> distinct (rg_evaluated g) \<and>
     (\<forall>(request, s) \<in> set (rg_states g). \<forall>r. rs_settled s = Some r \<longrightarrow>
        (\<exists>mapping verdict fits run. r = fst (evaluate_http (rs_config s) mapping verdict fits run)))"

lemma existing_state_None: "existing_state request cfg adapter g = Inr None \<longleftrightarrow> map_of (rg_states g) request = None"
  by (simp add: existing_state_def split: option.split)

lemma get_http_Inr: "get_http request cfg g = Inr x \<longleftrightarrow>
    (\<exists>s oc. map_of (rg_states g) request = Some s \<and> rs_config s = cfg \<and> rs_settled s = Some (Inr oc) \<and>
       x = (oc_assessment oc, oc_authorization oc))"
proof (cases "map_of (rg_states g) request")
  case (Some s)
  have "existing_state request cfg None g = (if rs_config s \<noteq> cfg then Inl IntegrationError else Inr (Some s))"
    using Some by (simp add: existing_state_def)
  then show ?thesis
    using Some by (auto simp: get_http_def split: option.split sum.split)
qed (simp add: get_http_def existing_state_def)

lemma registry_inv_step:
  assumes "registry_inv g" "registry_step e g = Some g'"
  shows "registry_inv g'"
proof (cases e)
  case (AssessCall request cfg adapter)
  show ?thesis
  proof (cases "existing_state request cfg (Some adapter) g = Inr None")
    case True
    then have fresh: "request \<notin> set (map fst (rg_states g))"
      by (simp add: existing_state_None map_of_eq_None_iff)
    have g': "g' = g\<lparr>rg_states := rg_states g @ [(request, \<lparr>rs_config = cfg, rs_adapter = adapter, rs_settled = None\<rparr>)],
        rg_evaluated := rg_evaluated g @ [request]\<rparr>"
      using assms(2) AssessCall True by (simp add: assess_http_def)
    show ?thesis
      using assms(1) fresh unfolding registry_inv_def g' by fastforce
  next
    case False
    with assms AssessCall show ?thesis by (auto simp: assess_http_def split: sum.splits option.splits)
  qed
next
  case (EvaluationEnds request mapping verdict fits run)
  then obtain s where s: "map_of (rg_states g) request = Some s"
      "g' = g\<lparr>rg_states := map_set request
            (s\<lparr>rs_settled := Some (fst (evaluate_http (rs_config s) mapping verdict fits run))\<rparr>) (rg_states g)\<rparr>"
    using assms(2) by (auto simp: settle_http_def split: option.splits if_splits)
  have "request \<in> set (map fst (rg_states g))" using map_of_SomeD [OF s(1)] by force
  moreover have "distinct (map fst (rg_states g))" "map fst (rg_states g) = rg_evaluated g"
    using assms(1) by (simp_all add: registry_inv_def)
  ultimately have "map fst (rg_states g') = rg_evaluated g'" "distinct (rg_evaluated g')"
      "set (rg_states g') = insert (request, s\<lparr>rs_settled := Some (fst (evaluate_http (rs_config s) mapping verdict fits run))\<rparr>)
         {x \<in> set (rg_states g). fst x \<noteq> request}"
    by (simp_all add: s(2) keys_map_set set_map_set)
  then show ?thesis
    using assms(1) by (auto simp: registry_inv_def)
qed

lemma registry_reachable_inv: "registry_reachable g \<Longrightarrow> registry_inv g"
proof (induction rule: registry_reachable.induct)
  case fresh
  show ?case by (simp add: registry_inv_def new_registry_def)
qed (rule registry_inv_step)

text \<open>A settled outcome stays.\<close>

lemma get_stable:
  assumes "get_http request cfg g = Inr x" "registry_step e g = Some g'"
  shows "get_http request cfg g' = Inr x"
proof -
  obtain s oc where s: "map_of (rg_states g) request = Some s" "rs_config s = cfg" "rs_settled s = Some (Inr oc)"
      "x = (oc_assessment oc, oc_authorization oc)"
    using assms(1) by (auto simp: get_http_Inr)
  have "map_of (rg_states g') request = Some s"
  proof (cases e)
    case (AssessCall r c adapter)
    with assms(2) s show ?thesis
      by (auto simp: assess_http_def map_add_def split: sum.splits option.splits)
  next
    case (EvaluationEnds r mapping verdict fits run)
    with assms(2) s show ?thesis
      by (auto simp: settle_http_def split: option.splits if_splits)
  qed
  with s show ?thesis by (simp add: get_http_Inr)
qed

text \<open>C15. A request is assessed once. Whatever integrations and adapters ask for it, its evaluation is
  started at most once; what \<open>get\<close> returns is the assessment and the authorization of an evaluation
  under the very integration that asks, and every later call leaves it as it is.\<close>

theorem assessed_once:
  assumes "registry_reachable g" "get_http request cfg g = Inr (a, authorization)"
  shows "distinct (rg_evaluated g) \<and> request \<in> set (rg_evaluated g) \<and>
    (\<exists>mapping verdict fits run oc events. evaluate_http cfg mapping verdict fits run = (Inr oc, events) \<and>
       a = oc_assessment oc \<and> authorization = oc_authorization oc) \<and>
    (\<forall>e g'. registry_step e g = Some g' \<longrightarrow> get_http request cfg g' = Inr (a, authorization))"
proof -
  note inv = registry_reachable_inv [OF assms(1)]
  obtain s oc where s: "map_of (rg_states g) request = Some s" "rs_config s = cfg" "rs_settled s = Some (Inr oc)"
      "a = oc_assessment oc" "authorization = oc_authorization oc"
    using assms(2) by (auto simp: get_http_Inr)
  then obtain mapping verdict fits run where e: "Inr oc = fst (evaluate_http cfg mapping verdict fits run)"
    using inv map_of_SomeD [OF s(1)] by (fastforce simp: registry_inv_def)
  have "request \<in> set (rg_evaluated g)"
  proof -
    have "rg_evaluated g = map fst (rg_states g)" using inv by (simp add: registry_inv_def)
    then show ?thesis using map_of_SomeD [OF s(1)] by force
  qed
  moreover have "evaluate_http cfg mapping verdict fits run = (Inr oc, snd (evaluate_http cfg mapping verdict fits run))"
    using e by (simp add: prod_eq_iff)
  then have "\<exists>mapping verdict fits run oc events. evaluate_http cfg mapping verdict fits run = (Inr oc, events) \<and>
       a = oc_assessment oc \<and> authorization = oc_authorization oc"
    using s(4,5) by blast
  moreover have "\<forall>e g'. registry_step e g = Some g' \<longrightarrow> get_http request cfg g' = Inr (a, authorization)"
    using get_stable [OF assms(2)] by simp
  moreover have "distinct (rg_evaluated g)" using inv by (simp add: registry_inv_def)
  ultimately show ?thesis by simp
qed

section \<open>One assessment\<close>

definition admission_config :: http_integration where
  "admission_config = \<lparr>hi_owned = [1, 2, 3, 4], hi_ingress = TrustedIngress, hi_mode = EnforceMode, hi_reject_body = True,
     hi_timeout = 1000, hi_mapping_status = 400, hi_deny_status = 401, hi_rate_status = 429\<rparr>"

definition admission_verdict :: "unit verification_result" where
  "admission_verdict = VerifiedRequest NonceConsumed [] [\<lparr>vr_label = lit ''s'', vr_profile = CloudflareDocs, vr_identity = (),
     vr_claimed = lit ''https://a.b'', vr_components = [], vr_at = 1, vr_reason = NonceConsumed, vr_protected = True\<rparr>]"

definition admission_run :: policy_run where
  "admission_run = \<lparr>pr_calls = [AllowVerifiedCall False, DenyCall, AllowVerifiedCall True], pr_end = Some (ReturnsHandle 1),
     pr_started = 5, pr_ended = 7\<rparr>"

definition admission_outcome :: "unit http_outcome" where
  "admission_outcome = finish_outcome (MappedAssessment http_sample_mapped admission_verdict) (AllowedRequest VerifiedIdentity) None None"

lemma admission_evaluated:
  "evaluate_http admission_config (MappedHttp http_sample_mapped) (Some admission_verdict) True admission_run = (Inr admission_outcome, [])"
proof -
  let ?a = "MappedAssessment http_sample_mapped admission_verdict"
  have a: "eligible_verified ?a" "\<not> body_rejected admission_config ?a"
    by (simp_all add: admission_verdict_def http_sample_mapped_def)
  then have "decisions admission_config ?a (pr_calls admission_run) = [DenyDecision, AllowVerifiedDecision]"
    by (simp add: decisions_def admission_run_def List.map_filter_simps)
  then have "selected_decision admission_config ?a admission_run = Some AllowVerifiedDecision"
    by (simp add: selected_decision_def admission_run_def)
  then have "policy_outcome admission_config ?a admission_run = (Inr admission_outcome, [])"
    using a by (simp add: policy_outcome_def admission_outcome_def admission_run_def admission_config_def double_numeral)
  moreover have "hi_mode admission_config = EnforceMode" by (simp add: admission_config_def)
  ultimately show ?thesis by (simp add: evaluate_http_def admission_verdict_def)
qed

lemma admission_facts: "oc_authorization admission_outcome = AllowedRequest VerifiedIdentity"
  by (simp add: admission_outcome_def finish_outcome_def)


definition admission_registry :: "unit registry" where
  "admission_registry = \<lparr>rg_states = [(7, \<lparr>rs_config = admission_config, rs_adapter = HonoAdapter,
     rs_settled = Some (Inr admission_outcome)\<rparr>)], rg_evaluated = [7]\<rparr>"

lemma admission_reachable: "registry_reachable admission_registry"
proof -
  have 1: "registry_reachable (\<lparr>rg_states = [(7, \<lparr>rs_config = admission_config, rs_adapter = HonoAdapter, rs_settled = None\<rparr>)],
      rg_evaluated = [7]\<rparr> :: unit registry)"
    by (rule registry_reachable.event [OF registry_reachable.fresh, of "AssessCall 7 admission_config HonoAdapter"])
      (simp add: assess_http_def existing_state_def new_registry_def)
  show ?thesis
    by (rule registry_reachable.event [OF 1, of "EvaluationEnds 7 (MappedHttp http_sample_mapped) (Some admission_verdict) True admission_run"])
      (simp add: settle_http_def admission_evaluated admission_registry_def)
qed

theorem assessed_once_witness:
  "\<exists>g'. registry_step (AssessCall 7 admission_config HonoAdapter) admission_registry = Some g' \<and>
     get_http 7 admission_config g' = Inr (oc_assessment admission_outcome, AllowedRequest VerifiedIdentity)"
proof -
  have "get_http 7 admission_config admission_registry = Inr (oc_assessment admission_outcome, AllowedRequest VerifiedIdentity)"
    by (simp add: get_http_Inr admission_registry_def admission_facts)
  note once = assessed_once [OF admission_reachable this]
  have "\<exists>g'. registry_step (AssessCall 7 admission_config HonoAdapter) admission_registry = Some g'"
    by (simp add: assess_http_def existing_state_def admission_registry_def admission_facts)
  with once show ?thesis by blast
qed

end
