(* ===== verification/Signing.thy ===== *)
theory Signing
  imports ProfileMetadata ClockTracker
begin

text \<open>
  The signer, \<^verbatim>\<open>profiles/signer.ts\<close>, with its error codes (\<^verbatim>\<open>signing-errors.ts\<close>), the copy of the
  request (\<^verbatim>\<open>signing-request.ts\<close>), the reading of clock and nonce (\<^verbatim>\<open>signing-providers.ts\<close>) and
  its configuration (\<^verbatim>\<open>signing-config.ts\<close>). What the platform's keys and \<open>new URL\<close> do is the record
  \<open>signer_platform\<close>; the results of the two provider calls are arguments of \<open>sign\<close>.
\<close>

section \<open>Errors\<close>

datatype signing_code =
    ExistingSignatureHeaders | InvalidSigningKey | SigningTestKeyDisallowed | InvalidAgentOrigin
  | InvalidLabel | SigningUnsupportedProfile | UnsupportedComponent | InvalidRequest
  | InvalidSigningOptions | SigningClockUnavailable | NonceGenerationFailed
  | SigningResourceLimit | SigningFailed

text \<open>What a signing operation throws: an error of the class \<open>SigningError\<close>, or an unexpected error of the
  implementation, thrown on.\<close>

datatype signing_error = SigningError signing_code | Unexpected core_error | SigningInvariant

text \<open>\<open>signingFailure\<close> on the errors of the core, and on those of the profile configuration.\<close>

fun signingFailure :: "core_error \<Rightarrow> signing_error" where
  "signingFailure SignatureConfigurationError = SigningError InvalidSigningOptions"
| "signingFailure (SignatureLimitError _ _ _) = SigningError SigningResourceLimit"
| "signingFailure (SignatureError RResourceLimit) = SigningError SigningResourceLimit"
| "signingFailure (SignatureError RUnsupported) = SigningError UnsupportedComponent"
| "signingFailure (SignatureError _) = SigningError InvalidRequest"
| "signingFailure (Rethrown e) = Unexpected (Rethrown e)"

definition signing :: "core_error + 'a \<Rightarrow> signing_error + 'a" where
  "signing r = (case r of Inl e \<Rightarrow> Inl (signingFailure e) | Inr x \<Rightarrow> Inr x)"

definition refused :: "signing_code \<Rightarrow> 'e + 'a \<Rightarrow> signing_error + 'a" where
  "refused failure r = (case r of Inl _ \<Rightarrow> Inl (SigningError failure) | Inr x \<Rightarrow> Inr x)"

section \<open>Providers\<close>

text \<open>The result of one call of the clock, a JavaScript value: \<open>None\<close> when it is not a finite number. The
  result of one call of the nonce generator.\<close>

datatype clock_reading = ClockThrew | ClockGave "rat option"

datatype nonce_reading = NonceThrew | NonceGave js_value

definition readSigningTimestamps :: "clock_reading \<Rightarrow> js_number \<Rightarrow> signing_error + (int \<times> int)" where
  "readSigningTimestamps reading lifetimeSeconds =
     (case lifetimeSeconds of
        JsNotInteger \<Rightarrow> Inl (SigningError InvalidSigningOptions)
      | JsInt lifetime \<Rightarrow>
          if \<not> is_safe_integer lifetime \<or> lifetime \<le> 0 \<or> MAX_SF_INTEGER < lifetime
          then Inl (SigningError InvalidSigningOptions)
          else case reading of
            ClockThrew \<Rightarrow> Inl (SigningError SigningClockUnavailable)
          | ClockGave None \<Rightarrow> Inl (SigningError SigningClockUnavailable)
          | ClockGave (Some milliseconds) \<Rightarrow>
              if milliseconds < 0 then Inl (SigningError SigningClockUnavailable)
              else
                let created = \<lfloor>double (milliseconds / 1000)\<rfloor>; expires = created + lifetime in
                if \<not> is_safe_integer created \<or> \<not> is_safe_integer expires \<or>
                   MAX_SF_INTEGER < created \<or> MAX_SF_INTEGER < expires
                then Inl (SigningError SigningClockUnavailable)
                else Inr (created, expires))"

fun readSigningNonce :: "nonce_reading \<Rightarrow> js_number \<Rightarrow> signing_error + jsstring" where
  "readSigningNonce reading JsNotInteger = Inl (SigningError InvalidSigningOptions)"
| "readSigningNonce reading (JsInt maximum) =
     (if \<not> is_safe_integer maximum \<or> maximum < 1 then Inl (SigningError InvalidSigningOptions)
      else case reading of
        NonceGave (JsString s) \<Rightarrow>
          if isValidNonce (JsString s) (nat maximum) then Inr s else Inl (SigningError NonceGenerationFailed)
      | _ \<Rightarrow> Inl (SigningError NonceGenerationFailed))"

section \<open>The request\<close>

definition snapshot_unsigned_header :: "core_limits \<Rightarrow> nat \<Rightarrow> jsstring \<times> header_value \<Rightarrow> signing_error + nat" where
  "snapshot_unsigned_header limits used entry =
     (let name = fst entry; used' = used + length name + header_length (snd entry) + 4 in
      if maxMessageHeaderBytes limits < used + length name then Inl (SigningError SigningResourceLimit)
      else if lowercase name \<in> set (map lit [''signature'', ''signature-input'', ''signature-agent''])
      then Inl (SigningError ExistingSignatureHeaders)
      else if max_safe < used' \<or> maxMessageHeaderBytes limits < used' then Inl (SigningError SigningResourceLimit)
      else Inr used')"

text \<open>The error of \<open>validateHeaders\<close> as it is mapped here.\<close>

definition header_failure :: "core_error \<Rightarrow> signing_error" where
  "header_failure e = (case signature_reason e of
     None \<Rightarrow> signingFailure e
   | Some r \<Rightarrow> SigningError (if r = RResourceLimit then SigningResourceLimit else InvalidRequest))"

definition snapshotUnsignedRequest :: "request_parts \<Rightarrow> core_limits \<Rightarrow> signing_error + request_parts" where
  "snapshotUnsignedRequest input limits =
     (if maxMessageHeaderBytes limits div 4 < length (request_headers input)
      then Inl (SigningError SigningResourceLimit)
      else
        bindE (foldE (snapshot_unsigned_header limits) 0 (request_headers input)) (\<lambda>_.
        bindE (case validateHeaders (request_headers input) limits of
                 Inl e \<Rightarrow> Inl (header_failure e) | Inr n \<Rightarrow> Inr n) (\<lambda>_.
        if maxTargetUriBytes limits < length (targetUri input) \<or>
           maxSignatureBaseBytes limits < length (request_method input)
        then Inl (SigningError SigningResourceLimit)
        else Inr input)))"

section \<open>The configuration\<close>

text \<open>A value of the options object: the types an option has, a function, or any other value. An own
  property is a data property with a value or an accessor; \<open>NoOptions\<close> is \<open>undefined\<close>.\<close>

datatype core_value = CoreNumeric js_number | CoreFields "js_property js_options"

datatype core_property = CoreData core_value | CoreAccessor

text \<open>An element of the additional components: an object with exactly the data properties \<open>name\<close>, a string,
  and \<open>parameters\<close>, or any other value. A property of the field types: its value as a field type,
  \<open>None\<close> for another value, or an accessor.\<close>

datatype extra_component = ExtraComponent covered_component | OtherExtra

datatype type_property = TypeData "field_type option" | TypeAccessor

datatype 'k signing_value =
    UndefinedValue
  | TextOption jsstring
  | BooleanOption bool
  | KeyOption "'k key_argument"
  | FunctionOption
  | NumericOptions "js_property js_options"
  | CoreOverrides "core_property js_options"
  | ExtraComponents "extra_component list"
  | FieldTypes "type_property js_options"
  | OtherOption

datatype 'k signing_property = SigningData "'k signing_value" | SigningAccessor

definition signing_option_names :: "jsstring list" where
  "signing_option_names = map lit [''privateKey'', ''agentOrigin'', ''profile'', ''label'', ''allowTestKeys'',
     ''clock'', ''nonceGenerator'', ''timePolicy'', ''limits'', ''coreLimits'', ''additionalComponents'',
     ''structuredFieldTypes'']"

abbreviation invalid_signing :: "signing_error + 'a" where
  "invalid_signing \<equiv> Inl (SigningError InvalidSigningOptions)"

text \<open>\<open>dataRecord\<close>: the own properties, each with a string key, allowed if there is a list, and a value.\<close>

fun data_entries :: "jsstring list option \<Rightarrow> ('p \<Rightarrow> 'v option) \<Rightarrow> (js_key \<times> 'p) list \<Rightarrow> signing_error + (jsstring \<times> 'v) list" where
  "data_entries names value [] = Inr []"
| "data_entries names value ((SymbolKey n, p) # ps) = invalid_signing"
| "data_entries names value ((StringKey k, p) # ps) =
     (if (case names of None \<Rightarrow> False | Some ns \<Rightarrow> k \<notin> set ns) then invalid_signing
      else case value p of
        None \<Rightarrow> invalid_signing
      | Some v \<Rightarrow> bindE (data_entries names value ps) (\<lambda>r. Inr ((k, v) # r)))"

fun dataRecord :: "jsstring list option \<Rightarrow> ('p \<Rightarrow> 'v option) \<Rightarrow> 'p js_options \<Rightarrow> signing_error + (jsstring \<times> 'v) list" where
  "dataRecord names value (OwnKeys ps) = data_entries names value ps"
| "dataRecord names value _ = invalid_signing"

fun signing_data :: "'k signing_property \<Rightarrow> 'k signing_value option" where
  "signing_data (SigningData v) = Some v"
| "signing_data SigningAccessor = None"

fun core_data :: "core_property \<Rightarrow> core_value option" where
  "core_data (CoreData v) = Some v"
| "core_data CoreAccessor = None"

fun number_data :: "js_property \<Rightarrow> js_number option" where
  "number_data (DataProperty v) = Some v"
| "number_data Accessor = None"

fun type_data :: "type_property \<Rightarrow> field_type option option" where
  "type_data (TypeData v) = Some v"
| "type_data TypeAccessor = None"

definition signing_option :: "(jsstring \<times> 'k signing_value) list \<Rightarrow> string \<Rightarrow> 'k signing_value" where
  "signing_option own name = (case map_of own (lit name) of None \<Rightarrow> UndefinedValue | Some v \<Rightarrow> v)"

text \<open>What the platform's key objects and \<open>URL\<close> do: the public JWK of a private key, where the
  export may throw, SHA-256, and the Ed25519 signature, which may throw.\<close>

record 'k signer_platform =
  sp_core :: platform
  sp_url :: url_parser
  sp_public :: "'k \<Rightarrow> jwk_object option"
  sp_sha256 :: "u8 list \<Rightarrow> u8 list"
  sp_sign :: "'k \<Rightarrow> u8 list \<Rightarrow> u8 list option"

datatype provider_source = PlatformProvider | CallerProvider

record 'k signing_configuration =
  sc_privateKey :: 'k
  sc_keyid :: jsstring
  sc_profile :: wba_profile
  sc_label :: jsstring
  sc_agentHeader :: jsstring
  sc_components :: "covered_component list"
  sc_fieldTypes :: "(jsstring \<times> field_type) list"
  sc_limits :: core_limits
  sc_profileLimits :: profile_limits
  sc_lifetimeSeconds :: nat
  sc_clock :: provider_source
  sc_nonceGenerator :: provider_source

text \<open>Only \<open>structuredFields\<close> is copied as an object; an object elsewhere is not a number, so not a limit.\<close>

fun fields_override :: "core_value \<Rightarrow> signing_error + core_option" where
  "fields_override (CoreNumeric n) = invalid_signing"
| "fields_override (CoreFields NoOptions) = Inr (CoreOptions NoOptions)"
| "fields_override (CoreFields v) =
     bindE (dataRecord None number_data v) (\<lambda>ns. Inr (CoreOptions (OwnKeys (map (\<lambda>(k, n). (StringKey k, n)) ns))))"

definition core_override :: "jsstring \<times> core_value \<Rightarrow> signing_error + (js_key \<times> core_option)" where
  "core_override e =
     (if fst e = lit ''structuredFields'' then bindE (fields_override (snd e)) (\<lambda>v. Inr (StringKey (fst e), v))
      else Inr (StringKey (fst e), case snd e of CoreNumeric n \<Rightarrow> CoreNumber n | CoreFields _ \<Rightarrow> CoreOptions NotAnObject))"

definition signing_limits :: "'k signing_value \<Rightarrow> signing_error + core_limits" where
  "signing_limits v =
     (case v of
        UndefinedValue \<Rightarrow> signing (resolveCoreLimits (OwnKeys []))
      | CoreOverrides core \<Rightarrow>
          bindE (dataRecord None core_data core) (\<lambda>es.
          bindE (mapE core_override es) (\<lambda>ks.
          signing (resolveCoreLimits (OwnKeys ks))))
      | _ \<Rightarrow> invalid_signing)"

definition numeric_options :: "'k signing_value \<Rightarrow> js_property js_options" where
  "numeric_options v =
     (case v of UndefinedValue \<Rightarrow> NoOptions | NumericOptions p \<Rightarrow> p | _ \<Rightarrow> NotAnObject)"

definition signing_profile :: "'k signing_value \<Rightarrow> signing_error + wba_profile" where
  "signing_profile v =
     (case v of
        UndefinedValue \<Rightarrow> refused SigningUnsupportedProfile (assertSupportedProfile (lit ''ietf-wg-protocol-00''))
      | TextOption profile \<Rightarrow> refused SigningUnsupportedProfile (assertSupportedProfile profile)
      | _ \<Rightarrow> Inl (SigningError SigningUnsupportedProfile))"

definition label_error :: "core_error \<Rightarrow> signing_error" where
  "label_error e = (if signature_reason e = Some RMalformed then SigningError InvalidLabel else signingFailure e)"

definition checked_label :: "core_limits \<Rightarrow> jsstring \<Rightarrow> signing_error + jsstring" where
  "checked_label limits label =
     (if maxKeyLength (structuredFields limits) < length label then Inl (SigningError SigningResourceLimit)
      else case withSfErrors (serialize (FDictionary
          [(label, MItem \<lparr>item_bare = Boolean True, item_parameters = []\<rparr>)]) (sf_options (structuredFields limits))) of
        Inl e \<Rightarrow> Inl (label_error e)
      | Inr _ \<Rightarrow> Inr label)"

definition signing_label :: "core_limits \<Rightarrow> 'k signing_value \<Rightarrow> signing_error + jsstring" where
  "signing_label limits v =
     (case v of
        UndefinedValue \<Rightarrow> checked_label limits (lit ''sig1'')
      | TextOption label \<Rightarrow> checked_label limits label
      | _ \<Rightarrow> Inl (SigningError InvalidLabel))"

definition signing_key :: "'k signer_platform \<Rightarrow> 'k signing_value \<Rightarrow> bool \<Rightarrow> signing_error + ('k \<times> jsstring)" where
  "signing_key P v allowTestKeys =
     (case v of
        KeyOption (KeyObject purpose algorithm k) \<Rightarrow>
          if purpose \<noteq> PrivateKey \<or> algorithm \<noteq> Some (lit ''ed25519'') then Inl (SigningError InvalidSigningKey)
          else case sp_public P k of
            None \<Rightarrow> Inl (SigningError InvalidSigningKey)
          | Some j \<Rightarrow>
              bindE (refused InvalidSigningOptions (ed25519Thumbprint (sp_sha256 P) (Some j))) (\<lambda>keyid.
              if isKnownTestKey keyid \<and> \<not> allowTestKeys then Inl (SigningError SigningTestKeyDisallowed)
              else Inr (k, keyid))
      | _ \<Rightarrow> Inl (SigningError InvalidSigningKey))"

definition signing_origin :: "'k signer_platform \<Rightarrow> profile_limits \<Rightarrow> 'k signing_value \<Rightarrow> signing_error + jsstring" where
  "signing_origin P limits v =
     (case canonicalAgentOrigin (sp_url P) (case v of TextOption s \<Rightarrow> Some s | _ \<Rightarrow> None)
         (JsInt (int (maxAgentUrlBytes limits))) of
        Inr origin \<Rightarrow> Inr origin
      | Inl (CandidateRejection r) \<Rightarrow>
          Inl (SigningError (if r = Unverified ResourceLimit then SigningResourceLimit else InvalidAgentOrigin))
      | Inl _ \<Rightarrow> invalid_signing)"

definition signing_provider :: "'k signing_value \<Rightarrow> signing_error + provider_source" where
  "signing_provider v =
     (case v of
        UndefinedValue \<Rightarrow> Inr PlatformProvider | FunctionOption \<Rightarrow> Inr CallerProvider | _ \<Rightarrow> invalid_signing)"

text \<open>The header value and the covered components of the profile.\<close>

definition agent_header_field :: "wba_profile \<Rightarrow> jsstring \<Rightarrow> jsstring \<Rightarrow> field" where
  "agent_header_field profile label origin =
     (let agent = \<lparr>item_bare = SfString origin, item_parameters = []\<rparr> in
      if profile = WgProtocol00 then FDictionary [(label, MItem agent)] else FItem agent)"

definition required_components :: "wba_profile \<Rightarrow> jsstring \<Rightarrow> covered_component list" where
  "required_components profile label =
     [\<lparr>component_name = lit ''@method'', component_parameters = []\<rparr>,
      \<lparr>component_name = lit ''@target-uri'', component_parameters = []\<rparr>,
      \<lparr>component_name = lit ''signature-agent'',
       component_parameters = (if profile = WgProtocol00 then [(lit ''key'', SfString label)] else [])\<rparr>]"

definition extra_of :: "extra_component \<Rightarrow> signing_error + covered_component" where
  "extra_of e = (case e of ExtraComponent c \<Rightarrow> Inr c | OtherExtra \<Rightarrow> invalid_signing)"

definition chosen_components ::
    "core_limits \<Rightarrow> covered_component list \<Rightarrow> 'k signing_value \<Rightarrow> signing_error + covered_component list" where
  "chosen_components limits required v =
     (case v of
        UndefinedValue \<Rightarrow> Inr required
      | ExtraComponents extras \<Rightarrow>
          if maxComponentsPerSignature limits < length required + length extras
          then Inl (SigningError SigningResourceLimit)
          else bindE (mapE extra_of extras) (\<lambda>cs. Inr (required @ cs))
      | _ \<Rightarrow> invalid_signing)"

definition owned_component :: "item \<Rightarrow> signing_error + covered_component" where
  "owned_component i =
     (case item_bare i of
        SfString name \<Rightarrow> Inr \<lparr>component_name = name, component_parameters = item_parameters i\<rparr>
      | _ \<Rightarrow> Inl SigningInvariant)"

text \<open>The components serialized and parsed back.\<close>

definition ownedComponents ::
    "core_limits \<Rightarrow> jsstring \<Rightarrow> covered_component list \<Rightarrow> signing_error + covered_component list" where
  "ownedComponents limits label components =
     (let sf = sf_options (structuredFields limits) in
      bindE (signing (signatureInnerList
        \<lparr>sig_label = label, sig_components = components, sig_parameters = []\<rparr> limits)) (\<lambda>inner.
      bindE (signing (withSfErrors (serialize (FDictionary [(label, MInnerList inner)]) sf))) (\<lambda>canonical.
      bindE (signing (withSfErrors (parse (InText canonical) TDictionary sf))) (\<lambda>parsed.
      case field_entries parsed of
        (_, MInnerList l) # _ \<Rightarrow> mapE owned_component (inner_items l)
      | _ \<Rightarrow> Inl SigningInvariant))))"

text \<open>Names are compared with \<open>toLowerCase\<close> as names of ASCII letters.\<close>

definition add_field_type :: "(jsstring \<times> field_type) list \<Rightarrow> jsstring \<times> field_type option \<Rightarrow> signing_error + (jsstring \<times> field_type) list" where
  "add_field_type types e =
     (case snd e of
        None \<Rightarrow> invalid_signing
      | Some t \<Rightarrow> if fst e \<noteq> lowercase (fst e) then invalid_signing else Inr (map_set (fst e) t types))"

definition signing_field_types :: "wba_profile \<Rightarrow> 'k signing_value \<Rightarrow> signing_error + (jsstring \<times> field_type) list" where
  "signing_field_types profile v =
     (let agentType = (if profile = WgProtocol00 then TDictionary else TItem) in
      bindE (case v of
               UndefinedValue \<Rightarrow> Inr []
             | FieldTypes given \<Rightarrow> bindE (dataRecord None type_data given) (foldE add_field_type [])
             | _ \<Rightarrow> invalid_signing) (\<lambda>types.
      if map_of types (lit ''signature-agent'') \<notin> {None, Some agentType} then invalid_signing
      else Inr (map_set (lit ''signature-agent'') agentType types)))"

definition resolve_signing ::
    "'k signer_platform \<Rightarrow> (jsstring \<times> 'k signing_value) list \<Rightarrow> signing_error + 'k signing_configuration" where
  "resolve_signing P own =
     bindE (signing_limits (signing_option own ''coreLimits'')) (\<lambda>limits.
     bindE (refused InvalidSigningOptions (resolveProfileLimits (numeric_options (signing_option own ''limits'')))) (\<lambda>profileLimits.
     bindE (refused InvalidSigningOptions (resolveTimePolicy (numeric_options (signing_option own ''timePolicy'')))) (\<lambda>time.
     bindE (signing_profile (signing_option own ''profile'')) (\<lambda>profile.
     bindE (signing_label limits (signing_option own ''label'')) (\<lambda>label.
     bindE (case signing_option own ''allowTestKeys'' of
              UndefinedValue \<Rightarrow> Inr False | BooleanOption b \<Rightarrow> Inr b | _ \<Rightarrow> invalid_signing) (\<lambda>allowTestKeys.
     bindE (signing_key P (signing_option own ''privateKey'') allowTestKeys) (\<lambda>(privateKey, keyid).
     bindE (signing_origin P profileLimits (signing_option own ''agentOrigin'')) (\<lambda>origin.
     bindE (signing_provider (signing_option own ''clock'')) (\<lambda>clock.
     bindE (signing_provider (signing_option own ''nonceGenerator'')) (\<lambda>nonceGenerator.
     bindE (signing (withSfErrors (serialize (agent_header_field profile label origin)
       (sf_options (structuredFields limits))))) (\<lambda>agentHeader.
     bindE (chosen_components limits (required_components profile label) (signing_option own ''additionalComponents'')) (\<lambda>components.
     bindE (ownedComponents limits label components) (\<lambda>owned.
     bindE (refused UnsupportedComponent (assertSupportedComponents
       \<lparr>sig_label = label, sig_components = owned, sig_parameters = []\<rparr> profile)) (\<lambda>_.
     bindE (signing_field_types profile (signing_option own ''structuredFieldTypes'')) (\<lambda>fieldTypes.
     Inr \<lparr>sc_privateKey = privateKey, sc_keyid = keyid, sc_profile = profile, sc_label = label,
          sc_agentHeader = agentHeader, sc_components = owned, sc_fieldTypes = fieldTypes,
          sc_limits = limits, sc_profileLimits = profileLimits,
          sc_lifetimeSeconds = signingLifetimeSeconds time, sc_clock = clock, sc_nonceGenerator = nonceGenerator\<rparr>)))))))))))))))"

definition resolveSigningConfiguration ::
    "'k signer_platform \<Rightarrow> 'k signing_property js_options \<Rightarrow> signing_error + 'k signing_configuration" where
  "resolveSigningConfiguration P options =
     bindE (dataRecord (Some signing_option_names) signing_data options) (resolve_signing P)"

section \<open>Signing a request\<close>

record signed_request_headers =
  out_signatureInput :: jsstring
  out_signature :: jsstring
  out_signatureAgent :: jsstring

definition signing_input :: "'k signing_configuration \<Rightarrow> int \<Rightarrow> int \<Rightarrow> jsstring \<Rightarrow> signature_input" where
  "signing_input cfg created expires nonce =
     \<lparr>sig_label = sc_label cfg, sig_components = sc_components cfg,
      sig_parameters = [(lit ''created'', Integer created), (lit ''expires'', Integer expires),
        (lit ''keyid'', SfString (sc_keyid cfg)), (lit ''alg'', SfString (lit ''ed25519'')),
        (lit ''nonce'', SfString nonce), (lit ''tag'', SfString (lit ''web-bot-auth''))]\<rparr>"

definition signature_field :: "jsstring \<Rightarrow> u8 list \<Rightarrow> field" where
  "signature_field label bytes = FDictionary [(label, MItem \<lparr>item_bare = Bytes bytes, item_parameters = []\<rparr>)]"

definition unsignedSignature :: "'k signing_configuration \<Rightarrow> u8 list \<Rightarrow> signing_error + jsstring" where
  "unsignedSignature cfg bytes =
     signing (withSfErrors (serialize (signature_field (sc_label cfg) bytes) (sf_options (structuredFields (sc_limits cfg)))))"

text \<open>The three fields appended to the headers of a request.\<close>

definition agent_field :: "jsstring \<Rightarrow> header_fields" where
  "agent_field agent = [(lit ''Signature-Agent'', TextValue agent)]"

definition output_fields :: "jsstring \<Rightarrow> jsstring \<Rightarrow> jsstring \<Rightarrow> header_fields" where
  "output_fields signatureInput signature agent =
     [(lit ''Signature-Input'', TextValue signatureInput), (lit ''Signature'', TextValue signature)] @ agent_field agent"

definition signing_options :: "'k signing_configuration \<Rightarrow> canonical_options" where
  "signing_options cfg = \<lparr>option_limits = core_options (sc_limits cfg),
     structuredFieldTypes = map (\<lambda>(name, t). (name, Some t)) (sc_fieldTypes cfg)\<rparr>"

definition signature_of :: "'k signer_platform \<Rightarrow> 'k \<Rightarrow> u8 list \<Rightarrow> signing_error + u8 list" where
  "signature_of P k bytes =
     (case sp_sign P k bytes of
        None \<Rightarrow> Inl (SigningError SigningFailed)
      | Some s \<Rightarrow> if length s \<noteq> 64 then Inl (SigningError SigningFailed) else Inr s)"

definition sign_request ::
    "'k signer_platform \<Rightarrow> 'k signing_configuration \<Rightarrow> request_parts \<Rightarrow> clock_reading \<Rightarrow> nonce_reading
       \<Rightarrow> signing_error + signed_request_headers" where
  "sign_request P cfg request reading drawn =
     (let limits = sc_limits cfg in
      bindE (snapshotUnsignedRequest request limits) (\<lambda>snapshot.
      bindE (readSigningTimestamps reading (JsInt (int (sc_lifetimeSeconds cfg)))) (\<lambda>(created, expires).
      bindE (readSigningNonce drawn (JsInt (int (maxNonceBytes (sc_profileLimits cfg))))) (\<lambda>nonce.
      let i = signing_input cfg created expires nonce in
      bindE (signing (signatureInnerList i limits)) (\<lambda>inner.
      bindE (signing (withSfErrors (serialize (FDictionary [(sc_label cfg, MInnerList inner)])
        (sf_options (structuredFields limits))))) (\<lambda>signatureInput.
      bindE (unsignedSignature cfg (replicate 64 0)) (\<lambda>placeholder.
      bindE (signing (checkLimit limits SignatureHeaderBytes (length signatureInput + length placeholder))) (\<lambda>_.
      bindE (signing (validateHeaders (request_headers snapshot @
        output_fields signatureInput placeholder (sc_agentHeader cfg)) limits)) (\<lambda>_.
      bindE (signing (createSignatureBase (sp_core P) (RequestMessage (snapshot\<lparr>request_headers :=
        request_headers snapshot @ agent_field (sc_agentHeader cfg)\<rparr>)) i (signing_options cfg))) (\<lambda>base.
      bindE (signature_of P (sc_privateKey cfg) (base_bytes base)) (\<lambda>signature.
      bindE (unsignedSignature cfg signature) (\<lambda>signatureText.
      Inr \<lparr>out_signatureInput = signatureInput, out_signature = signatureText,
           out_signatureAgent = sc_agentHeader cfg\<rparr>))))))))))))"

text \<open>The default nonce: random bytes in base64url.\<close>

definition default_nonce :: "u8 list \<Rightarrow> nonce_reading" where
  "default_nonce bytes = NonceGave (JsString (base64url_encode bytes))"

end
