(* ===== verification/SigningSafety.thy ===== *)
theory SigningSafety
  imports Signing VerifierSample
begin

text \<open>
  What a signer writes is what a verifier reads: the three fields, appended to the request they were
  made for, give back the signature input that was signed, cover what the profile requires, carry
  metadata that passes the verifier's reading of it, and verify under the matching public key.
\<close>

section \<open>Errors\<close>

lemma signing_Inr [simp]: "signing r = Inr x \<longleftrightarrow> r = Inr x"
  by (simp add: signing_def split: sum.split)

lemma refused_Inr [simp]: "refused c r = Inr x \<longleftrightarrow> r = Inr x"
  by (simp add: refused_def split: sum.split)

lemma signing_return [simp]: "signing (Inr x) = Inr x" "refused c (Inr x) = Inr x"
  by (simp_all add: signing_def refused_def)

section \<open>Providers\<close>

lemma timestamps_Inr:
  assumes "readSigningTimestamps reading (JsInt lifetime) = Inr (created, expires)"
  shows "\<exists>ms. reading = ClockGave (Some ms) \<and> created = \<lfloor>double (ms / 1000)\<rfloor>" "0 \<le> created"
    "expires = created + lifetime" "expires \<le> MAX_SF_INTEGER" "0 < lifetime" "created < expires"
proof -
  from assms obtain ms where ms: "reading = ClockGave (Some ms)" "0 \<le> ms" "created = \<lfloor>double (ms / 1000)\<rfloor>"
      "expires = created + lifetime" "expires \<le> MAX_SF_INTEGER" "0 < lifetime"
    by (auto simp: readSigningTimestamps_def Let_def split: clock_reading.splits option.splits if_splits)
  then show "\<exists>ms. reading = ClockGave (Some ms) \<and> created = \<lfloor>double (ms / 1000)\<rfloor>" "expires = created + lifetime"
    "expires \<le> MAX_SF_INTEGER" "0 < lifetime" "created < expires"
    by auto
  show "0 \<le> created" using ms(2,3) double_zero_le [of "ms / 1000"] by simp
qed

lemma nonce_Inr:
  "readSigningNonce drawn (JsInt maximum) = Inr nonce \<longleftrightarrow>
     drawn = NonceGave (JsString nonce) \<and> 1 \<le> maximum \<and> is_safe_integer maximum \<and>
     isValidNonce (JsString nonce) (nat maximum)"
  by (auto split: nonce_reading.splits js_value.splits if_splits)

text \<open>The default generator never fails: resolved limits leave room for the text of its bytes.\<close>

lemma default_nonce_accepted:
  assumes "resolveProfileLimits options = Inr l" "length bytes = generatedNonceBytes l"
  shows "readSigningNonce (default_nonce bytes) (JsInt (int (maxNonceBytes l))) = Inr (base64url_encode bytes)"
proof -
  from assms(1) obtain r where r: "resolveNumericOptions DEFAULT_PROFILE_LIMITS options InvalidResourceLimits
        (map lit [''maxJwksBytes'', ''maxKeys'', ''maxCandidates'', ''maxNonceBytes'', ''maxScopeBytes'',
          ''maxAgentBindings'', ''maxAgentUrlBytes'']) = Inr r"
      and n: "generatedNonceBytes l = number_at r ''generatedNonceBytes''" "maxNonceBytes l = number_at r ''maxNonceBytes''"
      and fits: "(generatedNonceBytes l * 4 + 2) div 3 \<le> maxNonceBytes l"
    by (auto simp: resolveProfileLimits_def bindE_eq_Inr Let_def simp del: lit_Cons split: if_splits)
  have resolved: "resolved_numbers DEFAULT_PROFILE_LIMITS (map lit [''maxJwksBytes'', ''maxKeys'', ''maxCandidates'',
      ''maxNonceBytes'', ''maxScopeBytes'', ''maxAgentBindings'', ''maxAgentUrlBytes'']) r"
    by (rule resolveNumericOptions_resolved [OF r]) (simp add: resolved_numbers_def DEFAULT_PROFILE_LIMITS_def max_safe_def)
  have "0 < generatedNonceBytes l" "maxNonceBytes l \<le> max_safe"
    using number_at_resolved [OF resolved, of "''generatedNonceBytes''"] number_at_resolved [OF resolved, of "''maxNonceBytes''"] n
    by (simp_all add: DEFAULT_PROFILE_LIMITS_def)
  moreover from this(1) have "1 \<le> (generatedNonceBytes l * 4 + 2) div 3" by simp
  moreover have "length (base64url_encode bytes) = (generatedNonceBytes l * 4 + 2) div 3"
    using assms(2) by (simp add: base64url_encode_def length_b64_sextets mult.commute)
  moreover have "list_all printable (base64url_encode bytes)"
    using base64url_chars [of bytes] by (auto simp: list_all_iff base64url_char_def alpha_def digit_def printable_def)
  ultimately show ?thesis
    using fits by (auto simp: default_nonce_def nonce_Inr isValidNonce_def is_safe_integer_def simp del: readSigningNonce.simps)
qed

section \<open>The request\<close>

definition signature_names :: "jsstring list" where
  "signature_names = map lit [''signature'', ''signature-input'', ''signature-agent'']"

lemma snapshot_headers_clean:
  "foldE (snapshot_unsigned_header limits) n hs = Inr m \<Longrightarrow> \<forall>h \<in> set hs. lowercase (fst h) \<notin> set signature_names"
proof (induction hs arbitrary: n)
  case (Cons h hs)
  then obtain k where "snapshot_unsigned_header limits n h = Inr k" "foldE (snapshot_unsigned_header limits) k hs = Inr m"
    by (auto simp: bindE_eq_Inr)
  moreover from this(1) have "lowercase (fst h) \<notin> set signature_names"
    unfolding signature_names_def snapshot_unsigned_header_def Let_def by (auto split: if_splits simp del: lit_Cons)
  ultimately show ?case using Cons.IH by simp
qed simp

lemma unsigned_Inr:
  assumes "snapshotUnsignedRequest request limits = Inr s"
  shows "s = request" "\<forall>h \<in> set (request_headers request). lowercase (fst h) \<notin> set signature_names"
  using assms by (auto simp: snapshotUnsignedRequest_def bindE_eq_Inr split: if_splits dest: snapshot_headers_clean)

lemma bindE_return [simp]: "bindE r Inr = r"
  by (cases r) simp_all

lemma mapE_append: "mapE f (xs @ ys) = bindE (mapE f xs) (\<lambda>a. bindE (mapE f ys) (\<lambda>b. Inr (a @ b)))"
  by (induction xs) (simp_all add: bindE_assoc)

lemma fieldValues_append:
  "fieldValues (hs @ ks) name v = bindE (fieldValues hs name v) (\<lambda>a. bindE (fieldValues ks name v) (\<lambda>b. Inr (a @ b)))"
  by (simp add: fieldValues_def mapE_append)

lemma fieldValues_none:
  "\<forall>h \<in> set hs. lowercase (fst h) \<noteq> name \<Longrightarrow> fieldValues hs name v = Inr []"
  by (simp add: fieldValues_def filter_empty_conv)

lemma output_names:
  "lowercase (lit ''Signature-Input'') = lit ''signature-input''" "lowercase (lit ''Signature'') = lit ''signature''"
  "lowercase (lit ''Signature-Agent'') = lit ''signature-agent''"
  by (simp_all add: lowercase_def to_lower_def)

lemma distinct_names:
  "lit ''signature-input'' \<noteq> lit ''signature''" "lit ''signature-input'' \<noteq> lit ''signature-agent''"
  "lit ''signature'' \<noteq> lit ''signature-agent''"
  by simp_all

text \<open>A field that is neither of the two signature fields has the same values with and without them.\<close>

lemma fieldValues_output:
  assumes "name \<noteq> lit ''signature-input''" "name \<noteq> lit ''signature''"
  shows "fieldValues (hs @ output_fields a b g) name v = fieldValues (hs @ agent_field g) name v"
proof -
  have "fieldValues (output_fields a b g) name v = fieldValues (agent_field g) name v"
    using assms unfolding output_fields_def fieldValues_def by (simp add: output_names del: lit_Cons)
  then show ?thesis by (simp add: fieldValues_append)
qed

lemma fieldValues_signature:
  assumes clean: "\<forall>h \<in> set hs. lowercase (fst h) \<notin> set signature_names" and "solid a" "solid b"
  shows "fieldValues (hs @ output_fields a b g) (lit ''signature-input'') None = Inr [a]"
    "fieldValues (hs @ output_fields a b g) (lit ''signature'') None = Inr [b]"
proof -
  have "fieldValues hs (lit ''signature-input'') None = Inr []" "fieldValues hs (lit ''signature'') None = Inr []"
    using clean by (auto simp: signature_names_def simp del: lit_Cons intro!: fieldValues_none)
  moreover have "fieldValues (output_fields a b g) (lit ''signature-input'') None = Inr [a]"
      "fieldValues (output_fields a b g) (lit ''signature'') None = Inr [b]"
    using assms(2,3) distinct_names
    by (simp_all add: output_fields_def agent_field_def fieldValues_def output_names normalizeValue_solid del: lit_Cons)
  ultimately show "fieldValues (hs @ output_fields a b g) (lit ''signature-input'') None = Inr [a]"
    "fieldValues (hs @ output_fields a b g) (lit ''signature'') None = Inr [b]"
    by (simp_all add: fieldValues_append)
qed

section \<open>The size of the headers\<close>

definition header_size :: "jsstring \<times> header_value \<Rightarrow> nat" where
  "header_size h = length (fst h) + header_length (snd h) + 4"

lemma validate_fold:
  "foldE (validate_header limits) k hs = Inr n \<longleftrightarrow>
     n = k + sum_list (map header_size hs) \<and>
     (hs = [] \<or> n \<le> maxMessageHeaderBytes limits \<and> n \<le> max_safe) \<and>
     list_all (\<lambda>h. isFieldName (fst h) \<and> ascii_value (snd h)) hs"
proof (induction hs arbitrary: k)
  case (Cons h hs)
  have h: "validate_header limits k h = Inr m \<longleftrightarrow> m = k + header_size h \<and> m \<le> maxMessageHeaderBytes limits \<and>
      m \<le> max_safe \<and> isFieldName (fst h) \<and> ascii_value (snd h)" for m
    by (simp add: validate_header_def header_size_def bindE_eq_Inr Let_def add_ac) blast
  have "foldE (validate_header limits) k (h # hs) = Inr n \<longleftrightarrow> k + header_size h \<le> maxMessageHeaderBytes limits \<and>
      k + header_size h \<le> max_safe \<and> isFieldName (fst h) \<and> ascii_value (snd h) \<and>
      foldE (validate_header limits) (k + header_size h) hs = Inr n"
    by (auto simp: bindE_eq_Inr h)
  then show ?case by (cases "hs = []") (auto simp: Cons.IH)
qed auto

lemma validateHeaders_Inr:
  "validateHeaders hs limits = Inr n \<longleftrightarrow> n = sum_list (map header_size hs) \<and>
     (hs = [] \<or> n \<le> maxMessageHeaderBytes limits \<and> n \<le> max_safe) \<and>
     list_all (\<lambda>h. isFieldName (fst h) \<and> ascii_value (snd h)) hs"
  by (simp add: validateHeaders_def validate_fold)

section \<open>The base of the request as it is sent\<close>

lemma headerComponent_same:
  "fieldValues hs (component_name c) v = fieldValues hs' (component_name c) v \<Longrightarrow>
     headerComponent hs v c flags limits options = headerComponent hs' v c flags limits options"
  by (simp add: headerComponent_def)

lemma component_value_same:
  assumes "fieldValues hs (component_name c) (request_version r) = fieldValues hs' (component_name c) (request_version r)"
  shows "component_value U (RequestMessage (r\<lparr>request_headers := hs\<rparr>)) c limits options
    = component_value U (RequestMessage (r\<lparr>request_headers := hs'\<rparr>)) c limits options"
proof -
  have "field_value (RequestMessage (r\<lparr>request_headers := hs\<rparr>)) c flags limits options
      = field_value (RequestMessage (r\<lparr>request_headers := hs'\<rparr>)) c flags limits options" for flags
    using headerComponent_same [OF assms] by (simp add: field_value_def)
  moreover have "derived_value U (RequestMessage (r\<lparr>request_headers := hs\<rparr>)) c flags limits
      = derived_value U (RequestMessage (r\<lparr>request_headers := hs'\<rparr>)) c flags limits" for flags
    by (simp add: derived_value_def requestComponent_def)
  ultimately show ?thesis by (simp add: component_value_def cong: if_cong)
qed

lemma base_same:
  assumes base: "createSignatureBase U (RequestMessage (r\<lparr>request_headers := hs\<rparr>)) i options = Inr b"
    and same: "\<forall>c \<in> set (sig_components i). fieldValues hs (component_name c) (request_version r)
      = fieldValues hs' (component_name c) (request_version r)"
    and valid: "\<And>limits. resolveCoreLimits (option_limits options) = Inr limits \<Longrightarrow> \<exists>n. validateHeaders hs' limits = Inr n"
  shows "createSignatureBase U (RequestMessage (r\<lparr>request_headers := hs'\<rparr>)) i options = Inr b"
proof -
  have steps: "foldE (add_component U (RequestMessage (r\<lparr>request_headers := hs\<rparr>)) limits options) st cs
      = foldE (add_component U (RequestMessage (r\<lparr>request_headers := hs'\<rparr>)) limits options) st cs"
    if "set cs \<subseteq> set (sig_components i)" for limits st cs
    using that
  proof (induction cs arbitrary: st)
    case (Cons c cs)
    then have v: "component_value U (RequestMessage (r\<lparr>request_headers := hs\<rparr>)) c limits options
        = component_value U (RequestMessage (r\<lparr>request_headers := hs'\<rparr>)) c limits options"
      using same by (intro component_value_same) simp
    have "add_component U (RequestMessage (r\<lparr>request_headers := hs\<rparr>)) limits options st c
        = add_component U (RequestMessage (r\<lparr>request_headers := hs'\<rparr>)) limits options st c"
      unfolding add_component_def v by (rule refl)
    with Cons show ?case by simp
  qed simp
  from base obtain limits where l: "resolveCoreLimits (option_limits options) = Inr limits"
      "base_within U (RequestMessage (r\<lparr>request_headers := hs\<rparr>)) i options limits = Inr b"
    by (auto simp: createSignatureBase_def bindE_eq_Inr)
  obtain n where "validateHeaders hs' limits = Inr n" using valid [OF l(1)] by blast
  with l show ?thesis
    by (auto simp: createSignatureBase_def base_within_def bindE_eq_Inr steps [OF subset_refl])
qed

section \<open>The configuration\<close>

lemma owned_items: "mapE owned_component (map component_item cs) = Inr cs"
  by (induction cs) (simp_all add: owned_component_def component_item_def)

lemma serialized_fits:
  assumes "serialize f (sf_options L) = Inr t" "units_field f" "safe_limits L"
  shows "t = text_field f" "valid_field L f" "length t \<le> maxOutputBytes L"
proof -
  have r: "resolveLimits (sf_options L) = Inr L" using assms(3) by (rule resolve_own)
  have "valid_field L f" "fits_output L (text_field f) (occ_field f)" "t = text_field f"
    using assms(1) unfolding serialize_iff [OF assms(2)] r by auto
  then show "t = text_field f" "valid_field L f" "length t \<le> maxOutputBytes L"
    by (auto simp: fits_output_def resolved_within [OF r])
qed

text \<open>The components come back from the round trip as they were chosen.\<close>

lemma ownedComponents_Inr:
  assumes o: "ownedComponents limits label cs = Inr own_cs" and L: "safe_core limits"
    and fit: "maxOutputBytes (structuredFields limits) \<le> maxInputBytes (structuredFields limits)"
  shows "own_cs = cs"
proof -
  define i where "i = \<lparr>sig_label = label, sig_components = cs, sig_parameters = []\<rparr>"
  let ?f = "FDictionary [(label, MInnerList (inner_of i))]"
  from o obtain inner t where inner: "signatureInnerList i limits = Inr inner"
      and t: "serialize (FDictionary [(label, MInnerList inner)]) (sf_options (structuredFields limits)) = Inr t"
      and own_cs: "(case parse (InText t) TDictionary (sf_options (structuredFields limits)) of
        Inl e \<Rightarrow> Inl (signingFailure (core_error_of e)) | Inr parsed \<Rightarrow> (case field_entries parsed of
          (_, MInnerList l) # _ \<Rightarrow> mapE owned_component (inner_items l) | _ \<Rightarrow> Inl SigningInvariant)) = Inr own_cs"
    by (auto simp: ownedComponents_def i_def Let_def bindE_eq_Inr)
  have in_: "inner = inner_of i" and u: "units_member (MInnerList (inner_of i))"
    using signatureInnerList_Inr [OF inner L] by auto
  have sf: "safe_limits (structuredFields limits)" using L by (simp add: safe_core_def)
  have "length t \<le> maxInputBytes (structuredFields limits)"
    using serialized_fits(3) [OF t _ sf] u fit by (simp add: in_)
  from parse_entry [OF t [unfolded in_] u sf this]
  have "parse (InText t) TDictionary (sf_options (structuredFields limits)) = Inr ?f" by blast
  with own_cs show "own_cs = cs" by (simp add: inner_of_def i_def owned_items)
qed

lemma configuration:
  assumes cfg: "resolveSigningConfiguration P options = Inr cfg"
    and fit: "maxOutputBytes (structuredFields (sc_limits cfg)) \<le> maxInputBytes (structuredFields (sc_limits cfg))"
  shows "safe_core (sc_limits cfg)"
    "\<exists>extras. sc_components cfg = required_components (sc_profile cfg) (sc_label cfg) @ extras"
    "\<forall>ps. assertSupportedComponents \<lparr>sig_label = sc_label cfg, sig_components = sc_components cfg, sig_parameters = ps\<rparr>
       (sc_profile cfg) = Inr ()"
    "\<exists>bytes. sc_keyid cfg = base64url_encode (sp_sha256 P bytes)"
    "\<exists>own origin. dataRecord (Some signing_option_names) signing_data options = Inr own \<and>
       signing_origin P (sc_profileLimits cfg) (signing_option own ''agentOrigin'') = Inr origin \<and>
       serialize (agent_header_field (sc_profile cfg) (sc_label cfg) origin)
         (sf_options (structuredFields (sc_limits cfg))) = Inr (sc_agentHeader cfg)"
proof -
  from cfg obtain own where own: "resolve_signing P own = Inr cfg" "dataRecord (Some signing_option_names) signing_data options = Inr own"
    by (auto simp: resolveSigningConfiguration_def bindE_eq_Inr)
  from own(1) obtain origin components privateKey allow where r:
      "signing_limits (signing_option own ''coreLimits'') = Inr (sc_limits cfg)"
      "signing_key P (signing_option own ''privateKey'') allow = Inr (privateKey, sc_keyid cfg)"
      "serialize (agent_header_field (sc_profile cfg) (sc_label cfg) origin)
         (sf_options (structuredFields (sc_limits cfg))) = Inr (sc_agentHeader cfg)"
      "chosen_components (sc_limits cfg) (required_components (sc_profile cfg) (sc_label cfg))
         (signing_option own ''additionalComponents'') = Inr components"
      "ownedComponents (sc_limits cfg) (sc_label cfg) components = Inr (sc_components cfg)"
      "assertSupportedComponents \<lparr>sig_label = sc_label cfg, sig_components = sc_components cfg, sig_parameters = []\<rparr>
         (sc_profile cfg) = Inr ()"
      "signing_origin P (sc_profileLimits cfg) (signing_option own ''agentOrigin'') = Inr origin"
    by (auto simp: resolve_signing_def bindE_eq_Inr)
  show L: "safe_core (sc_limits cfg)"
    using r(1) by (auto simp: signing_limits_def bindE_eq_Inr simp del: resolveCoreLimits.simps
        dest: resolve_core_safe split: signing_value.splits)
  have "sc_components cfg = components" by (rule ownedComponents_Inr [OF r(5) L fit])
  moreover have "\<exists>extras. components = required_components (sc_profile cfg) (sc_label cfg) @ extras"
    using r(4) by (auto simp: chosen_components_def bindE_eq_Inr split: signing_value.splits if_splits)
  ultimately show "\<exists>extras. sc_components cfg = required_components (sc_profile cfg) (sc_label cfg) @ extras" by simp
  show "\<forall>ps. assertSupportedComponents \<lparr>sig_label = sc_label cfg, sig_components = sc_components cfg, sig_parameters = ps\<rparr>
       (sc_profile cfg) = Inr ()"
    using r(6) by (auto simp: assertSupportedComponents_def split: if_splits)
  obtain x where "material_thumbprint (sp_sha256 P) x = sc_keyid cfg"
    using r(2) by (auto simp: signing_key_def bindE_eq_Inr ed25519Thumbprint_def
        split: signing_value.splits key_argument.splits option.splits if_splits)
  then show "\<exists>bytes. sc_keyid cfg = base64url_encode (sp_sha256 P bytes)"
    unfolding material_thumbprint_def by metis
  show "\<exists>own origin. dataRecord (Some signing_option_names) signing_data options = Inr own \<and>
       signing_origin P (sc_profileLimits cfg) (signing_option own ''agentOrigin'') = Inr origin \<and>
       serialize (agent_header_field (sc_profile cfg) (sc_label cfg) origin)
         (sf_options (structuredFields (sc_limits cfg))) = Inr (sc_agentHeader cfg)"
    using r(3,7) own(2) by blast
qed

section \<open>The texts\<close>

lemma solid_text_quoted:
  assumes "valid_field L (FItem \<lparr>item_bare = SfString u, item_parameters = []\<rparr>)"
  shows "solid (text_field (FItem \<lparr>item_bare = SfString u, item_parameters = []\<rparr>))"
  using printable_field [OF assms] by (auto simp: solid_def text_item_def quoted_def)

lemma signature_text:
  assumes "serialize (signature_field label bytes) (sf_options L) = Inr t" "safe_limits L"
  shows "length t = length label + 3 + 4 * ((length bytes + 2) div 3)" "solid t" "length t \<le> maxOutputBytes L"
proof -
  have u: "units_field (signature_field label bytes)" by (simp add: signature_field_def units_item_def)
  note fits = serialized_fits [OF assms(1) u assms(2)]
  show "length t \<le> maxOutputBytes L" by (rule fits(3))
  show "solid t" using solid_entry [of L label] fits(1,2) by (simp add: signature_field_def)
  show "length t = length label + 3 + 4 * ((length bytes + 2) div 3)"
    by (simp add: fits(1) signature_field_def text_entry_def text_item_def length_base64_encode)
qed

text \<open>The headers checked with the placeholder are valid with a signature text of its length.\<close>

lemma validate_placeholder:
  assumes "validateHeaders (hs @ output_fields a b g) limits = Inr n" "length b' = length b" "list_all ascii b'"
  shows "validateHeaders (hs @ output_fields a b' g) limits = Inr n"
  using assms unfolding validateHeaders_Inr output_fields_def agent_field_def by (auto simp: header_size_def simp del: lit_Cons)

lemma validate_pair:
  assumes "validateHeaders (hs @ output_fields a b g) limits = Inr n"
  shows "length a + length b + 32 \<le> maxMessageHeaderBytes limits"
  using assms unfolding validateHeaders_Inr output_fields_def agent_field_def by (auto simp: header_size_def)

section \<open>Reading the fields\<close>

definition signed_by :: "signed_request_headers \<Rightarrow> request_parts \<Rightarrow> request_parts" where
  "signed_by out request = request\<lparr>request_headers := request_headers request @
     output_fields (out_signatureInput out) (out_signature out) (out_signatureAgent out)\<rparr>"

lemma parse_output:
  assumes clean: "\<forall>h \<in> set hs. lowercase (fst h) \<notin> set signature_names"
    and valid: "validateHeaders (hs @ output_fields (patch_input p) (patch_signature p) g) limits = Inr n"
    and p: "signed_headers limits (sig_label i) (inner_of i) bs = Inr p"
    and i: "signatureInnerList i limits = Inr (inner_of i)" and L: "safe_core limits"
    and fits: "1 \<le> maxSignatures limits" "length (patch_input p) \<le> maxInputBytes (structuredFields limits)"
      "length (patch_signature p) \<le> maxInputBytes (structuredFields limits)"
    and solid: "solid (patch_input p)" "solid (patch_signature p)"
  shows "parseSignatureHeaders (hs @ output_fields (patch_input p) (patch_signature p) g) (core_options limits)
    = Inr [\<lparr>signature_of_input = i, signature_bytes = bs\<rparr>]"
proof -
  have "parseSignatureHeaders (patch_headers p) (core_options limits) = Inr [\<lparr>signature_of_input = i, signature_bytes = bs\<rparr>]"
    by (rule parse_patch [OF p i resolve_core_own [OF L] fits(1) validate_pair [OF valid] fits(2,3)])
  moreover have "\<exists>m. validateHeaders (patch_headers p) limits = Inr m"
    using validateHeaders_patch [OF solid L validate_pair [OF valid]] by blast
  ultimately show ?thesis
    using valid fieldValues_patch [OF solid] fieldValues_signature [OF clean solid] resolve_core_own [OF L]
    by (auto simp: parseSignatureHeaders_def simp del: lit_Cons)
qed

lemma coverage_required:
  assumes "sig_components i = required_components profile (sig_label i) @ extras"
  shows "assertRequiredCoverage i profile = Inr ()"
  using assms by (simp add: assertRequiredCoverage_def required_components_def bareComponent_def matchingAgentMember_def)

lemma metadata_read:
  assumes "length bytes = 32" "sc_keyid cfg = base64url_encode bytes" "isValidNonce (JsString nonce) maximum"
  shows "readCandidateMetadata (sig_parameters (signing_input cfg created expires nonce)) NonceRequiredPolicy (JsInt (int maximum))
    = Inr \<lparr>meta_created = created, meta_expires = expires, meta_keyid = sc_keyid cfg,
        meta_algorithm = Some (lit ''ed25519''), meta_nonce = Some nonce\<rparr>"
proof -
  have "validateProfileKeyId (Some (sc_keyid cfg)) = Inr (sc_keyid cfg)"
    using thumbprint_valid [OF assms(1)] by (simp add: assms(2))
  moreover have "is_safe_integer (int maximum)" using assms(3) by (simp add: isValidNonce_def is_safe_integer_def)
  ultimately show ?thesis
    using assms(3)
    by (simp add: readCandidateMetadata_def signing_input_def getParameter_map_of optional_string_def nonce_check_def)
qed

section \<open>A signed request\<close>

text \<open>The steps of a signing that returned.\<close>

lemma sign_steps:
  assumes "sign_request P cfg request reading drawn = Inr out"
  obtains created expires nonce base signature placeholder n where
    "snapshotUnsignedRequest request (sc_limits cfg) = Inr request"
    "readSigningTimestamps reading (JsInt (int (sc_lifetimeSeconds cfg))) = Inr (created, expires)"
    "readSigningNonce drawn (JsInt (int (maxNonceBytes (sc_profileLimits cfg)))) = Inr nonce"
    "\<exists>inner. signatureInnerList (signing_input cfg created expires nonce) (sc_limits cfg) = Inr inner \<and>
       serialize (FDictionary [(sc_label cfg, MInnerList inner)]) (sf_options (structuredFields (sc_limits cfg)))
         = Inr (out_signatureInput out)"
    "serialize (signature_field (sc_label cfg) (replicate 64 0)) (sf_options (structuredFields (sc_limits cfg))) = Inr placeholder"
    "length (out_signatureInput out) + length placeholder \<le> maxSignatureHeaderBytes (sc_limits cfg)"
    "validateHeaders (request_headers request @ output_fields (out_signatureInput out) placeholder (sc_agentHeader cfg))
       (sc_limits cfg) = Inr n"
    "createSignatureBase (sp_core P) (RequestMessage (request\<lparr>request_headers :=
       request_headers request @ agent_field (sc_agentHeader cfg)\<rparr>)) (signing_input cfg created expires nonce)
       (signing_options cfg) = Inr base"
    "sp_sign P (sc_privateKey cfg) (base_bytes base) = Some signature" "length signature = 64"
    "serialize (signature_field (sc_label cfg) signature) (sf_options (structuredFields (sc_limits cfg))) = Inr (out_signature out)"
    "out_signatureAgent out = sc_agentHeader cfg"
proof -
  from assms obtain s where s: "snapshotUnsignedRequest request (sc_limits cfg) = Inr s"
    by (auto simp: sign_request_def bindE_eq_Inr Let_def)
  have "s = request" by (rule unsigned_Inr(1) [OF s])
  then show ?thesis
    using assms s that
    by (auto simp: sign_request_def bindE_eq_Inr Let_def unsignedSignature_def signature_of_def split: option.splits if_splits)
qed

lemma unfold_plain: "13 \<notin> set t \<Longrightarrow> unfold_lines t = t"
proof (induction t rule: unfold_lines.induct)
  case (2 a s)
  then show ?case by (subst unfold_lines.simps) (auto simp del: unfold_lines.simps split: list.split)
qed simp

lemma normalizeValue_plain: "solid t \<Longrightarrow> normalizeValue (TextValue t) version = Inr t"
proof -
  assume t: "solid t"
  then have "13 \<notin> set t" by (auto simp: solid_def list_all_iff printable_def)
  then show ?thesis using normalizeValue_solid [OF t]
    by (auto simp: normalizeValue_def unfold_plain Let_def split: if_splits)
qed

lemma fieldValues_agent:
  assumes clean: "\<forall>h \<in> set hs. lowercase (fst h) \<notin> set signature_names" and "solid g"
  shows "fieldValues (hs @ output_fields a b g) (lit ''signature-agent'') version = Inr [g]"
proof -
  have "fieldValues hs (lit ''signature-agent'') version = Inr []"
    using clean by (auto simp: signature_names_def simp del: lit_Cons intro!: fieldValues_none)
  moreover have "fieldValues (output_fields a b g) (lit ''signature-agent'') version = Inr [g]"
    using distinct_names normalizeValue_plain [OF assms(2), of version]
    by (simp add: output_fields_def agent_field_def fieldValues_def output_names del: lit_Cons)
  ultimately show ?thesis by (simp add: fieldValues_append)
qed

text \<open>The agent header reads back as the header of the profile, claiming the origin.\<close>

definition agent_header_of :: "wba_profile \<Rightarrow> jsstring \<Rightarrow> jsstring \<Rightarrow> agent_header" where
  "agent_header_of profile label origin =
     (let agent = \<lparr>item_bare = SfString origin, item_parameters = []\<rparr> in
      if profile = WgProtocol00 then WgHeader [(label, MItem agent)] else CloudflareHeader agent)"

lemma agent_header_read:
  assumes t: "serialize (agent_header_field profile label origin) (sf_options (structuredFields limits)) = Inr t"
    and L: "safe_core limits"
    and fits: "length t \<le> maxInputBytes (structuredFields limits)" "length t \<le> maxMessageHeaderBytes limits"
  shows "solid t" "assertNoAgentDuplicates t limits = Inr ()" "agent_of_text t limits = Inr (agent_header_of profile label origin)"
proof -
  let ?i = "\<lparr>item_bare = SfString origin, item_parameters = []\<rparr>"
  have sf: "safe_limits (structuredFields limits)" using L by (simp add: safe_core_def)
  have units: "units_item ?i" by (simp add: units_item_def)
  have "solid t \<and> assertNoAgentDuplicates t limits = Inr () \<and> agent_of_text t limits = Inr (agent_header_of profile label origin)"
  proof (cases profile)
    case CloudflareDocs
    then have t': "serialize (FItem ?i) (sf_options (structuredFields limits)) = Inr t"
      using t by (simp add: agent_header_field_def)
    have "valid_field (structuredFields limits) (FItem ?i)" "t = text_field (FItem ?i)"
      using serialized_fits [OF t' _ sf] units by auto
    then have "solid t" using solid_text_quoted by simp
    with agent_canonical [OF t' units L fits(1,2) solid_ascii] CloudflareDocs show ?thesis
      by (simp add: agent_header_of_def)
  next
    case WgProtocol00
    then have t': "serialize (FDictionary [(label, MItem ?i)]) (sf_options (structuredFields limits)) = Inr t"
      using t by (simp add: agent_header_field_def)
    have f: "valid_field (structuredFields limits) (FDictionary [(label, MItem ?i)])" "t = text_field (FDictionary [(label, MItem ?i)])"
      using serialized_fits [OF t' _ sf] units by auto
    have s: "solid t" using solid_entry [OF f(1)] f(2) by simp
    have first: "\<exists>c r. t = c # r \<and> c \<noteq> 34 \<and> c \<noteq> 32 \<and> c \<noteq> 9"
      using f by (cases label) (auto simp: valid_key_def key_first_class_def lower_alpha_def text_entry_def)
    obtain d where d: "parseRaw (InText t) TDictionary (sf_options (structuredFields limits)) = Inr d"
        "dictionary_duplicates MalformedAgent (raw_entries (rdoc_root d)) = Inr ()"
        "parse (InText t) TDictionary (sf_options (structuredFields limits)) = Inr (FDictionary [(label, MItem ?i)])"
      using canonical_dictionary [OF t' _ sf fits(1)] units by auto
    have "checkLimit limits MessageHeaderBytes (length t) = Inr ()"
      using L fits(2) by (intro checkLimit_ok) simp_all
    with d s first solid_ascii [OF s] WgProtocol00 show ?thesis
      by (auto simp: assertNoAgentDuplicates_def agent_of_text_def requireAscii_def Let_def screen_def ows_def
          agent_header_of_def simp del: checkLimit_Inr)
  qed
  then show "solid t" "assertNoAgentDuplicates t limits = Inr ()"
    "agent_of_text t limits = Inr (agent_header_of profile label origin)" by auto
qed

lemma parseAgentHeader_output:
  assumes clean: "\<forall>h \<in> set hs. lowercase (fst h) \<notin> set signature_names"
    and valid: "validateHeaders (hs @ output_fields a b t) limits = Inr n"
    and t: "serialize (agent_header_field profile label origin) (sf_options (structuredFields limits)) = Inr t"
    and L: "safe_core limits" and fits: "length t \<le> maxInputBytes (structuredFields limits)"
  shows "parseAgentHeader (r\<lparr>request_headers := hs @ output_fields a b t\<rparr>) limits = Inr (agent_header_of profile label origin)"
proof -
  have len: "length t \<le> maxMessageHeaderBytes limits"
    using valid unfolding validateHeaders_Inr output_fields_def agent_field_def by (auto simp: header_size_def)
  note read = agent_header_read [OF t L fits len]
  have "checkLimit limits MessageHeaderBytes (length t) = Inr ()" using L len by (intro checkLimit_ok) simp_all
  then have "bindE (combineValues [t] limits MessageHeaderBytes) requireAscii = Inr t"
    using solid_ascii [OF read(1)] by (simp add: combineValues_def requireAscii_def del: checkLimit_Inr)
  moreover have "t \<noteq> []" using read(1) by (simp add: solid_def)
  ultimately show ?thesis
    using valid read fieldValues_agent [OF clean read(1)]
    by (simp add: parseAgentHeader_def screen_def del: lit_Cons)
qed

text \<open>The field values of the request sent cover the base that was signed.\<close>

lemma output_base:
  assumes base: "createSignatureBase U (RequestMessage (r\<lparr>request_headers := hs @ agent_field g\<rparr>)) i (signing_options cfg) = Inr b"
    and valid: "validateHeaders (hs @ output_fields si st g) (sc_limits cfg) = Inr n"
    and L: "safe_core (sc_limits cfg)"
    and supported: "assertSupportedComponents i profile = Inr ()"
  shows "createSignatureBase U (RequestMessage (r\<lparr>request_headers := hs @ output_fields si st g\<rparr>)) i (signing_options cfg) = Inr b"
proof (rule base_same [OF base])
  have "\<not> countersigned c" if "c \<in> set (sig_components i)" for c
    using supported that by (auto simp: assertSupportedComponents_def list_ex_iff split: if_splits)
  then show "\<forall>c \<in> set (sig_components i). fieldValues (hs @ agent_field g) (component_name c) (request_version r)
      = fieldValues (hs @ output_fields si st g) (component_name c) (request_version r)"
    unfolding countersigned_def by (auto simp del: lit_Cons intro!: fieldValues_output [symmetric])
  show "\<exists>n. validateHeaders (hs @ output_fields si st g) limits = Inr n"
    if "resolveCoreLimits (option_limits (signing_options cfg)) = Inr limits" for limits
    using that valid resolve_core_own [OF L] by (simp add: signing_options_def)
qed

text \<open>What a signing that returned wrote, and what it is the reading of.\<close>

lemma signed_texts:
  assumes cfg: "resolveSigningConfiguration P options = Inr cfg" and sign: "sign_request P cfg request reading drawn = Inr out"
    and fit: "maxOutputBytes (structuredFields (sc_limits cfg)) \<le> maxInputBytes (structuredFields (sc_limits cfg))"
  obtains created expires nonce base signature n i p where
    "readSigningTimestamps reading (JsInt (int (sc_lifetimeSeconds cfg))) = Inr (created, expires)"
    "readSigningNonce drawn (JsInt (int (maxNonceBytes (sc_profileLimits cfg)))) = Inr nonce"
    "i = signing_input cfg created expires nonce" "signatureInnerList i (sc_limits cfg) = Inr (inner_of i)"
    "signed_headers (sc_limits cfg) (sig_label i) (inner_of i) signature = Inr p"
    "signed_by out request = request\<lparr>request_headers :=
       request_headers request @ output_fields (patch_input p) (patch_signature p) (sc_agentHeader cfg)\<rparr>"
    "validateHeaders (request_headers request @ output_fields (patch_input p) (patch_signature p) (sc_agentHeader cfg)) (sc_limits cfg) = Inr n"
    "solid (patch_input p)" "length (patch_input p) \<le> maxInputBytes (structuredFields (sc_limits cfg))"
    "solid (patch_signature p)" "length (patch_signature p) \<le> maxInputBytes (structuredFields (sc_limits cfg))"
    "createSignatureBase (sp_core P) (RequestMessage (request\<lparr>request_headers :=
       request_headers request @ agent_field (sc_agentHeader cfg)\<rparr>)) i (signing_options cfg) = Inr base"
    "sp_sign P (sc_privateKey cfg) (base_bytes base) = Some signature" "length signature = 64"
    "\<forall>h \<in> set (request_headers request). lowercase (fst h) \<notin> set signature_names"
proof -
  let ?L = "sc_limits cfg" and ?sf = "structuredFields (sc_limits cfg)" and ?hs = "request_headers request"
  note conf = configuration [OF cfg fit]
  have sf: "safe_limits ?sf" using conf(1) by (simp add: safe_core_def)
  obtain created expires nonce base signature placeholder n where st:
    "snapshotUnsignedRequest request ?L = Inr request"
    "readSigningTimestamps reading (JsInt (int (sc_lifetimeSeconds cfg))) = Inr (created, expires)"
    "readSigningNonce drawn (JsInt (int (maxNonceBytes (sc_profileLimits cfg)))) = Inr nonce"
    "\<exists>inner. signatureInnerList (signing_input cfg created expires nonce) ?L = Inr inner \<and>
       serialize (FDictionary [(sc_label cfg, MInnerList inner)]) (sf_options ?sf) = Inr (out_signatureInput out)"
    "serialize (signature_field (sc_label cfg) (replicate 64 0)) (sf_options ?sf) = Inr placeholder"
    "length (out_signatureInput out) + length placeholder \<le> maxSignatureHeaderBytes ?L"
    "validateHeaders (?hs @ output_fields (out_signatureInput out) placeholder (sc_agentHeader cfg)) ?L = Inr n"
    "createSignatureBase (sp_core P) (RequestMessage (request\<lparr>request_headers := ?hs @ agent_field (sc_agentHeader cfg)\<rparr>))
       (signing_input cfg created expires nonce) (signing_options cfg) = Inr base"
    "sp_sign P (sc_privateKey cfg) (base_bytes base) = Some signature" "length signature = 64"
    "serialize (signature_field (sc_label cfg) signature) (sf_options ?sf) = Inr (out_signature out)"
    "out_signatureAgent out = sc_agentHeader cfg"
    by (rule sign_steps [OF sign])
  define i where "i = signing_input cfg created expires nonce"
  define p where "p = \<lparr>patch_label = sc_label cfg, patch_input = out_signatureInput out, patch_signature = out_signature out\<rparr>"
  have p: "patch_input p = out_signatureInput out" "patch_signature p = out_signature out" "sig_label i = sc_label cfg"
    by (simp_all add: p_def i_def signing_input_def)
  obtain inner where inner: "signatureInnerList i ?L = Inr (inner_of i)" "units_member (MInnerList (inner_of i))"
      "serialize (FDictionary [(sc_label cfg, MInnerList (inner_of i))]) (sf_options ?sf) = Inr (out_signatureInput out)"
    using st(4) signatureInnerList_Inr [OF _ conf(1)] unfolding i_def by blast
  have input: "solid (out_signatureInput out)" "length (out_signatureInput out) \<le> maxInputBytes ?sf"
    using serialized_fits [OF inner(3) _ sf] inner(2) solid_entry fit by fastforce+
  have texts: "length (out_signature out) = length placeholder" "solid (out_signature out)" "length (out_signature out) \<le> maxInputBytes ?sf"
    using signature_text [OF st(11) sf] signature_text(1) [OF st(5) sf] st(10) fit by simp_all
  have valid: "validateHeaders (?hs @ output_fields (out_signatureInput out) (out_signature out) (sc_agentHeader cfg)) ?L = Inr n"
    by (rule validate_placeholder [OF st(7) texts(1) solid_ascii [OF texts(2)]])
  note clean = unsigned_Inr(2) [OF st(1)]
  have signed: "signed_by out request = request\<lparr>request_headers :=
      ?hs @ output_fields (out_signatureInput out) (out_signature out) (sc_agentHeader cfg)\<rparr>"
    by (simp add: signed_by_def st(12))
  have "checkLimit ?L SignatureHeaderBytes (length (out_signatureInput out) + length (out_signature out)) = Inr ()"
    using st(6) by (intro checkLimit_ok [OF conf(1)]) (simp add: texts(1))
  then have "signed_headers ?L (sig_label i) (inner_of i) signature = Inr p"
    using inner(3) st(11) by (simp add: signed_headers_def signature_field_def p_def p(3) Let_def del: checkLimit_Inr)
  from that [OF st(2,3) i_def inner(1) this signed [folded p(1,2)] valid [folded p(1,2)] input [folded p(1)]
      texts(2,3) [folded p(2)] st(8) [folded i_def] st(9,10) clean]
  show ?thesis .
qed

lemma units_agent: "units_field (agent_header_field profile label origin)"
  by (simp add: agent_header_field_def Let_def units_item_def)

text \<open>C12. Appending the three headers a signer returns gives a request the verifier accepts: its signature
  headers parse to the one signature, with the configured label and components, tagged for Web Bot Auth,
  whose components the profile supports and which covers what the profile requires; the agent header is
  that of the profile, for this label and the canonical form of the origin given in the options; the
  metadata reads back as the key's thumbprint, the second of the clock reading, the configured lifetime and
  the nonce drawn; and the signature verifies over the request as sent, with its new headers. This supposes
  that SHA-256 gives 32 bytes, that a signature made verifies under the public key, and of the limits, as the
  signer does not check it, that one signature may be read and that what may be written may be read: at least
  one signature is allowed, and \<open>maxOutputBytes\<close> is at most \<open>maxInputBytes\<close>, as in the defaults.\<close>

theorem signer_output_accepted:
  assumes "resolveSigningConfiguration P options = Inr cfg"
    and "sign_request P cfg request reading drawn = Inr out"
    and "\<forall>bytes. length (sp_sha256 P bytes) = 32"
    and "\<forall>bytes s. sp_sign P (sc_privateKey cfg) bytes = Some s \<longrightarrow> verify_bytes pk bytes s"
    and "1 \<le> maxSignatures (sc_limits cfg)"
    and "maxOutputBytes (structuredFields (sc_limits cfg)) \<le> maxInputBytes (structuredFields (sc_limits cfg))"
  shows "\<exists>s metadata own origin nonce ms.
    parseSignatureHeaders (request_headers (signed_by out request)) (core_options (sc_limits cfg)) = Inr [s] \<and>
    web_bot_auth s \<and> sig_label (signature_of_input s) = sc_label cfg \<and>
    sig_components (signature_of_input s) = sc_components cfg \<and>
    assertSupportedComponents (signature_of_input s) (sc_profile cfg) = Inr () \<and>
    assertRequiredCoverage (signature_of_input s) (sc_profile cfg) = Inr () \<and>
    dataRecord (Some signing_option_names) signing_data options = Inr own \<and>
    signing_origin P (sc_profileLimits cfg) (signing_option own ''agentOrigin'') = Inr origin \<and>
    parseAgentHeader (signed_by out request) (sc_limits cfg) = Inr
      (case sc_profile cfg of
         WgProtocol00 \<Rightarrow> WgHeader [(sc_label cfg, MItem \<lparr>item_bare = SfString origin, item_parameters = []\<rparr>)]
       | CloudflareDocs \<Rightarrow> CloudflareHeader \<lparr>item_bare = SfString origin, item_parameters = []\<rparr>) \<and>
    readCandidateMetadata (sig_parameters (signature_of_input s)) NonceRequiredPolicy
      (JsInt (int (maxNonceBytes (sc_profileLimits cfg)))) = Inr metadata \<and>
    meta_keyid metadata = sc_keyid cfg \<and> reading = ClockGave (Some ms) \<and>
    meta_created metadata = \<lfloor>double (ms / 1000)\<rfloor> \<and>
    meta_expires metadata = meta_created metadata + int (sc_lifetimeSeconds cfg) \<and>
    drawn = NonceGave (JsString nonce) \<and> meta_nonce metadata = Some nonce \<and>
    verifyHttpSignatureCryptography (sp_core P) verify_bytes (RequestMessage (signed_by out request)) s
      (KeyObject PublicKey (Some (lit ''ed25519'')) pk) (signing_options cfg) = Inr (SignatureValid (signature_of_input s))"
proof -
  note conf = configuration [OF assms(1,6)]
  obtain created expires nonce base signature n i p where
    t: "readSigningTimestamps reading (JsInt (int (sc_lifetimeSeconds cfg))) = Inr (created, expires)"
    and d: "readSigningNonce drawn (JsInt (int (maxNonceBytes (sc_profileLimits cfg)))) = Inr nonce"
    and i: "i = signing_input cfg created expires nonce" and inner: "signatureInnerList i (sc_limits cfg) = Inr (inner_of i)"
    and p: "signed_headers (sc_limits cfg) (sig_label i) (inner_of i) signature = Inr p"
    and r: "signed_by out request = request\<lparr>request_headers :=
       request_headers request @ output_fields (patch_input p) (patch_signature p) (sc_agentHeader cfg)\<rparr>"
    and valid: "validateHeaders (request_headers request @ output_fields (patch_input p) (patch_signature p) (sc_agentHeader cfg)) (sc_limits cfg) = Inr n"
    and a: "solid (patch_input p)" "length (patch_input p) \<le> maxInputBytes (structuredFields (sc_limits cfg))"
    and b: "solid (patch_signature p)" "length (patch_signature p) \<le> maxInputBytes (structuredFields (sc_limits cfg))"
    and base: "createSignatureBase (sp_core P) (RequestMessage (request\<lparr>request_headers :=
       request_headers request @ agent_field (sc_agentHeader cfg)\<rparr>)) i (signing_options cfg) = Inr base"
    and k: "sp_sign P (sc_privateKey cfg) (base_bytes base) = Some signature" "length signature = 64"
    and clean: "\<forall>h \<in> set (request_headers request). lowercase (fst h) \<notin> set signature_names"
    by (rule signed_texts [OF assms(1,2,6)])
  define s where "s = \<lparr>signature_of_input = i, signature_bytes = signature\<rparr>"
  obtain ms where ms: "reading = ClockGave (Some ms)" "created = \<lfloor>double (ms / 1000)\<rfloor>"
    "expires = created + int (sc_lifetimeSeconds cfg)" using timestamps_Inr [OF t] by blast
  obtain bytes where key: "sc_keyid cfg = base64url_encode (sp_sha256 P bytes)" using conf(4) by blast
  obtain extras where cs: "sc_components cfg = required_components (sc_profile cfg) (sc_label cfg) @ extras" using conf(2) by blast
  obtain own origin where own: "dataRecord (Some signing_option_names) signing_data options = Inr own"
      "signing_origin P (sc_profileLimits cfg) (signing_option own ''agentOrigin'') = Inr origin"
    and agent: "serialize (agent_header_field (sc_profile cfg) (sc_label cfg) origin)
      (sf_options (structuredFields (sc_limits cfg))) = Inr (sc_agentHeader cfg)" using conf(5) by blast
  have fits: "length (sc_agentHeader cfg) \<le> maxInputBytes (structuredFields (sc_limits cfg))"
    using serialized_fits(3) [OF agent units_agent] conf(1) assms(6) by (simp add: safe_core_def)
  have supported: "assertSupportedComponents i (sc_profile cfg) = Inr ()"
    using conf(3) by (simp add: i signing_input_def)
  have nonce: "isValidNonce (JsString nonce) (maxNonceBytes (sc_profileLimits cfg))" "drawn = NonceGave (JsString nonce)"
    using d [unfolded nonce_Inr] by simp_all
  have "assertRequiredCoverage i (sc_profile cfg) = Inr ()"
    by (rule coverage_required [of _ _ extras]) (simp add: i signing_input_def cs)
  moreover have "requireAlgorithm i = Inr ()" "web_bot_auth s"
    by (simp_all add: i s_def requireAlgorithm_def signing_input_def web_bot_auth_def getParameter_map_of)
  moreover have "verify_bytes pk (base_bytes base) signature" using assms(4) k(1) by blast
  moreover have "agent_header_of (sc_profile cfg) (sc_label cfg) origin = (case sc_profile cfg of
         WgProtocol00 \<Rightarrow> WgHeader [(sc_label cfg, MItem \<lparr>item_bare = SfString origin, item_parameters = []\<rparr>)]
       | CloudflareDocs \<Rightarrow> CloudflareHeader \<lparr>item_bare = SfString origin, item_parameters = []\<rparr>)"
    by (cases "sc_profile cfg") (simp_all add: agent_header_of_def)
  moreover have "sig_label i = sc_label cfg" "sig_components i = sc_components cfg"
    by (simp_all add: i signing_input_def)
  moreover have "readCandidateMetadata (sig_parameters i) NonceRequiredPolicy (JsInt (int (maxNonceBytes (sc_profileLimits cfg))))
      = Inr \<lparr>meta_created = created, meta_expires = expires, meta_keyid = sc_keyid cfg,
          meta_algorithm = Some (lit ''ed25519''), meta_nonce = Some nonce\<rparr>"
    unfolding i using metadata_read [OF _ key nonce(1)] assms(3) by blast
  ultimately show ?thesis
    using parse_output [OF clean valid p inner conf(1) assms(5) a(2) b(2) a(1) b(1)]
      parseAgentHeader_output [OF clean valid agent conf(1) fits, of request] output_base [OF base valid conf(1) supported]
      supported k(2) ms own nonce(2)
    by (auto simp: r s_def verify_valid)
qed

end
