(* ===== verification/SigningSample.thy ===== *)
theory SigningSample
  imports SigningSafety
begin

text \<open>One signer, with the defaults but for its profile and label, signs one request.\<close>

section \<open>The signer\<close>

definition signer_key :: jwk_object where
  "signer_key = \<lparr>jwk_d = False, jwk_kty = Some (lit ''OKP''), jwk_crv = Some (lit ''Ed25519''), jwk_x = Some (replicate 43 65)\<rparr>"

definition signer_sample :: "unit signer_platform" where
  "signer_sample = \<lparr>sp_core = sample_platform, sp_url = sample_url, sp_public = (\<lambda>_. Some signer_key),
     sp_sha256 = (\<lambda>_. base64_decode (replicate 43 65)), sp_sign = (\<lambda>_ _. Some signed_bytes)\<rparr>"

definition signer_options :: "unit signing_property js_options" where
  "signer_options = OwnKeys [
     (StringKey (lit ''privateKey''), SigningData (KeyOption (KeyObject PrivateKey (Some (lit ''ed25519'')) ()))),
     (StringKey (lit ''agentOrigin''), SigningData (TextOption sample_origin)),
     (StringKey (lit ''profile''), SigningData (TextOption (lit ''cloudflare-docs-2026-07-01''))),
     (StringKey (lit ''label''), SigningData (TextOption (lit ''s'')))]"

definition signer_configuration :: "unit signing_configuration" where
  "signer_configuration = \<lparr>sc_privateKey = (), sc_keyid = replicate 43 65, sc_profile = CloudflareDocs, sc_label = lit ''s'',
     sc_agentHeader = agent_text, sc_components = signed_components, sc_fieldTypes = [(lit ''signature-agent'', TItem)],
     sc_limits = default_core, sc_profileLimits = signed_limits, sc_lifetimeSeconds = 60,
     sc_clock = PlatformProvider, sc_nonceGenerator = PlatformProvider\<rparr>"

abbreviation label_field :: field where
  "label_field \<equiv> FDictionary [(lit ''s'', MItem \<lparr>item_bare = Boolean True, item_parameters = []\<rparr>)]"

lemma serialize_default:
  assumes "units_field f" "valid_field default_sf f" "length (text_field f) \<le> 16384" "occ_field f \<le> 1024"
  shows "serialize f (sf_options default_sf) = Inr (text_field f)"
  using assms within_default by (simp add: serialize_iff own_default fits_output_def)

lemma label_sample: "checked_label default_core (lit ''s'') = Inr (lit ''s'')"
proof -
  have "serialize label_field (sf_options default_sf) = Inr (text_field label_field)"
    by (rule serialize_default) (simp_all add: signed_sample units_item_def)
  then show ?thesis by (simp add: checked_label_def DEFAULT_CORE_LIMITS_def CORE_SF_LIMITS_def)
qed

lemma key_sample: "signing_key signer_sample (KeyOption (KeyObject PrivateKey (Some (lit ''ed25519'')) ())) False = Inr ((), replicate 43 65)"
proof -
  have "publicMaterial (Some signer_key) = Inr (replicate 43 65)"
    using sample_component by (simp add: publicMaterial_def signer_key_def)
  then have "ed25519Thumbprint (sp_sha256 signer_sample) (Some signer_key) = Inr (replicate 43 65)"
    by (simp add: ed25519Thumbprint_def material_thumbprint_def signer_sample_def sample_component)
  moreover have "\<not> isKnownTestKey (replicate 43 65)"
    by (simp add: isKnownTestKey_def KNOWN_TEST_KEY_THUMBPRINTS_def numeral_eq_Suc)
  ultimately show ?thesis by (simp add: signing_key_def signer_sample_def)
qed

lemma origin_sample: "signing_origin signer_sample signed_limits (TextOption sample_origin) = Inr sample_origin"
  using sample_canonical [of 2048] by (simp add: signing_origin_def signer_sample_def signed_limits_def max_safe_def)

definition chosen_input :: signature_input where
  "chosen_input = \<lparr>sig_label = lit ''s'', sig_components = signed_components, sig_parameters = []\<rparr>"

abbreviation chosen_field :: field where
  "chosen_field \<equiv> FDictionary [(lit ''s'', MInnerList (inner_of chosen_input))]"

text \<open>A signature input over the components of the sample.\<close>

lemma inner_over:
  assumes "sig_components i = signed_components" "sig_label i = lit ''s''" "length (sig_parameters i) \<le> 256"
    and "list_all (rfc8941_bare \<circ> snd) (sig_parameters i)" "list_all metadata_kind (sig_parameters i)"
    and "units_field (FDictionary [(lit ''s'', MInnerList (inner_of i))])"
      "valid_field default_sf (FDictionary [(lit ''s'', MInnerList (inner_of i))])"
      "length (text_field (FDictionary [(lit ''s'', MInnerList (inner_of i))])) \<le> 16384"
      "occ_field (FDictionary [(lit ''s'', MInnerList (inner_of i))]) \<le> 1024"
  shows "signatureInnerList i default_core = Inr (inner_of i)"
proof -
  have "validateParameters [] default_core = Inr ()"
    by (simp add: validateParameters_Inr DEFAULT_CORE_LIMITS_def max_safe_def)
  then have "mapE (validate_component default_core) signed_components = Inr (map component_item signed_components)"
    by (simp add: signed_components_def bare_component_def validate_component_def Let_def lowercase_def
        to_lower_def is_derived_def isFieldName_def field_name_char_def alpha_def digit_def lower_alpha_def)
  moreover have "checkLimit default_core ComponentsPerSignature (length signed_components) = Inr ()"
    by (rule check_default) (simp add: signed_components_def)
  moreover have "validateParameters (sig_parameters i) default_core = Inr ()"
    using assms(3,4) by (simp add: validateParameters_Inr DEFAULT_CORE_LIMITS_def max_safe_def)
  ultimately show ?thesis
    using serialize_default [OF assms(6-9)] assms(1,2,5)
    by (simp add: signatureInnerList_def inner_of_def Let_def del: lit_Cons checkLimit_Inr text_field.simps)
qed

lemma chosen_fields:
  "units_field chosen_field" "valid_field default_sf chosen_field" "length (text_field chosen_field) \<le> 200" "occ_field chosen_field \<le> 1024"
  by (simp_all add: signed_sample chosen_input_def units_item_def escape_plain)

lemma owned_sample: "ownedComponents default_core (lit ''s'') signed_components = Inr signed_components"
proof -
  have i: "signatureInnerList chosen_input default_core = Inr (inner_of chosen_input)"
    by (rule inner_over) (use chosen_fields in \<open>simp_all add: chosen_input_def del: lit_Cons\<close>)
  have s: "serialize chosen_field (sf_options default_sf) = Inr (text_field chosen_field)"
    by (rule serialize_default) (use chosen_fields in simp_all)
  have u: "units_member (MInnerList (inner_of chosen_input))" using chosen_fields(1) by simp
  have "parse (InText (text_field chosen_field)) TDictionary (sf_options default_sf) = Inr chosen_field"
    using parse_entry [OF s u safe_default(2)] chosen_fields(3) within_default(3) by auto
  with i s show ?thesis
    by (simp add: ownedComponents_def chosen_input_def [symmetric] Let_def del: lit_Cons text_field.simps)
      (simp add: chosen_input_def inner_of_def owned_items)
qed

lemma signer_resolved: "resolveSigningConfiguration signer_sample signer_options = Inr signer_configuration"
proof -
  define own where "own = [(lit ''privateKey'', KeyOption (KeyObject PrivateKey (Some (lit ''ed25519'')) ())),
     (lit ''agentOrigin'', TextOption sample_origin), (lit ''profile'', TextOption (lit ''cloudflare-docs-2026-07-01'')),
     (lit ''label'', TextOption (lit ''s''))]"
  have own_rec: "dataRecord (Some signing_option_names) signing_data signer_options = Inr own"
    by (simp add: signer_options_def signing_option_names_def own_def)
  have own: "signing_option own ''privateKey'' = KeyOption (KeyObject PrivateKey (Some (lit ''ed25519'')) ())"
    "signing_option own ''agentOrigin'' = TextOption sample_origin"
    "signing_option own ''profile'' = TextOption (lit ''cloudflare-docs-2026-07-01'')"
    "signing_option own ''label'' = TextOption (lit ''s'')"
    "n \<in> {''coreLimits'', ''limits'', ''timePolicy'', ''allowTestKeys'', ''clock'', ''nonceGenerator'',
       ''additionalComponents'', ''structuredFieldTypes''} \<Longrightarrow> signing_option own n = UndefinedValue" for n
    by (auto simp: signing_option_def own_def)
  have core: "signing_limits (UndefinedValue :: unit signing_value) = Inr default_core"
    using resolve_core_default by (simp add: signing_limits_def)
  have limits: "resolveProfileLimits NoOptions = Inr signed_limits" "resolveTimePolicy NoOptions = Inr signed_policy"
    by (simp_all add: resolveProfileLimits_default resolveTimePolicy_default signed_limits_def signed_policy_def)
  have profile: "signing_profile (TextOption (lit ''cloudflare-docs-2026-07-01'') :: unit signing_value) = Inr CloudflareDocs"
    by (simp add: signing_profile_def assertSupportedProfile_def WEB_BOT_AUTH_PROFILES_def)
  have label: "signing_label default_core (TextOption (lit ''s'') :: unit signing_value) = Inr (lit ''s'')"
    using label_sample by (simp add: signing_label_def)
  have agent: "serialize (agent_header_field CloudflareDocs (lit ''s'') sample_origin) (sf_options default_sf) = Inr agent_text"
    using serialized_fields(3) by (simp add: agent_header_field_def agent_item_def)
  have required: "required_components CloudflareDocs (lit ''s'') = signed_components"
    by (simp add: required_components_def signed_components_def bare_component_def)
  have supported: "assertSupportedComponents \<lparr>sig_label = lit ''s'', sig_components = signed_components, sig_parameters = []\<rparr>
      CloudflareDocs = Inr ()"
    by (simp add: assertSupportedComponents_def signed_components_def bare_component_def
        countersigned_def cloudflare_excluded_def)
  have "resolve_signing signer_sample own = Inr signer_configuration"
    unfolding resolve_signing_def
    by (simp add: own numeric_options_def core limits profile label key_sample origin_sample signing_provider_def
        agent required chosen_components_def owned_sample supported signing_field_types_def
        signer_configuration_def signed_policy_def del: lit_Cons)
  with own_rec show ?thesis by (simp add: resolveSigningConfiguration_def)
qed

section \<open>The signing\<close>

definition unsigned_request :: request_parts where
  "unsigned_request = signed_request\<lparr>request_headers := [(lit ''Host'', TextValue (lit ''a.b''))]\<rparr>"

definition written_input :: signature_input where
  "written_input = signing_input signer_configuration 1 61 (lit ''n'')"

abbreviation written_field :: field where
  "written_field \<equiv> FDictionary [(lit ''s'', MInnerList (inner_of written_input))]"

definition sent_request :: request_parts where
  "sent_request = unsigned_request\<lparr>request_headers := request_headers unsigned_request @ agent_field agent_text\<rparr>"

lemma written_parts:
  "sig_components written_input = signed_components" "sig_label written_input = lit ''s''"
  "sig_parameters written_input = [(lit ''created'', Integer 1), (lit ''expires'', Integer 61),
     (lit ''keyid'', SfString (replicate 43 65)), (lit ''alg'', SfString (lit ''ed25519'')),
     (lit ''nonce'', SfString (lit ''n'')), (lit ''tag'', SfString (lit ''web-bot-auth''))]"
  by (simp_all add: written_input_def signing_input_def signer_configuration_def)

lemma written_units: "units_field written_field"
  by (simp add: signed_sample written_parts units_item_def)

lemma written_valid: "valid_field default_sf written_field"
  by (simp add: signed_sample written_parts printable_replicate del: signed_input_def)

lemma written_size: "length (text_field written_field) \<le> 300" "occ_field written_field \<le> 1024"
  by (simp_all add: signed_sample written_parts escape_plain escape_replicate del: escape_string_def)

lemma written_kinds:
  "length (sig_parameters written_input) \<le> 256" "list_all (rfc8941_bare \<circ> snd) (sig_parameters written_input)"
  "list_all metadata_kind (sig_parameters written_input)"
  by (simp_all add: written_parts(3))

lemma written_inner: "signatureInnerList written_input default_core = Inr (inner_of written_input)"
  using written_size by (intro inner_over written_parts written_kinds written_units written_valid) simp_all

lemma written_serialized: "serialize written_field (sf_options default_sf) = Inr (text_field written_field)"
  using written_units written_valid written_size by (intro serialize_default) simp_all

lemma bytes_serialized: "serialize (signature_field (lit ''s'') signed_bytes) (sf_options default_sf) = Inr (text_field bytes_field)"
  using serialized_fields(2) by (simp add: bytes_field_def signature_field_def signed_input_def)

lemma component_sent:
  assumes "name \<in> {''@method'', ''@target-uri'', ''signature-agent''}"
  shows "component_value sample_platform (RequestMessage sent_request) (bare_component name) default_core signed_options
    = component_text name"
proof -
  have "fieldValues (request_headers sent_request) (lit name) None = fieldValues signed_fields (lit name) None"
    using assms
    by (elim insertE emptyE; hypsubst; simp add: sent_request_def unsigned_request_def agent_field_def signed_request_def
        patch_headers_def fieldValues_def lowercase_def to_lower_def normalizeValue_solid [OF solid_texts(3)])
  moreover have "request_version signed_request = None" "component_name (bare_component name) = lit name"
    by (simp_all add: signed_request_def bare_component_def)
  ultimately have "component_value sample_platform (RequestMessage (signed_request\<lparr>request_headers := request_headers sent_request\<rparr>))
        (bare_component name) default_core signed_options
      = component_value sample_platform (RequestMessage (signed_request\<lparr>request_headers := signed_fields\<rparr>))
        (bare_component name) default_core signed_options"
    by (intro component_value_same) simp
  moreover have "signed_request\<lparr>request_headers := request_headers sent_request\<rparr> = sent_request"
    by (simp add: sent_request_def unsigned_request_def)
  ultimately show ?thesis by simp
qed

lemma sent_lines: "\<exists>seen n lines. n \<le> 300 \<and>
    foldE (add_component sample_platform (RequestMessage sent_request) default_core signed_options) ([], 0, []) signed_components
      = Inr (seen, n, lines) \<and> list_all ascii (concat lines) \<and> length (concat lines) = n"
  using method_text target_text agent_value identifiers text_lengths(3) solid_ascii [OF solid_texts(3)]
    component_sent [of "''@method''"] component_sent [of "''@target-uri''"] component_sent [of "''signature-agent''"]
  by (simp add: signed_components_def add_component_def check_default Let_def ascii_def del: checkLimit_Inr)

lemma header_valid:
  assumes "list_all (\<lambda>h. isFieldName (fst h) \<and> ascii_value (snd h)) hs" "sum_list (map header_size hs) \<le> 16384"
  shows "validateHeaders hs default_core = Inr (sum_list (map header_size hs))"
  using assms by (simp add: validateHeaders_Inr DEFAULT_CORE_LIMITS_def max_safe_def)

lemma names_valid:
  "isFieldName (lit ''Host'')" "isFieldName (lit ''Signature-Input'')" "isFieldName (lit ''Signature'')"
  "isFieldName (lit ''Signature-Agent'')"
  by (simp_all add: isFieldName_def field_name_char_def alpha_def digit_def)

lemma sent_valid: "\<exists>n. validateHeaders (request_headers sent_request) default_core = Inr n"
proof -
  have "request_headers sent_request = [(lit ''Host'', TextValue (lit ''a.b'')), (lit ''Signature-Agent'', TextValue agent_text)]"
    by (simp add: sent_request_def unsigned_request_def agent_field_def)
  moreover have "list_all ascii (lit ''a.b'')" by (simp add: ascii_def)
  ultimately show ?thesis
    using header_valid [of "request_headers sent_request"] names_valid solid_ascii [OF solid_texts(3)] text_lengths(3)
    by (simp add: header_size_def del: lit_Cons)
qed

lemma sent_base: "\<exists>base. createSignatureBase sample_platform (RequestMessage sent_request) written_input signed_options = Inr base"
proof -
  obtain n where n: "validateHeaders (request_headers sent_request) default_core = Inr n" using sent_valid by blast
  let ?m = "MInnerList (inner_of written_input)"
  have chars: "list_all ascii (text_inner_list (inner_of written_input))" "length (text_inner_list (inner_of written_input)) \<le> 300"
    by (simp_all add: signed_sample written_parts escape_plain escape_replicate ascii_def list_all_iff)
  have valid: "valid_member default_sf ?m" "units_member ?m" "occ_member ?m \<le> 1024"
    using written_valid written_units written_size(2)
    by (simp_all del: valid_member.simps units_member.simps occ_member.simps)
  then have "serializeMember ?m (sf_options default_sf) = Inr (text_inner_list (inner_of written_input))"
    using chars(2) within_default
    by (simp add: serialize_own [OF safe_default(1)] fits_output_def del: valid_member.simps units_member.simps)
  then have "signatureParameters written_input default_core = Inr (text_inner_list (inner_of written_input))"
    by (simp add: signatureParameters_def written_inner)
  moreover obtain seen k lines where "k \<le> 300" "list_all ascii (concat lines)"
      "foldE (add_component sample_platform (RequestMessage sent_request) default_core signed_options) ([], 0, []) signed_components
        = Inr (seen, k, lines)"
    using sent_lines by blast
  moreover have "list_all ascii params_prefix" "length params_prefix = 21"
    by (simp_all add: params_prefix_def ascii_def)
  ultimately show ?thesis
    using n chars resolve_core_own [OF safe_default(1)]
    by (simp add: createSignatureBase_def base_within_def base_of_lines_def requireAscii_def signed_options_def check_default
        written_parts(1) del: checkLimit_Inr)
qed

lemma stamps_sample: "readSigningTimestamps (ClockGave (Some 1000)) (JsInt 60) = Inr (1, 61)"
  using double_of_int [of 1] by (simp add: readSigningTimestamps_def MAX_SF_INTEGER_def is_safe_integer_def max_safe_def)

lemma nonce_sample: "readSigningNonce (NonceGave (JsString (lit ''n''))) (JsInt 256) = Inr (lit ''n'')"
  by (simp add: isValidNonce_def is_safe_integer_def max_safe_def printable_def)

lemma snapshot_sample: "snapshotUnsignedRequest unsigned_request default_core = Inr unsigned_request"
proof -
  have "request_headers unsigned_request = [(lit ''Host'', TextValue (lit ''a.b''))]" by (simp add: unsigned_request_def)
  moreover have "lowercase (lit ''Host'') = lit ''host''" by (simp add: lowercase_def to_lower_def)
  moreover have "validateHeaders [(lit ''Host'', TextValue (lit ''a.b''))] default_core = Inr 11"
    using header_valid [of "[(lit ''Host'', TextValue (lit ''a.b''))]"] names_valid(1) by (simp add: header_size_def ascii_def)
  ultimately show ?thesis
    by (simp add: snapshotUnsignedRequest_def snapshot_unsigned_header_def unsigned_request_def signed_request_def
        DEFAULT_CORE_LIMITS_def max_safe_def)
qed

lemma output_sample:
  "\<exists>n. validateHeaders (request_headers unsigned_request @ output_fields (text_field written_field) (text_field bytes_field) agent_text)
     default_core = Inr n"
proof -
  have "list_all ascii (text_field written_field)" "list_all ascii (text_field bytes_field)"
    using solid_entry [OF written_valid] solid_texts(2) by (auto intro: solid_ascii simp: signed_patch_def simp del: text_field.simps)
  moreover have "request_headers unsigned_request = [(lit ''Host'', TextValue (lit ''a.b''))]" by (simp add: unsigned_request_def)
  moreover have "list_all ascii (lit ''a.b'')" by (simp add: ascii_def)
  ultimately show ?thesis
    using header_valid [of "request_headers unsigned_request @ output_fields (text_field written_field) (text_field bytes_field) agent_text"]
      names_valid solid_ascii [OF solid_texts(3)] text_lengths written_size(1)
    by (simp add: output_fields_def agent_field_def header_size_def del: lit_Cons text_field.simps)
qed

definition signer_output :: signed_request_headers where
  "signer_output = \<lparr>out_signatureInput = text_field written_field, out_signature = text_field bytes_field,
     out_signatureAgent = agent_text\<rparr>"

lemma signer_run: "sign_request signer_sample signer_configuration unsigned_request (ClockGave (Some 1000))
    (NonceGave (JsString (lit ''n''))) = Inr signer_output"
proof -
  have cfg: "sc_limits signer_configuration = default_core" "sc_lifetimeSeconds signer_configuration = 60"
    "maxNonceBytes (sc_profileLimits signer_configuration) = 256" "sc_label signer_configuration = lit ''s''"
    "sc_agentHeader signer_configuration = agent_text" "signing_options signer_configuration = signed_options"
    by (simp_all add: signer_configuration_def signed_limits_def signing_options_def signed_options_def)
  have sp: "sp_core signer_sample = sample_platform" "signature_of signer_sample k bytes = Inr signed_bytes" for k bytes
    by (simp_all add: signer_sample_def signature_of_def signed_bytes_def)
  obtain base where base: "createSignatureBase sample_platform (RequestMessage sent_request) written_input signed_options = Inr base"
    using sent_base by blast
  obtain n where n: "validateHeaders (request_headers unsigned_request @
      output_fields (text_field written_field) (text_field bytes_field) agent_text) default_core = Inr n"
    using output_sample by blast
  have bytes: "replicate 64 0 = signed_bytes" by (simp add: signed_bytes_def)
  have u: "unsignedSignature signer_configuration signed_bytes = Inr (text_field bytes_field)"
    using bytes_serialized by (simp add: unsignedSignature_def cfg)
  have "checkLimit default_core SignatureHeaderBytes (length (text_field written_field) + length (text_field bytes_field)) = Inr ()"
    by (rule check_default) (use written_size(1) text_lengths(2) in simp)
  then show ?thesis
    using base [unfolded sent_request_def] n written_inner written_serialized u snapshot_sample stamps_sample nonce_sample
    by (simp add: sign_request_def cfg sp bytes written_input_def [symmetric] signer_output_def Let_def
        del: lit_Cons text_field.simps checkLimit_Inr readSigningNonce.simps)
qed

theorem signer_output_accepted_witness:
  "\<exists>s origin. parseSignatureHeaders (request_headers (signed_by signer_output unsigned_request)) (core_options default_core) = Inr [s] \<and>
     web_bot_auth s \<and> assertRequiredCoverage (signature_of_input s) CloudflareDocs = Inr () \<and>
     parseAgentHeader (signed_by signer_output unsigned_request) default_core
       = Inr (CloudflareHeader \<lparr>item_bare = SfString origin, item_parameters = []\<rparr>) \<and>
     verifyHttpSignatureCryptography sample_platform (\<lambda>_ _ signature. signature = signed_bytes)
       (RequestMessage (signed_by signer_output unsigned_request)) s
       (KeyObject PublicKey (Some (lit ''ed25519'')) ()) signed_options = Inr (SignatureValid (signature_of_input s))"
proof -
  have cfg: "sc_limits signer_configuration = default_core" "sc_profile signer_configuration = CloudflareDocs"
    "signing_options signer_configuration = signed_options"
    by (simp_all add: signer_configuration_def signing_options_def signed_options_def)
  have sha: "\<forall>bytes. length (sp_sha256 signer_sample bytes) = 32"
    by (simp add: signer_sample_def sample_component)
  have sign: "\<forall>bytes s. sp_sign signer_sample (sc_privateKey signer_configuration) bytes = Some s \<longrightarrow> s = signed_bytes"
    by (simp add: signer_sample_def)
  have limits: "1 \<le> maxSignatures (sc_limits signer_configuration)"
    "maxOutputBytes (structuredFields (sc_limits signer_configuration)) \<le> maxInputBytes (structuredFields (sc_limits signer_configuration))"
    by (simp_all add: cfg DEFAULT_CORE_LIMITS_def CORE_SF_LIMITS_def)
  have core: "sp_core signer_sample = sample_platform" by (simp add: signer_sample_def)
  from signer_output_accepted [where pk = "()" and verify_bytes = "\<lambda>_ _ signature. signature = signed_bytes",
      OF signer_resolved signer_run sha sign limits]
  show ?thesis unfolding cfg core wba_profile.case by blast
qed

end
