(* ===== verification/RedisReplay.thy ===== *)
theory RedisReplay
  imports MemoryReplay Complex_Main
begin

text \<open>
  The replay store on Redis, \<^verbatim>\<open>redis/\<close>: the admission of an input (\<^verbatim>\<open>consume-input.ts\<close>), the
  configuration (\<^verbatim>\<open>configuration.ts\<close>), one command (\<^verbatim>\<open>command.ts\<close>), the Lua script that runs
  atomically in the server (\<^verbatim>\<open>replay-script.ts\<close>), and the store (\<^verbatim>\<open>replay-store.ts\<close>). Lua numbers
  are doubles, exact on the integers that occur; the encoder and decoder of JSON in the server are
  the parameter \<open>cjson\<close>, the answers of the client are arguments.
\<close>

section \<open>The input\<close>

record redis_record =
  rr_identity :: jsstring
  rr_thumbprint :: jsstring
  rr_duration :: nat

definition default_profile_limits :: profile_limits where
  "default_profile_limits = \<lparr>maxJwksBytes = 262144, maxKeys = 64, maxCandidates = 16, maxNonceBytes = 256,
     generatedNonceBytes = 32, maxScopeBytes = 256, maxAgentBindings = 64, maxAgentUrlBytes = 2048\<rparr>"

text \<open>The checks of the fields are those of the store in memory, with the default limits; the identity is
  the JSON text of the triple in base64url.\<close>

definition redis_identity :: "consume_input \<Rightarrow> jsstring" where
  "redis_identity i = base64url_encode (map word_of_nat (utf8_encode (identity_of i)))"

definition prepareRedisConsume :: "consume_argument \<Rightarrow> redis_record option" where
  "prepareRedisConsume input =
     (case valid_consume default_profile_limits 0 input of
        None \<Rightarrow> None
      | Some i \<Rightarrow>
          let duration = (ci_until i - ci_now i) * 1000 in
          if duration = 0 \<or> max_safe < duration then None
          else Some \<lparr>rr_identity = redis_identity i, rr_thumbprint = ci_thumbprint i, rr_duration = duration\<rparr>)"

section \<open>The configuration\<close>

text \<open>A value of the options object. A client is one that declares neither retries nor an offline queue
  and has a method \<open>sendCommand\<close>, another object, or something else.\<close>

datatype redis_value =
    RedisUndefined | RedisText jsstring | RedisNumber js_number | RedisClient bool | RedisValue

datatype redis_property = RedisData redis_value | RedisAccessor

record redis_configuration =
  rg_prefix :: jsstring
  rg_recovery :: nat
  rg_capacity :: nat
  rg_maxPerKey :: nat
  rg_acknowledge :: bool

definition redis_option_names :: "jsstring list" where
  "redis_option_names = map lit [''client'', ''namespace'', ''recoveryHorizonSeconds'', ''capacity'', ''maxPerKey'',
     ''acknowledgeEvictionPolicy'']"

abbreviation invalid_redis :: "configuration_code + 'a" where
  "invalid_redis \<equiv> Inl InvalidReplayPolicy"

fun redis_own :: "(js_key \<times> redis_property) list \<Rightarrow> configuration_code + (jsstring \<times> redis_value) list" where
  "redis_own [] = Inr []"
| "redis_own ((SymbolKey n, p) # ps) = invalid_redis"
| "redis_own ((StringKey k, RedisAccessor) # ps) = invalid_redis"
| "redis_own ((StringKey k, RedisData v) # ps) =
     (if k \<notin> set redis_option_names then invalid_redis
      else bindE (redis_own ps) (\<lambda>r. Inr ((k, v) # r)))"

definition redis_option :: "(jsstring \<times> redis_value) list \<Rightarrow> string \<Rightarrow> redis_value" where
  "redis_option own name = (case map_of own (lit name) of None \<Rightarrow> RedisUndefined | Some v \<Rightarrow> v)"

fun redis_quota :: "nat \<Rightarrow> redis_value \<Rightarrow> configuration_code + nat" where
  "redis_quota n RedisUndefined = Inr n"
| "redis_quota n (RedisNumber (JsInt v)) =
     (if \<not> is_safe_integer v \<or> v < 0 \<or> 10000 < v then invalid_redis else Inr (nat v))"
| "redis_quota n _ = invalid_redis"

definition redis_milliseconds :: "redis_value \<Rightarrow> configuration_code + nat" where
  "redis_milliseconds v =
     (case v of
        RedisNumber (JsInt horizon) \<Rightarrow>
          if \<not> is_safe_integer horizon \<or> horizon \<le> 0 \<or> int max_safe < horizon * 1000 then invalid_redis
          else Inr (nat (horizon * 1000))
      | _ \<Rightarrow> invalid_redis)"

text \<open>The namespace in hexadecimal, one Cluster hash tag.\<close>

definition key_prefix :: "jsstring \<Rightarrow> jsstring" where
  "key_prefix namespace = lit ''agentsig:replay:{'' @ concat (map hex2 namespace) @ lit ''}:''"

definition redis_namespace :: "redis_value \<Rightarrow> configuration_code + jsstring" where
  "redis_namespace v =
     (case v of
        RedisText s \<Rightarrow>
          if s = [] \<or> 128 < length s \<or> \<not> list_all (\<lambda>c. 33 \<le> c \<and> c \<le> 126) s then invalid_redis else Inr s
      | _ \<Rightarrow> invalid_redis)"

definition redis_acknowledgement :: "redis_value \<Rightarrow> configuration_code + bool" where
  "redis_acknowledgement v =
     (if v = RedisUndefined then Inr False
      else if v = RedisText (lit ''noeviction'') then Inr True else invalid_redis)"

fun resolveRedisReplayConfiguration :: "redis_property js_options \<Rightarrow> configuration_code + redis_configuration" where
  "resolveRedisReplayConfiguration (OwnKeys ps) =
     bindE (redis_own ps) (\<lambda>own.
     bindE (redis_milliseconds (redis_option own ''recoveryHorizonSeconds'')) (\<lambda>recovery.
     bindE (redis_namespace (redis_option own ''namespace'')) (\<lambda>namespace.
     bindE (redis_quota 10000 (redis_option own ''capacity'')) (\<lambda>capacity'.
     bindE (redis_quota 1000 (redis_option own ''maxPerKey'')) (\<lambda>maxPerKey'.
     bindE (redis_acknowledgement (redis_option own ''acknowledgeEvictionPolicy'')) (\<lambda>acknowledge.
     if redis_option own ''client'' \<noteq> RedisClient True then invalid_redis
     else Inr \<lparr>rg_prefix = key_prefix namespace, rg_recovery = recovery, rg_capacity = capacity',
            rg_maxPerKey = maxPerKey', rg_acknowledge = acknowledge\<rparr>))))))"
| "resolveRedisReplayConfiguration _ = invalid_redis"

section \<open>One command\<close>

text \<open>What the client does with a command: whether it is ready at the call and at the dispatch, the
  milliseconds passed at the dispatch and at the end, and the answer, if there is one before the
  deadline: a reply or an error, with its message when it is an \<open>Error\<close> with a string message.\<close>

datatype 'v client_answer = ClientReplies 'v | ClientRejects "jsstring option" | ClientPending

record 'v client_run =
  cr_ready :: bool
  cr_elapsed :: rat
  cr_dispatchReady :: bool
  cr_answer :: "'v client_answer"
  cr_end :: rat

datatype 'v command_result = CommandReply 'v | CommandUnavailable | InspectionUnavailable

definition word_break :: "jsstring \<Rightarrow> bool" where
  "word_break s \<longleftrightarrow> (case s of [] \<Rightarrow> True | c # _ \<Rightarrow> \<not> (alpha c \<or> digit c \<or> c = 95))"

definition quoted_name :: "string \<Rightarrow> jsstring \<Rightarrow> bool" where
  "quoted_name name s \<longleftrightarrow>
     (case s of [] \<Rightarrow> False
      | c # r \<Rightarrow> (c = 39 \<or> c = 34) \<and> take (length name) r = lit name \<and>
          (case drop (length name) r of [] \<Rightarrow> False | d # _ \<Rightarrow> d = 39 \<or> d = 34))"

text \<open>The patterns \<^verbatim>\<open>/^NOPERM\b/\<close> and \<^verbatim>\<open>/^ERR unknown (?:command ['"]CONFIG['"]|subcommand ['"]GET['"])/i\<close>.\<close>

definition inspection_refused :: "jsstring \<Rightarrow> bool" where
  "inspection_refused message \<longleftrightarrow>
     length message \<le> 2048 \<and>
     (take 6 message = lit ''NOPERM'' \<and> word_break (drop 6 message) \<or>
      (let m = lowercase message in
       take 20 m = lit ''err unknown command '' \<and> quoted_name ''config'' (drop 20 m) \<or>
       take 23 m = lit ''err unknown subcommand '' \<and> quoted_name ''get'' (drop 23 m)))"

definition client_command :: "'v client_run \<Rightarrow> bool \<Rightarrow> 'v command_result" where
  "client_command run inspectEvictionPolicy =
     (if 100 \<le> cr_elapsed run \<or> \<not> cr_dispatchReady run then CommandUnavailable
      else case cr_answer run of
        ClientReplies v \<Rightarrow> CommandReply v
      | ClientRejects (Some message) \<Rightarrow>
          if inspectEvictionPolicy \<and> inspection_refused message then InspectionUnavailable else CommandUnavailable
      | _ \<Rightarrow> CommandUnavailable)"

definition runRedisCommand :: "'v client_run \<Rightarrow> bool \<Rightarrow> 'v command_result" where
  "runRedisCommand run inspectEvictionPolicy =
     (if \<not> cr_ready run then CommandUnavailable
      else let result = client_command run inspectEvictionPolicy in
        if 100 \<le> cr_end run then CommandUnavailable else result)"

text \<open>The reply to \<^verbatim>\<open>CONFIG GET\<close>: an array of strings, or another value.\<close>

definition assertRedisEvictionPolicy :: "redis_configuration \<Rightarrow> jsstring list option client_run \<Rightarrow> configuration_code + unit" where
  "assertRedisEvictionPolicy cfg run =
     (case runRedisCommand run True of
        InspectionUnavailable \<Rightarrow> if rg_acknowledge cfg then Inr () else invalid_redis
      | CommandReply (Some [name, v]) \<Rightarrow>
          if name = lit ''maxmemory-policy'' \<and> v = lit ''noeviction'' then Inr () else invalid_redis
      | _ \<Rightarrow> invalid_redis)"

section \<open>The script\<close>

text \<open>A decoded JSON value of the server; a table is an array or an object. The three keys each hold a string,
  a value of another type, or nothing. \<open>cjson\<close> is the library of the server.\<close>

datatype cjson_value =
    CString jsstring | CNumber rat | CBoolean bool | CNull
  | CArray "cjson_value list" | CObject "(jsstring \<times> cjson_value) list"

record cjson =
  cj_encode :: "cjson_value \<Rightarrow> jsstring"
  cj_decode :: "jsstring \<Rightarrow> cjson_value option"

datatype redis_key = RedisMissing | RedisString jsstring | RedisOtherType

record redis_keys =
  rk_epoch :: redis_key
  rk_until :: redis_key
  rk_state :: redis_key

text \<open>The strings the script returns; \<open>ScriptFails\<close> when a command of the script raises an error.\<close>

datatype script_reply =
    ScriptUnavailable | ScriptQuarantine | ScriptMismatch | ScriptReady | ScriptReplayed
  | ScriptQuotaExceeded | ScriptAccepted | ScriptFails

record script_arguments =
  sa_mode :: jsstring
  sa_horizon :: jsstring
  sa_capacity :: jsstring
  sa_quota :: jsstring
  sa_epoch :: jsstring
  sa_identity :: jsstring
  sa_thumbprint :: jsstring
  sa_duration :: jsstring

definition MAX_STATE_BYTES :: nat where
  "MAX_STATE_BYTES = 33554432"

definition MAX_RECORDS :: nat where
  "MAX_RECORDS = 10000"

definition lua_integer :: "jsstring \<Rightarrow> nat option" where
  "lua_integer t =
     (if t = [] \<or> 16 < length t \<or> \<not> list_all digit t then None
      else let v = read_digits 0 t in if max_safe < v \<or> show_nat v \<noteq> t then None else Some v)"

definition epoch_text :: "jsstring \<Rightarrow> bool" where
  "epoch_text t \<longleftrightarrow> length t = 32 \<and> list_all (\<lambda>c. digit c \<or> 97 \<le> c \<and> c \<le> 102) t"

definition identity_text :: "jsstring \<Rightarrow> bool" where
  "identity_text t \<longleftrightarrow> t \<noteq> [] \<and> length t \<le> 4096 \<and> list_all base64url_char t"

definition thumbprint_text :: "jsstring \<Rightarrow> bool" where
  "thumbprint_text t \<longleftrightarrow> length t = 43 \<and> list_all base64url_char t"

text \<open>The arguments read: horizon, capacity, quota and duration.\<close>

record script_numbers =
  sn_horizon :: nat
  sn_capacity :: nat
  sn_quota :: nat
  sn_duration :: nat

definition consuming :: "script_arguments \<Rightarrow> bool" where
  "consuming a \<longleftrightarrow> sa_mode a = lit ''consume''"

definition script_numbers_of :: "script_arguments \<Rightarrow> script_numbers option" where
  "script_numbers_of a =
     (case (lua_integer (sa_horizon a), lua_integer (sa_capacity a), lua_integer (sa_quota a)) of
        (Some horizon, Some capacity', Some quota) \<Rightarrow>
          if sa_mode a \<notin> {lit ''setup'', lit ''consume''} \<or> horizon = 0 \<or> MAX_RECORDS < capacity' \<or> MAX_RECORDS < quota \<or>
             \<not> epoch_text (sa_epoch a)
          then None
          else if consuming a then
            (case lua_integer (sa_duration a) of
               None \<Rightarrow> None
             | Some duration \<Rightarrow>
                 if \<not> identity_text (sa_identity a) \<or> \<not> thumbprint_text (sa_thumbprint a) \<or> duration = 0 then None
                 else Some \<lparr>sn_horizon = horizon, sn_capacity = capacity', sn_quota = quota, sn_duration = duration\<rparr>)
          else Some \<lparr>sn_horizon = horizon, sn_capacity = capacity', sn_quota = quota, sn_duration = 0\<rparr>
      | _ \<Rightarrow> None)"

text \<open>\<open>TIME\<close>: seconds and microseconds. Observation rounds down, deadlines round up.\<close>

type_synonym redis_time = "nat \<times> nat"

definition observed_time :: "redis_time \<Rightarrow> nat" where
  "observed_time t = fst t * 1000 + snd t div 1000"

definition deadline_base :: "redis_time \<Rightarrow> nat" where
  "deadline_base t = fst t * 1000 + (snd t + 999) div 1000"

text \<open>\<open>save\<close>: one \<open>MSET\<close> of the three keys, which may fail; nothing is written when the text is too long.\<close>

definition save_state ::
    "cjson \<Rightarrow> bool \<Rightarrow> jsstring \<Rightarrow> jsstring \<Rightarrow> cjson_value \<Rightarrow> script_reply \<Rightarrow> redis_keys \<Rightarrow> script_reply \<times> redis_keys" where
  "save_state J writes epoch until state reply ks =
     (let encoded = cj_encode J state in
      if MAX_STATE_BYTES < length encoded then (ScriptUnavailable, ks)
      else if \<not> writes then (ScriptFails, ks)
      else (reply, \<lparr>rk_epoch = RedisString epoch, rk_until = RedisString until, rk_state = RedisString encoded\<rparr>))"

text \<open>The state table of a new quarantine; its table of records is empty, so encoded as an object.\<close>

definition quarantine_state :: "script_arguments \<Rightarrow> nat \<Rightarrow> jsstring \<Rightarrow> cjson_value" where
  "quarantine_state a base until = CObject
     [(lit ''version'', CString (lit ''1'')), (lit ''epoch'', CString (sa_epoch a)),
      (lit ''quarantineUntil'', CString until), (lit ''detectedAt'', CString (show_nat base)),
      (lit ''lastTime'', CString (show_nat base)), (lit ''horizon'', CString (sa_horizon a)),
      (lit ''capacity'', CString (sa_capacity a)), (lit ''quota'', CString (sa_quota a)),
      (lit ''records'', CObject [])]"

definition quarantine ::
    "cjson \<Rightarrow> bool \<Rightarrow> script_arguments \<Rightarrow> nat \<Rightarrow> nat \<Rightarrow> redis_keys \<Rightarrow> script_reply \<times> redis_keys" where
  "quarantine J writes a horizon base ks =
     (let until = show_nat (base + horizon) in
      save_state J writes (sa_epoch a) until (quarantine_state a base until) ScriptQuarantine ks)"

section \<open>Reading the state\<close>

fun key_text :: "nat \<Rightarrow> redis_key \<Rightarrow> jsstring option" where
  "key_text maximum (RedisString s) = (if length s \<le> maximum then Some s else None)"
| "key_text maximum _ = None"

fun lua_field :: "cjson_value \<Rightarrow> string \<Rightarrow> cjson_value option" where
  "lua_field (CObject fs) name = map_of fs (lit name)"
| "lua_field _ name = None"

definition string_field :: "cjson_value \<Rightarrow> string \<Rightarrow> jsstring option" where
  "string_field v name = (case lua_field v name of Some (CString s) \<Rightarrow> Some s | _ \<Rightarrow> None)"

definition integer_field :: "cjson_value \<Rightarrow> string \<Rightarrow> nat option" where
  "integer_field v name = (case string_field v name of None \<Rightarrow> None | Some t \<Rightarrow> lua_integer t)"

text \<open>The state whose texts are consistent with the other two keys.\<close>

definition stored_state :: "cjson \<Rightarrow> redis_keys \<Rightarrow> (jsstring \<times> jsstring \<times> cjson_value) option" where
  "stored_state J ks =
     (case (key_text 64 (rk_epoch ks), key_text 64 (rk_until ks), key_text MAX_STATE_BYTES (rk_state ks)) of
        (Some epoch, Some until, Some encoded) \<Rightarrow>
          (case cj_decode J encoded of
             None \<Rightarrow> None
           | Some state \<Rightarrow>
               if string_field state ''version'' = Some (lit ''1'') \<and> epoch_text epoch \<and>
                  string_field state ''epoch'' = Some epoch \<and> string_field state ''quarantineUntil'' = Some until
               then Some (epoch, until, state) else None)
      | _ \<Rightarrow> None)"

text \<open>The entries of the table of records. Only an array has number keys, and \<open>pairs\<close> visits them in order.\<close>

definition stored_records :: "cjson_value \<Rightarrow> cjson_value list option" where
  "stored_records state =
     (case lua_field state ''records'' of
        Some (CArray rs) \<Rightarrow> Some rs | Some (CObject []) \<Rightarrow> Some [] | _ \<Rightarrow> None)"

fun lua_table :: "cjson_value option \<Rightarrow> bool" where
  "lua_table (Some (CArray rs)) = True"
| "lua_table (Some (CObject fs)) = True"
| "lua_table _ = False"

definition state_consistent :: "nat \<Rightarrow> jsstring \<Rightarrow> cjson_value \<Rightarrow> (nat \<times> nat) option" where
  "state_consistent base until state =
     (case (lua_integer until, integer_field state ''detectedAt'', integer_field state ''lastTime'',
            integer_field state ''horizon'', integer_field state ''capacity'', integer_field state ''quota'') of
        (Some untilTime, Some detectedAt, Some lastTime, Some horizon, Some capacity', Some quota) \<Rightarrow>
          if horizon = 0 \<or> MAX_RECORDS < capacity' \<or> MAX_RECORDS < quota \<or> max_safe < detectedAt + horizon \<or>
             \<not> lua_table (lua_field state ''records'') \<or> untilTime \<noteq> detectedAt + horizon \<or> lastTime < detectedAt \<or> base < lastTime
          then None else Some (untilTime, capacity')
      | _ \<Rightarrow> None)"

text \<open>The loop over the records; \<open>None\<close> leaves it for a new quarantine.\<close>

record record_scan =
  scan_count :: nat
  scan_live :: "cjson_value list"
  scan_identities :: "jsstring list"
  scan_forKey :: nat
  scan_replayed :: bool

definition redis_scan :: record_scan where
  "redis_scan = \<lparr>scan_count = 0, scan_live = [], scan_identities = [], scan_forKey = 0, scan_replayed = False\<rparr>"

definition scan_record :: "script_arguments \<Rightarrow> nat \<Rightarrow> record_scan \<Rightarrow> cjson_value \<Rightarrow> unit + record_scan" where
  "scan_record a now sc v =
     (case (string_field v ''identity'', string_field v ''thumbprint'', integer_field v ''deadline'') of
        (Some ident, Some thumb, Some deadline) \<Rightarrow>
          if MAX_RECORDS < scan_count sc + 1 \<or> \<not> identity_text ident \<or> \<not> thumbprint_text thumb \<or>
             ident \<in> set (scan_identities sc)
          then Inl ()
          else
            let sc' = sc\<lparr>scan_count := scan_count sc + 1, scan_identities := ident # scan_identities sc\<rparr> in
            if deadline \<le> now then Inr sc'
            else if consuming a \<and> ident = sa_identity a \<and> thumb \<noteq> sa_thumbprint a then Inl ()
            else Inr (sc'\<lparr>scan_live := scan_live sc @ [v],
              scan_forKey := (if consuming a \<and> thumb = sa_thumbprint a then scan_forKey sc + 1 else scan_forKey sc),
              scan_replayed := scan_replayed sc \<or> consuming a \<and> ident = sa_identity a\<rparr>)
      | _ \<Rightarrow> Inl ())"

definition new_record :: "script_arguments \<Rightarrow> nat \<Rightarrow> cjson_value" where
  "new_record a deadline = CObject
     [(lit ''identity'', CString (sa_identity a)), (lit ''thumbprint'', CString (sa_thumbprint a)),
      (lit ''deadline'', CString (show_nat deadline))]"

fun set_field :: "string \<Rightarrow> cjson_value \<Rightarrow> cjson_value \<Rightarrow> cjson_value" where
  "set_field name v (CObject fs) = CObject (map_set (lit name) v fs)"
| "set_field name v w = w"

text \<open>Expiry, replay, quota, capacity, insertion: after the scan of a consistent state.\<close>

definition decide ::
    "cjson \<Rightarrow> bool \<Rightarrow> script_arguments \<Rightarrow> script_numbers \<Rightarrow> nat \<Rightarrow> jsstring \<Rightarrow> jsstring \<Rightarrow> cjson_value \<Rightarrow> record_scan
       \<Rightarrow> redis_keys \<Rightarrow> script_reply \<times> redis_keys" where
  "decide J writes a n base epoch until state sc ks =
     (if \<not> consuming a then (ScriptReady, ks)
      else if scan_replayed sc then (ScriptReplayed, ks)
      else if sn_quota n \<le> scan_forKey sc then (ScriptQuotaExceeded, ks)
      else if sn_capacity n \<le> length (scan_live sc) then (ScriptUnavailable, ks)
      else
        let records = CArray (scan_live sc @ [new_record a (base + sn_duration n)]) in
        save_state J writes epoch until
          (set_field ''lastTime'' (CString (show_nat base)) (set_field ''records'' records state)) ScriptAccepted ks)"

definition run_state ::
    "cjson \<Rightarrow> bool \<Rightarrow> script_arguments \<Rightarrow> script_numbers \<Rightarrow> redis_time \<Rightarrow> redis_keys \<Rightarrow> script_reply \<times> redis_keys" where
  "run_state J writes a n time ks =
     (let now = observed_time time; base = deadline_base time;
          detected = quarantine J writes a (sn_horizon n) base ks in
      case stored_state J ks of
        None \<Rightarrow> detected
      | Some (epoch, until, state) \<Rightarrow>
          (case state_consistent base until state of
             None \<Rightarrow> detected
           | Some (untilTime, storedCapacity) \<Rightarrow>
               if string_field state ''horizon'' \<noteq> Some (sa_horizon a) \<or> string_field state ''capacity'' \<noteq> Some (sa_capacity a) \<or>
                  string_field state ''quota'' \<noteq> Some (sa_quota a)
               then (ScriptMismatch, ks)
               else case stored_records state of
                 None \<Rightarrow> detected
               | Some rs \<Rightarrow>
                   (case foldE (scan_record a now) redis_scan rs of
                      Inl _ \<Rightarrow> detected
                    | Inr sc \<Rightarrow>
                        if storedCapacity < scan_count sc then detected
                        else if now < untilTime then (ScriptQuarantine, ks)
                        else decide J writes a n base epoch until state sc ks)))"

definition run_script :: "cjson \<Rightarrow> bool \<Rightarrow> script_arguments \<Rightarrow> redis_time \<Rightarrow> redis_keys \<Rightarrow> script_reply \<times> redis_keys" where
  "run_script J writes a time ks =
     (case script_numbers_of a of
        None \<Rightarrow> (ScriptUnavailable, ks)
      | Some n \<Rightarrow>
          let base = deadline_base time in
          if max_safe < base + sn_horizon n \<or> (consuming a \<and> max_safe < base + sn_duration n)
          then (ScriptUnavailable, ks)
          else run_state J writes a n time ks)"

section \<open>The store\<close>

definition argumentsFor :: "redis_configuration \<Rightarrow> string \<Rightarrow> u8 list \<Rightarrow> redis_record option \<Rightarrow> script_arguments" where
  "argumentsFor cfg mode entropy r =
     \<lparr>sa_mode = lit mode, sa_horizon = show_nat (rg_recovery cfg), sa_capacity = show_nat (rg_capacity cfg),
      sa_quota = show_nat (rg_maxPerKey cfg), sa_epoch = concat (map (hex2 \<circ> unat) entropy),
      sa_identity = (case r of None \<Rightarrow> [] | Some r \<Rightarrow> rr_identity r),
      sa_thumbprint = (case r of None \<Rightarrow> [] | Some r \<Rightarrow> rr_thumbprint r),
      sa_duration = show_nat (case r of None \<Rightarrow> 0 | Some r \<Rightarrow> rr_duration r)\<rparr>"

text \<open>What the client does with the command, when the answer is the reply of the script; the script may run
  whatever the caller sees.\<close>

definition redis_outcome :: "script_reply command_result \<Rightarrow> store_outcome" where
  "redis_outcome r =
     (case r of
        CommandReply ScriptAccepted \<Rightarrow> Accepted
      | CommandReply ScriptReplayed \<Rightarrow> Replayed
      | CommandReply ScriptQuotaExceeded \<Rightarrow> PerKeyQuotaExceeded
      | _ \<Rightarrow> Unavailable)"

text \<open>The client's run as the script's reply completes it: \<open>executed\<close> tells whether the command reached the
  server; the reply of a script that failed is an error, whose message the store does not read.\<close>

definition redis_answered :: "bool \<Rightarrow> script_reply \<Rightarrow> script_reply client_run \<Rightarrow> script_reply client_run" where
  "redis_answered executed reply run =
     (case cr_answer run of
        ClientReplies _ \<Rightarrow>
          if executed \<and> reply \<noteq> ScriptFails then run\<lparr>cr_answer := ClientReplies reply\<rparr>
          else run\<lparr>cr_answer := ClientRejects None\<rparr>
      | _ \<Rightarrow> run)"

definition redis_consume ::
    "cjson \<Rightarrow> redis_configuration \<Rightarrow> u8 list \<Rightarrow> consume_argument \<Rightarrow> bool \<Rightarrow> script_reply client_run \<Rightarrow> bool \<Rightarrow> redis_time
       \<Rightarrow> redis_keys \<Rightarrow> store_outcome \<times> redis_keys" where
  "redis_consume J cfg entropy input executed run writes time ks =
     (case prepareRedisConsume input of
        None \<Rightarrow> (Unavailable, ks)
      | Some r \<Rightarrow>
          let sent = run_script J writes (argumentsFor cfg ''consume'' entropy (Some r)) time ks in
          (redis_outcome (runRedisCommand (redis_answered executed (fst sent) run) False), if executed then snd sent else ks))"

definition createRedisReplayStore ::
    "cjson \<Rightarrow> redis_property js_options \<Rightarrow> jsstring list option client_run \<Rightarrow> u8 list \<Rightarrow> bool \<Rightarrow> script_reply client_run
       \<Rightarrow> bool \<Rightarrow> redis_time \<Rightarrow> redis_keys \<Rightarrow> (configuration_code + redis_configuration) \<times> redis_keys" where
  "createRedisReplayStore J options policyRun entropy executed run writes time ks =
     (case bindE (resolveRedisReplayConfiguration options) (\<lambda>cfg.
           bindE (assertRedisEvictionPolicy cfg policyRun) (\<lambda>_. Inr cfg)) of
        Inl c \<Rightarrow> (Inl c, ks)
      | Inr cfg \<Rightarrow>
          let sent = run_script J writes (argumentsFor cfg ''setup'' entropy None) time ks;
              ks' = (if executed then snd sent else ks) in
          (case runRedisCommand (redis_answered executed (fst sent) run) False of
             CommandReply ScriptReady \<Rightarrow> (Inr cfg, ks')
           | CommandReply ScriptQuarantine \<Rightarrow> (Inr cfg, ks')
           | _ \<Rightarrow> (invalid_redis, ks')))"

end
