(* ===== verification/RedisSafety.thy ===== *)
theory RedisSafety
  imports RedisReplay
begin

text \<open>
  What the replay store on Redis promises: nothing is accepted twice before its deadline, also when the
  history in the server is lost or damaged in a way the script can see, because a new quarantine then
  outlasts every deadline that was lost.
\<close>

section \<open>Texts\<close>

lemma lua_integer_show [simp]: "n \<le> max_safe \<Longrightarrow> lua_integer (show_nat n) = Some n"
proof -
  assume n: "n \<le> max_safe"
  then have "length (show_nat n) \<le> 16" by (subst length_show_nat) (simp_all add: max_safe_def)
  with n show ?thesis by (simp add: lua_integer_def show_nat_digits)
qed

text \<open>Values the script writes: no numbers, no empty array. The law of \<open>cjson\<close> on them; the order of the fields of
  an object is not observed.\<close>

fun encodable :: "cjson_value \<Rightarrow> bool" where
  "encodable (CString s) = True"
| "encodable (CArray vs) = (vs \<noteq> [] \<and> list_all encodable vs)"
| "encodable (CObject fs) = (distinct (map fst fs) \<and> list_all (encodable \<circ> snd) fs)"
| "encodable _ = False"

definition cjson_law :: "cjson \<Rightarrow> bool" where
  "cjson_law J \<longleftrightarrow> (\<forall>v. encodable v \<longrightarrow> cj_decode J (cj_encode J v) = Some v)"

section \<open>Documents\<close>

record replay_record =
  re_identity :: jsstring
  re_thumbprint :: jsstring
  re_deadline :: nat

definition record_table :: "replay_record \<Rightarrow> cjson_value" where
  "record_table r = CObject
     [(lit ''identity'', CString (re_identity r)), (lit ''thumbprint'', CString (re_thumbprint r)),
      (lit ''deadline'', CString (show_nat (re_deadline r)))]"

definition records_table :: "replay_record list \<Rightarrow> cjson_value" where
  "records_table rs = (if rs = [] then CObject [] else CArray (map record_table rs))"

definition document :: "redis_configuration \<Rightarrow> jsstring \<Rightarrow> nat \<Rightarrow> nat \<Rightarrow> replay_record list \<Rightarrow> cjson_value" where
  "document cfg epoch detected final rs = CObject
     [(lit ''version'', CString (lit ''1'')), (lit ''epoch'', CString epoch),
      (lit ''quarantineUntil'', CString (show_nat (detected + rg_recovery cfg))), (lit ''detectedAt'', CString (show_nat detected)),
      (lit ''lastTime'', CString (show_nat final)), (lit ''horizon'', CString (show_nat (rg_recovery cfg))),
      (lit ''capacity'', CString (show_nat (rg_capacity cfg))), (lit ''quota'', CString (show_nat (rg_maxPerKey cfg))),
      (lit ''records'', records_table rs)]"

definition document_keys :: "cjson \<Rightarrow> redis_configuration \<Rightarrow> jsstring \<Rightarrow> nat \<Rightarrow> nat \<Rightarrow> replay_record list \<Rightarrow> redis_keys" where
  "document_keys J cfg epoch detected final rs =
     \<lparr>rk_epoch = RedisString epoch, rk_until = RedisString (show_nat (detected + rg_recovery cfg)),
      rk_state = RedisString (cj_encode J (document cfg epoch detected final rs))\<rparr>"

definition valid_record :: "replay_record \<Rightarrow> bool" where
  "valid_record r \<longleftrightarrow> identity_text (re_identity r) \<and> thumbprint_text (re_thumbprint r) \<and> re_deadline r \<le> max_safe"

definition valid_redis :: "redis_configuration \<Rightarrow> bool" where
  "valid_redis cfg \<longleftrightarrow> 0 < rg_recovery cfg \<and> rg_recovery cfg \<le> max_safe \<and> rg_capacity cfg \<le> MAX_RECORDS \<and> rg_maxPerKey cfg \<le> MAX_RECORDS"

definition valid_document :: "cjson \<Rightarrow> redis_configuration \<Rightarrow> nat \<Rightarrow> jsstring \<Rightarrow> nat \<Rightarrow> nat \<Rightarrow> replay_record list \<Rightarrow> bool" where
  "valid_document J cfg base epoch detected final rs \<longleftrightarrow>
     epoch_text epoch \<and> detected \<le> final \<and> final \<le> base \<and> detected + rg_recovery cfg \<le> max_safe \<and> final \<le> max_safe \<and>
     distinct (map re_identity rs) \<and> list_all valid_record rs \<and> length rs \<le> rg_capacity cfg \<and>
     length (cj_encode J (document cfg epoch detected final rs)) \<le> MAX_STATE_BYTES"

lemma field_names [simp]:
  "lit ''identity'' \<noteq> lit ''thumbprint''" "lit ''identity'' \<noteq> lit ''deadline''" "lit ''thumbprint'' \<noteq> lit ''deadline''"
  by simp_all

lemma record_fields:
  "string_field (record_table r) ''identity'' = Some (re_identity r)"
  "string_field (record_table r) ''thumbprint'' = Some (re_thumbprint r)"
  "string_field (record_table r) ''deadline'' = Some (show_nat (re_deadline r))"
  by (simp_all add: string_field_def record_table_def)

lemma document_fields:
  "string_field (document cfg epoch detected final rs) ''version'' = Some (lit ''1'')"
  "string_field (document cfg epoch detected final rs) ''epoch'' = Some epoch"
  "string_field (document cfg epoch detected final rs) ''quarantineUntil'' = Some (show_nat (detected + rg_recovery cfg))"
  "string_field (document cfg epoch detected final rs) ''detectedAt'' = Some (show_nat detected)"
  "string_field (document cfg epoch detected final rs) ''lastTime'' = Some (show_nat final)"
  "string_field (document cfg epoch detected final rs) ''horizon'' = Some (show_nat (rg_recovery cfg))"
  "string_field (document cfg epoch detected final rs) ''capacity'' = Some (show_nat (rg_capacity cfg))"
  "string_field (document cfg epoch detected final rs) ''quota'' = Some (show_nat (rg_maxPerKey cfg))"
  "lua_field (document cfg epoch detected final rs) ''records'' = Some (records_table rs)"
  by (simp_all add: string_field_def document_def)

lemma encodable_record: "encodable (record_table r)"
  by (simp add: record_table_def)

lemma encodable_document: "encodable (document cfg epoch detected final rs)"
proof -
  have "encodable (records_table rs)"
    by (simp add: records_table_def list_all_iff encodable_record)
  then show ?thesis by (simp add: document_def)
qed

lemma stored_document:
  assumes "cjson_law J" "valid_document J cfg base epoch detected final rs"
  shows "stored_state J (document_keys J cfg epoch detected final rs)
    = Some (epoch, show_nat (detected + rg_recovery cfg), document cfg epoch detected final rs)"
proof -
  have "length (show_nat (detected + rg_recovery cfg)) \<le> 64"
    using assms(2) by (subst length_show_nat) (simp_all add: valid_document_def max_safe_def)
  moreover have "length epoch \<le> 64" using assms(2) by (simp add: valid_document_def epoch_text_def)
  ultimately show ?thesis
    using assms encodable_document [of cfg epoch detected final rs]
    by (simp add: stored_state_def document_keys_def cjson_law_def valid_document_def document_fields del: lit_Cons)
qed

lemma document_records: "stored_records (document cfg epoch detected final rs) = Some (map record_table rs)"
  by (simp add: stored_records_def document_fields records_table_def)

lemma document_consistent:
  assumes "valid_redis cfg" "valid_document J cfg base epoch detected final rs"
  shows "state_consistent base (show_nat (detected + rg_recovery cfg)) (document cfg epoch detected final rs)
    = Some (detected + rg_recovery cfg, rg_capacity cfg)"
proof -
  have "lua_table (lua_field (document cfg epoch detected final rs) ''records'')"
    by (simp add: document_fields records_table_def)
  moreover have "rg_capacity cfg \<le> max_safe" "rg_maxPerKey cfg \<le> max_safe"
    using assms(1) by (simp_all add: valid_redis_def MAX_RECORDS_def max_safe_def)
  ultimately show ?thesis
    using assms by (simp add: state_consistent_def integer_field_def document_fields valid_redis_def valid_document_def)
qed

section \<open>The scan\<close>

definition live_records :: "nat \<Rightarrow> replay_record list \<Rightarrow> replay_record list" where
  "live_records now rs = filter (\<lambda>r. now < re_deadline r) rs"

lemma scan_record_Inr:
  assumes "scan_record a now sc (record_table r) = Inr sc'" "re_deadline r \<le> max_safe"
  shows "scan_count sc' = scan_count sc + 1"
    "scan_live sc' = scan_live sc @ (if now < re_deadline r then [record_table r] else [])"
    "consuming a \<Longrightarrow> scan_replayed sc' \<longleftrightarrow> scan_replayed sc \<or> now < re_deadline r \<and> re_identity r = sa_identity a"
  using assms by (auto simp: scan_record_def record_fields integer_field_def Let_def split: if_splits)

lemma scan_records:
  assumes "foldE (scan_record a now) sc (map record_table rs) = Inr sc'" "list_all valid_record rs"
  shows "scan_count sc' = scan_count sc + length rs \<and>
    scan_live sc' = scan_live sc @ map record_table (live_records now rs) \<and>
    (consuming a \<longrightarrow> (scan_replayed sc' \<longleftrightarrow> scan_replayed sc \<or> (\<exists>r \<in> set (live_records now rs). re_identity r = sa_identity a)))"
  using assms
proof (induction rs arbitrary: sc)
  case (Cons r rs)
  then obtain sc1 where sc1: "scan_record a now sc (record_table r) = Inr sc1"
      "foldE (scan_record a now) sc1 (map record_table rs) = Inr sc'"
    by (auto simp: bindE_eq_Inr)
  have "re_deadline r \<le> max_safe" using Cons.prems(2) by (simp add: valid_record_def)
  note step = scan_record_Inr [OF sc1(1) this]
  from Cons.prems(2) Cons.IH [OF sc1(2)] step show ?case by (auto simp: live_records_def)
qed (simp add: live_records_def)

section \<open>One script\<close>

lemma save_cases:
  "save_state J writes epoch until state reply ks = (ScriptUnavailable, ks) \<or>
   save_state J writes epoch until state reply ks = (ScriptFails, ks) \<or>
   save_state J writes epoch until state reply ks = (reply, \<lparr>rk_epoch = RedisString epoch, rk_until = RedisString until,
     rk_state = RedisString (cj_encode J state)\<rparr>) \<and> length (cj_encode J state) \<le> MAX_STATE_BYTES"
  by (simp add: save_state_def Let_def)

lemma quarantine_document:
  assumes "sa_horizon a = show_nat (rg_recovery cfg)" "sa_capacity a = show_nat (rg_capacity cfg)"
    and "sa_quota a = show_nat (rg_maxPerKey cfg)"
  shows "quarantine_state a base (show_nat (base + rg_recovery cfg)) = document cfg (sa_epoch a) base base []"
  using assms by (simp add: quarantine_state_def document_def records_table_def)

lemma inserted_document:
  "set_field ''lastTime'' (CString (show_nat base))
     (set_field ''records'' (CArray (map record_table rs @ [record_table r])) (document cfg epoch detected final rs'))
   = document cfg epoch detected base (rs @ [r])"
  by (simp add: document_def records_table_def)

text \<open>Arguments that carry the configuration.\<close>

definition configured_arguments :: "redis_configuration \<Rightarrow> script_arguments \<Rightarrow> bool" where
  "configured_arguments cfg a \<longleftrightarrow> sa_horizon a = show_nat (rg_recovery cfg) \<and>
     sa_capacity a = show_nat (rg_capacity cfg) \<and> sa_quota a = show_nat (rg_maxPerKey cfg)"

lemma configured_numbers:
  assumes "valid_redis cfg" "configured_arguments cfg a" "script_numbers_of a = Some n"
  shows "sn_horizon n = rg_recovery cfg" "sn_capacity n = rg_capacity cfg" "epoch_text (sa_epoch a)"
    "consuming a \<Longrightarrow> lua_integer (sa_duration a) = Some (sn_duration n) \<and> identity_text (sa_identity a) \<and> thumbprint_text (sa_thumbprint a)"
proof -
  have "rg_capacity cfg \<le> max_safe" "rg_maxPerKey cfg \<le> max_safe"
    using assms(1) by (simp_all add: valid_redis_def MAX_RECORDS_def max_safe_def)
  then show "sn_horizon n = rg_recovery cfg" "sn_capacity n = rg_capacity cfg" "epoch_text (sa_epoch a)"
    "consuming a \<Longrightarrow> lua_integer (sa_duration a) = Some (sn_duration n) \<and> identity_text (sa_identity a) \<and> thumbprint_text (sa_thumbprint a)"
    using assms by (auto simp: script_numbers_of_def configured_arguments_def valid_redis_def
        split: option.splits if_splits)
qed

definition accepted_record :: "script_arguments \<Rightarrow> nat \<Rightarrow> replay_record" where
  "accepted_record a deadline = \<lparr>re_identity = sa_identity a, re_thumbprint = sa_thumbprint a, re_deadline = deadline\<rparr>"

lemma new_record_table: "new_record a deadline = record_table (accepted_record a deadline)"
  by (simp add: new_record_def record_table_def accepted_record_def)

lemma quarantine_cases:
  assumes "configured_arguments cfg a" "quarantine J writes a (rg_recovery cfg) base ks = (reply, ks')"
  shows "reply \<noteq> ScriptAccepted \<and> (ks' = ks \<or> reply = ScriptQuarantine \<and> ks' = document_keys J cfg (sa_epoch a) base base [] \<and>
    length (cj_encode J (document cfg (sa_epoch a) base base [])) \<le> MAX_STATE_BYTES)"
  using assms save_cases [of J writes "sa_epoch a" "show_nat (base + rg_recovery cfg)" "document cfg (sa_epoch a) base base []"
      ScriptQuarantine ks] quarantine_document [of a cfg base]
  by (auto simp: quarantine_def configured_arguments_def document_keys_def Let_def)

lemma decide_cases:
  assumes "decide J writes a n base epoch until state sc ks = (reply, ks')"
  shows "reply \<noteq> ScriptAccepted \<and> ks' = ks \<or>
    reply = ScriptAccepted \<and> consuming a \<and> \<not> scan_replayed sc \<and> length (scan_live sc) < sn_capacity n \<and>
    (let state' = set_field ''lastTime'' (CString (show_nat base))
         (set_field ''records'' (CArray (scan_live sc @ [new_record a (base + sn_duration n)])) state) in
     length (cj_encode J state') \<le> MAX_STATE_BYTES \<and>
     ks' = \<lparr>rk_epoch = RedisString epoch, rk_until = RedisString until, rk_state = RedisString (cj_encode J state')\<rparr>)"
  using assms save_cases [of J writes epoch until _ ScriptAccepted ks]
  by (auto simp: decide_def Let_def save_state_def split: if_splits)

lemma run_state_cases:
  assumes J: "cjson_law J" and cfg: "valid_redis cfg" and a: "configured_arguments cfg a"
    and n: "script_numbers_of a = Some n"
    and known: "stored_state J ks = None \<or> ks = document_keys J cfg epoch detected final rs \<and>
      valid_document J cfg (deadline_base time) epoch detected final rs"
    and run: "run_state J writes a n time ks = (reply, ks')"
  obtains (kept) "reply \<noteq> ScriptAccepted" "ks' = ks"
  | (detected) "reply = ScriptQuarantine" "ks' = document_keys J cfg (sa_epoch a) (deadline_base time) (deadline_base time) []"
      "length (cj_encode J (document cfg (sa_epoch a) (deadline_base time) (deadline_base time) [])) \<le> MAX_STATE_BYTES"
  | (accepted) new where "reply = ScriptAccepted" "stored_state J ks \<noteq> None" "consuming a"
      "detected + rg_recovery cfg \<le> observed_time time"
      "\<forall>r \<in> set (live_records (observed_time time) rs). re_identity r \<noteq> sa_identity a"
      "new = live_records (observed_time time) rs @ [accepted_record a (deadline_base time + sn_duration n)]"
      "length new \<le> rg_capacity cfg" "ks' = document_keys J cfg epoch detected (deadline_base time) new"
      "length (cj_encode J (document cfg epoch detected (deadline_base time) new)) \<le> MAX_STATE_BYTES"
proof -
  let ?now = "observed_time time" and ?base = "deadline_base time"
  let ?new = "live_records ?now rs @ [accepted_record a (?base + sn_duration n)]"
  let ?q = "quarantine J writes a (rg_recovery cfg) ?base ks"
  note num = configured_numbers [OF cfg a n]
  have fresh: thesis if "?q = (reply, ks')"
    using quarantine_cases [OF a that] kept detected by blast
  show thesis
  proof (cases "stored_state J ks")
    case None
    with run num(1) fresh show thesis by (simp add: run_state_def)
  next
    case (Some st)
    with known have d: "ks = document_keys J cfg epoch detected final rs" "valid_document J cfg ?base epoch detected final rs" by auto
    have fields: "string_field (document cfg epoch detected final rs) ''horizon'' = Some (sa_horizon a)"
      "string_field (document cfg epoch detected final rs) ''capacity'' = Some (sa_capacity a)"
      "string_field (document cfg epoch detected final rs) ''quota'' = Some (sa_quota a)"
      using a by (simp_all add: document_fields configured_arguments_def)
    note st = stored_document [OF J d(2), folded d(1)] document_consistent [OF cfg d(2)] document_records fields
    show thesis
    proof (cases "foldE (scan_record a ?now) redis_scan (map record_table rs)")
      case (Inl u)
      with run num(1) fresh st show thesis by (simp add: run_state_def)
    next
      case (Inr sc)
      have rs: "list_all valid_record rs" using d(2) by (simp add: valid_document_def)
      note sc = scan_records [OF Inr rs]
      consider "rg_capacity cfg < scan_count sc" | "\<not> rg_capacity cfg < scan_count sc" "?now < detected + rg_recovery cfg"
        | "\<not> rg_capacity cfg < scan_count sc" "\<not> ?now < detected + rg_recovery cfg" by blast
      then show thesis
      proof cases
        case 1
        with run num(1) fresh st Inr show thesis by (simp add: run_state_def)
      next
        case 2
        with run kept st Inr show thesis by (simp add: run_state_def)
      next
        case 3
        with run st Inr have dec: "decide J writes a n ?base epoch (show_nat (detected + rg_recovery cfg))
            (document cfg epoch detected final rs) sc ks = (reply, ks')"
          by (simp add: run_state_def)
        have live: "scan_live sc @ [new_record a (?base + sn_duration n)]
            = map record_table (live_records ?now rs) @ [record_table (accepted_record a (?base + sn_duration n))]"
          using sc by (simp add: redis_scan_def new_record_table)
        consider "reply \<noteq> ScriptAccepted" "ks' = ks"
          | "reply = ScriptAccepted" "consuming a" "\<not> scan_replayed sc" "length (scan_live sc) < rg_capacity cfg"
              "length (cj_encode J (document cfg epoch detected ?base ?new)) \<le> MAX_STATE_BYTES"
              "ks' = document_keys J cfg epoch detected ?base ?new"
          using decide_cases [OF dec] by (auto simp only: live inserted_document Let_def document_keys_def num(2))
        then show thesis
        proof cases
          case 1
          then show thesis by (rule kept)
        next
          case 2
          moreover have "\<forall>r \<in> set (live_records ?now rs). re_identity r \<noteq> sa_identity a"
            using 2(2,3) sc by (simp add: redis_scan_def)
          moreover have "length ?new \<le> rg_capacity cfg" using 2(4) sc by (simp add: redis_scan_def)
          moreover have "detected + rg_recovery cfg \<le> ?now" using 3(2) by simp
          ultimately show thesis using Some by (intro accepted [OF _ _ _ _ _ refl]) simp_all
        qed
      qed
    qed
  qed
qed

section \<open>Histories\<close>

definition microseconds :: "redis_time \<Rightarrow> nat" where
  "microseconds t = fst t * 1000000 + snd t"

text \<open>What the script has accepted: the input, the time of the server rounded up, the deadline, and
  whether an execution has answered \<open>quarantine\<close> since.\<close>

record redis_acceptance =
  ac_input :: consume_input
  ac_time :: nat
  ac_deadline :: nat
  ac_quarantined :: bool

definition quarantined :: "script_reply \<Rightarrow> redis_acceptance list \<Rightarrow> redis_acceptance list" where
  "quarantined reply hist = (if reply = ScriptQuarantine then map (ac_quarantined_update (\<lambda>_. True)) hist else hist)"

definition acceptance_of :: "consume_input \<Rightarrow> redis_record \<Rightarrow> redis_time \<Rightarrow> redis_acceptance" where
  "acceptance_of i r time = \<lparr>ac_input = i, ac_time = deadline_base time, ac_deadline = deadline_base time + rr_duration r,
     ac_quarantined = False\<rparr>"

text \<open>
  The keys of one configuration over time, with the acceptances. It begins without a state; at any moment the
  keys may be lost or damaged, as long as the script sees it; commands of any number of instances run at times
  that do not go back, whether or not their replies arrive.
\<close>

inductive redis_reachable ::
    "cjson \<Rightarrow> redis_configuration \<Rightarrow> redis_time \<Rightarrow> redis_keys \<Rightarrow> redis_acceptance list \<Rightarrow> bool" for J cfg where
  fresh: "stored_state J ks = None \<Longrightarrow> redis_reachable J cfg time ks []"
| damaged: "redis_reachable J cfg time ks hist \<Longrightarrow> stored_state J ks' = None \<Longrightarrow> redis_reachable J cfg time ks' hist"
| started: "redis_reachable J cfg time ks hist \<Longrightarrow> microseconds time \<le> microseconds time' \<Longrightarrow>
    run_script J writes (argumentsFor cfg ''setup'' entropy None) time' ks = (reply, ks') \<Longrightarrow>
    redis_reachable J cfg time' ks' (quarantined reply hist)"
| consumed: "redis_reachable J cfg time ks hist \<Longrightarrow> microseconds time \<le> microseconds time' \<Longrightarrow>
    valid_consume default_profile_limits 0 input = Some i \<Longrightarrow> prepareRedisConsume input = Some r \<Longrightarrow>
    run_script J writes (argumentsFor cfg ''consume'' entropy (Some r)) time' ks = (reply, ks') \<Longrightarrow>
    redis_reachable J cfg time' ks'
      (if reply = ScriptAccepted then acceptance_of i r time' # hist else quarantined reply hist)"

lemma times:
  "observed_time t = microseconds t div 1000" "deadline_base t = (microseconds t + 999) div 1000"
  by (simp_all add: observed_time_def deadline_base_def microseconds_def)

lemma times_mono:
  assumes "microseconds t \<le> microseconds t'"
  shows "observed_time t \<le> observed_time t'" "deadline_base t \<le> deadline_base t'"
  using assms by (simp_all add: times div_le_mono)

text \<open>The end of the protection of an acceptance: its deadline, and after a quarantine no more than the
  recovery horizon counted from the acceptance.\<close>

definition protected_until :: "redis_configuration \<Rightarrow> redis_acceptance \<Rightarrow> nat" where
  "protected_until cfg x = (if ac_quarantined x then min (ac_deadline x) (ac_time x + rg_recovery cfg) else ac_deadline x)"

definition redis_remembered ::
    "redis_configuration \<Rightarrow> redis_time \<Rightarrow> nat \<Rightarrow> replay_record list \<Rightarrow> redis_acceptance list \<Rightarrow> bool" where
  "redis_remembered cfg time until rs hist \<longleftrightarrow> (\<forall>x \<in> set hist. observed_time time < protected_until cfg x \<longrightarrow>
     protected_until cfg x \<le> until \<or> (\<exists>r \<in> set rs. re_identity r = redis_identity (ac_input x) \<and> protected_until cfg x \<le> re_deadline r))"

definition accepted_before :: "redis_time \<Rightarrow> redis_acceptance list \<Rightarrow> bool" where
  "accepted_before time hist \<longleftrightarrow> (\<forall>x \<in> set hist. ac_time x \<le> deadline_base time)"

definition redis_inv :: "cjson \<Rightarrow> redis_configuration \<Rightarrow> redis_time \<Rightarrow> redis_keys \<Rightarrow> redis_acceptance list \<Rightarrow> bool" where
  "redis_inv J cfg time ks hist \<longleftrightarrow> accepted_before time hist \<and>
     (stored_state J ks = None \<or>
      (\<exists>epoch detected final rs. ks = document_keys J cfg epoch detected final rs \<and>
         valid_document J cfg (deadline_base time) epoch detected final rs \<and>
         redis_remembered cfg time (detected + rg_recovery cfg) rs hist))"

lemma remembered_later: "redis_remembered cfg t u rs hist \<Longrightarrow> observed_time t \<le> observed_time t' \<Longrightarrow> redis_remembered cfg t' u rs hist"
  by (fastforce simp: redis_remembered_def)

lemma before_later: "accepted_before t hist \<Longrightarrow> deadline_base t \<le> deadline_base t' \<Longrightarrow> accepted_before t' hist"
  by (fastforce simp: accepted_before_def)

lemma protected_quarantined [simp]: "protected_until cfg (x\<lparr>ac_quarantined := True\<rparr>) \<le> protected_until cfg x"
  "protected_until cfg (x\<lparr>ac_quarantined := True\<rparr>) \<le> ac_time x + rg_recovery cfg"
  by (simp_all add: protected_until_def)

lemma before_quarantined [simp]: "accepted_before t (quarantined reply hist) = accepted_before t hist"
  by (auto simp: accepted_before_def quarantined_def)

lemma remembered_quarantined:
  assumes "redis_remembered cfg t u rs hist"
  shows "redis_remembered cfg t u rs (quarantined reply hist)"
proof -
  have "protected_until cfg (x\<lparr>ac_quarantined := True\<rparr>) \<le> u \<or>
      (\<exists>r \<in> set rs. re_identity r = redis_identity (ac_input x) \<and> protected_until cfg (x\<lparr>ac_quarantined := True\<rparr>) \<le> re_deadline r)"
    if "x \<in> set hist" "observed_time t < protected_until cfg (x\<lparr>ac_quarantined := True\<rparr>)" for x
  proof -
    note le = protected_quarantined(1) [of cfg x]
    from assms that(1) less_le_trans [OF that(2) le]
    have "protected_until cfg x \<le> u \<or> (\<exists>r \<in> set rs. re_identity r = redis_identity (ac_input x) \<and> protected_until cfg x \<le> re_deadline r)"
      by (simp add: redis_remembered_def)
    with le order_trans show ?thesis by blast
  qed
  with assms show ?thesis by (simp add: redis_remembered_def quarantined_def)
qed

lemma inv_quarantined: "redis_inv J cfg time ks hist \<Longrightarrow> redis_inv J cfg time ks (quarantined reply hist)"
  unfolding redis_inv_def using remembered_quarantined by (metis before_quarantined)

lemma document_later: "valid_document J cfg b e d f rs \<Longrightarrow> b \<le> b' \<Longrightarrow> valid_document J cfg b' e d f rs"
  by (simp add: valid_document_def)

lemma run_script_Some:
  assumes "run_script J writes a time ks = (reply, ks')"
  obtains (refused) "reply = ScriptUnavailable" "ks' = ks"
  | (runs) n where "script_numbers_of a = Some n" "deadline_base time + sn_horizon n \<le> max_safe"
      "consuming a \<Longrightarrow> deadline_base time + sn_duration n \<le> max_safe" "run_state J writes a n time ks = (reply, ks')"
  using assms by (auto simp: run_script_def Let_def split: option.splits if_splits)

lemma kept_inv: "redis_inv J cfg time ks hist \<Longrightarrow> microseconds time \<le> microseconds time' \<Longrightarrow> redis_inv J cfg time' ks hist"
proof -
  assume inv: "redis_inv J cfg time ks hist" and later: "microseconds time \<le> microseconds time'"
  note mono = times_mono [OF later]
  show "redis_inv J cfg time' ks hist"
    using inv before_later [OF _ mono(2)] document_later [OF _ mono(2)] remembered_later [OF _ mono(1)]
    unfolding redis_inv_def by blast
qed

text \<open>A script keeps the invariant, and accepts only what is not protected.\<close>

lemma script_step:
  assumes J: "cjson_law J" and cfg: "valid_redis cfg" and inv: "redis_inv J cfg time ks hist"
    and later: "microseconds time \<le> microseconds time'" and a: "configured_arguments cfg a"
    and run: "run_script J writes a time' ks = (reply, ks')"
  shows "reply \<noteq> ScriptAccepted \<and> redis_inv J cfg time' ks' (quarantined reply hist) \<or>
    reply = ScriptAccepted \<and> consuming a \<and>
    (\<forall>x \<in> set hist. redis_identity (ac_input x) = sa_identity a \<longrightarrow> protected_until cfg x \<le> observed_time time') \<and>
    (\<forall>i r. redis_identity i = sa_identity a \<longrightarrow> lua_integer (sa_duration a) = Some (rr_duration r) \<longrightarrow>
       redis_inv J cfg time' ks' (acceptance_of i r time' # hist))"
  using run
proof (cases rule: run_script_Some)
  case refused
  with inv_quarantined [OF kept_inv [OF inv later]] show ?thesis by simp
next
  case (runs n)
  let ?base = "deadline_base time'" and ?now = "observed_time time'"
  note num = configured_numbers [OF cfg a runs(1)]
  note mono = times_mono [OF later]
  obtain epoch detected final rs where known: "stored_state J ks = None \<or> ks = document_keys J cfg epoch detected final rs \<and>
      valid_document J cfg ?base epoch detected final rs \<and> redis_remembered cfg time' (detected + rg_recovery cfg) rs hist"
    using kept_inv [OF inv later] unfolding redis_inv_def by blast
  have before: "accepted_before time' hist" using inv before_later mono(2) unfolding redis_inv_def by blast
  from known have known': "stored_state J ks = None \<or> ks = document_keys J cfg epoch detected final rs \<and>
      valid_document J cfg ?base epoch detected final rs" by blast
  show ?thesis
  proof (cases rule: run_state_cases [OF J cfg a runs(1) known' runs(4)])
    case 1
    with inv_quarantined [OF kept_inv [OF inv later]] show ?thesis by simp
  next
    case 2
    have "valid_document J cfg ?base (sa_epoch a) ?base ?base []"
      using 2(3) num(1,3) runs(2) cfg by (simp add: valid_document_def valid_redis_def)
    moreover have "redis_remembered cfg time' (?base + rg_recovery cfg) [] (quarantined reply hist)"
    proof -
      have "protected_until cfg (x\<lparr>ac_quarantined := True\<rparr>) \<le> ?base + rg_recovery cfg" if "x \<in> set hist" for x
        using before that order_trans [OF protected_quarantined(2) [of cfg x]] by (simp add: accepted_before_def)
      then show ?thesis by (simp add: redis_remembered_def quarantined_def 2(1))
    qed
    moreover have "accepted_before time' (quarantined reply hist)" using before by simp
    ultimately show ?thesis using 2(1,2) unfolding redis_inv_def by blast
  next
    case (3 new)
    from known 3(2) have d: "valid_document J cfg ?base epoch detected final rs"
      "redis_remembered cfg time' (detected + rg_recovery cfg) rs hist" by blast+
    have old: "\<forall>x \<in> set hist. ?now < protected_until cfg x \<longrightarrow>
        (\<exists>r \<in> set (live_records ?now rs). re_identity r = redis_identity (ac_input x) \<and> protected_until cfg x \<le> re_deadline r)"
      using d(2) 3(4) by (fastforce simp: redis_remembered_def live_records_def)
    have past: "\<forall>x \<in> set hist. redis_identity (ac_input x) = sa_identity a \<longrightarrow> protected_until cfg x \<le> ?now"
      using old 3(5) by (fastforce simp: not_less [symmetric])
    have "redis_inv J cfg time' ks' (acceptance_of i r time' # hist)"
      if i: "redis_identity i = sa_identity a" "lua_integer (sa_duration a) = Some (rr_duration r)" for i r
    proof -
      have dur: "sn_duration n = rr_duration r" using num(4) [OF 3(3)] i(2) by simp
      have "valid_record (accepted_record a (?base + rr_duration r))"
        using num(4) [OF 3(3)] runs(3) [OF 3(3)] by (simp add: valid_record_def accepted_record_def dur)
      moreover have "distinct (map re_identity new)"
        using d(1) 3(5) by (auto simp: 3(6) valid_document_def live_records_def accepted_record_def distinct_map_filter)
      ultimately have "valid_document J cfg ?base epoch detected ?base new"
        using d(1) 3(7,9) runs(2) by (auto simp: valid_document_def 3(6) live_records_def list_all_iff dur)
      moreover have "redis_remembered cfg time' (detected + rg_recovery cfg) new (acceptance_of i r time' # hist)"
        using old i(1) by (fastforce simp: redis_remembered_def 3(6) accepted_record_def acceptance_of_def protected_until_def dur)
      moreover have "accepted_before time' (acceptance_of i r time' # hist)"
        using before by (simp add: accepted_before_def acceptance_of_def)
      ultimately show ?thesis using 3(8) unfolding redis_inv_def by blast
    qed
    with 3(1,3) past show ?thesis by blast
  qed
qed

lemma configured_argumentsFor: "configured_arguments cfg (argumentsFor cfg mode entropy r)"
  by (simp add: configured_arguments_def argumentsFor_def)

lemma consuming_argumentsFor: "consuming (argumentsFor cfg ''consume'' entropy r)" "\<not> consuming (argumentsFor cfg ''setup'' entropy r)"
  by (simp_all add: consuming_def argumentsFor_def)

lemma redis_prepared:
  assumes "valid_consume default_profile_limits 0 input = Some i" "prepareRedisConsume input = Some r"
  shows "rr_identity r = redis_identity i" "rr_duration r \<le> max_safe" "rr_duration r = (ci_until i - ci_now i) * 1000"
  using assms by (auto simp: prepareRedisConsume_def Let_def split: if_splits)

lemma redis_reachable_inv:
  assumes "redis_reachable J cfg time ks hist" "cjson_law J" "valid_redis cfg"
  shows "redis_inv J cfg time ks hist"
  using assms
proof (induction rule: redis_reachable.induct)
  case (fresh ks time)
  then show ?case by (simp add: redis_inv_def accepted_before_def)
next
  case (damaged time ks hist ks')
  then show ?case by (simp add: redis_inv_def)
next
  case (started time ks hist time' writes entropy reply ks')
  from script_step [OF started.prems started.IH [OF started.prems] started.hyps(2) configured_argumentsFor started.hyps(3)]
  show ?case using consuming_argumentsFor(2) by blast
next
  case (consumed time ks hist time' input i r writes entropy reply ks')
  note p = redis_prepared [OF consumed.hyps(3,4)]
  have "sa_identity (argumentsFor cfg ''consume'' entropy (Some r)) = redis_identity i"
    "lua_integer (sa_duration (argumentsFor cfg ''consume'' entropy (Some r))) = Some (rr_duration r)"
    using p by (simp_all add: argumentsFor_def)
  with script_step [OF consumed.prems consumed.IH [OF consumed.prems] consumed.hyps(2) configured_argumentsFor consumed.hyps(5)]
  show ?case by auto
qed

lemma resolved_redis: "resolveRedisReplayConfiguration options = Inr cfg \<Longrightarrow> valid_redis cfg"
proof -
  assume r: "resolveRedisReplayConfiguration options = Inr cfg"
  have quota: "redis_quota d v = Inr n \<Longrightarrow> d \<le> 10000 \<Longrightarrow> n \<le> 10000" for d v n
    by (induction d v rule: redis_quota.induct) (auto split: if_splits)
  from r obtain own where own: "redis_milliseconds (redis_option own ''recoveryHorizonSeconds'') = Inr (rg_recovery cfg)"
      "redis_quota 10000 (redis_option own ''capacity'') = Inr (rg_capacity cfg)"
      "redis_quota 1000 (redis_option own ''maxPerKey'') = Inr (rg_maxPerKey cfg)"
    by (cases options) (auto simp: bindE_eq_Inr split: if_splits)
  from own(1) have "0 < rg_recovery cfg \<and> rg_recovery cfg \<le> max_safe"
    by (auto simp: redis_milliseconds_def split: redis_value.splits js_number.splits if_splits)
  then show ?thesis
    using quota [OF own(2)] quota [OF own(3)] by (simp add: valid_redis_def MAX_RECORDS_def)
qed

lemma outcome_accepted:
  assumes "fst (redis_consume J cfg entropy input executed run writes time ks) = Accepted"
  obtains r ks' where "prepareRedisConsume input = Some r"
    "run_script J writes (argumentsFor cfg ''consume'' entropy (Some r)) time ks = (ScriptAccepted, ks')"
proof -
  from assms obtain r where r: "prepareRedisConsume input = Some r"
      "redis_outcome (runRedisCommand (redis_answered executed
         (fst (run_script J writes (argumentsFor cfg ''consume'' entropy (Some r)) time ks)) run) False) = Accepted"
    by (auto simp: redis_consume_def Let_def split: option.splits)
  then have "fst (run_script J writes (argumentsFor cfg ''consume'' entropy (Some r)) time ks) = ScriptAccepted"
    by (auto simp: redis_outcome_def runRedisCommand_def client_command_def redis_answered_def Let_def
        split: command_result.splits script_reply.splits client_answer.splits option.splits if_splits)
  with r(1) that show thesis by (metis prod.collapse)
qed

text \<open>C4. No replay on Redis. For one configuration, a server whose clock does not go back, and losses or damage
  that the script can see, whatever commands of any instance follow the acceptance of a scope, key and nonce, and
  whether their replies arrive or not: as long as no execution has answered \<open>quarantine\<close> since, no later
  consumption of the same three values is accepted before the deadline of the first; and after a quarantine none
  is accepted before the deadline or before the recovery horizon, counted from the acceptance, is over, whichever
  is first. The second bound is the smaller one where the horizon is shorter than the retention of the input, as
  the horizon that \<open>recoveryHorizonSeconds\<close> computes can be; the code does not relate the two.\<close>

theorem redis_no_replay:
  assumes "cjson_law J" and "resolveRedisReplayConfiguration options = Inr cfg"
    and "redis_reachable J cfg time ks hist" and "microseconds time \<le> microseconds time'"
    and "first \<in> set hist" and "valid_consume default_profile_limits 0 input = Some again"
    and "ci_scope again = ci_scope (ac_input first)" "ci_thumbprint again = ci_thumbprint (ac_input first)"
      "ci_nonce again = ci_nonce (ac_input first)"
    and "observed_time time' < ac_deadline first"
    and "ac_quarantined first \<Longrightarrow> observed_time time' < ac_time first + rg_recovery cfg"
  shows "fst (redis_consume J cfg entropy input executed run writes time' ks) \<noteq> Accepted"
proof
  assume "fst (redis_consume J cfg entropy input executed run writes time' ks) = Accepted"
  then obtain r ks' where r: "prepareRedisConsume input = Some r"
      "run_script J writes (argumentsFor cfg ''consume'' entropy (Some r)) time' ks = (ScriptAccepted, ks')"
    by (rule outcome_accepted)
  have cfg: "valid_redis cfg" by (rule resolved_redis [OF assms(2)])
  have "redis_identity (ac_input first) = sa_identity (argumentsFor cfg ''consume'' entropy (Some r))"
    using redis_prepared(1) [OF assms(6) r(1)] assms(7-9) by (simp add: argumentsFor_def redis_identity_def identity_of_def)
  with script_step [OF assms(1) cfg redis_reachable_inv [OF assms(3,1) cfg] assms(4) configured_argumentsFor r(2)] assms(5)
  have "protected_until cfg first \<le> observed_time time'" by blast
  with assms(10,11) show False by (simp add: protected_until_def split: if_splits)
qed

end
