(* ===== verification/RedisSample.thy ===== *)
theory RedisSample
  imports RedisSafety KeySet
begin

text \<open>One history on Redis: a first command finds no state, after the quarantine an input is accepted, and a
  second consumption of it is not. The sample's encoder writes tags and lengths.\<close>

section \<open>An encoder\<close>

fun sample_encode :: "cjson_value \<Rightarrow> jsstring" where
  "sample_encode (CString s) = [0, length s] @ s"
| "sample_encode (CArray vs) = [1, length vs] @ concat (map sample_encode vs)"
| "sample_encode (CObject fs) = [2, length fs] @ concat (map (\<lambda>(k, v). length k # k @ sample_encode v) fs)"
| "sample_encode (CNumber n) = [3]"
| "sample_encode (CBoolean b) = [3]"
| "sample_encode CNull = [3]"

fun decode_value :: "nat \<Rightarrow> jsstring \<Rightarrow> (cjson_value \<times> jsstring) option"
  and decode_values :: "nat \<Rightarrow> nat \<Rightarrow> jsstring \<Rightarrow> (cjson_value list \<times> jsstring) option"
  and decode_fields :: "nat \<Rightarrow> nat \<Rightarrow> jsstring \<Rightarrow> ((jsstring \<times> cjson_value) list \<times> jsstring) option" where
  "decode_value (Suc f) (t # n # s) =
     (if t = 0 then (if n \<le> length s then Some (CString (take n s), drop n s) else None)
      else if t = 1 then map_option (\<lambda>(vs, r). (CArray vs, r)) (decode_values f n s)
      else if t = 2 then map_option (\<lambda>(fs, r). (CObject fs, r)) (decode_fields f n s)
      else None)"
| "decode_value _ _ = None"
| "decode_values f 0 s = Some ([], s)"
| "decode_values 0 (Suc n) s = None"
| "decode_values (Suc f) (Suc n) s =
     (case decode_value f s of
        None \<Rightarrow> None
      | Some (v, r) \<Rightarrow> map_option (\<lambda>(vs, r). (v # vs, r)) (decode_values f n r))"
| "decode_fields f 0 s = Some ([], s)"
| "decode_fields (Suc f) (Suc n) (m # s) =
     (if length s < m then None
      else case decode_value f (drop m s) of
        None \<Rightarrow> None
      | Some (v, r) \<Rightarrow> map_option (\<lambda>(fs, r). ((take m s, v) # fs, r)) (decode_fields f n r))"
| "decode_fields _ _ _ = None"

definition sample_cjson :: cjson where
  "sample_cjson = \<lparr>cj_encode = sample_encode,
     cj_decode = (\<lambda>s. case decode_value (length s) s of Some (v, []) \<Rightarrow> Some v | _ \<Rightarrow> None)\<rparr>"

definition decodes :: "cjson_value \<Rightarrow> bool" where
  "decodes v \<longleftrightarrow> (\<forall>f r. length (sample_encode v) \<le> f \<longrightarrow> decode_value f (sample_encode v @ r) = Some (v, r))"

lemma decode_values_encode:
  "\<forall>v \<in> set vs. decodes v \<Longrightarrow> length (concat (map sample_encode vs)) < f \<Longrightarrow>
     decode_values f (length vs) (concat (map sample_encode vs) @ r) = Some (vs, r)"
proof (induction vs arbitrary: f)
  case (Cons v vs)
  then obtain g where f: "f = Suc g" by (cases f) auto
  moreover have "length (concat (map sample_encode vs)) < g"
    using Cons.prems(2) f by (cases v) auto
  ultimately show ?case using Cons by (simp add: decodes_def)
qed simp

lemma decode_fields_encode:
  "\<forall>e \<in> set fs. decodes (snd e) \<Longrightarrow> length (concat (map (\<lambda>(k, v). length k # k @ sample_encode v) fs)) < f \<Longrightarrow>
     decode_fields f (length fs) (concat (map (\<lambda>(k, v). length k # k @ sample_encode v) fs) @ r) = Some (fs, r)"
proof (induction fs arbitrary: f)
  case (Cons e fs)
  then obtain g k v where f: "f = Suc g" "e = (k, v)" by (cases f; cases e) auto
  with Cons show ?case by (simp add: decodes_def)
qed simp

lemma encodable_decodes: "encodable v \<Longrightarrow> decodes v"
proof (induction v)
  case (CString s)
  have "decode_value f (sample_encode (CString s) @ r) = Some (CString s, r)" if "length (sample_encode (CString s)) \<le> f" for f r
    using that by (cases f) simp_all
  then show ?case by (simp add: decodes_def)
next
  case (CArray vs)
  then have "\<forall>v \<in> set vs. decodes v" by (simp add: list_all_iff)
  note read = decode_values_encode [OF this]
  have "decode_value f (sample_encode (CArray vs) @ r) = Some (CArray vs, r)" if "length (sample_encode (CArray vs)) \<le> f" for f r
    using that read by (cases f) simp_all
  then show ?case by (simp add: decodes_def)
next
  case (CObject fs)
  then have "\<forall>e \<in> set fs. decodes (snd e)" by (fastforce simp: list_all_iff)
  note read = decode_fields_encode [OF this]
  have "decode_value f (sample_encode (CObject fs) @ r) = Some (CObject fs, r)" if "length (sample_encode (CObject fs)) \<le> f" for f r
    using that read by (cases f) simp_all
  then show ?case by (simp add: decodes_def)
qed simp_all

lemma sample_law: "cjson_law sample_cjson"
  unfolding cjson_law_def
proof (intro allI impI)
  fix v assume "encodable v"
  then have "decode_value (length (sample_encode v)) (sample_encode v @ []) = Some (v, [])"
    using encodable_decodes unfolding decodes_def by blast
  then show "cj_decode sample_cjson (cj_encode sample_cjson v) = Some v" by (simp add: sample_cjson_def)
qed

section \<open>The history\<close>

definition redis_sample_options :: "redis_property js_options" where
  "redis_sample_options = OwnKeys [
     (StringKey (lit ''client''), RedisData (RedisClient True)), (StringKey (lit ''namespace''), RedisData (RedisText (lit ''n''))),
     (StringKey (lit ''recoveryHorizonSeconds''), RedisData (RedisNumber (JsInt 60)))]"

definition redis_sample :: redis_configuration where
  "redis_sample = \<lparr>rg_prefix = key_prefix (lit ''n''), rg_recovery = 60000, rg_capacity = 10000, rg_maxPerKey = 1000,
     rg_acknowledge = False\<rparr>"

lemma redis_sample_resolved: "resolveRedisReplayConfiguration redis_sample_options = Inr redis_sample"
  by (simp add: redis_sample_options_def redis_sample_def redis_option_names_def redis_option_def redis_milliseconds_def
      redis_namespace_def redis_acknowledgement_def is_safe_integer_def max_safe_def)

definition redis_sample_input :: consume_input where
  "redis_sample_input = \<lparr>ci_scope = lit ''s'', ci_thumbprint = replicate 43 65, ci_nonce = lit ''n'', ci_now = 970, ci_until = 1000\<rparr>"

definition redis_sample_record :: redis_record where
  "redis_sample_record = \<lparr>rr_identity = redis_identity redis_sample_input, rr_thumbprint = replicate 43 65, rr_duration = 30000\<rparr>"

lemma redis_sample_valid: "valid_consume default_profile_limits 0 (sample_consume 970) = Some redis_sample_input"
proof -
  have "default_profile_limits = sample_limits" by (simp add: default_profile_limits_def sample_limits_def)
  then show ?thesis using sample_valid [of 970 0] by (simp add: redis_sample_input_def)
qed

lemma redis_sample_prepared: "prepareRedisConsume (sample_consume 970) = Some redis_sample_record"
  by (simp add: prepareRedisConsume_def redis_sample_valid redis_sample_record_def max_safe_def)
    (simp add: redis_sample_input_def)

abbreviation sample_entropy :: "u8 list" where
  "sample_entropy \<equiv> replicate 16 0"

abbreviation sample_epoch :: jsstring where
  "sample_epoch \<equiv> replicate 32 48"

lemma sample_epoch_text: "concat (map (hex2 \<circ> unat) sample_entropy) = sample_epoch" "epoch_text sample_epoch"
proof -
  have "concat (map (hex2 \<circ> unat) (replicate n (0 :: u8))) = replicate (2 * n) 48" for n
    by (induction n) (simp_all add: hex2_def hexdigit_def)
  from this [of 16] show "concat (map (hex2 \<circ> unat) sample_entropy) = sample_epoch" by simp
  show "epoch_text sample_epoch" by (simp add: epoch_text_def digit_def list_all_iff)
qed

lemma utf8_ascii: "list_all (\<lambda>c. c < 128) s \<Longrightarrow> utf8_encode s = s"
  by (induction s) (simp_all add: utf8_encode.simps)

lemma sample_identity: "identity_text (redis_identity redis_sample_input)" "length (redis_identity redis_sample_input) \<le> 100"
proof -
  have plain: "json_quote (replicate 43 65) = [34] @ replicate 43 65 @ [34]"
  proof -
    have "concat (map json_escape (replicate n 65)) = replicate n 65" for n
      by (induction n) (simp_all add: json_escape_def)
    then show ?thesis by (simp add: json_quote_def)
  qed
  have ident: "identity_of redis_sample_input = [91, 34, 115, 34, 44, 34] @ replicate 43 65 @ [34, 44, 34, 110, 34, 93]"
    by (simp add: identity_of_def redis_sample_input_def json_array_def plain) (simp add: json_quote_def json_escape_def)
  then have "utf8_encode (identity_of redis_sample_input) = identity_of redis_sample_input"
    by (intro utf8_ascii) (simp add: list_all_iff)
  then have len: "length (redis_identity redis_sample_input) = 74"
    by (simp add: redis_identity_def base64url_encode_def length_b64_sextets ident)
  then show "length (redis_identity redis_sample_input) \<le> 100" by simp
  have "redis_identity redis_sample_input \<noteq> []" using len by auto
  with len show "identity_text (redis_identity redis_sample_input)"
    using base64url_chars by (simp add: identity_text_def redis_identity_def)
qed

lemma sample_thumbprint_text: "thumbprint_text (replicate 43 65)"
  by (simp add: thumbprint_text_def list_all_iff base64url_char_def alpha_def)

abbreviation sample_arguments :: script_arguments where
  "sample_arguments \<equiv> argumentsFor redis_sample ''consume'' sample_entropy (Some redis_sample_record)"

definition redis_lost :: redis_keys where
  "redis_lost = \<lparr>rk_epoch = RedisMissing, rk_until = RedisMissing, rk_state = RedisMissing\<rparr>"

definition redis_quarantined :: redis_keys where
  "redis_quarantined = document_keys sample_cjson redis_sample sample_epoch 10000 10000 []"

definition redis_admitted :: redis_keys where
  "redis_admitted = document_keys sample_cjson redis_sample sample_epoch 10000 100000
     [\<lparr>re_identity = redis_identity redis_sample_input, re_thumbprint = replicate 43 65, re_deadline = 130000\<rparr>]"

lemma sample_lost: "stored_state sample_cjson redis_lost = None"
  by (simp add: stored_state_def redis_lost_def)

lemma sample_numbers: "script_numbers_of sample_arguments = Some \<lparr>sn_horizon = 60000, sn_capacity = 10000, sn_quota = 1000, sn_duration = 30000\<rparr>"
  using sample_epoch_text sample_identity sample_thumbprint_text
  by (simp add: script_numbers_of_def argumentsFor_def consuming_def redis_sample_def redis_sample_record_def
      max_safe_def MAX_RECORDS_def)

lemma sample_cfg: "valid_redis redis_sample"
  by (rule resolved_redis [OF redis_sample_resolved])

lemma sample_sizes:
  "length (cj_encode sample_cjson (document redis_sample sample_epoch 10000 10000 [])) \<le> MAX_STATE_BYTES"
  "length (cj_encode sample_cjson (document redis_sample sample_epoch 10000 100000
     [\<lparr>re_identity = redis_identity redis_sample_input, re_thumbprint = replicate 43 65, re_deadline = 130000\<rparr>])) \<le> MAX_STATE_BYTES"
  using sample_identity(2)
  by (simp_all add: sample_cjson_def document_def records_table_def record_table_def redis_sample_def MAX_STATE_BYTES_def show_nat.simps)

lemma sample_epoch_of: "sa_epoch sample_arguments = sample_epoch"
  using sample_epoch_text(1) by (simp add: argumentsFor_def)

lemma sample_detects: "run_script sample_cjson True sample_arguments (10, 0) redis_lost = (ScriptQuarantine, redis_quarantined)"
proof -
  have base: "deadline_base (10, 0) = 10000" by (simp add: deadline_base_def)
  have H: "rg_recovery redis_sample = 60000" by (simp add: redis_sample_def)
  have doc: "quarantine_state sample_arguments 10000 (show_nat 70000) = document redis_sample sample_epoch 10000 10000 []"
    using quarantine_document [of sample_arguments redis_sample 10000] configured_argumentsFor [of redis_sample]
    by (simp add: H sample_epoch_of configured_arguments_def)
  have "quarantine sample_cjson True sample_arguments 60000 10000 redis_lost = (ScriptQuarantine, redis_quarantined)"
    using sample_sizes(1) configured_argumentsFor [of redis_sample]
    by (simp add: quarantine_def doc save_state_def configured_arguments_def sample_epoch_of redis_quarantined_def document_keys_def
        H Let_def)
  then show ?thesis by (simp add: run_script_def run_state_def sample_numbers sample_lost base max_safe_def)
qed

lemma sample_admits: "run_script sample_cjson True sample_arguments (100, 0) redis_quarantined = (ScriptAccepted, redis_admitted)"
proof -
  have time: "deadline_base (100, 0) = 100000" "observed_time (100, 0) = 100000"
    by (simp_all add: deadline_base_def observed_time_def)
  have valid: "valid_document sample_cjson redis_sample 100000 sample_epoch 10000 10000 []"
    using sample_sizes(1) sample_epoch_text(2) by (simp add: valid_document_def redis_sample_def max_safe_def)
  have H: "rg_recovery redis_sample = 60000" by (simp add: redis_sample_def)
  note st = stored_document [OF sample_law valid] document_consistent [OF sample_cfg valid] document_records
    [where cfg = redis_sample and epoch = sample_epoch and detected = 10000 and final = 10000 and rs = "[]"]
  have fields: "string_field (document redis_sample sample_epoch 10000 10000 []) ''horizon'' = Some (sa_horizon sample_arguments)"
    "string_field (document redis_sample sample_epoch 10000 10000 []) ''capacity'' = Some (sa_capacity sample_arguments)"
    "string_field (document redis_sample sample_epoch 10000 10000 []) ''quota'' = Some (sa_quota sample_arguments)"
    by (simp_all add: document_fields argumentsFor_def)
  have new: "new_record sample_arguments 130000 = record_table
      \<lparr>re_identity = redis_identity redis_sample_input, re_thumbprint = replicate 43 65, re_deadline = 130000\<rparr>"
    by (simp add: new_record_table accepted_record_def argumentsFor_def redis_sample_record_def)
  have "decide sample_cjson True sample_arguments \<lparr>sn_horizon = 60000, sn_capacity = 10000, sn_quota = 1000, sn_duration = 30000\<rparr> 100000
      sample_epoch (show_nat 70000) (document redis_sample sample_epoch 10000 10000 []) redis_scan redis_quarantined
      = (ScriptAccepted, redis_admitted)"
    using inserted_document [where rs = "[]" and rs' = "[]" and cfg = redis_sample and epoch = sample_epoch and detected = 10000
        and final = 10000 and base = 100000] sample_sizes(2)
    by (simp add: decide_def consuming_argumentsFor redis_scan_def new save_state_def redis_admitted_def document_keys_def H Let_def)
  then show ?thesis
    using st fields
    by (simp add: run_script_def run_state_def sample_numbers time redis_quarantined_def H max_safe_def redis_scan_def Let_def)
qed

definition sample_acceptance :: redis_acceptance where
  "sample_acceptance = acceptance_of redis_sample_input redis_sample_record (100, 0)"

lemma sample_acceptance_fields:
  "ac_input sample_acceptance = redis_sample_input" "ac_deadline sample_acceptance = 130000" "\<not> ac_quarantined sample_acceptance"
  by (simp_all add: sample_acceptance_def acceptance_of_def deadline_base_def redis_sample_record_def)

lemma sample_history: "redis_reachable sample_cjson redis_sample (100, 0) redis_admitted [sample_acceptance]"
proof -
  have 1: "redis_reachable sample_cjson redis_sample (10, 0) redis_quarantined []"
    using redis_reachable.consumed [OF redis_reachable.fresh [OF sample_lost, of redis_sample "(10, 0)"] _
        redis_sample_valid redis_sample_prepared sample_detects] by (simp add: quarantined_def)
  from redis_reachable.consumed [OF this _ redis_sample_valid redis_sample_prepared sample_admits] show ?thesis
    by (simp add: microseconds_def sample_acceptance_def)
qed

theorem redis_no_replay_witness:
  "\<exists>ks. redis_reachable sample_cjson redis_sample (100, 0) ks [sample_acceptance] \<and>
     (\<exists>run. fst (redis_consume sample_cjson redis_sample sample_entropy (sample_consume 970) True run True (110, 0) ks) \<noteq> Accepted)"
proof -
  have "fst (redis_consume sample_cjson redis_sample sample_entropy (sample_consume 970) True run True (110, 0) redis_admitted) \<noteq> Accepted"
    for run
    by (rule redis_no_replay [OF sample_law redis_sample_resolved sample_history _ _ redis_sample_valid, of _ sample_acceptance])
      (simp_all add: microseconds_def observed_time_def sample_acceptance_fields)
  with sample_history show ?thesis by blast
qed

end
