(* ===== verification/Spec2Isabelle.thy ===== *)
theory Spec2Isabelle
  imports CoreSafety ProfileTime DirAddressSafety VerifierRun NetworkRun DirFetchSample HttpAdmission SigningSample RedisSample
begin

text \<open>
  A verification development for agentsig, an implementation of HTTP Message Signatures
  (RFC 9421) for web agents in TypeScript (\<^verbatim>\<open>packages/\<close>).
\<close>

end
